(* ===== verification/Prelude.thy ===== *)
theory Prelude
  imports Main "HOL-Library.Monad_Syntax"
begin

text \<open>
  Shared vocabulary of the development: the C++ integer conversions written out on \<open>int\<close>, bit
  strings as lists of booleans (most significant bit first, the order in which the code
  writes and reads them), and the lemma collections the component theories extend.
\<close>

unbundle bit_operations_syntax

named_theorems bits_simps \<open>rewrite rules on bit strings and their values\<close>
named_theorems trip_intros \<open>introduction rules for writer/reader pairs\<close>
named_theorems tr_simps \<open>rewrite rules on coefficient buffers\<close>

section \<open>Unsigned conversions\<close>

definition u8 :: "int \<Rightarrow> int" where
  "u8 x = x mod 2 ^ 8"

definition u16 :: "int \<Rightarrow> int" where
  "u16 x = x mod 2 ^ 16"

definition u32 :: "int \<Rightarrow> int" where
  "u32 x = x mod 2 ^ 32"

definition u64 :: "int \<Rightarrow> int" where
  "u64 x = x mod 2 ^ 64"

definition i32 :: "int \<Rightarrow> int" where
  "i32 x = signed_take_bit 31 x"

lemma u8_id [simp]: "0 \<le> x \<Longrightarrow> x < 256 \<Longrightarrow> u8 x = x"
  by (simp add: u8_def)

lemma u8_range [simp]: "0 \<le> u8 x" "u8 x < 256"
  by (simp_all add: u8_def)

lemma u32_id [simp]: "0 \<le> x \<Longrightarrow> x < 4294967296 \<Longrightarrow> u32 x = x"
  by (simp add: u32_def)

lemma u32_range [simp]: "0 \<le> u32 x" "u32 x < 4294967296"
  by (simp_all add: u32_def)

lemma i32_id: "- 2147483648 \<le> x \<Longrightarrow> x < 2147483648 \<Longrightarrow> i32 x = x"
  unfolding i32_def by (subst signed_take_bit_int_eq_self) auto

section \<open>Disjoint bit operations as arithmetic\<close>

lemma push_bit_or_eq_add:
  fixes a b :: int
  assumes "0 \<le> b" "b < 2 ^ n"
  shows "push_bit n a OR b = a * 2 ^ n + b"
proof -
  have "push_bit n a OR b = concat_bit n b a"
    using assms by (simp add: concat_bit_def take_bit_int_eq_self or.commute)
  also have "\<dots> = a * 2 ^ n + b"
    using assms by (simp add: concat_bit_eq take_bit_int_eq_self push_bit_eq_mult)
  finally show ?thesis .
qed

lemma mult_or_eq_add:
  fixes a b :: int
  assumes "0 \<le> b" "b < 2 ^ n"
  shows "(a * 2 ^ n) OR b = a * 2 ^ n + b"
  using push_bit_or_eq_add [OF assms] by (simp add: push_bit_eq_mult)

lemma div_less_pow:
  fixes b :: int
  assumes "b < 2 ^ m" "r \<le> m"
  shows "b div 2 ^ r < 2 ^ (m - r)"
proof (rule ccontr)
  assume "\<not> ?thesis"
  then have "2 ^ (m - r) * 2 ^ r \<le> b div 2 ^ r * (2::int) ^ r" by simp
  also have "\<dots> \<le> b" using pos_mod_sign [of "2 ^ r" b] by (simp add: minus_mod_eq_div_mult [symmetric])
  finally show False using assms by (simp flip: power_add)
qed

lemma and_mask_eq_mod:
  fixes x :: int
  shows "x AND (2 ^ n - 1) = x mod 2 ^ n"
  by (simp flip: take_bit_eq_mod mask_eq_exp_minus_1 take_bit_eq_mask)

lemma and_not_ff_eq_mod:
  fixes x :: int
  assumes "0 \<le> x" "x < 256"
  shows "x AND NOT (push_bit n 255) = x mod 2 ^ n"
proof -
  have "take_bit 8 x = x"
    using assms by (simp add: take_bit_int_eq_self)
  then have high: "i < 8" if "bit x i" for i
    using that by (metis bit_take_bit_iff)
  have ff: "(255::int) = mask 8"
    by (simp add: mask_eq_exp_minus_1)
  have "x AND NOT (push_bit n 255) = take_bit n x"
    unfolding ff
  proof (rule bit_eqI)
    fix i
    show "bit (x AND NOT (push_bit n (mask 8))) i \<longleftrightarrow> bit (take_bit n x) i"
      using high [of i] by (cases "i < n") (auto simp: bit_simps less_imp_diff_less)
  qed
  then show ?thesis by (simp add: take_bit_eq_mod)
qed

lemma and_not_ff_top:
  fixes x :: int
  assumes "0 \<le> x" "x < 2 ^ (n + 8)"
  shows "x AND NOT (push_bit n 255) = x mod 2 ^ n"
proof -
  have "take_bit (n + 8) x = x"
    using assms by (simp add: take_bit_int_eq_self)
  then have high: "i < n + 8" if "bit x i" for i
    using that by (metis bit_take_bit_iff)
  have ff: "(255::int) = mask 8"
    by (simp add: mask_eq_exp_minus_1)
  have "x AND NOT (push_bit n 255) = take_bit n x"
    unfolding ff
  proof (rule bit_eqI)
    fix i
    show "bit (x AND NOT (push_bit n (mask 8))) i \<longleftrightarrow> bit (take_bit n x) i"
      using high [of i] by (cases "i < n") (auto simp: bit_simps)
  qed
  then show ?thesis by (simp add: take_bit_eq_mod)
qed

section \<open>Bit strings\<close>

text \<open>\<open>bits_of n v\<close> are the \<open>n\<close> least significant bits of \<open>v\<close>, most significant first.\<close>

primrec bits_of :: "nat \<Rightarrow> int \<Rightarrow> bool list" where
  "bits_of 0 v = []"
| "bits_of (Suc n) v = odd (v div 2 ^ n) # bits_of n v"

text \<open>\<open>val_of bs\<close> reads a bit string as an unsigned number.\<close>

definition val_of :: "bool list \<Rightarrow> int" where
  "val_of bs = foldl (\<lambda>a b. 2 * a + of_bool b) 0 bs"

lemma foldl_val_of: "foldl (\<lambda>a b. 2 * a + of_bool b) c bs = c * 2 ^ length bs + val_of bs"
proof (induction bs arbitrary: c)
  case Nil
  then show ?case by (simp add: val_of_def)
next
  case (Cons b bs)
  have "val_of (b # bs) = of_bool b * 2 ^ length bs + val_of bs"
    using Cons.IH [of "of_bool b"] by (simp add: val_of_def)
  moreover have "foldl (\<lambda>a b. 2 * a + of_bool b) c (b # bs)
      = (2 * c + of_bool b) * 2 ^ length bs + val_of bs"
    using Cons.IH [of "2 * c + of_bool b"] by simp
  ultimately show ?case
    by (simp add: algebra_simps)
qed

lemma val_of_Nil [simp, bits_simps]: "val_of [] = 0"
  by (simp add: val_of_def)

lemma val_of_Cons [simp, bits_simps]: "val_of (b # bs) = of_bool b * 2 ^ length bs + val_of bs"
  using foldl_val_of [of "of_bool b" bs] by (simp add: val_of_def)

lemma val_of_append [bits_simps]: "val_of (xs @ ys) = val_of xs * 2 ^ length ys + val_of ys"
  by (induction xs) (simp_all add: algebra_simps power_add)

lemma val_of_nonneg [simp]: "0 \<le> val_of bs"
  by (induction bs) auto

lemma val_of_less: "val_of bs < 2 ^ length bs"
proof (induction bs)
  case (Cons b bs)
  then show ?case by (cases b) (simp_all add: add_strict_left_mono less_trans [OF Cons.IH])
qed simp

lemma val_of_replicate_False [simp, bits_simps]: "val_of (replicate n False) = 0"
  by (induction n) simp_all

lemma bits_of_zero [simp, bits_simps]: "bits_of n 0 = replicate n False"
  by (induction n) simp_all

lemma length_bits_of [simp, bits_simps]: "length (bits_of n v) = n"
  by (induction n) auto

lemma mod_exp_Suc: "(v::int) mod 2 ^ Suc n = of_bool (odd (v div 2 ^ n)) * 2 ^ n + v mod 2 ^ n"
proof -
  have "v mod 2 ^ Suc n = v mod (2 ^ n * 2)"
    by (simp add: mult.commute)
  also have "\<dots> = 2 ^ n * (v div 2 ^ n mod 2) + v mod 2 ^ n"
    by (rule zmod_zmult2_eq) simp
  finally show ?thesis by (simp add: mod2_eq_if)
qed

lemma val_of_bits_of [simp, bits_simps]: "val_of (bits_of n v) = v mod 2 ^ n"
  by (induction n) (simp_all add: mod_exp_Suc del: power_Suc)

lemma bits_of_mod [simp]: "n \<le> m \<Longrightarrow> bits_of n (v mod 2 ^ m) = bits_of n v"
proof (induction n)
  case (Suc n)
  then have "m = n + Suc (m - Suc n)" by simp
  then obtain k where m: "m = n + Suc k" by blast
  have "v mod 2 ^ m div 2 ^ n = v div 2 ^ n mod 2 ^ Suc k"
    unfolding m power_add by (simp add: zmod_zmult2_eq del: power_Suc)
  then have "odd (v mod 2 ^ m div 2 ^ n) = odd (v div 2 ^ n)"
    by (metis dvd_mod_iff dvd_triv_left power_Suc)
  with Suc show ?case by simp
qed simp

lemma bits_of_append: "bits_of (n + m) v = bits_of n (v div 2 ^ m) @ bits_of m v"
  by (induction n) (simp_all add: power_add zdiv_zmult2_eq [symmetric] mult.commute)

lemma bits_of_val_of [simp, bits_simps]: "bits_of (length bs) (val_of bs) = bs"
proof (induction bs)
  case (Cons b bs)
  have *: "(of_bool b * 2 ^ length bs + val_of bs) div 2 ^ length bs = of_bool b"
    using val_of_less [of bs] by (simp add: div_add1_eq)
  have "bits_of (length bs) (of_bool b * 2 ^ length bs + val_of bs)
      = bits_of (length bs) ((of_bool b * 2 ^ length bs + val_of bs) mod 2 ^ length bs)"
    by (rule bits_of_mod [symmetric]) simp
  also have "\<dots> = bits_of (length bs) (val_of bs)"
    using val_of_less [of bs] by simp
  finally show ?case using Cons * by simp
qed simp

lemma val_of_inject: "length xs = length ys \<Longrightarrow> val_of xs = val_of ys \<Longrightarrow> xs = ys"
  by (metis bits_of_val_of)

lemma bits_of_eqI: "length bs = n \<Longrightarrow> val_of bs = v mod 2 ^ n \<Longrightarrow> bits_of n v = bs"
  by (intro val_of_inject) simp_all

lemma take_bits_of: "n \<le> m \<Longrightarrow> take n (bits_of m v) = bits_of n (v div 2 ^ (m - n))"
  using bits_of_append [of n "m - n" v] by simp

lemma drop_bits_of: "n \<le> m \<Longrightarrow> drop n (bits_of m v) = bits_of (m - n) v"
  using bits_of_append [of n "m - n" v] by simp

section \<open>Byte strings as bit strings\<close>

definition is_byte :: "int \<Rightarrow> bool" where
  "is_byte b \<longleftrightarrow> 0 \<le> b \<and> b < 256"

definition bits_of_bytes :: "int list \<Rightarrow> bool list" where
  "bits_of_bytes bs = concat (map (bits_of 8) bs)"

lemma is_byte_u8 [simp]: "is_byte (u8 x)"
  by (simp add: is_byte_def)

lemma bits_of_u8 [simp]: "bits_of 8 (u8 v) = bits_of 8 v"
  unfolding u8_def by (rule bits_of_mod) simp

lemma bits_of_bytes_simps [simp, bits_simps]:
  "bits_of_bytes [] = []"
  "bits_of_bytes (b # bs) = bits_of 8 b @ bits_of_bytes bs"
  "bits_of_bytes (xs @ ys) = bits_of_bytes xs @ bits_of_bytes ys"
  by (simp_all add: bits_of_bytes_def)

lemma length_bits_of_bytes [simp, bits_simps]: "length (bits_of_bytes bs) = 8 * length bs"
  by (induction bs) simp_all

lemma drop_bits_of_bytes: "drop (8 * n) (bits_of_bytes bs) = bits_of_bytes (drop n bs)"
proof (induction n arbitrary: bs)
  case (Suc n)
  then show ?case by (cases bs) simp_all
qed simp

lemma bits_of_bytes_inject:
  "list_all is_byte xs \<Longrightarrow> list_all is_byte ys \<Longrightarrow> bits_of_bytes xs = bits_of_bytes ys \<Longrightarrow> xs = ys"
proof (induction xs arbitrary: ys)
  case Nil
  then have "length (bits_of_bytes ys) = 0" by simp
  then show ?case by simp
next
  case (Cons x xs)
  then obtain y ys' where ys: "ys = y # ys'" 
    by (cases ys) (auto dest: arg_cong [where f = length])
  with Cons.prems have "bits_of 8 x = bits_of 8 y" "bits_of_bytes xs = bits_of_bytes ys'"
    by (simp_all del: bits_of.simps)
  then have "val_of (bits_of 8 x) = val_of (bits_of 8 y)" by simp
  then have "x mod 256 = y mod 256" by simp
  moreover have "is_byte x" "is_byte y" using Cons.prems ys by simp_all
  ultimately have "x = y" by (simp add: is_byte_def)
  moreover have "xs = ys'"
    using \<open>bits_of_bytes xs = bits_of_bytes ys'\<close> Cons.prems ys by (intro Cons.IH) simp_all
  ultimately show ?case using ys by simp
qed

section \<open>Option monad\<close>

lemma bind_case_prod_Some [simp]: "Option.bind (Some (a, b)) (\<lambda>(x, y). f x y) = f a b"
  by simp

text \<open>The code's \<open>CHECK( cond, msg )\<close> throws when \<open>cond\<close> holds.\<close>

definition check :: "bool \<Rightarrow> unit option" where
  "check c = (if c then None else Some ())"

lemma check_simps [simp]: "check False = Some ()" "check True = None"
  by (simp_all add: check_def)

lemma check_eq_Some [simp]: "check c = Some u \<longleftrightarrow> \<not> c"
  by (simp add: check_def)

end
