(* ===== verification/OutputStream.thy ===== *)
theory OutputStream
  imports Prelude
begin

text \<open>
  The writer half of \<open>source/Lib/CommonLib/BitStream.{h,cpp}\<close>: the byte-aligned bit
  writer \<open>OutputBitstream\<close>. The object is the record of its fields (prefixed \<open>o_\<close>); a
  method is a function from the state to the new state, in \<open>option\<close> where a \<open>CHECK\<close> of
  the code throws. \<open>ob_bits\<close> is the abstraction to the bit string written so far, against
  which the operations are verified.
\<close>

section \<open>The writer\<close>

record OutputBitstream =
  o_fifo :: "int list"
  o_numHeldBits :: nat
  o_heldBits :: int

definition o_clear :: OutputBitstream where
  "o_clear = \<lparr>o_fifo = [], o_numHeldBits = 0, o_heldBits = 0\<rparr>"

definition o_getNumBitsUntilByteAligned :: "OutputBitstream \<Rightarrow> nat" where
  "o_getNumBitsUntilByteAligned ob = (8 - o_numHeldBits ob) mod 8"

definition o_getNumberOfWrittenBits :: "OutputBitstream \<Rightarrow> nat" where
  "o_getNumberOfWrittenBits ob = length (o_fifo ob) * 8 + o_numHeldBits ob"

text \<open>The fall-through \<open>switch\<close> of \<open>write\<close>: the low \<open>n\<close> bytes of a word, highest first.\<close>

fun o_push_word :: "nat \<Rightarrow> int \<Rightarrow> int list" where
  "o_push_word n w =
     (if n = 4 then [u8 (drop_bit 24 w), u8 (drop_bit 16 w), u8 (drop_bit 8 w), u8 w]
      else if n = 3 then [u8 (drop_bit 16 w), u8 (drop_bit 8 w), u8 w]
      else if n = 2 then [u8 (drop_bit 8 w), u8 w]
      else if n = 1 then [u8 w]
      else [])"

definition o_write :: "int \<Rightarrow> nat \<Rightarrow> OutputBitstream \<Rightarrow> OutputBitstream option" where
  "o_write bits numberOfBits ob = do {
     _ \<leftarrow> check (numberOfBits > 32);
     _ \<leftarrow> check (numberOfBits \<noteq> 32 \<and> bits AND u32 (push_bit numberOfBits 0xffffffff) \<noteq> 0);
     let numTotalBits = numberOfBits + o_numHeldBits ob;
         nextNumHeldBits = numTotalBits mod 8;
         nextHeldBits = u8 (push_bit (8 - nextNumHeldBits) bits)
     in if numTotalBits < 8
        then Some (ob\<lparr>o_heldBits := o_heldBits ob OR nextHeldBits, o_numHeldBits := nextNumHeldBits\<rparr>)
        else let topword = (numberOfBits - nextNumHeldBits) div 8 * 8;
                 writeBits = u32 (push_bit topword (o_heldBits ob)) OR drop_bit nextNumHeldBits bits
             in Some \<lparr>o_fifo = o_fifo ob @ o_push_word (numTotalBits div 8) writeBits,
                      o_numHeldBits = nextNumHeldBits, o_heldBits = nextHeldBits\<rparr>
   }"

definition writeAlignOne :: "OutputBitstream \<Rightarrow> OutputBitstream option" where
  "writeAlignOne ob = (let numBits = o_getNumBitsUntilByteAligned ob
                       in o_write (push_bit numBits 1 - 1) numBits ob)"

definition writeAlignZero :: "OutputBitstream \<Rightarrow> OutputBitstream" where
  "writeAlignZero ob =
     (if 0 = o_numHeldBits ob then ob
      else \<lparr>o_fifo = o_fifo ob @ [o_heldBits ob], o_numHeldBits = 0, o_heldBits = 0\<rparr>)"

fun write_bytes :: "int list \<Rightarrow> OutputBitstream \<Rightarrow> OutputBitstream option" where
  "write_bytes [] ob = Some ob"
| "write_bytes (b # bs) ob = do { ob \<leftarrow> o_write b 8 ob; write_bytes bs ob }"

definition addSubstream :: "OutputBitstream \<Rightarrow> OutputBitstream \<Rightarrow> OutputBitstream option" where
  "addSubstream sub ob = do {
     ob \<leftarrow> write_bytes (o_fifo sub) ob;
     let numTrailingBits = o_getNumberOfWrittenBits sub mod 8
     in if numTrailingBits \<noteq> 0
        then o_write (drop_bit (8 - numTrailingBits) (o_heldBits sub)) numTrailingBits ob
        else Some ob
   }"

definition writeByteAlignment :: "OutputBitstream \<Rightarrow> OutputBitstream option" where
  "writeByteAlignment ob = do { ob \<leftarrow> o_write 1 1 ob; Some (writeAlignZero ob) }"

definition insertAt :: "OutputBitstream \<Rightarrow> nat \<Rightarrow> OutputBitstream \<Rightarrow> OutputBitstream option" where
  "insertAt src pos ob = do {
     _ \<leftarrow> check (o_getNumberOfWrittenBits src mod 8 \<noteq> 0);
     Some (ob\<lparr>o_fifo := take pos (o_fifo ob) @ o_fifo src @ drop pos (o_fifo ob)\<rparr>)
   }"

text \<open>\<open>std::search_n(first, last, 2, 0)\<close> on positions of the fifo.\<close>

function search_two_zeros :: "int list \<Rightarrow> nat \<Rightarrow> nat \<Rightarrow> nat" where
  "search_two_zeros xs i l =
     (if i + 1 < l then (if xs ! i = 0 \<and> xs ! (i + 1) = 0 then i else search_two_zeros xs (i + 1) l)
      else l)"
  by pat_completeness auto
termination by (relation "measure (\<lambda>(xs, i, l). l - i)") auto

text \<open>
  \<open>countStartCodeEmulations\<close>: the position \<open>i\<close> is the iterator \<open>it\<close> (or \<open>found\<close> inside
  the inner loop, which continues the search where it stopped when the third byte exceeds 3).
\<close>

function count_emulations :: "int list \<Rightarrow> nat \<Rightarrow> nat" where
  "count_emulations xs i =
     (if i < length xs then
        let found = search_two_zeros xs i (length xs - 1) + 1
        in if found = length xs then 0
           else if found + 1 < length xs
           then (if xs ! (found + 1) \<le> 3 then 1 + count_emulations xs (found + 1)
                 else count_emulations xs (found + 1))
           else 0
      else 0)"
  by pat_completeness auto

lemma search_two_zeros_ge: "i \<le> l \<Longrightarrow> i \<le> search_two_zeros xs i l"
proof (induction xs i l rule: search_two_zeros.induct)
  case (1 xs i l)
  then show ?case by (subst search_two_zeros.simps) (auto simp del: search_two_zeros.simps)
qed

declare search_two_zeros.simps [simp del]

termination count_emulations
proof (relation "measure (\<lambda>(xs, i). length xs - i)", goal_cases)
  case (2 xs i x)
  moreover from 2(1) have "i \<le> search_two_zeros xs i (length xs - 1)"
    by (intro search_two_zeros_ge) simp
  ultimately show ?case by simp
next
  case (3 xs i x)
  moreover from 3(1) have "i \<le> search_two_zeros xs i (length xs - 1)"
    by (intro search_two_zeros_ge) simp
  ultimately show ?case by simp
qed simp

declare count_emulations.simps [simp del]

definition countStartCodeEmulations :: "OutputBitstream \<Rightarrow> nat" where
  "countStartCodeEmulations ob = count_emulations (o_fifo ob) 0"

section \<open>The writer appends bits\<close>

definition ob_inv :: "OutputBitstream \<Rightarrow> bool" where
  "ob_inv ob \<longleftrightarrow> list_all is_byte (o_fifo ob) \<and> o_numHeldBits ob < 8 \<and>
     (\<exists>h. 0 \<le> h \<and> h < 2 ^ o_numHeldBits ob \<and> o_heldBits ob = h * 2 ^ (8 - o_numHeldBits ob))"

definition ob_bits :: "OutputBitstream \<Rightarrow> bool list" where
  "ob_bits ob = bits_of_bytes (o_fifo ob) @ take (o_numHeldBits ob) (bits_of 8 (o_heldBits ob))"

lemma ob_inv_clear [simp]: "ob_inv o_clear"
  by (simp add: ob_inv_def o_clear_def)

lemma ob_bits_clear [simp]: "ob_bits o_clear = []"
  by (simp add: ob_bits_def o_clear_def)

lemma length_ob_bits: "ob_inv ob \<Longrightarrow> length (ob_bits ob) = o_getNumberOfWrittenBits ob"
  by (simp add: ob_bits_def ob_inv_def o_getNumberOfWrittenBits_def)

lemma bits_of_div_8: "bits_of (Suc k * 8) w = bits_of 8 (w div 2 ^ (k * 8)) @ bits_of (k * 8) w"
  using bits_of_append [of 8 "k * 8" w] by simp

lemma o_push_word_bits:
  assumes "n \<le> 4"
  shows "bits_of_bytes (o_push_word n w) = bits_of (n * 8) w"
    and "list_all is_byte (o_push_word n w)"
proof -
  have "n = 0 \<or> n = 1 \<or> n = 2 \<or> n = 3 \<or> n = 4" using assms by auto
  then show "bits_of_bytes (o_push_word n w) = bits_of (n * 8) w"
    using bits_of_div_8 [of 3 w] bits_of_div_8 [of 2 w] bits_of_div_8 [of 1 w]
    by (auto simp: drop_bit_eq_div)
  show "list_all is_byte (o_push_word n w)"
    by simp
qed

declare o_push_word.simps [simp del]

text \<open>The two ways \<open>write\<close> forms its result, for a held value \<open>h\<close> of \<open>k\<close> bits.\<close>

lemma write_word_eq:
  assumes k: "k < 8" and h: "0 \<le> h" "h < 2 ^ k" and n: "n \<le> 32" and b: "0 \<le> b" "b < 2 ^ n"
    and tot: "8 \<le> n + k"
  shows "u32 (push_bit ((n - (n + k) mod 8) div 8 * 8) (h * 2 ^ (8 - k))) OR drop_bit ((n + k) mod 8) b
       = (h * 2 ^ n + b) div 2 ^ ((n + k) mod 8)"
proof -
  define q r where "q = (n + k) div 8" and r_def: "r = (n + k) mod 8"
  have nk: "n + k = 8 * q + r" and q: "1 \<le> q" and r8: "r < 8"
    using tot by (simp_all add: q_def r_def)
  have r: "r \<le> n" using nk q k by linarith
  let ?top = "(n - r) div 8 * 8"
  have bdiv: "0 \<le> b div 2 ^ r" "b div 2 ^ r < 2 ^ (n - r)"
    using b r by (simp_all add: div_less_pow pos_imp_zdiv_nonneg_iff)
  have eq: "push_bit ?top (h * 2 ^ (8 - k)) = h * 2 ^ (n - r)"
  proof (cases "k = 0")
    case False
    have nr: "n - r = 8 * (q - 1) + (8 - k)" using nk q k by linarith
    then have "?top = 8 * (q - 1)" using False k by simp
    with nr show ?thesis by (simp add: push_bit_eq_mult power_add)
  next
    case True
    then have "h = 0" using h by simp
    then show ?thesis by simp
  qed
  have "h * 2 ^ (n - r) < 2 ^ k * 2 ^ (n - r)"
    using h by (intro mult_strict_right_mono) simp_all
  also have "\<dots> = 2 ^ (k + n - r)" using r by (simp flip: power_add)
  also have "\<dots> \<le> (2::int) ^ 32"
  proof (rule power_increasing)
    have "q \<le> 4" using nk n k by linarith
    then show "k + n - r \<le> 32" using nk by linarith
  qed simp
  finally have "u32 (h * 2 ^ (n - r)) = h * 2 ^ (n - r)" using h by simp
  then have "u32 (push_bit ?top (h * 2 ^ (8 - k))) OR drop_bit r b = h * 2 ^ (n - r) + b div 2 ^ r"
    using bdiv by (simp only: eq drop_bit_eq_div mult_or_eq_add)
  also have "\<dots> = (h * 2 ^ (n - r) * 2 ^ r + b) div 2 ^ r" by simp
  also have "h * 2 ^ (n - r) * 2 ^ r = h * 2 ^ n" using r by (simp flip: power_add add: mult.assoc)
  finally show ?thesis unfolding r_def .
qed

lemma bits_of_concat: "0 \<le> b \<Longrightarrow> b < 2 ^ n \<Longrightarrow> bits_of (k + n) (h * 2 ^ n + b) = bits_of k h @ bits_of n b"
proof -
  assume b: "0 \<le> b" "b < 2 ^ n"
  have "bits_of n (h * 2 ^ n + b) = bits_of n ((h * 2 ^ n + b) mod 2 ^ n)"
    by (rule bits_of_mod [symmetric]) simp
  with b show ?thesis by (simp add: bits_of_append)
qed

lemma take_held_bits: "k \<le> 8 \<Longrightarrow> take k (bits_of 8 (h * 2 ^ (8 - k))) = bits_of k h"
  by (simp add: take_bits_of)

lemma u8_push_bit: "r \<le> 8 \<Longrightarrow> u8 (push_bit (8 - r) b) = (b mod 2 ^ r) * 2 ^ (8 - r)"
proof -
  assume "r \<le> 8"
  then have e: "(2::int) ^ 8 = 2 ^ r * 2 ^ (8 - r)" by (simp flip: power_add)
  show ?thesis unfolding u8_def push_bit_eq_mult e by (rule mod_mult_mult2)
qed

lemma u32_high_bits_zero: "0 \<le> b \<Longrightarrow> b < 2 ^ n \<Longrightarrow> b AND u32 (push_bit n 0xffffffff) = 0"
proof -
  assume "0 \<le> b" "b < 2 ^ n"
  then have "take_bit n b = b" by (simp add: take_bit_int_eq_self)
  then have *: "bit b i \<Longrightarrow> i < n" for i by (metis bit_take_bit_iff)
  show ?thesis
    unfolding u32_def take_bit_eq_mod [symmetric] by (intro bit_eqI) (auto simp: bit_simps dest: *)
qed

text \<open>
  \<open>write\<close> appends exactly the \<open>n\<close> low bits of its argument, whatever the alignment, and keeps
  the writer well formed.
\<close>

lemma o_write_Some:
  assumes inv: "ob_inv ob" and n: "n \<le> 32" and b: "0 \<le> b" "b < 2 ^ n"
  shows "\<exists>ob'. o_write b n ob = Some ob' \<and> ob_inv ob' \<and> ob_bits ob' = ob_bits ob @ bits_of n b"
proof -
  define k where "k = o_numHeldBits ob"
  obtain h where k: "k < 8" and h: "0 \<le> h" "h < 2 ^ k" and held: "o_heldBits ob = h * 2 ^ (8 - k)"
    and fifo: "list_all is_byte (o_fifo ob)"
    using inv by (auto simp: ob_inv_def k_def)
  define V where "V = h * 2 ^ n + b"
  have Vbits: "bits_of (k + n) V = bits_of k h @ bits_of n b"
    unfolding V_def using b by (rule bits_of_concat)
  have obits: "ob_bits ob = bits_of_bytes (o_fifo ob) @ bits_of k h"
    using k by (simp add: ob_bits_def held take_held_bits flip: k_def)
  show ?thesis
  proof (cases "n + k < 8")
    case True
    let ?s = "8 - (n + k)"
    have V: "0 \<le> V" "V < 2 ^ (n + k)"
    proof -
      have "h * 2 ^ n + b < (h + 1) * 2 ^ n" using b by (simp add: algebra_simps)
      also have "\<dots> \<le> 2 ^ k * 2 ^ n" using h by (intro mult_right_mono) simp_all
      finally show "V < 2 ^ (n + k)" by (simp add: V_def power_add mult.commute)
    qed (use h b in \<open>simp add: V_def\<close>)
    have "(8 - k) = n + ?s" using True by simp
    then have "h * 2 ^ (8 - k) = (h * 2 ^ n) * 2 ^ ?s" by (metis mult.assoc power_add)
    moreover have "b * 2 ^ ?s < 2 ^ (8 - k)"
    proof -
      have "b * 2 ^ ?s < 2 ^ n * 2 ^ ?s" using b by (intro mult_strict_right_mono) simp_all
      then show ?thesis using \<open>(8 - k) = n + ?s\<close> by (simp add: power_add)
    qed
    moreover have "b mod 2 ^ (n + k) = b"
      using b by (intro mod_pos_pos_trivial) (auto simp: power_add intro: less_le_trans)
    ultimately have new: "o_heldBits ob OR u8 (push_bit ?s b) = V * 2 ^ ?s"
      using True b mult_or_eq_add [of "b * 2 ^ ?s" "8 - k" h]
      by (simp add: held u8_push_bit V_def algebra_simps)
    let ?ob' = "ob\<lparr>o_heldBits := V * 2 ^ ?s, o_numHeldBits := n + k\<rparr>"
    have "o_write b n ob = Some ?ob'"
      using True n b new by (simp add: o_write_def u32_high_bits_zero Let_def flip: k_def)
    moreover have "ob_inv ?ob'" using True V fifo by (auto simp: ob_inv_def)
    moreover have "ob_bits ?ob' = ob_bits ob @ bits_of n b"
      using True Vbits k by (simp add: ob_bits_def take_held_bits held add.commute flip: k_def)
    ultimately show ?thesis by blast
  next
    case False
    define q r where "q = (n + k) div 8" and r_def: "r = (n + k) mod 8"
    have nk: "k + n = q * 8 + r" and r8: "r < 8" by (simp_all add: q_def r_def)
    have q: "1 \<le> q" using False by (simp add: q_def)
    have rn: "r \<le> n" using nk q k by linarith
    have q4: "q \<le> 4" using nk k n by linarith
    let ?ob' = "\<lparr>o_fifo = o_fifo ob @ o_push_word q (V div 2 ^ r), o_numHeldBits = r,
                 o_heldBits = (b mod 2 ^ r) * 2 ^ (8 - r)\<rparr>"
    have "o_write b n ob = Some ?ob'"
      using False n b k h r8 write_word_eq [OF k h n b]
      by (simp add: o_write_def u32_high_bits_zero Let_def held u8_push_bit V_def
            flip: k_def q_def r_def)
    moreover have "ob_inv ?ob'" using fifo r8 o_push_word_bits [OF q4]
      by (auto simp: ob_inv_def)
    moreover have "bits_of r b = bits_of r V"
    proof -
      have "V mod 2 ^ r = b mod 2 ^ r"
        unfolding V_def using rn by (metis dvd_mult le_imp_power_dvd mod_add_cong mod_0 add_0 dvd_imp_mod_0)
      then show ?thesis by (metis bits_of_mod le_refl)
    qed
    then have "ob_bits ?ob' = ob_bits ob @ bits_of n b"
      using r8 q4 Vbits bits_of_append [of "q * 8" r V]
      by (simp add: obits) (simp add: ob_bits_def take_held_bits o_push_word_bits nk)
    ultimately show ?thesis by blast
  qed
qed

lemma o_write_None:
  assumes "0 \<le> b" "b < 2 ^ 32" "32 < n \<or> 2 ^ n \<le> b"
  shows "o_write b n ob = None"
proof (cases "32 < n")
  case False
  with assms have n: "n < 32" "2 ^ n \<le> b"
    by (auto simp: not_less dest: power_increasing [of n 32 "2::int"] intro: ccontr)
  have "b AND u32 (push_bit n 0xffffffff) \<noteq> 0"
  proof
    assume *: "b AND u32 (push_bit n 0xffffffff) = 0"
    have "take_bit n b = b"
    proof (rule bit_eqI)
      fix i
      have "bit b i \<Longrightarrow> i < 32"
        using assms(1,2) by (metis bit_take_bit_iff take_bit_int_eq_self)
      moreover have "bit (255::int) j \<longleftrightarrow> j < 8" "bit (4294967295::int) j \<longleftrightarrow> j < 32" for j
        using bit_mask_iff [where ?'a = int, of 8 j] bit_mask_iff [where ?'a = int, of 32 j]
        by (simp_all add: mask_eq_exp_minus_1)
      moreover have "bit (b AND u32 (push_bit n 0xffffffff)) i = False"
        using * by simp
      ultimately show "bit (take_bit n b) i \<longleftrightarrow> bit b i"
        unfolding u32_def take_bit_eq_mod [symmetric]
        by (auto simp: bit_simps)
    qed
    then have "b < 2 ^ n" using assms(1) by (simp add: take_bit_int_eq_self_iff)
    with n show False by simp
  qed
  with n show ?thesis by (simp add: o_write_def)
qed (simp add: o_write_def)

text \<open>One-bit and byte-sized writes as used everywhere in the code.\<close>

lemma bits_of_1 [simp]: "bits_of 1 b = [odd b]" "bits_of (Suc 0) b = [odd b]"
  by simp_all

lemma writeAlignZero_bits:
  assumes "ob_inv ob"
  shows "ob_inv (writeAlignZero ob)" "o_numHeldBits (writeAlignZero ob) = 0"
    and "ob_bits (writeAlignZero ob) = ob_bits ob @ replicate (o_getNumBitsUntilByteAligned ob) False"
proof -
  obtain h where k: "o_numHeldBits ob < 8" and h: "0 \<le> h" "h < 2 ^ o_numHeldBits ob"
    and held: "o_heldBits ob = h * 2 ^ (8 - o_numHeldBits ob)" and fifo: "list_all is_byte (o_fifo ob)"
    using assms by (auto simp: ob_inv_def)
  let ?k = "o_numHeldBits ob"
  have "is_byte (h * 2 ^ (8 - ?k))"
  proof -
    have "h * 2 ^ (8 - ?k) < 2 ^ ?k * 2 ^ (8 - ?k)" using h by (intro mult_strict_right_mono) simp_all
    also have "\<dots> = 256" using k by (simp flip: power_add)
    finally show ?thesis using h by (simp add: is_byte_def)
  qed
  then show "ob_inv (writeAlignZero ob)" "o_numHeldBits (writeAlignZero ob) = 0"
    using fifo assms by (auto simp: writeAlignZero_def ob_inv_def held)
  have zeros: "bits_of n (a * 2 ^ n) = replicate n False" for n and a :: int
    by (rule bits_of_eqI) (induction n, simp_all)
  have "bits_of 8 (h * 2 ^ (8 - ?k)) = take ?k (bits_of 8 (h * 2 ^ (8 - ?k)))
      @ drop ?k (bits_of 8 (h * 2 ^ (8 - ?k)))" by simp
  also have "drop ?k (bits_of 8 (h * 2 ^ (8 - ?k))) = replicate (8 - ?k) False"
    using k by (simp add: drop_bits_of zeros)
  finally show "ob_bits (writeAlignZero ob) = ob_bits ob @ replicate (o_getNumBitsUntilByteAligned ob) False"
    using k by (auto simp: writeAlignZero_def ob_bits_def o_getNumBitsUntilByteAligned_def held)
qed

lemma align_gap: "Suc l = f * 8 + k \<Longrightarrow> k < 8 \<Longrightarrow> (8 - k) mod 8 = 7 - l mod 8"
proof (cases k)
  case 0
  assume "Suc l = f * 8 + k"
  with 0 obtain g where "f = Suc g" by (cases f) auto
  with 0 \<open>Suc l = f * 8 + k\<close> have "l = 7 + 8 * g" by simp
  then have "l mod 8 = 7" by simp
  with 0 show ?thesis by simp
next
  case (Suc j)
  assume "Suc l = f * 8 + k" "k < 8"
  with Suc have "l = j + 8 * f" by simp
  then have "l mod 8 = j" using Suc \<open>k < 8\<close> by simp
  with Suc \<open>k < 8\<close> show ?thesis by simp
qed

lemma writeByteAlignment_Some:
  assumes "ob_inv ob"
  shows "\<exists>ob'. writeByteAlignment ob = Some ob' \<and> ob_inv ob' \<and> o_numHeldBits ob' = 0 \<and>
           ob_bits ob' = ob_bits ob @ True # replicate (7 - length (ob_bits ob) mod 8) False"
proof -
  obtain ob1 where w: "o_write 1 1 ob = Some ob1" "ob_inv ob1" "ob_bits ob1 = ob_bits ob @ [True]"
    using o_write_Some [OF assms, of 1 1] by auto
  have len: "length (ob_bits ob1) = length (o_fifo ob1) * 8 + o_numHeldBits ob1"
    using length_ob_bits [OF w(2)] by (simp add: o_getNumberOfWrittenBits_def)
  have "o_getNumBitsUntilByteAligned ob1 = 7 - length (ob_bits ob) mod 8"
  proof -
    have k: "o_numHeldBits ob1 < 8" using w(2) by (simp add: ob_inv_def)
    have "Suc (length (ob_bits ob)) = length (o_fifo ob1) * 8 + o_numHeldBits ob1"
      using len w(3) by simp
    then show ?thesis using k unfolding o_getNumBitsUntilByteAligned_def by (rule align_gap)
  qed
  with w writeAlignZero_bits [OF w(2)] show ?thesis
    by (auto simp: writeByteAlignment_def)
qed

lemma write_bytes_Some:
  "ob_inv ob \<Longrightarrow> list_all is_byte bs \<Longrightarrow>
   \<exists>ob'. write_bytes bs ob = Some ob' \<and> ob_inv ob' \<and> ob_bits ob' = ob_bits ob @ bits_of_bytes bs"
proof (induction bs arbitrary: ob)
  case (Cons b bs)
  then obtain ob1 where "o_write b 8 ob = Some ob1" "ob_inv ob1" "ob_bits ob1 = ob_bits ob @ bits_of 8 b"
    using o_write_Some [of ob 8 b] by (auto simp: is_byte_def)
  with Cons show ?case by (fastforce simp: Cons.IH)
qed simp

lemma addSubstream_Some:
  assumes ob: "ob_inv ob" and sub: "ob_inv sub"
  shows "\<exists>ob'. addSubstream sub ob = Some ob' \<and> ob_inv ob' \<and> ob_bits ob' = ob_bits ob @ ob_bits sub"
proof -
  let ?k = "o_numHeldBits sub"
  obtain h where k: "?k < 8" and h: "0 \<le> h" "h < 2 ^ ?k"
    and held: "o_heldBits sub = h * 2 ^ (8 - ?k)" and fifo: "list_all is_byte (o_fifo sub)"
    using sub by (auto simp: ob_inv_def)
  obtain ob1 where 1: "write_bytes (o_fifo sub) ob = Some ob1" "ob_inv ob1"
    "ob_bits ob1 = ob_bits ob @ bits_of_bytes (o_fifo sub)"
    using write_bytes_Some [OF ob fifo] by blast
  have tb: "o_getNumberOfWrittenBits sub mod 8 = ?k"
    using k by (simp add: o_getNumberOfWrittenBits_def)
  have hv: "drop_bit (8 - ?k) (o_heldBits sub) = h" by (simp add: held drop_bit_eq_div)
  have "ob_bits sub = bits_of_bytes (o_fifo sub) @ bits_of ?k h"
    using k by (simp add: ob_bits_def held take_held_bits)
  with 1 o_write_Some [OF 1(2), of ?k h] k h show ?thesis
    by (auto simp: addSubstream_def tb hv Let_def)
qed

end
