(* ===== verification/InputStream.thy ===== *)
theory InputStream
  imports OutputStream
begin

text \<open>
  The reader half of \<open>source/Lib/CommonLib/BitStream.{h,cpp}\<close>: the bit reader
  \<open>InputBitstream\<close>, as the record of its fields (prefixed \<open>i_\<close>); \<open>ib_bits\<close> is the
  abstraction to the bits still to be read.
\<close>

section \<open>The reader\<close>

record InputBitstream =
  i_fifo :: "int list"
  i_emulationPreventionByteLocation :: "nat list"
  i_origFifo :: "int list"
  i_fifoIdx :: nat
  i_numHeldBits :: nat
  i_heldBits :: int
  i_numBitsRead :: int

definition i_create :: InputBitstream where
  "i_create = \<lparr>i_fifo = [], i_emulationPreventionByteLocation = [], i_origFifo = [], i_fifoIdx = 0,
     i_numHeldBits = 0, i_heldBits = 0, i_numBitsRead = 0\<rparr>"

definition resetToStart :: "InputBitstream \<Rightarrow> InputBitstream" where
  "resetToStart ib = ib\<lparr>i_fifoIdx := 0, i_numHeldBits := 0, i_heldBits := 0, i_numBitsRead := 0\<rparr>"

definition i_getNumBitsUntilByteAligned :: "InputBitstream \<Rightarrow> nat" where
  "i_getNumBitsUntilByteAligned ib = i_numHeldBits ib mod 8"

definition i_getNumBitsLeft :: "InputBitstream \<Rightarrow> nat" where
  "i_getNumBitsLeft ib = (8 * (length (i_fifo ib) - i_fifoIdx ib) + i_numHeldBits ib) mod 2 ^ 32"

text \<open>The \<open>switch\<close> of \<open>read\<close>: \<open>n + 1\<close> bytes of the fifo at \<open>i\<close> as one word.\<close>

definition i_load_word :: "nat \<Rightarrow> int list \<Rightarrow> nat \<Rightarrow> int" where
  "i_load_word n f i =
     (if n = 3 then push_bit 24 (f ! i) OR push_bit 16 (f ! (i + 1)) OR push_bit 8 (f ! (i + 2)) OR f ! (i + 3)
      else if n = 2 then push_bit 16 (f ! i) OR push_bit 8 (f ! (i + 1)) OR f ! (i + 2)
      else if n = 1 then push_bit 8 (f ! i) OR f ! (i + 1)
      else f ! i)"

definition i_read :: "nat \<Rightarrow> InputBitstream \<Rightarrow> (int \<times> InputBitstream) option" where
  "i_read numberOfBits ib = do {
     _ \<leftarrow> check (numberOfBits > 32);
     let ib = ib\<lparr>i_numBitsRead := u32 (i_numBitsRead ib + int numberOfBits)\<rparr>;
         held = i_numHeldBits ib
     in if numberOfBits \<le> held
        then let retval = drop_bit (held - numberOfBits) (i_heldBits ib) AND NOT (push_bit numberOfBits 0xff)
             in Some (retval, ib\<lparr>i_numHeldBits := held - numberOfBits\<rparr>)
        else let n = numberOfBits - held;
                 retval = u32 (push_bit n (i_heldBits ib AND NOT (push_bit held 0xff)));
                 num_bytes_to_load = (n - 1) div 8
             in do {
                  _ \<leftarrow> check (i_fifoIdx ib + num_bytes_to_load \<ge> length (i_fifo ib));
                  let alignedWord = i_load_word num_bytes_to_load (i_fifo ib) (i_fifoIdx ib);
                      nextNumHeldBits = (32 - n) mod 8
                  in Some (retval OR drop_bit nextNumHeldBits alignedWord,
                           ib\<lparr>i_fifoIdx := i_fifoIdx ib + num_bytes_to_load + 1,
                              i_numHeldBits := nextNumHeldBits, i_heldBits := u8 alignedWord\<rparr>)
                }
   }"

definition pseudoRead :: "nat \<Rightarrow> InputBitstream \<Rightarrow> (int \<times> InputBitstream) option" where
  "pseudoRead numberOfBits ib = (
     let numBitsToRead = min numberOfBits (i_getNumBitsLeft ib)
     in do {
          (bits, ib') \<leftarrow> i_read numBitsToRead ib;
          Some (u32 (push_bit (numberOfBits - numBitsToRead) bits),
                ib'\<lparr>i_fifoIdx := i_fifoIdx ib, i_heldBits := i_heldBits ib,
                    i_numHeldBits := i_numHeldBits ib\<rparr>)
        })"

definition i_readByte :: "InputBitstream \<Rightarrow> (int \<times> InputBitstream) option" where
  "i_readByte ib = do {
     _ \<leftarrow> check (i_fifoIdx ib \<ge> length (i_fifo ib));
     Some (i_fifo ib ! i_fifoIdx ib, ib\<lparr>i_fifoIdx := i_fifoIdx ib + 1\<rparr>)
   }"

definition peekPreviousByte :: "InputBitstream \<Rightarrow> int option" where
  "peekPreviousByte ib = do {
     _ \<leftarrow> check (i_fifoIdx ib = 0);
     Some (i_fifo ib ! (i_fifoIdx ib - 1))
   }"

text \<open>
  \<open>readOutTrailingBits\<close>: the loop runs until the reader is aligned, at most seven times, so a fuel
  of 8 never runs out (\<open>readOutTrailingBits_Some\<close>; running out would be \<open>None\<close>).
\<close>

fun readOutTrailingBits_loop :: "nat \<Rightarrow> nat \<Rightarrow> InputBitstream \<Rightarrow> (nat \<times> InputBitstream) option" where
  "readOutTrailingBits_loop 0 count ib = None"
| "readOutTrailingBits_loop (Suc fuel) count ib =
     (if i_getNumBitsLeft ib > 0 \<and> i_getNumBitsUntilByteAligned ib \<noteq> 0
      then do { (_, ib) \<leftarrow> i_read 1 ib; readOutTrailingBits_loop fuel (count + 1) ib }
      else Some (count, ib))"

definition readOutTrailingBits :: "InputBitstream \<Rightarrow> (nat \<times> InputBitstream) option" where
  "readOutTrailingBits ib = readOutTrailingBits_loop 8 0 ib"

definition readByteAlignment :: "InputBitstream \<Rightarrow> (nat \<times> InputBitstream) option" where
  "readByteAlignment ib = do {
     (code, ib) \<leftarrow> i_read 1 ib;
     _ \<leftarrow> check (code \<noteq> 1);
     let numBits = i_getNumBitsUntilByteAligned ib
     in if numBits > 0
        then do {
          _ \<leftarrow> check (numBits > i_getNumBitsLeft ib);
          (code, ib) \<leftarrow> i_read numBits ib;
          _ \<leftarrow> check (code \<noteq> 0);
          Some (numBits + 1, ib)
        }
        else Some (numBits + 1, ib)
   }"

fun read_bytes :: "nat \<Rightarrow> InputBitstream \<Rightarrow> (int list \<times> InputBitstream) option" where
  "read_bytes 0 ib = Some ([], ib)"
| "read_bytes (Suc n) ib = do {
     (b, ib) \<leftarrow> i_read 8 ib;
     (bs, ib) \<leftarrow> read_bytes n ib;
     Some (u8 b # bs, ib)
   }"

definition extractSubstream :: "nat \<Rightarrow> InputBitstream \<Rightarrow> (InputBitstream \<times> InputBitstream) option" where
  "extractSubstream numBits ib = (
     let numBytes = numBits div 8
     in do {
          (buf, ib) \<leftarrow>
            (if i_numHeldBits ib = 0
             then let m = min numBytes (length (i_fifo ib) - i_fifoIdx ib)
                  in Some (take m (drop (i_fifoIdx ib) (i_fifo ib)) @ replicate (numBytes - m) 0,
                           ib\<lparr>i_fifoIdx := i_fifoIdx ib + m\<rparr>)
             else read_bytes numBytes ib);
          let numTrailingBits = numBits mod 8
          in if numTrailingBits \<noteq> 0
             then do {
               (byte, ib) \<leftarrow> i_read numTrailingBits ib;
               Some (i_create\<lparr>i_fifo := buf @ [u8 (push_bit (8 - numTrailingBits) byte)]\<rparr>, ib)
             }
             else Some (i_create\<lparr>i_fifo := buf\<rparr>, ib)
        })"

section \<open>The reader consumes bits\<close>

definition ib_inv :: "InputBitstream \<Rightarrow> bool" where
  "ib_inv ib \<longleftrightarrow> list_all is_byte (i_fifo ib) \<and> i_fifoIdx ib \<le> length (i_fifo ib) \<and>
     i_numHeldBits ib < 8 \<and> is_byte (i_heldBits ib)"

definition ib_bits :: "InputBitstream \<Rightarrow> bool list" where
  "ib_bits ib = bits_of (i_numHeldBits ib) (i_heldBits ib)
     @ bits_of_bytes (drop (i_fifoIdx ib) (i_fifo ib))"

lemma length_ib_bits:
  "length (ib_bits ib) = i_numHeldBits ib + 8 * (length (i_fifo ib) - i_fifoIdx ib)"
  by (simp add: ib_bits_def)

lemma list_all_nth: "list_all P xs \<Longrightarrow> i < length xs \<Longrightarrow> P (xs ! i)"
  by (simp add: list_all_length)

lemma val_of_bytes_Cons:
  "is_byte b \<Longrightarrow> val_of (bits_of_bytes (b # bs)) = push_bit (8 * length bs) b OR val_of (bits_of_bytes bs)"
  using val_of_less [of "bits_of_bytes bs"]
  by (simp add: val_of_append push_bit_or_eq_add is_byte_def)

lemma i_load_word_eq:
  assumes f: "list_all is_byte f" and n: "n \<le> 3" "i + n < length f"
  shows "i_load_word n f i = val_of (bits_of_bytes (take (n + 1) (drop i f)))"
proof -
  have split: "take (n + 1) (drop i f) = map (\<lambda>k. f ! (i + k)) [0..<n + 1]"
    using n by (intro nth_equalityI) (auto simp del: upt_Suc)
  have byte: "is_byte (f ! k)" if "k < length f" for k
    using f that by (rule list_all_nth)
  have one: "f ! k = val_of (bits_of_bytes [f ! k])" if "k < length f" for k
    using byte [OF that] by (simp add: is_byte_def)
  have l: "[0..<1] = [0]" "[0..<2] = [0, 1]" "[0..<3] = [0, 1, 2]" "[0..<4] = [0, 1, 2, 3::nat]"
    by (simp_all add: upt_rec)
  have "n = 0 \<or> n = 1 \<or> n = 2 \<or> n = 3" using n by auto
  then show ?thesis
  proof (elim disjE)
    assume "n = 3"
    with n show ?thesis unfolding split i_load_word_def
      by (subst (4) one) (simp_all add: l byte val_of_bytes_Cons del: bits_of_bytes_simps(2) val_of_append)
  next
    assume "n = 2"
    with n show ?thesis unfolding split i_load_word_def
      by (subst (3) one) (simp_all add: l byte val_of_bytes_Cons del: bits_of_bytes_simps(2))
  next
    assume "n = 1"
    with n show ?thesis unfolding split i_load_word_def
      by (subst (2) one) (simp_all add: l byte val_of_bytes_Cons del: bits_of_bytes_simps(2))
  next
    assume "n = 0"
    with n show ?thesis unfolding split i_load_word_def
      by (subst one) (simp_all add: l)
  qed
qed

lemma i_read_held:
  assumes inv: "ib_inv ib" and n: "n \<le> i_numHeldBits ib"
  shows "\<exists>ib'. i_read n ib = Some (val_of (take n (ib_bits ib)), ib') \<and> ib_inv ib' \<and>
           ib_bits ib' = drop n (ib_bits ib) \<and> i_fifo ib' = i_fifo ib"
proof -
  let ?k = "i_numHeldBits ib" and ?H = "i_heldBits ib"
  have k: "?k < 8" and H: "0 \<le> ?H" "?H < 256"
    using inv by (auto simp: ib_inv_def is_byte_def)
  have "0 \<le> ?H div 2 ^ (?k - n)" using H by (simp add: pos_imp_zdiv_nonneg_iff)
  moreover have "?H div 2 ^ (?k - n) \<le> ?H div 1" using H by (intro zdiv_mono2) simp_all
  ultimately have "drop_bit (?k - n) ?H AND NOT (push_bit n 255) = ?H div 2 ^ (?k - n) mod 2 ^ n"
    using H by (simp add: drop_bit_eq_div and_not_ff_eq_mod)
  moreover have "take n (ib_bits ib) = bits_of n (?H div 2 ^ (?k - n))"
    using n by (simp add: ib_bits_def take_bits_of)
  ultimately show ?thesis
    using n k H inv
    by (auto simp: i_read_def Let_def ib_inv_def ib_bits_def drop_bits_of)
qed

lemma val_of_div: "n \<le> length bs \<Longrightarrow> val_of bs div 2 ^ (length bs - n) = val_of (take n bs)"
proof -
  assume n: "n \<le> length bs"
  have "val_of bs = val_of (take n bs @ drop n bs)" by simp
  also have "\<dots> = val_of (take n bs) * 2 ^ (length bs - n) + val_of (drop n bs)"
    by (subst val_of_append) simp
  finally show ?thesis
    using val_of_less [of "drop n bs"] by (simp add: div_pos_pos_trivial)
qed

lemma load_size:
  assumes "1 \<le> m" "m \<le> 32"
  shows "8 * ((m - 1) div 8 + 1) = m + (32 - m) mod 8" "(m - 1) div 8 \<le> (3::nat)"
proof -
  define a b where "a = (m - 1) div 8" and "b = (m - 1) mod 8"
  have m: "m = 8 * a + b + 1" and b: "b < 8"
    using assms by (simp_all add: a_def b_def)
  then have a: "a \<le> 3" using assms by linarith
  then have "32 - m = (7 - b) + 8 * (3 - a)" using m b by linarith
  then have "(32 - m) mod 8 = 7 - b" by simp
  then show "8 * ((m - 1) div 8 + 1) = m + (32 - m) mod 8" "(m - 1) div 8 \<le> 3"
    using m a b by (simp_all flip: a_def)
qed

lemma i_read_load:
  assumes inv: "ib_inv ib" and n: "i_numHeldBits ib < n" "n \<le> 32" and avail: "n \<le> length (ib_bits ib)"
  shows "\<exists>ib'. i_read n ib = Some (val_of (take n (ib_bits ib)), ib') \<and> ib_inv ib' \<and>
           ib_bits ib' = drop n (ib_bits ib) \<and> i_fifo ib' = i_fifo ib"
proof -
  define k H f idx where "k = i_numHeldBits ib" and "H = i_heldBits ib" and "f = i_fifo ib"
    and "idx = i_fifoIdx ib"
  define m where "m = n - k"
  define nb where "nb = (m - 1) div 8"
  define next_held where "next_held = (32 - m) mod 8"
  have k: "k < 8" and H: "0 \<le> H" "H < 256" and f: "list_all is_byte f" and idx: "idx \<le> length f"
    using inv by (auto simp: ib_inv_def is_byte_def k_def H_def f_def idx_def)
  have m: "1 \<le> m" "m \<le> 32" "n = k + m" "k < n" using n by (auto simp: m_def k_def)
  have mb: "8 * (nb + 1) = m + next_held" "next_held < 8" "nb \<le> 3"
    using load_size [OF m(1,2)] by (simp_all add: nb_def next_held_def)
  have nb: "idx + nb < length f"
    using avail m mb by (simp add: length_ib_bits flip: k_def f_def idx_def)
  define B where "B = take (nb + 1) (drop idx f)"
  define W where "W = val_of (bits_of_bytes B)"
  have lenB: "length B = nb + 1" using nb by (simp add: B_def)
  have bitsB: "bits_of_bytes (drop idx f) = bits_of_bytes B @ bits_of_bytes (drop (idx + nb + 1) f)"
    unfolding B_def by (metis add.assoc add.commute append_take_drop_id bits_of_bytes_simps(3) drop_drop)
  have W: "i_load_word nb f idx = W" unfolding W_def B_def by (rule i_load_word_eq [OF f mb(3) nb])
  have Wdiv: "W div 2 ^ next_held = val_of (take m (bits_of_bytes B))"
    using val_of_div [of m "bits_of_bytes B"] mb lenB by (simp add: W_def)
  have take: "take n (ib_bits ib) = bits_of k H @ take m (bits_of_bytes B)"
    using m lenB mb by (simp add: ib_bits_def bitsB flip: k_def H_def f_def idx_def)
  have Wbits: "drop m (bits_of_bytes B) = bits_of next_held (u8 W)"
  proof -
    have "bits_of_bytes B = bits_of (m + next_held) W"
      using bits_of_val_of [of "bits_of_bytes B"] lenB mb by (simp add: W_def)
    moreover have "bits_of next_held (u8 W) = bits_of next_held W"
      unfolding u8_def using mb by (intro bits_of_mod) simp
    ultimately show ?thesis by (simp add: drop_bits_of)
  qed
  have Hk: "H AND NOT (push_bit k 255) = H mod 2 ^ k" using H by (rule and_not_ff_eq_mod)
  have "H mod 2 ^ k * 2 ^ m < 2 ^ k * 2 ^ m" by (intro mult_strict_right_mono) simp_all
  also have "\<dots> = 2 ^ n" using m by (simp flip: power_add)
  also have "(2::int) ^ n \<le> 2 ^ 32" using n by (intro power_increasing) simp_all
  finally have "u32 (push_bit m (H mod 2 ^ k)) = H mod 2 ^ k * 2 ^ m" by (simp add: push_bit_eq_mult)
  moreover have "W div 2 ^ next_held < 2 ^ m"
    using val_of_less [of "take m (bits_of_bytes B)"] lenB mb by (simp add: Wdiv)
  ultimately have val: "u32 (push_bit m (H AND NOT (push_bit k 255))) OR drop_bit next_held W
      = val_of (take n (ib_bits ib))"
    using lenB mb by (simp add: Hk take val_of_append drop_bit_eq_div Wdiv mult_or_eq_add)
  let ?ib' = "ib\<lparr>i_numBitsRead := u32 (i_numBitsRead ib + int n), i_fifoIdx := idx + nb + 1,
                 i_numHeldBits := next_held, i_heldBits := u8 W\<rparr>"
  have "i_read n ib = Some (val_of (take n (ib_bits ib)), ?ib')"
    using n(2) nb val m(4)
    by (simp add: i_read_def Let_def W del: push_bit_and One_nat_def
          flip: k_def H_def f_def idx_def m_def nb_def next_held_def)
  moreover have "ib_inv ?ib'" using f nb mb by (simp add: ib_inv_def flip: f_def)
  moreover have "ib_bits ?ib' = drop n (ib_bits ib)"
    using m lenB mb Wbits by (simp add: ib_bits_def bitsB flip: k_def H_def f_def idx_def)
  ultimately show ?thesis by fastforce
qed

text \<open>
  \<open>read\<close> returns the next \<open>n\<close> bits as a number and consumes exactly them; it throws exactly
  when fewer than \<open>n\<close> bits are left.
\<close>

lemma i_read_Some:
  assumes "ib_inv ib" "n \<le> 32" "n \<le> length (ib_bits ib)"
  shows "\<exists>ib'. i_read n ib = Some (val_of (take n (ib_bits ib)), ib') \<and> ib_inv ib' \<and>
           ib_bits ib' = drop n (ib_bits ib) \<and> i_fifo ib' = i_fifo ib"
  using i_read_held i_read_load assms by (cases "n \<le> i_numHeldBits ib") simp_all

lemma i_read_None:
  assumes "ib_inv ib" "32 < n \<or> length (ib_bits ib) < n"
  shows "i_read n ib = None"
proof (cases "32 < n")
  case False
  let ?k = "i_numHeldBits ib" and ?l = "length (i_fifo ib) - i_fifoIdx ib"
  have "?k + 8 * ?l < n" using False assms by (simp add: length_ib_bits)
  then have "?l \<le> (n - ?k - 1) div 8" "?k < n" by linarith+
  then show ?thesis using assms(1) by (auto simp: i_read_def Let_def check_def ib_inv_def)
qed (simp add: i_read_def)

text \<open>Whatever the state, a successful read shortens the remaining stream by what it read.\<close>

lemma i_read_length:
  assumes "i_read n ib = Some (b, ib')"
  shows "length (ib_bits ib') + n = length (ib_bits ib)"
proof (cases "n \<le> i_numHeldBits ib")
  case True
  with assms show ?thesis by (auto simp: i_read_def check_def Let_def length_ib_bits split: if_splits)
next
  case False
  define m where "m = n - i_numHeldBits ib"
  have lt: "i_fifoIdx ib + (m - 1) div 8 < length (i_fifo ib)" and m32: "m \<le> 32"
    and ib': "i_fifo ib' = i_fifo ib" "i_fifoIdx ib' = i_fifoIdx ib + (m - 1) div 8 + 1"
      "i_numHeldBits ib' = (32 - m) mod 8"
    using assms False by (auto simp: i_read_def check_def Let_def m_def split: if_splits)
  obtain q where q: "length (i_fifo ib) = i_fifoIdx ib + (m - 1) div 8 + 1 + q"
    using less_imp_Suc_add [OF lt] by auto
  have "8 * ((m - 1) div 8 + 1) = m + (32 - m) mod 8"
    using False m32 by (intro load_size) (simp_all add: m_def)
  moreover have "i_numHeldBits ib + m = n" using False by (simp add: m_def)
  ultimately show ?thesis unfolding length_ib_bits ib' q by simp
qed

lemma i_readByte_Some:
  assumes "ib_inv ib" "i_fifoIdx ib < length (i_fifo ib)"
  shows "i_readByte ib = Some (i_fifo ib ! i_fifoIdx ib, ib\<lparr>i_fifoIdx := i_fifoIdx ib + 1\<rparr>)"
    and "ib_inv (ib\<lparr>i_fifoIdx := i_fifoIdx ib + 1\<rparr>)"
    and "is_byte (i_fifo ib ! i_fifoIdx ib)"
  using assms by (auto simp: i_readByte_def ib_inv_def list_all_length)

lemma i_readByte_None: "length (i_fifo ib) \<le> i_fifoIdx ib \<Longrightarrow> i_readByte ib = None"
  by (simp add: i_readByte_def)

lemma peekPreviousByte_readByte:
  "i_readByte ib = Some (b, ib') \<Longrightarrow> peekPreviousByte ib' = Some b"
  by (auto simp: i_readByte_def peekPreviousByte_def check_def split: if_splits)

lemma i_getNumBitsLeft_eq:
  "length (ib_bits ib) < 2 ^ 32 \<Longrightarrow> i_getNumBitsLeft ib = length (ib_bits ib)"
  by (simp add: i_getNumBitsLeft_def length_ib_bits add.commute)

lemma read_bytes_Some:
  "ib_inv ib \<Longrightarrow> 8 * n \<le> length (ib_bits ib) \<Longrightarrow>
   \<exists>bs ib'. read_bytes n ib = Some (bs, ib') \<and> ib_inv ib' \<and> list_all is_byte bs \<and>
     bits_of_bytes bs = take (8 * n) (ib_bits ib) \<and> ib_bits ib' = drop (8 * n) (ib_bits ib)"
proof (induction n arbitrary: ib)
  case (Suc n)
  let ?v = "val_of (take 8 (ib_bits ib))"
  obtain ib1 where 1: "i_read 8 ib = Some (?v, ib1)" "ib_inv ib1" "ib_bits ib1 = drop 8 (ib_bits ib)"
    using i_read_Some [OF Suc.prems(1), of 8] Suc.prems(2) by auto
  have n1: "8 * n \<le> length (ib_bits ib1)"
    using Suc.prems(2) 1(3) by (simp add: le_diff_conv2)
  obtain bs ib2 where 2: "read_bytes n ib1 = Some (bs, ib2)" "ib_inv ib2" "list_all is_byte bs"
    "bits_of_bytes bs = take (8 * n) (ib_bits ib1)" "ib_bits ib2 = drop (8 * n) (ib_bits ib1)"
    using Suc.IH [OF 1(2)] n1 by blast
  have l: "length (take 8 (ib_bits ib)) = 8" using Suc.prems(2) by simp
  then have "bits_of 8 (u8 ?v) = take 8 (ib_bits ib)"
    using bits_of_val_of [of "take 8 (ib_bits ib)"] by simp
  then have "bits_of_bytes (u8 ?v # bs) = take (8 * Suc n) (ib_bits ib)"
    using 1 2 take_add [of 8 "8 * n" "ib_bits ib"] by simp
  with 1 2 show ?case by (simp add: add.commute)
qed simp

text \<open>
  \<open>pseudoRead\<close> (and \<open>peekBits\<close>) looks ahead past the end as if zero bits followed. Position and held
  bits are restored, but the count of bits read is advanced by the lookahead.
\<close>

lemma pseudoRead_Some:
  assumes inv: "ib_inv ib" and n: "n \<le> 32" and len: "length (ib_bits ib) < 2 ^ 32"
  shows "pseudoRead n ib =
    Some (val_of (take n (ib_bits ib @ replicate n False)),
          ib\<lparr>i_numBitsRead := u32 (i_numBitsRead ib + int (min n (length (ib_bits ib))))\<rparr>)"
proof -
  let ?bits = "ib_bits ib"
  define m where "m = min n (length ?bits)"
  have m: "m \<le> n" "m \<le> length ?bits" by (simp_all add: m_def)
  obtain ib' where r: "i_read m ib = Some (val_of (take m ?bits), ib')"
    using i_read_Some [OF inv, of m] m n by auto
  have upd: "ib'\<lparr>i_fifoIdx := i_fifoIdx ib, i_heldBits := i_heldBits ib, i_numHeldBits := i_numHeldBits ib\<rparr>
      = ib\<lparr>i_numBitsRead := u32 (i_numBitsRead ib + int m)\<rparr>"
    using r by (auto simp: i_read_def check_def Let_def split: if_splits)
  have "val_of (take m ?bits) * 2 ^ (n - m) < 2 ^ m * 2 ^ (n - m)"
    using val_of_less [of "take m ?bits"] m by (intro mult_strict_right_mono) simp_all
  also have "\<dots> = 2 ^ n" using m by (simp flip: power_add)
  also have "(2::int) ^ n \<le> 2 ^ 32" using n by (intro power_increasing) simp_all
  finally have "u32 (push_bit (n - m) (val_of (take m ?bits))) = val_of (take m ?bits) * 2 ^ (n - m)"
    by (simp add: push_bit_eq_mult)
  also have "\<dots> = val_of (take n (?bits @ replicate n False))"
    by (auto simp: val_of_append m_def min_def)
  finally show ?thesis
    using r upd by (simp add: pseudoRead_def i_getNumBitsLeft_eq [OF len] Let_def m_def)
qed

lemma held_unique: "z + l = h + 8 * q \<Longrightarrow> l mod 8 = 0 \<Longrightarrow> z < 8 \<Longrightarrow> h < 8 \<Longrightarrow> h = (z::nat)"
proof -
  assume *: "z + l = h + 8 * q" "l mod 8 = 0" "z < 8" "h < 8"
  have "h = (h + 8 * q) mod 8" using * by simp
  also have "\<dots> = (z + l) mod 8" using * by simp
  also have "\<dots> = z" using * by (metis add.right_neutral mod_add_right_eq mod_less)
  finally show ?thesis .
qed

lemma numHeldBits_unique:
  assumes "ib_inv ib" "length (ib_bits ib) = z + l" "l mod 8 = 0" "z < 8"
  shows "i_numHeldBits ib = z"
  using assms by (intro held_unique [of z l "i_numHeldBits ib" "length (i_fifo ib) - i_fifoIdx ib"])
    (simp_all add: length_ib_bits ib_inv_def)

lemma readByteAlignment_Some:
  assumes inv: "ib_inv ib" and bits: "ib_bits ib = True # replicate z False @ rest"
    and al: "length rest mod 8 = 0" and len: "length (ib_bits ib) < 2 ^ 32" and z: "z < 8"
  shows "\<exists>ib'. readByteAlignment ib = Some (z + 1, ib') \<and>
    ib_inv ib' \<and> ib_bits ib' = rest \<and> i_numHeldBits ib' = 0"
proof -
  obtain ib1 where 1: "i_read 1 ib = Some (1, ib1)" "ib_inv ib1" "ib_bits ib1 = replicate z False @ rest"
    using i_read_Some [OF inv, of 1] bits by auto
  have h1: "i_numHeldBits ib1 = z" by (rule numHeldBits_unique [OF 1(2) _ al z]) (simp add: 1)
  then have g1: "i_getNumBitsUntilByteAligned ib1 = z" using z by (simp add: i_getNumBitsUntilByteAligned_def)
  have left: "i_getNumBitsLeft ib1 = z + length rest"
    using len bits 1(3) by (subst i_getNumBitsLeft_eq) simp_all
  obtain ib2 where 2: "i_read z ib1 = Some (0, ib2)" "ib_inv ib2" "ib_bits ib2 = rest"
    using i_read_Some [OF 1(2), of z] 1(3) z by auto
  have "i_numHeldBits ib2 = 0" by (rule numHeldBits_unique [OF 2(2) _ al]) (simp_all add: 2)
  with 1 2 h1 show ?thesis
    by (cases "z = 0") (auto simp: readByteAlignment_def g1 left Let_def)
qed

lemma readOutTrailingBits_loop_Some:
  assumes "ib_inv ib" "length (ib_bits ib) < 2 ^ 32" "i_numHeldBits ib < fuel"
  shows "\<exists>ib'. readOutTrailingBits_loop fuel c ib = Some (c + i_numHeldBits ib, ib') \<and>
           ib_inv ib' \<and> i_numHeldBits ib' = 0 \<and> ib_bits ib' = drop (i_numHeldBits ib) (ib_bits ib)"
  using assms
proof (induction "i_numHeldBits ib" arbitrary: c ib fuel)
  case 0
  then show ?case by (cases fuel) (simp_all add: i_getNumBitsUntilByteAligned_def)
next
  case (Suc k)
  then obtain fuel' where fuel: "fuel = Suc fuel'" by (cases fuel) auto
  have held: "i_numHeldBits ib = Suc k" "Suc k < 8" using Suc by (simp_all add: ib_inv_def)
  have len: "i_getNumBitsLeft ib = length (ib_bits ib)" "1 \<le> length (ib_bits ib)"
    using Suc.prems held i_getNumBitsLeft_eq by (simp_all add: length_ib_bits)
  obtain ib1 b where 1: "i_read 1 ib = Some (b, ib1)" "ib_inv ib1" "ib_bits ib1 = drop 1 (ib_bits ib)"
    using i_read_Some [OF Suc.prems(1), of 1] len by auto
  have "i_numHeldBits ib1 = k" using 1(1) held by (auto simp: i_read_def Let_def)
  moreover have "length (ib_bits ib1) < 2 ^ 32" using 1(3) Suc.prems(2) by simp
  moreover have "k < fuel'" using Suc.prems(3) held fuel by simp
  ultimately obtain ib2 where "readOutTrailingBits_loop fuel' (c + 1) ib1 = Some (c + 1 + k, ib2)" "ib_inv ib2"
    "i_numHeldBits ib2 = 0" "ib_bits ib2 = drop (Suc k) (ib_bits ib)"
    using Suc.hyps(1) [of ib1 fuel' "c + 1"] 1 by auto
  with 1 held len show ?case
    by (auto simp: fuel i_getNumBitsUntilByteAligned_def)
qed

lemma readOutTrailingBits_Some:
  assumes "ib_inv ib" "length (ib_bits ib) < 2 ^ 32"
  shows "\<exists>ib'. readOutTrailingBits ib = Some (i_numHeldBits ib, ib') \<and> ib_inv ib' \<and>
           i_numHeldBits ib' = 0 \<and> ib_bits ib' = drop (i_numHeldBits ib) (ib_bits ib)"
  using readOutTrailingBits_loop_Some [OF assms, of 8 0] assms(1)
  by (simp add: readOutTrailingBits_def ib_inv_def)

text \<open>
  \<open>extractSubstream\<close> moves the next \<open>numBits\<close> bits into a new reader, zero-padded to a whole
  byte, from an aligned and from an unaligned position alike.
\<close>

lemma extract_bytes:
  assumes inv: "ib_inv ib" and n: "8 * n \<le> length (ib_bits ib)"
  shows "\<exists>buf ib'. (if i_numHeldBits ib = 0
             then let m = min n (length (i_fifo ib) - i_fifoIdx ib)
                  in Some (take m (drop (i_fifoIdx ib) (i_fifo ib)) @ replicate (n - m) 0,
                           ib\<lparr>i_fifoIdx := i_fifoIdx ib + m\<rparr>)
             else read_bytes n ib) = Some (buf, ib') \<and> ib_inv ib' \<and> list_all is_byte buf \<and>
           bits_of_bytes buf = take (8 * n) (ib_bits ib) \<and> ib_bits ib' = drop (8 * n) (ib_bits ib)"
proof (cases "i_numHeldBits ib = 0")
  case True
  let ?rest = "drop (i_fifoIdx ib) (i_fifo ib)"
  have m: "min n (length (i_fifo ib) - i_fifoIdx ib) = n" using n True by (simp add: length_ib_bits)
  have "bits_of_bytes (take n ?rest) = take (8 * n) (bits_of_bytes ?rest)"
  proof -
    have "bits_of_bytes ?rest = bits_of_bytes (take n ?rest) @ bits_of_bytes (drop n ?rest)"
      by (metis append_take_drop_id bits_of_bytes_simps(3))
    then show ?thesis using n True by (simp add: length_ib_bits)
  qed
  moreover have "list_all is_byte (take n ?rest)"
    using inv by (auto simp: ib_inv_def list_all_iff dest: in_set_takeD in_set_dropD)
  moreover have "bits_of_bytes (drop (i_fifoIdx ib + n) (i_fifo ib)) = drop (8 * n) (bits_of_bytes ?rest)"
    by (simp add: drop_bits_of_bytes add.commute)
  ultimately show ?thesis
    using True n inv by (auto simp: m Let_def ib_bits_def ib_inv_def)
qed (use read_bytes_Some [OF inv n] in simp)

lemma fresh_reader:
  "list_all is_byte f \<Longrightarrow> ib_inv (i_create\<lparr>i_fifo := f\<rparr>)"
  "ib_bits (i_create\<lparr>i_fifo := f\<rparr>) = bits_of_bytes f"
  by (simp_all add: i_create_def ib_inv_def ib_bits_def is_byte_def)

lemma pad_byte: "length t = r \<Longrightarrow> r \<le> 8 \<Longrightarrow> bits_of 8 (push_bit (8 - r) (val_of t)) = t @ replicate (8 - r) False"
  using bits_of_concat [of 0 "8 - r" r "val_of t"] bits_of_val_of [of t]
  by (simp add: push_bit_eq_mult)

lemma extractSubstream_Some:
  assumes inv: "ib_inv ib" and n: "numBits \<le> length (ib_bits ib)"
  shows "\<exists>sub ib'. extractSubstream numBits ib = Some (sub, ib') \<and> ib_inv sub \<and> ib_inv ib' \<and>
    ib_bits sub = take numBits (ib_bits ib) @ replicate ((8 - numBits mod 8) mod 8) False \<and>
    ib_bits ib' = drop numBits (ib_bits ib)"
proof -
  define q r where "q = numBits div 8" and "r = numBits mod 8"
  have qr: "numBits = 8 * q + r" "r < 8" by (simp_all add: q_def r_def)
  obtain buf ib1 where 1: "(if i_numHeldBits ib = 0
             then let m = min q (length (i_fifo ib) - i_fifoIdx ib)
                  in Some (take m (drop (i_fifoIdx ib) (i_fifo ib)) @ replicate (q - m) 0,
                           ib\<lparr>i_fifoIdx := i_fifoIdx ib + m\<rparr>)
             else read_bytes q ib) = Some (buf, ib1)" "ib_inv ib1" "list_all is_byte buf"
     "bits_of_bytes buf = take (8 * q) (ib_bits ib)" "ib_bits ib1 = drop (8 * q) (ib_bits ib)"
    using extract_bytes [OF inv, of q] n qr by auto
  let ?t = "take r (drop (8 * q) (ib_bits ib))"
  obtain ib2 where 2: "i_read r ib1 = Some (val_of ?t, ib2)" "ib_inv ib2" "ib_bits ib2 = drop numBits (ib_bits ib)"
  proof -
    have "r \<le> length (ib_bits ib) - 8 * q" using n qr by linarith
    then show ?thesis
      using that i_read_Some [OF 1(2), of r] 1(5) qr by (auto simp: add.commute)
  qed
  have "bits_of 8 (u8 (push_bit (8 - r) (val_of ?t))) = ?t @ replicate (8 - r) False"
    unfolding bits_of_u8 using n qr by (intro pad_byte) simp_all
  moreover have "take numBits (ib_bits ib) = take (8 * q) (ib_bits ib) @ ?t"
    unfolding qr(1) by (rule take_add)
  ultimately show ?thesis
    using 1 2 qr by (cases "r = 0")
      (simp_all add: extractSubstream_def Let_def fresh_reader flip: q_def r_def)
qed

end
