(* ===== verification/Vlc.thy ===== *)
theory Vlc
  imports InputStream
begin

text \<open>
  The syntax elements of the high-level syntax: \<open>VLCWriter\<close> in
  \<open>source/Lib/EncoderLib/VLCWriter.cpp\<close> and \<open>VLCReader\<close> in
  \<open>source/Lib/DecoderLib/VLCReader.cpp\<close>. A writer is a function of the output stream, a reader
  one of the input stream. The locale \<open>syntax_element\<close> is the contract the structures above rely
  on: what a writer emits for a value is what the reader turns back into that value.
\<close>

section \<open>Writers and readers that mirror each other\<close>

type_synonym writer = "OutputBitstream \<Rightarrow> OutputBitstream option"
type_synonym 'v reader = "InputBitstream \<Rightarrow> ('v \<times> InputBitstream) option"

definition sends :: "writer \<Rightarrow> bool list \<Rightarrow> bool" where
  "sends w bs \<longleftrightarrow> (\<forall>ob. ob_inv ob \<longrightarrow>
     (\<exists>ob'. w ob = Some ob' \<and> ob_inv ob' \<and> ob_bits ob' = ob_bits ob @ bs))"

definition recvs :: "'v reader \<Rightarrow> bool list \<Rightarrow> 'v \<Rightarrow> bool" where
  "recvs r bs v \<longleftrightarrow> (\<forall>ib rest. ib_inv ib \<longrightarrow> ib_bits ib = bs @ rest \<longrightarrow>
     (\<exists>ib'. r ib = Some (v, ib') \<and> ib_inv ib' \<and> ib_bits ib' = rest))"

definition trips :: "writer \<Rightarrow> 'v reader \<Rightarrow> 'v \<Rightarrow> bool" where
  "trips w r v \<longleftrightarrow> (\<exists>bs. sends w bs \<and> recvs r bs v)"

lemma sendsD:
  "sends w bs \<Longrightarrow> ob_inv ob \<Longrightarrow> \<exists>ob'. w ob = Some ob' \<and> ob_inv ob' \<and> ob_bits ob' = ob_bits ob @ bs"
  by (simp add: sends_def)

lemma recvsD:
  "recvs r bs v \<Longrightarrow> ib_inv ib \<Longrightarrow> ib_bits ib = bs @ rest \<Longrightarrow>
   \<exists>ib'. r ib = Some (v, ib') \<and> ib_inv ib' \<and> ib_bits ib' = rest"
  by (simp add: recvs_def)

lemma sends_bind: "sends w1 b1 \<Longrightarrow> sends w2 b2 \<Longrightarrow> sends (\<lambda>ob. w1 ob \<bind> w2) (b1 @ b2)"
  unfolding sends_def by (metis append.assoc bind.bind_lunit)

lemma recvs_bind:
  assumes r1: "recvs r1 b1 v1" and r2: "recvs (r2 v1) b2 v2"
  shows "recvs (\<lambda>ib. r1 ib \<bind> case_prod r2) (b1 @ b2) v2"
  unfolding recvs_def
proof (intro allI impI)
  fix ib rest
  assume "ib_inv ib" "ib_bits ib = (b1 @ b2) @ rest"
  then obtain ib1 where 1: "r1 ib = Some (v1, ib1)" "ib_inv ib1" "ib_bits ib1 = b2 @ rest"
    using recvsD [OF r1, of ib "b2 @ rest"] by auto
  from recvsD [OF r2 1(2,3)] 1(1)
  show "\<exists>ib'. r1 ib \<bind> case_prod r2 = Some (v2, ib') \<and> ib_inv ib' \<and> ib_bits ib' = rest" by auto
qed

lemma trips_bind [trip_intros]:
  "trips w1 r1 v1 \<Longrightarrow> trips w2 (r2 v1) v2 \<Longrightarrow> trips (\<lambda>ob. w1 ob \<bind> w2) (\<lambda>ib. r1 ib \<bind> case_prod r2) v2"
  unfolding trips_def using sends_bind recvs_bind by metis

lemma recvs_return: "v = v' \<Longrightarrow> recvs (\<lambda>ib. Some (v, ib)) [] v'"
  by (simp add: recvs_def)

lemma trips_return [trip_intros]: "v = v' \<Longrightarrow> trips Some (\<lambda>ib. Some (v, ib)) v'"
  by (auto simp: trips_def sends_def recvs_def intro!: exI [of _ "[]"])

lemma trips_last [trip_intros]:
  "trips w r v1 \<Longrightarrow> f v1 = v2 \<Longrightarrow> trips w (\<lambda>ib. r ib \<bind> (\<lambda>(x, ib). Some (f x, ib))) v2"
  using trips_bind [of w r v1 Some "\<lambda>x ib. Some (f x, ib)" v2] trips_return [of "f v1" v2] by simp

lemma trips_if [trip_intros]:
  "(c \<Longrightarrow> trips w1 r1 v) \<Longrightarrow> (\<not> c \<Longrightarrow> trips w2 r2 v) \<Longrightarrow>
   trips (\<lambda>ob. if c then w1 ob else w2 ob) (\<lambda>ib. if c then r1 ib else r2 ib) v"
  by (cases c) simp_all

lemma trips_value:
  assumes "trips w r v" "ob_inv ob" "ib_inv ib"
    and "w ob = Some ob'" "ib_bits ib = drop (length (ob_bits ob)) (ob_bits ob') @ rest"
  shows "\<exists>ib'. r ib = Some (v, ib') \<and> ib_inv ib' \<and> ib_bits ib' = rest"
proof -
  obtain bs where bs: "sends w bs" "recvs r bs v" using assms(1) by (auto simp: trips_def)
  then have "ob_bits ob' = ob_bits ob @ bs" using sendsD [OF bs(1) assms(2)] assms(4) by auto
  then show ?thesis using recvsD [OF bs(2) assms(3)] assms(5) by simp
qed

lemma bytes_of_bits: "length p = 8 * n \<Longrightarrow> \<exists>f. list_all is_byte f \<and> bits_of_bytes f = p"
proof (induction n arbitrary: p)
  case (Suc n)
  have "length (drop 8 p) = 8 * n" using Suc.prems by simp
  then obtain f where f: "list_all is_byte f" "bits_of_bytes f = drop 8 p"
    using Suc.IH by blast
  have l: "length (take 8 p) = 8" using Suc.prems by simp
  then have "is_byte (val_of (take 8 p))"
    using val_of_less [of "take 8 p"] by (simp add: is_byte_def)
  moreover have "bits_of 8 (val_of (take 8 p)) = take 8 p"
    using l bits_of_val_of [of "take 8 p"] by simp
  ultimately show ?case using f by (intro exI [of _ "val_of (take 8 p) # f"]) simp
qed (auto intro: exI [of _ "[]"])

lemma reader_exists: "\<exists>ib rest. ib_inv ib \<and> ib_bits ib = bs @ rest"
proof -
  obtain f where "list_all is_byte f" "bits_of_bytes f = bs @ replicate (7 * length bs) False"
    using bytes_of_bits [of "bs @ replicate (7 * length bs) False" "length bs"] by auto
  then show ?thesis
    using fresh_reader [of f] by (intro exI [of _ "i_create\<lparr>i_fifo := f\<rparr>"]) auto
qed

lemma trips_inject:
  assumes "trips w r v" "trips w' r v'" "w o_clear = w' o_clear"
  shows "v = v'"
proof -
  obtain bs where bs: "sends w bs" "recvs r bs v" using assms(1) by (auto simp: trips_def)
  obtain bs' where bs': "sends w' bs'" "recvs r bs' v'" using assms(2) by (auto simp: trips_def)
  have eq: "bs = bs'" using sendsD [OF bs(1) ob_inv_clear] sendsD [OF bs'(1) ob_inv_clear] assms(3) by auto
  obtain ib rest where "ib_inv ib" "ib_bits ib = bs @ rest" using reader_exists by blast
  then show ?thesis using recvsD [OF bs(2)] recvsD [OF bs'(2)] eq by fastforce
qed

section \<open>The elements\<close>

definition xWriteFlag :: "int \<Rightarrow> writer" where
  "xWriteFlag value = o_write value 1"

definition xReadFlag :: "int reader" where
  "xReadFlag = i_read 1"

definition xWriteCode :: "int \<Rightarrow> nat \<Rightarrow> writer" where
  "xWriteCode value len ob = do { _ \<leftarrow> check (len = 0); o_write value len ob }"

definition xReadCode :: "nat \<Rightarrow> int reader" where
  "xReadCode len ib = do { _ \<leftarrow> check (len = 0); i_read len ib }"

text \<open>The code length of \<open>xWriteVlc\<close>: two bits per halving, \<open>temp\<close> being at least 1.\<close>

function vlc_length :: "int \<Rightarrow> nat \<Rightarrow> nat" where
  "vlc_length temp len = (if 1 < temp then vlc_length (temp div 2) (len + 2) else len)"
  by pat_completeness auto
termination by (relation "measure (\<lambda>(temp, len). nat temp)") auto

declare vlc_length.simps [simp del]

definition xWriteVlc :: "int \<Rightarrow> writer" where
  "xWriteVlc value ob = (
     let value = u32 (value + 1)
     in do {
       _ \<leftarrow> check (value = 0);
       let len = vlc_length value 1
       in do { ob \<leftarrow> o_write 0 (len div 2) ob; o_write value ((len + 1) div 2) ob }
     })"

definition xWriteUvlc :: "int \<Rightarrow> writer" where
  "xWriteUvlc value = xWriteVlc value"

definition xWriteSvlc :: "int \<Rightarrow> writer" where
  "xWriteSvlc value = xWriteVlc (u32 (if value \<le> 0 then push_bit 1 (- value) else push_bit 1 value - 1))"

text \<open>A successful one-bit read shortens the stream: the prefix loop terminates.\<close>

function vlc_prefix :: "nat \<Rightarrow> nat reader" where
  "vlc_prefix len ib = do {
     (prefixBit, ib') \<leftarrow> i_read 1 ib;
     if prefixBit = 0 then vlc_prefix (len + 1) ib' else Some (len + 1, ib')
   }"
  by pat_completeness auto
termination
  by (relation "measure (\<lambda>(len, ib). length (ib_bits ib))") (auto dest: i_read_length)

declare vlc_prefix.simps [simp del]

definition xReadUvlc :: "int reader" where
  "xReadUvlc ib = do {
     (prefixBit, ib) \<leftarrow> i_read 1 ib;
     if prefixBit = 0
     then do {
       (len, ib) \<leftarrow> vlc_prefix 0 ib;
       (suffix, ib) \<leftarrow> i_read len ib;
       Some (u32 (suffix + (push_bit len 1 - 1)), ib)
     }
     else Some (0, ib)
   }"

definition xReadSvlc :: "int reader" where
  "xReadSvlc ib = do {
     (prefixBit, ib) \<leftarrow> i_read 1 ib;
     if prefixBit = 0
     then do {
       (len, ib) \<leftarrow> vlc_prefix 0 ib;
       (suffix, ib) \<leftarrow> i_read len ib;
       let suffix = u32 (suffix + push_bit len 1)
       in Some (if odd suffix then - drop_bit 1 suffix else drop_bit 1 suffix, ib)
     }
     else Some (0, ib)
   }"

definition xWriteSCode :: "int \<Rightarrow> nat \<Rightarrow> writer" where
  "xWriteSCode value len ob = do {
     _ \<leftarrow> check (len < 1 \<or> 32 < len);
     _ \<leftarrow> check (\<not> (len = 32 \<or> (- push_bit (len - 1) 1 \<le> value \<and> value < push_bit (len - 1) 1)));
     o_write (if len = 32 then u32 value else u32 value AND (push_bit len 1 - 1)) len ob
   }"

definition xReadSCode :: "nat \<Rightarrow> int reader" where
  "xReadSCode len ib = do {
     _ \<leftarrow> check (len < 1 \<or> 32 < len);
     (val, ib) \<leftarrow> i_read len ib;
     Some (if 32 \<le> len then i32 val else (- (val AND push_bit (len - 1) 1)) OR val, ib)
   }"

text \<open>Strings are lists of C++ \<open>char\<close> values, which are signed.\<close>

fun xWriteString :: "int list \<Rightarrow> writer" where
  "xWriteString [] ob = o_write 0 8 ob"
| "xWriteString (c # cs) ob = do { ob \<leftarrow> o_write (u32 c) 8 ob; xWriteString cs ob }"

function xReadString :: "int list reader" where
  "xReadString ib = do {
     (code, ib') \<leftarrow> i_read 8 ib;
     if code \<noteq> 0 then do { (cs, ib'') \<leftarrow> xReadString ib'; Some (signed_take_bit 7 code # cs, ib'') }
     else Some ([], ib')
   }"
  by pat_completeness auto
termination
  by (relation "measure (\<lambda>ib. length (ib_bits ib))") (auto dest: i_read_length)

declare xReadString.simps [simp del]

section \<open>What each element puts on the stream\<close>

lemma sends_o_write: "n \<le> 32 \<Longrightarrow> 0 \<le> b \<Longrightarrow> b < 2 ^ n \<Longrightarrow> sends (o_write b n) (bits_of n b)"
  by (simp add: sends_def o_write_Some)

lemma recvs_i_read: "n \<le> 32 \<Longrightarrow> 0 \<le> b \<Longrightarrow> b < 2 ^ n \<Longrightarrow> recvs (i_read n) (bits_of n b) b"
  unfolding recvs_def
proof (intro allI impI)
  fix ib rest
  assume *: "n \<le> 32" "0 \<le> b" "b < 2 ^ n" "ib_inv ib" "ib_bits ib = bits_of n b @ rest"
  then show "\<exists>ib'. i_read n ib = Some (b, ib') \<and> ib_inv ib' \<and> ib_bits ib' = rest"
    using i_read_Some [of ib n] by auto
qed

lemma trips_o_write: "n \<le> 32 \<Longrightarrow> 0 \<le> b \<Longrightarrow> b < 2 ^ n \<Longrightarrow> trips (o_write b n) (i_read n) b"
  using sends_o_write [of n b] recvs_i_read [of n b] unfolding trips_def by blast

lemma trips_xFlag [trip_intros]: "v = 0 \<or> v = 1 \<Longrightarrow> trips (xWriteFlag v) xReadFlag v"
  unfolding xWriteFlag_def xReadFlag_def by (rule trips_o_write) auto

lemma trips_xCode [trip_intros]:
  "1 \<le> n \<Longrightarrow> n \<le> 32 \<Longrightarrow> 0 \<le> v \<Longrightarrow> v < 2 ^ n \<Longrightarrow> trips (xWriteCode v n) (xReadCode n) v"
  using trips_o_write [of n v] by (simp add: xWriteCode_def [abs_def] xReadCode_def [abs_def])

lemma vlc_length_eq: "2 ^ L \<le> v \<Longrightarrow> v < 2 ^ Suc L \<Longrightarrow> vlc_length v n = 2 * L + n"
proof (induction L arbitrary: v n)
  case 0
  then show ?case by (simp add: vlc_length.simps)
next
  case (Suc L)
  have "1 \<le> (2::int) ^ L" by simp
  then have "1 < v" using Suc.prems(1) unfolding power_Suc by linarith
  moreover have "vlc_length (v div 2) (n + 2) = 2 * L + (n + 2)"
    using Suc.prems by (intro Suc.IH) auto
  ultimately show ?case by (subst vlc_length.simps) simp
qed

lemma ex_log: "1 \<le> (v::int) \<Longrightarrow> v < 2 ^ m \<Longrightarrow> \<exists>L. L < m \<and> 2 ^ L \<le> v \<and> v < 2 ^ Suc L"
proof (induction m)
  case (Suc m)
  then show ?case by (cases "v < 2 ^ m") (force simp: not_less less_Suc_eq)+
qed simp

text \<open>The Exp-Golomb code word of \<open>v - 1\<close>: \<open>L\<close> zeros and the \<open>L + 1\<close> bits of \<open>v\<close>.\<close>

lemma sends_xWriteVlc:
  assumes "L < 32" "2 ^ L \<le> v + 1" "v + 1 < 2 ^ Suc L" "0 \<le> v"
  shows "sends (xWriteVlc v) (replicate L False @ bits_of (Suc L) (v + 1))"
proof -
  have "v + 1 < 2 ^ 32" using assms(1,3) power_increasing [of "Suc L" 32 "2::int"] by linarith
  then have u: "u32 (v + 1) = v + 1" "v + 1 \<noteq> 0" using assms(4) by simp_all
  have l: "vlc_length (v + 1) 1 div 2 = L" "(vlc_length (v + 1) 1 + 1) div 2 = Suc L"
    using vlc_length_eq [OF assms(2,3), of 1] by simp_all
  have "xWriteVlc v = (\<lambda>ob. o_write 0 L ob \<bind> o_write (v + 1) (Suc L))"
    using u l by (simp add: xWriteVlc_def [abs_def] fun_eq_iff Let_def del: vlc_length.simps)
  moreover have "sends (o_write 0 L) (replicate L False)"
    using sends_o_write [of L 0] assms by simp
  moreover have "sends (o_write (v + 1) (Suc L)) (bits_of (Suc L) (v + 1))"
    using assms by (intro sends_o_write) simp_all
  ultimately show ?thesis using sends_bind by metis
qed

lemma recvs_vlc_prefix: "recvs (vlc_prefix n) (replicate L False @ [True]) (n + Suc L)"
  unfolding recvs_def
proof (intro allI impI)
  fix ib rest
  assume "ib_inv ib" "ib_bits ib = (replicate L False @ [True]) @ rest"
  then show "\<exists>ib'. vlc_prefix n ib = Some (n + Suc L, ib') \<and> ib_inv ib' \<and> ib_bits ib' = rest"
  proof (induction L arbitrary: n ib)
    case 0
    then show ?case using i_read_Some [of ib 1] by (subst vlc_prefix.simps) auto
  next
    case (Suc L)
    then obtain ib1 where 1: "i_read 1 ib = Some (0, ib1)" "ib_inv ib1"
      "ib_bits ib1 = (replicate L False @ [True]) @ rest"
      using i_read_Some [of ib 1] by auto
    then show ?case using Suc.IH [OF 1(2,3), of "Suc n"] by (subst vlc_prefix.simps) simp
  qed
qed

lemma log_div_mod:
  assumes "2 ^ L \<le> (v::int)" "v < 2 ^ Suc L"
  shows "v div 2 ^ L = 1" "v mod 2 ^ L = v - 2 ^ L"
  using assms int_div_pos_eq [of v "2 ^ L" 1 "v - 2 ^ L"] int_mod_pos_eq [of v "2 ^ L" 1 "v - 2 ^ L"]
  by simp_all

lemma bits_of_Suc_log: "2 ^ L \<le> v \<Longrightarrow> v < 2 ^ Suc L \<Longrightarrow> bits_of (Suc L) v = True # bits_of L v"
  by (simp add: log_div_mod)

text \<open>Both readers of Exp-Golomb codes recover \<open>v\<close> from prefix and suffix.\<close>

lemma recvs_vlc:
  assumes L: "0 < L" "L < 32" and v: "2 ^ L \<le> v" "v < 2 ^ Suc L"
    and f: "f L (v - 2 ^ L) = x"
  shows "recvs (\<lambda>ib. vlc_prefix 0 ib \<bind> (\<lambda>(len, ib). i_read len ib \<bind> (\<lambda>(suffix, ib). Some (f len suffix, ib))))
           (replicate (L - 1) False @ bits_of (Suc L) v) x"
proof -
  have "v mod 2 ^ L = v - 2 ^ L" using v by (rule log_div_mod)
  have "recvs (i_read L) (bits_of L v) (v - 2 ^ L)"
  proof -
    have "bits_of L v = bits_of L (v - 2 ^ L)"
      by (metis \<open>v mod 2 ^ L = v - 2 ^ L\<close> bits_of_mod le_refl)
    with v L show ?thesis by (simp add: recvs_i_read)
  qed
  then have "recvs (\<lambda>ib. i_read L ib \<bind> (\<lambda>(suffix, ib). Some (f L suffix, ib))) (bits_of L v @ []) x"
    by (rule recvs_bind) (rule recvs_return [OF f])
  moreover have "recvs (vlc_prefix 0) (replicate (L - 1) False @ [True]) L"
    using recvs_vlc_prefix [of 0 "L - 1"] L by simp
  ultimately have "recvs (\<lambda>ib. vlc_prefix 0 ib \<bind> case_prod (\<lambda>len ib. i_read len ib \<bind> (\<lambda>(suffix, ib). Some (f len suffix, ib))))
     ((replicate (L - 1) False @ [True]) @ (bits_of L v @ [])) x"
    by (rule recvs_bind [rotated])
  then show ?thesis using bits_of_Suc_log [OF v] by simp
qed

lemma recvs_vlc_reader:
  assumes L: "L < 32" and v: "2 ^ L \<le> v" "v < 2 ^ Suc L"
    and r: "r = (\<lambda>ib. i_read 1 ib \<bind> (\<lambda>(prefixBit, ib). if prefixBit = 0
        then vlc_prefix 0 ib \<bind> (\<lambda>(len, ib). i_read len ib \<bind> (\<lambda>(suffix, ib). Some (f len suffix, ib)))
        else Some (z, ib)))"
    and f: "0 < L \<Longrightarrow> f L (v - 2 ^ L) = x" and z: "L = 0 \<Longrightarrow> z = x"
  shows "recvs r (replicate L False @ bits_of (Suc L) v) x"
proof (cases "L = 0")
  case True
  with v have "v = 1" by simp
  have "recvs (i_read 1) [True] 1" using recvs_i_read [of 1 1] by simp
  then have "recvs r ([True] @ []) x" unfolding r
    by (rule recvs_bind) (simp add: recvs_return z [OF True])
  with True \<open>v = 1\<close> show ?thesis by simp
next
  case False
  have "recvs (i_read 1) [False] 0" using recvs_i_read [of 1 0] by simp
  then have "recvs r ([False] @ (replicate (L - 1) False @ bits_of (Suc L) v)) x" unfolding r
    by (rule recvs_bind) (use recvs_vlc [of L v f x] L v f False in simp)
  with False show ?thesis by (cases L) simp_all
qed

lemma trips_xUvlc [trip_intros]:
  assumes "0 \<le> v" "v < 2 ^ 32 - 1"
  shows "trips (xWriteUvlc v) xReadUvlc v"
proof -
  obtain L where L: "L < 32" "2 ^ L \<le> v + 1" "v + 1 < 2 ^ Suc L"
    using ex_log [of "v + 1" 32] assms by auto
  have "recvs xReadUvlc (replicate L False @ bits_of (Suc L) (v + 1)) v"
    using L
  proof (rule recvs_vlc_reader)
    show "xReadUvlc = (\<lambda>ib. i_read 1 ib \<bind> (\<lambda>(prefixBit, ib). if prefixBit = 0
        then vlc_prefix 0 ib \<bind> (\<lambda>(len, ib). i_read len ib \<bind> (\<lambda>(suffix, ib).
          Some (u32 (suffix + (push_bit len 1 - 1)), ib)))
        else Some (0, ib)))"
      by (simp add: xReadUvlc_def [abs_def])
    show "u32 (v + 1 - 2 ^ L + (push_bit L 1 - 1)) = v"
      using assms by (simp add: push_bit_eq_mult)
    show "L = 0 \<Longrightarrow> 0 = v" using L by simp
  qed
  then show ?thesis
    using sends_xWriteVlc [OF L] assms by (auto simp: trips_def xWriteUvlc_def)
qed

lemma trips_xSvlc [trip_intros]:
  assumes "- (2 ^ 31) < v" "v < 2 ^ 31"
  shows "trips (xWriteSvlc v) xReadSvlc v"
proof -
  define u where "u = (if v \<le> 0 then push_bit 1 (- v) else push_bit 1 v - 1)"
  have u: "0 \<le> u" "u < 2 ^ 32 - 1" and uv: "(if odd (u + 1) then - ((u + 1) div 2) else (u + 1) div 2) = v"
    using assms by (auto simp: u_def push_bit_eq_mult)
  obtain L where L: "L < 32" "2 ^ L \<le> u + 1" "u + 1 < 2 ^ Suc L"
    using ex_log [of "u + 1" 32] u by auto
  have "recvs xReadSvlc (replicate L False @ bits_of (Suc L) (u + 1)) v"
    using L
  proof (rule recvs_vlc_reader)
    show "xReadSvlc = (\<lambda>ib. i_read 1 ib \<bind> (\<lambda>(prefixBit, ib). if prefixBit = 0
        then vlc_prefix 0 ib \<bind> (\<lambda>(len, ib). i_read len ib \<bind> (\<lambda>(suffix, ib).
          Some (let suffix = u32 (suffix + push_bit len 1)
                in if odd suffix then - drop_bit 1 suffix else drop_bit 1 suffix, ib)))
        else Some (0, ib)))"
      unfolding xReadSvlc_def [abs_def] Let_def ..
    show "(let suffix = u32 (u + 1 - 2 ^ L + push_bit L 1)
           in if odd suffix then - drop_bit 1 suffix else drop_bit 1 suffix) = v"
      using u uv unfolding Let_def by (simp add: push_bit_eq_mult drop_bit_eq_div split: if_splits)
    show "L = 0 \<Longrightarrow> 0 = v" using L u uv by (auto split: if_splits)
  qed
  moreover have "xWriteSvlc v = xWriteVlc u" using u by (simp add: xWriteSvlc_def u_def [symmetric])
  ultimately show ?thesis
    using sends_xWriteVlc [OF L u(1)] by (auto simp: trips_def)
qed

text \<open>Two's complement: the sign bit of the low \<open>n\<close> bits, negated and merged back.\<close>

lemma scode_value:
  fixes v :: int
  assumes n: "1 \<le> n" and v: "- (2 ^ (n - 1)) \<le> v" "v < 2 ^ (n - 1)"
  shows "(- ((v mod 2 ^ n) AND push_bit (n - 1) 1)) OR (v mod 2 ^ n) = v"
proof -
  define m where "m = n - 1"
  have nm: "n = Suc m" using n by (simp add: m_def)
  have bm: "x AND push_bit m 1 = (if bit x m then push_bit m 1 else 0)" for x :: int
  proof (rule bit_eqI)
    fix i
    show "bit (x AND push_bit m 1) i \<longleftrightarrow> bit (if bit x m then push_bit m 1 else (0::int)) i"
      by (cases "i = m") (auto simp: bit_and_iff bit_exp_iff)
  qed
  show ?thesis
  proof (cases "0 \<le> v")
    case True
    have "(2::int) ^ (n - 1) \<le> 2 ^ n" by (intro power_increasing) simp_all
    with v(2) have "v < 2 ^ n" by linarith
    with True have vm: "v mod 2 ^ n = v" by (rule mod_pos_pos_trivial)
    have "v div 2 ^ m = 0" using v True unfolding m_def by (intro div_pos_pos_trivial)
    then have "\<not> bit v m" by (simp add: bit_iff_odd)
    then show ?thesis using vm bm [of v] by (simp add: m_def)
  next
    case False
    define w where "w = v + 2 ^ m"
    have w: "0 \<le> w" "w < 2 ^ m" using v False by (simp_all add: w_def m_def)
    have vm: "v mod 2 ^ n = 2 ^ m + w"
      using w int_mod_pos_eq [of v "2 ^ n" "-1" "2 ^ m + w"] by (simp add: nm w_def)
    have "(2 ^ m + w) div 2 ^ m = 1"
      using w by (simp add: div_add1_eq)
    then have "bit (2 ^ m + w) m" by (simp add: bit_iff_odd)
    then have a: "(2 ^ m + w) AND push_bit m 1 = push_bit m 1" using bm by simp
    have o: "2 ^ m + w = push_bit m 1 OR w" using push_bit_or_eq_add [OF w, of 1] by simp
    have "- (push_bit m 1) OR (2 ^ m + w) = push_bit m (- 1) OR (push_bit m 1 OR w)"
      unfolding o by (simp add: push_bit_minus)
    also have "\<dots> = (push_bit m (- 1) OR push_bit m 1) OR w" by (simp only: or.assoc)
    also have "push_bit m (- 1) OR push_bit m 1 = push_bit m (- 1 :: int)"
      unfolding push_bit_or [symmetric] by (simp only: or_minus_minus_numerals or_one_eq) simp
    also have "push_bit m (- 1) OR w = v" using push_bit_or_eq_add [OF w, of "-1"] by (simp add: w_def)
    finally show ?thesis using vm a by (simp add: m_def)
  qed
qed

lemma trips_xSCode [trip_intros]:
  assumes n: "1 \<le> n" "n \<le> 32" and v: "- (2 ^ (n - 1)) \<le> v" "v < 2 ^ (n - 1)"
  shows "trips (\<lambda>ob. xWriteSCode v n ob) (xReadSCode n) v"
proof -
  have m: "u32 v AND (push_bit n 1 - 1) = v mod 2 ^ n"
  proof -
    have "(2::int) ^ n dvd 2 ^ 32" using n by (intro le_imp_power_dvd) simp
    then show ?thesis
      using and_mask_eq_mod [of "u32 v" n]
      by (simp add: u32_def mod_mod_cancel)
  qed
  have w: "xWriteSCode v n = o_write (v mod 2 ^ n) n"
    using n v m by (auto simp: xWriteSCode_def [abs_def] u32_def fun_eq_iff)
  have r: "xReadSCode n = (\<lambda>ib. i_read n ib \<bind> (\<lambda>(val, ib).
      Some (if 32 \<le> n then i32 val else (- (val AND push_bit (n - 1) 1)) OR val, ib)))"
    using n by (simp add: xReadSCode_def [abs_def])
  show ?thesis unfolding w r
  proof (rule trips_last)
    show "trips (o_write (v mod 2 ^ n) n) (i_read n) (v mod 2 ^ n)"
      using n by (intro trips_o_write) simp_all
    show "(if 32 \<le> n then i32 (v mod 2 ^ n)
       else - (v mod 2 ^ n AND push_bit (n - 1) 1) OR v mod 2 ^ n) = v"
    proof (cases "n = 32")
      case True
      have "i32 (v mod 2 ^ 32) = i32 v"
        unfolding i32_def take_bit_eq_mod [symmetric] by (simp add: signed_take_bit_take_bit)
      then show ?thesis using v True by (simp add: i32_id)
    qed (use n scode_value [OF n(1) v] in simp)
  qed
qed

lemma xReadString_eq:
  "xReadString = (\<lambda>ib. i_read 8 ib \<bind> (\<lambda>(code, ib'). if code \<noteq> 0
     then xReadString ib' \<bind> (\<lambda>(cs, ib''). Some (signed_take_bit 7 code # cs, ib'')) else Some ([], ib')))"
  by (rule ext) (rule xReadString.simps)

lemma trips_xString [trip_intros]:
  "list_all (\<lambda>c. 0 < c \<and> c < 128) cs \<Longrightarrow> trips (xWriteString cs) xReadString cs"
proof (induction cs)
  case Nil
  have "trips (\<lambda>ob. o_write 0 8 ob \<bind> Some) xReadString []"
    by (subst xReadString_eq)
      (rule trips_bind [OF trips_o_write], auto intro: trips_return)
  then show ?case by simp
next
  case (Cons c cs)
  have u: "u32 c = c" "signed_take_bit 7 c = c"
    using Cons.prems by (simp_all add: signed_take_bit_int_eq_self)
  have "trips (\<lambda>ob. o_write (u32 c) 8 ob \<bind> xWriteString cs) xReadString (c # cs)"
  proof (subst xReadString_eq, rule trips_bind)
    show "trips (o_write (u32 c) 8) (i_read 8) c" using trips_o_write [of 8 c] Cons.prems u by simp
    show "trips (xWriteString cs) (\<lambda>ib'. if c \<noteq> 0
        then xReadString ib' \<bind> (\<lambda>(cs, ib''). Some (signed_take_bit 7 c # cs, ib'')) else Some ([], ib')) (c # cs)"
      using Cons u by (simp add: trips_last)
  qed
  then show ?case by simp
qed

text \<open>
  A character outside ASCII is a negative \<open>char\<close>; converted to 32 bits it does not fit into the eight
  bits asked for, and the \<open>CHECK\<close> of \<open>write\<close> fires: such a string cannot be written.
\<close>

lemma xWriteString_None:
  "ob_inv ob \<Longrightarrow> list_all (\<lambda>c. - 128 \<le> c \<and> c < 128) cs \<Longrightarrow> \<exists>c \<in> set cs. c < 0 \<Longrightarrow> xWriteString cs ob = None"
proof (induction cs arbitrary: ob)
  case (Cons c cs)
  show ?case
  proof (cases "c < 0")
    case True
    then have "u32 c = c + 2 ^ 32"
      using Cons.prems int_mod_pos_eq [of c "2 ^ 32" "-1" "c + 2 ^ 32"] by (simp add: u32_def)
    then have "o_write (u32 c) 8 ob = None" using Cons.prems True by (intro o_write_None) simp_all
    then show ?thesis by simp
  next
    case False
    then obtain ob' where "o_write (u32 c) 8 ob = Some ob'" "ob_inv ob'"
      using o_write_Some [OF Cons.prems(1), of 8 c] Cons.prems by auto
    then show ?thesis using Cons False by simp
  qed
qed simp

section \<open>The contract of a syntax element\<close>

fun put_list :: "('v \<Rightarrow> writer) \<Rightarrow> 'v list \<Rightarrow> writer" where
  "put_list put [] ob = Some ob"
| "put_list put (v # vs) ob = do { ob \<leftarrow> put v ob; put_list put vs ob }"

fun get_list :: "'v reader \<Rightarrow> nat \<Rightarrow> 'v list reader" where
  "get_list get 0 ib = Some ([], ib)"
| "get_list get (Suc n) ib = do { (v, ib) \<leftarrow> get ib; (vs, ib) \<leftarrow> get_list get n ib; Some (v # vs, ib) }"

locale syntax_element =
  fixes put :: "'v \<Rightarrow> writer" and get :: "'v reader" and dom :: "'v \<Rightarrow> bool"
  assumes trip: "dom v \<Longrightarrow> trips (put v) get v"
begin

lemma put_inject: "dom v \<Longrightarrow> dom v' \<Longrightarrow> put v o_clear = put v' o_clear \<Longrightarrow> v = v'"
  by (rule trips_inject [OF trip trip])

lemma put_total: "dom v \<Longrightarrow> ob_inv ob \<Longrightarrow> put v ob \<noteq> None"
  using trip sendsD unfolding trips_def by fastforce

lemma list_trip: "list_all dom vs \<Longrightarrow> trips (put_list put vs) (get_list get (length vs)) vs"
proof (induction vs)
  case Nil
  have "put_list put [] = Some" "get_list get (length []) = (\<lambda>ib. Some ([], ib))" by auto
  then show ?case by (simp add: trips_return)
next
  case (Cons v vs)
  then have "trips (\<lambda>ob. put v ob \<bind> put_list put vs)
      (\<lambda>ib. get ib \<bind> (\<lambda>(v, ib). get_list get (length vs) ib \<bind> (\<lambda>(vs, ib). Some (v # vs, ib)))) (v # vs)"
    by (intro trips_bind [of "put v" get v] trip trips_last [of _ _ vs]) simp_all
  moreover have "put_list put (v # vs) = (\<lambda>ob. put v ob \<bind> put_list put vs)"
    "get_list get (length (v # vs)) =
       (\<lambda>ib. get ib \<bind> (\<lambda>(v, ib). get_list get (length vs) ib \<bind> (\<lambda>(vs, ib). Some (v # vs, ib))))"
    by auto
  ultimately show ?case by simp
qed

text \<open>No code word of a valid value is a proper prefix of another's: reading is unambiguous.\<close>

lemma prefix_free:
  assumes "dom v" "dom v'" "ob_inv ob" "put v ob = Some o1" "put v' ob = Some o2"
    and "ob_bits o2 = ob_bits o1 @ ext"
  shows "v = v'"
proof -
  obtain bs where bs: "sends (put v) bs" "recvs get bs v" using trip [OF assms(1)] by (auto simp: trips_def)
  obtain bs' where bs': "sends (put v') bs'" "recvs get bs' v'" using trip [OF assms(2)] by (auto simp: trips_def)
  have "bs' = bs @ ext"
    using sendsD [OF bs(1) assms(3)] sendsD [OF bs'(1) assms(3)] assms(4-6) by auto
  moreover obtain ib rest where "ib_inv ib" "ib_bits ib = bs' @ rest" using reader_exists by blast
  ultimately show ?thesis
    using recvsD [OF bs(2), of ib "ext @ rest"] recvsD [OF bs'(2), of ib rest] by auto
qed

end

interpretation flag: syntax_element xWriteFlag xReadFlag "\<lambda>v. v = 0 \<or> v = 1"
  by unfold_locales (rule trips_xFlag)

interpretation code: syntax_element "\<lambda>v. xWriteCode v n" "xReadCode n" "\<lambda>v. 1 \<le> n \<and> n \<le> 32 \<and> 0 \<le> v \<and> v < 2 ^ n" for n
  by unfold_locales (simp add: trips_xCode)

interpretation uvlc: syntax_element xWriteUvlc xReadUvlc "\<lambda>v. 0 \<le> v \<and> v < 2 ^ 32 - 1"
  by unfold_locales (simp add: trips_xUvlc)

interpretation svlc: syntax_element xWriteSvlc xReadSvlc "\<lambda>v. - (2 ^ 31) < v \<and> v < 2 ^ 31"
  by unfold_locales (simp add: trips_xSvlc)

interpretation scode: syntax_element "\<lambda>v. xWriteSCode v n" "xReadSCode n"
    "\<lambda>v. 1 \<le> n \<and> n \<le> 32 \<and> - (2 ^ (n - 1)) \<le> v \<and> v < 2 ^ (n - 1)" for n
  by unfold_locales (use trips_xSCode in simp)

interpretation str: syntax_element xWriteString xReadString "list_all (\<lambda>c. 0 < c \<and> c < 128)"
  by unfold_locales (rule trips_xString)

lemmas list_trips [trip_intros] = flag.list_trip code.list_trip uvlc.list_trip svlc.list_trip scode.list_trip

section \<open>Trailing bits\<close>

text \<open>
  \<open>xWriteRbspTrailingBits\<close>: the loop writes zero bits until the stream is byte aligned, at most
  seven; a fuel of 8 never runs out (running out would be \<open>None\<close>).
\<close>

fun write_alignment :: "nat \<Rightarrow> nat \<Rightarrow> OutputBitstream \<Rightarrow> (nat \<times> OutputBitstream) option" where
  "write_alignment 0 cnt ob = None"
| "write_alignment (Suc fuel) cnt ob =
     (if o_getNumBitsUntilByteAligned ob \<noteq> 0
      then do { ob \<leftarrow> xWriteFlag 0 ob; write_alignment fuel (cnt + 1) ob }
      else Some (cnt, ob))"

definition xWriteRbspTrailingBits :: writer where
  "xWriteRbspTrailingBits ob = do {
     ob \<leftarrow> xWriteFlag 1 ob;
     (cnt, ob) \<leftarrow> write_alignment 8 0 ob;
     _ \<leftarrow> check (cnt \<ge> 8);
     Some ob
   }"

fun read_alignment :: "nat \<Rightarrow> nat \<Rightarrow> nat reader" where
  "read_alignment 0 cnt ib = None"
| "read_alignment (Suc fuel) cnt ib =
     (if i_getNumBitsUntilByteAligned ib \<noteq> 0
      then do { (bit, ib) \<leftarrow> xReadFlag ib; _ \<leftarrow> check (bit \<noteq> 0); read_alignment fuel (cnt + 1) ib }
      else Some (cnt, ib))"

definition xReadRbspTrailingBits :: "unit reader" where
  "xReadRbspTrailingBits ib = do {
     (bit, ib) \<leftarrow> xReadFlag ib;
     _ \<leftarrow> check (bit \<noteq> 1);
     (cnt, ib) \<leftarrow> read_alignment 8 0 ib;
     _ \<leftarrow> check (cnt \<ge> 8);
     Some ((), ib)
   }"

lemma held_mod: "ob_inv ob \<Longrightarrow> o_numHeldBits ob = length (ob_bits ob) mod 8"
  by (auto simp: length_ob_bits o_getNumberOfWrittenBits_def ob_inv_def)

lemma write_alignment_Some:
  "ob_inv ob \<Longrightarrow> o_numHeldBits ob = h \<Longrightarrow> (8 - h) mod 8 < fuel \<Longrightarrow>
   \<exists>ob'. write_alignment fuel c ob = Some (c + (8 - h) mod 8, ob') \<and> ob_inv ob' \<and> o_numHeldBits ob' = 0 \<and>
     ob_bits ob' = ob_bits ob @ replicate ((8 - h) mod 8) False"
proof (induction fuel arbitrary: ob c h)
  case (Suc fuel)
  have h8: "h < 8" using Suc.prems by (simp add: ob_inv_def)
  show ?case
  proof (cases "h = 0")
    case True
    with Suc.prems show ?thesis by (simp add: o_getNumBitsUntilByteAligned_def)
  next
    case False
    then have n: "o_getNumBitsUntilByteAligned ob \<noteq> 0"
      using Suc.prems h8 by (simp add: o_getNumBitsUntilByteAligned_def)
    obtain ob1 where 1: "xWriteFlag 0 ob = Some ob1" "ob_inv ob1" "ob_bits ob1 = ob_bits ob @ [False]"
      using o_write_Some [OF Suc.prems(1), of 1 0] by (auto simp: xWriteFlag_def)
    have "length (ob_bits ob1) = Suc (length (ob_bits ob))" using 1 by simp
    then have h1: "o_numHeldBits ob1 = (h + 1) mod 8"
      using held_mod [OF 1(2)] held_mod [OF Suc.prems(1)] Suc.prems(2) by (simp add: mod_Suc_eq)
    have m: "(8 - h) mod 8 = Suc ((8 - (h + 1) mod 8) mod 8)"
      using False h8 by (cases "h = 7") simp_all
    let ?h' = "(h + 1) mod 8"
    obtain ob2 where 2: "write_alignment fuel (c + 1) ob1 = Some (c + 1 + (8 - ?h') mod 8, ob2)" "ob_inv ob2"
      "o_numHeldBits ob2 = 0" "ob_bits ob2 = ob_bits ob1 @ replicate ((8 - ?h') mod 8) False"
      using Suc.IH [OF 1(2) h1, of "c + 1"] Suc.prems(3) m by auto
    have "write_alignment (Suc fuel) c ob = Some (c + (8 - h) mod 8, ob2)"
      using n 1(1) 2(1) m by simp
    then show ?thesis using 2 1(3) m by (intro exI [of _ ob2]) simp
  qed
qed simp

text \<open>
  The trailing bits: a one and zeros up to the byte boundary, at most eight bits altogether, so the
  final \<open>CHECK\<close> never fires. What the writer appends the reader consumes.
\<close>

lemma xWriteRbspTrailingBits_Some:
  assumes "ob_inv ob"
  shows "\<exists>ob'. xWriteRbspTrailingBits ob = Some ob' \<and> ob_inv ob' \<and> o_numHeldBits ob' = 0 \<and>
    ob_bits ob' = ob_bits ob @ True # replicate (7 - length (ob_bits ob) mod 8) False"
proof -
  obtain ob1 where 1: "xWriteFlag 1 ob = Some ob1" "ob_inv ob1" "ob_bits ob1 = ob_bits ob @ [True]"
    using o_write_Some [OF assms, of 1 1] by (auto simp: xWriteFlag_def)
  have h: "o_numHeldBits ob1 = Suc (length (ob_bits ob)) mod 8" using held_mod [OF 1(2)] 1 by simp
  have "(8 - o_numHeldBits ob1) mod 8 = 7 - length (ob_bits ob) mod 8"
    unfolding h mod_Suc by (simp split: if_splits)
  then obtain ob2 where "write_alignment 8 0 ob1 = Some (7 - length (ob_bits ob) mod 8, ob2)" "ob_inv ob2"
    "o_numHeldBits ob2 = 0" "ob_bits ob2 = ob_bits ob1 @ replicate (7 - length (ob_bits ob) mod 8) False"
    using write_alignment_Some [OF 1(2) refl, of 8 0] by fastforce
  moreover have "\<not> 8 \<le> 7 - length (ob_bits ob) mod 8" by linarith
  ultimately show ?thesis
    using 1 by (intro exI [of _ ob2]) (simp add: xWriteRbspTrailingBits_def)
qed

lemma read_alignment_Some:
  "ib_inv ib \<Longrightarrow> ib_bits ib = replicate z False @ rest \<Longrightarrow> i_numHeldBits ib = z \<Longrightarrow> z < fuel \<Longrightarrow>
   \<exists>ib'. read_alignment fuel c ib = Some (c + z, ib') \<and> ib_inv ib' \<and> ib_bits ib' = rest \<and> i_numHeldBits ib' = 0"
proof (induction fuel arbitrary: ib c z)
  case (Suc fuel)
  have z8: "z < 8" using Suc.prems by (simp add: ib_inv_def)
  show ?case
  proof (cases z)
    case 0
    with Suc.prems show ?thesis by (simp add: i_getNumBitsUntilByteAligned_def)
  next
    case (Suc z')
    obtain ib1 where 1: "xReadFlag ib = Some (0, ib1)" "ib_inv ib1" "ib_bits ib1 = replicate z' False @ rest"
      using i_read_Some [OF Suc.prems(1), of 1] Suc Suc.prems(2) by (auto simp: xReadFlag_def)
    have "i_numHeldBits ib1 = z'"
      using 1(1) Suc Suc.prems(3) by (auto simp: xReadFlag_def i_read_def Let_def)
    then show ?thesis
      using Suc.IH [OF 1(2,3), of "c + 1"] Suc Suc.prems(3,4) z8 1(1)
      by (auto simp: i_getNumBitsUntilByteAligned_def)
  qed
qed simp

lemma xReadRbspTrailingBits_Some:
  assumes inv: "ib_inv ib" and bits: "ib_bits ib = True # replicate z False @ rest"
    and z: "z < 8" and al: "length rest mod 8 = 0"
  shows "\<exists>ib'. xReadRbspTrailingBits ib = Some ((), ib') \<and> ib_inv ib' \<and> ib_bits ib' = rest"
proof -
  obtain ib1 where 1: "xReadFlag ib = Some (1, ib1)" "ib_inv ib1" "ib_bits ib1 = replicate z False @ rest"
    using i_read_Some [OF inv, of 1] bits by (auto simp: xReadFlag_def)
  have "i_numHeldBits ib1 = z" by (rule numHeldBits_unique [OF 1(2) _ al z]) (simp add: 1)
  then show ?thesis
    using read_alignment_Some [OF 1(2,3), of 8 0] 1(1) z by (auto simp: xReadRbspTrailingBits_def)
qed

lemma rbsp_trailing_bits_trip:
  assumes "ob_inv ob" "ib_inv ib" and w: "xWriteRbspTrailingBits ob = Some ob'"
    and bits: "ib_bits ib = drop (length (ob_bits ob)) (ob_bits ob') @ rest" and al: "length rest mod 8 = 0"
  shows "\<exists>ib'. xReadRbspTrailingBits ib = Some ((), ib') \<and> ib_inv ib' \<and> ib_bits ib' = rest"
proof -
  have "ib_bits ib = True # replicate (7 - length (ob_bits ob) mod 8) False @ rest"
    using xWriteRbspTrailingBits_Some [OF assms(1)] w bits by auto
  then show ?thesis using xReadRbspTrailingBits_Some [OF assms(2)] al by simp
qed

section \<open>Access unit delimiter and filler data\<close>

definition codeAUD :: "bool \<Rightarrow> int \<Rightarrow> writer" where
  "codeAUD audIrapOrGdrAuFlag pictureType ob = do {
     _ \<leftarrow> check (pictureType \<ge> 3);
     ob \<leftarrow> xWriteFlag (of_bool audIrapOrGdrAuFlag) ob;
     ob \<leftarrow> xWriteCode pictureType 3 ob;
     xWriteRbspTrailingBits ob
   }"

definition parseAccessUnitDelimiter :: "(int \<times> int) reader" where
  "parseAccessUnitDelimiter ib = do {
     (audIrapOrGdrAuFlag, ib) \<leftarrow> xReadFlag ib;
     (picType, ib) \<leftarrow> xReadCode 3 ib;
     (_, ib) \<leftarrow> xReadRbspTrailingBits ib;
     Some ((audIrapOrGdrAuFlag, picType), ib)
   }"

fun ff_bytes :: "nat \<Rightarrow> writer" where
  "ff_bytes 0 ob = Some ob"
| "ff_bytes (Suc fdSize) ob = do { ob \<leftarrow> xWriteCode 0xff 8 ob; ff_bytes fdSize ob }"

definition codeFD :: "nat \<Rightarrow> writer" where
  "codeFD fdSize ob = do { ob \<leftarrow> ff_bytes fdSize ob; xWriteRbspTrailingBits ob }"

text \<open>A read of eight bits shortens the stream: the loop over the filler bytes terminates.\<close>

function read_ff_bytes :: "nat \<Rightarrow> nat reader" where
  "read_ff_bytes fdSize ib =
     (if i_getNumBitsLeft ib > 8
      then case xReadCode 8 ib of
             None \<Rightarrow> None
           | Some (ffByte, ib') \<Rightarrow> if ffByte \<noteq> 0xff then None else read_ff_bytes (fdSize + 1) ib'
      else Some (fdSize, ib))"
  by pat_completeness auto
termination
  by (relation "measure (\<lambda>(fdSize, ib). length (ib_bits ib))") (auto simp: xReadCode_def dest: i_read_length)

declare read_ff_bytes.simps [simp del]

definition parseFillerData :: "nat reader" where
  "parseFillerData ib = do {
     (fdSize, ib) \<leftarrow> read_ff_bytes 0 ib;
     (_, ib) \<leftarrow> xReadRbspTrailingBits ib;
     Some (fdSize, ib)
   }"


lemma ff_bytes_Some:
  "ob_inv ob \<Longrightarrow> \<exists>ob'. ff_bytes n ob = Some ob' \<and> ob_inv ob' \<and> ob_bits ob' = ob_bits ob @ replicate (8 * n) True"
proof (induction n arbitrary: ob)
  case (Suc n)
  obtain ob1 where 1: "xWriteCode 255 8 ob = Some ob1" "ob_inv ob1" "ob_bits ob1 = ob_bits ob @ bits_of 8 255"
    using o_write_Some [OF Suc.prems, of 8 255] by (auto simp: xWriteCode_def)
  have b: "bits_of 8 255 = replicate 8 True" by (simp add: numeral_eq_Suc)
  show ?case using Suc.IH [OF 1(2)] 1(1,3) unfolding b by (auto simp: replicate_add [symmetric])
qed simp

lemma read_ff_bytes_Some:
  "ib_inv ib \<Longrightarrow> ib_bits ib = replicate (8 * n) True @ rest \<Longrightarrow> length rest = 8 \<Longrightarrow> length (ib_bits ib) < 2 ^ 32 \<Longrightarrow>
   \<exists>ib'. read_ff_bytes c ib = Some (c + n, ib') \<and> ib_inv ib' \<and> ib_bits ib' = rest"
proof (induction n arbitrary: c ib)
  case 0
  then show ?case by (subst read_ff_bytes.simps) (simp add: i_getNumBitsLeft_eq)
next
  case (Suc n)
  show ?case
  proof (cases "i_getNumBitsLeft ib > 8")
    case True
    have b: "replicate 8 True = bits_of 8 255" by (simp add: numeral_eq_Suc)
    have "ib_bits ib = replicate 8 True @ replicate (8 * n) True @ rest"
      using Suc.prems by (simp add: replicate_add)
    then obtain ib1 where 1: "xReadCode 8 ib = Some (255, ib1)" "ib_inv ib1"
      "ib_bits ib1 = replicate (8 * n) True @ rest"
      unfolding b using recvsD [OF recvs_i_read [of 8 255] Suc.prems(1)] by (auto simp: xReadCode_def)
    moreover have "length (ib_bits ib1) < 2 ^ 32" using 1(3) Suc.prems(2,4) by simp
    ultimately show ?thesis
      using Suc.IH [of ib1 "c + 1"] Suc.prems(3) True by (subst read_ff_bytes.simps) simp
  next
    case False
    then show ?thesis using Suc.prems by (simp add: i_getNumBitsLeft_eq)
  qed
qed

text \<open>Whole access unit delimiters and filler data NAL units of any size read back as written.\<close>

lemma codeAUD_parse:
  assumes pic: "0 \<le> pic" "pic < 3" and inv: "ob_inv ob" "ib_inv ib"
    and w: "codeAUD flag pic ob = Some ob'"
    and bits: "ib_bits ib = drop (length (ob_bits ob)) (ob_bits ob')"
  shows "\<exists>ib'. parseAccessUnitDelimiter ib = Some ((of_bool flag, pic), ib') \<and> ib_bits ib' = []"
proof -
  obtain b1 b2 where b1: "sends (xWriteFlag (of_bool flag)) b1" "recvs xReadFlag b1 (of_bool flag)"
    and b2: "sends (xWriteCode pic 3) b2" "recvs (xReadCode 3) b2 pic"
    using trips_xFlag [of "of_bool flag"] trips_xCode [of 3 pic] pic by (auto simp: trips_def)
  obtain o1 where o1: "xWriteFlag (of_bool flag) ob = Some o1" "ob_inv o1" "ob_bits o1 = ob_bits ob @ b1"
    using sendsD [OF b1(1) inv(1)] by auto
  obtain o2 where o2: "xWriteCode pic 3 o1 = Some o2" "ob_inv o2" "ob_bits o2 = ob_bits o1 @ b2"
    using sendsD [OF b2(1) o1(2)] by auto
  have w': "xWriteRbspTrailingBits o2 = Some ob'" using w o1 o2 pic by (simp add: codeAUD_def)
  obtain tr where tr: "ob_bits ob' = ob_bits o2 @ tr" using xWriteRbspTrailingBits_Some [OF o2(2)] w' by auto
  have "ib_bits ib = b1 @ (b2 @ tr)" using bits o1(3) o2(3) tr by simp
  then obtain i1 where i1: "xReadFlag ib = Some (of_bool flag, i1)" "ib_inv i1" "ib_bits i1 = b2 @ tr"
    using recvsD [OF b1(2) inv(2)] by auto
  then obtain i2 where i2: "xReadCode 3 i1 = Some (pic, i2)" "ib_inv i2" "ib_bits i2 = tr"
    using recvsD [OF b2(2) i1(2)] by auto
  obtain i3 where "xReadRbspTrailingBits i2 = Some ((), i3)" "ib_bits i3 = []"
    using rbsp_trailing_bits_trip [OF o2(2) i2(2) w', of "[]"] i2 tr by auto
  then show ?thesis using i1 i2 by (simp add: parseAccessUnitDelimiter_def)
qed

lemma codeFD_parse:
  assumes al: "length (ob_bits ob) mod 8 = 0" and inv: "ob_inv ob" "ib_inv ib"
    and w: "codeFD n ob = Some ob'" and n: "8 * n + 8 < 2 ^ 32"
    and bits: "ib_bits ib = drop (length (ob_bits ob)) (ob_bits ob')"
  shows "\<exists>ib'. parseFillerData ib = Some (n, ib') \<and> ib_bits ib' = []"
proof -
  obtain o1 where o1: "ff_bytes n ob = Some o1" "ob_inv o1" "ob_bits o1 = ob_bits ob @ replicate (8 * n) True"
    using ff_bytes_Some [OF inv(1)] by blast
  have w': "xWriteRbspTrailingBits o1 = Some ob'" using w o1 by (simp add: codeFD_def)
  have "length (ob_bits o1) mod 8 = 0" using al o1(3) by simp
  then obtain tr where tr: "ob_bits ob' = ob_bits o1 @ tr" "length tr = 8"
    using xWriteRbspTrailingBits_Some [OF o1(2)] w' by auto
  have "ib_bits ib = replicate (8 * n) True @ tr" using bits o1(3) tr by simp
  then obtain i1 where i1: "read_ff_bytes 0 ib = Some (n, i1)" "ib_inv i1" "ib_bits i1 = tr"
    using read_ff_bytes_Some [OF inv(2) _ tr(2), of n 0] n tr(2) by auto
  obtain i2 where "xReadRbspTrailingBits i1 = Some ((), i2)" "ib_bits i2 = []"
    using rbsp_trailing_bits_trip [OF o1(2) i1(2) w', of "[]"] i1 tr by auto
  then show ?thesis using i1 by (simp add: parseFillerData_def)
qed

section \<open>Properties\<close>

text \<open>
  C19: The Exp-Golomb codes: whatever \<open>xWriteUvlc\<close> and \<open>xWriteSvlc\<close> append to a stream, for all
  values in range, a reader positioned there turns back into those values, consuming exactly those bits.
\<close>

theorem exp_golomb_roundtrip:
  assumes "ob_inv ob" "ib_inv ib" "0 \<le> u" "u < 2 ^ 32 - 1" "- (2 ^ 31) < v" "v < 2 ^ 31"
    and "xWriteUvlc u ob = Some ob1" "xWriteSvlc v ob1 = Some ob2"
    and "ib_bits ib = drop (length (ob_bits ob)) (ob_bits ob2) @ rest"
  shows "\<exists>ib1 ib2. xReadUvlc ib = Some (u, ib1) \<and> xReadSvlc ib1 = Some (v, ib2) \<and> ib_inv ib2 \<and> ib_bits ib2 = rest"
proof -
  have "trips (\<lambda>ob. xWriteUvlc u ob \<bind> xWriteSvlc v)
      (\<lambda>ib. xReadUvlc ib \<bind> (\<lambda>(x, ib). xReadSvlc ib \<bind> (\<lambda>(y, ib). Some ((x, y), ib)))) (u, v)"
    by (rule trips_bind, rule trips_xUvlc [OF assms(3,4)], rule trips_last, rule trips_xSvlc [OF assms(5,6)]) simp
  from trips_value [OF this assms(1,2) _ assms(9)] show ?thesis
    using assms(7,8) by (auto simp: bind_eq_Some_conv)
qed

theorem exp_golomb_roundtrip_witness:
  "\<exists>ib1 ib2. xReadUvlc (i_create\<lparr>i_fifo := [0x29, 0x40]\<rparr>) = Some (4, ib1) \<and> xReadSvlc ib1 = Some (-2, ib2) \<and>
     ib_inv ib2 \<and> ib_bits ib2 = replicate 6 False"
proof -
  have inv: "ib_inv (i_create\<lparr>i_fifo := [0x29, 0x40]\<rparr>)" by (rule fresh_reader) (simp add: is_byte_def)
  have w: "xWriteUvlc 4 o_clear = Some \<lparr>o_fifo = [], o_numHeldBits = 5, o_heldBits = 0x28\<rparr>"
    "xWriteSvlc (-2) \<lparr>o_fifo = [], o_numHeldBits = 5, o_heldBits = 0x28\<rparr> =
       Some \<lparr>o_fifo = [0x29], o_numHeldBits = 2, o_heldBits = 0x40\<rparr>" by code_simp+
  have b: "ib_bits (i_create\<lparr>i_fifo := [0x29, 0x40]\<rparr>) =
      drop (length (ob_bits o_clear)) (ob_bits \<lparr>o_fifo = [0x29], o_numHeldBits = 2, o_heldBits = 0x40\<rparr>)
      @ replicate 6 False" by code_simp
  show ?thesis
    by (rule exp_golomb_roundtrip [OF ob_inv_clear inv _ _ _ _ w b]) simp_all
qed

text \<open>
  C31: Exp-Golomb codes are prefix free: a value whose code word extends that of another is the other.
  So what follows an element never changes how it is read.
\<close>

theorem exp_golomb_prefix_free:
  assumes "ob_inv ob" "0 \<le> v" "v < 2 ^ 32 - 1" "0 \<le> v'" "v' < 2 ^ 32 - 1" "v \<noteq> v'"
    and "xWriteUvlc v ob = Some o1" "xWriteUvlc v' ob = Some o2"
  shows "ob_bits o2 \<noteq> ob_bits o1 @ ext"
  using uvlc.prefix_free [OF _ _ assms(1,7,8), of ext] assms(2-6) by auto

theorem exp_golomb_prefix_free_witness:
  "ob_bits \<lparr>o_fifo = [], o_numHeldBits = 5, o_heldBits = 0x28\<rparr> \<noteq>
   ob_bits \<lparr>o_fifo = [], o_numHeldBits = 3, o_heldBits = 0x40\<rparr> @ [False, True]"
proof -
  have w: "xWriteUvlc 1 o_clear = Some \<lparr>o_fifo = [], o_numHeldBits = 3, o_heldBits = 0x40\<rparr>"
    "xWriteUvlc 4 o_clear = Some \<lparr>o_fifo = [], o_numHeldBits = 5, o_heldBits = 0x28\<rparr>" by code_simp+
  show ?thesis by (rule exp_golomb_prefix_free [OF ob_inv_clear _ _ _ _ _ w]) simp_all
qed



text \<open>
  C33: Access unit delimiters read back as written.
\<close>

theorem access_unit_delimiter_roundtrip:
  assumes "ob_inv ob" "0 \<le> pic" "pic < 3" "codeAUD flag pic ob = Some ob'"
    and "ib_inv ib" "ib_bits ib = drop (length (ob_bits ob)) (ob_bits ob')"
  shows "\<exists>ib'. parseAccessUnitDelimiter ib = Some ((of_bool flag, pic), ib') \<and> ib_bits ib' = []"
  by (rule codeAUD_parse [OF assms(2,3,1,5,4,6)])

theorem access_unit_delimiter_roundtrip_witness:
  "\<exists>ib'. parseAccessUnitDelimiter (i_create\<lparr>i_fifo := [0xa8]\<rparr>) = Some ((1, 2), ib') \<and> ib_bits ib' = []"
proof -
  have w: "codeAUD True 2 o_clear = Some \<lparr>o_fifo = [0xa8], o_numHeldBits = 0, o_heldBits = 0\<rparr>" by code_simp
  have inv: "ib_inv (i_create\<lparr>i_fifo := [0xa8]\<rparr>)" by (rule fresh_reader) (simp add: is_byte_def)
  have "\<exists>ib'. parseAccessUnitDelimiter (i_create\<lparr>i_fifo := [0xa8]\<rparr>) = Some ((of_bool True, 2), ib') \<and> ib_bits ib' = []"
    by (rule access_unit_delimiter_roundtrip [OF ob_inv_clear _ _ w inv]) (simp, simp, code_simp)
  then show ?thesis by simp
qed

text \<open>
  C34: A string with a character outside ASCII cannot be written: the sign extension of the character
  makes the \<open>CHECK\<close> of \<open>write\<close> fire, although the reader accepts all eight-bit codes.
\<close>

theorem xWriteString_non_ascii:
  assumes "ob_inv ob" "list_all (\<lambda>c. - 128 \<le> c \<and> c < 128) cs" "\<exists>c \<in> set cs. c < 0"
  shows "xWriteString cs ob = None"
  using assms by (rule xWriteString_None)

theorem xWriteString_non_ascii_witness: "xWriteString [0x56, - 0x3d, - 0x57] o_clear = None"
  by (rule xWriteString_non_ascii [OF ob_inv_clear]) simp_all

end
