(* ===== verification/NalUnit.thy ===== *)
theory NalUnit
  imports Vlc
begin

text \<open>
  NAL units: the two-byte header and the emulation prevention of
  \<open>source/Lib/EncoderLib/NALwrite.cpp\<close> and \<open>source/Lib/DecoderLib/NALread.cpp\<close>. An output
  stream (\<open>std::ostream\<close>) is the list of bytes written to it.
\<close>

section \<open>NAL units and their types\<close>

type_synonym NalUnitType = int

definition NAL_UNIT_CODED_SLICE_TRAIL :: NalUnitType where "NAL_UNIT_CODED_SLICE_TRAIL = 0"
definition NAL_UNIT_CODED_SLICE_STSA :: NalUnitType where "NAL_UNIT_CODED_SLICE_STSA = 1"
definition NAL_UNIT_CODED_SLICE_RADL :: NalUnitType where "NAL_UNIT_CODED_SLICE_RADL = 2"
definition NAL_UNIT_CODED_SLICE_RASL :: NalUnitType where "NAL_UNIT_CODED_SLICE_RASL = 3"
definition NAL_UNIT_CODED_SLICE_IDR_W_RADL :: NalUnitType where "NAL_UNIT_CODED_SLICE_IDR_W_RADL = 7"
definition NAL_UNIT_CODED_SLICE_IDR_N_LP :: NalUnitType where "NAL_UNIT_CODED_SLICE_IDR_N_LP = 8"
definition NAL_UNIT_CODED_SLICE_CRA :: NalUnitType where "NAL_UNIT_CODED_SLICE_CRA = 9"
definition NAL_UNIT_CODED_SLICE_GDR :: NalUnitType where "NAL_UNIT_CODED_SLICE_GDR = 10"
definition NAL_UNIT_RESERVED_IRAP_VCL_11 :: NalUnitType where "NAL_UNIT_RESERVED_IRAP_VCL_11 = 11"
definition NAL_UNIT_OPI :: NalUnitType where "NAL_UNIT_OPI = 12"
definition NAL_UNIT_DCI :: NalUnitType where "NAL_UNIT_DCI = 13"
definition NAL_UNIT_VPS :: NalUnitType where "NAL_UNIT_VPS = 14"
definition NAL_UNIT_SPS :: NalUnitType where "NAL_UNIT_SPS = 15"
definition NAL_UNIT_PPS :: NalUnitType where "NAL_UNIT_PPS = 16"
definition NAL_UNIT_PREFIX_APS :: NalUnitType where "NAL_UNIT_PREFIX_APS = 17"
definition NAL_UNIT_SUFFIX_APS :: NalUnitType where "NAL_UNIT_SUFFIX_APS = 18"
definition NAL_UNIT_PH :: NalUnitType where "NAL_UNIT_PH = 19"
definition NAL_UNIT_PREFIX_SEI :: NalUnitType where "NAL_UNIT_PREFIX_SEI = 23"
definition NAL_UNIT_SUFFIX_SEI :: NalUnitType where "NAL_UNIT_SUFFIX_SEI = 24"

lemmas nal_unit_types =
  NAL_UNIT_CODED_SLICE_TRAIL_def NAL_UNIT_CODED_SLICE_STSA_def NAL_UNIT_CODED_SLICE_RADL_def
  NAL_UNIT_CODED_SLICE_RASL_def NAL_UNIT_CODED_SLICE_IDR_W_RADL_def NAL_UNIT_CODED_SLICE_IDR_N_LP_def
  NAL_UNIT_CODED_SLICE_CRA_def NAL_UNIT_CODED_SLICE_GDR_def NAL_UNIT_RESERVED_IRAP_VCL_11_def
  NAL_UNIT_OPI_def NAL_UNIT_DCI_def NAL_UNIT_VPS_def NAL_UNIT_SPS_def NAL_UNIT_PPS_def
  NAL_UNIT_PREFIX_APS_def NAL_UNIT_SUFFIX_APS_def NAL_UNIT_PH_def NAL_UNIT_PREFIX_SEI_def NAL_UNIT_SUFFIX_SEI_def

record NALUnit =
  m_nalUnitType :: NalUnitType
  m_temporalId :: int
  m_nuhLayerId :: int
  m_forbiddenZeroBit :: int
  m_nuhReservedZeroBit :: int

definition isVclNalUnitType :: "NalUnitType \<Rightarrow> bool" where
  "isVclNalUnitType t \<longleftrightarrow>
     t = NAL_UNIT_CODED_SLICE_TRAIL \<or> t = NAL_UNIT_CODED_SLICE_STSA \<or> t = NAL_UNIT_CODED_SLICE_RADL
     \<or> t = NAL_UNIT_CODED_SLICE_RASL \<or> t = NAL_UNIT_CODED_SLICE_IDR_W_RADL
     \<or> t = NAL_UNIT_CODED_SLICE_IDR_N_LP \<or> t = NAL_UNIT_CODED_SLICE_CRA \<or> t = NAL_UNIT_CODED_SLICE_GDR"

definition isSlice :: "NALUnit \<Rightarrow> bool" where
  "isSlice n \<longleftrightarrow> (let t = m_nalUnitType n in
     t = NAL_UNIT_CODED_SLICE_TRAIL \<or> t = NAL_UNIT_CODED_SLICE_STSA
     \<or> t = NAL_UNIT_CODED_SLICE_IDR_W_RADL \<or> t = NAL_UNIT_CODED_SLICE_IDR_N_LP
     \<or> t = NAL_UNIT_CODED_SLICE_CRA \<or> t = NAL_UNIT_CODED_SLICE_GDR
     \<or> t = NAL_UNIT_CODED_SLICE_RADL \<or> t = NAL_UNIT_CODED_SLICE_RASL)"

definition isSei :: "NALUnit \<Rightarrow> bool" where
  "isSei n \<longleftrightarrow> m_nalUnitType n = NAL_UNIT_PREFIX_SEI \<or> m_nalUnitType n = NAL_UNIT_SUFFIX_SEI"

definition isVcl :: "NALUnit \<Rightarrow> bool" where
  "isVcl n \<longleftrightarrow> isVclNalUnitType (m_nalUnitType n)"

lemma isSlice_iff_isVcl: "isSlice n \<longleftrightarrow> isVcl n"
  by (auto simp: isSlice_def isVcl_def isVclNalUnitType_def Let_def)

section \<open>Writing: the header and the emulation prevention bytes\<close>

definition writeNalUnitHeader :: "NALUnit \<Rightarrow> int list option" where
  "writeNalUnitHeader nalu = do {
     ob \<leftarrow> o_write 0 1 o_clear;
     ob \<leftarrow> o_write 0 1 ob;
     _ \<leftarrow> check (m_nuhLayerId nalu > 55);
     ob \<leftarrow> o_write (m_nuhLayerId nalu) 6 ob;
     ob \<leftarrow> o_write (m_nalUnitType nalu) 5 ob;
     ob \<leftarrow> o_write (u32 (m_temporalId nalu + 1)) 3 ob;
     Some (o_fifo ob)
   }"

text \<open>
  The loop of \<open>writeNaluContent\<close>: the bytes appended to the output buffer and the final
  \<open>zeroCount\<close>.
\<close>

fun ebsp_loop :: "nat \<Rightarrow> int list \<Rightarrow> int list \<times> nat" where
  "ebsp_loop zeroCount [] = ([], zeroCount)"
| "ebsp_loop zeroCount (v # vs) = (
     let (pre, zeroCount) = (if zeroCount = 2 \<and> v \<le> 3 then ([3], 0) else ([], zeroCount));
         zeroCount = (if v = 0 then zeroCount + 1 else 0);
         (out, z) = ebsp_loop zeroCount vs
     in (pre @ v # out, z))"

definition writeNaluContent :: "int list \<Rightarrow> int list" where
  "writeNaluContent rbsp = (
     let (out, zeroCount) = ebsp_loop 0 rbsp
     in if zeroCount > 0 then out @ [3] else out)"

definition writeNaluWithHeader :: "NALUnit \<Rightarrow> int list \<Rightarrow> int list option" where
  "writeNaluWithHeader nalu rbsp = do {
     hdr \<leftarrow> writeNalUnitHeader nalu;
     Some (hdr @ writeNaluContent rbsp)
   }"

section \<open>Reading\<close>

text \<open>
  The loop of \<open>convertPayloadToRBSP\<close>: \<open>it_write\<close> writes into the bytes already read, so the
  function returns the bytes written, the positions pushed and the final \<open>zeroCount\<close>.
\<close>

fun rbsp_loop :: "nat \<Rightarrow> nat \<Rightarrow> int list \<Rightarrow> (int list \<times> nat list \<times> nat) option" where
  "rbsp_loop zeroCount pos [] = Some ([], [], zeroCount)"
| "rbsp_loop zeroCount pos (x # xs) = do {
     _ \<leftarrow> check (zeroCount \<ge> 2 \<and> x < 3);
     if zeroCount = 2 \<and> x = 3
     then (case xs of
             [] \<Rightarrow> Some ([], [pos], 0)
           | y # ys \<Rightarrow> do {
               _ \<leftarrow> check (y > 3);
               (out, locs, z) \<leftarrow> rbsp_loop (if y = 0 then 1 else 0) (pos + 2) ys;
               Some (y # out, pos # locs, z)
             })
     else do {
       (out, locs, z) \<leftarrow> rbsp_loop (if x = 0 then zeroCount + 1 else 0) (pos + 1) xs;
       Some (x # out, locs, z)
     }
   }"

text \<open>
  \<open>while (it_write[-1] == 0x00)\<close>: a buffer of zeros only would be read before its start.
\<close>

definition strip_cabac_zero_words :: "int list \<Rightarrow> int list option" where
  "strip_cabac_zero_words buf =
     (if list_all (\<lambda>b. b = 0) buf then None else Some (rev (dropWhile (\<lambda>b. b = 0) (rev buf))))"

definition convertPayloadToRBSP :: "bool \<Rightarrow> int list \<Rightarrow> (int list \<times> nat list) option" where
  "convertPayloadToRBSP isVclNalUnit nalUnitBuf = do {
     (out, locs, zeroCount) \<leftarrow> rbsp_loop 0 0 nalUnitBuf;
     _ \<leftarrow> check (zeroCount \<noteq> 0);
     out \<leftarrow> (if isVclNalUnit then strip_cabac_zero_words out else Some out);
     Some (out, locs)
   }"

definition readNalUnitHeader :: "NALUnit reader" where
  "readNalUnitHeader bs = do {
     (forbiddenZeroBit, bs) \<leftarrow> i_read 1 bs;
     (nuhReservedZeroBit, bs) \<leftarrow> i_read 1 bs;
     (nuhLayerId, bs) \<leftarrow> i_read 6 bs;
     _ \<leftarrow> check (nuhLayerId > 55);
     (nalUnitType, bs) \<leftarrow> i_read 5 bs;
     (tid1, bs) \<leftarrow> i_read 3 bs;
     let temporalId = u32 (tid1 - 1)
     in do {
       _ \<leftarrow> check (nuhLayerId = 0 \<and> temporalId = 0 \<and> nalUnitType = NAL_UNIT_CODED_SLICE_STSA);
       Some (\<lparr>m_nalUnitType = nalUnitType, m_temporalId = temporalId, m_nuhLayerId = nuhLayerId,
              m_forbiddenZeroBit = forbiddenZeroBit, m_nuhReservedZeroBit = nuhReservedZeroBit\<rparr>, bs)
     }
   }"

definition readNalUnit :: "NALUnit reader" where
  "readNalUnit bs = (
     let nalUnitBuf = i_fifo bs
     in do {
       _ \<leftarrow> check (length nalUnitBuf < 2);
       let nut = drop_bit 3 (nalUnitBuf ! 1);
           bs = (if nut = NAL_UNIT_VPS \<or> nut = NAL_UNIT_SPS \<or> nut = NAL_UNIT_PPS \<or> nut = NAL_UNIT_PREFIX_APS
                    \<or> nut = NAL_UNIT_SUFFIX_APS \<or> nut = NAL_UNIT_PH \<or> nut = NAL_UNIT_PREFIX_SEI
                    \<or> nut = NAL_UNIT_SUFFIX_SEI \<or> isVclNalUnitType nut
                 then bs\<lparr>i_origFifo := nalUnitBuf\<rparr> else bs)
       in do {
         (rbsp, locs) \<leftarrow> convertPayloadToRBSP (nut \<le> NAL_UNIT_RESERVED_IRAP_VCL_11) nalUnitBuf;
         readNalUnitHeader (resetToStart (bs\<lparr>i_fifo := rbsp, i_emulationPreventionByteLocation := locs\<rparr>))
       }
     })"

definition checkPictureHeaderInSliceHeaderFlag :: "bool reader" where
  "checkPictureHeaderInSliceHeaderFlag bs = do {
     _ \<leftarrow> check (i_fifoIdx bs \<noteq> 2);
     (flag, bs) \<leftarrow> i_read 1 bs;
     Some (flag \<noteq> 0, bs)
   }"

section \<open>Emulation prevention\<close>

text \<open>
  Clause 7.4.1 as the comment of \<open>writeNaluContent\<close> states it: no start code and no forbidden
  sequence, and three zero-zero bytes followed by 3 only in front of a byte of at most 3 or at the end.
\<close>

fun conforming :: "int list \<Rightarrow> bool" where
  "conforming (a # b # c # r) \<longleftrightarrow>
     (a = 0 \<and> b = 0 \<longrightarrow> 3 \<le> c \<and> (c = 3 \<longrightarrow> (r = [] \<or> hd r \<le> 3))) \<and> conforming (b # c # r)"
| "conforming _ \<longleftrightarrow> True"

lemma ebsp_loop_ConsE:
  assumes "ebsp_loop zc (v # vs) = (out, z)"
  obtains (escape) o1 where "zc = 2" "v \<le> 3" "ebsp_loop (of_bool (v = 0)) vs = (o1, z)" "out = 3 # v # o1"
  | (plain) o1 where "zc \<noteq> 2 \<or> 3 < v" "ebsp_loop (if v = 0 then zc + 1 else 0) vs = (o1, z)" "out = v # o1"
  using assms by (cases "zc = 2 \<and> v \<le> 3") (auto split: prod.splits if_splits)

text \<open>Induction along the writer's loop, one case per branch.\<close>

lemma ebsp_induct [consumes 2, case_names Nil escape plain]:
  assumes "ebsp_loop zc vs = (out, z)" "zc \<le> 2"
    and nil: "\<And>zc. zc \<le> 2 \<Longrightarrow> P zc [] [] zc"
    and esc: "\<And>v vs out z. v \<le> 3 \<Longrightarrow> ebsp_loop (of_bool (v = 0)) vs = (out, z) \<Longrightarrow> P (of_bool (v = 0)) vs out z \<Longrightarrow>
               P 2 (v # vs) (3 # v # out) z"
    and plain: "\<And>zc v vs out z. zc \<le> 2 \<Longrightarrow> zc < 2 \<or> 3 < v \<Longrightarrow> ebsp_loop (if v = 0 then zc + 1 else 0) vs = (out, z) \<Longrightarrow>
               P (if v = 0 then zc + 1 else 0) vs out z \<Longrightarrow> P zc (v # vs) (v # out) z"
  shows "P zc vs out z"
  using assms(1,2)
proof (induction vs arbitrary: zc out)
  case Nil
  then show ?case by (simp add: nil)
next
  case (Cons v vs)
  from Cons.prems(1) show ?case
  proof (cases rule: ebsp_loop_ConsE)
    case (escape o1)
    then show ?thesis using esc [OF _ _ Cons.IH] by (cases "v = 0") simp_all
  next
    case (plain o1)
    moreover from plain Cons.prems(2) have "(if v = 0 then zc + 1 else 0) \<le> 2" by auto
    ultimately show ?thesis using assms(5) [OF Cons.prems(2) _ _ Cons.IH] Cons.prems(2) by auto
  qed
qed

lemma ebsp_loop_zeroCount: "ebsp_loop zc vs = (out, z) \<Longrightarrow> zc \<le> 2 \<Longrightarrow> z \<le> 2"
  by (induction rule: ebsp_induct) simp_all

lemma ebsp_loop_last:
  "ebsp_loop zc vs = (out, z) \<Longrightarrow> zc \<le> 2 \<Longrightarrow> vs \<noteq> [] \<longrightarrow> out \<noteq> [] \<and> last out = last vs \<and> (z = 0 \<longleftrightarrow> last vs \<noteq> 0)"
  by (induction rule: ebsp_induct) (auto split: if_splits)

lemma ebsp_loop_is_byte:
  "ebsp_loop zc vs = (out, z) \<Longrightarrow> zc \<le> 2 \<Longrightarrow> list_all is_byte vs \<longrightarrow> list_all is_byte out"
  by (induction rule: ebsp_induct) (auto simp: is_byte_def)

text \<open>The output buffer of the writer is large enough.\<close>

lemma ebsp_loop_length:
  "ebsp_loop zc vs = (out, z) \<Longrightarrow> zc \<le> 2 \<Longrightarrow> 2 * length out + z \<le> 3 * length vs + zc"
  by (induction rule: ebsp_induct) (auto simp: of_bool_def split: if_splits)

lemma writeNaluContent_length: "length (writeNaluContent rbsp) \<le> length rbsp + length rbsp div 2 + 1"
proof -
  obtain out z where e: "ebsp_loop 0 rbsp = (out, z)" by fastforce
  then have "2 * length out + z \<le> 3 * length rbsp" using ebsp_loop_length [OF e] by simp
  with e show ?thesis by (auto simp: writeNaluContent_def)
qed

lemma conforming_Cons: "a \<noteq> 0 \<Longrightarrow> conforming (a # r) = conforming r"
  by (cases r; cases "tl r") auto

lemma conforming_0: "b \<noteq> 0 \<Longrightarrow> conforming (a # b # r) = conforming r"
  using conforming_Cons [of b r] by (cases r) auto

lemma ebsp_loop_conforming:
  "ebsp_loop zc vs = (out, z) \<Longrightarrow> zc \<le> 2 \<Longrightarrow> conforming (replicate zc 0 @ out @ replicate (of_bool (0 < z)) 3)"
proof (induction rule: ebsp_induct)
  case (Nil zc)
  then have "zc = 0 \<or> zc = 1 \<or> zc = 2" by auto
  then show ?case by (auto simp: numeral_eq_Suc)
next
  case (escape v vs out z)
  let ?t = "out @ replicate (of_bool (0 < z)) 3"
  have "conforming (v # ?t)" using escape by (cases "v = 0") (simp_all add: conforming_Cons)
  then show ?case using escape(1) by (simp add: numeral_eq_Suc conforming_Cons)
next
  case (plain zc v vs out z)
  let ?t = "out @ replicate (of_bool (0 < z)) 3"
  show ?case
  proof (cases "v = 0")
    case True
    then show ?thesis using plain by (simp add: replicate_app_Cons_same)
  next
    case False
    have "zc = 0 \<or> zc = 1 \<or> zc = 2" using plain by auto
    then show ?thesis using plain False by (auto simp: numeral_eq_Suc conforming_Cons conforming_0)
  qed
qed

text \<open>
  The reader undoes the writer: it recovers the payload and locates every inserted byte. The one
  exception is a payload whose final run of zeros ends an odd way (\<open>z = 1\<close>): the byte appended behind
  it is then no emulation prevention byte for the reader, which keeps it.
\<close>

lemma rbsp_loop_ebsp_loop:
  "ebsp_loop zc vs = (out, z) \<Longrightarrow> zc \<le> 2 \<Longrightarrow> list_all is_byte vs \<longrightarrow>
     (\<exists>locs. length out = length vs + length locs \<and> (\<forall>l \<in> set locs. pos \<le> l \<and> l < pos + length out \<and> out ! (l - pos) = 3) \<and>
        rbsp_loop zc pos (out @ rest) =
          do { (o2, l2, z2) \<leftarrow> rbsp_loop z (pos + length out) rest; Some (vs @ o2, locs @ l2, z2) })"
proof (induction arbitrary: pos rule: ebsp_induct)
  case (Nil zc)
  show ?case by (auto intro!: exI [of _ "[]"] split: option.split)
next
  case (escape v vs out z)
  show ?case
  proof
    assume b: "list_all is_byte (v # vs)"
    from escape.IH [of "pos + 2"] b obtain locs where
      l: "length out = length vs + length locs" "\<forall>l \<in> set locs. pos + 2 \<le> l \<and> l < pos + 2 + length out \<and> out ! (l - (pos + 2)) = 3"
      "rbsp_loop (of_bool (v = 0)) (pos + 2) (out @ rest) =
         do { (o2, l2, z2) \<leftarrow> rbsp_loop z (pos + 2 + length out) rest; Some (vs @ o2, locs @ l2, z2) }" by auto
    have "(3 # v # out) ! (l - pos) = 3" if "l \<in> set locs" for l
    proof -
      have "l - pos = Suc (Suc (l - (pos + 2)))" using l(2) that by fastforce
      then show ?thesis using l(2) that by simp
    qed
    then have "\<forall>l \<in> set (pos # locs). pos \<le> l \<and> l < pos + length (3 # v # out) \<and> (3 # v # out) ! (l - pos) = 3"
      using l(2) by fastforce
    moreover have "rbsp_loop 2 pos ((3 # v # out) @ rest) =
        do { (o2, l2, z2) \<leftarrow> rbsp_loop z (pos + length (3 # v # out)) rest; Some ((v # vs) @ o2, (pos # locs) @ l2, z2) }"
      using escape(1) l(3) by (simp add: of_bool_def split: option.split bind_split)
    ultimately show "\<exists>locs. length (3 # v # out) = length (v # vs) + length locs \<and>
        (\<forall>l \<in> set locs. pos \<le> l \<and> l < pos + length (3 # v # out) \<and> (3 # v # out) ! (l - pos) = 3) \<and>
        rbsp_loop 2 pos ((3 # v # out) @ rest) =
          do { (o2, l2, z2) \<leftarrow> rbsp_loop z (pos + length (3 # v # out)) rest; Some ((v # vs) @ o2, locs @ l2, z2) }"
      using l(1) by (intro exI [of _ "pos # locs"]) simp
  qed
next
  case (plain zc v vs out z)
  show ?case
  proof
    assume b: "list_all is_byte (v # vs)"
    from plain.IH [of "pos + 1"] b obtain locs where
      l: "length out = length vs + length locs" "\<forall>l \<in> set locs. pos + 1 \<le> l \<and> l < pos + 1 + length out \<and> out ! (l - (pos + 1)) = 3"
      "rbsp_loop (if v = 0 then zc + 1 else 0) (pos + 1) (out @ rest) =
         do { (o2, l2, z2) \<leftarrow> rbsp_loop z (pos + 1 + length out) rest; Some (vs @ o2, locs @ l2, z2) }" by auto
    have "(v # out) ! (l - pos) = 3" if "l \<in> set locs" for l
    proof -
      have "l - pos = Suc (l - (pos + 1))" using l(2) that by fastforce
      then show ?thesis using l(2) that by simp
    qed
    then have "\<forall>l \<in> set locs. pos \<le> l \<and> l < pos + length (v # out) \<and> (v # out) ! (l - pos) = 3"
      using l(2) by fastforce
    moreover have "rbsp_loop zc pos ((v # out) @ rest) =
        do { (o2, l2, z2) \<leftarrow> rbsp_loop z (pos + length (v # out)) rest; Some ((v # vs) @ o2, locs @ l2, z2) }"
      using plain(1,2) l(3) by (auto split: option.split bind_split)
    ultimately show "\<exists>locs. length (v # out) = length (v # vs) + length locs \<and>
        (\<forall>l \<in> set locs. pos \<le> l \<and> l < pos + length (v # out) \<and> (v # out) ! (l - pos) = 3) \<and>
        rbsp_loop zc pos ((v # out) @ rest) =
          do { (o2, l2, z2) \<leftarrow> rbsp_loop z (pos + length (v # out)) rest; Some ((v # vs) @ o2, locs @ l2, z2) }"
      using l(1) by (intro exI [of _ locs]) simp
  qed
qed


lemma rbsp_loop_writeNaluContent:
  assumes b: "list_all is_byte rbsp" and e: "ebsp_loop 0 rbsp = (out, z)"
  shows "\<exists>locs. rbsp_loop 0 pos (writeNaluContent rbsp) = Some (if z = 1 then rbsp @ [3] else rbsp, locs, 0) \<and>
           (\<forall>l \<in> set locs. pos \<le> l \<and> l < pos + length (writeNaluContent rbsp) \<and> writeNaluContent rbsp ! (l - pos) = 3) \<and>
           (z \<noteq> 1 \<longrightarrow> length (writeNaluContent rbsp) = length rbsp + length locs)"
proof -
  have z: "z = 0 \<or> z = 1 \<or> z = 2" using ebsp_loop_zeroCount [OF e] by auto
  have w: "writeNaluContent rbsp = out @ (if z > 0 then [3] else [])" by (simp add: writeNaluContent_def e)
  obtain locs where l: "length out = length rbsp + length locs"
    "\<forall>l \<in> set locs. pos \<le> l \<and> l < pos + length out \<and> out ! (l - pos) = 3"
    "rbsp_loop 0 pos (writeNaluContent rbsp) =
       do { (o2, l2, z2) \<leftarrow> rbsp_loop z (pos + length out) (if z > 0 then [3] else []); Some (rbsp @ o2, locs @ l2, z2) }"
    unfolding w using rbsp_loop_ebsp_loop [OF e, of pos] b by fastforce
  have nth: "(out @ xs) ! (l - pos) = 3" if "l \<in> set locs" for l xs
  proof -
    have "l - pos < length out" using l(2) that by fastforce
    then show ?thesis using l(2) that by (simp add: nth_append)
  qed
  have up: "\<forall>l \<in> set locs. pos \<le> l \<and> l < Suc (pos + length out)" using l(2) by fastforce
  from z consider "z = 0" | "z = 1" | "z = 2" by auto
  then show ?thesis
  proof cases
    case 1
    then show ?thesis using l w by (intro exI [of _ locs]) simp
  next
    case 2
    then show ?thesis using l(3) w up nth by (intro exI [of _ locs]) simp
  next
    case 3
    then show ?thesis using l(1,3) w up nth
      by (intro exI [of _ "locs @ [pos + length out]"]) (simp add: nth_append)
  qed
qed

section \<open>The header\<close>

definition nal_header_ok :: "NALUnit \<Rightarrow> bool" where
  "nal_header_ok n \<longleftrightarrow> 0 \<le> m_nuhLayerId n \<and> m_nuhLayerId n \<le> 55 \<and> 0 \<le> m_nalUnitType n \<and> m_nalUnitType n < 32 \<and>
     0 \<le> m_temporalId n \<and> m_temporalId n \<le> 6 \<and> m_forbiddenZeroBit n = 0 \<and> m_nuhReservedZeroBit n = 0 \<and>
     \<not> (m_nuhLayerId n = 0 \<and> m_temporalId n = 0 \<and> m_nalUnitType n = NAL_UNIT_CODED_SLICE_STSA)"

lemma writeNalUnitHeader_Some:
  assumes "nal_header_ok n"
  shows "writeNalUnitHeader n = Some [m_nuhLayerId n, m_nalUnitType n * 8 + m_temporalId n + 1]"
proof -
  define lid nut tid where d: "lid = m_nuhLayerId n" "nut = m_nalUnitType n" "tid = m_temporalId n"
  have r: "0 \<le> lid" "lid \<le> 55" "0 \<le> nut" "nut < 32" "0 \<le> tid" "tid \<le> 6"
    using assms by (simp_all add: d nal_header_ok_def)
  obtain o1 where o1: "o_write 0 1 o_clear = Some o1" "ob_inv o1" "ob_bits o1 = [False]"
    using o_write_Some [of o_clear 1 0] by auto
  obtain o2 where o2: "o_write 0 1 o1 = Some o2" "ob_inv o2" "ob_bits o2 = [False, False]"
    using o_write_Some [OF o1(2), of 1 0] o1(3) by auto
  obtain o3 where o3: "o_write lid 6 o2 = Some o3" "ob_inv o3" "ob_bits o3 = [False, False] @ bits_of 6 lid"
    using o_write_Some [OF o2(2), of 6 lid] o2(3) r by auto
  obtain o4 where o4: "o_write nut 5 o3 = Some o4" "ob_inv o4" "ob_bits o4 = ob_bits o3 @ bits_of 5 nut"
    using o_write_Some [OF o3(2), of 5 nut] r by auto
  obtain o5 where o5: "o_write (tid + 1) 3 o4 = Some o5" "ob_inv o5" "ob_bits o5 = ob_bits o4 @ bits_of 3 (tid + 1)"
    using o_write_Some [OF o4(2), of 3 "tid + 1"] r by auto
  have "length (ob_bits o5) = 16" using o3(3) o4(3) o5(3) by simp
  then have "o_numHeldBits o5 = 0" using held_mod [OF o5(2)] by simp
  then have "bits_of_bytes (o_fifo o5) = ob_bits o5" by (simp add: ob_bits_def)
  also have "\<dots> = bits_of 8 lid @ bits_of 8 (nut * 8 + (tid + 1))"
  proof -
    have "bits_of 8 lid = [False, False] @ bits_of 6 lid"
      using bits_of_append [of 2 6 lid] r by (simp add: numeral_eq_Suc)
    moreover have "bits_of 8 (nut * 8 + (tid + 1)) = bits_of 5 nut @ bits_of 3 (tid + 1)"
      using bits_of_concat [of "tid + 1" 3 5 nut] r by simp
    ultimately show ?thesis using o3(3) o4(3) o5(3) by simp
  qed
  also have "\<dots> = bits_of_bytes [lid, nut * 8 + (tid + 1)]" by simp
  finally have "o_fifo o5 = [lid, nut * 8 + (tid + 1)]"
    using o5(2) r by (intro bits_of_bytes_inject) (simp_all add: ob_inv_def is_byte_def)
  then show ?thesis
    using r o1(1) o2(1) o3(1) o4(1) o5(1) by (simp add: writeNalUnitHeader_def d [symmetric])
qed


lemma readNalUnitHeader_Some:
  assumes ok: "nal_header_ok n" and inv: "ib_inv ib"
    and bits: "ib_bits ib = bits_of_bytes [m_nuhLayerId n, m_nalUnitType n * 8 + m_temporalId n + 1] @ rest"
  shows "\<exists>ib'. readNalUnitHeader ib = Some (n, ib') \<and> ib_inv ib' \<and> ib_bits ib' = rest"
proof -
  define lid nut tid where d: "lid = m_nuhLayerId n" "nut = m_nalUnitType n" "tid = m_temporalId n"
  have r: "0 \<le> lid" "lid \<le> 55" "0 \<le> nut" "nut < 32" "0 \<le> tid" "tid \<le> 6"
    using ok by (simp_all add: d nal_header_ok_def)
  have b8: "bits_of 8 lid = bits_of 1 0 @ bits_of 1 0 @ bits_of 6 lid"
    using bits_of_append [of 2 6 lid] r by (simp add: numeral_eq_Suc)
  have b5: "bits_of 8 (nut * 8 + tid + 1) = bits_of 5 nut @ bits_of 3 (tid + 1)"
    using bits_of_concat [of "tid + 1" 3 5 nut] r by (simp add: add.assoc)
  have "ib_bits ib = bits_of 1 0 @ bits_of 1 0 @ bits_of 6 lid @ bits_of 5 nut @ bits_of 3 (tid + 1) @ rest"
    unfolding bits by (simp only: bits_of_bytes_simps d [symmetric] b8 b5 append_assoc append_Nil)
  then obtain i1 where i1: "i_read 1 ib = Some (0, i1)" "ib_inv i1"
    "ib_bits i1 = bits_of 1 0 @ bits_of 6 lid @ bits_of 5 nut @ bits_of 3 (tid + 1) @ rest"
    using recvsD [OF recvs_i_read [of 1 0] inv] by auto
  then obtain i2 where i2: "i_read 1 i1 = Some (0, i2)" "ib_inv i2"
    "ib_bits i2 = bits_of 6 lid @ bits_of 5 nut @ bits_of 3 (tid + 1) @ rest"
    using recvsD [OF recvs_i_read [of 1 0] i1(2)] by auto
  then obtain i3 where i3: "i_read 6 i2 = Some (lid, i3)" "ib_inv i3"
    "ib_bits i3 = bits_of 5 nut @ bits_of 3 (tid + 1) @ rest"
    using recvsD [OF recvs_i_read [of 6 lid] i2(2)] r by auto
  then obtain i4 where i4: "i_read 5 i3 = Some (nut, i4)" "ib_inv i4"  "ib_bits i4 = bits_of 3 (tid + 1) @ rest"
    using recvsD [OF recvs_i_read [of 5 nut] i3(2)] r by auto
  then obtain i5 where i5: "i_read 3 i4 = Some (tid + 1, i5)" "ib_inv i5"  "ib_bits i5 = rest"
    using recvsD [OF recvs_i_read [of 3 "tid + 1"] i4(2)] r by auto
  have c: "\<not> (lid = 0 \<and> tid = 0 \<and> nut = NAL_UNIT_CODED_SLICE_STSA)" using ok by (auto simp: nal_header_ok_def d)
  have "readNalUnitHeader ib = Some (\<lparr>m_nalUnitType = nut, m_temporalId = tid, m_nuhLayerId = lid,
      m_forbiddenZeroBit = 0, m_nuhReservedZeroBit = 0\<rparr>, i5)"
    using i1(1) i2(1) i3(1) i4(1) i5(1) r c by (auto simp: readNalUnitHeader_def check_def)
  then show ?thesis using i5 ok by (intro exI [of _ i5]) (simp add: d nal_header_ok_def)
qed

section \<open>A NAL unit there and back\<close>

text \<open>What the reader keeps of a payload: a VCL payload loses its trailing cabac_zero_words.\<close>

definition kept_payload :: "NALUnit \<Rightarrow> int list \<Rightarrow> int list" where
  "kept_payload n rbsp = (if m_nalUnitType n \<le> NAL_UNIT_RESERVED_IRAP_VCL_11
     then rev (dropWhile (\<lambda>b. b = 0) (rev rbsp)) else rbsp)"

text \<open>The trailing zeros of a well-formed RBSP are whole cabac_zero_words, two bytes each.\<close>

definition whole_zero_words :: "int list \<Rightarrow> bool" where
  "whole_zero_words rbsp \<longleftrightarrow> even (length (takeWhile (\<lambda>b. b = 0) (rev rbsp)))"

lemma ebsp_loop_append:
  "ebsp_loop zc (xs @ ys) = (let (o1, z1) = ebsp_loop zc xs; (o2, z2) = ebsp_loop z1 ys in (o1 @ o2, z2))"
  by (induction zc xs rule: ebsp_loop.induct) (auto split: prod.splits)

lemma ebsp_loop_zeros: "zc \<le> 2 \<Longrightarrow> snd (ebsp_loop zc (replicate k 0)) =
   (if k = 0 then zc else if even (zc + k) then 2 else 1)"
proof (induction k arbitrary: zc)
  case (Suc k)
  have "zc = 0 \<or> zc = 1 \<or> zc = 2" using Suc.prems by auto
  then show ?case using Suc.IH [of 1] Suc.IH [of 2] Suc.IH [of "Suc (Suc 0)"]
    by (elim disjE) (auto simp: Let_def split: prod.splits if_splits)
qed simp


text \<open>How the writer's loop ends is decided by the run of zeros at the end of the payload.\<close>

lemma ebsp_loop_parity:
  assumes "ebsp_loop 0 rbsp = (out, z)"
  shows "z = 1 \<longleftrightarrow> \<not> whole_zero_words rbsp"
proof -
  define k where "k = length (takeWhile (\<lambda>b. b = 0) (rev rbsp))"
  define pre where "pre = rev (dropWhile (\<lambda>b. b = 0) (rev rbsp))"
  have "takeWhile (\<lambda>b. b = 0) (rev rbsp) = replicate k 0"
    by (rule replicate_eqI) (auto simp: k_def dest: set_takeWhileD)
  then have "rev rbsp = replicate k 0 @ rev pre"
    using takeWhile_dropWhile_id [of "\<lambda>b. b = 0" "rev rbsp"] by (simp add: pre_def)
  then have "rev (rev rbsp) = rev (replicate k 0 @ rev pre)" by (rule arg_cong)
  then have split: "rbsp = pre @ replicate k 0" by simp
  obtain o1 z1 where 1: "ebsp_loop 0 pre = (o1, z1)" by fastforce
  have "z1 = 0"
  proof (cases "pre = []")
    case False
    then have ne: "dropWhile (\<lambda>b. b = 0) (rev rbsp) \<noteq> []" by (simp add: pre_def)
    have "last pre = hd (dropWhile (\<lambda>b. b = 0) (rev rbsp))" using ne by (simp add: pre_def last_rev)
    then have "last pre \<noteq> 0" using hd_dropWhile [OF ne] by simp
    then show ?thesis using ebsp_loop_last [OF 1] False by simp
  qed (use 1 in simp)
  then have "z = snd (ebsp_loop 0 (replicate k 0))"
    using assms 1 unfolding split ebsp_loop_append by (auto split: prod.splits)
  then show ?thesis using ebsp_loop_zeros [of 0 k] by (simp add: whole_zero_words_def k_def)
qed

lemma strip_cabac_zero_words_keep:
  "b1 \<noteq> 0 \<Longrightarrow> strip_cabac_zero_words (b0 # b1 # rbsp) = Some (b0 # b1 # rev (dropWhile (\<lambda>b. b = 0) (rev rbsp)))"
  by (cases "dropWhile (\<lambda>b. b = 0) (rev rbsp) = []")
    (auto simp: strip_cabac_zero_words_def dropWhile_append dropWhile_eq_Nil_conv)

lemma convertPayloadToRBSP_write:
  assumes b: "list_all is_byte rbsp" "is_byte b0" "is_byte b1" "b1 \<noteq> 0" and even: "whole_zero_words rbsp"
  shows "\<exists>locs. convertPayloadToRBSP vcl (b0 # b1 # writeNaluContent rbsp) =
             Some (b0 # b1 # (if vcl then rev (dropWhile (\<lambda>b. b = 0) (rev rbsp)) else rbsp), locs) \<and>
           (\<forall>l \<in> set locs. 2 \<le> l \<and> (b0 # b1 # writeNaluContent rbsp) ! l = 3) \<and>
           length (writeNaluContent rbsp) = length rbsp + length locs"
proof -
  obtain out z where e: "ebsp_loop 0 rbsp = (out, z)" by fastforce
  have "z \<noteq> 1" using ebsp_loop_parity [OF e] even by simp
  then obtain locs where l: "rbsp_loop 0 2 (writeNaluContent rbsp) = Some (rbsp, locs, 0)"
    "\<forall>l \<in> set locs. 2 \<le> l \<and> writeNaluContent rbsp ! (l - 2) = 3"
    "length (writeNaluContent rbsp) = length rbsp + length locs"
    using rbsp_loop_writeNaluContent [OF b(1) e, of 2] by auto
  have "rbsp_loop 0 0 (b0 # b1 # writeNaluContent rbsp) = Some (b0 # b1 # rbsp, locs, 0)"
    using l(1) b(4) by (simp add: numeral_2_eq_2)
  moreover have "\<forall>l \<in> set locs. 2 \<le> l \<and> (b0 # b1 # writeNaluContent rbsp) ! l = 3"
    using l(2) by (auto simp: nth_Cons' numeral_2_eq_2)
  ultimately show ?thesis
    using l(3) b(4) by (intro exI [of _ locs]) (simp add: convertPayloadToRBSP_def strip_cabac_zero_words_keep)
qed

lemma resetToStart_reader:
  assumes "list_all is_byte (i_fifo ib)"
  shows "ib_inv (resetToStart ib)" and "ib_bits (resetToStart ib) = bits_of_bytes (i_fifo ib)"
  using assms by (simp_all add: resetToStart_def ib_inv_def ib_bits_def is_byte_def)

lemma i_read_keeps:
  "i_read n ib = Some (v, ib') \<Longrightarrow> i_emulationPreventionByteLocation ib' = i_emulationPreventionByteLocation ib \<and>
     i_fifo ib' = i_fifo ib \<and> i_origFifo ib' = i_origFifo ib"
  by (auto simp: i_read_def Let_def bind_eq_Some_conv split: if_splits)

lemma readNalUnitHeader_keeps:
  assumes "readNalUnitHeader ib = Some (n, ib')"
  shows "i_emulationPreventionByteLocation ib' = i_emulationPreventionByteLocation ib"
  using assms unfolding readNalUnitHeader_def Let_def
  by (auto simp: bind_eq_Some_conv dest!: i_read_keeps)

text \<open>
  The NAL unit round trip: header fields and payload survive writing with emulation prevention and
  reading back, and the reader ends up at the first payload bit.
\<close>

lemma readNalUnit_write:
  assumes ok: "nal_header_ok n" and b: "list_all is_byte rbsp" and even: "whole_zero_words rbsp"
    and w: "writeNaluWithHeader n rbsp = Some ebsp"
  shows "\<exists>ib. readNalUnit (i_create\<lparr>i_fifo := ebsp\<rparr>) = Some (n, ib) \<and> ib_inv ib \<and>
    ib_bits ib = bits_of_bytes (kept_payload n rbsp) \<and>
    length ebsp = 2 + length rbsp + length (i_emulationPreventionByteLocation ib)"
proof -
  define lid nut tid where d: "lid = m_nuhLayerId n" "nut = m_nalUnitType n" "tid = m_temporalId n"
  have r: "0 \<le> lid" "lid \<le> 55" "0 \<le> nut" "nut < 32" "0 \<le> tid" "tid \<le> 6"
    using ok by (simp_all add: d nal_header_ok_def)
  define h where "h = nut * 8 + tid + 1"
  have ebsp: "ebsp = lid # h # writeNaluContent rbsp"
    using w writeNalUnitHeader_Some [OF ok] by (simp add: writeNaluWithHeader_def d h_def)
  have h: "is_byte lid" "is_byte h" "h \<noteq> 0" "drop_bit 3 h = nut"
    using r by (auto simp: h_def is_byte_def drop_bit_eq_div)
  obtain locs where locs: "convertPayloadToRBSP (nut \<le> NAL_UNIT_RESERVED_IRAP_VCL_11) ebsp =
      Some (lid # h # kept_payload n rbsp, locs)" "length (writeNaluContent rbsp) = length rbsp + length locs"
    using convertPayloadToRBSP_write [OF b h(1-3) even, of "nut \<le> NAL_UNIT_RESERVED_IRAP_VCL_11"]
    by (auto simp: ebsp kept_payload_def d)
  have kb: "list_all is_byte (kept_payload n rbsp)"
    using b by (auto simp: kept_payload_def list_all_iff dest: set_dropWhileD)
  have step: "\<exists>ib. readNalUnitHeader (resetToStart (bs\<lparr>i_fifo := lid # h # kept_payload n rbsp,
        i_emulationPreventionByteLocation := locs\<rparr>)) = Some (n, ib) \<and> ib_inv ib \<and>
      ib_bits ib = bits_of_bytes (kept_payload n rbsp) \<and> i_emulationPreventionByteLocation ib = locs" for bs
  proof -
    let ?bs = "bs\<lparr>i_fifo := lid # h # kept_payload n rbsp, i_emulationPreventionByteLocation := locs\<rparr>"
    have "list_all is_byte (i_fifo ?bs)" using h kb by simp
    note start = resetToStart_reader [OF this]
    have "ib_bits (resetToStart ?bs) =
        bits_of_bytes [m_nuhLayerId n, m_nalUnitType n * 8 + m_temporalId n + 1] @ bits_of_bytes (kept_payload n rbsp)"
      unfolding start(2) by (simp add: d h_def)
    then obtain ib where ib: "readNalUnitHeader (resetToStart ?bs) = Some (n, ib)" "ib_inv ib"
      "ib_bits ib = bits_of_bytes (kept_payload n rbsp)"
      using readNalUnitHeader_Some [OF ok start(1)] by blast
    then show ?thesis using readNalUnitHeader_keeps [OF ib(1)] by (simp add: resetToStart_def)
  qed
  have sel: "ebsp ! 1 = h" "\<not> length ebsp < 2" by (simp_all add: ebsp)
  have "\<exists>bs. readNalUnit (i_create\<lparr>i_fifo := ebsp\<rparr>) = readNalUnitHeader (resetToStart
      (bs\<lparr>i_fifo := lid # h # kept_payload n rbsp, i_emulationPreventionByteLocation := locs\<rparr>))"
    unfolding readNalUnit_def Let_def using sel h(4) locs(1) by simp blast
  then obtain bs where "readNalUnit (i_create\<lparr>i_fifo := ebsp\<rparr>) = readNalUnitHeader (resetToStart
      (bs\<lparr>i_fifo := lid # h # kept_payload n rbsp, i_emulationPreventionByteLocation := locs\<rparr>))" ..
  with step [of bs] locs(2) show ?thesis by (auto simp: ebsp)
qed


section \<open>The encoder's count of emulation prevention bytes\<close>

text \<open>The same count as one recursion over the bytes.\<close>

fun emulations :: "int list \<Rightarrow> nat" where
  "emulations (a # b # c # r) =
     (if a = 0 \<and> b = 0 then of_bool (c \<le> 3) + emulations (c # r) else emulations (b # c # r))"
| "emulations _ = 0"

lemma emulations_search:
  "Suc l = length xs \<Longrightarrow> i \<le> l \<Longrightarrow> emulations (drop i xs) =
     (let k = search_two_zeros xs i l
      in if k = l then 0 else of_bool (xs ! (k + 2) \<le> 3) + emulations (drop (k + 2) xs))"
proof (induction xs i l rule: search_two_zeros.induct)
  case (1 xs i l)
  show ?case
  proof (cases "i + 1 < l")
    case True
    then have "drop i xs = xs ! i # xs ! (i + 1) # xs ! (i + 2) # drop (i + 3) xs"
      using 1(2) by (simp add: Cons_nth_drop_Suc numeral_eq_Suc)
    moreover have "drop (i + 1) xs = xs ! (i + 1) # xs ! (i + 2) # drop (i + 3) xs"
      "drop (i + 2) xs = xs ! (i + 2) # drop (i + 3) xs"
      using True 1(2) by (simp_all add: Cons_nth_drop_Suc numeral_eq_Suc)
    ultimately show ?thesis
      using True 1 by (subst search_two_zeros.simps) (auto simp: Let_def)
  next
    case False
    then have "length (drop i xs) \<le> 2" using 1(2) by simp
    then have "emulations (drop i xs) = 0" by (cases "drop i xs" rule: emulations.cases) auto
    with False show ?thesis by (subst search_two_zeros.simps) (simp add: Let_def)
  qed
qed

lemma search_two_zeros_le: "i \<le> l \<Longrightarrow> search_two_zeros xs i l \<le> l \<and>
   (search_two_zeros xs i l \<noteq> l \<longrightarrow> search_two_zeros xs i l + 1 < l)"
  by (induction xs i l rule: search_two_zeros.induct) (subst (1 2 3) search_two_zeros.simps, auto)

lemma count_emulations_eq: "i \<le> length xs \<Longrightarrow> count_emulations xs i = emulations (drop i xs)"
proof (induction xs i rule: count_emulations.induct)
  case (1 xs i)
  show ?case
  proof (cases "i < length xs")
    case True
    define l where "l = length xs - 1"
    define k where "k = search_two_zeros xs i l"
    have l: "Suc l = length xs" "i \<le> l" using True by (simp_all add: l_def)
    have kl: "k \<noteq> l \<Longrightarrow> k + 1 < l" using search_two_zeros_le [OF l(2)] by (simp add: k_def)
    have rec: "k \<noteq> l \<Longrightarrow> count_emulations xs (k + 2) = emulations (drop (k + 2) xs)"
      using 1(1,2) [OF True refl] kl l by (cases "xs ! (k + 2) \<le> 3") (auto simp: k_def l_def)
    have "emulations (drop i xs) = (if k = l then 0 else of_bool (xs ! (k + 2) \<le> 3) + emulations (drop (k + 2) xs))"
      using emulations_search [OF l] by (simp add: k_def Let_def)
    moreover have "count_emulations xs i =
        (if k = l then 0 else of_bool (xs ! (k + 2) \<le> 3) + count_emulations xs (k + 2))"
    proof (cases "k = l")
      case True
      then show ?thesis using \<open>i < length xs\<close> l(1)
        by (subst count_emulations.simps) (simp add: k_def l_def Let_def)
    next
      case False
      then have "k + 1 + 1 < length xs" "k + 1 \<noteq> length xs" using kl l(1) by linarith+
      then show ?thesis using True False unfolding k_def l_def
        by (subst count_emulations.simps) (simp add: Let_def)
    qed
    ultimately show ?thesis using rec by simp
  next
    case False
    then show ?thesis by (subst count_emulations.simps) simp
  qed
qed

lemma emulations_skip:
  "v \<noteq> 0 \<Longrightarrow> emulations (v # r) = emulations r" "v \<noteq> 0 \<Longrightarrow> emulations (0 # v # r) = emulations r"
  by (cases r; cases "tl r"; auto)+

lemma ebsp_loop_emulations:
  "ebsp_loop zc vs = (out, z) \<Longrightarrow> zc \<le> 2 \<Longrightarrow> length out = length vs + emulations (replicate zc 0 @ vs)"
proof (induction rule: ebsp_induct)
  case (Nil zc)
  then have "zc = 0 \<or> zc = 1 \<or> zc = 2" by auto
  then show ?case by (auto simp: numeral_eq_Suc)
next
  case (escape v vs out z)
  then show ?case by (cases "v = 0") (simp_all add: numeral_eq_Suc emulations_skip)
next
  case (plain zc v vs out z)
  have zc: "zc = 0 \<or> zc = 1 \<or> zc = 2" using plain by auto
  then show ?case using plain by (cases "v = 0") (auto simp: numeral_eq_Suc emulations_skip)
qed

lemma countStartCodeEmulations_eq:
  "length (writeNaluContent (o_fifo ob)) = length (o_fifo ob) + countStartCodeEmulations ob
     + of_bool (o_fifo ob \<noteq> [] \<and> last (o_fifo ob) = 0)"
proof -
  obtain out z where e: "ebsp_loop 0 (o_fifo ob) = (out, z)" by fastforce
  have "countStartCodeEmulations ob = emulations (o_fifo ob)"
    by (simp add: countStartCodeEmulations_def count_emulations_eq)
  then show ?thesis
    using ebsp_loop_emulations [OF e] ebsp_loop_last [OF e] e
    by (cases "o_fifo ob = []") (auto simp: writeNaluContent_def)
qed

end
