(* ===== verification/AnnexB.thy ===== *)
theory AnnexB
  imports NalUnit
begin

text \<open>
  The byte stream format: \<open>source/Lib/EncoderLib/AnnexBwrite.h\<close> and
  \<open>source/Lib/DecoderLib/AnnexBread.{h,cpp}\<close>. The \<open>std::istream\<close> behind an
  \<open>InputByteStream\<close> is the list of bytes it still delivers; \<open>get()\<close> at its end throws.
\<close>

section \<open>The look-ahead reader\<close>

record InputByteStream =
  m_numFutureBytes :: nat
  m_futureBytes :: int
  m_input :: "int list"

definition bs_new :: "int list \<Rightarrow> InputByteStream" where
  "bs_new istream = \<lparr>m_numFutureBytes = 0, m_futureBytes = 0, m_input = istream\<rparr>"

definition bs_reset :: "InputByteStream \<Rightarrow> InputByteStream" where
  "bs_reset bs = bs\<lparr>m_numFutureBytes := 0, m_futureBytes := 0\<rparr>"

text \<open>The loop of \<open>eofBeforeNBytes\<close>; \<open>True\<close> when \<open>get()\<close> throws.\<close>

fun fetch_bytes :: "nat \<Rightarrow> InputByteStream \<Rightarrow> bool \<times> InputByteStream" where
  "fetch_bytes 0 bs = (False, bs)"
| "fetch_bytes (Suc n) bs =
     (case m_input bs of
        [] \<Rightarrow> (True, bs)
      | b # rest \<Rightarrow> fetch_bytes n (bs\<lparr>m_futureBytes := u32 (push_bit 8 (m_futureBytes bs)) OR b,
                                     m_numFutureBytes := m_numFutureBytes bs + 1, m_input := rest\<rparr>))"

definition eofBeforeNBytes :: "nat \<Rightarrow> InputByteStream \<Rightarrow> (bool \<times> InputByteStream) option" where
  "eofBeforeNBytes n bs = do {
     _ \<leftarrow> check (n > 4);
     Some (if m_numFutureBytes bs \<ge> n then (False, bs) else fetch_bytes (n - m_numFutureBytes bs) bs)
   }"

text \<open>Past the end of file the shift count of \<open>peekBytes\<close> is negative: undefined, \<open>None\<close>.\<close>

definition peekBytes :: "nat \<Rightarrow> InputByteStream \<Rightarrow> (int \<times> InputByteStream) option" where
  "peekBytes n bs = do {
     (_, bs) \<leftarrow> eofBeforeNBytes n bs;
     if m_numFutureBytes bs < n then None
     else Some (drop_bit (8 * (m_numFutureBytes bs - n)) (m_futureBytes bs), bs)
   }"

definition bs_readByte :: "InputByteStream \<Rightarrow> (int \<times> InputByteStream) option" where
  "bs_readByte bs =
     (if m_numFutureBytes bs = 0
      then case m_input bs of [] \<Rightarrow> None | b # rest \<Rightarrow> Some (b, bs\<lparr>m_input := rest\<rparr>)
      else let n = m_numFutureBytes bs - 1
           in Some (u8 (drop_bit (8 * n) (m_futureBytes bs)),
                    bs\<lparr>m_numFutureBytes := n, m_futureBytes := m_futureBytes bs AND NOT (push_bit (8 * n) 0xff)\<rparr>))"

fun bs_readBytes_loop :: "nat \<Rightarrow> int \<Rightarrow> InputByteStream \<Rightarrow> (int \<times> InputByteStream) option" where
  "bs_readBytes_loop 0 val bs = Some (val, bs)"
| "bs_readBytes_loop (Suc n) val bs = do {
     (b, bs) \<leftarrow> bs_readByte bs;
     bs_readBytes_loop n (u32 (push_bit 8 val) OR b) bs
   }"

definition bs_readBytes :: "nat \<Rightarrow> InputByteStream \<Rightarrow> (int \<times> InputByteStream) option" where
  "bs_readBytes n = bs_readBytes_loop n 0"

section \<open>Extracting one NAL unit\<close>

text \<open>(Where \<open>readBytes\<close> is called below its bytes have been peeked, so it does not fail half-way.)\<close>

record AnnexBStats =
  m_numLeadingZero8BitsBytes :: int
  m_numZeroByteBytes :: int
  m_numStartCodePrefixBytes :: int
  m_numBytesInNALUnit :: int
  m_numTrailingZero8BitsBytes :: int

definition AnnexBStats_zero :: AnnexBStats where
  "AnnexBStats_zero = \<lparr>m_numLeadingZero8BitsBytes = 0, m_numZeroByteBytes = 0, m_numStartCodePrefixBytes = 0,
     m_numBytesInNALUnit = 0, m_numTrailingZero8BitsBytes = 0\<rparr>"

definition AnnexBStats_add :: "AnnexBStats \<Rightarrow> AnnexBStats \<Rightarrow> AnnexBStats" where
  "AnnexBStats_add a rhs =
     \<lparr>m_numLeadingZero8BitsBytes = u32 (m_numLeadingZero8BitsBytes a + m_numLeadingZero8BitsBytes rhs),
      m_numZeroByteBytes = u32 (m_numZeroByteBytes a + m_numZeroByteBytes rhs),
      m_numStartCodePrefixBytes = u32 (m_numStartCodePrefixBytes a + m_numStartCodePrefixBytes rhs),
      m_numBytesInNALUnit = u32 (m_numBytesInNALUnit a + m_numBytesInNALUnit rhs),
      m_numTrailingZero8BitsBytes = u32 (m_numTrailingZero8BitsBytes a + m_numTrailingZero8BitsBytes rhs)\<rparr>"

text \<open>
  What the exception of the source leaves behind are the stream, the bytes collected and the
  statistics: the outcome is \<open>Inl\<close> of that state where the code throws, \<open>Inr\<close> where it returns.
\<close>

type_synonym annexb_state = "InputByteStream \<times> int list \<times> AnnexBStats"

definition no_start_code :: "InputByteStream \<Rightarrow> (bool \<times> InputByteStream) option" where
  "no_start_code bs = do {
     (eof3, bs) \<leftarrow> eofBeforeNBytes 3 bs;
     (c3, bs) \<leftarrow> (if eof3 then Some (True, bs) else do { (p, bs) \<leftarrow> peekBytes 3 bs; Some (p \<noteq> 0x000001, bs) });
     if c3 then do {
       (eof4, bs) \<leftarrow> eofBeforeNBytes 4 bs;
       if eof4 then Some (True, bs) else do { (p, bs) \<leftarrow> peekBytes 4 bs; Some (p \<noteq> 0x00000001, bs) }
     } else Some (False, bs)
   }"

text \<open>The bytes a stream still delivers: those looked ahead, and those of the input.\<close>

definition bs_left :: "InputByteStream \<Rightarrow> nat" where
  "bs_left bs = m_numFutureBytes bs + length (m_input bs)"

lemma fetch_bytes_left: "fetch_bytes n bs = (e, bs') \<Longrightarrow> bs_left bs' = bs_left bs"
  by (induction n bs rule: fetch_bytes.induct) (auto simp: bs_left_def split: list.splits)

lemma eofBeforeNBytes_left: "eofBeforeNBytes n bs = Some (e, bs') \<Longrightarrow> bs_left bs' = bs_left bs"
  using fetch_bytes_left by (fastforce simp: eofBeforeNBytes_def bind_eq_Some_conv split: if_splits)

lemma peekBytes_left: "peekBytes n bs = Some (p, bs') \<Longrightarrow> bs_left bs' = bs_left bs"
  using eofBeforeNBytes_left by (fastforce simp: peekBytes_def bind_eq_Some_conv split: if_splits)

lemma bs_readByte_left: "bs_readByte bs = Some (b, bs') \<Longrightarrow> bs_left bs = Suc (bs_left bs')"
  by (auto simp: bs_readByte_def bs_left_def Let_def split: if_splits list.splits)

lemma no_start_code_left: "no_start_code bs = Some (c, bs') \<Longrightarrow> bs_left bs' = bs_left bs"
proof -
  have step: "bs_left bs'' = bs_left bs" if "eofBeforeNBytes n bs = Some (e, bs')"
    "(if e then Some (True, bs') else do { (p, bs) \<leftarrow> peekBytes n bs'; Some (f p, bs) }) = Some (c, bs'')"
    for n bs e bs' f c bs''
    using that eofBeforeNBytes_left [of n bs e bs'] peekBytes_left [of n bs']
    by (fastforce simp: bind_eq_Some_conv split: if_splits)
  assume "no_start_code bs = Some (c, bs')"
  then obtain e3 bs1 c3 bs2 where 1: "eofBeforeNBytes 3 bs = Some (e3, bs1)"
    "(if e3 then Some (True, bs1) else do { (p, bs) \<leftarrow> peekBytes 3 bs1; Some (p \<noteq> 1, bs) }) = Some (c3, bs2)"
    and 2: "(if c3 then do { (eof4, bs) \<leftarrow> eofBeforeNBytes 4 bs2;
       if eof4 then Some (True, bs) else do { (p, bs) \<leftarrow> peekBytes 4 bs; Some (p \<noteq> 1, bs) } }
     else Some (False, bs2)) = Some (c, bs')"
    unfolding no_start_code_def bind_eq_Some_conv by (elim exE conjE) (auto simp: bind_eq_Some_conv)
  have "bs_left bs' = bs_left bs2"
  proof (cases c3)
    case True
    with 2 obtain e4 bs3 where "eofBeforeNBytes 4 bs2 = Some (e4, bs3)"
      "(if e4 then Some (True, bs3) else do { (p, bs) \<leftarrow> peekBytes 4 bs3; Some (p \<noteq> 1, bs) }) = Some (c, bs')"
      by (auto simp: bind_eq_Some_conv)
    then show ?thesis by (rule step)
  qed (use 2 in simp)
  then show ?thesis using step [OF 1] by simp
qed

text \<open>The loops over \<open>leading_zero_8bits\<close> and \<open>trailing_zero_8bits\<close> differ in the counter they update.\<close>

function skip_zero_8bits :: "(AnnexBStats \<Rightarrow> AnnexBStats) \<Rightarrow> annexb_state \<Rightarrow> annexb_state + annexb_state" where
  "skip_zero_8bits count (bs, nalUnit, stats) =
     (case no_start_code bs of
        None \<Rightarrow> Inl (bs, nalUnit, stats)
      | Some (c, bs1) \<Rightarrow>
          if c then (case bs_readByte bs1 of
                       None \<Rightarrow> Inl (bs1, nalUnit, stats)
                     | Some (zero_8bits, bs2) \<Rightarrow>
                         if zero_8bits \<noteq> 0 then Inl (bs2, nalUnit, stats)
                         else skip_zero_8bits count (bs2, nalUnit, count stats))
          else Inr (bs1, nalUnit, stats))"
  by pat_completeness auto
termination
  by (relation "measure (\<lambda>(count, bs, nalUnit, stats). bs_left bs)")
    (auto dest!: no_start_code_left bs_readByte_left)

declare skip_zero_8bits.simps [simp del]

function collect_nal_bytes :: "annexb_state \<Rightarrow> annexb_state + annexb_state" where
  "collect_nal_bytes (bs, nalUnit, stats) =
     (case eofBeforeNBytes 3 bs of
        None \<Rightarrow> Inl (bs, nalUnit, stats)
      | Some (eof, bs1) \<Rightarrow>
          (case (if eof then Some (True, bs1) else do { (p, bs) \<leftarrow> peekBytes 3 bs1; Some (p > 2, bs) }) of
             None \<Rightarrow> Inl (bs1, nalUnit, stats)
           | Some (c, bs2) \<Rightarrow>
               if c then (case bs_readByte bs2 of
                            None \<Rightarrow> Inl (bs2, nalUnit, stats)
                          | Some (b, bs3) \<Rightarrow> collect_nal_bytes (bs3, nalUnit @ [b], stats))
               else Inr (bs2, nalUnit, stats)))"
  by pat_completeness auto
termination
  by (relation "measure (\<lambda>(bs, nalUnit, stats). bs_left bs)")
    (auto simp: bind_eq_Some_conv split: if_splits dest!: eofBeforeNBytes_left peekBytes_left bs_readByte_left)

declare collect_nal_bytes.simps [simp del]

definition byteStreamNALUnit_body :: "annexb_state \<Rightarrow> annexb_state + annexb_state" where
  "byteStreamNALUnit_body st =
     (case skip_zero_8bits (\<lambda>s. s\<lparr>m_numLeadingZero8BitsBytes := u32 (m_numLeadingZero8BitsBytes s + 1)\<rparr>) st of
        Inl st \<Rightarrow> Inl st
      | Inr (bs, nalUnit, stats) \<Rightarrow>
      (case peekBytes 3 bs of
         None \<Rightarrow> Inl (bs, nalUnit, stats)
       | Some (p, bs) \<Rightarrow>
       (case (if p \<noteq> 0x000001
              then (case bs_readByte bs of
                      None \<Rightarrow> Inl (bs, nalUnit, stats)
                    | Some (zero_byte, bs) \<Rightarrow>
                        if zero_byte \<noteq> 0 then Inl (bs, nalUnit, stats)
                        else Inr (bs, nalUnit, stats\<lparr>m_numZeroByteBytes := u32 (m_numZeroByteBytes stats + 1)\<rparr>))
              else Inr (bs, nalUnit, stats)) of
          Inl st \<Rightarrow> Inl st
        | Inr (bs, nalUnit, stats) \<Rightarrow>
        (case bs_readBytes 3 bs of
           None \<Rightarrow> Inl (bs, nalUnit, stats)
         | Some (prefix, bs) \<Rightarrow>
             if prefix \<noteq> 0x000001 then Inl (bs, nalUnit, stats)
             else let stats = stats\<lparr>m_numStartCodePrefixBytes := u32 (m_numStartCodePrefixBytes stats + 3)\<rparr>
                  in (case collect_nal_bytes (bs, nalUnit, stats) of
                        Inl st \<Rightarrow> Inl st
                      | Inr st \<Rightarrow>
                          skip_zero_8bits (\<lambda>s. s\<lparr>m_numTrailingZero8BitsBytes := u32 (m_numTrailingZero8BitsBytes s + 1)\<rparr>) st)))))"

definition byteStreamNALUnit :: "annexb_state \<Rightarrow> bool \<times> annexb_state" where
  "byteStreamNALUnit st =
     (let (eof, bs, nalUnit, stats) = (case byteStreamNALUnit_body st of Inl st \<Rightarrow> (True, st) | Inr st \<Rightarrow> (False, st))
      in (eof, bs, nalUnit, stats\<lparr>m_numBytesInNALUnit := u32 (int (length nalUnit))\<rparr>))"

section \<open>Writing an access unit\<close>

definition startCodePrefix :: "int list" where
  "startCodePrefix = [0, 0, 0, 1]"

text \<open>A NAL unit in EBSP form: its type and its bytes.\<close>

type_synonym NALUnitEBSP = "NalUnitType \<times> int list"

definition writeAnnexBNalUnit :: "int list \<Rightarrow> NALUnitEBSP \<Rightarrow> bool \<Rightarrow> int \<times> int list" where
  "writeAnnexBNalUnit out nalu useLongStartcode =
     (let (size, out) = (if useLongStartcode then (4, out @ startCodePrefix) else (3, out @ drop 1 startCodePrefix));
          out = out @ snd nalu
      in (u32 (size + int (length (snd nalu))), out))"

definition useLongStartCode :: "bool \<Rightarrow> NalUnitType \<Rightarrow> bool" where
  "useLongStartCode first t \<longleftrightarrow> first \<or> t = NAL_UNIT_OPI \<or> t = NAL_UNIT_DCI \<or> t = NAL_UNIT_VPS
     \<or> t = NAL_UNIT_SPS \<or> t = NAL_UNIT_PPS \<or> t = NAL_UNIT_PREFIX_APS \<or> t = NAL_UNIT_SUFFIX_APS"

fun writeAnnexB_loop :: "bool \<Rightarrow> int list \<Rightarrow> NALUnitEBSP list \<Rightarrow> int list \<times> int list" where
  "writeAnnexB_loop first out [] = ([], out)"
| "writeAnnexB_loop first out (nalu # au) =
     (let (size, out) = writeAnnexBNalUnit out nalu (useLongStartCode first (fst nalu));
          (sizes, out) = writeAnnexB_loop False out au
      in (size # sizes, out))"

definition writeAnnexBAccessUnit :: "int list \<Rightarrow> NALUnitEBSP list \<Rightarrow> int list \<times> int list" where
  "writeAnnexBAccessUnit out au = writeAnnexB_loop True out au"

section \<open>The reader delivers the bytes of its input\<close>

definition bs_holds :: "InputByteStream \<Rightarrow> int list \<Rightarrow> bool" where
  "bs_holds bs l \<longleftrightarrow> (\<exists>f. length f = m_numFutureBytes bs \<and> m_numFutureBytes bs \<le> 4 \<and> l = f @ m_input bs \<and>
     list_all is_byte l \<and> m_futureBytes bs = val_of (bits_of_bytes f))"

lemma bs_holds_new: "list_all is_byte l \<Longrightarrow> bs_holds (bs_new l) l"
  by (simp add: bs_holds_def bs_new_def)

lemma val_of_byte: "is_byte b \<Longrightarrow> val_of (bits_of 8 b) = b"
  by (simp add: is_byte_def)

lemma shift_in_byte:
  assumes "length f < 4" "is_byte b"
  shows "u32 (push_bit 8 (val_of (bits_of_bytes f))) OR b = val_of (bits_of_bytes (f @ [b]))"
proof -
  let ?v = "val_of (bits_of_bytes f)"
  have "?v < 2 ^ (8 * length f)" using val_of_less [of "bits_of_bytes f"] by simp
  also have "(2::int) ^ (8 * length f) \<le> 2 ^ 24" using assms(1) by (intro power_increasing) simp_all
  finally have "u32 (push_bit 8 ?v) = push_bit 8 ?v" by (simp add: push_bit_eq_mult)
  then show ?thesis
    using push_bit_or_eq_add [of b 8 ?v] assms(2) by (simp add: is_byte_def val_of_append)
qed

lemma fetch_bytes_holds:
  "bs_holds bs l \<Longrightarrow> m_numFutureBytes bs + n \<le> 4 \<Longrightarrow>
   \<exists>bs'. fetch_bytes n bs = (length l < m_numFutureBytes bs + n, bs') \<and> bs_holds bs' l \<and>
     (m_numFutureBytes bs + n \<le> length l \<longrightarrow> m_numFutureBytes bs' = m_numFutureBytes bs + n)"
proof (induction n arbitrary: bs)
  case 0
  then show ?case by (auto simp: bs_holds_def)
next
  case (Suc n)
  then obtain f where f: "length f = m_numFutureBytes bs" "l = f @ m_input bs" "list_all is_byte l"
    "m_futureBytes bs = val_of (bits_of_bytes f)" by (auto simp: bs_holds_def)
  show ?case
  proof (cases "m_input bs")
    case Nil
    then show ?thesis using Suc.prems f by auto
  next
    case (Cons b rest)
    let ?bs = "bs\<lparr>m_futureBytes := u32 (push_bit 8 (m_futureBytes bs)) OR b,
                 m_numFutureBytes := m_numFutureBytes bs + 1, m_input := rest\<rparr>"
    have "m_futureBytes ?bs = val_of (bits_of_bytes (f @ [b]))"
      using shift_in_byte [of f b] f Suc.prems(2) Cons by simp
    then have "bs_holds ?bs l"
      using f Suc.prems(2) Cons unfolding bs_holds_def by (intro exI [of _ "f @ [b]"]) simp
    then show ?thesis using Suc.IH [of ?bs] Suc.prems(2) Cons by auto
  qed
qed

lemma eofBeforeNBytes_holds:
  assumes "bs_holds bs l" "n \<le> 4"
  shows "\<exists>bs'. eofBeforeNBytes n bs = Some (length l < n, bs') \<and> bs_holds bs' l \<and>
           (n \<le> length l \<longrightarrow> n \<le> m_numFutureBytes bs')"
proof (cases "n \<le> m_numFutureBytes bs")
  case True
  then show ?thesis using assms by (auto simp: eofBeforeNBytes_def bs_holds_def)
next
  case False
  then show ?thesis
    using fetch_bytes_holds [OF assms(1), of "n - m_numFutureBytes bs"] assms(2)
    by (auto simp: eofBeforeNBytes_def)
qed

lemma peekBytes_holds:
  assumes "bs_holds bs l" "n \<le> 4" "n \<le> length l"
  shows "\<exists>bs'. peekBytes n bs = Some (val_of (bits_of_bytes (take n l)), bs') \<and> bs_holds bs' l"
proof -
  obtain bs' where bs': "eofBeforeNBytes n bs = Some (False, bs')" "bs_holds bs' l" "n \<le> m_numFutureBytes bs'"
    using eofBeforeNBytes_holds [OF assms(1,2)] assms(3) by auto
  then obtain f where f: "length f = m_numFutureBytes bs'" "l = f @ m_input bs'"
    "m_futureBytes bs' = val_of (bits_of_bytes f)" by (auto simp: bs_holds_def)
  have split: "bits_of_bytes f = bits_of_bytes (take n f) @ bits_of_bytes (drop n f)"
    by (metis append_take_drop_id bits_of_bytes_simps(3))
  have len: "length (bits_of_bytes (drop n f)) = 8 * (m_numFutureBytes bs' - n)" using f by simp
  have "drop_bit (8 * (m_numFutureBytes bs' - n)) (m_futureBytes bs') = val_of (bits_of_bytes (take n f))"
    unfolding f(3) split val_of_append drop_bit_eq_div len
    using val_of_less [of "bits_of_bytes (drop n f)"] len by simp
  moreover have "take n l = take n f" using f bs'(3) by simp
  ultimately show ?thesis using bs' by (auto simp: peekBytes_def)
qed

lemma bs_readByte_holds:
  assumes "bs_holds bs (b # l)"
  shows "\<exists>bs'. bs_readByte bs = Some (b, bs') \<and> bs_holds bs' l"
proof (cases "m_numFutureBytes bs = 0")
  case True
  have "m_input bs = b # l" using assms True by (simp add: bs_holds_def)
  moreover have "list_all is_byte (b # l)" using assms unfolding bs_holds_def by blast
  moreover have "m_futureBytes bs = 0" using assms True by (simp add: bs_holds_def)
  ultimately show ?thesis using True by (auto simp: bs_readByte_def bs_holds_def)
next
  case False
  define n where "n = m_numFutureBytes bs - 1"
  obtain f' where f': "length f' = m_numFutureBytes bs" "m_numFutureBytes bs \<le> 4" "b # l = f' @ m_input bs"
    "list_all is_byte (b # l)" "m_futureBytes bs = val_of (bits_of_bytes f')"
    using assms unfolding bs_holds_def by blast
  obtain f where f: "f' = b # f" "length f = n" "l = f @ m_input bs"
    using f'(1,3) False by (cases f') (auto simp: n_def)
  let ?v = "val_of (bits_of_bytes f)"
  have b: "0 \<le> b" "b < 256" using f'(4) by (simp_all add: is_byte_def)
  have v: "0 \<le> ?v" "?v < 2 ^ (8 * n)" using val_of_less [of "bits_of_bytes f"] f(2) by simp_all
  have fb: "m_futureBytes bs = b * 2 ^ (8 * n) + ?v"
    unfolding f'(5) f(1) using b f(2) by (simp add: val_of_append)
  have top: "drop_bit (8 * n) (m_futureBytes bs) = b" using v by (simp add: fb drop_bit_eq_div)
  have "m_futureBytes bs AND NOT (push_bit (8 * n) 0xff) = ?v"
  proof -
    have "b * 2 ^ (8 * n) + ?v < (b + 1) * 2 ^ (8 * n)" using v by (simp add: distrib_right)
    also have "(b + 1) * 2 ^ (8 * n) \<le> 256 * 2 ^ (8 * n)" using b by (intro mult_right_mono) simp_all
    also have "256 * 2 ^ (8 * n) = (2::int) ^ (8 * n + 8)" by (simp add: power_add)
    finally show ?thesis using and_not_ff_top [of "m_futureBytes bs" "8 * n"] v b by (simp add: fb)
  qed
  then have "bs_holds (bs\<lparr>m_numFutureBytes := n, m_futureBytes := m_futureBytes bs AND NOT (push_bit (8 * n) 0xff)\<rparr>) l"
    using f f'(2,4) unfolding bs_holds_def by (intro exI [of _ f]) (simp add: n_def)
  then show ?thesis using False top b by (simp add: bs_readByte_def Let_def n_def)
qed

lemma bs_readByte_eof: "bs_holds bs [] \<Longrightarrow> bs_readByte bs = None"
  by (auto simp: bs_holds_def bs_readByte_def)

text \<open>A start code where the stream stands: three bytes or, with the \<open>zero_byte\<close>, four.\<close>

definition at_start_code :: "int list \<Rightarrow> bool" where
  "at_start_code l \<longleftrightarrow> take 3 l = [0, 0, 1] \<or> take 4 l = [0, 0, 0, 1]"

lemma take_eqI_val:
  assumes "list_all is_byte l" "n \<le> length l" "list_all is_byte m" "length m = n"
  shows "val_of (bits_of_bytes (take n l)) = val_of (bits_of_bytes m) \<longleftrightarrow> take n l = m"
proof
  assume "val_of (bits_of_bytes (take n l)) = val_of (bits_of_bytes m)"
  then have "bits_of_bytes (take n l) = bits_of_bytes m"
    using assms(2,4) by (intro val_of_inject) simp_all
  then show "take n l = m"
    using assms by (intro bits_of_bytes_inject) (auto simp: list_all_iff dest: in_set_takeD)
qed simp

lemma peek_start_code:
  assumes "list_all is_byte l"
  shows "3 \<le> length l \<Longrightarrow> val_of (bits_of_bytes (take 3 l)) = 1 \<longleftrightarrow> take 3 l = [0, 0, 1]"
    and "4 \<le> length l \<Longrightarrow> val_of (bits_of_bytes (take 4 l)) = 1 \<longleftrightarrow> take 4 l = [0, 0, 0, 1]"
  using take_eqI_val [OF assms, of 3 "[0, 0, 1]"] take_eqI_val [OF assms, of 4 "[0, 0, 0, 1]"]
  by (simp_all add: is_byte_def val_of_append)

lemma no_start_code_holds:
  assumes "bs_holds bs l"
  shows "\<exists>bs'. no_start_code bs = Some (\<not> at_start_code l, bs') \<and> bs_holds bs' l"
proof -
  have b: "list_all is_byte l" using assms unfolding bs_holds_def by blast
  obtain bs1 where 1: "eofBeforeNBytes 3 bs = Some (length l < 3, bs1)" "bs_holds bs1 l"
    using eofBeforeNBytes_holds [OF assms, of 3] by auto
  define c3 where "c3 \<longleftrightarrow> length l < 3 \<or> take 3 l \<noteq> [0, 0, 1]"
  obtain bs2 where 2: "(if length l < 3 then Some (True, bs1) else do { (p, bs) \<leftarrow> peekBytes 3 bs1; Some (p \<noteq> 1, bs) })
      = Some (c3, bs2)" "bs_holds bs2 l"
    using 1 peekBytes_holds [OF 1(2), of 3] peek_start_code(1) [OF b]
    by (cases "length l < 3") (auto simp: c3_def)
  obtain bs3 where 3: "eofBeforeNBytes 4 bs2 = Some (length l < 4, bs3)" "bs_holds bs3 l"
    using eofBeforeNBytes_holds [OF 2(2), of 4] by auto
  define c4 where "c4 \<longleftrightarrow> length l < 4 \<or> take 4 l \<noteq> [0, 0, 0, 1]"
  obtain bs4 where 4: "(if length l < 4 then Some (True, bs3) else do { (p, bs) \<leftarrow> peekBytes 4 bs3; Some (p \<noteq> 1, bs) })
      = Some (c4, bs4)" "bs_holds bs4 l"
    using 3 peekBytes_holds [OF 3(2), of 4] peek_start_code(2) [OF b]
    by (cases "length l < 4") (auto simp: c4_def)
  have c: "\<not> at_start_code l \<longleftrightarrow> c3 \<and> c4"
    by (auto simp: at_start_code_def c3_def c4_def dest: arg_cong [where f = length])
  show ?thesis
    using 1 2 3 4 unfolding no_start_code_def c by (cases c3) simp_all
qed

text \<open>Bytes that belong to a NAL unit: no three-byte sequence 000000, 000001 or 000002 starts in them.\<close>

fun emulation_free :: "int list \<Rightarrow> bool" where
  "emulation_free (a # b # c # r) \<longleftrightarrow> \<not> (a = 0 \<and> b = 0 \<and> c \<le> 2) \<and> emulation_free (b # c # r)"
| "emulation_free _ \<longleftrightarrow> True"

lemma conforming_emulation_free: "conforming l \<Longrightarrow> emulation_free l"
  by (induction l rule: emulation_free.induct) (auto simp del: conforming.simps(2,3,4))

lemma peek_small:
  assumes "list_all is_byte (a # b # c # r)"
  shows "val_of (bits_of_bytes (take 3 (a # b # c # r))) > 2 \<longleftrightarrow> \<not> (a = 0 \<and> b = 0 \<and> c \<le> 2)"
proof -
  have "val_of (bits_of_bytes (take 3 (a # b # c # r))) = a * 65536 + b * 256 + c"
    using assms by (simp add: val_of_append is_byte_def numeral_3_eq_3)
  then show ?thesis using assms by (auto simp: is_byte_def)
qed

text \<open>
  The body of a NAL unit is collected up to the next start code or the end of the stream. Its last
  byte is not zero, so no forbidden sequence straddles its end.
\<close>

lemma collect_nal_bytes_step:
  assumes h: "bs_holds bs (a # l)" and go: "length l < 2 \<or> \<not> (a = 0 \<and> l ! 0 = 0 \<and> l ! 1 \<le> 2)"
  shows "\<exists>bs'. collect_nal_bytes (bs, nu, st) = collect_nal_bytes (bs', nu @ [a], st) \<and> bs_holds bs' l"
proof -
  obtain bs1 where 1: "eofBeforeNBytes 3 bs = Some (length (a # l) < 3, bs1)" "bs_holds bs1 (a # l)"
    using eofBeforeNBytes_holds [OF h, of 3] by auto
  obtain bs2 where 2: "(if length (a # l) < 3 then Some (True, bs1) else do { (p, bs) \<leftarrow> peekBytes 3 bs1; Some (p > 2, bs) })
      = Some (True, bs2)" "bs_holds bs2 (a # l)"
  proof (cases "length l < 2")
    case True
    then show ?thesis using that 1 by simp
  next
    case False
    then obtain b c r where l: "l = b # c # r" by (metis length_Suc_conv less_2_cases not_less_eq not_less_zero length_0_conv list.exhaust One_nat_def numeral_2_eq_2 length_Cons)
    have "list_all is_byte (a # b # c # r)" using h unfolding bs_holds_def l by blast
    note small = peek_small [OF this]
    obtain bs2 where "peekBytes 3 bs1 = Some (val_of (bits_of_bytes (take 3 (a # l))), bs2)" "bs_holds bs2 (a # l)"
      using peekBytes_holds [OF 1(2), of 3] l by auto
    moreover have "val_of (bits_of_bytes (take 3 (a # l))) > 2" using small go l by simp
    ultimately show ?thesis using that False by simp
  qed
  obtain bs3 where 3: "bs_readByte bs2 = Some (a, bs3)" "bs_holds bs3 l"
    using bs_readByte_holds [OF 2(2)] by auto
  show ?thesis using 1(1) 2(1) 3 by (subst collect_nal_bytes.simps) auto
qed

lemma collect_nal_bytes_eof:
  assumes "bs_holds bs []"
  shows "\<exists>bs'. collect_nal_bytes (bs, nu, st) = Inl (bs', nu, st) \<and> bs_holds bs' []"
  using eofBeforeNBytes_holds [OF assms, of 3] bs_readByte_eof
  by (subst collect_nal_bytes.simps) auto

lemma at_start_code_cases:
  assumes "at_start_code l"
  obtains r where "l = 0 # 0 # 1 # r" | r where "l = 0 # 0 # 0 # 1 # r"
proof -
  consider "take 3 l = [0, 0, 1]" | "take 4 l = [0, 0, 0, 1]" using assms by (auto simp: at_start_code_def)
  then show ?thesis
  proof cases
    case 1
    then have "l = [0, 0, 1] @ drop 3 l" by (metis append_take_drop_id)
    then show ?thesis using that(1) [of "drop 3 l"] by simp
  next
    case 2
    then have "l = [0, 0, 0, 1] @ drop 4 l" by (metis append_take_drop_id)
    then show ?thesis using that(2) [of "drop 4 l"] by simp
  qed
qed

lemma collect_nal_bytes_stop:
  assumes h: "bs_holds bs l" and sc: "at_start_code l"
  shows "\<exists>bs'. collect_nal_bytes (bs, nu, st) = Inr (bs', nu, st) \<and> bs_holds bs' l"
proof -
  obtain c r where l: "l = 0 # 0 # c # r" "c \<le> 1" using sc by (rule at_start_code_cases) auto
  have "list_all is_byte (0 # 0 # c # r)" using h unfolding bs_holds_def l by blast
  from peek_small [OF this] have "\<not> val_of (bits_of_bytes (take 3 l)) > 2" using l by simp
  moreover obtain bs1 where 1: "eofBeforeNBytes 3 bs = Some (False, bs1)" "bs_holds bs1 l"
    using eofBeforeNBytes_holds [OF h, of 3] l by auto
  moreover obtain bs2 where "peekBytes 3 bs1 = Some (val_of (bits_of_bytes (take 3 l)), bs2)" "bs_holds bs2 l"
    using peekBytes_holds [OF 1(2), of 3] l by auto
  ultimately show ?thesis by (subst collect_nal_bytes.simps) auto
qed

text \<open>What the framing needs of the bytes of a NAL unit.\<close>

definition nal_bytes_ok :: "int list \<Rightarrow> bool" where
  "nal_bytes_ok n \<longleftrightarrow> list_all is_byte n \<and> emulation_free n \<and> (n \<noteq> [] \<longrightarrow> last n \<noteq> 0)"

lemma nal_bytes_ok_Cons: "nal_bytes_ok (a # n) \<Longrightarrow> nal_bytes_ok n"
  by (cases n; cases "tl n") (auto simp: nal_bytes_ok_def)

lemma nal_bytes_ok_go:
  assumes "nal_bytes_ok (a # n)"
  shows "length (n @ rest) < 2 \<or> \<not> (a = 0 \<and> (n @ rest) ! 0 = 0 \<and> (n @ rest) ! 1 \<le> 2)"
  using assms by (cases n; cases "tl n") (auto simp: nal_bytes_ok_def)

lemma collect_nal_bytes_holds:
  assumes "nal_bytes_ok n" "bs_holds bs (n @ rest)" "rest = [] \<or> at_start_code rest"
  shows "\<exists>bs'. collect_nal_bytes (bs, nu, st) = (if rest = [] then Inl else Inr) (bs', nu @ n, st) \<and> bs_holds bs' rest"
  using assms(1,2)
proof (induction n arbitrary: bs nu)
  case Nil
  then show ?case using assms(3) collect_nal_bytes_eof collect_nal_bytes_stop
    by (cases "rest = []") fastforce+
next
  case (Cons a n)
  obtain bs1 where 1: "collect_nal_bytes (bs, nu, st) = collect_nal_bytes (bs1, nu @ [a], st)" "bs_holds bs1 (n @ rest)"
    using collect_nal_bytes_step [of bs a "n @ rest" nu st] Cons.prems nal_bytes_ok_go [OF Cons.prems(1)] by auto
  show ?case using Cons.IH [OF nal_bytes_ok_Cons [OF Cons.prems(1)] 1(2), of "nu @ [a]"] 1(1) by simp
qed

lemma skip_zero_8bits_here:
  assumes "bs_holds bs l" "at_start_code l"
  shows "\<exists>bs'. skip_zero_8bits count (bs, nu, st) = Inr (bs', nu, st) \<and> bs_holds bs' l"
  using no_start_code_holds [OF assms(1)] assms(2) by (subst skip_zero_8bits.simps) auto

lemma bs_readBytes_3:
  assumes "bs_holds bs (0 # 0 # 1 # l)"
  shows "\<exists>bs'. bs_readBytes 3 bs = Some (1, bs') \<and> bs_holds bs' l"
proof -
  obtain b1 where 1: "bs_readByte bs = Some (0, b1)" "bs_holds b1 (0 # 1 # l)"
    using bs_readByte_holds [OF assms] by auto
  obtain b2 where 2: "bs_readByte b1 = Some (0, b2)" "bs_holds b2 (1 # l)"
    using bs_readByte_holds [OF 1(2)] by auto
  obtain b3 where 3: "bs_readByte b2 = Some (1, b3)" "bs_holds b3 l"
    using bs_readByte_holds [OF 2(2)] by auto
  show ?thesis using 1(1) 2(1) 3 by (simp add: bs_readBytes_def numeral_3_eq_3)
qed

text \<open>
  One call on a stream at a start code returns exactly the bytes up to the next start code or the end,
  and reports the end of the stream with the last NAL unit.
\<close>

lemma byteStreamNALUnit_holds:
  assumes h: "bs_holds bs ((if long then startCodePrefix else drop 1 startCodePrefix) @ n @ rest)"
    and n: "nal_bytes_ok n" and rest: "rest = [] \<or> at_start_code rest"
  shows "\<exists>bs' stats'. byteStreamNALUnit (bs, [], AnnexBStats_zero) = (rest = [], bs', n, stats') \<and> bs_holds bs' rest \<and>
    m_numZeroByteBytes stats' = of_bool long \<and> m_numStartCodePrefixBytes stats' = 3 \<and>
    m_numBytesInNALUnit stats' = u32 (int (length n)) \<and>
    m_numLeadingZero8BitsBytes stats' = 0 \<and> m_numTrailingZero8BitsBytes stats' = 0"
proof -
  let ?l = "(if long then startCodePrefix else drop 1 startCodePrefix) @ n @ rest"
  define st where "st = (if long then AnnexBStats_zero\<lparr>m_numZeroByteBytes := u32 (m_numZeroByteBytes AnnexBStats_zero + 1)\<rparr>
             else AnnexBStats_zero)"
  have sc: "at_start_code ?l" by (simp add: at_start_code_def startCodePrefix_def)
  obtain b1 where 1: "skip_zero_8bits (\<lambda>s. s\<lparr>m_numLeadingZero8BitsBytes := u32 (m_numLeadingZero8BitsBytes s + 1)\<rparr>)
      (bs, [], AnnexBStats_zero) = Inr (b1, [], AnnexBStats_zero)" "bs_holds b1 ?l"
    using skip_zero_8bits_here [OF h sc] by blast
  have lb: "list_all is_byte ?l" using h unfolding bs_holds_def by blast
  have three: "3 \<le> length ?l" by (simp add: startCodePrefix_def)
  obtain p b2 where 2: "peekBytes 3 b1 = Some (p, b2)" "bs_holds b2 ?l" "p \<noteq> 1 \<longleftrightarrow> long"
  proof -
    have "take 3 ?l \<noteq> [0, 0, 1] \<longleftrightarrow> long" by (simp add: startCodePrefix_def)
    then show ?thesis
      using that peekBytes_holds [OF 1(2) _ three] peek_start_code(1) [OF lb three] by fastforce
  qed
  obtain b3 where 3: "if p \<noteq> 1 then bs_readByte b2 = Some (0, b3) else b3 = b2" "bs_holds b3 (0 # 0 # 1 # n @ rest)"
  proof (cases long)
    case True
    then obtain b3 where "bs_readByte b2 = Some (0, b3)" "bs_holds b3 (0 # 0 # 1 # n @ rest)"
      using bs_readByte_holds [of b2 0 "0 # 0 # 1 # n @ rest"] 2(2) by (auto simp: startCodePrefix_def)
    then show ?thesis using that True 2(3) by (simp add: st_def)
  next
    case False
    then show ?thesis using that [of b2] 2 by (simp add: startCodePrefix_def st_def)
  qed
  obtain b4 where 4: "bs_readBytes 3 b3 = Some (1, b4)" "bs_holds b4 (n @ rest)"
    using bs_readBytes_3 [OF 3(2)] by auto
  define st2 where "st2 = st\<lparr>m_numStartCodePrefixBytes := u32 (m_numStartCodePrefixBytes st + 3)\<rparr>"
  obtain b5 where 5: "collect_nal_bytes (b4, [], st2) = (if rest = [] then Inl else Inr) (b5, n, st2)" "bs_holds b5 rest"
    using collect_nal_bytes_holds [OF n 4(2) rest, of "[]" st2] by auto
  obtain b6 where 6: "(case (if rest = [] then Inl else Inr) (b5, n, st2) of Inl st \<Rightarrow> Inl st
      | Inr st \<Rightarrow> skip_zero_8bits (\<lambda>s. s\<lparr>m_numTrailingZero8BitsBytes := u32 (m_numTrailingZero8BitsBytes s + 1)\<rparr>) st)
      = (if rest = [] then Inl else Inr) (b6, n, st2)" "bs_holds b6 rest"
  proof (cases "rest = []")
    case True
    then show ?thesis using that 5(2) by simp
  next
    case False
    then show ?thesis using that rest skip_zero_8bits_here [OF 5(2)] by simp blast
  qed
  have "byteStreamNALUnit_body (bs, [], AnnexBStats_zero) = (if rest = [] then Inl else Inr) (b6, n, st2)"
    using 1(1) 2(1,3) 3(1) 4(1) 5(1) 6(1)
    by (cases "p = 1") (simp_all add: byteStreamNALUnit_body_def st2_def st_def Let_def)
  then show ?thesis using 6(2)
    by (cases "rest = []") (simp_all add: byteStreamNALUnit_def st2_def st_def AnnexBStats_zero_def)
qed

section \<open>Access units there and back\<close>

text \<open>Successive calls, as the decoder application makes them: the end-of-stream flag and the bytes of each.\<close>

fun read_nal_units :: "nat \<Rightarrow> InputByteStream \<Rightarrow> (bool \<times> int list) list" where
  "read_nal_units 0 bs = []"
| "read_nal_units (Suc k) bs =
     (let (eof, bs', nalUnit, _) = byteStreamNALUnit (bs, [], AnnexBStats_zero)
      in (eof, nalUnit) # read_nal_units k bs')"

text \<open>The bytes of an access unit.\<close>

fun annexb_bytes :: "bool \<Rightarrow> NALUnitEBSP list \<Rightarrow> int list" where
  "annexb_bytes first [] = []"
| "annexb_bytes first (nalu # au) =
     (if useLongStartCode first (fst nalu) then startCodePrefix else drop 1 startCodePrefix) @ snd nalu
     @ annexb_bytes False au"

lemma writeAnnexB_loop_bytes:
  "snd (writeAnnexB_loop first out au) = out @ annexb_bytes first au \<and>
   length (fst (writeAnnexB_loop first out au)) = length au \<and>
   (length (annexb_bytes first au) < 2 ^ 32 \<longrightarrow>
      sum_list (fst (writeAnnexB_loop first out au)) = int (length (annexb_bytes first au)))"
  by (induction first out au rule: writeAnnexB_loop.induct)
    (auto simp: writeAnnexBNalUnit_def startCodePrefix_def split: prod.splits)

text \<open>What the byte stream relies on in a producer of NAL units.\<close>

locale ebsp_source =
  fixes valid :: "'u \<Rightarrow> bool" and ebsp :: "'u \<Rightarrow> NALUnitEBSP"
  assumes ebsp_ok: "valid u \<Longrightarrow> nal_bytes_ok (snd (ebsp u))"
begin

lemma annexb_bytes_start: "us \<noteq> [] \<Longrightarrow> at_start_code (annexb_bytes first us)"
  by (cases us) (auto simp: at_start_code_def startCodePrefix_def)

lemma read_access_unit:
  "list_all valid us \<Longrightarrow> bs_holds bs (annexb_bytes first (map ebsp us)) \<Longrightarrow>
   map snd (read_nal_units (length us) bs) = map (snd \<circ> ebsp) us \<and>
   map fst (read_nal_units (length us) bs) = map (\<lambda>i. Suc i = length us) [0..<length us]"
proof (induction us arbitrary: bs first)
  case (Cons u us)
  let ?rest = "annexb_bytes False (map ebsp us)"
  obtain bs' st' where u: "byteStreamNALUnit (bs, [], AnnexBStats_zero) = (?rest = [], bs', snd (ebsp u), st')"
    "bs_holds bs' ?rest"
    using byteStreamNALUnit_holds [of bs "useLongStartCode first (fst (ebsp u))" "snd (ebsp u)" ?rest]
      Cons.prems ebsp_ok annexb_bytes_start [of "map ebsp us" False] by (cases "us = []") auto
  have "?rest = [] \<longleftrightarrow> us = []"
    using annexb_bytes_start [of "map ebsp us" False] by (cases us) (auto simp: startCodePrefix_def)
  moreover have "[0..<length (u # us)] = 0 # map Suc [0..<length us]"
    by (simp add: map_Suc_upt upt_conv_Cons del: upt_Suc)
  ultimately show ?case
    using Cons.IH [OF _ u(2)] Cons.prems u(1) by (simp add: comp_def del: upt_Suc)
qed simp

end

text \<open>The encoder's NAL units meet the contract.\<close>

definition encode_nal_unit :: "NALUnit \<times> int list \<Rightarrow> NALUnitEBSP" where
  "encode_nal_unit u = (m_nalUnitType (fst u), the (writeNaluWithHeader (fst u) (snd u)))"

definition nal_unit_ok :: "NALUnit \<times> int list \<Rightarrow> bool" where
  "nal_unit_ok u \<longleftrightarrow> nal_header_ok (fst u) \<and> list_all is_byte (snd u) \<and> whole_zero_words (snd u)"

lemma encode_nal_unit_ok:
  assumes "nal_unit_ok u"
  shows "nal_bytes_ok (snd (encode_nal_unit u))"
proof -
  obtain n rbsp where u: "u = (n, rbsp)" by (cases u)
  have ok: "nal_header_ok n" and b: "list_all is_byte rbsp" using assms by (simp_all add: nal_unit_ok_def u)
  let ?h = "m_nalUnitType n * 8 + m_temporalId n + 1"
  have e: "snd (encode_nal_unit u) = m_nuhLayerId n # ?h # writeNaluContent rbsp"
    using writeNalUnitHeader_Some [OF ok] by (simp add: encode_nal_unit_def u writeNaluWithHeader_def)
  obtain out z where l: "ebsp_loop 0 rbsp = (out, z)" by fastforce
  have w: "writeNaluContent rbsp = out @ replicate (of_bool (0 < z)) 3" by (simp add: writeNaluContent_def l)
  have h: "is_byte (m_nuhLayerId n)" "is_byte ?h" "?h \<noteq> 0" using ok by (auto simp: nal_header_ok_def is_byte_def)
  have "list_all is_byte (writeNaluContent rbsp)"
    using ebsp_loop_is_byte [OF l] b unfolding w by (simp add: list_all_iff is_byte_def)
  moreover have "conforming (m_nuhLayerId n # ?h # writeNaluContent rbsp)"
    using ebsp_loop_conforming [OF l] h(3) unfolding conforming_0 [OF h(3)] w by simp
  moreover have "writeNaluContent rbsp \<noteq> [] \<longrightarrow> last (writeNaluContent rbsp) \<noteq> 0"
  proof (cases "z = 0")
    case True
    then show ?thesis using ebsp_loop_last [OF l] l unfolding w by (cases rbsp) auto
  qed (simp add: w)
  ultimately show ?thesis
    unfolding nal_bytes_ok_def e using h by (auto intro: conforming_emulation_free)
qed

interpretation nalu: ebsp_source nal_unit_ok encode_nal_unit
  by unfold_locales (rule encode_nal_unit_ok)

section \<open>Properties\<close>

lemma emulation_free_Cons: "a \<noteq> 0 \<Longrightarrow> emulation_free (a # r) = emulation_free r"
  by (cases r; cases "tl r") auto

lemma emulation_free_0: "b \<noteq> 0 \<Longrightarrow> emulation_free (a # b # r) = emulation_free r"
  using emulation_free_Cons [of b r] by (cases r) auto

lemma rbsp_loop_emulation_free:
  "zc \<le> 2 \<Longrightarrow> rbsp_loop zc pos xs = Some res \<Longrightarrow> list_all is_byte xs \<Longrightarrow> emulation_free (replicate zc 0 @ xs)"
proof (induction zc pos xs arbitrary: res rule: rbsp_loop.induct)
  case (1 zc pos)
  then have "zc = 0 \<or> zc = 1 \<or> zc = 2" by auto
  then show ?case by (auto simp: numeral_eq_Suc)
next
  case (2 zc pos x xs)
  have zc: "zc = 0 \<or> zc = 1 \<or> zc = 2" using 2(3) by auto
  have ok: "\<not> (zc \<ge> 2 \<and> x < 3)" using 2(4) by (auto simp: bind_eq_Some_conv)
  show ?case
  proof (cases "zc = 2 \<and> x = 3")
    case True
    show ?thesis
    proof (cases xs)
      case Nil
      then show ?thesis using True by (simp add: numeral_eq_Suc)
    next
      case (Cons y ys)
      then obtain r where r: "rbsp_loop (if y = 0 then 1 else 0) (pos + 2) ys = Some r"
        using 2(4) True by (auto simp: bind_eq_Some_conv)
      have "emulation_free (replicate (if y = 0 then 1 else 0) 0 @ ys)"
        by (rule 2(1) [OF _ True Cons _ _ r]) (use ok 2(4,5) Cons True in \<open>auto simp: bind_eq_Some_conv\<close>)
      then show ?thesis
        using True Cons by (cases "y = 0") (simp_all add: numeral_eq_Suc emulation_free_Cons)
    qed
  next
    case False
    then obtain r where r: "rbsp_loop (if x = 0 then zc + 1 else 0) (pos + 1) xs = Some r"
      using 2(4) by (auto simp: bind_eq_Some_conv)
    have "emulation_free (replicate (if x = 0 then zc + 1 else 0) 0 @ xs)"
      by (rule 2(2) [OF _ False _ r]) (use ok 2(3,5) zc in \<open>auto\<close>)
    then show ?thesis
      using zc ok False by (cases "x = 0") (auto simp: numeral_eq_Suc emulation_free_Cons emulation_free_0)
  qed
qed


definition sample_nal_units :: "(NALUnit \<times> int list) list" where
  "sample_nal_units =
     [(\<lparr>m_nalUnitType = 15, m_temporalId = 0, m_nuhLayerId = 0, m_forbiddenZeroBit = 0, m_nuhReservedZeroBit = 0\<rparr>,
       [0x11, 0, 0, 1, 0x80]),
      (\<lparr>m_nalUnitType = 8, m_temporalId = 0, m_nuhLayerId = 1, m_forbiddenZeroBit = 0, m_nuhReservedZeroBit = 0\<rparr>,
       [0xc4, 0, 0, 0, 0])]"


text \<open>The input is always used up: a call that does not report the end has consumed a start code.\<close>

lemma skip_zero_8bits_left:
  "skip_zero_8bits count (bs, nalUnit, stats) = Inr (bs', nalUnit', stats') \<Longrightarrow> bs_left bs' \<le> bs_left bs"
proof (induction count "(bs, nalUnit, stats)" arbitrary: bs nalUnit stats rule: skip_zero_8bits.induct)
  case (1 count bs nalUnit stats)
  from 1(2) obtain c bs1 where c: "no_start_code bs = Some (c, bs1)"
    by (subst (asm) skip_zero_8bits.simps) (auto split: option.splits)
  note left = no_start_code_left [OF c]
  show ?case
  proof (cases c)
    case True
    with 1(2) c obtain bs2 where r: "bs_readByte bs1 = Some (0, bs2)" "skip_zero_8bits count (bs2, nalUnit, count stats) = Inr (bs', nalUnit', stats')"
      by (subst (asm) skip_zero_8bits.simps) (auto split: option.splits if_splits)
    then have "bs_left bs' \<le> bs_left bs2" using 1(1) [OF c refl True r(1)] by simp
    then show ?thesis using bs_readByte_left [OF r(1)] left by simp
  next
    case False
    with 1(2) c have "bs' = bs1" by (subst (asm) skip_zero_8bits.simps) simp
    then show ?thesis using left by simp
  qed
qed

lemma collect_nal_bytes_left:
  "collect_nal_bytes (bs, nalUnit, stats) = Inr (bs', nalUnit', stats') \<Longrightarrow> bs_left bs' \<le> bs_left bs"
proof (induction "(bs, nalUnit, stats)" arbitrary: bs nalUnit stats rule: collect_nal_bytes.induct)
  case (1 bs nalUnit stats)
  from 1(2) obtain e bs1 c bs2 where e: "eofBeforeNBytes 3 bs = Some (e, bs1)"
    and c: "(if e then Some (True, bs1) else do { (p, bs) \<leftarrow> peekBytes 3 bs1; Some (p > 2, bs) }) = Some (c, bs2)"
    by (subst (asm) collect_nal_bytes.simps) (auto split: option.splits)
  have left: "bs_left bs2 = bs_left bs"
    using c eofBeforeNBytes_left [OF e] peekBytes_left by (fastforce simp: bind_eq_Some_conv split: if_splits)
  show ?case
  proof (cases c)
    case True
    with 1(2) e c obtain b bs3 where r: "bs_readByte bs2 = Some (b, bs3)"
      "collect_nal_bytes (bs3, nalUnit @ [b], stats) = Inr (bs', nalUnit', stats')"
      by (subst (asm) collect_nal_bytes.simps) (auto split: option.splits)
    then have "bs_left bs' \<le> bs_left bs3" using 1(1) [OF e refl c refl True r(1)] by simp
    then show ?thesis using bs_readByte_left [OF r(1)] left by simp
  next
    case False
    with 1(2) e c have "bs' = bs2" by (subst (asm) collect_nal_bytes.simps) simp
    then show ?thesis using left by simp
  qed
qed

lemma bs_readBytes_loop_left: "bs_readBytes_loop n v bs = Some (w, bs') \<Longrightarrow> bs_left bs' + n = bs_left bs"
proof (induction n arbitrary: v bs)
  case (Suc n)
  then obtain b bs1 where r: "bs_readByte bs = Some (b, bs1)" "bs_readBytes_loop n (u32 (push_bit 8 v) OR b) bs1 = Some (w, bs')"
    by (auto simp: bind_eq_Some_conv)
  then show ?case using Suc.IH [OF r(2)] bs_readByte_left [OF r(1)] by simp
qed simp

lemma byteStreamNALUnit_progress:
  assumes "byteStreamNALUnit (bs, nalUnit, stats) = (False, bs', nalUnit', stats')"
  shows "bs_left bs' + 3 \<le> bs_left bs"
proof -
  obtain n s where "byteStreamNALUnit_body (bs, nalUnit, stats) = Inr (bs', n, s)"
    using assms by (auto simp: byteStreamNALUnit_def split: sum.splits)
  then show ?thesis
    unfolding byteStreamNALUnit_body_def bs_readBytes_def
    by (fastforce split: sum.splits option.splits if_splits simp: Let_def
        dest!: skip_zero_8bits_left collect_nal_bytes_left bs_readBytes_loop_left peekBytes_left bs_readByte_left)
qed

text \<open>The stream after \<open>n\<close> calls, each with an empty vector, as the decoder's main loop makes them.\<close>

fun after_calls :: "nat \<Rightarrow> InputByteStream \<Rightarrow> InputByteStream" where
  "after_calls 0 bs = bs"
| "after_calls (Suc n) bs = after_calls n (fst (snd (byteStreamNALUnit (bs, [], AnnexBStats_zero))))"


text \<open>
  C15: What \<open>writeNaluContent\<close> emits obeys clause 7.4.1 for every payload: no 000000, 000001 or 000002
  at any byte position, 000003 only before a byte of at most 3 or at the end, and no zero byte at
  the end. The buffer of twice the size plus one the code allocates is never overrun.
\<close>

theorem writeNaluContent_conforming:
  "conforming (writeNaluContent rbsp) \<and>
   (writeNaluContent rbsp \<noteq> [] \<longrightarrow> last (writeNaluContent rbsp) \<noteq> 0) \<and>
   length (writeNaluContent rbsp) \<le> 2 * length rbsp + 1"
proof -
  obtain out z where l: "ebsp_loop 0 rbsp = (out, z)" by fastforce
  have w: "writeNaluContent rbsp = out @ replicate (of_bool (0 < z)) 3" by (simp add: writeNaluContent_def l)
  have "last (writeNaluContent rbsp) \<noteq> 0" if "writeNaluContent rbsp \<noteq> []"
    using that ebsp_loop_last [OF l] l unfolding w by (cases "z = 0"; cases rbsp) auto
  then show ?thesis
    using ebsp_loop_conforming [OF l] writeNaluContent_length [of rbsp] by (auto simp: w)
qed

theorem writeNaluContent_conforming_witness:
  "conforming (writeNaluContent [0, 0, 0, 0, 0]) \<and> last (writeNaluContent [0, 0, 0, 0, 0]) \<noteq> 0 \<and>
   writeNaluContent [0, 0, 0, 0, 0] = [0, 0, 3, 0, 0, 3, 0, 3]"
proof -
  have w: "writeNaluContent [0, 0, 0, 0, 0] = [0, 0, 3, 0, 0, 3, 0, 3]" by code_simp
  show ?thesis using writeNaluContent_conforming [of "[0, 0, 0, 0, 0]"] w by simp
qed

text \<open>
  C23: \<open>countStartCodeEmulations\<close>, which the encoder uses to size slice data, counts exactly the bytes
  \<open>writeNaluContent\<close> inserts inside the payload.
\<close>

theorem emulation_count_exact:
  "int (length (writeNaluContent (o_fifo ob))) - int (length (o_fifo ob)) =
     int (countStartCodeEmulations ob) + of_bool (o_fifo ob \<noteq> [] \<and> last (o_fifo ob) = 0)"
  using countStartCodeEmulations_eq [of ob] by auto

text \<open>
  C24: The decoder accepts no NAL unit that contains an emulated start code: if
  \<open>convertPayloadToRBSP\<close> returns, no 000000, 000001 or 000002 occurs in its input.
\<close>

theorem convertPayloadToRBSP_rejects_emulation:
  assumes "list_all is_byte buf" "\<not> emulation_free buf"
  shows "convertPayloadToRBSP vcl buf = None"
  using rbsp_loop_emulation_free [of 0 0 buf] assms
  by (cases "rbsp_loop 0 0 buf") (auto simp: convertPayloadToRBSP_def)

theorem convertPayloadToRBSP_rejects_emulation_witness: "convertPayloadToRBSP True [0x79, 0, 0, 1, 0x80] = None"
  by (rule convertPayloadToRBSP_rejects_emulation) (simp_all add: is_byte_def)

text \<open>
  C25: A payload with an odd run of zero bytes at its end is not preserved: the byte 3 that
  \<open>writeNaluContent\<close> appends stays in the payload the decoder reads. (The encoder only ends a payload
  in pairs of zeros.)
\<close>

theorem odd_zero_tail_not_preserved:
  assumes "list_all is_byte rbsp" "\<not> whole_zero_words rbsp"
  shows "\<exists>locs. convertPayloadToRBSP False (writeNaluContent rbsp) = Some (rbsp @ [3], locs)"
proof -
  obtain out z where e: "ebsp_loop 0 rbsp = (out, z)" by fastforce
  then show ?thesis
    using rbsp_loop_writeNaluContent [OF assms(1) e, of 0] ebsp_loop_parity [OF e] assms(2)
    by (auto simp: convertPayloadToRBSP_def)
qed

theorem odd_zero_tail_not_preserved_witness:
  "\<exists>locs. convertPayloadToRBSP False (writeNaluContent [0x11, 0]) = Some ([0x11, 0, 3], locs)"
  using odd_zero_tail_not_preserved [of "[0x11, 0]"] by (simp add: is_byte_def whole_zero_words_def)

end
