(* ===== verification/ProbModel.thy ===== *)
theory ProbModel
  imports InputStream
begin

text \<open>
  The adaptive probability model of the entropy coder: \<open>BinProbModel_Std\<close> of
  \<open>source/Lib/CommonLib/Contexts.{h,cpp}\<close>, and the interface by which the arithmetic coder, a
  template over the model, uses it.
\<close>

section \<open>The template parameter of the arithmetic coder\<close>

text \<open>
  \<open>TBinEncoder<BinProbModel>\<close> and \<open>TBinDecoder<BinProbModel>\<close> use five operations of their model.
\<close>

record 'p BinProbModel =
  pm_getLPS :: "'p \<Rightarrow> int \<Rightarrow> int"
  pm_mps :: "'p \<Rightarrow> int"
  pm_getRenormBitsLPS :: "int \<Rightarrow> nat"
  pm_getRenormBitsRange :: "int \<Rightarrow> nat"
  pm_update :: "'p \<Rightarrow> int \<Rightarrow> 'p"

text \<open>
  What the coder relies on: the sub-range of the less probable symbol is positive and leaves at least
  128 to the other, renormalisation brings it back into \<open>[256, 510]\<close>, and updating keeps the model valid.
\<close>

locale prob_model =
  fixes pm :: "'p BinProbModel" and pm_inv :: "'p \<Rightarrow> bool"
  assumes lps_pos: "pm_inv p \<Longrightarrow> 256 \<le> r \<Longrightarrow> r \<le> 510 \<Longrightarrow> 0 < pm_getLPS pm p r"
    and lps_leaves: "pm_inv p \<Longrightarrow> 256 \<le> r \<Longrightarrow> r \<le> 510 \<Longrightarrow> 128 \<le> r - pm_getLPS pm p r"
    and lps_renorm: "pm_inv p \<Longrightarrow> 256 \<le> r \<Longrightarrow> r \<le> 510 \<Longrightarrow>
      256 \<le> pm_getLPS pm p r * 2 ^ pm_getRenormBitsLPS pm (pm_getLPS pm p r) \<and>
      pm_getLPS pm p r * 2 ^ pm_getRenormBitsLPS pm (pm_getLPS pm p r) \<le> 510 \<and>
      pm_getRenormBitsLPS pm (pm_getLPS pm p r) \<le> 8"
    and range_renorm: "128 \<le> r \<Longrightarrow> r < 256 \<Longrightarrow> pm_getRenormBitsRange pm r = 1"
    and mps_bin: "pm_inv p \<Longrightarrow> pm_mps pm p = 0 \<or> pm_mps pm p = 1"
    and update_inv: "pm_inv p \<Longrightarrow> b = 0 \<or> b = 1 \<Longrightarrow> pm_inv (pm_update pm p b)"

section \<open>The standard model\<close>

definition MASK_0 :: int where "MASK_0 = 0x7fe0"
definition MASK_1 :: int where "MASK_1 = 0x7ffe"
definition DWS :: int where "DWS = 8"

definition m_RenormTable_32 :: "nat list" where
  "m_RenormTable_32 =
    [6, 5, 4, 4,
     3, 3, 3, 3,
     2, 2, 2, 2,
     2, 2, 2, 2,
     1, 1, 1, 1,
     1, 1, 1, 1,
     1, 1, 1, 1,
     1, 1, 1, 1]"

record BinProbModel_Std =
  m_state0 :: int
  m_state1 :: int
  m_rate :: int

definition std_create :: BinProbModel_Std where
  "std_create = \<lparr>m_state0 = 0x4000, m_state1 = 0x4000, m_rate = DWS\<rparr>"

definition std_init :: "int \<Rightarrow> int \<Rightarrow> BinProbModel_Std \<Rightarrow> BinProbModel_Std" where
  "std_init qp initId p =
     (let slope = drop_bit 3 initId - 4;
          offset = (initId AND 7) * 18 + 1;
          inistate = drop_bit 1 (slope * (qp - 16)) + offset;
          state_clip = (if inistate < 1 then 1 else if inistate > 127 then 127 else inistate);
          p1 = push_bit 8 state_clip
      in p\<lparr>m_state0 := p1 AND MASK_0, m_state1 := p1 AND MASK_1\<rparr>)"

definition std_update :: "BinProbModel_Std \<Rightarrow> int \<Rightarrow> BinProbModel_Std" where
  "std_update p bin =
     (let rate0 = nat (drop_bit 4 (m_rate p));
          rate1 = nat (m_rate p AND 15);
          s0 = u16 (m_state0 p - (drop_bit rate0 (m_state0 p) AND MASK_0));
          s1 = u16 (m_state1 p - (drop_bit rate1 (m_state1 p) AND MASK_1))
      in if bin \<noteq> 0
         then p\<lparr>m_state0 := u16 (s0 + (drop_bit rate0 0x7fff AND MASK_0)),
                m_state1 := u16 (s1 + (drop_bit rate1 0x7fff AND MASK_1))\<rparr>
         else p\<lparr>m_state0 := s0, m_state1 := s1\<rparr>)"

definition setLog2WindowSize :: "int \<Rightarrow> BinProbModel_Std \<Rightarrow> BinProbModel_Std option" where
  "setLog2WindowSize log2WindowSize p =
     (let rate0 = 2 + (drop_bit 2 log2WindowSize AND 3);
          rate1 = 3 + rate0 + (log2WindowSize AND 3)
      in do { _ \<leftarrow> check (rate1 > 9); Some (p\<lparr>m_rate := u8 (16 * rate0 + rate1)\<rparr>) })"

definition std_state :: "BinProbModel_Std \<Rightarrow> int" where
  "std_state p = u8 (drop_bit 8 (m_state0 p + m_state1 p))"

definition std_mps :: "BinProbModel_Std \<Rightarrow> int" where
  "std_mps p = drop_bit 7 (std_state p)"

definition std_getLPS :: "BinProbModel_Std \<Rightarrow> int \<Rightarrow> int" where
  "std_getLPS p rng =
     (let q = std_state p;
          q = (if q AND 0x80 \<noteq> 0 then q XOR 0xff else q)
      in u8 (drop_bit 1 (drop_bit 2 q * drop_bit 5 rng) + 4))"

definition std_getRenormBitsLPS :: "int \<Rightarrow> nat" where
  "std_getRenormBitsLPS lpsRange = m_RenormTable_32 ! nat (drop_bit 3 lpsRange)"

definition std_getRenormBitsRange :: "int \<Rightarrow> nat" where
  "std_getRenormBitsRange rng = 1"

definition std_getState :: "BinProbModel_Std \<Rightarrow> int" where
  "std_getState p = u16 (m_state0 p + m_state1 p)"

definition std_setState :: "int \<Rightarrow> BinProbModel_Std \<Rightarrow> BinProbModel_Std" where
  "std_setState pState p = p\<lparr>m_state0 := drop_bit 1 pState AND MASK_0, m_state1 := drop_bit 1 pState AND MASK_1\<rparr>"

definition Std :: "BinProbModel_Std BinProbModel" where
  "Std = \<lparr>pm_getLPS = std_getLPS, pm_mps = std_mps, pm_getRenormBitsLPS = std_getRenormBitsLPS,
          pm_getRenormBitsRange = std_getRenormBitsRange, pm_update = std_update\<rparr>"

section \<open>The state stays a pair of masked probabilities\<close>

definition std_inv :: "BinProbModel_Std \<Rightarrow> bool" where
  "std_inv p \<longleftrightarrow> 0 \<le> m_state0 p \<and> m_state0 p \<le> 0x7fe0 \<and> m_state0 p mod 32 = 0 \<and>
     0 \<le> m_state1 p \<and> m_state1 p \<le> 0x7ffe \<and> m_state1 p mod 2 = 0 \<and> 0 \<le> m_rate p \<and> m_rate p < 256"

text \<open>The masks clear the low bits of a 15-bit value.\<close>

lemma and_shifted_mask: "(x::int) AND push_bit k (mask n) = push_bit k (drop_bit k (take_bit (n + k) x))"
  by (rule bit_eqI) (auto simp: bit_simps)

lemma and_MASK:
  assumes "0 \<le> x" "x < 2 ^ 15"
  shows "x AND MASK_0 = x div 32 * 32" and "x AND MASK_1 = x div 2 * 2"
proof -
  have t: "take_bit 15 x = x" using assms by (simp add: take_bit_int_eq_self)
  have m: "MASK_0 = push_bit 5 (mask 10)" "MASK_1 = push_bit 1 (mask 14)"
    by (simp_all add: MASK_0_def MASK_1_def mask_eq_exp_minus_1 push_bit_eq_mult)
  have "x AND MASK_0 = push_bit 5 (drop_bit 5 (take_bit 15 x))"
    unfolding m and_shifted_mask by simp
  then show "x AND MASK_0 = x div 32 * 32" by (simp add: t push_bit_eq_mult drop_bit_eq_div)
  have "x AND MASK_1 = push_bit 1 (drop_bit 1 (take_bit 15 x))"
    unfolding m and_shifted_mask by simp
  then show "x AND MASK_1 = x div 2 * 2" by (simp add: t push_bit_eq_mult drop_bit_eq_div)
qed

lemma drop_bit_range: "0 \<le> (x::int) \<Longrightarrow> x < n \<Longrightarrow> 0 \<le> drop_bit k x \<and> drop_bit k x < n"
  by (auto simp: drop_bit_eq_div pos_imp_zdiv_nonneg_iff intro: le_less_trans [OF zdiv_mono2 [of x 1 "2 ^ k", simplified]])

text \<open>One step towards the ceiling \<open>N\<close>, at rate \<open>2 ^ -r\<close>, stays below it.\<close>

lemma adapt_bound:
  fixes k N :: int
  assumes "0 \<le> k" "k \<le> N"
  shows "0 \<le> k - k div 2 ^ r" "k - k div 2 ^ r \<le> N - N div 2 ^ r"
proof -
  show "0 \<le> k - k div 2 ^ r" using assms zdiv_mono2 [of k 1 "2 ^ r"] by simp
  have "N div 2 ^ r \<le> k div 2 ^ r + (N - k)"
  proof -
    have "N div 2 ^ r \<le> (k + (N - k) * 2 ^ r) div 2 ^ r"
      using assms mult_left_mono [of 1 "2 ^ r" "N - k"] by (intro zdiv_mono1) simp_all
    then show ?thesis by simp
  qed
  then show "k - k div 2 ^ r \<le> N - N div 2 ^ r" by simp
qed

lemma adapt_masked:
  fixes s :: int
  assumes "0 \<le> s" "s \<le> N * m" "s mod m = 0" "0 < m" "N * m + (m - 1) = 0x7fff"
    and d: "d = s div 2 ^ r div m * m" and u: "u = 0x7fff div 2 ^ r div m * m"
  shows "0 \<le> s - d \<and> s - d + u \<le> N * m \<and> (s - d) mod m = 0 \<and> (s - d + u) mod m = 0 \<and> 0 \<le> u \<and> s - d \<le> N * m"
proof -
  define k where "k = s div m"
  have s: "s = k * m" using minus_mod_eq_div_mult [of s m] assms(3) by (simp add: k_def)
  have k: "0 \<le> k" "k \<le> N" using assms(1,2,4) by (simp_all add: s zero_le_mult_iff)
  have dk: "d = k div 2 ^ r * m"
    using assms(4) by (simp add: d s mult.commute [of "2 ^ r"] flip: zdiv_zmult2_eq)
  have "0x7fff div 2 ^ r div m = N div 2 ^ r"
  proof -
    have "0x7fff div m = N" using assms(4) by (simp add: assms(5)[symmetric])
    moreover have "(0x7fff::int) div 2 ^ r div m = 0x7fff div m div 2 ^ r"
      using assms(4) zdiv_zmult2_eq [where a = "0x7fff" and b = m and c = "2 ^ r"] zdiv_zmult2_eq [where a = "0x7fff" and b = "2 ^ r" and c = m]
      by (simp add: mult.commute)
    ultimately show ?thesis by simp
  qed
  then have uk: "u = N div 2 ^ r * m" by (simp add: u)
  have N: "0 \<le> N div 2 ^ r" using k by (simp add: pos_imp_zdiv_nonneg_iff)
  have "s - d = (k - k div 2 ^ r) * m" "s - d + u = (k - k div 2 ^ r + N div 2 ^ r) * m"
    by (simp_all add: s dk uk algebra_simps)
  then show ?thesis
    using adapt_bound [OF k, of r] assms(4) N uk by (auto intro!: mult_right_mono)
qed

lemma std_update_inv:
  assumes "std_inv p"
  shows "std_inv (std_update p b)"
proof -
  define r0 r1 where r: "r0 = nat (drop_bit 4 (m_rate p))" "r1 = nat (m_rate p AND 15)"
  define d0 u0 d1 u1 where d: "d0 = m_state0 p div 2 ^ r0 div 32 * 32" "u0 = (0x7fff::int) div 2 ^ r0 div 32 * 32"
    "d1 = m_state1 p div 2 ^ r1 div 2 * 2" "u1 = (0x7fff::int) div 2 ^ r1 div 2 * 2"
  have a0: "0 \<le> m_state0 p - d0 \<and> m_state0 p - d0 + u0 \<le> 0x7fe0 \<and> (m_state0 p - d0) mod 32 = 0 \<and>
      (m_state0 p - d0 + u0) mod 32 = 0 \<and> 0 \<le> u0 \<and> m_state0 p - d0 \<le> 0x7fe0"
    using adapt_masked [of "m_state0 p" 1023 32 d0 r0 u0] assms by (simp add: d std_inv_def)
  have a1: "0 \<le> m_state1 p - d1 \<and> m_state1 p - d1 + u1 \<le> 0x7ffe \<and> (m_state1 p - d1) mod 2 = 0 \<and>
      (m_state1 p - d1 + u1) mod 2 = 0 \<and> 0 \<le> u1 \<and> m_state1 p - d1 \<le> 0x7ffe"
    using adapt_masked [of "m_state1 p" 16383 2 d1 r1 u1] assms by (simp add: d std_inv_def)
  have range: "0 \<le> drop_bit r x \<and> drop_bit r x < 2 ^ 15" if "0 \<le> x" "x < 2 ^ 15" for r and x :: int
    using drop_bit_range [OF that] .
  have m: "drop_bit r0 (m_state0 p) AND MASK_0 = d0" "drop_bit r0 0x7fff AND MASK_0 = u0"
    "drop_bit r1 (m_state1 p) AND MASK_1 = d1" "drop_bit r1 0x7fff AND MASK_1 = u1"
    using and_MASK range assms by (simp_all add: d drop_bit_eq_div std_inv_def)
  have u: "u16 x = x" if "0 \<le> x" "x \<le> 0x7ffe" for x :: int using that by (simp add: u16_def)
  show ?thesis
    using a0 a1 assms u by (simp add: std_update_def Let_def m r [symmetric] std_inv_def)
qed

text \<open>\<open>state\<close> is a byte, and its upper bit is the more probable symbol.\<close>

lemma std_state_range:
  assumes "std_inv p"
  shows "0 \<le> std_state p" "std_state p < 256" "std_state p = (m_state0 p + m_state1 p) div 256"
proof -
  have "0 \<le> (m_state0 p + m_state1 p) div 256" "(m_state0 p + m_state1 p) div 256 < 256"
    using assms by (auto simp: std_inv_def)
  then show "0 \<le> std_state p" "std_state p < 256" "std_state p = (m_state0 p + m_state1 p) div 256"
    by (simp_all add: std_state_def drop_bit_eq_div)
qed

lemma std_mps_bin: "std_inv p \<Longrightarrow> std_mps p = 0 \<or> std_mps p = 1"
  using std_state_range [of p] by (auto simp: std_mps_def drop_bit_eq_div)

text \<open>The folded state is at most 127.\<close>

definition std_fold :: "BinProbModel_Std \<Rightarrow> int" where
  "std_fold p = (if std_state p AND 0x80 \<noteq> 0 then std_state p XOR 0xff else std_state p)"

lemma std_fold_range:
  assumes "std_inv p"
  shows "0 \<le> std_fold p \<and> std_fold p \<le> 127"
proof -
  have "\<forall>q \<in> {0..255}. 0 \<le> (if q AND 0x80 \<noteq> 0 then q XOR 0xff else q) \<and>
      (if q AND 0x80 \<noteq> 0 then q XOR 0xff else q) \<le> (127::int)" by code_simp
  moreover have "std_state p \<in> {0..255}" using std_state_range(1,2) [OF assms] by simp
  ultimately show ?thesis unfolding std_fold_def by (rule bspec)
qed

lemma std_getLPS_eq:
  assumes "std_inv p" "256 \<le> r" "r \<le> 510"
  shows "std_getLPS p r = std_fold p div 4 * (r div 32) div 2 + 4"
    and "4 \<le> std_getLPS p r \<and> std_getLPS p r \<le> 236 \<and> 128 \<le> r - std_getLPS p r"
proof -
  have r: "8 \<le> r div 32" "r div 32 \<le> 15" "32 * (r div 32) \<le> r" using assms(2,3) by auto
  have q: "0 \<le> std_fold p div 4" "std_fold p div 4 \<le> 31" using std_fold_range [OF assms(1)] by auto
  have "std_fold p div 4 * (r div 32) \<le> 31 * (r div 32)" using q r by (intro mult_right_mono) simp_all
  moreover have "0 \<le> std_fold p div 4 * (r div 32)" using q r by simp
  ultimately have b: "0 \<le> std_fold p div 4 * (r div 32) div 2" "2 * (std_fold p div 4 * (r div 32) div 2) \<le> 31 * (r div 32)"
    by auto
  then show eq: "std_getLPS p r = std_fold p div 4 * (r div 32) div 2 + 4"
    using r by (simp add: std_getLPS_def Let_def std_fold_def [symmetric] drop_bit_eq_div)
  show "4 \<le> std_getLPS p r \<and> std_getLPS p r \<le> 236 \<and> 128 \<le> r - std_getLPS p r"
    unfolding eq using b r by linarith
qed

text \<open>The renormalisation table, entry by entry: every sub-range from 4 to 255 is brought into range.\<close>

lemma std_renorm_table:
  assumes "4 \<le> l" "l \<le> 255"
  shows "256 \<le> l * 2 ^ std_getRenormBitsLPS l \<and> l * 2 ^ std_getRenormBitsLPS l \<le> 510 \<and>
    1 \<le> std_getRenormBitsLPS l \<and> std_getRenormBitsLPS l \<le> 6"
proof -
  have "\<forall>l \<in> {4..255}. 256 \<le> l * 2 ^ std_getRenormBitsLPS l \<and> l * 2 ^ std_getRenormBitsLPS l \<le> 510 \<and>
    1 \<le> std_getRenormBitsLPS l \<and> std_getRenormBitsLPS l \<le> 6" by code_simp
  moreover have "l \<in> {4..255}" using assms by simp
  ultimately show ?thesis by (rule bspec)
qed

interpretation std: prob_model Std std_inv
proof unfold_locales
  fix p r assume "std_inv p" "256 \<le> (r::int)" "r \<le> 510"
  note l = std_getLPS_eq(2) [OF this]
  then show "0 < pm_getLPS Std p r" "128 \<le> r - pm_getLPS Std p r" by (simp_all add: Std_def)
  show "256 \<le> pm_getLPS Std p r * 2 ^ pm_getRenormBitsLPS Std (pm_getLPS Std p r) \<and>
      pm_getLPS Std p r * 2 ^ pm_getRenormBitsLPS Std (pm_getLPS Std p r) \<le> 510 \<and>
      pm_getRenormBitsLPS Std (pm_getLPS Std p r) \<le> 8"
    using l std_renorm_table [of "std_getLPS p r"] by (simp add: Std_def)
qed (simp_all add: Std_def std_getRenormBitsRange_def std_mps_bin std_update_inv)

end
