(* ===== verification/BinEncoder.thy ===== *)
theory BinEncoder
  imports ProbModel
begin

text \<open>
  The arithmetic encoder: \<open>BinCounter\<close>, \<open>BinEncoderBase\<close> and \<open>TBinEncoder\<close> of
  \<open>source/Lib/EncoderLib/BinEncoder.{h,cpp}\<close>. The template parameter is the argument \<open>pm\<close>; an
  operation is \<open>None\<close> where a \<open>CHECK\<close> below it throws. The 32-bit registers wrap as \<open>u32\<close> says.
\<close>

section \<open>State\<close>

record 'p BinEncoder =
  e_bitstream :: OutputBitstream
  e_low :: int
  e_range :: int
  e_bufferedByte :: int
  e_numBufferedBytes :: int
  e_bitsLeft :: int
  e_numBinsCtx :: "nat \<Rightarrow> int"
  e_numBinsEP :: int
  e_numBinsTrm :: int
  e_binStoreInUse :: bool
  e_binBuffer :: "nat \<Rightarrow> bool list"
  e_ctx :: "nat \<Rightarrow> 'p"

definition bc_reset :: "'p BinEncoder \<Rightarrow> 'p BinEncoder" where
  "bc_reset e = e\<lparr>e_numBinsCtx := (\<lambda>_. 0), e_numBinsEP := 0, e_numBinsTrm := 0\<rparr>"

definition bc_getAll :: "nat \<Rightarrow> 'p BinEncoder \<Rightarrow> int" where
  "bc_getAll NumberOfContexts e =
     foldl (\<lambda>count k. u32 (count + e_numBinsCtx e k)) (u32 (e_numBinsEP e + e_numBinsTrm e)) [0..<NumberOfContexts]"

definition bc_addCtx :: "nat \<Rightarrow> 'p BinEncoder \<Rightarrow> 'p BinEncoder" where
  "bc_addCtx ctxId e = e\<lparr>e_numBinsCtx := (e_numBinsCtx e)(ctxId := u32 (e_numBinsCtx e ctxId + 1))\<rparr>"

definition bc_addEP :: "int \<Rightarrow> 'p BinEncoder \<Rightarrow> 'p BinEncoder" where
  "bc_addEP num e = e\<lparr>e_numBinsEP := u32 (e_numBinsEP e + num)\<rparr>"

definition bc_addTrm :: "'p BinEncoder \<Rightarrow> 'p BinEncoder" where
  "bc_addTrm e = e\<lparr>e_numBinsTrm := u32 (e_numBinsTrm e + 1)\<rparr>"

text \<open>\<open>BinStore\<close>: the bins of each context, while in use and up to its capacity.\<close>

definition m_maxNumBins :: nat where
  "m_maxNumBins = 100000"

definition bs_store_reset :: "'p BinEncoder \<Rightarrow> 'p BinEncoder" where
  "bs_store_reset e = (if e_binStoreInUse e then e\<lparr>e_binBuffer := (\<lambda>_. [])\<rparr> else e)"

definition addBin :: "int \<Rightarrow> nat \<Rightarrow> 'p BinEncoder \<Rightarrow> 'p BinEncoder" where
  "addBin bin ctxId e =
     (if e_binStoreInUse e \<and> length (e_binBuffer e ctxId) < m_maxNumBins
      then e\<lparr>e_binBuffer := (e_binBuffer e)(ctxId := e_binBuffer e ctxId @ [bin = 1])\<rparr> else e)"

section \<open>Operations\<close>

definition e_restart :: "'p BinEncoder \<Rightarrow> 'p BinEncoder" where
  "e_restart e = e\<lparr>e_low := 0, e_range := 510, e_bufferedByte := 0xff, e_numBufferedBytes := 0, e_bitsLeft := 23\<rparr>"

definition e_start :: "'p BinEncoder \<Rightarrow> 'p BinEncoder" where
  "e_start e = bs_store_reset (bc_reset
     (e\<lparr>e_low := 0, e_range := 510, e_bufferedByte := 0xff, e_numBufferedBytes := 0, e_bitsLeft := 23\<rparr>))"

definition e_resetBits :: "'p BinEncoder \<Rightarrow> 'p BinEncoder" where
  "e_resetBits e = bc_reset (e\<lparr>e_low := 0, e_bufferedByte := 0xff, e_numBufferedBytes := 0, e_bitsLeft := 23\<rparr>)"

text \<open>The loops that flush the outstanding bytes while \<open>m_numBufferedBytes > 1\<close>.\<close>

function flush_bytes :: "int \<Rightarrow> 'p BinEncoder \<Rightarrow> 'p BinEncoder option" where
  "flush_bytes byte e =
     (if e_numBufferedBytes e > 1
      then case o_write byte 8 (e_bitstream e) of
             None \<Rightarrow> None
           | Some ob \<Rightarrow> flush_bytes byte (e\<lparr>e_bitstream := ob, e_numBufferedBytes := e_numBufferedBytes e - 1\<rparr>)
      else Some e)"
  by pat_completeness auto
termination by (relation "measure (\<lambda>(byte, e). nat (e_numBufferedBytes e))") auto

declare flush_bytes.simps [simp del]

definition writeOut :: "'p BinEncoder \<Rightarrow> 'p BinEncoder option" where
  "writeOut e =
     (let leadByte = drop_bit (nat (24 - e_bitsLeft e)) (e_low e);
          e = e\<lparr>e_bitsLeft := e_bitsLeft e + 8\<rparr>;
          e = e\<lparr>e_low := e_low e AND drop_bit (nat (e_bitsLeft e)) 0xffffffff\<rparr>
      in if leadByte = 0xff
         then Some (e\<lparr>e_numBufferedBytes := e_numBufferedBytes e + 1\<rparr>)
         else if e_numBufferedBytes e > 0
         then (let carry = drop_bit 8 leadByte;
                   byte = u32 (e_bufferedByte e + carry);
                   e = e\<lparr>e_bufferedByte := leadByte AND 0xff\<rparr>
               in do {
                    ob \<leftarrow> o_write byte 8 (e_bitstream e);
                    flush_bytes ((0xff + carry) AND 0xff) (e\<lparr>e_bitstream := ob\<rparr>)
                  })
         else Some (e\<lparr>e_numBufferedBytes := 1, e_bufferedByte := leadByte\<rparr>))"

text \<open>\<open>if (m_bitsLeft < 12) writeOut();\<close>\<close>

definition testAndWriteOut :: "'p BinEncoder \<Rightarrow> 'p BinEncoder option" where
  "testAndWriteOut e = (if e_bitsLeft e < 12 then writeOut e else Some e)"

definition e_finish :: "'p BinEncoder \<Rightarrow> 'p BinEncoder option" where
  "e_finish e = do {
     e \<leftarrow> (if drop_bit (nat (32 - e_bitsLeft e)) (e_low e) \<noteq> 0
          then do {
            ob \<leftarrow> o_write (u32 (e_bufferedByte e + 1)) 8 (e_bitstream e);
            e \<leftarrow> flush_bytes 0 (e\<lparr>e_bitstream := ob\<rparr>);
            Some (e\<lparr>e_low := u32 (e_low e - push_bit (nat (32 - e_bitsLeft e)) 1)\<rparr>)
          }
          else do {
            ob \<leftarrow> (if e_numBufferedBytes e > 0 then o_write (e_bufferedByte e) 8 (e_bitstream e)
                  else Some (e_bitstream e));
            flush_bytes 0xff (e\<lparr>e_bitstream := ob\<rparr>)
          });
     ob \<leftarrow> o_write (drop_bit 8 (e_low e)) (nat (24 - e_bitsLeft e)) (e_bitstream e);
     Some (e\<lparr>e_bitstream := ob\<rparr>)
   }"

definition encodeBinEP :: "int \<Rightarrow> 'p BinEncoder \<Rightarrow> 'p BinEncoder option" where
  "encodeBinEP bin e =
     (let e = bc_addEP 1 e;
          low = u32 (push_bit 1 (e_low e));
          low = (if bin \<noteq> 0 then u32 (low + e_range e) else low)
      in testAndWriteOut (e\<lparr>e_low := low, e_bitsLeft := e_bitsLeft e - 1\<rparr>))"

function encodeAlignedBinsEP :: "int \<Rightarrow> nat \<Rightarrow> 'p BinEncoder \<Rightarrow> 'p BinEncoder option" where
  "encodeAlignedBinsEP bins remBins e =
     (if remBins > 0
      then let binsToCode = min remBins 8;
               binMask = push_bit binsToCode 1 - 1;
               newBins = drop_bit (remBins - binsToCode) bins AND binMask
           in (case testAndWriteOut (e\<lparr>e_low := u32 (u32 (push_bit binsToCode (e_low e)) + push_bit 8 newBins),
                                       e_bitsLeft := e_bitsLeft e - int binsToCode\<rparr>) of
                 None \<Rightarrow> None
               | Some e \<Rightarrow> encodeAlignedBinsEP bins (remBins - binsToCode) e)
      else Some e)"
  by pat_completeness auto
termination by (relation "measure (\<lambda>(bins, remBins, e). remBins)") auto

declare encodeAlignedBinsEP.simps [simp del]

text \<open>\<open>m_low = (m_low << n) + m_range * bins; m_bitsLeft -= n\<close>, followed by the output test.\<close>

definition encode_chunk :: "int \<Rightarrow> nat \<Rightarrow> 'p BinEncoder \<Rightarrow> 'p BinEncoder option" where
  "encode_chunk bins n e =
     testAndWriteOut (e\<lparr>e_low := u32 (u32 (push_bit n (e_low e)) + u32 (e_range e * bins)),
                        e_bitsLeft := e_bitsLeft e - int n\<rparr>)"

function encode_chunks :: "int \<Rightarrow> nat \<Rightarrow> 'p BinEncoder \<Rightarrow> 'p BinEncoder option" where
  "encode_chunks bins numBins e =
     (if numBins > 8
      then let numBins' = numBins - 8;
               pattern = drop_bit numBins' bins
           in (case encode_chunk pattern 8 e of
                 None \<Rightarrow> None
               | Some e \<Rightarrow> encode_chunks (u32 (bins - u32 (push_bit numBins' pattern))) numBins' e)
      else encode_chunk bins numBins e)"
  by pat_completeness auto
termination by (relation "measure (\<lambda>(bins, numBins, e). numBins)") auto

declare encode_chunks.simps [simp del]

definition encodeBinsEP :: "int \<Rightarrow> nat \<Rightarrow> 'p BinEncoder \<Rightarrow> 'p BinEncoder option" where
  "encodeBinsEP bins numBins e =
     (let e = bc_addEP (int numBins) e
      in if e_range e = 256 then encodeAlignedBinsEP bins numBins e else encode_chunks bins numBins e)"

text \<open>
  \<open>while (codeValue > ((2 << prefixLength) - 2)) prefixLength++\<close>: with 32-bit values the bound
  \<open>2 << 31\<close> would wrap to 0; the recursion stops there, which valid arguments never reach.
\<close>

function escape_prefix :: "int \<Rightarrow> nat \<Rightarrow> nat" where
  "escape_prefix codeValue prefixLength =
     (if prefixLength < 31 \<and> codeValue > push_bit prefixLength 2 - 2
      then escape_prefix codeValue (prefixLength + 1) else prefixLength)"
  by pat_completeness auto
termination by (relation "measure (\<lambda>(codeValue, prefixLength). 31 - prefixLength)") auto

declare escape_prefix.simps [simp del]

definition encodeRemAbsEP :: "int \<Rightarrow> nat \<Rightarrow> nat \<Rightarrow> nat \<Rightarrow> 'p BinEncoder \<Rightarrow> 'p BinEncoder option" where
  "encodeRemAbsEP bins goRicePar cutoff maxLog2TrDynamicRange e =
     (let threshold = u32 (push_bit goRicePar (int cutoff))
      in if bins < threshold
         then let bitMask = push_bit goRicePar 1 - 1;
                  length = nat (drop_bit goRicePar bins) + 1
              in do {
                   e \<leftarrow> encodeBinsEP (push_bit length 1 - 2) length e;
                   encodeBinsEP (bins AND bitMask) goRicePar e
                 }
         else let maxPrefixLength = 32 - cutoff - maxLog2TrDynamicRange;
                  codeValue = drop_bit goRicePar bins - int cutoff;
                  (prefixLength, suffixLength) =
                    (if codeValue \<ge> push_bit maxPrefixLength 1 - 1
                     then (maxPrefixLength, maxLog2TrDynamicRange)
                     else let prefixLength = escape_prefix codeValue 0
                          in (prefixLength, prefixLength + goRicePar + 1));
                  totalPrefixLength = prefixLength + cutoff;
                  bitMask = push_bit goRicePar 1 - 1;
                  prefix = push_bit totalPrefixLength 1 - 1;
                  suffix = u32 (push_bit goRicePar (codeValue - (push_bit prefixLength 1 - 1))) OR (bins AND bitMask)
              in do {
                   e \<leftarrow> encodeBinsEP prefix totalPrefixLength e;
                   encodeBinsEP suffix suffixLength e
                 })"

definition encodeBinTrm :: "int \<Rightarrow> 'p BinEncoder \<Rightarrow> 'p BinEncoder option" where
  "encodeBinTrm bin e =
     (let e = bc_addTrm e;
          rng = u32 (e_range e - 2)
      in if bin \<noteq> 0
         then testAndWriteOut (e\<lparr>e_range := push_bit 7 2,
                                 e_low := u32 (push_bit 7 (u32 (e_low e + rng))),
                                 e_bitsLeft := e_bitsLeft e - 7\<rparr>)
         else if rng \<ge> 256 then Some (e\<lparr>e_range := rng\<rparr>)
         else testAndWriteOut (e\<lparr>e_low := u32 (push_bit 1 (e_low e)), e_range := u32 (push_bit 1 rng),
                                 e_bitsLeft := e_bitsLeft e - 1\<rparr>))"

definition e_align :: "'p BinEncoder \<Rightarrow> 'p BinEncoder" where
  "e_align e = e\<lparr>e_range := 256\<rparr>"

definition getNumWrittenBits :: "'p BinEncoder \<Rightarrow> int" where
  "getNumWrittenBits e =
     u32 (int (o_getNumberOfWrittenBits (e_bitstream e)) + 8 * e_numBufferedBytes e + 23 - e_bitsLeft e)"

definition encodeBin :: "'p BinProbModel \<Rightarrow> int \<Rightarrow> nat \<Rightarrow> 'p BinEncoder \<Rightarrow> 'p BinEncoder option" where
  "encodeBin pm bin ctxId e =
     (let e = bc_addCtx ctxId e;
          probModel = e_ctx e ctxId;
          lpsRange = pm_getLPS pm probModel (e_range e);
          rng = u32 (e_range e - lpsRange)
      in do {
           e \<leftarrow> (if bin \<noteq> pm_mps pm probModel
                then let numBits = pm_getRenormBitsLPS pm lpsRange
                     in testAndWriteOut (e\<lparr>e_bitsLeft := e_bitsLeft e - int numBits,
                                           e_low := u32 (push_bit numBits (u32 (e_low e + rng))),
                                           e_range := u32 (push_bit numBits lpsRange)\<rparr>)
                else if rng < 256
                then let numBits = pm_getRenormBitsRange pm rng
                     in testAndWriteOut (e\<lparr>e_bitsLeft := e_bitsLeft e - int numBits,
                                           e_low := u32 (push_bit numBits (e_low e)),
                                           e_range := u32 (push_bit numBits rng)\<rparr>)
                else Some (e\<lparr>e_range := rng\<rparr>));
           Some (addBin bin ctxId (e\<lparr>e_ctx := (e_ctx e)(ctxId := pm_update pm probModel bin)\<rparr>))
         })"

section \<open>The code interval\<close>

text \<open>
  Abstractly the encoder narrows an interval \<open>[LOW, LOW + range)\<close> of code values at a precision of
  \<open>9 + T\<close> bits, \<open>LOW\<close> being a number of any size. Concretely its upper bits are spread over the bytes
  already written (\<open>w\<close>), the byte held back, the 0xff bytes outstanding behind it, and the register
  \<open>m_low\<close>, whose \<open>k\<close> bits may overflow into a carry.
\<close>

definition outstanding :: "bool list \<Rightarrow> int \<Rightarrow> nat \<Rightarrow> int" where
  "outstanding w b n = (if n = 0 then 0 else (val_of w * 256 + b + 1) * 2 ^ (8 * (n - 1)) - 1)"

definition enc_rel :: "bool list \<Rightarrow> int \<Rightarrow> nat \<Rightarrow> 'p BinEncoder \<Rightarrow> bool" where
  "enc_rel base LOW T e \<longleftrightarrow> ob_inv (e_bitstream e) \<and>
     (\<exists>w n k. ob_bits (e_bitstream e) = base @ w \<and> e_numBufferedBytes e = int n \<and> e_bitsLeft e = 32 - int k \<and>
        9 \<le> k \<and> k \<le> 28 \<and> length w + 8 * n + k = 9 + T \<and>
        0 \<le> e_low e \<and> e_low e + e_range e \<le> 17 * 2 ^ (k - 4) \<and> 0 < e_range e \<and> e_range e \<le> 512 \<and>
        0 \<le> e_bufferedByte e \<and> e_bufferedByte e \<le> 255 \<and>
        (n = 0 \<longrightarrow> w = [] \<and> e_bufferedByte e = 255) \<and> (e_bufferedByte e = 255 \<longrightarrow> w = []) \<and>
        LOW = outstanding w (e_bufferedByte e) n * 2 ^ k + e_low e \<and> LOW + e_range e \<le> 2 ^ (9 + T))"

definition enc_ok :: "bool list \<Rightarrow> int \<Rightarrow> nat \<Rightarrow> 'p BinEncoder \<Rightarrow> bool" where
  "enc_ok base LOW T e \<longleftrightarrow> enc_rel base LOW T e \<and> 12 \<le> e_bitsLeft e"

text \<open>What \<open>writeOut\<close> leaves alone.\<close>

definition same_engine :: "'p BinEncoder \<Rightarrow> 'p BinEncoder \<Rightarrow> bool" where
  "same_engine e' e \<longleftrightarrow> e_range e' = e_range e \<and> e_ctx e' = e_ctx e \<and> e_numBinsCtx e' = e_numBinsCtx e \<and>
     e_numBinsEP e' = e_numBinsEP e \<and> e_numBinsTrm e' = e_numBinsTrm e \<and>
     e_binStoreInUse e' = e_binStoreInUse e \<and> e_binBuffer e' = e_binBuffer e"

lemma flush_bytes_Some:
  "ob_inv (e_bitstream e) \<Longrightarrow> 0 \<le> byte \<Longrightarrow> byte \<le> 255 \<Longrightarrow> e_numBufferedBytes e = int n \<Longrightarrow>
   \<exists>ob. flush_bytes byte e = Some (e\<lparr>e_bitstream := ob, e_numBufferedBytes := min (int n) 1\<rparr>) \<and> ob_inv ob \<and>
     ob_bits ob = ob_bits (e_bitstream e) @ concat (replicate (n - 1) (bits_of 8 byte))"
proof (induction n arbitrary: e)
  case 0
  then have "e = e\<lparr>e_bitstream := e_bitstream e, e_numBufferedBytes := 0\<rparr>" by (cases e) simp
  with 0 show ?case by (subst flush_bytes.simps) (auto intro!: exI [of _ "e_bitstream e"])
next
  case (Suc n)
  show ?case
  proof (cases n)
    case 0
    then have "e = e\<lparr>e_bitstream := e_bitstream e, e_numBufferedBytes := 1\<rparr>" using Suc.prems by (cases e) simp
    with 0 Suc.prems show ?thesis by (subst flush_bytes.simps) (auto intro!: exI [of _ "e_bitstream e"])
  next
    case (Suc m)
    obtain ob where ob: "o_write byte 8 (e_bitstream e) = Some ob" "ob_inv ob"
      "ob_bits ob = ob_bits (e_bitstream e) @ bits_of 8 byte"
      using o_write_Some [OF Suc.prems(1), of 8 byte] Suc.prems by auto
    let ?e = "e\<lparr>e_bitstream := ob, e_numBufferedBytes := int n\<rparr>"
    have "flush_bytes byte e = flush_bytes byte ?e"
      using ob(1) Suc.prems(4) Suc by (subst flush_bytes.simps) simp
    moreover obtain ob' where "flush_bytes byte ?e = Some (?e\<lparr>e_bitstream := ob', e_numBufferedBytes := min (int n) 1\<rparr>)"
      "ob_inv ob'" "ob_bits ob' = ob_bits ob @ concat (replicate (n - 1) (bits_of 8 byte))"
      using Suc.IH [of ?e] ob(2) Suc.prems(2,3) by auto
    ultimately show ?thesis using ob(3) Suc
      by (intro exI [of _ ob']) (simp add: min_def)
  qed
qed

lemma val_of_repeated:
  "0 \<le> byte \<Longrightarrow> byte < 256 \<Longrightarrow>
   val_of (concat (replicate m (bits_of 8 byte))) * 255 = byte * (2 ^ (8 * m) - 1)"
proof (induction m)
  case (Suc m)
  have l: "length (concat (replicate m (bits_of 8 byte))) = 8 * m" by (induction m) simp_all
  have "val_of (concat (replicate (Suc m) (bits_of 8 byte))) =
      byte * 2 ^ (8 * m) + val_of (concat (replicate m (bits_of 8 byte)))"
    using Suc.prems l by (simp add: val_of_append)
  then have "val_of (concat (replicate (Suc m) (bits_of 8 byte))) * 255 =
      byte * 2 ^ (8 * m) * 255 + byte * (2 ^ (8 * m) - 1)" using Suc by (simp add: distrib_right)
  also have "\<dots> = byte * (2 ^ (8 * Suc m) - 1)" by (simp add: power_add algebra_simps)
  finally show ?case .
qed simp

lemma length_repeated: "length (concat (replicate m (bits_of 8 byte))) = 8 * m"
  by (induction m) simp_all

text \<open>The flushed bytes: with carry \<open>c\<close>, \<open>n - 1\<close> bytes \<open>(0xff + c) mod 256\<close>.\<close>

lemma val_of_flushed:
  "c = 0 \<or> c = 1 \<Longrightarrow> val_of (concat (replicate m (bits_of 8 ((255 + c) AND 255)))) = (1 - c) * (2 ^ (8 * m) - 1)"
  using val_of_repeated [of 255 m] val_of_repeated [of 0 m] by auto

text \<open>
  Moving the lead byte out of the register keeps the value of the interval: the carry into the bytes
  held back never runs past the one that can absorb it.
\<close>

lemma outstanding_step:
  "n > 0 \<Longrightarrow> outstanding w b (Suc n) = outstanding w b n * 256 + 255"
  by (cases n) (simp_all add: outstanding_def power_add algebra_simps)

lemma writeOut_Some:
  assumes rel: "enc_rel base LOW T e" and bl: "e_bitsLeft e < 12"
  shows "\<exists>e'. writeOut e = Some e' \<and> enc_ok base LOW T e' \<and> same_engine e' e"
proof -
  obtain w n k where ob: "ob_inv (e_bitstream e)" "ob_bits (e_bitstream e) = base @ w"
    and nk: "e_numBufferedBytes e = int n" "e_bitsLeft e = 32 - int k" "k \<le> 28" "length w + 8 * n + k = 9 + T"
    and low: "0 \<le> e_low e" "e_low e + e_range e \<le> 17 * 2 ^ (k - 4)" "0 < e_range e" "e_range e \<le> 512"
    and b: "0 \<le> e_bufferedByte e" "e_bufferedByte e \<le> 255"
    and first: "n = 0 \<longrightarrow> w = [] \<and> e_bufferedByte e = 255" "e_bufferedByte e = 255 \<longrightarrow> w = []"
    and LOW: "LOW = outstanding w (e_bufferedByte e) n * 2 ^ k + e_low e" "LOW + e_range e \<le> 2 ^ (9 + T)"
    using rel unfolding enc_rel_def by blast
  define buf where "buf = e_bufferedByte e"
  have k: "20 < k" using bl nk(2) by simp
  define lead where "lead = e_low e div 2 ^ (k - 8)"
  define low' where "low' = e_low e mod 2 ^ (k - 8)"
  have split: "e_low e = lead * 2 ^ (k - 8) + low'" by (simp only: lead_def low'_def div_mult_mod_eq)
  have low'_r: "0 \<le> low'" "low' < 2 ^ (k - 8)" by (simp_all add: low'_def)
  have p4: "(2::int) ^ (k - 4) = 16 * 2 ^ (k - 8)" and p0: "(2::int) ^ k = 256 * 2 ^ (k - 8)"
    using k power_add [of "2::int" 4 "k - 8"] power_add [of "2::int" 8 "k - 8"] by simp_all
  have lead_r: "0 \<le> lead" "lead < 272"
  proof -
    show "0 \<le> lead" using low(1) by (simp add: lead_def pos_imp_zdiv_nonneg_iff)
    have "e_low e < 272 * 2 ^ (k - 8)" using low p4 by simp
    then have "lead * 2 ^ (k - 8) < 272 * 2 ^ (k - 8)" using split low'_r by linarith
    then show "lead < 272" by simp
  qed
  define c where "c = lead div 256"
  have c: "c = 0 \<or> c = 1" "drop_bit 8 lead = c" "lead AND 0xff = lead - 256 * c"
    using lead_r and_mask_eq_mod [of lead 8] by (auto simp: c_def drop_bit_eq_div minus_mult_div_eq_mod)
  have carry: "n > 0 \<and> buf \<le> 254" if "c = 1"
  proof (rule ccontr)
    assume "\<not> (n > 0 \<and> buf \<le> 254)"
    then have w: "w = []" "n = 0 \<or> buf = 255" using first b by (auto simp: buf_def)
    have "256 \<le> lead" using that lead_r by (auto simp: c_def)
    then have "256 * 2 ^ (k - 8) \<le> lead * 2 ^ (k - 8)" by (intro mult_right_mono) simp_all
    then have big: "2 ^ k \<le> e_low e" using split low'_r p0 by linarith
    have "9 + T = 8 * n + k" using nk(4) w by simp
    moreover have "outstanding w buf n = 2 ^ (8 * n) - 1"
      using w by (cases n) (auto simp: outstanding_def power_add)
    ultimately have "LOW = 2 ^ (9 + T) - 2 ^ k + e_low e"
      unfolding LOW(1) buf_def [symmetric] by (simp add: power_add left_diff_distrib)
    with big LOW(2) low(3) show False by linarith
  qed
  have rng: "e_range e \<le> 2 ^ (k - 12)"
  proof -
    have "(2::int) ^ 9 \<le> 2 ^ (k - 12)" using k by (intro power_increasing) simp_all
    with low(4) show ?thesis by simp
  qed
  have new_low: "low' + e_range e \<le> 17 * 2 ^ (k - 8 - 4)"
    using rng low'_r k power_add [of "2::int" 4 "k - 12"] by simp
  have drop: "drop_bit (nat (e_bitsLeft e + 8)) 0xffffffff = (mask (k - 8) :: int)"
  proof -
    have n: "nat (e_bitsLeft e + 8) = 40 - k" using nk k by simp
    have m: "(0xffffffff :: int) = mask 32" by (simp add: mask_eq_exp_minus_1)
    have "32 - (40 - k) = k - 8" using k nk(3) by simp
    then show ?thesis unfolding n m drop_bit_mask_eq by simp
  qed
  have regs: "drop_bit (nat (24 - e_bitsLeft e)) (e_low e) = lead" "e_low e AND mask (k - 8) = low'"
  proof -
    have "nat (24 - e_bitsLeft e) = k - 8" using nk k by simp
    then show "drop_bit (nat (24 - e_bitsLeft e)) (e_low e) = lead" by (simp add: lead_def drop_bit_eq_div)
    show "e_low e AND mask (k - 8) = low'" by (simp add: low'_def take_bit_eq_mod flip: take_bit_eq_mask)
  qed
  have bits: "e_bitsLeft e + 8 = 32 - int (k - 8)" using nk k by simp
  have goal: "\<exists>e'. Some ex = Some e' \<and> enc_ok base LOW T e' \<and> same_engine e' e"
    if "ex = e\<lparr>e_bitsLeft := e_bitsLeft e + 8, e_low := low', e_bitstream := ob, e_bufferedByte := buf',
          e_numBufferedBytes := int n'\<rparr>"
      "ob_inv ob" "ob_bits ob = base @ w'" "length w' + 8 * n' = length w + 8 * n + 8" "0 \<le> buf'" "buf' \<le> 255"
      "n' = 0 \<longrightarrow> w' = [] \<and> buf' = 255" "buf' = 255 \<longrightarrow> w' = []"
      "outstanding w' buf' n' = outstanding w buf n * 256 + lead" for ex ob buf' n' w'
  proof -
    have "LOW = outstanding w' buf' n' * 2 ^ (k - 8) + low'"
      using LOW(1) split by (simp add: that(9) buf_def p0 algebra_simps)
    then have "enc_ok base LOW T ex"
      unfolding enc_ok_def enc_rel_def that(1)
      using that(2-8) k nk(3,4) bits new_low low'_r low(3,4) LOW(2)
      by (intro conjI exI [of _ w'] exI [of _ n'] exI [of _ "k - 8"]) simp_all
    then show ?thesis by (simp add: same_engine_def that(1))
  qed
  show ?thesis
  proof (cases "lead = 255")
    case True
    have "outstanding w buf (n + 1) = outstanding w buf n * 256 + lead"
      using outstanding_step [of n w buf] first True by (cases "n = 0") (auto simp: outstanding_def buf_def)
    moreover have "writeOut e = Some (e\<lparr>e_bitsLeft := e_bitsLeft e + 8, e_low := low', e_bitstream := e_bitstream e,
        e_bufferedByte := buf, e_numBufferedBytes := int (n + 1)\<rparr>)"
      using True by (simp add: writeOut_def Let_def drop regs nk(1) buf_def)
    ultimately show ?thesis
      using goal [OF refl ob, of "n + 1" buf] b first by (simp add: buf_def)
  next
    case False
    have lead_c: "0 \<le> lead - 256 * c" "lead - 256 * c < 255"
      using lead_r False c(1) by (auto simp: c_def)
    show ?thesis
    proof (cases "n = 0")
      case True
      have "c = 0" using carry c(1) True by auto
      then have "outstanding w lead 1 = outstanding w buf n * 256 + lead"
        using True first by (simp add: outstanding_def)
      moreover have "writeOut e = Some (e\<lparr>e_bitsLeft := e_bitsLeft e + 8, e_low := low', e_bitstream := e_bitstream e,
          e_bufferedByte := lead, e_numBufferedBytes := int 1\<rparr>)"
        using True False by (simp add: writeOut_def Let_def drop regs nk(1))
      ultimately show ?thesis
        using goal [OF refl ob, of 1 lead] lead_c first True \<open>c = 0\<close> by simp
    next
      case n0: False
      have bc: "0 \<le> buf + c" "buf + c < 2 ^ 8" using carry c(1) b by (auto simp: buf_def)
      obtain ob1 where ob1: "o_write (buf + c) 8 (e_bitstream e) = Some ob1" "ob_inv ob1"
        "ob_bits ob1 = base @ w @ bits_of 8 (buf + c)"
        using o_write_Some [OF ob(1), of 8 "buf + c"] bc ob(2) by auto
      let ?flushed = "concat (replicate (n - 1) (bits_of 8 ((255 + c) AND 255)))"
      let ?e = "e\<lparr>e_bitsLeft := e_bitsLeft e + 8, e_low := low', e_bufferedByte := lead - 256 * c, e_bitstream := ob1\<rparr>"
      have byte: "0 \<le> (255 + c) AND 255" "(255 + c) AND 255 \<le> 255" using c(1) by auto
      obtain ob2 where ob2: "flush_bytes ((255 + c) AND 255) ?e =
          Some (?e\<lparr>e_bitstream := ob2, e_numBufferedBytes := min (int n) 1\<rparr>)" "ob_inv ob2"
        "ob_bits ob2 = base @ w @ bits_of 8 (buf + c) @ ?flushed"
        using flush_bytes_Some [of ?e "(255 + c) AND 255" n] ob1 byte nk(1) by auto
      have "writeOut e = Some (?e\<lparr>e_bitstream := ob2, e_numBufferedBytes := min (int n) 1\<rparr>)"
        using ob1(1) ob2(1) False n0 bc
        by (simp add: writeOut_def Let_def drop regs nk(1) buf_def [symmetric] c(2,3))
      also have "?e\<lparr>e_bitstream := ob2, e_numBufferedBytes := min (int n) 1\<rparr> =
          e\<lparr>e_bitsLeft := e_bitsLeft e + 8, e_low := low', e_bitstream := ob2,
            e_bufferedByte := lead - 256 * c, e_numBufferedBytes := int 1\<rparr>" using n0 by (simp add: min_def)
      finally have wo: "writeOut e = Some (e\<lparr>e_bitsLeft := e_bitsLeft e + 8, e_low := low', e_bitstream := ob2,
            e_bufferedByte := lead - 256 * c, e_numBufferedBytes := int 1\<rparr>)" .
      let ?w = "w @ bits_of 8 (buf + c) @ ?flushed"
      have len: "length ?w = length w + 8 * n" using n0 by (simp add: length_repeated algebra_simps)
      have "val_of ?w = outstanding w buf n + c"
      proof -
        obtain m where m: "n = Suc m" using n0 by (cases n) auto
        have "val_of ?w = (val_of w * 256 + (buf + c)) * 2 ^ (8 * m) + (1 - c) * (2 ^ (8 * m) - 1)"
          using bc c(1) val_of_flushed [of c m]
          by (simp add: val_of_append length_repeated m power_add algebra_simps)
        then show ?thesis using c(1) by (auto simp: outstanding_def m algebra_simps)
      qed
      then have out: "outstanding ?w (lead - 256 * c) 1 = outstanding w buf n * 256 + lead"
        by (simp add: outstanding_def)
      show ?thesis
        unfolding wo by (rule goal [OF refl ob2(2,3) _ _ _ _ _ out]) (use len lead_c in simp_all)
    qed
  qed
qed

lemma enc_rel_cong:
  "e_bitstream e' = e_bitstream e \<Longrightarrow> e_numBufferedBytes e' = e_numBufferedBytes e \<Longrightarrow>
   e_bufferedByte e' = e_bufferedByte e \<Longrightarrow> e_bitsLeft e' = e_bitsLeft e \<Longrightarrow> e_low e' = e_low e \<Longrightarrow>
   e_range e' = e_range e \<Longrightarrow> enc_rel base LOW T e' = enc_rel base LOW T e"
  by (simp add: enc_rel_def)

text \<open>
  Every operation scales the interval by \<open>2 ^ j\<close>, moves its lower end up by \<open>a\<close> and sets a range
  that still fits into the old interval; then it tests whether to output a byte.
\<close>

lemma enc_step:
  assumes rel: "enc_ok base LOW T e" and j: "j \<le> 8" and a: "0 \<le> a" "a + e_range e' \<le> e_range e * 2 ^ j"
    and r: "0 < e_range e'" "e_range e' \<le> 512"
    and e': "e_bitstream e' = e_bitstream e" "e_numBufferedBytes e' = e_numBufferedBytes e"
      "e_bufferedByte e' = e_bufferedByte e" "e_bitsLeft e' = e_bitsLeft e - int j"
      "e_low e' = e_low e * 2 ^ j + a"
  shows "\<exists>e''. testAndWriteOut e' = Some e'' \<and> enc_ok base (LOW * 2 ^ j + a) (T + j) e'' \<and> same_engine e'' e'"
proof -
  obtain w n k where ob: "ob_inv (e_bitstream e)" "ob_bits (e_bitstream e) = base @ w"
    and nk: "e_numBufferedBytes e = int n" "e_bitsLeft e = 32 - int k" "9 \<le> k" "k \<le> 20" "length w + 8 * n + k = 9 + T"
    and low: "0 \<le> e_low e" "e_low e + e_range e \<le> 17 * 2 ^ (k - 4)" "0 < e_range e" "e_range e \<le> 512"
    and b: "0 \<le> e_bufferedByte e" "e_bufferedByte e \<le> 255"
      "n = 0 \<longrightarrow> w = [] \<and> e_bufferedByte e = 255" "e_bufferedByte e = 255 \<longrightarrow> w = []"
    and LOW: "LOW = outstanding w (e_bufferedByte e) n * 2 ^ k + e_low e" "LOW + e_range e \<le> 2 ^ (9 + T)"
    using rel unfolding enc_ok_def enc_rel_def by fastforce
  have "e_low e' + e_range e' \<le> e_low e * 2 ^ j + e_range e * 2 ^ j" using a(2) by (simp add: e')
  also have "\<dots> = (e_low e + e_range e) * 2 ^ j" by (simp add: distrib_right)
  also have "\<dots> \<le> 17 * 2 ^ (k - 4) * 2 ^ j" using low by (intro mult_right_mono) simp_all
  also have "\<dots> = 17 * 2 ^ (k + j - 4)" using nk(3) by (simp add: power_add [symmetric])
  finally have low': "e_low e' + e_range e' \<le> 17 * 2 ^ (k + j - 4)" .
  have "LOW * 2 ^ j + a + e_range e' \<le> LOW * 2 ^ j + e_range e * 2 ^ j" using a(2) by simp
  also have "\<dots> = (LOW + e_range e) * 2 ^ j" by (simp add: distrib_right)
  also have "\<dots> \<le> 2 ^ (9 + T) * 2 ^ j" using LOW(2) by (intro mult_right_mono) simp_all
  finally have LOW': "LOW * 2 ^ j + a + e_range e' \<le> 2 ^ (9 + (T + j))" by (simp add: power_add)
  have "LOW * 2 ^ j + a = outstanding w (e_bufferedByte e) n * 2 ^ (k + j) + (e_low e * 2 ^ j + a)"
    by (simp add: LOW(1) power_add distrib_right)
  then have "enc_rel base (LOW * 2 ^ j + a) (T + j) e'"
    unfolding enc_rel_def e' using ob nk low a(1) r j low' LOW' b
    by (intro conjI exI [of _ w] exI [of _ n] exI [of _ "k + j"]) (simp_all add: e')
  then show ?thesis
    using writeOut_Some [of base "LOW * 2 ^ j + a" "T + j" e'] unfolding testAndWriteOut_def enc_ok_def
    by (cases "e_bitsLeft e' < 12") (auto simp: same_engine_def)
qed

section \<open>Each operation narrows the interval\<close>

text \<open>The registers stay far below 32 bits, so nothing wraps.\<close>

lemma enc_ok_bounds:
  assumes "enc_ok base LOW T e"
  shows "0 \<le> e_low e" "e_low e + e_range e \<le> 17 * 2 ^ 16" "0 < e_range e" "e_range e \<le> 512"
proof -
  obtain k where k: "k \<le> 20" "e_low e + e_range e \<le> 17 * 2 ^ (k - 4)" "0 \<le> e_low e" "0 < e_range e" "e_range e \<le> 512"
    using assms unfolding enc_ok_def enc_rel_def by fastforce
  have "(2::int) ^ (k - 4) \<le> 2 ^ 16" using k(1) by (intro power_increasing) simp_all
  with k show "0 \<le> e_low e" "e_low e + e_range e \<le> 17 * 2 ^ 16" "0 < e_range e" "e_range e \<le> 512" by simp_all
qed

lemma u32_shift:
  assumes "0 \<le> x" "x \<le> 17 * 2 ^ 16" "j \<le> 8"
  shows "u32 (push_bit j x) = x * 2 ^ j" "x * 2 ^ j \<le> 17 * 2 ^ 24"
proof -
  have "x * 2 ^ j \<le> 17 * 2 ^ 16 * 2 ^ 8" using assms by (intro mult_mono power_increasing) simp_all
  then show "x * 2 ^ j \<le> 17 * 2 ^ 24" by simp
  then show "u32 (push_bit j x) = x * 2 ^ j" using assms by (simp add: push_bit_eq_mult)
qed

lemma enc_ok_simps [simp]:
  "enc_ok base LOW T (bc_addEP n e) = enc_ok base LOW T e"
  "enc_ok base LOW T (bc_addTrm e) = enc_ok base LOW T e"
  "enc_ok base LOW T (bc_addCtx i e) = enc_ok base LOW T e"
  "enc_ok base LOW T (addBin b i e) = enc_ok base LOW T e"
  "enc_ok base LOW T (e\<lparr>e_ctx := c\<rparr>) = enc_ok base LOW T e"
  by (simp_all add: enc_ok_def enc_rel_def bc_addEP_def bc_addTrm_def bc_addCtx_def addBin_def)

lemma counter_simps [simp]:
  "e_range (bc_addEP n e) = e_range e" "e_ctx (bc_addEP n e) = e_ctx e"
  "e_range (bc_addTrm e) = e_range e" "e_ctx (bc_addTrm e) = e_ctx e"
  "e_range (bc_addCtx i e) = e_range e" "e_ctx (bc_addCtx i e) = e_ctx e"
  "e_range (addBin b i e) = e_range e" "e_ctx (addBin b i e) = e_ctx e"
  by (simp_all add: bc_addEP_def bc_addTrm_def bc_addCtx_def addBin_def)

lemma encode_chunk_Some:
  assumes ok: "enc_ok base LOW T e" and n: "n \<le> 8" and bins: "0 \<le> bins" "bins < 2 ^ n"
  shows "\<exists>e'. encode_chunk bins n e = Some e' \<and> enc_ok base (LOW * 2 ^ n + e_range e * bins) (T + n) e' \<and> same_engine e' e"
proof -
  note b = enc_ok_bounds [OF ok]
  note sh = u32_shift [OF b(1) _ n]
  have "e_range e * (bins + 1) \<le> e_range e * 2 ^ n" using bins b(3) by (intro mult_left_mono) simp_all
  then have fit: "e_range e * bins + e_range e \<le> e_range e * 2 ^ n" by (simp add: distrib_left)
  have "(2::int) ^ n \<le> 2 ^ 8" using n by (intro power_increasing) simp_all
  then have "e_range e * 2 ^ n \<le> 512 * 2 ^ 8" using b(3,4) by (intro mult_mono) simp_all
  then have rb: "0 \<le> e_range e * bins" "e_range e * bins \<le> 512 * 2 ^ 8" using fit b(3) bins by simp_all
  have low: "u32 (u32 (push_bit n (e_low e)) + u32 (e_range e * bins)) = e_low e * 2 ^ n + e_range e * bins"
    using sh b rb by simp
  let ?e = "e\<lparr>e_low := e_low e * 2 ^ n + e_range e * bins, e_bitsLeft := e_bitsLeft e - int n\<rparr>"
  have "encode_chunk bins n e = testAndWriteOut ?e" by (simp add: encode_chunk_def low)
  moreover have "same_engine ?e e" by (simp add: same_engine_def)
  ultimately show ?thesis
    using enc_step [OF ok n rb(1), of ?e] fit b(3,4) by (auto simp: same_engine_def)
qed

lemma chunk_split:
  assumes "0 \<le> bins" "bins < 2 ^ n" "m \<le> n" "n \<le> 32"
  shows "0 \<le> drop_bit m bins" "drop_bit m bins < 2 ^ (n - m)" "u32 (bins - u32 (push_bit m (drop_bit m bins))) = bins mod 2 ^ m"
    "bins = drop_bit m bins * 2 ^ m + bins mod 2 ^ m"
proof -
  have p: "(2::int) ^ n \<le> 2 ^ 32" using assms(4) by (intro power_increasing) simp_all
  have q: "bins = bins div 2 ^ m * 2 ^ m + bins mod 2 ^ m" by (simp only: div_mult_mod_eq)
  then show "bins = drop_bit m bins * 2 ^ m + bins mod 2 ^ m" by (simp only: drop_bit_eq_div)
  show d: "0 \<le> drop_bit m bins" using assms(1) by simp
  show "drop_bit m bins < 2 ^ (n - m)" using div_less_pow [of bins n m] assms by (simp add: drop_bit_eq_div)
  have m: "0 \<le> bins mod 2 ^ m" by simp
  have "0 \<le> bins div 2 ^ m * 2 ^ m" using d by (simp add: drop_bit_eq_div)
  moreover have "bins div 2 ^ m * 2 ^ m \<le> bins" using q m by linarith
  ultimately have "u32 (push_bit m (drop_bit m bins)) = bins div 2 ^ m * 2 ^ m"
    using assms(2) p by (simp add: push_bit_eq_mult drop_bit_eq_div)
  moreover have "bins mod 2 ^ m \<le> bins" using q \<open>0 \<le> bins div 2 ^ m * 2 ^ m\<close> by linarith
  ultimately show "u32 (bins - u32 (push_bit m (drop_bit m bins))) = bins mod 2 ^ m"
    using m assms(2) p by (simp add: minus_div_mult_eq_mod)
qed

lemma encode_chunks_Some:
  "enc_ok base LOW T e \<Longrightarrow> n \<le> 32 \<Longrightarrow> 0 \<le> bins \<Longrightarrow> bins < 2 ^ n \<Longrightarrow>
   \<exists>e'. encode_chunks bins n e = Some e' \<and> enc_ok base (LOW * 2 ^ n + e_range e * bins) (T + n) e' \<and> same_engine e' e"
proof (induction n arbitrary: LOW T e bins rule: less_induct)
  case (less n)
  show ?case
  proof (cases "n > 8")
    case False
    then show ?thesis using encode_chunk_Some [OF less.prems(1), of n bins] less.prems
      by (subst encode_chunks.simps) simp
  next
    case True
    let ?m = "n - 8"
    note sp = chunk_split [OF less.prems(3,4), of ?m]
    obtain e1 where e1: "encode_chunk (drop_bit ?m bins) 8 e = Some e1"
      "enc_ok base (LOW * 2 ^ 8 + e_range e * drop_bit ?m bins) (T + 8) e1" "same_engine e1 e"
      using encode_chunk_Some [OF less.prems(1), of 8 "drop_bit ?m bins"] sp(1,2) less.prems(2) True by auto
    have r1: "e_range e1 = e_range e" using e1(3) by (simp add: same_engine_def)
    obtain e2 where e2: "encode_chunks (bins mod 2 ^ ?m) ?m e1 = Some e2"
      "enc_ok base ((LOW * 2 ^ 8 + e_range e * drop_bit ?m bins) * 2 ^ ?m + e_range e * (bins mod 2 ^ ?m)) (T + 8 + ?m) e2"
      "same_engine e2 e1"
      using less.IH [OF _ e1(2), of ?m "bins mod 2 ^ ?m"] True less.prems(2) r1 by fastforce
    have "(2::int) ^ 8 * 2 ^ ?m = 2 ^ n" using True by (simp only: power_add [symmetric]) simp
    then have "(LOW * 2 ^ 8 + e_range e * drop_bit ?m bins) * 2 ^ ?m + e_range e * (bins mod 2 ^ ?m) =
        LOW * 2 ^ n + e_range e * (drop_bit ?m bins * 2 ^ ?m + bins mod 2 ^ ?m)"
      by (simp add: algebra_simps)
    also have "\<dots> = LOW * 2 ^ n + e_range e * bins" using sp(4) less.prems(2) by simp
    finally have "enc_ok base (LOW * 2 ^ n + e_range e * bins) (T + n) e2" using e2(2) True by simp
    moreover have "encode_chunks bins n e = Some e2"
      using True e1(1) e2(1) sp(3) less.prems(2) by (subst encode_chunks.simps) simp
    ultimately show ?thesis using e1(3) e2(3) by (auto simp: same_engine_def)
  qed
qed

lemma encodeAlignedBinsEP_Some:
  "enc_ok base LOW T e \<Longrightarrow> e_range e = 256 \<Longrightarrow> 0 \<le> bins \<Longrightarrow>
   \<exists>e'. encodeAlignedBinsEP bins n e = Some e' \<and> enc_ok base (LOW * 2 ^ n + 256 * (bins mod 2 ^ n)) (T + n) e' \<and> same_engine e' e"
proof (induction n arbitrary: LOW T e rule: less_induct)
  case (less n)
  show ?case
  proof (cases "n = 0")
    case True
    then show ?thesis using less.prems by (subst encodeAlignedBinsEP.simps) (simp add: same_engine_def)
  next
    case False
    define j where "j = min n 8"
    have j: "j \<le> 8" "j \<le> n" "0 < j" using False by (simp_all add: j_def)
    define new where "new = drop_bit (n - j) bins AND (push_bit j 1 - 1)"
    have new: "new = bins div 2 ^ (n - j) mod 2 ^ j"
      using and_mask_eq_mod [of "drop_bit (n - j) bins" j] by (simp add: new_def push_bit_eq_mult drop_bit_eq_div)
    have new_r: "0 \<le> new" "new < 2 ^ j" by (simp_all add: new)
    note b = enc_ok_bounds [OF less.prems(1)]
    note sh = u32_shift [OF b(1) _ j(1)]
    have p8: "(2::int) ^ j \<le> 2 ^ 8" using j by (intro power_increasing) simp_all
    have low: "u32 (u32 (push_bit j (e_low e)) + push_bit 8 new) = e_low e * 2 ^ j + 256 * new"
      using sh b new_r p8 by (simp add: push_bit_eq_mult)
    let ?e = "e\<lparr>e_low := e_low e * 2 ^ j + 256 * new, e_bitsLeft := e_bitsLeft e - int j\<rparr>"
    obtain e1 where e1: "testAndWriteOut ?e = Some e1" "enc_ok base (LOW * 2 ^ j + 256 * new) (T + j) e1" "same_engine e1 ?e"
      using enc_step [OF less.prems(1) j(1), of "256 * new" ?e] new_r less.prems(2) by auto
    have se1: "same_engine e1 e" using e1(3) by (simp add: same_engine_def)
    obtain e2 where e2: "encodeAlignedBinsEP bins (n - j) e1 = Some e2"
      "enc_ok base ((LOW * 2 ^ j + 256 * new) * 2 ^ (n - j) + 256 * (bins mod 2 ^ (n - j))) (T + j + (n - j)) e2"
      "same_engine e2 e1"
      using less.IH [OF _ e1(2), of "n - j"] j less.prems(2,3) se1 by (auto simp: same_engine_def)
    have pw: "(2::int) ^ j * 2 ^ (n - j) = 2 ^ n" using j(2) by (simp add: power_add [symmetric])
    have "bins mod 2 ^ n = new * 2 ^ (n - j) + bins mod 2 ^ (n - j)"
      using mod_mult2_eq' [of bins "2 ^ (n - j)" "2 ^ j"] pw by (simp add: new mult.commute)
    then have "(LOW * 2 ^ j + 256 * new) * 2 ^ (n - j) + 256 * (bins mod 2 ^ (n - j)) = LOW * 2 ^ n + 256 * (bins mod 2 ^ n)"
      by (simp add: pw [symmetric] algebra_simps)
    then have "enc_ok base (LOW * 2 ^ n + 256 * (bins mod 2 ^ n)) (T + n) e2" using e2(2) j by simp
    moreover have "encodeAlignedBinsEP bins n e = (case testAndWriteOut (e\<lparr>e_low := u32 (u32 (push_bit j (e_low e)) + push_bit 8 new),
          e_bitsLeft := e_bitsLeft e - int j\<rparr>) of None \<Rightarrow> None | Some e \<Rightarrow> encodeAlignedBinsEP bins (n - j) e)"
      unfolding new_def j_def using False by (subst encodeAlignedBinsEP.simps) (simp add: Let_def)
    then have "encodeAlignedBinsEP bins n e = Some e2" by (simp only: low e1(1) e2(1) option.case)
    ultimately show ?thesis using e2(3) se1 by (auto simp: same_engine_def)
  qed
qed

lemma encodeBinsEP_Some:
  assumes "enc_ok base LOW T e" "n \<le> 32" "0 \<le> bins" "bins < 2 ^ n"
  shows "\<exists>e'. encodeBinsEP bins n e = Some e' \<and> enc_ok base (LOW * 2 ^ n + e_range e * bins) (T + n) e' \<and>
    e_range e' = e_range e \<and> e_ctx e' = e_ctx e"
  using encode_chunks_Some [of base LOW T "bc_addEP (int n) e" n bins] encodeAlignedBinsEP_Some [of base LOW T "bc_addEP (int n) e" bins n]
    assms by (auto simp: encodeBinsEP_def Let_def same_engine_def)

lemma encodeBinEP_Some:
  assumes "enc_ok base LOW T e" "bin = 0 \<or> bin = 1"
  shows "\<exists>e'. encodeBinEP bin e = Some e' \<and> enc_ok base (LOW * 2 + e_range e * bin) (T + 1) e' \<and>
    e_range e' = e_range e \<and> e_ctx e' = e_ctx e"
proof -
  let ?e = "bc_addEP 1 e"
  have ok: "enc_ok base LOW T ?e" using assms(1) by simp
  note b = enc_ok_bounds [OF ok]
  have low: "u32 (u32 (push_bit 1 (e_low ?e)) + e_range ?e) = e_low ?e * 2 + e_range ?e" "u32 (push_bit 1 (e_low ?e)) = e_low ?e * 2"
    using b u32_shift [OF b(1), of 1] by simp_all
  have "encodeBinEP bin e = testAndWriteOut (?e\<lparr>e_low := e_low ?e * 2 ^ 1 + e_range ?e * bin, e_bitsLeft := e_bitsLeft ?e - 1\<rparr>)"
    using assms(2) low by (auto simp: encodeBinEP_def Let_def)
  then show ?thesis
    using enc_step [OF ok, of 1 "e_range ?e * bin" "?e\<lparr>e_low := e_low ?e * 2 ^ 1 + e_range ?e * bin, e_bitsLeft := e_bitsLeft ?e - 1\<rparr>"]
      assms(2) b by (auto simp: same_engine_def)
qed

lemma encodeBinTrm_Some:
  assumes ok: "enc_ok base LOW T e" and r: "256 \<le> e_range e" "e_range e \<le> 510"
  shows "\<exists>e'. encodeBinTrm 0 e = Some e' \<and> e_ctx e' = e_ctx e \<and>
           (if e_range e - 2 \<ge> 256 then enc_ok base LOW T e' \<and> e_range e' = e_range e - 2
            else enc_ok base (LOW * 2) (T + 1) e' \<and> e_range e' = 2 * (e_range e - 2))"
    and "\<exists>e'. encodeBinTrm 1 e = Some e' \<and> enc_ok base (LOW * 2 ^ 7 + (e_range e - 2) * 2 ^ 7) (T + 7) e'"
proof -
  let ?e = "bc_addTrm e"
  have ok': "enc_ok base LOW T ?e" using ok by simp
  note b = enc_ok_bounds [OF ok']
  have u: "u32 (e_range ?e - 2) = e_range e - 2" using r by simp
  show "\<exists>e'. encodeBinTrm 0 e = Some e' \<and> e_ctx e' = e_ctx e \<and>
           (if e_range e - 2 \<ge> 256 then enc_ok base LOW T e' \<and> e_range e' = e_range e - 2
            else enc_ok base (LOW * 2) (T + 1) e' \<and> e_range e' = 2 * (e_range e - 2))"
  proof (cases "e_range e - 2 \<ge> 256")
    case True
    have "testAndWriteOut (?e\<lparr>e_range := e_range e - 2\<rparr>) = Some (?e\<lparr>e_range := e_range e - 2\<rparr>)"
      using ok' by (simp add: testAndWriteOut_def enc_ok_def bc_addTrm_def)
    then show ?thesis
      using enc_step [OF ok', of 0 0 "?e\<lparr>e_range := e_range e - 2\<rparr>"] True r u
      by (simp add: encodeBinTrm_def Let_def)
  next
    case False
    have low: "u32 (push_bit 1 (e_low ?e)) = e_low ?e * 2" "u32 (push_bit 1 (e_range e - 2)) = (e_range e - 2) * 2"
      using b u32_shift [OF b(1), of 1] r by (simp_all add: push_bit_eq_mult)
    show ?thesis
      using enc_step [OF ok', of 1 0 "?e\<lparr>e_low := e_low ?e * 2, e_range := (e_range e - 2) * 2, e_bitsLeft := e_bitsLeft ?e - 1\<rparr>"]
        False r u low by (auto simp: encodeBinTrm_def Let_def same_engine_def)
  qed
  have low: "u32 (push_bit 7 (u32 (e_low ?e + (e_range e - 2)))) = e_low ?e * 2 ^ 7 + (e_range e - 2) * 2 ^ 7"
    using b r by (simp add: push_bit_eq_mult distrib_right)
  show "\<exists>e'. encodeBinTrm 1 e = Some e' \<and> enc_ok base (LOW * 2 ^ 7 + (e_range e - 2) * 2 ^ 7) (T + 7) e'"
    using enc_step [OF ok', of 7 "(e_range e - 2) * 2 ^ 7" "?e\<lparr>e_range := push_bit 7 2,
        e_low := e_low ?e * 2 ^ 7 + (e_range e - 2) * 2 ^ 7, e_bitsLeft := e_bitsLeft ?e - 7\<rparr>"] u low r
    by (auto simp: encodeBinTrm_def Let_def push_bit_eq_mult)
qed

lemma e_align_ok: "enc_ok base LOW T e \<Longrightarrow> 256 \<le> e_range e \<Longrightarrow> enc_ok base LOW T (e_align e)"
  using enc_step [of base LOW T e 0 0 "e_align e"]
  by (auto simp: e_align_def testAndWriteOut_def enc_ok_def split: if_splits)

context prob_model
begin

text \<open>
  A context-coded bin: the more probable symbol takes the lower part of the interval, the less
  probable one the upper \<open>lpsRange\<close>.
\<close>

lemma encodeBin_Some:
  assumes ok: "enc_ok base LOW T e" and r: "256 \<le> e_range e" "e_range e \<le> 510"
    and inv: "pm_inv (e_ctx e i)" and bin: "bin = 0 \<or> bin = 1"
  defines "lps \<equiv> pm_getLPS pm (e_ctx e i) (e_range e)"
  shows "\<exists>e'. encodeBin pm bin i e = Some e' \<and> e_ctx e' = (e_ctx e)(i := pm_update pm (e_ctx e i) bin) \<and>
    256 \<le> e_range e' \<and> e_range e' \<le> 510 \<and>
    (if bin \<noteq> pm_mps pm (e_ctx e i)
     then (let k = pm_getRenormBitsLPS pm lps in
             enc_ok base (LOW * 2 ^ k + (e_range e - lps) * 2 ^ k) (T + k) e' \<and> e_range e' = lps * 2 ^ k)
     else if e_range e - lps < 256 then enc_ok base (LOW * 2) (T + 1) e' \<and> e_range e' = (e_range e - lps) * 2
     else enc_ok base LOW T e' \<and> e_range e' = e_range e - lps)"
proof -
  let ?e = "bc_addCtx i e" and ?p = "e_ctx e i"
  have ok': "enc_ok base LOW T ?e" using ok by simp
  note b = enc_ok_bounds [OF ok']
  have lps: "0 < lps" "128 \<le> e_range e - lps"
    using lps_pos [OF inv r] lps_leaves [OF inv r] by (simp_all add: lps_def)
  have u: "u32 (e_range e - lps) = e_range e - lps" using lps r by simp
  show ?thesis
  proof (cases "bin \<noteq> pm_mps pm ?p")
    case True
    define k where "k = pm_getRenormBitsLPS pm lps"
    have k: "256 \<le> lps * 2 ^ k" "lps * 2 ^ k \<le> 510" "k \<le> 8"
      using lps_renorm [OF inv r] by (simp_all add: lps_def k_def)
    have sum: "0 \<le> e_low ?e + (e_range e - lps)" "e_low ?e + (e_range e - lps) \<le> 17 * 2 ^ 16"
      using b lps by simp_all
    have low: "u32 (push_bit k (u32 (e_low ?e + (e_range e - lps)))) = e_low ?e * 2 ^ k + (e_range e - lps) * 2 ^ k"
      using u32_shift(1) [OF sum k(3)] sum by (simp add: distrib_right)
    have rng: "u32 (push_bit k lps) = lps * 2 ^ k" using k by (simp add: push_bit_eq_mult)
    let ?e2 = "?e\<lparr>e_bitsLeft := e_bitsLeft ?e - int k, e_low := e_low ?e * 2 ^ k + (e_range e - lps) * 2 ^ k,
      e_range := lps * 2 ^ k\<rparr>"
    have "(e_range e - lps) * 2 ^ k + lps * 2 ^ k = e_range e * 2 ^ k" by (simp add: distrib_right [symmetric])
    then obtain e3 where e3: "testAndWriteOut ?e2 = Some e3"
      "enc_ok base (LOW * 2 ^ k + (e_range e - lps) * 2 ^ k) (T + k) e3" "same_engine e3 ?e2"
      using enc_step [OF ok' k(3), of "(e_range e - lps) * 2 ^ k" ?e2] lps k by auto
    have "encodeBin pm bin i e = Some (addBin bin i (e3\<lparr>e_ctx := (e_ctx e3)(i := pm_update pm ?p bin)\<rparr>))"
      using True e3(1) by (simp add: encodeBin_def Let_def u lps_def [symmetric] k_def [symmetric] low rng)
    then show ?thesis using e3(2,3) True k by (simp add: same_engine_def Let_def k_def [symmetric])
  next
    case False
    show ?thesis
    proof (cases "e_range e - lps < 256")
      case True
      have one: "pm_getRenormBitsRange pm (e_range e - lps) = 1" using range_renorm lps True by simp
      have low: "u32 (e_low ?e * 2) = e_low ?e * 2" "u32 (e_range e * 2 - lps * 2) = e_range e * 2 - lps * 2"
        using b True lps by (simp_all add: push_bit_eq_mult)
      let ?e2 = "?e\<lparr>e_bitsLeft := e_bitsLeft ?e - int 1, e_low := e_low ?e * 2, e_range := (e_range e - lps) * 2\<rparr>"
      obtain e3 where e3: "testAndWriteOut ?e2 = Some e3" "enc_ok base (LOW * 2) (T + 1) e3" "same_engine e3 ?e2"
        using enc_step [OF ok', of 1 0 ?e2] lps True by auto
      have "encodeBin pm bin i e = Some (addBin bin i (e3\<lparr>e_ctx := (e_ctx e3)(i := pm_update pm ?p bin)\<rparr>))"
        using False True e3(1) one by (simp add: encodeBin_def Let_def u lps_def [symmetric] low del: of_nat_1 of_nat_Suc)
      then show ?thesis using e3(2,3) True False lps by (simp add: same_engine_def)
    next
      case ge: False
      let ?e2 = "?e\<lparr>e_range := e_range e - lps\<rparr>"
      have "testAndWriteOut ?e2 = Some ?e2"
        using ok' by (simp add: testAndWriteOut_def enc_ok_def bc_addCtx_def)
      then have "enc_ok base LOW T ?e2"
        using enc_step [OF ok', of 0 0 ?e2] lps r ge by auto
      moreover have "encodeBin pm bin i e = Some (addBin bin i (?e2\<lparr>e_ctx := (e_ctx ?e2)(i := pm_update pm ?p bin)\<rparr>))"
        using False ge by (simp add: encodeBin_def Let_def u lps_def [symmetric])
      ultimately show ?thesis using ge False r lps by simp
    qed
  qed
qed

end

section \<open>Start and finish\<close>

lemma e_start_ok: "ob_inv (e_bitstream e) \<Longrightarrow> enc_ok (ob_bits (e_bitstream e)) 0 0 (e_start e)"
  by (simp add: enc_ok_def enc_rel_def e_start_def bc_reset_def bs_store_reset_def outstanding_def
      exI [of _ "[]"] exI [of _ "0::nat"] exI [of _ "9::nat"])

lemma e_start_simps [simp]:
  "e_range (e_start e) = 510" "e_ctx (e_start e) = e_ctx e" "e_bitstream (e_start e) = e_bitstream e"
  by (simp_all add: e_start_def bc_reset_def bs_store_reset_def)

text \<open>
  \<open>finish\<close> writes the bytes held back, with their carry, and all but the low 8 bits of the
  register: the stream gains the \<open>T + 1\<close> leading bits of \<open>LOW\<close>.
\<close>

lemma e_finish_Some:
  assumes ok: "enc_ok base LOW T e"
  shows "\<exists>e'. e_finish e = Some e' \<and> ob_inv (e_bitstream e') \<and>
    ob_bits (e_bitstream e') = base @ bits_of (T + 1) (LOW div 2 ^ 8)"
proof -
  obtain w n k where ob: "ob_inv (e_bitstream e)" "ob_bits (e_bitstream e) = base @ w"
    and nk: "e_numBufferedBytes e = int n" "e_bitsLeft e = 32 - int k" "9 \<le> k" "k \<le> 20" "length w + 8 * n + k = 9 + T"
    and low: "0 \<le> e_low e" "e_low e + e_range e \<le> 17 * 2 ^ (k - 4)" "0 < e_range e" "e_range e \<le> 512"
    and b: "0 \<le> e_bufferedByte e" "e_bufferedByte e \<le> 255"
    and first: "n = 0 \<longrightarrow> w = [] \<and> e_bufferedByte e = 255" "e_bufferedByte e = 255 \<longrightarrow> w = []"
    and LOW: "LOW = outstanding w (e_bufferedByte e) n * 2 ^ k + e_low e" "LOW + e_range e \<le> 2 ^ (9 + T)"
    using ok unfolding enc_ok_def enc_rel_def by fastforce
  define buf where "buf = e_bufferedByte e"
  define c where "c = e_low e div 2 ^ k"
  have p4: "(2::int) ^ k = 16 * 2 ^ (k - 4)" using nk(3) power_add [of "2::int" 4 "k - 4"] by simp
  have lowk: "e_low e < 2 * 2 ^ k" using low p4 by simp
  have c: "c = 0 \<or> c = 1"
  proof -
    have "0 \<le> c" using low(1) by (simp add: c_def pos_imp_zdiv_nonneg_iff)
    moreover have "c * 2 ^ k \<le> e_low e" using div_mult_mod_eq [of "e_low e" "2 ^ k"] unfolding c_def
      by (metis add.right_neutral add_left_mono pos_mod_sign zero_less_numeral zero_less_power)
    then have "c * 2 ^ k < 2 * 2 ^ k" using lowk by linarith
    then have "c < 2" by simp
    ultimately show ?thesis by auto
  qed
  have carry: "n > 0 \<and> buf \<le> 254" if "c = 1"
  proof (rule ccontr)
    assume "\<not> (n > 0 \<and> buf \<le> 254)"
    then have w: "w = []" "n = 0 \<or> buf = 255" using first b by (auto simp: buf_def)
    have big: "2 ^ k \<le> e_low e" using that low(1) by (auto simp: c_def not_le [symmetric] dest: div_pos_pos_trivial)
    have "9 + T = 8 * n + k" using nk(5) w by simp
    moreover have "outstanding w buf n = 2 ^ (8 * n) - 1"
      using w by (cases n) (auto simp: outstanding_def power_add)
    ultimately have "LOW = 2 ^ (9 + T) - 2 ^ k + e_low e"
      unfolding LOW(1) buf_def [symmetric] by (simp add: power_add left_diff_distrib)
    with big LOW(2) low(3) show False by linarith
  qed
  have shift: "nat (32 - e_bitsLeft e) = k" "nat (24 - e_bitsLeft e) = k - 8" using nk by simp_all
  define low1 where "low1 = e_low e - c * 2 ^ k"
  have low1: "low1 = e_low e mod 2 ^ k" by (simp add: low1_def c_def minus_div_mult_eq_mod)
  have low1_r: "0 \<le> low1" "low1 < 2 ^ k" by (simp_all add: low1)
  let ?flushed = "concat (replicate (n - 1) (bits_of 8 ((255 + c) AND 255)))"
  define W where "W = (if n = 0 then w else w @ bits_of 8 (buf + c) @ ?flushed)"
  have W: "val_of W = outstanding w buf n + c" "length W = length w + 8 * n"
  proof -
    show "length W = length w + 8 * n" by (cases n) (simp_all add: W_def length_repeated)
    show "val_of W = outstanding w buf n + c"
    proof (cases n)
      case 0
      then show ?thesis using first carry c by (auto simp: W_def outstanding_def)
    next
      case (Suc m)
      have bc: "0 \<le> buf + c" "buf + c < 256" using carry c b by (auto simp: buf_def)
      have "val_of W = (val_of w * 256 + (buf + c)) * 2 ^ (8 * m) + (1 - c) * (2 ^ (8 * m) - 1)"
        using bc c val_of_flushed [of c m]
        by (simp add: W_def Suc val_of_append length_repeated power_add algebra_simps)
      then show ?thesis using c by (auto simp: outstanding_def Suc algebra_simps)
    qed
  qed
  have "\<exists>e1. (if drop_bit (nat (32 - e_bitsLeft e)) (e_low e) \<noteq> 0
      then do {
        ob \<leftarrow> o_write (u32 (e_bufferedByte e + 1)) 8 (e_bitstream e);
        e \<leftarrow> flush_bytes 0 (e\<lparr>e_bitstream := ob\<rparr>);
        Some (e\<lparr>e_low := u32 (e_low e - push_bit (nat (32 - e_bitsLeft e)) 1)\<rparr>)
      }
      else do {
        ob \<leftarrow> (if e_numBufferedBytes e > 0 then o_write (e_bufferedByte e) 8 (e_bitstream e) else Some (e_bitstream e));
        flush_bytes 0xff (e\<lparr>e_bitstream := ob\<rparr>)
      }) = Some e1 \<and> ob_inv (e_bitstream e1) \<and> ob_bits (e_bitstream e1) = base @ W \<and> e_low e1 = low1 \<and>
      e_bitsLeft e1 = e_bitsLeft e"
  proof (cases "c = 1")
    case True
    with carry have n: "n > 0" "buf \<le> 254" by auto
    obtain ob1 where ob1: "o_write (buf + 1) 8 (e_bitstream e) = Some ob1" "ob_inv ob1"
      "ob_bits ob1 = base @ w @ bits_of 8 (buf + 1)"
      using o_write_Some [OF ob(1), of 8 "buf + 1"] n b ob(2) by (auto simp: buf_def)
    obtain ob2 where ob2: "flush_bytes 0 (e\<lparr>e_bitstream := ob1\<rparr>) =
        Some (e\<lparr>e_bitstream := ob1, e_bitstream := ob2, e_numBufferedBytes := min (int n) 1\<rparr>)" "ob_inv ob2"
      "ob_bits ob2 = base @ w @ bits_of 8 (buf + 1) @ concat (replicate (n - 1) (bits_of 8 0))"
      using flush_bytes_Some [of "e\<lparr>e_bitstream := ob1\<rparr>" 0 n] ob1 nk(1) by auto
    have "e_low e < 2 ^ 32"
      using enc_ok_bounds [OF ok] by simp
    then have "u32 (e_low e - push_bit k 1) = low1"
      using low1_r True low(1) by (simp add: low1_def push_bit_eq_mult)
    moreover have "u32 (buf + 1) = buf + 1" using n b by (simp add: buf_def)
    ultimately show ?thesis
      using ob1(1) ob2 True n nk(1) unfolding shift buf_def [symmetric]
      by (simp add: W_def drop_bit_eq_div c_def [symmetric] shift)
  next
    case False
    with c have c0: "c = 0" by simp
    obtain ob1 where ob1: "(if e_numBufferedBytes e > 0 then o_write buf 8 (e_bitstream e) else Some (e_bitstream e)) = Some ob1"
      "ob_inv ob1" "ob_bits ob1 = base @ (if n = 0 then w else w @ bits_of 8 buf)"
      using o_write_Some [OF ob(1), of 8 buf] b ob nk(1) by (cases "n = 0") (auto simp: buf_def)
    obtain ob2 where ob2: "flush_bytes 255 (e\<lparr>e_bitstream := ob1\<rparr>) =
        Some (e\<lparr>e_bitstream := ob1, e_bitstream := ob2, e_numBufferedBytes := min (int n) 1\<rparr>)" "ob_inv ob2"
      "ob_bits ob2 = ob_bits ob1 @ concat (replicate (n - 1) (bits_of 8 255))"
      using flush_bytes_Some [of "e\<lparr>e_bitstream := ob1\<rparr>" 255 n] ob1(2) nk(1) by auto
    show ?thesis
      using ob1(1,3) ob2 c0 unfolding shift buf_def [symmetric]
      by (simp add: W_def drop_bit_eq_div c_def [symmetric] low1_def)
  qed
  then obtain e1 where e1: "(if drop_bit (nat (32 - e_bitsLeft e)) (e_low e) \<noteq> 0
      then do {
        ob \<leftarrow> o_write (u32 (e_bufferedByte e + 1)) 8 (e_bitstream e);
        e \<leftarrow> flush_bytes 0 (e\<lparr>e_bitstream := ob\<rparr>);
        Some (e\<lparr>e_low := u32 (e_low e - push_bit (nat (32 - e_bitsLeft e)) 1)\<rparr>)
      }
      else do {
        ob \<leftarrow> (if e_numBufferedBytes e > 0 then o_write (e_bufferedByte e) 8 (e_bitstream e) else Some (e_bitstream e));
        flush_bytes 0xff (e\<lparr>e_bitstream := ob\<rparr>)
      }) = Some e1" "ob_inv (e_bitstream e1)" "ob_bits (e_bitstream e1) = base @ W" "e_low e1 = low1"
      "e_bitsLeft e1 = e_bitsLeft e" by blast
  have low_bits: "0 \<le> low1 div 2 ^ 8" "low1 div 2 ^ 8 < 2 ^ (k - 8)"
    using low1_r div_less_pow [of low1 k 8] nk(3) by (simp_all add: pos_imp_zdiv_nonneg_iff)
  have "k - 8 \<le> 32" using nk(4) by linarith
  from o_write_Some [OF e1(2) this low_bits] obtain ob2 where
    ob2: "o_write (low1 div 2 ^ 8) (k - 8) (e_bitstream e1) = Some ob2" "ob_inv ob2"
    "ob_bits ob2 = base @ W @ bits_of (k - 8) (low1 div 2 ^ 8)" using e1(3) by auto
  have len: "length (W @ bits_of (k - 8) (low1 div 2 ^ 8)) = T + 1" using W(2) nk(3,5) by simp
  have "val_of W * 2 ^ k + low1 = LOW" by (simp add: W(1) LOW(1) low1_def buf_def distrib_right)
  moreover have "(2::int) ^ k = 2 ^ (k - 8) * 2 ^ 8" using nk(3) by (simp only: power_add [symmetric]) simp
  ultimately have "LOW = low1 + (val_of W * 2 ^ (k - 8)) * 2 ^ 8" by simp
  then have "LOW div 2 ^ 8 = val_of W * 2 ^ (k - 8) + low1 div 2 ^ 8" by simp
  then have v: "LOW div 2 ^ 8 = val_of (W @ bits_of (k - 8) (low1 div 2 ^ 8))"
    using low_bits by (simp add: val_of_append)
  then have "LOW div 2 ^ 8 < 2 ^ (T + 1)" using val_of_less [of "W @ bits_of (k - 8) (low1 div 2 ^ 8)"] len by simp
  then have "bits_of (T + 1) (LOW div 2 ^ 8) = W @ bits_of (k - 8) (low1 div 2 ^ 8)"
    using len v val_of_nonneg [of "W @ bits_of (k - 8) (low1 div 2 ^ 8)"] by (intro bits_of_eqI) simp_all
  moreover have "e_finish e = Some (e1\<lparr>e_bitstream := ob2\<rparr>)"
    unfolding e_finish_def e1(1) using e1(4,5) ob2(1) shift(2) by (simp add: drop_bit_eq_div)
  ultimately show ?thesis using ob2 by simp
qed

end
