(* ===== verification/BinDecoder.thy ===== *)
theory BinDecoder
  imports ProbModel
begin

text \<open>
  The arithmetic decoder: \<open>BinDecoderBase\<close> and \<open>TBinDecoder\<close> of
  \<open>source/Lib/DecoderLib/BinDecoder.{h,cpp}\<close>. An operation is \<open>None\<close> where a read beyond the end
  of the stream, or another \<open>CHECK\<close>, throws.
\<close>

section \<open>State\<close>

record 'p BinDecoder =
  d_bitstream :: InputBitstream
  d_range :: int
  d_value :: int
  d_bitsNeeded :: int
  d_ctx :: "nat \<Rightarrow> 'p"

section \<open>Operations\<close>

definition d_start :: "'p BinDecoder \<Rightarrow> 'p BinDecoder option" where
  "d_start d = do {
     _ \<leftarrow> check (i_getNumBitsUntilByteAligned (d_bitstream d) \<noteq> 0);
     (b0, bs) \<leftarrow> i_readByte (d_bitstream d);
     (b1, bs) \<leftarrow> i_readByte bs;
     Some (d\<lparr>d_bitstream := bs, d_range := 510, d_value := u32 (push_bit 8 b0 + b1), d_bitsNeeded := - 8\<rparr>)
   }"

definition d_finish :: "'p BinDecoder \<Rightarrow> unit option" where
  "d_finish d = do {
     lastByte \<leftarrow> peekPreviousByte (d_bitstream d);
     check (push_bit (nat (8 + d_bitsNeeded d)) lastByte AND 0xff \<noteq> 0x80)
   }"

definition decodeBinEP :: "'p BinDecoder \<Rightarrow> (int \<times> 'p BinDecoder) option" where
  "decodeBinEP d =
     (let d = d\<lparr>d_value := u32 (d_value d + d_value d), d_bitsNeeded := d_bitsNeeded d + 1\<rparr>
      in do {
           d \<leftarrow> (if d_bitsNeeded d \<ge> 0
                then do {
                  (b, bs) \<leftarrow> i_readByte (d_bitstream d);
                  Some (d\<lparr>d_bitstream := bs, d_value := u32 (d_value d + b), d_bitsNeeded := - 8\<rparr>)
                }
                else Some d);
           let scaledRange = u32 (push_bit 7 (d_range d))
           in if d_value d \<ge> scaledRange then Some (1, d\<lparr>d_value := d_value d - scaledRange\<rparr>) else Some (0, d)
         })"

text \<open>\<open>for (i < n) { bins += bins; scaledRange >>= 1; if (m_value >= scaledRange) ... }\<close>\<close>

fun compare_loop :: "nat \<Rightarrow> int \<Rightarrow> int \<Rightarrow> int \<Rightarrow> int \<times> int" where
  "compare_loop 0 scaledRange bins val = (bins, val)"
| "compare_loop (Suc n) scaledRange bins val =
     (let bins = u32 (bins + bins);
          scaledRange = drop_bit 1 scaledRange
      in if val \<ge> scaledRange then compare_loop n scaledRange (u32 (bins + 1)) (val - scaledRange)
         else compare_loop n scaledRange bins val)"

function decodeAlignedBinsEP :: "nat \<Rightarrow> int \<Rightarrow> 'p BinDecoder \<Rightarrow> (int \<times> 'p BinDecoder) option" where
  "decodeAlignedBinsEP remBins bins d =
     (if remBins > 0
      then let binsToRead = min remBins 8;
               binMask = push_bit binsToRead 1 - 1;
               newBins = drop_bit (15 - binsToRead) (d_value d) AND binMask;
               bins = u32 (push_bit binsToRead bins) OR newBins;
               d = d\<lparr>d_value := u32 (push_bit binsToRead (d_value d)) AND 0x7FFF,
                     d_bitsNeeded := d_bitsNeeded d + int binsToRead\<rparr>
           in if d_bitsNeeded d \<ge> 0
              then (case i_readByte (d_bitstream d) of
                      None \<Rightarrow> None
                    | Some (b, bs) \<Rightarrow>
                        decodeAlignedBinsEP (remBins - binsToRead) bins
                          (d\<lparr>d_bitstream := bs, d_value := d_value d OR push_bit (nat (d_bitsNeeded d)) b,
                             d_bitsNeeded := d_bitsNeeded d - 8\<rparr>))
              else decodeAlignedBinsEP (remBins - binsToRead) bins d
      else Some (bins, d))"
  by pat_completeness auto
termination by (relation "measure (\<lambda>(remBins, bins, d). remBins)") auto

declare decodeAlignedBinsEP.simps [simp del]

function decode_chunks :: "nat \<Rightarrow> int \<Rightarrow> 'p BinDecoder \<Rightarrow> (int \<times> 'p BinDecoder) option" where
  "decode_chunks remBins bins d =
     (if remBins > 8
      then case i_readByte (d_bitstream d) of
             None \<Rightarrow> None
           | Some (b, bs) \<Rightarrow>
               let val = u32 (u32 (push_bit 8 (d_value d)) + push_bit (nat (8 + d_bitsNeeded d)) b);
                   (bins, val) = compare_loop 8 (u32 (push_bit 15 (d_range d))) bins val
               in decode_chunks (remBins - 8) bins (d\<lparr>d_bitstream := bs, d_value := val\<rparr>)
      else do {
        let d = d\<lparr>d_bitsNeeded := d_bitsNeeded d + int remBins, d_value := u32 (push_bit remBins (d_value d))\<rparr>
        in do {
          d \<leftarrow> (if d_bitsNeeded d \<ge> 0
               then do {
                 (b, bs) \<leftarrow> i_readByte (d_bitstream d);
                 Some (d\<lparr>d_bitstream := bs, d_value := u32 (d_value d + push_bit (nat (d_bitsNeeded d)) b),
                         d_bitsNeeded := d_bitsNeeded d - 8\<rparr>)
               }
               else Some d);
          let (bins, val) = compare_loop remBins (u32 (push_bit (remBins + 7) (d_range d))) bins (d_value d)
          in Some (bins, d\<lparr>d_value := val\<rparr>)
        }
      })"
  by pat_completeness auto
termination by (relation "measure (\<lambda>(remBins, bins, d). remBins)") auto

declare decode_chunks.simps [simp del]

definition decodeBinsEP :: "nat \<Rightarrow> 'p BinDecoder \<Rightarrow> (int \<times> 'p BinDecoder) option" where
  "decodeBinsEP numBins d =
     (if d_range d = 256 then decodeAlignedBinsEP numBins 0 d else decode_chunks numBins 0 d)"

text \<open>\<open>do { prefix++; codeWord = decodeBinEP(); } while (codeWord && prefix < maxPrefix)\<close>\<close>

function decode_prefix :: "nat \<Rightarrow> nat \<Rightarrow> 'p BinDecoder \<Rightarrow> ((nat \<times> int) \<times> 'p BinDecoder) option" where
  "decode_prefix maxPrefix prefix d =
     (case decodeBinEP d of
        None \<Rightarrow> None
      | Some (codeWord, d) \<Rightarrow>
          let prefix = prefix + 1
          in if codeWord \<noteq> 0 \<and> prefix < maxPrefix then decode_prefix maxPrefix prefix d
             else Some ((prefix, codeWord), d))"
  by pat_completeness auto
termination by (relation "measure (\<lambda>(maxPrefix, prefix, d). maxPrefix - prefix)") auto

declare decode_prefix.simps [simp del]

definition decodeRemAbsEP :: "nat \<Rightarrow> nat \<Rightarrow> nat \<Rightarrow> 'p BinDecoder \<Rightarrow> (int \<times> 'p BinDecoder) option" where
  "decodeRemAbsEP goRicePar cutoff maxLog2TrDynamicRange d = do {
     ((prefix, codeWord), d) \<leftarrow> decode_prefix (32 - maxLog2TrDynamicRange) 0 d;
     let prefix = prefix - nat (1 - codeWord);
         (offset, length) =
           (if prefix < cutoff then (u32 (push_bit goRicePar (int prefix)), goRicePar)
            else (u32 (push_bit goRicePar (push_bit (prefix - cutoff) 1 + int cutoff - 1)),
                  goRicePar + (if prefix = 32 - maxLog2TrDynamicRange then maxLog2TrDynamicRange - goRicePar
                               else prefix - cutoff)))
     in do {
       (bins, d) \<leftarrow> decodeBinsEP length d;
       Some (u32 (offset + bins), d)
     }
   }"

definition decodeBinTrm :: "'p BinDecoder \<Rightarrow> (int \<times> 'p BinDecoder) option" where
  "decodeBinTrm d =
     (let d = d\<lparr>d_range := u32 (d_range d - 2)\<rparr>;
          scaledRange = u32 (push_bit 7 (d_range d))
      in if d_value d \<ge> scaledRange then Some (1, d)
         else if d_range d < 256
         then let d = d\<lparr>d_range := d_range d + d_range d, d_value := u32 (d_value d + d_value d),
                        d_bitsNeeded := d_bitsNeeded d + 1\<rparr>
              in if d_bitsNeeded d = 0
                 then do {
                   (b, bs) \<leftarrow> i_readByte (d_bitstream d);
                   Some (0, d\<lparr>d_bitstream := bs, d_value := u32 (d_value d + b), d_bitsNeeded := - 8\<rparr>)
                 }
                 else Some (0, d)
         else Some (0, d))"

definition d_align :: "'p BinDecoder \<Rightarrow> 'p BinDecoder" where
  "d_align d = d\<lparr>d_range := 256\<rparr>"

definition d_getNumBitsRead :: "'p BinDecoder \<Rightarrow> int" where
  "d_getNumBitsRead d = u32 (i_numBitsRead (d_bitstream d) + d_bitsNeeded d)"

text \<open>The renormalisation both paths of \<open>decodeBin\<close> end with.\<close>

definition d_renorm :: "int \<Rightarrow> int \<Rightarrow> nat \<Rightarrow> 'p BinDecoder \<Rightarrow> 'p BinDecoder option" where
  "d_renorm rng val numBits d =
     (let d = d\<lparr>d_range := u32 (push_bit numBits rng), d_value := u32 (push_bit numBits val),
                d_bitsNeeded := d_bitsNeeded d + int numBits\<rparr>
      in if d_bitsNeeded d \<ge> 0
         then do {
           (b, bs) \<leftarrow> i_readByte (d_bitstream d);
           Some (d\<lparr>d_bitstream := bs, d_value := u32 (d_value d + push_bit (nat (d_bitsNeeded d)) b),
                   d_bitsNeeded := d_bitsNeeded d - 8\<rparr>)
         }
         else Some d)"

definition decodeBin :: "'p BinProbModel \<Rightarrow> nat \<Rightarrow> 'p BinDecoder \<Rightarrow> (int \<times> 'p BinDecoder) option" where
  "decodeBin pm ctxId d =
     (let probModel = d_ctx d ctxId;
          bin = pm_mps pm probModel;
          lpsRange = pm_getLPS pm probModel (d_range d);
          rng = u32 (d_range d - lpsRange);
          scaledRange = u32 (push_bit 7 rng)
      in do {
           (bin, d) \<leftarrow> (if d_value d < scaledRange
                then do {
                  d \<leftarrow> (if rng < 256 then d_renorm rng (d_value d) (pm_getRenormBitsRange pm rng) d
                       else Some (d\<lparr>d_range := rng\<rparr>));
                  Some (bin, d)
                }
                else do {
                  d \<leftarrow> d_renorm lpsRange (d_value d - scaledRange) (pm_getRenormBitsLPS pm lpsRange) d;
                  Some (1 - bin, d)
                });
           Some (bin, d\<lparr>d_ctx := (d_ctx d)(ctxId := pm_update pm probModel bin)\<rparr>)
         })"

section \<open>What the decoder knows of the code\<close>

text \<open>
  \<open>F\<close> are the bytes of the code from the start position, \<open>pre\<close> those before it. The decoder has
  consumed \<open>2 + T div 8\<close> of them; its register is the distance of the bits seen so far from the lower
  end \<open>LOW\<close> of the current interval, at a precision of \<open>16 + T\<close> bits.
\<close>

definition code_val :: "int list \<Rightarrow> int" where
  "code_val F = val_of (bits_of_bytes F)"

definition code_in :: "int list \<Rightarrow> int \<Rightarrow> int \<Rightarrow> nat \<Rightarrow> bool" where
  "code_in F LOW R T \<longleftrightarrow> 9 + T \<le> 8 * length F \<and>
     LOW * 2 ^ (8 * length F - 9 - T) \<le> code_val F \<and> code_val F < (LOW + R) * 2 ^ (8 * length F - 9 - T)"

definition dec_ok :: "int list \<Rightarrow> int list \<Rightarrow> int \<Rightarrow> nat \<Rightarrow> 'p BinDecoder \<Rightarrow> bool" where
  "dec_ok pre F LOW T d \<longleftrightarrow> ib_inv (d_bitstream d) \<and> i_numHeldBits (d_bitstream d) = 0 \<and>
     i_fifo (d_bitstream d) = pre @ F \<and> i_fifoIdx (d_bitstream d) = length pre + 2 + T div 8 \<and>
     2 + T div 8 \<le> length F \<and> d_bitsNeeded d = int (T mod 8) - 8 \<and>
     d_value d + LOW * 2 ^ 7 = code_val (take (2 + T div 8) F) * 2 ^ (T mod 8)"

lemma code_val_split: "code_val (xs @ ys) = code_val xs * 2 ^ (8 * length ys) + code_val ys"
  by (simp add: code_val_def val_of_append)

lemma code_val_range: "0 \<le> code_val F" "code_val F < 2 ^ (8 * length F)"
  using val_of_less [of "bits_of_bytes F"] by (simp_all add: code_val_def)

lemma code_val_snoc: "i < length F \<Longrightarrow> is_byte (F ! i) \<Longrightarrow> code_val (take (Suc i) F) = code_val (take i F) * 256 + F ! i"
  by (simp add: take_Suc_conv_app_nth code_val_split) (simp add: code_val_def is_byte_def)

lemma code_in_nested:
  assumes "code_in F (LOW * 2 ^ j + a) R' (T + j)" "0 \<le> a" "a + R' \<le> R * 2 ^ j"
  shows "code_in F LOW R T"
proof -
  define P where "P = (2 ^ (8 * length F - 9 - (T + j)) :: int)"
  have len: "9 + T + j \<le> 8 * length F" using assms(1) by (simp add: code_in_def)
  then have "8 * length F - 9 - T = j + (8 * length F - 9 - (T + j))" by linarith
  then have p: "(2::int) ^ (8 * length F - 9 - T) = 2 ^ j * P" by (simp add: power_add P_def)
  have P: "0 \<le> P" by (simp add: P_def)
  have V: "(LOW * 2 ^ j + a) * P \<le> code_val F" "code_val F < (LOW * 2 ^ j + a + R') * P"
    using assms(1) by (simp_all add: code_in_def P_def)
  have "LOW * 2 ^ j * P \<le> (LOW * 2 ^ j + a) * P" using assms(2) P by (intro mult_right_mono) simp_all
  moreover have "(LOW * 2 ^ j + a + R') * P \<le> (LOW + R) * 2 ^ j * P"
    using assms(3) P by (intro mult_right_mono) (simp_all add: distrib_right)
  ultimately have "LOW * (2 ^ j * P) \<le> code_val F" "code_val F < (LOW + R) * (2 ^ j * P)"
    using V unfolding mult.assoc [symmetric] by linarith+
  then show ?thesis using len unfolding code_in_def p by simp
qed

text \<open>Comparing the register with a multiple of \<open>2 ^ 7\<close> compares the whole code with a bound.\<close>

lemma threshold:
  assumes "dec_ok pre F LOW T d" "9 + T \<le> 8 * length F"
  shows "m * 2 ^ 7 \<le> d_value d \<longleftrightarrow> (LOW + m) * 2 ^ (8 * length F - 9 - T) \<le> code_val F"
proof -
  define c s where "c = 2 + T div 8" and "s = T mod 8"
  let ?q = "code_val (take c F)" and ?r = "code_val (drop c F)" and ?P = "2 ^ (8 * (length F - c)) :: int"
  define X where "X = (LOW + m) * 2 ^ (7 - s)"
  have s: "s \<le> 7" "T = 8 * (T div 8) + s" unfolding s_def by simp_all
  have c: "c \<le> length F" and v: "d_value d + LOW * 2 ^ 7 = ?q * 2 ^ s"
    using assms(1) by (auto simp: dec_ok_def c_def s_def)
  have "8 * length F - 9 - T = 7 - s + 8 * (length F - c)" using s c assms(2) unfolding c_def by linarith
  then have rhs: "(LOW + m) * 2 ^ (8 * length F - 9 - T) = X * ?P" by (simp add: power_add X_def)
  have F: "code_val F = ?q * ?P + ?r" using code_val_split [of "take c F" "drop c F"] by simp
  have r: "0 \<le> ?r" "?r < ?P" using code_val_range [of "drop c F"] by simp_all
  have "(2::int) ^ 7 = 2 ^ (7 - s) * 2 ^ s" using s(1) by (simp flip: power_add)
  then have "(LOW + m) * 2 ^ 7 = X * 2 ^ s" by (simp only: X_def mult.assoc)
  moreover have "(LOW + m) * 2 ^ 7 = LOW * 2 ^ 7 + m * 2 ^ 7" by (simp add: distrib_right)
  ultimately have "m * 2 ^ 7 \<le> d_value d \<longleftrightarrow> X * 2 ^ s \<le> ?q * 2 ^ s" unfolding v [symmetric] by linarith
  also have "\<dots> \<longleftrightarrow> X \<le> ?q" by simp
  also have "\<dots> \<longleftrightarrow> X * ?P \<le> ?q * ?P + ?r"
  proof
    assume "X \<le> ?q"
    then have "X * ?P \<le> ?q * ?P" by (intro mult_right_mono) simp_all
    with r show "X * ?P \<le> ?q * ?P + ?r" by linarith
  next
    assume "X * ?P \<le> ?q * ?P + ?r"
    with r have "X * ?P < (?q + 1) * ?P" by (simp add: distrib_right)
    then show "X \<le> ?q" by simp
  qed
  finally show ?thesis unfolding rhs F .
qed

lemma value_range:
  assumes "dec_ok pre F LOW T d" "code_in F LOW R T"
  shows "0 \<le> d_value d" "d_value d < R * 2 ^ 7"
  using threshold [OF assms(1), of 0] threshold [OF assms(1), of R] assms(2) by (auto simp: code_in_def not_le)

lemma div_mod_8:
  fixes t :: nat
  assumes "t = r + 8 * q" "r < 8"
  shows "t div 8 = q" "t mod 8 = r"
  using assms by simp_all

text \<open>A shift by \<open>j\<close> bits, with a byte read when the register runs out of bits.\<close>

lemma shift_no_byte:
  assumes "dec_ok pre F LOW T d" "T mod 8 + j < 8"
    and "d_bitstream d' = d_bitstream d" "d_bitsNeeded d' = d_bitsNeeded d + int j"
      "d_value d' = d_value d * 2 ^ j - a * 2 ^ 7"
  shows "dec_ok pre F (LOW * 2 ^ j + a) (T + j) d'"
proof -
  have "T + j = (T mod 8 + j) + 8 * (T div 8)" by simp
  note t = div_mod_8 [OF this assms(2)]
  have "(d_value d + LOW * 2 ^ 7) * 2 ^ j = code_val (take (2 + T div 8) F) * 2 ^ (T mod 8) * 2 ^ j"
    using assms(1) by (simp add: dec_ok_def)
  then have "d_value d' + (LOW * 2 ^ j + a) * 2 ^ 7 = code_val (take (2 + T div 8) F) * 2 ^ (T mod 8 + j)"
    by (simp add: assms(5) power_add algebra_simps)
  then show ?thesis using assms(1,3,4) by (simp add: dec_ok_def t)
qed

lemma shift_byte:
  fixes d :: "'p BinDecoder"
  assumes ok: "dec_ok pre F LOW T d" and j: "8 \<le> T mod 8 + j" "j \<le> 8" and len: "9 + (T + j) \<le> 8 * length F"
  shows "\<exists>b bs. i_readByte (d_bitstream d) = Some (b, bs) \<and> 0 \<le> b \<and> b < 256 \<and>
    (\<forall>(d' :: 'p BinDecoder) a. d_bitstream d' = bs \<and> d_bitsNeeded d' = d_bitsNeeded d + int j - 8 \<and>
      d_value d' = d_value d * 2 ^ j + b * 2 ^ (T mod 8 + j - 8) - a * 2 ^ 7 \<longrightarrow>
      dec_ok pre F (LOW * 2 ^ j + a) (T + j) d')"
proof -
  define i s where "i = 2 + T div 8" and "s = T mod 8"
  let ?bs = "d_bitstream d"
  have s: "s \<le> 7" "T = 8 * (T div 8) + s" unfolding s_def by simp_all
  have "t + j = (s + j - 8) + 8 * (q + 1)" if "t = 8 * q + s" for t q using j(1) that s_def by simp
  from this [OF s(2)] have "T + j = (s + j - 8) + 8 * (T div 8 + 1)" .
  moreover have "s + j - 8 < 8" using j(2) s by linarith
  ultimately have t: "(T + j) div 8 = T div 8 + 1" "(T + j) mod 8 = s + j - 8" by (rule div_mod_8)+
  have fifo: "ib_inv ?bs" "i_fifo ?bs = pre @ F" "i_fifoIdx ?bs = length pre + i" "i_numHeldBits ?bs = 0"
    and bn: "d_bitsNeeded d = int s - 8" and v: "d_value d + LOW * 2 ^ 7 = code_val (take i F) * 2 ^ s"
    using ok by (auto simp: dec_ok_def i_def s_def)
  have i: "i < length F" using len s j unfolding i_def s_def by linarith
  let ?b = "F ! i"
  have lt: "i_fifoIdx ?bs < length (i_fifo ?bs)" using i fifo by simp
  have nth: "i_fifo ?bs ! i_fifoIdx ?bs = ?b" using fifo by (simp add: nth_append)
  note rd = i_readByte_Some [OF fifo(1) lt, unfolded nth]
  have b: "0 \<le> ?b" "?b < 256" using rd(3) by (simp_all add: is_byte_def)
  have "dec_ok pre F (LOW * 2 ^ j + a) (T + j) d'"
    if "d_bitstream d' = ?bs\<lparr>i_fifoIdx := i_fifoIdx ?bs + 1\<rparr>" "d_bitsNeeded d' = d_bitsNeeded d + int j - 8"
      "d_value d' = d_value d * 2 ^ j + ?b * 2 ^ (s + j - 8) - a * 2 ^ 7" for d' :: "'p BinDecoder" and a
  proof -
    have "s + j = 8 + (s + j - 8)" using j s_def by simp
    then have "(2::int) ^ (s + j) = 2 ^ 8 * 2 ^ (s + j - 8)" by (metis power_add)
    then have p: "(2::int) ^ s * 2 ^ j = 256 * 2 ^ (s + j - 8)" by (simp add: power_add)
    have "(d_value d + LOW * 2 ^ 7) * 2 ^ j = code_val (take i F) * (2 ^ s * 2 ^ j)" using v by simp
    then have "d_value d' + (LOW * 2 ^ j + a) * 2 ^ 7 = (code_val (take i F) * 256 + ?b) * 2 ^ (s + j - 8)"
      unfolding p that(3) by (simp add: algebra_simps)
    then have "d_value d' + (LOW * 2 ^ j + a) * 2 ^ 7 = code_val (take (Suc i) F) * 2 ^ (s + j - 8)"
      using code_val_snoc [OF i rd(3)] by simp
    then show ?thesis using that fifo i j rd(2) bn unfolding dec_ok_def t by (simp add: i_def s_def)
  qed
  then show ?thesis using rd(1) b unfolding s_def [symmetric] by blast
qed

section \<open>The operations decode what the interval says\<close>

text \<open>The refill several operations end with: a byte is read once the register has run out of bits.\<close>

definition d_refill :: "'p BinDecoder \<Rightarrow> 'p BinDecoder option" where
  "d_refill d =
     (if d_bitsNeeded d \<ge> 0
      then do {
        (b, bs) \<leftarrow> i_readByte (d_bitstream d);
        Some (d\<lparr>d_bitstream := bs, d_value := u32 (d_value d + push_bit (nat (d_bitsNeeded d)) b),
                d_bitsNeeded := d_bitsNeeded d - 8\<rparr>)
      }
      else Some d)"

lemma d_refill_Some:
  fixes d d1 :: "'p BinDecoder"
  assumes ok: "dec_ok pre F LOW T d" and j: "j \<le> 8" and len: "9 + (T + j) \<le> 8 * length F"
    and d1: "d_bitstream d1 = d_bitstream d" "d_bitsNeeded d1 = d_bitsNeeded d + int j"
      "d_value d1 = d_value d * 2 ^ j - a * 2 ^ 7" "0 \<le> d_value d1" "d_value d1 < 2 ^ 24"
  shows "\<exists>d2. d_refill d1 = Some d2 \<and> dec_ok pre F (LOW * 2 ^ j + a) (T + j) d2 \<and>
    d_range d2 = d_range d1 \<and> d_ctx d2 = d_ctx d1"
proof (cases "T mod 8 + j < 8")
  case True
  have "d_bitsNeeded d1 < 0" using True ok d1(2) by (simp add: dec_ok_def)
  then show ?thesis using shift_no_byte [OF ok True d1(1-3)] by (simp add: d_refill_def)
next
  case False
  define k where "k = T mod 8 + j - 8"
  have k: "k \<le> 7" using j by (simp add: k_def)
  obtain b bs where b: "i_readByte (d_bitstream d) = Some (b, bs)" "0 \<le> b" "b < 256"
    and d': "\<And>(d' :: 'p BinDecoder) a. d_bitstream d' = bs \<Longrightarrow> d_bitsNeeded d' = d_bitsNeeded d + int j - 8 \<Longrightarrow>
        d_value d' = d_value d * 2 ^ j + b * 2 ^ k - a * 2 ^ 7 \<Longrightarrow>
        dec_ok pre F (LOW * 2 ^ j + a) (T + j) d'"
    using shift_byte [OF ok _ j len] False unfolding k_def not_less by blast
  have bn: "d_bitsNeeded d1 = int k" using ok False d1(2) unfolding dec_ok_def k_def by auto
  have "b * 2 ^ k \<le> 255 * 2 ^ 7" using b k by (intro mult_mono power_increasing) simp_all
  then have "u32 (d_value d1 + push_bit k b) = d_value d1 + b * 2 ^ k"
    using d1(4,5) b by (simp add: push_bit_eq_mult)
  then have "d_refill d1 = Some (d1\<lparr>d_bitstream := bs, d_value := d_value d1 + b * 2 ^ k, d_bitsNeeded := int k - 8\<rparr>)"
    using b(1) d1(1) bn by (simp add: d_refill_def)
  then show ?thesis using d' [of _ a] d1 bn by simp
qed

text \<open>Taking a number of sub-intervals away from the lower end.\<close>

lemma dec_ok_sub:
  "dec_ok pre F LOW T d \<Longrightarrow> d_bitstream d' = d_bitstream d \<Longrightarrow> d_bitsNeeded d' = d_bitsNeeded d \<Longrightarrow>
   d_value d' = d_value d - a * 2 ^ 7 \<Longrightarrow> dec_ok pre F (LOW + a) T d'"
  by (simp add: dec_ok_def distrib_right)

lemma code_in_length: "code_in F LOW R T \<Longrightarrow> 9 + T \<le> 8 * length F"
  by (simp add: code_in_def)

lemma code_in_threshold:
  assumes "dec_ok pre F LOW T d" "code_in F (LOW + a) R T"
  shows "a * 2 ^ 7 \<le> d_value d" "d_value d < (a + R) * 2 ^ 7"
  using threshold [OF assms(1) code_in_length [OF assms(2)], of a]
    threshold [OF assms(1) code_in_length [OF assms(2)], of "a + R"] assms(2)
  by (simp_all add: code_in_def not_le [symmetric] add.assoc)

lemma decodeBinEP_Some:
  assumes ok: "dec_ok pre F LOW T d" and R: "0 < d_range d" "d_range d \<le> 512"
    and code: "code_in F (LOW * 2 + d_range d * bin) (d_range d) (T + 1)" and bin: "bin = 0 \<or> bin = 1"
  shows "\<exists>d'. decodeBinEP d = Some (bin, d') \<and> dec_ok pre F (LOW * 2 + d_range d * bin) (T + 1) d' \<and>
    d_range d' = d_range d \<and> d_ctx d' = d_ctx d"
proof -
  let ?R = "d_range d"
  have "code_in F LOW ?R T"
    using code_in_nested [of F LOW 1 "?R * bin" ?R T ?R] code bin R by auto
  note v = value_range [OF ok this]
  let ?d1 = "d\<lparr>d_value := d_value d * 2, d_bitsNeeded := d_bitsNeeded d + 1\<rparr>"
  have "?R * 2 ^ 7 \<le> 512 * 2 ^ 7" using R by simp
  with v have u: "u32 (d_value d * 2) = d_value d * 2" "d_value d * 2 < 2 ^ 24" "0 \<le> d_value d" by simp_all
  obtain d2 where d2: "d_refill ?d1 = Some d2" "dec_ok pre F (LOW * 2) (T + 1) d2" "d_range d2 = ?R" "d_ctx d2 = d_ctx d"
    using d_refill_Some [OF ok, of 1 ?d1 0] code_in_length [OF code] u(2,3) by auto
  have "(if d_bitsNeeded ?d1 \<ge> 0 then do {
          (b, bs) \<leftarrow> i_readByte (d_bitstream ?d1);
          Some (?d1\<lparr>d_bitstream := bs, d_value := u32 (d_value ?d1 + b), d_bitsNeeded := - 8\<rparr>)
        } else Some ?d1) = d_refill ?d1"
  proof -
    have "d_bitsNeeded d + 1 \<le> 0" using ok by (auto simp: dec_ok_def)
    then show ?thesis by (simp add: d_refill_def cong: if_cong)
  qed
  with d2(1) have step: "(if d_bitsNeeded ?d1 \<ge> 0 then do {
          (b, bs) \<leftarrow> i_readByte (d_bitstream ?d1);
          Some (?d1\<lparr>d_bitstream := bs, d_value := u32 (d_value ?d1 + b), d_bitsNeeded := - 8\<rparr>)
        } else Some ?d1) = Some d2" by simp
  have sr: "u32 (push_bit 7 ?R) = ?R * 2 ^ 7" using R by (simp add: push_bit_eq_mult)
  have t: "?R * bin * 2 ^ 7 \<le> d_value d2" "d_value d2 < (?R * bin + ?R) * 2 ^ 7"
    using code_in_threshold [OF d2(2) code] by simp_all
  have "decodeBinEP d = (if d_value d2 \<ge> ?R * 2 ^ 7 then Some (1, d2\<lparr>d_value := d_value d2 - ?R * 2 ^ 7\<rparr>) else Some (0, d2))"
    using step by (simp add: decodeBinEP_def Let_def u(1) d2(3) sr mult_2_right [symmetric])
  then show ?thesis
    using t bin R d2 dec_ok_sub [OF d2(2), of "d2\<lparr>d_value := d_value d2 - ?R * 2 ^ 7\<rparr>" ?R]
    by auto
qed

lemma compare_loop_eq:
  fixes bins R b v :: int
  assumes "0 \<le> bins" "bins < 2 ^ n" "bins * R \<le> v" "v < (bins + 1) * R" "0 \<le> b" "(b + 1) * 2 ^ n \<le> 2 ^ 32" "0 < R"
  shows "compare_loop n (R * 2 ^ n) b v = (b * 2 ^ n + bins, v - bins * R)"
  using assms
proof (induction n arbitrary: bins b v)
  case (Suc n)
  let ?c = "if 2 ^ n \<le> bins then 1 else 0 :: int"
  have half: "drop_bit 1 (R * 2 ^ Suc n) = R * 2 ^ n" by (simp add: drop_bit_eq_div)
  have "(b + 1) * 2 * 2 ^ n \<le> 2 ^ 32" using Suc.prems(6) by (simp add: algebra_simps)
  moreover have "(b + 1) * 2 * 1 \<le> (b + 1) * 2 * 2 ^ n" using Suc.prems(5) by (intro mult_left_mono) simp_all
  ultimately have "(b + 1) * 2 * 1 \<le> 2 ^ 32" by (rule order_trans [rotated])
  then have b2: "2 * b + 2 \<le> 2 ^ 32" by simp
  have cmp: "R * 2 ^ n \<le> v \<longleftrightarrow> 2 ^ n \<le> bins"
  proof
    assume "2 ^ n \<le> bins"
    then have "2 ^ n * R \<le> bins * R" using Suc.prems(7) by (intro mult_right_mono) simp_all
    then show "R * 2 ^ n \<le> v" using Suc.prems(3) by (simp add: mult.commute)
  next
    assume "R * 2 ^ n \<le> v"
    then have "2 ^ n * R < (bins + 1) * R" using Suc.prems(4) by (simp add: mult.commute)
    then show "2 ^ n \<le> bins" using Suc.prems(7) by simp
  qed
  have IH: "compare_loop n (R * 2 ^ n) (2 * b + ?c) (v - ?c * (R * 2 ^ n)) =
      ((2 * b + ?c) * 2 ^ n + (bins - ?c * 2 ^ n), v - ?c * (R * 2 ^ n) - (bins - ?c * 2 ^ n) * R)"
  proof (rule Suc.IH)
    show "0 \<le> bins - ?c * 2 ^ n" "bins - ?c * 2 ^ n < 2 ^ n" using Suc.prems by auto
    show "(bins - ?c * 2 ^ n) * R \<le> v - ?c * (R * 2 ^ n)" "v - ?c * (R * 2 ^ n) < (bins - ?c * 2 ^ n + 1) * R"
      using Suc.prems by (auto simp: algebra_simps)
    have "(2 * b + ?c + 1) * 2 ^ n \<le> (2 * b + 2) * 2 ^ n" by (intro mult_right_mono) auto
    also have "\<dots> = (b + 1) * 2 ^ Suc n" by (simp add: algebra_simps)
    finally show "(2 * b + ?c + 1) * 2 ^ n \<le> 2 ^ 32" using Suc.prems(6) by (rule order_trans)
  qed (use Suc.prems in auto)
  have "compare_loop (Suc n) (R * 2 ^ Suc n) b v = compare_loop n (R * 2 ^ n) (2 * b + ?c) (v - ?c * (R * 2 ^ n))"
    using b2 Suc.prems(5) cmp unfolding compare_loop.simps half Let_def by auto
  then show ?case unfolding IH by (auto simp: algebra_simps)
qed simp

text \<open>Up to eight bins: a shift, a refill and the comparisons.\<close>

lemma chunk_decode:
  fixes d d1 d2 :: "'p BinDecoder"
  assumes ok: "dec_ok pre F (LOW * 2 ^ n) T d1" and R: "256 \<le> R" "R \<le> 510"
    and code: "code_in F (LOW * 2 ^ n + R * bins) R T" and n: "n \<le> 8" and bins: "0 \<le> bins" "bins < 2 ^ n"
    and b: "0 \<le> b" "(b + 1) * 2 ^ n \<le> 2 ^ 32"
  shows "compare_loop n (u32 (push_bit (n + 7) R)) b (d_value d1) = (b * 2 ^ n + bins, d_value d1 - bins * (R * 2 ^ 7))"
    and "dec_ok pre F (LOW * 2 ^ n + R * bins) T (d1\<lparr>d_value := d_value d1 - bins * (R * 2 ^ 7)\<rparr>)"
proof -
  have "R * 2 ^ (n + 7) \<le> 510 * 2 ^ 15" using n R by (intro mult_mono power_increasing) simp_all
  then have u: "u32 (push_bit (n + 7) R) = R * 2 ^ 7 * 2 ^ n" using R by (simp add: push_bit_eq_mult power_add)
  have "bins * (R * 2 ^ 7) \<le> d_value d1" "d_value d1 < (bins + 1) * (R * 2 ^ 7)"
    using code_in_threshold [OF ok code] by (simp_all add: algebra_simps)
  then show "compare_loop n (u32 (push_bit (n + 7) R)) b (d_value d1) = (b * 2 ^ n + bins, d_value d1 - bins * (R * 2 ^ 7))"
    unfolding u using bins b R by (intro compare_loop_eq) simp_all
  show "dec_ok pre F (LOW * 2 ^ n + R * bins) T (d1\<lparr>d_value := d_value d1 - bins * (R * 2 ^ 7)\<rparr>)"
    using dec_ok_sub [OF ok, of "d1\<lparr>d_value := d_value d1 - bins * (R * 2 ^ 7)\<rparr>" "R * bins"] by (simp add: algebra_simps)
qed

lemma decode_chunks_Some:
  fixes d :: "'p BinDecoder"
  assumes "dec_ok pre F LOW T d" "256 \<le> d_range d" "d_range d \<le> 510"
    "code_in F (LOW * 2 ^ n + d_range d * bins) (d_range d) (T + n)" "0 \<le> bins" "bins < 2 ^ n"
    "0 \<le> b" "(b + 1) * 2 ^ n \<le> 2 ^ 32"
  shows "\<exists>d'. decode_chunks n b d = Some (b * 2 ^ n + bins, d') \<and> dec_ok pre F (LOW * 2 ^ n + d_range d * bins) (T + n) d' \<and>
    d_range d' = d_range d \<and> d_ctx d' = d_ctx d"
  using assms
proof (induction n arbitrary: LOW T d bins b rule: less_induct)
  case (less n)
  note ok = less.prems(1) and R = less.prems(2,3) and code = less.prems(4) and bins = less.prems(5,6) and b = less.prems(7,8)
  let ?R = "d_range d"
  have fit: "?R * x + ?R \<le> ?R * 2 ^ m" if "x < 2 ^ m" for x :: int and m
    using mult_left_mono [of "x + 1" "2 ^ m" ?R] that R by (simp add: distrib_left)
  have "code_in F LOW ?R T"
    using code_in_nested [OF code] bins R fit [OF bins(2)] by simp
  note v = value_range [OF ok this]
  have vb: "d_value d * 2 ^ m \<le> 510 * 2 ^ 15" if "m \<le> 8" for m
  proof -
    have "d_value d * 2 ^ m \<le> (510 * 2 ^ 7) * 2 ^ 8" using v R that by (intro mult_mono power_increasing) simp_all
    then show ?thesis by simp
  qed
  show ?case
  proof (cases "n > 8")
    case False
    let ?d1 = "d\<lparr>d_bitsNeeded := d_bitsNeeded d + int n, d_value := d_value d * 2 ^ n\<rparr>"
    have u: "u32 (push_bit n (d_value d)) = d_value d * 2 ^ n" using vb [of n] False v by (simp add: push_bit_eq_mult)
    obtain d2 where d2: "d_refill ?d1 = Some d2" "dec_ok pre F (LOW * 2 ^ n) (T + n) d2" "d_range d2 = ?R" "d_ctx d2 = d_ctx d"
      using d_refill_Some [OF ok, of n ?d1 0] code_in_length [OF code] vb [of n] False v by auto
    note c = chunk_decode [OF d2(2) R code _ bins b]
    have "decode_chunks n b d = Some (b * 2 ^ n + bins, d2\<lparr>d_value := d_value d2 - bins * (?R * 2 ^ 7)\<rparr>)"
      using False d2(1,3) c(1) unfolding d_refill_def by (subst decode_chunks.simps) (simp add: Let_def u)
    then show ?thesis using c(2) False d2(3,4) by simp
  next
    case True
    define m where "m = n - 8"
    have n: "n = 8 + m" "m < n" using True by (simp_all add: m_def)
    let ?h = "bins div 2 ^ m" and ?l = "bins mod 2 ^ m"
    have h: "0 \<le> ?h" "?h < 2 ^ 8" using bins div_less_pow [of bins n m] by (simp_all add: n pos_imp_zdiv_nonneg_iff)
    have l: "0 \<le> ?l" "?l < 2 ^ m" by simp_all
    have bl: "bins = ?h * 2 ^ m + ?l" by (simp only: div_mult_mod_eq)
    have low': "LOW * 2 ^ n + r * (h * 2 ^ m + l) = (LOW * 2 ^ 8 + r * h) * 2 ^ m + r * l" for r h l :: int
      by (simp add: n power_add algebra_simps)
    from low' [of ?R ?h ?l] have low: "LOW * 2 ^ n + ?R * bins = (LOW * 2 ^ 8 + ?R * ?h) * 2 ^ m + ?R * ?l"
      unfolding bl [symmetric] .
    have tm: "T + n = (T + 8) + m" using n by simp
    have code8: "code_in F (LOW * 2 ^ 8 + ?R * ?h) ?R (T + 8)"
      using code_in_nested [of F "LOW * 2 ^ 8 + ?R * ?h" m "?R * ?l" ?R "T + 8" ?R] code fit [OF l(2)] R l
      unfolding low tm by simp
    obtain x bs where x: "i_readByte (d_bitstream d) = Some (x, bs)" "0 \<le> x" "x < 256"
      and d': "\<And>(d' :: 'p BinDecoder) a. d_bitstream d' = bs \<Longrightarrow> d_bitsNeeded d' = d_bitsNeeded d + int 8 - 8 \<Longrightarrow>
        d_value d' = d_value d * 2 ^ 8 + x * 2 ^ (T mod 8 + 8 - 8) - a * 2 ^ 7 \<Longrightarrow> dec_ok pre F (LOW * 2 ^ 8 + a) (T + 8) d'"
      using shift_byte [OF ok, of 8] code_in_length [OF code8] by auto
    define s where "s = T mod 8"
    have s: "s \<le> 7" "nat (8 + d_bitsNeeded d) = s" using ok by (auto simp: dec_ok_def s_def)
    have "x * 2 ^ s \<le> 255 * 2 ^ 7" using x s by (intro mult_mono power_increasing) simp_all
    then have val: "u32 (u32 (push_bit 8 (d_value d)) + push_bit s x) = d_value d * 2 ^ 8 + x * 2 ^ s"
      using vb [of 8] v x by (simp add: push_bit_eq_mult)
    let ?d1 = "d\<lparr>d_bitstream := bs, d_value := d_value d * 2 ^ 8 + x * 2 ^ s\<rparr>"
    have d1: "dec_ok pre F (LOW * 2 ^ 8) (T + 8) ?d1" using d' [of ?d1 0] by (simp add: s_def)
    have "(1::int) \<le> 2 ^ m" by simp
    then have "(b + 1) * 1 \<le> (b + 1) * 2 ^ m" using b(1) by (intro mult_left_mono) simp_all
    then have b8: "(b + 1) * 2 ^ 8 \<le> 2 ^ 32" using b(2) n by (simp add: power_add)
    note c = chunk_decode [OF d1 R code8 _ h b(1) b8]
    let ?d3 = "?d1\<lparr>d_value := d_value ?d1 - ?h * (?R * 2 ^ 7)\<rparr>"
    have "decode_chunks n b d = decode_chunks m (b * 2 ^ 8 + ?h) ?d3"
      using True x(1) c(1) unfolding s(2) [symmetric]
      by (subst decode_chunks.simps) (simp add: Let_def val s(2) m_def)
    moreover have "\<exists>d'. decode_chunks m (b * 2 ^ 8 + ?h) ?d3 = Some ((b * 2 ^ 8 + ?h) * 2 ^ m + ?l, d') \<and>
        dec_ok pre F ((LOW * 2 ^ 8 + ?R * ?h) * 2 ^ m + ?R * ?l) ((T + 8) + m) d' \<and> d_range d' = d_range d \<and> d_ctx d' = d_ctx d"
    proof -
      have "b * 2 ^ 8 + ?h + 1 \<le> (b + 1) * 2 ^ 8" using h by (simp add: distrib_right)
      then have "(b * 2 ^ 8 + ?h + 1) * 2 ^ m \<le> (b + 1) * 2 ^ 8 * 2 ^ m" by (intro mult_right_mono) simp_all
      also have "\<dots> = (b + 1) * 2 ^ n" by (simp only: n power_add mult.assoc)
      finally have "(b * 2 ^ 8 + ?h + 1) * 2 ^ m \<le> 2 ^ 32" using b(2) by (rule order_trans)
      then show ?thesis
        using less.IH [OF n(2), of "LOW * 2 ^ 8 + ?R * ?h" "T + 8" ?d3 ?l "b * 2 ^ 8 + ?h"] c(2) R code l h b
        unfolding low tm by simp
    qed
    moreover have "(b * 2 ^ 8 + ?h) * 2 ^ m + ?l = b * 2 ^ n + (?h * 2 ^ m + ?l)"
      by (simp only: n power_add distrib_right mult.assoc add.assoc)
    then have "(b * 2 ^ 8 + ?h) * 2 ^ m + ?l = b * 2 ^ n + bins" unfolding bl [symmetric] .
    ultimately show ?thesis unfolding low tm by simp
  qed
qed

text \<open>
  The bypass path of an aligned register (\<open>m_range = 256\<close>): the bins are the upper bits of the
  register, and the byte read is merged with \<open>OR\<close> into bits that are zero.
\<close>

lemma aligned_chunk:
  fixes d :: "'p BinDecoder"
  assumes ok: "dec_ok pre F LOW T d" and n: "0 < n" "n \<le> 8"
    and code: "code_in F (LOW * 2 ^ n + 256 * h) 256 (T + n)" and h: "0 \<le> h" "h < 2 ^ n"
  shows "drop_bit (15 - n) (d_value d) AND (2 ^ n - 1) = h"
    and "u32 (push_bit n (d_value d)) AND 0x7FFF = d_value d * 2 ^ n - 256 * h * 2 ^ 7"
    and "0 \<le> d_value d * 2 ^ n - 256 * h * 2 ^ 7"
    and "(d_value d * 2 ^ n - 256 * h * 2 ^ 7) mod 2 ^ (T mod 8 + n) = 0"
proof -
  let ?v = "d_value d"
  have "256 * h + 256 \<le> 256 * 2 ^ n" using h by simp
  then have in0: "code_in F LOW 256 T" using code_in_nested [OF code] h by simp
  note v = value_range [OF ok this]
  have p: "(2::int) ^ (8 - n) * 2 ^ 7 = 2 ^ (15 - n)" "(2::int) ^ (15 - n) * 2 ^ n = 2 ^ 15"
    using n power_add [of "2::int" "8 - n" 7] power_add [of "2::int" "15 - n" n] by simp_all
  have e: "8 * length F - 9 - T = n + (8 * length F - 9 - (T + n))"
    using code_in_length [OF code] by linarith
  have scale: "(LOW + x * 2 ^ (8 - n)) * 2 ^ (8 * length F - 9 - T) = (LOW * 2 ^ n + 256 * x) * 2 ^ (8 * length F - 9 - (T + n))" for x
  proof -
    have "(2::int) ^ (8 - n) * 2 ^ n = 256" using n by (simp flip: power_add)
    then have "x * 2 ^ (8 - n) * 2 ^ n = 256 * x" by (metis mult.assoc mult.commute)
    then show ?thesis unfolding e power_add mult.assoc [symmetric] by (simp add: distrib_right)
  qed
  have th: "x * 2 ^ (15 - n) \<le> ?v \<longleftrightarrow> (LOW * 2 ^ n + 256 * x) * 2 ^ (8 * length F - 9 - (T + n)) \<le> code_val F" for x
    using threshold [OF ok code_in_length [OF in0], of "x * 2 ^ (8 - n)"] unfolding scale mult.assoc p .
  have "h * 2 ^ (15 - n) \<le> ?v" "?v < (h + 1) * 2 ^ (15 - n)"
    using th [of h] th [of "h + 1"] code by (auto simp: code_in_def not_le algebra_simps)
  then have hv: "h = ?v div 2 ^ (15 - n)" by (simp add: div_pos_geq int_div_pos_eq [of ?v "2 ^ (15 - n)" h "?v - h * 2 ^ (15 - n)"] distrib_right)
  show "drop_bit (15 - n) ?v AND (2 ^ n - 1) = h"
    unfolding and_mask_eq_mod using h by (simp add: drop_bit_eq_div hv [symmetric])
  have "?v * 2 ^ n \<le> 2 ^ 15 * 2 ^ 8" using v n by (intro mult_mono power_increasing) simp_all
  then have "u32 (push_bit n ?v) = ?v * 2 ^ n" using v by (simp add: push_bit_eq_mult)
  moreover have "?v * 2 ^ n mod 2 ^ 15 = ?v * 2 ^ n - 256 * h * 2 ^ 7"
  proof -
    have "?v * 2 ^ n mod (2 ^ (15 - n) * 2 ^ n) = ?v mod 2 ^ (15 - n) * 2 ^ n" by (rule mod_mult_mult2)
    also have "?v mod 2 ^ (15 - n) = ?v - h * 2 ^ (15 - n)" by (simp add: hv minus_div_mult_eq_mod)
    finally show ?thesis using p(2) by (simp add: left_diff_distrib mult.assoc)
  qed
  moreover have "(0x7FFF :: int) = 2 ^ 15 - 1" by simp
  ultimately show val: "u32 (push_bit n ?v) AND 0x7FFF = ?v * 2 ^ n - 256 * h * 2 ^ 7"
    by (simp only: and_mask_eq_mod)
  show "0 \<le> ?v * 2 ^ n - 256 * h * 2 ^ 7"
    unfolding val [symmetric] by simp
  define s where "s = T mod 8"
  have s: "s \<le> 7" by (simp add: s_def)
  have "LOW * 2 ^ 7 = LOW * 2 ^ (7 - s) * 2 ^ s" using s by (simp only: mult.assoc power_add [symmetric]) simp
  moreover have "?v = code_val (take (2 + T div 8) F) * 2 ^ s - LOW * 2 ^ 7"
    using ok unfolding dec_ok_def s_def [symmetric] by linarith
  ultimately have "?v = code_val (take (2 + T div 8) F) * 2 ^ s - LOW * 2 ^ (7 - s) * 2 ^ s" by (simp only:)
  then have "2 ^ s dvd ?v" by simp
  then have "2 ^ (s + n) dvd ?v * 2 ^ n" by (simp add: power_add)
  moreover have "2 ^ (s + n) dvd 256 * h * (2::int) ^ 7"
  proof -
    have "(2::int) ^ (s + n) dvd 2 ^ 15" using s n by (intro le_imp_power_dvd) simp
    then have "(2::int) ^ (s + n) dvd 2 ^ 15 * h" by simp
    then show ?thesis by simp
  qed
  ultimately show "(?v * 2 ^ n - 256 * h * 2 ^ 7) mod 2 ^ (T mod 8 + n) = 0"
    by (simp add: s_def [symmetric] mod_eq_0_iff_dvd dvd_diff)
qed

lemma decodeAlignedBinsEP_Some:
  fixes d :: "'p BinDecoder"
  assumes "dec_ok pre F LOW T d" "d_range d = 256"
    "code_in F (LOW * 2 ^ n + 256 * bins) 256 (T + n)" "0 \<le> bins" "bins < 2 ^ n"
    "0 \<le> b" "(b + 1) * 2 ^ n \<le> 2 ^ 32"
  shows "\<exists>d'. decodeAlignedBinsEP n b d = Some (b * 2 ^ n + bins, d') \<and> dec_ok pre F (LOW * 2 ^ n + 256 * bins) (T + n) d' \<and>
    d_range d' = d_range d \<and> d_ctx d' = d_ctx d"
  using assms
proof (induction n arbitrary: LOW T d bins b rule: less_induct)
  case (less n)
  note ok = less.prems(1) and R = less.prems(2) and code = less.prems(3) and bins = less.prems(4,5) and b = less.prems(6,7)
  show ?case
  proof (cases "n = 0")
    case True
    then have "bins = 0" using bins by simp
    then show ?thesis using less.prems True by (subst decodeAlignedBinsEP.simps) simp
  next
    case False
    define k m where "k = min n 8" and "m = n - k"
    have n: "n = k + m" "m < n" "0 < k" "k \<le> 8" "n - k = m" using False by (auto simp: k_def m_def)
    let ?h = "bins div 2 ^ m" and ?l = "bins mod 2 ^ m"
    have h: "0 \<le> ?h" "?h < 2 ^ k" using bins div_less_pow [of bins n m] by (simp_all add: n pos_imp_zdiv_nonneg_iff)
    have l: "0 \<le> ?l" "?l < 2 ^ m" by simp_all
    have bl: "bins = ?h * 2 ^ m + ?l" by (simp only: div_mult_mod_eq)
    have "LOW * 2 ^ n + 256 * (h * 2 ^ m + l) = (LOW * 2 ^ k + 256 * h) * 2 ^ m + 256 * l" for h l :: int
      by (simp add: n power_add algebra_simps)
    from this [of ?h ?l] have low: "LOW * 2 ^ n + 256 * bins = (LOW * 2 ^ k + 256 * ?h) * 2 ^ m + 256 * ?l"
      unfolding bl [symmetric] .
    have tm: "T + n = (T + k) + m" using n by simp
    have "256 * (?l + 1) \<le> 256 * 2 ^ m" using zless_imp_add1_zle [OF l(2)] by (intro mult_left_mono) simp_all
    then have "256 * ?l + 256 \<le> 256 * 2 ^ m" by simp
    then have codek: "code_in F (LOW * 2 ^ k + 256 * ?h) 256 (T + k)"
      using code_in_nested [of F "LOW * 2 ^ k + 256 * ?h" m "256 * ?l" 256 "T + k" 256] code l unfolding low tm by simp
    note c = aligned_chunk [OF ok n(3,4) codek h]
    let ?v = "d_value d * 2 ^ k - 256 * ?h * 2 ^ 7"
    let ?d1 = "d\<lparr>d_value := ?v, d_bitsNeeded := d_bitsNeeded d + int k\<rparr>"
    have v15: "?v < 2 ^ 15"
    proof -
      have "u32 (push_bit k (d_value d)) AND 0x7FFF = u32 (push_bit k (d_value d)) mod 2 ^ 15"
        using and_mask_eq_mod [of "u32 (push_bit k (d_value d))" 15] by simp
      then show ?thesis unfolding c(2) [symmetric] by simp
    qed
    have bb: "u32 (push_bit k b) OR ?h = b * 2 ^ k + ?h" "0 \<le> b * 2 ^ k + ?h" "(b * 2 ^ k + ?h + 1) * 2 ^ m \<le> 2 ^ 32"
    proof -
      have "b * 2 ^ k + ?h + 1 \<le> (b + 1) * 2 ^ k" using h by (simp add: distrib_right)
      then have "(b * 2 ^ k + ?h + 1) * 2 ^ m \<le> (b + 1) * 2 ^ k * 2 ^ m" by (intro mult_right_mono) simp_all
      also have "\<dots> = (b + 1) * 2 ^ n" by (simp only: n(1) power_add mult.assoc)
      finally show *: "(b * 2 ^ k + ?h + 1) * 2 ^ m \<le> 2 ^ 32" using b(2) by (rule order_trans)
      show nonneg: "0 \<le> b * 2 ^ k + ?h" using b h by simp
      have "(b * 2 ^ k + ?h + 1) * 1 \<le> (b * 2 ^ k + ?h + 1) * 2 ^ m" using nonneg by (intro mult_left_mono) simp_all
      from order_trans [OF this *] have "b * 2 ^ k + ?h + 1 \<le> 2 ^ 32" by (simp only: mult_1_right)
      then have "u32 (push_bit k b) = b * 2 ^ k" using b h by (simp add: push_bit_eq_mult)
      then show "u32 (push_bit k b) OR ?h = b * 2 ^ k + ?h" using mult_or_eq_add [OF h] by simp
    qed
    have "\<exists>d2. decodeAlignedBinsEP n b d = decodeAlignedBinsEP m (b * 2 ^ k + ?h) d2 \<and>
        dec_ok pre F (LOW * 2 ^ k + 256 * ?h) (T + k) d2 \<and> d_range d2 = d_range d \<and> d_ctx d2 = d_ctx d"
    proof (cases "T mod 8 + k < 8")
      case True
      then have "d_bitsNeeded d + int k < 0" using ok by (simp add: dec_ok_def)
      then have "decodeAlignedBinsEP n b d = decodeAlignedBinsEP m (b * 2 ^ k + ?h) ?d1"
        using False by (subst decodeAlignedBinsEP.simps) (simp add: Let_def c(1,2) bb(1) n(5) k_def [symmetric])
      moreover have "dec_ok pre F (LOW * 2 ^ k + 256 * ?h) (T + k) ?d1"
        by (rule shift_no_byte [OF ok True]) simp_all
      ultimately show ?thesis by auto
    next
      case ge: False
      define j where "j = T mod 8 + k - 8"
      obtain x bs where x: "i_readByte (d_bitstream d) = Some (x, bs)" "0 \<le> x" "x < 256"
        and d': "\<And>(d' :: 'p BinDecoder) a. d_bitstream d' = bs \<Longrightarrow> d_bitsNeeded d' = d_bitsNeeded d + int k - 8 \<Longrightarrow>
          d_value d' = d_value d * 2 ^ k + x * 2 ^ j - a * 2 ^ 7 \<Longrightarrow> dec_ok pre F (LOW * 2 ^ k + a) (T + k) d'"
        using shift_byte [OF ok _ n(4) code_in_length [OF codek]] ge unfolding j_def not_less by blast
      have bn: "d_bitsNeeded d + int k = int j" using ok ge unfolding dec_ok_def j_def by auto
      have xj: "0 \<le> x * 2 ^ j" "x * 2 ^ j < 2 ^ (T mod 8 + k)"
      proof -
        have "x * 2 ^ j < 2 ^ 8 * 2 ^ j" using x by simp
        also have "(2::int) ^ 8 * 2 ^ j = 2 ^ (T mod 8 + k)" using ge by (simp only: j_def power_add [symmetric]) simp
        finally show "x * 2 ^ j < 2 ^ (T mod 8 + k)" .
      qed (use x in simp)
      have "?v OR push_bit j x = ?v + x * 2 ^ j"
      proof -
        have "?v = ?v div 2 ^ (T mod 8 + k) * 2 ^ (T mod 8 + k)" using c(4) by (metis add.right_neutral div_mult_mod_eq)
        then show ?thesis using mult_or_eq_add [OF xj, of "?v div 2 ^ (T mod 8 + k)"] by (simp add: push_bit_eq_mult)
      qed
      moreover note x(1)
      ultimately have "decodeAlignedBinsEP n b d = decodeAlignedBinsEP m (b * 2 ^ k + ?h) (d\<lparr>d_bitstream := bs, d_value := ?v + x * 2 ^ j, d_bitsNeeded := int j - 8\<rparr>)"
        using False bn x(1) by (subst decodeAlignedBinsEP.simps) (simp add: Let_def c(1,2) bb(1) n(5) k_def [symmetric])
      moreover have "dec_ok pre F (LOW * 2 ^ k + 256 * ?h) (T + k) (d\<lparr>d_bitstream := bs, d_value := ?v + x * 2 ^ j, d_bitsNeeded := int j - 8\<rparr>)"
        by (rule d') (use bn in simp_all)
      ultimately show ?thesis by auto
    qed
    then obtain d2 where d2: "decodeAlignedBinsEP n b d = decodeAlignedBinsEP m (b * 2 ^ k + ?h) d2"
      "dec_ok pre F (LOW * 2 ^ k + 256 * ?h) (T + k) d2" "d_range d2 = d_range d" "d_ctx d2 = d_ctx d" by blast
    have "\<exists>d'. decodeAlignedBinsEP m (b * 2 ^ k + ?h) d2 = Some ((b * 2 ^ k + ?h) * 2 ^ m + ?l, d') \<and>
        dec_ok pre F ((LOW * 2 ^ k + 256 * ?h) * 2 ^ m + 256 * ?l) ((T + k) + m) d' \<and> d_range d' = d_range d2 \<and> d_ctx d' = d_ctx d2"
      using less.IH [OF n(2) d2(2), of ?l "b * 2 ^ k + ?h"] d2(3) R code l bb unfolding low tm by simp
    moreover have "(b * 2 ^ k + ?h) * 2 ^ m + ?l = b * 2 ^ n + (?h * 2 ^ m + ?l)"
      by (simp only: n(1) power_add distrib_right mult.assoc add.assoc)
    then have "(b * 2 ^ k + ?h) * 2 ^ m + ?l = b * 2 ^ n + bins" unfolding bl [symmetric] .
    ultimately show ?thesis using d2 unfolding low tm by simp
  qed
qed

lemma decodeBinsEP_Some:
  fixes d :: "'p BinDecoder"
  assumes "dec_ok pre F LOW T d" "256 \<le> d_range d" "d_range d \<le> 510" "n \<le> 32"
    "code_in F (LOW * 2 ^ n + d_range d * bins) (d_range d) (T + n)" "0 \<le> bins" "bins < 2 ^ n"
  shows "\<exists>d'. decodeBinsEP n d = Some (bins, d') \<and> dec_ok pre F (LOW * 2 ^ n + d_range d * bins) (T + n) d' \<and>
    d_range d' = d_range d \<and> d_ctx d' = d_ctx d"
proof -
  have "(0 + 1) * 2 ^ n \<le> (2::int) ^ 32" using assms(4) by (simp add: power_increasing [of n 32 "2::int", simplified])
  then show ?thesis
    using decode_chunks_Some [of pre F LOW T d n bins 0] decodeAlignedBinsEP_Some [of pre F LOW T d n bins 0] assms
    by (cases "d_range d = 256") (simp_all add: decodeBinsEP_def)
qed

lemma u32_shift_value:
  "0 \<le> v \<Longrightarrow> v < R * 2 ^ 7 \<Longrightarrow> R \<le> 512 \<Longrightarrow> j \<le> 8 \<Longrightarrow> u32 (push_bit j v) = v * 2 ^ j \<and> v * 2 ^ j < 2 ^ 24"
proof -
  assume *: "0 \<le> v" "v < R * 2 ^ 7" "R \<le> 512" "j \<le> 8"
  have "v * 2 ^ j \<le> (2 ^ 16 - 1) * 2 ^ 8" using * by (intro mult_mono power_increasing) simp_all
  then show ?thesis using * by (simp add: push_bit_eq_mult)
qed

lemma d_renorm_Some:
  fixes d :: "'p BinDecoder"
  assumes ok: "dec_ok pre F LOW T d" and v: "v = d_value d - a * 2 ^ 7" "0 \<le> v" "v < R * 2 ^ 7"
    and R: "0 \<le> R" "R \<le> 510" and j: "j \<le> 8" and len: "9 + (T + j) \<le> 8 * length F"
  shows "\<exists>d'. d_renorm R v j d = Some d' \<and> dec_ok pre F (LOW * 2 ^ j + a * 2 ^ j) (T + j) d' \<and>
    d_range d' = R * 2 ^ j \<and> d_ctx d' = d_ctx d"
proof -
  have u: "u32 (push_bit j v) = v * 2 ^ j" "v * 2 ^ j < 2 ^ 24" using u32_shift_value [of v R j] v R j by auto
  have "R * 2 ^ j \<le> 510 * 2 ^ 8" using R j by (intro mult_mono power_increasing) simp_all
  then have r: "u32 (push_bit j R) = R * 2 ^ j" using R by (simp add: push_bit_eq_mult)
  let ?d1 = "d\<lparr>d_range := R * 2 ^ j, d_value := v * 2 ^ j, d_bitsNeeded := d_bitsNeeded d + int j\<rparr>"
  have "\<exists>d2. d_refill ?d1 = Some d2 \<and> dec_ok pre F (LOW * 2 ^ j + a * 2 ^ j) (T + j) d2 \<and>
      d_range d2 = R * 2 ^ j \<and> d_ctx d2 = d_ctx d"
    using d_refill_Some [OF ok j len, of ?d1 "a * 2 ^ j"] u(2) v by (auto simp: left_diff_distrib)
  moreover have "d_renorm R v j d = d_refill ?d1" by (simp add: d_renorm_def d_refill_def u r)
  ultimately show ?thesis by simp
qed

lemma decodeBinTrm_zero:
  fixes d :: "'p BinDecoder"
  assumes ok: "dec_ok pre F LOW T d" and R: "256 \<le> d_range d" "d_range d \<le> 510"
  shows "256 \<le> d_range d - 2 \<Longrightarrow> code_in F LOW (d_range d - 2) T \<Longrightarrow>
      \<exists>d'. decodeBinTrm d = Some (0, d') \<and> dec_ok pre F LOW T d' \<and> d_range d' = d_range d - 2 \<and> d_ctx d' = d_ctx d"
    and "d_range d - 2 < 256 \<Longrightarrow> code_in F (LOW * 2) (2 * (d_range d - 2)) (T + 1) \<Longrightarrow>
      \<exists>d'. decodeBinTrm d = Some (0, d') \<and> dec_ok pre F (LOW * 2) (T + 1) d' \<and> d_range d' = 2 * (d_range d - 2) \<and> d_ctx d' = d_ctx d"
proof -
  have u: "u32 (d_range d - 2) = d_range d - 2" "u32 (push_bit 7 (d_range d - 2)) = (d_range d - 2) * 2 ^ 7"
    using R by (simp_all add: push_bit_eq_mult)
  {
    assume *: "256 \<le> d_range d - 2" "code_in F LOW (d_range d - 2) T"
    from * show "\<exists>d'. decodeBinTrm d = Some (0, d') \<and> dec_ok pre F LOW T d' \<and> d_range d' = d_range d - 2 \<and> d_ctx d' = d_ctx d"
      using value_range(2) [OF ok *(2)] ok u by (simp add: decodeBinTrm_def Let_def dec_ok_def not_le [symmetric])
  next
    assume r: "d_range d - 2 < 256" and code: "code_in F (LOW * 2) (2 * (d_range d - 2)) (T + 1)"
    have "code_in F LOW (d_range d - 2) T" using code_in_nested [of F LOW 1 0 "2 * (d_range d - 2)" T "d_range d - 2"] code by simp
    note v = value_range [OF ok this]
    have len: "9 + (T + 1) \<le> 8 * length F" using code_in_length [OF code] .
    let ?R = "d_range d - 2"
    have u2: "u32 (?R * 2) = ?R * 2" "u32 (d_value d * 2) = d_value d * 2"
      using R r v u32_shift_value [of "d_value d" ?R 1] by (simp_all add: push_bit_eq_mult)
    let ?d1 = "d\<lparr>d_range := ?R * 2, d_value := d_value d * 2, d_bitsNeeded := d_bitsNeeded d + 1\<rparr>"
    obtain d2 where d2: "d_refill ?d1 = Some d2" "dec_ok pre F (LOW * 2) (T + 1) d2" "d_range d2 = ?R * 2" "d_ctx d2 = d_ctx d"
      using d_refill_Some [OF ok, of 1 ?d1 0] len v R r by auto
    have bn: "d_bitsNeeded d + 1 \<le> 0" using ok by (auto simp: dec_ok_def)
    have lt: "\<not> ?R * 2 ^ 7 \<le> d_value d" using v(2) by simp
    have "decodeBinTrm d = (if d_bitsNeeded ?d1 = 0
        then do { (b, bs) \<leftarrow> i_readByte (d_bitstream ?d1);
          Some (0, ?d1\<lparr>d_bitstream := bs, d_value := u32 (d_value ?d1 + b), d_bitsNeeded := - 8\<rparr>) }
        else Some (0, ?d1))"
      using lt r unfolding decodeBinTrm_def Let_def by (simp add: u u2 mult_2_right [symmetric] del: mult_2_right)
    also have "\<dots> = do { d \<leftarrow> d_refill ?d1; Some (0, d) }"
    proof (cases "d_bitsNeeded d + 1 = 0")
      case True
      then show ?thesis by (cases "i_readByte (d_bitstream d)") (auto simp: d_refill_def)
    next
      case False
      then have "\<not> d_bitsNeeded ?d1 \<ge> 0" "d_bitsNeeded ?d1 \<noteq> 0" using bn by simp_all
      then show ?thesis unfolding d_refill_def by simp
    qed
    finally show "\<exists>d'. decodeBinTrm d = Some (0, d') \<and> dec_ok pre F (LOW * 2) (T + 1) d' \<and> d_range d' = 2 * (d_range d - 2) \<and> d_ctx d' = d_ctx d"
      using d2 by simp
  }
qed

lemma decodeBinTrm_one:
  fixes d :: "'p BinDecoder"
  assumes ok: "dec_ok pre F LOW T d" and R: "256 \<le> d_range d" "d_range d \<le> 510"
    and code: "code_in F (LOW + (d_range d - 2)) 2 T"
  shows "decodeBinTrm d = Some (1, d\<lparr>d_range := d_range d - 2\<rparr>)"
proof -
  have "(d_range d - 2) * 2 ^ 7 \<le> d_value d" using code_in_threshold [OF ok code] by simp
  then show ?thesis using R by (simp add: decodeBinTrm_def Let_def push_bit_eq_mult)
qed

lemma d_align_ok: "dec_ok pre F LOW T d \<Longrightarrow> dec_ok pre F LOW T (d_align d)"
  by (simp add: dec_ok_def d_align_def)

context prob_model
begin

lemma decodeBin_Some:
  fixes d :: "'p BinDecoder"
  assumes ok: "dec_ok pre F LOW T d" and R: "256 \<le> d_range d" "d_range d \<le> 510" and inv: "pm_inv (d_ctx d i)"
    and bin: "bin = 0 \<or> bin = 1"
  defines "lps \<equiv> pm_getLPS pm (d_ctx d i) (d_range d)"
  defines "k \<equiv> pm_getRenormBitsLPS pm lps"
  shows "bin \<noteq> pm_mps pm (d_ctx d i) \<Longrightarrow> code_in F (LOW * 2 ^ k + (d_range d - lps) * 2 ^ k) (lps * 2 ^ k) (T + k) \<Longrightarrow>
      \<exists>d'. decodeBin pm i d = Some (bin, d') \<and> dec_ok pre F (LOW * 2 ^ k + (d_range d - lps) * 2 ^ k) (T + k) d' \<and>
        d_range d' = lps * 2 ^ k \<and> d_ctx d' = (d_ctx d)(i := pm_update pm (d_ctx d i) bin)"
    and "bin = pm_mps pm (d_ctx d i) \<Longrightarrow> d_range d - lps < 256 \<Longrightarrow> code_in F (LOW * 2) ((d_range d - lps) * 2) (T + 1) \<Longrightarrow>
      \<exists>d'. decodeBin pm i d = Some (bin, d') \<and> dec_ok pre F (LOW * 2) (T + 1) d' \<and>
        d_range d' = (d_range d - lps) * 2 \<and> d_ctx d' = (d_ctx d)(i := pm_update pm (d_ctx d i) bin)"
    and "bin = pm_mps pm (d_ctx d i) \<Longrightarrow> 256 \<le> d_range d - lps \<Longrightarrow> code_in F LOW (d_range d - lps) T \<Longrightarrow>
      \<exists>d'. decodeBin pm i d = Some (bin, d') \<and> dec_ok pre F LOW T d' \<and>
        d_range d' = d_range d - lps \<and> d_ctx d' = (d_ctx d)(i := pm_update pm (d_ctx d i) bin)"
proof -
  let ?r = "d_range d - lps" and ?p = "d_ctx d i"
  have l: "0 < lps" "128 \<le> ?r" "k \<le> 8"
    using lps_pos [OF inv R] lps_leaves [OF inv R] lps_renorm [OF inv R] by (simp_all add: lps_def k_def)
  have u: "u32 ?r = ?r" "u32 (push_bit 7 ?r) = ?r * 2 ^ 7" using l R by (simp_all add: push_bit_eq_mult)
  {
    assume ne: "bin \<noteq> pm_mps pm ?p" and code: "code_in F (LOW * 2 ^ k + ?r * 2 ^ k) (lps * 2 ^ k) (T + k)"
    have "code_in F (LOW + ?r) lps T"
      using code_in_nested [of F "LOW + ?r" k 0 "lps * 2 ^ k" T lps] code by (simp add: distrib_right)
    note th = code_in_threshold [OF ok this]
    obtain d' where d': "d_renorm lps (d_value d - ?r * 2 ^ 7) k d = Some d'"
      "dec_ok pre F (LOW * 2 ^ k + ?r * 2 ^ k) (T + k) d'" "d_range d' = lps * 2 ^ k" "d_ctx d' = d_ctx d"
      using d_renorm_Some [OF ok refl _ _ _ _ l(3) code_in_length [OF code], of ?r lps] th l R by (auto simp: distrib_right)
    have "1 - pm_mps pm ?p = bin" using mps_bin [OF inv] bin ne by auto
    then have "decodeBin pm i d = Some (bin, d'\<lparr>d_ctx := (d_ctx d')(i := pm_update pm ?p bin)\<rparr>)"
      using th(1) d'(1) by (simp add: decodeBin_def Let_def lps_def [symmetric] k_def [symmetric] u)
    then show "\<exists>d'. decodeBin pm i d = Some (bin, d') \<and> dec_ok pre F (LOW * 2 ^ k + ?r * 2 ^ k) (T + k) d' \<and>
        d_range d' = lps * 2 ^ k \<and> d_ctx d' = (d_ctx d)(i := pm_update pm ?p bin)"
      using d' by (simp add: dec_ok_def)
  next
    assume eq: "bin = pm_mps pm ?p" and r: "?r < 256" and code: "code_in F (LOW * 2) (?r * 2) (T + 1)"
    have "code_in F LOW ?r T" using code_in_nested [of F LOW 1 0 "?r * 2" T ?r] code by simp
    note v = value_range [OF ok this]
    have one: "pm_getRenormBitsRange pm ?r = 1" using range_renorm l r by simp
    obtain d' where d': "d_renorm ?r (d_value d) 1 d = Some d'"
      "dec_ok pre F (LOW * 2) (T + 1) d'" "d_range d' = ?r * 2" "d_ctx d' = d_ctx d"
      using d_renorm_Some [OF ok, of "d_value d" 0 ?r 1] v l r R code_in_length [OF code] by auto
    have "decodeBin pm i d = Some (bin, d'\<lparr>d_ctx := (d_ctx d')(i := pm_update pm ?p bin)\<rparr>)"
      using v d'(1) r eq by (simp add: decodeBin_def Let_def lps_def [symmetric] u one)
    then show "\<exists>d'. decodeBin pm i d = Some (bin, d') \<and> dec_ok pre F (LOW * 2) (T + 1) d' \<and>
        d_range d' = ?r * 2 \<and> d_ctx d' = (d_ctx d)(i := pm_update pm ?p bin)"
      using d' by (simp add: dec_ok_def)
  next
    assume eq: "bin = pm_mps pm ?p" and r: "256 \<le> ?r" and code: "code_in F LOW ?r T"
    note v = value_range [OF ok code]
    have "decodeBin pm i d = Some (bin, d\<lparr>d_range := ?r, d_ctx := (d_ctx d)(i := pm_update pm ?p bin)\<rparr>)"
      using v r eq by (simp add: decodeBin_def Let_def lps_def [symmetric] u)
    then show "\<exists>d'. decodeBin pm i d = Some (bin, d') \<and> dec_ok pre F LOW T d' \<and>
        d_range d' = ?r \<and> d_ctx d' = (d_ctx d)(i := pm_update pm ?p bin)"
      using ok by (simp add: dec_ok_def)
  }
qed

end

section \<open>Start and finish\<close>

lemma d_start_ok:
  assumes "ib_inv (d_bitstream d)" "i_numHeldBits (d_bitstream d) = 0" "i_fifo (d_bitstream d) = pre @ F"
    "i_fifoIdx (d_bitstream d) = length pre" "2 \<le> length F"
  shows "\<exists>d'. d_start d = Some d' \<and> dec_ok pre F 0 0 d' \<and> d_range d' = 510 \<and> d_ctx d' = d_ctx d"
proof -
  let ?bs = "d_bitstream d"
  obtain b0 b1 G where F: "F = b0 # b1 # G" using assms(5) by (cases F; cases "tl F") auto
  have b: "is_byte b0" "is_byte b1" using assms(1,3) F by (auto simp: ib_inv_def)
  have r0: "i_readByte ?bs = Some (b0, ?bs\<lparr>i_fifoIdx := length pre + 1\<rparr>)"
    using assms F by (simp add: i_readByte_def nth_append)
  have r1: "i_readByte (?bs\<lparr>i_fifoIdx := length pre + 1\<rparr>) = Some (b1, ?bs\<lparr>i_fifoIdx := length pre + 2\<rparr>)"
    using assms F by (simp add: i_readByte_def nth_append)
  have u: "u32 (push_bit 8 b0 + b1) = b0 * 256 + b1" using b by (simp add: push_bit_eq_mult is_byte_def)
  have "code_val [b0, b1] = b0 * 256 + b1" using b by (simp add: code_val_def val_of_append is_byte_def)
  then show ?thesis using assms F r0 r1
    by (simp add: d_start_def dec_ok_def u i_getNumBitsUntilByteAligned_def ib_inv_def numeral_2_eq_2)
qed

text \<open>
  \<open>finish\<close> looks at the byte read last: the bits of it the register has not used yet must be a one
  bit followed by zeros.
\<close>

lemma d_finish_Some:
  assumes ok: "dec_ok pre F LOW T d" and stop: "F ! (1 + T div 8) * 2 ^ (T mod 8) mod 256 = 128"
  shows "d_finish d = Some ()"
proof -
  have idx: "i_fifo (d_bitstream d) = pre @ F" "i_fifoIdx (d_bitstream d) = length pre + 2 + T div 8" "2 + T div 8 \<le> length F"
    and bn: "d_bitsNeeded d = int (T mod 8) - 8" using ok by (auto simp: dec_ok_def)
  have "peekPreviousByte (d_bitstream d) = Some (F ! (1 + T div 8))"
    using idx by (simp add: peekPreviousByte_def nth_append)
  moreover have "nat (8 + d_bitsNeeded d) = T mod 8" using bn by simp
  moreover have "push_bit (T mod 8) (F ! (1 + T div 8)) AND 255 = 128"
    using stop and_mask_eq_mod [of "F ! (1 + T div 8) * 2 ^ (T mod 8)" 8] by (simp add: push_bit_eq_mult)
  ultimately show ?thesis by (simp add: d_finish_def)
qed

end
