(* ===== verification/Cabac.thy ===== *)
theory Cabac
  imports BinEncoder BinDecoder
begin

text \<open>
  The arithmetic coder as a whole: what an encoding operation and a decoding operation must satisfy
  to be inverse to each other, proved for every operation of \<open>BinEncoder\<close> and \<open>BinDecoder\<close> and
  closed under sequencing. The binarisations of \<open>CABACWriter\<close> and \<open>CABACReader\<close> build on it.
\<close>

named_theorems coded_intros \<open>introduction rules for encoder/decoder pairs\<close>
named_theorems bypass_intros \<open>introduction rules for bit strings written and read in bypass mode\<close>

section \<open>Inverse operations\<close>

definition engine_inv :: "('p \<Rightarrow> bool) \<Rightarrow> 'p BinEncoder \<Rightarrow> bool" where
  "engine_inv pinv e \<longleftrightarrow> (\<forall>i. pinv (e_ctx e i)) \<and> 256 \<le> e_range e \<and> e_range e \<le> 510"

text \<open>The decoder's side of one operation, from the engine \<open>e\<close> at \<open>(LOW, T)\<close> to \<open>e'\<close> at \<open>(LOW', T')\<close>.\<close>

definition decodes ::
    "('p BinDecoder \<Rightarrow> ('a \<times> 'p BinDecoder) option) \<Rightarrow> 'a \<Rightarrow> 'p BinEncoder \<Rightarrow> int \<Rightarrow> nat \<Rightarrow> 'p BinEncoder \<Rightarrow> int \<Rightarrow> nat \<Rightarrow> bool"
  where
  "decodes D v e LOW T e' LOW' T' \<longleftrightarrow>
     (\<forall>pre F d. code_in F LOW' (e_range e') T' \<longrightarrow> dec_ok pre F LOW T d \<longrightarrow> d_range d = e_range e \<longrightarrow> d_ctx d = e_ctx e \<longrightarrow>
        (\<exists>d'. D d = Some (v, d') \<and> dec_ok pre F LOW' T' d' \<and> d_range d' = e_range e' \<and> d_ctx d' = e_ctx e'))"

text \<open>
  \<open>coded pinv E D v\<close>: \<open>E\<close> succeeds and narrows the interval, and on every code in the narrowed
  interval \<open>D\<close> succeeds, returns \<open>v\<close> and ends in step with the encoder.
\<close>

definition coded ::
    "('p \<Rightarrow> bool) \<Rightarrow> ('p BinEncoder \<Rightarrow> 'p BinEncoder option) \<Rightarrow> ('p BinDecoder \<Rightarrow> ('a \<times> 'p BinDecoder) option) \<Rightarrow> 'a \<Rightarrow> bool"
  where
  "coded pinv E D v \<longleftrightarrow> (\<forall>base LOW T e. enc_ok base LOW T e \<longrightarrow> engine_inv pinv e \<longrightarrow>
     (\<exists>e' LOW' T'. E e = Some e' \<and> enc_ok base LOW' T' e' \<and> engine_inv pinv e' \<and>
        (\<forall>F. code_in F LOW' (e_range e') T' \<longrightarrow> code_in F LOW (e_range e) T) \<and> decodes D v e LOW T e' LOW' T'))"

lemma codedI:
  assumes "\<And>base LOW T e. enc_ok base LOW T e \<Longrightarrow> engine_inv pinv e \<Longrightarrow>
    \<exists>e' LOW' T'. E e = Some e' \<and> enc_ok base LOW' T' e' \<and> engine_inv pinv e' \<and>
      (\<forall>F. code_in F LOW' (e_range e') T' \<longrightarrow> code_in F LOW (e_range e) T) \<and> decodes D v e LOW T e' LOW' T'"
  shows "coded pinv E D v"
  using assms unfolding coded_def by blast

lemma decodesI:
  assumes "\<And>pre F d. code_in F LOW' (e_range e') T' \<Longrightarrow> dec_ok pre F LOW T d \<Longrightarrow> d_range d = e_range e \<Longrightarrow> d_ctx d = e_ctx e \<Longrightarrow>
    \<exists>d'. D d = Some (v, d') \<and> dec_ok pre F LOW' T' d' \<and> d_range d' = e_range e' \<and> d_ctx d' = e_ctx e'"
  shows "decodes D v e LOW T e' LOW' T'"
  using assms unfolding decodes_def by blast

lemma coded_return [coded_intros]: "coded pinv Some (\<lambda>d. Some (v, d)) v"
  by (intro codedI exI conjI decodesI) auto

lemma coded_bind [coded_intros]:
  assumes 1: "coded pinv E1 D1 v1" and 2: "coded pinv E2 (D2 v1) v2"
  shows "coded pinv (\<lambda>e. Option.bind (E1 e) E2) (\<lambda>d. Option.bind (D1 d) (\<lambda>(v, d). D2 v d)) v2"
proof (rule codedI)
  fix base LOW T e assume "enc_ok base LOW T e" "engine_inv pinv e"
  with 1 obtain e1 L1 T1 where e1: "E1 e = Some e1" "enc_ok base L1 T1 e1" "engine_inv pinv e1"
    "\<And>F. code_in F L1 (e_range e1) T1 \<Longrightarrow> code_in F LOW (e_range e) T" "decodes D1 v1 e LOW T e1 L1 T1"
    unfolding coded_def by blast
  with 2 obtain e2 L2 T2 where e2: "E2 e1 = Some e2" "enc_ok base L2 T2 e2" "engine_inv pinv e2"
    "\<And>F. code_in F L2 (e_range e2) T2 \<Longrightarrow> code_in F L1 (e_range e1) T1" "decodes (D2 v1) v2 e1 L1 T1 e2 L2 T2"
    unfolding coded_def by blast
  have "decodes (\<lambda>d. Option.bind (D1 d) (\<lambda>(v, d). D2 v d)) v2 e LOW T e2 L2 T2"
  proof (rule decodesI)
    fix pre F d assume F: "code_in F L2 (e_range e2) T2" and d: "dec_ok pre F LOW T d" "d_range d = e_range e" "d_ctx d = e_ctx e"
    obtain d1 where d1: "D1 d = Some (v1, d1)" "dec_ok pre F L1 T1 d1" "d_range d1 = e_range e1" "d_ctx d1 = e_ctx e1"
      using e1(5) e2(4) [OF F] d unfolding decodes_def by blast
    obtain d2 where "D2 v1 d1 = Some (v2, d2)" "dec_ok pre F L2 T2 d2" "d_range d2 = e_range e2" "d_ctx d2 = e_ctx e2"
      using e2(5) F d1(2-4) unfolding decodes_def by blast
    with d1(1) show "\<exists>d'. Option.bind (D1 d) (\<lambda>(v, d). D2 v d) = Some (v2, d') \<and> dec_ok pre F L2 T2 d' \<and>
        d_range d' = e_range e2 \<and> d_ctx d' = e_ctx e2" by simp
  qed
  with e1 e2 show "\<exists>e' LOW' T'. Option.bind (E1 e) E2 = Some e' \<and> enc_ok base LOW' T' e' \<and> engine_inv pinv e' \<and>
      (\<forall>F. code_in F LOW' (e_range e') T' \<longrightarrow> code_in F LOW (e_range e) T) \<and>
      decodes (\<lambda>d. Option.bind (D1 d) (\<lambda>(v, d). D2 v d)) v2 e LOW T e' LOW' T'"
    by (intro exI [of _ e2] exI [of _ L2] exI [of _ T2]) auto
qed

lemma coded_cong: "coded pinv E D v \<Longrightarrow> (\<And>e. E' e = E e) \<Longrightarrow> (\<And>d. D' d = D d) \<Longrightarrow> v' = v \<Longrightarrow> coded pinv E' D' v'"
  by (simp add: coded_def decodes_def)

lemma coded_map [coded_intros]:
  "coded pinv E D v \<Longrightarrow> w = f v \<Longrightarrow> coded pinv E (\<lambda>d. Option.bind (D d) (\<lambda>(v, d). Some (f v, d))) w"
  using coded_bind [where ?E1.0 = E and ?E2.0 = Some and ?D1.0 = D and ?D2.0 = "\<lambda>v d. Some (f v, d)" and ?v1.0 = v and ?v2.0 = "f v"]
  by (simp add: coded_return)

section \<open>Bypass bit strings\<close>

text \<open>
  In bypass mode a bit string narrows the interval to one of \<open>2 ^ n\<close> equal parts, whatever calls
  write it and whatever calls read it.
\<close>

definition writes_bits :: "('p BinEncoder \<Rightarrow> 'p BinEncoder option) \<Rightarrow> bool list \<Rightarrow> bool" where
  "writes_bits E bs \<longleftrightarrow> (\<forall>base LOW T e. enc_ok base LOW T e \<longrightarrow> 256 \<le> e_range e \<longrightarrow> e_range e \<le> 510 \<longrightarrow>
     (\<exists>e'. E e = Some e' \<and> enc_ok base (LOW * 2 ^ length bs + e_range e * val_of bs) (T + length bs) e' \<and>
        e_range e' = e_range e \<and> e_ctx e' = e_ctx e))"

definition reads_bits :: "('p BinDecoder \<Rightarrow> ('a \<times> 'p BinDecoder) option) \<Rightarrow> 'a \<Rightarrow> bool list \<Rightarrow> bool" where
  "reads_bits D v bs \<longleftrightarrow> (\<forall>pre F LOW T d. dec_ok pre F LOW T d \<longrightarrow> 256 \<le> d_range d \<longrightarrow> d_range d \<le> 510 \<longrightarrow>
     code_in F (LOW * 2 ^ length bs + d_range d * val_of bs) (d_range d) (T + length bs) \<longrightarrow>
     (\<exists>d'. D d = Some (v, d') \<and> dec_ok pre F (LOW * 2 ^ length bs + d_range d * val_of bs) (T + length bs) d' \<and>
        d_range d' = d_range d \<and> d_ctx d' = d_ctx d))"

lemma val_of_fits: "0 \<le> R \<Longrightarrow> R * val_of bs + R \<le> R * 2 ^ length bs"
  using mult_left_mono [of "val_of bs + 1" "2 ^ length bs" R] val_of_less [of bs] by (simp add: distrib_left)

lemma split_interval:
  "LOW * 2 ^ length (xs @ ys) + R * val_of (xs @ ys) = (LOW * 2 ^ length xs + R * val_of xs) * 2 ^ length ys + R * val_of ys"
  by (simp add: val_of_append power_add algebra_simps)

lemma writes_bits_Nil [bypass_intros]: "writes_bits Some []"
  by (simp add: writes_bits_def)

lemma reads_bits_Nil [bypass_intros]: "reads_bits (\<lambda>d. Some (v, d)) v []"
  by (simp add: reads_bits_def)

lemma writes_bits_append [bypass_intros]:
  assumes "writes_bits E1 xs" "writes_bits E2 ys"
  shows "writes_bits (\<lambda>e. Option.bind (E1 e) E2) (xs @ ys)"
  unfolding writes_bits_def split_interval
proof (intro allI impI)
  fix base LOW T and e :: "'a BinEncoder"
  assume e: "enc_ok base LOW T e" "256 \<le> e_range e" "e_range e \<le> 510"
  obtain e1 where e1: "E1 e = Some e1" "enc_ok base (LOW * 2 ^ length xs + e_range e * val_of xs) (T + length xs) e1"
    "e_range e1 = e_range e" "e_ctx e1 = e_ctx e" using assms(1) e unfolding writes_bits_def by blast
  then show "\<exists>e'. Option.bind (E1 e) E2 = Some e' \<and>
      enc_ok base ((LOW * 2 ^ length xs + e_range e * val_of xs) * 2 ^ length ys + e_range e * val_of ys) (T + length (xs @ ys)) e' \<and>
      e_range e' = e_range e \<and> e_ctx e' = e_ctx e"
    using assms(2) [unfolded writes_bits_def, rule_format, OF e1(2)] e by (auto simp: add.assoc)
qed

lemma reads_bits_append [bypass_intros]:
  assumes "reads_bits D1 v xs" "reads_bits (D2 v) w ys"
  shows "reads_bits (\<lambda>d. Option.bind (D1 d) (\<lambda>(v, d). D2 v d)) w (xs @ ys)"
  unfolding reads_bits_def split_interval
proof (intro allI impI)
  fix pre F LOW T and d :: "'a BinDecoder"
  let ?L = "LOW * 2 ^ length xs + d_range d * val_of xs"
  assume d: "dec_ok pre F LOW T d" "256 \<le> d_range d" "d_range d \<le> 510"
    and F: "code_in F (?L * 2 ^ length ys + d_range d * val_of ys) (d_range d) (T + length (xs @ ys))"
  have "code_in F ?L (d_range d) (T + length xs)"
    using code_in_nested [of F ?L "length ys" "d_range d * val_of ys" "d_range d" "T + length xs" "d_range d"] F d
      val_of_fits [of "d_range d" ys] by (simp add: add.assoc)
  then obtain d1 where d1: "D1 d = Some (v, d1)" "dec_ok pre F ?L (T + length xs) d1" "d_range d1 = d_range d" "d_ctx d1 = d_ctx d"
    using assms(1) d unfolding reads_bits_def by blast
  then show "\<exists>d'. Option.bind (D1 d) (\<lambda>(v, d). D2 v d) = Some (w, d') \<and>
      dec_ok pre F (?L * 2 ^ length ys + d_range d * val_of ys) (T + length (xs @ ys)) d' \<and>
      d_range d' = d_range d \<and> d_ctx d' = d_ctx d"
    using assms(2) [unfolded reads_bits_def, rule_format, OF d1(2)] d F by (auto simp: add.assoc)
qed

lemma coded_bypass:
  assumes "writes_bits E bs" "reads_bits D v bs"
  shows "coded pinv E D v"
proof (rule codedI)
  fix base LOW T and e :: "'a BinEncoder"
  assume e: "enc_ok base LOW T e" "engine_inv pinv e"
  let ?L = "LOW * 2 ^ length bs + e_range e * val_of bs"
  have r: "256 \<le> e_range e" "e_range e \<le> 510" using e(2) by (simp_all add: engine_inv_def)
  obtain e' where e': "E e = Some e'" "enc_ok base ?L (T + length bs) e'" "e_range e' = e_range e" "e_ctx e' = e_ctx e"
    using assms(1) e(1) r unfolding writes_bits_def by blast
  have "decodes D v e LOW T e' ?L (T + length bs)"
    using assms(2) r e'(3,4) unfolding reads_bits_def by (intro decodesI) fastforce
  moreover have "code_in F LOW (e_range e) T" if "code_in F ?L (e_range e') (T + length bs)" for F
    using code_in_nested [OF that] val_of_fits [of "e_range e" bs] r e'(3) by simp
  ultimately show "\<exists>e' LOW' T'. E e = Some e' \<and> enc_ok base LOW' T' e' \<and> engine_inv pinv e' \<and>
      (\<forall>F. code_in F LOW' (e_range e') T' \<longrightarrow> code_in F LOW (e_range e) T) \<and> decodes D v e LOW T e' LOW' T'"
    using e' e(2) by (intro exI [of _ e'] exI [of _ ?L] exI [of _ "T + length bs"]) (auto simp: engine_inv_def)
qed

lemma encodeBinsEP_bits [bypass_intros]:
  "n \<le> 32 \<Longrightarrow> 0 \<le> bins \<Longrightarrow> bins < 2 ^ n \<Longrightarrow> writes_bits (encodeBinsEP bins n) (bits_of n bins)"
  using encodeBinsEP_Some unfolding writes_bits_def by (auto simp: )

lemma decodeBinsEP_bits [bypass_intros]:
  "n \<le> 32 \<Longrightarrow> 0 \<le> bins \<Longrightarrow> bins < 2 ^ n \<Longrightarrow> reads_bits (decodeBinsEP n) bins (bits_of n bins)"
  using decodeBinsEP_Some unfolding reads_bits_def by auto

lemma encodeBinEP_bits [bypass_intros]: "bin = 0 \<or> bin = 1 \<Longrightarrow> writes_bits (encodeBinEP bin) [bin = 1]"
  using encodeBinEP_Some [of _ _ _ _ bin] enc_ok_bounds unfolding writes_bits_def by fastforce

lemma decodeBinEP_bits [bypass_intros]: "bin = 0 \<or> bin = 1 \<Longrightarrow> reads_bits decodeBinEP bin [bin = 1]"
  using decodeBinEP_Some [of _ _ _ _ _ bin] unfolding reads_bits_def by fastforce

text \<open>Equivalences used to bring an operation into the shape of the rules.\<close>

lemma writes_bits_cong: "writes_bits E bs \<Longrightarrow> (\<And>e. E' e = E e) \<Longrightarrow> bs' = bs \<Longrightarrow> writes_bits E' bs'"
  by (simp add: writes_bits_def)

lemma reads_bits_cong: "reads_bits D v bs \<Longrightarrow> (\<And>d. D' d = D d) \<Longrightarrow> v' = v \<Longrightarrow> bs' = bs \<Longrightarrow> reads_bits D' v' bs'"
  by (simp add: reads_bits_def)

section \<open>Context bins, terminating bins, alignment\<close>

lemma coded_align [coded_intros]: "coded pinv (\<lambda>e. Some (e_align e)) (\<lambda>d. Some ((), d_align d)) ()"
proof (rule codedI)
  fix base LOW T and e :: "'a BinEncoder"
  assume e: "enc_ok base LOW T e" "engine_inv pinv e"
  then have r: "256 \<le> e_range e" "e_range e \<le> 510" by (simp_all add: engine_inv_def)
  have "code_in F LOW (e_range e) T" if "code_in F LOW 256 T" for F
    using code_in_nested [of F LOW 0 0 256 T "e_range e"] that r by simp
  moreover have "decodes (\<lambda>d. Some ((), d_align d)) () e LOW T (e_align e) LOW T"
    using d_align_ok by (intro decodesI) (auto simp: d_align_def e_align_def)
  ultimately show "\<exists>e' LOW' T'. Some (e_align e) = Some e' \<and> enc_ok base LOW' T' e' \<and> engine_inv pinv e' \<and>
      (\<forall>F. code_in F LOW' (e_range e') T' \<longrightarrow> code_in F LOW (e_range e) T) \<and>
      decodes (\<lambda>d. Some ((), d_align d)) () e LOW T e' LOW' T'"
    using e_align_ok [OF e(1) r(1)] e(2)
    by (intro exI [of _ "e_align e"] exI [of _ LOW] exI [of _ T]) (auto simp: e_align_def engine_inv_def)
qed

lemma coded_trm_zero [coded_intros]: "coded pinv (encodeBinTrm 0) decodeBinTrm 0"
proof (rule codedI)
  fix base LOW T and e :: "'a BinEncoder"
  assume e: "enc_ok base LOW T e" "engine_inv pinv e"
  then have r: "256 \<le> e_range e" "e_range e \<le> 510" by (simp_all add: engine_inv_def)
  obtain e' where e': "encodeBinTrm 0 e = Some e'" "e_ctx e' = e_ctx e"
    "if e_range e - 2 \<ge> 256 then enc_ok base LOW T e' \<and> e_range e' = e_range e - 2
     else enc_ok base (LOW * 2) (T + 1) e' \<and> e_range e' = 2 * (e_range e - 2)"
    using encodeBinTrm_Some(1) [OF e(1) r] by blast
  show "\<exists>e' LOW' T'. encodeBinTrm 0 e = Some e' \<and> enc_ok base LOW' T' e' \<and> engine_inv pinv e' \<and>
      (\<forall>F. code_in F LOW' (e_range e') T' \<longrightarrow> code_in F LOW (e_range e) T) \<and> decodes decodeBinTrm 0 e LOW T e' LOW' T'"
  proof (cases "e_range e - 2 \<ge> 256")
    case True
    have "decodes decodeBinTrm 0 e LOW T e' LOW T"
      using decodeBinTrm_zero(1) e' r True by (intro decodesI) fastforce
    moreover have "code_in F LOW (e_range e) T" if "code_in F LOW (e_range e') T" for F
      using code_in_nested [of F LOW 0 0 "e_range e'" T "e_range e"] that e' True by simp
    ultimately show ?thesis using e' e(2) True
      by (intro exI [of _ e'] exI [of _ LOW] exI [of _ T]) (auto simp: engine_inv_def)
  next
    case False
    have "decodes decodeBinTrm 0 e LOW T e' (LOW * 2) (T + 1)"
      using decodeBinTrm_zero(2) e' r False by (intro decodesI) fastforce
    moreover have "code_in F LOW (e_range e) T" if "code_in F (LOW * 2) (e_range e') (T + 1)" for F
      using code_in_nested [of F LOW 1 0 "e_range e'" T "e_range e"] that e' False by simp
    ultimately show ?thesis using e' e(2) False r
      by (intro exI [of _ e'] exI [of _ "LOW * 2"] exI [of _ "T + 1"]) (auto simp: engine_inv_def)
  qed
qed

context prob_model
begin

lemma coded_bin [coded_intros]:
  assumes bin: "bin = 0 \<or> bin = 1"
  shows "coded pm_inv (encodeBin pm bin i) (decodeBin pm i) bin"
proof (rule codedI)
  fix base LOW T and e :: "'p BinEncoder"
  assume e: "enc_ok base LOW T e" "engine_inv pm_inv e"
  then have r: "256 \<le> e_range e" "e_range e \<le> 510" and inv: "\<And>j. pm_inv (e_ctx e j)" by (simp_all add: engine_inv_def)
  define lps k where "lps = pm_getLPS pm (e_ctx e i) (e_range e)" and "k = pm_getRenormBitsLPS pm lps"
  obtain e' where e': "encodeBin pm bin i e = Some e'" "e_ctx e' = (e_ctx e)(i := pm_update pm (e_ctx e i) bin)"
    "256 \<le> e_range e'" "e_range e' \<le> 510"
    "if bin \<noteq> pm_mps pm (e_ctx e i)
     then enc_ok base (LOW * 2 ^ k + (e_range e - lps) * 2 ^ k) (T + k) e' \<and> e_range e' = lps * 2 ^ k
     else if e_range e - lps < 256 then enc_ok base (LOW * 2) (T + 1) e' \<and> e_range e' = (e_range e - lps) * 2
     else enc_ok base LOW T e' \<and> e_range e' = e_range e - lps"
    using encodeBin_Some [OF e(1) r inv bin] unfolding lps_def k_def Let_def by blast
  have inv': "engine_inv pm_inv e'" using e'(2-4) inv update_inv [OF inv bin] by (simp add: engine_inv_def)
  have lps: "0 < lps" "128 \<le> e_range e - lps"
    using lps_pos [OF inv r] lps_leaves [OF inv r] by (simp_all add: lps_def)
  have *: "\<exists>e' LOW' T'. encodeBin pm bin i e = Some e' \<and> enc_ok base LOW' T' e' \<and> engine_inv pm_inv e' \<and>
      (\<forall>F. code_in F LOW' (e_range e') T' \<longrightarrow> code_in F LOW (e_range e) T) \<and> decodes (decodeBin pm i) bin e LOW T e' LOW' T'"
    if "enc_ok base (LOW * 2 ^ j + a) (T + j) e'" "0 \<le> a" "a + e_range e' \<le> e_range e * 2 ^ j"
      "decodes (decodeBin pm i) bin e LOW T e' (LOW * 2 ^ j + a) (T + j)" for j a
    using that e'(1) inv' code_in_nested
    by (intro exI [of _ e'] exI [of _ "LOW * 2 ^ j + a"] exI [of _ "T + j"]) blast
  show "\<exists>e' LOW' T'. encodeBin pm bin i e = Some e' \<and> enc_ok base LOW' T' e' \<and> engine_inv pm_inv e' \<and>
      (\<forall>F. code_in F LOW' (e_range e') T' \<longrightarrow> code_in F LOW (e_range e) T) \<and> decodes (decodeBin pm i) bin e LOW T e' LOW' T'"
  proof (cases "bin \<noteq> pm_mps pm (e_ctx e i)")
    case True
    have "decodes (decodeBin pm i) bin e LOW T e' (LOW * 2 ^ k + (e_range e - lps) * 2 ^ k) (T + k)"
    proof (rule decodesI)
      fix pre F d
      assume "code_in F (LOW * 2 ^ k + (e_range e - lps) * 2 ^ k) (e_range e') (T + k)"
        and d: "dec_ok pre F LOW T d" "d_range d = e_range e" "d_ctx d = e_ctx e"
      then show "\<exists>d'. decodeBin pm i d = Some (bin, d') \<and> dec_ok pre F (LOW * 2 ^ k + (e_range e - lps) * 2 ^ k) (T + k) d' \<and>
          d_range d' = e_range e' \<and> d_ctx d' = e_ctx e'"
        using decodeBin_Some(1) [OF d(1) _ _ _ bin, of i] r inv True e'(2,5) by (simp add: d(2,3) lps_def k_def)
    qed
    then show ?thesis using * [of k "(e_range e - lps) * 2 ^ k"] True e'(5) lps by (simp add: left_diff_distrib)
  next
    case eq: False
    show ?thesis
    proof (cases "e_range e - lps < 256")
      case True
      have "decodes (decodeBin pm i) bin e LOW T e' (LOW * 2) (T + 1)"
      proof (rule decodesI)
        fix pre F d
        assume "code_in F (LOW * 2) (e_range e') (T + 1)"
          and d: "dec_ok pre F LOW T d" "d_range d = e_range e" "d_ctx d = e_ctx e"
        then show "\<exists>d'. decodeBin pm i d = Some (bin, d') \<and> dec_ok pre F (LOW * 2) (T + 1) d' \<and>
            d_range d' = e_range e' \<and> d_ctx d' = e_ctx e'"
          using decodeBin_Some(2) [OF d(1) _ _ _ bin, of i] r inv True eq e'(2,5) by (simp add: d(2,3) lps_def)
      qed
      then show ?thesis using * [of 1 0] True eq e'(5) lps by simp
    next
      case False
      have "decodes (decodeBin pm i) bin e LOW T e' LOW T"
      proof (rule decodesI)
        fix pre F d
        assume "code_in F LOW (e_range e') T"
          and d: "dec_ok pre F LOW T d" "d_range d = e_range e" "d_ctx d = e_ctx e"
        then show "\<exists>d'. decodeBin pm i d = Some (bin, d') \<and> dec_ok pre F LOW T d' \<and>
            d_range d' = e_range e' \<and> d_ctx d' = e_ctx e'"
          using decodeBin_Some(3) [OF d(1) _ _ _ bin, of i] r inv False eq e'(2,5) by (simp add: d(2,3) lps_def)
      qed
      then show ?thesis using * [of 0 0] False eq e'(5) lps by simp
    qed
  qed
qed

end

section \<open>Remaining absolute levels\<close>

text \<open>The unary prefix: ones up to a zero, or up to the maximum.\<close>

lemma decode_prefix_step:
  "decode_prefix (p + Suc m) p = (\<lambda>d. Option.bind (decodeBinEP d)
     (\<lambda>(c, d). if c \<noteq> 0 \<and> 0 < m then decode_prefix (Suc p + m) (Suc p) d else Some ((p + 1, c), d)))"
  by (rule ext, subst decode_prefix.simps) (auto simp: Let_def split: option.split)

lemma reads_bits_Cons:
  "reads_bits (D2 (of_bool b)) w ys \<Longrightarrow> reads_bits (\<lambda>d. Option.bind (decodeBinEP d) (\<lambda>(v, d). D2 v d)) w (b # ys)"
  using reads_bits_append [where ?D1.0 = decodeBinEP and xs = "[b]" and v = "of_bool b :: int" and ?D2.0 = D2]
    decodeBinEP_bits [of "of_bool b"] by (cases b) simp_all

lemma decode_prefix_zero:
  "k < m \<Longrightarrow> reads_bits (decode_prefix (p + m) p :: 'p BinDecoder \<Rightarrow> _) (p + k + 1, 0) (replicate k True @ [False])"
proof (induction k arbitrary: p m)
  case 0
  then obtain m' where m: "m = Suc m'" by (cases m) auto
  show ?case unfolding m decode_prefix_step replicate_0 append_Nil
    by (rule reads_bits_Cons) (simp add: reads_bits_Nil)
next
  case (Suc k)
  then obtain m' where m: "m = Suc m'" "k < m'" by (cases m) auto
  have "reads_bits (decode_prefix (Suc p + m') (Suc p) :: 'p BinDecoder \<Rightarrow> _) (p + Suc k + 1, 0) (replicate k True @ [False])"
    using Suc.IH [OF m(2), of "Suc p"] by simp
  then show ?case unfolding m(1) decode_prefix_step replicate_Suc append_Cons
    using m(2) by (intro reads_bits_Cons) simp
qed

lemma decode_prefix_max:
  "0 < m \<Longrightarrow> reads_bits (decode_prefix (p + m) p :: 'p BinDecoder \<Rightarrow> _) (p + m, 1) (replicate m True)"
proof (induction m arbitrary: p)
  case (Suc m)
  let ?D = "\<lambda>c (d :: 'p BinDecoder). if c \<noteq> 0 \<and> 0 < m then decode_prefix (Suc p + m) (Suc p) d else Some ((p + 1, c), d)"
  have "reads_bits (?D 1) (p + Suc m, 1) (replicate m True)"
    using Suc.IH [of "Suc p"] by (cases "m = 0") (simp_all add: reads_bits_Nil)
  then show ?case
    unfolding decode_prefix_step replicate_Suc by (intro reads_bits_Cons) simp
qed simp

lemma val_of_replicate_True: "val_of (replicate n True) = 2 ^ n - 1"
  by (induction n) simp_all

lemma bits_of_ones: "bits_of n (2 ^ n - 1) = replicate n True"
  by (metis bits_of_val_of length_replicate val_of_replicate_True)

lemma bits_of_unary: "bits_of (Suc n) (2 ^ Suc n - 2) = replicate n True @ [False]"
proof -
  have "val_of (replicate n True @ [False]) = 2 ^ Suc n - 2" by (simp add: val_of_append val_of_replicate_True)
  then show ?thesis by (metis bits_of_val_of length_replicate length_append_singleton)
qed

lemma bits_of_small: "0 \<le> x \<Longrightarrow> x < 2 ^ n \<Longrightarrow> bits_of (Suc n) x = False # bits_of n x"
  by (simp add: div_pos_pos_trivial)

lemma writes_ones [bypass_intros]: "n \<le> 32 \<Longrightarrow> writes_bits (encodeBinsEP (2 ^ n - 1) n) (replicate n True)"
  using encodeBinsEP_bits [of n "2 ^ n - 1"] by (simp add: bits_of_ones)

lemma writes_unary [bypass_intros]:
  "n < 32 \<Longrightarrow> writes_bits (encodeBinsEP (2 ^ Suc n - 2) (Suc n)) (replicate n True @ [False])"
  using encodeBinsEP_bits [of "Suc n" "2 ^ Suc n - 2"] unfolding bits_of_unary by simp

text \<open>The escape length is the position of the leading bit of \<open>codeValue + 1\<close>.\<close>

lemma escape_prefix_eq:
  assumes "2 ^ p - 1 \<le> cv" "cv < 2 ^ n - 1" "p \<le> n" "n \<le> 32"
  shows "2 ^ escape_prefix cv p - 1 \<le> cv \<and> cv \<le> 2 ^ (escape_prefix cv p + 1) - 2 \<and> escape_prefix cv p < n"
  using assms
proof (induction "31 - p" arbitrary: p)
  case 0
  have "p < n" using 0 by (cases "p = n") simp_all
  then have "p = 31" "n = 32" using 0 by simp_all
  with 0 show ?case by (subst (1 2 3) escape_prefix.simps) simp
next
  case (Suc k)
  have pn: "p < n" using Suc.prems by (cases "p = n") simp_all
  show ?case
  proof (cases "cv > push_bit p 2 - 2")
    case True
    have "escape_prefix cv p = escape_prefix cv (Suc p)" using True Suc.hyps(2) by (subst escape_prefix.simps) auto
    moreover have "2 ^ Suc p - 1 \<le> cv" using True by (simp add: push_bit_eq_mult)
    ultimately show ?thesis using Suc.hyps(1) [of "Suc p"] Suc(2) Suc.prems pn by simp
  next
    case False
    then have "escape_prefix cv p = p" by (subst escape_prefix.simps) simp
    then show ?thesis using False Suc.prems pn by (simp add: push_bit_eq_mult)
  qed
qed

text \<open>The suffix of a level: the rest of the Rice quotient, and the low bits.\<close>

lemma rice_suffix:
  fixes bins c :: int
  assumes "0 \<le> bins" "0 \<le> c" "c \<le> bins div 2 ^ r" "bins < 2 ^ 32"
  shows "u32 (push_bit r (bins div 2 ^ r - c)) OR (bins AND (2 ^ r - 1)) = bins - c * 2 ^ r"
    and "0 \<le> bins - c * 2 ^ r" and "u32 (c * 2 ^ r + (bins - c * 2 ^ r)) = bins"
proof -
  have eq: "bins div 2 ^ r * 2 ^ r + bins mod 2 ^ r = bins" by (simp only: div_mult_mod_eq)
  have m: "0 \<le> bins mod 2 ^ r" "bins mod 2 ^ r < 2 ^ r" by simp_all
  have cr: "c * 2 ^ r \<le> bins div 2 ^ r * 2 ^ r" using assms(3) by (intro mult_right_mono) simp_all
  have "0 \<le> c * 2 ^ r" using assms(2) by simp
  moreover note cr
  moreover have "(bins div 2 ^ r - c) * 2 ^ r = bins div 2 ^ r * 2 ^ r - c * 2 ^ r" by (rule left_diff_distrib)
  ultimately have b: "0 \<le> (bins div 2 ^ r - c) * 2 ^ r" "(bins div 2 ^ r - c) * 2 ^ r < 2 ^ 32"
    using eq m assms(4) by linarith+
  then show "u32 (push_bit r (bins div 2 ^ r - c)) OR (bins AND (2 ^ r - 1)) = bins - c * 2 ^ r"
    using mult_or_eq_add [OF m, of "bins div 2 ^ r - c"] eq
    by (simp add: push_bit_eq_mult and_mask_eq_mod left_diff_distrib)
  show "0 \<le> bins - c * 2 ^ r" using cr eq m by linarith
  show "u32 (c * 2 ^ r + (bins - c * 2 ^ r)) = bins" using assms by simp
qed

text \<open>
  The decoder's side, by the form of the prefix: \<open>k\<close> ones and a zero, or the maximal number of ones.
\<close>

lemma decodeRemAbsEP_bits:
  fixes r k m :: nat and suffix :: int
  assumes m: "m < 32" "k + m \<le> 32" and esc: "k + m = 32 \<longrightarrow> cutoff \<le> k"
    and c: "c = (if k < cutoff then int k else 2 ^ (k - cutoff) + int cutoff - 1)"
    and s: "s = (if k < cutoff then r else if k + m = 32 then m else r + (k - cutoff))"
    and fit: "s \<le> 32" "r \<le> m" "c * 2 ^ r < 2 ^ 32" "0 \<le> suffix" "suffix < 2 ^ s"
  shows "reads_bits (decodeRemAbsEP r cutoff m :: 'p BinDecoder \<Rightarrow> _) (u32 (c * 2 ^ r + suffix))
    ((if k + m = 32 then replicate k True else replicate k True @ [False]) @ bits_of s suffix)"
proof -
  define M where "M = 32 - m"
  let ?P = "if k + m = 32 then (k, 1) else (k + 1, 0::int)"
  let ?R = "\<lambda>(prefix, codeWord) d. let prefix = prefix - nat (1 - codeWord);
         (offset, length) =
           (if prefix < cutoff then (u32 (push_bit r (int prefix)), r)
            else (u32 (push_bit r (push_bit (prefix - cutoff) 1 + int cutoff - 1)),
                  r + (if prefix = 32 - m then m - r else prefix - cutoff)))
     in do {
       (bins, d) \<leftarrow> decodeBinsEP length d;
       Some (u32 (offset + bins), d)
     }"
  have P: "reads_bits (decode_prefix M 0 :: 'p BinDecoder \<Rightarrow> _) ?P (if k + m = 32 then replicate k True else replicate k True @ [False])"
  proof (cases "k + m = 32")
    case True
    then have "M = k" "0 < k" using m by (auto simp: M_def)
    then show ?thesis using True by (auto intro: decode_prefix_max [of k 0, simplified])
  next
    case False
    then have "k < M" using m by (auto simp: M_def)
    then show ?thesis using False by (auto intro: decode_prefix_zero [of k M 0, simplified])
  qed
  have k: "fst ?P - nat (1 - snd ?P) = k" by simp
  have c0: "0 \<le> c" by (auto simp: c add_pos_nonneg)
  have off: "(if k < cutoff then u32 (push_bit r (int k)) else u32 (push_bit r (push_bit (k - cutoff) 1 + int cutoff - 1))) = c * 2 ^ r"
    using fit(3) c0 by (auto simp: c push_bit_eq_mult)
  have len: "(if k < cutoff then r else r + (if k = 32 - m then m - r else k - cutoff)) = s"
    using fit(2) m esc by (auto simp: s)
  have R: "?R ?P d = Option.bind (decodeBinsEP s d) (\<lambda>(bins, d). Some (u32 (c * 2 ^ r + bins), d))" for d :: "'p BinDecoder"
    using k unfolding off [symmetric] len [symmetric] by (cases "k + m = 32"; cases "k < cutoff") simp_all
  have "reads_bits (?R ?P :: 'p BinDecoder \<Rightarrow> _) (u32 (c * 2 ^ r + suffix)) (bits_of s suffix @ [])"
    unfolding R
    by (rule reads_bits_append [OF decodeBinsEP_bits]) (use fit in \<open>auto intro: reads_bits_Nil\<close>)
  from reads_bits_append [where ?D1.0 = "decode_prefix M 0" and ?D2.0 = ?R, OF P this] show ?thesis
    by (rule reads_bits_cong)
      (auto simp: decodeRemAbsEP_def M_def split: prod.split intro!: arg_cong [where f = "Option.bind _"])
qed

lemma remAbs_bits:
  assumes c: "cutoff + m \<le> 32" "m < 32" "r \<le> m" and b: "0 \<le> bins" "bins < 2 ^ 32"
    and thr: "int cutoff * 2 ^ r < 2 ^ 32"
    and esc: "bins < (2 ^ (32 - cutoff - m) - 1 + int cutoff) * 2 ^ r + 2 ^ m"
  shows "\<exists>bs. writes_bits (encodeRemAbsEP bins r cutoff m :: 'p BinEncoder \<Rightarrow> _) bs \<and>
    reads_bits (decodeRemAbsEP r cutoff m :: 'p BinDecoder \<Rightarrow> _) bins bs \<and>
    length bs = (if bins < int cutoff * 2 ^ r then nat (bins div 2 ^ r) + 1 + r
      else let codeValue = bins div 2 ^ r - int cutoff; maxPrefix = 32 - cutoff - m
        in if codeValue \<ge> 2 ^ maxPrefix - 1 then cutoff + maxPrefix + m
           else cutoff + escape_prefix codeValue 0 + (escape_prefix codeValue 0 + r + 1))"
proof -
  let ?q = "bins div 2 ^ r"
  have q0: "0 \<le> ?q" using b by (simp add: pos_imp_zdiv_nonneg_iff)
  have eq: "?q * 2 ^ r + bins mod 2 ^ r = bins" by (simp only: div_mult_mod_eq)
  have m: "0 \<le> bins mod 2 ^ r" "bins mod 2 ^ r < 2 ^ r" by simp_all
  have mask: "push_bit r 1 - 1 = (2 ^ r - 1 :: int)" by simp
  have le: "(x::int) \<le> ?q \<longleftrightarrow> x * 2 ^ r \<le> bins" for x
  proof
    assume "x \<le> ?q"
    then have "x * 2 ^ r \<le> ?q * 2 ^ r" by (intro mult_right_mono) simp_all
    with eq m show "x * 2 ^ r \<le> bins" by linarith
  next
    assume "x * 2 ^ r \<le> bins"
    then have "x * 2 ^ r div 2 ^ r \<le> ?q" by (intro zdiv_mono1) simp_all
    then show "x \<le> ?q" by simp
  qed
  have t: "u32 (push_bit r (int cutoff)) = int cutoff * 2 ^ r" using thr by (simp add: push_bit_eq_mult)
  show ?thesis
  proof (cases "bins < int cutoff * 2 ^ r")
    case True
    define k where "k = nat ?q"
    have k: "?q = int k" "k < cutoff" using q0 True le [of "int cutoff"] by (auto simp: k_def)
    have "writes_bits (encodeRemAbsEP bins r cutoff m :: 'p BinEncoder \<Rightarrow> _) ((replicate k True @ [False]) @ bits_of r (bins mod 2 ^ r))"
    proof (rule writes_bits_cong [OF writes_bits_append [OF writes_unary encodeBinsEP_bits]])
      show "encodeRemAbsEP bins r cutoff m e = Option.bind (encodeBinsEP (2 ^ Suc k - 2) (Suc k) e) (encodeBinsEP (bins mod 2 ^ r) r)" for e :: "'p BinEncoder"
        using True by (simp add: encodeRemAbsEP_def t Let_def drop_bit_eq_div k(1) mask and_mask_eq_mod)
    qed (use k c m in auto)
    moreover have "int k * 2 ^ r < 2 ^ 32" using eq m b(2) unfolding k(1) by linarith
    note kr = this
    have "reads_bits (decodeRemAbsEP r cutoff m :: 'p BinDecoder \<Rightarrow> _) (u32 (int k * 2 ^ r + bins mod 2 ^ r)) ((replicate k True @ [False]) @ bits_of r (bins mod 2 ^ r))"
      by (rule reads_bits_cong [OF decodeRemAbsEP_bits [of m k cutoff "int k" r r "bins mod 2 ^ r"]]) (use k c m kr in auto)
    moreover have "u32 (int k * 2 ^ r + bins mod 2 ^ r) = bins" using eq b by (simp add: k(1) [symmetric])
    ultimately show ?thesis using True by (intro exI [of _ "(replicate k True @ [False]) @ bits_of r (bins mod 2 ^ r)"]) (simp add: k_def)
  next
    case False
    define mp cv where "mp = 32 - cutoff - m" and "cv = ?q - int cutoff"
    have cv: "0 \<le> cv" using False le [of "int cutoff"] by (simp add: cv_def)
    show ?thesis
    proof (cases "cv \<ge> 2 ^ mp - 1")
      case True
      let ?c = "2 ^ mp - 1 + int cutoff"
      have cq: "?c \<le> ?q" using True by (simp add: cv_def)
      have c0: "0 \<le> ?c" by simp
      note s = rice_suffix [OF b(1) c0 cq b(2)]
      let ?s = "bins - ?c * 2 ^ r"
      have fit: "?s < 2 ^ m" using esc by (simp add: mp_def)
      have "writes_bits (encodeRemAbsEP bins r cutoff m :: 'p BinEncoder \<Rightarrow> _) (replicate (mp + cutoff) True @ bits_of m ?s)"
      proof (rule writes_bits_cong [OF writes_bits_append [OF writes_ones encodeBinsEP_bits]])
        show "encodeRemAbsEP bins r cutoff m e = Option.bind (encodeBinsEP (2 ^ (mp + cutoff) - 1) (mp + cutoff) e) (encodeBinsEP ?s m)" for e :: "'p BinEncoder"
          using True False s(1) unfolding mp_def cv_def
          by (simp add: encodeRemAbsEP_def t Let_def drop_bit_eq_div diff_diff_eq add.commute)
      qed (use c fit s(2) in \<open>auto simp: mp_def\<close>)
      moreover have "reads_bits (decodeRemAbsEP r cutoff m :: 'p BinDecoder \<Rightarrow> _) (u32 (?c * 2 ^ r + ?s)) (replicate (mp + cutoff) True @ bits_of m ?s)"
        by (rule reads_bits_cong [OF decodeRemAbsEP_bits [of m "mp + cutoff" cutoff ?c m r ?s]])
          (use c fit s(2) b(2) in \<open>auto simp: mp_def\<close>)
      ultimately show ?thesis using s(3) True False
        by (intro exI [of _ "replicate (mp + cutoff) True @ bits_of m ?s"]) (simp add: mp_def cv_def Let_def)
    next
      case small: False
      define p where "p = escape_prefix cv 0"
      have p: "2 ^ p - 1 \<le> cv" "cv \<le> 2 ^ (p + 1) - 2" "p < mp"
        using escape_prefix_eq [of 0 cv mp] small cv by (simp_all add: p_def mp_def)
      let ?c = "2 ^ p - 1 + int cutoff"
      have cq: "?c \<le> ?q" using p by (simp add: cv_def)
      have c0: "0 \<le> ?c" by simp
      note s = rice_suffix [OF b(1) c0 cq b(2)]
      let ?s = "bins - ?c * 2 ^ r"
      have "(?q - ?c) * 2 ^ r + bins mod 2 ^ r < 2 ^ p * 2 ^ r"
      proof -
        have "?q - ?c + 1 \<le> 2 ^ p" using p(2) by (simp add: cv_def)
        then have "(?q - ?c + 1) * 2 ^ r \<le> 2 ^ p * 2 ^ r" by (intro mult_right_mono) simp_all
        moreover have "x * R + l < y" if "(x + 1) * R \<le> y" "l < R" for x R l y :: int
          using that by (simp add: distrib_right)
        ultimately show ?thesis using m(2) by blast
      qed
      moreover have "(?q - ?c) * 2 ^ r = ?q * 2 ^ r - ?c * 2 ^ r" by (rule left_diff_distrib)
      ultimately have "?s < 2 ^ p * 2 ^ r" using eq by linarith
      then have fit: "?s < 2 ^ (p + r)" by (simp add: power_add)
      have pr: "p + r < 32" "p + cutoff + m < 32" using p(3) c by (auto simp: mp_def)
      have "writes_bits (encodeRemAbsEP bins r cutoff m :: 'p BinEncoder \<Rightarrow> _) (replicate (p + cutoff) True @ bits_of (Suc (p + r)) ?s)"
      proof (rule writes_bits_cong [OF writes_bits_append [OF writes_ones encodeBinsEP_bits]])
        show "encodeRemAbsEP bins r cutoff m e = Option.bind (encodeBinsEP (2 ^ (p + cutoff) - 1) (p + cutoff) e) (encodeBinsEP ?s (Suc (p + r)))" for e :: "'p BinEncoder"
          using small False s(1) unfolding mp_def cv_def p_def
          by (simp add: encodeRemAbsEP_def t Let_def drop_bit_eq_div diff_diff_eq add.commute)
        have "(2::int) ^ (p + r) \<le> 2 ^ Suc (p + r)" by simp
        with fit show "?s < 2 ^ Suc (p + r)" by linarith
      qed (use pr c s(2) in auto)
      moreover have "reads_bits (decodeRemAbsEP r cutoff m :: 'p BinDecoder \<Rightarrow> _) (u32 (?c * 2 ^ r + ?s)) (replicate (p + cutoff) True @ bits_of (Suc (p + r)) ?s)"
        by (rule reads_bits_cong [OF decodeRemAbsEP_bits [of m "p + cutoff" cutoff ?c "p + r" r ?s]])
          (use c pr fit s(2) b(2) bits_of_small [OF s(2) fit] in \<open>auto simp: add.commute\<close>)
      ultimately show ?thesis using s(3) small False
        by (intro exI [of _ "replicate (p + cutoff) True @ bits_of (Suc (p + r)) ?s"]) (simp add: mp_def cv_def p_def Let_def)
    qed
  qed
qed

section \<open>Whole sub-streams\<close>

text \<open>\<open>CABACWriter::end_of_slice\<close> and \<open>CABACReader::terminating_bit\<close>.\<close>

definition end_of_slice :: "'p BinEncoder \<Rightarrow> 'p BinEncoder option" where
  "end_of_slice e = do { e \<leftarrow> encodeBinTrm 1 e; e_finish e }"

definition terminating_bit :: "'p BinDecoder \<Rightarrow> (bool \<times> 'p BinDecoder) option" where
  "terminating_bit d = do {
     (bin, d) \<leftarrow> decodeBinTrm d;
     if bin \<noteq> 0 then do {
       _ \<leftarrow> d_finish d;
       (_, bs) \<leftarrow> readOutTrailingBits (d_bitstream d);
       Some (True, d\<lparr>d_bitstream := bs\<rparr>)
     }
     else Some (False, d)
   }"

text \<open>
  A sub-stream as \<open>EncSlice\<close> and \<open>DecSlice\<close> handle it: the coder is started, the data coded by
  \<open>E\<close> (decoded by \<open>D\<close>), the end bit coded, and the stream aligned.
\<close>

definition encode_substream :: "('p BinEncoder \<Rightarrow> 'p BinEncoder option) \<Rightarrow> 'p BinEncoder \<Rightarrow> 'p BinEncoder option" where
  "encode_substream E e = do {
     e \<leftarrow> E (e_start e);
     e \<leftarrow> end_of_slice e;
     ob \<leftarrow> writeByteAlignment (e_bitstream e);
     Some (e\<lparr>e_bitstream := ob\<rparr>)
   }"

definition decode_substream ::
    "('p BinDecoder \<Rightarrow> ('a \<times> 'p BinDecoder) option) \<Rightarrow> 'p BinDecoder \<Rightarrow> ('a \<times> bool \<times> 'p BinDecoder) option" where
  "decode_substream D d = do {
     d \<leftarrow> d_start d;
     (v, d) \<leftarrow> D d;
     (b, d) \<leftarrow> terminating_bit d;
     Some (v, b, d)
   }"

lemma enc_ok_LOW: "enc_ok base LOW T e \<Longrightarrow> 0 \<le> LOW \<and> LOW + e_range e \<le> 2 ^ (9 + T)"
proof -
  assume "enc_ok base LOW T e"
  then obtain w n k where *: "0 \<le> e_low e" "0 \<le> e_bufferedByte e"
    "LOW = outstanding w (e_bufferedByte e) n * 2 ^ k + e_low e" "LOW + e_range e \<le> 2 ^ (9 + T)"
    unfolding enc_ok_def enc_rel_def by fastforce
  have "1 * 1 \<le> (val_of w * 256 + e_bufferedByte e + 1) * 2 ^ (8 * (n - 1))"
    using *(2) by (intro mult_mono) simp_all
  then have "0 \<le> outstanding w (e_bufferedByte e) n" by (simp add: outstanding_def)
  then have "0 \<le> outstanding w (e_bufferedByte e) n * 2 ^ k" by simp
  with * show ?thesis by linarith
qed

text \<open>The bits that end a sub-stream lie in the interval of the end bit.\<close>

lemma end_bits_in:
  assumes Y: "0 \<le> Y" "Y + 2 \<le> 2 ^ (9 + T)"
    and bits: "bits_of_bytes F = bits_of (T + 8) (Y div 2) @ True # replicate (7 - T mod 8) False"
  shows "length F = 2 + T div 8" "code_in F Y 2 T" "code_val F = (2 * (Y div 2) + 1) * 2 ^ (7 - T mod 8)"
proof -
  have "8 * length F = T + 8 + 1 + (7 - T mod 8)" using arg_cong [OF bits, of length] by simp
  then have len: "8 * length F = 9 + T + (7 - T mod 8)" by simp
  have "l = 2 + q" if "T = 8 * q + r" "r \<le> 7" "8 * l = 9 + T + (7 - r)" for l q r :: nat using that by simp
  from this [of "T div 8" "T mod 8" "length F"] len have "length F = 2 + T div 8" by simp
  then show "length F = 2 + T div 8" by simp
  have Y2: "0 \<le> Y div 2" "Y div 2 < 2 ^ (T + 8)" using Y by (simp_all add: power_add)
  then have v: "code_val F = (2 * (Y div 2) + 1) * 2 ^ (7 - T mod 8)"
    unfolding code_val_def bits by (simp add: val_of_append algebra_simps)
  then show "code_val F = (2 * (Y div 2) + 1) * 2 ^ (7 - T mod 8)" .
  have "Y \<le> 2 * (Y div 2) + 1" "2 * (Y div 2) + 1 < Y + 2" by simp_all
  moreover have "8 * length F - 9 - T = 7 - T mod 8" "9 + T \<le> 8 * length F" using len by simp_all
  ultimately show "code_in F Y 2 T" unfolding code_in_def v by simp
qed

lemma code_in_append:
  assumes "code_in F LOW R T" shows "code_in (F @ rest) LOW R T"
proof -
  let ?m = "8 * length F - 9 - T" and ?P = "2 ^ (8 * length rest) :: int"
  have len: "9 + T \<le> 8 * length F" using assms by (rule code_in_length)
  then have "8 * length (F @ rest) - 9 - T = ?m + 8 * length rest" by simp
  then have p: "(2::int) ^ (8 * length (F @ rest) - 9 - T) = 2 ^ ?m * ?P" by (simp only: power_add)
  have in0: "LOW * 2 ^ ?m \<le> code_val F" "code_val F + 1 \<le> (LOW + R) * 2 ^ ?m" using assms by (simp_all add: code_in_def)
  have "LOW * 2 ^ ?m * ?P \<le> code_val F * ?P" "(code_val F + 1) * ?P \<le> (LOW + R) * 2 ^ ?m * ?P"
    using in0 by (auto intro!: mult_right_mono)
  moreover have "code_val (F @ rest) = code_val F * ?P + code_val rest" "0 \<le> code_val rest" "code_val rest < ?P"
    using code_val_split [of F rest] code_val_range [of rest] by simp_all
  moreover have "(code_val F + 1) * ?P = code_val F * ?P + ?P" by (simp add: distrib_right)
  ultimately have "LOW * 2 ^ ?m * ?P \<le> code_val (F @ rest)" "code_val (F @ rest) < (LOW + R) * 2 ^ ?m * ?P" by linarith+
  then show ?thesis using len unfolding code_in_def p mult.assoc by simp
qed

lemma last_byte_mod:
  assumes "list_all is_byte F" "length F = Suc n"
  shows "F ! n = code_val F mod 256"
proof -
  have F: "F = take n F @ [F ! n]" using assms(2) by (metis lessI take_Suc_conv_app_nth take_all_iff order_refl)
  have b: "0 \<le> F ! n" "F ! n < 256" using assms by (auto simp: list_all_length is_byte_def)
  have "code_val [F ! n] = F ! n" using b by (simp add: code_val_def)
  then have "code_val F = code_val (take n F) * 256 + F ! n" by (subst F) (simp add: code_val_split)
  then show ?thesis using b by simp
qed

lemma terminating_bit_end:
  fixes d :: "'p BinDecoder"
  assumes ok: "dec_ok pre (F @ rest) LOW T d" and R: "256 \<le> d_range d" "d_range d \<le> 510" and byte: "list_all is_byte F"
    and Y: "Y = LOW + (d_range d - 2)" "0 \<le> LOW" "Y + 2 \<le> 2 ^ (9 + T)"
    and bits: "bits_of_bytes F = bits_of (T + 8) (Y div 2) @ True # replicate (7 - T mod 8) False"
  shows "\<exists>d'. terminating_bit d = Some (True, d') \<and> d_ctx d' = d_ctx d \<and>
    i_fifo (d_bitstream d') = pre @ F @ rest \<and> i_fifoIdx (d_bitstream d') = length pre + length F"
proof -
  have "0 \<le> Y" using Y R by simp
  note e = end_bits_in [OF this Y(3) bits]
  let ?d = "d\<lparr>d_range := d_range d - 2\<rparr>"
  have trm: "decodeBinTrm d = Some (1, ?d)"
    using decodeBinTrm_one [OF ok R] code_in_append [OF e(2), of rest] Y(1) by simp
  have ok': "dec_ok pre (F @ rest) LOW T ?d" using ok by (simp add: dec_ok_def)
  have "(F @ rest) ! (1 + T div 8) * 2 ^ (T mod 8) mod 256 = 128"
  proof -
    have "(F @ rest) ! (1 + T div 8) = code_val F mod 256"
      using last_byte_mod [OF byte, of "1 + T div 8"] e(1) by (simp add: nth_append)
    then have "(F @ rest) ! (1 + T div 8) * 2 ^ (T mod 8) mod 256 = code_val F * 2 ^ (T mod 8) mod 256" by (simp add: mod_mult_left_eq)
    also have "code_val F * 2 ^ (T mod 8) = (2 * (Y div 2) + 1) * 2 ^ (7 - T mod 8 + T mod 8)"
      unfolding e(3) by (simp only: power_add mult.assoc)
    also have "7 - T mod 8 + T mod 8 = 7" by simp
    also have "(2 * (Y div 2) + 1) * 2 ^ 7 mod 256 = (128::int)" by simp
    finally show ?thesis .
  qed
  from d_finish_Some [OF ok' this] have "d_finish ?d = Some ()" .
  moreover have "readOutTrailingBits (d_bitstream d) = Some (0, d_bitstream d)"
    using ok readOutTrailingBits_loop.simps(2) [of 7 0 "d_bitstream d"]
    by (simp add: readOutTrailingBits_def i_getNumBitsUntilByteAligned_def dec_ok_def)
  ultimately have "terminating_bit d = Some (True, ?d)" using trm by (simp add: terminating_bit_def)
  then show ?thesis using ok e(1) by (simp add: dec_ok_def)
qed

text \<open>
  The main result: whatever inverse operations produce the data, the sub-stream written decodes to
  the same values and contexts, its end is recognised, and exactly its bytes are consumed.
\<close>

lemma substream_roundtrip:
  fixes e :: "'p BinEncoder"
  assumes c: "coded pinv E D v" and ctx: "\<And>i. pinv (e_ctx e i)"
    and ob: "ob_inv (e_bitstream e)" "o_numHeldBits (e_bitstream e) = 0"
  shows "\<exists>e' F. encode_substream E e = Some e' \<and> ob_inv (e_bitstream e') \<and> o_numHeldBits (e_bitstream e') = 0 \<and>
    list_all is_byte F \<and> ob_bits (e_bitstream e') = ob_bits (e_bitstream e) @ bits_of_bytes F \<and>
    (\<forall>(d :: 'p BinDecoder) pre rest. ib_inv (d_bitstream d) \<longrightarrow> i_numHeldBits (d_bitstream d) = 0 \<longrightarrow>
       i_fifo (d_bitstream d) = pre @ F @ rest \<longrightarrow> i_fifoIdx (d_bitstream d) = length pre \<longrightarrow> d_ctx d = e_ctx e \<longrightarrow>
       (\<exists>d'. decode_substream D d = Some (v, True, d') \<and>
          i_fifo (d_bitstream d') = pre @ F @ rest \<and> i_fifoIdx (d_bitstream d') = length pre + length F))"
proof -
  let ?base = "ob_bits (e_bitstream e)"
  have s: "enc_ok ?base 0 0 (e_start e)" "engine_inv pinv (e_start e)"
    using e_start_ok [OF ob(1)] ctx by (simp_all add: engine_inv_def)
  obtain e1 L T where e1: "E (e_start e) = Some e1" "enc_ok ?base L T e1" "engine_inv pinv e1"
    "\<And>F. code_in F L (e_range e1) T \<Longrightarrow> code_in F 0 510 0" "decodes D v (e_start e) 0 0 e1 L T"
    using c s unfolding coded_def by (metis e_start_simps(1))
  have R: "256 \<le> e_range e1" "e_range e1 \<le> 510" using e1(3) by (simp_all add: engine_inv_def)
  define Y where "Y = L + (e_range e1 - 2)"
  have L: "0 \<le> L" "Y + 2 \<le> 2 ^ (9 + T)" using enc_ok_LOW [OF e1(2)] by (simp_all add: Y_def)
  obtain e2 where e2: "encodeBinTrm 1 e1 = Some e2" "enc_ok ?base (L * 2 ^ 7 + (e_range e1 - 2) * 2 ^ 7) (T + 7) e2"
    using encodeBinTrm_Some(2) [OF e1(2) R] by blast
  have Y: "(L * 2 ^ 7 + (e_range e1 - 2) * 2 ^ 7) div 2 ^ 8 = Y div 2"
    by (simp add: Y_def distrib_right [symmetric] zdiv_zmult2_eq [of 2 "Y * 128" 128, simplified])
  obtain e3 where e3: "e_finish e2 = Some e3" "ob_inv (e_bitstream e3)"
    "ob_bits (e_bitstream e3) = ?base @ bits_of (T + 8) (Y div 2)"
    using e_finish_Some [OF e2(2)] unfolding Y by (auto simp: add.commute)
  obtain ob4 where ob4: "writeByteAlignment (e_bitstream e3) = Some ob4" "ob_inv ob4" "o_numHeldBits ob4 = 0"
    "ob_bits ob4 = ob_bits (e_bitstream e3) @ True # replicate (7 - length (ob_bits (e_bitstream e3)) mod 8) False"
    using writeByteAlignment_Some [OF e3(2)] by blast
  let ?n = "length (o_fifo (e_bitstream e))"
  define F where "F = drop ?n (o_fifo ob4)"
  have base: "?base = bits_of_bytes (o_fifo (e_bitstream e))" using ob by (simp add: ob_bits_def)
  have "length (ob_bits (e_bitstream e3)) mod 8 = (8 * ?n + (T + 8)) mod 8" by (simp add: e3(3) base)
  then have len: "length (ob_bits (e_bitstream e3)) mod 8 = T mod 8" by simp
  have byte: "list_all is_byte F" using ob4(2) by (auto simp: F_def ob_inv_def list_all_iff dest: in_set_dropD)
  have all: "ob_bits ob4 = ?base @ bits_of (T + 8) (Y div 2) @ True # replicate (7 - T mod 8) False"
    using ob4(4) e3(3) len by simp
  have "bits_of_bytes F = drop (8 * ?n) (ob_bits ob4)" using ob4(3) by (simp add: F_def drop_bits_of_bytes [symmetric] ob_bits_def)
  then have bits: "bits_of_bytes F = bits_of (T + 8) (Y div 2) @ True # replicate (7 - T mod 8) False"
    using all base by simp
  have "0 \<le> Y" using L R by (simp add: Y_def)
  note ends = end_bits_in [OF this L(2) bits]
  have inF: "code_in (F @ rest) L (e_range e1) T" for rest
    using code_in_nested [of "F @ rest" L 0 "e_range e1 - 2" 2 T "e_range e1"] code_in_append [OF ends(2), of rest] R
    by (simp add: Y_def)
  have "\<exists>d'. decode_substream D d = Some (v, True, d') \<and>
      i_fifo (d_bitstream d') = pre @ F @ rest \<and> i_fifoIdx (d_bitstream d') = length pre + length F"
    if d: "ib_inv (d_bitstream d)" "i_numHeldBits (d_bitstream d) = 0" "i_fifo (d_bitstream d) = pre @ F @ rest"
      "i_fifoIdx (d_bitstream d) = length pre" "d_ctx d = e_ctx e" for d :: "'p BinDecoder" and pre rest
  proof -
    have "2 \<le> length (F @ rest)" using ends(1) by simp
    from d_start_ok [OF d(1-4) this] obtain d0 where d0: "d_start d = Some d0" "dec_ok pre (F @ rest) 0 0 d0"
      "d_range d0 = 510" "d_ctx d0 = e_ctx e" using d(5) by auto
    obtain d1 where d1: "D d0 = Some (v, d1)" "dec_ok pre (F @ rest) L T d1" "d_range d1 = e_range e1" "d_ctx d1 = e_ctx e1"
      using e1(5) inF [of rest] d0(2-4) unfolding decodes_def by (metis e_start_simps(1,2))
    obtain d2 where "terminating_bit d1 = Some (True, d2)" "i_fifo (d_bitstream d2) = pre @ F @ rest"
      "i_fifoIdx (d_bitstream d2) = length pre + length F"
      using terminating_bit_end [OF d1(2) _ _ byte _ L(1,2) bits] R d1(3) by (auto simp: Y_def)
    then show ?thesis using d0(1) d1(1) by (simp add: decode_substream_def)
  qed
  moreover have "encode_substream E e = Some (e3\<lparr>e_bitstream := ob4\<rparr>)"
    using e1(1) e2(1) e3(1) ob4(1) by (simp add: encode_substream_def end_of_slice_def)
  ultimately show ?thesis using ob4 byte all bits by (intro exI [of _ "e3\<lparr>e_bitstream := ob4\<rparr>"] exI [of _ F]) auto
qed

section \<open>Sequences of coding operations\<close>

text \<open>
  The calls \<open>CABACWriter\<close> makes of the encoder, with the context or parameters each has, and the
  calls \<open>CABACReader\<close> makes of the decoder at the same places.
\<close>

datatype bin_op =
    Bin nat int
  | BinEP int
  | BinsEP nat int
  | RemAbsEP nat nat nat int
  | BinTrm
  | Align

fun op_ok :: "bin_op \<Rightarrow> bool" where
  "op_ok (Bin ctxId bin) \<longleftrightarrow> bin = 0 \<or> bin = 1"
| "op_ok (BinEP bin) \<longleftrightarrow> bin = 0 \<or> bin = 1"
| "op_ok (BinsEP numBins bins) \<longleftrightarrow> numBins \<le> 32 \<and> 0 \<le> bins \<and> bins < 2 ^ numBins"
| "op_ok (RemAbsEP goRicePar cutoff maxLog2TrDynamicRange bins) \<longleftrightarrow>
     cutoff + maxLog2TrDynamicRange \<le> 32 \<and> maxLog2TrDynamicRange < 32 \<and> goRicePar \<le> maxLog2TrDynamicRange \<and>
     0 \<le> bins \<and> bins < 2 ^ 32 \<and> int cutoff * 2 ^ goRicePar < 2 ^ 32 \<and>
     bins < (2 ^ (32 - cutoff - maxLog2TrDynamicRange) - 1 + int cutoff) * 2 ^ goRicePar + 2 ^ maxLog2TrDynamicRange"
| "op_ok BinTrm \<longleftrightarrow> True"
| "op_ok Align \<longleftrightarrow> True"

fun put_op :: "'p BinProbModel \<Rightarrow> bin_op \<Rightarrow> 'p BinEncoder \<Rightarrow> 'p BinEncoder option" where
  "put_op pm (Bin ctxId bin) e = encodeBin pm bin ctxId e"
| "put_op pm (BinEP bin) e = encodeBinEP bin e"
| "put_op pm (BinsEP numBins bins) e = encodeBinsEP bins numBins e"
| "put_op pm (RemAbsEP goRicePar cutoff maxLog2TrDynamicRange bins) e = encodeRemAbsEP bins goRicePar cutoff maxLog2TrDynamicRange e"
| "put_op pm BinTrm e = encodeBinTrm 0 e"
| "put_op pm Align e = Some (e_align e)"

fun get_op :: "'p BinProbModel \<Rightarrow> bin_op \<Rightarrow> 'p BinDecoder \<Rightarrow> (bin_op \<times> 'p BinDecoder) option" where
  "get_op pm (Bin ctxId _) d = do { (bin, d) \<leftarrow> decodeBin pm ctxId d; Some (Bin ctxId bin, d) }"
| "get_op pm (BinEP _) d = do { (bin, d) \<leftarrow> decodeBinEP d; Some (BinEP bin, d) }"
| "get_op pm (BinsEP numBins _) d = do { (bins, d) \<leftarrow> decodeBinsEP numBins d; Some (BinsEP numBins bins, d) }"
| "get_op pm (RemAbsEP goRicePar cutoff maxLog2TrDynamicRange _) d = do {
     (bins, d) \<leftarrow> decodeRemAbsEP goRicePar cutoff maxLog2TrDynamicRange d;
     Some (RemAbsEP goRicePar cutoff maxLog2TrDynamicRange bins, d)
   }"
| "get_op pm BinTrm d = do { (bin, d) \<leftarrow> decodeBinTrm d; _ \<leftarrow> check (bin \<noteq> 0); Some (BinTrm, d) }"
| "get_op pm Align d = Some (Align, d_align d)"

fun put_ops :: "'p BinProbModel \<Rightarrow> bin_op list \<Rightarrow> 'p BinEncoder \<Rightarrow> 'p BinEncoder option" where
  "put_ops pm [] e = Some e"
| "put_ops pm (x # xs) e = do { e \<leftarrow> put_op pm x e; put_ops pm xs e }"

fun get_ops :: "'p BinProbModel \<Rightarrow> bin_op list \<Rightarrow> 'p BinDecoder \<Rightarrow> (bin_op list \<times> 'p BinDecoder) option" where
  "get_ops pm [] d = Some ([], d)"
| "get_ops pm (x # xs) d = do { (y, d) \<leftarrow> get_op pm x d; (ys, d) \<leftarrow> get_ops pm xs d; Some (y # ys, d) }"

lemma coded_remAbs [coded_intros]:
  assumes "op_ok (RemAbsEP r cutoff m bins)"
  shows "coded pinv (encodeRemAbsEP bins r cutoff m) (decodeRemAbsEP r cutoff m) bins"
  using remAbs_bits [of cutoff m r bins] assms by (auto intro: coded_bypass)

lemma coded_binEP [coded_intros]: "bin = 0 \<or> bin = 1 \<Longrightarrow> coded pinv (encodeBinEP bin) decodeBinEP bin"
  by (rule coded_bypass [OF encodeBinEP_bits decodeBinEP_bits])

lemma coded_binsEP [coded_intros]:
  "n \<le> 32 \<Longrightarrow> 0 \<le> bins \<Longrightarrow> bins < 2 ^ n \<Longrightarrow> coded pinv (encodeBinsEP bins n) (decodeBinsEP n) bins"
  by (rule coded_bypass [OF encodeBinsEP_bits decodeBinsEP_bits])

context prob_model
begin

lemma coded_op:
  assumes "op_ok x" shows "coded pm_inv (put_op pm x) (get_op pm x) x"
proof (cases x)
  case (Bin i b)
  then show ?thesis using assms coded_map [OF coded_bin [of b i], of _ "\<lambda>b. Bin i b"] by (simp add: coded_def decodes_def)
next
  case (BinEP b)
  then show ?thesis using assms coded_map [OF coded_binEP [of b], of _ "\<lambda>b. BinEP b"] by (simp add: coded_def decodes_def)
next
  case (BinsEP n b)
  then show ?thesis using assms coded_map [OF coded_binsEP [of n b], of _ "\<lambda>b. BinsEP n b"] by (simp add: coded_def decodes_def)
next
  case (RemAbsEP r c m b)
  then show ?thesis using assms coded_map [OF coded_remAbs [of r c m b], of _ "\<lambda>b. RemAbsEP r c m b"]
    by (simp add: coded_def decodes_def)
next
  case BinTrm
  have "coded pm_inv Some (\<lambda>d. Option.bind (check ((0::int) \<noteq> 0)) (\<lambda>_. Some (BinTrm, d))) BinTrm"
    using coded_return by simp
  from coded_bind [OF coded_trm_zero, where ?E2.0 = Some and ?v2.0 = BinTrm and
      ?D2.0 = "\<lambda>bin d. Option.bind (check (bin \<noteq> 0)) (\<lambda>_. Some (BinTrm, d))", OF this]
  show ?thesis by (simp add: BinTrm coded_def decodes_def)
next
  case Align
  show ?thesis unfolding Align
    by (rule coded_cong [OF coded_map [OF coded_align, of _ "\<lambda>b. Align"]]) auto
qed

lemma coded_ops: "list_all op_ok xs \<Longrightarrow> coded pm_inv (put_ops pm xs) (get_ops pm xs) xs"
proof (induction xs)
  case Nil
  show ?case by (rule coded_cong [OF coded_return]) auto
next
  case (Cons x xs)
  then have "coded pm_inv (put_op pm x) (get_op pm x) x" "coded pm_inv (put_ops pm xs) (get_ops pm xs) xs"
    using coded_op by simp_all
  from coded_bind [OF this(1), where ?E2.0 = "put_ops pm xs" and ?v2.0 = "x # xs" and
      ?D2.0 = "\<lambda>y d. Option.bind (get_ops pm xs d) (\<lambda>(ys, d). Some (y # ys, d))"]
    coded_map [OF this(2), of "x # xs" "\<lambda>ys. x # ys"]
  show ?case by (simp add: coded_def decodes_def)
qed

end

section \<open>The coder with the standard model\<close>

definition std_valid :: "BinProbModel_Std BinEncoder \<Rightarrow> bool" where
  "std_valid e \<longleftrightarrow> (\<forall>i. std_inv (e_ctx e i)) \<and> ob_inv (e_bitstream e) \<and> o_numHeldBits (e_bitstream e) = 0"

text \<open>A sub-stream coded with the standard model, for any pair of inverse operations.\<close>

lemma std_substream:
  assumes "coded std_inv E D v" "std_valid e"
  shows "\<exists>e' F. encode_substream E e = Some e' \<and> std_valid (e'\<lparr>e_ctx := e_ctx e\<rparr>) \<and>
    ob_bits (e_bitstream e') = ob_bits (e_bitstream e) @ bits_of_bytes F \<and> list_all is_byte F \<and>
    (\<forall>d pre rest. list_all is_byte (pre @ rest) \<and>
       d_bitstream d = i_create\<lparr>i_fifo := pre @ F @ rest, i_fifoIdx := length pre\<rparr> \<and> d_ctx d = e_ctx e \<longrightarrow>
       (\<exists>d'. decode_substream D d = Some (v, True, d') \<and> i_fifoIdx (d_bitstream d') = length pre + length F))"
proof -
  obtain e' F where e': "encode_substream E e = Some e'" "ob_inv (e_bitstream e')" "o_numHeldBits (e_bitstream e') = 0"
    "ob_bits (e_bitstream e') = ob_bits (e_bitstream e) @ bits_of_bytes F" "list_all is_byte F"
    and dec: "\<And>(d :: BinProbModel_Std BinDecoder) pre rest. ib_inv (d_bitstream d) \<Longrightarrow> i_numHeldBits (d_bitstream d) = 0 \<Longrightarrow>
       i_fifo (d_bitstream d) = pre @ F @ rest \<Longrightarrow> i_fifoIdx (d_bitstream d) = length pre \<Longrightarrow> d_ctx d = e_ctx e \<Longrightarrow>
       \<exists>d'. decode_substream D d = Some (v, True, d') \<and> i_fifoIdx (d_bitstream d') = length pre + length F"
    using substream_roundtrip [OF assms(1), of e] assms(2) unfolding std_valid_def by metis
  have "\<exists>d'. decode_substream D d = Some (v, True, d') \<and> i_fifoIdx (d_bitstream d') = length pre + length F"
    if "list_all is_byte (pre @ rest) \<and> d_bitstream d = i_create\<lparr>i_fifo := pre @ F @ rest, i_fifoIdx := length pre\<rparr> \<and> d_ctx d = e_ctx e"
    for d pre rest
    using that e'(5) by (intro dec [of d pre rest]) (auto simp: ib_inv_def i_create_def is_byte_def)
  then show ?thesis using e' assms(2) by (intro exI [of _ e'] exI [of _ F]) (auto simp: std_valid_def)
qed

text \<open>
  C2: The arithmetic coder is lossless. For every sequence of context-coded, bypass, remaining-level,
  terminating and alignment operations with valid arguments, from valid context states on an aligned
  stream, encoding never throws and ends aligned; a decoder with the same context states, positioned at
  the first of the bytes written, with whatever before and after them, reads back every value,
  recognises the end of the sub-stream and has then consumed exactly those bytes.
\<close>

theorem cabac_roundtrip:
  assumes "list_all op_ok xs" "std_valid e"
  shows "\<exists>e' F. encode_substream (put_ops Std xs) e = Some e' \<and> std_valid (e'\<lparr>e_ctx := e_ctx e\<rparr>) \<and>
    ob_bits (e_bitstream e') = ob_bits (e_bitstream e) @ bits_of_bytes F \<and> list_all is_byte F \<and>
    (\<forall>d pre rest. list_all is_byte (pre @ rest) \<and>
       d_bitstream d = i_create\<lparr>i_fifo := pre @ F @ rest, i_fifoIdx := length pre\<rparr> \<and> d_ctx d = e_ctx e \<longrightarrow>
       (\<exists>d'. decode_substream (get_ops Std xs) d = Some (xs, True, d') \<and>
          i_fifoIdx (d_bitstream d') = length pre + length F))"
  by (rule std_substream [OF std.coded_ops [OF assms(1)] assms(2)])

definition sample_ops :: "bin_op list" where
  "sample_ops = [Bin 0 1, Bin 0 0, BinEP 1, Bin 3 1, BinsEP 17 0x1beef, BinTrm, RemAbsEP 2 5 15 4000, Align, BinsEP 20 0xabcde, Bin 3 1]"

definition sample_encoder :: "BinProbModel_Std BinEncoder" where
  "sample_encoder = \<lparr>e_bitstream = o_clear, e_low = 0, e_range = 0, e_bufferedByte = 0, e_numBufferedBytes = 0, e_bitsLeft = 0,
     e_numBinsCtx = (\<lambda>_. 0), e_numBinsEP = 0, e_numBinsTrm = 0, e_binStoreInUse = False, e_binBuffer = (\<lambda>_. []), e_ctx = (\<lambda>_. std_create)\<rparr>"

definition sample_decoder :: "int list \<Rightarrow> int list \<Rightarrow> int list \<Rightarrow> BinProbModel_Std BinDecoder" where
  "sample_decoder pre F rest = \<lparr>d_bitstream = i_create\<lparr>i_fifo := pre @ F @ rest, i_fifoIdx := length pre\<rparr>,
     d_range = 0, d_value = 0, d_bitsNeeded = 0, d_ctx = (\<lambda>_. std_create)\<rparr>"

theorem cabac_roundtrip_witness:
  "\<exists>e' F d'. encode_substream (put_ops Std sample_ops) sample_encoder = Some e' \<and>
    ob_bits (e_bitstream e') = bits_of_bytes F \<and>
    decode_substream (get_ops Std sample_ops) (sample_decoder [0xff, 0] F [0x80]) = Some (sample_ops, True, d') \<and>
    i_fifoIdx (d_bitstream d') = 2 + length F"
proof -
  have "list_all op_ok sample_ops" by code_simp
  moreover have "std_valid sample_encoder"
    by (simp add: std_valid_def sample_encoder_def std_create_def std_inv_def DWS_def o_clear_def ob_inv_def is_byte_def)
  ultimately obtain e' F where e': "encode_substream (put_ops Std sample_ops) sample_encoder = Some e'"
    "ob_bits (e_bitstream e') = bits_of_bytes F"
    and dec: "\<forall>d pre rest. list_all is_byte (pre @ rest) \<and>
       d_bitstream d = i_create\<lparr>i_fifo := pre @ F @ rest, i_fifoIdx := length pre\<rparr> \<and> d_ctx d = e_ctx sample_encoder \<longrightarrow>
       (\<exists>d'. decode_substream (get_ops Std sample_ops) d = Some (sample_ops, True, d') \<and>
          i_fifoIdx (d_bitstream d') = length pre + length F)"
    using cabac_roundtrip [of sample_ops sample_encoder] by (auto simp: sample_encoder_def)
  have "list_all is_byte ([0xff, 0] @ [0x80])" by (simp add: is_byte_def)
  with dec [rule_format, of "[0xff, 0]" "[0x80]" "sample_decoder [0xff, 0] F [0x80]"] e' show ?thesis
    by (auto simp: sample_decoder_def sample_encoder_def)
qed

text \<open>
  C16: The encoder's registers stay in bounds. After any sequence of operations from a started encoder
  the code range lies between 256 and 510, between 12 and 23 bits are left before the next output, the
  low register is below its carry bound, so that the 32-bit arithmetic never wraps, and the byte held
  back is a byte.
\<close>

theorem encoder_registers_bounded:
  assumes "list_all op_ok xs" "std_valid e" "put_ops Std xs (e_start e) = Some e'"
  shows "256 \<le> e_range e' \<and> e_range e' \<le> 510 \<and> 12 \<le> e_bitsLeft e' \<and> e_bitsLeft e' \<le> 23 \<and>
    0 \<le> e_low e' \<and> e_low e' + e_range e' \<le> 17 * 2 ^ nat (28 - e_bitsLeft e') \<and>
    0 \<le> e_bufferedByte e' \<and> e_bufferedByte e' \<le> 255 \<and> (\<forall>i. std_inv (e_ctx e' i))"
proof -
  have "enc_ok (ob_bits (e_bitstream e)) 0 0 (e_start e)" "engine_inv std_inv (e_start e)"
    using assms(2) e_start_ok [of e] by (simp_all add: std_valid_def engine_inv_def)
  with std.coded_ops [OF assms(1)] obtain L T where e': "enc_ok (ob_bits (e_bitstream e)) L T e'" "engine_inv std_inv e'"
    unfolding coded_def using assms(3) by (metis option.inject)
  then obtain k where "e_bitsLeft e' = 32 - int k" "9 \<le> k" "k \<le> 20" "0 \<le> e_low e'" "e_low e' + e_range e' \<le> 17 * 2 ^ (k - 4)"
    "0 \<le> e_bufferedByte e'" "e_bufferedByte e' \<le> 255"
    unfolding enc_ok_def enc_rel_def by fastforce
  moreover have "nat (28 - (32 - int k)) = k - 4" if "9 \<le> k" for k using that by simp
  ultimately show ?thesis using e'(2) by (simp add: engine_inv_def)
qed

theorem encoder_registers_bounded_witness:
  "256 \<le> e_range (the (put_ops Std sample_ops (e_start sample_encoder))) \<and>
   e_bitsLeft (the (put_ops Std sample_ops (e_start sample_encoder))) \<le> 23"
proof -
  have "list_all op_ok sample_ops" by code_simp
  moreover have v: "std_valid sample_encoder"
    by (simp add: std_valid_def sample_encoder_def std_create_def std_inv_def DWS_def o_clear_def ob_inv_def is_byte_def)
  moreover obtain e' where "put_ops Std sample_ops (e_start sample_encoder) = Some e'"
  proof -
    have "put_ops Std sample_ops (e_start sample_encoder) \<noteq> None" by code_simp
    then show ?thesis using that by auto
  qed
  ultimately show ?thesis using encoder_registers_bounded [of sample_ops sample_encoder] by simp
qed

end
