(* ===== verification/Contexts.thy ===== *)
theory Contexts
  imports ProbModel
begin

text \<open>
  The context models of the entropy coder: the initialisation tables, the context sets with their
  offsets, and the store of models (\<open>ContextSetCfg\<close>, \<open>CtxStore\<close> and \<open>Ctx\<close> of
  \<open>source/Lib/CommonLib/Contexts.{h,cpp}\<close>). The only model type of the program is the standard one,
  so a store is a list of \<open>BinProbModel_Std\<close>.
\<close>

section \<open>Costs of bins\<close>

definition SCALE_BITS :: nat where
  "SCALE_BITS = 15"

text \<open>\<open>m_binFracBits\<close>: the cost of a zero and of a one in each of the 256 states, in units of \<open>2 ^ -15\<close> bits.\<close>

definition m_binFracBits :: "(int \<times> int) list" where
  "m_binFracBits =
    [(92, 294912), (278, 242976), (464, 218827), (651, 202921),
     (838, 191040), (1027, 181553), (1216, 173656), (1406, 166891),
     (1596, 160974), (1788, 155716), (1980, 150985), (2173, 146684),
     (2367, 142742), (2561, 139104), (2756, 135726), (2953, 132573),
     (3150, 129617), (3347, 126836), (3546, 124209), (3746, 121720),
     (3946, 119356), (4147, 117104), (4349, 114955), (4552, 112899),
     (4756, 110929), (4960, 109038), (5166, 107220), (5372, 105468),
     (5580, 103780), (5788, 102150), (5997, 100574), (6207, 99048),
     (6418, 97571), (6630, 96138), (6843, 94748), (7057, 93397),
     (7272, 92084), (7488, 90806), (7705, 89562), (7923, 88350),
     (8141, 87168), (8361, 86015), (8582, 84889), (8804, 83790),
     (9027, 82715), (9251, 81665), (9476, 80637), (9702, 79631),
     (9930, 78646), (10158, 77681), (10388, 76736), (10618, 75809),
     (10850, 74900), (11083, 74008), (11317, 73132), (11552, 72273),
     (11788, 71428), (12026, 70599), (12265, 69784), (12505, 68983),
     (12746, 68195), (12988, 67420), (13232, 66657), (13477, 65907),
     (13723, 65168), (13971, 64441), (14220, 63725), (14470, 63019),
     (14721, 62324), (14974, 61639), (15228, 60963), (15484, 60297),
     (15741, 59641), (15999, 58993), (16259, 58354), (16520, 57724),
     (16782, 57102), (17047, 56488), (17312, 55882), (17579, 55283),
     (17848, 54693), (18118, 54109), (18390, 53532), (18663, 52963),
     (18938, 52400), (19214, 51844), (19492, 51294), (19772, 50751),
     (20053, 50214), (20337, 49682), (20621, 49157), (20908, 48638),
     (21196, 48124), (21486, 47615), (21778, 47112), (22072, 46615),
     (22367, 46122), (22664, 45635), (22964, 45153), (23265, 44675),
     (23568, 44202), (23873, 43734), (24180, 43271), (24489, 42812),
     (24800, 42357), (25113, 41907), (25428, 41461), (25745, 41019),
     (26065, 40581), (26386, 40148), (26710, 39718), (27036, 39292),
     (27364, 38870), (27695, 38452), (28028, 38037), (28363, 37626),
     (28701, 37218), (29041, 36814), (29383, 36414), (29729, 36016),
     (30076, 35622), (30426, 35232), (30779, 34844), (31135, 34460),
     (31493, 34079), (31854, 33700), (32217, 33325), (32584, 32953),
     (32953, 32584), (33325, 32217), (33700, 31854), (34079, 31493),
     (34460, 31135), (34844, 30779), (35232, 30426), (35622, 30076),
     (36016, 29729), (36414, 29383), (36814, 29041), (37218, 28701),
     (37626, 28363), (38037, 28028), (38452, 27695), (38870, 27364),
     (39292, 27036), (39718, 26710), (40148, 26386), (40581, 26065),
     (41019, 25745), (41461, 25428), (41907, 25113), (42357, 24800),
     (42812, 24489), (43271, 24180), (43734, 23873), (44202, 23568),
     (44675, 23265), (45153, 22964), (45635, 22664), (46122, 22367),
     (46615, 22072), (47112, 21778), (47615, 21486), (48124, 21196),
     (48638, 20908), (49157, 20621), (49682, 20337), (50214, 20053),
     (50751, 19772), (51294, 19492), (51844, 19214), (52400, 18938),
     (52963, 18663), (53532, 18390), (54109, 18118), (54693, 17848),
     (55283, 17579), (55882, 17312), (56488, 17047), (57102, 16782),
     (57724, 16520), (58354, 16259), (58993, 15999), (59641, 15741),
     (60297, 15484), (60963, 15228), (61639, 14974), (62324, 14721),
     (63019, 14470), (63725, 14220), (64441, 13971), (65168, 13723),
     (65907, 13477), (66657, 13232), (67420, 12988), (68195, 12746),
     (68983, 12505), (69784, 12265), (70599, 12026), (71428, 11788),
     (72273, 11552), (73132, 11317), (74008, 11083), (74900, 10850),
     (75809, 10618), (76736, 10388), (77681, 10158), (78646, 9930),
     (79631, 9702), (80637, 9476), (81665, 9251), (82715, 9027),
     (83790, 8804), (84889, 8582), (86015, 8361), (87168, 8141),
     (88350, 7923), (89562, 7705), (90806, 7488), (92084, 7272),
     (93397, 7057), (94748, 6843), (96138, 6630), (97571, 6418),
     (99048, 6207), (100574, 5997), (102150, 5788), (103780, 5580),
     (105468, 5372), (107220, 5166), (109038, 4960), (110929, 4756),
     (112899, 4552), (114955, 4349), (117104, 4147), (119356, 3946),
     (121720, 3746), (124209, 3546), (126836, 3347), (129617, 3150),
     (132573, 2953), (135726, 2756), (139104, 2561), (142742, 2367),
     (146684, 2173), (150985, 1980), (155716, 1788), (160974, 1596),
     (166891, 1406), (173656, 1216), (181553, 1027), (191040, 838),
     (202921, 651), (218827, 464), (242976, 278), (294912, 92)]"

definition estFracBitsEP :: "int \<Rightarrow> int" where
  "estFracBitsEP numBins = u32 (push_bit SCALE_BITS numBins)"

definition getFracBitsArray :: "BinProbModel_Std \<Rightarrow> int \<times> int" where
  "getFracBitsArray p = m_binFracBits ! nat (std_state p)"

definition estFracBits :: "BinProbModel_Std \<Rightarrow> int \<Rightarrow> int" where
  "estFracBits p bin = (if bin = 0 then fst (getFracBitsArray p) else snd (getFracBitsArray p))"

definition estFracBitsTrm :: "int \<Rightarrow> int" where
  "estFracBitsTrm bin = (if bin \<noteq> 0 then 0x3bfbb else 0x0010c)"

definition estFracBitsUpdate :: "int \<Rightarrow> int \<Rightarrow> BinProbModel_Std \<Rightarrow> int \<times> BinProbModel_Std" where
  "estFracBitsUpdate bin b p = (u64 (b + estFracBits p bin), std_update p bin)"

definition estFracExcessBits :: "BinProbModel_Std \<Rightarrow> BinProbModel_Std \<Rightarrow> int" where
  "estFracExcessBits r p =
     (let n = 2 * std_state p + 1
      in drop_bit 9 (u32 (u32 (u32 ((512 - n) * estFracBits r 0) + u32 (n * estFracBits r 1)) + 256)))"

section \<open>Initialisation tables\<close>

text \<open>
  One table per call of \<open>addCtxSet\<close>, in the order of the file: the initialisation values for B, P and
  I slices, and the window sizes. \<open>CNU\<close> is 35 and \<open>DWS\<close> is 8.
\<close>

definition init_SplitFlag :: "int list list" where
  "init_SplitFlag =
    [[18, 27, 15, 18, 28, 45, 26, 7, 23],
     [11, 35, 53, 12, 6, 30, 13, 15, 31],
     [19, 28, 38, 27, 29, 38, 20, 30, 31],
     [12, 13, 8, 8, 13, 12, 5, 9, 9]]"

definition init_SplitQtFlag :: "int list list" where
  "init_SplitQtFlag =
    [[26, 36, 38, 18, 34, 21],
     [20, 14, 23, 18, 19, 6],
     [27, 6, 15, 25, 19, 37],
     [0, 8, 8, 12, 12, 8]]"

definition init_SplitHvFlag :: "int list list" where
  "init_SplitHvFlag =
    [[43, 42, 37, 42, 44],
     [43, 35, 37, 34, 52],
     [43, 42, 29, 27, 44],
     [9, 8, 9, 8, 5]]"

definition init_Split12Flag :: "int list list" where
  "init_Split12Flag =
    [[28, 29, 28, 29],
     [43, 37, 21, 22],
     [36, 45, 36, 45],
     [12, 13, 12, 13]]"

definition init_ModeConsFlag :: "int list list" where
  "init_ModeConsFlag =
    [[25, 20],
     [25, 12],
     [35, 35],
     [1, 0]]"

definition init_SkipFlag :: "int list list" where
  "init_SkipFlag =
    [[57, 60, 46],
     [57, 59, 45],
     [0, 26, 28],
     [5, 4, 8]]"

definition init_MergeFlag :: "int list list" where
  "init_MergeFlag =
    [[6],
     [21],
     [26],
     [4]]"

definition init_RegularMergeFlag :: "int list list" where
  "init_RegularMergeFlag =
    [[46, 15],
     [38, 7],
     [35, 35],
     [5, 5]]"

definition init_MergeIdx :: "int list list" where
  "init_MergeIdx =
    [[18],
     [20],
     [34],
     [4]]"

definition init_MmvdFlag :: "int list list" where
  "init_MmvdFlag =
    [[25],
     [26],
     [35],
     [4]]"

definition init_MmvdMergeIdx :: "int list list" where
  "init_MmvdMergeIdx =
    [[43],
     [43],
     [35],
     [10]]"

definition init_MmvdStepMvpIdx :: "int list list" where
  "init_MmvdStepMvpIdx =
    [[59],
     [60],
     [35],
     [0]]"

definition init_PredMode :: "int list list" where
  "init_PredMode =
    [[40, 35],
     [40, 35],
     [35, 35],
     [5, 1]]"

definition init_MultiRefLineIdx :: "int list list" where
  "init_MultiRefLineIdx =
    [[25, 59],
     [25, 58],
     [25, 60],
     [5, 8]]"

definition init_IntraLumaMpmFlag :: "int list list" where
  "init_IntraLumaMpmFlag =
    [[44],
     [36],
     [45],
     [6]]"

definition init_IntraLumaPlanarFlag :: "int list list" where
  "init_IntraLumaPlanarFlag =
    [[13, 6],
     [12, 20],
     [13, 28],
     [1, 5]]"

definition init_CclmModeFlag :: "int list list" where
  "init_CclmModeFlag =
    [[26],
     [34],
     [59],
     [4]]"

definition init_CclmModeIdx :: "int list list" where
  "init_CclmModeIdx =
    [[27],
     [27],
     [27],
     [9]]"

definition init_IntraChromaPredMode :: "int list list" where
  "init_IntraChromaPredMode =
    [[25],
     [25],
     [34],
     [5]]"

definition init_MipFlag :: "int list list" where
  "init_MipFlag =
    [[56, 57, 50, 26],
     [41, 57, 58, 26],
     [33, 49, 50, 25],
     [9, 10, 9, 6]]"

definition init_DeltaQP :: "int list list" where
  "init_DeltaQP =
    [[35, 35],
     [35, 35],
     [35, 35],
     [8, 8]]"

definition init_InterDir :: "int list list" where
  "init_InterDir =
    [[14, 13, 5, 4, 3, 40],
     [7, 6, 5, 12, 4, 40],
     [35, 35, 35, 35, 35, 35],
     [0, 0, 1, 4, 4, 0]]"

definition init_RefPic :: "int list list" where
  "init_RefPic =
    [[5, 35],
     [20, 35],
     [35, 35],
     [0, 4]]"

definition init_SubblockMergeFlag :: "int list list" where
  "init_SubblockMergeFlag =
    [[25, 58, 45],
     [48, 57, 44],
     [35, 35, 35],
     [4, 4, 4]]"

definition init_AffineFlag :: "int list list" where
  "init_AffineFlag =
    [[19, 13, 6],
     [12, 13, 14],
     [35, 35, 35],
     [4, 0, 0]]"

definition init_AffineType :: "int list list" where
  "init_AffineType =
    [[35],
     [35],
     [35],
     [4]]"

definition init_AffMergeIdx :: "int list list" where
  "init_AffMergeIdx =
    [[4],
     [5],
     [35],
     [0]]"

definition init_bcwIdx :: "int list list" where
  "init_bcwIdx =
    [[5],
     [4],
     [35],
     [1]]"

definition init_Mvd :: "int list list" where
  "init_Mvd =
    [[51, 36],
     [44, 43],
     [14, 45],
     [9, 5]]"

definition init_BDPCMMode :: "int list list" where
  "init_BDPCMMode =
    [[19, 21, 0, 28],
     [40, 36, 0, 13],
     [19, 35, 1, 27],
     [1, 4, 1, 0]]"

definition init_QtRootCbf :: "int list list" where
  "init_QtRootCbf =
    [[12],
     [5],
     [6],
     [4]]"

definition init_ACTFlag :: "int list list" where
  "init_ACTFlag =
    [[46],
     [46],
     [52],
     [1]]"

definition init_QtCbf0 :: "int list list" where
  "init_QtCbf0 =
    [[15, 6, 5, 14],
     [23, 5, 20, 7],
     [15, 12, 5, 7],
     [5, 1, 8, 9]]"

definition init_QtCbf1 :: "int list list" where
  "init_QtCbf1 =
    [[25, 37],
     [25, 28],
     [12, 21],
     [5, 0]]"

definition init_QtCbf2 :: "int list list" where
  "init_QtCbf2 =
    [[9, 36, 45],
     [25, 29, 45],
     [33, 28, 36],
     [2, 1, 0]]"

definition init_SigCoeffGroup0 :: "int list list" where
  "init_SigCoeffGroup0 =
    [[25, 45],
     [25, 30],
     [18, 31],
     [8, 5]]"

definition init_SigCoeffGroup1 :: "int list list" where
  "init_SigCoeffGroup1 =
    [[25, 14],
     [25, 45],
     [25, 15],
     [5, 8]]"

definition init_SigFlag0 :: "int list list" where
  "init_SigFlag0 =
    [[17, 41, 49, 36, 1, 49, 50, 37, 48, 51, 58, 45],
     [17, 41, 42, 29, 25, 49, 43, 37, 33, 58, 51, 30],
     [25, 19, 28, 14, 25, 20, 29, 30, 19, 37, 30, 38],
     [12, 9, 9, 10, 9, 9, 9, 10, 8, 8, 8, 10]]"

definition init_SigFlag1 :: "int list list" where
  "init_SigFlag1 =
    [[9, 49, 50, 36, 48, 59, 59, 38],
     [17, 34, 35, 21, 41, 59, 60, 38],
     [25, 27, 28, 37, 34, 53, 53, 46],
     [12, 12, 9, 13, 4, 5, 8, 9]]"

definition init_SigFlag2 :: "int list list" where
  "init_SigFlag2 =
    [[26, 45, 53, 46, 49, 54, 61, 39, 35, 39, 39, 39],
     [19, 38, 38, 46, 34, 54, 54, 39, 6, 39, 39, 39],
     [11, 38, 46, 54, 27, 39, 39, 39, 44, 39, 39, 39],
     [9, 13, 8, 8, 8, 8, 8, 5, 8, 0, 0, 0]]"

definition init_SigFlag3 :: "int list list" where
  "init_SigFlag3 =
    [[34, 45, 38, 31, 58, 39, 39, 39],
     [35, 45, 53, 54, 44, 39, 39, 39],
     [19, 46, 38, 39, 52, 39, 39, 39],
     [8, 12, 12, 8, 4, 0, 0, 0]]"

definition init_SigFlag4 :: "int list list" where
  "init_SigFlag4 =
    [[19, 54, 39, 39, 50, 39, 39, 39, 0, 39, 39, 39],
     [19, 39, 54, 39, 19, 39, 39, 39, 56, 39, 39, 39],
     [18, 39, 39, 39, 27, 39, 39, 39, 0, 39, 39, 39],
     [8, 8, 8, 8, 8, 0, 4, 4, 0, 0, 0, 0]]"

definition init_SigFlag5 :: "int list list" where
  "init_SigFlag5 =
    [[34, 38, 54, 39, 41, 39, 39, 39],
     [34, 38, 62, 39, 26, 39, 39, 39],
     [11, 39, 39, 39, 19, 39, 39, 39],
     [8, 8, 8, 8, 4, 0, 0, 0]]"

definition init_ParFlag0 :: "int list list" where
  "init_ParFlag0 =
    [[33, 40, 25, 41, 26, 42, 25, 33, 26, 34, 27, 25, 41, 42, 42, 35, 33, 27, 35, 42, 43],
     [18, 17, 33, 18, 26, 42, 25, 33, 26, 42, 27, 25, 34, 42, 42, 35, 26, 27, 42, 20, 20],
     [33, 25, 18, 26, 34, 27, 25, 26, 19, 42, 35, 33, 19, 27, 35, 35, 34, 42, 20, 43, 20],
     [8, 9, 12, 13, 13, 13, 10, 13, 13, 13, 13, 13, 13, 13, 13, 13, 10, 13, 13, 13, 13]]"

definition init_ParFlag1 :: "int list list" where
  "init_ParFlag1 =
    [[33, 25, 26, 34, 19, 27, 33, 42, 43, 35, 43],
     [25, 25, 26, 11, 19, 27, 33, 42, 35, 35, 43],
     [33, 25, 26, 42, 19, 27, 26, 50, 35, 20, 43],
     [8, 12, 12, 12, 13, 13, 13, 13, 13, 13, 13]]"

definition init_GtxFlag0 :: "int list list" where
  "init_GtxFlag0 =
    [[25, 0, 0, 17, 25, 26, 0, 9, 25, 33, 19, 0, 25, 33, 26, 20, 25, 33, 27, 35, 22],
     [17, 0, 1, 17, 25, 18, 0, 9, 25, 33, 34, 9, 25, 18, 26, 20, 25, 18, 19, 27, 29],
     [25, 1, 40, 25, 33, 11, 17, 25, 25, 18, 4, 17, 33, 26, 19, 13, 33, 19, 20, 28, 22],
     [1, 5, 9, 9, 9, 6, 5, 9, 10, 10, 9, 9, 9, 9, 9, 9, 6, 8, 9, 9, 10]]"

definition init_GtxFlag1 :: "int list list" where
  "init_GtxFlag1 =
    [[25, 1, 25, 33, 26, 12, 25, 33, 27, 28, 37],
     [17, 9, 25, 10, 18, 4, 17, 33, 19, 20, 29],
     [40, 9, 25, 18, 26, 35, 25, 26, 35, 28, 37],
     [1, 5, 8, 8, 9, 6, 6, 9, 8, 8, 9]]"

definition init_GtxFlag2 :: "int list list" where
  "init_GtxFlag2 =
    [[0, 0, 33, 34, 35, 21, 25, 34, 35, 28, 29, 40, 42, 43, 29, 30, 49, 36, 37, 45, 38],
     [0, 17, 26, 19, 35, 21, 25, 34, 20, 28, 29, 33, 27, 28, 29, 22, 34, 28, 44, 37, 38],
     [25, 25, 11, 27, 20, 21, 33, 12, 28, 21, 22, 34, 28, 29, 29, 30, 36, 29, 45, 30, 23],
     [9, 5, 10, 13, 13, 10, 9, 10, 13, 13, 13, 9, 10, 10, 10, 13, 8, 9, 10, 10, 13]]"

definition init_GtxFlag3 :: "int list list" where
  "init_GtxFlag3 =
    [[0, 40, 34, 43, 36, 37, 57, 52, 45, 38, 46],
     [0, 25, 19, 20, 13, 14, 57, 44, 30, 30, 23],
     [40, 33, 27, 28, 21, 37, 36, 37, 45, 38, 46],
     [8, 8, 9, 12, 12, 10, 5, 9, 9, 9, 13]]"

definition init_LastX0 :: "int list list" where
  "init_LastX0 =
    [[6, 6, 12, 14, 6, 4, 14, 7, 6, 4, 29, 7, 6, 6, 12, 28, 7, 13, 13, 35],
     [6, 13, 12, 6, 6, 12, 14, 14, 13, 12, 29, 7, 6, 13, 36, 28, 14, 13, 5, 26],
     [13, 5, 4, 21, 14, 4, 6, 14, 21, 11, 14, 7, 14, 5, 11, 21, 30, 22, 13, 42],
     [8, 5, 4, 5, 4, 4, 5, 4, 1, 0, 4, 1, 0, 0, 0, 0, 1, 0, 0, 0]]"

definition init_LastX1 :: "int list list" where
  "init_LastX1 =
    [[19, 5, 4],
     [12, 4, 18],
     [12, 4, 3],
     [5, 4, 4]]"

definition init_LastY0 :: "int list list" where
  "init_LastY0 =
    [[5, 5, 20, 13, 13, 19, 21, 6, 12, 12, 14, 14, 5, 4, 12, 13, 7, 13, 12, 41],
     [5, 5, 12, 6, 6, 4, 6, 14, 5, 12, 14, 7, 13, 5, 13, 21, 14, 20, 12, 34],
     [13, 5, 4, 6, 13, 11, 14, 6, 5, 3, 14, 22, 6, 4, 3, 6, 22, 29, 20, 34],
     [8, 5, 8, 5, 5, 4, 5, 5, 4, 0, 5, 4, 1, 0, 0, 1, 4, 0, 0, 0]]"

definition init_LastY1 :: "int list list" where
  "init_LastY1 =
    [[11, 5, 27],
     [11, 4, 18],
     [12, 4, 3],
     [6, 5, 5]]"

definition init_MVPIdx :: "int list list" where
  "init_MVPIdx =
    [[34],
     [34],
     [42],
     [12]]"

definition init_SmvdFlag :: "int list list" where
  "init_SmvdFlag =
    [[28],
     [28],
     [35],
     [5]]"

definition init_SaoMergeFlag :: "int list list" where
  "init_SaoMergeFlag =
    [[2],
     [60],
     [60],
     [0]]"

definition init_SaoTypeIdx :: "int list list" where
  "init_SaoTypeIdx =
    [[2],
     [5],
     [13],
     [4]]"

definition init_LFNSTIdx :: "int list list" where
  "init_LFNSTIdx =
    [[52, 37, 27],
     [37, 45, 27],
     [28, 52, 42],
     [9, 9, 10]]"

definition init_PLTFlag :: "int list list" where
  "init_PLTFlag =
    [[17],
     [0],
     [25],
     [1]]"

definition init_RotationFlag :: "int list list" where
  "init_RotationFlag =
    [[35],
     [42],
     [42],
     [5]]"

definition init_RunTypeFlag :: "int list list" where
  "init_RunTypeFlag =
    [[50],
     [59],
     [42],
     [9]]"

definition init_IdxRunModel :: "int list list" where
  "init_IdxRunModel =
    [[58, 45, 45, 30, 38],
     [51, 30, 30, 38, 23],
     [50, 37, 45, 30, 46],
     [9, 6, 9, 10, 5]]"

definition init_CopyRunModel :: "int list list" where
  "init_CopyRunModel =
    [[45, 38, 46],
     [38, 53, 46],
     [45, 38, 46],
     [0, 9, 5]]"

definition init_TransformSkipFlag :: "int list list" where
  "init_TransformSkipFlag =
    [[25, 17],
     [25, 9],
     [25, 9],
     [1, 1]]"

definition init_MTSIdx :: "int list list" where
  "init_MTSIdx =
    [[45, 25, 27, 0],
     [45, 40, 27, 0],
     [29, 0, 28, 0],
     [8, 0, 9, 0]]"

definition init_ISPMode :: "int list list" where
  "init_ISPMode =
    [[33, 43],
     [33, 36],
     [33, 43],
     [9, 2]]"

definition init_SbtFlag :: "int list list" where
  "init_SbtFlag =
    [[41, 57],
     [56, 57],
     [35, 35],
     [1, 5]]"

definition init_SbtQuadFlag :: "int list list" where
  "init_SbtQuadFlag =
    [[42],
     [42],
     [35],
     [10]]"

definition init_SbtHorFlag :: "int list list" where
  "init_SbtHorFlag =
    [[35, 51, 27],
     [20, 43, 12],
     [35, 35, 35],
     [8, 4, 1]]"

definition init_SbtPosFlag :: "int list list" where
  "init_SbtPosFlag =
    [[28],
     [28],
     [35],
     [13]]"

definition init_ChromaQpAdjFlag :: "int list list" where
  "init_ChromaQpAdjFlag =
    [[35],
     [35],
     [35],
     [8]]"

definition init_ChromaQpAdjIdc :: "int list list" where
  "init_ChromaQpAdjIdc =
    [[35],
     [35],
     [35],
     [8]]"

definition init_ImvFlag :: "int list list" where
  "init_ImvFlag =
    [[59, 26, 50, 60, 38],
     [59, 48, 58, 60, 60],
     [35, 34, 35, 35, 35],
     [0, 5, 0, 0, 4]]"

definition init_alfCtbFlag :: "int list list" where
  "init_alfCtbFlag =
    [[33, 52, 46, 25, 61, 54, 25, 61, 54],
     [13, 23, 46, 4, 61, 54, 19, 46, 54],
     [62, 39, 39, 54, 39, 39, 31, 39, 39],
     [0, 0, 0, 4, 0, 0, 1, 0, 0]]"

definition init_ctbAlfAlternative :: "int list list" where
  "init_ctbAlfAlternative =
    [[11, 26],
     [20, 12],
     [11, 11],
     [0, 0]]"

definition init_alfUseApsFlag :: "int list list" where
  "init_alfUseApsFlag =
    [[46],
     [46],
     [46],
     [0]]"

definition init_CcAlfFilterControlFlag :: "int list list" where
  "init_CcAlfFilterControlFlag =
    [[25, 35, 38, 25, 28, 38],
     [18, 21, 38, 18, 21, 38],
     [18, 30, 31, 18, 30, 31],
     [4, 1, 4, 4, 1, 4]]"

definition init_CiipFlag :: "int list list" where
  "init_CiipFlag =
    [[57],
     [57],
     [35],
     [1]]"

definition init_IBCFlag :: "int list list" where
  "init_IBCFlag =
    [[0, 43, 45],
     [0, 57, 44],
     [17, 42, 36],
     [1, 5, 8]]"

definition init_JointCbCrFlag :: "int list list" where
  "init_JointCbCrFlag =
    [[42, 43, 52],
     [27, 36, 45],
     [12, 21, 35],
     [1, 1, 0]]"

definition init_TsSigCoeffGroup :: "int list list" where
  "init_TsSigCoeffGroup =
    [[18, 35, 45],
     [18, 12, 29],
     [18, 20, 38],
     [5, 8, 8]]"

definition init_TsSigFlag :: "int list list" where
  "init_TsSigFlag =
    [[25, 50, 37],
     [40, 35, 44],
     [25, 28, 38],
     [13, 13, 8]]"

definition init_TsParFlag :: "int list list" where
  "init_TsParFlag =
    [[11],
     [3],
     [11],
     [6]]"

definition init_TsGtxFlag :: "int list list" where
  "init_TsGtxFlag =
    [[35, 3, 4, 4, 5],
     [35, 2, 10, 3, 3],
     [35, 10, 3, 3, 3],
     [8, 1, 1, 1, 1]]"

definition init_TsLrg1Flag :: "int list list" where
  "init_TsLrg1Flag =
    [[19, 11, 4, 6],
     [18, 11, 4, 28],
     [11, 5, 5, 14],
     [4, 2, 1, 6]]"

definition init_TsResidualSign :: "int list list" where
  "init_TsResidualSign =
    [[35, 25, 46, 28, 33, 38],
     [5, 10, 53, 43, 25, 46],
     [12, 17, 46, 28, 25, 46],
     [1, 4, 4, 5, 8, 8]]"

definition initSets :: "int list list list" where
  "initSets =
    [init_SplitFlag, init_SplitQtFlag, init_SplitHvFlag, init_Split12Flag,
     init_ModeConsFlag, init_SkipFlag, init_MergeFlag, init_RegularMergeFlag,
     init_MergeIdx, init_MmvdFlag, init_MmvdMergeIdx, init_MmvdStepMvpIdx,
     init_PredMode, init_MultiRefLineIdx, init_IntraLumaMpmFlag, init_IntraLumaPlanarFlag,
     init_CclmModeFlag, init_CclmModeIdx, init_IntraChromaPredMode, init_MipFlag,
     init_DeltaQP, init_InterDir, init_RefPic, init_SubblockMergeFlag,
     init_AffineFlag, init_AffineType, init_AffMergeIdx, init_bcwIdx,
     init_Mvd, init_BDPCMMode, init_QtRootCbf, init_ACTFlag,
     init_QtCbf0, init_QtCbf1, init_QtCbf2, init_SigCoeffGroup0,
     init_SigCoeffGroup1, init_SigFlag0, init_SigFlag1, init_SigFlag2,
     init_SigFlag3, init_SigFlag4, init_SigFlag5, init_ParFlag0,
     init_ParFlag1, init_GtxFlag0, init_GtxFlag1, init_GtxFlag2,
     init_GtxFlag3, init_LastX0, init_LastX1, init_LastY0,
     init_LastY1, init_MVPIdx, init_SmvdFlag, init_SaoMergeFlag,
     init_SaoTypeIdx, init_LFNSTIdx, init_PLTFlag, init_RotationFlag,
     init_RunTypeFlag, init_IdxRunModel, init_CopyRunModel, init_TransformSkipFlag,
     init_MTSIdx, init_ISPMode, init_SbtFlag, init_SbtQuadFlag,
     init_SbtHorFlag, init_SbtPosFlag, init_ChromaQpAdjFlag, init_ChromaQpAdjIdc,
     init_ImvFlag, init_alfCtbFlag, init_ctbAlfAlternative, init_alfUseApsFlag,
     init_CcAlfFilterControlFlag, init_CiipFlag, init_IBCFlag, init_JointCbCrFlag,
     init_TsSigCoeffGroup, init_TsSigFlag, init_TsParFlag, init_TsGtxFlag,
     init_TsLrg1Flag, init_TsResidualSign]"

section \<open>Context sets\<close>

record CtxSet =
  Offset :: nat
  Size :: nat

text \<open>\<open>CtxSet::operator()\<close>; the range check is active in debug builds only and is not modelled.\<close>

definition ctx_at :: "CtxSet \<Rightarrow> nat \<Rightarrow> nat" where
  "ctx_at s inc = Offset s + inc"

definition combineCtxSets :: "CtxSet list \<Rightarrow> CtxSet" where
  "combineCtxSets ctxSets =
     (let minOffset = foldl (\<lambda>m s. min m (Offset s)) 65535 ctxSets;
          maxOffset = foldl (\<lambda>m s. max m (Offset s + Size s)) 0 ctxSets
      in \<lparr>Offset = minOffset, Size = maxOffset - minOffset\<rparr>)"

text \<open>
  \<open>addCtxSet\<close> appends a row to each of the \<open>NUMBER_OF_SLICE_TYPES + 1\<close> tables; rows of different
  length are rejected. As in the code the start index is the length of the first table.
\<close>

definition NUMBER_OF_SLICE_TYPES :: nat where
  "NUMBER_OF_SLICE_TYPES = 3"

fun append_rows :: "nat \<Rightarrow> nat \<Rightarrow> int list list \<Rightarrow> int list list \<Rightarrow> int list list option" where
  "append_rows startIdx numValues (row # rows) (t # ts) =
     (if length row \<noteq> numValues then None
      else map_option ((#) (take startIdx t @ replicate (startIdx - length t) 0 @ row)) (append_rows startIdx numValues rows ts))"
| "append_rows startIdx numValues [] ts = Some ts"
| "append_rows startIdx numValues rows [] = Some []"

definition addCtxSet :: "int list list \<Rightarrow> int list list \<Rightarrow> (CtxSet \<times> int list list) option" where
  "addCtxSet initSet2d tables = (
     let startIdx = length (tables ! 0);
         numValues = length (initSet2d ! 0)
     in map_option (\<lambda>tables. (\<lparr>Offset = startIdx, Size = numValues\<rparr>, tables)) (append_rows startIdx numValues initSet2d tables))"

fun addCtxSets :: "int list list list \<Rightarrow> int list list \<Rightarrow> (CtxSet list \<times> int list list) option" where
  "addCtxSets [] tables = Some ([], tables)"
| "addCtxSets (i # is) tables = do {
     (s, tables) \<leftarrow> addCtxSet i tables;
     (ss, tables) \<leftarrow> addCtxSets is tables;
     Some (s # ss, tables)
   }"

text \<open>The static initialisers run in the order of the file, from empty tables.\<close>

definition staticInit :: "(CtxSet list \<times> int list list) option" where
  "staticInit = addCtxSets initSets (replicate (NUMBER_OF_SLICE_TYPES + 1) [])"

definition ctxSets :: "CtxSet list" where
  "ctxSets = fst (the staticInit)"

definition sm_InitTables :: "int list list" where
  "sm_InitTables = snd (the staticInit)"

definition getInitTable :: "nat \<Rightarrow> int list option" where
  "getInitTable initId = do { _ \<leftarrow> check (initId \<ge> length sm_InitTables); Some (sm_InitTables ! initId) }"

definition NumberOfContexts :: nat where
  "NumberOfContexts = length (sm_InitTables ! 0)"

definition SplitFlag :: CtxSet where "SplitFlag = ctxSets ! 0"
definition SplitQtFlag :: CtxSet where "SplitQtFlag = ctxSets ! 1"
definition SplitHvFlag :: CtxSet where "SplitHvFlag = ctxSets ! 2"
definition Split12Flag :: CtxSet where "Split12Flag = ctxSets ! 3"
definition ModeConsFlag :: CtxSet where "ModeConsFlag = ctxSets ! 4"
definition SkipFlag :: CtxSet where "SkipFlag = ctxSets ! 5"
definition MergeFlag :: CtxSet where "MergeFlag = ctxSets ! 6"
definition RegularMergeFlag :: CtxSet where "RegularMergeFlag = ctxSets ! 7"
definition MergeIdx :: CtxSet where "MergeIdx = ctxSets ! 8"
definition MmvdFlag :: CtxSet where "MmvdFlag = ctxSets ! 9"
definition MmvdMergeIdx :: CtxSet where "MmvdMergeIdx = ctxSets ! 10"
definition MmvdStepMvpIdx :: CtxSet where "MmvdStepMvpIdx = ctxSets ! 11"
definition PredMode :: CtxSet where "PredMode = ctxSets ! 12"
definition MultiRefLineIdx :: CtxSet where "MultiRefLineIdx = ctxSets ! 13"
definition IntraLumaMpmFlag :: CtxSet where "IntraLumaMpmFlag = ctxSets ! 14"
definition IntraLumaPlanarFlag :: CtxSet where "IntraLumaPlanarFlag = ctxSets ! 15"
definition CclmModeFlag :: CtxSet where "CclmModeFlag = ctxSets ! 16"
definition CclmModeIdx :: CtxSet where "CclmModeIdx = ctxSets ! 17"
definition IntraChromaPredMode :: CtxSet where "IntraChromaPredMode = ctxSets ! 18"
definition MipFlag :: CtxSet where "MipFlag = ctxSets ! 19"
definition DeltaQP :: CtxSet where "DeltaQP = ctxSets ! 20"
definition InterDir :: CtxSet where "InterDir = ctxSets ! 21"
definition RefPic :: CtxSet where "RefPic = ctxSets ! 22"
definition SubblockMergeFlag :: CtxSet where "SubblockMergeFlag = ctxSets ! 23"
definition AffineFlag :: CtxSet where "AffineFlag = ctxSets ! 24"
definition AffineType :: CtxSet where "AffineType = ctxSets ! 25"
definition AffMergeIdx :: CtxSet where "AffMergeIdx = ctxSets ! 26"
definition bcwIdx :: CtxSet where "bcwIdx = ctxSets ! 27"
definition Mvd :: CtxSet where "Mvd = ctxSets ! 28"
definition BDPCMMode :: CtxSet where "BDPCMMode = ctxSets ! 29"
definition QtRootCbf :: CtxSet where "QtRootCbf = ctxSets ! 30"
definition ACTFlag :: CtxSet where "ACTFlag = ctxSets ! 31"
definition MVPIdx :: CtxSet where "MVPIdx = ctxSets ! 53"
definition SmvdFlag :: CtxSet where "SmvdFlag = ctxSets ! 54"
definition SaoMergeFlag :: CtxSet where "SaoMergeFlag = ctxSets ! 55"
definition SaoTypeIdx :: CtxSet where "SaoTypeIdx = ctxSets ! 56"
definition LFNSTIdx :: CtxSet where "LFNSTIdx = ctxSets ! 57"
definition PLTFlag :: CtxSet where "PLTFlag = ctxSets ! 58"
definition RotationFlag :: CtxSet where "RotationFlag = ctxSets ! 59"
definition RunTypeFlag :: CtxSet where "RunTypeFlag = ctxSets ! 60"
definition IdxRunModel :: CtxSet where "IdxRunModel = ctxSets ! 61"
definition CopyRunModel :: CtxSet where "CopyRunModel = ctxSets ! 62"
definition TransformSkipFlag :: CtxSet where "TransformSkipFlag = ctxSets ! 63"
definition MTSIdx :: CtxSet where "MTSIdx = ctxSets ! 64"
definition ISPMode :: CtxSet where "ISPMode = ctxSets ! 65"
definition SbtFlag :: CtxSet where "SbtFlag = ctxSets ! 66"
definition SbtQuadFlag :: CtxSet where "SbtQuadFlag = ctxSets ! 67"
definition SbtHorFlag :: CtxSet where "SbtHorFlag = ctxSets ! 68"
definition SbtPosFlag :: CtxSet where "SbtPosFlag = ctxSets ! 69"
definition ChromaQpAdjFlag :: CtxSet where "ChromaQpAdjFlag = ctxSets ! 70"
definition ChromaQpAdjIdc :: CtxSet where "ChromaQpAdjIdc = ctxSets ! 71"
definition ImvFlag :: CtxSet where "ImvFlag = ctxSets ! 72"
definition alfCtbFlag :: CtxSet where "alfCtbFlag = ctxSets ! 73"
definition ctbAlfAlternative :: CtxSet where "ctbAlfAlternative = ctxSets ! 74"
definition alfUseApsFlag :: CtxSet where "alfUseApsFlag = ctxSets ! 75"
definition CcAlfFilterControlFlag :: CtxSet where "CcAlfFilterControlFlag = ctxSets ! 76"
definition CiipFlag :: CtxSet where "CiipFlag = ctxSets ! 77"
definition IBCFlag :: CtxSet where "IBCFlag = ctxSets ! 78"
definition JointCbCrFlag :: CtxSet where "JointCbCrFlag = ctxSets ! 79"
definition TsSigCoeffGroup :: CtxSet where "TsSigCoeffGroup = ctxSets ! 80"
definition TsSigFlag :: CtxSet where "TsSigFlag = ctxSets ! 81"
definition TsParFlag :: CtxSet where "TsParFlag = ctxSets ! 82"
definition TsGtxFlag :: CtxSet where "TsGtxFlag = ctxSets ! 83"
definition TsLrg1Flag :: CtxSet where "TsLrg1Flag = ctxSets ! 84"
definition TsResidualSign :: CtxSet where "TsResidualSign = ctxSets ! 85"
definition QtCbf :: "CtxSet list" where "QtCbf = [ctxSets ! 32, ctxSets ! 33, ctxSets ! 34]"
definition SigCoeffGroup :: "CtxSet list" where "SigCoeffGroup = [ctxSets ! 35, ctxSets ! 36]"
definition SigFlag :: "CtxSet list" where "SigFlag = [ctxSets ! 37, ctxSets ! 38, ctxSets ! 39, ctxSets ! 40, ctxSets ! 41, ctxSets ! 42]"
definition ParFlag :: "CtxSet list" where "ParFlag = [ctxSets ! 43, ctxSets ! 44]"
definition GtxFlag :: "CtxSet list" where "GtxFlag = [ctxSets ! 45, ctxSets ! 46, ctxSets ! 47, ctxSets ! 48]"
definition LastX :: "CtxSet list" where "LastX = [ctxSets ! 49, ctxSets ! 50]"
definition LastY :: "CtxSet list" where "LastY = [ctxSets ! 51, ctxSets ! 52]"

text \<open>The combined sets.\<close>

definition Palette :: CtxSet where
  "Palette = combineCtxSets [RotationFlag, RunTypeFlag, IdxRunModel, CopyRunModel]"

definition Sao :: CtxSet where
  "Sao = combineCtxSets [SaoMergeFlag, SaoTypeIdx]"

definition Alf :: CtxSet where
  "Alf = combineCtxSets [alfCtbFlag, ctbAlfAlternative, alfUseApsFlag]"

definition ctxPartition :: CtxSet where
  "ctxPartition = combineCtxSets [SplitFlag, SplitQtFlag, SplitHvFlag, Split12Flag, ModeConsFlag]"

section \<open>The store of context models\<close>

definition MAX_QP :: int where
  "MAX_QP = 63"

definition Clip3 :: "int \<Rightarrow> int \<Rightarrow> int \<Rightarrow> int" where
  "Clip3 minVal maxVal a = min (max minVal a) maxVal"

type_synonym CtxStore = "BinProbModel_Std list"

definition store_create :: CtxStore where
  "store_create = replicate NumberOfContexts std_create"

fun init_models :: "int \<Rightarrow> int list \<Rightarrow> int list \<Rightarrow> CtxStore \<Rightarrow> CtxStore option" where
  "init_models qp (v # vs) (w # ws) (p # ps) = do {
     q \<leftarrow> setLog2WindowSize w (std_init qp v p);
     qs \<leftarrow> init_models qp vs ws ps;
     Some (q # qs)
   }"
| "init_models qp _ _ _ = Some []"

definition store_init :: "int \<Rightarrow> nat \<Rightarrow> CtxStore \<Rightarrow> CtxStore option" where
  "store_init qp initId store = do {
     initTable \<leftarrow> getInitTable initId;
     _ \<leftarrow> check (length store \<noteq> length initTable);
     rateInitTable \<leftarrow> getInitTable NUMBER_OF_SLICE_TYPES;
     _ \<leftarrow> check (length store \<noteq> length rateInitTable);
     init_models (Clip3 0 MAX_QP qp) initTable rateInitTable store
   }"

fun set_windows :: "int list \<Rightarrow> CtxStore \<Rightarrow> CtxStore option" where
  "set_windows (w # ws) (p # ps) = do { q \<leftarrow> setLog2WindowSize w p; qs \<leftarrow> set_windows ws ps; Some (q # qs) }"
| "set_windows _ _ = Some []"

definition setWinSizes :: "int list \<Rightarrow> CtxStore \<Rightarrow> CtxStore option" where
  "setWinSizes log2WindowSizes store = do {
     _ \<leftarrow> check (length store \<noteq> length log2WindowSizes);
     set_windows log2WindowSizes store
   }"

definition loadPStates :: "int list \<Rightarrow> CtxStore \<Rightarrow> CtxStore option" where
  "loadPStates probStates store = do {
     _ \<leftarrow> check (length store \<noteq> length probStates);
     Some (map2 std_setState probStates store)
   }"

definition savePStates :: "CtxStore \<Rightarrow> int list" where
  "savePStates store = map std_getState store"

text \<open>\<open>copyFrom\<close> of a whole store and of the contexts of a set.\<close>

definition copyFrom_set :: "CtxStore \<Rightarrow> CtxSet \<Rightarrow> CtxStore \<Rightarrow> CtxStore" where
  "copyFrom_set src s store =
     take (Offset s) store @ take (Size s) (drop (Offset s) src) @ drop (Offset s + Size s) store"

section \<open>\<open>Ctx\<close>\<close>

definition MAX_NUM_COMPONENT :: nat where
  "MAX_NUM_COMPONENT = 3"

text \<open>\<open>floorLog2\<close> of \<open>CommonDef.h\<close>, -1 at zero.\<close>

fun floorLog2 :: "nat \<Rightarrow> int" where
  "floorLog2 x = (if x = 0 then - 1 else if x = 1 then 0 else 1 + floorLog2 (x div 2))"

declare floorLog2.simps [simp del]

record Ctx =
  c_store :: CtxStore
  c_GRAdaptStats :: "int list"
  c_baseLevel :: int

definition ctx_init :: "int \<Rightarrow> nat \<Rightarrow> Ctx \<Rightarrow> Ctx option" where
  "ctx_init qp initId c = do {
     store \<leftarrow> store_init qp initId (c_store c);
     Some (c\<lparr>c_store := store, c_GRAdaptStats := replicate MAX_NUM_COMPONENT 0\<rparr>)
   }"

definition riceStatReset :: "nat \<Rightarrow> bool \<Rightarrow> Ctx \<Rightarrow> Ctx option" where
  "riceStatReset bitDepth persistentRiceAdaptationEnabledFlag c =
     (if persistentRiceAdaptationEnabledFlag
      then do {
        _ \<leftarrow> check (bitDepth \<le> 10);
        Some (c\<lparr>c_GRAdaptStats := replicate MAX_NUM_COMPONENT (2 * floorLog2 (bitDepth - 10))\<rparr>)
      }
      else Some (c\<lparr>c_GRAdaptStats := replicate MAX_NUM_COMPONENT 0\<rparr>))"

definition ctx_assign :: "Ctx \<Rightarrow> Ctx \<Rightarrow> Ctx" where
  "ctx_assign src c = c\<lparr>c_store := c_store src, c_GRAdaptStats := c_GRAdaptStats src\<rparr>"

definition subctx_assign :: "Ctx \<Rightarrow> CtxSet \<Rightarrow> Ctx \<Rightarrow> Ctx" where
  "subctx_assign src s c = c\<lparr>c_store := copyFrom_set (c_store src) s (c_store c)\<rparr>"

definition initCtxAndWinSize :: "nat \<Rightarrow> Ctx \<Rightarrow> int \<Rightarrow> Ctx \<Rightarrow> Ctx option" where
  "initCtxAndWinSize ctxId src winSize c = do {
     p \<leftarrow> setLog2WindowSize winSize (c_store src ! ctxId);
     Some (c\<lparr>c_store := (c_store c)[ctxId := p]\<rparr>)
   }"

section \<open>The tables are well formed\<close>

text \<open>The static initialisers, evaluated: no row is rejected.\<close>

lemma append_rows_Some:
  "length rows = length ts \<Longrightarrow> list_all (\<lambda>r. length r = n) rows \<Longrightarrow> list_all (\<lambda>t. length t = k) ts \<Longrightarrow>
   append_rows k n rows ts = Some (map2 (\<lambda>t r. t @ r) ts rows)"
proof (induction k n rows ts rule: append_rows.induct)
  case (1 k n row rows t ts)
  then show ?case by simp
qed auto

definition row_ok :: "int list list \<Rightarrow> bool" where
  "row_ok i \<longleftrightarrow> length i = 4 \<and> list_all (\<lambda>r. length r = length (i ! 0)) i"

lemma initSets_ok: "list_all row_ok initSets"
  by code_simp

fun offsets_from :: "nat \<Rightarrow> int list list list \<Rightarrow> CtxSet list" where
  "offsets_from k [] = []"
| "offsets_from k (i # is) = \<lparr>Offset = k, Size = length (i ! 0)\<rparr> # offsets_from (k + length (i ! 0)) is"

lemma addCtxSets_Some:
  "list_all row_ok is \<Longrightarrow> length tables = 4 \<Longrightarrow> list_all (\<lambda>t. length t = k) tables \<Longrightarrow>
   \<exists>tables'. addCtxSets is tables = Some (offsets_from k is, tables') \<and> length tables' = 4 \<and>
     (\<forall>j<4. tables' ! j = tables ! j @ concat (map (\<lambda>i. i ! j) is))"
proof (induction "is" arbitrary: tables k)
  case (Cons i "is")
  let ?t = "map2 (\<lambda>t r. t @ r) tables i"
  define n where "n = length (i ! 0)"
  have i: "length i = 4" "list_all (\<lambda>r. length r = n) i" using Cons.prems(1) by (simp_all add: row_ok_def n_def)
  have "append_rows k n i tables = Some ?t" using i Cons.prems(2,3) by (intro append_rows_Some) simp_all
  moreover have "length (tables ! 0) = k" using Cons.prems(2,3) by (simp add: list_all_length)
  ultimately have step: "addCtxSet i tables = Some (\<lparr>Offset = k, Size = n\<rparr>, ?t)" by (simp add: addCtxSet_def n_def)
  have nth: "?t ! j = tables ! j @ i ! j" if "j < 4" for j using that i Cons.prems(2) by simp
  have tj: "length (tables ! j) = k" if "j < 4" for j using Cons.prems(2,3) that by (simp add: list_all_length)
  have ij: "length (i ! j) = n" if "j < 4" for j using i(2) that unfolding list_all_length i(1) by blast
  have "length ?t = 4" using i(1) Cons.prems(2) by simp
  then have "list_all (\<lambda>t. length t = k + n) ?t"
    unfolding list_all_length by (simp add: nth tj ij)
  then obtain tables' where "addCtxSets is ?t = Some (offsets_from (k + n) is, tables')" "length tables' = 4"
    "\<forall>j<4. tables' ! j = ?t ! j @ concat (map (\<lambda>i. i ! j) is)"
    using Cons.IH [of ?t "k + n"] Cons.prems i by auto
  then show ?case using step nth by (simp add: n_def)
qed simp

lemma staticInit_eq:
  "staticInit = Some (offsets_from 0 initSets, sm_InitTables)" "ctxSets = offsets_from 0 initSets"
  "length sm_InitTables = 4" "j < 4 \<Longrightarrow> sm_InitTables ! j = concat (map (\<lambda>i. i ! j) initSets)"
proof -
  obtain t where t: "staticInit = Some (offsets_from 0 initSets, t)" "length t = 4"
    "\<forall>j<4. t ! j = concat (map (\<lambda>i. i ! j) initSets)"
    using addCtxSets_Some [OF initSets_ok, of "replicate 4 []" 0]
    by (auto simp: staticInit_def NUMBER_OF_SLICE_TYPES_def list_all_length)
  have "the staticInit = (offsets_from 0 initSets, t)" unfolding t(1) by simp
  then have e: "ctxSets = offsets_from 0 initSets" "sm_InitTables = t" unfolding sm_InitTables_def ctxSets_def by simp_all
  show "staticInit = Some (offsets_from 0 initSets, sm_InitTables)" unfolding e(2) by (rule t(1))
  show "ctxSets = offsets_from 0 initSets" by (rule e(1))
  show "length sm_InitTables = 4" "j < 4 \<Longrightarrow> sm_InitTables ! j = concat (map (\<lambda>i. i ! j) initSets)"
    unfolding e(2) using t(2,3) by blast+
qed

lemma NumberOfContexts_eq: "NumberOfContexts = 379"
proof -
  have "length (concat (map (\<lambda>i. i ! 0) initSets)) = 379" by code_simp
  then show ?thesis using staticInit_eq(4) [of 0] by (simp add: NumberOfContexts_def)
qed

lemma length_InitTable: "j < 4 \<Longrightarrow> length (sm_InitTables ! j) = NumberOfContexts"
proof -
  assume j: "j < 4"
  have "length (concat (map (\<lambda>i. i ! j) is)) = length (concat (map (\<lambda>i. i ! 0) is))" if "list_all row_ok is" for "is"
    using that
  proof (induction "is")
    case (Cons i "is")
    then have i: "length i = 4" "list_all (\<lambda>r. length r = length (i ! 0)) i" by (simp_all add: row_ok_def)
    have "length (i ! j) = length (i ! 0)" using i(2) j unfolding list_all_length i(1) by blast
    then show ?case using Cons.IH Cons.prems by simp
  qed simp
  from this [OF initSets_ok] show ?thesis using staticInit_eq(4) j by (simp add: NumberOfContexts_def)
qed

lemma getInitTable_Some: "initId < 4 \<Longrightarrow> getInitTable initId = Some (sm_InitTables ! initId)"
  by (simp add: getInitTable_def staticInit_eq(3))

section \<open>Context sets partition the contexts\<close>

lemma length_offsets_from: "length (offsets_from k is) = length is"
  by (induction k "is" rule: offsets_from.induct) simp_all

lemma offsets_from_cover:
  "sorted_wrt (\<lambda>s t. Offset s + Size s \<le> Offset t) (offsets_from k is) \<and>
   (\<forall>s \<in> set (offsets_from k is). k \<le> Offset s) \<and>
   (\<forall>c. k \<le> c \<and> c < k + length (concat (map (\<lambda>i. i ! 0) is)) \<longleftrightarrow>
      (\<exists>s \<in> set (offsets_from k is). Offset s \<le> c \<and> c < Offset s + Size s))"
proof (induction k "is" rule: offsets_from.induct)
  case (2 k i "is")
  then show ?case
    by (auto; smt (verit, ccfv_threshold) add.assoc le_add1 le_trans linorder_not_le)
qed auto

text \<open>
  C26: Static initialisation of the context tables never fails a check. The context sets are laid out
  in order without gap or overlap, they cover exactly the contexts below \<open>NumberOfContexts\<close> (379), and
  each of the three initialisation tables and the window-size table has one entry per context.
\<close>

theorem context_sets_partition:
  "staticInit \<noteq> None \<and> length ctxSets = length initSets \<and> NumberOfContexts = 379 \<and>
   sorted_wrt (\<lambda>s t. Offset s + Size s \<le> Offset t) ctxSets \<and>
   (\<forall>c. c < NumberOfContexts \<longleftrightarrow> (\<exists>s \<in> set ctxSets. Offset s \<le> c \<and> c < Offset s + Size s)) \<and>
   map length sm_InitTables = replicate (NUMBER_OF_SLICE_TYPES + 1) NumberOfContexts"
proof -
  have "(\<forall>c. c < NumberOfContexts \<longleftrightarrow> (\<exists>s \<in> set ctxSets. Offset s \<le> c \<and> c < Offset s + Size s))"
    using offsets_from_cover [of 0 initSets] staticInit_eq(2) staticInit_eq(4) [of 0] by (simp add: NumberOfContexts_def)
  moreover have "map length sm_InitTables = replicate (NUMBER_OF_SLICE_TYPES + 1) NumberOfContexts"
    by (rule nth_equalityI) (use staticInit_eq(3) length_InitTable in \<open>auto simp: NUMBER_OF_SLICE_TYPES_def\<close>)
  moreover have "staticInit \<noteq> None" using staticInit_eq(1) by (metis option.distinct(1))
  moreover have "sorted_wrt (\<lambda>s t. Offset s + Size s \<le> Offset t) ctxSets"
    using offsets_from_cover [of 0 initSets] unfolding staticInit_eq(2) by blast
  ultimately show ?thesis
    using NumberOfContexts_eq by (simp only: staticInit_eq(2) length_offsets_from) simp
qed

section \<open>Initialisation yields valid models\<close>

lemma std_init_inv: "std_inv p \<Longrightarrow> std_inv (std_init qp v p)"
proof -
  assume p: "std_inv p"
  define c where "c = (let i = drop_bit 1 ((drop_bit 3 v - 4) * (qp - 16)) + ((v AND 7) * 18 + 1) in if i < 1 then 1 else if i > 127 then 127 else i)"
  have c: "1 \<le> c" "c \<le> 127" by (auto simp: c_def Let_def)
  have "c * 256 AND MASK_0 = c * 256" "c * 256 AND MASK_1 = c * 256"
    using and_MASK [of "c * 256"] c by simp_all
  then have "std_init qp v p = p\<lparr>m_state0 := c * 256, m_state1 := c * 256\<rparr>"
    by (simp add: std_init_def Let_def c_def push_bit_eq_mult)
  then show ?thesis using p c by (simp add: std_inv_def)
qed

text \<open>The window sizes for which the second rate is at most 9.\<close>

definition window_ok :: "int \<Rightarrow> bool" where
  "window_ok w \<longleftrightarrow> 3 + (2 + (drop_bit 2 w AND 3)) + (w AND 3) \<le> 9"

lemma window_sizes_ok: "list_all window_ok (sm_InitTables ! 3)"
proof -
  have "list_all window_ok (concat (map (\<lambda>i. i ! 3) initSets))" by code_simp
  then show ?thesis using staticInit_eq(4) [of 3] by simp
qed

lemma setLog2WindowSize_Some:
  "window_ok w \<Longrightarrow> std_inv p \<Longrightarrow> \<exists>q. setLog2WindowSize w p = Some q \<and> std_inv q \<and>
     m_rate q div 16 = 2 + (drop_bit 2 w AND 3) \<and> m_rate q mod 16 = 3 + m_rate q div 16 + (w AND 3)"
proof -
  assume w: "window_ok w" and p: "std_inv p"
  have b: "0 \<le> drop_bit 2 w AND 3" "drop_bit 2 w AND 3 \<le> 3" "0 \<le> w AND 3" "w AND 3 \<le> 3"
    using and_mask_eq_mod [of "drop_bit 2 w" 2] and_mask_eq_mod [of w 2] by simp_all
  define a c where "a = 2 + (drop_bit 2 w AND 3)" and "c = 3 + a + (w AND 3)"
  have ac: "2 \<le> a" "a \<le> 5" "5 \<le> c" "c \<le> 9" using b w by (auto simp: a_def c_def window_ok_def)
  have "setLog2WindowSize w p = Some (p\<lparr>m_rate := u8 (16 * a + c)\<rparr>)"
    unfolding setLog2WindowSize_def Let_def a_def [symmetric] c_def [symmetric] using ac by (simp add: check_def)
  moreover have "u8 (16 * a + c) = 16 * a + c" using ac by simp
  moreover have "(16 * a + c) div 16 = a" "(16 * a + c) mod 16 = c" "16 * a + c < 256" using ac by simp_all
  moreover have "c = 3 + a + (w AND 3)" by (rule c_def)
  ultimately show ?thesis using p ac unfolding a_def [symmetric] by (simp add: std_inv_def)
qed

lemma init_models_Some:
  "length vs = length ps \<Longrightarrow> length ws = length ps \<Longrightarrow> list_all window_ok ws \<Longrightarrow> list_all std_inv ps \<Longrightarrow>
   \<exists>qs. init_models qp vs ws ps = Some qs \<and> length qs = length ps \<and> list_all std_inv qs"
proof (induction ps arbitrary: vs ws)
  case Nil
  then show ?case by simp
next
  case (Cons p ps)
  then obtain v vs' w ws' where vw: "vs = v # vs'" "ws = w # ws'" by (cases vs; cases ws) auto
  obtain q where "setLog2WindowSize w (std_init qp v p) = Some q" "std_inv q"
    using setLog2WindowSize_Some [of w "std_init qp v p"] std_init_inv Cons.prems vw by auto
  moreover obtain qs where "init_models qp vs' ws' ps = Some qs" "length qs = length ps" "list_all std_inv qs"
    using Cons.IH [of vs' ws'] Cons.prems vw by auto
  ultimately show ?case by (simp add: vw)
qed

text \<open>
  C27: Initialising the contexts for a slice succeeds for every QP, clipped or not, and every slice type,
  and leaves every model in a valid state whose window sizes are those of the rate table; an \<open>initId\<close>
  with no table, and a store of the wrong size, are rejected.
\<close>

theorem store_init_total:
  assumes "length store = NumberOfContexts" "list_all std_inv store"
  shows "(initId < 4 \<longrightarrow> (\<exists>store'. store_init qp initId store = Some store' \<and> length store' = NumberOfContexts \<and>
      list_all std_inv store')) \<and>
    (4 \<le> initId \<longrightarrow> store_init qp initId store = None) \<and>
    (\<forall>store'. length store' \<noteq> NumberOfContexts \<longrightarrow> store_init qp initId store' = None)"
proof (intro conjI impI allI)
  assume i: "initId < 4"
  show "\<exists>store'. store_init qp initId store = Some store' \<and> length store' = NumberOfContexts \<and> list_all std_inv store'"
    using init_models_Some [of "sm_InitTables ! initId" store "sm_InitTables ! 3" "Clip3 0 MAX_QP qp"]
      getInitTable_Some [OF i] getInitTable_Some [of 3] length_InitTable [OF i] length_InitTable [of 3] assms window_sizes_ok
    by (simp add: store_init_def NUMBER_OF_SLICE_TYPES_def)
next
  assume "4 \<le> initId"
  then show "store_init qp initId store = None"
    by (simp add: store_init_def getInitTable_def staticInit_eq(3))
next
  fix store' :: CtxStore assume "length store' \<noteq> NumberOfContexts"
  then show "store_init qp initId store' = None"
    using getInitTable_Some [of initId] length_InitTable [of initId]
    by (cases "initId < 4") (simp_all add: store_init_def getInitTable_def staticInit_eq(3))
qed

lemma store_create_ok: "length store_create = NumberOfContexts" "list_all std_inv store_create"
  by (simp_all add: store_create_def list_all_length std_inv_def std_create_def DWS_def)

theorem store_init_total_witness:
  "\<exists>store'. store_init 37 2 store_create = Some store' \<and> length store' = NumberOfContexts \<and> list_all std_inv store'"
  using store_init_total [OF store_create_ok, of 2 37] by simp

section \<open>Copying parts of a store\<close>

definition in_set :: "nat \<Rightarrow> CtxSet \<Rightarrow> bool" where
  "in_set c s \<longleftrightarrow> Offset s \<le> c \<and> c < Offset s + Size s"

lemma copyFrom_set_nth:
  assumes "length src = length store" "Offset s + Size s \<le> length store" "c < length store"
  shows "length (copyFrom_set src s store) = length store"
    and "copyFrom_set src s store ! c = (if in_set c s then src ! c else store ! c)"
proof -
  show "length (copyFrom_set src s store) = length store" using assms by (simp add: copyFrom_set_def)
  show "copyFrom_set src s store ! c = (if in_set c s then src ! c else store ! c)"
    using assms by (auto simp: copyFrom_set_def nth_append in_set_def)
qed

text \<open>The layout, evaluated.\<close>

lemma ctxSets_eq:
  "ctxSets =
    [\<lparr>Offset = 0, Size = 9\<rparr>, \<lparr>Offset = 9, Size = 6\<rparr>, \<lparr>Offset = 15, Size = 5\<rparr>, \<lparr>Offset = 20, Size = 4\<rparr>,
     \<lparr>Offset = 24, Size = 2\<rparr>, \<lparr>Offset = 26, Size = 3\<rparr>, \<lparr>Offset = 29, Size = 1\<rparr>, \<lparr>Offset = 30, Size = 2\<rparr>,
     \<lparr>Offset = 32, Size = 1\<rparr>, \<lparr>Offset = 33, Size = 1\<rparr>, \<lparr>Offset = 34, Size = 1\<rparr>, \<lparr>Offset = 35, Size = 1\<rparr>,
     \<lparr>Offset = 36, Size = 2\<rparr>, \<lparr>Offset = 38, Size = 2\<rparr>, \<lparr>Offset = 40, Size = 1\<rparr>, \<lparr>Offset = 41, Size = 2\<rparr>,
     \<lparr>Offset = 43, Size = 1\<rparr>, \<lparr>Offset = 44, Size = 1\<rparr>, \<lparr>Offset = 45, Size = 1\<rparr>, \<lparr>Offset = 46, Size = 4\<rparr>,
     \<lparr>Offset = 50, Size = 2\<rparr>, \<lparr>Offset = 52, Size = 6\<rparr>, \<lparr>Offset = 58, Size = 2\<rparr>, \<lparr>Offset = 60, Size = 3\<rparr>,
     \<lparr>Offset = 63, Size = 3\<rparr>, \<lparr>Offset = 66, Size = 1\<rparr>, \<lparr>Offset = 67, Size = 1\<rparr>, \<lparr>Offset = 68, Size = 1\<rparr>,
     \<lparr>Offset = 69, Size = 2\<rparr>, \<lparr>Offset = 71, Size = 4\<rparr>, \<lparr>Offset = 75, Size = 1\<rparr>, \<lparr>Offset = 76, Size = 1\<rparr>,
     \<lparr>Offset = 77, Size = 4\<rparr>, \<lparr>Offset = 81, Size = 2\<rparr>, \<lparr>Offset = 83, Size = 3\<rparr>, \<lparr>Offset = 86, Size = 2\<rparr>,
     \<lparr>Offset = 88, Size = 2\<rparr>, \<lparr>Offset = 90, Size = 12\<rparr>, \<lparr>Offset = 102, Size = 8\<rparr>, \<lparr>Offset = 110, Size = 12\<rparr>,
     \<lparr>Offset = 122, Size = 8\<rparr>, \<lparr>Offset = 130, Size = 12\<rparr>, \<lparr>Offset = 142, Size = 8\<rparr>, \<lparr>Offset = 150, Size = 21\<rparr>,
     \<lparr>Offset = 171, Size = 11\<rparr>, \<lparr>Offset = 182, Size = 21\<rparr>, \<lparr>Offset = 203, Size = 11\<rparr>, \<lparr>Offset = 214, Size = 21\<rparr>,
     \<lparr>Offset = 235, Size = 11\<rparr>, \<lparr>Offset = 246, Size = 20\<rparr>, \<lparr>Offset = 266, Size = 3\<rparr>, \<lparr>Offset = 269, Size = 20\<rparr>,
     \<lparr>Offset = 289, Size = 3\<rparr>, \<lparr>Offset = 292, Size = 1\<rparr>, \<lparr>Offset = 293, Size = 1\<rparr>, \<lparr>Offset = 294, Size = 1\<rparr>,
     \<lparr>Offset = 295, Size = 1\<rparr>, \<lparr>Offset = 296, Size = 3\<rparr>, \<lparr>Offset = 299, Size = 1\<rparr>, \<lparr>Offset = 300, Size = 1\<rparr>,
     \<lparr>Offset = 301, Size = 1\<rparr>, \<lparr>Offset = 302, Size = 5\<rparr>, \<lparr>Offset = 307, Size = 3\<rparr>, \<lparr>Offset = 310, Size = 2\<rparr>,
     \<lparr>Offset = 312, Size = 4\<rparr>, \<lparr>Offset = 316, Size = 2\<rparr>, \<lparr>Offset = 318, Size = 2\<rparr>, \<lparr>Offset = 320, Size = 1\<rparr>,
     \<lparr>Offset = 321, Size = 3\<rparr>, \<lparr>Offset = 324, Size = 1\<rparr>, \<lparr>Offset = 325, Size = 1\<rparr>, \<lparr>Offset = 326, Size = 1\<rparr>,
     \<lparr>Offset = 327, Size = 5\<rparr>, \<lparr>Offset = 332, Size = 9\<rparr>, \<lparr>Offset = 341, Size = 2\<rparr>, \<lparr>Offset = 343, Size = 1\<rparr>,
     \<lparr>Offset = 344, Size = 6\<rparr>, \<lparr>Offset = 350, Size = 1\<rparr>, \<lparr>Offset = 351, Size = 3\<rparr>, \<lparr>Offset = 354, Size = 3\<rparr>,
     \<lparr>Offset = 357, Size = 3\<rparr>, \<lparr>Offset = 360, Size = 3\<rparr>, \<lparr>Offset = 363, Size = 1\<rparr>, \<lparr>Offset = 364, Size = 5\<rparr>,
     \<lparr>Offset = 369, Size = 4\<rparr>, \<lparr>Offset = 373, Size = 6\<rparr>]"
  unfolding staticInit_eq(2) by code_simp

lemmas ctx_set_defs = SplitFlag_def SplitQtFlag_def SplitHvFlag_def Split12Flag_def ModeConsFlag_def RotationFlag_def
  RunTypeFlag_def IdxRunModel_def CopyRunModel_def SaoMergeFlag_def SaoTypeIdx_def alfCtbFlag_def ctbAlfAlternative_def
  alfUseApsFlag_def

lemma combined_sets_eq:
  "Palette = \<lparr>Offset = 300, Size = 10\<rparr>" "Sao = \<lparr>Offset = 294, Size = 2\<rparr>"
  "Alf = \<lparr>Offset = 332, Size = 12\<rparr>" "ctxPartition = \<lparr>Offset = 0, Size = 26\<rparr>"
  by (simp_all add: Palette_def Sao_def Alf_def ctxPartition_def combineCtxSets_def ctx_set_defs ctxSets_eq Let_def)

text \<open>
  C28: Copying a combined set between stores copies exactly the contexts of its members. The constructor
  of \<open>CtxSet\<close> from a list takes the hull of the members, so this needs the members to be adjacent,
  as the comment in \<open>ContextSetCfg\<close> demands; for all four combined sets they are.
\<close>

theorem combined_set_copies_members:
  assumes "length src = NumberOfContexts" "length store = NumberOfContexts" "c < NumberOfContexts"
    and "(s, ms) \<in> {(Palette, [RotationFlag, RunTypeFlag, IdxRunModel, CopyRunModel]), (Sao, [SaoMergeFlag, SaoTypeIdx]),
      (Alf, [alfCtbFlag, ctbAlfAlternative, alfUseApsFlag]),
      (ctxPartition, [SplitFlag, SplitQtFlag, SplitHvFlag, Split12Flag, ModeConsFlag])}"
  shows "length (copyFrom_set src s store) = NumberOfContexts \<and>
    copyFrom_set src s store ! c = (if \<exists>m \<in> set ms. in_set c m then src ! c else store ! c)"
proof -
  have "Offset s + Size s \<le> NumberOfContexts" using assms(4) by (auto simp: combined_sets_eq NumberOfContexts_eq)
  moreover have "in_set c s \<longleftrightarrow> (\<exists>m \<in> set ms. in_set c m)"
    using assms(4) by (auto simp: in_set_def combined_sets_eq ctx_set_defs ctxSets_eq)
  ultimately show ?thesis using copyFrom_set_nth [of src store s c] assms(1-3) by simp
qed

theorem combined_set_copies_members_witness:
  "copyFrom_set (map (\<lambda>p. p\<lparr>m_rate := 0\<rparr>) store_create) Sao store_create ! 295 = std_create\<lparr>m_rate := 0\<rparr>"
  using combined_set_copies_members [of "map (\<lambda>p. p\<lparr>m_rate := 0\<rparr>) store_create" store_create 295 Sao "[SaoMergeFlag, SaoTypeIdx]"]
  by (simp add: store_create_def NumberOfContexts_eq in_set_def ctx_set_defs ctxSets_eq)

section \<open>The cost table\<close>

lemma adjacent_sorted:
  fixes xs :: "'a :: linorder list"
  shows "list_all (\<lambda>(a, b). a < b) (zip xs (tl xs)) \<Longrightarrow> sorted_wrt (<) xs"
    and "list_all (\<lambda>(a, b). b < a) (zip xs (tl xs)) \<Longrightarrow> sorted_wrt (>) xs"
proof -
  show "list_all (\<lambda>(a, b). a < b) (zip xs (tl xs)) \<Longrightarrow> sorted_wrt (<) xs"
  proof (induction xs)
    case (Cons x xs)
    then show ?case by (cases xs) (auto dest: less_trans)
  qed simp
  show "list_all (\<lambda>(a, b). b < a) (zip xs (tl xs)) \<Longrightarrow> sorted_wrt (>) xs"
  proof (induction xs)
    case (Cons x xs)
    then show ?case by (cases xs) (auto dest: less_trans)
  qed simp
qed

lemma frac_bits_symmetric:
  "length m_binFracBits = 256" "map fst m_binFracBits = rev (map snd m_binFracBits)"
  by code_simp+

lemma frac_bits_growing:
  "sorted_wrt (<) (map fst m_binFracBits)" "sorted_wrt (>) (map snd m_binFracBits)"
  "list_all (\<lambda>c. 0 < fst c \<and> fst c \<le> 9 * 2 ^ SCALE_BITS) m_binFracBits"
proof -
  have "list_all (\<lambda>(a, b). a < b) (zip (map fst m_binFracBits) (tl (map fst m_binFracBits)))" by code_simp
  then show "sorted_wrt (<) (map fst m_binFracBits)" by (rule adjacent_sorted)
  have "list_all (\<lambda>(a, b). b < a) (zip (map snd m_binFracBits) (tl (map snd m_binFracBits)))" by code_simp
  then show "sorted_wrt (>) (map snd m_binFracBits)" by (rule adjacent_sorted)
  show "list_all (\<lambda>c. 0 < fst c \<and> fst c \<le> 9 * 2 ^ SCALE_BITS) m_binFracBits" by code_simp
qed

lemma frac_bits_mps:
  assumes "i < 256"
  shows "if i < 128 then fst (m_binFracBits ! i) \<le> snd (m_binFracBits ! i) else snd (m_binFracBits ! i) \<le> fst (m_binFracBits ! i)"
proof -
  have lo: "list_all (\<lambda>c. fst c \<le> snd c) (take 128 m_binFracBits)" by code_simp
  have hi: "list_all (\<lambda>c. snd c \<le> fst c) (drop 128 m_binFracBits)" by code_simp
  show ?thesis
  proof (cases "i < 128")
    case True
    then show ?thesis using list_all_nth [OF lo, of i] frac_bits_symmetric(1) by simp
  next
    case False
    then show ?thesis using list_all_nth [OF hi, of "i - 128"] frac_bits_symmetric(1) assms by simp
  qed
qed

text \<open>
  C29: The table of fractional bits is consistent with the states: it is symmetric under exchanging the
  symbols, the cost of a zero strictly grows and that of a one strictly falls with the state, every cost
  of a zero is positive and at most 9 bits; and for a valid model the more probable
  symbol never costs more than the other.
\<close>

theorem frac_bits_consistent:
  assumes "std_inv p"
  shows "length m_binFracBits = 256 \<and> map fst m_binFracBits = rev (map snd m_binFracBits) \<and>
    sorted_wrt (<) (map fst m_binFracBits) \<and> sorted_wrt (>) (map snd m_binFracBits) \<and>
    list_all (\<lambda>c. 0 < fst c \<and> fst c \<le> 9 * 2 ^ SCALE_BITS) m_binFracBits \<and>
    estFracBits p (std_mps p) \<le> estFracBits p (1 - std_mps p)"
proof -
  note t = frac_bits_symmetric frac_bits_growing
  define i where "i = nat (std_state p)"
  note s = std_state_range(1,2) [OF assms]
  have i: "i < 256" "i < 128 \<longleftrightarrow> std_state p < 128" using s by (auto simp: i_def)
  have m: "std_mps p = (if i < 128 then 0 else 1)" unfolding i(2) using s by (auto simp: std_mps_def drop_bit_eq_div)
  have "estFracBits p (std_mps p) \<le> estFracBits p (1 - std_mps p)"
    using frac_bits_mps [OF i(1)] by (simp add: m estFracBits_def getFracBitsArray_def i_def [symmetric])
  with t show ?thesis by blast
qed

theorem frac_bits_consistent_witness:
  "estFracBits std_create 1 \<le> estFracBits std_create 0 \<and> std_mps std_create = 1"
proof -
  have "std_inv std_create" by (simp add: std_inv_def std_create_def DWS_def)
  from frac_bits_consistent [OF this] have "estFracBits std_create (std_mps std_create) \<le> estFracBits std_create (1 - std_mps std_create)"
    by blast
  moreover have "std_mps std_create = 1" by code_simp
  ultimately show ?thesis by simp
qed

section \<open>Saved states\<close>

text \<open>The states saved are 16-bit values, and loading any 16-bit values gives valid models.\<close>

lemma std_setState_inv:
  assumes "std_inv p" "0 \<le> s" "s < 2 ^ 16"
  shows "std_inv (std_setState s p)"
proof -
  have h: "0 \<le> s div 2" "s div 2 < 2 ^ 15" using assms by auto
  then show ?thesis using and_MASK [OF h] assms(1) by (auto simp: std_inv_def std_setState_def drop_bit_eq_div)
qed

lemma std_getState_range: "std_inv p \<Longrightarrow> 0 \<le> std_getState p \<and> std_getState p < 2 ^ 16 \<and> std_getState p = m_state0 p + m_state1 p"
  by (auto simp: std_getState_def u16_def std_inv_def)

lemma loadPStates_Some:
  assumes "list_all std_inv store" "length vs = length store" "list_all (\<lambda>v. 0 \<le> v \<and> v < 2 ^ 16) vs"
  shows "\<exists>store'. loadPStates vs store = Some store' \<and> length store' = length store \<and> list_all std_inv store' \<and>
    map m_rate store' = map m_rate store"
proof -
  have "list_all std_inv (map2 std_setState vs store)"
    using assms std_setState_inv by (auto simp: list_all_length)
  moreover have "map m_rate (map2 std_setState vs store) = map m_rate store"
    by (rule nth_equalityI) (use assms(2) in \<open>simp_all add: std_setState_def\<close>)
  ultimately show ?thesis using assms(2) by (simp add: loadPStates_def)
qed

lemma savePStates_range: "list_all std_inv store \<Longrightarrow> list_all (\<lambda>v. 0 \<le> v \<and> v < 2 ^ 16) (savePStates store)"
proof -
  have "0 \<le> std_getState p \<and> std_getState p < 2 ^ 16" if "std_inv p" for p using std_getState_range [OF that] by blast
  then show "list_all std_inv store \<Longrightarrow> list_all (\<lambda>v. 0 \<le> v \<and> v < 2 ^ 16) (savePStates store)"
    unfolding savePStates_def list_all_iff by auto
qed

end
