(* ===== verification/BitEstimator.thy ===== *)
theory BitEstimator
  imports Cabac Contexts
begin

text \<open>
  The bit estimator of the encoder's search, \<open>BitEstimatorBase\<close> and \<open>TBitEstimator\<close> of
  \<open>source/Lib/EncoderLib/BinEncoder.{h,cpp}\<close>: the interface of the encoder, counting the cost in units
  of \<open>2 ^ -15\<close> bits instead of writing.
\<close>

record BitEstimator =
  m_estFracBits :: int
  be_ctx :: "nat \<Rightarrow> BinProbModel_Std"

definition be_start :: "BitEstimator \<Rightarrow> BitEstimator" where
  "be_start b = b\<lparr>m_estFracBits := 0\<rparr>"

definition be_restart :: "BitEstimator \<Rightarrow> BitEstimator" where
  "be_restart b = b\<lparr>m_estFracBits := u64 (push_bit SCALE_BITS (drop_bit SCALE_BITS (m_estFracBits b)))\<rparr>"

definition be_resetBits :: "BitEstimator \<Rightarrow> BitEstimator" where
  "be_resetBits b = b\<lparr>m_estFracBits := 0\<rparr>"

definition be_encodeBin :: "int \<Rightarrow> nat \<Rightarrow> BitEstimator \<Rightarrow> BitEstimator" where
  "be_encodeBin bin ctxId b =
     (let (frac, p) = estFracBitsUpdate bin (m_estFracBits b) (be_ctx b ctxId)
      in b\<lparr>m_estFracBits := frac, be_ctx := (be_ctx b)(ctxId := p)\<rparr>)"

definition be_encodeBinEP :: "int \<Rightarrow> BitEstimator \<Rightarrow> BitEstimator" where
  "be_encodeBinEP bin b = b\<lparr>m_estFracBits := u64 (m_estFracBits b + estFracBitsEP 1)\<rparr>"

definition be_encodeBinsEP :: "int \<Rightarrow> nat \<Rightarrow> BitEstimator \<Rightarrow> BitEstimator" where
  "be_encodeBinsEP bins numBins b = b\<lparr>m_estFracBits := u64 (m_estFracBits b + estFracBitsEP (int numBins))\<rparr>"

definition be_encodeRemAbsEP :: "int \<Rightarrow> nat \<Rightarrow> nat \<Rightarrow> nat \<Rightarrow> BitEstimator \<Rightarrow> BitEstimator" where
  "be_encodeRemAbsEP bins goRicePar cutoff maxLog2TrDynamicRange b =
     (let threshold = u32 (push_bit goRicePar (int cutoff))
      in if bins < threshold
         then b\<lparr>m_estFracBits := u64 (m_estFracBits b + estFracBitsEP (drop_bit goRicePar bins + 1 + int goRicePar))\<rparr>
         else let maxPrefixLength = 32 - cutoff - maxLog2TrDynamicRange;
                  codeValue = drop_bit goRicePar bins - int cutoff;
                  (prefixLength, suffixLength) =
                    (if codeValue \<ge> push_bit maxPrefixLength 1 - 1 then (maxPrefixLength, maxLog2TrDynamicRange)
                     else let prefixLength = escape_prefix codeValue 0
                          in (prefixLength, prefixLength + goRicePar + 1))
              in b\<lparr>m_estFracBits := u64 (m_estFracBits b + estFracBitsEP (int (cutoff + prefixLength + suffixLength)))\<rparr>)"

definition be_encodeBinTrm :: "int \<Rightarrow> BitEstimator \<Rightarrow> BitEstimator" where
  "be_encodeBinTrm bin b = b\<lparr>m_estFracBits := u64 (m_estFracBits b + estFracBitsTrm bin)\<rparr>"

definition be_align :: "BitEstimator \<Rightarrow> BitEstimator" where
  "be_align b =
     (let add = estFracBitsEP 1 - 1
      in b\<lparr>m_estFracBits := u64 (m_estFracBits b + add) AND NOT add\<rparr>)"

section \<open>The estimate of bypass bins is exact\<close>

text \<open>
  C30: For remaining levels the estimator charges exactly one bit for every bin the encoder writes: the
  bit string \<open>encodeRemAbsEP\<close> puts into the stream, which decodes back to the level, has the length the
  estimator's copy of the binarisation computes.
\<close>

theorem estimator_counts_remAbs:
  assumes "op_ok (RemAbsEP r cutoff m bins)" "0 \<le> m_estFracBits b" "m_estFracBits b < 2 ^ 63"
  shows "\<exists>bs. writes_bits (encodeRemAbsEP bins r cutoff m :: 'p BinEncoder \<Rightarrow> _) bs \<and>
    reads_bits (decodeRemAbsEP r cutoff m :: 'p BinDecoder \<Rightarrow> _) bins bs \<and>
    m_estFracBits (be_encodeRemAbsEP bins r cutoff m b) = m_estFracBits b + int (length bs) * 2 ^ SCALE_BITS"
proof -
  let ?q = "bins div 2 ^ r" and ?mp = "32 - cutoff - m"
  let ?cv = "?q - int cutoff"
  have ok: "cutoff + m \<le> 32" "m < 32" "r \<le> m" "0 \<le> bins" "bins < 2 ^ 32" "int cutoff * 2 ^ r < 2 ^ 32"
    "bins < (2 ^ (32 - cutoff - m) - 1 + int cutoff) * 2 ^ r + 2 ^ m" using assms(1) by simp_all
  obtain bs where bs: "writes_bits (encodeRemAbsEP bins r cutoff m :: 'p BinEncoder \<Rightarrow> _) bs"
    "reads_bits (decodeRemAbsEP r cutoff m :: 'p BinDecoder \<Rightarrow> _) bins bs"
    "length bs = (if bins < int cutoff * 2 ^ r then nat ?q + 1 + r
      else let codeValue = ?cv; maxPrefix = ?mp
        in if codeValue \<ge> 2 ^ maxPrefix - 1 then cutoff + maxPrefix + m
           else cutoff + escape_prefix codeValue 0 + (escape_prefix codeValue 0 + r + 1))"
    using remAbs_bits [OF ok(1-6)] ok(7) by blast
  have q0: "0 \<le> ?q" using ok by (simp add: pos_imp_zdiv_nonneg_iff)
  have t: "u32 (push_bit r (int cutoff)) = int cutoff * 2 ^ r" using ok by (simp add: push_bit_eq_mult)
  have add: "u64 (m_estFracBits b + estFracBitsEP (int n)) = m_estFracBits b + int n * 2 ^ SCALE_BITS" if "n \<le> 100" for n
    using that assms(2,3) by (simp add: estFracBitsEP_def SCALE_BITS_def push_bit_eq_mult u64_def)
  have "m_estFracBits (be_encodeRemAbsEP bins r cutoff m b) = m_estFracBits b + int (length bs) * 2 ^ SCALE_BITS"
  proof (cases "bins < int cutoff * 2 ^ r")
    case True
    have "?q < int cutoff"
    proof (rule ccontr)
      assume "\<not> ?q < int cutoff"
      then have "int cutoff * 2 ^ r \<le> ?q * 2 ^ r" by (intro mult_right_mono) simp_all
      also have "?q * 2 ^ r \<le> bins" by (simp add: minus_mod_eq_div_mult [symmetric])
      finally show False using True by simp
    qed
    then have "nat ?q + 1 + r \<le> 100" using ok q0 by linarith
    from add [OF this] show ?thesis using True q0 bs(3)
      by (simp add: be_encodeRemAbsEP_def t Let_def drop_bit_eq_div algebra_simps)
  next
    case False
    show ?thesis
    proof (cases "?cv \<ge> 2 ^ ?mp - 1")
      case True
      have "cutoff + ?mp + m \<le> 100" using ok by simp
      from add [OF this] show ?thesis using True False bs(3)
        by (simp add: be_encodeRemAbsEP_def t Let_def drop_bit_eq_div)
    next
      case small: False
      have "0 \<le> ?cv"
      proof -
        have "int cutoff * 2 ^ r div 2 ^ r \<le> ?q" using False by (intro zdiv_mono1) simp_all
        then show ?thesis by simp
      qed
      then have "escape_prefix ?cv 0 < ?mp" using escape_prefix_eq [of 0 ?cv ?mp] small by simp
      then have "cutoff + escape_prefix ?cv 0 + (escape_prefix ?cv 0 + r + 1) \<le> 100" using ok by linarith
      from add [OF this] show ?thesis using small False bs(3)
        by (simp add: be_encodeRemAbsEP_def t Let_def drop_bit_eq_div add.assoc add.commute add.left_commute)
    qed
  qed
  with bs show ?thesis by blast
qed

theorem estimator_counts_remAbs_witness:
  "\<exists>bs. writes_bits (encodeRemAbsEP 4000 2 5 15 :: BinProbModel_Std BinEncoder \<Rightarrow> _) bs \<and>
    reads_bits (decodeRemAbsEP 2 5 15 :: BinProbModel_Std BinDecoder \<Rightarrow> _) 4000 bs \<and> length bs = 26"
proof -
  let ?b = "\<lparr>m_estFracBits = 0, be_ctx = (\<lambda>_. std_create)\<rparr>"
  have ok: "op_ok (RemAbsEP 2 5 15 4000)" by code_simp
  have "m_estFracBits (be_encodeRemAbsEP 4000 2 5 15 ?b) = 26 * 2 ^ SCALE_BITS" by code_simp
  with estimator_counts_remAbs [OF ok, of ?b] show ?thesis by (auto simp: SCALE_BITS_def)
qed

text \<open>
  The same for single and fixed-length bypass bins, so that the estimate of any bypass code is the
  length of its bit string.
\<close>

lemma estimator_counts_bins:
  assumes "0 \<le> m_estFracBits b" "m_estFracBits b < 2 ^ 63" "n \<le> 32"
  shows "m_estFracBits (be_encodeBinsEP bins n b) = m_estFracBits b + int n * 2 ^ SCALE_BITS"
    and "m_estFracBits (be_encodeBinEP bin b) = m_estFracBits b + 2 ^ SCALE_BITS"
  using assms by (simp_all add: be_encodeBinsEP_def be_encodeBinEP_def estFracBitsEP_def SCALE_BITS_def push_bit_eq_mult u64_def)

text \<open>\<open>align\<close> rounds the estimate up to a whole number of bits.\<close>

lemma and_not_low_mask: "(x::int) AND NOT (2 ^ n - 1) = x - x mod 2 ^ n"
proof -
  have "x AND NOT (mask n) = push_bit n (drop_bit n x)" by (rule bit_eqI) (auto simp: bit_simps)
  then show ?thesis by (simp add: mask_eq_exp_minus_1 push_bit_eq_mult drop_bit_eq_div minus_mod_eq_div_mult)
qed

lemma be_align_rounds_up:
  assumes "0 \<le> m_estFracBits b" "m_estFracBits b < 2 ^ 63"
  shows "m_estFracBits (be_align b) mod 2 ^ SCALE_BITS = 0 \<and> m_estFracBits b \<le> m_estFracBits (be_align b) \<and>
    m_estFracBits (be_align b) < m_estFracBits b + 2 ^ SCALE_BITS"
proof -
  let ?x = "m_estFracBits b + (2 ^ 15 - 1)"
  have u: "u64 ?x = ?x" using assms by (simp add: u64_def)
  have e: "estFracBitsEP 1 = 2 ^ 15" by (simp add: estFracBitsEP_def SCALE_BITS_def)
  have "m_estFracBits (be_align b) = ?x - ?x mod 2 ^ 15"
    unfolding be_align_def Let_def e u and_not_low_mask by simp
  moreover have "0 \<le> ?x mod 2 ^ 15" "?x mod 2 ^ 15 < 2 ^ 15" by simp_all
  moreover have "(?x - ?x mod 2 ^ 15) mod 2 ^ 15 = 0" by (simp only: minus_mod_eq_mult_div mod_mult_self1_is_0)
  ultimately show ?thesis unfolding SCALE_BITS_def by (intro conjI; (linarith | (simp only:)))
qed

end
