(* ===== verification/RomTr.thy ===== *)
theory RomTr
  imports Prelude
begin

text \<open>
  The transform matrices of \<open>CommonLib/RomTr.cpp\<close> (the branch compiled without
  \<open>RExt__HIGH_PRECISION_FORWARD_TRANSFORM\<close>): the macros \<open>DEFINE_*_MATRIX\<close> as functions from the
  macro's parameters to the matrix, and the tables \<open>g_trCore*\<close> they build, one matrix per
  transform direction.  The lemmas give the shape of the tables and, for the DCT-II, the even and odd
  symmetries the partial butterflies rest on.
\<close>

section \<open>The matrix macros and the tables\<close>

definition DEFINE_DCT2_P2_MATRIX :: "int \<Rightarrow> int list list" where
  "DEFINE_DCT2_P2_MATRIX
    a =
    [[a, a],
     [a, - a]]"

definition DEFINE_DCT2_P4_MATRIX :: "int \<Rightarrow> int \<Rightarrow> int \<Rightarrow> int list list" where
  "DEFINE_DCT2_P4_MATRIX
    a b c =
    [[a, a, a, a],
     [b, c, - c, - b],
     [a, - a, - a, a],
     [c, - b, b, - c]]"

definition DEFINE_DCT2_P8_MATRIX :: "int \<Rightarrow> int \<Rightarrow> int \<Rightarrow> int \<Rightarrow> int \<Rightarrow> int \<Rightarrow> int \<Rightarrow> int list list" where
  "DEFINE_DCT2_P8_MATRIX
    a b c d e f g =
    [[a, a, a, a, a, a, a, a],
     [d, e, f, g, - g, - f, - e, - d],
     [b, c, - c, - b, - b, - c, c, b],
     [e, - g, - d, - f, f, d, g, - e],
     [a, - a, - a, a, a, - a, - a, a],
     [f, - d, g, e, - e, - g, d, - f],
     [c, - b, b, - c, - c, b, - b, c],
     [g, - f, e, - d, d, - e, f, - g]]"

definition DEFINE_DCT2_P16_MATRIX ::
  "int \<Rightarrow> int \<Rightarrow> int \<Rightarrow> int \<Rightarrow> int \<Rightarrow> int \<Rightarrow> int \<Rightarrow> int \<Rightarrow> 
   int \<Rightarrow> int \<Rightarrow> int \<Rightarrow> int \<Rightarrow> int \<Rightarrow> int \<Rightarrow> int \<Rightarrow> int list list" where
  "DEFINE_DCT2_P16_MATRIX
    a b c d e f g h i j k l m n o1 =
    [[a, a, a, a, a, a, a, a, a, a, a, a, a, a, a, a],
     [h, i, j, k, l, m, n, o1, - o1, - n, - m, - l, - k, - j, - i, - h],
     [d, e, f, g, - g, - f, - e, - d, - d, - e, - f, - g, g, f, e, d],
     [i, l, o1, - m, - j, - h, - k, - n, n, k, h, j, m, - o1, - l, - i],
     [b, c, - c, - b, - b, - c, c, b, b, c, - c, - b, - b, - c, c, b],
     [j, o1, - k, - i, - n, l, h, m, - m, - h, - l, n, i, k, - o1, - j],
     [e, - g, - d, - f, f, d, g, - e, - e, g, d, f, - f, - d, - g, e],
     [k, - m, - i, o1, h, n, - j, - l, l, j, - n, - h, - o1, i, m, - k],
     [a, - a, - a, a, a, - a, - a, a, a, - a, - a, a, a, - a, - a, a],
     [l, - j, - n, h, - o1, - i, m, k, - k, - m, i, o1, - h, n, j, - l],
     [f, - d, g, e, - e, - g, d, - f, - f, d, - g, - e, e, g, - d, f],
     [m, - h, l, n, - i, k, o1, - j, j, - o1, - k, i, - n, - l, h, - m],
     [c, - b, b, - c, - c, b, - b, c, c, - b, b, - c, - c, b, - b, c],
     [n, - k, h, - j, m, o1, - l, i, - i, l, - o1, - m, j, - h, k, - n],
     [g, - f, e, - d, d, - e, f, - g, - g, f, - e, d, - d, e, - f, g],
     [o1, - n, m, - l, k, - j, i, - h, h, - i, j, - k, l, - m, n, - o1]]"

definition DEFINE_DCT2_P32_MATRIX ::
  "int \<Rightarrow> int \<Rightarrow> int \<Rightarrow> int \<Rightarrow> int \<Rightarrow> int \<Rightarrow> int \<Rightarrow> int \<Rightarrow> 
   int \<Rightarrow> int \<Rightarrow> int \<Rightarrow> int \<Rightarrow> int \<Rightarrow> int \<Rightarrow> int \<Rightarrow> int \<Rightarrow> 
   int \<Rightarrow> int \<Rightarrow> int \<Rightarrow> int \<Rightarrow> int \<Rightarrow> int \<Rightarrow> int \<Rightarrow> int \<Rightarrow> 
   int \<Rightarrow> int \<Rightarrow> int \<Rightarrow> int \<Rightarrow> int \<Rightarrow> int \<Rightarrow> int \<Rightarrow> int list list" where
  "DEFINE_DCT2_P32_MATRIX
    a' b c d e f g h i j k l m n o1 p q r s t u v w x y z A B C D E =
    [[a', a', a', a', a', a', a', a', a', a', a', a', a', a', a', a', a', a', a', a', a', a', a', a', a', a', a', a', a', a', a', a'],
     [p, q, r, s, t, u, v, w, x, y, z, A, B, C, D, E, - E, - D, - C, - B, - A, - z, - y, - x, - w, - v, - u, - t, - s, - r, - q, - p],
     [h, i, j, k, l, m, n, o1, - o1, - n, - m, - l, - k, - j, - i, - h, - h, - i, - j, - k, - l, - m, - n, - o1, o1, n, m, l, k, j, i, h],
     [q, t, w, z, C, - E, - B, - y, - v, - s, - p, - r, - u, - x, - A, - D, D, A, x, u, r, p, s, v, y, B, E, - C, - z, - w, - t, - q],
     [d, e, f, g, - g, - f, - e, - d, - d, - e, - f, - g, g, f, e, d, d, e, f, g, - g, - f, - e, - d, - d, - e, - f, - g, g, f, e, d],
     [r, w, B, - D, - y, - t, - p, - u, - z, - E, A, v, q, s, x, C, - C, - x, - s, - q, - v, - A, E, z, u, p, t, y, D, - B, - w, - r],
     [i, l, o1, - m, - j, - h, - k, - n, n, k, h, j, m, - o1, - l, - i, - i, - l, - o1, m, j, h, k, n, - n, - k, - h, - j, - m, o1, l, i],
     [s, z, - D, - w, - p, - v, - C, A, t, r, y, - E, - x, - q, - u, - B, B, u, q, x, E, - y, - r, - t, - A, C, v, p, w, D, - z, - s],
     [b, c, - c, - b, - b, - c, c, b, b, c, - c, - b, - b, - c, c, b, b, c, - c, - b, - b, - c, c, b, b, c, - c, - b, - b, - c, c, b],
     [t, C, - y, - p, - x, D, u, s, B, - z, - q, - w, E, v, r, A, - A, - r, - v, - E, w, q, z, - B, - s, - u, - D, x, p, y, - C, - t],
     [j, o1, - k, - i, - n, l, h, m, - m, - h, - l, n, i, k, - o1, - j, - j, - o1, k, i, n, - l, - h, - m, m, h, l, - n, - i, - k, o1, j],
     [u, - E, - t, - v, D, s, w, - C, - r, - x, B, q, y, - A, - p, - z, z, p, A, - y, - q, - B, x, r, C, - w, - s, - D, v, t, E, - u],
     [e, - g, - d, - f, f, d, g, - e, - e, g, d, f, - f, - d, - g, e, e, - g, - d, - f, f, d, g, - e, - e, g, d, f, - f, - d, - g, e],
     [v, - B, - p, - C, u, w, - A, - q, - D, t, x, - z, - r, - E, s, y, - y, - s, E, r, z, - x, - t, D, q, A, - w, - u, C, p, B, - v],
     [k, - m, - i, o1, h, n, - j, - l, l, j, - n, - h, - o1, i, m, - k, - k, m, i, - o1, - h, - n, j, l, - l, - j, n, h, o1, - i, - m, k],
     [w, - y, - u, A, s, - C, - q, E, p, D, - r, - B, t, z, - v, - x, x, v, - z, - t, B, r, - D, - p, - E, q, C, - s, - A, u, y, - w],
     [a', - a', - a', a', a', - a', - a', a', a', - a', - a', a', a', - a', - a', a', a', - a', - a', a', a', - a', - a', a', a', - a', - a', a', a', - a', - a', a'],
     [x, - v, - z, t, B, - r, - D, p, - E, - q, C, s, - A, - u, y, w, - w, - y, u, A, - s, - C, q, E, - p, D, r, - B, - t, z, v, - x],
     [l, - j, - n, h, - o1, - i, m, k, - k, - m, i, o1, - h, n, j, - l, - l, j, n, - h, o1, i, - m, - k, k, m, - i, - o1, h, - n, - j, l],
     [y, - s, - E, r, - z, - x, t, D, - q, A, w, - u, - C, p, - B, - v, v, B, - p, C, u, - w, - A, q, - D, - t, x, z, - r, E, s, - y],
     [f, - d, g, e, - e, - g, d, - f, - f, d, - g, - e, e, g, - d, f, f, - d, g, e, - e, - g, d, - f, - f, d, - g, - e, e, g, - d, f],
     [z, - p, A, y, - q, B, x, - r, C, w, - s, D, v, - t, E, u, - u, - E, t, - v, - D, s, - w, - C, r, - x, - B, q, - y, - A, p, - z],
     [m, - h, l, n, - i, k, o1, - j, j, - o1, - k, i, - n, - l, h, - m, - m, h, - l, - n, i, - k, - o1, j, - j, o1, k, - i, n, l, - h, m],
     [A, - r, v, - E, - w, q, - z, - B, s, - u, D, x, - p, y, C, - t, t, - C, - y, p, - x, - D, u, - s, B, z, - q, w, E, - v, r, - A],
     [c, - b, b, - c, - c, b, - b, c, c, - b, b, - c, - c, b, - b, c, c, - b, b, - c, - c, b, - b, c, c, - b, b, - c, - c, b, - b, c],
     [B, - u, q, - x, E, y, - r, t, - A, - C, v, - p, w, - D, - z, s, - s, z, D, - w, p, - v, C, A, - t, r, - y, - E, x, - q, u, - B],
     [n, - k, h, - j, m, o1, - l, i, - i, l, - o1, - m, j, - h, k, - n, - n, k, - h, j, - m, - o1, l, - i, i, - l, o1, m, - j, h, - k, n],
     [C, - x, s, - q, v, - A, - E, z, - u, p, - t, y, - D, - B, w, - r, r, - w, B, D, - y, t, - p, u, - z, E, A, - v, q, - s, x, - C],
     [g, - f, e, - d, d, - e, f, - g, - g, f, - e, d, - d, e, - f, g, g, - f, e, - d, d, - e, f, - g, - g, f, - e, d, - d, e, - f, g],
     [D, - A, x, - u, r, - p, s, - v, y, - B, E, C, - z, w, - t, q, - q, t, - w, z, - C, - E, B, - y, v, - s, p, - r, u, - x, A, - D],
     [o1, - n, m, - l, k, - j, i, - h, h, - i, j, - k, l, - m, n, - o1, - o1, n, - m, l, - k, j, - i, h, - h, i, - j, k, - l, m, - n, o1],
     [E, - D, C, - B, A, - z, y, - x, w, - v, u, - t, s, - r, q, - p, p, - q, r, - s, t, - u, v, - w, x, - y, z, - A, B, - C, D, - E]]"

definition DEFINE_DCT2_P64_MATRIX ::
  "int \<Rightarrow> int \<Rightarrow> int \<Rightarrow> int \<Rightarrow> int \<Rightarrow> int \<Rightarrow> int \<Rightarrow> int \<Rightarrow> 
   int \<Rightarrow> int \<Rightarrow> int \<Rightarrow> int \<Rightarrow> int \<Rightarrow> int \<Rightarrow> int \<Rightarrow> int \<Rightarrow> 
   int \<Rightarrow> int \<Rightarrow> int \<Rightarrow> int \<Rightarrow> int \<Rightarrow> int \<Rightarrow> int \<Rightarrow> int \<Rightarrow> 
   int \<Rightarrow> int \<Rightarrow> int \<Rightarrow> int \<Rightarrow> int \<Rightarrow> int \<Rightarrow> int \<Rightarrow> int \<Rightarrow> 
   int \<Rightarrow> int \<Rightarrow> int \<Rightarrow> int \<Rightarrow> int \<Rightarrow> int \<Rightarrow> int \<Rightarrow> int \<Rightarrow> 
   int \<Rightarrow> int \<Rightarrow> int \<Rightarrow> int \<Rightarrow> int \<Rightarrow> int \<Rightarrow> int \<Rightarrow> int \<Rightarrow> 
   int \<Rightarrow> int \<Rightarrow> int \<Rightarrow> int \<Rightarrow> int \<Rightarrow> int \<Rightarrow> int \<Rightarrow> int \<Rightarrow> 
   int \<Rightarrow> int \<Rightarrow> int \<Rightarrow> int \<Rightarrow> int \<Rightarrow> int \<Rightarrow> int \<Rightarrow> int list list" where
  "DEFINE_DCT2_P64_MATRIX
    aa ab ac ad ae af ag ah ai aj ak al am an ao ap aq ar as at au av aw ax ay az ba bb bc bd
      be bf bg bh bi bj bk bl bm bn bo bp bq br bs bt bu bv bw bx by bz ca cb cc cd ce cf cg
      ch ci cj ck =
    [[aa, aa, aa, aa, aa, aa, aa, aa, aa, aa, aa, aa, aa, aa, aa, aa, aa, aa, aa, aa, aa, aa, aa, aa, aa, aa, aa, aa, aa, aa, aa, aa, aa, aa, aa, aa, aa, aa, aa, aa, aa, aa, aa, aa, aa, aa, aa, aa, aa, aa, aa, aa, aa, aa, aa, aa, aa, aa, aa, aa, aa, aa, aa, aa],
     [bf, bg, bh, bi, bj, bk, bl, bm, bn, bo, bp, bq, br, bs, bt, bu, bv, bw, bx, by, bz, ca, cb, cc, cd, ce, cf, cg, ch, ci, cj, ck, - ck, - cj, - ci, - ch, - cg, - cf, - ce, - cd, - cc, - cb, - ca, - bz, - by, - bx, - bw, - bv, - bu, - bt, - bs, - br, - bq, - bp, - bo, - bn, - bm, - bl, - bk, - bj, - bi, - bh, - bg, - bf],
     [ap, aq, ar, as, at, au, av, aw, ax, ay, az, ba, bb, bc, bd, be, - be, - bd, - bc, - bb, - ba, - az, - ay, - ax, - aw, - av, - au, - at, - as, - ar, - aq, - ap, - ap, - aq, - ar, - as, - at, - au, - av, - aw, - ax, - ay, - az, - ba, - bb, - bc, - bd, - be, be, bd, bc, bb, ba, az, ay, ax, aw, av, au, at, as, ar, aq, ap],
     [bg, bj, bm, bp, bs, bv, by, cb, ce, ch, ck, - ci, - cf, - cc, - bz, - bw, - bt, - bq, - bn, - bk, - bh, - bf, - bi, - bl, - bo, - br, - bu, - bx, - ca, - cd, - cg, - cj, cj, cg, cd, ca, bx, bu, br, bo, bl, bi, bf, bh, bk, bn, bq, bt, bw, bz, cc, cf, ci, - ck, - ch, - ce, - cb, - by, - bv, - bs, - bp, - bm, - bj, - bg],
     [ah, ai, aj, ak, al, am, an, ao, - ao, - an, - am, - al, - ak, - aj, - ai, - ah, - ah, - ai, - aj, - ak, - al, - am, - an, - ao, ao, an, am, al, ak, aj, ai, ah, ah, ai, aj, ak, al, am, an, ao, - ao, - an, - am, - al, - ak, - aj, - ai, - ah, - ah, - ai, - aj, - ak, - al, - am, - an, - ao, ao, an, am, al, ak, aj, ai, ah],
     [bh, bm, br, bw, cb, cg, - ck, - cf, - ca, - bv, - bq, - bl, - bg, - bi, - bn, - bs, - bx, - cc, - ch, cj, ce, bz, bu, bp, bk, bf, bj, bo, bt, by, cd, ci, - ci, - cd, - by, - bt, - bo, - bj, - bf, - bk, - bp, - bu, - bz, - ce, - cj, ch, cc, bx, bs, bn, bi, bg, bl, bq, bv, ca, cf, ck, - cg, - cb, - bw, - br, - bm, - bh],
     [aq, at, aw, az, bc, - be, - bb, - ay, - av, - as, - ap, - ar, - au, - ax, - ba, - bd, bd, ba, ax, au, ar, ap, as, av, ay, bb, be, - bc, - az, - aw, - at, - aq, - aq, - at, - aw, - az, - bc, be, bb, ay, av, as, ap, ar, au, ax, ba, bd, - bd, - ba, - ax, - au, - ar, - ap, - as, - av, - ay, - bb, - be, bc, az, aw, at, aq],
     [bi, bp, bw, cd, ck, - ce, - bx, - bq, - bj, - bh, - bo, - bv, - cc, - cj, cf, by, br, bk, bg, bn, bu, cb, ci, - cg, - bz, - bs, - bl, - bf, - bm, - bt, - ca, - ch, ch, ca, bt, bm, bf, bl, bs, bz, cg, - ci, - cb, - bu, - bn, - bg, - bk, - br, - by, - cf, cj, cc, bv, bo, bh, bj, bq, bx, ce, - ck, - cd, - bw, - bp, - bi],
     [ad, ae, af, ag, - ag, - af, - ae, - ad, - ad, - ae, - af, - ag, ag, af, ae, ad, ad, ae, af, ag, - ag, - af, - ae, - ad, - ad, - ae, - af, - ag, ag, af, ae, ad, ad, ae, af, ag, - ag, - af, - ae, - ad, - ad, - ae, - af, - ag, ag, af, ae, ad, ad, ae, af, ag, - ag, - af, - ae, - ad, - ad, - ae, - af, - ag, ag, af, ae, ad],
     [bj, bs, cb, ck, - cc, - bt, - bk, - bi, - br, - ca, - cj, cd, bu, bl, bh, bq, bz, ci, - ce, - bv, - bm, - bg, - bp, - by, - ch, cf, bw, bn, bf, bo, bx, cg, - cg, - bx, - bo, - bf, - bn, - bw, - cf, ch, by, bp, bg, bm, bv, ce, - ci, - bz, - bq, - bh, - bl, - bu, - cd, cj, ca, br, bi, bk, bt, cc, - ck, - cb, - bs, - bj],
     [ar, aw, bb, - bd, - ay, - at, - ap, - au, - az, - be, ba, av, aq, as, ax, bc, - bc, - ax, - as, - aq, - av, - ba, be, az, au, ap, at, ay, bd, - bb, - aw, - ar, - ar, - aw, - bb, bd, ay, at, ap, au, az, be, - ba, - av, - aq, - as, - ax, - bc, bc, ax, as, aq, av, ba, - be, - az, - au, - ap, - at, - ay, - bd, bb, aw, ar],
     [bk, bv, cg, - ce, - bt, - bi, - bm, - bx, - ci, cc, br, bg, bo, bz, ck, - ca, - bp, - bf, - bq, - cb, cj, by, bn, bh, bs, cd, - ch, - bw, - bl, - bj, - bu, - cf, cf, bu, bj, bl, bw, ch, - cd, - bs, - bh, - bn, - by, - cj, cb, bq, bf, bp, ca, - ck, - bz, - bo, - bg, - br, - cc, ci, bx, bm, bi, bt, ce, - cg, - bv, - bk],
     [ai, al, ao, - am, - aj, - ah, - ak, - an, an, ak, ah, aj, am, - ao, - al, - ai, - ai, - al, - ao, am, aj, ah, ak, an, - an, - ak, - ah, - aj, - am, ao, al, ai, ai, al, ao, - am, - aj, - ah, - ak, - an, an, ak, ah, aj, am, - ao, - al, - ai, - ai, - al, - ao, am, aj, ah, ak, an, - an, - ak, - ah, - aj, - am, ao, al, ai],
     [bl, by, - ck, - bx, - bk, - bm, - bz, cj, bw, bj, bn, ca, - ci, - bv, - bi, - bo, - cb, ch, bu, bh, bp, cc, - cg, - bt, - bg, - bq, - cd, cf, bs, bf, br, ce, - ce, - br, - bf, - bs, - cf, cd, bq, bg, bt, cg, - cc, - bp, - bh, - bu, - ch, cb, bo, bi, bv, ci, - ca, - bn, - bj, - bw, - cj, bz, bm, bk, bx, ck, - by, - bl],
     [as, az, - bd, - aw, - ap, - av, - bc, ba, at, ar, ay, - be, - ax, - aq, - au, - bb, bb, au, aq, ax, be, - ay, - ar, - at, - ba, bc, av, ap, aw, bd, - az, - as, - as, - az, bd, aw, ap, av, bc, - ba, - at, - ar, - ay, be, ax, aq, au, bb, - bb, - au, - aq, - ax, - be, ay, ar, at, ba, - bc, - av, - ap, - aw, - bd, az, as],
     [bm, cb, - cf, - bq, - bi, - bx, cj, bu, bf, bt, ci, - by, - bj, - bp, - ce, cc, bn, bl, ca, - cg, - br, - bh, - bw, ck, bv, bg, bs, ch, - bz, - bk, - bo, - cd, cd, bo, bk, bz, - ch, - bs, - bg, - bv, - ck, bw, bh, br, cg, - ca, - bl, - bn, - cc, ce, bp, bj, by, - ci, - bt, - bf, - bu, - cj, bx, bi, bq, cf, - cb, - bm],
     [ab, ac, - ac, - ab, - ab, - ac, ac, ab, ab, ac, - ac, - ab, - ab, - ac, ac, ab, ab, ac, - ac, - ab, - ab, - ac, ac, ab, ab, ac, - ac, - ab, - ab, - ac, ac, ab, ab, ac, - ac, - ab, - ab, - ac, ac, ab, ab, ac, - ac, - ab, - ab, - ac, ac, ab, ab, ac, - ac, - ab, - ab, - ac, ac, ab, ab, ac, - ac, - ab, - ab, - ac, ac, ab],
     [bn, ce, - ca, - bj, - br, - ci, bw, bf, bv, - cj, - bs, - bi, - bz, cf, bo, bm, cd, - cb, - bk, - bq, - ch, bx, bg, bu, - ck, - bt, - bh, - by, cg, bp, bl, cc, - cc, - bl, - bp, - cg, by, bh, bt, ck, - bu, - bg, - bx, ch, bq, bk, cb, - cd, - bm, - bo, - cf, bz, bi, bs, cj, - bv, - bf, - bw, ci, br, bj, ca, - ce, - bn],
     [at, bc, - ay, - ap, - ax, bd, au, as, bb, - az, - aq, - aw, be, av, ar, ba, - ba, - ar, - av, - be, aw, aq, az, - bb, - as, - au, - bd, ax, ap, ay, - bc, - at, - at, - bc, ay, ap, ax, - bd, - au, - as, - bb, az, aq, aw, - be, - av, - ar, - ba, ba, ar, av, be, - aw, - aq, - az, bb, as, au, bd, - ax, - ap, - ay, bc, at],
     [bo, ch, - bv, - bh, - ca, cc, bj, bt, - cj, - bq, - bm, - cf, bx, bf, by, - ce, - bl, - br, - ck, bs, bk, cd, - bz, - bg, - bw, cg, bn, bp, ci, - bu, - bi, - cb, cb, bi, bu, - ci, - bp, - bn, - cg, bw, bg, bz, - cd, - bk, - bs, ck, br, bl, ce, - by, - bf, - bx, cf, bm, bq, cj, - bt, - bj, - cc, ca, bh, bv, - ch, - bo],
     [aj, ao, - ak, - ai, - an, al, ah, am, - am, - ah, - al, an, ai, ak, - ao, - aj, - aj, - ao, ak, ai, an, - al, - ah, - am, am, ah, al, - an, - ai, - ak, ao, aj, aj, ao, - ak, - ai, - an, al, ah, am, - am, - ah, - al, an, ai, ak, - ao, - aj, - aj, - ao, ak, ai, an, - al, - ah, - am, am, ah, al, - an, - ai, - ak, ao, aj],
     [bp, ck, - bq, - bo, - cj, br, bn, ci, - bs, - bm, - ch, bt, bl, cg, - bu, - bk, - cf, bv, bj, ce, - bw, - bi, - cd, bx, bh, cc, - by, - bg, - cb, bz, bf, ca, - ca, - bf, - bz, cb, bg, by, - cc, - bh, - bx, cd, bi, bw, - ce, - bj, - bv, cf, bk, bu, - cg, - bl, - bt, ch, bm, bs, - ci, - bn, - br, cj, bo, bq, - ck, - bp],
     [au, - be, - at, - av, bd, as, aw, - bc, - ar, - ax, bb, aq, ay, - ba, - ap, - az, az, ap, ba, - ay, - aq, - bb, ax, ar, bc, - aw, - as, - bd, av, at, be, - au, - au, be, at, av, - bd, - as, - aw, bc, ar, ax, - bb, - aq, - ay, ba, ap, az, - az, - ap, - ba, ay, aq, bb, - ax, - ar, - bc, aw, as, bd, - av, - at, - be, au],
     [bq, - ci, - bl, - bv, cd, bg, ca, - by, - bi, - cf, bt, bn, ck, - bo, - bs, cg, bj, bx, - cb, - bf, - cc, bw, bk, ch, - br, - bp, cj, bm, bu, - ce, - bh, - bz, bz, bh, ce, - bu, - bm, - cj, bp, br, - ch, - bk, - bw, cc, bf, cb, - bx, - bj, - cg, bs, bo, - ck, - bn, - bt, cf, bi, by, - ca, - bg, - cd, bv, bl, ci, - bq],
     [ae, - ag, - ad, - af, af, ad, ag, - ae, - ae, ag, ad, af, - af, - ad, - ag, ae, ae, - ag, - ad, - af, af, ad, ag, - ae, - ae, ag, ad, af, - af, - ad, - ag, ae, ae, - ag, - ad, - af, af, ad, ag, - ae, - ae, ag, ad, af, - af, - ad, - ag, ae, ae, - ag, - ad, - af, af, ad, ag, - ae, - ae, ag, ad, af, - af, - ad, - ag, ae],
     [br, - cf, - bg, - cc, bu, bo, - ci, - bj, - bz, bx, bl, ck, - bm, - bw, ca, bi, ch, - bp, - bt, cd, bf, ce, - bs, - bq, cg, bh, cb, - bv, - bn, cj, bk, by, - by, - bk, - cj, bn, bv, - cb, - bh, - cg, bq, bs, - ce, - bf, - cd, bt, bp, - ch, - bi, - ca, bw, bm, - ck, - bl, - bx, bz, bj, ci, - bo, - bu, cc, bg, cf, - br],
     [av, - bb, - ap, - bc, au, aw, - ba, - aq, - bd, at, ax, - az, - ar, - be, as, ay, - ay, - as, be, ar, az, - ax, - at, bd, aq, ba, - aw, - au, bc, ap, bb, - av, - av, bb, ap, bc, - au, - aw, ba, aq, bd, - at, - ax, az, ar, be, - as, - ay, ay, as, - be, - ar, - az, ax, at, - bd, - aq, - ba, aw, au, - bc, - ap, - bb, av],
     [bs, - cc, - bi, - cj, bl, bz, - bv, - bp, cf, bf, cg, - bo, - bw, by, bm, - ci, - bh, - cd, br, bt, - cb, - bj, - ck, bk, ca, - bu, - bq, ce, bg, ch, - bn, - bx, bx, bn, - ch, - bg, - ce, bq, bu, - ca, - bk, ck, bj, cb, - bt, - br, cd, bh, ci, - bm, - by, bw, bo, - cg, - bf, - cf, bp, bv, - bz, - bl, cj, bi, cc, - bs],
     [ak, - am, - ai, ao, ah, an, - aj, - al, al, aj, - an, - ah, - ao, ai, am, - ak, - ak, am, ai, - ao, - ah, - an, aj, al, - al, - aj, an, ah, ao, - ai, - am, ak, ak, - am, - ai, ao, ah, an, - aj, - al, al, aj, - an, - ah, - ao, ai, am, - ak, - ak, am, ai, - ao, - ah, - an, aj, al, - al, - aj, an, ah, ao, - ai, - am, ak],
     [bt, - bz, - bn, cf, bh, ck, - bi, - ce, bo, by, - bu, - bs, ca, bm, - cg, - bg, - cj, bj, cd, - bp, - bx, bv, br, - cb, - bl, ch, bf, ci, - bk, - cc, bq, bw, - bw, - bq, cc, bk, - ci, - bf, - ch, bl, cb, - br, - bv, bx, bp, - cd, - bj, cj, bg, cg, - bm, - ca, bs, bu, - by, - bo, ce, bi, - ck, - bh, - cf, bn, bz, - bt],
     [aw, - ay, - au, ba, as, - bc, - aq, be, ap, bd, - ar, - bb, at, az, - av, - ax, ax, av, - az, - at, bb, ar, - bd, - ap, - be, aq, bc, - as, - ba, au, ay, - aw, - aw, ay, au, - ba, - as, bc, aq, - be, - ap, - bd, ar, bb, - at, - az, av, ax, - ax, - av, az, at, - bb, - ar, bd, ap, be, - aq, - bc, as, ba, - au, - ay, aw],
     [bu, - bw, - bs, by, bq, - ca, - bo, cc, bm, - ce, - bk, cg, bi, - ci, - bg, ck, bf, cj, - bh, - ch, bj, cf, - bl, - cd, bn, cb, - bp, - bz, br, bx, - bt, - bv, bv, bt, - bx, - br, bz, bp, - cb, - bn, cd, bl, - cf, - bj, ch, bh, - cj, - bf, - ck, bg, ci, - bi, - cg, bk, ce, - bm, - cc, bo, ca, - bq, - by, bs, bw, - bu],
     [aa, - aa, - aa, aa, aa, - aa, - aa, aa, aa, - aa, - aa, aa, aa, - aa, - aa, aa, aa, - aa, - aa, aa, aa, - aa, - aa, aa, aa, - aa, - aa, aa, aa, - aa, - aa, aa, aa, - aa, - aa, aa, aa, - aa, - aa, aa, aa, - aa, - aa, aa, aa, - aa, - aa, aa, aa, - aa, - aa, aa, aa, - aa, - aa, aa, aa, - aa, - aa, aa, aa, - aa, - aa, aa],
     [bv, - bt, - bx, br, bz, - bp, - cb, bn, cd, - bl, - cf, bj, ch, - bh, - cj, bf, - ck, - bg, ci, bi, - cg, - bk, ce, bm, - cc, - bo, ca, bq, - by, - bs, bw, bu, - bu, - bw, bs, by, - bq, - ca, bo, cc, - bm, - ce, bk, cg, - bi, - ci, bg, ck, - bf, cj, bh, - ch, - bj, cf, bl, - cd, - bn, cb, bp, - bz, - br, bx, bt, - bv],
     [ax, - av, - az, at, bb, - ar, - bd, ap, - be, - aq, bc, as, - ba, - au, ay, aw, - aw, - ay, au, ba, - as, - bc, aq, be, - ap, bd, ar, - bb, - at, az, av, - ax, - ax, av, az, - at, - bb, ar, bd, - ap, be, aq, - bc, - as, ba, au, - ay, - aw, aw, ay, - au, - ba, as, bc, - aq, - be, ap, - bd, - ar, bb, at, - az, - av, ax],
     [bw, - bq, - cc, bk, ci, - bf, ch, bl, - cb, - br, bv, bx, - bp, - cd, bj, cj, - bg, cg, bm, - ca, - bs, bu, by, - bo, - ce, bi, ck, - bh, cf, bn, - bz, - bt, bt, bz, - bn, - cf, bh, - ck, - bi, ce, bo, - by, - bu, bs, ca, - bm, - cg, bg, - cj, - bj, cd, bp, - bx, - bv, br, cb, - bl, - ch, bf, - ci, - bk, cc, bq, - bw],
     [al, - aj, - an, ah, - ao, - ai, am, ak, - ak, - am, ai, ao, - ah, an, aj, - al, - al, aj, an, - ah, ao, ai, - am, - ak, ak, am, - ai, - ao, ah, - an, - aj, al, al, - aj, - an, ah, - ao, - ai, am, ak, - ak, - am, ai, ao, - ah, an, aj, - al, - al, aj, an, - ah, ao, ai, - am, - ak, ak, am, - ai, - ao, ah, - an, - aj, al],
     [bx, - bn, - ch, bg, - ce, - bq, bu, ca, - bk, - ck, bj, - cb, - bt, br, cd, - bh, ci, bm, - by, - bw, bo, cg, - bf, cf, bp, - bv, - bz, bl, cj, - bi, cc, bs, - bs, - cc, bi, - cj, - bl, bz, bv, - bp, - cf, bf, - cg, - bo, bw, by, - bm, - ci, bh, - cd, - br, bt, cb, - bj, ck, bk, - ca, - bu, bq, ce, - bg, ch, bn, - bx],
     [ay, - as, - be, ar, - az, - ax, at, bd, - aq, ba, aw, - au, - bc, ap, - bb, - av, av, bb, - ap, bc, au, - aw, - ba, aq, - bd, - at, ax, az, - ar, be, as, - ay, - ay, as, be, - ar, az, ax, - at, - bd, aq, - ba, - aw, au, bc, - ap, bb, av, - av, - bb, ap, - bc, - au, aw, ba, - aq, bd, at, - ax, - az, ar, - be, - as, ay],
     [by, - bk, cj, bn, - bv, - cb, bh, - cg, - bq, bs, ce, - bf, cd, bt, - bp, - ch, bi, - ca, - bw, bm, ck, - bl, bx, bz, - bj, ci, bo, - bu, - cc, bg, - cf, - br, br, cf, - bg, cc, bu, - bo, - ci, bj, - bz, - bx, bl, - ck, - bm, bw, ca, - bi, ch, bp, - bt, - cd, bf, - ce, - bs, bq, cg, - bh, cb, bv, - bn, - cj, bk, - by],
     [af, - ad, ag, ae, - ae, - ag, ad, - af, - af, ad, - ag, - ae, ae, ag, - ad, af, af, - ad, ag, ae, - ae, - ag, ad, - af, - af, ad, - ag, - ae, ae, ag, - ad, af, af, - ad, ag, ae, - ae, - ag, ad, - af, - af, ad, - ag, - ae, ae, ag, - ad, af, af, - ad, ag, ae, - ae, - ag, ad, - af, - af, ad, - ag, - ae, ae, ag, - ad, af],
     [bz, - bh, ce, bu, - bm, cj, bp, - br, - ch, bk, - bw, - cc, bf, - cb, - bx, bj, - cg, - bs, bo, ck, - bn, bt, cf, - bi, by, ca, - bg, cd, bv, - bl, ci, bq, - bq, - ci, bl, - bv, - cd, bg, - ca, - by, bi, - cf, - bt, bn, - ck, - bo, bs, cg, - bj, bx, cb, - bf, cc, bw, - bk, ch, br, - bp, - cj, bm, - bu, - ce, bh, - bz],
     [az, - ap, ba, ay, - aq, bb, ax, - ar, bc, aw, - as, bd, av, - at, be, au, - au, - be, at, - av, - bd, as, - aw, - bc, ar, - ax, - bb, aq, - ay, - ba, ap, - az, - az, ap, - ba, - ay, aq, - bb, - ax, ar, - bc, - aw, as, - bd, - av, at, - be, - au, au, be, - at, av, bd, - as, aw, bc, - ar, ax, bb, - aq, ay, ba, - ap, az],
     [ca, - bf, bz, cb, - bg, by, cc, - bh, bx, cd, - bi, bw, ce, - bj, bv, cf, - bk, bu, cg, - bl, bt, ch, - bm, bs, ci, - bn, br, cj, - bo, bq, ck, - bp, bp, - ck, - bq, bo, - cj, - br, bn, - ci, - bs, bm, - ch, - bt, bl, - cg, - bu, bk, - cf, - bv, bj, - ce, - bw, bi, - cd, - bx, bh, - cc, - by, bg, - cb, - bz, bf, - ca],
     [am, - ah, al, an, - ai, ak, ao, - aj, aj, - ao, - ak, ai, - an, - al, ah, - am, - am, ah, - al, - an, ai, - ak, - ao, aj, - aj, ao, ak, - ai, an, al, - ah, am, am, - ah, al, an, - ai, ak, ao, - aj, aj, - ao, - ak, ai, - an, - al, ah, - am, - am, ah, - al, - an, ai, - ak, - ao, aj, - aj, ao, ak, - ai, an, al, - ah, am],
     [cb, - bi, bu, ci, - bp, bn, - cg, - bw, bg, - bz, - cd, bk, - bs, - ck, br, - bl, ce, by, - bf, bx, cf, - bm, bq, - cj, - bt, bj, - cc, - ca, bh, - bv, - ch, bo, - bo, ch, bv, - bh, ca, cc, - bj, bt, cj, - bq, bm, - cf, - bx, bf, - by, - ce, bl, - br, ck, bs, - bk, cd, bz, - bg, bw, cg, - bn, bp, - ci, - bu, bi, - cb],
     [ba, - ar, av, - be, - aw, aq, - az, - bb, as, - au, bd, ax, - ap, ay, bc, - at, at, - bc, - ay, ap, - ax, - bd, au, - as, bb, az, - aq, aw, be, - av, ar, - ba, - ba, ar, - av, be, aw, - aq, az, bb, - as, au, - bd, - ax, ap, - ay, - bc, at, - at, bc, ay, - ap, ax, bd, - au, as, - bb, - az, aq, - aw, - be, av, - ar, ba],
     [cc, - bl, bp, - cg, - by, bh, - bt, ck, bu, - bg, bx, ch, - bq, bk, - cb, - cd, bm, - bo, cf, bz, - bi, bs, - cj, - bv, bf, - bw, - ci, br, - bj, ca, ce, - bn, bn, - ce, - ca, bj, - br, ci, bw, - bf, bv, cj, - bs, bi, - bz, - cf, bo, - bm, cd, cb, - bk, bq, - ch, - bx, bg, - bu, - ck, bt, - bh, by, cg, - bp, bl, - cc],
     [ac, - ab, ab, - ac, - ac, ab, - ab, ac, ac, - ab, ab, - ac, - ac, ab, - ab, ac, ac, - ab, ab, - ac, - ac, ab, - ab, ac, ac, - ab, ab, - ac, - ac, ab, - ab, ac, ac, - ab, ab, - ac, - ac, ab, - ab, ac, ac, - ab, ab, - ac, - ac, ab, - ab, ac, ac, - ab, ab, - ac, - ac, ab, - ab, ac, ac, - ab, ab, - ac, - ac, ab, - ab, ac],
     [cd, - bo, bk, - bz, - ch, bs, - bg, bv, - ck, - bw, bh, - br, cg, ca, - bl, bn, - cc, - ce, bp, - bj, by, ci, - bt, bf, - bu, cj, bx, - bi, bq, - cf, - cb, bm, - bm, cb, cf, - bq, bi, - bx, - cj, bu, - bf, bt, - ci, - by, bj, - bp, ce, cc, - bn, bl, - ca, - cg, br, - bh, bw, ck, - bv, bg, - bs, ch, bz, - bk, bo, - cd],
     [bb, - au, aq, - ax, be, ay, - ar, at, - ba, - bc, av, - ap, aw, - bd, - az, as, - as, az, bd, - aw, ap, - av, bc, ba, - at, ar, - ay, - be, ax, - aq, au, - bb, - bb, au, - aq, ax, - be, - ay, ar, - at, ba, bc, - av, ap, - aw, bd, az, - as, as, - az, - bd, aw, - ap, av, - bc, - ba, at, - ar, ay, be, - ax, aq, - au, bb],
     [ce, - br, bf, - bs, cf, cd, - bq, bg, - bt, cg, cc, - bp, bh, - bu, ch, cb, - bo, bi, - bv, ci, ca, - bn, bj, - bw, cj, bz, - bm, bk, - bx, ck, by, - bl, bl, - by, - ck, bx, - bk, bm, - bz, - cj, bw, - bj, bn, - ca, - ci, bv, - bi, bo, - cb, - ch, bu, - bh, bp, - cc, - cg, bt, - bg, bq, - cd, - cf, bs, - bf, br, - ce],
     [an, - ak, ah, - aj, am, ao, - al, ai, - ai, al, - ao, - am, aj, - ah, ak, - an, - an, ak, - ah, aj, - am, - ao, al, - ai, ai, - al, ao, am, - aj, ah, - ak, an, an, - ak, ah, - aj, am, ao, - al, ai, - ai, al, - ao, - am, aj, - ah, ak, - an, - an, ak, - ah, aj, - am, - ao, al, - ai, ai, - al, ao, am, - aj, ah, - ak, an],
     [cf, - bu, bj, - bl, bw, - ch, - cd, bs, - bh, bn, - by, cj, cb, - bq, bf, - bp, ca, ck, - bz, bo, - bg, br, - cc, - ci, bx, - bm, bi, - bt, ce, cg, - bv, bk, - bk, bv, - cg, - ce, bt, - bi, bm, - bx, ci, cc, - br, bg, - bo, bz, - ck, - ca, bp, - bf, bq, - cb, - cj, by, - bn, bh, - bs, cd, ch, - bw, bl, - bj, bu, - cf],
     [bc, - ax, as, - aq, av, - ba, - be, az, - au, ap, - at, ay, - bd, - bb, aw, - ar, ar, - aw, bb, bd, - ay, at, - ap, au, - az, be, ba, - av, aq, - as, ax, - bc, - bc, ax, - as, aq, - av, ba, be, - az, au, - ap, at, - ay, bd, bb, - aw, ar, - ar, aw, - bb, - bd, ay, - at, ap, - au, az, - be, - ba, av, - aq, as, - ax, bc],
     [cg, - bx, bo, - bf, bn, - bw, cf, ch, - by, bp, - bg, bm, - bv, ce, ci, - bz, bq, - bh, bl, - bu, cd, cj, - ca, br, - bi, bk, - bt, cc, ck, - cb, bs, - bj, bj, - bs, cb, - ck, - cc, bt, - bk, bi, - br, ca, - cj, - cd, bu, - bl, bh, - bq, bz, - ci, - ce, bv, - bm, bg, - bp, by, - ch, - cf, bw, - bn, bf, - bo, bx, - cg],
     [ag, - af, ae, - ad, ad, - ae, af, - ag, - ag, af, - ae, ad, - ad, ae, - af, ag, ag, - af, ae, - ad, ad, - ae, af, - ag, - ag, af, - ae, ad, - ad, ae, - af, ag, ag, - af, ae, - ad, ad, - ae, af, - ag, - ag, af, - ae, ad, - ad, ae, - af, ag, ag, - af, ae, - ad, ad, - ae, af, - ag, - ag, af, - ae, ad, - ad, ae, - af, ag],
     [ch, - ca, bt, - bm, bf, - bl, bs, - bz, cg, ci, - cb, bu, - bn, bg, - bk, br, - by, cf, cj, - cc, bv, - bo, bh, - bj, bq, - bx, ce, ck, - cd, bw, - bp, bi, - bi, bp, - bw, cd, - ck, - ce, bx, - bq, bj, - bh, bo, - bv, cc, - cj, - cf, by, - br, bk, - bg, bn, - bu, cb, - ci, - cg, bz, - bs, bl, - bf, bm, - bt, ca, - ch],
     [bd, - ba, ax, - au, ar, - ap, as, - av, ay, - bb, be, bc, - az, aw, - at, aq, - aq, at, - aw, az, - bc, - be, bb, - ay, av, - as, ap, - ar, au, - ax, ba, - bd, - bd, ba, - ax, au, - ar, ap, - as, av, - ay, bb, - be, - bc, az, - aw, at, - aq, aq, - at, aw, - az, bc, be, - bb, ay, - av, as, - ap, ar, - au, ax, - ba, bd],
     [ci, - cd, by, - bt, bo, - bj, bf, - bk, bp, - bu, bz, - ce, cj, ch, - cc, bx, - bs, bn, - bi, bg, - bl, bq, - bv, ca, - cf, ck, cg, - cb, bw, - br, bm, - bh, bh, - bm, br, - bw, cb, - cg, - ck, cf, - ca, bv, - bq, bl, - bg, bi, - bn, bs, - bx, cc, - ch, - cj, ce, - bz, bu, - bp, bk, - bf, bj, - bo, bt, - by, cd, - ci],
     [ao, - an, am, - al, ak, - aj, ai, - ah, ah, - ai, aj, - ak, al, - am, an, - ao, - ao, an, - am, al, - ak, aj, - ai, ah, - ah, ai, - aj, ak, - al, am, - an, ao, ao, - an, am, - al, ak, - aj, ai, - ah, ah, - ai, aj, - ak, al, - am, an, - ao, - ao, an, - am, al, - ak, aj, - ai, ah, - ah, ai, - aj, ak, - al, am, - an, ao],
     [cj, - cg, cd, - ca, bx, - bu, br, - bo, bl, - bi, bf, - bh, bk, - bn, bq, - bt, bw, - bz, cc, - cf, ci, ck, - ch, ce, - cb, by, - bv, bs, - bp, bm, - bj, bg, - bg, bj, - bm, bp, - bs, bv, - by, cb, - ce, ch, - ck, - ci, cf, - cc, bz, - bw, bt, - bq, bn, - bk, bh, - bf, bi, - bl, bo, - br, bu, - bx, ca, - cd, cg, - cj],
     [be, - bd, bc, - bb, ba, - az, ay, - ax, aw, - av, au, - at, as, - ar, aq, - ap, ap, - aq, ar, - as, at, - au, av, - aw, ax, - ay, az, - ba, bb, - bc, bd, - be, - be, bd, - bc, bb, - ba, az, - ay, ax, - aw, av, - au, at, - as, ar, - aq, ap, - ap, aq, - ar, as, - at, au, - av, aw, - ax, ay, - az, ba, - bb, bc, - bd, be],
     [ck, - cj, ci, - ch, cg, - cf, ce, - cd, cc, - cb, ca, - bz, by, - bx, bw, - bv, bu, - bt, bs, - br, bq, - bp, bo, - bn, bm, - bl, bk, - bj, bi, - bh, bg, - bf, bf, - bg, bh, - bi, bj, - bk, bl, - bm, bn, - bo, bp, - bq, br, - bs, bt, - bu, bv, - bw, bx, - by, bz, - ca, cb, - cc, cd, - ce, cf, - cg, ch, - ci, cj, - ck]]"

definition DEFINE_DCT8_P4_MATRIX :: "int \<Rightarrow> int \<Rightarrow> int \<Rightarrow> int \<Rightarrow> int list list" where
  "DEFINE_DCT8_P4_MATRIX
    a b c d =
    [[a, b, c, d],
     [b, 0, - b, - b],
     [c, - b, - d, a],
     [d, - b, a, - c]]"

definition DEFINE_DCT8_P8_MATRIX :: "int \<Rightarrow> int \<Rightarrow> int \<Rightarrow> int \<Rightarrow> int \<Rightarrow> int \<Rightarrow> int \<Rightarrow> int \<Rightarrow> int list list" where
  "DEFINE_DCT8_P8_MATRIX
    a b c d e f g h =
    [[a, b, c, d, e, f, g, h],
     [b, e, h, - g, - d, - a, - c, - f],
     [c, h, - e, - a, - f, g, b, d],
     [d, - g, - a, - h, c, e, - f, - b],
     [e, - d, - f, c, g, - b, - h, a],
     [f, - a, g, e, - b, h, d, - c],
     [g, - c, b, - f, - h, d, - a, e],
     [h, - f, d, - b, a, - c, e, - g]]"

definition DEFINE_DCT8_P16_MATRIX ::
  "int \<Rightarrow> int \<Rightarrow> int \<Rightarrow> int \<Rightarrow> int \<Rightarrow> int \<Rightarrow> int \<Rightarrow> int \<Rightarrow> 
   int \<Rightarrow> int \<Rightarrow> int \<Rightarrow> int \<Rightarrow> int \<Rightarrow> int \<Rightarrow> int \<Rightarrow> int \<Rightarrow> int list list" where
  "DEFINE_DCT8_P16_MATRIX
    a b c d e f g h i j k l m n o1 p =
    [[a, b, c, d, e, f, g, h, i, j, k, l, m, n, o1, p],
     [b, e, h, k, n, 0, - n, - k, - h, - e, - b, - b, - e, - h, - k, - n],
     [c, h, m, - p, - k, - f, - a, - e, - j, - o1, n, i, d, b, g, l],
     [d, k, - p, - i, - b, - f, - m, n, g, a, h, o1, - l, - e, - c, - j],
     [e, n, - k, - b, - h, 0, h, b, k, - n, - e, - e, - n, k, b, h],
     [f, 0, - f, - f, 0, f, f, 0, - f, - f, 0, f, f, 0, - f, - f],
     [g, - n, - a, - m, h, f, - o1, - b, - l, i, e, - p, - c, - k, j, d],
     [h, - k, - e, n, b, 0, - b, - n, e, k, - h, - h, k, e, - n, - b],
     [i, - h, - j, g, k, - f, - l, e, m, - d, - n, c, o1, - b, - p, a],
     [j, - e, - o1, a, - n, - f, i, k, - d, - p, b, - m, - g, h, l, - c],
     [k, - b, n, h, - e, 0, e, - h, - n, b, - k, - k, b, - n, - h, e],
     [l, - b, i, o1, - e, f, - p, - h, c, - m, - k, a, - j, - n, d, - g],
     [m, - e, d, - l, - n, f, - c, k, o1, - g, b, - j, - p, h, - a, i],
     [n, - h, b, - e, k, 0, - k, e, - b, h, - n, - n, h, - b, e, - k],
     [o1, - k, g, - c, b, - f, j, - n, - p, l, - h, d, - a, e, - i, m],
     [p, - n, l, - j, h, - f, d, - b, a, - c, e, - g, i, - k, m, - o1]]"

definition DEFINE_DCT8_P32_MATRIX ::
  "int \<Rightarrow> int \<Rightarrow> int \<Rightarrow> int \<Rightarrow> int \<Rightarrow> int \<Rightarrow> int \<Rightarrow> int \<Rightarrow> 
   int \<Rightarrow> int \<Rightarrow> int \<Rightarrow> int \<Rightarrow> int \<Rightarrow> int \<Rightarrow> int \<Rightarrow> int \<Rightarrow> 
   int \<Rightarrow> int \<Rightarrow> int \<Rightarrow> int \<Rightarrow> int \<Rightarrow> int \<Rightarrow> int \<Rightarrow> int \<Rightarrow> 
   int \<Rightarrow> int \<Rightarrow> int \<Rightarrow> int \<Rightarrow> int \<Rightarrow> int \<Rightarrow> int \<Rightarrow> int \<Rightarrow> int list list" where
  "DEFINE_DCT8_P32_MATRIX
    a b c d e f g h i j k l m n o1 p q r s t u v w x y z A B C D E F =
    [[a, b, c, d, e, f, g, h, i, j, k, l, m, n, o1, p, q, r, s, t, u, v, w, x, y, z, A, B, C, D, E, F],
     [b, e, h, k, n, q, t, w, z, C, F, - E, - B, - y, - v, - s, - p, - m, - j, - g, - d, - a, - c, - f, - i, - l, - o1, - r, - u, - x, - A, - D],
     [c, h, m, r, w, B, 0, - B, - w, - r, - m, - h, - c, - c, - h, - m, - r, - w, - B, 0, B, w, r, m, h, c, c, h, m, r, w, B],
     [d, k, r, y, F, - A, - t, - m, - f, - b, - i, - p, - w, - D, C, v, o1, h, a, g, n, u, B, - E, - x, - q, - j, - c, - e, - l, - s, - z],
     [e, n, w, F, - y, - p, - g, - c, - l, - u, - D, A, r, i, a, j, s, B, - C, - t, - k, - b, - h, - q, - z, E, v, m, d, f, o1, x],
     [f, q, B, - A, - p, - e, - g, - r, - C, z, o1, d, h, s, D, - y, - n, - c, - i, - t, - E, x, m, b, j, u, F, - w, - l, - a, - k, - v],
     [g, t, 0, - t, - g, - g, - t, 0, t, g, g, t, 0, - t, - g, - g, - t, 0, t, g, g, t, 0, - t, - g, - g, - t, 0, t, g, g, t],
     [h, w, - B, - m, - c, - r, 0, r, c, m, B, - w, - h, - h, - w, B, m, c, r, 0, - r, - c, - m, - B, w, h, h, w, - B, - m, - c, - r],
     [i, z, - w, - f, - l, - C, t, c, o1, F, - q, - a, - r, E, n, d, u, - B, - k, - g, - x, y, h, j, A, - v, - e, - m, - D, s, b, p],
     [j, C, - r, - b, - u, z, g, m, F, - o1, - e, - x, w, d, p, - E, - l, - h, - A, t, a, s, - B, - i, - k, - D, q, c, v, - y, - f, - n],
     [k, F, - m, - i, - D, o1, g, B, - q, - e, - z, s, c, x, - u, - a, - v, w, b, t, - y, - d, - r, A, f, p, - C, - h, - n, E, j, l],
     [l, - E, - h, - p, A, d, t, - w, - a, - x, s, e, B, - o1, - i, - F, k, m, - D, - g, - q, z, c, u, - v, - b, - y, r, f, C, - n, - j],
     [m, - B, - c, - w, r, h, 0, - h, - r, w, c, B, - m, - m, B, c, w, - r, - h, 0, h, r, - w, - c, - B, m, m, - B, - c, - w, r, h],
     [n, - y, - c, - D, i, s, - t, - h, E, d, x, - o1, - m, z, b, C, - j, - r, u, g, - F, - e, - w, p, l, - A, - a, - B, k, q, - v, - f],
     [o1, - v, - h, C, a, D, - g, - w, n, p, - u, - i, B, b, E, - f, - x, m, q, - t, - j, A, c, F, - e, - y, l, r, - s, - k, z, d],
     [p, - s, - m, v, j, - y, - g, B, d, - E, - a, - F, c, C, - f, - z, i, w, - l, - t, o1, q, - r, - n, u, k, - x, - h, A, e, - D, - b],
     [q, - p, - r, o1, s, - n, - t, m, u, - l, - v, k, w, - j, - x, i, y, - h, - z, g, A, - f, - B, e, C, - d, - D, c, E, - b, - F, a],
     [r, - m, - w, h, B, - c, 0, c, - B, - h, w, m, - r, - r, m, w, - h, - B, c, 0, - c, B, h, - w, - m, r, r, - m, - w, h, B, - c],
     [s, - j, - B, a, - C, - i, t, r, - k, - A, b, - D, - h, u, q, - l, - z, c, - E, - g, v, p, - m, - y, d, - F, - f, w, o1, - n, - x, e],
     [t, - g, 0, g, - t, - t, g, 0, - g, t, t, - g, 0, g, - t, - t, g, 0, - g, t, t, - g, 0, g, - t, - t, g, 0, - g, t, t, - g],
     [u, - d, B, n, - k, - E, g, - r, - x, a, - y, - q, h, - F, - j, o1, A, - c, v, t, - e, C, m, - l, - D, f, - s, - w, b, - z, - p, i],
     [v, - a, w, u, - b, x, t, - c, y, s, - d, z, r, - e, A, q, - f, B, p, - g, C, o1, - h, D, n, - i, E, m, - j, F, l, - k],
     [w, - c, r, B, - h, m, 0, - m, h, - B, - r, c, - w, - w, c, - r, - B, h, - m, 0, m, - h, B, r, - c, w, w, - c, r, B, - h, m],
     [x, - f, m, - E, - q, b, - t, - B, j, - i, A, u, - c, p, F, - n, e, - w, - y, g, - l, D, r, - a, s, C, - k, h, - z, - v, d, - o1],
     [y, - i, h, - x, - z, j, - g, w, A, - k, f, - v, - B, l, - e, u, C, - m, d, - t, - D, n, - c, s, E, - o1, b, - r, - F, p, - a, q],
     [z, - l, c, - q, E, u, - g, h, - v, - D, p, - b, m, - A, - y, k, - d, r, - F, - t, f, - i, w, C, - o1, a, - n, B, x, - j, e, - s],
     [A, - o1, c, - j, v, F, - t, h, - e, q, - C, - y, m, - a, l, - x, - D, r, - f, g, - s, E, w, - k, b, - n, z, B, - p, d, - i, u],
     [B, - r, h, - c, m, - w, 0, w, - m, c, - h, r, - B, - B, r, - h, c, - m, w, 0, - w, m, - c, h, - r, B, B, - r, h, - c, m, - w],
     [C, - u, m, - e, d, - l, t, - B, - D, v, - n, f, - c, k, - s, A, E, - w, o1, - g, b, - j, r, - z, - F, x, - p, h, - a, i, - q, y],
     [D, - x, r, - l, f, - a, g, - m, s, - y, E, C, - w, q, - k, e, - b, h, - n, t, - z, F, B, - v, p, - j, d, - c, i, - o1, u, - A],
     [E, - A, w, - s, o1, - k, g, - c, b, - f, j, - n, r, - v, z, - D, - F, B, - x, t, - p, l, - h, d, - a, e, - i, m, - q, u, - y, C],
     [F, - D, B, - z, x, - v, t, - r, p, - n, l, - j, h, - f, d, - b, a, - c, e, - g, i, - k, m, - o1, q, - s, u, - w, y, - A, C, - E]]"

definition DEFINE_DST7_P4_MATRIX :: "int \<Rightarrow> int \<Rightarrow> int \<Rightarrow> int \<Rightarrow> int list list" where
  "DEFINE_DST7_P4_MATRIX
    a b c d =
    [[a, b, c, d],
     [c, c, 0, - c],
     [d, - a, - c, b],
     [b, - d, c, - a]]"

definition DEFINE_DST7_P8_MATRIX :: "int \<Rightarrow> int \<Rightarrow> int \<Rightarrow> int \<Rightarrow> int \<Rightarrow> int \<Rightarrow> int \<Rightarrow> int \<Rightarrow> int list list" where
  "DEFINE_DST7_P8_MATRIX
    a b c d e f g h =
    [[a, b, c, d, e, f, g, h],
     [c, f, h, e, b, - a, - d, - g],
     [e, g, b, - c, - h, - d, a, f],
     [g, c, - d, - f, a, h, b, - e],
     [h, - a, - g, b, f, - c, - e, d],
     [f, - e, - a, g, - d, - b, h, - c],
     [d, - h, e, - a, - c, g, - f, b],
     [b, - d, f, - h, g, - e, c, - a]]"

definition DEFINE_DST7_P16_MATRIX ::
  "int \<Rightarrow> int \<Rightarrow> int \<Rightarrow> int \<Rightarrow> int \<Rightarrow> int \<Rightarrow> int \<Rightarrow> int \<Rightarrow> 
   int \<Rightarrow> int \<Rightarrow> int \<Rightarrow> int \<Rightarrow> int \<Rightarrow> int \<Rightarrow> int \<Rightarrow> int \<Rightarrow> int list list" where
  "DEFINE_DST7_P16_MATRIX
    a b c d e f g h i j k l m n o1 p =
    [[a, b, c, d, e, f, g, h, i, j, k, l, m, n, o1, p],
     [c, f, i, l, o1, o1, l, i, f, c, 0, - c, - f, - i, - l, - o1],
     [e, j, o1, m, h, c, - b, - g, - l, - p, - k, - f, - a, d, i, n],
     [g, n, l, e, - b, - i, - p, - j, - c, d, k, o1, h, a, - f, - m],
     [i, o1, f, - c, - l, - l, - c, f, o1, i, 0, - i, - o1, - f, c, l],
     [k, k, 0, - k, - k, 0, k, k, 0, - k, - k, 0, k, k, 0, - k],
     [m, g, - f, - n, - a, l, h, - e, - o1, - b, k, i, - d, - p, - c, j],
     [o1, c, - l, - f, i, i, - f, - l, c, o1, 0, - o1, - c, l, f, - i],
     [p, - a, - o1, b, n, - c, - m, d, l, - e, - k, f, j, - g, - i, h],
     [n, - e, - i, j, d, - o1, a, m, - f, - h, k, c, - p, b, l, - g],
     [l, - i, - c, o1, - f, - f, o1, - c, - i, l, 0, - l, i, c, - o1, f],
     [j, - m, c, g, - p, f, d, - n, i, a, - k, l, - b, - h, o1, - e],
     [h, - p, i, - a, - g, o1, - j, b, f, - n, k, - c, - e, m, - l, d],
     [f, - l, o1, - i, c, c, - i, o1, - l, f, 0, - f, l, - o1, i, - c],
     [d, - h, l, - p, m, - i, e, - a, - c, g, - k, o1, - n, j, - f, b],
     [b, - d, f, - h, j, - l, n, - p, o1, - m, k, - i, g, - e, c, - a]]"

definition DEFINE_DST7_P32_MATRIX ::
  "int \<Rightarrow> int \<Rightarrow> int \<Rightarrow> int \<Rightarrow> int \<Rightarrow> int \<Rightarrow> int \<Rightarrow> int \<Rightarrow> 
   int \<Rightarrow> int \<Rightarrow> int \<Rightarrow> int \<Rightarrow> int \<Rightarrow> int \<Rightarrow> int \<Rightarrow> int \<Rightarrow> 
   int \<Rightarrow> int \<Rightarrow> int \<Rightarrow> int \<Rightarrow> int \<Rightarrow> int \<Rightarrow> int \<Rightarrow> int \<Rightarrow> 
   int \<Rightarrow> int \<Rightarrow> int \<Rightarrow> int \<Rightarrow> int \<Rightarrow> int \<Rightarrow> int \<Rightarrow> int \<Rightarrow> int list list" where
  "DEFINE_DST7_P32_MATRIX
    a b c d e f g h i j k l m n o1 p q r s t u v w x y z A B C D E F =
    [[a, b, c, d, e, f, g, h, i, j, k, l, m, n, o1, p, q, r, s, t, u, v, w, x, y, z, A, B, C, D, E, F],
     [c, f, i, l, o1, r, u, x, A, D, F, C, z, w, t, q, n, k, h, e, b, - a, - d, - g, - j, - m, - p, - s, - v, - y, - B, - E],
     [e, j, o1, t, y, D, D, y, t, o1, j, e, 0, - e, - j, - o1, - t, - y, - D, - D, - y, - t, - o1, - j, - e, 0, e, j, o1, t, y, D],
     [g, n, u, B, D, w, p, i, b, - e, - l, - s, - z, - F, - y, - r, - k, - d, c, j, q, x, E, A, t, m, f, - a, - h, - o1, - v, - C],
     [i, r, A, C, t, k, b, - g, - p, - y, - E, - v, - m, - d, e, n, w, F, x, o1, f, - c, - l, - u, - D, - z, - q, - h, a, j, s, B],
     [k, v, F, u, j, - a, - l, - w, - E, - t, - i, b, m, x, D, s, h, - c, - n, - y, - C, - r, - g, d, o1, z, B, q, f, - e, - p, - A],
     [m, z, z, m, 0, - m, - z, - z, - m, 0, m, z, z, m, 0, - m, - z, - z, - m, 0, m, z, z, m, 0, - m, - z, - z, - m, 0, m, z],
     [o1, D, t, e, - j, - y, - y, - j, e, t, D, o1, 0, - o1, - D, - t, - e, j, y, y, j, - e, - t, - D, - o1, 0, o1, D, t, e, - j, - y],
     [q, E, n, - c, - t, - B, - k, f, w, y, h, - i, - z, - v, - e, l, C, s, b, - o1, - F, - p, a, r, D, m, - d, - u, - A, - j, g, x],
     [s, A, h, - k, - D, - p, c, v, x, e, - n, - F, - m, f, y, u, b, - q, - C, - j, i, B, r, - a, - t, - z, - g, l, E, o1, - d, - w],
     [u, w, b, - s, - y, - d, q, A, f, - o1, - C, - h, m, E, j, - k, - F, - l, i, D, n, - g, - B, - p, e, z, r, - c, - x, - t, a, v],
     [w, s, - d, - A, - o1, h, E, k, - l, - D, - g, p, z, c, - t, - v, a, x, r, - e, - B, - n, i, F, j, - m, - C, - f, q, y, b, - u],
     [y, o1, - j, - D, - e, t, t, - e, - D, - j, o1, y, 0, - y, - o1, j, D, e, - t, - t, e, D, j, - o1, - y, 0, y, o1, - j, - D, - e, t],
     [A, k, - p, - v, e, F, f, - u, - q, j, B, a, - z, - l, o1, w, - d, - E, - g, t, r, - i, - C, - b, y, m, - n, - x, c, D, h, - s],
     [C, g, - v, - n, o1, u, - h, - B, a, D, f, - w, - m, p, t, - i, - A, b, E, e, - x, - l, q, s, - j, - z, c, F, d, - y, - k, r],
     [E, c, - B, - f, y, i, - v, - l, s, o1, - p, - r, m, u, - j, - x, g, A, - d, - D, a, F, b, - C, - e, z, h, - w, - k, t, n, - q],
     [F, - a, - E, b, D, - c, - C, d, B, - e, - A, f, z, - g, - y, h, x, - i, - w, j, v, - k, - u, l, t, - m, - s, n, r, - o1, - q, p],
     [D, - e, - y, j, t, - o1, - o1, t, j, - y, - e, D, 0, - D, e, y, - j, - t, o1, o1, - t, - j, y, e, - D, 0, D, - e, - y, j, t, - o1],
     [B, - i, - s, r, j, - A, - a, C, - h, - t, q, k, - z, - b, D, - g, - u, p, l, - y, - c, E, - f, - v, o1, m, - x, - d, F, - e, - w, n],
     [z, - m, - m, z, 0, - z, m, m, - z, 0, z, - m, - m, z, 0, - z, m, m, - z, 0, z, - m, - m, z, 0, - z, m, m, - z, 0, z, - m],
     [x, - q, - g, E, - j, - n, A, - c, - u, t, d, - B, m, k, - D, f, r, - w, - a, y, - p, - h, F, - i, - o1, z, - b, - v, s, e, - C, l],
     [v, - u, - a, w, - t, - b, x, - s, - c, y, - r, - d, z, - q, - e, A, - p, - f, B, - o1, - g, C, - n, - h, D, - m, - i, E, - l, - j, F, - k],
     [t, - y, e, o1, - D, j, j, - D, o1, e, - y, t, 0, - t, y, - e, - o1, D, - j, - j, D, - o1, - e, y, - t, 0, t, - y, e, o1, - D, j],
     [r, - C, k, g, - y, v, - d, - n, F, - o1, - c, u, - z, h, j, - B, s, - a, - q, D, - l, - f, x, - w, e, m, - E, p, b, - t, A, - i],
     [p, - F, q, - a, - o1, E, - r, b, n, - D, s, - c, - m, C, - t, d, l, - B, u, - e, - k, A, - v, f, j, - z, w, - g, - i, y, - x, h],
     [n, - B, w, - i, - e, s, - F, r, - d, - j, x, - A, m, a, - o1, C, - v, h, f, - t, E, - q, c, k, - y, z, - l, - b, p, - D, u, - g],
     [l, - x, C, - q, e, g, - s, E, - v, j, b, - n, z, - A, o1, - c, - i, u, - F, t, - h, - d, p, - B, y, - m, a, k, - w, D, - r, f],
     [j, - t, D, - y, o1, - e, - e, o1, - y, D, - t, j, 0, - j, t, - D, y, - o1, e, e, - o1, y, - D, t, - j, 0, j, - t, D, - y, o1, - e],
     [h, - p, x, - F, y, - q, i, - a, - g, o1, - w, E, - z, r, - j, b, f, - n, v, - D, A, - s, k, - c, - e, m, - u, C, - B, t, - l, d],
     [f, - l, r, - x, D, - C, w, - q, k, - e, - a, g, - m, s, - y, E, - B, v, - p, j, - d, - b, h, - n, t, - z, F, - A, u, - o1, i, - c],
     [d, - h, l, - p, t, - x, B, - F, C, - y, u, - q, m, - i, e, - a, - c, g, - k, o1, - s, w, - A, E, - D, z, - v, r, - n, j, - f, b],
     [b, - d, f, - h, j, - l, n, - p, r, - t, v, - x, z, - B, D, - F, E, - C, A, - y, w, - u, s, - q, o1, - m, k, - i, g, - e, c, - a]]"

definition g_trCoreDCT2P2 :: "int list list list" where
  "g_trCoreDCT2P2 =
    [DEFINE_DCT2_P2_MATRIX 64,
     DEFINE_DCT2_P2_MATRIX 64]"

definition g_trCoreDCT2P4 :: "int list list list" where
  "g_trCoreDCT2P4 =
    [DEFINE_DCT2_P4_MATRIX 64 83 36,
     DEFINE_DCT2_P4_MATRIX 64 83 36]"

definition g_trCoreDCT2P8 :: "int list list list" where
  "g_trCoreDCT2P8 =
    [DEFINE_DCT2_P8_MATRIX 64 83 36 89 75 50 18,
     DEFINE_DCT2_P8_MATRIX 64 83 36 89 75 50 18]"

definition g_trCoreDCT2P16 :: "int list list list" where
  "g_trCoreDCT2P16 =
    [DEFINE_DCT2_P16_MATRIX 64 83 36 89 75 50 18 90 87 80 70 57 43 25 9,
     DEFINE_DCT2_P16_MATRIX 64 83 36 89 75 50 18 90 87 80 70 57 43 25 9]"

definition g_trCoreDCT2P32 :: "int list list list" where
  "g_trCoreDCT2P32 =
    [DEFINE_DCT2_P32_MATRIX 64 83 36 89 75 50 18 90 87 80 70 57 43 25 9 90 90 88 85 82 78 73 67 61 54
        46 38 31 22 13 4,
     DEFINE_DCT2_P32_MATRIX 64 83 36 89 75 50 18 90 87 80 70 57 43 25 9 90 90 88 85 82 78 73 67 61 54
        46 38 31 22 13 4]"

definition g_trCoreDCT2P64 :: "int list list list" where
  "g_trCoreDCT2P64 =
    [DEFINE_DCT2_P64_MATRIX 64 83 36 89 75 50 18 90 87 80 70 57 43 25 9 90 90 88 85 82 78 73 67 61 54
        46 38 31 22 13 4 91 90 90 90 88 87 86 84 83 81 79 77 73 71 69 65 62 59 56 52 48 44 41 37
        33 28 24 20 15 11 7 2,
     DEFINE_DCT2_P64_MATRIX 64 83 36 89 75 50 18 90 87 80 70 57 43 25 9 90 90 88 85 82 78 73 67 61 54
        46 38 31 22 13 4 91 90 90 90 88 87 86 84 83 81 79 77 73 71 69 65 62 59 56 52 48 44 41 37
        33 28 24 20 15 11 7 2]"

definition g_trCoreDCT8P4 :: "int list list list" where
  "g_trCoreDCT8P4 =
    [DEFINE_DCT8_P4_MATRIX 84 74 55 29,
     DEFINE_DCT8_P4_MATRIX 84 74 55 29]"

definition g_trCoreDCT8P8 :: "int list list list" where
  "g_trCoreDCT8P8 =
    [DEFINE_DCT8_P8_MATRIX 86 85 78 71 60 46 32 17,
     DEFINE_DCT8_P8_MATRIX 86 85 78 71 60 46 32 17]"

definition g_trCoreDCT8P16 :: "int list list list" where
  "g_trCoreDCT8P16 =
    [DEFINE_DCT8_P16_MATRIX 88 88 87 85 81 77 73 68 62 55 48 40 33 25 17 8,
     DEFINE_DCT8_P16_MATRIX 88 88 87 85 81 77 73 68 62 55 48 40 33 25 17 8]"

definition g_trCoreDCT8P32 :: "int list list list" where
  "g_trCoreDCT8P32 =
    [DEFINE_DCT8_P32_MATRIX 90 90 89 88 87 86 85 84 82 80 78 77 74 72 68 66 63 60 56 53 50 46 42 38 34
        30 26 21 17 13 9 4,
     DEFINE_DCT8_P32_MATRIX 90 90 89 88 87 86 85 84 82 80 78 77 74 72 68 66 63 60 56 53 50 46 42 38 34
        30 26 21 17 13 9 4]"

definition g_trCoreDST7P4 :: "int list list list" where
  "g_trCoreDST7P4 =
    [DEFINE_DST7_P4_MATRIX 29 55 74 84,
     DEFINE_DST7_P4_MATRIX 29 55 74 84]"

definition g_trCoreDST7P8 :: "int list list list" where
  "g_trCoreDST7P8 =
    [DEFINE_DST7_P8_MATRIX 17 32 46 60 71 78 85 86,
     DEFINE_DST7_P8_MATRIX 17 32 46 60 71 78 85 86]"

definition g_trCoreDST7P16 :: "int list list list" where
  "g_trCoreDST7P16 =
    [DEFINE_DST7_P16_MATRIX 8 17 25 33 40 48 55 62 68 73 77 81 85 87 88 88,
     DEFINE_DST7_P16_MATRIX 8 17 25 33 40 48 55 62 68 73 77 81 85 87 88 88]"

definition g_trCoreDST7P32 :: "int list list list" where
  "g_trCoreDST7P32 =
    [DEFINE_DST7_P32_MATRIX 4 9 13 17 21 26 30 34 38 42 46 50 53 56 60 63 66 68 72 74 77 78 80 82 84 85
        86 87 88 89 90 90,
     DEFINE_DST7_P32_MATRIX 4 9 13 17 21 26 30 34 38 42 46 50 53 56 60 63 66 68 72 74 77 78 80 82 84 85
        86 87 88 89 90 90]"

definition TRANSFORM_FORWARD :: nat where "TRANSFORM_FORWARD = 0"
definition TRANSFORM_INVERSE :: nat where "TRANSFORM_INVERSE = 1"

text \<open>\<open>iT = g_trCore...[direction][0]\<close>: a table as the code reads it, through a pointer to its first entry.\<close>

definition core :: "int list list list \<Rightarrow> nat \<Rightarrow> nat \<Rightarrow> int" where
  "core g dir i = concat (g ! dir) ! i"

section \<open>Shape and symmetries\<close>

definition square :: "nat \<Rightarrow> int list list \<Rightarrow> bool" where
  "square n T \<longleftrightarrow> length T = n \<and> list_all (\<lambda>r. length r = n) T"

text \<open>Rows alternate between symmetric and antisymmetric, and so do the left halves of the even rows.\<close>

fun bfly_rows :: "int list list \<Rightarrow> bool" where
  "bfly_rows (e # d # rs) \<longleftrightarrow> rev e = e \<and> rev d = map uminus d \<and> bfly_rows rs"
| "bfly_rows _ \<longleftrightarrow> True"

fun evens :: "'a list \<Rightarrow> 'a list" where
  "evens (e # d # rs) = e # evens rs"
| "evens _ = []"

fun bfly_levels :: "nat \<Rightarrow> int list list \<Rightarrow> bool" where
  "bfly_levels 0 T \<longleftrightarrow> True"
| "bfly_levels (Suc l) T \<longleftrightarrow> bfly_rows T \<and> bfly_levels l (map (\<lambda>r. take (length r div 2) r) (evens T))"

lemma squares:
  "square 2 (g_trCoreDCT2P2 ! 0)" "square 2 (g_trCoreDCT2P2 ! 1)"
  "square 4 (g_trCoreDCT2P4 ! 0)" "square 4 (g_trCoreDCT2P4 ! 1)"
  "square 8 (g_trCoreDCT2P8 ! 0)" "square 8 (g_trCoreDCT2P8 ! 1)"
  "square 16 (g_trCoreDCT2P16 ! 0)" "square 16 (g_trCoreDCT2P16 ! 1)"
  "square 32 (g_trCoreDCT2P32 ! 0)" "square 32 (g_trCoreDCT2P32 ! 1)"
  "square 64 (g_trCoreDCT2P64 ! 0)" "square 64 (g_trCoreDCT2P64 ! 1)"
  by code_simp+

lemma levels_DCT2:
  "bfly_levels 1 (g_trCoreDCT2P2 ! 0)" "bfly_levels 1 (g_trCoreDCT2P2 ! 1)"
  "bfly_levels 2 (g_trCoreDCT2P4 ! 0)" "bfly_levels 2 (g_trCoreDCT2P4 ! 1)"
  "bfly_levels 3 (g_trCoreDCT2P8 ! 0)" "bfly_levels 3 (g_trCoreDCT2P8 ! 1)"
  "bfly_levels 4 (g_trCoreDCT2P16 ! 0)" "bfly_levels 4 (g_trCoreDCT2P16 ! 1)"
  "bfly_levels 5 (g_trCoreDCT2P32 ! 0)" "bfly_levels 5 (g_trCoreDCT2P32 ! 1)"
  by code_simp+

lemma levels_DCT2P64: "bfly_levels 6 (g_trCoreDCT2P64 ! 0)" "bfly_levels 6 (g_trCoreDCT2P64 ! 1)"
  by code_simp+

definition bfly :: "nat \<Rightarrow> (nat \<Rightarrow> nat \<Rightarrow> int) \<Rightarrow> bool" where
  "bfly n m \<longleftrightarrow> (\<forall>k<n. \<forall>i<n. m (2 * k) (2 * n - 1 - i) = m (2 * k) i \<and>
                         m (2 * k + 1) (2 * n - 1 - i) = - m (2 * k + 1) i)"

lemma length_evens [simp]: "length (evens T) = length T div 2"
  by (induction T rule: evens.induct) auto

lemma nth_evens: "k < length T div 2 \<Longrightarrow> evens T ! k = T ! (2 * k)"
proof (induction T arbitrary: k rule: evens.induct)
  case (1 e d rs)
  then show ?case by (cases k) auto
qed auto

lemma bfly_rows_nth:
  "bfly_rows T \<Longrightarrow> Suc (2 * k) < length T \<Longrightarrow>
    rev (T ! (2 * k)) = T ! (2 * k) \<and> rev (T ! Suc (2 * k)) = map uminus (T ! Suc (2 * k))"
proof (induction T arbitrary: k rule: bfly_rows.induct)
  case (1 e d rs)
  then show ?case by (cases k) auto
qed auto

lemma squareD: "square n T \<Longrightarrow> length T = n" "square n T \<Longrightarrow> k < n \<Longrightarrow> length (T ! k) = n"
  by (auto simp: square_def list_all_iff)

lemma bfly_rows_bfly:
  assumes "bfly_rows T" "square (2 * n) T" shows "bfly n (\<lambda>k i. T ! k ! i)"
  unfolding bfly_def
proof (intro allI impI)
  fix k i assume k: "k < n" and i: "i < n"
  have r: "rev (T ! (2 * k)) = T ! (2 * k)" "rev (T ! Suc (2 * k)) = map uminus (T ! Suc (2 * k))"
    using bfly_rows_nth [OF assms(1), of k] squareD(1) [OF assms(2)] k by auto
  have l: "length (T ! (2 * k)) = 2 * n" "length (T ! Suc (2 * k)) = 2 * n"
    using squareD(2) [OF assms(2)] k by auto
  have e: "T ! (2 * k) ! (2 * n - 1 - i) = rev (T ! (2 * k)) ! i"
          "T ! Suc (2 * k) ! (2 * n - 1 - i) = rev (T ! Suc (2 * k)) ! i"
    using i by (simp_all add: rev_nth l)
  show "T ! (2 * k) ! (2 * n - 1 - i) = T ! (2 * k) ! i \<and>
        T ! (2 * k + 1) ! (2 * n - 1 - i) = - T ! (2 * k + 1) ! i"
    unfolding Suc_eq_plus1 [symmetric] e r using l i by simp
qed

lemma bfly_cong:
  "bfly n m \<Longrightarrow> (\<And>k i. k < 2 * n \<Longrightarrow> i < 2 * n \<Longrightarrow> m k i = m' k i) \<Longrightarrow> bfly n m'"
  by (auto simp: bfly_def)

lemma level_index:
  assumes "l < L" "k < 2 * 2 ^ (L - 1 - l)" shows "2 ^ l * k < (2::nat) ^ L" "k < 2 ^ L"
proof -
  have p: "2 ^ l * (2 * 2 ^ (L - 1 - l)) = (2 :: nat) ^ L"
    using assms(1) by (simp flip: power_add power_Suc)
  have "2 ^ l * k < 2 ^ l * (2 * 2 ^ (L - 1 - l))" using assms(2) by (intro mult_strict_left_mono) auto
  then show "2 ^ l * k < (2::nat) ^ L" by (simp only: p)
  moreover have "1 * k \<le> 2 ^ l * k" by (intro mult_right_mono) auto
  ultimately show "k < 2 ^ L" by linarith
qed

lemma bfly_levels_bfly:
  "bfly_levels L T \<Longrightarrow> square (2 ^ L) T \<Longrightarrow> l < L \<Longrightarrow> bfly (2 ^ (L - 1 - l)) (\<lambda>k i. T ! (2 ^ l * k) ! i)"
proof (induction L arbitrary: T l)
  case (Suc L)
  let ?H = "map (\<lambda>r. take (length r div 2) r) (evens T)"
  show ?case
  proof (cases l)
    case 0
    then show ?thesis using bfly_rows_bfly [of T "2 ^ L"] Suc.prems by simp
  next
    case (Suc l')
    have len: "length T = 2 * 2 ^ L" using squareD(1) [OF Suc.prems(2)] by simp
    have H: "?H ! k = take (2 ^ L) (T ! (2 * k))" if "k < 2 ^ L" for k
      using that squareD(2) [OF Suc.prems(2), of "2 * k"] by (simp add: nth_evens len)
    have sq: "square (2 ^ L) ?H"
      unfolding square_def list_all_length
    proof (intro conjI allI impI)
      show "length ?H = 2 ^ L" by (simp add: len)
      fix k assume k: "k < length ?H"
      then have k': "k < 2 ^ L" by (simp add: len)
      show "length (?H ! k) = 2 ^ L"
        using H [OF k'] squareD(2) [OF Suc.prems(2), of "2 * k"] k' by simp
    qed
    have "bfly (2 ^ (L - 1 - l')) (\<lambda>k i. ?H ! (2 ^ l' * k) ! i)"
      using Suc.IH [OF _ sq, of l'] Suc.prems Suc by simp
    then have "bfly (2 ^ (L - 1 - l')) (\<lambda>k i. T ! (2 ^ Suc l' * k) ! i)"
    proof (rule bfly_cong)
      fix k i :: nat
      assume k: "k < 2 * 2 ^ (L - 1 - l')" and i: "i < 2 * 2 ^ (L - 1 - l')"
      have "2 ^ l' * k < 2 ^ L" "i < 2 ^ L"
        using level_index [OF _ k] level_index(2) [OF _ i] Suc.prems(3) Suc by auto
      then show "?H ! (2 ^ l' * k) ! i = T ! (2 ^ Suc l' * k) ! i"
        using H [of "2 ^ l' * k"] by (simp add: mult.assoc)
    qed
    then show ?thesis by (simp add: Suc)
  qed
qed simp

lemma nth_concat_square:
  "list_all (\<lambda>r. length r = n) T \<Longrightarrow> k < length T \<Longrightarrow> i < n \<Longrightarrow> concat T ! (k * n + i) = T ! k ! i"
proof (induction T arbitrary: k)
  case (Cons r T)
  then show ?case by (cases k) (auto simp: nth_append)
qed simp

lemma core_square: "square n (g ! dir) \<Longrightarrow> k < n \<Longrightarrow> i < n \<Longrightarrow> core g dir (k * n + i) = g ! dir ! k ! i"
  by (simp add: core_def square_def nth_concat_square)

lemma core_bfly:
  assumes "bfly_levels L (g ! dir)" "square (2 ^ L) (g ! dir)" "l < L"
  shows "bfly (2 ^ (L - 1 - l)) (\<lambda>k i. core g dir (2 ^ l * k * 2 ^ L + i))"
proof (rule bfly_cong [OF bfly_levels_bfly [OF assms]])
  fix k i :: nat
  assume k: "k < 2 * 2 ^ (L - 1 - l)" and i: "i < 2 * 2 ^ (L - 1 - l)"
  then show "g ! dir ! (2 ^ l * k) ! i = core g dir (2 ^ l * k * 2 ^ L + i)"
    using core_square [OF assms(2) level_index(1) [OF assms(3) k] level_index(2) [OF assms(3) i]] by simp
qed

end
