(* ===== verification/Transform.thy ===== *)
theory Transform
  imports RomTr Contexts
begin

text \<open>
  The one-dimensional transforms of \<open>CommonLib/TrQuant_EMT.cpp\<close>.  A routine reads \<open>line\<close> vectors
  from \<open>src\<close> and stores the transformed vectors in \<open>dst\<close>, transposing on the way.  Its inner body is
  modelled as the list of the stores \<open>dst[k * line]\<close> (forward) or \<open>dst[k]\<close> (inverse) it makes for
  one vector, in the order of the source, as pairs of the index \<open>k\<close> and the sum before rounding; the
  loop that all routines share (pointer increments, rounding, shift, clipping, clearing of skipped
  lines) is modelled once.  \<open>TCoeff\<close> values are integers; the bounds that keep them in 32 bits are
  theorems.  The partial butterflies are proved equal to the plain matrix products
  \<open>forwardMatrixMult\<close> and \<open>inverseMatrixMult\<close> of the same file.
\<close>

section \<open>Sums, stores and the plain matrix products\<close>

definition isum :: "nat \<Rightarrow> (nat \<Rightarrow> int) \<Rightarrow> int" where
  "isum n f = sum_list (map f [0..<n])"

definition memset0 :: "nat \<Rightarrow> nat \<Rightarrow> int list \<Rightarrow> int list" where
  "memset0 off n dst = fold (\<lambda>i d. d[off + i := 0]) [0..<n] dst"

definition forwardMatrixMult ::
  "nat \<Rightarrow> int list \<Rightarrow> int list \<Rightarrow> nat \<Rightarrow> nat \<Rightarrow> nat \<Rightarrow> nat \<Rightarrow> (nat \<Rightarrow> int) \<Rightarrow> int list" where
  "forwardMatrixMult TR_SIZE src dst shift numInLines skipInLines skipOutLines m =
    (let rndFactor = 2 ^ (shift - 1);
         reducedLine = numInLines - skipInLines;
         cutoff = TR_SIZE - skipOutLines;
         dst = fold (\<lambda>j dst.
            let dst = fold (\<lambda>i dst.
                  let sum = isum TR_SIZE (\<lambda>k. src ! (i * TR_SIZE + k) * m (j * TR_SIZE + k))
                  in dst[j * numInLines + i := (sum + rndFactor) div 2 ^ shift]) [0..<reducedLine] dst
            in if skipInLines > 0 then memset0 (j * numInLines + reducedLine) skipInLines dst else dst)
          [0..<cutoff] dst
     in if skipOutLines > 0 then memset0 (cutoff * numInLines) (skipOutLines * numInLines) dst else dst)"

definition inverseMatrixMult ::
  "nat \<Rightarrow> int list \<Rightarrow> int list \<Rightarrow> nat \<Rightarrow> nat \<Rightarrow> nat \<Rightarrow> nat \<Rightarrow> int \<Rightarrow> int \<Rightarrow> (nat \<Rightarrow> int) \<Rightarrow> int list" where
  "inverseMatrixMult TR_SIZE src dst shift numOutLines skipOutLines skipInLines outputMinimum outputMaximum m =
    (let rndFactor = 2 ^ (shift - 1);
         reducedLine = numOutLines - skipOutLines;
         cutoff = TR_SIZE - skipInLines;
         dst = fold (\<lambda>i dst. fold (\<lambda>j dst.
                  let sum = isum cutoff (\<lambda>k. src ! (k * numOutLines + i) * m (k * TR_SIZE + j))
                  in dst[i * TR_SIZE + j :=
                       Clip3 outputMinimum outputMaximum ((sum + rndFactor) div 2 ^ shift)]) [0..<TR_SIZE] dst)
          [0..<reducedLine] dst
     in if skipOutLines > 0 then memset0 (reducedLine * TR_SIZE) (skipOutLines * TR_SIZE) dst else dst)"

section \<open>The loop of the fast routines\<close>

text \<open>\<open>upto_by a b s\<close> lists the values of \<open>k\<close> in \<open>for (k = a; k < b; k += s)\<close>.\<close>

definition upto_by :: "nat \<Rightarrow> nat \<Rightarrow> nat \<Rightarrow> nat list" where
  "upto_by a b s = map (\<lambda>i. a + i * s) [0..<(b - a + s - 1) div s]"

definition rnd :: "nat \<Rightarrow> int" where
  "rnd shift = (if shift > 0 then 2 ^ (shift - 1) else 0)"

definition fwd_store :: "nat \<Rightarrow> nat \<Rightarrow> int \<Rightarrow> nat \<Rightarrow> (nat \<times> int) list \<Rightarrow> int list \<Rightarrow> int list" where
  "fwd_store line j add shift stores dst =
    fold (\<lambda>(k, v) d. d[k * line + j := (v + add) div 2 ^ shift]) stores dst"

definition fwd_loop ::
  "nat \<Rightarrow> ((nat \<Rightarrow> int) \<Rightarrow> (nat \<times> int) list) \<Rightarrow> int list \<Rightarrow> int list \<Rightarrow> int \<Rightarrow> nat \<Rightarrow> nat \<Rightarrow> nat \<Rightarrow> int list" where
  "fwd_loop n body src dst add shift line reducedLine =
    fold (\<lambda>j d. fwd_store line j add shift (body (\<lambda>i. src ! (j * n + i))) d) [0..<reducedLine] dst"

definition fwd_clear :: "nat \<Rightarrow> nat \<Rightarrow> nat \<Rightarrow> nat \<Rightarrow> int list \<Rightarrow> int list" where
  "fwd_clear rows line reducedLine iSkipLine dst =
    (if iSkipLine \<noteq> 0
     then fold (\<lambda>k d. memset0 (reducedLine + k * line) iSkipLine d) [0..<rows] dst else dst)"

definition inv_store :: "nat \<Rightarrow> nat \<Rightarrow> int \<Rightarrow> nat \<Rightarrow> int \<Rightarrow> int \<Rightarrow> (nat \<times> int) list \<Rightarrow> int list \<Rightarrow> int list" where
  "inv_store n j add shift outputMinimum outputMaximum stores dst =
    fold (\<lambda>(k, v) d. d[j * n + k := Clip3 outputMinimum outputMaximum ((v + add) div 2 ^ shift)]) stores dst"

definition inv_loop ::
  "nat \<Rightarrow> ((nat \<Rightarrow> int) \<Rightarrow> (nat \<times> int) list) \<Rightarrow> int list \<Rightarrow> int list \<Rightarrow> int \<Rightarrow> nat \<Rightarrow> nat \<Rightarrow> nat \<Rightarrow> int \<Rightarrow> int \<Rightarrow> int list" where
  "inv_loop n body src dst add shift line reducedLine outputMinimum outputMaximum =
    fold (\<lambda>j d. inv_store n j add shift outputMinimum outputMaximum (body (\<lambda>r. src ! (r * line + j))) d)
      [0..<reducedLine] dst"

definition inv_clear :: "nat \<Rightarrow> nat \<Rightarrow> nat \<Rightarrow> int list \<Rightarrow> int list" where
  "inv_clear n reducedLine iSkipLine dst =
    (if iSkipLine \<noteq> 0 then memset0 (reducedLine * n) (iSkipLine * n) dst else dst)"

section \<open>Sums and butterflies\<close>

lemma isum_0 [simp]: "isum 0 f = 0" by (simp add: isum_def)
lemma isum_Suc: "isum (Suc n) f = isum n f + f n" by (simp add: isum_def)
lemma isum_cong [cong]: "n = n' \<Longrightarrow> (\<And>i. i < n' \<Longrightarrow> f i = g i) \<Longrightarrow> isum n f = isum n' g"
  by (auto simp: isum_def intro: arg_cong [of _ _ sum_list])
lemma isum_numeral: "isum (numeral k) f = isum (pred_numeral k) f + f (pred_numeral k)"
  by (simp add: numeral_eq_Suc isum_Suc)

lemma isum_eq_sum: "isum n f = (\<Sum>i<n. f i)"
  by (induction n) (simp_all add: isum_Suc)

lemma isum_add: "isum n (\<lambda>i. f i + g i) = isum n f + isum n g" by (simp add: isum_eq_sum sum.distrib)
lemma isum_diff: "isum n (\<lambda>i. f i - g i) = isum n f - isum n g" by (simp add: isum_eq_sum sum_subtractf)
lemma isum_uminus: "isum n (\<lambda>i. - f i) = - isum n f" by (simp add: isum_eq_sum sum_negf)

lemma isum_double: "isum (2 * n) f = isum n f + isum n (\<lambda>i. f (2 * n - 1 - i))"
proof -
  have "(\<Sum>i<2*n. f i) = (\<Sum>i<n. f i) + (\<Sum>i\<in>{n..<2*n}. f i)"
    by (subst sum.union_disjoint [symmetric]) (auto intro: sum.cong)
  also have "(\<Sum>i\<in>{n..<2*n}. f i) = (\<Sum>i<n. f (2 * n - 1 - i))"
    by (rule sum.reindex_bij_witness [where i = "\<lambda>i. 2 * n - 1 - i" and j = "\<lambda>i. 2 * n - 1 - i"]) auto
  finally show ?thesis by (simp add: isum_eq_sum)
qed

lemma isum_even_odd: "isum (2 * n) f = isum n (\<lambda>k. f (2 * k)) + isum n (\<lambda>k. f (2 * k + 1))"
  by (induction n) (simp_all add: isum_Suc)

text \<open>One step of the forward partial butterfly: even rows see the sums, odd rows the differences.\<close>

lemma fwd_even:
  assumes "bfly n m" "k < n"
  shows "isum (2 * n) (\<lambda>i. m (2 * k) i * s i) = isum n (\<lambda>i. m (2 * k) i * (s i + s (2 * n - 1 - i)))"
  unfolding isum_double using assms
  by (simp add: bfly_def distrib_left flip: isum_add)

lemma fwd_odd:
  assumes "bfly n m" "k < n"
  shows "isum (2 * n) (\<lambda>i. m (2 * k + 1) i * s i) = isum n (\<lambda>i. m (2 * k + 1) i * (s i - s (2 * n - 1 - i)))"
  unfolding isum_double using assms
  by (simp add: bfly_def right_diff_distrib flip: isum_diff isum_add)

text \<open>One step of the inverse: the two outputs mirrored at the middle share the even and the odd part.\<close>

lemma inv_lo:
  "isum (2 * n) (\<lambda>k. m k i * s k) = isum n (\<lambda>k. m (2 * k) i * s (2 * k)) + isum n (\<lambda>k. m (2 * k + 1) i * s (2 * k + 1))"
  by (rule isum_even_odd)

lemma inv_hi:
  assumes "bfly n m" "i < n"
  shows "isum (2 * n) (\<lambda>k. m k (2 * n - 1 - i) * s k) =
    isum n (\<lambda>k. m (2 * k) i * s (2 * k)) - isum n (\<lambda>k. m (2 * k + 1) i * s (2 * k + 1))"
  unfolding isum_even_odd using assms by (simp add: bfly_def isum_uminus)

section \<open>What the loops leave in memory\<close>

text \<open>A buffer of \<open>h\<close> rows of \<open>w\<close> entries, the entry \<open>c\<close> of row \<open>r\<close> at \<open>r * w + c\<close>.\<close>

lemma pos_eq [simp]:
  fixes r :: nat assumes "c < w" "c' < w" shows "r * w + c = r' * w + c' \<longleftrightarrow> r = r' \<and> c = c'"
proof
  assume "r * w + c = r' * w + c'"
  then have "(r * w + c) div w = (r' * w + c') div w" "(r * w + c) mod w = (r' * w + c') mod w" by simp_all
  then show "r = r' \<and> c = c'" using assms by simp
qed simp

lemma pos_less [simp]:
  fixes r :: nat assumes "r < h" "c < w" shows "r * w + c < h * w"
proof -
  have "r * w + c < Suc r * w" using assms(2) by simp
  also have "\<dots> \<le> h * w" using assms(1) by (intro mult_le_mono1) simp
  finally show ?thesis .
qed

lemma grid_eqI:
  assumes "length xs = h * w" "length ys = h * w"
    and "\<And>r c. r < h \<Longrightarrow> c < w \<Longrightarrow> xs ! (r * w + c) = ys ! (r * w + c)"
  shows "xs = ys"
proof (rule nth_equalityI)
  fix a assume a: "a < length xs"
  then have w: "0 < w" using assms(1) by (cases w) auto
  have "a div w < h" using a assms(1) w by (simp add: less_mult_imp_div_less)
  moreover have "a mod w < w" using w by simp
  ultimately have "xs ! (a div w * w + a mod w) = ys ! (a div w * w + a mod w)" by (rule assms(3))
  then show "xs ! a = ys ! a" by simp
qed (simp add: assms)

definition grid :: "nat \<Rightarrow> nat \<Rightarrow> (nat \<Rightarrow> nat \<Rightarrow> int) \<Rightarrow> int list" where
  "grid h w f = map (\<lambda>a. f (a div w) (a mod w)) [0..<h * w]"

lemma length_grid [simp]: "length (grid h w f) = h * w" by (simp add: grid_def)

lemma nth_grid [simp]: "r < h \<Longrightarrow> c < w \<Longrightarrow> grid h w f ! (r * w + c) = f r c"
  by (simp add: grid_def)

lemma length_fold_update: "(\<And>x d. length (f x d) = length d) \<Longrightarrow> length (fold f xs d) = length d"
  by (induction xs arbitrary: d) auto

lemma length_memset0 [simp]: "length (memset0 off n dst) = length dst"
  by (simp add: memset0_def length_fold_update)

lemma nth_memset0:
  "off + n \<le> length dst \<Longrightarrow> memset0 off n dst ! a = (if off \<le> a \<and> a < off + n then 0 else dst ! a)"
proof (induction n)
  case (Suc n)
  then show ?case unfolding memset0_def by (auto simp: nth_list_update length_fold_update)
qed (simp add: memset0_def)

lemma length_fwd_store [simp]: "length (fwd_store line j add shift b dst) = length dst"
  by (simp add: fwd_store_def length_fold_update split: prod.split)

lemma length_inv_store [simp]: "length (inv_store n j add shift lo hi b dst) = length dst"
  by (simp add: inv_store_def length_fold_update split: prod.split)

lemma length_fwd_loop [simp]: "length (fwd_loop n body src dst add shift line red) = length dst"
  by (simp add: fwd_loop_def length_fold_update)

lemma length_inv_loop [simp]: "length (inv_loop n body src dst add shift line red lo hi) = length dst"
  by (simp add: inv_loop_def length_fold_update)

lemma length_fwd_clear [simp]: "length (fwd_clear rows line red skip dst) = length dst"
  by (simp add: fwd_clear_def length_fold_update)

lemma length_inv_clear [simp]: "length (inv_clear n red skip dst) = length dst"
  by (simp add: inv_clear_def)

text \<open>\<open>stores n c b g\<close>: the stores \<open>b\<close> of one vector go to rows below \<open>n\<close>, carry the values \<open>g\<close>, and reach at
  least the first \<open>c\<close> rows.\<close>

definition stores :: "nat \<Rightarrow> nat \<Rightarrow> (nat \<times> int) list \<Rightarrow> (nat \<Rightarrow> int) \<Rightarrow> bool" where
  "stores n c b g \<longleftrightarrow> list_all (\<lambda>(k, v). k < n \<and> v = g k) b \<and> (\<forall>k<c. k \<in> fst ` set b)"

lemma storesI:
  assumes "list_all (\<lambda>(k, v). k < n \<and> v = g k) b" "map fst b = ks" "list_all (List.member ks) [0..<c]"
  shows "stores n c b g"
proof -
  have "fst ` set b = set ks" using assms(2) by (metis list.set_map)
  then show ?thesis using assms(1,3) by (auto simp: stores_def list_all_iff)
qed

lemma fwd_store_nth:
  assumes "list_all (\<lambda>(k, v). k < n \<and> v = g k) b" "length dst = n * line" "j < line" "r < n" "j' < line"
  shows "fwd_store line j add shift b dst ! (r * line + j') =
    (if j' = j \<and> r \<in> fst ` set b then (g r + add) div 2 ^ shift else dst ! (r * line + j'))"
  using assms(1)
proof (induction b rule: rev_induct)
  case (snoc x b)
  have k: "fst x < n" "snd x = g (fst x)" "list_all (\<lambda>(k, v). k < n \<and> v = g k) b" using snoc by auto
  have "fwd_store line j add shift (b @ [x]) dst =
      (fwd_store line j add shift b dst)[fst x * line + j := (snd x + add) div 2 ^ shift]"
    by (simp add: fwd_store_def split: prod.split)
  then show ?case
    using k snoc.IH [OF k(3)] assms(2-)
    by (cases "fst x = r"; cases "j' = j") (simp_all add: nth_list_update)
qed (simp add: fwd_store_def)

lemma inv_store_nth:
  assumes "list_all (\<lambda>(k, v). k < n \<and> v = g k) b" "length dst = line * n" "j < line" "r < line" "k < n"
  shows "inv_store n j add shift lo hi b dst ! (r * n + k) =
    (if r = j \<and> k \<in> fst ` set b then Clip3 lo hi ((g k + add) div 2 ^ shift) else dst ! (r * n + k))"
  using assms(1)
proof (induction b rule: rev_induct)
  case (snoc x b)
  have k: "fst x < n" "snd x = g (fst x)" "list_all (\<lambda>(k, v). k < n \<and> v = g k) b" using snoc by auto
  have "inv_store n j add shift lo hi (b @ [x]) dst =
      (inv_store n j add shift lo hi b dst)[j * n + fst x := Clip3 lo hi ((snd x + add) div 2 ^ shift)]"
    by (simp add: inv_store_def split: prod.split)
  then show ?case
    using k snoc.IH [OF k(3)] assms(2-)
    by (cases "fst x = k"; cases "r = j") (simp_all add: nth_list_update)
qed (simp add: inv_store_def)

lemma fwd_loop_nth:
  assumes "\<And>j. j < red \<Longrightarrow> stores n c (body (\<lambda>i. src ! (j * n + i))) (g j)"
    and "length dst = n * line" "red \<le> line" "c \<le> n" "r < c" "j < line"
  shows "fwd_loop n body src dst add shift line red ! (r * line + j) =
    (if j < red then (g j r + add) div 2 ^ shift else dst ! (r * line + j))"
  using assms(1,3)
proof (induction red)
  case (Suc red)
  have s: "stores n c (body (\<lambda>i. src ! (red * n + i))) (g red)" using Suc.prems by simp
  let ?d = "fwd_loop n body src dst add shift line red"
  have "fwd_loop n body src dst add shift line (Suc red) =
      fwd_store line red add shift (body (\<lambda>i. src ! (red * n + i))) ?d"
    by (simp add: fwd_loop_def)
  then show ?case
    using Suc fwd_store_nth [where g = "g red" and n = n and b = "body (\<lambda>i. src ! (red * n + i))" and dst = ?d]
      s assms(2-) by (auto simp: stores_def less_Suc_eq)
qed (simp add: fwd_loop_def)

lemma inv_loop_nth:
  assumes "\<And>j. j < red \<Longrightarrow> stores n n (body (\<lambda>r. src ! (r * line + j))) (g j)"
    and "length dst = line * n" "red \<le> line" "r < line" "k < n"
  shows "inv_loop n body src dst add shift line red lo hi ! (r * n + k) =
    (if r < red then Clip3 lo hi ((g r k + add) div 2 ^ shift) else dst ! (r * n + k))"
  using assms(1,3)
proof (induction red)
  case (Suc red)
  have s: "stores n n (body (\<lambda>r. src ! (r * line + red))) (g red)" using Suc.prems by simp
  let ?d = "inv_loop n body src dst add shift line red lo hi"
  have "inv_loop n body src dst add shift line (Suc red) lo hi =
      inv_store n red add shift lo hi (body (\<lambda>r. src ! (r * line + red))) ?d"
    by (simp add: inv_loop_def)
  then show ?case
    using Suc inv_store_nth [where g = "g red" and n = n and b = "body (\<lambda>r. src ! (r * line + red))" and dst = ?d]
      s assms(2-) by (auto simp: stores_def less_Suc_eq)
qed (simp add: inv_loop_def)

definition fwd_clear_rows :: "nat \<Rightarrow> nat \<Rightarrow> nat \<Rightarrow> int list \<Rightarrow> int list" where
  "fwd_clear_rows cutoff line iSkipLine2 dst =
    (if iSkipLine2 \<noteq> 0 then memset0 (line * cutoff) (line * iSkipLine2) dst else dst)"

lemma length_fwd_clear_rows [simp]: "length (fwd_clear_rows cutoff line skip2 dst) = length dst"
  by (simp add: fwd_clear_rows_def)

lemma nth_fwd_clear:
  assumes "length dst = n * line" "rows \<le> n" "red + skip = line" "r < n" "j < line"
  shows "fwd_clear rows line red skip dst ! (r * line + j) =
    (if r < rows \<and> red \<le> j then 0 else dst ! (r * line + j))"
proof (cases "skip = 0")
  case False
  have "fold (\<lambda>k d. memset0 (red + k * line) skip d) [0..<rows] dst ! (r * line + j) =
    (if r < rows \<and> red \<le> j then 0 else dst ! (r * line + j))" using assms(2)
  proof (induction rows)
    case (Suc rows)
    let ?d = "fold (\<lambda>k d. memset0 (red + k * line) skip d) [0..<rows] dst"
    have "rows * line + red + skip \<le> n * line"
      using Suc.prems assms(3) mult_le_mono1 [of "Suc rows" n line] by simp
    then have l: "red + rows * line + skip \<le> length ?d" by (simp add: length_fold_update assms(1))
    have iff: "red + rows * line \<le> r * line + j \<and> r * line + j < red + rows * line + skip \<longleftrightarrow> r = rows \<and> red \<le> j"
    proof
      assume a: "red + rows * line \<le> r * line + j \<and> r * line + j < red + rows * line + skip"
      then have "r * line + j < Suc rows * line" using assms(3) by simp
      then have "r < Suc rows" using assms(5) by (metis add_lessD1 mult_less_cancel2)
      moreover have "rows < Suc r"
      proof (rule ccontr)
        assume "\<not> rows < Suc r"
        then have "Suc r * line \<le> rows * line" by (intro mult_le_mono1) simp
        then show False using a assms(5) by simp
      qed
      ultimately show "r = rows \<and> red \<le> j" using a by (cases "r = rows") auto
    qed (use assms in auto)
    show ?case using Suc nth_memset0 [OF l, of "r * line + j"] iff by (auto simp: less_Suc_eq)
  qed simp
  then show ?thesis using False by (simp add: fwd_clear_def)
qed (use assms in \<open>auto simp: fwd_clear_def\<close>)

lemma row_le_iff: "j < line \<Longrightarrow> c * line \<le> r * line + j \<longleftrightarrow> c \<le> (r::nat)"
proof
  assume j: "j < line" and le: "c * line \<le> r * line + j"
  then have "c * line < Suc r * line" by simp
  then show "c \<le> r" using j by (simp only: mult_less_cancel2) simp
qed (simp add: trans_le_add1)

lemma nth_fwd_clear_rows:
  assumes "length dst = n * line" "cutoff + skip2 = n" "r < n" "j < line"
  shows "fwd_clear_rows cutoff line skip2 dst ! (r * line + j) = (if cutoff \<le> r then 0 else dst ! (r * line + j))"
proof -
  have l: "line * cutoff + line * skip2 = length dst"
    unfolding assms(1) assms(2) [symmetric] by (simp add: algebra_simps)
  have "r * line + j < length dst" using assms by simp
  then show ?thesis using assms row_le_iff [OF assms(4), of cutoff r] l
    by (auto simp: fwd_clear_rows_def nth_memset0 mult.commute [of line])
qed

lemma nth_inv_clear:
  assumes "length dst = line * n" "red + skip = line" "r < line" "k < n"
  shows "inv_clear n red skip dst ! (r * n + k) = (if red \<le> r then 0 else dst ! (r * n + k))"
proof -
  have l: "red * n + skip * n = length dst"
    unfolding assms(1) assms(2) [symmetric] by (simp add: algebra_simps)
  have "r * n + k < length dst" using assms by simp
  then show ?thesis using assms row_le_iff [OF assms(4), of red r] l
    by (auto simp: inv_clear_def nth_memset0)
qed

section \<open>The rounded matrix product\<close>

text \<open>
  What a one-dimensional transform promises: coefficient \<open>k\<close> of vector \<open>j\<close> is the rounded and scaled
  inner product of the vector with row (inverse: column) \<open>k\<close> of the matrix, and the skipped part of
  the output is zero.
\<close>

definition fwd_product :: "nat \<Rightarrow> int list \<Rightarrow> nat \<Rightarrow> nat \<Rightarrow> nat \<Rightarrow> nat \<Rightarrow> (nat \<Rightarrow> int) \<Rightarrow> int list" where
  "fwd_product n src shift line skip skip2 m =
    grid n line (\<lambda>k j. if k < n - skip2 \<and> j < line - skip
      then (isum n (\<lambda>i. src ! (j * n + i) * m (k * n + i)) + rnd shift) div 2 ^ shift else 0)"

definition inv_product ::
  "nat \<Rightarrow> int list \<Rightarrow> nat \<Rightarrow> nat \<Rightarrow> nat \<Rightarrow> nat \<Rightarrow> int \<Rightarrow> int \<Rightarrow> (nat \<Rightarrow> int) \<Rightarrow> int list" where
  "inv_product n src shift line skip skip2 lo hi m =
    grid line n (\<lambda>j k. if j < line - skip
      then Clip3 lo hi ((isum (n - skip2) (\<lambda>r. src ! (r * line + j) * m (r * n + k)) + rnd shift) div 2 ^ shift)
      else 0)"

lemma fwd_routine:
  assumes st: "\<And>j. j < line - skip \<Longrightarrow>
      stores n (n - skip2) (body (\<lambda>i. src ! (j * n + i))) (\<lambda>k. isum n (\<lambda>i. src ! (j * n + i) * m (k * n + i)))"
    and "length dst = n * line" "skip \<le> line" "skip2 \<le> n" "n - skip2 \<le> rows" "rows \<le> n" "add = rnd shift"
  shows "fwd_clear_rows (n - skip2) line skip2
      (fwd_clear rows line (line - skip) skip (fwd_loop n body src dst add shift line (line - skip))) =
    fwd_product n src shift line skip skip2 m"
proof (rule grid_eqI [where h = n and w = line])
  fix r j assume r: "r < n" and j: "j < line"
  let ?L = "fwd_loop n body src dst add shift line (line - skip)"
  let ?C = "fwd_clear rows line (line - skip) skip ?L"
  show "fwd_clear_rows (n - skip2) line skip2 ?C ! (r * line + j) = fwd_product n src shift line skip skip2 m ! (r * line + j)"
  proof (cases "r < n - skip2")
    case True
    have "?L ! (r * line + j) = (if j < line - skip
        then (isum n (\<lambda>i. src ! (j * n + i) * m (r * n + i)) + add) div 2 ^ shift else dst ! (r * line + j))"
      by (rule fwd_loop_nth [where g = "\<lambda>j k. isum n (\<lambda>i. src ! (j * n + i) * m (k * n + i))", OF _ assms(2)])
        (use assms True j in auto)
    then show ?thesis using assms r j True
      by (simp add: nth_fwd_clear_rows nth_fwd_clear fwd_product_def)
  next
    case False
    then show ?thesis using assms r j by (simp add: nth_fwd_clear_rows fwd_product_def)
  qed
qed (simp_all add: assms fwd_product_def)

lemma inv_routine:
  assumes st: "\<And>j. j < line - skip \<Longrightarrow>
      stores n n (body (\<lambda>r. src ! (r * line + j)))
        (\<lambda>k. isum (n - skip2) (\<lambda>r. src ! (r * line + j) * m (r * n + k)))"
    and "length dst = line * n" "skip \<le> line" "add = rnd shift"
  shows "inv_clear n (line - skip) skip (inv_loop n body src dst add shift line (line - skip) lo hi) =
    inv_product n src shift line skip skip2 lo hi m"
proof (rule grid_eqI [where h = line and w = n])
  fix r k assume r: "r < line" and k: "k < n"
  let ?L = "inv_loop n body src dst add shift line (line - skip) lo hi"
  have "?L ! (r * n + k) = (if r < line - skip
      then Clip3 lo hi ((isum (n - skip2) (\<lambda>i. src ! (i * line + r) * m (i * n + k)) + add) div 2 ^ shift)
      else dst ! (r * n + k))"
    by (rule inv_loop_nth [where g = "\<lambda>j k. isum (n - skip2) (\<lambda>r. src ! (r * line + j) * m (r * n + k))",
          OF _ assms(2)]) (use assms r k in auto)
  then show "inv_clear n (line - skip) skip ?L ! (r * n + k) = inv_product n src shift line skip skip2 lo hi m ! (r * n + k)"
    using assms r k by (simp add: nth_inv_clear inv_product_def)
qed (simp_all add: assms inv_product_def)

lemma nth_row_fill:
  assumes "length dst = h * w" "j < h" "red \<le> w" "r < h" "c < w"
  shows "fold (\<lambda>i d. d[j * w + i := f i]) [0..<red] dst ! (r * w + c) =
    (if r = j \<and> c < red then f c else dst ! (r * w + c))"
  using assms(3)
proof (induction red)
  case (Suc red)
  then show ?case using assms
    by (cases "r = j"; cases "c = red") (simp_all add: nth_list_update length_fold_update)
qed simp

lemma nth_row_clear:
  assumes "length dst = h * w" "j < h" "red + skip = w" "r < h" "c < w"
  shows "memset0 (j * w + red) skip dst ! (r * w + c) = (if r = j \<and> red \<le> c then 0 else dst ! (r * w + c))"
proof -
  have "j * w + red + skip = Suc j * w" using assms(3) by simp
  also have "\<dots> \<le> h * w" using assms(2) by (intro mult_le_mono1) simp
  finally have l: "j * w + red + skip \<le> length dst" using assms(1) by simp
  have "j * w + red \<le> r * w + c \<and> r * w + c < j * w + red + skip \<longleftrightarrow> r = j \<and> red \<le> c"
    using row_le_iff [OF assms(5), of j r] row_le_iff [OF assms(5), of "Suc j" r] assms(3,5)
    by (cases "r = j") auto
  then show ?thesis using nth_memset0 [OF l] by simp
qed

lemma forwardMatrixMult_product:
  assumes "length dst = n * line" "skip \<le> line" "skip2 \<le> n" "0 < shift"
  shows "forwardMatrixMult n src dst shift line skip skip2 m = fwd_product n src shift line skip skip2 m"
proof -
  let ?f = "\<lambda>j i. (isum n (\<lambda>k. src ! (i * n + k) * m (j * n + k)) + 2 ^ (shift - 1)) div 2 ^ shift"
  let ?row = "\<lambda>j dst. let dst = fold (\<lambda>i d. d[j * line + i := ?f j i]) [0..<line - skip] dst
     in if skip > 0 then memset0 (j * line + (line - skip)) skip dst else dst"
  let ?D = "\<lambda>c. fold ?row [0..<c] dst"
  have len: "length (?D c) = n * line" for c
    by (subst length_fold_update) (simp_all add: Let_def length_fold_update assms(1))
  have rows: "?D c ! (r * line + j) =
      (if r < c then if j < line - skip then ?f r j else 0 else dst ! (r * line + j))"
    if "c \<le> n" "r < n" "j < line" for c r j
    using that(1)
  proof (induction c)
    case (Suc c)
    let ?E = "fold (\<lambda>i d. d[c * line + i := ?f c i]) [0..<line - skip] (?D c)"
    have lE: "length ?E = n * line" by (subst length_fold_update) (simp, rule len)
    have c: "c < n" "line - skip \<le> line" "line - skip + skip = line" using Suc.prems assms(2) by auto
    have E: "?E ! (r * line + j) = (if r = c \<and> j < line - skip then ?f c j else ?D c ! (r * line + j))"
      by (rule nth_row_fill [OF len c(1,2) that(2,3)])
    have M: "memset0 (c * line + (line - skip)) skip ?E ! (r * line + j) =
        (if r = c \<and> line - skip \<le> j then 0 else ?E ! (r * line + j))"
      by (rule nth_row_clear [OF lE c(1,3) that(2,3)])
    have IH: "?D c ! (r * line + j) =
        (if r < c then if j < line - skip then ?f r j else 0 else dst ! (r * line + j))"
      using Suc by simp
    have D: "?D (Suc c) = (if skip > 0 then memset0 (c * line + (line - skip)) skip ?E else ?E)"
      by (simp add: Let_def)
    show ?case
    proof (cases "skip > 0")
      case True
      have S: "?D (Suc c) = memset0 (c * line + (line - skip)) skip ?E" by (rule trans [OF D if_P [OF True]])
      show ?thesis unfolding S M E IH by (auto simp: less_Suc_eq)
    next
      case False
      have S: "?D (Suc c) = ?E" by (rule trans [OF D if_not_P [OF False]])
      show ?thesis unfolding S E IH using False that(3) by (auto simp: less_Suc_eq)
    qed
  qed simp
  have eq: "forwardMatrixMult n src dst shift line skip skip2 m = fwd_clear_rows (n - skip2) line skip2 (?D (n - skip2))"
    by (simp add: forwardMatrixMult_def fwd_clear_rows_def Let_def mult.commute)
  show ?thesis unfolding eq
  proof (rule grid_eqI [where h = n and w = line])
    fix r j assume "r < n" "j < line"
    then show "fwd_clear_rows (n - skip2) line skip2 (?D (n - skip2)) ! (r * line + j) =
        fwd_product n src shift line skip skip2 m ! (r * line + j)"
      using nth_fwd_clear_rows [OF len, of "n - skip2" skip2 r j] rows [of "n - skip2" r j] assms
      by (simp add: fwd_product_def rnd_def)
  qed (simp_all only: len fwd_product_def length_fwd_clear_rows length_grid)
qed

lemma inverseMatrixMult_product:
  assumes "length dst = line * n" "skip \<le> line" "0 < shift"
  shows "inverseMatrixMult n src dst shift line skip skip2 lo hi m = inv_product n src shift line skip skip2 lo hi m"
proof -
  let ?f = "\<lambda>i j. Clip3 lo hi ((isum (n - skip2) (\<lambda>k. src ! (k * line + i) * m (k * n + j)) + 2 ^ (shift - 1)) div 2 ^ shift)"
  let ?D = "\<lambda>c. fold (\<lambda>i d. fold (\<lambda>j d. d[i * n + j := ?f i j]) [0..<n] d) [0..<c] dst"
  have len: "length (?D c) = line * n" for c
    using assms(1) by (simp add: length_fold_update)
  have rows: "?D c ! (r * n + k) = (if r < c then ?f r k else dst ! (r * n + k))"
    if "c \<le> line" "r < line" "k < n" for c r k
    using that(1)
  proof (induction c)
    case (Suc c)
    then show ?case using nth_row_fill [OF len [of c], of c n r k "?f c"] that(2,3) by (simp add: less_Suc_eq)
  qed simp
  have eq: "inverseMatrixMult n src dst shift line skip skip2 lo hi m = inv_clear n (line - skip) skip (?D (line - skip))"
    by (simp add: inverseMatrixMult_def inv_clear_def Let_def)
  show ?thesis unfolding eq
  proof (rule grid_eqI [where h = line and w = n])
    fix r k assume "r < line" "k < n"
    then show "inv_clear n (line - skip) skip (?D (line - skip)) ! (r * n + k) =
        inv_product n src shift line skip skip2 lo hi m ! (r * n + k)"
      using nth_inv_clear [OF len, of "line - skip" skip r k] rows [of "line - skip" r k] assms
      by (simp add: inv_product_def rnd_def)
  qed (simp_all only: len inv_product_def length_inv_clear length_grid)
qed

end
