(* ===== verification/FastDct2.thy ===== *)
theory FastDct2
  imports Transform
begin

text \<open>
  The fast DCT-II routines of \<open>CommonLib/TrQuant_EMT.cpp\<close>: for every size the partial butterfly body
  of the forward and of the inverse routine, and the routine around it.  They are proved equal to the
  plain matrix products with the tables of \<open>RomTr\<close>, whatever lines the caller skips.
\<close>

section \<open>The forward routines\<close>

definition fwdDCT2_B2_body :: "(nat \<Rightarrow> int) \<Rightarrow> (nat \<Rightarrow> int) \<Rightarrow> (nat \<times> int) list" where
  "fwdDCT2_B2_body iT src =
    (let E = src 0 + src 1;
         O' = src 0 - src 1
     in [(0, iT 0 * E), (1, iT 2 * O')])"

definition fastForwardDCT2_B2 :: "int list \<Rightarrow> int list \<Rightarrow> nat \<Rightarrow> nat \<Rightarrow> nat \<Rightarrow> nat \<Rightarrow> int list" where
  "fastForwardDCT2_B2 src dst shift line iSkipLine iSkipLine2 =
    (let iT = core g_trCoreDCT2P2 TRANSFORM_FORWARD;
         reducedLine = line - iSkipLine
     in fwd_clear 2 line reducedLine iSkipLine
          (fwd_loop 2 (fwdDCT2_B2_body iT) src dst (rnd shift) shift line reducedLine))"

definition fwdDCT2_B4_body :: "(nat \<Rightarrow> int) \<Rightarrow> (nat \<Rightarrow> int) \<Rightarrow> (nat \<times> int) list" where
  "fwdDCT2_B4_body iT src =
    (let E0 = src 0 + src 3;
         O0 = src 0 - src 3;
         E1 = src 1 + src 2;
         O1 = src 1 - src 2
     in [(0, iT 0 * E0 + iT 1 * E1),
         (2, iT 8 * E0 + iT 9 * E1),
         (1, iT 4 * O0 + iT 5 * O1),
         (3, iT 12 * O0 + iT 13 * O1)])"

definition fastForwardDCT2_B4 :: "int list \<Rightarrow> int list \<Rightarrow> nat \<Rightarrow> nat \<Rightarrow> nat \<Rightarrow> nat \<Rightarrow> int list" where
  "fastForwardDCT2_B4 src dst shift line iSkipLine iSkipLine2 =
    (let iT = core g_trCoreDCT2P4 TRANSFORM_FORWARD;
         reducedLine = line - iSkipLine
     in fwd_clear 4 line reducedLine iSkipLine
          (fwd_loop 4 (fwdDCT2_B4_body iT) src dst (rnd shift) shift line reducedLine))"

definition fwdDCT2_B8_body :: "(nat \<Rightarrow> int) \<Rightarrow> (nat \<Rightarrow> int) \<Rightarrow> (nat \<times> int) list" where
  "fwdDCT2_B8_body iT src =
    (let E = (\<lambda>k. src k + src (7 - k));
         O' = (\<lambda>k. src k - src (7 - k));
         EE0 = E 0 + E 3;
         EO0 = E 0 - E 3;
         EE1 = E 1 + E 2;
         EO1 = E 1 - E 2
     in [(0, iT 0 * EE0 + iT 1 * EE1),
         (4, iT 32 * EE0 + iT 33 * EE1),
         (2, iT 16 * EO0 + iT 17 * EO1),
         (6, iT 48 * EO0 + iT 49 * EO1),
         (1, iT 8 * O' 0 + iT 9 * O' 1 + iT 10 * O' 2 + iT 11 * O' 3),
         (3, iT 24 * O' 0 + iT 25 * O' 1 + iT 26 * O' 2 + iT 27 * O' 3),
         (5, iT 40 * O' 0 + iT 41 * O' 1 + iT 42 * O' 2 + iT 43 * O' 3),
         (7, iT 56 * O' 0 + iT 57 * O' 1 + iT 58 * O' 2 + iT 59 * O' 3)])"

definition fastForwardDCT2_B8 :: "int list \<Rightarrow> int list \<Rightarrow> nat \<Rightarrow> nat \<Rightarrow> nat \<Rightarrow> nat \<Rightarrow> int list" where
  "fastForwardDCT2_B8 src dst shift line iSkipLine iSkipLine2 =
    (let iT = core g_trCoreDCT2P8 TRANSFORM_FORWARD;
         reducedLine = line - iSkipLine
     in fwd_clear 8 line reducedLine iSkipLine
          (fwd_loop 8 (fwdDCT2_B8_body iT) src dst (rnd shift) shift line reducedLine))"

text \<open>From size 16 on the sums over an array \<open>X\<close> of size \<open>c\<close>, written out in the source, are
  \<open>dotrow iT N k c X\<close>, the sum of \<open>iT[k * N + i] * X[i]\<close>.\<close>

definition dotrow :: "(nat \<Rightarrow> int) \<Rightarrow> nat \<Rightarrow> nat \<Rightarrow> nat \<Rightarrow> (nat \<Rightarrow> int) \<Rightarrow> int" where
  "dotrow iT n k c X = isum c (\<lambda>i. iT (k * n + i) * X i)"

definition fwdDCT2_B16_body :: "(nat \<Rightarrow> int) \<Rightarrow> (nat \<Rightarrow> int) \<Rightarrow> (nat \<times> int) list" where
  "fwdDCT2_B16_body iT src =
    (let E = (\<lambda>k. src k + src (15 - k));
         O' = (\<lambda>k. src k - src (15 - k));
         EE = (\<lambda>k. E k + E (7 - k));
         EO = (\<lambda>k. E k - E (7 - k));
         EEE = (\<lambda>k. EE k + EE (3 - k));
         EEO = (\<lambda>k. EE k - EE (3 - k))
     in [(0, dotrow iT 16 0 2 EEE), (8, dotrow iT 16 8 2 EEE),
         (4, dotrow iT 16 4 2 EEO), (12, dotrow iT 16 12 2 EEO)]
        @ map (\<lambda>k. (k, dotrow iT 16 k 4 EO)) (upto_by 2 16 4)
        @ map (\<lambda>k. (k, dotrow iT 16 k 8 O')) (upto_by 1 16 2))"

definition fastForwardDCT2_B16 :: "int list \<Rightarrow> int list \<Rightarrow> nat \<Rightarrow> nat \<Rightarrow> nat \<Rightarrow> nat \<Rightarrow> int list" where
  "fastForwardDCT2_B16 src dst shift line iSkipLine iSkipLine2 =
    (let iT = core g_trCoreDCT2P16 TRANSFORM_FORWARD;
         reducedLine = line - iSkipLine
     in fwd_clear 16 line reducedLine iSkipLine
          (fwd_loop 16 (fwdDCT2_B16_body iT) src dst (rnd shift) shift line reducedLine))"

definition fwdDCT2_B32_body :: "(nat \<Rightarrow> int) \<Rightarrow> (nat \<Rightarrow> int) \<Rightarrow> (nat \<times> int) list" where
  "fwdDCT2_B32_body iT src =
    (let E = (\<lambda>k. src k + src (31 - k));
         O' = (\<lambda>k. src k - src (31 - k));
         EE = (\<lambda>k. E k + E (15 - k));
         EO = (\<lambda>k. E k - E (15 - k));
         EEE = (\<lambda>k. EE k + EE (7 - k));
         EEO = (\<lambda>k. EE k - EE (7 - k));
         EEEE = (\<lambda>k. EEE k + EEE (3 - k));
         EEEO = (\<lambda>k. EEE k - EEE (3 - k))
     in [(0, dotrow iT 32 0 2 EEEE), (16, dotrow iT 32 16 2 EEEE),
         (8, dotrow iT 32 8 2 EEEO), (24, dotrow iT 32 24 2 EEEO)]
        @ map (\<lambda>k. (k, dotrow iT 32 k 4 EEO)) (upto_by 4 32 8)
        @ map (\<lambda>k. (k, dotrow iT 32 k 8 EO)) (upto_by 2 32 4)
        @ map (\<lambda>k. (k, dotrow iT 32 k 16 O')) (upto_by 1 32 2))"

definition fastForwardDCT2_B32 :: "int list \<Rightarrow> int list \<Rightarrow> nat \<Rightarrow> nat \<Rightarrow> nat \<Rightarrow> nat \<Rightarrow> int list" where
  "fastForwardDCT2_B32 src dst shift line iSkipLine iSkipLine2 =
    (let iT = core g_trCoreDCT2P32 TRANSFORM_FORWARD;
         reducedLine = line - iSkipLine
     in fwd_clear 32 line reducedLine iSkipLine
          (fwd_loop 32 (fwdDCT2_B32_body iT) src dst (rnd shift) shift line reducedLine))"

text \<open>The routine of size 64 leaves out the upper half of the coefficients when \<open>zo\<close> is set.\<close>

definition fwdDCT2_B64_body :: "(nat \<Rightarrow> int) \<Rightarrow> bool \<Rightarrow> (nat \<Rightarrow> int) \<Rightarrow> (nat \<times> int) list" where
  "fwdDCT2_B64_body iT zo src =
    (let E = (\<lambda>k. src k + src (63 - k));
         O' = (\<lambda>k. src k - src (63 - k));
         EE = (\<lambda>k. E k + E (31 - k));
         EO = (\<lambda>k. E k - E (31 - k));
         EEE = (\<lambda>k. EE k + EE (15 - k));
         EEO = (\<lambda>k. EE k - EE (15 - k));
         EEEE = (\<lambda>k. EEE k + EEE (7 - k));
         EEEO = (\<lambda>k. EEE k - EEE (7 - k));
         EEEEE = (\<lambda>k. EEEE k + EEEE (3 - k));
         EEEEO = (\<lambda>k. EEEE k - EEEE (3 - k));
         top = (if zo then 32 else 64)
     in [(0, dotrow iT 64 0 2 EEEEE), (16, dotrow iT 64 16 2 EEEEO)]
        @ (if \<not> zo then [(32, dotrow iT 64 32 2 EEEEE), (48, dotrow iT 64 48 2 EEEEO)] else [])
        @ map (\<lambda>k. (k, dotrow iT 64 k 4 EEEO)) (upto_by 8 top 16)
        @ map (\<lambda>k. (k, dotrow iT 64 k 8 EEO)) (upto_by 4 top 8)
        @ map (\<lambda>k. (k, dotrow iT 64 k 16 EO)) (upto_by 2 top 4)
        @ map (\<lambda>k. (k, dotrow iT 64 k 32 O')) (upto_by 1 top 2))"

definition fastForwardDCT2_B64 :: "int list \<Rightarrow> int list \<Rightarrow> nat \<Rightarrow> nat \<Rightarrow> nat \<Rightarrow> nat \<Rightarrow> int list" where
  "fastForwardDCT2_B64 src dst shift line iSkipLine iSkipLine2 =
    (let rnd_factor = 2 ^ (shift - 1);
         iT = core g_trCoreDCT2P64 TRANSFORM_FORWARD;
         zo = (iSkipLine2 \<noteq> 0);
         reducedLine = line - iSkipLine;
         cutoff = 64 - iSkipLine2
     in fwd_clear_rows cutoff line iSkipLine2
          (fwd_clear cutoff line reducedLine iSkipLine
            (fwd_loop 64 (fwdDCT2_B64_body iT zo) src dst rnd_factor shift line reducedLine)))"

section \<open>The inverse routines\<close>

text \<open>\<open>dotcol iT N a st c k src\<close> is the sum, written out in the source, of \<open>iT[r * N + k] * src[r * line]\<close>
  over \<open>r = a, a + st, ...\<close> (\<open>c\<close> terms).\<close>

definition dotcol :: "(nat \<Rightarrow> int) \<Rightarrow> nat \<Rightarrow> nat \<Rightarrow> nat \<Rightarrow> nat \<Rightarrow> nat \<Rightarrow> (nat \<Rightarrow> int) \<Rightarrow> int" where
  "dotcol iT n a st c k src = isum c (\<lambda>q. iT ((a + st * q) * n + k) * src (a + st * q))"

definition invDCT2_B2_body :: "(nat \<Rightarrow> int) \<Rightarrow> (nat \<Rightarrow> int) \<Rightarrow> (nat \<times> int) list" where
  "invDCT2_B2_body iT src =
    (let E = iT 0 * (src 0 + src 1);
         O' = iT 2 * (src 0 - src 1)
     in [(0, E), (1, O')])"

definition fastInverseDCT2_B2 :: "int list \<Rightarrow> int list \<Rightarrow> nat \<Rightarrow> nat \<Rightarrow> nat \<Rightarrow> nat \<Rightarrow> int \<Rightarrow> int \<Rightarrow> int list" where
  "fastInverseDCT2_B2 src dst shift line iSkipLine iSkipLine2 outputMinimum outputMaximum =
    (let add = 2 ^ (shift - 1);
         iT = core g_trCoreDCT2P2 TRANSFORM_INVERSE;
         reducedLine = line - iSkipLine
     in inv_clear 2 reducedLine iSkipLine
          (inv_loop 2 (invDCT2_B2_body iT) src dst add shift line reducedLine outputMinimum outputMaximum))"

definition invDCT2_B4_body :: "(nat \<Rightarrow> int) \<Rightarrow> (nat \<Rightarrow> int) \<Rightarrow> (nat \<times> int) list" where
  "invDCT2_B4_body iT src =
    (let O0 = iT (1 * 4 + 0) * src 1 + iT (3 * 4 + 0) * src 3;
         O1 = iT (1 * 4 + 1) * src 1 + iT (3 * 4 + 1) * src 3;
         E0 = iT (0 * 4 + 0) * src 0 + iT (2 * 4 + 0) * src 2;
         E1 = iT (0 * 4 + 1) * src 0 + iT (2 * 4 + 1) * src 2
     in [(0, E0 + O0), (1, E1 + O1), (2, E1 - O1), (3, E0 - O0)])"

definition fastInverseDCT2_B4 :: "int list \<Rightarrow> int list \<Rightarrow> nat \<Rightarrow> nat \<Rightarrow> nat \<Rightarrow> nat \<Rightarrow> int \<Rightarrow> int \<Rightarrow> int list" where
  "fastInverseDCT2_B4 src dst shift line iSkipLine iSkipLine2 outputMinimum outputMaximum =
    (let add = 2 ^ (shift - 1);
         iT = core g_trCoreDCT2P4 TRANSFORM_INVERSE;
         reducedLine = line - iSkipLine
     in inv_clear 4 reducedLine iSkipLine
          (inv_loop 4 (invDCT2_B4_body iT) src dst add shift line reducedLine outputMinimum outputMaximum))"

definition invDCT2_B8_body :: "(nat \<Rightarrow> int) \<Rightarrow> (nat \<Rightarrow> int) \<Rightarrow> (nat \<times> int) list" where
  "invDCT2_B8_body iT src =
    (let O' = (\<lambda>k. iT (1 * 8 + k) * src 1 + iT (3 * 8 + k) * src 3 + iT (5 * 8 + k) * src 5 + iT (7 * 8 + k) * src 7);
         EO0 = iT (2 * 8 + 0) * src 2 + iT (6 * 8 + 0) * src 6;
         EO1 = iT (2 * 8 + 1) * src 2 + iT (6 * 8 + 1) * src 6;
         EE0 = iT (0 * 8 + 0) * src 0 + iT (4 * 8 + 0) * src 4;
         EE1 = iT (0 * 8 + 1) * src 0 + iT (4 * 8 + 1) * src 4;
         E = (!) [EE0 + EO0, EE1 + EO1, EE1 - EO1, EE0 - EO0]
     in concat (map (\<lambda>k. [(k, E k + O' k), (k + 4, E (3 - k) - O' (3 - k))]) [0..<4]))"

definition fastInverseDCT2_B8 :: "int list \<Rightarrow> int list \<Rightarrow> nat \<Rightarrow> nat \<Rightarrow> nat \<Rightarrow> nat \<Rightarrow> int \<Rightarrow> int \<Rightarrow> int list" where
  "fastInverseDCT2_B8 src dst shift line iSkipLine iSkipLine2 outputMinimum outputMaximum =
    (let add = 2 ^ (shift - 1);
         iT = core g_trCoreDCT2P8 TRANSFORM_INVERSE;
         reducedLine = line - iSkipLine
     in inv_clear 8 reducedLine iSkipLine
          (inv_loop 8 (invDCT2_B8_body iT) src dst add shift line reducedLine outputMinimum outputMaximum))"

text \<open>The loops \<open>X[k] = XE[k] + XO[k]; X[k + c] = XE[c - 1 - k] - XO[c - 1 - k]\<close> that combine two halves.\<close>

definition combine :: "nat \<Rightarrow> (nat \<Rightarrow> int) \<Rightarrow> (nat \<Rightarrow> int) \<Rightarrow> nat \<Rightarrow> int" where
  "combine c XE XO i = (if i < c then XE i + XO i else XE (c - 1 - (i - c)) - XO (c - 1 - (i - c)))"

definition invDCT2_B16_body :: "(nat \<Rightarrow> int) \<Rightarrow> (nat \<Rightarrow> int) \<Rightarrow> (nat \<times> int) list" where
  "invDCT2_B16_body iT src =
    (let O' = (\<lambda>k. dotcol iT 16 1 2 8 k src);
         EO = (\<lambda>k. dotcol iT 16 2 4 4 k src);
         EEO = (\<lambda>k. dotcol iT 16 4 8 2 k src);
         EEE = (\<lambda>k. dotcol iT 16 0 8 2 k src);
         EE = combine 2 EEE EEO;
         E = combine 4 EE EO
     in concat (map (\<lambda>k. [(k, E k + O' k), (k + 8, E (7 - k) - O' (7 - k))]) [0..<8]))"

definition fastInverseDCT2_B16 :: "int list \<Rightarrow> int list \<Rightarrow> nat \<Rightarrow> nat \<Rightarrow> nat \<Rightarrow> nat \<Rightarrow> int \<Rightarrow> int \<Rightarrow> int list" where
  "fastInverseDCT2_B16 src dst shift line iSkipLine iSkipLine2 outputMinimum outputMaximum =
    (let add = 2 ^ (shift - 1);
         iT = core g_trCoreDCT2P16 TRANSFORM_INVERSE;
         reducedLine = line - iSkipLine
     in inv_clear 16 reducedLine iSkipLine
          (inv_loop 16 (invDCT2_B16_body iT) src dst add shift line reducedLine outputMinimum outputMaximum))"

definition invDCT2_B32_body :: "(nat \<Rightarrow> int) \<Rightarrow> (nat \<Rightarrow> int) \<Rightarrow> (nat \<times> int) list" where
  "invDCT2_B32_body iT src =
    (let O' = (\<lambda>k. dotcol iT 32 1 2 16 k src);
         EO = (\<lambda>k. dotcol iT 32 2 4 8 k src);
         EEO = (\<lambda>k. dotcol iT 32 4 8 4 k src);
         EEEO = (\<lambda>k. dotcol iT 32 8 16 2 k src);
         EEEE = (\<lambda>k. dotcol iT 32 0 16 2 k src);
         EEE = combine 2 EEEE EEEO;
         EE = combine 4 EEE EEO;
         E = combine 8 EE EO
     in concat (map (\<lambda>k. [(k, E k + O' k), (k + 16, E (15 - k) - O' (15 - k))]) [0..<16]))"

definition fastInverseDCT2_B32 :: "int list \<Rightarrow> int list \<Rightarrow> nat \<Rightarrow> nat \<Rightarrow> nat \<Rightarrow> nat \<Rightarrow> int \<Rightarrow> int \<Rightarrow> int list" where
  "fastInverseDCT2_B32 src dst shift line iSkipLine iSkipLine2 outputMinimum outputMaximum =
    (let add = 2 ^ (shift - 1);
         iT = core g_trCoreDCT2P32 TRANSFORM_INVERSE;
         reducedLine = line - iSkipLine
     in inv_clear 32 reducedLine iSkipLine
          (inv_loop 32 (invDCT2_B32_body iT) src dst add shift line reducedLine outputMinimum outputMaximum))"

text \<open>In size 64 the lower half of the coefficients is left out of every sum when \<open>zo\<close> is set.\<close>

definition invDCT2_B64_body :: "(nat \<Rightarrow> int) \<Rightarrow> bool \<Rightarrow> (nat \<Rightarrow> int) \<Rightarrow> (nat \<times> int) list" where
  "invDCT2_B64_body iT zo src =
    (let O' = (\<lambda>k. dotcol iT 64 1 2 16 k src + (if zo then 0 else dotcol iT 64 33 2 16 k src));
         EO = (\<lambda>k. dotcol iT 64 2 4 8 k src + (if zo then 0 else dotcol iT 64 34 4 8 k src));
         EEO = (\<lambda>k. dotcol iT 64 4 8 4 k src + (if zo then 0 else dotcol iT 64 36 8 4 k src));
         EEEO = (\<lambda>k. dotcol iT 64 8 16 2 k src + (if zo then 0 else dotcol iT 64 40 16 2 k src));
         EEEEO = (\<lambda>k. iT (16 * 64 + k) * src 16 + (if zo then 0 else iT (48 * 64 + k) * src 48));
         EEEEE = (\<lambda>k. iT (0 * 64 + k) * src 0 + (if zo then 0 else iT (32 * 64 + k) * src 32));
         EEEE = combine 2 EEEEE EEEEO;
         EEE = combine 4 EEEE EEEO;
         EE = combine 8 EEE EEO;
         E = combine 16 EE EO
     in concat (map (\<lambda>k. [(k, E k + O' k), (k + 32, E (31 - k) - O' (31 - k))]) [0..<32]))"

definition fastInverseDCT2_B64 :: "int list \<Rightarrow> int list \<Rightarrow> nat \<Rightarrow> nat \<Rightarrow> nat \<Rightarrow> nat \<Rightarrow> int \<Rightarrow> int \<Rightarrow> int list" where
  "fastInverseDCT2_B64 src dst shift line iSkipLine iSkipLine2 outputMinimum outputMaximum =
    (let rnd_factor = 2 ^ (shift - 1);
         iT = core g_trCoreDCT2P64 TRANSFORM_INVERSE;
         zo = (iSkipLine2 \<ge> 32);
         reducedLine = line - iSkipLine
     in memset0 (reducedLine * 64) (64 * iSkipLine)
          (inv_loop 64 (invDCT2_B64_body iT zo) src dst rnd_factor shift line reducedLine outputMinimum outputMaximum))"

section \<open>The forward butterflies compute the matrix product\<close>

lemma dot_level:
  assumes "bfly_levels L (g ! dir)" "square (2 ^ L) (g ! dir)" "l < L" "k < 2 ^ L"
    and n: "n = 2 ^ (L - 1 - l)" and N: "N = 2 ^ L"
  shows "k mod 2 ^ (l + 1) = 0 \<Longrightarrow> dotrow (core g dir) N k (2 * n) X = dotrow (core g dir) N k n (\<lambda>i. X i + X (2 * n - 1 - i))"
    and "k mod 2 ^ (l + 1) = 2 ^ l \<Longrightarrow> dotrow (core g dir) N k (2 * n) X = dotrow (core g dir) N k n (\<lambda>i. X i - X (2 * n - 1 - i))"
proof -
  let ?m = "\<lambda>k i. core g dir (2 ^ l * k * 2 ^ L + i)"
  have b: "bfly n ?m" using core_bfly [OF assms(1-3)] n by simp
  have two: "2 ^ (l + 1) * n = (2::nat) ^ L" using assms(3) n by (simp flip: power_add power_Suc)
  show "dotrow (core g dir) N k (2 * n) X = dotrow (core g dir) N k n (\<lambda>i. X i + X (2 * n - 1 - i))"
    if "k mod 2 ^ (l + 1) = 0"
  proof -
    let ?q = "k div 2 ^ (l + 1)"
    have k: "k = 2 ^ (l + 1) * ?q" using that by auto
    have "2 ^ (l + 1) * ?q < 2 ^ (l + 1) * n" using assms(4) two k by simp
    then have q: "?q < n" by (simp only: mult_less_cancel1)
    have e: "2 ^ l * (2 * ?q) = k" using k by simp
    show ?thesis using fwd_even [OF b q, of X] unfolding e dotrow_def N .
  qed
  show "dotrow (core g dir) N k (2 * n) X = dotrow (core g dir) N k n (\<lambda>i. X i - X (2 * n - 1 - i))"
    if "k mod 2 ^ (l + 1) = 2 ^ l"
  proof -
    let ?q = "k div 2 ^ (l + 1)"
    have k: "k = 2 ^ (l + 1) * ?q + 2 ^ l" using that by (metis mult_div_mod_eq)
    have "2 ^ (l + 1) * ?q < 2 ^ (l + 1) * n" using assms(4) two k by simp
    then have q: "?q < n" by (simp only: mult_less_cancel1)
    have e: "2 ^ l * (2 * ?q + 1) = k" using k by (simp add: algebra_simps)
    show ?thesis using fwd_odd [OF b q, of X] unfolding e dotrow_def N .
  qed
qed

text \<open>\<open>evs L l s\<close> is the array after \<open>l\<close> steps along the even branch (\<open>E\<close>, \<open>EE\<close>, ...), \<open>od\<close> the odd branch
  taken there.\<close>

definition ev :: "nat \<Rightarrow> (nat \<Rightarrow> int) \<Rightarrow> nat \<Rightarrow> int" where "ev n X = (\<lambda>i. X i + X (2 * n - 1 - i))"
definition od :: "nat \<Rightarrow> (nat \<Rightarrow> int) \<Rightarrow> nat \<Rightarrow> int" where "od n X = (\<lambda>i. X i - X (2 * n - 1 - i))"

fun evs :: "nat \<Rightarrow> nat \<Rightarrow> (nat \<Rightarrow> int) \<Rightarrow> nat \<Rightarrow> int" where
  "evs L 0 s = s"
| "evs L (Suc l) s = ev (2 ^ (L - 1 - l)) (evs L l s)"

lemma chain_even:
  assumes "bfly_levels L (g ! dir)" "square (2 ^ L) (g ! dir)" "k < 2 ^ L"
  shows "l \<le> L \<Longrightarrow> k mod 2 ^ l = 0 \<Longrightarrow>
    dotrow (core g dir) (2 ^ L) k (2 ^ (L - l)) (evs L l s) = dotrow (core g dir) (2 ^ L) k (2 ^ L) s"
proof (induction l)
  case (Suc l)
  have "2 ^ l dvd (2::nat) ^ Suc l" by simp
  then have "k mod 2 ^ l = 0" using Suc.prems(2) by (metis dvd_trans mod_0_imp_dvd dvd_imp_mod_0)
  moreover have "2 ^ (L - l) = 2 * (2::nat) ^ (L - 1 - l)" using Suc.prems(1) by (simp flip: power_Suc add: Suc_diff_Suc)
  ultimately show ?case
    using Suc dot_level(1) [OF assms(1,2), of l k "2 ^ (L - 1 - l)" "2 ^ L" "evs L l s"] assms(3)
    by (simp add: ev_def)
qed simp

lemma chain_odd:
  assumes "bfly_levels L (g ! dir)" "square (2 ^ L) (g ! dir)" "k < 2 ^ L"
    and "l < L" "k mod 2 ^ Suc l = 2 ^ l"
  shows "dotrow (core g dir) (2 ^ L) k (2 ^ (L - 1 - l)) (od (2 ^ (L - 1 - l)) (evs L l s)) =
    dotrow (core g dir) (2 ^ L) k (2 ^ L) s"
proof -
  have "2 ^ l dvd (2::nat) ^ Suc l" by simp
  then have "k mod 2 ^ l = 0" using assms(5) by (metis mod_mod_cancel mod_self)
  moreover have "2 ^ (L - l) = 2 * (2::nat) ^ (L - 1 - l)" using assms(4) by (simp flip: power_Suc add: Suc_diff_Suc)
  ultimately show ?thesis
    using assms chain_even [OF assms(1-3), of l s]
      dot_level(2) [OF assms(1,2), of l k "2 ^ (L - 1 - l)" "2 ^ L" "evs L l s"]
    by (simp add: od_def)
qed

lemma evs_numeral: "evs L (numeral v) s = ev (2 ^ (L - 1 - pred_numeral v)) (evs L (pred_numeral v) s)"
  by (simp add: numeral_eq_Suc)

lemma mirror_arrays:
  "ev 2 X = (\<lambda>i. X i + X (3 - i))" "od 2 X = (\<lambda>i. X i - X (3 - i))"
  "ev 4 X = (\<lambda>i. X i + X (7 - i))" "od 4 X = (\<lambda>i. X i - X (7 - i))"
  "ev 8 X = (\<lambda>i. X i + X (15 - i))" "od 8 X = (\<lambda>i. X i - X (15 - i))"
  "ev 16 X = (\<lambda>i. X i + X (31 - i))" "od 16 X = (\<lambda>i. X i - X (31 - i))"
  "ev 32 X = (\<lambda>i. X i + X (63 - i))" "od 32 X = (\<lambda>i. X i - X (63 - i))"
  "ev 1 X = (\<lambda>i. X i + X (1 - i))" "od 1 X = (\<lambda>i. X i - X (1 - i))"
  by (simp_all add: ev_def od_def)

lemma branches2:
  "k < 2 \<Longrightarrow> k mod 2 = 1 \<Longrightarrow> dotrow (core g_trCoreDCT2P2 0) 2 k 1 (od 1 s) = dotrow (core g_trCoreDCT2P2 0) 2 k 2 s"
  "k < 2 \<Longrightarrow> k mod 2 = 0 \<Longrightarrow> dotrow (core g_trCoreDCT2P2 0) 2 k 1 (ev 1 s) = dotrow (core g_trCoreDCT2P2 0) 2 k 2 s"
  subgoal using chain_odd [OF levels_DCT2(1), of k 0 s] squares(1) by (simp add: evs_numeral)
  subgoal using chain_even [OF levels_DCT2(1), of k 1 s] squares(1) by (simp add: evs_numeral)
  done

lemma branches4:
  "k < 4 \<Longrightarrow> k mod 2 = 1 \<Longrightarrow> dotrow (core g_trCoreDCT2P4 0) 4 k 2 (od 2 s) = dotrow (core g_trCoreDCT2P4 0) 4 k 4 s"
  "k < 4 \<Longrightarrow> k mod 4 = 2 \<Longrightarrow> dotrow (core g_trCoreDCT2P4 0) 4 k 1 (od 1 (ev 2 s)) = dotrow (core g_trCoreDCT2P4 0) 4 k 4 s"
  "k < 4 \<Longrightarrow> k mod 2 = 0 \<Longrightarrow> dotrow (core g_trCoreDCT2P4 0) 4 k 2 (ev 2 s) = dotrow (core g_trCoreDCT2P4 0) 4 k 4 s"
  subgoal using chain_odd [OF levels_DCT2(3), of k 0 s] squares(3) by (simp add: evs_numeral)
  subgoal using chain_odd [OF levels_DCT2(3), of k 1 s] squares(3) by (simp add: evs_numeral)
  subgoal using chain_even [OF levels_DCT2(3), of k 1 s] squares(3) by (simp add: evs_numeral)
  done

lemma branches8:
  "k < 8 \<Longrightarrow> k mod 2 = 1 \<Longrightarrow> dotrow (core g_trCoreDCT2P8 0) 8 k 4 (od 4 s) = dotrow (core g_trCoreDCT2P8 0) 8 k 8 s"
  "k < 8 \<Longrightarrow> k mod 4 = 2 \<Longrightarrow> dotrow (core g_trCoreDCT2P8 0) 8 k 2 (od 2 (ev 4 s)) = dotrow (core g_trCoreDCT2P8 0) 8 k 8 s"
  "k < 8 \<Longrightarrow> k mod 8 = 4 \<Longrightarrow> dotrow (core g_trCoreDCT2P8 0) 8 k 1 (od 1 (ev 2 (ev 4 s))) = dotrow (core g_trCoreDCT2P8 0) 8 k 8 s"
  "k < 8 \<Longrightarrow> k mod 4 = 0 \<Longrightarrow> dotrow (core g_trCoreDCT2P8 0) 8 k 2 (ev 2 (ev 4 s)) = dotrow (core g_trCoreDCT2P8 0) 8 k 8 s"
  subgoal using chain_odd [OF levels_DCT2(5), of k 0 s] squares(5) by (simp add: evs_numeral)
  subgoal using chain_odd [OF levels_DCT2(5), of k 1 s] squares(5) by (simp add: evs_numeral)
  subgoal using chain_odd [OF levels_DCT2(5), of k 2 s] squares(5) by (simp add: evs_numeral)
  subgoal using chain_even [OF levels_DCT2(5), of k 2 s] squares(5) by (simp add: evs_numeral)
  done

lemma branches16:
  "k < 16 \<Longrightarrow> k mod 2 = 1 \<Longrightarrow> dotrow (core g_trCoreDCT2P16 0) 16 k 8 (od 8 s) = dotrow (core g_trCoreDCT2P16 0) 16 k 16 s"
  "k < 16 \<Longrightarrow> k mod 4 = 2 \<Longrightarrow> dotrow (core g_trCoreDCT2P16 0) 16 k 4 (od 4 (ev 8 s)) = dotrow (core g_trCoreDCT2P16 0) 16 k 16 s"
  "k < 16 \<Longrightarrow> k mod 8 = 4 \<Longrightarrow> dotrow (core g_trCoreDCT2P16 0) 16 k 2 (od 2 (ev 4 (ev 8 s))) = dotrow (core g_trCoreDCT2P16 0) 16 k 16 s"
  "k < 16 \<Longrightarrow> k mod 16 = 8 \<Longrightarrow> dotrow (core g_trCoreDCT2P16 0) 16 k 1 (od 1 (ev 2 (ev 4 (ev 8 s)))) = dotrow (core g_trCoreDCT2P16 0) 16 k 16 s"
  "k < 16 \<Longrightarrow> k mod 8 = 0 \<Longrightarrow> dotrow (core g_trCoreDCT2P16 0) 16 k 2 (ev 2 (ev 4 (ev 8 s))) = dotrow (core g_trCoreDCT2P16 0) 16 k 16 s"
  subgoal using chain_odd [OF levels_DCT2(7), of k 0 s] squares(7) by (simp add: evs_numeral)
  subgoal using chain_odd [OF levels_DCT2(7), of k 1 s] squares(7) by (simp add: evs_numeral)
  subgoal using chain_odd [OF levels_DCT2(7), of k 2 s] squares(7) by (simp add: evs_numeral)
  subgoal using chain_odd [OF levels_DCT2(7), of k 3 s] squares(7) by (simp add: evs_numeral)
  subgoal using chain_even [OF levels_DCT2(7), of k 3 s] squares(7) by (simp add: evs_numeral)
  done

lemma branches32:
  "k < 32 \<Longrightarrow> k mod 2 = 1 \<Longrightarrow> dotrow (core g_trCoreDCT2P32 0) 32 k 16 (od 16 s) = dotrow (core g_trCoreDCT2P32 0) 32 k 32 s"
  "k < 32 \<Longrightarrow> k mod 4 = 2 \<Longrightarrow> dotrow (core g_trCoreDCT2P32 0) 32 k 8 (od 8 (ev 16 s)) = dotrow (core g_trCoreDCT2P32 0) 32 k 32 s"
  "k < 32 \<Longrightarrow> k mod 8 = 4 \<Longrightarrow> dotrow (core g_trCoreDCT2P32 0) 32 k 4 (od 4 (ev 8 (ev 16 s))) = dotrow (core g_trCoreDCT2P32 0) 32 k 32 s"
  "k < 32 \<Longrightarrow> k mod 16 = 8 \<Longrightarrow> dotrow (core g_trCoreDCT2P32 0) 32 k 2 (od 2 (ev 4 (ev 8 (ev 16 s)))) = dotrow (core g_trCoreDCT2P32 0) 32 k 32 s"
  "k < 32 \<Longrightarrow> k mod 32 = 16 \<Longrightarrow> dotrow (core g_trCoreDCT2P32 0) 32 k 1 (od 1 (ev 2 (ev 4 (ev 8 (ev 16 s))))) = dotrow (core g_trCoreDCT2P32 0) 32 k 32 s"
  "k < 32 \<Longrightarrow> k mod 16 = 0 \<Longrightarrow> dotrow (core g_trCoreDCT2P32 0) 32 k 2 (ev 2 (ev 4 (ev 8 (ev 16 s)))) = dotrow (core g_trCoreDCT2P32 0) 32 k 32 s"
  subgoal using chain_odd [OF levels_DCT2(9), of k 0 s] squares(9) by (simp add: evs_numeral)
  subgoal using chain_odd [OF levels_DCT2(9), of k 1 s] squares(9) by (simp add: evs_numeral)
  subgoal using chain_odd [OF levels_DCT2(9), of k 2 s] squares(9) by (simp add: evs_numeral)
  subgoal using chain_odd [OF levels_DCT2(9), of k 3 s] squares(9) by (simp add: evs_numeral)
  subgoal using chain_odd [OF levels_DCT2(9), of k 4 s] squares(9) by (simp add: evs_numeral)
  subgoal using chain_even [OF levels_DCT2(9), of k 4 s] squares(9) by (simp add: evs_numeral)
  done

lemma branches64:
  "k < 64 \<Longrightarrow> k mod 2 = 1 \<Longrightarrow> dotrow (core g_trCoreDCT2P64 0) 64 k 32 (od 32 s) = dotrow (core g_trCoreDCT2P64 0) 64 k 64 s"
  "k < 64 \<Longrightarrow> k mod 4 = 2 \<Longrightarrow> dotrow (core g_trCoreDCT2P64 0) 64 k 16 (od 16 (ev 32 s)) = dotrow (core g_trCoreDCT2P64 0) 64 k 64 s"
  "k < 64 \<Longrightarrow> k mod 8 = 4 \<Longrightarrow> dotrow (core g_trCoreDCT2P64 0) 64 k 8 (od 8 (ev 16 (ev 32 s))) = dotrow (core g_trCoreDCT2P64 0) 64 k 64 s"
  "k < 64 \<Longrightarrow> k mod 16 = 8 \<Longrightarrow> dotrow (core g_trCoreDCT2P64 0) 64 k 4 (od 4 (ev 8 (ev 16 (ev 32 s)))) = dotrow (core g_trCoreDCT2P64 0) 64 k 64 s"
  "k < 64 \<Longrightarrow> k mod 32 = 16 \<Longrightarrow> dotrow (core g_trCoreDCT2P64 0) 64 k 2 (od 2 (ev 4 (ev 8 (ev 16 (ev 32 s))))) = dotrow (core g_trCoreDCT2P64 0) 64 k 64 s"
  "k < 64 \<Longrightarrow> k mod 64 = 32 \<Longrightarrow> dotrow (core g_trCoreDCT2P64 0) 64 k 1 (od 1 (ev 2 (ev 4 (ev 8 (ev 16 (ev 32 s)))))) = dotrow (core g_trCoreDCT2P64 0) 64 k 64 s"
  "k < 64 \<Longrightarrow> k mod 32 = 0 \<Longrightarrow> dotrow (core g_trCoreDCT2P64 0) 64 k 2 (ev 2 (ev 4 (ev 8 (ev 16 (ev 32 s))))) = dotrow (core g_trCoreDCT2P64 0) 64 k 64 s"
  subgoal using chain_odd [OF levels_DCT2P64(1), of k 0 s] squares(11) by (simp add: evs_numeral)
  subgoal using chain_odd [OF levels_DCT2P64(1), of k 1 s] squares(11) by (simp add: evs_numeral)
  subgoal using chain_odd [OF levels_DCT2P64(1), of k 2 s] squares(11) by (simp add: evs_numeral)
  subgoal using chain_odd [OF levels_DCT2P64(1), of k 3 s] squares(11) by (simp add: evs_numeral)
  subgoal using chain_odd [OF levels_DCT2P64(1), of k 4 s] squares(11) by (simp add: evs_numeral)
  subgoal using chain_odd [OF levels_DCT2P64(1), of k 5 s] squares(11) by (simp add: evs_numeral)
  subgoal using chain_even [OF levels_DCT2P64(1), of k 5 s] squares(11) by (simp add: evs_numeral)
  done

lemma upto_by_values:
  "upto_by 1 16 2 = [1, 3, 5, 7, 9, 11, 13, 15]"
  "upto_by 1 32 2 = [1, 3, 5, 7, 9, 11, 13, 15, 17, 19, 21, 23, 25, 27, 29, 31]"
  "upto_by 1 64 2 = [1, 3, 5, 7, 9, 11, 13, 15, 17, 19, 21, 23, 25, 27, 29, 31, 33, 35, 37, 39, 41, 43, 45, 47, 49, 51, 53, 55, 57, 59, 61, 63]"
  "upto_by 2 16 4 = [2, 6, 10, 14]"
  "upto_by 2 32 4 = [2, 6, 10, 14, 18, 22, 26, 30]"
  "upto_by 2 64 4 = [2, 6, 10, 14, 18, 22, 26, 30, 34, 38, 42, 46, 50, 54, 58, 62]"
  "upto_by 4 32 8 = [4, 12, 20, 28]"
  "upto_by 4 64 8 = [4, 12, 20, 28, 36, 44, 52, 60]"
  "upto_by 8 32 16 = [8, 24]"
  "upto_by 8 64 16 = [8, 24, 40, 56]"
  by code_simp+

lemma dot_small:
  "dotrow iT n k 1 X = iT (k * n) * X 0"
  "dotrow iT n k 2 X = iT (k * n) * X 0 + iT (k * n + 1) * X 1"
  "dotrow iT n k 4 X = iT (k * n) * X 0 + iT (k * n + 1) * X 1 + iT (k * n + 2) * X 2 + iT (k * n + 3) * X 3"
  by (simp_all add: dotrow_def isum_numeral isum_Suc)

lemma stores_B2:
  "stores 2 2 (fwdDCT2_B2_body (core g_trCoreDCT2P2 0) s) (\<lambda>k. dotrow (core g_trCoreDCT2P2 0) 2 k 2 s)"
proof (rule storesI)
  show "list_all (\<lambda>(k, v). k < 2 \<and> v = dotrow (core g_trCoreDCT2P2 0) 2 k 2 s) (fwdDCT2_B2_body (core g_trCoreDCT2P2 0) s)"
    by (simp add: fwdDCT2_B2_body_def Let_def branches2 [symmetric] dot_small(1) [unfolded One_nat_def] mirror_arrays [unfolded One_nat_def] mirror_arrays)
  show "map fst (fwdDCT2_B2_body (core g_trCoreDCT2P2 0) s) = [0, 1]"
    unfolding fwdDCT2_B2_body_def Let_def if_True if_False not_True_eq_False not_False_eq_True upto_by_values by simp
  show "list_all (List.member [0::nat, 1]) [0..<2]" by code_simp
qed

lemma stores_B4:
  "stores 4 4 (fwdDCT2_B4_body (core g_trCoreDCT2P4 0) s) (\<lambda>k. dotrow (core g_trCoreDCT2P4 0) 4 k 4 s)"
proof (rule storesI)
  show "list_all (\<lambda>(k, v). k < 4 \<and> v = dotrow (core g_trCoreDCT2P4 0) 4 k 4 s) (fwdDCT2_B4_body (core g_trCoreDCT2P4 0) s)"
    by (simp add: fwdDCT2_B4_body_def Let_def branches4(1,3) [symmetric] dot_small(2) mirror_arrays)
  show "map fst (fwdDCT2_B4_body (core g_trCoreDCT2P4 0) s) = [0, 2, 1, 3]"
    unfolding fwdDCT2_B4_body_def Let_def if_True if_False not_True_eq_False not_False_eq_True upto_by_values by simp
  show "list_all (List.member [0::nat, 2, 1, 3]) [0..<4]" by code_simp
qed

lemma stores_B8:
  "stores 8 8 (fwdDCT2_B8_body (core g_trCoreDCT2P8 0) s) (\<lambda>k. dotrow (core g_trCoreDCT2P8 0) 8 k 8 s)"
proof (rule storesI)
  show "list_all (\<lambda>(k, v). k < 8 \<and> v = dotrow (core g_trCoreDCT2P8 0) 8 k 8 s) (fwdDCT2_B8_body (core g_trCoreDCT2P8 0) s)"
    by (simp add: fwdDCT2_B8_body_def Let_def branches8(1,2,4) [symmetric] dot_small mirror_arrays)
  show "map fst (fwdDCT2_B8_body (core g_trCoreDCT2P8 0) s) = [0, 4, 2, 6, 1, 3, 5, 7]"
    unfolding fwdDCT2_B8_body_def Let_def if_True if_False not_True_eq_False not_False_eq_True upto_by_values by simp
  show "list_all (List.member [0::nat, 4, 2, 6, 1, 3, 5, 7]) [0..<8]" by code_simp
qed

lemma stores_B16:
  "stores 16 16 (fwdDCT2_B16_body (core g_trCoreDCT2P16 0) s) (\<lambda>k. dotrow (core g_trCoreDCT2P16 0) 16 k 16 s)"
proof (rule storesI)
  show "list_all (\<lambda>(k, v). k < 16 \<and> v = dotrow (core g_trCoreDCT2P16 0) 16 k 16 s) (fwdDCT2_B16_body (core g_trCoreDCT2P16 0) s)"
    unfolding fwdDCT2_B16_body_def Let_def upto_by_values if_True if_False simp_thms
    by (simp only: list.map append.simps list.pred_inject prod.case)
      (intro conjI TrueI; (rule branches16 [unfolded mirror_arrays])?; simp)
  show "map fst (fwdDCT2_B16_body (core g_trCoreDCT2P16 0) s) = [0, 8, 4, 12, 2, 6, 10, 14, 1, 3, 5, 7, 9, 11, 13, 15]"
    unfolding fwdDCT2_B16_body_def Let_def if_True if_False not_True_eq_False not_False_eq_True upto_by_values by simp
  show "list_all (List.member [0::nat, 8, 4, 12, 2, 6, 10, 14, 1, 3, 5, 7, 9, 11, 13, 15]) [0..<16]" by code_simp
qed

lemma stores_B32:
  "stores 32 32 (fwdDCT2_B32_body (core g_trCoreDCT2P32 0) s) (\<lambda>k. dotrow (core g_trCoreDCT2P32 0) 32 k 32 s)"
proof (rule storesI)
  show "list_all (\<lambda>(k, v). k < 32 \<and> v = dotrow (core g_trCoreDCT2P32 0) 32 k 32 s) (fwdDCT2_B32_body (core g_trCoreDCT2P32 0) s)"
    unfolding fwdDCT2_B32_body_def Let_def upto_by_values if_True if_False simp_thms
    by (simp only: list.map append.simps list.pred_inject prod.case)
      (intro conjI TrueI; (rule branches32 [unfolded mirror_arrays])?; simp)
  show "map fst (fwdDCT2_B32_body (core g_trCoreDCT2P32 0) s) = [0, 16, 8, 24, 4, 12, 20, 28, 2, 6, 10, 14, 18, 22, 26, 30, 1, 3, 5, 7, 9, 11, 13, 15, 17, 19, 21, 23, 25, 27, 29, 31]"
    unfolding fwdDCT2_B32_body_def Let_def if_True if_False not_True_eq_False not_False_eq_True upto_by_values by simp
  show "list_all (List.member [0::nat, 16, 8, 24, 4, 12, 20, 28, 2, 6, 10, 14, 18, 22, 26, 30, 1, 3, 5, 7, 9, 11, 13, 15, 17, 19, 21, 23, 25, 27, 29, 31]) [0..<32]" by code_simp
qed

lemma stores_B64_zo:
  "stores 64 32 (fwdDCT2_B64_body (core g_trCoreDCT2P64 0) True s) (\<lambda>k. dotrow (core g_trCoreDCT2P64 0) 64 k 64 s)"
proof (rule storesI)
  show "list_all (\<lambda>(k, v). k < 64 \<and> v = dotrow (core g_trCoreDCT2P64 0) 64 k 64 s) (fwdDCT2_B64_body (core g_trCoreDCT2P64 0) True s)"
    unfolding fwdDCT2_B64_body_def Let_def upto_by_values if_True if_False simp_thms
    by (simp only: list.map append.simps list.pred_inject prod.case)
      (intro conjI TrueI; (rule branches64 [unfolded mirror_arrays])?; simp)
  show "map fst (fwdDCT2_B64_body (core g_trCoreDCT2P64 0) True s) = [0, 16, 8, 24, 4, 12, 20, 28, 2, 6, 10, 14, 18, 22, 26, 30, 1, 3, 5, 7, 9, 11, 13, 15, 17, 19, 21, 23, 25, 27, 29, 31]"
    unfolding fwdDCT2_B64_body_def Let_def if_True if_False not_True_eq_False not_False_eq_True upto_by_values by simp
  show "list_all (List.member [0::nat, 16, 8, 24, 4, 12, 20, 28, 2, 6, 10, 14, 18, 22, 26, 30, 1, 3, 5, 7, 9, 11, 13, 15, 17, 19, 21, 23, 25, 27, 29, 31]) [0..<32]" by code_simp
qed

lemma stores_B64:
  "stores 64 64 (fwdDCT2_B64_body (core g_trCoreDCT2P64 0) False s) (\<lambda>k. dotrow (core g_trCoreDCT2P64 0) 64 k 64 s)"
proof (rule storesI)
  show "list_all (\<lambda>(k, v). k < 64 \<and> v = dotrow (core g_trCoreDCT2P64 0) 64 k 64 s) (fwdDCT2_B64_body (core g_trCoreDCT2P64 0) False s)"
    unfolding fwdDCT2_B64_body_def Let_def upto_by_values if_True if_False simp_thms
    by (simp only: list.map append.simps list.pred_inject prod.case)
      (intro conjI TrueI; (rule branches64 [unfolded mirror_arrays])?; simp)
  show "map fst (fwdDCT2_B64_body (core g_trCoreDCT2P64 0) False s) = [0, 16, 32, 48, 8, 24, 40, 56, 4, 12, 20, 28, 36, 44, 52, 60, 2, 6, 10, 14, 18, 22, 26, 30, 34, 38, 42, 46, 50, 54, 58, 62, 1, 3, 5, 7, 9, 11, 13, 15, 17, 19, 21, 23, 25, 27, 29, 31, 33, 35, 37, 39, 41, 43, 45, 47, 49, 51, 53, 55, 57, 59, 61, 63]"
    unfolding fwdDCT2_B64_body_def Let_def if_True if_False not_True_eq_False not_False_eq_True upto_by_values by simp
  show "list_all (List.member [0::nat, 16, 32, 48, 8, 24, 40, 56, 4, 12, 20, 28, 36, 44, 52, 60, 2, 6, 10, 14, 18, 22, 26, 30, 34, 38, 42, 46, 50, 54, 58, 62, 1, 3, 5, 7, 9, 11, 13, 15, 17, 19, 21, 23, 25, 27, 29, 31, 33, 35, 37, 39, 41, 43, 45, 47, 49, 51, 53, 55, 57, 59, 61, 63]) [0..<64]" by code_simp
qed

section \<open>The inverse butterflies compute the matrix product\<close>

text \<open>One step: the two halves of the output combine the sums over the even and over the odd rows.\<close>

lemma inv_level:
  assumes "bfly_levels L (g ! dir)" "square (2 ^ L) (g ! dir)" "l < L"
    and n: "n = 2 ^ (L - 1 - l)" and N: "N = 2 ^ L" and st: "st = 2 ^ l" and "i < 2 * n" and c: "c = 2 * n" and st2: "st2 = 2 * st"
  shows "dotcol (core g dir) N 0 st c i s =
    combine n (\<lambda>i. dotcol (core g dir) N 0 st2 n i s) (\<lambda>i. dotcol (core g dir) N st st2 n i s) i"
proof -
  let ?m = "\<lambda>k i. core g dir (2 ^ l * k * 2 ^ L + i)"
  have b: "bfly n ?m" using core_bfly [OF assms(1-3)] n by simp
  have e: "2 ^ l * (2 * q) = 2 * st * q" "2 ^ l * (2 * q + 1) = st + 2 * st * q" for q
    by (simp_all add: st algebra_simps)
  show ?thesis
  proof (cases "i < n")
    case True
    then show ?thesis using inv_lo [of n ?m i "\<lambda>k. s (st * k)"] 
      unfolding dotcol_def combine_def N c st2 st by (simp add: algebra_simps)
  next
    case False
    let ?j = "2 * n - 1 - i"
    have j: "?j < n" "2 * n - 1 - ?j = i" "n - 1 - (i - n) = ?j" using False assms(7) by auto
    show ?thesis using inv_hi [OF b j(1), of "\<lambda>k. s (st * k)"] False
      unfolding dotcol_def combine_def N c st2 st j(2,3) by (simp add: algebra_simps)
  qed
qed

text \<open>The core of every routine: the stores of the final combining loop.\<close>

lemma stores_combine:
  assumes "\<And>i. i < 2 * n \<Longrightarrow> combine n XE XO i = g i"
  shows "stores (2 * n) (2 * n)
    (concat (map (\<lambda>k. [(k, XE k + XO k), (k + n, XE (n - 1 - k) - XO (n - 1 - k))]) [0..<n])) g"
proof -
  have "k < 2 * n \<Longrightarrow> k \<in> fst ` set (concat (map (\<lambda>k. [(k, XE k + XO k), (k + n, XE (n - 1 - k) - XO (n - 1 - k))]) [0..<n]))" for k
    by (cases "k < n") (force simp: image_iff intro: bexI [of _ "k - n"])+
  moreover have "XE k + XO k = g k \<and> XE (n - 1 - k) - XO (n - 1 - k) = g (k + n)" if "k < n" for k
    using that assms [of k] assms [of "k + n"] by (simp add: combine_def)
  ultimately show ?thesis by (auto simp: stores_def list_all_iff)
qed

lemma combine_cong:
  assumes "i < 2 * n" "\<And>j. j < n \<Longrightarrow> XE j = XE' j" "\<And>j. j < n \<Longrightarrow> XO j = XO' j"
  shows "combine n XE XO i = combine n XE' XO' i"
  using assms by (auto simp: combine_def)

lemma halves2:
  "i < 2 \<Longrightarrow> dotcol (core g_trCoreDCT2P2 1) 2 0 1 2 i s = combine 1 (\<lambda>i. dotcol (core g_trCoreDCT2P2 1) 2 0 2 1 i s) (\<lambda>i. dotcol (core g_trCoreDCT2P2 1) 2 1 2 1 i s) i"
  subgoal by (rule inv_level [OF levels_DCT2(2), of 0 1 2 1 i 2 2 s]) (use squares(2) in simp_all)
  done

lemma halves4:
  "i < 4 \<Longrightarrow> dotcol (core g_trCoreDCT2P4 1) 4 0 1 4 i s = combine 2 (\<lambda>i. dotcol (core g_trCoreDCT2P4 1) 4 0 2 2 i s) (\<lambda>i. dotcol (core g_trCoreDCT2P4 1) 4 1 2 2 i s) i"
  subgoal by (rule inv_level [OF levels_DCT2(4), of 0 2 4 1 i 4 2 s]) (use squares(4) in simp_all)
  done

lemma halves8:
  "i < 8 \<Longrightarrow> dotcol (core g_trCoreDCT2P8 1) 8 0 1 8 i s = combine 4 (\<lambda>i. dotcol (core g_trCoreDCT2P8 1) 8 0 2 4 i s) (\<lambda>i. dotcol (core g_trCoreDCT2P8 1) 8 1 2 4 i s) i"
  "i < 4 \<Longrightarrow> dotcol (core g_trCoreDCT2P8 1) 8 0 2 4 i s = combine 2 (\<lambda>i. dotcol (core g_trCoreDCT2P8 1) 8 0 4 2 i s) (\<lambda>i. dotcol (core g_trCoreDCT2P8 1) 8 2 4 2 i s) i"
  subgoal by (rule inv_level [OF levels_DCT2(6), of 0 4 8 1 i 8 2 s]) (use squares(6) in simp_all)
  subgoal by (rule inv_level [OF levels_DCT2(6), of 1 2 8 2 i 4 4 s]) (use squares(6) in simp_all)
  done

lemma halves16:
  "i < 16 \<Longrightarrow> dotcol (core g_trCoreDCT2P16 1) 16 0 1 16 i s = combine 8 (\<lambda>i. dotcol (core g_trCoreDCT2P16 1) 16 0 2 8 i s) (\<lambda>i. dotcol (core g_trCoreDCT2P16 1) 16 1 2 8 i s) i"
  "i < 8 \<Longrightarrow> dotcol (core g_trCoreDCT2P16 1) 16 0 2 8 i s = combine 4 (\<lambda>i. dotcol (core g_trCoreDCT2P16 1) 16 0 4 4 i s) (\<lambda>i. dotcol (core g_trCoreDCT2P16 1) 16 2 4 4 i s) i"
  "i < 4 \<Longrightarrow> dotcol (core g_trCoreDCT2P16 1) 16 0 4 4 i s = combine 2 (\<lambda>i. dotcol (core g_trCoreDCT2P16 1) 16 0 8 2 i s) (\<lambda>i. dotcol (core g_trCoreDCT2P16 1) 16 4 8 2 i s) i"
  subgoal by (rule inv_level [OF levels_DCT2(8), of 0 8 16 1 i 16 2 s]) (use squares(8) in simp_all)
  subgoal by (rule inv_level [OF levels_DCT2(8), of 1 4 16 2 i 8 4 s]) (use squares(8) in simp_all)
  subgoal by (rule inv_level [OF levels_DCT2(8), of 2 2 16 4 i 4 8 s]) (use squares(8) in simp_all)
  done

lemma halves32:
  "i < 32 \<Longrightarrow> dotcol (core g_trCoreDCT2P32 1) 32 0 1 32 i s = combine 16 (\<lambda>i. dotcol (core g_trCoreDCT2P32 1) 32 0 2 16 i s) (\<lambda>i. dotcol (core g_trCoreDCT2P32 1) 32 1 2 16 i s) i"
  "i < 16 \<Longrightarrow> dotcol (core g_trCoreDCT2P32 1) 32 0 2 16 i s = combine 8 (\<lambda>i. dotcol (core g_trCoreDCT2P32 1) 32 0 4 8 i s) (\<lambda>i. dotcol (core g_trCoreDCT2P32 1) 32 2 4 8 i s) i"
  "i < 8 \<Longrightarrow> dotcol (core g_trCoreDCT2P32 1) 32 0 4 8 i s = combine 4 (\<lambda>i. dotcol (core g_trCoreDCT2P32 1) 32 0 8 4 i s) (\<lambda>i. dotcol (core g_trCoreDCT2P32 1) 32 4 8 4 i s) i"
  "i < 4 \<Longrightarrow> dotcol (core g_trCoreDCT2P32 1) 32 0 8 4 i s = combine 2 (\<lambda>i. dotcol (core g_trCoreDCT2P32 1) 32 0 16 2 i s) (\<lambda>i. dotcol (core g_trCoreDCT2P32 1) 32 8 16 2 i s) i"
  subgoal by (rule inv_level [OF levels_DCT2(10), of 0 16 32 1 i 32 2 s]) (use squares(10) in simp_all)
  subgoal by (rule inv_level [OF levels_DCT2(10), of 1 8 32 2 i 16 4 s]) (use squares(10) in simp_all)
  subgoal by (rule inv_level [OF levels_DCT2(10), of 2 4 32 4 i 8 8 s]) (use squares(10) in simp_all)
  subgoal by (rule inv_level [OF levels_DCT2(10), of 3 2 32 8 i 4 16 s]) (use squares(10) in simp_all)
  done

lemma halves64:
  "i < 64 \<Longrightarrow> dotcol (core g_trCoreDCT2P64 1) 64 0 1 64 i s = combine 32 (\<lambda>i. dotcol (core g_trCoreDCT2P64 1) 64 0 2 32 i s) (\<lambda>i. dotcol (core g_trCoreDCT2P64 1) 64 1 2 32 i s) i"
  "i < 32 \<Longrightarrow> dotcol (core g_trCoreDCT2P64 1) 64 0 2 32 i s = combine 16 (\<lambda>i. dotcol (core g_trCoreDCT2P64 1) 64 0 4 16 i s) (\<lambda>i. dotcol (core g_trCoreDCT2P64 1) 64 2 4 16 i s) i"
  "i < 16 \<Longrightarrow> dotcol (core g_trCoreDCT2P64 1) 64 0 4 16 i s = combine 8 (\<lambda>i. dotcol (core g_trCoreDCT2P64 1) 64 0 8 8 i s) (\<lambda>i. dotcol (core g_trCoreDCT2P64 1) 64 4 8 8 i s) i"
  "i < 8 \<Longrightarrow> dotcol (core g_trCoreDCT2P64 1) 64 0 8 8 i s = combine 4 (\<lambda>i. dotcol (core g_trCoreDCT2P64 1) 64 0 16 4 i s) (\<lambda>i. dotcol (core g_trCoreDCT2P64 1) 64 8 16 4 i s) i"
  "i < 4 \<Longrightarrow> dotcol (core g_trCoreDCT2P64 1) 64 0 16 4 i s = combine 2 (\<lambda>i. dotcol (core g_trCoreDCT2P64 1) 64 0 32 2 i s) (\<lambda>i. dotcol (core g_trCoreDCT2P64 1) 64 16 32 2 i s) i"
  subgoal by (rule inv_level [OF levels_DCT2P64(2), of 0 32 64 1 i 64 2 s]) (use squares(12) in simp_all)
  subgoal by (rule inv_level [OF levels_DCT2P64(2), of 1 16 64 2 i 32 4 s]) (use squares(12) in simp_all)
  subgoal by (rule inv_level [OF levels_DCT2P64(2), of 2 8 64 4 i 16 8 s]) (use squares(12) in simp_all)
  subgoal by (rule inv_level [OF levels_DCT2P64(2), of 3 4 64 8 i 8 16 s]) (use squares(12) in simp_all)
  subgoal by (rule inv_level [OF levels_DCT2P64(2), of 4 2 64 16 i 4 32 s]) (use squares(12) in simp_all)
  done

lemma dotcol_small:
  "dotcol iT n a st 1 k s = iT (a * n + k) * s a"
  "dotcol iT n a st 2 k s = iT (a * n + k) * s a + iT ((a + st) * n + k) * s (a + st)"
  "dotcol iT n a st 4 k s = iT (a * n + k) * s a + iT ((a + st) * n + k) * s (a + st)
     + iT ((a + st * 2) * n + k) * s (a + st * 2) + iT ((a + st * 3) * n + k) * s (a + st * 3)"
  by (simp_all add: dotcol_def isum_numeral isum_Suc)

lemma stores_invB2:
  "stores 2 2 (invDCT2_B2_body (core g_trCoreDCT2P2 1) s) (\<lambda>k. dotcol (core g_trCoreDCT2P2 1) 2 0 1 2 k s)"
proof -
  have "dotcol (core g_trCoreDCT2P2 1) 2 0 1 2 0 s = core g_trCoreDCT2P2 1 0 * (s 0 + s 1)"
       "dotcol (core g_trCoreDCT2P2 1) 2 0 1 2 1 s = core g_trCoreDCT2P2 1 2 * (s 0 - s 1)"
    by (simp_all add: dotcol_small core_def g_trCoreDCT2P2_def DEFINE_DCT2_P2_MATRIX_def)
  then show ?thesis by (auto simp: stores_def invDCT2_B2_body_def less_2_cases_iff)
qed

lemma stores_invB4:
  "stores 4 4 (invDCT2_B4_body (core g_trCoreDCT2P4 1) s) (\<lambda>k. dotcol (core g_trCoreDCT2P4 1) 4 0 1 4 k s)"
proof (rule storesI)
  show "list_all (\<lambda>(k, v). k < 4 \<and> v = dotcol (core g_trCoreDCT2P4 1) 4 0 1 4 k s) (invDCT2_B4_body (core g_trCoreDCT2P4 1) s)"
    unfolding invDCT2_B4_body_def Let_def
    by (simp only: list.pred_inject prod.case)
      (intro conjI TrueI; simp add: combine_def halves4 [unfolded One_nat_def]; simp add: dotcol_small; simp add: eval_nat_numeral)
  show "map fst (invDCT2_B4_body (core g_trCoreDCT2P4 1) s) = [0, 1, 2, 3]" by (simp add: invDCT2_B4_body_def Let_def)
  show "list_all (List.member [0::nat, 1, 2, 3]) [0..<4]" by code_simp
qed

lemma stores_invB8:
  "stores 8 8 (invDCT2_B8_body (core g_trCoreDCT2P8 1) s) (\<lambda>k. dotcol (core g_trCoreDCT2P8 1) 8 0 1 8 k s)"
proof (rule storesI)
  have u: "[0..<4] = [0, 1, 2, 3::nat]" by (simp add: upt_rec)
  show "list_all (\<lambda>(k, v). k < 8 \<and> v = dotcol (core g_trCoreDCT2P8 1) 8 0 1 8 k s) (invDCT2_B8_body (core g_trCoreDCT2P8 1) s)"
    unfolding invDCT2_B8_body_def Let_def u
    by (simp only: list.map concat.simps append.simps list.pred_inject prod.case)
      (intro conjI TrueI; simp add: combine_def halves8 [unfolded One_nat_def]; simp add: dotcol_small; simp add: eval_nat_numeral)
  show "map fst (invDCT2_B8_body (core g_trCoreDCT2P8 1) s) = [0, 4, 1, 5, 2, 6, 3, 7]"
    by (simp add: invDCT2_B8_body_def Let_def u)
  show "list_all (List.member [0::nat, 4, 1, 5, 2, 6, 3, 7]) [0..<8]" by code_simp
qed

lemma combine_step:
  assumes "\<And>j. j < n \<Longrightarrow> XE j = XE' j" "g = combine n XE' XO i" "i < 2 * n"
  shows "combine n XE XO i = g"
  using assms combine_cong [of i n XE XE' XO XO] by simp

lemma stores_invB16:
  "stores 16 16 (invDCT2_B16_body (core g_trCoreDCT2P16 1) s) (\<lambda>k. dotcol (core g_trCoreDCT2P16 1) 16 0 1 16 k s)"
proof -
  let ?d = "dotcol (core g_trCoreDCT2P16 1) 16"
  let ?E = "combine 4 (combine 2 (\<lambda>k. ?d 0 8 2 k s) (\<lambda>k. ?d 4 8 2 k s)) (\<lambda>k. ?d 2 4 4 k s)"
  have e1: "combine 2 (\<lambda>k. ?d 0 8 2 k s) (\<lambda>k. ?d 4 8 2 k s) j = ?d 0 4 4 j s" if "j < 4" for j
    using halves16(3) [OF that, of s] by simp
  have e2: "combine 4 (combine 2 (\<lambda>k. ?d 0 8 2 k s) (\<lambda>k. ?d 4 8 2 k s)) (\<lambda>k. ?d 2 4 4 k s) j = ?d 0 2 8 j s" if "j < 8" for j
    by (rule combine_step [OF e1 halves16(2)]) (use that in simp_all)
  have "stores (2 * 8) (2 * 8)
      (concat (map (\<lambda>k. [(k, ?E k + ?d 1 2 8 k s), (k + 8, ?E (8 - 1 - k) - ?d 1 2 8 (8 - 1 - k) s)]) [0..<8]))
      (\<lambda>k. ?d 0 1 16 k s)"
  proof (rule stores_combine)
    fix i :: nat assume "i < 2 * 8"
    then show "combine 8 ?E (\<lambda>k. ?d 1 2 8 k s) i = ?d 0 1 16 i s"
      by (intro combine_step [OF e2 halves16(1)]) simp_all
  qed
  then show ?thesis by (simp add: invDCT2_B16_body_def Let_def)
qed

lemma stores_invB32:
  "stores 32 32 (invDCT2_B32_body (core g_trCoreDCT2P32 1) s) (\<lambda>k. dotcol (core g_trCoreDCT2P32 1) 32 0 1 32 k s)"
proof -
  let ?d = "dotcol (core g_trCoreDCT2P32 1) 32"
  let ?E = "combine 8 (combine 4 (combine 2 (\<lambda>k. ?d 0 16 2 k s) (\<lambda>k. ?d 8 16 2 k s)) (\<lambda>k. ?d 4 8 4 k s)) (\<lambda>k. ?d 2 4 8 k s)"
  have e1: "combine 2 (\<lambda>k. ?d 0 16 2 k s) (\<lambda>k. ?d 8 16 2 k s) j = ?d 0 8 4 j s" if "j < 4" for j
    using halves32(4) [OF that, of s] by simp
  have e2: "combine 4 (combine 2 (\<lambda>k. ?d 0 16 2 k s) (\<lambda>k. ?d 8 16 2 k s)) (\<lambda>k. ?d 4 8 4 k s) j = ?d 0 4 8 j s" if "j < 8" for j
    by (rule combine_step [OF e1 halves32(3)]) (use that in simp_all)
  have e3: "combine 8 (combine 4 (combine 2 (\<lambda>k. ?d 0 16 2 k s) (\<lambda>k. ?d 8 16 2 k s)) (\<lambda>k. ?d 4 8 4 k s)) (\<lambda>k. ?d 2 4 8 k s) j = ?d 0 2 16 j s" if "j < 16" for j
    by (rule combine_step [OF e2 halves32(2)]) (use that in simp_all)
  have "stores (2 * 16) (2 * 16)
      (concat (map (\<lambda>k. [(k, ?E k + ?d 1 2 16 k s), (k + 16, ?E (16 - 1 - k) - ?d 1 2 16 (16 - 1 - k) s)]) [0..<16]))
      (\<lambda>k. ?d 0 1 32 k s)"
  proof (rule stores_combine)
    fix i :: nat assume "i < 2 * 16"
    then show "combine 16 ?E (\<lambda>k. ?d 1 2 16 k s) i = ?d 0 1 32 i s"
      by (intro combine_step [OF e3 halves32(1)]) simp_all
  qed
  then show ?thesis by (simp add: invDCT2_B32_body_def Let_def)
qed

lemma dotcol_split: "dotcol iT n a st (c + c') k s = dotcol iT n a st c k s + dotcol iT n (a + st * c) st c' k s"
  by (induction c') (simp_all add: dotcol_def isum_Suc algebra_simps)

lemma stores_invB64_full:
  "stores 64 64 (invDCT2_B64_body (core g_trCoreDCT2P64 1) False s) (\<lambda>k. dotcol (core g_trCoreDCT2P64 1) 64 0 1 64 k s)"
proof -
  let ?d = "dotcol (core g_trCoreDCT2P64 1) 64"
  let ?E = "combine 16 (combine 8 (combine 4 (combine 2 (\<lambda>k. ?d 0 32 2 k s) (\<lambda>k. ?d 16 32 2 k s)) (\<lambda>k. ?d 8 16 4 k s)) (\<lambda>k. ?d 4 8 8 k s)) (\<lambda>k. ?d 2 4 16 k s)"
  have e1: "combine 2 (\<lambda>k. ?d 0 32 2 k s) (\<lambda>k. ?d 16 32 2 k s) j = ?d 0 16 4 j s" if "j < 4" for j
    using halves64(5) [OF that, of s] by simp
  have e2: "combine 4 (combine 2 (\<lambda>k. ?d 0 32 2 k s) (\<lambda>k. ?d 16 32 2 k s)) (\<lambda>k. ?d 8 16 4 k s) j = ?d 0 8 8 j s" if "j < 8" for j
    by (rule combine_step [OF e1 halves64(4)]) (use that in simp_all)
  have e3: "combine 8 (combine 4 (combine 2 (\<lambda>k. ?d 0 32 2 k s) (\<lambda>k. ?d 16 32 2 k s)) (\<lambda>k. ?d 8 16 4 k s)) (\<lambda>k. ?d 4 8 8 k s) j = ?d 0 4 16 j s" if "j < 16" for j
    by (rule combine_step [OF e2 halves64(3)]) (use that in simp_all)
  have e4: "combine 16 (combine 8 (combine 4 (combine 2 (\<lambda>k. ?d 0 32 2 k s) (\<lambda>k. ?d 16 32 2 k s)) (\<lambda>k. ?d 8 16 4 k s)) (\<lambda>k. ?d 4 8 8 k s)) (\<lambda>k. ?d 2 4 16 k s) j = ?d 0 2 32 j s" if "j < 32" for j
    by (rule combine_step [OF e3 halves64(2)]) (use that in simp_all)
  have "stores (2 * 32) (2 * 32)
      (concat (map (\<lambda>k. [(k, ?E k + ?d 1 2 32 k s), (k + 32, ?E (32 - 1 - k) - ?d 1 2 32 (32 - 1 - k) s)]) [0..<32]))
      (\<lambda>k. ?d 0 1 64 k s)"
  proof (rule stores_combine)
    fix i :: nat assume "i < 2 * 32"
    then show "combine 32 ?E (\<lambda>k. ?d 1 2 32 k s) i = ?d 0 1 64 i s"
      by (intro combine_step [OF e4 halves64(1)]) simp_all
  qed
  moreover have
    "?d 1 2 32 k s = ?d 1 2 16 k s + ?d 33 2 16 k s" "?d 2 4 16 k s = ?d 2 4 8 k s + ?d 34 4 8 k s"
    "?d 4 8 8 k s = ?d 4 8 4 k s + ?d 36 8 4 k s" "?d 8 16 4 k s = ?d 8 16 2 k s + ?d 40 16 2 k s"
    "?d 16 32 2 k s = core g_trCoreDCT2P64 1 (16 * 64 + k) * s 16 + core g_trCoreDCT2P64 1 (48 * 64 + k) * s 48"
    "?d 0 32 2 k s = core g_trCoreDCT2P64 1 (0 * 64 + k) * s 0 + core g_trCoreDCT2P64 1 (32 * 64 + k) * s 32" for k
    using dotcol_split [of _ 64 1 2 16 16 k s] dotcol_split [of _ 64 2 4 8 8 k s]
      dotcol_split [of _ 64 4 8 4 4 k s] dotcol_split [of _ 64 8 16 2 2 k s]
    by (simp_all add: dotcol_small)
  ultimately show ?thesis by (simp add: invDCT2_B64_body_def Let_def)
qed

lemma dotcol_cut:
  "(\<And>q. q < c \<Longrightarrow> a + st * q < z) \<Longrightarrow> dotcol iT n a st c k (\<lambda>r. if r < z then s r else 0) = dotcol iT n a st c k s"
  "z \<le> a \<Longrightarrow> dotcol iT n a st c k (\<lambda>r. if r < z then s r else 0) = 0"
  by (simp_all add: dotcol_def isum_eq_sum)

lemma stores_invB64_zo:
  "stores 64 64 (invDCT2_B64_body (core g_trCoreDCT2P64 1) True s) (\<lambda>k. dotcol (core g_trCoreDCT2P64 1) 64 0 1 32 k s)"
proof -
  let ?s = "\<lambda>r. if r < 32 then s r else 0"
  have "invDCT2_B64_body (core g_trCoreDCT2P64 1) True s = invDCT2_B64_body (core g_trCoreDCT2P64 1) False ?s"
    by (simp add: invDCT2_B64_body_def Let_def dotcol_cut)
  moreover have "dotcol iT 64 0 1 64 k ?s = dotcol iT 64 0 1 32 k s" for k iT
    using dotcol_split [of iT 64 0 1 32 32 k ?s] by (simp add: dotcol_cut)
  ultimately show ?thesis using stores_invB64_full [of ?s] by simp
qed

section \<open>The routines equal the matrix products\<close>

lemma dotrow_commute: "dotrow m n k c X = isum c (\<lambda>i. X i * m (k * n + i))"
  by (simp add: dotrow_def mult.commute)

lemma dotcol_commute: "dotcol m n 0 1 c k X = isum c (\<lambda>r. X r * m (r * n + k))"
  by (simp add: dotcol_def mult.commute)

lemma fwd_routine_full:
  assumes "\<And>s. stores n n (body s) (\<lambda>k. dotrow m n k n s)" "length dst = n * line" "skip \<le> line"
  shows "fwd_clear n line (line - skip) skip (fwd_loop n body src dst (rnd shift) shift line (line - skip)) =
    fwd_product n src shift line skip 0 m"
  using fwd_routine [where n = n and m = m and body = body and src = src and dst = dst and ?skip2.0 = 0 and rows = n
      and skip = skip and line = line and add = "rnd shift" and shift = shift] assms
  by (simp add: dotrow_commute fwd_clear_rows_def)

lemma inv_routine_full:
  assumes "\<And>s. stores n n (body s) (\<lambda>k. dotcol m n 0 1 (n - skip2) k s)" "length dst = n * line" "skip \<le> line" "0 < shift"
  shows "inv_clear n (line - skip) skip (inv_loop n body src dst (2 ^ (shift - 1)) shift line (line - skip) lo hi) =
    inv_product n src shift line skip skip2 lo hi m"
proof (rule inv_routine)
  fix j
  show "stores n n (body (\<lambda>r. src ! (r * line + j))) (\<lambda>k. isum (n - skip2) (\<lambda>r. src ! (r * line + j) * m (r * n + k)))"
    using assms(1) [of "\<lambda>r. src ! (r * line + j)"] unfolding dotcol_commute .
qed (use assms in \<open>simp_all add: rnd_def mult.commute\<close>)

lemma fastForwardDCT2_B2_product:
  "length dst = 2 * line \<Longrightarrow> skip \<le> line \<Longrightarrow>
    fastForwardDCT2_B2 src dst shift line skip skip2 = fwd_product 2 src shift line skip 0 (core g_trCoreDCT2P2 0)"
  unfolding fastForwardDCT2_B2_def Let_def TRANSFORM_FORWARD_def by (rule fwd_routine_full [OF stores_B2])

lemma fastInverseDCT2_B2_product:
  "length dst = 2 * line \<Longrightarrow> skip \<le> line \<Longrightarrow> 0 < shift \<Longrightarrow>
    fastInverseDCT2_B2 src dst shift line skip skip2 lo hi = inv_product 2 src shift line skip 0 lo hi (core g_trCoreDCT2P2 1)"
  unfolding fastInverseDCT2_B2_def Let_def TRANSFORM_INVERSE_def
  by (rule inv_routine_full) (simp_all add: stores_invB2 [simplified])

lemma fastForwardDCT2_B4_product:
  "length dst = 4 * line \<Longrightarrow> skip \<le> line \<Longrightarrow>
    fastForwardDCT2_B4 src dst shift line skip skip2 = fwd_product 4 src shift line skip 0 (core g_trCoreDCT2P4 0)"
  unfolding fastForwardDCT2_B4_def Let_def TRANSFORM_FORWARD_def by (rule fwd_routine_full [OF stores_B4])

lemma fastInverseDCT2_B4_product:
  "length dst = 4 * line \<Longrightarrow> skip \<le> line \<Longrightarrow> 0 < shift \<Longrightarrow>
    fastInverseDCT2_B4 src dst shift line skip skip2 lo hi = inv_product 4 src shift line skip 0 lo hi (core g_trCoreDCT2P4 1)"
  unfolding fastInverseDCT2_B4_def Let_def TRANSFORM_INVERSE_def
  by (rule inv_routine_full) (simp_all add: stores_invB4 [simplified])

lemma fastForwardDCT2_B8_product:
  "length dst = 8 * line \<Longrightarrow> skip \<le> line \<Longrightarrow>
    fastForwardDCT2_B8 src dst shift line skip skip2 = fwd_product 8 src shift line skip 0 (core g_trCoreDCT2P8 0)"
  unfolding fastForwardDCT2_B8_def Let_def TRANSFORM_FORWARD_def by (rule fwd_routine_full [OF stores_B8])

lemma fastInverseDCT2_B8_product:
  "length dst = 8 * line \<Longrightarrow> skip \<le> line \<Longrightarrow> 0 < shift \<Longrightarrow>
    fastInverseDCT2_B8 src dst shift line skip skip2 lo hi = inv_product 8 src shift line skip 0 lo hi (core g_trCoreDCT2P8 1)"
  unfolding fastInverseDCT2_B8_def Let_def TRANSFORM_INVERSE_def
  by (rule inv_routine_full) (simp_all add: stores_invB8 [simplified])

lemma fastForwardDCT2_B16_product:
  "length dst = 16 * line \<Longrightarrow> skip \<le> line \<Longrightarrow>
    fastForwardDCT2_B16 src dst shift line skip skip2 = fwd_product 16 src shift line skip 0 (core g_trCoreDCT2P16 0)"
  unfolding fastForwardDCT2_B16_def Let_def TRANSFORM_FORWARD_def by (rule fwd_routine_full [OF stores_B16])

lemma fastInverseDCT2_B16_product:
  "length dst = 16 * line \<Longrightarrow> skip \<le> line \<Longrightarrow> 0 < shift \<Longrightarrow>
    fastInverseDCT2_B16 src dst shift line skip skip2 lo hi = inv_product 16 src shift line skip 0 lo hi (core g_trCoreDCT2P16 1)"
  unfolding fastInverseDCT2_B16_def Let_def TRANSFORM_INVERSE_def
  by (rule inv_routine_full) (simp_all add: stores_invB16 [simplified])

lemma fastForwardDCT2_B32_product:
  "length dst = 32 * line \<Longrightarrow> skip \<le> line \<Longrightarrow>
    fastForwardDCT2_B32 src dst shift line skip skip2 = fwd_product 32 src shift line skip 0 (core g_trCoreDCT2P32 0)"
  unfolding fastForwardDCT2_B32_def Let_def TRANSFORM_FORWARD_def by (rule fwd_routine_full [OF stores_B32])

lemma fastInverseDCT2_B32_product:
  "length dst = 32 * line \<Longrightarrow> skip \<le> line \<Longrightarrow> 0 < shift \<Longrightarrow>
    fastInverseDCT2_B32 src dst shift line skip skip2 lo hi = inv_product 32 src shift line skip 0 lo hi (core g_trCoreDCT2P32 1)"
  unfolding fastInverseDCT2_B32_def Let_def TRANSFORM_INVERSE_def
  by (rule inv_routine_full) (simp_all add: stores_invB32 [simplified])

lemma fastForwardDCT2_B64_product:
  assumes "length dst = 64 * line" "skip \<le> line" "skip2 = 0 \<or> 32 \<le> skip2" "skip2 \<le> 64" "0 < shift"
  shows "fastForwardDCT2_B64 src dst shift line skip skip2 =
    fwd_product 64 src shift line skip skip2 (core g_trCoreDCT2P64 0)"
proof -
  have st: "stores 64 (64 - skip2) (fwdDCT2_B64_body (core g_trCoreDCT2P64 0) (skip2 \<noteq> 0) s)
      (\<lambda>k. isum 64 (\<lambda>i. s i * core g_trCoreDCT2P64 0 (k * 64 + i)))" for s
    using stores_B64 [of s] stores_B64_zo [of s] assms(3)
    by (cases "skip2 = 0") (auto simp: stores_def dotrow_commute)
  show ?thesis unfolding fastForwardDCT2_B64_def Let_def TRANSFORM_FORWARD_def
    by (rule fwd_routine [OF st]) (use assms in \<open>auto simp: rnd_def\<close>)
qed

lemma fastInverseDCT2_B64_product:
  assumes "length dst = 64 * line" "skip \<le> line" "0 < shift"
  shows "fastInverseDCT2_B64 src dst shift line skip skip2 lo hi =
    inv_product 64 src shift line skip (if 32 \<le> skip2 then 32 else 0) lo hi (core g_trCoreDCT2P64 1)"
proof -
  have st: "stores 64 64 (invDCT2_B64_body (core g_trCoreDCT2P64 1) (32 \<le> skip2) s)
      (\<lambda>k. dotcol (core g_trCoreDCT2P64 1) 64 0 1 (64 - (if 32 \<le> skip2 then 32 else 0)) k s)" for s
    using stores_invB64_full [of s] stores_invB64_zo [of s] by (cases "32 \<le> skip2") simp_all
  have "memset0 ((line - skip) * 64) (64 * skip) d = inv_clear 64 (line - skip) skip d" for d
    by (cases skip) (simp_all add: inv_clear_def memset0_def mult.commute)
  then show ?thesis unfolding fastInverseDCT2_B64_def Let_def TRANSFORM_INVERSE_def
    using inv_routine_full [OF st assms] by simp
qed

end
