(* ===== verification/FastMts.thy ===== *)
theory FastMts
  imports Transform
begin

text \<open>
  The DST-VII and DCT-VIII routines of \<open>CommonLib/TrQuant_EMT.cpp\<close>, as compiled with
  \<open>JVET_M0497_MATRIX_MULT\<close> off: the bodies of sizes 4, 16 and 32 exploit linear relations between the
  matrix entries, size 8 is a plain matrix product.  Every body is proved to compute the matrix
  product with the table of its transform (for the DCT-VIII of sizes 16 and 32 the code reads the
  DST-VII table).
\<close>

section \<open>DST-VII\<close>

definition fwdDST7_B4_body :: "(nat \<Rightarrow> int) \<Rightarrow> (nat \<Rightarrow> int) \<Rightarrow> (nat \<times> int) list" where
  "fwdDST7_B4_body iT src =
    (let c0 = src 0 + src 3;
         c1 = src 1 + src 3;
         c2 = src 0 - src 1;
         c3 = iT 2 * src 2
     in [(0, iT 0 * c0 + iT 1 * c1 + c3),
         (1, iT 2 * (src 0 + src 1 - src 3)),
         (2, iT 0 * c2 + iT 1 * c0 - c3),
         (3, iT 1 * c2 - iT 0 * c1 + c3)])"

definition fastForwardDST7_B4 :: "int list \<Rightarrow> int list \<Rightarrow> nat \<Rightarrow> nat \<Rightarrow> nat \<Rightarrow> nat \<Rightarrow> int list" where
  "fastForwardDST7_B4 src dst shift line iSkipLine iSkipLine2 =
    (let add = rnd shift;
         iT = core g_trCoreDST7P4 TRANSFORM_FORWARD;
         reducedLine = line - iSkipLine
     in fwd_clear 4 line reducedLine iSkipLine
          (fwd_loop 4 (fwdDST7_B4_body iT) src dst add shift line reducedLine))"

definition invDST7_B4_body :: "(nat \<Rightarrow> int) \<Rightarrow> (nat \<Rightarrow> int) \<Rightarrow> (nat \<times> int) list" where
  "invDST7_B4_body iT src =
    (let c0 = src 0 + src 2;
         c1 = src 2 + src 3;
         c2 = src 0 - src 3;
         c3 = iT 2 * src 1
     in [(0, iT 0 * c0 + iT 1 * c1 + c3),
         (1, iT 1 * c2 - iT 0 * c1 + c3),
         (2, iT 2 * (src 0 - src 2 + src 3)),
         (3, iT 1 * c0 + iT 0 * c2 - c3)])"

definition fastInverseDST7_B4 :: "int list \<Rightarrow> int list \<Rightarrow> nat \<Rightarrow> nat \<Rightarrow> nat \<Rightarrow> nat \<Rightarrow> int \<Rightarrow> int \<Rightarrow> int list" where
  "fastInverseDST7_B4 src dst shift line iSkipLine iSkipLine2 outputMinimum outputMaximum =
    (let add = rnd shift;
         iT = core g_trCoreDST7P4 TRANSFORM_INVERSE;
         reducedLine = line - iSkipLine
     in inv_clear 4 reducedLine iSkipLine
          (inv_loop 4 (invDST7_B4_body iT) src dst add shift line reducedLine outputMinimum outputMaximum))"

definition fastForwardDST7_B8 :: "int list \<Rightarrow> int list \<Rightarrow> nat \<Rightarrow> nat \<Rightarrow> nat \<Rightarrow> nat \<Rightarrow> int list" where
  "fastForwardDST7_B8 src dst shift line iSkipLine iSkipLine2 =
    forwardMatrixMult 8 src dst shift line iSkipLine iSkipLine2 (core g_trCoreDST7P8 TRANSFORM_FORWARD)"

definition fastInverseDST7_B8 :: "int list \<Rightarrow> int list \<Rightarrow> nat \<Rightarrow> nat \<Rightarrow> nat \<Rightarrow> nat \<Rightarrow> int \<Rightarrow> int \<Rightarrow> int list" where
  "fastInverseDST7_B8 src dst shift line iSkipLine iSkipLine2 outputMinimum outputMaximum =
    inverseMatrixMult 8 src dst shift line iSkipLine iSkipLine2 outputMinimum outputMaximum (core g_trCoreDST7P8 TRANSFORM_INVERSE)"

definition fwdDST7_B16_body :: "(nat \<Rightarrow> int) \<Rightarrow> (nat \<Rightarrow> int) \<Rightarrow> (nat \<times> int) list" where
  "fwdDST7_B16_body iT src =
    (let a = (\<lambda>k. src k + src (11 + k));
         b = (\<lambda>k. src (9 - k) + src (11 + k));
         c = (\<lambda>k. src k - src (9 - k));
         d = (\<lambda>k. src k + src (9 - k) - src (11 + k));
         t = iT 10 * src 10
     in [(1, iT 2 * d 0 + iT 5 * d 1 + iT 8 * d 2 + iT 11 * d 3 + iT 14 * d 4),
         (4, iT 8 * d 0 + iT 14 * d 1 + iT 5 * d 2 - iT 2 * d 3 - iT 11 * d 4),
         (7, iT 14 * d 0 + iT 2 * d 1 - iT 11 * d 2 - iT 5 * d 3 + iT 8 * d 4),
         (10, iT 11 * d 0 - iT 8 * d 1 - iT 2 * d 2 + iT 14 * d 3 - iT 5 * d 4),
         (13, iT 5 * d 0 - iT 11 * d 1 + iT 14 * d 2 - iT 8 * d 3 + iT 2 * d 4),
         (5, iT 10 * (src 0 + src 1 - src 3 - src 4 + src 6 + src 7 - src 9 - src 10 + src 12 + src 13 - src 15)),
         (0, iT 0 * a 0 + iT 9 * b 0 + iT 1 * a 1 + iT 8 * b 1 + iT 2 * a 2 + iT 7 * b 2 + iT 3 * a 3 + iT 6 * b 3 + 
             iT 4 * a 4 + iT 5 * b 4 + t),
         (2, iT 4 * c 0 - iT 5 * b 0 + iT 9 * c 1 - iT 0 * b 1 + iT 6 * c 2 + iT 3 * a 2 + iT 1 * c 3 + iT 8 * a 3 + 
             iT 7 * a 4 + iT 2 * b 4 - t),
         (3, iT 6 * a 0 + iT 3 * b 0 + iT 2 * c 1 + iT 7 * a 1 + iT 9 * c 2 + iT 0 * a 2 + iT 4 * c 3 - iT 5 * b 3 - 
             iT 1 * a 4 - iT 8 * b 4 + t),
         (6, iT 8 * a 0 + iT 1 * c 0 + iT 6 * c 1 - iT 3 * b 1 - iT 5 * a 2 - iT 4 * b 2 - iT 7 * c 3 - iT 2 * a 3 - 
             iT 0 * c 4 + iT 9 * b 4 + t),
         (8, iT 4 * c 0 + iT 5 * a 0 - iT 0 * c 1 + iT 9 * b 1 - iT 3 * c 2 - iT 6 * a 2 + iT 1 * c 3 - iT 8 * b 3 + 
             iT 2 * c 4 + iT 7 * a 4 - t),
         (9, iT 7 * c 0 + iT 2 * a 0 - iT 4 * a 1 - iT 5 * b 1 - iT 8 * c 2 + iT 1 * b 2 + iT 9 * a 3 + iT 0 * b 3 + 
             iT 3 * c 4 - iT 6 * b 4 + t),
         (11, iT 9 * a 0 + iT 0 * b 0 - iT 8 * c 1 - iT 1 * a 1 + iT 2 * c 2 - iT 7 * b 2 + iT 6 * a 3 + iT 3 * b 3 - 
             iT 5 * c 4 - iT 4 * a 4 - t),
         (12, iT 7 * c 0 - iT 2 * b 0 - iT 5 * c 1 - iT 4 * a 1 + iT 8 * a 2 + iT 1 * b 2 - iT 0 * a 3 - iT 9 * b 3 - 
             iT 6 * c 4 + iT 3 * b 4 + t),
         (14, iT 3 * a 0 + iT 6 * b 0 - iT 7 * a 1 - iT 2 * b 1 + iT 0 * c 2 + iT 9 * a 2 - iT 4 * c 3 - iT 5 * a 3 + 
             iT 8 * c 4 + iT 1 * a 4 - t),
         (15, iT 1 * c 0 - iT 8 * b 0 - iT 3 * c 1 + iT 6 * b 1 + iT 5 * c 2 - iT 4 * b 2 - iT 7 * c 3 + iT 2 * b 3 + 
             iT 9 * c 4 - iT 0 * b 4 + t)])"

definition fastForwardDST7_B16 :: "int list \<Rightarrow> int list \<Rightarrow> nat \<Rightarrow> nat \<Rightarrow> nat \<Rightarrow> nat \<Rightarrow> int list" where
  "fastForwardDST7_B16 src dst shift line iSkipLine iSkipLine2 =
    (let add = rnd shift;
         iT = core g_trCoreDST7P16 TRANSFORM_FORWARD;
         reducedLine = line - iSkipLine;
         cutoff = 16 - iSkipLine2
     in fwd_clear_rows cutoff line iSkipLine2
          (fwd_clear cutoff line reducedLine iSkipLine
            (fwd_loop 16 (fwdDST7_B16_body iT) src dst add shift line reducedLine)))"

definition invDST7_B16_body :: "(nat \<Rightarrow> int) \<Rightarrow> (nat \<Rightarrow> int) \<Rightarrow> (nat \<times> int) list" where
  "invDST7_B16_body iT src =
    (let a = (\<lambda>k. src k + src (10 - k));
         b = (\<lambda>k. src (11 + k) + src (10 - k));
         c = (\<lambda>k. src k - src (11 + k));
         d = (\<lambda>k. src k + src (11 + k) - src (10 - k));
         t = iT 10 * src 5
     in [(2, iT 2 * d 0 + iT 8 * d 1 + iT 14 * d 2 + iT 11 * d 3 + iT 5 * d 4),
         (5, iT 5 * d 0 + iT 14 * d 1 + iT 2 * d 2 - iT 8 * d 3 - iT 11 * d 4),
         (8, iT 8 * d 0 + iT 5 * d 1 - iT 11 * d 2 - iT 2 * d 3 + iT 14 * d 4),
         (11, iT 11 * d 0 - iT 2 * d 1 - iT 5 * d 2 + iT 14 * d 3 - iT 8 * d 4),
         (14, iT 14 * d 0 - iT 11 * d 1 + iT 8 * d 2 - iT 5 * d 3 + iT 2 * d 4),
         (10, iT 10 * (src 0 - src 2 + src 3 - src 5 + src 6 - src 8 + src 9 - src 11 + src 12 - src 14 + src 15)),
         (0, iT 0 * a 0 + iT 9 * b 0 + iT 2 * a 1 + iT 7 * b 1 + iT 4 * a 2 + iT 5 * b 2 + iT 6 * a 3 + iT 3 * b 3 + 
             iT 8 * a 4 + iT 1 * b 4 + t),
         (1, iT 1 * c 0 - iT 8 * b 0 + iT 5 * c 1 - iT 4 * b 1 + iT 9 * c 2 - iT 0 * b 2 + iT 2 * a 3 + iT 7 * c 3 + 
             iT 6 * a 4 + iT 3 * c 4 + t),
         (3, iT 3 * a 0 + iT 6 * b 0 + iT 0 * c 1 + iT 9 * a 1 + iT 1 * a 2 + iT 8 * c 2 + iT 4 * c 3 - iT 5 * b 3 - 
             iT 2 * a 4 - iT 7 * b 4 - t),
         (4, iT 4 * c 0 - iT 5 * b 0 + iT 6 * c 1 + iT 3 * a 1 + iT 7 * a 2 + iT 2 * b 2 - iT 1 * c 3 + iT 8 * b 3 - 
             iT 9 * c 4 - iT 0 * a 4 - t),
         (6, iT 6 * a 0 + iT 3 * b 0 + iT 9 * c 1 + iT 0 * a 1 - iT 1 * a 2 - iT 8 * b 2 - iT 4 * c 3 - iT 5 * a 3 - 
             iT 2 * c 4 + iT 7 * b 4 + t),
         (7, iT 7 * c 0 - iT 2 * b 0 + iT 8 * a 1 + iT 1 * b 1 - iT 6 * c 2 + iT 3 * b 2 - iT 9 * a 3 - iT 0 * b 3 + 
             iT 5 * c 4 - iT 4 * b 4 + t),
         (9, iT 9 * a 0 + iT 0 * b 0 + iT 2 * c 1 - iT 7 * b 1 - iT 5 * c 2 - iT 4 * a 2 + iT 3 * a 3 + iT 6 * b 3 + 
             iT 8 * c 4 - iT 1 * b 4 - t),
         (12, iT 1 * c 0 + iT 8 * a 0 - iT 5 * a 1 - iT 4 * b 1 - iT 0 * c 2 + iT 9 * b 2 + iT 7 * c 3 - iT 2 * b 3 - 
             iT 6 * c 4 - iT 3 * a 4 + t),
         (13, iT 7 * c 0 + iT 2 * a 0 - iT 8 * c 1 + iT 1 * b 1 + iT 3 * c 2 - iT 6 * b 2 + iT 0 * a 3 + iT 9 * b 3 - 
             iT 5 * a 4 - iT 4 * b 4 + t),
         (15, iT 4 * c 0 + iT 5 * a 0 - iT 3 * c 1 - iT 6 * a 1 + iT 2 * c 2 + iT 7 * a 2 - iT 1 * c 3 - iT 8 * a 3 + 
             iT 0 * c 4 + iT 9 * a 4 - t)])"

definition fastInverseDST7_B16 :: "int list \<Rightarrow> int list \<Rightarrow> nat \<Rightarrow> nat \<Rightarrow> nat \<Rightarrow> nat \<Rightarrow> int \<Rightarrow> int \<Rightarrow> int list" where
  "fastInverseDST7_B16 src dst shift line iSkipLine iSkipLine2 outputMinimum outputMaximum =
    (let add = rnd shift;
         iT = core g_trCoreDST7P16 TRANSFORM_INVERSE;
         reducedLine = line - iSkipLine
     in inv_clear 16 reducedLine iSkipLine
          (inv_loop 16 (invDST7_B16_body iT) src dst add shift line reducedLine outputMinimum outputMaximum))"

definition fwdDST7_B32_body :: "(nat \<Rightarrow> int) \<Rightarrow> (nat \<Rightarrow> int) \<Rightarrow> (nat \<times> int) list" where
  "fwdDST7_B32_body iT src =
    (let a0 = (\<lambda>k. src k - src (11 - k));
         a1 = (\<lambda>k. src k + src (13 + k));
         a2 = (\<lambda>k. src k + src (24 - k));
         a3 = (\<lambda>k. src k - src (26 + k));
         a4 = (\<lambda>k. src (6 + k) + src (18 - k));
         a5 = (\<lambda>k. src (6 + k) + src (19 + k));
         a6 = (\<lambda>k. src (6 + k) - src (31 - k));
         a7 = (\<lambda>k. src (13 + k) - src (24 - k));
         a8 = (\<lambda>k. src (13 + k) + src (26 + k));
         a9 = (\<lambda>k. src (19 + k) + src (31 - k));
         b = (\<lambda>k. src k + src (11 - k) - src (13 + k) - src (24 - k) + src (26 + k));
         c = (\<lambda>k. src k + src (3 - k) - src (5 + k) - src (8 - k) + src (10 + k) + src (13 - k) - src (15 + 
             k) - src (18 - k) + src (20 + k) + src (23 - k) - src (25 + k) - src (28 - k) + src (30 + k));
         t0 = iT 12 * src 12 + iT 25 * src 25;
         t1 = iT 12 * src 25 - iT 25 * src 12
     in [(0, iT 0 * a3 0 + iT 11 * a6 5 + iT 13 * a8 0 + iT 24 * a9 5 + iT 1 * a3 1 + iT 10 * a6 4 + iT 14 * a8 1 + 
             iT 23 * a9 4 + iT 2 * a3 2 + iT 9 * a6 3 + iT 15 * a8 2 + iT 22 * a9 3 + iT 3 * a3 3 + iT 8 * a6 2 + iT 16 * 
             a8 3 + iT 21 * a9 2 + iT 4 * a3 4 + iT 7 * a6 1 + iT 17 * a8 4 + iT 20 * a9 1 + iT 5 * a3 5 + iT 6 * a6 0 + 
             iT 18 * a8 5 + iT 19 * a9 0 + t0),
         (1, - iT 0 * a5 2 + iT 11 * a0 3 + iT 13 * a4 2 + iT 24 * a6 2 + iT 1 * a9 1 + iT 10 * a8 4 + iT 14 * a3 4 + 
             iT 23 * a6 1 + iT 2 * a0 0 - iT 9 * a5 5 + iT 15 * a6 5 + iT 22 * a4 5 - iT 3 * a5 3 + iT 8 * a0 2 + iT 16 * 
             a4 3 + iT 21 * a6 3 + iT 4 * a9 0 + iT 7 * a8 5 + iT 17 * a3 5 + iT 20 * a6 0 + iT 5 * a0 1 - iT 6 * a5 4 + 
             iT 18 * a6 4 + iT 19 * a4 4 - t1),
         (3, - iT 0 * a9 4 - iT 11 * a5 4 + iT 13 * a2 1 - iT 24 * a7 1 - iT 1 * a0 3 - iT 10 * a1 3 + iT 14 * a3 3 + 
             iT 23 * a2 3 + iT 2 * a8 5 + iT 9 * a9 0 + iT 15 * a6 0 + iT 22 * a3 5 - iT 3 * a1 4 - iT 8 * a0 4 + iT 16 * 
             a2 4 + iT 21 * a3 4 - iT 4 * a5 3 - iT 7 * a9 3 - iT 17 * a7 2 + iT 20 * a2 2 + iT 5 * a8 0 + iT 6 * a1 0 - 
             iT 18 * a4 5 - iT 19 * a7 0 + t1),
         (4, - iT 0 * a3 2 - iT 11 * a2 2 + iT 13 * a1 2 + iT 24 * a0 2 + iT 1 * a6 0 + iT 10 * a3 5 + iT 14 * a9 0 + 
             iT 23 * a8 5 - iT 2 * a2 3 - iT 9 * a3 3 + iT 15 * a0 3 + iT 22 * a1 3 - iT 3 * a7 0 + iT 8 * a2 0 - iT 16 * 
             a9 5 - iT 21 * a5 5 + iT 4 * a4 4 + iT 7 * a6 4 + iT 17 * a0 1 - iT 20 * a5 4 - iT 5 * a7 4 - iT 6 * a4 1 + 
             iT 18 * a8 4 + iT 19 * a1 4 - t0),
         (5, - iT 0 * a3 5 - iT 11 * a6 0 - iT 13 * a8 5 - iT 24 * a9 0 + iT 1 * a6 5 + iT 10 * a3 0 + iT 14 * a9 5 + 
             iT 23 * a8 0 - iT 2 * a7 4 + iT 9 * a2 4 - iT 15 * a9 1 - iT 22 * a5 1 - iT 3 * a7 1 - iT 8 * a4 4 + iT 16 * 
             a8 1 + iT 21 * a1 1 + iT 4 * a6 2 + iT 7 * a4 2 - iT 17 * a5 2 + iT 20 * a0 3 - iT 5 * a3 2 - iT 6 * a2 2 + 
             iT 18 * a1 2 + iT 19 * a0 2 + t0),
         (8, iT 0 * a9 3 + iT 11 * a8 2 + iT 13 * a3 2 + iT 24 * a6 3 + iT 1 * a1 5 + iT 10 * a0 5 - iT 14 * a2 5 - 
             iT 23 * a3 5 - iT 2 * a1 3 - iT 9 * a8 3 + iT 15 * a7 3 + iT 22 * a4 2 - iT 3 * a9 5 - iT 8 * a5 5 + iT 16 * 
             a2 0 - iT 21 * a7 0 - iT 4 * a1 1 - iT 7 * a0 1 + iT 17 * a2 1 + iT 20 * a3 1 + iT 5 * a5 1 + iT 6 * a9 1 + 
             iT 18 * a7 4 - iT 19 * a2 4 + t1),
         (9, - iT 0 * a2 1 - iT 11 * a3 1 + iT 13 * a0 1 + iT 24 * a1 1 + iT 1 * a7 3 - iT 10 * a2 3 + iT 14 * a9 2 + 
             iT 23 * a5 2 + iT 2 * a4 0 + iT 9 * a7 5 - iT 15 * a1 5 - iT 22 * a8 5 + iT 3 * a3 4 + iT 8 * a2 4 - iT 16 * 
             a1 4 - iT 21 * a0 4 + iT 4 * a6 3 + iT 7 * a3 2 + iT 17 * a9 3 + iT 20 * a8 2 + iT 5 * a4 5 + iT 6 * a6 5 + 
             iT 18 * a0 0 - iT 19 * a5 5 - t0),
         (10, - iT 0 * a6 1 - iT 11 * a4 1 + iT 13 * a5 1 - iT 24 * a0 4 + iT 1 * a2 2 - iT 10 * a7 2 - iT 14 * a5 3 
             - iT 23 * a9 3 + iT 2 * a6 4 + iT 9 * a4 4 - iT 15 * a5 4 + iT 22 * a0 1 - iT 3 * a2 5 + iT 8 * a7 5 + iT 16 
             * a5 0 + iT 21 * a9 0 - iT 4 * a7 0 - iT 7 * a4 5 + iT 17 * a8 0 + iT 20 * a1 0 + iT 5 * a4 2 + iT 6 * a7 3 
             - iT 18 * a1 3 - iT 19 * a8 3 + t0),
         (11, iT 0 * a1 3 + iT 11 * a0 3 - iT 13 * a2 3 - iT 24 * a3 3 + iT 1 * a9 1 + iT 10 * a5 1 - iT 14 * a2 4 + 
             iT 23 * a7 4 + iT 2 * a8 0 + iT 9 * a9 5 + iT 15 * a6 5 + iT 22 * a3 0 - iT 3 * a0 2 + iT 8 * a5 3 - iT 16 * 
             a6 3 - iT 21 * a4 3 - iT 4 * a5 0 + iT 7 * a0 5 + iT 17 * a4 0 + iT 20 * a6 0 - iT 5 * a9 4 - iT 6 * a5 4 + 
             iT 18 * a2 1 - iT 19 * a7 1 - t1),
         (13, - iT 0 * a0 0 - iT 11 * a1 0 + iT 13 * a3 0 + iT 24 * a2 0 - iT 1 * a5 4 + iT 10 * a0 1 + iT 14 * a4 4 
             + iT 23 * a6 4 + iT 2 * a9 3 + iT 9 * a5 3 - iT 15 * a2 2 + iT 22 * a7 2 - iT 3 * a8 3 - iT 8 * a9 2 - iT 16 
             * a6 2 - iT 21 * a3 3 + iT 4 * a1 4 + iT 7 * a8 4 - iT 17 * a7 4 - iT 20 * a4 1 - iT 5 * a0 5 - iT 6 * a1 5 
             + iT 18 * a3 5 + iT 19 * a2 5 + t1),
         (14, iT 0 * a4 2 + iT 11 * a7 3 - iT 13 * a1 3 - iT 24 * a8 3 + iT 1 * a4 1 + iT 10 * a6 1 + iT 14 * a0 4 - 
             iT 23 * a5 1 - iT 2 * a3 0 - iT 9 * a2 0 + iT 15 * a1 0 + iT 22 * a0 0 - iT 3 * a6 3 - iT 8 * a4 3 + iT 16 * 
             a5 3 - iT 21 * a0 2 - iT 4 * a7 5 - iT 7 * a4 0 + iT 17 * a8 5 + iT 20 * a1 5 + iT 5 * a6 4 + iT 6 * a3 1 + 
             iT 18 * a9 4 + iT 19 * a8 1 - t0),
         (15, - iT 0 * a7 4 - iT 11 * a4 1 + iT 13 * a8 4 + iT 24 * a1 4 + iT 1 * a2 2 + iT 10 * a3 2 - iT 14 * a0 2 
             - iT 23 * a1 2 + iT 2 * a2 1 - iT 9 * a7 1 - iT 15 * a5 4 - iT 22 * a9 4 - iT 3 * a7 5 + iT 8 * a2 5 - iT 16 
             * a9 0 - iT 21 * a5 0 - iT 4 * a2 0 - iT 7 * a3 0 + iT 17 * a0 0 + iT 20 * a1 0 - iT 5 * a2 3 + iT 6 * a7 3 
             + iT 18 * a5 2 + iT 19 * a9 2 + t0),
         (16, - iT 0 * a0 1 + iT 11 * a5 4 - iT 13 * a6 4 - iT 24 * a4 4 + iT 1 * a0 3 - iT 10 * a5 2 + iT 14 * a6 2 
             + iT 23 * a4 2 - iT 2 * a0 5 + iT 9 * a5 0 - iT 15 * a6 0 - iT 22 * a4 0 - iT 3 * a0 4 - iT 8 * a1 4 + iT 16 
             * a3 4 + iT 21 * a2 4 + iT 4 * a0 2 + iT 7 * a1 2 - iT 17 * a3 2 - iT 20 * a2 2 - iT 5 * a0 0 - iT 6 * a1 0 
             + iT 18 * a3 0 + iT 19 * a2 0 - t1),
         (18, iT 0 * a0 5 + iT 11 * a1 5 - iT 13 * a3 5 - iT 24 * a2 5 - iT 1 * a1 0 - iT 10 * a0 0 + iT 14 * a2 0 + 
             iT 23 * a3 0 - iT 2 * a5 1 + iT 9 * a0 4 + iT 15 * a4 1 + iT 22 * a6 1 - iT 3 * a8 1 - iT 8 * a1 1 + iT 16 * 
             a4 4 + iT 21 * a7 1 - iT 4 * a9 2 - iT 7 * a5 2 + iT 17 * a2 3 - iT 20 * a7 3 - iT 5 * a9 3 - iT 6 * a8 2 - 
             iT 18 * a3 2 - iT 19 * a6 3 + t1),
         (20, - iT 0 * a4 0 - iT 11 * a6 0 - iT 13 * a0 5 + iT 24 * a5 0 + iT 1 * a6 5 + iT 10 * a4 5 - iT 14 * a5 5 
             + iT 23 * a0 0 - iT 2 * a6 1 - iT 9 * a3 4 - iT 15 * a9 1 - iT 22 * a8 4 + iT 3 * a4 4 + iT 8 * a7 1 - iT 16 
             * a1 1 - iT 21 * a8 1 - iT 4 * a3 3 - iT 7 * a2 3 + iT 17 * a1 3 + iT 20 * a0 3 + iT 5 * a7 2 - iT 6 * a2 2 
             + iT 18 * a9 3 + iT 19 * a5 3 + t0),
         (21, - iT 0 * a1 2 - iT 11 * a8 2 + iT 13 * a7 2 + iT 24 * a4 3 - iT 1 * a1 5 - iT 10 * a8 5 + iT 14 * a7 5 
             + iT 23 * a4 0 - iT 2 * a5 2 - iT 9 * a9 2 - iT 15 * a7 3 + iT 22 * a2 3 - iT 3 * a5 5 - iT 8 * a9 5 - iT 16 
             * a7 0 + iT 21 * a2 0 - iT 4 * a8 1 - iT 7 * a9 4 - iT 17 * a6 4 - iT 20 * a3 1 - iT 5 * a8 4 - iT 6 * a9 1 
             - iT 18 * a6 1 - iT 19 * a3 4 - t1),
         (23, - iT 0 * a8 4 - iT 11 * a9 1 - iT 13 * a6 1 - iT 24 * a3 4 + iT 1 * a8 2 + iT 10 * a1 2 - iT 14 * a4 3 
             - iT 23 * a7 2 + iT 2 * a0 1 + iT 9 * a1 1 - iT 15 * a3 1 - iT 22 * a2 1 - iT 3 * a5 0 - iT 8 * a9 0 - iT 16 
             * a7 5 + iT 21 * a2 5 + iT 4 * a9 5 + iT 7 * a8 0 + iT 17 * a3 0 + iT 20 * a6 5 - iT 5 * a5 2 + iT 6 * a0 3 
             + iT 18 * a4 2 + iT 19 * a6 2 + t1),
         (24, - iT 0 * a2 3 + iT 11 * a7 3 + iT 13 * a5 2 + iT 24 * a9 2 + iT 1 * a4 1 + iT 10 * a7 4 - iT 14 * a1 4 
             - iT 23 * a8 4 - iT 2 * a4 5 - iT 9 * a7 0 + iT 15 * a1 0 + iT 22 * a8 0 + iT 3 * a4 3 + iT 8 * a6 3 + iT 16 
             * a0 2 - iT 21 * a5 3 - iT 4 * a2 5 - iT 7 * a3 5 + iT 17 * a0 5 + iT 20 * a1 5 + iT 5 * a2 1 + iT 6 * a3 1 
             - iT 18 * a0 1 - iT 19 * a1 1 - t0),
         (25, iT 0 * a4 5 + iT 11 * a6 5 + iT 13 * a0 0 - iT 24 * a5 5 + iT 1 * a3 1 + iT 10 * a2 1 - iT 14 * a1 1 - 
             iT 23 * a0 1 - iT 2 * a7 2 - iT 9 * a4 3 + iT 15 * a8 2 + iT 22 * a1 2 - iT 3 * a6 2 - iT 8 * a3 3 - iT 16 * 
             a9 2 - iT 21 * a8 3 - iT 4 * a2 4 + iT 7 * a7 4 + iT 17 * a5 1 + iT 20 * a9 1 + iT 5 * a4 0 + iT 6 * a6 0 + 
             iT 18 * a0 5 - iT 19 * a5 0 + t0),
         (26, iT 0 * a8 0 + iT 11 * a1 0 - iT 13 * a4 5 - iT 24 * a7 0 + iT 1 * a5 4 + iT 10 * a9 4 + iT 14 * a7 1 - 
             iT 23 * a2 1 - iT 2 * a1 2 - iT 9 * a0 2 + iT 15 * a2 2 + iT 22 * a3 2 - iT 3 * a9 2 - iT 8 * a8 3 - iT 16 * 
             a3 3 - iT 21 * a6 2 + iT 4 * a0 4 - iT 7 * a5 1 + iT 17 * a6 1 + iT 20 * a4 1 + iT 5 * a8 5 + iT 6 * a1 5 - 
             iT 18 * a4 0 - iT 19 * a7 5 - t1),
         (28, - iT 0 * a5 1 - iT 11 * a9 1 - iT 13 * a7 4 + iT 24 * a2 4 + iT 1 * a8 2 + iT 10 * a9 3 + iT 14 * a6 3 
             + iT 23 * a3 2 - iT 2 * a9 4 - iT 9 * a8 1 - iT 15 * a3 1 - iT 22 * a6 4 + iT 3 * a9 0 + iT 8 * a5 0 - iT 16 
             * a2 5 + iT 21 * a7 5 - iT 4 * a5 5 + iT 7 * a0 0 + iT 17 * a4 5 + iT 20 * a6 5 + iT 5 * a1 3 + iT 6 * a0 3 
             - iT 18 * a2 3 - iT 19 * a3 3 + t1),
         (29, - iT 0 * a6 4 - iT 11 * a3 1 - iT 13 * a9 4 - iT 24 * a8 1 + iT 1 * a7 3 + iT 10 * a4 2 - iT 14 * a8 3 
             - iT 23 * a1 3 + iT 2 * a3 5 + iT 9 * a2 5 - iT 15 * a1 5 - iT 22 * a0 5 - iT 3 * a2 4 - iT 8 * a3 4 + iT 16 
             * a0 4 + iT 21 * a1 4 - iT 4 * a4 3 - iT 7 * a7 2 + iT 17 * a1 2 + iT 20 * a8 2 + iT 5 * a3 0 + iT 6 * a6 5 
             + iT 18 * a8 0 + iT 19 * a9 5 - t0),
         (30, - iT 0 * a7 2 + iT 11 * a2 2 - iT 13 * a9 3 - iT 24 * a5 3 - iT 1 * a6 0 - iT 10 * a4 0 + iT 14 * a5 0 
             - iT 23 * a0 5 - iT 2 * a4 2 - iT 9 * a6 2 - iT 15 * a0 3 + iT 22 * a5 2 + iT 3 * a2 0 - iT 8 * a7 0 - iT 16 
             * a5 5 - iT 21 * a9 5 + iT 4 * a7 1 - iT 7 * a2 1 + iT 17 * a9 4 + iT 20 * a5 4 + iT 5 * a6 1 + iT 6 * a4 1 
             - iT 18 * a5 1 + iT 19 * a0 4 + t0),
         (31, - iT 0 * a8 5 - iT 11 * a1 5 + iT 13 * a4 0 + iT 24 * a7 5 + iT 1 * a1 0 + iT 10 * a8 0 - iT 14 * a7 0 
             - iT 23 * a4 5 + iT 2 * a8 4 + iT 9 * a1 4 - iT 15 * a4 1 - iT 22 * a7 4 - iT 3 * a1 1 - iT 8 * a8 1 + iT 16 
             * a7 1 + iT 21 * a4 4 - iT 4 * a8 3 - iT 7 * a1 3 + iT 17 * a4 2 + iT 20 * a7 3 + iT 5 * a1 2 + iT 6 * a8 2 
             - iT 18 * a7 2 - iT 19 * a4 3 - t1),
         (2, iT 4 * b 0 + iT 9 * b 1 + iT 14 * b 2 + iT 19 * b 3 + iT 24 * b 4 + iT 29 * b 5),
         (7, iT 14 * b 0 + iT 29 * b 1 + iT 19 * b 2 + iT 4 * b 3 - iT 9 * b 4 - iT 24 * b 5),
         (12, iT 24 * b 0 + iT 14 * b 1 - iT 9 * b 2 - iT 29 * b 3 - iT 4 * b 4 + iT 19 * b 5),
         (17, iT 29 * b 0 - iT 4 * b 1 - iT 24 * b 2 + iT 9 * b 3 + iT 19 * b 4 - iT 14 * b 5),
         (22, iT 19 * b 0 - iT 24 * b 1 + iT 4 * b 2 + iT 14 * b 3 - iT 29 * b 4 + iT 9 * b 5),
         (27, iT 9 * b 0 - iT 19 * b 1 + iT 29 * b 2 - iT 24 * b 3 + iT 14 * b 4 - iT 4 * b 5),
         (6, iT 12 * c 0 + iT 25 * c 1),
         (19, iT 25 * c 0 - iT 12 * c 1)])"

definition fastForwardDST7_B32 :: "int list \<Rightarrow> int list \<Rightarrow> nat \<Rightarrow> nat \<Rightarrow> nat \<Rightarrow> nat \<Rightarrow> int list" where
  "fastForwardDST7_B32 src dst shift line iSkipLine iSkipLine2 =
    (let add = rnd shift;
         iT = core g_trCoreDST7P32 TRANSFORM_FORWARD;
         reducedLine = line - iSkipLine;
         cutoff = 32 - iSkipLine2
     in fwd_clear_rows cutoff line iSkipLine2
          (fwd_clear cutoff line reducedLine iSkipLine
            (fwd_loop 32 (fwdDST7_B32_body iT) src dst add shift line reducedLine)))"

definition invDST7_B32_body :: "(nat \<Rightarrow> int) \<Rightarrow> (nat \<Rightarrow> int) \<Rightarrow> (nat \<times> int) list" where
  "invDST7_B32_body iT src =
    (let a0 = (\<lambda>k. src k + src (12 - k));
         a1 = (\<lambda>k. src k - src (13 + k));
         a2 = (\<lambda>k. src k + src (25 - k));
         a3 = (\<lambda>k. src k - src (26 + k));
         a4 = (\<lambda>k. src (7 + k) + src (18 - k));
         a5 = (\<lambda>k. src (7 + k) - src (20 + k));
         a6 = (\<lambda>k. src (7 + k) + src (31 - k));
         a7 = (\<lambda>k. src (13 + k) + src (25 - k));
         a8 = (\<lambda>k. src (13 + k) - src (26 + k));
         a9 = (\<lambda>k. src (20 + k) + src (31 - k));
         b = (\<lambda>k. src k - src (12 - k) + src (13 + k) - src (25 - k) + src (26 + k));
         c = (\<lambda>k. src k - src (4 - k) + src (5 + k) - src (9 - k) + src (10 + k) - src (14 - k) + src (15 + 
             k) - src (19 - k) + src (20 + k) - src (24 - k) + src (25 + k) - src (29 - k) + src (30 + k));
         t0 = iT 12 * src 6 + iT 25 * src 19;
         t1 = iT 25 * src 6 - iT 12 * src 19
     in [(0, iT 0 * a1 0 - iT 11 * a8 0 + iT 13 * a7 0 + iT 24 * a4 5 - iT 1 * a8 5 + iT 10 * a1 5 + iT 14 * a4 0 + 
             iT 23 * a7 5 + iT 2 * a1 1 - iT 9 * a8 1 + iT 15 * a7 1 + iT 22 * a4 4 - iT 3 * a8 4 + iT 8 * a1 4 + iT 16 * 
             a4 1 + iT 21 * a7 4 + iT 4 * a1 2 - iT 7 * a8 2 + iT 17 * a7 2 + iT 20 * a4 3 - iT 5 * a8 3 + iT 6 * a1 3 + 
             iT 18 * a4 2 + iT 19 * a7 3 + t0),
         (1, - iT 0 * a4 2 - iT 11 * a6 2 + iT 13 * a0 3 + iT 24 * a5 2 + iT 1 * a2 0 + iT 10 * a7 0 + iT 14 * a5 5 - 
             iT 23 * a9 5 + iT 2 * a7 2 + iT 9 * a2 2 - iT 15 * a9 3 + iT 22 * a5 3 - iT 3 * a6 0 - iT 8 * a4 0 + iT 16 * 
             a5 0 + iT 21 * a0 5 - iT 4 * a4 1 - iT 7 * a6 1 + iT 17 * a0 4 + iT 20 * a5 1 + iT 5 * a2 1 + iT 6 * a7 1 + 
             iT 18 * a5 4 - iT 19 * a9 4 + t1),
         (2, - iT 0 * a2 4 - iT 11 * a3 4 + iT 13 * a0 4 + iT 24 * a1 4 + iT 1 * a4 3 + iT 10 * a7 2 + iT 14 * a1 2 - 
             iT 23 * a8 2 + iT 2 * a3 0 - iT 9 * a6 5 - iT 15 * a8 0 + iT 22 * a9 5 - iT 3 * a6 4 + iT 8 * a3 1 + iT 16 * 
             a9 4 - iT 21 * a8 1 + iT 4 * a7 3 + iT 7 * a4 2 - iT 17 * a8 3 + iT 20 * a1 3 - iT 5 * a3 5 - iT 6 * a2 5 + 
             iT 18 * a1 5 + iT 19 * a0 5 + t1),
         (3, iT 0 * a5 4 + iT 11 * a0 1 - iT 13 * a4 4 - iT 24 * a6 4 - iT 1 * a1 3 - iT 10 * a0 3 + iT 14 * a2 3 + 
             iT 23 * a3 3 - iT 2 * a0 4 - iT 9 * a1 4 + iT 15 * a3 4 + iT 22 * a2 4 + iT 3 * a0 0 + iT 8 * a5 5 - iT 16 * 
             a6 5 - iT 21 * a4 5 + iT 4 * a5 0 - iT 7 * a9 0 + iT 17 * a7 5 + iT 20 * a2 5 - iT 5 * a8 2 + iT 6 * a9 3 - 
             iT 18 * a6 3 + iT 19 * a3 2 + t0),
         (5, - iT 0 * a1 5 + iT 11 * a8 5 - iT 13 * a7 5 - iT 24 * a4 0 + iT 1 * a5 1 + iT 10 * a0 4 - iT 14 * a4 1 - 
             iT 23 * a6 1 - iT 2 * a8 3 + iT 9 * a9 2 - iT 15 * a6 2 + iT 22 * a3 3 - iT 3 * a0 2 - iT 8 * a1 2 + iT 16 * 
             a3 2 + iT 21 * a2 2 - iT 4 * a9 4 + iT 7 * a5 4 + iT 17 * a2 1 + iT 20 * a7 1 + iT 5 * a1 0 - iT 6 * a8 0 + 
             iT 18 * a7 0 + iT 19 * a4 5 - t0),
         (6, - iT 0 * a7 5 - iT 11 * a2 5 + iT 13 * a9 0 - iT 24 * a5 0 + iT 1 * a3 4 - iT 10 * a6 1 - iT 14 * a8 4 + 
             iT 23 * a9 1 + iT 2 * a4 2 + iT 9 * a7 3 + iT 15 * a1 3 - iT 22 * a8 3 - iT 3 * a2 2 - iT 8 * a3 2 + iT 16 * 
             a0 2 + iT 21 * a1 2 - iT 4 * a6 4 - iT 7 * a4 4 + iT 17 * a5 4 + iT 20 * a0 1 + iT 5 * a7 0 + iT 6 * a2 0 - 
             iT 18 * a9 5 + iT 19 * a5 5 - t1),
         (7, - iT 0 * a6 3 - iT 11 * a4 3 + iT 13 * a5 3 + iT 24 * a0 2 + iT 1 * a7 1 + iT 10 * a4 4 - iT 14 * a8 1 + 
             iT 23 * a1 1 - iT 2 * a7 5 - iT 9 * a4 0 + iT 15 * a8 5 - iT 22 * a1 5 + iT 3 * a7 3 + iT 8 * a2 3 - iT 16 * 
             a9 2 + iT 21 * a5 2 - iT 4 * a6 5 + iT 7 * a3 0 + iT 17 * a9 5 - iT 20 * a8 0 + iT 5 * a6 1 - iT 6 * a3 4 - 
             iT 18 * a9 1 + iT 19 * a8 4 - t1),
         (8, - iT 0 * a1 1 - iT 11 * a0 1 + iT 13 * a2 1 + iT 24 * a3 1 + iT 1 * a1 3 - iT 10 * a8 3 + iT 14 * a7 3 + 
             iT 23 * a4 2 - iT 2 * a9 1 + iT 9 * a8 4 - iT 15 * a3 4 + iT 22 * a6 1 + iT 3 * a5 5 + iT 8 * a0 0 - iT 16 * 
             a4 5 - iT 21 * a6 5 + iT 4 * a0 5 + iT 7 * a1 5 - iT 17 * a3 5 - iT 20 * a2 5 + iT 5 * a5 3 - iT 6 * a9 3 + 
             iT 18 * a7 2 + iT 19 * a2 2 - t0),
         (10, iT 0 * a8 3 - iT 11 * a1 3 - iT 13 * a4 2 - iT 24 * a7 3 - iT 1 * a8 0 + iT 10 * a1 0 + iT 14 * a4 5 + 
             iT 23 * a7 0 + iT 2 * a5 3 + iT 9 * a0 2 - iT 15 * a4 3 - iT 22 * a6 3 - iT 3 * a5 0 - iT 8 * a0 5 + iT 16 * 
             a4 0 + iT 21 * a6 0 + iT 4 * a1 4 + iT 7 * a0 4 - iT 17 * a2 4 - iT 20 * a3 4 - iT 5 * a1 1 - iT 6 * a0 1 + 
             iT 18 * a2 1 + iT 19 * a3 1 + t0),
         (11, iT 0 * a7 0 + iT 11 * a2 0 - iT 13 * a9 5 + iT 24 * a5 5 + iT 1 * a2 5 + iT 10 * a7 5 + iT 14 * a5 0 - 
             iT 23 * a9 0 - iT 2 * a2 1 - iT 9 * a3 1 + iT 15 * a0 1 + iT 22 * a1 1 - iT 3 * a7 4 - iT 8 * a4 1 + iT 16 * 
             a8 4 - iT 21 * a1 4 + iT 4 * a3 2 - iT 7 * a6 3 - iT 17 * a8 2 + iT 20 * a9 3 + iT 5 * a4 2 + iT 6 * a6 2 - 
             iT 18 * a0 3 - iT 19 * a5 2 + t1),
         (13, iT 0 * a9 5 - iT 11 * a8 0 + iT 13 * a3 0 - iT 24 * a6 5 - iT 1 * a8 5 + iT 10 * a9 0 - iT 14 * a6 0 + 
             iT 23 * a3 5 + iT 2 * a5 4 - iT 9 * a9 4 + iT 15 * a7 1 + iT 22 * a2 1 - iT 3 * a1 4 + iT 8 * a8 4 - iT 16 * 
             a7 4 - iT 21 * a4 1 - iT 4 * a0 2 - iT 7 * a5 3 + iT 17 * a6 3 + iT 20 * a4 3 + iT 5 * a0 3 + iT 6 * a1 3 - 
             iT 18 * a3 3 - iT 19 * a2 3 + t0),
         (15, - iT 0 * a9 1 + iT 11 * a5 1 + iT 13 * a2 4 + iT 24 * a7 4 + iT 1 * a9 3 - iT 10 * a5 3 - iT 14 * a2 2 
             - iT 23 * a7 2 - iT 2 * a9 5 + iT 9 * a5 5 + iT 15 * a2 0 + iT 22 * a7 0 + iT 3 * a9 4 - iT 8 * a8 1 + iT 16 
             * a3 1 - iT 21 * a6 4 - iT 4 * a9 2 + iT 7 * a8 3 - iT 17 * a3 3 + iT 20 * a6 2 + iT 5 * a9 0 - iT 6 * a8 5 
             + iT 18 * a3 5 - iT 19 * a6 0 - t0),
         (16, iT 0 * a4 4 + iT 11 * a7 1 + iT 13 * a1 1 - iT 24 * a8 1 + iT 1 * a6 2 - iT 10 * a3 3 - iT 14 * a9 2 + 
             iT 23 * a8 3 - iT 2 * a6 1 - iT 9 * a4 1 + iT 15 * a5 1 + iT 22 * a0 4 - iT 3 * a4 5 - iT 8 * a6 5 + iT 16 * 
             a0 0 + iT 21 * a5 5 - iT 4 * a6 0 + iT 7 * a3 5 + iT 17 * a9 0 - iT 20 * a8 5 + iT 5 * a6 3 + iT 6 * a4 3 - 
             iT 18 * a5 3 - iT 19 * a0 2 - t1),
         (17, - iT 0 * a7 2 - iT 11 * a4 3 + iT 13 * a8 2 - iT 24 * a1 2 + iT 1 * a7 1 + iT 10 * a2 1 - iT 14 * a9 4 
             + iT 23 * a5 4 - iT 2 * a3 5 + iT 9 * a6 0 + iT 15 * a8 5 - iT 22 * a9 0 - iT 3 * a2 3 - iT 8 * a7 3 - iT 16 
             * a5 2 + iT 21 * a9 2 + iT 4 * a4 5 + iT 7 * a7 0 + iT 17 * a1 0 - iT 20 * a8 0 - iT 5 * a2 4 - iT 6 * a3 4 
             + iT 18 * a0 4 + iT 19 * a1 4 - t1),
         (18, - iT 0 * a9 0 + iT 11 * a8 5 - iT 13 * a3 5 + iT 24 * a6 0 + iT 1 * a5 1 - iT 10 * a9 1 + iT 14 * a7 4 
             + iT 23 * a2 4 + iT 2 * a0 3 + iT 9 * a5 2 - iT 15 * a6 2 - iT 22 * a4 2 + iT 3 * a1 2 + iT 8 * a0 2 - iT 16 
             * a2 2 - iT 21 * a3 2 - iT 4 * a8 1 + iT 7 * a1 1 + iT 17 * a4 4 + iT 20 * a7 1 + iT 5 * a9 5 - iT 6 * a8 0 
             + iT 18 * a3 0 - iT 19 * a6 5 - t0),
         (20, iT 0 * a8 2 - iT 11 * a9 3 + iT 13 * a6 3 - iT 24 * a3 2 + iT 1 * a0 1 + iT 10 * a5 4 - iT 14 * a6 4 - 
             iT 23 * a4 4 + iT 2 * a1 5 + iT 9 * a0 5 - iT 15 * a2 5 - iT 22 * a3 5 - iT 3 * a9 2 + iT 8 * a5 2 + iT 16 * 
             a2 3 + iT 21 * a7 3 + iT 4 * a5 5 - iT 7 * a9 5 + iT 17 * a7 0 + iT 20 * a2 0 + iT 5 * a0 4 + iT 6 * a5 1 - 
             iT 18 * a6 1 - iT 19 * a4 1 + t0),
         (21, - iT 0 * a2 1 - iT 11 * a7 1 - iT 13 * a5 4 + iT 24 * a9 4 - iT 1 * a6 2 - iT 10 * a4 2 + iT 14 * a5 2 
             + iT 23 * a0 3 - iT 2 * a2 4 - iT 9 * a7 4 - iT 15 * a5 1 + iT 22 * a9 1 - iT 3 * a6 5 - iT 8 * a4 5 + iT 16 
             * a5 5 + iT 21 * a0 0 - iT 4 * a4 0 - iT 7 * a7 5 - iT 17 * a1 5 + iT 20 * a8 5 - iT 5 * a7 2 - iT 6 * a4 3 
             + iT 18 * a8 2 - iT 19 * a1 2 + t1),
         (22, iT 0 * a6 1 - iT 11 * a3 4 - iT 13 * a9 1 + iT 24 * a8 4 + iT 1 * a4 3 + iT 10 * a6 3 - iT 14 * a0 2 - 
             iT 23 * a5 3 + iT 2 * a7 0 + iT 9 * a4 5 - iT 15 * a8 0 + iT 22 * a1 0 - iT 3 * a3 1 + iT 8 * a6 4 + iT 16 * 
             a8 1 - iT 21 * a9 4 - iT 4 * a2 3 - iT 7 * a3 3 + iT 17 * a0 3 + iT 20 * a1 3 - iT 5 * a7 5 - iT 6 * a2 5 + 
             iT 18 * a9 0 - iT 19 * a5 0 + t1),
         (23, - iT 0 * a0 3 - iT 11 * a1 3 + iT 13 * a3 3 + iT 24 * a2 3 - iT 1 * a8 0 + iT 10 * a9 5 - iT 14 * a6 5 
             + iT 23 * a3 0 + iT 2 * a8 2 - iT 9 * a1 2 - iT 15 * a4 3 - iT 22 * a7 2 + iT 3 * a0 5 + iT 8 * a5 0 - iT 16 
             * a6 0 - iT 21 * a4 0 + iT 4 * a8 4 - iT 7 * a9 1 + iT 17 * a6 1 - iT 20 * a3 4 - iT 5 * a5 4 - iT 6 * a0 1 
             + iT 18 * a4 4 + iT 19 * a6 4 + t0),
         (26, - iT 0 * a3 0 - iT 11 * a2 0 + iT 13 * a1 0 + iT 24 * a0 0 - iT 1 * a2 5 - iT 10 * a3 5 + iT 14 * a0 5 
             + iT 23 * a1 5 + iT 2 * a4 4 + iT 9 * a6 4 - iT 15 * a0 1 - iT 22 * a5 4 - iT 3 * a4 1 - iT 8 * a7 4 - iT 16 
             * a1 4 + iT 21 * a8 4 + iT 4 * a2 2 + iT 7 * a7 2 + iT 17 * a5 3 - iT 20 * a9 3 + iT 5 * a3 3 - iT 6 * a6 2 
             - iT 18 * a8 3 + iT 19 * a9 2 - t1),
         (27, - iT 0 * a3 3 + iT 11 * a6 2 + iT 13 * a8 3 - iT 24 * a9 2 - iT 1 * a2 0 - iT 10 * a3 0 + iT 14 * a0 0 
             + iT 23 * a1 0 - iT 2 * a6 3 + iT 9 * a3 2 + iT 15 * a9 3 - iT 22 * a8 2 - iT 3 * a4 0 - iT 8 * a6 0 + iT 16 
             * a0 5 + iT 21 * a5 0 - iT 4 * a7 4 - iT 7 * a2 4 + iT 17 * a9 1 - iT 20 * a5 1 - iT 5 * a4 4 - iT 6 * a7 1 
             - iT 18 * a1 1 + iT 19 * a8 1 - t1),
         (28, iT 0 * a0 4 + iT 11 * a5 1 - iT 13 * a6 1 - iT 24 * a4 1 + iT 1 * a9 3 - iT 10 * a8 2 + iT 14 * a3 2 - 
             iT 23 * a6 3 - iT 2 * a1 0 - iT 9 * a0 0 + iT 15 * a2 0 + iT 22 * a3 0 + iT 3 * a8 1 - iT 8 * a9 4 + iT 16 * 
             a6 4 - iT 21 * a3 1 - iT 4 * a5 2 - iT 7 * a0 3 + iT 17 * a4 2 + iT 20 * a6 2 + iT 5 * a1 5 - iT 6 * a8 5 + 
             iT 18 * a7 5 + iT 19 * a4 0 - t0),
         (30, iT 0 * a5 3 - iT 11 * a9 3 + iT 13 * a7 2 + iT 24 * a2 2 + iT 1 * a0 1 + iT 10 * a1 1 - iT 14 * a3 1 - 
             iT 23 * a2 1 + iT 2 * a9 0 - iT 9 * a5 0 - iT 15 * a2 5 - iT 22 * a7 5 - iT 3 * a5 2 + iT 8 * a9 2 - iT 16 * 
             a7 3 - iT 21 * a2 3 - iT 4 * a0 0 - iT 7 * a1 0 + iT 17 * a3 0 + iT 20 * a2 0 - iT 5 * a9 1 + iT 6 * a5 1 + 
             iT 18 * a2 4 + iT 19 * a7 4 + t0),
         (31, iT 0 * a3 5 + iT 11 * a2 5 - iT 13 * a1 5 - iT 24 * a0 5 - iT 1 * a3 4 - iT 10 * a2 4 + iT 14 * a1 4 + 
             iT 23 * a0 4 + iT 2 * a3 3 + iT 9 * a2 3 - iT 15 * a1 3 - iT 22 * a0 3 - iT 3 * a3 2 - iT 8 * a2 2 + iT 16 * 
             a1 2 + iT 21 * a0 2 + iT 4 * a3 1 + iT 7 * a2 1 - iT 17 * a1 1 - iT 20 * a0 1 - iT 5 * a3 0 - iT 6 * a2 0 + 
             iT 18 * a1 0 + iT 19 * a0 0 + t1),
         (4, iT 4 * b 0 + iT 14 * b 1 + iT 24 * b 2 + iT 29 * b 3 + iT 19 * b 4 + iT 9 * b 5),
         (9, iT 9 * b 0 + iT 29 * b 1 + iT 14 * b 2 - iT 4 * b 3 - iT 24 * b 4 - iT 19 * b 5),
         (14, iT 14 * b 0 + iT 19 * b 1 - iT 9 * b 2 - iT 24 * b 3 + iT 4 * b 4 + iT 29 * b 5),
         (19, iT 19 * b 0 + iT 4 * b 1 - iT 29 * b 2 + iT 9 * b 3 + iT 14 * b 4 - iT 24 * b 5),
         (24, iT 24 * b 0 - iT 9 * b 1 - iT 4 * b 2 + iT 19 * b 3 - iT 29 * b 4 + iT 14 * b 5),
         (29, iT 29 * b 0 - iT 24 * b 1 + iT 19 * b 2 - iT 14 * b 3 + iT 9 * b 4 - iT 4 * b 5),
         (12, iT 12 * c 0 + iT 25 * c 1),
         (25, iT 25 * c 0 - iT 12 * c 1)])"

definition fastInverseDST7_B32 :: "int list \<Rightarrow> int list \<Rightarrow> nat \<Rightarrow> nat \<Rightarrow> nat \<Rightarrow> nat \<Rightarrow> int \<Rightarrow> int \<Rightarrow> int list" where
  "fastInverseDST7_B32 src dst shift line iSkipLine iSkipLine2 outputMinimum outputMaximum =
    (let add = rnd shift;
         iT = core g_trCoreDST7P32 TRANSFORM_INVERSE;
         reducedLine = line - iSkipLine
     in inv_clear 32 reducedLine iSkipLine
          (inv_loop 32 (invDST7_B32_body iT) src dst add shift line reducedLine outputMinimum outputMaximum))"

section \<open>DCT-VIII\<close>

definition fwdDCT8_B4_body :: "(nat \<Rightarrow> int) \<Rightarrow> (nat \<Rightarrow> int) \<Rightarrow> (nat \<times> int) list" where
  "fwdDCT8_B4_body iT src =
    (let c0 = src 0 + src 3;
         c1 = src 2 + src 0;
         c2 = src 3 - src 2;
         c3 = iT 1 * src 1
     in [(0, iT 3 * c0 + iT 2 * c1 + c3),
         (1, iT 1 * (src 0 - src 2 - src 3)),
         (2, iT 3 * c2 + iT 2 * c0 - c3),
         (3, iT 3 * c1 - iT 2 * c2 - c3)])"

definition fastForwardDCT8_B4 :: "int list \<Rightarrow> int list \<Rightarrow> nat \<Rightarrow> nat \<Rightarrow> nat \<Rightarrow> nat \<Rightarrow> int list" where
  "fastForwardDCT8_B4 src dst shift line iSkipLine iSkipLine2 =
    (let add = 2 ^ (shift - 1);
         iT = core g_trCoreDCT8P4 TRANSFORM_FORWARD;
         reducedLine = line - iSkipLine
     in fwd_clear 4 line reducedLine iSkipLine
          (fwd_loop 4 (fwdDCT8_B4_body iT) src dst add shift line reducedLine))"

definition invDCT8_B4_body :: "(nat \<Rightarrow> int) \<Rightarrow> (nat \<Rightarrow> int) \<Rightarrow> (nat \<times> int) list" where
  "invDCT8_B4_body iT src =
    (let c0 = src 0 + src 3;
         c1 = src 2 + src 0;
         c2 = src 3 - src 2;
         c3 = iT 1 * src 1
     in [(0, iT 3 * c0 + iT 2 * c1 + c3),
         (1, iT 1 * (src 0 - src 2 - src 3)),
         (2, iT 3 * c2 + iT 2 * c0 - c3),
         (3, iT 3 * c1 - iT 2 * c2 - c3)])"

definition fastInverseDCT8_B4 :: "int list \<Rightarrow> int list \<Rightarrow> nat \<Rightarrow> nat \<Rightarrow> nat \<Rightarrow> nat \<Rightarrow> int \<Rightarrow> int \<Rightarrow> int list" where
  "fastInverseDCT8_B4 src dst shift line iSkipLine iSkipLine2 outputMinimum outputMaximum =
    (let add = 2 ^ (shift - 1);
         iT = core g_trCoreDCT8P4 TRANSFORM_INVERSE;
         reducedLine = line - iSkipLine
     in inv_clear 4 reducedLine iSkipLine
          (inv_loop 4 (invDCT8_B4_body iT) src dst add shift line reducedLine outputMinimum outputMaximum))"

definition fastForwardDCT8_B8 :: "int list \<Rightarrow> int list \<Rightarrow> nat \<Rightarrow> nat \<Rightarrow> nat \<Rightarrow> nat \<Rightarrow> int list" where
  "fastForwardDCT8_B8 src dst shift line iSkipLine iSkipLine2 =
    forwardMatrixMult 8 src dst shift line iSkipLine iSkipLine2 (core g_trCoreDCT8P8 TRANSFORM_FORWARD)"

definition fastInverseDCT8_B8 :: "int list \<Rightarrow> int list \<Rightarrow> nat \<Rightarrow> nat \<Rightarrow> nat \<Rightarrow> nat \<Rightarrow> int \<Rightarrow> int \<Rightarrow> int list" where
  "fastInverseDCT8_B8 src dst shift line iSkipLine iSkipLine2 outputMinimum outputMaximum =
    inverseMatrixMult 8 src dst shift line iSkipLine iSkipLine2 outputMinimum outputMaximum (core g_trCoreDCT8P8 TRANSFORM_INVERSE)"

definition fwdDCT8_B16_body :: "(nat \<Rightarrow> int) \<Rightarrow> (nat \<Rightarrow> int) \<Rightarrow> (nat \<times> int) list" where
  "fwdDCT8_B16_body iT src =
    (let a = (\<lambda>k. src (15 - k) + src (4 - k));
         b = (\<lambda>k. src (6 + k) + src (4 - k));
         c = (\<lambda>k. src (15 - k) - src (6 + k));
         d = (\<lambda>k. src (15 - k) + src (6 + k) - src (4 - k));
         t = iT 10 * src 5
     in [(1, - iT 2 * d 0 - iT 5 * d 1 - iT 8 * d 2 - iT 11 * d 3 - iT 14 * d 4),
         (4, iT 8 * d 0 + iT 14 * d 1 + iT 5 * d 2 - iT 2 * d 3 - iT 11 * d 4),
         (7, - iT 14 * d 0 - iT 2 * d 1 + iT 11 * d 2 + iT 5 * d 3 - iT 8 * d 4),
         (10, iT 11 * d 0 - iT 8 * d 1 - iT 2 * d 2 + iT 14 * d 3 - iT 5 * d 4),
         (13, - iT 5 * d 0 + iT 11 * d 1 - iT 14 * d 2 + iT 8 * d 3 - iT 2 * d 4),
         (5, - iT 10 * (src 15 + src 14 - src 12 - src 11 + src 9 + src 8 - src 6 - src 5 + src 3 + src 2 - src 0)),
         (0, iT 0 * a 0 + iT 9 * b 0 + iT 1 * a 1 + iT 8 * b 1 + iT 2 * a 2 + iT 7 * b 2 + iT 3 * a 3 + iT 6 * b 3 + 
             iT 4 * a 4 + iT 5 * b 4 + t),
         (2, iT 4 * c 0 - iT 5 * b 0 + iT 9 * c 1 - iT 0 * b 1 + iT 6 * c 2 + iT 3 * a 2 + iT 1 * c 3 + iT 8 * a 3 + 
             iT 7 * a 4 + iT 2 * b 4 - t),
         (3, - iT 6 * a 0 - iT 3 * b 0 - iT 2 * c 1 - iT 7 * a 1 - iT 9 * c 2 - iT 0 * a 2 - iT 4 * c 3 + iT 5 * b 3 
             + iT 1 * a 4 + iT 8 * b 4 - t),
         (6, iT 8 * a 0 + iT 1 * c 0 + iT 6 * c 1 - iT 3 * b 1 - iT 5 * a 2 - iT 4 * b 2 - iT 7 * c 3 - iT 2 * a 3 - 
             iT 0 * c 4 + iT 9 * b 4 + t),
         (8, iT 4 * c 0 + iT 5 * a 0 - iT 0 * c 1 + iT 9 * b 1 - iT 3 * c 2 - iT 6 * a 2 + iT 1 * c 3 - iT 8 * b 3 + 
             iT 2 * c 4 + iT 7 * a 4 - t),
         (9, - iT 7 * c 0 - iT 2 * a 0 + iT 4 * a 1 + iT 5 * b 1 + iT 8 * c 2 - iT 1 * b 2 - iT 9 * a 3 - iT 0 * b 3 
             - iT 3 * c 4 + iT 6 * b 4 - t),
         (11, - iT 9 * a 0 - iT 0 * b 0 + iT 8 * c 1 + iT 1 * a 1 - iT 2 * c 2 + iT 7 * b 2 - iT 6 * a 3 - iT 3 * b 3 
             + iT 5 * c 4 + iT 4 * a 4 + t),
         (12, iT 7 * c 0 - iT 2 * b 0 - iT 5 * c 1 - iT 4 * a 1 + iT 8 * a 2 + iT 1 * b 2 - iT 0 * a 3 - iT 9 * b 3 - 
             iT 6 * c 4 + iT 3 * b 4 + t),
         (14, iT 3 * a 0 + iT 6 * b 0 - iT 7 * a 1 - iT 2 * b 1 + iT 0 * c 2 + iT 9 * a 2 - iT 4 * c 3 - iT 5 * a 3 + 
             iT 8 * c 4 + iT 1 * a 4 - t),
         (15, - iT 1 * c 0 + iT 8 * b 0 + iT 3 * c 1 - iT 6 * b 1 - iT 5 * c 2 + iT 4 * b 2 + iT 7 * c 3 - iT 2 * b 3 
             - iT 9 * c 4 + iT 0 * b 4 - t)])"

definition fastForwardDCT8_B16 :: "int list \<Rightarrow> int list \<Rightarrow> nat \<Rightarrow> nat \<Rightarrow> nat \<Rightarrow> nat \<Rightarrow> int list" where
  "fastForwardDCT8_B16 src dst shift line iSkipLine iSkipLine2 =
    (let add = rnd shift;
         iT = core g_trCoreDST7P16 TRANSFORM_FORWARD;
         reducedLine = line - iSkipLine;
         cutoff = 16 - iSkipLine2
     in fwd_clear_rows cutoff line iSkipLine2
          (fwd_clear cutoff line reducedLine iSkipLine
            (fwd_loop 16 (fwdDCT8_B16_body iT) src dst add shift line reducedLine)))"

definition invDCT8_B16_body :: "(nat \<Rightarrow> int) \<Rightarrow> (nat \<Rightarrow> int) \<Rightarrow> (nat \<times> int) list" where
  "invDCT8_B16_body iT src =
    (let a = (\<lambda>k. src (15 - k) + src (4 - k));
         b = (\<lambda>k. src (6 + k) + src (4 - k));
         c = (\<lambda>k. src (15 - k) - src (6 + k));
         d = (\<lambda>k. src (15 - k) + src (6 + k) - src (4 - k));
         t = iT 10 * src 5
     in [(1, - iT 2 * d 0 - iT 5 * d 1 - iT 8 * d 2 - iT 11 * d 3 - iT 14 * d 4),
         (4, iT 8 * d 0 + iT 14 * d 1 + iT 5 * d 2 - iT 2 * d 3 - iT 11 * d 4),
         (7, - iT 14 * d 0 - iT 2 * d 1 + iT 11 * d 2 + iT 5 * d 3 - iT 8 * d 4),
         (10, iT 11 * d 0 - iT 8 * d 1 - iT 2 * d 2 + iT 14 * d 3 - iT 5 * d 4),
         (13, - iT 5 * d 0 + iT 11 * d 1 - iT 14 * d 2 + iT 8 * d 3 - iT 2 * d 4),
         (5, - iT 10 * (src 15 + src 14 - src 12 - src 11 + src 9 + src 8 - src 6 - src 5 + src 3 + src 2 - src 0)),
         (0, iT 0 * a 0 + iT 9 * b 0 + iT 1 * a 1 + iT 8 * b 1 + iT 2 * a 2 + iT 7 * b 2 + iT 3 * a 3 + iT 6 * b 3 + 
             iT 4 * a 4 + iT 5 * b 4 + t),
         (2, iT 4 * c 0 - iT 5 * b 0 + iT 9 * c 1 - iT 0 * b 1 + iT 6 * c 2 + iT 3 * a 2 + iT 1 * c 3 + iT 8 * a 3 + 
             iT 7 * a 4 + iT 2 * b 4 - t),
         (3, - iT 6 * a 0 - iT 3 * b 0 - iT 2 * c 1 - iT 7 * a 1 - iT 9 * c 2 - iT 0 * a 2 - iT 4 * c 3 + iT 5 * b 3 
             + iT 1 * a 4 + iT 8 * b 4 - t),
         (6, iT 8 * a 0 + iT 1 * c 0 + iT 6 * c 1 - iT 3 * b 1 - iT 5 * a 2 - iT 4 * b 2 - iT 7 * c 3 - iT 2 * a 3 - 
             iT 0 * c 4 + iT 9 * b 4 + t),
         (8, iT 4 * c 0 + iT 5 * a 0 - iT 0 * c 1 + iT 9 * b 1 - iT 3 * c 2 - iT 6 * a 2 + iT 1 * c 3 - iT 8 * b 3 + 
             iT 2 * c 4 + iT 7 * a 4 - t),
         (9, - iT 7 * c 0 - iT 2 * a 0 + iT 4 * a 1 + iT 5 * b 1 + iT 8 * c 2 - iT 1 * b 2 - iT 9 * a 3 - iT 0 * b 3 
             - iT 3 * c 4 + iT 6 * b 4 - t),
         (11, - iT 9 * a 0 - iT 0 * b 0 + iT 8 * c 1 + iT 1 * a 1 - iT 2 * c 2 + iT 7 * b 2 - iT 6 * a 3 - iT 3 * b 3 
             + iT 5 * c 4 + iT 4 * a 4 + t),
         (12, iT 7 * c 0 - iT 2 * b 0 - iT 5 * c 1 - iT 4 * a 1 + iT 8 * a 2 + iT 1 * b 2 - iT 0 * a 3 - iT 9 * b 3 - 
             iT 6 * c 4 + iT 3 * b 4 + t),
         (14, iT 3 * a 0 + iT 6 * b 0 - iT 7 * a 1 - iT 2 * b 1 + iT 0 * c 2 + iT 9 * a 2 - iT 4 * c 3 - iT 5 * a 3 + 
             iT 8 * c 4 + iT 1 * a 4 - t),
         (15, - iT 1 * c 0 + iT 8 * b 0 + iT 3 * c 1 - iT 6 * b 1 - iT 5 * c 2 + iT 4 * b 2 + iT 7 * c 3 - iT 2 * b 3 
             - iT 9 * c 4 + iT 0 * b 4 - t)])"

definition fastInverseDCT8_B16 :: "int list \<Rightarrow> int list \<Rightarrow> nat \<Rightarrow> nat \<Rightarrow> nat \<Rightarrow> nat \<Rightarrow> int \<Rightarrow> int \<Rightarrow> int list" where
  "fastInverseDCT8_B16 src dst shift line iSkipLine iSkipLine2 outputMinimum outputMaximum =
    (let add = rnd shift;
         iT = core g_trCoreDST7P16 TRANSFORM_INVERSE;
         reducedLine = line - iSkipLine
     in inv_clear 16 reducedLine iSkipLine
          (inv_loop 16 (invDCT8_B16_body iT) src dst add shift line reducedLine outputMinimum outputMaximum))"

definition fwdDCT8_B32_body :: "(nat \<Rightarrow> int) \<Rightarrow> (nat \<Rightarrow> int) \<Rightarrow> (nat \<times> int) list" where
  "fwdDCT8_B32_body iT src =
    (let a0 = (\<lambda>k. src (31 - k) - src (20 + k));
         a1 = (\<lambda>k. src (31 - k) + src (18 - k));
         a2 = (\<lambda>k. src (31 - k) + src (7 + k));
         a3 = (\<lambda>k. src (31 - k) - src (5 - k));
         a4 = (\<lambda>k. src (25 - k) + src (13 + k));
         a5 = (\<lambda>k. src (25 - k) + src (12 - k));
         a6 = (\<lambda>k. src (25 - k) - src k);
         a7 = (\<lambda>k. src (18 - k) - src (7 + k));
         a8 = (\<lambda>k. src (18 - k) + src (5 - k));
         a9 = (\<lambda>k. src (12 - k) + src k);
         b = (\<lambda>k. src (31 - k) + src (20 + k) - src (18 - k) - src (7 + k) + src (5 - k));
         c = (\<lambda>k. src (31 - k) + src (28 + k) - src (26 - k) - src (23 + k) + src (21 - k) + src (18 + k) - 
             src (16 - k) - src (13 + k) + src (11 - k) + src (8 + k) - src (6 - k) - src (3 + k) + src (1 - k));
         t0 = iT 12 * src 19 + iT 25 * src 6;
         t1 = iT 12 * src 6 - iT 25 * src 19
     in [(0, iT 0 * a3 0 + iT 11 * a6 5 + iT 13 * a8 0 + iT 24 * a9 5 + iT 1 * a3 1 + iT 10 * a6 4 + iT 14 * a8 1 + 
             iT 23 * a9 4 + iT 2 * a3 2 + iT 9 * a6 3 + iT 15 * a8 2 + iT 22 * a9 3 + iT 3 * a3 3 + iT 8 * a6 2 + iT 16 * 
             a8 3 + iT 21 * a9 2 + iT 4 * a3 4 + iT 7 * a6 1 + iT 17 * a8 4 + iT 20 * a9 1 + iT 5 * a3 5 + iT 6 * a6 0 + 
             iT 18 * a8 5 + iT 19 * a9 0 + t0),
         (1, iT 0 * a5 2 - iT 11 * a0 3 - iT 13 * a4 2 - iT 24 * a6 2 - iT 1 * a9 1 - iT 10 * a8 4 - iT 14 * a3 4 - 
             iT 23 * a6 1 - iT 2 * a0 0 + iT 9 * a5 5 - iT 15 * a6 5 - iT 22 * a4 5 + iT 3 * a5 3 - iT 8 * a0 2 - iT 16 * 
             a4 3 - iT 21 * a6 3 - iT 4 * a9 0 - iT 7 * a8 5 - iT 17 * a3 5 - iT 20 * a6 0 - iT 5 * a0 1 + iT 6 * a5 4 - 
             iT 18 * a6 4 - iT 19 * a4 4 + t1),
         (3, iT 0 * a9 4 + iT 11 * a5 4 - iT 13 * a2 1 + iT 24 * a7 1 + iT 1 * a0 3 + iT 10 * a1 3 - iT 14 * a3 3 - 
             iT 23 * a2 3 - iT 2 * a8 5 - iT 9 * a9 0 - iT 15 * a6 0 - iT 22 * a3 5 + iT 3 * a1 4 + iT 8 * a0 4 - iT 16 * 
             a2 4 - iT 21 * a3 4 + iT 4 * a5 3 + iT 7 * a9 3 + iT 17 * a7 2 - iT 20 * a2 2 - iT 5 * a8 0 - iT 6 * a1 0 + 
             iT 18 * a4 5 + iT 19 * a7 0 - t1),
         (4, - iT 0 * a3 2 - iT 11 * a2 2 + iT 13 * a1 2 + iT 24 * a0 2 + iT 1 * a6 0 + iT 10 * a3 5 + iT 14 * a9 0 + 
             iT 23 * a8 5 - iT 2 * a2 3 - iT 9 * a3 3 + iT 15 * a0 3 + iT 22 * a1 3 - iT 3 * a7 0 + iT 8 * a2 0 - iT 16 * 
             a9 5 - iT 21 * a5 5 + iT 4 * a4 4 + iT 7 * a6 4 + iT 17 * a0 1 - iT 20 * a5 4 - iT 5 * a7 4 - iT 6 * a4 1 + 
             iT 18 * a8 4 + iT 19 * a1 4 - t0),
         (5, iT 0 * a3 5 + iT 11 * a6 0 + iT 13 * a8 5 + iT 24 * a9 0 - iT 1 * a6 5 - iT 10 * a3 0 - iT 14 * a9 5 - 
             iT 23 * a8 0 + iT 2 * a7 4 - iT 9 * a2 4 + iT 15 * a9 1 + iT 22 * a5 1 + iT 3 * a7 1 + iT 8 * a4 4 - iT 16 * 
             a8 1 - iT 21 * a1 1 - iT 4 * a6 2 - iT 7 * a4 2 + iT 17 * a5 2 - iT 20 * a0 3 + iT 5 * a3 2 + iT 6 * a2 2 - 
             iT 18 * a1 2 - iT 19 * a0 2 - t0),
         (8, iT 0 * a9 3 + iT 11 * a8 2 + iT 13 * a3 2 + iT 24 * a6 3 + iT 1 * a1 5 + iT 10 * a0 5 - iT 14 * a2 5 - 
             iT 23 * a3 5 - iT 2 * a1 3 - iT 9 * a8 3 + iT 15 * a7 3 + iT 22 * a4 2 - iT 3 * a9 5 - iT 8 * a5 5 + iT 16 * 
             a2 0 - iT 21 * a7 0 - iT 4 * a1 1 - iT 7 * a0 1 + iT 17 * a2 1 + iT 20 * a3 1 + iT 5 * a5 1 + iT 6 * a9 1 + 
             iT 18 * a7 4 - iT 19 * a2 4 + t1),
         (9, iT 0 * a2 1 + iT 11 * a3 1 - iT 13 * a0 1 - iT 24 * a1 1 - iT 1 * a7 3 + iT 10 * a2 3 - iT 14 * a9 2 - 
             iT 23 * a5 2 - iT 2 * a4 0 - iT 9 * a7 5 + iT 15 * a1 5 + iT 22 * a8 5 - iT 3 * a3 4 - iT 8 * a2 4 + iT 16 * 
             a1 4 + iT 21 * a0 4 - iT 4 * a6 3 - iT 7 * a3 2 - iT 17 * a9 3 - iT 20 * a8 2 - iT 5 * a4 5 - iT 6 * a6 5 - 
             iT 18 * a0 0 + iT 19 * a5 5 + t0),
         (10, - iT 0 * a6 1 - iT 11 * a4 1 + iT 13 * a5 1 - iT 24 * a0 4 + iT 1 * a2 2 - iT 10 * a7 2 - iT 14 * a5 3 
             - iT 23 * a9 3 + iT 2 * a6 4 + iT 9 * a4 4 - iT 15 * a5 4 + iT 22 * a0 1 - iT 3 * a2 5 + iT 8 * a7 5 + iT 16 
             * a5 0 + iT 21 * a9 0 - iT 4 * a7 0 - iT 7 * a4 5 + iT 17 * a8 0 + iT 20 * a1 0 + iT 5 * a4 2 + iT 6 * a7 3 
             - iT 18 * a1 3 - iT 19 * a8 3 + t0),
         (11, - iT 0 * a1 3 - iT 11 * a0 3 + iT 13 * a2 3 + iT 24 * a3 3 - iT 1 * a9 1 - iT 10 * a5 1 + iT 14 * a2 4 
             - iT 23 * a7 4 - iT 2 * a8 0 - iT 9 * a9 5 - iT 15 * a6 5 - iT 22 * a3 0 + iT 3 * a0 2 - iT 8 * a5 3 + iT 16 
             * a6 3 + iT 21 * a4 3 + iT 4 * a5 0 - iT 7 * a0 5 - iT 17 * a4 0 - iT 20 * a6 0 + iT 5 * a9 4 + iT 6 * a5 4 
             - iT 18 * a2 1 + iT 19 * a7 1 + t1),
         (13, iT 0 * a0 0 + iT 11 * a1 0 - iT 13 * a3 0 - iT 24 * a2 0 + iT 1 * a5 4 - iT 10 * a0 1 - iT 14 * a4 4 - 
             iT 23 * a6 4 - iT 2 * a9 3 - iT 9 * a5 3 + iT 15 * a2 2 - iT 22 * a7 2 + iT 3 * a8 3 + iT 8 * a9 2 + iT 16 * 
             a6 2 + iT 21 * a3 3 - iT 4 * a1 4 - iT 7 * a8 4 + iT 17 * a7 4 + iT 20 * a4 1 + iT 5 * a0 5 + iT 6 * a1 5 - 
             iT 18 * a3 5 - iT 19 * a2 5 - t1),
         (14, iT 0 * a4 2 + iT 11 * a7 3 - iT 13 * a1 3 - iT 24 * a8 3 + iT 1 * a4 1 + iT 10 * a6 1 + iT 14 * a0 4 - 
             iT 23 * a5 1 - iT 2 * a3 0 - iT 9 * a2 0 + iT 15 * a1 0 + iT 22 * a0 0 - iT 3 * a6 3 - iT 8 * a4 3 + iT 16 * 
             a5 3 - iT 21 * a0 2 - iT 4 * a7 5 - iT 7 * a4 0 + iT 17 * a8 5 + iT 20 * a1 5 + iT 5 * a6 4 + iT 6 * a3 1 + 
             iT 18 * a9 4 + iT 19 * a8 1 - t0),
         (15, iT 0 * a7 4 + iT 11 * a4 1 - iT 13 * a8 4 - iT 24 * a1 4 - iT 1 * a2 2 - iT 10 * a3 2 + iT 14 * a0 2 + 
             iT 23 * a1 2 - iT 2 * a2 1 + iT 9 * a7 1 + iT 15 * a5 4 + iT 22 * a9 4 + iT 3 * a7 5 - iT 8 * a2 5 + iT 16 * 
             a9 0 + iT 21 * a5 0 + iT 4 * a2 0 + iT 7 * a3 0 - iT 17 * a0 0 - iT 20 * a1 0 + iT 5 * a2 3 - iT 6 * a7 3 - 
             iT 18 * a5 2 - iT 19 * a9 2 - t0),
         (16, - iT 0 * a0 1 + iT 11 * a5 4 - iT 13 * a6 4 - iT 24 * a4 4 + iT 1 * a0 3 - iT 10 * a5 2 + iT 14 * a6 2 
             + iT 23 * a4 2 - iT 2 * a0 5 + iT 9 * a5 0 - iT 15 * a6 0 - iT 22 * a4 0 - iT 3 * a0 4 - iT 8 * a1 4 + iT 16 
             * a3 4 + iT 21 * a2 4 + iT 4 * a0 2 + iT 7 * a1 2 - iT 17 * a3 2 - iT 20 * a2 2 - iT 5 * a0 0 - iT 6 * a1 0 
             + iT 18 * a3 0 + iT 19 * a2 0 - t1),
         (18, iT 0 * a0 5 + iT 11 * a1 5 - iT 13 * a3 5 - iT 24 * a2 5 - iT 1 * a1 0 - iT 10 * a0 0 + iT 14 * a2 0 + 
             iT 23 * a3 0 - iT 2 * a5 1 + iT 9 * a0 4 + iT 15 * a4 1 + iT 22 * a6 1 - iT 3 * a8 1 - iT 8 * a1 1 + iT 16 * 
             a4 4 + iT 21 * a7 1 - iT 4 * a9 2 - iT 7 * a5 2 + iT 17 * a2 3 - iT 20 * a7 3 - iT 5 * a9 3 - iT 6 * a8 2 - 
             iT 18 * a3 2 - iT 19 * a6 3 + t1),
         (20, - iT 0 * a4 0 - iT 11 * a6 0 - iT 13 * a0 5 + iT 24 * a5 0 + iT 1 * a6 5 + iT 10 * a4 5 - iT 14 * a5 5 
             + iT 23 * a0 0 - iT 2 * a6 1 - iT 9 * a3 4 - iT 15 * a9 1 - iT 22 * a8 4 + iT 3 * a4 4 + iT 8 * a7 1 - iT 16 
             * a1 1 - iT 21 * a8 1 - iT 4 * a3 3 - iT 7 * a2 3 + iT 17 * a1 3 + iT 20 * a0 3 + iT 5 * a7 2 - iT 6 * a2 2 
             + iT 18 * a9 3 + iT 19 * a5 3 + t0),
         (21, iT 0 * a1 2 + iT 11 * a8 2 - iT 13 * a7 2 - iT 24 * a4 3 + iT 1 * a1 5 + iT 10 * a8 5 - iT 14 * a7 5 - 
             iT 23 * a4 0 + iT 2 * a5 2 + iT 9 * a9 2 + iT 15 * a7 3 - iT 22 * a2 3 + iT 3 * a5 5 + iT 8 * a9 5 + iT 16 * 
             a7 0 - iT 21 * a2 0 + iT 4 * a8 1 + iT 7 * a9 4 + iT 17 * a6 4 + iT 20 * a3 1 + iT 5 * a8 4 + iT 6 * a9 1 + 
             iT 18 * a6 1 + iT 19 * a3 4 + t1),
         (23, iT 0 * a8 4 + iT 11 * a9 1 + iT 13 * a6 1 + iT 24 * a3 4 - iT 1 * a8 2 - iT 10 * a1 2 + iT 14 * a4 3 + 
             iT 23 * a7 2 - iT 2 * a0 1 - iT 9 * a1 1 + iT 15 * a3 1 + iT 22 * a2 1 + iT 3 * a5 0 + iT 8 * a9 0 + iT 16 * 
             a7 5 - iT 21 * a2 5 - iT 4 * a9 5 - iT 7 * a8 0 - iT 17 * a3 0 - iT 20 * a6 5 + iT 5 * a5 2 - iT 6 * a0 3 - 
             iT 18 * a4 2 - iT 19 * a6 2 - t1),
         (24, - iT 0 * a2 3 + iT 11 * a7 3 + iT 13 * a5 2 + iT 24 * a9 2 + iT 1 * a4 1 + iT 10 * a7 4 - iT 14 * a1 4 
             - iT 23 * a8 4 - iT 2 * a4 5 - iT 9 * a7 0 + iT 15 * a1 0 + iT 22 * a8 0 + iT 3 * a4 3 + iT 8 * a6 3 + iT 16 
             * a0 2 - iT 21 * a5 3 - iT 4 * a2 5 - iT 7 * a3 5 + iT 17 * a0 5 + iT 20 * a1 5 + iT 5 * a2 1 + iT 6 * a3 1 
             - iT 18 * a0 1 - iT 19 * a1 1 - t0),
         (25, - iT 0 * a4 5 - iT 11 * a6 5 - iT 13 * a0 0 + iT 24 * a5 5 - iT 1 * a3 1 - iT 10 * a2 1 + iT 14 * a1 1 
             + iT 23 * a0 1 + iT 2 * a7 2 + iT 9 * a4 3 - iT 15 * a8 2 - iT 22 * a1 2 + iT 3 * a6 2 + iT 8 * a3 3 + iT 16 
             * a9 2 + iT 21 * a8 3 + iT 4 * a2 4 - iT 7 * a7 4 - iT 17 * a5 1 - iT 20 * a9 1 - iT 5 * a4 0 - iT 6 * a6 0 
             - iT 18 * a0 5 + iT 19 * a5 0 - t0),
         (26, iT 0 * a8 0 + iT 11 * a1 0 - iT 13 * a4 5 - iT 24 * a7 0 + iT 1 * a5 4 + iT 10 * a9 4 + iT 14 * a7 1 - 
             iT 23 * a2 1 - iT 2 * a1 2 - iT 9 * a0 2 + iT 15 * a2 2 + iT 22 * a3 2 - iT 3 * a9 2 - iT 8 * a8 3 - iT 16 * 
             a3 3 - iT 21 * a6 2 + iT 4 * a0 4 - iT 7 * a5 1 + iT 17 * a6 1 + iT 20 * a4 1 + iT 5 * a8 5 + iT 6 * a1 5 - 
             iT 18 * a4 0 - iT 19 * a7 5 - t1),
         (28, - iT 0 * a5 1 - iT 11 * a9 1 - iT 13 * a7 4 + iT 24 * a2 4 + iT 1 * a8 2 + iT 10 * a9 3 + iT 14 * a6 3 
             + iT 23 * a3 2 - iT 2 * a9 4 - iT 9 * a8 1 - iT 15 * a3 1 - iT 22 * a6 4 + iT 3 * a9 0 + iT 8 * a5 0 - iT 16 
             * a2 5 + iT 21 * a7 5 - iT 4 * a5 5 + iT 7 * a0 0 + iT 17 * a4 5 + iT 20 * a6 5 + iT 5 * a1 3 + iT 6 * a0 3 
             - iT 18 * a2 3 - iT 19 * a3 3 + t1),
         (29, iT 0 * a6 4 + iT 11 * a3 1 + iT 13 * a9 4 + iT 24 * a8 1 - iT 1 * a7 3 - iT 10 * a4 2 + iT 14 * a8 3 + 
             iT 23 * a1 3 - iT 2 * a3 5 - iT 9 * a2 5 + iT 15 * a1 5 + iT 22 * a0 5 + iT 3 * a2 4 + iT 8 * a3 4 - iT 16 * 
             a0 4 - iT 21 * a1 4 + iT 4 * a4 3 + iT 7 * a7 2 - iT 17 * a1 2 - iT 20 * a8 2 - iT 5 * a3 0 - iT 6 * a6 5 - 
             iT 18 * a8 0 - iT 19 * a9 5 + t0),
         (30, - iT 0 * a7 2 + iT 11 * a2 2 - iT 13 * a9 3 - iT 24 * a5 3 - iT 1 * a6 0 - iT 10 * a4 0 + iT 14 * a5 0 
             - iT 23 * a0 5 - iT 2 * a4 2 - iT 9 * a6 2 - iT 15 * a0 3 + iT 22 * a5 2 + iT 3 * a2 0 - iT 8 * a7 0 - iT 16 
             * a5 5 - iT 21 * a9 5 + iT 4 * a7 1 - iT 7 * a2 1 + iT 17 * a9 4 + iT 20 * a5 4 + iT 5 * a6 1 + iT 6 * a4 1 
             - iT 18 * a5 1 + iT 19 * a0 4 + t0),
         (31, iT 0 * a8 5 + iT 11 * a1 5 - iT 13 * a4 0 - iT 24 * a7 5 - iT 1 * a1 0 - iT 10 * a8 0 + iT 14 * a7 0 + 
             iT 23 * a4 5 - iT 2 * a8 4 - iT 9 * a1 4 + iT 15 * a4 1 + iT 22 * a7 4 + iT 3 * a1 1 + iT 8 * a8 1 - iT 16 * 
             a7 1 - iT 21 * a4 4 + iT 4 * a8 3 + iT 7 * a1 3 - iT 17 * a4 2 - iT 20 * a7 3 - iT 5 * a1 2 - iT 6 * a8 2 + 
             iT 18 * a7 2 + iT 19 * a4 3 + t1),
         (2, iT 4 * b 0 + iT 9 * b 1 + iT 14 * b 2 + iT 19 * b 3 + iT 24 * b 4 + iT 29 * b 5),
         (7, - iT 14 * b 0 - iT 29 * b 1 - iT 19 * b 2 - iT 4 * b 3 + iT 9 * b 4 + iT 24 * b 5),
         (12, iT 24 * b 0 + iT 14 * b 1 - iT 9 * b 2 - iT 29 * b 3 - iT 4 * b 4 + iT 19 * b 5),
         (17, - iT 29 * b 0 + iT 4 * b 1 + iT 24 * b 2 - iT 9 * b 3 - iT 19 * b 4 + iT 14 * b 5),
         (22, iT 19 * b 0 - iT 24 * b 1 + iT 4 * b 2 + iT 14 * b 3 - iT 29 * b 4 + iT 9 * b 5),
         (27, - iT 9 * b 0 + iT 19 * b 1 - iT 29 * b 2 + iT 24 * b 3 - iT 14 * b 4 + iT 4 * b 5),
         (6, iT 12 * c 0 + iT 25 * c 1),
         (19, - iT 25 * c 0 + iT 12 * c 1)])"

definition fastForwardDCT8_B32 :: "int list \<Rightarrow> int list \<Rightarrow> nat \<Rightarrow> nat \<Rightarrow> nat \<Rightarrow> nat \<Rightarrow> int list" where
  "fastForwardDCT8_B32 src dst shift line iSkipLine iSkipLine2 =
    (let add = rnd shift;
         iT = core g_trCoreDST7P32 TRANSFORM_FORWARD;
         reducedLine = line - iSkipLine;
         cutoff = 32 - iSkipLine2
     in fwd_clear_rows cutoff line iSkipLine2
          (fwd_clear cutoff line reducedLine iSkipLine
            (fwd_loop 32 (fwdDCT8_B32_body iT) src dst add shift line reducedLine)))"

definition invDCT8_B32_body :: "(nat \<Rightarrow> int) \<Rightarrow> (nat \<Rightarrow> int) \<Rightarrow> (nat \<times> int) list" where
  "invDCT8_B32_body iT src =
    (let a0 = (\<lambda>k. src (31 - k) - src (20 + k));
         a1 = (\<lambda>k. src (31 - k) + src (18 - k));
         a2 = (\<lambda>k. src (31 - k) + src (7 + k));
         a3 = (\<lambda>k. src (31 - k) - src (5 - k));
         a4 = (\<lambda>k. src (25 - k) + src (13 + k));
         a5 = (\<lambda>k. src (25 - k) + src (12 - k));
         a6 = (\<lambda>k. src (25 - k) - src k);
         a7 = (\<lambda>k. src (18 - k) - src (7 + k));
         a8 = (\<lambda>k. src (18 - k) + src (5 - k));
         a9 = (\<lambda>k. src (12 - k) + src k);
         b = (\<lambda>k. src (31 - k) + src (20 + k) - src (18 - k) - src (7 + k) + src (5 - k));
         c = (\<lambda>k. src (31 - k) + src (28 + k) - src (26 - k) - src (23 + k) + src (21 - k) + src (18 + k) - 
             src (16 - k) - src (13 + k) + src (11 - k) + src (8 + k) - src (6 - k) - src (3 + k) + src (1 - k));
         t0 = iT 12 * src 19 + iT 25 * src 6;
         t1 = iT 12 * src 6 - iT 25 * src 19
     in [(0, iT 0 * a3 0 + iT 11 * a6 5 + iT 13 * a8 0 + iT 24 * a9 5 + iT 1 * a3 1 + iT 10 * a6 4 + iT 14 * a8 1 + 
             iT 23 * a9 4 + iT 2 * a3 2 + iT 9 * a6 3 + iT 15 * a8 2 + iT 22 * a9 3 + iT 3 * a3 3 + iT 8 * a6 2 + iT 16 * 
             a8 3 + iT 21 * a9 2 + iT 4 * a3 4 + iT 7 * a6 1 + iT 17 * a8 4 + iT 20 * a9 1 + iT 5 * a3 5 + iT 6 * a6 0 + 
             iT 18 * a8 5 + iT 19 * a9 0 + t0),
         (1, iT 0 * a5 2 - iT 11 * a0 3 - iT 13 * a4 2 - iT 24 * a6 2 - iT 1 * a9 1 - iT 10 * a8 4 - iT 14 * a3 4 - 
             iT 23 * a6 1 - iT 2 * a0 0 + iT 9 * a5 5 - iT 15 * a6 5 - iT 22 * a4 5 + iT 3 * a5 3 - iT 8 * a0 2 - iT 16 * 
             a4 3 - iT 21 * a6 3 - iT 4 * a9 0 - iT 7 * a8 5 - iT 17 * a3 5 - iT 20 * a6 0 - iT 5 * a0 1 + iT 6 * a5 4 - 
             iT 18 * a6 4 - iT 19 * a4 4 + t1),
         (3, iT 0 * a9 4 + iT 11 * a5 4 - iT 13 * a2 1 + iT 24 * a7 1 + iT 1 * a0 3 + iT 10 * a1 3 - iT 14 * a3 3 - 
             iT 23 * a2 3 - iT 2 * a8 5 - iT 9 * a9 0 - iT 15 * a6 0 - iT 22 * a3 5 + iT 3 * a1 4 + iT 8 * a0 4 - iT 16 * 
             a2 4 - iT 21 * a3 4 + iT 4 * a5 3 + iT 7 * a9 3 + iT 17 * a7 2 - iT 20 * a2 2 - iT 5 * a8 0 - iT 6 * a1 0 + 
             iT 18 * a4 5 + iT 19 * a7 0 - t1),
         (4, - iT 0 * a3 2 - iT 11 * a2 2 + iT 13 * a1 2 + iT 24 * a0 2 + iT 1 * a6 0 + iT 10 * a3 5 + iT 14 * a9 0 + 
             iT 23 * a8 5 - iT 2 * a2 3 - iT 9 * a3 3 + iT 15 * a0 3 + iT 22 * a1 3 - iT 3 * a7 0 + iT 8 * a2 0 - iT 16 * 
             a9 5 - iT 21 * a5 5 + iT 4 * a4 4 + iT 7 * a6 4 + iT 17 * a0 1 - iT 20 * a5 4 - iT 5 * a7 4 - iT 6 * a4 1 + 
             iT 18 * a8 4 + iT 19 * a1 4 - t0),
         (5, iT 0 * a3 5 + iT 11 * a6 0 + iT 13 * a8 5 + iT 24 * a9 0 - iT 1 * a6 5 - iT 10 * a3 0 - iT 14 * a9 5 - 
             iT 23 * a8 0 + iT 2 * a7 4 - iT 9 * a2 4 + iT 15 * a9 1 + iT 22 * a5 1 + iT 3 * a7 1 + iT 8 * a4 4 - iT 16 * 
             a8 1 - iT 21 * a1 1 - iT 4 * a6 2 - iT 7 * a4 2 + iT 17 * a5 2 - iT 20 * a0 3 + iT 5 * a3 2 + iT 6 * a2 2 - 
             iT 18 * a1 2 - iT 19 * a0 2 - t0),
         (8, iT 0 * a9 3 + iT 11 * a8 2 + iT 13 * a3 2 + iT 24 * a6 3 + iT 1 * a1 5 + iT 10 * a0 5 - iT 14 * a2 5 - 
             iT 23 * a3 5 - iT 2 * a1 3 - iT 9 * a8 3 + iT 15 * a7 3 + iT 22 * a4 2 - iT 3 * a9 5 - iT 8 * a5 5 + iT 16 * 
             a2 0 - iT 21 * a7 0 - iT 4 * a1 1 - iT 7 * a0 1 + iT 17 * a2 1 + iT 20 * a3 1 + iT 5 * a5 1 + iT 6 * a9 1 + 
             iT 18 * a7 4 - iT 19 * a2 4 + t1),
         (9, iT 0 * a2 1 + iT 11 * a3 1 - iT 13 * a0 1 - iT 24 * a1 1 - iT 1 * a7 3 + iT 10 * a2 3 - iT 14 * a9 2 - 
             iT 23 * a5 2 - iT 2 * a4 0 - iT 9 * a7 5 + iT 15 * a1 5 + iT 22 * a8 5 - iT 3 * a3 4 - iT 8 * a2 4 + iT 16 * 
             a1 4 + iT 21 * a0 4 - iT 4 * a6 3 - iT 7 * a3 2 - iT 17 * a9 3 - iT 20 * a8 2 - iT 5 * a4 5 - iT 6 * a6 5 - 
             iT 18 * a0 0 + iT 19 * a5 5 + t0),
         (10, - iT 0 * a6 1 - iT 11 * a4 1 + iT 13 * a5 1 - iT 24 * a0 4 + iT 1 * a2 2 - iT 10 * a7 2 - iT 14 * a5 3 
             - iT 23 * a9 3 + iT 2 * a6 4 + iT 9 * a4 4 - iT 15 * a5 4 + iT 22 * a0 1 - iT 3 * a2 5 + iT 8 * a7 5 + iT 16 
             * a5 0 + iT 21 * a9 0 - iT 4 * a7 0 - iT 7 * a4 5 + iT 17 * a8 0 + iT 20 * a1 0 + iT 5 * a4 2 + iT 6 * a7 3 
             - iT 18 * a1 3 - iT 19 * a8 3 + t0),
         (11, - iT 0 * a1 3 - iT 11 * a0 3 + iT 13 * a2 3 + iT 24 * a3 3 - iT 1 * a9 1 - iT 10 * a5 1 + iT 14 * a2 4 
             - iT 23 * a7 4 - iT 2 * a8 0 - iT 9 * a9 5 - iT 15 * a6 5 - iT 22 * a3 0 + iT 3 * a0 2 - iT 8 * a5 3 + iT 16 
             * a6 3 + iT 21 * a4 3 + iT 4 * a5 0 - iT 7 * a0 5 - iT 17 * a4 0 - iT 20 * a6 0 + iT 5 * a9 4 + iT 6 * a5 4 
             - iT 18 * a2 1 + iT 19 * a7 1 + t1),
         (13, iT 0 * a0 0 + iT 11 * a1 0 - iT 13 * a3 0 - iT 24 * a2 0 + iT 1 * a5 4 - iT 10 * a0 1 - iT 14 * a4 4 - 
             iT 23 * a6 4 - iT 2 * a9 3 - iT 9 * a5 3 + iT 15 * a2 2 - iT 22 * a7 2 + iT 3 * a8 3 + iT 8 * a9 2 + iT 16 * 
             a6 2 + iT 21 * a3 3 - iT 4 * a1 4 - iT 7 * a8 4 + iT 17 * a7 4 + iT 20 * a4 1 + iT 5 * a0 5 + iT 6 * a1 5 - 
             iT 18 * a3 5 - iT 19 * a2 5 - t1),
         (14, iT 0 * a4 2 + iT 11 * a7 3 - iT 13 * a1 3 - iT 24 * a8 3 + iT 1 * a4 1 + iT 10 * a6 1 + iT 14 * a0 4 - 
             iT 23 * a5 1 - iT 2 * a3 0 - iT 9 * a2 0 + iT 15 * a1 0 + iT 22 * a0 0 - iT 3 * a6 3 - iT 8 * a4 3 + iT 16 * 
             a5 3 - iT 21 * a0 2 - iT 4 * a7 5 - iT 7 * a4 0 + iT 17 * a8 5 + iT 20 * a1 5 + iT 5 * a6 4 + iT 6 * a3 1 + 
             iT 18 * a9 4 + iT 19 * a8 1 - t0),
         (15, iT 0 * a7 4 + iT 11 * a4 1 - iT 13 * a8 4 - iT 24 * a1 4 - iT 1 * a2 2 - iT 10 * a3 2 + iT 14 * a0 2 + 
             iT 23 * a1 2 - iT 2 * a2 1 + iT 9 * a7 1 + iT 15 * a5 4 + iT 22 * a9 4 + iT 3 * a7 5 - iT 8 * a2 5 + iT 16 * 
             a9 0 + iT 21 * a5 0 + iT 4 * a2 0 + iT 7 * a3 0 - iT 17 * a0 0 - iT 20 * a1 0 + iT 5 * a2 3 - iT 6 * a7 3 - 
             iT 18 * a5 2 - iT 19 * a9 2 - t0),
         (16, - iT 0 * a0 1 + iT 11 * a5 4 - iT 13 * a6 4 - iT 24 * a4 4 + iT 1 * a0 3 - iT 10 * a5 2 + iT 14 * a6 2 
             + iT 23 * a4 2 - iT 2 * a0 5 + iT 9 * a5 0 - iT 15 * a6 0 - iT 22 * a4 0 - iT 3 * a0 4 - iT 8 * a1 4 + iT 16 
             * a3 4 + iT 21 * a2 4 + iT 4 * a0 2 + iT 7 * a1 2 - iT 17 * a3 2 - iT 20 * a2 2 - iT 5 * a0 0 - iT 6 * a1 0 
             + iT 18 * a3 0 + iT 19 * a2 0 - t1),
         (18, iT 0 * a0 5 + iT 11 * a1 5 - iT 13 * a3 5 - iT 24 * a2 5 - iT 1 * a1 0 - iT 10 * a0 0 + iT 14 * a2 0 + 
             iT 23 * a3 0 - iT 2 * a5 1 + iT 9 * a0 4 + iT 15 * a4 1 + iT 22 * a6 1 - iT 3 * a8 1 - iT 8 * a1 1 + iT 16 * 
             a4 4 + iT 21 * a7 1 - iT 4 * a9 2 - iT 7 * a5 2 + iT 17 * a2 3 - iT 20 * a7 3 - iT 5 * a9 3 - iT 6 * a8 2 - 
             iT 18 * a3 2 - iT 19 * a6 3 + t1),
         (20, - iT 0 * a4 0 - iT 11 * a6 0 - iT 13 * a0 5 + iT 24 * a5 0 + iT 1 * a6 5 + iT 10 * a4 5 - iT 14 * a5 5 
             + iT 23 * a0 0 - iT 2 * a6 1 - iT 9 * a3 4 - iT 15 * a9 1 - iT 22 * a8 4 + iT 3 * a4 4 + iT 8 * a7 1 - iT 16 
             * a1 1 - iT 21 * a8 1 - iT 4 * a3 3 - iT 7 * a2 3 + iT 17 * a1 3 + iT 20 * a0 3 + iT 5 * a7 2 - iT 6 * a2 2 
             + iT 18 * a9 3 + iT 19 * a5 3 + t0),
         (21, iT 0 * a1 2 + iT 11 * a8 2 - iT 13 * a7 2 - iT 24 * a4 3 + iT 1 * a1 5 + iT 10 * a8 5 - iT 14 * a7 5 - 
             iT 23 * a4 0 + iT 2 * a5 2 + iT 9 * a9 2 + iT 15 * a7 3 - iT 22 * a2 3 + iT 3 * a5 5 + iT 8 * a9 5 + iT 16 * 
             a7 0 - iT 21 * a2 0 + iT 4 * a8 1 + iT 7 * a9 4 + iT 17 * a6 4 + iT 20 * a3 1 + iT 5 * a8 4 + iT 6 * a9 1 + 
             iT 18 * a6 1 + iT 19 * a3 4 + t1),
         (23, iT 0 * a8 4 + iT 11 * a9 1 + iT 13 * a6 1 + iT 24 * a3 4 - iT 1 * a8 2 - iT 10 * a1 2 + iT 14 * a4 3 + 
             iT 23 * a7 2 - iT 2 * a0 1 - iT 9 * a1 1 + iT 15 * a3 1 + iT 22 * a2 1 + iT 3 * a5 0 + iT 8 * a9 0 + iT 16 * 
             a7 5 - iT 21 * a2 5 - iT 4 * a9 5 - iT 7 * a8 0 - iT 17 * a3 0 - iT 20 * a6 5 + iT 5 * a5 2 - iT 6 * a0 3 - 
             iT 18 * a4 2 - iT 19 * a6 2 - t1),
         (24, - iT 0 * a2 3 + iT 11 * a7 3 + iT 13 * a5 2 + iT 24 * a9 2 + iT 1 * a4 1 + iT 10 * a7 4 - iT 14 * a1 4 
             - iT 23 * a8 4 - iT 2 * a4 5 - iT 9 * a7 0 + iT 15 * a1 0 + iT 22 * a8 0 + iT 3 * a4 3 + iT 8 * a6 3 + iT 16 
             * a0 2 - iT 21 * a5 3 - iT 4 * a2 5 - iT 7 * a3 5 + iT 17 * a0 5 + iT 20 * a1 5 + iT 5 * a2 1 + iT 6 * a3 1 
             - iT 18 * a0 1 - iT 19 * a1 1 - t0),
         (25, - iT 0 * a4 5 - iT 11 * a6 5 - iT 13 * a0 0 + iT 24 * a5 5 - iT 1 * a3 1 - iT 10 * a2 1 + iT 14 * a1 1 
             + iT 23 * a0 1 + iT 2 * a7 2 + iT 9 * a4 3 - iT 15 * a8 2 - iT 22 * a1 2 + iT 3 * a6 2 + iT 8 * a3 3 + iT 16 
             * a9 2 + iT 21 * a8 3 + iT 4 * a2 4 - iT 7 * a7 4 - iT 17 * a5 1 - iT 20 * a9 1 - iT 5 * a4 0 - iT 6 * a6 0 
             - iT 18 * a0 5 + iT 19 * a5 0 - t0),
         (26, iT 0 * a8 0 + iT 11 * a1 0 - iT 13 * a4 5 - iT 24 * a7 0 + iT 1 * a5 4 + iT 10 * a9 4 + iT 14 * a7 1 - 
             iT 23 * a2 1 - iT 2 * a1 2 - iT 9 * a0 2 + iT 15 * a2 2 + iT 22 * a3 2 - iT 3 * a9 2 - iT 8 * a8 3 - iT 16 * 
             a3 3 - iT 21 * a6 2 + iT 4 * a0 4 - iT 7 * a5 1 + iT 17 * a6 1 + iT 20 * a4 1 + iT 5 * a8 5 + iT 6 * a1 5 - 
             iT 18 * a4 0 - iT 19 * a7 5 - t1),
         (28, - iT 0 * a5 1 - iT 11 * a9 1 - iT 13 * a7 4 + iT 24 * a2 4 + iT 1 * a8 2 + iT 10 * a9 3 + iT 14 * a6 3 
             + iT 23 * a3 2 - iT 2 * a9 4 - iT 9 * a8 1 - iT 15 * a3 1 - iT 22 * a6 4 + iT 3 * a9 0 + iT 8 * a5 0 - iT 16 
             * a2 5 + iT 21 * a7 5 - iT 4 * a5 5 + iT 7 * a0 0 + iT 17 * a4 5 + iT 20 * a6 5 + iT 5 * a1 3 + iT 6 * a0 3 
             - iT 18 * a2 3 - iT 19 * a3 3 + t1),
         (29, iT 0 * a6 4 + iT 11 * a3 1 + iT 13 * a9 4 + iT 24 * a8 1 - iT 1 * a7 3 - iT 10 * a4 2 + iT 14 * a8 3 + 
             iT 23 * a1 3 - iT 2 * a3 5 - iT 9 * a2 5 + iT 15 * a1 5 + iT 22 * a0 5 + iT 3 * a2 4 + iT 8 * a3 4 - iT 16 * 
             a0 4 - iT 21 * a1 4 + iT 4 * a4 3 + iT 7 * a7 2 - iT 17 * a1 2 - iT 20 * a8 2 - iT 5 * a3 0 - iT 6 * a6 5 - 
             iT 18 * a8 0 - iT 19 * a9 5 + t0),
         (30, - iT 0 * a7 2 + iT 11 * a2 2 - iT 13 * a9 3 - iT 24 * a5 3 - iT 1 * a6 0 - iT 10 * a4 0 + iT 14 * a5 0 
             - iT 23 * a0 5 - iT 2 * a4 2 - iT 9 * a6 2 - iT 15 * a0 3 + iT 22 * a5 2 + iT 3 * a2 0 - iT 8 * a7 0 - iT 16 
             * a5 5 - iT 21 * a9 5 + iT 4 * a7 1 - iT 7 * a2 1 + iT 17 * a9 4 + iT 20 * a5 4 + iT 5 * a6 1 + iT 6 * a4 1 
             - iT 18 * a5 1 + iT 19 * a0 4 + t0),
         (31, iT 0 * a8 5 + iT 11 * a1 5 - iT 13 * a4 0 - iT 24 * a7 5 - iT 1 * a1 0 - iT 10 * a8 0 + iT 14 * a7 0 + 
             iT 23 * a4 5 - iT 2 * a8 4 - iT 9 * a1 4 + iT 15 * a4 1 + iT 22 * a7 4 + iT 3 * a1 1 + iT 8 * a8 1 - iT 16 * 
             a7 1 - iT 21 * a4 4 + iT 4 * a8 3 + iT 7 * a1 3 - iT 17 * a4 2 - iT 20 * a7 3 - iT 5 * a1 2 - iT 6 * a8 2 + 
             iT 18 * a7 2 + iT 19 * a4 3 + t1),
         (2, iT 4 * b 0 + iT 9 * b 1 + iT 14 * b 2 + iT 19 * b 3 + iT 24 * b 4 + iT 29 * b 5),
         (7, - iT 14 * b 0 - iT 29 * b 1 - iT 19 * b 2 - iT 4 * b 3 + iT 9 * b 4 + iT 24 * b 5),
         (12, iT 24 * b 0 + iT 14 * b 1 - iT 9 * b 2 - iT 29 * b 3 - iT 4 * b 4 + iT 19 * b 5),
         (17, - iT 29 * b 0 + iT 4 * b 1 + iT 24 * b 2 - iT 9 * b 3 - iT 19 * b 4 + iT 14 * b 5),
         (22, iT 19 * b 0 - iT 24 * b 1 + iT 4 * b 2 + iT 14 * b 3 - iT 29 * b 4 + iT 9 * b 5),
         (27, - iT 9 * b 0 + iT 19 * b 1 - iT 29 * b 2 + iT 24 * b 3 - iT 14 * b 4 + iT 4 * b 5),
         (6, iT 12 * c 0 + iT 25 * c 1),
         (19, - iT 25 * c 0 + iT 12 * c 1)])"

definition fastInverseDCT8_B32 :: "int list \<Rightarrow> int list \<Rightarrow> nat \<Rightarrow> nat \<Rightarrow> nat \<Rightarrow> nat \<Rightarrow> int \<Rightarrow> int \<Rightarrow> int list" where
  "fastInverseDCT8_B32 src dst shift line iSkipLine iSkipLine2 outputMinimum outputMaximum =
    (let add = rnd shift;
         iT = core g_trCoreDST7P32 TRANSFORM_INVERSE;
         reducedLine = line - iSkipLine
     in inv_clear 32 reducedLine iSkipLine
          (inv_loop 32 (invDCT8_B32_body iT) src dst add shift line reducedLine outputMinimum outputMaximum))"

section \<open>The bodies compute the matrix product\<close>

text \<open>
  The bodies are linear in the source vector.  They are compared with the rows of the table as
  coefficient vectors: \<open>lin v s\<close> interprets the vector \<open>v\<close>, every arithmetic operation on linear forms has
  a counterpart on vectors, and the vectors are evaluated.
\<close>

fun lin_from :: "nat \<Rightarrow> int list \<Rightarrow> (nat \<Rightarrow> int) \<Rightarrow> int" where
  "lin_from i [] s = 0"
| "lin_from i (x # xs) s = x * s i + lin_from (Suc i) xs s"

definition lin :: "int list \<Rightarrow> (nat \<Rightarrow> int) \<Rightarrow> int" where
  "lin v s = lin_from 0 v s"

fun vadd :: "int list \<Rightarrow> int list \<Rightarrow> int list" where
  "vadd (x # xs) (y # ys) = (x + y) # vadd xs ys"
| "vadd [] ys = ys"
| "vadd xs [] = xs"

definition unit_vec :: "nat \<Rightarrow> int list" where
  "unit_vec k = replicate k 0 @ [1]"

lemma lin_from_vadd: "lin_from i u s + lin_from i v s = lin_from i (vadd u v) s"
  by (induction u v arbitrary: i rule: vadd.induct) (simp_all add: algebra_simps)

lemma lin_from_scale: "c * lin_from i u s = lin_from i (map ((*) c) u) s"
  by (induction u arbitrary: i) (simp_all add: algebra_simps)

lemma lin_from_zeros: "lin_from i (replicate n 0) s = 0"
  by (induction n arbitrary: i) simp_all

lemma lin_unit: "s k = lin (unit_vec k) s"
proof -
  have "lin_from i (replicate k 0 @ [1]) s = s (i + k)" for i
    by (induction k arbitrary: i) simp_all
  then show ?thesis by (simp add: lin_def unit_vec_def)
qed

lemma lin_pad: "vadd v (replicate n 0) = w \<Longrightarrow> lin v s = lin w s"
  by (auto simp: lin_def lin_from_zeros simp flip: lin_from_vadd)

lemma lin_rules:
  "lin u s + lin v s = lin (vadd u v) s"
  "lin u s - lin v s = lin (vadd u (map ((*) (- 1)) v)) s"
  "c * lin u s = lin (map ((*) c) u) s"
proof -
  show "lin u s + lin v s = lin (vadd u v) s" for u v by (simp add: lin_def lin_from_vadd)
  show s: "c * lin u s = lin (map ((*) c) u) s" for c u by (simp add: lin_def lin_from_scale)
  show "lin u s - lin v s = lin (vadd u (map ((*) (- 1)) v)) s"
    unfolding lin_def lin_from_vadd [symmetric] lin_from_scale [symmetric] by simp
qed

lemma lin_from_eq_isum: "lin_from i v s = isum (length v) (\<lambda>k. v ! k * s (i + k))"
proof (induction v arbitrary: i)
  case (Cons x v)
  have "isum (Suc n) f = f 0 + isum n (\<lambda>k. f (Suc k))" for n f
    unfolding isum_eq_sum by (rule sum.lessThan_Suc_shift)
  then show ?case using Cons by simp
qed simp

lemma lin_row:
  assumes "square n (g ! dir)" "k < n"
  shows "lin (g ! dir ! k) s = isum n (\<lambda>i. s i * core g dir (k * n + i))"
  using assms by (simp add: lin_def lin_from_eq_isum core_square squareD mult.commute)

lemma lin_col:
  assumes "square n (g ! dir)" "k < n"
  shows "lin (map (\<lambda>r. r ! k) (g ! dir)) s = isum n (\<lambda>r. s r * core g dir (r * n + k))"
  using assms by (simp add: lin_def lin_from_eq_isum core_square squareD mult.commute)

lemma squares_MTS:
  "square 4 (g_trCoreDST7P4 ! 0)" "square 4 (g_trCoreDST7P4 ! 1)"
  "square 8 (g_trCoreDST7P8 ! 0)" "square 8 (g_trCoreDST7P8 ! 1)"
  "square 16 (g_trCoreDST7P16 ! 0)" "square 16 (g_trCoreDST7P16 ! 1)"
  "square 32 (g_trCoreDST7P32 ! 0)" "square 32 (g_trCoreDST7P32 ! 1)"
  "square 4 (g_trCoreDCT8P4 ! 0)" "square 4 (g_trCoreDCT8P4 ! 1)"
  "square 8 (g_trCoreDCT8P8 ! 0)" "square 8 (g_trCoreDCT8P8 ! 1)"
  "square 16 (g_trCoreDCT8P16 ! 0)" "square 16 (g_trCoreDCT8P16 ! 1)"
  "square 32 (g_trCoreDCT8P32 ! 0)" "square 32 (g_trCoreDCT8P32 ! 1)"
  by code_simp+

lemma core_DST7P4_0:
  "core g_trCoreDST7P4 0 0 = 29" "core g_trCoreDST7P4 0 1 = 55" "core g_trCoreDST7P4 0 2 = 74"
  "core g_trCoreDST7P4 0 3 = 84"
  by code_simp+

lemma core_DST7P4_1:
  "core g_trCoreDST7P4 1 0 = 29" "core g_trCoreDST7P4 1 1 = 55" "core g_trCoreDST7P4 1 2 = 74"
  "core g_trCoreDST7P4 1 3 = 84"
  by code_simp+

lemma core_DST7P16_0:
  "core g_trCoreDST7P16 0 0 = 8" "core g_trCoreDST7P16 0 1 = 17" "core g_trCoreDST7P16 0 2 = 25"
  "core g_trCoreDST7P16 0 3 = 33" "core g_trCoreDST7P16 0 4 = 40" "core g_trCoreDST7P16 0 5 = 48"
  "core g_trCoreDST7P16 0 6 = 55" "core g_trCoreDST7P16 0 7 = 62" "core g_trCoreDST7P16 0 8 = 68"
  "core g_trCoreDST7P16 0 9 = 73" "core g_trCoreDST7P16 0 10 = 77" "core g_trCoreDST7P16 0 11 = 81"
  "core g_trCoreDST7P16 0 12 = 85" "core g_trCoreDST7P16 0 13 = 87" "core g_trCoreDST7P16 0 14 = 88"
  "core g_trCoreDST7P16 0 15 = 88"
  by code_simp+

lemma core_DST7P16_1:
  "core g_trCoreDST7P16 1 0 = 8" "core g_trCoreDST7P16 1 1 = 17" "core g_trCoreDST7P16 1 2 = 25"
  "core g_trCoreDST7P16 1 3 = 33" "core g_trCoreDST7P16 1 4 = 40" "core g_trCoreDST7P16 1 5 = 48"
  "core g_trCoreDST7P16 1 6 = 55" "core g_trCoreDST7P16 1 7 = 62" "core g_trCoreDST7P16 1 8 = 68"
  "core g_trCoreDST7P16 1 9 = 73" "core g_trCoreDST7P16 1 10 = 77" "core g_trCoreDST7P16 1 11 = 81"
  "core g_trCoreDST7P16 1 12 = 85" "core g_trCoreDST7P16 1 13 = 87" "core g_trCoreDST7P16 1 14 = 88"
  "core g_trCoreDST7P16 1 15 = 88"
  by code_simp+

lemma core_DST7P32_0:
  "core g_trCoreDST7P32 0 0 = 4" "core g_trCoreDST7P32 0 1 = 9" "core g_trCoreDST7P32 0 2 = 13"
  "core g_trCoreDST7P32 0 3 = 17" "core g_trCoreDST7P32 0 4 = 21" "core g_trCoreDST7P32 0 5 = 26"
  "core g_trCoreDST7P32 0 6 = 30" "core g_trCoreDST7P32 0 7 = 34" "core g_trCoreDST7P32 0 8 = 38"
  "core g_trCoreDST7P32 0 9 = 42" "core g_trCoreDST7P32 0 10 = 46" "core g_trCoreDST7P32 0 11 = 50"
  "core g_trCoreDST7P32 0 12 = 53" "core g_trCoreDST7P32 0 13 = 56" "core g_trCoreDST7P32 0 14 = 60"
  "core g_trCoreDST7P32 0 15 = 63" "core g_trCoreDST7P32 0 16 = 66" "core g_trCoreDST7P32 0 17 = 68"
  "core g_trCoreDST7P32 0 18 = 72" "core g_trCoreDST7P32 0 19 = 74" "core g_trCoreDST7P32 0 20 = 77"
  "core g_trCoreDST7P32 0 21 = 78" "core g_trCoreDST7P32 0 22 = 80" "core g_trCoreDST7P32 0 23 = 82"
  "core g_trCoreDST7P32 0 24 = 84" "core g_trCoreDST7P32 0 25 = 85" "core g_trCoreDST7P32 0 26 = 86"
  "core g_trCoreDST7P32 0 27 = 87" "core g_trCoreDST7P32 0 28 = 88" "core g_trCoreDST7P32 0 29 = 89"
  "core g_trCoreDST7P32 0 30 = 90" "core g_trCoreDST7P32 0 31 = 90"
  by code_simp+

lemma core_DST7P32_1:
  "core g_trCoreDST7P32 1 0 = 4" "core g_trCoreDST7P32 1 1 = 9" "core g_trCoreDST7P32 1 2 = 13"
  "core g_trCoreDST7P32 1 3 = 17" "core g_trCoreDST7P32 1 4 = 21" "core g_trCoreDST7P32 1 5 = 26"
  "core g_trCoreDST7P32 1 6 = 30" "core g_trCoreDST7P32 1 7 = 34" "core g_trCoreDST7P32 1 8 = 38"
  "core g_trCoreDST7P32 1 9 = 42" "core g_trCoreDST7P32 1 10 = 46" "core g_trCoreDST7P32 1 11 = 50"
  "core g_trCoreDST7P32 1 12 = 53" "core g_trCoreDST7P32 1 13 = 56" "core g_trCoreDST7P32 1 14 = 60"
  "core g_trCoreDST7P32 1 15 = 63" "core g_trCoreDST7P32 1 16 = 66" "core g_trCoreDST7P32 1 17 = 68"
  "core g_trCoreDST7P32 1 18 = 72" "core g_trCoreDST7P32 1 19 = 74" "core g_trCoreDST7P32 1 20 = 77"
  "core g_trCoreDST7P32 1 21 = 78" "core g_trCoreDST7P32 1 22 = 80" "core g_trCoreDST7P32 1 23 = 82"
  "core g_trCoreDST7P32 1 24 = 84" "core g_trCoreDST7P32 1 25 = 85" "core g_trCoreDST7P32 1 26 = 86"
  "core g_trCoreDST7P32 1 27 = 87" "core g_trCoreDST7P32 1 28 = 88" "core g_trCoreDST7P32 1 29 = 89"
  "core g_trCoreDST7P32 1 30 = 90" "core g_trCoreDST7P32 1 31 = 90"
  by code_simp+

lemma core_DCT8P4_0:
  "core g_trCoreDCT8P4 0 0 = 84" "core g_trCoreDCT8P4 0 1 = 74" "core g_trCoreDCT8P4 0 2 = 55"
  "core g_trCoreDCT8P4 0 3 = 29"
  by code_simp+

lemma core_DCT8P4_1:
  "core g_trCoreDCT8P4 1 0 = 84" "core g_trCoreDCT8P4 1 1 = 74" "core g_trCoreDCT8P4 1 2 = 55"
  "core g_trCoreDCT8P4 1 3 = 29"
  by code_simp+

lemma stores_fwdDST7_B4_body:
  "stores 4 4 (fwdDST7_B4_body (core g_trCoreDST7P4 0) s) (\<lambda>k. lin (g_trCoreDST7P4 ! 0 ! k) s)"
proof (rule storesI)
  show "list_all (\<lambda>(k, v). k < 4 \<and> v = lin (g_trCoreDST7P4 ! 0 ! k) s) (fwdDST7_B4_body (core g_trCoreDST7P4 0) s)"
    unfolding fwdDST7_B4_body_def Let_def core_DST7P4_0 list.pred_inject prod.case
    by (intro conjI TrueI; (simp only: lin_unit [of s] lin_rules; rule lin_pad [where n = 4]; code_simp)?; simp)
  show "map fst (fwdDST7_B4_body (core g_trCoreDST7P4 0) s) = [0, 1, 2, 3]"
    unfolding fwdDST7_B4_body_def Let_def by simp
  show "list_all (List.member [0::nat, 1, 2, 3]) [0..<4]" by code_simp
qed

lemma stores_invDST7_B4_body:
  "stores 4 4 (invDST7_B4_body (core g_trCoreDST7P4 1) s) (\<lambda>k. lin (map (\<lambda>r. r ! k) (g_trCoreDST7P4 ! 1)) s)"
proof (rule storesI)
  show "list_all (\<lambda>(k, v). k < 4 \<and> v = lin (map (\<lambda>r. r ! k) (g_trCoreDST7P4 ! 1)) s) (invDST7_B4_body (core g_trCoreDST7P4 1) s)"
    unfolding invDST7_B4_body_def Let_def core_DST7P4_1 list.pred_inject prod.case
    by (intro conjI TrueI; (simp only: lin_unit [of s] lin_rules; rule lin_pad [where n = 4]; code_simp)?; simp)
  show "map fst (invDST7_B4_body (core g_trCoreDST7P4 1) s) = [0, 1, 2, 3]"
    unfolding invDST7_B4_body_def Let_def by simp
  show "list_all (List.member [0::nat, 1, 2, 3]) [0..<4]" by code_simp
qed

lemma stores_fwdDST7_B16_body:
  "stores 16 16 (fwdDST7_B16_body (core g_trCoreDST7P16 0) s) (\<lambda>k. lin (g_trCoreDST7P16 ! 0 ! k) s)"
proof (rule storesI)
  show "list_all (\<lambda>(k, v). k < 16 \<and> v = lin (g_trCoreDST7P16 ! 0 ! k) s) (fwdDST7_B16_body (core g_trCoreDST7P16 0) s)"
    unfolding fwdDST7_B16_body_def Let_def core_DST7P16_0 list.pred_inject prod.case
    by (intro conjI TrueI; (simp only: lin_unit [of s] lin_rules; rule lin_pad [where n = 16]; code_simp)?; simp)
  show "map fst (fwdDST7_B16_body (core g_trCoreDST7P16 0) s) = [1, 4, 7, 10, 13, 5, 0, 2, 3, 6, 8, 9, 11, 12, 14, 15]"
    unfolding fwdDST7_B16_body_def Let_def by simp
  show "list_all (List.member [1::nat, 4, 7, 10, 13, 5, 0, 2, 3, 6, 8, 9, 11, 12, 14, 15]) [0..<16]" by code_simp
qed

lemma stores_invDST7_B16_body:
  "stores 16 16 (invDST7_B16_body (core g_trCoreDST7P16 1) s) (\<lambda>k. lin (map (\<lambda>r. r ! k) (g_trCoreDST7P16 ! 1)) s)"
proof (rule storesI)
  show "list_all (\<lambda>(k, v). k < 16 \<and> v = lin (map (\<lambda>r. r ! k) (g_trCoreDST7P16 ! 1)) s) (invDST7_B16_body (core g_trCoreDST7P16 1) s)"
    unfolding invDST7_B16_body_def Let_def core_DST7P16_1 list.pred_inject prod.case
    by (intro conjI TrueI; (simp only: lin_unit [of s] lin_rules; rule lin_pad [where n = 16]; code_simp)?; simp)
  show "map fst (invDST7_B16_body (core g_trCoreDST7P16 1) s) = [2, 5, 8, 11, 14, 10, 0, 1, 3, 4, 6, 7, 9, 12, 13, 15]"
    unfolding invDST7_B16_body_def Let_def by simp
  show "list_all (List.member [2::nat, 5, 8, 11, 14, 10, 0, 1, 3, 4, 6, 7, 9, 12, 13, 15]) [0..<16]" by code_simp
qed

lemma stores_fwdDST7_B32_body:
  "stores 32 32 (fwdDST7_B32_body (core g_trCoreDST7P32 0) s) (\<lambda>k. lin (g_trCoreDST7P32 ! 0 ! k) s)"
proof (rule storesI)
  show "list_all (\<lambda>(k, v). k < 32 \<and> v = lin (g_trCoreDST7P32 ! 0 ! k) s) (fwdDST7_B32_body (core g_trCoreDST7P32 0) s)"
    unfolding fwdDST7_B32_body_def Let_def core_DST7P32_0 list.pred_inject prod.case
    by (intro conjI TrueI; (simp only: lin_unit [of s] lin_rules; rule lin_pad [where n = 32]; code_simp)?; simp)
  show "map fst (fwdDST7_B32_body (core g_trCoreDST7P32 0) s) = [0, 1, 3, 4, 5, 8, 9, 10, 11, 13, 14, 15, 16, 18, 20, 21, 23, 24, 25, 26, 28, 29, 30, 31, 2, 7, 12, 17, 22, 27, 6, 19]"
    unfolding fwdDST7_B32_body_def Let_def by simp
  show "list_all (List.member [0::nat, 1, 3, 4, 5, 8, 9, 10, 11, 13, 14, 15, 16, 18, 20, 21, 23, 24, 25, 26, 28, 29, 30, 31, 2, 7, 12, 17, 22, 27, 6, 19]) [0..<32]" by code_simp
qed

lemma stores_invDST7_B32_body:
  "stores 32 32 (invDST7_B32_body (core g_trCoreDST7P32 1) s) (\<lambda>k. lin (map (\<lambda>r. r ! k) (g_trCoreDST7P32 ! 1)) s)"
proof (rule storesI)
  show "list_all (\<lambda>(k, v). k < 32 \<and> v = lin (map (\<lambda>r. r ! k) (g_trCoreDST7P32 ! 1)) s) (invDST7_B32_body (core g_trCoreDST7P32 1) s)"
    unfolding invDST7_B32_body_def Let_def core_DST7P32_1 list.pred_inject prod.case
    by (intro conjI TrueI; (simp only: lin_unit [of s] lin_rules; rule lin_pad [where n = 32]; code_simp)?; simp)
  show "map fst (invDST7_B32_body (core g_trCoreDST7P32 1) s) = [0, 1, 2, 3, 5, 6, 7, 8, 10, 11, 13, 15, 16, 17, 18, 20, 21, 22, 23, 26, 27, 28, 30, 31, 4, 9, 14, 19, 24, 29, 12, 25]"
    unfolding invDST7_B32_body_def Let_def by simp
  show "list_all (List.member [0::nat, 1, 2, 3, 5, 6, 7, 8, 10, 11, 13, 15, 16, 17, 18, 20, 21, 22, 23, 26, 27, 28, 30, 31, 4, 9, 14, 19, 24, 29, 12, 25]) [0..<32]" by code_simp
qed

lemma stores_fwdDCT8_B4_body:
  "stores 4 4 (fwdDCT8_B4_body (core g_trCoreDCT8P4 0) s) (\<lambda>k. lin (g_trCoreDCT8P4 ! 0 ! k) s)"
proof (rule storesI)
  show "list_all (\<lambda>(k, v). k < 4 \<and> v = lin (g_trCoreDCT8P4 ! 0 ! k) s) (fwdDCT8_B4_body (core g_trCoreDCT8P4 0) s)"
    unfolding fwdDCT8_B4_body_def Let_def core_DCT8P4_0 list.pred_inject prod.case
    by (intro conjI TrueI; (simp only: lin_unit [of s] lin_rules; rule lin_pad [where n = 4]; code_simp)?; simp)
  show "map fst (fwdDCT8_B4_body (core g_trCoreDCT8P4 0) s) = [0, 1, 2, 3]"
    unfolding fwdDCT8_B4_body_def Let_def by simp
  show "list_all (List.member [0::nat, 1, 2, 3]) [0..<4]" by code_simp
qed

lemma stores_invDCT8_B4_body:
  "stores 4 4 (invDCT8_B4_body (core g_trCoreDCT8P4 1) s) (\<lambda>k. lin (map (\<lambda>r. r ! k) (g_trCoreDCT8P4 ! 1)) s)"
proof (rule storesI)
  show "list_all (\<lambda>(k, v). k < 4 \<and> v = lin (map (\<lambda>r. r ! k) (g_trCoreDCT8P4 ! 1)) s) (invDCT8_B4_body (core g_trCoreDCT8P4 1) s)"
    unfolding invDCT8_B4_body_def Let_def core_DCT8P4_1 list.pred_inject prod.case
    by (intro conjI TrueI; (simp only: lin_unit [of s] lin_rules; rule lin_pad [where n = 4]; code_simp)?; simp)
  show "map fst (invDCT8_B4_body (core g_trCoreDCT8P4 1) s) = [0, 1, 2, 3]"
    unfolding invDCT8_B4_body_def Let_def by simp
  show "list_all (List.member [0::nat, 1, 2, 3]) [0..<4]" by code_simp
qed

lemma stores_fwdDCT8_B16_body:
  "stores 16 16 (fwdDCT8_B16_body (core g_trCoreDST7P16 0) s) (\<lambda>k. lin (g_trCoreDCT8P16 ! 0 ! k) s)"
proof (rule storesI)
  show "list_all (\<lambda>(k, v). k < 16 \<and> v = lin (g_trCoreDCT8P16 ! 0 ! k) s) (fwdDCT8_B16_body (core g_trCoreDST7P16 0) s)"
    unfolding fwdDCT8_B16_body_def Let_def core_DST7P16_0 list.pred_inject prod.case
    by (intro conjI TrueI; (simp only: lin_unit [of s] lin_rules; rule lin_pad [where n = 16]; code_simp)?; simp)
  show "map fst (fwdDCT8_B16_body (core g_trCoreDST7P16 0) s) = [1, 4, 7, 10, 13, 5, 0, 2, 3, 6, 8, 9, 11, 12, 14, 15]"
    unfolding fwdDCT8_B16_body_def Let_def by simp
  show "list_all (List.member [1::nat, 4, 7, 10, 13, 5, 0, 2, 3, 6, 8, 9, 11, 12, 14, 15]) [0..<16]" by code_simp
qed

lemma stores_invDCT8_B16_body:
  "stores 16 16 (invDCT8_B16_body (core g_trCoreDST7P16 1) s) (\<lambda>k. lin (map (\<lambda>r. r ! k) (g_trCoreDCT8P16 ! 1)) s)"
proof (rule storesI)
  show "list_all (\<lambda>(k, v). k < 16 \<and> v = lin (map (\<lambda>r. r ! k) (g_trCoreDCT8P16 ! 1)) s) (invDCT8_B16_body (core g_trCoreDST7P16 1) s)"
    unfolding invDCT8_B16_body_def Let_def core_DST7P16_1 list.pred_inject prod.case
    by (intro conjI TrueI; (simp only: lin_unit [of s] lin_rules; rule lin_pad [where n = 16]; code_simp)?; simp)
  show "map fst (invDCT8_B16_body (core g_trCoreDST7P16 1) s) = [1, 4, 7, 10, 13, 5, 0, 2, 3, 6, 8, 9, 11, 12, 14, 15]"
    unfolding invDCT8_B16_body_def Let_def by simp
  show "list_all (List.member [1::nat, 4, 7, 10, 13, 5, 0, 2, 3, 6, 8, 9, 11, 12, 14, 15]) [0..<16]" by code_simp
qed

lemma stores_fwdDCT8_B32_body:
  "stores 32 32 (fwdDCT8_B32_body (core g_trCoreDST7P32 0) s) (\<lambda>k. lin (g_trCoreDCT8P32 ! 0 ! k) s)"
proof (rule storesI)
  show "list_all (\<lambda>(k, v). k < 32 \<and> v = lin (g_trCoreDCT8P32 ! 0 ! k) s) (fwdDCT8_B32_body (core g_trCoreDST7P32 0) s)"
    unfolding fwdDCT8_B32_body_def Let_def core_DST7P32_0 list.pred_inject prod.case
    by (intro conjI TrueI; (simp only: lin_unit [of s] lin_rules; rule lin_pad [where n = 32]; code_simp)?; simp)
  show "map fst (fwdDCT8_B32_body (core g_trCoreDST7P32 0) s) = [0, 1, 3, 4, 5, 8, 9, 10, 11, 13, 14, 15, 16, 18, 20, 21, 23, 24, 25, 26, 28, 29, 30, 31, 2, 7, 12, 17, 22, 27, 6, 19]"
    unfolding fwdDCT8_B32_body_def Let_def by simp
  show "list_all (List.member [0::nat, 1, 3, 4, 5, 8, 9, 10, 11, 13, 14, 15, 16, 18, 20, 21, 23, 24, 25, 26, 28, 29, 30, 31, 2, 7, 12, 17, 22, 27, 6, 19]) [0..<32]" by code_simp
qed

lemma stores_invDCT8_B32_body:
  "stores 32 32 (invDCT8_B32_body (core g_trCoreDST7P32 1) s) (\<lambda>k. lin (map (\<lambda>r. r ! k) (g_trCoreDCT8P32 ! 1)) s)"
proof (rule storesI)
  show "list_all (\<lambda>(k, v). k < 32 \<and> v = lin (map (\<lambda>r. r ! k) (g_trCoreDCT8P32 ! 1)) s) (invDCT8_B32_body (core g_trCoreDST7P32 1) s)"
    unfolding invDCT8_B32_body_def Let_def core_DST7P32_1 list.pred_inject prod.case
    by (intro conjI TrueI; (simp only: lin_unit [of s] lin_rules; rule lin_pad [where n = 32]; code_simp)?; simp)
  show "map fst (invDCT8_B32_body (core g_trCoreDST7P32 1) s) = [0, 1, 3, 4, 5, 8, 9, 10, 11, 13, 14, 15, 16, 18, 20, 21, 23, 24, 25, 26, 28, 29, 30, 31, 2, 7, 12, 17, 22, 27, 6, 19]"
    unfolding invDCT8_B32_body_def Let_def by simp
  show "list_all (List.member [0::nat, 1, 3, 4, 5, 8, 9, 10, 11, 13, 14, 15, 16, 18, 20, 21, 23, 24, 25, 26, 28, 29, 30, 31, 2, 7, 12, 17, 22, 27, 6, 19]) [0..<32]" by code_simp
qed

section \<open>The routines equal the matrix products\<close>

lemma stores_mono: "stores n c b g \<Longrightarrow> c' \<le> c \<Longrightarrow> stores n c' b g"
  by (auto simp: stores_def)

lemma stores_cong: "stores n c b g \<Longrightarrow> (\<And>k. k < n \<Longrightarrow> g k = g' k) \<Longrightarrow> stores n c b g'"
  by (auto simp: stores_def list_all_iff)

lemma fwd_routine_lin:
  assumes st: "\<And>s. stores n n (body s) (\<lambda>k. lin (g ! dir ! k) s)" and sq: "square n (g ! dir)"
    and "length dst = n * line" "skip \<le> line" "skip2 \<le> n" "n - skip2 \<le> rows" "rows \<le> n" "add = rnd shift"
  shows "fwd_clear_rows (n - skip2) line skip2
      (fwd_clear rows line (line - skip) skip (fwd_loop n body src dst add shift line (line - skip))) =
    fwd_product n src shift line skip skip2 (core g dir)"
proof (rule fwd_routine [OF _ assms(3-)])
  fix j
  show "stores n (n - skip2) (body (\<lambda>i. src ! (j * n + i))) (\<lambda>k. isum n (\<lambda>i. src ! (j * n + i) * core g dir (k * n + i)))"
    by (rule stores_mono [OF stores_cong [OF st]]) (simp_all add: lin_row [where n = n, OF sq])
qed

lemma inv_routine_lin:
  assumes st: "\<And>s. stores n n (body s) (\<lambda>k. lin (map (\<lambda>r. r ! k) (g ! dir)) s)" and sq: "square n (g ! dir)"
    and "length dst = line * n" "skip \<le> line" "add = rnd shift"
  shows "inv_clear n (line - skip) skip (inv_loop n body src dst add shift line (line - skip) lo hi) =
    inv_product n src shift line skip 0 lo hi (core g dir)"
proof (rule inv_routine [OF _ assms(3-)])
  fix j
  show "stores n n (body (\<lambda>r. src ! (r * line + j))) (\<lambda>k. isum (n - 0) (\<lambda>r. src ! (r * line + j) * core g dir (r * n + k)))"
    by (rule stores_cong [OF st]) (simp add: lin_col [where n = n, OF sq])
qed

lemma fastForwardDST7_B4_product:
  "length dst = 4 * line \<Longrightarrow> skip \<le> line \<Longrightarrow>
    fastForwardDST7_B4 src dst shift line skip skip2 =
    fwd_product 4 src shift line skip 0 (core g_trCoreDST7P4 0)"
  using fwd_routine_lin [OF stores_fwdDST7_B4_body, where dst = dst and line = line and skip = skip and ?skip2.0 = 0 and rows = 4
      and add = "rnd shift" and shift = shift and src = src]
  by (simp add: fastForwardDST7_B4_def Let_def TRANSFORM_FORWARD_def fwd_clear_rows_def squares_MTS rnd_def)

lemma fastInverseDST7_B4_product:
  "length dst = 4 * line \<Longrightarrow> skip \<le> line \<Longrightarrow>
    fastInverseDST7_B4 src dst shift line skip skip2 lo hi =
    inv_product 4 src shift line skip 0 lo hi (core g_trCoreDST7P4 1)"
  unfolding fastInverseDST7_B4_def Let_def TRANSFORM_INVERSE_def
  by (rule inv_routine_lin [OF stores_invDST7_B4_body]) (simp_all add: squares_MTS squares_MTS [simplified] rnd_def mult.commute)

lemma fastForwardDST7_B8_product:
  "length dst = 8 * line \<Longrightarrow> skip \<le> line \<Longrightarrow> skip2 \<le> 8 \<Longrightarrow> 0 < shift \<Longrightarrow>
    fastForwardDST7_B8 src dst shift line skip skip2 =
    fwd_product 8 src shift line skip skip2 (core g_trCoreDST7P8 0)"
  unfolding fastForwardDST7_B8_def TRANSFORM_FORWARD_def by (rule forwardMatrixMult_product) (simp_all add: mult.commute)

lemma fastInverseDST7_B8_product:
  "length dst = 8 * line \<Longrightarrow> skip \<le> line \<Longrightarrow> 0 < shift \<Longrightarrow>
    fastInverseDST7_B8 src dst shift line skip skip2 lo hi =
    inv_product 8 src shift line skip skip2 lo hi (core g_trCoreDST7P8 1)"
  unfolding fastInverseDST7_B8_def TRANSFORM_INVERSE_def by (rule inverseMatrixMult_product) (simp_all add: mult.commute)

lemma fastForwardDST7_B16_product:
  "length dst = 16 * line \<Longrightarrow> skip \<le> line \<Longrightarrow> skip2 \<le> 16 \<Longrightarrow>
    fastForwardDST7_B16 src dst shift line skip skip2 =
    fwd_product 16 src shift line skip skip2 (core g_trCoreDST7P16 0)"
  unfolding fastForwardDST7_B16_def Let_def TRANSFORM_FORWARD_def
  by (rule fwd_routine_lin [OF stores_fwdDST7_B16_body]) (simp_all add: squares_MTS rnd_def)

lemma fastInverseDST7_B16_product:
  "length dst = 16 * line \<Longrightarrow> skip \<le> line \<Longrightarrow>
    fastInverseDST7_B16 src dst shift line skip skip2 lo hi =
    inv_product 16 src shift line skip 0 lo hi (core g_trCoreDST7P16 1)"
  unfolding fastInverseDST7_B16_def Let_def TRANSFORM_INVERSE_def
  by (rule inv_routine_lin [OF stores_invDST7_B16_body]) (simp_all add: squares_MTS squares_MTS [simplified] rnd_def mult.commute)

lemma fastForwardDST7_B32_product:
  "length dst = 32 * line \<Longrightarrow> skip \<le> line \<Longrightarrow> skip2 \<le> 32 \<Longrightarrow>
    fastForwardDST7_B32 src dst shift line skip skip2 =
    fwd_product 32 src shift line skip skip2 (core g_trCoreDST7P32 0)"
  unfolding fastForwardDST7_B32_def Let_def TRANSFORM_FORWARD_def
  by (rule fwd_routine_lin [OF stores_fwdDST7_B32_body]) (simp_all add: squares_MTS rnd_def)

lemma fastInverseDST7_B32_product:
  "length dst = 32 * line \<Longrightarrow> skip \<le> line \<Longrightarrow>
    fastInverseDST7_B32 src dst shift line skip skip2 lo hi =
    inv_product 32 src shift line skip 0 lo hi (core g_trCoreDST7P32 1)"
  unfolding fastInverseDST7_B32_def Let_def TRANSFORM_INVERSE_def
  by (rule inv_routine_lin [OF stores_invDST7_B32_body]) (simp_all add: squares_MTS squares_MTS [simplified] rnd_def mult.commute)

lemma fastForwardDCT8_B4_product:
  "length dst = 4 * line \<Longrightarrow> skip \<le> line \<Longrightarrow> 0 < shift \<Longrightarrow>
    fastForwardDCT8_B4 src dst shift line skip skip2 =
    fwd_product 4 src shift line skip 0 (core g_trCoreDCT8P4 0)"
  using fwd_routine_lin [OF stores_fwdDCT8_B4_body, where dst = dst and line = line and skip = skip and ?skip2.0 = 0 and rows = 4
      and add = "2 ^ (shift - 1)" and shift = shift and src = src]
  by (simp add: fastForwardDCT8_B4_def Let_def TRANSFORM_FORWARD_def fwd_clear_rows_def squares_MTS rnd_def)

lemma fastInverseDCT8_B4_product:
  "length dst = 4 * line \<Longrightarrow> skip \<le> line \<Longrightarrow> 0 < shift \<Longrightarrow>
    fastInverseDCT8_B4 src dst shift line skip skip2 lo hi =
    inv_product 4 src shift line skip 0 lo hi (core g_trCoreDCT8P4 1)"
  unfolding fastInverseDCT8_B4_def Let_def TRANSFORM_INVERSE_def
  by (rule inv_routine_lin [OF stores_invDCT8_B4_body]) (simp_all add: squares_MTS squares_MTS [simplified] rnd_def mult.commute)

lemma fastForwardDCT8_B8_product:
  "length dst = 8 * line \<Longrightarrow> skip \<le> line \<Longrightarrow> skip2 \<le> 8 \<Longrightarrow> 0 < shift \<Longrightarrow>
    fastForwardDCT8_B8 src dst shift line skip skip2 =
    fwd_product 8 src shift line skip skip2 (core g_trCoreDCT8P8 0)"
  unfolding fastForwardDCT8_B8_def TRANSFORM_FORWARD_def by (rule forwardMatrixMult_product) (simp_all add: mult.commute)

lemma fastInverseDCT8_B8_product:
  "length dst = 8 * line \<Longrightarrow> skip \<le> line \<Longrightarrow> 0 < shift \<Longrightarrow>
    fastInverseDCT8_B8 src dst shift line skip skip2 lo hi =
    inv_product 8 src shift line skip skip2 lo hi (core g_trCoreDCT8P8 1)"
  unfolding fastInverseDCT8_B8_def TRANSFORM_INVERSE_def by (rule inverseMatrixMult_product) (simp_all add: mult.commute)

lemma fastForwardDCT8_B16_product:
  "length dst = 16 * line \<Longrightarrow> skip \<le> line \<Longrightarrow> skip2 \<le> 16 \<Longrightarrow>
    fastForwardDCT8_B16 src dst shift line skip skip2 =
    fwd_product 16 src shift line skip skip2 (core g_trCoreDCT8P16 0)"
  unfolding fastForwardDCT8_B16_def Let_def TRANSFORM_FORWARD_def
  by (rule fwd_routine_lin [OF stores_fwdDCT8_B16_body]) (simp_all add: squares_MTS rnd_def)

lemma fastInverseDCT8_B16_product:
  "length dst = 16 * line \<Longrightarrow> skip \<le> line \<Longrightarrow>
    fastInverseDCT8_B16 src dst shift line skip skip2 lo hi =
    inv_product 16 src shift line skip 0 lo hi (core g_trCoreDCT8P16 1)"
  unfolding fastInverseDCT8_B16_def Let_def TRANSFORM_INVERSE_def
  by (rule inv_routine_lin [OF stores_invDCT8_B16_body]) (simp_all add: squares_MTS squares_MTS [simplified] rnd_def mult.commute)

lemma fastForwardDCT8_B32_product:
  "length dst = 32 * line \<Longrightarrow> skip \<le> line \<Longrightarrow> skip2 \<le> 32 \<Longrightarrow>
    fastForwardDCT8_B32 src dst shift line skip skip2 =
    fwd_product 32 src shift line skip skip2 (core g_trCoreDCT8P32 0)"
  unfolding fastForwardDCT8_B32_def Let_def TRANSFORM_FORWARD_def
  by (rule fwd_routine_lin [OF stores_fwdDCT8_B32_body]) (simp_all add: squares_MTS rnd_def)

lemma fastInverseDCT8_B32_product:
  "length dst = 32 * line \<Longrightarrow> skip \<le> line \<Longrightarrow>
    fastInverseDCT8_B32 src dst shift line skip skip2 lo hi =
    inv_product 32 src shift line skip 0 lo hi (core g_trCoreDCT8P32 1)"
  unfolding fastInverseDCT8_B32_def Let_def TRANSFORM_INVERSE_def
  by (rule inv_routine_lin [OF stores_invDCT8_B32_body]) (simp_all add: squares_MTS squares_MTS [simplified] rnd_def mult.commute)

end
