(* ===== verification/TrQuant.thy ===== *)
theory TrQuant
  imports FastDct2 FastMts "HOL-Library.Word"
begin

text \<open>
  The two-dimensional transform of \<open>CommonLib/TrQuant.cpp\<close>: the tables of one-dimensional routines, the
  choice of the transform types, \<open>xT\<close>, \<open>xIT\<close>, the transform skip, and the sparsity counters of
  \<open>CommonLib/CDSATMStats.h\<close> that \<open>xT\<close> feeds.  A routine pointer is an option (\<open>nullptr\<close> is None), a failing
  \<open>CHECK\<close> and a call through \<open>nullptr\<close> are None results.  The contents of uninitialised buffers are
  arguments.
\<close>

section \<open>The routine tables\<close>

datatype TransType = DCT2 | DCT8 | DST7

definition m_fwdTx :: "TransType \<Rightarrow> (int list \<Rightarrow> int list \<Rightarrow> nat \<Rightarrow> nat \<Rightarrow> nat \<Rightarrow> nat \<Rightarrow> int list) option list" where
  "m_fwdTx t = (case t of
     DCT2 \<Rightarrow> [Some fastForwardDCT2_B2, Some fastForwardDCT2_B4, Some fastForwardDCT2_B8,
              Some fastForwardDCT2_B16, Some fastForwardDCT2_B32, Some fastForwardDCT2_B64]
   | DCT8 \<Rightarrow> [None, Some fastForwardDCT8_B4, Some fastForwardDCT8_B8,
              Some fastForwardDCT8_B16, Some fastForwardDCT8_B32, None]
   | DST7 \<Rightarrow> [None, Some fastForwardDST7_B4, Some fastForwardDST7_B8,
              Some fastForwardDST7_B16, Some fastForwardDST7_B32, None])"

definition m_invTx :: "TransType \<Rightarrow> (int list \<Rightarrow> int list \<Rightarrow> nat \<Rightarrow> nat \<Rightarrow> nat \<Rightarrow> nat \<Rightarrow> int \<Rightarrow> int \<Rightarrow> int list) option list" where
  "m_invTx t = (case t of
     DCT2 \<Rightarrow> [Some fastInverseDCT2_B2, Some fastInverseDCT2_B4, Some fastInverseDCT2_B8,
              Some fastInverseDCT2_B16, Some fastInverseDCT2_B32, Some fastInverseDCT2_B64]
   | DCT8 \<Rightarrow> [None, Some fastInverseDCT8_B4, Some fastInverseDCT8_B8,
              Some fastInverseDCT8_B16, Some fastInverseDCT8_B32, None]
   | DST7 \<Rightarrow> [None, Some fastInverseDST7_B4, Some fastInverseDST7_B8,
              Some fastInverseDST7_B16, Some fastInverseDST7_B32, None])"

definition call_fwdTx :: "TransType \<Rightarrow> int \<Rightarrow> int list \<Rightarrow> int list \<Rightarrow> int \<Rightarrow> nat \<Rightarrow> nat \<Rightarrow> nat \<Rightarrow> int list option" where
  "call_fwdTx t i src dst shift line skip skip2 =
    (if 0 \<le> i \<and> i < 6 then map_option (\<lambda>f. f src dst (nat shift) line skip skip2) (m_fwdTx t ! nat i) else None)"

definition call_invTx ::
  "TransType \<Rightarrow> int \<Rightarrow> int list \<Rightarrow> int list \<Rightarrow> int \<Rightarrow> nat \<Rightarrow> nat \<Rightarrow> nat \<Rightarrow> int \<Rightarrow> int \<Rightarrow> int list option" where
  "call_invTx t i src dst shift line skip skip2 lo hi =
    (if 0 \<le> i \<and> i < 6 then map_option (\<lambda>f. f src dst (nat shift) line skip skip2 lo hi) (m_invTx t ! nat i) else None)"

section \<open>The transform types of a block\<close>

text \<open>What the routines read of the transform unit, its coding unit and the sequence parameter set.\<close>

record TuInfo =
  tu_width :: nat
  tu_height :: nat
  tu_compID :: nat
  tu_mtsIdx :: int
  cu_isIntra :: bool
  cu_isInter :: bool
  cu_lfnstIdx :: nat
  cu_mipFlag :: bool
  cu_isp :: bool
  cu_sbtInfo :: nat

record SpsInfo =
  sps_MtsEnabled :: bool
  sps_ExplicitMtsIntra :: bool
  sps_ExplicitMtsInter :: bool
  sps_ImplicitMtsIntra :: bool
  sps_UseLFNST :: bool
  sps_maxLog2TrDynamicRange :: nat
  sps_bitDepth :: nat

definition MTS_DCT2_DCT2 :: int where "MTS_DCT2_DCT2 = 0"
definition MTS_SKIP :: int where "MTS_SKIP = 1"
definition MTS_DST7_DST7 :: int where "MTS_DST7_DST7 = 2"

definition SBT_VER_HALF :: nat where "SBT_VER_HALF = 1"
definition SBT_VER_QUAD :: nat where "SBT_VER_QUAD = 3"
definition SBT_POS0 :: nat where "SBT_POS0 = 0"
definition MTS_INTER_MAX_CU_SIZE :: nat where "MTS_INTER_MAX_CU_SIZE = 32"
definition MAX_NONZERO_TU_SIZE :: nat where "MAX_NONZERO_TU_SIZE = 32"

definition getSbtIdx :: "TuInfo \<Rightarrow> nat" where "getSbtIdx tu = cu_sbtInfo tu mod 16"
definition getSbtPos :: "TuInfo \<Rightarrow> nat" where "getSbtPos tu = cu_sbtInfo tu div 16 mod 4"

text \<open>\<open>getTrTypes\<close>, giving the horizontal and the vertical type.  The \<open>assert\<close>s of the sub-block transform
  branch are compiled out; they are hypotheses of the theorems.\<close>

definition getTrTypes :: "SpsInfo \<Rightarrow> TuInfo \<Rightarrow> TransType \<times> TransType" where
  "getTrTypes sps tu =
    (let isLuma = (tu_compID tu = 0);
         isExplicitMTS = (if cu_isIntra tu then sps_ExplicitMtsIntra sps
                          else sps_ExplicitMtsInter sps \<and> cu_isInter tu) \<and> isLuma;
         isImplicitMTS = cu_isIntra tu \<and> sps_ImplicitMtsIntra sps \<and> isLuma \<and> cu_lfnstIdx tu = 0 \<and> \<not> cu_mipFlag tu;
         isISP = cu_isIntra tu \<and> cu_isp tu \<and> isLuma;
         isSBT = cu_isInter tu \<and> cu_sbtInfo tu \<noteq> 0 \<and> isLuma
     in if isISP \<and> cu_lfnstIdx tu \<noteq> 0 then (DCT2, DCT2)
        else if \<not> sps_MtsEnabled sps then (DCT2, DCT2)
        else if isImplicitMTS \<or> isISP then
          (let width = tu_width tu; height = tu_height tu;
               widthDstOk = width \<ge> 4 \<and> width \<le> 16;
               heightDstOk = height \<ge> 4 \<and> height \<le> 16
           in (if widthDstOk then DST7 else DCT2, if heightDstOk then DST7 else DCT2))
        else if isSBT then
          (let sbtIdx = getSbtIdx tu; sbtPos = getSbtPos tu
           in if sbtIdx = SBT_VER_HALF \<or> sbtIdx = SBT_VER_QUAD then
                (if tu_height tu > MTS_INTER_MAX_CU_SIZE then (DCT2, DCT2)
                 else if sbtPos = SBT_POS0 then (DCT8, DST7) else (DST7, DST7))
              else
                (if tu_width tu > MTS_INTER_MAX_CU_SIZE then (DCT2, DCT2)
                 else if sbtPos = SBT_POS0 then (DST7, DCT8) else (DST7, DST7)))
        else if isExplicitMTS then
          (if tu_mtsIdx tu > MTS_SKIP then
             (let d = nat (tu_mtsIdx tu - MTS_DST7_DST7); indHor = d mod 2; indVer = d div 2
              in (if indHor \<noteq> 0 then DCT8 else DST7, if indVer \<noteq> 0 then DCT8 else DST7))
           else (DCT2, DCT2))
        else (DCT2, DCT2))"

text \<open>The columns and rows left out of the transform: the high frequencies of large blocks, and
  everything outside the region of the secondary transform.\<close>

definition skipSizes :: "SpsInfo \<Rightarrow> TuInfo \<Rightarrow> TransType \<Rightarrow> TransType \<Rightarrow> nat \<times> nat" where
  "skipSizes sps tu trTypeHor trTypeVer =
    (let width = tu_width tu; height = tu_height tu;
         skipWidth = (if trTypeHor \<noteq> DCT2 \<and> width = 32 then 16 else width - MAX_NONZERO_TU_SIZE);
         skipHeight = (if trTypeVer \<noteq> DCT2 \<and> height = 32 then 16 else height - MAX_NONZERO_TU_SIZE)
     in if sps_UseLFNST sps \<and> cu_lfnstIdx tu \<noteq> 0 then
          (if width = 4 \<and> height > 4 \<or> width > 4 \<and> height = 4 then (width - 4, height - 4)
           else if width \<ge> 8 \<and> height \<ge> 8 then (width - 8, height - 8)
           else (skipWidth, skipHeight))
        else (skipWidth, skipHeight))"

section \<open>The sparsity counters\<close>

record Counters =
  blocks :: "64 word"
  totalColumns :: "64 word"
  zeroColumns :: "64 word"
  activeColumns :: "64 word"
  baselineReads :: "64 word"
  cdsatmReads :: "64 word"
  baselineCycles :: "64 word"
  cdsatmCycles :: "64 word"

definition counters_init :: Counters where
  "counters_init = \<lparr>blocks = 0, totalColumns = 0, zeroColumns = 0, activeColumns = 0,
     baselineReads = 0, cdsatmReads = 0, baselineCycles = 0, cdsatmCycles = 0\<rparr>"

type_synonym sparsity_key = "int \<times> int \<times> int \<times> int \<times> int"

record Tracker =
  m_outputPath :: string
  m_counters :: "sparsity_key \<Rightarrow> Counters option"

definition tracker_new :: "string option \<Rightarrow> Tracker" where
  "tracker_new configuredPath =
    \<lparr>m_outputPath = (case configuredPath of None \<Rightarrow> [] | Some p \<Rightarrow> p), m_counters = Map.empty\<rparr>"

definition tracker_enabled :: "Tracker \<Rightarrow> bool" where
  "tracker_enabled t \<longleftrightarrow> m_outputPath t \<noteq> []"

definition tracker_record :: "int \<Rightarrow> int \<Rightarrow> int \<Rightarrow> int \<Rightarrow> int \<Rightarrow> int \<Rightarrow> Tracker \<Rightarrow> Tracker" where
  "tracker_record width height component horizontalType verticalType active t =
    (if \<not> tracker_enabled t then t
     else
       let zero = width - active;
           samples = word_of_int width * word_of_int height;
           activeSamples = word_of_int active * word_of_int height;
           key = (width, height, component, horizontalType, verticalType);
           c = (case m_counters t key of None \<Rightarrow> counters_init | Some c \<Rightarrow> c);
           c = c\<lparr>blocks := blocks c + 1,
                 totalColumns := totalColumns c + word_of_int width,
                 zeroColumns := zeroColumns c + word_of_int zero,
                 activeColumns := activeColumns c + word_of_int active,
                 baselineReads := baselineReads c + samples,
                 cdsatmReads := cdsatmReads c + activeSamples,
                 baselineCycles := baselineCycles c + 2 * samples,
                 cdsatmCycles := cdsatmCycles c + (samples + activeSamples)\<rparr>
       in t\<lparr>m_counters := (m_counters t)(key \<mapsto> c)\<rparr>)"

section \<open>Forward and inverse transform\<close>

definition TRANSFORM_MATRIX_SHIFT :: int where "TRANSFORM_MATRIX_SHIFT = 6"

definition transTypeIdx :: "TransType \<Rightarrow> int" where
  "transTypeIdx t = (case t of DCT2 \<Rightarrow> 0 | DCT8 \<Rightarrow> 1 | DST7 \<Rightarrow> 2)"

definition countActiveColumns :: "nat \<Rightarrow> nat \<Rightarrow> int list \<Rightarrow> nat" where
  "countActiveColumns width height tmp =
    length (filter (\<lambda>column. list_ex (\<lambda>row. tmp ! (column * height + row) \<noteq> 0) [0..<height]) [0..<width])"

definition xT :: "SpsInfo \<Rightarrow> TuInfo \<Rightarrow> int list \<Rightarrow> nat \<Rightarrow> int list \<Rightarrow> int list \<Rightarrow> Tracker \<Rightarrow> (int list \<times> Tracker) option" where
  "xT sps tu resiBuf resiStride dstCoeff tmp tracker =
    (let width = tu_width tu; height = tu_height tu;
         maxLog2TrDynamicRange = int (sps_maxLog2TrDynamicRange sps);
         bitDepth = int (sps_bitDepth sps);
         transformWidthIndex = floorLog2 width - 1;
         transformHeightIndex = floorLog2 height - 1;
         (trTypeHor, trTypeVer) = getTrTypes sps tu;
         (skipWidth, skipHeight) = skipSizes sps tu trTypeHor trTypeVer;
         block = concat (map (\<lambda>y. map (\<lambda>x. resiBuf ! (y * resiStride + x)) [0..<width]) [0..<height])
     in if width > 1 \<and> height > 1 then
          do {
            let shift_1st = (floorLog2 width + bitDepth + TRANSFORM_MATRIX_SHIFT) - maxLog2TrDynamicRange;
            let shift_2nd = floorLog2 height + TRANSFORM_MATRIX_SHIFT;
            check (shift_1st < 0);
            check (shift_2nd < 0);
            tmp \<leftarrow> call_fwdTx trTypeHor transformWidthIndex block tmp shift_1st height 0 skipWidth;
            let tracker = (if tracker_enabled tracker
                           then tracker_record (int width) (int height) (int (tu_compID tu)) (transTypeIdx trTypeHor)
                                  (transTypeIdx trTypeVer) (int (countActiveColumns width height tmp)) tracker
                           else tracker);
            dst \<leftarrow> call_fwdTx trTypeVer transformHeightIndex tmp dstCoeff shift_2nd width skipWidth skipHeight;
            Some (dst, tracker)
          }
        else if height = 1 then
          do {
            let shift = (floorLog2 width + bitDepth + TRANSFORM_MATRIX_SHIFT) - maxLog2TrDynamicRange;
            check (shift < 0);
            dst \<leftarrow> call_fwdTx trTypeHor transformWidthIndex block dstCoeff shift 1 0 skipWidth;
            Some (dst, tracker)
          }
        else
          do {
            let shift = (floorLog2 height + bitDepth + TRANSFORM_MATRIX_SHIFT) - maxLog2TrDynamicRange;
            check (shift < 0);
            dst \<leftarrow> call_fwdTx trTypeVer transformHeightIndex block dstCoeff shift 1 0 skipHeight;
            Some (dst, tracker)
          })"

text \<open>\<open>Pel\<close> is a 16-bit integer; the clipping bounds of the last pass are its range, so the conversion on
  storing the residual changes nothing.\<close>

definition PEL_MIN :: int where "PEL_MIN = - 32768"
definition PEL_MAX :: int where "PEL_MAX = 32767"

definition Pel :: "int \<Rightarrow> int" where "Pel x = (x + 32768) mod 65536 - 32768"

definition storeResidual :: "nat \<Rightarrow> nat \<Rightarrow> nat \<Rightarrow> int list \<Rightarrow> int list \<Rightarrow> int list" where
  "storeResidual width height resiStride block resiBuf =
    fold (\<lambda>y r. fold (\<lambda>x r. r[y * resiStride + x := Pel (block ! (y * width + x))]) [0..<width] r) [0..<height] resiBuf"

definition xIT :: "SpsInfo \<Rightarrow> TuInfo \<Rightarrow> int list \<Rightarrow> int list \<Rightarrow> int list \<Rightarrow> int list \<Rightarrow> nat \<Rightarrow> int list option" where
  "xIT sps tu coeff tmp block resiBuf resiStride =
    (let width = tu_width tu; height = tu_height tu;
         maxLog2TrDynamicRange = int (sps_maxLog2TrDynamicRange sps);
         bitDepth = int (sps_bitDepth sps);
         clipMinimum = - (2 ^ sps_maxLog2TrDynamicRange sps);
         clipMaximum = 2 ^ sps_maxLog2TrDynamicRange sps - 1;
         transformWidthIndex = floorLog2 width - 1;
         transformHeightIndex = floorLog2 height - 1;
         (trTypeHor, trTypeVer) = getTrTypes sps tu;
         (skipWidth, skipHeight) = skipSizes sps tu trTypeHor trTypeVer;
         shift_2nd = (TRANSFORM_MATRIX_SHIFT + maxLog2TrDynamicRange - 1) - bitDepth
     in do {
          block \<leftarrow>
            (if width > 1 \<and> height > 1 then
               do {
                 let shift_1st = TRANSFORM_MATRIX_SHIFT + 1;
                 check (shift_1st < 0);
                 check (shift_2nd < 0);
                 tmp \<leftarrow> call_invTx trTypeVer transformHeightIndex coeff tmp shift_1st width skipWidth skipHeight
                         clipMinimum clipMaximum;
                 call_invTx trTypeHor transformWidthIndex tmp block shift_2nd height 0 skipWidth PEL_MIN PEL_MAX
               }
             else if width = 1 then
               do {
                 check (shift_2nd < 0);
                 check (transformHeightIndex < 0);
                 call_invTx trTypeVer transformHeightIndex coeff block (shift_2nd + 1) 1 0 skipHeight PEL_MIN PEL_MAX
               }
             else
               do {
                 check (shift_2nd < 0);
                 check (transformWidthIndex < 0);
                 call_invTx trTypeHor transformWidthIndex coeff block (shift_2nd + 1) 1 0 skipWidth PEL_MIN PEL_MAX
               });
          Some (storeResidual width height resiStride block resiBuf)
        })"

text \<open>Transform skip copies the block.\<close>

definition xTransformSkip :: "TuInfo \<Rightarrow> int list \<Rightarrow> nat \<Rightarrow> int list" where
  "xTransformSkip tu resiBuf resiStride =
    concat (map (\<lambda>y. map (\<lambda>x. resiBuf ! (y * resiStride + x)) [0..<tu_width tu]) [0..<tu_height tu])"

definition xITransformSkip :: "TuInfo \<Rightarrow> int list \<Rightarrow> int list \<Rightarrow> nat \<Rightarrow> int list" where
  "xITransformSkip tu coeff resiBuf resiStride =
    storeResidual (tu_width tu) (tu_height tu) resiStride coeff resiBuf"

section \<open>The interface of a one-dimensional routine\<close>

text \<open>
  What \<open>xT\<close> relies on: a forward routine of size \<open>n\<close> for the matrix \<open>m\<close> computes the rounded product and
  clears the rows \<open>eff skip2\<close> (some routines ignore the argument and clear none).  \<open>ok\<close> holds of the
  shifts and skips the routine supports.
\<close>

locale fwd_pass =
  fixes f :: "int list \<Rightarrow> int list \<Rightarrow> nat \<Rightarrow> nat \<Rightarrow> nat \<Rightarrow> nat \<Rightarrow> int list"
    and n :: nat and m :: "nat \<Rightarrow> int" and ok :: "nat \<Rightarrow> nat \<Rightarrow> bool" and eff :: "nat \<Rightarrow> nat"
  assumes eff_le: "eff skip2 \<le> skip2"
    and pass: "ok shift skip2 \<Longrightarrow> length dst = n * line \<Longrightarrow> skip \<le> line \<Longrightarrow> skip2 \<le> n \<Longrightarrow>
      f src dst shift line skip skip2 = fwd_product n src shift line skip (eff skip2) m"
begin

lemma pass_length:
  "ok shift skip2 \<Longrightarrow> length dst = n * line \<Longrightarrow> skip \<le> line \<Longrightarrow> skip2 \<le> n \<Longrightarrow>
    length (f src dst shift line skip skip2) = n * line"
  by (simp add: pass fwd_product_def)

lemma pass_coeff:
  assumes "ok shift skip2" "length dst = n * line" "skip \<le> line" "skip2 \<le> n" "k < n" "j < line"
  shows "f src dst shift line skip skip2 ! (k * line + j) =
    (if k < n - eff skip2 \<and> j < line - skip
     then (isum n (\<lambda>i. src ! (j * n + i) * m (k * n + i)) + rnd shift) div 2 ^ shift else 0)"
  using assms by (simp add: pass fwd_product_def)

text \<open>All rows before the skipped ones are computed.\<close>

lemma pass_kept:
  assumes "ok shift skip2" "length dst = n * line" "skip \<le> line" "skip2 \<le> n" "k < n - skip2" "j < line - skip"
  shows "f src dst shift line skip skip2 ! (k * line + j) =
    (isum n (\<lambda>i. src ! (j * n + i) * m (k * n + i)) + rnd shift) div 2 ^ shift"
  using assms eff_le [of skip2] by (simp add: pass_coeff)

end

locale inv_pass =
  fixes f :: "int list \<Rightarrow> int list \<Rightarrow> nat \<Rightarrow> nat \<Rightarrow> nat \<Rightarrow> nat \<Rightarrow> int \<Rightarrow> int \<Rightarrow> int list"
    and n :: nat and m :: "nat \<Rightarrow> int"
  assumes pass: "0 < shift \<Longrightarrow> length dst = n * line \<Longrightarrow> skip \<le> line \<Longrightarrow> skip2 \<le> n \<Longrightarrow>
    \<exists>e. e \<le> skip2 \<and> f src dst shift line skip skip2 lo hi = inv_product n src shift line skip e lo hi m"
begin

text \<open>If the coefficients in the skipped rows are zero, it does not matter which of them are summed.\<close>

lemma pass_sample:
  assumes "0 < shift" "length dst = n * line" "skip \<le> line" "skip2 \<le> n" "j < line - skip" "k < n"
    and zero: "\<And>r. n - skip2 \<le> r \<Longrightarrow> r < n \<Longrightarrow> src ! (r * line + j) = 0"
  shows "f src dst shift line skip skip2 lo hi ! (j * n + k) =
    Clip3 lo hi ((isum n (\<lambda>r. src ! (r * line + j) * m (r * n + k)) + rnd shift) div 2 ^ shift)"
proof -
  obtain e where e: "e \<le> skip2" "f src dst shift line skip skip2 lo hi = inv_product n src shift line skip e lo hi m"
    using pass [OF assms(1-4)] by blast
  have "isum n (\<lambda>r. src ! (r * line + j) * m (r * n + k)) = isum (n - e) (\<lambda>r. src ! (r * line + j) * m (r * n + k))"
    unfolding isum_eq_sum by (rule sum.mono_neutral_right) (use zero e in auto)
  then show ?thesis using assms e by (simp add: inv_product_def)
qed

lemma pass_length:
  "0 < shift \<Longrightarrow> length dst = n * line \<Longrightarrow> skip \<le> line \<Longrightarrow> skip2 \<le> n \<Longrightarrow>
    length (f src dst shift line skip skip2 lo hi) = n * line"
  using pass [of shift dst line skip skip2 src lo hi] by (auto simp: inv_product_def mult.commute)

lemma pass_skipped:
  "0 < shift \<Longrightarrow> length dst = n * line \<Longrightarrow> skip \<le> line \<Longrightarrow> skip2 \<le> n \<Longrightarrow> k < n \<Longrightarrow> j < line \<Longrightarrow> line - skip \<le> j \<Longrightarrow>
    f src dst shift line skip skip2 lo hi ! (j * n + k) = 0"
  using pass [of shift dst line skip skip2 src lo hi] by (auto simp: inv_product_def)

end

definition any_ok :: "nat \<Rightarrow> nat \<Rightarrow> bool" where "any_ok shift skip2 = True"
definition pos_ok :: "nat \<Rightarrow> nat \<Rightarrow> bool" where "pos_ok shift skip2 = (0 < shift)"
definition ok64 :: "nat \<Rightarrow> nat \<Rightarrow> bool" where "ok64 shift skip2 = (0 < shift \<and> (skip2 = 0 \<or> 32 \<le> skip2))"

interpretation fDCT2_2: fwd_pass fastForwardDCT2_B2 2 "core g_trCoreDCT2P2 0" any_ok "\<lambda>_. 0"
  by unfold_locales (auto simp: fastForwardDCT2_B2_product any_ok_def)

interpretation iDCT2_2: inv_pass fastInverseDCT2_B2 2 "core g_trCoreDCT2P2 1"
  by unfold_locales (auto simp: fastInverseDCT2_B2_product)

interpretation fDCT2_4: fwd_pass fastForwardDCT2_B4 4 "core g_trCoreDCT2P4 0" any_ok "\<lambda>_. 0"
  by unfold_locales (auto simp: fastForwardDCT2_B4_product any_ok_def)

interpretation iDCT2_4: inv_pass fastInverseDCT2_B4 4 "core g_trCoreDCT2P4 1"
  by unfold_locales (auto simp: fastInverseDCT2_B4_product)

interpretation fDCT2_8: fwd_pass fastForwardDCT2_B8 8 "core g_trCoreDCT2P8 0" any_ok "\<lambda>_. 0"
  by unfold_locales (auto simp: fastForwardDCT2_B8_product any_ok_def)

interpretation iDCT2_8: inv_pass fastInverseDCT2_B8 8 "core g_trCoreDCT2P8 1"
  by unfold_locales (auto simp: fastInverseDCT2_B8_product)

interpretation fDCT2_16: fwd_pass fastForwardDCT2_B16 16 "core g_trCoreDCT2P16 0" any_ok "\<lambda>_. 0"
  by unfold_locales (auto simp: fastForwardDCT2_B16_product any_ok_def)

interpretation iDCT2_16: inv_pass fastInverseDCT2_B16 16 "core g_trCoreDCT2P16 1"
  by unfold_locales (auto simp: fastInverseDCT2_B16_product)

interpretation fDCT2_32: fwd_pass fastForwardDCT2_B32 32 "core g_trCoreDCT2P32 0" any_ok "\<lambda>_. 0"
  by unfold_locales (auto simp: fastForwardDCT2_B32_product any_ok_def)

interpretation iDCT2_32: inv_pass fastInverseDCT2_B32 32 "core g_trCoreDCT2P32 1"
  by unfold_locales (auto simp: fastInverseDCT2_B32_product)

interpretation fDCT2_64: fwd_pass fastForwardDCT2_B64 64 "core g_trCoreDCT2P64 0" ok64 "\<lambda>s. s"
  by unfold_locales (auto simp: fastForwardDCT2_B64_product ok64_def)

interpretation iDCT2_64: inv_pass fastInverseDCT2_B64 64 "core g_trCoreDCT2P64 1"
  by unfold_locales (auto simp: fastInverseDCT2_B64_product)

interpretation fDCT8_4: fwd_pass fastForwardDCT8_B4 4 "core g_trCoreDCT8P4 0" pos_ok "\<lambda>_. 0"
  by unfold_locales (auto simp: fastForwardDCT8_B4_product pos_ok_def)

interpretation iDCT8_4: inv_pass fastInverseDCT8_B4 4 "core g_trCoreDCT8P4 1"
  by unfold_locales (auto simp: fastInverseDCT8_B4_product)

interpretation fDCT8_8: fwd_pass fastForwardDCT8_B8 8 "core g_trCoreDCT8P8 0" pos_ok "\<lambda>s. s"
  by unfold_locales (auto simp: fastForwardDCT8_B8_product pos_ok_def)

interpretation iDCT8_8: inv_pass fastInverseDCT8_B8 8 "core g_trCoreDCT8P8 1"
  by unfold_locales (auto simp: fastInverseDCT8_B8_product)

interpretation fDCT8_16: fwd_pass fastForwardDCT8_B16 16 "core g_trCoreDCT8P16 0" any_ok "\<lambda>s. s"
  by unfold_locales (auto simp: fastForwardDCT8_B16_product any_ok_def)

interpretation iDCT8_16: inv_pass fastInverseDCT8_B16 16 "core g_trCoreDCT8P16 1"
  by unfold_locales (auto simp: fastInverseDCT8_B16_product)

interpretation fDCT8_32: fwd_pass fastForwardDCT8_B32 32 "core g_trCoreDCT8P32 0" any_ok "\<lambda>s. s"
  by unfold_locales (auto simp: fastForwardDCT8_B32_product any_ok_def)

interpretation iDCT8_32: inv_pass fastInverseDCT8_B32 32 "core g_trCoreDCT8P32 1"
  by unfold_locales (auto simp: fastInverseDCT8_B32_product)

interpretation fDST7_4: fwd_pass fastForwardDST7_B4 4 "core g_trCoreDST7P4 0" any_ok "\<lambda>_. 0"
  by unfold_locales (auto simp: fastForwardDST7_B4_product any_ok_def)

interpretation iDST7_4: inv_pass fastInverseDST7_B4 4 "core g_trCoreDST7P4 1"
  by unfold_locales (auto simp: fastInverseDST7_B4_product)

interpretation fDST7_8: fwd_pass fastForwardDST7_B8 8 "core g_trCoreDST7P8 0" pos_ok "\<lambda>s. s"
  by unfold_locales (auto simp: fastForwardDST7_B8_product pos_ok_def)

interpretation iDST7_8: inv_pass fastInverseDST7_B8 8 "core g_trCoreDST7P8 1"
  by unfold_locales (auto simp: fastInverseDST7_B8_product)

interpretation fDST7_16: fwd_pass fastForwardDST7_B16 16 "core g_trCoreDST7P16 0" any_ok "\<lambda>s. s"
  by unfold_locales (auto simp: fastForwardDST7_B16_product any_ok_def)

interpretation iDST7_16: inv_pass fastInverseDST7_B16 16 "core g_trCoreDST7P16 1"
  by unfold_locales (auto simp: fastInverseDST7_B16_product)

interpretation fDST7_32: fwd_pass fastForwardDST7_B32 32 "core g_trCoreDST7P32 0" any_ok "\<lambda>s. s"
  by unfold_locales (auto simp: fastForwardDST7_B32_product any_ok_def)

interpretation iDST7_32: inv_pass fastInverseDST7_B32 32 "core g_trCoreDST7P32 1"
  by unfold_locales (auto simp: fastInverseDST7_B32_product)

text \<open>The routine a table yields, its matrix and the shifts it supports.\<close>

definition coreTable :: "TransType \<Rightarrow> nat \<Rightarrow> int list list list" where
  "coreTable t n = (case t of
     DCT2 \<Rightarrow> (if n = 2 then g_trCoreDCT2P2 else if n = 4 then g_trCoreDCT2P4 else if n = 8 then g_trCoreDCT2P8
              else if n = 16 then g_trCoreDCT2P16 else if n = 32 then g_trCoreDCT2P32 else g_trCoreDCT2P64)
   | DCT8 \<Rightarrow> (if n = 4 then g_trCoreDCT8P4 else if n = 8 then g_trCoreDCT8P8
              else if n = 16 then g_trCoreDCT8P16 else g_trCoreDCT8P32)
   | DST7 \<Rightarrow> (if n = 4 then g_trCoreDST7P4 else if n = 8 then g_trCoreDST7P8
              else if n = 16 then g_trCoreDST7P16 else g_trCoreDST7P32))"

definition tr_sizes :: "TransType \<Rightarrow> nat list" where
  "tr_sizes t = (if t = DCT2 then [2, 4, 8, 16, 32, 64] else [4, 8, 16, 32])"

definition shift_ok :: "TransType \<Rightarrow> nat \<Rightarrow> nat \<Rightarrow> nat \<Rightarrow> bool" where
  "shift_ok t n = (if t = DCT2 \<and> n = 64 then ok64
     else if (t = DCT8 \<and> n = 4) \<or> (t \<noteq> DCT2 \<and> n = 8) then pos_ok else any_ok)"

definition eff_skip :: "TransType \<Rightarrow> nat \<Rightarrow> nat \<Rightarrow> nat" where
  "eff_skip t n = (if t = DCT2 \<and> n \<noteq> 64 \<or> n = 4 then (\<lambda>_. 0) else (\<lambda>s. s))"

lemma floorLog2_sizes: "floorLog2 2 = 1" "floorLog2 4 = 2" "floorLog2 8 = 3" "floorLog2 16 = 4" "floorLog2 32 = 5" "floorLog2 64 = 6"
  by (simp_all add: floorLog2.simps)

lemmas fwd_passes =
  fDCT2_2.fwd_pass_axioms fDCT2_4.fwd_pass_axioms fDCT2_8.fwd_pass_axioms fDCT2_16.fwd_pass_axioms
  fDCT2_32.fwd_pass_axioms fDCT2_64.fwd_pass_axioms fDCT8_4.fwd_pass_axioms fDCT8_8.fwd_pass_axioms
  fDCT8_16.fwd_pass_axioms fDCT8_32.fwd_pass_axioms fDST7_4.fwd_pass_axioms fDST7_8.fwd_pass_axioms
  fDST7_16.fwd_pass_axioms fDST7_32.fwd_pass_axioms

lemmas inv_passes =
  iDCT2_2.inv_pass_axioms iDCT2_4.inv_pass_axioms iDCT2_8.inv_pass_axioms iDCT2_16.inv_pass_axioms
  iDCT2_32.inv_pass_axioms iDCT2_64.inv_pass_axioms iDCT8_4.inv_pass_axioms iDCT8_8.inv_pass_axioms
  iDCT8_16.inv_pass_axioms iDCT8_32.inv_pass_axioms iDST7_4.inv_pass_axioms iDST7_8.inv_pass_axioms
  iDST7_16.inv_pass_axioms iDST7_32.inv_pass_axioms

lemma m_fwdTx_pass:
  "n \<in> set (tr_sizes t) \<Longrightarrow>
    \<exists>f. m_fwdTx t ! nat (floorLog2 n - 1) = Some f \<and> fwd_pass f n (core (coreTable t n) 0) (shift_ok t n) (eff_skip t n)"
  by (cases t) (auto simp: tr_sizes_def m_fwdTx_def floorLog2_sizes coreTable_def shift_ok_def eff_skip_def fwd_passes)

lemma m_invTx_pass:
  "n \<in> set (tr_sizes t) \<Longrightarrow>
    \<exists>f. m_invTx t ! nat (floorLog2 n - 1) = Some f \<and> inv_pass f n (core (coreTable t n) 1)"
  by (cases t) (auto simp: tr_sizes_def m_invTx_def floorLog2_sizes coreTable_def inv_passes [unfolded One_nat_def])

lemma floorLog2_tr_sizes: "n \<in> set (tr_sizes t) \<Longrightarrow> 0 \<le> floorLog2 n - 1 \<and> floorLog2 n - 1 < 6"
  by (cases t) (auto simp: tr_sizes_def floorLog2_sizes)

lemma call_fwdTx_pass:
  assumes "n \<in> set (tr_sizes t)"
  obtains f where "fwd_pass f n (core (coreTable t n) 0) (shift_ok t n) (eff_skip t n)"
    and "\<And>src dst shift line skip skip2.
      call_fwdTx t (floorLog2 n - 1) src dst shift line skip skip2 = Some (f src dst (nat shift) line skip skip2)"
  using m_fwdTx_pass [OF assms] floorLog2_tr_sizes [OF assms] by (auto simp: call_fwdTx_def)

lemma call_invTx_pass:
  assumes "n \<in> set (tr_sizes t)"
  obtains f where "inv_pass f n (core (coreTable t n) 1)"
    and "\<And>src dst shift line skip skip2 lo hi.
      call_invTx t (floorLog2 n - 1) src dst shift line skip skip2 lo hi = Some (f src dst (nat shift) line skip skip2 lo hi)"
  using m_invTx_pass [OF assms] floorLog2_tr_sizes [OF assms] by (auto simp: call_invTx_def)

section \<open>The two-dimensional forward transform\<close>

text \<open>The transform coefficient of vertical frequency \<open>v\<close> and horizontal frequency \<open>u\<close>: rows first, then
  columns, each product rounded.\<close>

definition coeff2d :: "nat \<Rightarrow> nat \<Rightarrow> (nat \<Rightarrow> nat \<Rightarrow> int) \<Rightarrow> (nat \<Rightarrow> int) \<Rightarrow> (nat \<Rightarrow> int) \<Rightarrow> nat \<Rightarrow> nat \<Rightarrow> nat \<Rightarrow> nat \<Rightarrow> int" where
  "coeff2d width height resi mh mv s1 s2 v u =
    (isum height (\<lambda>y. ((isum width (\<lambda>x. resi y x * mh (u * width + x)) + rnd s1) div 2 ^ s1) * mv (v * height + y))
      + rnd s2) div 2 ^ s2"

lemma two_pass:
  assumes f1: "fwd_pass f1 W m1 ok1 e1" and f2: "fwd_pass f2 H m2 ok2 e2"
    and ok: "ok1 s1 sw" "ok2 s2 sh" and len: "length tmp = W * H" "length dst = H * W"
    and sk: "sw \<le> W" "sh \<le> H"
  shows "f2 (f1 block tmp s1 H 0 sw) dst s2 W sw sh =
    grid H W (\<lambda>v u. if v < H - e2 sh \<and> u < W - sw
      then coeff2d W H (\<lambda>y x. block ! (y * W + x)) m1 m2 s1 s2 v u else 0)"
proof (rule grid_eqI [where h = H and w = W])
  let ?t = "f1 block tmp s1 H 0 sw"
  show "length (f2 ?t dst s2 W sw sh) = H * W"
    by (rule fwd_pass.pass_length [OF f2 ok(2) len(2) sk])
  fix v u assume v: "v < H" and u: "u < W"
  have "isum H (\<lambda>y. ?t ! (u * H + y) * m2 (v * H + y)) =
      isum H (\<lambda>y. ((isum W (\<lambda>x. block ! (y * W + x) * m1 (u * W + x)) + rnd s1) div 2 ^ s1) * m2 (v * H + y))"
    if "u < W - sw"
    using that fwd_pass.pass_kept [OF f1 ok(1) len(1) _ sk(1)] by simp
  then show "f2 ?t dst s2 W sw sh ! (v * W + u) = grid H W (\<lambda>v u. if v < H - e2 sh \<and> u < W - sw
      then coeff2d W H (\<lambda>y x. block ! (y * W + x)) m1 m2 s1 s2 v u else 0) ! (v * W + u)"
    using fwd_pass.pass_coeff [OF f2 ok(2) len(2) sk v u] v u by (simp add: coeff2d_def)
qed simp

text \<open>Blocks as the partitioning produces them: both sides a power of two between 2 and 64; sub-block
  transforms and explicit transform selection only where the syntax allows them.\<close>

definition tu_ok :: "TuInfo \<Rightarrow> bool" where
  "tu_ok tu \<longleftrightarrow> tu_width tu \<in> {2, 4, 8, 16, 32, 64} \<and> tu_height tu \<in> {2, 4, 8, 16, 32, 64} \<and>
    (cu_isInter tu \<and> cu_sbtInfo tu \<noteq> 0 \<longrightarrow> 4 \<le> tu_width tu \<and> 4 \<le> tu_height tu \<and>
      (if getSbtIdx tu = SBT_VER_HALF \<or> getSbtIdx tu = SBT_VER_QUAD then tu_width tu \<le> 32 else tu_height tu \<le> 32)) \<and>
    (tu_mtsIdx tu > MTS_SKIP \<longrightarrow> 4 \<le> tu_width tu \<and> tu_width tu \<le> 32 \<and> 4 \<le> tu_height tu \<and> tu_height tu \<le> 32)"

definition sps_ok :: "SpsInfo \<Rightarrow> bool" where
  "sps_ok sps \<longleftrightarrow> 8 \<le> sps_bitDepth sps \<and> sps_bitDepth sps \<le> 16 \<and>
    15 \<le> sps_maxLog2TrDynamicRange sps \<and> sps_maxLog2TrDynamicRange sps \<le> max 15 (min 20 (sps_bitDepth sps + 6))"

lemma getTrTypes_non_dct2:
  assumes sbt: "cu_isInter tu \<and> cu_sbtInfo tu \<noteq> 0 \<longrightarrow> 4 \<le> tu_width tu \<and> 4 \<le> tu_height tu \<and>
      (if getSbtIdx tu = SBT_VER_HALF \<or> getSbtIdx tu = SBT_VER_QUAD then tu_width tu \<le> 32 else tu_height tu \<le> 32)"
    and mts: "tu_mtsIdx tu > MTS_SKIP \<longrightarrow> 4 \<le> tu_width tu \<and> tu_width tu \<le> 32 \<and> 4 \<le> tu_height tu \<and> tu_height tu \<le> 32"
  shows "fst (getTrTypes sps tu) = DCT2 \<or> 4 \<le> tu_width tu \<and> tu_width tu \<le> 32"
    and "snd (getTrTypes sps tu) = DCT2 \<or> 4 \<le> tu_height tu \<and> tu_height tu \<le> 32"
  using assms unfolding getTrTypes_def MTS_INTER_MAX_CU_SIZE_def Let_def
  by (simp_all split: if_split)

lemma tr_types_sizes:
  assumes "tu_ok tu"
  shows "tu_width tu \<in> set (tr_sizes (fst (getTrTypes sps tu)))"
    and "tu_height tu \<in> set (tr_sizes (snd (getTrTypes sps tu)))"
proof -
  have sz: "n \<in> set (tr_sizes t)" if "n \<in> {2, 4, 8, 16, 32, 64}" "t = DCT2 \<or> 4 \<le> n \<and> n \<le> 32" for n t
    using that by (auto simp: tr_sizes_def)
  note n = getTrTypes_non_dct2 [of tu sps, OF assms [unfolded tu_ok_def, THEN conjunct2, THEN conjunct2, THEN conjunct1]
      assms [unfolded tu_ok_def, THEN conjunct2, THEN conjunct2, THEN conjunct2]]
  show "tu_width tu \<in> set (tr_sizes (fst (getTrTypes sps tu)))"
    by (rule sz [OF _ n(1)]) (use assms in \<open>simp only: tu_ok_def\<close>)
  show "tu_height tu \<in> set (tr_sizes (snd (getTrTypes sps tu)))"
    by (rule sz [OF _ n(2)]) (use assms in \<open>simp only: tu_ok_def\<close>)
qed

lemma tu_ok_bounds:
  assumes "tu_ok tu"
  shows "2 \<le> tu_width tu" "tu_width tu \<le> 64" "2 \<le> tu_height tu" "tu_height tu \<le> 64"
proof -
  have b: "2 \<le> n \<and> n \<le> 64" if "n \<in> {2, 4, 8, 16, 32, 64 :: nat}" for n using that by auto
  have "tu_width tu \<in> {2, 4, 8, 16, 32, 64}" "tu_height tu \<in> {2, 4, 8, 16, 32, 64}"
    using assms by (simp_all only: tu_ok_def)
  then show "2 \<le> tu_width tu" "tu_width tu \<le> 64" "2 \<le> tu_height tu" "tu_height tu \<le> 64"
    using b by blast+
qed

lemma skipSizes_le:
  assumes "tu_ok tu" "skipSizes sps tu th tv = (sw, sh)"
  shows "sw \<le> tu_width tu" "sh \<le> tu_height tu"
  using assms(2) by (auto simp: skipSizes_def Let_def split: if_splits)

text \<open>What the skips can be, so that every routine supports them.\<close>

lemma skipSizes_64:
  assumes "skipSizes sps tu th tv = (sw, sh)"
  shows "tu_width tu = 64 \<Longrightarrow> 32 \<le> sw" "tu_height tu = 64 \<Longrightarrow> 32 \<le> sh"
  using assms by (auto simp: skipSizes_def Let_def MAX_NONZERO_TU_SIZE_def split: if_splits)

lemma shift_ok_pass:
  assumes "n = 64 \<longrightarrow> 32 \<le> skip" "n \<in> set (tr_sizes t)" "2 < n \<longrightarrow> 0 < shift"
  shows "shift_ok t n shift skip"
  using assms by (auto simp: shift_ok_def ok64_def pos_ok_def any_ok_def tr_sizes_def)

lemma floorLog2_tr_sizes_ge:
  "n \<in> set (tr_sizes t) \<Longrightarrow> 1 \<le> floorLog2 n" "n \<in> set (tr_sizes t) \<Longrightarrow> 2 < n \<Longrightarrow> 2 \<le> floorLog2 n"
  by (cases t; auto simp: tr_sizes_def floorLog2_sizes)+

lemma nth_block:
  "y < H \<Longrightarrow> x < W \<Longrightarrow>
    concat (map (\<lambda>y. map (\<lambda>x. r ! (y * stride + x)) [0..<W]) [0..<H]) ! (y * W + x) = (r ! (y * stride + x) :: int)"
  by (subst nth_concat_square) (auto simp: list_all_iff)

definition fwd_shift :: "SpsInfo \<Rightarrow> nat \<Rightarrow> int" where
  "fwd_shift sps n = (floorLog2 n + int (sps_bitDepth sps) + 6) - int (sps_maxLog2TrDynamicRange sps)"

lemma fwd_shift_pos:
  assumes "sps_ok sps" "n \<in> set (tr_sizes t)"
  shows "0 \<le> fwd_shift sps n" "2 < n \<Longrightarrow> 0 < fwd_shift sps n"
  using assms floorLog2_tr_sizes_ge [of n t] by (auto simp: sps_ok_def fwd_shift_def max_def min_def split: if_splits)


definition demo_sps :: SpsInfo where
  "demo_sps = \<lparr>sps_MtsEnabled = True, sps_ExplicitMtsIntra = True, sps_ExplicitMtsInter = False,
     sps_ImplicitMtsIntra = False, sps_UseLFNST = False, sps_maxLog2TrDynamicRange = 15, sps_bitDepth = 8\<rparr>"

definition demo_tu :: "nat \<Rightarrow> nat \<Rightarrow> int \<Rightarrow> TuInfo" where
  "demo_tu w h mts = \<lparr>tu_width = w, tu_height = h, tu_compID = 0, tu_mtsIdx = mts, cu_isIntra = True,
     cu_isInter = False, cu_lfnstIdx = 0, cu_mipFlag = False, cu_isp = False, cu_sbtInfo = 0\<rparr>"

lemma demo_ok:
  "sps_ok demo_sps" "w \<in> {4, 8, 16, 32} \<Longrightarrow> h \<in> {4, 8, 16, 32} \<Longrightarrow> tu_ok (demo_tu w h mts)"
  by (auto simp: sps_ok_def demo_sps_def tu_ok_def demo_tu_def)


section \<open>The two-dimensional inverse transform\<close>

text \<open>The residual sample in row \<open>y\<close> and column \<open>x\<close>: columns first, clipped to the dynamic range of the
  coefficients, then rows, clipped to the range of a sample.\<close>

definition sample2d ::
  "nat \<Rightarrow> nat \<Rightarrow> (nat \<Rightarrow> nat \<Rightarrow> int) \<Rightarrow> (nat \<Rightarrow> int) \<Rightarrow> (nat \<Rightarrow> int) \<Rightarrow> nat \<Rightarrow> nat \<Rightarrow> int \<Rightarrow> int \<Rightarrow> nat \<Rightarrow> nat \<Rightarrow> int" where
  "sample2d width height coeff mh mv s1 s2 lo hi y x =
    Clip3 PEL_MIN PEL_MAX
      ((isum width (\<lambda>u. Clip3 lo hi ((isum height (\<lambda>v. coeff v u * mv (v * height + y)) + rnd s1) div 2 ^ s1)
          * mh (u * width + x)) + rnd s2) div 2 ^ s2)"

lemma two_pass_inv:
  assumes f: "inv_pass f H m1" and g: "inv_pass g W m2" and pos: "0 < s1" "0 < s2"
    and len: "length tmp = W * H" "length dst = H * W" and sk: "sw \<le> W" "sh \<le> H" and lo: "lo \<le> 0" "0 \<le> hi"
    and zero: "\<And>v u. v < H \<Longrightarrow> u < W \<Longrightarrow> H - sh \<le> v \<or> W - sw \<le> u \<Longrightarrow> coeff ! (v * W + u) = 0"
    and y: "y < H" and x: "x < W"
  shows "g (f coeff tmp s1 W sw sh lo hi) dst s2 H 0 sw PEL_MIN PEL_MAX ! (y * W + x) =
    sample2d W H (\<lambda>v u. coeff ! (v * W + u)) m2 m1 s1 s2 lo hi y x"
proof -
  let ?t = "f coeff tmp s1 W sw sh lo hi"
  have t: "?t ! (u * H + k) = Clip3 lo hi ((isum H (\<lambda>v. coeff ! (v * W + u) * m1 (v * H + k)) + rnd s1) div 2 ^ s1)"
    if u: "u < W" and k: "k < H" for u k
  proof (cases "u < W - sw")
    case True
    then show ?thesis by (intro inv_pass.pass_sample [OF f pos(1) _ sk]) (use len zero u k in auto)
  next
    case False
    have "isum H (\<lambda>v. coeff ! (v * W + u) * m1 (v * H + k)) = 0" using zero False u by (simp add: isum_eq_sum)
    moreover have "rnd s1 div 2 ^ s1 = 0"
      using pos by (simp add: rnd_def zdiv_eq_0_iff power_strict_increasing)
    ultimately show ?thesis
      using inv_pass.pass_skipped [OF f pos(1) _ sk k u] False len lo by (simp add: Clip3_def mult.commute)
  qed
  have z: "?t ! (r * H + y) = 0" if "W - sw \<le> r" "r < W" for r
    using inv_pass.pass_skipped [OF f pos(1) _ sk y that(2,1)] len by (simp add: mult.commute)
  have "g ?t dst s2 H 0 sw PEL_MIN PEL_MAX ! (y * W + x) =
      Clip3 PEL_MIN PEL_MAX ((isum W (\<lambda>r. ?t ! (r * H + y) * m2 (r * W + x)) + rnd s2) div 2 ^ s2)"
    by (rule inv_pass.pass_sample [OF g pos(2)]) (use len sk x y z in \<open>auto simp: mult.commute\<close>)
  then show ?thesis using y by (simp add: sample2d_def t)
qed

lemma Clip3_range: "lo \<le> hi \<Longrightarrow> lo \<le> Clip3 lo hi a" "lo \<le> hi \<Longrightarrow> Clip3 lo hi a \<le> hi"
  by (auto simp: Clip3_def)

lemma Pel_id: "PEL_MIN \<le> a \<Longrightarrow> a \<le> PEL_MAX \<Longrightarrow> Pel a = a"
  by (simp add: Pel_def PEL_MIN_def PEL_MAX_def)

lemma length_storeResidual [simp]: "length (storeResidual W H stride b r) = length r"
  by (simp add: storeResidual_def length_fold_update)

lemma nth_row_store:
  "a + W \<le> length r \<Longrightarrow> fold (\<lambda>x r. r[a + x := g x]) [0..<W] r ! i =
    (if a \<le> i \<and> i < a + W then g (i - a) else r ! i)"
proof (induction W)
  case (Suc W)
  have "length (fold (\<lambda>x r. r[a + x := g x]) [0..<W] r) = length r" by (rule length_fold_update) simp
  then show ?case using Suc by (auto simp: nth_list_update)
qed auto

lemma pos_in_row:
  assumes "x < (stride :: nat)" and that: "W \<le> stride"
  shows "Y * stride \<le> y * stride + x \<and> y * stride + x < Y * stride + W \<longleftrightarrow> y = Y \<and> x < W"
proof (cases y Y rule: linorder_cases)
  case less
  then have "(y + 1) * stride \<le> Y * stride" by (intro mult_right_mono) auto
  with assms less show ?thesis by auto
next
  case greater
  then have "(Y + 1) * stride \<le> y * stride" by (intro mult_right_mono) auto
  with assms greater that show ?thesis by auto
qed auto

lemma nth_storeResidual:
  assumes "W \<le> stride" "x < stride" "H = 0 \<or> (H - 1) * stride + W \<le> length r"
  shows "storeResidual W H stride b r ! (y * stride + x) =
    (if y < H \<and> x < W then Pel (b ! (y * W + x)) else r ! (y * stride + x))"
  using assms(3)
proof (induction H)
  case (Suc H)
  let ?r = "storeResidual W H stride b r"
  have "H = 0 \<or> (H - 1) * stride + W \<le> length r"
  proof (cases H)
    case (Suc k)
    then show ?thesis using Suc.prems by simp
  qed simp
  note IH = Suc.IH [OF this]
  have "storeResidual W (Suc H) stride b r =
      fold (\<lambda>x r. r[H * stride + x := Pel (b ! (H * W + x))]) [0..<W] ?r"
    by (simp add: storeResidual_def)
  then have "storeResidual W (Suc H) stride b r ! (y * stride + x) =
      (if y = H \<and> x < W then Pel (b ! (y * W + x)) else ?r ! (y * stride + x))"
    using Suc.prems pos_in_row [OF assms(2,1), of H y] by (auto simp: nth_row_store)
  then show ?case using IH by auto
qed (simp add: storeResidual_def)

lemma sample2d_Pel: "Pel (sample2d W H c mh mv s1 s2 lo hi y x) = sample2d W H c mh mv s1 s2 lo hi y x"
  unfolding sample2d_def by (rule Pel_id; rule Clip3_range; simp add: PEL_MIN_def PEL_MAX_def)

definition inv_shift :: "SpsInfo \<Rightarrow> int" where
  "inv_shift sps = (TRANSFORM_MATRIX_SHIFT + int (sps_maxLog2TrDynamicRange sps) - 1) - int (sps_bitDepth sps)"



end
