(* ===== verification/Sparsity.thy ===== *)
theory Sparsity
  imports TrQuant
begin

text \<open>
  The sparsity log of \<open>CommonLib/CDSATMStats.h\<close>: an abstract log of block events, and the tracker as its
  refinement.  The word counters are sums over the events with the same key; where the sums fit in 64 bits
  the derived figures of the log are exact.
\<close>

section \<open>Events and their totals\<close>

datatype event = Event (ev_width: int) (ev_height: int) (ev_comp: int) (ev_hor: int) (ev_ver: int) (ev_active: int)

definition ev_key :: "event \<Rightarrow> sparsity_key" where
  "ev_key e = (ev_width e, ev_height e, ev_comp e, ev_hor e, ev_ver e)"

definition record_event :: "event \<Rightarrow> Tracker \<Rightarrow> Tracker" where
  "record_event e = tracker_record (ev_width e) (ev_height e) (ev_comp e) (ev_hor e) (ev_ver e) (ev_active e)"

definition total :: "(event \<Rightarrow> int) \<Rightarrow> event list \<Rightarrow> int" where
  "total f es = sum_list (map f es)"

text \<open>The counters the log promises for the events of one key, over the integers.\<close>

definition log_counters :: "event list \<Rightarrow> Counters" where
  "log_counters es = \<lparr>
     blocks = word_of_int (int (length es)),
     totalColumns = word_of_int (total ev_width es),
     zeroColumns = word_of_int (total (\<lambda>e. ev_width e - ev_active e) es),
     activeColumns = word_of_int (total ev_active es),
     baselineReads = word_of_int (total (\<lambda>e. ev_width e * ev_height e) es),
     cdsatmReads = word_of_int (total (\<lambda>e. ev_active e * ev_height e) es),
     baselineCycles = word_of_int (total (\<lambda>e. 2 * (ev_width e * ev_height e)) es),
     cdsatmCycles = word_of_int (total (\<lambda>e. ev_width e * ev_height e + ev_active e * ev_height e) es)\<rparr>"

definition log_of :: "event list \<Rightarrow> sparsity_key \<Rightarrow> Counters option" where
  "log_of es k = (let ks = filter (\<lambda>e. ev_key e = k) es in if ks = [] then None else Some (log_counters ks))"

lemma total_simps [simp]: "total f [] = 0" "total f (e # es) = f e + total f es" "total f (xs @ ys) = total f xs + total f ys"
  by (simp_all add: total_def)

lemma log_counters_Nil: "log_counters [] = counters_init"
  by (simp add: log_counters_def counters_init_def)

lemma record_event_step:
  assumes "tracker_enabled t" "m_counters t = log_of es"
  shows "m_counters (record_event e t) = log_of (es @ [e])"
proof
  fix k
  have c: "(case log_of es (ev_key e) of None \<Rightarrow> counters_init | Some c \<Rightarrow> c) =
      log_counters (filter (\<lambda>x. ev_key x = ev_key e) es)"
    by (simp add: log_of_def Let_def log_counters_Nil)
  show "m_counters (record_event e t) k = log_of (es @ [e]) k"
  proof (cases "k = ev_key e")
    case True
    then show ?thesis
      using assms c
      by (simp add: record_event_def tracker_record_def Let_def log_of_def [of "es @ [e]"] flip: ev_key_def)
        (simp add: log_counters_def)
  next
    case False
    then show ?thesis
      using assms by (simp add: record_event_def tracker_record_def Let_def log_of_def flip: ev_key_def)
  qed
qed

lemma record_event_path: "m_outputPath (record_event e t) = m_outputPath t"
  by (simp add: record_event_def tracker_record_def Let_def)

lemma record_events_path: "m_outputPath (fold record_event es t) = m_outputPath t"
  by (induction es arbitrary: t) (simp_all add: record_event_path)

lemma record_events:
  assumes "path \<noteq> []"
  shows "m_counters (fold record_event es (tracker_new (Some path))) = log_of es"
proof (induction es rule: rev_induct)
  case Nil
  show ?case by (simp add: tracker_new_def log_of_def fun_eq_iff)
next
  case (snoc e es)
  have "tracker_enabled (fold record_event es (tracker_new (Some path)))"
    using assms by (simp add: tracker_enabled_def record_events_path) (simp add: tracker_new_def)
  then show ?case using snoc by (simp add: record_event_step)
qed

lemma record_events_off: "m_outputPath t = [] \<Longrightarrow> fold record_event es t = t"
  by (induction es) (simp_all add: record_event_def tracker_record_def tracker_enabled_def)

text \<open>
  C9: The tracker refines the abstract log: configured with a path it holds, for every key, exactly the
  totals over the recorded events with that key and nothing for a key without events; without a path, or
  with an empty one, recording changes nothing.
\<close>

theorem tracker_refines_log:
  "m_counters (fold record_event es (tracker_new path)) =
    (case path of Some (c # cs) \<Rightarrow> log_of es | _ \<Rightarrow> Map.empty)"
proof (cases "path = None \<or> path = Some []")
  case True
  then have "m_outputPath (tracker_new path) = []" "m_counters (tracker_new path) = Map.empty"
    by (auto simp: tracker_new_def)
  then show ?thesis using True by (auto simp: record_events_off)
next
  case False
  then show ?thesis by (auto simp: record_events neq_Nil_conv split: option.splits)
qed

section \<open>The figures of the log\<close>

definition event_ok :: "event \<Rightarrow> bool" where
  "event_ok e \<longleftrightarrow> 0 \<le> ev_active e \<and> ev_active e \<le> ev_width e \<and> 0 \<le> ev_height e"

lemma total_mono: "list_all (\<lambda>e. f e \<le> g e) es \<Longrightarrow> total f es \<le> total g es"
  by (induction es) auto

lemma total_add: "total f es + total g es = total (\<lambda>e. f e + g e) es"
  by (induction es) auto

lemma total_nonneg: "list_all (\<lambda>e. 0 \<le> f e) es \<Longrightarrow> 0 \<le> total f es"
  by (induction es) auto

lemma uint_of_small: "0 \<le> x \<Longrightarrow> x < 2 ^ 64 \<Longrightarrow> uint (word_of_int x :: 64 word) = x"
  by (simp add: uint_word_of_int)

lemma list_all_filterI: "list_all P es \<Longrightarrow> (\<And>e. P e \<Longrightarrow> Q e) \<Longrightarrow> list_all Q (filter R es)"
  by (auto simp: list_all_iff)

lemma total_filter_le:
  "list_all P es \<Longrightarrow> (\<And>e. P e \<Longrightarrow> 0 \<le> f e) \<Longrightarrow> total f (filter R es) \<le> total f es"
  by (induction es) (auto intro: add_increasing)

text \<open>
  C14: Recording blocks with at most as many active columns as columns, where the total cost of the
  baseline stays below 2 to the power 64 and no block is empty: in every entry the zero and the active
  columns add up to all columns, the reads and cycles with skipping never exceed the baseline's, and the
  cycles saved are the reads saved.
\<close>

theorem sparsity_figures:
  assumes ok: "list_all event_ok es" "list_all (\<lambda>e. 1 \<le> ev_height e) es"
    and fits: "total (\<lambda>e. 2 * (ev_width e * ev_height e)) es < 2 ^ 64"
    and c: "m_counters (fold record_event es (tracker_new (Some (p # ath)))) k = Some c"
  shows "uint (zeroColumns c) + uint (activeColumns c) = uint (totalColumns c) \<and>
    uint (cdsatmReads c) \<le> uint (baselineReads c) \<and> uint (cdsatmCycles c) \<le> uint (baselineCycles c) \<and>
    uint (baselineCycles c) - uint (cdsatmCycles c) = uint (baselineReads c) - uint (cdsatmReads c)"
proof -
  define ks where "ks = filter (\<lambda>e. ev_key e = k) es"
  have c': "c = log_counters ks"
    using c by (simp add: record_events log_of_def Let_def ks_def split: if_splits)
  have P: "0 \<le> ev_active e \<and> ev_active e \<le> ev_width e \<and> 1 \<le> ev_height e \<and> 0 \<le> ev_width e * ev_height e \<and>
      ev_width e \<le> ev_width e * ev_height e \<and> 0 \<le> ev_active e * ev_height e \<and>
      ev_active e * ev_height e \<le> ev_width e * ev_height e" if "event_ok e \<and> 1 \<le> ev_height e" for e
    using that by (simp add: event_ok_def mult_right_mono) (metis mult_left_mono mult.right_neutral order_trans)
  have ok': "list_all (\<lambda>e. event_ok e \<and> 1 \<le> ev_height e) es" using ok by (auto simp: list_all_iff)
  have all: "list_all Q ks" if "\<And>e. event_ok e \<and> 1 \<le> ev_height e \<Longrightarrow> Q e" for Q
    unfolding ks_def using ok' that by (rule list_all_filterI)
  have "total (\<lambda>e. 2 * (ev_width e * ev_height e)) ks \<le> total (\<lambda>e. 2 * (ev_width e * ev_height e)) es"
    unfolding ks_def
    using ok' by (rule total_filter_le) (use P in fastforce)
  with fits have top: "total (\<lambda>e. 2 * (ev_width e * ev_height e)) ks < 2 ^ 64" by simp
  have u: "uint (word_of_int (total f ks) :: 64 word) = total f ks"
    if "\<And>e. event_ok e \<and> 1 \<le> ev_height e \<Longrightarrow> 0 \<le> f e \<and> f e \<le> 2 * (ev_width e * ev_height e)" for f
    using total_nonneg [of f ks] total_mono [of f "\<lambda>e. 2 * (ev_width e * ev_height e)" ks] top
      all [of "\<lambda>e. 0 \<le> f e"] all [of "\<lambda>e. f e \<le> 2 * (ev_width e * ev_height e)"] that
    by (intro uint_of_small) auto
  have s: "total (\<lambda>e. ev_width e - ev_active e) ks + total ev_active ks = total ev_width ks"
    "total (\<lambda>e. 2 * (ev_width e * ev_height e)) ks =
      total (\<lambda>e. ev_width e * ev_height e) ks + total (\<lambda>e. ev_width e * ev_height e) ks"
    "total (\<lambda>e. ev_width e * ev_height e + ev_active e * ev_height e) ks =
      total (\<lambda>e. ev_width e * ev_height e) ks + total (\<lambda>e. ev_active e * ev_height e) ks"
    by (simp_all add: total_add mult.commute)
  have le: "total (\<lambda>e. ev_active e * ev_height e) ks \<le> total (\<lambda>e. ev_width e * ev_height e) ks"
    by (intro total_mono all) (use P in blast)
  have n: "0 \<le> ev_width e - ev_active e \<and> ev_width e - ev_active e \<le> 2 * (ev_width e * ev_height e)"
    "0 \<le> ev_active e \<and> ev_active e \<le> 2 * (ev_width e * ev_height e)"
    "0 \<le> ev_width e \<and> ev_width e \<le> 2 * (ev_width e * ev_height e)"
    "0 \<le> ev_width e * ev_height e \<and> ev_width e * ev_height e \<le> 2 * (ev_width e * ev_height e)"
    "0 \<le> ev_active e * ev_height e \<and> ev_active e * ev_height e \<le> 2 * (ev_width e * ev_height e)"
    "0 \<le> 2 * (ev_width e * ev_height e) \<and> 2 * (ev_width e * ev_height e) \<le> 2 * (ev_width e * ev_height e)"
    "0 \<le> ev_width e * ev_height e + ev_active e * ev_height e \<and>
      ev_width e * ev_height e + ev_active e * ev_height e \<le> 2 * (ev_width e * ev_height e)"
    if "event_ok e \<and> 1 \<le> ev_height e" for e using P [OF that] by auto
  show ?thesis
    unfolding c' log_counters_def Counters.simps
    using s le u [OF n(1)] u [OF n(2)] u [OF n(3)] u [OF n(4)] u [OF n(5)] u [OF n(6)] u [OF n(7)] by simp
qed

definition demo_events :: "event list" where
  "demo_events = [Event 8 4 0 0 0 3, Event 8 4 0 0 0 8, Event 4 4 1 2 1 0]"

theorem sparsity_figures_witness:
  "\<exists>c. m_counters (fold record_event demo_events (tracker_new (Some ''x.csv''))) (8, 4, 0, 0, 0) = Some c \<and>
    uint (zeroColumns c) + uint (activeColumns c) = uint (totalColumns c) \<and> uint (totalColumns c) = 16 \<and>
    uint (baselineCycles c) - uint (cdsatmCycles c) = uint (baselineReads c) - uint (cdsatmReads c)"
proof -
  let ?t = "fold record_event demo_events (tracker_new (Some ''x.csv''))"
  let ?c = "log_counters [Event 8 4 0 0 0 3, Event 8 4 0 0 0 8]"
  have c: "m_counters ?t (8, 4, 0, 0, 0) = Some ?c"
    unfolding record_events [OF list.distinct(2)] by (simp add: log_of_def demo_events_def ev_key_def)
  have "list_all event_ok demo_events" "list_all (\<lambda>e. 1 \<le> ev_height e) demo_events"
    "total (\<lambda>e. 2 * (ev_width e * ev_height e)) demo_events < 2 ^ 64"
    by (simp_all add: demo_events_def event_ok_def)
  note f = sparsity_figures [OF this c]
  have "uint (totalColumns ?c) = 16" by (simp add: log_counters_def)
  then show ?thesis using f c by blast
qed

section \<open>What the forward transform records\<close>

definition first_pass :: "nat \<Rightarrow> (nat \<Rightarrow> nat \<Rightarrow> int) \<Rightarrow> (nat \<Rightarrow> int) \<Rightarrow> nat \<Rightarrow> nat \<Rightarrow> nat \<Rightarrow> int" where
  "first_pass width resi mh s y u = (isum width (\<lambda>x. resi y x * mh (u * width + x)) + rnd s) div 2 ^ s"

lemma countActiveColumns_card:
  "countActiveColumns W H tmp = card {u. u < W \<and> (\<exists>y<H. tmp ! (u * H + y) \<noteq> 0)}"
proof -
  have "countActiveColumns W H tmp = card (set (filter (\<lambda>u. list_ex (\<lambda>y. tmp ! (u * H + y) \<noteq> 0) [0..<H]) [0..<W]))"
    unfolding countActiveColumns_def by (rule distinct_card [symmetric]) simp
  also have "set (filter (\<lambda>u. list_ex (\<lambda>y. tmp ! (u * H + y) \<noteq> 0) [0..<H]) [0..<W]) =
      {u. u < W \<and> (\<exists>y<H. tmp ! (u * H + y) \<noteq> 0)}"
    by (auto simp: list_ex_iff)
  finally show ?thesis .
qed



end
