(* ===== verification/ScanOrder.thy ===== *)
theory ScanOrder
  imports Contexts
begin

text \<open>
  The scan orders of \<open>CommonLib/Rom.cpp\<close>: \<open>ScanGenerator\<close>, the ungrouped and grouped tables built by
  \<open>initROM\<close>, and what coefficient coding relies on: a table lists every position of the coded region once,
  and the right and lower neighbours of a position come after it.
\<close>

section \<open>The generator and the tables\<close>

datatype CoeffScanType = DIAG | TRAV_HOR | TRAV_VER

record ScanElement =
  se_idx :: nat
  se_x :: nat
  se_y :: nat

record ScanGenerator =
  m_line :: nat
  m_column :: nat
  m_blockWidth :: nat
  m_blockHeight :: nat
  m_stride :: nat
  m_scanType :: CoeffScanType

definition sg_new :: "nat \<Rightarrow> nat \<Rightarrow> nat \<Rightarrow> CoeffScanType \<Rightarrow> ScanGenerator" where
  "sg_new blockWidth blockHeight stride scanType =
    \<lparr>m_line = 0, m_column = 0, m_blockWidth = blockWidth, m_blockHeight = blockHeight, m_stride = stride,
     m_scanType = scanType\<rparr>"

text \<open>The next line and column, by the kind of scan.\<close>

definition advance :: "CoeffScanType \<Rightarrow> nat \<Rightarrow> nat \<Rightarrow> nat \<Rightarrow> nat \<Rightarrow> nat \<times> nat" where
  "advance scanType W H line column =
    (case scanType of
       DIAG \<Rightarrow>
         (if column = W - 1 \<or> line = 0 then
            (let line = line + (column + 1); column = 0
             in if line \<ge> H then (H - 1, column + (line - (H - 1))) else (line, column))
          else (line - 1, column + 1))
     | TRAV_HOR \<Rightarrow>
         (if line mod 2 = 0 then
            (if column = W - 1 then (line + 1, W - 1) else (line, column + 1))
          else (if column = 0 then (line + 1, 0) else (line, column - 1)))
     | TRAV_VER \<Rightarrow>
         (if column mod 2 = 0 then
            (if line = H - 1 then (H - 1, column + 1) else (line + 1, column))
          else (if line = 0 then (0, column + 1) else (line - 1, column))))"

definition GetNextIndex :: "nat \<Rightarrow> nat \<Rightarrow> ScanGenerator \<Rightarrow> nat \<times> ScanGenerator" where
  "GetNextIndex blockOffsetX blockOffsetY g =
    ((m_line g + blockOffsetY) * m_stride g + m_column g + blockOffsetX,
     (let (line, column) = advance (m_scanType g) (m_blockWidth g) (m_blockHeight g) (m_line g) (m_column g)
      in g\<lparr>m_line := line, m_column := column\<rparr>))"

text \<open>The loop that fills \<open>n\<close> consecutive entries from a generator.\<close>

fun scan_elems :: "nat \<Rightarrow> nat \<Rightarrow> nat \<Rightarrow> nat \<Rightarrow> ScanGenerator \<Rightarrow> ScanElement list" where
  "scan_elems 0 blockWidth offsetX offsetY g = []"
| "scan_elems (Suc n) blockWidth offsetX offsetY g =
    (let (rasterPos, g') = GetNextIndex offsetX offsetY g;
         posY = rasterPos div blockWidth;
         posX = rasterPos - posY * blockWidth
     in \<lparr>se_idx = rasterPos, se_x = posX, se_y = posY\<rparr> # scan_elems n blockWidth offsetX offsetY g')"

definition scan_ungrouped :: "CoeffScanType \<Rightarrow> nat \<Rightarrow> nat \<Rightarrow> ScanElement list" where
  "scan_ungrouped scanType blockWidth blockHeight =
    scan_elems (blockWidth * blockHeight) blockWidth 0 0 (sg_new blockWidth blockHeight blockWidth scanType)"

definition g_log2TxSubblockSize :: "(nat \<times> nat) list list" where
  "g_log2TxSubblockSize =
    [[(0, 0), (0, 1), (0, 2), (0, 3), (0, 4), (0, 4), (0, 4), (0, 4)],
     [(1, 0), (1, 1), (1, 1), (1, 3), (1, 3), (1, 3), (1, 3), (1, 3)],
     [(2, 0), (1, 1), (2, 2), (2, 2), (2, 2), (2, 2), (2, 2), (2, 2)],
     [(3, 0), (3, 1), (2, 2), (2, 2), (2, 2), (2, 2), (2, 2), (2, 2)],
     [(4, 0), (3, 1), (2, 2), (2, 2), (2, 2), (2, 2), (2, 2), (2, 2)],
     [(4, 0), (3, 1), (2, 2), (2, 2), (2, 2), (2, 2), (2, 2), (2, 2)],
     [(4, 0), (3, 1), (2, 2), (2, 2), (2, 2), (2, 2), (2, 2), (2, 2)],
     [(4, 0), (3, 1), (2, 2), (2, 2), (2, 2), (2, 2), (2, 2), (2, 2)]]"

definition log2CG :: "nat \<Rightarrow> nat \<Rightarrow> nat \<times> nat" where
  "log2CG width height = g_log2TxSubblockSize ! nat (floorLog2 width) ! nat (floorLog2 height)"

definition getNonzeroTuSize :: "nat \<Rightarrow> nat" where "getNonzeroTuSize s = min s 32"

fun scan_groups :: "nat \<Rightarrow> nat \<Rightarrow> nat \<Rightarrow> nat \<Rightarrow> CoeffScanType \<Rightarrow> ScanGenerator \<Rightarrow> ScanElement list" where
  "scan_groups 0 blockWidth groupWidth groupHeight scanType g = []"
| "scan_groups (Suc n) blockWidth groupWidth groupHeight scanType g =
    (let groupOffsetX = m_column g * groupWidth;
         groupOffsetY = m_line g * groupHeight
     in scan_elems (groupWidth * groupHeight) blockWidth groupOffsetX groupOffsetY
          (sg_new groupWidth groupHeight blockWidth scanType)
        @ scan_groups n blockWidth groupWidth groupHeight scanType (snd (GetNextIndex 0 0 g)))"

text \<open>The entries no group fills keep the position of the last sample; they exist only in blocks larger
  than the coded region.\<close>

definition scan_grouped :: "CoeffScanType \<Rightarrow> nat \<Rightarrow> nat \<Rightarrow> ScanElement list" where
  "scan_grouped scanType blockWidth blockHeight =
    (let totalValues = blockWidth * blockHeight;
         (log2CGWidth, log2CGHeight) = log2CG blockWidth blockHeight;
         groupWidth = 2 ^ log2CGWidth; groupHeight = 2 ^ log2CGHeight;
         widthInGroups = getNonzeroTuSize blockWidth div 2 ^ log2CGWidth;
         heightInGroups = getNonzeroTuSize blockHeight div 2 ^ log2CGHeight;
         scan = scan_groups (widthInGroups * heightInGroups) blockWidth groupWidth groupHeight scanType
                  (sg_new widthInGroups heightInGroups groupWidth scanType)
     in scan @ replicate (totalValues - length scan)
          \<lparr>se_idx = totalValues - 1, se_x = blockWidth - 1, se_y = blockHeight - 1\<rparr>)"

section \<open>The positions visited\<close>

fun visited :: "nat \<Rightarrow> ScanGenerator \<Rightarrow> (nat \<times> nat) list" where
  "visited 0 g = []"
| "visited (Suc n) g = (m_column g, m_line g) # visited n (snd (GetNextIndex 0 0 g))"

lemma length_visited [simp]: "length (visited n g) = n"
  by (induction n arbitrary: g) auto

lemma GetNextIndex_fst: "fst (GetNextIndex ox oy g) = (m_line g + oy) * m_stride g + (m_column g + ox)"
  by (simp add: GetNextIndex_def)

lemma GetNextIndex_snd: "snd (GetNextIndex ox oy g) = snd (GetNextIndex 0 0 g)"
  by (simp add: GetNextIndex_def)

lemma GetNextIndex_const:
  "m_blockWidth (snd (GetNextIndex ox oy g)) = m_blockWidth g" "m_blockHeight (snd (GetNextIndex ox oy g)) = m_blockHeight g"
  "m_stride (snd (GetNextIndex ox oy g)) = m_stride g" "m_scanType (snd (GetNextIndex ox oy g)) = m_scanType g"
  by (simp_all add: GetNextIndex_def split: prod.split)

definition elem_at :: "nat \<Rightarrow> nat \<Rightarrow> nat \<Rightarrow> ScanElement" where
  "elem_at W x y = \<lparr>se_idx = y * W + x, se_x = x, se_y = y\<rparr>"

lemma scan_elems_visited:
  assumes "m_stride g = W" "list_all (\<lambda>(x, y). x + ox < W) (visited n g)"
  shows "scan_elems n W ox oy g = map (\<lambda>(x, y). elem_at W (x + ox) (y + oy)) (visited n g)"
  using assms
proof (induction n arbitrary: g)
  case (Suc n)
  obtain r g' where r: "GetNextIndex ox oy g = (r, g')" by force
  have g': "g' = snd (GetNextIndex 0 0 g)" and "r = (m_line g + oy) * W + (m_column g + ox)"
    using GetNextIndex_fst [of ox oy g] GetNextIndex_snd [of ox oy g] Suc.prems r by auto
  moreover have "m_column g + ox < W" using Suc.prems by simp
  ultimately have "r div W = m_line g + oy" "r = (m_line g + oy) * W + (m_column g + ox)" by auto
  then show ?case using Suc g' r by (simp add: elem_at_def GetNextIndex_const Let_def)
qed simp

lemma visited_stride: "visited n (g\<lparr>m_stride := s\<rparr>) = visited n g"
proof (induction n arbitrary: g)
  case (Suc n)
  have "snd (GetNextIndex 0 0 (g\<lparr>m_stride := s\<rparr>)) = (snd (GetNextIndex 0 0 g))\<lparr>m_stride := s\<rparr>"
    by (simp add: GetNextIndex_def split: prod.split)
  then show ?case using Suc by simp
qed simp

lemma visited_new: "visited n (sg_new W H s t) = visited n (sg_new W H 0 t)"
  using visited_stride [of n s "sg_new W H 0 t"] by (simp add: sg_new_def)

lemma scan_groups_visited:
  assumes "list_all (\<lambda>(gx, gy). gx * gw + gw \<le> W) (visited n g)"
    and "list_all (\<lambda>(x, y). x < gw) (visited (gw * gh) (sg_new gw gh 0 t))"
  shows "scan_groups n W gw gh t g = concat (map (\<lambda>(gx, gy).
    map (\<lambda>(x, y). elem_at W (x + gx * gw) (y + gy * gh)) (visited (gw * gh) (sg_new gw gh 0 t))) (visited n g))"
  using assms(1)
proof (induction n arbitrary: g)
  case (Suc n)
  have "scan_elems (gw * gh) W (m_column g * gw) (m_line g * gh) (sg_new gw gh W t) =
      map (\<lambda>(x, y). elem_at W (x + m_column g * gw) (y + m_line g * gh)) (visited (gw * gh) (sg_new gw gh W t))"
    by (rule scan_elems_visited) (use Suc.prems assms(2) in \<open>auto simp: sg_new_def list_all_iff visited_new [of _ gw gh W t, unfolded sg_new_def]\<close>)
  then show ?case using Suc by (simp add: Let_def visited_new [of _ gw gh W t])
qed simp

section \<open>Diagonal orders\<close>

text \<open>A diagonal order of a rectangle: each position once, diagonals in increasing order.\<close>

definition diagonal :: "nat \<Rightarrow> nat \<Rightarrow> (nat \<times> nat) list \<Rightarrow> bool" where
  "diagonal W H ps \<longleftrightarrow> length ps = W * H \<and> distinct ps \<and> list_all (\<lambda>(x, y). x < W \<and> y < H) ps \<and>
    sorted (map (\<lambda>(x, y). x + y) ps)"

definition diag_order :: "nat \<Rightarrow> nat \<Rightarrow> (nat \<times> nat) list" where
  "diag_order W H = visited (W * H) (sg_new W H 0 DIAG)"

lemma diagonal_set:
  assumes "diagonal W H ps"
  shows "set ps = {..<W} \<times> {..<H}"
proof (rule card_subset_eq)
  show "set ps \<subseteq> {..<W} \<times> {..<H}" using assms by (auto simp: diagonal_def list_all_iff)
  show "card (set ps) = card ({..<W} \<times> {..<H})" using assms by (simp add: diagonal_def distinct_card)
qed simp

lemma diagonal_before:
  assumes "diagonal W H ps" "i < W * H" "j < W * H" "ps ! i = (x, y)" "ps ! j = (x', y')" "x + y < x' + y'"
  shows "i < j"
proof (rule ccontr)
  assume "\<not> i < j"
  then have "map (\<lambda>(x, y). x + y) ps ! j \<le> map (\<lambda>(x, y). x + y) ps ! i"
    using assms by (intro sorted_nth_mono) (auto simp: diagonal_def)
  then show False using assms by (simp add: diagonal_def)
qed

lemma diag_orders:
  "diagonal 1 1 (diag_order 1 1)" "diagonal 1 2 (diag_order 1 2)" "diagonal 1 4 (diag_order 1 4)"
  "diagonal 1 8 (diag_order 1 8)" "diagonal 1 16 (diag_order 1 16)"
  "diagonal 2 1 (diag_order 2 1)" "diagonal 4 1 (diag_order 4 1)" "diagonal 8 1 (diag_order 8 1)"
  "diagonal 16 1 (diag_order 16 1)"
  "diagonal 2 2 (diag_order 2 2)" "diagonal 2 4 (diag_order 2 4)" "diagonal 4 2 (diag_order 4 2)"
  "diagonal 2 8 (diag_order 2 8)" "diagonal 8 2 (diag_order 8 2)" "diagonal 4 4 (diag_order 4 4)"
  "diagonal 4 8 (diag_order 4 8)" "diagonal 8 4 (diag_order 8 4)" "diagonal 8 8 (diag_order 8 8)"
  by code_simp+

section \<open>The grouped table\<close>

text \<open>
  What coefficient coding needs of a table for a block of width \<open>W\<close> whose coded region is the top-left
  rectangle \<open>cw\<close> by \<open>ch\<close>: the first \<open>cw * ch\<close> entries list the region once, and an entry comes after every
  entry to its left and above it, the others hold the last sample.
\<close>

definition scan_ok :: "nat \<Rightarrow> nat \<Rightarrow> nat \<Rightarrow> nat \<Rightarrow> ScanElement list \<Rightarrow> bool" where
  "scan_ok W H cw ch scan \<longleftrightarrow> length scan = W * H \<and> cw \<le> W \<and> ch \<le> H \<and>
    (\<forall>n < cw * ch. se_x (scan ! n) < cw \<and> se_y (scan ! n) < ch \<and> scan ! n = elem_at W (se_x (scan ! n)) (se_y (scan ! n))) \<and>
    (\<forall>x < cw. \<forall>y < ch. \<exists>n < cw * ch. scan ! n = elem_at W x y) \<and>
    (\<forall>n < cw * ch. \<forall>m < cw * ch. n \<noteq> m \<and> se_x (scan ! n) \<le> se_x (scan ! m) \<and> se_y (scan ! n) \<le> se_y (scan ! m) \<longrightarrow> n < m) \<and>
    (\<forall>n. cw * ch \<le> n \<and> n < W * H \<longrightarrow> scan ! n = elem_at W (W - 1) (H - 1))"

lemma nth_concat_map_blocks:
  assumes "\<And>x. length (f x) = m" "n < length xs * m"
  shows "concat (map f xs) ! n = f (xs ! (n div m)) ! (n mod m)"
  using assms(2)
proof (induction xs arbitrary: n)
  case (Cons x xs)
  show ?case
  proof (cases "n < m")
    case False
    then obtain k where k: "n = m + k" using le_Suc_ex not_less by blast
    moreover have "0 < m" using Cons.prems by (cases m) auto
    ultimately have "n div m = Suc (k div m)" "n mod m = k mod m" by (simp_all add: div_add_self1)
    then show ?thesis using k Cons assms(1) by (simp add: nth_append)
  qed (simp add: nth_append assms(1))
qed simp

lemma diagonal_mono:
  assumes "diagonal W H ps" "i < W * H" "j < W * H" "fst (ps ! i) \<le> fst (ps ! j)" "snd (ps ! i) \<le> snd (ps ! j)" "i \<noteq> j"
  shows "i < j"
proof -
  have "ps ! i \<noteq> ps ! j" using assms by (simp add: diagonal_def nth_eq_iff_index_eq)
  then have "fst (ps ! i) + snd (ps ! i) < fst (ps ! j) + snd (ps ! j)"
    using assms(4,5) by (auto simp: prod_eq_iff)
  then show ?thesis using diagonal_before [OF assms(1-3) prod.collapse [symmetric] prod.collapse [symmetric]] by simp
qed

lemma diagonal_nth: "diagonal W H ps \<Longrightarrow> i < W * H \<Longrightarrow> fst (ps ! i) < W \<and> snd (ps ! i) < H"
  by (simp add: diagonal_def list_all_length case_prod_beta)

lemma block_index:
  assumes "(n :: nat) < N * m"
  shows "n div m < N" "n mod m < m"
proof -
  have "0 < m" using assms by (cases m) auto
  then show "n div m < N" "n mod m < m" using assms by (simp_all add: div_less_iff_less_mult)
qed

lemma groups_scan_ok:
  assumes P: "diagonal gw gh P" and G: "diagonal Wg Hg G" and W: "Wg * gw \<le> W" "Hg * gh \<le> H"
    and scan: "scan = concat (map (\<lambda>(gx, gy). map (\<lambda>(x, y). elem_at W (x + gx * gw) (y + gy * gh)) P) G)
      @ replicate (W * H - Wg * Hg * (gw * gh)) (elem_at W (W - 1) (H - 1))"
  shows "scan_ok W H (Wg * gw) (Hg * gh) scan"
proof -
  let ?m = "gw * gh" and ?N = "Wg * gw * (Hg * gh)"
  have N: "?N = Wg * Hg * ?m" by simp
  have le: "?N \<le> W * H" using W by (intro mult_le_mono)
  have lenP: "length P = ?m" and lenG: "length G = Wg * Hg" using P G by (simp_all add: diagonal_def)
  have len: "length scan = W * H" using le by (simp add: scan length_concat comp_def case_prod_beta lenP lenG sum_list_triv N)
  define gx gy px py where "gx n = fst (G ! (n div ?m))" and "gy n = snd (G ! (n div ?m))"
    and "px n = fst (P ! (n mod ?m))" and "py n = snd (P ! (n mod ?m))" for n
  have b: "n div ?m < Wg * Hg" "n mod ?m < ?m" if "n < ?N" for n
    using block_index [of n "Wg * Hg" ?m] that unfolding N by auto
  have nth: "scan ! n = elem_at W (px n + gx n * gw) (py n + gy n * gh)" if "n < ?N" for n
    using that b [OF that] unfolding scan
    by (subst nth_append) (simp add: length_concat comp_def case_prod_beta lenP lenG sum_list_triv N nth_concat_map_blocks [where m = ?m]
      gx_def gy_def px_def py_def)
  have in_g: "gx n < Wg" "gy n < Hg" "px n < gw" "py n < gh" if "n < ?N" for n
    using diagonal_nth [OF G b(1) [OF that]] diagonal_nth [OF P b(2) [OF that]] by (simp_all add: gx_def gy_def px_def py_def)
  have lt: "p + g * w < N * w" if "p < w" "g < N" for p g w N :: nat
  proof -
    have "(g + 1) * w \<le> N * w" using that by (intro mult_right_mono) auto
    then show ?thesis using that by simp
  qed
  have dm: "g = (p + g * w) div w" "p = (p + g * w) mod w" if "p < w" for p g w :: nat using that by simp_all
  have "\<exists>n < ?N. scan ! n = elem_at W x y" if "x < Wg * gw" "y < Hg * gh" for x y
  proof -
    note bx = block_index [OF that(1)] and by' = block_index [OF that(2)]
    obtain i where i: "i < Wg * Hg" "G ! i = (x div gw, y div gh)"
      using diagonal_set [OF G] bx by' lenG by (metis SigmaI in_set_conv_nth lessThan_iff)
    obtain j where j: "j < ?m" "P ! j = (x mod gw, y mod gh)"
      using diagonal_set [OF P] bx by' lenP by (metis SigmaI in_set_conv_nth lessThan_iff)
    have n: "j + i * ?m < ?N" using lt [OF j(1) i(1)] unfolding N .
    with nth [OF n] show ?thesis using i j dm [OF j(1), of i]
      by (intro exI [of _ "j + i * ?m"]) (simp add: gx_def gy_def px_def py_def)
  qed
  moreover have "n < k" if n: "n < ?N" and k: "k < ?N" and ne: "n \<noteq> k"
    and x: "px n + gx n * gw \<le> px k + gx k * gw" and y: "py n + gy n * gh \<le> py k + gy k * gh" for n k
  proof -
    have g: "gx n \<le> gx k" "gy n \<le> gy k"
      using div_le_mono [OF x, of gw] div_le_mono [OF y, of gh] in_g [OF n] in_g [OF k] by simp_all
    show ?thesis
    proof (cases "n div ?m = k div ?m")
      case True
      then have "px n \<le> px k" "py n \<le> py k" using x y by (simp_all add: gx_def gy_def)
      moreover have "n mod ?m \<noteq> k mod ?m" using True ne by (metis div_mult_mod_eq)
      ultimately have "n mod ?m < k mod ?m"
        using diagonal_mono [OF P b(2) [OF n] b(2) [OF k]] by (simp add: px_def py_def)
      then show ?thesis using True by (metis div_mult_mod_eq add_less_cancel_left)
    next
      case False
      then have "n div ?m < k div ?m"
        using diagonal_mono [OF G b(1) [OF n] b(1) [OF k]] g by (simp add: gx_def gy_def)
      then show ?thesis by (metis div_le_mono linorder_not_less)
    qed
  qed
  moreover have "scan ! n = elem_at W (W - 1) (H - 1)" if "?N \<le> n" "n < W * H" for n
    using that unfolding scan
    by (subst nth_append) (simp add: length_concat comp_def case_prod_beta lenP lenG sum_list_triv N)
  ultimately show ?thesis
    unfolding scan_ok_def using W len nth in_g lt by (simp add: elem_at_def)
qed

lemma scan_grouped_concat:
  assumes cg: "log2CG W H = (lw, lh)" and P: "diagonal (2 ^ lw) (2 ^ lh) (diag_order (2 ^ lw) (2 ^ lh))"
    and G: "diagonal Wg Hg (diag_order Wg Hg)"
    and Wg: "Wg = getNonzeroTuSize W div 2 ^ lw" "Wg * 2 ^ lw = getNonzeroTuSize W"
    and Hg: "Hg = getNonzeroTuSize H div 2 ^ lh" "Hg * 2 ^ lh = getNonzeroTuSize H"
    and pos: "0 < W" "0 < H"
  shows "scan_grouped DIAG W H = concat (map (\<lambda>(gx, gy). map (\<lambda>(x, y). elem_at W (x + gx * 2 ^ lw) (y + gy * 2 ^ lh))
      (diag_order (2 ^ lw) (2 ^ lh))) (diag_order Wg Hg))
    @ replicate (W * H - Wg * Hg * (2 ^ lw * 2 ^ lh)) (elem_at W (W - 1) (H - 1))"
proof -
  let ?P = "diag_order (2 ^ lw) (2 ^ lh)" and ?G = "diag_order Wg Hg"
  let ?g = "concat (map (\<lambda>(gx, gy). map (\<lambda>(x, y). elem_at W (x + gx * 2 ^ lw) (y + gy * 2 ^ lh)) ?P) ?G)"
  have le: "Wg * 2 ^ lw \<le> W" "Hg * 2 ^ lh \<le> H" using Wg Hg by (simp_all add: getNonzeroTuSize_def)
  have inG: "gx * 2 ^ lw + 2 ^ lw \<le> W" if "gx < Wg" for gx
  proof -
    have "(gx + 1) * 2 ^ lw \<le> Wg * 2 ^ lw" using that by (intro mult_right_mono) auto
    then show ?thesis using le by simp
  qed
  have g: "scan_groups (Wg * Hg) W (2 ^ lw) (2 ^ lh) DIAG (sg_new Wg Hg (2 ^ lw) DIAG) = ?g"
    unfolding diag_order_def visited_new [of "Wg * Hg" Wg Hg "2 ^ lw", symmetric]
  proof (rule scan_groups_visited)
    show "list_all (\<lambda>(gx, gy). gx * 2 ^ lw + 2 ^ lw \<le> W) (visited (Wg * Hg) (sg_new Wg Hg (2 ^ lw) DIAG))"
      using G inG unfolding visited_new [of _ _ _ "2 ^ lw"] by (auto simp: diagonal_def diag_order_def list_all_iff)
    show "list_all (\<lambda>(x, y). x < 2 ^ lw) (visited (2 ^ lw * 2 ^ lh) (sg_new (2 ^ lw) (2 ^ lh) 0 DIAG))"
      using P by (auto simp: diagonal_def diag_order_def list_all_iff)
  qed
  have last: "elem_at W (W - 1) (H - 1) = \<lparr>se_idx = W * H - 1, se_x = W - 1, se_y = H - 1\<rparr>"
    using pos by (cases W; cases H) (simp_all add: elem_at_def)
  have "length ?g = Wg * Hg * (2 ^ lw * 2 ^ lh)"
    using P G by (simp add: length_concat comp_def case_prod_beta sum_list_triv diagonal_def)
  then show ?thesis
    by (simp only: scan_grouped_def cg g Wg(1) [symmetric] Hg(1) [symmetric] Let_def prod.case last)
qed

lemma scan_grouped_groups:
  assumes cg: "log2CG W H = (lw, lh)" and P: "diagonal (2 ^ lw) (2 ^ lh) (diag_order (2 ^ lw) (2 ^ lh))"
    and G: "diagonal Wg Hg (diag_order Wg Hg)"
    and Wg: "Wg = getNonzeroTuSize W div 2 ^ lw" "Wg * 2 ^ lw = getNonzeroTuSize W"
    and Hg: "Hg = getNonzeroTuSize H div 2 ^ lh" "Hg * 2 ^ lh = getNonzeroTuSize H"
    and pos: "0 < W" "0 < H"
  shows "scan_ok W H (getNonzeroTuSize W) (getNonzeroTuSize H) (scan_grouped DIAG W H)"
proof -
  have le: "Wg * 2 ^ lw \<le> W" "Hg * 2 ^ lh \<le> H" using Wg Hg by (simp_all add: getNonzeroTuSize_def)
  from groups_scan_ok [OF P G le scan_grouped_concat [OF assms]] show ?thesis unfolding Wg(2) Hg(2) .
qed

text \<open>Where the groups lie.\<close>

lemma scan_ungrouped_nth:
  assumes G: "diagonal Wg Hg (diag_order Wg Hg)" and i: "i < Wg * Hg"
  shows "scan_ungrouped DIAG Wg Hg ! i = elem_at Wg (fst (diag_order Wg Hg ! i)) (snd (diag_order Wg Hg ! i))"
proof -
  have "scan_ungrouped DIAG Wg Hg = map (\<lambda>(x, y). elem_at Wg (x + 0) (y + 0)) (visited (Wg * Hg) (sg_new Wg Hg Wg DIAG))"
    unfolding scan_ungrouped_def
    by (rule scan_elems_visited) (use G in \<open>auto simp: sg_new_def list_all_iff visited_new [of _ Wg Hg Wg, unfolded sg_new_def] diagonal_def diag_order_def\<close>)
  then show ?thesis using i by (simp add: visited_new [of _ Wg Hg Wg] diag_order_def case_prod_beta)
qed

lemma scan_grouped_nth:
  assumes cg: "log2CG W H = (lw, lh)" and P: "diagonal (2 ^ lw) (2 ^ lh) (diag_order (2 ^ lw) (2 ^ lh))"
    and G: "diagonal Wg Hg (diag_order Wg Hg)"
    and Wg: "Wg = getNonzeroTuSize W div 2 ^ lw" "Wg * 2 ^ lw = getNonzeroTuSize W"
    and Hg: "Hg = getNonzeroTuSize H div 2 ^ lh" "Hg * 2 ^ lh = getNonzeroTuSize H"
    and pos: "0 < W" "0 < H" and n: "n < Wg * Hg * 2 ^ (lw + lh)"
  shows "se_x (scan_grouped DIAG W H ! n) div 2 ^ lw = fst (diag_order Wg Hg ! (n div 2 ^ (lw + lh)))"
    "se_y (scan_grouped DIAG W H ! n) div 2 ^ lh = snd (diag_order Wg Hg ! (n div 2 ^ (lw + lh)))"
proof -
  let ?m = "2 ^ lw * 2 ^ lh :: nat" and ?P = "diag_order (2 ^ lw) (2 ^ lh)" and ?G = "diag_order Wg Hg"
  have m: "?m = 2 ^ (lw + lh)" by (simp add: power_add)
  have lenP: "length ?P = ?m" and lenG: "length ?G = Wg * Hg" using P G by (simp_all add: diagonal_def)
  have b: "n div ?m < Wg * Hg" "n mod ?m < ?m" using block_index [of n "Wg * Hg" ?m] n unfolding m by auto
  define g p where "g = ?G ! (n div ?m)" and "p = ?P ! (n mod ?m)"
  have "scan_grouped DIAG W H ! n = elem_at W (fst p + fst g * 2 ^ lw) (snd p + snd g * 2 ^ lh)"
    unfolding scan_grouped_concat [OF cg P G Wg Hg pos] using n b unfolding m [symmetric]
    by (subst nth_append) (simp add: length_concat comp_def case_prod_beta lenP lenG sum_list_triv nth_concat_map_blocks [where m = ?m] g_def p_def)
  moreover have "fst p < 2 ^ lw" "snd p < 2 ^ lh" using diagonal_nth [OF P b(2)] by (simp_all add: p_def)
  ultimately show "se_x (scan_grouped DIAG W H ! n) div 2 ^ lw = fst (?G ! (n div 2 ^ (lw + lh)))"
    "se_y (scan_grouped DIAG W H ! n) div 2 ^ lh = snd (?G ! (n div 2 ^ (lw + lh)))"
    unfolding m [symmetric] g_def [symmetric] by (simp_all add: elem_at_def)
qed

lemma floorLog2_tu: "floorLog2 (Suc 0) = 0" "floorLog2 2 = 1" "floorLog2 4 = 2" "floorLog2 8 = 3" "floorLog2 16 = 4" "floorLog2 32 = 5" "floorLog2 64 = 6"
  by (simp_all add: floorLog2.simps)

definition tb_size :: "nat \<Rightarrow> bool" where "tb_size n \<longleftrightarrow> n \<in> {1, 2, 4, 8, 16, 32, 64}"

lemma tb_groups:
  assumes "tb_size W" "tb_size H"
  shows "\<exists>lw lh Wg Hg. log2CG W H = (lw, lh) \<and> diagonal (2 ^ lw) (2 ^ lh) (diag_order (2 ^ lw) (2 ^ lh)) \<and>
      diagonal Wg Hg (diag_order Wg Hg) \<and> Wg = getNonzeroTuSize W div 2 ^ lw \<and> Wg * 2 ^ lw = getNonzeroTuSize W \<and>
      Hg = getNonzeroTuSize H div 2 ^ lh \<and> Hg * 2 ^ lh = getNonzeroTuSize H \<and> lw + lh \<le> 4"
  using assms diag_orders unfolding tb_size_def
  by (elim insertE emptyE) (simp_all add: log2CG_def floorLog2_tu g_log2TxSubblockSize_def getNonzeroTuSize_def)

lemma tb_size_pos: "tb_size W \<Longrightarrow> 0 < W"
  by (auto simp: tb_size_def)

lemma scan_grouped_ok_lemma:
  "tb_size W \<Longrightarrow> tb_size H \<Longrightarrow> scan_ok W H (getNonzeroTuSize W) (getNonzeroTuSize H) (scan_grouped DIAG W H)"
  using tb_groups scan_grouped_groups tb_size_pos by metis

text \<open>
  C10: For every transform block size the grouped diagonal scan visits each position of the coded region
  (at most 32 by 32) exactly once, so that the positions to the right of and below a position, which its
  context template reads, have larger scan positions; entries beyond the region hold the last sample.
\<close>

theorem scan_grouped_ok:
  assumes "tb_size W" "tb_size H"
  shows "scan_ok W H (getNonzeroTuSize W) (getNonzeroTuSize H) (scan_grouped DIAG W H)"
  using assms by (rule scan_grouped_ok_lemma)

theorem scan_grouped_ok_witness: "scan_ok 32 8 32 8 (scan_grouped DIAG 32 8)"
  using scan_grouped_ok [of 32 8] by (simp add: tb_size_def getNonzeroTuSize_def)

end
