(* ===== verification/CoeffCtx.thy ===== *)
theory CoeffCtx
  imports ScanOrder
begin

text \<open>
  \<open>CoeffCodingContext\<close> of \<open>CommonLib/ContextModelling.h\<close>: the state shared by the writer and the reader of
  transform coefficients and the derivation of contexts and Rice parameters from the neighbours already
  coded.  A coefficient buffer is a function from positions to levels.  Members the code sets before they are
  read start at zero.  \<open>deriveRiceRRC\<close>, a pointer to one of two member functions, is a flag.
\<close>

section \<open>Tables\<close>

definition g_riceThreshold :: "int list" where "g_riceThreshold = [32, 128, 512, 2048]"

definition g_riceShift :: "nat list" where "g_riceShift = [0, 2, 4, 6, 8]"

definition g_minInGroup :: "nat list" where
  "g_minInGroup = [0, 1, 2, 3, 4, 6, 8, 12, 16, 24, 32, 48, 64, 96]"

definition g_groupIdx :: "nat list" where
  "g_groupIdx = [0, 1, 2, 3, 4, 4, 5, 5, 6, 6, 6, 6, 7, 7, 7, 7,
                 8, 8, 8, 8, 8, 8, 8, 8, 9, 9, 9, 9, 9, 9, 9, 9,
                 10, 10, 10, 10, 10, 10, 10, 10, 10, 10, 10, 10, 10, 10, 10, 10,
                 11, 11, 11, 11, 11, 11, 11, 11, 11, 11, 11, 11, 11, 11, 11, 11]"

definition g_goRiceParsCoeff :: "nat list" where
  "g_goRiceParsCoeff = [0, 0, 0, 0, 0, 0, 0, 1, 1, 1, 1, 1, 1, 1, 2, 2,
                        2, 2, 2, 2, 2, 2, 2, 2, 2, 2, 2, 2, 3, 3, 3, 3]"

definition g_goRicePosCoeff0 :: "nat \<Rightarrow> nat \<Rightarrow> int" where
  "g_goRicePosCoeff0 st ricePar = push_bit ricePar (if st < 2 then 1 else 2)"

definition prefixCtx :: "nat list" where "prefixCtx = [0, 0, 0, 3, 6, 10, 15, 21]"

definition COEF_REMAIN_BIN_REDUCTION :: nat where "COEF_REMAIN_BIN_REDUCTION = 5"
definition SBH_THRESHOLD :: int where "SBH_THRESHOLD = 4"

section \<open>The coding context\<close>

record CoeffCodingContext =
  m_compID :: nat
  m_width :: nat
  m_height :: nat
  m_log2CGWidth :: nat
  m_log2CGHeight :: nat
  m_log2CGSize :: nat
  m_widthInGroups :: nat
  m_heightInGroups :: nat
  m_maxNumCoeff :: nat
  m_signHiding :: bool
  m_maxLog2TrDynamicRange :: nat
  m_scan :: "ScanElement list"
  m_scanCG :: "ScanElement list"
  m_maxLastPosX :: nat
  m_maxLastPosY :: nat
  m_lastOffsetX :: nat
  m_lastOffsetY :: nat
  m_lastShiftX :: nat
  m_lastShiftY :: nat
  m_scanPosLast :: nat
  m_subSetId :: nat
  m_subSetPos :: nat
  m_subSetPosX :: nat
  m_subSetPosY :: nat
  m_minSubPos :: nat
  m_maxSubPos :: nat
  m_sigGroupCtxId :: nat
  m_sigGroupCtxIdTS :: nat
  m_tmplCpSum1 :: int
  m_tmplCpDiag :: int
  m_remainingContextBins :: int
  m_sigCoeffGroupFlag :: "nat \<Rightarrow> bool"
  m_bdpcm :: bool
  m_riceExt :: bool
  regBinLimit :: int
  m_cctxBaseLevel :: int
  m_histValue :: int
  m_updateHist :: bool

abbreviation chType :: "CoeffCodingContext \<Rightarrow> nat" where
  "chType c \<equiv> (if m_compID c = 0 then 0 else 1)"

definition cctx_new :: "nat \<Rightarrow> nat \<Rightarrow> nat \<Rightarrow> bool \<Rightarrow> bool \<Rightarrow> nat \<Rightarrow> bool \<Rightarrow> CoeffCodingContext" where
  "cctx_new width height component signHide bdpcm maxLog2TrDynamicRange rrcRiceExtensionEnableFlag =
    (let (log2CGWidth, log2CGHeight) = log2CG width height;
         widthInGroups = getNonzeroTuSize width div 2 ^ log2CGWidth;
         heightInGroups = getNonzeroTuSize height div 2 ^ log2CGHeight;
         log2sizeX = nat (floorLog2 width);
         log2sizeY = nat (floorLog2 height);
         chroma = component \<noteq> 0
     in \<lparr>m_compID = component, m_width = width, m_height = height,
         m_log2CGWidth = log2CGWidth, m_log2CGHeight = log2CGHeight, m_log2CGSize = log2CGWidth + log2CGHeight,
         m_widthInGroups = widthInGroups, m_heightInGroups = heightInGroups,
         m_maxNumCoeff = width * height, m_signHiding = signHide,
         m_maxLog2TrDynamicRange = maxLog2TrDynamicRange,
         m_scan = scan_grouped DIAG width height, m_scanCG = scan_ungrouped DIAG widthInGroups heightInGroups,
         m_maxLastPosX = g_groupIdx ! (getNonzeroTuSize width - 1),
         m_maxLastPosY = g_groupIdx ! (getNonzeroTuSize height - 1),
         m_lastOffsetX = (if chroma then 0 else prefixCtx ! log2sizeX),
         m_lastOffsetY = (if chroma then 0 else prefixCtx ! log2sizeY),
         m_lastShiftX = (if chroma then nat (Clip3 0 2 (int (width div 8))) else (log2sizeX + 1) div 4),
         m_lastShiftY = (if chroma then nat (Clip3 0 2 (int (height div 8))) else (log2sizeY + 1) div 4),
         m_scanPosLast = 0, m_subSetId = 0, m_subSetPos = 0, m_subSetPosX = 0, m_subSetPosY = 0,
         m_minSubPos = 0, m_maxSubPos = 0, m_sigGroupCtxId = 0, m_sigGroupCtxIdTS = 0,
         m_tmplCpSum1 = - 1, m_tmplCpDiag = - 1, m_remainingContextBins = 0, m_sigCoeffGroupFlag = (\<lambda>_. False),
         m_bdpcm = bdpcm, m_riceExt = rrcRiceExtensionEnableFlag, regBinLimit = 0,
         m_cctxBaseLevel = 4, m_histValue = 0, m_updateHist = False\<rparr>)"

definition initSubblock :: "nat \<Rightarrow> bool \<Rightarrow> CoeffCodingContext \<Rightarrow> CoeffCodingContext" where
  "initSubblock SubsetId sigGroupFlag c =
    (let subSetPos = se_idx (m_scanCG c ! SubsetId);
         subSetPosY = subSetPos div m_widthInGroups c;
         subSetPosX = subSetPos - subSetPosY * m_widthInGroups c;
         minSubPos = SubsetId * 2 ^ m_log2CGSize c;
         maxSubPos = minSubPos + 2 ^ m_log2CGSize c - 1;
         flag = (if sigGroupFlag then (m_sigCoeffGroupFlag c)(subSetPos := True) else m_sigCoeffGroupFlag c);
         sigRight = (subSetPosX + 1 < m_widthInGroups c \<and> flag (subSetPos + 1));
         sigLower = (subSetPosY + 1 < m_heightInGroups c \<and> flag (subSetPos + m_widthInGroups c));
         sigLeft = (subSetPosX > 0 \<and> flag (subSetPos - 1));
         sigAbove = (subSetPosY > 0 \<and> flag (subSetPos - m_widthInGroups c))
     in c\<lparr>m_subSetId := SubsetId, m_subSetPos := subSetPos, m_subSetPosX := subSetPosX, m_subSetPosY := subSetPosY,
          m_minSubPos := minSubPos, m_maxSubPos := maxSubPos, m_sigCoeffGroupFlag := flag,
          m_sigGroupCtxId := ctx_at (SigCoeffGroup ! chType c) (if sigRight \<or> sigLower then 1 else 0),
          m_sigGroupCtxIdTS := ctx_at TsSigCoeffGroup (of_bool sigLeft + of_bool sigAbove)\<rparr>)"

definition setSigGroup :: "CoeffCodingContext \<Rightarrow> CoeffCodingContext" where
  "setSigGroup c = c\<lparr>m_sigCoeffGroupFlag := (m_sigCoeffGroupFlag c)(m_subSetPos c := True)\<rparr>"

definition isSigGroup :: "CoeffCodingContext \<Rightarrow> bool" where
  "isSigGroup c = m_sigCoeffGroupFlag c (m_subSetPos c)"

definition isLast :: "CoeffCodingContext \<Rightarrow> bool" where
  "isLast c \<longleftrightarrow> m_scanPosLast c div 2 ^ m_log2CGSize c = m_subSetId c"

definition isNotFirst :: "CoeffCodingContext \<Rightarrow> bool" where
  "isNotFirst c \<longleftrightarrow> m_subSetId c \<noteq> 0"

definition hideSign :: "CoeffCodingContext \<Rightarrow> int \<Rightarrow> int \<Rightarrow> bool" where
  "hideSign c posFirst posLast \<longleftrightarrow> m_signHiding c \<and> posLast - posFirst \<ge> SBH_THRESHOLD"

definition blockPos :: "CoeffCodingContext \<Rightarrow> nat \<Rightarrow> nat" where
  "blockPos c scanPos = se_idx (m_scan c ! scanPos)"

definition lastXCtxId :: "CoeffCodingContext \<Rightarrow> nat \<Rightarrow> nat" where
  "lastXCtxId c posLastX = ctx_at (LastX ! chType c) (m_lastOffsetX c + posLastX div 2 ^ m_lastShiftX c)"

definition lastYCtxId :: "CoeffCodingContext \<Rightarrow> nat \<Rightarrow> nat" where
  "lastYCtxId c posLastY = ctx_at (LastY ! chType c) (m_lastOffsetY c + posLastY div 2 ^ m_lastShiftY c)"

text \<open>The neighbours inside the block that \<open>sigCtxIdAbs\<close> reads, in its order.\<close>

definition template :: "CoeffCodingContext \<Rightarrow> nat \<Rightarrow> nat \<Rightarrow> nat list" where
  "template c posX posY =
    (let p = posX + posY * m_width c
     in (if posX < m_width c - 1 then
           [p + 1] @ (if posX < m_width c - 2 then [p + 2] else [])
             @ (if posY < m_height c - 1 then [p + m_width c + 1] else [])
         else [])
        @ (if posY < m_height c - 1 then
             [p + m_width c] @ (if posY < m_height c - 2 then [p + 2 * m_width c] else [])
           else []))"

definition sigCtxIdAbs :: "nat \<Rightarrow> (nat \<Rightarrow> int) \<Rightarrow> nat \<Rightarrow> CoeffCodingContext \<Rightarrow> nat \<times> CoeffCodingContext" where
  "sigCtxIdAbs scanPos coeff state c =
    (let posY = se_y (m_scan c ! scanPos); posX = se_x (m_scan c ! scanPos);
         diag = posX + posY;
         as = map (\<lambda>p. \<bar>coeff p\<bar>) (template c posX posY);
         sumAbs = sum_list (map (\<lambda>a. min (4 + a mod 2) a) as);
         numPos = sum_list (map (\<lambda>a. if a \<noteq> 0 then 1 else 0) as);
         ctxOfs = nat (min ((sumAbs + 1) div 2) 3) + (if diag < 2 then 4 else 0);
         ctxOfs = (if m_compID c = 0 then ctxOfs + (if diag < 5 then 4 else 0) else ctxOfs)
     in (ctx_at (SigFlag ! (chType c + 2 * (state - 1))) ctxOfs,
         c\<lparr>m_tmplCpDiag := int diag, m_tmplCpSum1 := sumAbs - numPos\<rparr>))"

definition ctxOffsetAbs :: "CoeffCodingContext \<Rightarrow> nat" where
  "ctxOffsetAbs c =
    (if m_tmplCpDiag c \<noteq> - 1 then
       nat (min (m_tmplCpSum1 c) 4 + 1 +
         (if m_tmplCpDiag c = 0 then (if m_compID c = 0 then 15 else 5)
          else if m_compID c = 0 then (if m_tmplCpDiag c < 3 then 10 else if m_tmplCpDiag c < 10 then 5 else 0)
          else 0))
     else 0)"

definition parityCtxIdAbs :: "CoeffCodingContext \<Rightarrow> nat \<Rightarrow> nat" where
  "parityCtxIdAbs c offset = ctx_at (ParFlag ! chType c) offset"

definition greater1CtxIdAbs :: "CoeffCodingContext \<Rightarrow> nat \<Rightarrow> nat" where
  "greater1CtxIdAbs c offset = ctx_at (GtxFlag ! (chType c + 2)) offset"

definition greater2CtxIdAbs :: "CoeffCodingContext \<Rightarrow> nat \<Rightarrow> nat" where
  "greater2CtxIdAbs c offset = ctx_at (GtxFlag ! chType c) offset"

text \<open>The sum over the five template positions, those outside the block counted with the history value.\<close>

definition templateSum :: "nat \<Rightarrow> (nat \<Rightarrow> int) \<Rightarrow> CoeffCodingContext \<Rightarrow> int" where
  "templateSum scanPos coeff c =
    (let posY = se_y (m_scan c ! scanPos); posX = se_x (m_scan c ! scanPos);
         W = m_width c; H = m_height c; p = posX + posY * W; h = m_histValue c
     in (if posX < W - 1 then
           \<bar>coeff (p + 1)\<bar> + (if posX < W - 2 then \<bar>coeff (p + 2)\<bar> else h)
             + (if posY < H - 1 then \<bar>coeff (p + W + 1)\<bar> else h)
         else 2 * h)
        + (if posY < H - 1 then
             \<bar>coeff (p + W)\<bar> + (if posY < H - 2 then \<bar>coeff (p + 2 * W)\<bar> else h)
           else h))"

definition templateAbsSum :: "nat \<Rightarrow> (nat \<Rightarrow> int) \<Rightarrow> int \<Rightarrow> CoeffCodingContext \<Rightarrow> nat" where
  "templateAbsSum scanPos coeff baseLevel c = nat (max (min (templateSum scanPos coeff c - 5 * baseLevel) 31) 0)"

definition updateRiceStat :: "int \<Rightarrow> int \<Rightarrow> bool \<Rightarrow> int" where
  "updateRiceStat riceStat rem remainderFlag =
    (if remainderFlag then (riceStat + floorLog2 (nat rem) + 2) div 2 else (riceStat + floorLog2 (nat rem)) div 2)"

definition templateAbsCompare :: "int \<Rightarrow> nat" where
  "templateAbsCompare s =
    (case find (\<lambda>i. s < g_riceThreshold ! i) [0..<length g_riceThreshold] of
       Some rangeIdx \<Rightarrow> g_riceShift ! rangeIdx | None \<Rightarrow> g_riceShift ! length g_riceThreshold)"

definition templateAbsSumExt :: "nat \<Rightarrow> (nat \<Rightarrow> int) \<Rightarrow> int \<Rightarrow> CoeffCodingContext \<Rightarrow> nat" where
  "templateAbsSumExt scanPos coeff baseLevel c =
    (let s = templateSum scanPos coeff c;
         currentShift = templateAbsCompare s;
         s = s div 2 ^ currentShift;
         riceParam = nat (if baseLevel = 0 then min s 31 else max (min (s - baseLevel) 31) 0)
     in g_goRiceParsCoeff ! riceParam + currentShift)"

definition deriveRice :: "nat \<Rightarrow> (nat \<Rightarrow> int) \<Rightarrow> int \<Rightarrow> CoeffCodingContext \<Rightarrow> nat" where
  "deriveRice scanPos coeff baseLevel c = g_goRiceParsCoeff ! templateAbsSum scanPos coeff baseLevel c"

definition deriveRiceRRC :: "nat \<Rightarrow> (nat \<Rightarrow> int) \<Rightarrow> int \<Rightarrow> CoeffCodingContext \<Rightarrow> nat" where
  "deriveRiceRRC scanPos coeff baseLevel c =
    (if m_riceExt c then templateAbsSumExt scanPos coeff baseLevel c else deriveRice scanPos coeff baseLevel c)"

end
