(* ===== verification/CuCtx.thy ===== *)
theory CuCtx
  imports Prelude
begin

text \<open>The state the syntax of a coding unit shares between its parts (\<open>CUCtx\<close> of \<open>ContextModelling.h\<close>).\<close>

record CUCtx =
  isDQPCoded :: bool
  isChromaQpAdjCoded :: bool
  qgStart :: bool
  lfnstLastScanPos :: bool
  cuctx_qp :: int
  violatesLfnstConstrained :: "bool \<times> bool"
  violatesMtsCoeffConstraint :: bool
  mtsLastScanPos :: bool

end
