(* ===== verification/Residual.thy ===== *)
theory Residual
  imports CoeffCtx Cabac CuCtx
begin

text \<open>
  Transform coefficient coding: \<open>residual_coding\<close>, \<open>last_sig_coeff\<close> and \<open>residual_coding_subblock\<close> of
  \<open>EncoderLib/CABACWriter.cpp\<close> and \<open>DecoderLib/CABACReader.cpp\<close>, for blocks not coded in transform-skip
  mode, and the proof that the reader recovers the coefficients.  The three passes over a subblock and their
  locals are records; a loop counting down to a bound is a recursion on the number of positions left.  The
  Rice statistics of the component, a member of the coder's contexts, are threaded beside the engine.  Trace
  output and the slice counter that only steers the encoder's choice of the reversed position are left out.
\<close>

section \<open>The last position\<close>

record ResidualCfg =
  t_width :: nat
  t_height :: nat
  t_compID :: nat
  t_mtsSkip :: bool
  t_sbt :: bool
  t_mtsEnabled :: bool
  t_signHiding :: bool
  t_depQuant :: bool
  t_reverseLast :: bool
  t_rrcRice :: bool
  t_persistentRice :: bool
  t_maxLog2 :: nat
  t_baseLevel :: int

text \<open>The high-frequency zeroing of sub-block transforms.\<close>

definition sbtZeroOut :: "ResidualCfg \<Rightarrow> bool" where
  "sbtZeroOut t \<longleftrightarrow> t_mtsEnabled t \<and> t_sbt t \<and> t_width t \<le> 32 \<and> t_height t \<le> 32 \<and> t_compID t = 0"

definition zoTbWidth :: "ResidualCfg \<Rightarrow> nat" where
  "zoTbWidth t = (if sbtZeroOut t \<and> t_width t = 32 then 16 else getNonzeroTuSize (t_width t))"

definition zoTbHeight :: "ResidualCfg \<Rightarrow> nat" where
  "zoTbHeight t = (if sbtZeroOut t \<and> t_height t = 32 then 16 else getNonzeroTuSize (t_height t))"

definition maxLastX :: "ResidualCfg \<Rightarrow> CoeffCodingContext \<Rightarrow> nat" where
  "maxLastX t c = (if sbtZeroOut t \<and> t_width t = 32 then g_groupIdx ! 15 else m_maxLastPosX c)"

definition maxLastY :: "ResidualCfg \<Rightarrow> CoeffCodingContext \<Rightarrow> nat" where
  "maxLastY t c = (if sbtZeroOut t \<and> t_height t = 32 then g_groupIdx ! 15 else m_maxLastPosY c)"

fun put_ones :: "'p BinProbModel \<Rightarrow> (nat \<Rightarrow> nat) \<Rightarrow> nat \<Rightarrow> nat \<Rightarrow> 'p BinEncoder \<Rightarrow> 'p BinEncoder option" where
  "put_ones pm ctxId 0 ctxLast e = Some e"
| "put_ones pm ctxId (Suc n) ctxLast e = do { e \<leftarrow> encodeBin pm 1 (ctxId ctxLast) e; put_ones pm ctxId n (ctxLast + 1) e }"

definition put_last_prefix :: "'p BinProbModel \<Rightarrow> (nat \<Rightarrow> nat) \<Rightarrow> nat \<Rightarrow> nat \<Rightarrow> 'p BinEncoder \<Rightarrow> 'p BinEncoder option" where
  "put_last_prefix pm ctxId groupIdx maxLastPos e = do {
     e \<leftarrow> put_ones pm ctxId groupIdx 0 e;
     if groupIdx < maxLastPos then encodeBin pm 0 (ctxId groupIdx) e else Some e
   }"

fun put_bits_EP :: "nat \<Rightarrow> int \<Rightarrow> 'p BinEncoder \<Rightarrow> 'p BinEncoder option" where
  "put_bits_EP 0 pos e = Some e"
| "put_bits_EP (Suc i) pos e = do { e \<leftarrow> encodeBinEP (pos div 2 ^ i mod 2) e; put_bits_EP i pos e }"

definition put_last_suffix :: "nat \<Rightarrow> nat \<Rightarrow> 'p BinEncoder \<Rightarrow> 'p BinEncoder option" where
  "put_last_suffix groupIdx pos e =
    (if groupIdx > 3 then put_bits_EP ((groupIdx - 2) div 2) (int (pos - g_minInGroup ! groupIdx)) e else Some e)"

definition put_last_sig_coeff :: "'p BinProbModel \<Rightarrow> ResidualCfg \<Rightarrow> CoeffCodingContext \<Rightarrow> 'p BinEncoder \<Rightarrow> 'p BinEncoder option" where
  "put_last_sig_coeff pm t c e =
    (let blkPos = blockPos c (m_scanPosLast c);
         posY = blkPos div m_width c;
         posX = blkPos - posY * m_width c;
         posX = (if t_reverseLast t then zoTbWidth t - 1 - posX else posX);
         posY = (if t_reverseLast t then zoTbHeight t - 1 - posY else posY);
         groupIdxX = g_groupIdx ! posX;
         groupIdxY = g_groupIdx ! posY
     in do {
          e \<leftarrow> put_last_prefix pm (lastXCtxId c) groupIdxX (maxLastX t c) e;
          e \<leftarrow> put_last_prefix pm (lastYCtxId c) groupIdxY (maxLastY t c) e;
          e \<leftarrow> put_last_suffix groupIdxX posX e;
          put_last_suffix groupIdxY posY e
        })"

function get_last_prefix :: "'p BinProbModel \<Rightarrow> (nat \<Rightarrow> nat) \<Rightarrow> nat \<Rightarrow> nat \<Rightarrow> 'p BinDecoder \<Rightarrow> (nat \<times> 'p BinDecoder) option" where
  "get_last_prefix pm ctxId posLast maxLastPos d =
    (if posLast < maxLastPos then do {
       (bin, d) \<leftarrow> decodeBin pm (ctxId posLast) d;
       if bin = 0 then Some (posLast, d) else get_last_prefix pm ctxId (posLast + 1) maxLastPos d
     } else Some (posLast, d))"
  by pat_completeness auto
termination by (relation "measure (\<lambda>(pm, ctxId, posLast, maxLastPos, d). maxLastPos - posLast)") auto

declare get_last_prefix.simps [simp del]

fun get_bits_EP :: "nat \<Rightarrow> int \<Rightarrow> 'p BinDecoder \<Rightarrow> (int \<times> 'p BinDecoder) option" where
  "get_bits_EP 0 temp d = Some (temp, d)"
| "get_bits_EP (Suc i) temp d = do { (bin, d) \<leftarrow> decodeBinEP d; get_bits_EP i (temp + bin * 2 ^ i) d }"

definition get_last_suffix :: "nat \<Rightarrow> 'p BinDecoder \<Rightarrow> (nat \<times> 'p BinDecoder) option" where
  "get_last_suffix posLast d =
    (if posLast > 3 then do {
       (temp, d) \<leftarrow> get_bits_EP ((posLast - 2) div 2) 0 d;
       Some (g_minInGroup ! posLast + nat temp, d)
     } else Some (posLast, d))"

text \<open>The search for the scan position stops at the last one.\<close>

fun find_scanPos :: "CoeffCodingContext \<Rightarrow> nat \<Rightarrow> nat \<Rightarrow> nat \<Rightarrow> nat" where
  "find_scanPos c blkPos scanPos 0 = scanPos"
| "find_scanPos c blkPos scanPos (Suc n) =
    (if blkPos = blockPos c scanPos then scanPos else find_scanPos c blkPos (scanPos + 1) n)"

definition get_last_sig_coeff :: "'p BinProbModel \<Rightarrow> ResidualCfg \<Rightarrow> CoeffCodingContext \<Rightarrow> 'p BinDecoder \<Rightarrow> (nat \<times> 'p BinDecoder) option" where
  "get_last_sig_coeff pm t c d = do {
     (PosLastX, d) \<leftarrow> get_last_prefix pm (lastXCtxId c) 0 (maxLastX t c) d;
     (PosLastY, d) \<leftarrow> get_last_prefix pm (lastYCtxId c) 0 (maxLastY t c) d;
     (PosLastX, d) \<leftarrow> get_last_suffix PosLastX d;
     (PosLastY, d) \<leftarrow> get_last_suffix PosLastY d;
     let PosLastX = (if t_reverseLast t then zoTbWidth t - 1 - PosLastX else PosLastX);
     let PosLastY = (if t_reverseLast t then zoTbHeight t - 1 - PosLastY else PosLastY);
     Some (find_scanPos c (PosLastX + PosLastY * m_width c) 0 (m_maxNumCoeff c - 1), d)
   }"

section \<open>A subblock\<close>

definition nextState :: "nat \<Rightarrow> nat \<Rightarrow> int \<Rightarrow> nat" where
  "nextState stateTransTable state level = stateTransTable div 2 ^ (4 * state + 2 * nat (level mod 2)) mod 4"

subsection \<open>Writer\<close>

record WriteState =
  w_cctx :: CoeffCodingContext
  w_state :: nat
  w_numNonZero :: nat
  w_firstNZPos :: int
  w_lastNZPos :: int
  w_signPattern :: int
  w_remRegBins :: int
  w_firstPos2ndPass :: int
  w_riceStats :: int
  w_updateHistory :: bool

definition write_greater :: "'p BinProbModel \<Rightarrow> nat \<Rightarrow> int \<Rightarrow> WriteState \<Rightarrow> 'p BinEncoder \<Rightarrow> (WriteState \<times> 'p BinEncoder) option" where
  "write_greater pm nextSigPos level w e =
    (let c = w_cctx w;
         ctxOff = ctxOffsetAbs c;
         absLevel = \<bar>level\<bar>;
         signPattern = (if nextSigPos \<noteq> m_scanPosLast c then 2 * w_signPattern w else w_signPattern w);
         w = w\<lparr>w_numNonZero := w_numNonZero w + 1, w_firstNZPos := int nextSigPos,
               w_lastNZPos := max (w_lastNZPos w) (int nextSigPos),
               w_signPattern := (if level < 0 then signPattern + 1 else signPattern)\<rparr>
     in do {
          e \<leftarrow> encodeBin pm (of_bool (absLevel > 1)) (greater1CtxIdAbs c ctxOff) e;
          if absLevel > 1 then do {
            e \<leftarrow> encodeBin pm (absLevel mod 2) (parityCtxIdAbs c ctxOff) e;
            e \<leftarrow> encodeBin pm (of_bool (absLevel > 3)) (greater2CtxIdAbs c ctxOff) e;
            Some (w\<lparr>w_remRegBins := w_remRegBins w - 3,
                    w_firstPos2ndPass := (if absLevel > 3 then max (w_firstPos2ndPass w) (int nextSigPos)
                                          else w_firstPos2ndPass w)\<rparr>, e)
          } else Some (w\<lparr>w_remRegBins := w_remRegBins w - 1\<rparr>, e)
        })"

definition write_sig ::
  "'p BinProbModel \<Rightarrow> (nat \<Rightarrow> int) \<Rightarrow> int \<Rightarrow> nat \<Rightarrow> WriteState \<Rightarrow> 'p BinEncoder \<Rightarrow> (WriteState \<times> 'p BinEncoder) option" where
  "write_sig pm coeff inferSigPos nextSigPos w e =
    (let level = coeff (blockPos (w_cctx w) nextSigPos);
         (sigCtxId, c) = sigCtxIdAbs nextSigPos coeff (w_state w) (w_cctx w)
     in if w_numNonZero w \<noteq> 0 \<or> int nextSigPos \<noteq> inferSigPos then do {
          e \<leftarrow> encodeBin pm (of_bool (level \<noteq> 0)) sigCtxId e;
          Some (w\<lparr>w_cctx := c, w_remRegBins := w_remRegBins w - 1\<rparr>, e)
        } else if nextSigPos \<noteq> m_scanPosLast (w_cctx w) then Some (w\<lparr>w_cctx := c\<rparr>, e)
        else Some (w, e))"

definition write_level ::
  "'p BinProbModel \<Rightarrow> (nat \<Rightarrow> int) \<Rightarrow> nat \<Rightarrow> int \<Rightarrow> nat \<Rightarrow> WriteState \<Rightarrow> 'p BinEncoder \<Rightarrow> (WriteState \<times> 'p BinEncoder) option" where
  "write_level pm coeff stateTransTable inferSigPos nextSigPos w e =
    (let level = coeff (blockPos (w_cctx w) nextSigPos)
     in do {
          (w, e) \<leftarrow> write_sig pm coeff inferSigPos nextSigPos w e;
          (w, e) \<leftarrow> (if level \<noteq> 0 then write_greater pm nextSigPos level w e else Some (w, e));
          Some (w\<lparr>w_state := nextState stateTransTable (w_state w) level\<rparr>, e)
        })"

text \<open>The first pass, with \<open>n\<close> positions from \<open>minSubPos\<close> on left; it gives the number it did not reach.\<close>

fun write_levels ::
  "'p BinProbModel \<Rightarrow> (nat \<Rightarrow> int) \<Rightarrow> nat \<Rightarrow> int \<Rightarrow> nat \<Rightarrow> nat \<Rightarrow> WriteState \<Rightarrow> 'p BinEncoder \<Rightarrow>
    ((nat \<times> WriteState) \<times> 'p BinEncoder) option" where
  "write_levels pm coeff stateTransTable inferSigPos minSubPos 0 w e = Some ((0, w), e)"
| "write_levels pm coeff stateTransTable inferSigPos minSubPos (Suc n) w e =
    (if w_remRegBins w \<ge> 4 then do {
       (w, e) \<leftarrow> write_level pm coeff stateTransTable inferSigPos (minSubPos + n) w e;
       write_levels pm coeff stateTransTable inferSigPos minSubPos n w e
     } else Some ((Suc n, w), e))"

definition write_updateRice :: "int \<Rightarrow> bool \<Rightarrow> WriteState \<Rightarrow> WriteState" where
  "write_updateRice rem remainderFlag w =
    (if w_updateHistory w \<and> rem > 0 then
       w\<lparr>w_riceStats := updateRiceStat (w_riceStats w) rem remainderFlag,
         w_cctx := (w_cctx w)\<lparr>m_updateHist := False\<rparr>, w_updateHistory := False\<rparr>
     else w)"

text \<open>The second pass over the \<open>k\<close> positions from \<open>base\<close> on.\<close>

fun write_remainders ::
  "(nat \<Rightarrow> int) \<Rightarrow> int \<Rightarrow> nat \<Rightarrow> nat \<Rightarrow> WriteState \<Rightarrow> 'p BinEncoder \<Rightarrow> (WriteState \<times> 'p BinEncoder) option" where
  "write_remainders coeff baseLevel base 0 w e = Some (w, e)"
| "write_remainders coeff baseLevel base (Suc k) w e =
    (let scanPos = base + k;
         absLevel = \<bar>coeff (blockPos (w_cctx w) scanPos)\<bar>
     in if absLevel \<ge> 4 then
          (let ricePar = deriveRiceRRC scanPos coeff baseLevel (w_cctx w);
               rem = (absLevel - 4) div 2
           in do {
                e \<leftarrow> encodeRemAbsEP rem ricePar COEF_REMAIN_BIN_REDUCTION (m_maxLog2TrDynamicRange (w_cctx w)) e;
                write_remainders coeff baseLevel base k (write_updateRice rem True w) e
              })
        else write_remainders coeff baseLevel base k w e)"

fun write_bypass ::
  "(nat \<Rightarrow> int) \<Rightarrow> nat \<Rightarrow> nat \<Rightarrow> nat \<Rightarrow> WriteState \<Rightarrow> 'p BinEncoder \<Rightarrow> (WriteState \<times> 'p BinEncoder) option" where
  "write_bypass coeff stateTransTable minSubPos 0 w e = Some (w, e)"
| "write_bypass coeff stateTransTable minSubPos (Suc n) w e =
    (let scanPos = minSubPos + n;
         coeffVal = coeff (blockPos (w_cctx w) scanPos);
         absLevel = \<bar>coeffVal\<bar>;
         rice = deriveRiceRRC scanPos coeff 0 (w_cctx w);
         pos0 = g_goRicePosCoeff0 (w_state w) rice;
         rem = (if absLevel = 0 then pos0 else if absLevel \<le> pos0 then absLevel - 1 else absLevel)
     in do {
          e \<leftarrow> encodeRemAbsEP rem rice COEF_REMAIN_BIN_REDUCTION (m_maxLog2TrDynamicRange (w_cctx w)) e;
          let w = write_updateRice rem False (w\<lparr>w_state := nextState stateTransTable (w_state w) absLevel\<rparr>);
          let w = (if absLevel \<noteq> 0 then
                     w\<lparr>w_numNonZero := w_numNonZero w + 1, w_firstNZPos := int scanPos,
                       w_lastNZPos := max (w_lastNZPos w) (int scanPos),
                       w_signPattern := (if coeffVal < 0 then 2 * w_signPattern w + 1 else 2 * w_signPattern w)\<rparr>
                   else w);
          write_bypass coeff stateTransTable minSubPos n w e
        })"

definition write_signs :: "WriteState \<Rightarrow> 'p BinEncoder \<Rightarrow> 'p BinEncoder option" where
  "write_signs w e =
    (if hideSign (w_cctx w) (w_firstNZPos w) (w_lastNZPos w)
     then encodeBinsEP (w_signPattern w div 2) (w_numNonZero w - 1) e
     else encodeBinsEP (w_signPattern w) (w_numNonZero w) e)"

definition put_subblock_levels ::
  "'p BinProbModel \<Rightarrow> (nat \<Rightarrow> int) \<Rightarrow> nat \<Rightarrow> nat \<Rightarrow> int \<Rightarrow> CoeffCodingContext \<Rightarrow> 'p BinEncoder \<Rightarrow>
    ((CoeffCodingContext \<times> nat \<times> int) \<times> 'p BinEncoder) option" where
  "put_subblock_levels pm coeff stateTransTable state riceStats c e =
    (let minSubPos = m_minSubPos c;
         firstSigPos = (if isLast c then m_scanPosLast c else m_maxSubPos c);
         inferSigPos = (if firstSigPos \<noteq> m_scanPosLast c then (if isNotFirst c then int minSubPos else - 1) else int firstSigPos);
         w = \<lparr>w_cctx = c, w_state = state, w_numNonZero = 0, w_firstNZPos = int firstSigPos, w_lastNZPos = - 1,
              w_signPattern = 0, w_remRegBins = regBinLimit c, w_firstPos2ndPass = int minSubPos - 1,
              w_riceStats = riceStats, w_updateHistory = m_updateHist c\<rparr>
     in do {
          ((left, w), e) \<leftarrow> write_levels pm coeff stateTransTable inferSigPos minSubPos (firstSigPos + 1 - minSubPos) w e;
          let w = w\<lparr>w_cctx := (w_cctx w)\<lparr>regBinLimit := w_remRegBins w\<rparr>\<rparr>;
          (w, e) \<leftarrow> write_remainders coeff (m_cctxBaseLevel c) (minSubPos + left)
                      (nat (w_firstPos2ndPass w + 1 - int (minSubPos + left))) w e;
          (w, e) \<leftarrow> write_bypass coeff stateTransTable minSubPos left w e;
          e \<leftarrow> write_signs w e;
          Some ((w_cctx w, w_state w, w_riceStats w), e)
        })"

definition put_subblock ::
  "'p BinProbModel \<Rightarrow> (nat \<Rightarrow> int) \<Rightarrow> nat \<Rightarrow> nat \<Rightarrow> int \<Rightarrow> CoeffCodingContext \<Rightarrow> 'p BinEncoder \<Rightarrow>
    ((CoeffCodingContext \<times> nat \<times> int) \<times> 'p BinEncoder) option" where
  "put_subblock pm coeff stateTransTable state riceStats c e =
    (if \<not> isLast c \<and> isNotFirst c then
       (if isSigGroup c then do {
          e \<leftarrow> encodeBin pm 1 (m_sigGroupCtxId c) e;
          put_subblock_levels pm coeff stateTransTable state riceStats c e
        } else do {
          e \<leftarrow> encodeBin pm 0 (m_sigGroupCtxId c) e;
          Some ((c, state, riceStats), e)
        })
     else put_subblock_levels pm coeff stateTransTable state riceStats c e)"

subsection \<open>Reader\<close>

text \<open>The array of significant positions is a list, whose length is the number of them.\<close>

record ReadState =
  r_cctx :: CoeffCodingContext
  r_coeff :: "nat \<Rightarrow> int"
  r_state :: nat
  r_sigBlkPos :: "nat list"
  r_firstNZPos :: int
  r_lastNZPos :: int
  r_remRegBins :: int
  r_riceStats :: int
  r_updateHistory :: bool

abbreviation r_numNonZero :: "ReadState \<Rightarrow> nat" where
  "r_numNonZero r \<equiv> length (r_sigBlkPos r)"

definition read_greater :: "'p BinProbModel \<Rightarrow> nat \<Rightarrow> ReadState \<Rightarrow> 'p BinDecoder \<Rightarrow> (ReadState \<times> 'p BinDecoder) option" where
  "read_greater pm nextSigPos r d =
    (let c = r_cctx r;
         blkPos = blockPos c nextSigPos;
         ctxOff = ctxOffsetAbs c;
         r = r\<lparr>r_sigBlkPos := r_sigBlkPos r @ [blkPos], r_firstNZPos := int nextSigPos,
               r_lastNZPos := max (r_lastNZPos r) (int nextSigPos)\<rparr>
     in do {
          (gt1Flag, d) \<leftarrow> decodeBin pm (greater1CtxIdAbs c ctxOff) d;
          if gt1Flag \<noteq> 0 then do {
            (parFlag, d) \<leftarrow> decodeBin pm (parityCtxIdAbs c ctxOff) d;
            (gt2Flag, d) \<leftarrow> decodeBin pm (greater2CtxIdAbs c ctxOff) d;
            Some (r\<lparr>r_remRegBins := r_remRegBins r - 3,
                    r_coeff := (r_coeff r)(blkPos := r_coeff r blkPos + (1 + parFlag + gt1Flag + 2 * gt2Flag))\<rparr>, d)
          } else Some (r\<lparr>r_remRegBins := r_remRegBins r - 1, r_coeff := (r_coeff r)(blkPos := r_coeff r blkPos + 1)\<rparr>, d)
        })"

definition read_sig ::
  "'p BinProbModel \<Rightarrow> int \<Rightarrow> nat \<Rightarrow> ReadState \<Rightarrow> 'p BinDecoder \<Rightarrow> ((bool \<times> ReadState) \<times> 'p BinDecoder) option" where
  "read_sig pm inferSigPos nextSigPos r d =
    (let (sigCtxId, c) = sigCtxIdAbs nextSigPos (r_coeff r) (r_state r) (r_cctx r)
     in if \<not> (r_numNonZero r = 0 \<and> int nextSigPos = inferSigPos) then do {
          (bin, d) \<leftarrow> decodeBin pm sigCtxId d;
          Some ((bin \<noteq> 0, r\<lparr>r_cctx := c, r_remRegBins := r_remRegBins r - 1\<rparr>), d)
        } else if nextSigPos \<noteq> m_scanPosLast (r_cctx r) then Some ((True, r\<lparr>r_cctx := c\<rparr>), d)
        else Some ((True, r), d))"

definition read_level ::
  "'p BinProbModel \<Rightarrow> nat \<Rightarrow> int \<Rightarrow> nat \<Rightarrow> ReadState \<Rightarrow> 'p BinDecoder \<Rightarrow> (ReadState \<times> 'p BinDecoder) option" where
  "read_level pm stateTransTable inferSigPos nextSigPos r d =
    (let blkPos = blockPos (r_cctx r) nextSigPos
     in do {
          ((sigFlag, r), d) \<leftarrow> read_sig pm inferSigPos nextSigPos r d;
          (r, d) \<leftarrow> (if sigFlag then read_greater pm nextSigPos r d else Some (r, d));
          Some (r\<lparr>r_state := nextState stateTransTable (r_state r) (r_coeff r blkPos)\<rparr>, d)
        })"

fun read_levels ::
  "'p BinProbModel \<Rightarrow> nat \<Rightarrow> int \<Rightarrow> nat \<Rightarrow> nat \<Rightarrow> ReadState \<Rightarrow> 'p BinDecoder \<Rightarrow> ((nat \<times> ReadState) \<times> 'p BinDecoder) option" where
  "read_levels pm stateTransTable inferSigPos minSubPos 0 r d = Some ((0, r), d)"
| "read_levels pm stateTransTable inferSigPos minSubPos (Suc n) r d =
    (if r_remRegBins r \<ge> 4 then do {
       (r, d) \<leftarrow> read_level pm stateTransTable inferSigPos (minSubPos + n) r d;
       read_levels pm stateTransTable inferSigPos minSubPos n r d
     } else Some ((Suc n, r), d))"

definition read_updateRice :: "int \<Rightarrow> bool \<Rightarrow> ReadState \<Rightarrow> ReadState" where
  "read_updateRice rem remainderFlag r =
    (if r_updateHistory r \<and> rem > 0 then
       r\<lparr>r_riceStats := updateRiceStat (r_riceStats r) rem remainderFlag,
         r_cctx := (r_cctx r)\<lparr>m_updateHist := False\<rparr>, r_updateHistory := False\<rparr>
     else r)"

fun read_remainders :: "int \<Rightarrow> nat \<Rightarrow> nat \<Rightarrow> ReadState \<Rightarrow> 'p BinDecoder \<Rightarrow> (ReadState \<times> 'p BinDecoder) option" where
  "read_remainders baseLevel base 0 r d = Some (r, d)"
| "read_remainders baseLevel base (Suc k) r d =
    (let scanPos = base + k;
         blkPos = blockPos (r_cctx r) scanPos
     in if r_coeff r blkPos \<ge> 4 then
          (let ricePar = deriveRiceRRC scanPos (r_coeff r) baseLevel (r_cctx r)
           in do {
                (rem, d) \<leftarrow> decodeRemAbsEP ricePar COEF_REMAIN_BIN_REDUCTION (m_maxLog2TrDynamicRange (r_cctx r)) d;
                read_remainders baseLevel base k
                  (read_updateRice rem True (r\<lparr>r_coeff := (r_coeff r)(blkPos := r_coeff r blkPos + 2 * rem)\<rparr>)) d
              })
        else read_remainders baseLevel base k r d)"

fun read_bypass :: "nat \<Rightarrow> nat \<Rightarrow> nat \<Rightarrow> ReadState \<Rightarrow> 'p BinDecoder \<Rightarrow> (ReadState \<times> 'p BinDecoder) option" where
  "read_bypass stateTransTable minSubPos 0 r d = Some (r, d)"
| "read_bypass stateTransTable minSubPos (Suc n) r d =
    (let scanPos = minSubPos + n;
         rice = deriveRiceRRC scanPos (r_coeff r) 0 (r_cctx r);
         pos0 = g_goRicePosCoeff0 (r_state r) rice
     in do {
          (rem, d) \<leftarrow> decodeRemAbsEP rice COEF_REMAIN_BIN_REDUCTION (m_maxLog2TrDynamicRange (r_cctx r)) d;
          let tcoeff = (if rem = pos0 then 0 else if rem < pos0 then rem + 1 else rem);
          let r = read_updateRice rem False (r\<lparr>r_state := nextState stateTransTable (r_state r) tcoeff\<rparr>);
          let blkPos = blockPos (r_cctx r) scanPos;
          let r = (if tcoeff \<noteq> 0 then
                     r\<lparr>r_sigBlkPos := r_sigBlkPos r @ [blkPos], r_firstNZPos := int scanPos,
                       r_lastNZPos := max (r_lastNZPos r) (int scanPos), r_coeff := (r_coeff r)(blkPos := tcoeff)\<rparr>
                   else r);
          read_bypass stateTransTable minSubPos n r d
        })"

definition checkCoeffInRange :: "CoeffCodingContext \<Rightarrow> int \<Rightarrow> unit option" where
  "checkCoeffInRange c coeff =
    check (coeff < - (2 ^ m_maxLog2TrDynamicRange c) \<or> coeff > 2 ^ m_maxLog2TrDynamicRange c - 1)"

text \<open>The sign bits are consumed from the top of a 32-bit register.\<close>

fun set_signs :: "CoeffCodingContext \<Rightarrow> nat list \<Rightarrow> int \<Rightarrow> int \<Rightarrow> (nat \<Rightarrow> int) \<Rightarrow> (int \<times> (nat \<Rightarrow> int)) option" where
  "set_signs c [] signPattern sumAbs coeff = Some (sumAbs, coeff)"
| "set_signs c (blkPos # ps) signPattern sumAbs coeff =
    (let AbsCoeff = coeff blkPos;
         v = (if signPattern div 2 ^ 31 mod 2 \<noteq> 0 then - AbsCoeff else AbsCoeff)
     in do {
          _ \<leftarrow> checkCoeffInRange c v;
          set_signs c ps (u32 (2 * signPattern)) (sumAbs + AbsCoeff) (coeff(blkPos := v))
        })"

definition read_signs :: "ReadState \<Rightarrow> 'p BinDecoder \<Rightarrow> (ReadState \<times> 'p BinDecoder) option" where
  "read_signs r d =
    (let c = r_cctx r;
         numSigns = (if hideSign c (r_firstNZPos r) (r_lastNZPos r) then r_numNonZero r - 1 else r_numNonZero r)
     in do {
          (signPattern, d) \<leftarrow>
            (if numSigns > 0 then do {
               (bins, d) \<leftarrow> decodeBinsEP numSigns d;
               Some (u32 (push_bit (32 - numSigns) bins), d)
             } else Some (0, d));
          (sumAbs, coeff) \<leftarrow> set_signs c (take numSigns (r_sigBlkPos r)) signPattern 0 (r_coeff r);
          if r_numNonZero r > numSigns then
            (let blkPos = r_sigBlkPos r ! numSigns;
                 AbsCoeff = coeff blkPos;
                 v = (if (sumAbs + AbsCoeff) mod 2 \<noteq> 0 then - AbsCoeff else AbsCoeff)
             in do {
                  _ \<leftarrow> checkCoeffInRange c v;
                  Some (r\<lparr>r_coeff := coeff(blkPos := v)\<rparr>, d)
                })
          else Some (r\<lparr>r_coeff := coeff\<rparr>, d)
        })"

definition get_subblock ::
  "'p BinProbModel \<Rightarrow> nat \<Rightarrow> nat \<Rightarrow> int \<Rightarrow> CoeffCodingContext \<Rightarrow> (nat \<Rightarrow> int) \<Rightarrow> 'p BinDecoder \<Rightarrow>
    ((CoeffCodingContext \<times> nat \<times> int \<times> (nat \<Rightarrow> int)) \<times> 'p BinDecoder) option" where
  "get_subblock pm stateTransTable state riceStats c coeff d =
    (let minSubPos = m_minSubPos c;
         firstSigPos = (if isLast c then m_scanPosLast c else m_maxSubPos c)
     in do {
          (sigGroup, d) \<leftarrow>
            (if isLast c \<or> minSubPos = 0 then Some (True, d)
             else do { (bin, d) \<leftarrow> decodeBin pm (m_sigGroupCtxId c) d; Some (bin \<noteq> 0, d) });
          if \<not> sigGroup then Some ((c, state, riceStats, coeff), d)
          else
            (let c = setSigGroup c;
                 inferSigPos = (if firstSigPos \<noteq> m_scanPosLast c then (if isNotFirst c then int minSubPos else - 1)
                                else int firstSigPos);
                 r = \<lparr>r_cctx = c, r_coeff = coeff, r_state = state, r_sigBlkPos = [], r_firstNZPos = int firstSigPos,
                      r_lastNZPos = - 1, r_remRegBins = regBinLimit c, r_riceStats = riceStats,
                      r_updateHistory = m_updateHist c\<rparr>
             in do {
                  ((left, r), d) \<leftarrow> read_levels pm stateTransTable inferSigPos minSubPos (firstSigPos + 1 - minSubPos) r d;
                  let r = r\<lparr>r_cctx := (r_cctx r)\<lparr>regBinLimit := r_remRegBins r\<rparr>\<rparr>;
                  (r, d) \<leftarrow> read_remainders (m_cctxBaseLevel c) (minSubPos + left) (firstSigPos + 1 - (minSubPos + left)) r d;
                  (r, d) \<leftarrow> read_bypass stateTransTable minSubPos left r d;
                  (r, d) \<leftarrow> read_signs r d;
                  Some ((r_cctx r, r_state r, r_riceStats r, r_coeff r), d)
                })
        })"

section \<open>A block\<close>

text \<open>What the last position means for the secondary transform and the transform selection.\<close>

definition noteLastPos :: "ResidualCfg \<Rightarrow> nat \<Rightarrow> CUCtx \<Rightarrow> CUCtx" where
  "noteLastPos t scanPosLast cu =
    (let maxLfnstPos = (if t_height t = 4 \<and> t_width t = 4 \<or> t_height t = 8 \<and> t_width t = 8 then 7 else 15);
         big = (\<not> t_mtsSkip t \<and> t_height t \<ge> 4 \<and> t_width t \<ge> 4);
         viol = (big \<and> scanPosLast > maxLfnstPos);
         (vl, vc) = violatesLfnstConstrained cu
     in cu\<lparr>violatesLfnstConstrained := (if t_compID t = 0 then (vl \<or> viol, vc) else (vl, vc \<or> viol)),
           lfnstLastScanPos := (lfnstLastScanPos cu \<or> big \<and> scanPosLast \<ge> 1),
           mtsLastScanPos := (mtsLastScanPos cu \<or> t_compID t = 0 \<and> \<not> t_mtsSkip t \<and> scanPosLast \<ge> 1)\<rparr>)"

definition noteGroup :: "CoeffCodingContext \<Rightarrow> CUCtx \<Rightarrow> CUCtx" where
  "noteGroup c cu =
    (if m_compID c = 0 \<and> isSigGroup c \<and> (m_subSetPosY c > 3 \<or> m_subSetPosX c > 3)
     then cu\<lparr>violatesMtsCoeffConstraint := True\<rparr> else cu)"

definition stateTab :: "ResidualCfg \<Rightarrow> nat" where
  "stateTab t = (if t_depQuant t then 32040 else 0)"

text \<open>The context as set up before the subblocks: bin budget, base level and Rice history.\<close>

definition prepareSubblocks :: "ResidualCfg \<Rightarrow> int \<Rightarrow> CoeffCodingContext \<Rightarrow> CoeffCodingContext" where
  "prepareSubblocks t riceStats c =
    (let c = c\<lparr>regBinLimit := int (zoTbWidth t * zoTbHeight t * 28 div 16), m_cctxBaseLevel := t_baseLevel t\<rparr>
     in if t_persistentRice t then c\<lparr>m_updateHist := True, m_histValue := 2 ^ nat riceStats\<rparr> else c)"

definition skippedGroup :: "ResidualCfg \<Rightarrow> CoeffCodingContext \<Rightarrow> bool" where
  "skippedGroup t c \<longleftrightarrow> sbtZeroOut t \<and>
    (t_height t = 32 \<and> m_subSetPosY c \<ge> 16 div 2 ^ m_log2CGHeight c \<or>
     t_width t = 32 \<and> m_subSetPosX c \<ge> 16 div 2 ^ m_log2CGWidth c)"

fun put_subblocks ::
  "'p BinProbModel \<Rightarrow> ResidualCfg \<Rightarrow> (nat \<Rightarrow> int) \<Rightarrow> (nat \<Rightarrow> bool) \<Rightarrow> nat \<Rightarrow> nat \<Rightarrow> int \<Rightarrow> CUCtx \<Rightarrow> CoeffCodingContext \<Rightarrow>
    'p BinEncoder \<Rightarrow> ((CUCtx \<times> int) \<times> 'p BinEncoder) option" where
  "put_subblocks pm t coeff sigGroupFlags 0 state riceStats cu c e = Some ((cu, riceStats), e)"
| "put_subblocks pm t coeff sigGroupFlags (Suc subSetId) state riceStats cu c e =
    (let c = initSubblock subSetId (sigGroupFlags subSetId) c
     in if skippedGroup t c then put_subblocks pm t coeff sigGroupFlags subSetId state riceStats cu c e
        else do {
          ((c, state, riceStats), e) \<leftarrow> put_subblock pm coeff (stateTab t) state riceStats c e;
          put_subblocks pm t coeff sigGroupFlags subSetId state riceStats (noteGroup c cu) c e
        })"

definition cctx_of :: "ResidualCfg \<Rightarrow> bool \<Rightarrow> CoeffCodingContext" where
  "cctx_of t bdpcm = cctx_new (t_width t) (t_height t) (t_compID t) (t_signHiding t) bdpcm (t_maxLog2 t) (t_rrcRice t)"

definition put_residual_coding ::
  "'p BinProbModel \<Rightarrow> ResidualCfg \<Rightarrow> (nat \<Rightarrow> int) \<Rightarrow> int \<Rightarrow> CUCtx \<Rightarrow> 'p BinEncoder \<Rightarrow> ((CUCtx \<times> int) \<times> 'p BinEncoder) option" where
  "put_residual_coding pm t coeff riceStats cu e =
    (let c = cctx_of t False;
         sig = filter (\<lambda>scanPos. coeff (blockPos c scanPos) \<noteq> 0) [0..<m_maxNumCoeff c];
         sigGroupFlags = (\<lambda>g. g \<in> set (map (\<lambda>scanPos. scanPos div 2 ^ m_log2CGSize c) sig))
     in do {
          _ \<leftarrow> check (sig = []);
          let scanPosLast = last sig;
          let c = c\<lparr>m_scanPosLast := scanPosLast\<rparr>;
          let cu = noteLastPos t scanPosLast cu;
          e \<leftarrow> put_last_sig_coeff pm t c e;
          put_subblocks pm t coeff sigGroupFlags (scanPosLast div 2 ^ m_log2CGSize c + 1) 0 riceStats cu
            (prepareSubblocks t riceStats c) e
        })"

fun get_subblocks ::
  "'p BinProbModel \<Rightarrow> ResidualCfg \<Rightarrow> nat \<Rightarrow> nat \<Rightarrow> int \<Rightarrow> CUCtx \<Rightarrow> CoeffCodingContext \<Rightarrow> (nat \<Rightarrow> int) \<Rightarrow>
    'p BinDecoder \<Rightarrow> ((CUCtx \<times> int \<times> (nat \<Rightarrow> int)) \<times> 'p BinDecoder) option" where
  "get_subblocks pm t 0 state riceStats cu c coeff d = Some ((cu, riceStats, coeff), d)"
| "get_subblocks pm t (Suc subSetId) state riceStats cu c coeff d =
    (let c = initSubblock subSetId False c
     in if skippedGroup t c then get_subblocks pm t subSetId state riceStats cu c coeff d
        else do {
          ((c, state, riceStats, coeff), d) \<leftarrow> get_subblock pm (stateTab t) state riceStats c coeff d;
          get_subblocks pm t subSetId state riceStats (noteGroup c cu) c coeff d
        })"

definition get_residual_coding ::
  "'p BinProbModel \<Rightarrow> ResidualCfg \<Rightarrow> bool \<Rightarrow> int \<Rightarrow> CUCtx \<Rightarrow> (nat \<Rightarrow> int) \<Rightarrow> 'p BinDecoder \<Rightarrow>
    ((CUCtx \<times> int \<times> (nat \<Rightarrow> int)) \<times> 'p BinDecoder) option" where
  "get_residual_coding pm t bdpcm riceStats cu coeff d = do {
     let c = cctx_of t bdpcm;
     (scanPosLast, d) \<leftarrow> get_last_sig_coeff pm t c d;
     let c = c\<lparr>m_scanPosLast := scanPosLast\<rparr>;
     let cu = noteLastPos t scanPosLast cu;
     get_subblocks pm t (scanPosLast div 2 ^ m_log2CGSize c + 1) 0 riceStats cu (prepareSubblocks t riceStats c) coeff d
   }"

end
