(* ===== verification/ResidualSync.thy ===== *)
theory ResidualSync
  imports Residual
begin

text \<open>
  Coefficient coding is lossless: the writer and the reader of \<open>Residual\<close> stay in step bin by bin, and the
  reader's buffer ends with the writer's coefficients.  The writer's locals depend only on the data, so a
  writer is paired with the state it ends in.  This file holds the relation between the two sides and the
  first, context-coded pass of a subblock.
\<close>

section \<open>Writers with a state\<close>

definition codes ::
  "('p \<Rightarrow> bool) \<Rightarrow> ('p BinEncoder \<Rightarrow> ('s \<times> 'p BinEncoder) option) \<Rightarrow> 's \<Rightarrow>
   ('p BinDecoder \<Rightarrow> ('a \<times> 'p BinDecoder) option) \<Rightarrow> 'a \<Rightarrow> bool" where
  "codes pinv E s D v \<longleftrightarrow> coded pinv (\<lambda>e. Option.bind (E e) (\<lambda>(s, e). Some e)) D v \<and> (\<forall>e x e'. E e = Some (x, e') \<longrightarrow> x = s)"

lemma codes_return: "codes pinv (\<lambda>e. Some (s, e)) s (\<lambda>d. Some (v, d)) v"
  by (simp add: codes_def coded_return)

lemma codes_bind:
  assumes 1: "codes pinv E1 s1 D1 v1" and 2: "codes pinv (E2 s1) s2 (D2 v1) v2"
  shows "codes pinv (\<lambda>e. Option.bind (E1 e) (\<lambda>(s, e). E2 s e)) s2 (\<lambda>d. Option.bind (D1 d) (\<lambda>(v, d). D2 v d)) v2"
proof -
  have d: "\<And>e x e'. E1 e = Some (x, e') \<Longrightarrow> x = s1" using 1 by (auto simp: codes_def)
  have "coded pinv (\<lambda>e. Option.bind (Option.bind (E1 e) (\<lambda>(s, e). Some e)) (\<lambda>e. Option.bind (E2 s1 e) (\<lambda>(s, e). Some e)))
      (\<lambda>d. Option.bind (D1 d) (\<lambda>(v, d). D2 v d)) v2"
    by (rule coded_bind [where ?v1.0 = v1 and ?D2.0 = D2]) (use 1 2 in \<open>simp_all add: codes_def\<close>)
  then have "coded pinv (\<lambda>e. Option.bind (Option.bind (E1 e) (\<lambda>(s, e). E2 s e)) (\<lambda>(s, e). Some e))
      (\<lambda>d. Option.bind (D1 d) (\<lambda>(v, d). D2 v d)) v2"
  proof (rule coded_cong)
    fix e show "Option.bind (Option.bind (E1 e) (\<lambda>(s, e). E2 s e)) (\<lambda>(s, e). Some e) =
        Option.bind (Option.bind (E1 e) (\<lambda>(s, e). Some e)) (\<lambda>e. Option.bind (E2 s1 e) (\<lambda>(s, e). Some e))"
      using d by (cases "E1 e") auto
  qed auto
  moreover have "x = s2" if run: "Option.bind (E1 e) (\<lambda>(s, e). E2 s e) = Some (x, e')" for e x e'
  proof -
    obtain a b where ab: "E1 e = Some (a, b)" "E2 a b = Some (x, e')" using run by (cases "E1 e") auto
    with d have "a = s1" by simp
    with ab 2 show ?thesis by (auto simp: codes_def)
  qed
  ultimately show ?thesis by (simp add: codes_def)
qed

lemma codes_bin:
  assumes 1: "coded pinv E1 D1 v1" and 2: "codes pinv E2 s (D2 v1) v2"
  shows "codes pinv (\<lambda>e. Option.bind (E1 e) E2) s (\<lambda>d. Option.bind (D1 d) (\<lambda>(v, d). D2 v d)) v2"
proof -
  have "codes pinv (\<lambda>e. Option.bind (E1 e) (\<lambda>e. Some ((), e))) () D1 v1"
    using coded_cong [OF 1, of "\<lambda>e. Option.bind (Option.bind (E1 e) (\<lambda>e. Some ((), e))) (\<lambda>(s, e). Some e)"]
    by (auto simp: codes_def bind_assoc split: bind_splits)
  from codes_bind [OF this, where ?E2.0 = "\<lambda>_. E2" and ?D2.0 = D2, OF 2] show ?thesis
    by (simp add: bind_assoc)
qed

lemma codes_cong:
  "codes pinv E s D v \<Longrightarrow> (\<And>e. E' e = E e) \<Longrightarrow> (\<And>d. D' d = D d) \<Longrightarrow> s' = s \<Longrightarrow> v' = v \<Longrightarrow> codes pinv E' s' D' v'"
  by (simp add: codes_def coded_def decodes_def)

section \<open>The template of a position\<close>

text \<open>The members a subblock never changes.\<close>

definition same_geom :: "CoeffCodingContext \<Rightarrow> CoeffCodingContext \<Rightarrow> bool" where
  "same_geom c0 c \<longleftrightarrow> c0\<lparr>m_tmplCpSum1 := m_tmplCpSum1 c, m_tmplCpDiag := m_tmplCpDiag c, m_updateHist := m_updateHist c,
     regBinLimit := regBinLimit c, m_sigCoeffGroupFlag := m_sigCoeffGroupFlag c\<rparr> = c"

text \<open>The members the two sides must agree on.\<close>

definition same_tmpl :: "CoeffCodingContext \<Rightarrow> CoeffCodingContext \<Rightarrow> bool" where
  "same_tmpl c c' \<longleftrightarrow> m_tmplCpSum1 c' = m_tmplCpSum1 c \<and> m_tmplCpDiag c' = m_tmplCpDiag c \<and>
    m_updateHist c' = m_updateHist c \<and> regBinLimit c' = regBinLimit c"

lemma same_geom_refl [simp]: "same_geom c c"
  by (simp add: same_geom_def)

lemma same_geom_members:
  assumes "same_geom c0 c"
  shows "blockPos c = blockPos c0" "m_scanPosLast c = m_scanPosLast c0" "m_scan c = m_scan c0" "m_width c = m_width c0"
    "m_height c = m_height c0" "m_maxLog2TrDynamicRange c = m_maxLog2TrDynamicRange c0" "hideSign c = hideSign c0"
    "m_compID c = m_compID c0" "checkCoeffInRange c = checkCoeffInRange c0" "m_histValue c = m_histValue c0"
    "m_riceExt c = m_riceExt c0" "m_cctxBaseLevel c = m_cctxBaseLevel c0" "m_log2CGSize c = m_log2CGSize c0"
    "m_subSetPos c = m_subSetPos c0"
proof -
  obtain a b u l F where c: "c = c0\<lparr>m_tmplCpSum1 := a, m_tmplCpDiag := b, m_updateHist := u, regBinLimit := l,
      m_sigCoeffGroupFlag := F\<rparr>" using assms unfolding same_geom_def by metis
  show "blockPos c = blockPos c0" "m_scanPosLast c = m_scanPosLast c0" "m_scan c = m_scan c0" "m_width c = m_width c0"
    "m_height c = m_height c0" "m_maxLog2TrDynamicRange c = m_maxLog2TrDynamicRange c0" "hideSign c = hideSign c0"
    "m_compID c = m_compID c0" "checkCoeffInRange c = checkCoeffInRange c0" "m_histValue c = m_histValue c0"
    "m_riceExt c = m_riceExt c0" "m_cctxBaseLevel c = m_cctxBaseLevel c0" "m_log2CGSize c = m_log2CGSize c0"
    "m_subSetPos c = m_subSetPos c0"
    unfolding c by (simp_all add: blockPos_def hideSign_def checkCoeffInRange_def fun_eq_iff)
qed

lemma same_geom_updates:
  assumes "same_geom c0 c"
  shows "same_geom c0 (c\<lparr>m_tmplCpDiag := b', m_tmplCpSum1 := a'\<rparr>)" "same_geom c0 (c\<lparr>m_updateHist := u'\<rparr>)"
    "same_geom c0 (c\<lparr>regBinLimit := l'\<rparr>)" "same_geom c0 (setSigGroup c)"
proof -
  obtain a b u l F where c: "c = c0\<lparr>m_tmplCpSum1 := a, m_tmplCpDiag := b, m_updateHist := u, regBinLimit := l,
      m_sigCoeffGroupFlag := F\<rparr>" using assms unfolding same_geom_def by metis
  show "same_geom c0 (c\<lparr>m_tmplCpDiag := b', m_tmplCpSum1 := a'\<rparr>)" "same_geom c0 (c\<lparr>m_updateHist := u'\<rparr>)"
    "same_geom c0 (c\<lparr>regBinLimit := l'\<rparr>)" "same_geom c0 (setSigGroup c)"
    unfolding c same_geom_def by (simp_all add: setSigGroup_def)
qed

definition capped :: "int \<Rightarrow> int" where "capped a = min (4 + a mod 2) a"

definition templateOf :: "CoeffCodingContext \<Rightarrow> nat \<Rightarrow> nat list" where
  "templateOf c n = template c (se_x (m_scan c ! n)) (se_y (m_scan c ! n))"

definition sigId :: "CoeffCodingContext \<Rightarrow> nat \<Rightarrow> (nat \<Rightarrow> int) \<Rightarrow> nat \<Rightarrow> nat" where
  "sigId c n coeff state = fst (sigCtxIdAbs n coeff state c)"

definition sigSum :: "CoeffCodingContext \<Rightarrow> nat \<Rightarrow> (nat \<Rightarrow> int) \<Rightarrow> int" where
  "sigSum c n coeff = sum_list (map (\<lambda>p. capped \<bar>coeff p\<bar> - (if coeff p \<noteq> 0 then 1 else 0)) (templateOf c n))"

lemma sum_list_minus: "sum_list (map f xs) - sum_list (map g xs) = sum_list (map (\<lambda>x. f x - g x :: int) xs)"
  by (induction xs) auto

lemma sigCtxIdAbs_eq:
  "sigCtxIdAbs n coeff state c = (sigId c n coeff state,
     c\<lparr>m_tmplCpDiag := int (se_x (m_scan c ! n) + se_y (m_scan c ! n)), m_tmplCpSum1 := sigSum c n coeff\<rparr>)"
proof -
  have "snd (sigCtxIdAbs n coeff state c) =
      c\<lparr>m_tmplCpDiag := int (se_x (m_scan c ! n) + se_y (m_scan c ! n)), m_tmplCpSum1 := sigSum c n coeff\<rparr>"
    unfolding sigCtxIdAbs_def sigSum_def templateOf_def capped_def Let_def
    by (simp add: comp_def sum_list_minus)
  then show ?thesis unfolding sigId_def by (metis prod.collapse)
qed

lemma sigId_eq:
  "sigId c n coeff state =
    (let diag = se_x (m_scan c ! n) + se_y (m_scan c ! n);
         ctxOfs = nat (min ((sum_list (map (\<lambda>p. capped \<bar>coeff p\<bar>) (templateOf c n)) + 1) div 2) 3) + (if diag < 2 then 4 else 0)
     in ctx_at (SigFlag ! (chType c + 2 * (state - 1)))
          (if m_compID c = 0 then ctxOfs + (if diag < 5 then 4 else 0) else ctxOfs))"
  unfolding sigId_def sigCtxIdAbs_def templateOf_def capped_def Let_def by (simp only: prod.sel list.map_comp comp_def)

lemma capped_zero: "0 \<le> a \<Longrightarrow> capped a = 0 \<longleftrightarrow> a = 0"
proof -
  have "0 \<le> a mod 2" by simp
  then show "0 \<le> a \<Longrightarrow> capped a = 0 \<longleftrightarrow> a = 0" by (auto simp: capped_def min_def simp del: pos_mod_sign)
qed

lemma template_cong:
  assumes g: "same_geom c0 c" "same_geom c0 c'" and eq: "\<And>p. p \<in> set (templateOf c0 n) \<Longrightarrow> capped \<bar>f p\<bar> = capped \<bar>h p\<bar>"
  shows "sigId c n f state = sigId c' n h state" "sigSum c n f = sigSum c' n h"
proof -
  have t: "templateOf c n = templateOf c0 n" "templateOf c' n = templateOf c0 n"
    unfolding templateOf_def template_def same_geom_members [OF g(1)] same_geom_members [OF g(2)] by simp_all
  have z: "f p = 0 \<longleftrightarrow> h p = 0" if "p \<in> set (templateOf c0 n)" for p
    using eq [OF that] capped_zero [of "\<bar>f p\<bar>"] capped_zero [of "\<bar>h p\<bar>"] by auto
  show "sigSum c n f = sigSum c' n h"
    unfolding sigSum_def t using eq z by (intro arg_cong [of _ _ sum_list] map_cong) auto
  have "sum_list (map (\<lambda>p. capped \<bar>f p\<bar>) (templateOf c0 n)) = sum_list (map (\<lambda>p. capped \<bar>h p\<bar>) (templateOf c0 n))"
    using eq by (intro arg_cong [of _ _ sum_list] map_cong) auto
  then show "sigId c n f state = sigId c' n h state"
    unfolding sigId_eq t same_geom_members [OF g(1)] same_geom_members [OF g(2)] by simp
qed

lemma templateSum_cong:
  assumes g: "same_geom c0 c" "same_geom c0 c'" and eq: "\<And>p. p \<in> set (templateOf c0 n) \<Longrightarrow> \<bar>f p\<bar> = \<bar>h p\<bar>"
  shows "deriveRiceRRC n f b c = deriveRiceRRC n h b c'"
proof -
  have "templateSum n f c = templateSum n h c'"
    using same_geom_members [OF g(1)] same_geom_members [OF g(2)] eq
    by (simp add: templateSum_def Let_def templateOf_def template_def)
  then show ?thesis
    using same_geom_members [OF g(1)] same_geom_members [OF g(2)]
    by (simp add: deriveRiceRRC_def deriveRice_def templateAbsSum_def templateAbsSumExt_def Let_def)
qed

lemma deriveRiceRRC_le: "deriveRiceRRC n f b c \<le> 11"
proof -
  have t: "\<forall>i < 32. g_goRiceParsCoeff ! i \<le> 3" by code_simp
  have s: "templateAbsCompare s \<le> 8" for s
    by (simp add: templateAbsCompare_def g_riceThreshold_def g_riceShift_def upt_rec)
  have k: "g_goRiceParsCoeff ! i \<le> 3" if "i \<le> 31" for i using t that by simp
  have "templateAbsSumExt n f b c \<le> 3 + 8"
    unfolding templateAbsSumExt_def Let_def by (intro add_mono k s) (auto simp: min_def max_def)
  moreover have "deriveRice n f b c \<le> 3"
    unfolding deriveRice_def templateAbsSum_def by (rule k) (auto simp: min_def max_def)
  ultimately show ?thesis by (simp add: deriveRiceRRC_def)
qed

text \<open>The first \<open>N\<close> scan positions are the coded region.\<close>

definition geom_ok :: "CoeffCodingContext \<Rightarrow> nat \<Rightarrow> bool" where
  "geom_ok c N \<longleftrightarrow> (\<exists>cw ch. scan_ok (m_width c) (m_height c) cw ch (m_scan c) \<and> N = cw * ch)"

lemma flat_inj:
  assumes "x < (W::nat)" "x' < W" "y * W + x = y' * W + x'"
  shows "x = x' \<and> y = y'"
proof -
  have "(y * W + x) div W = (y' * W + x') div W" "(y * W + x) mod W = (y' * W + x') mod W" using assms(3) by simp_all
  then show ?thesis using assms(1,2) by simp
qed

lemma geom_elem:
  assumes "scan_ok W H cw ch scan" "n < cw * ch"
  shows "se_idx (scan ! n) = se_y (scan ! n) * W + se_x (scan ! n)" "se_x (scan ! n) < W" "se_y (scan ! n) < H"
proof -
  have "scan ! n = elem_at W (se_x (scan ! n)) (se_y (scan ! n))" "se_x (scan ! n) < cw" "se_y (scan ! n) < ch" "cw \<le> W" "ch \<le> H"
    using assms by (simp_all add: scan_ok_def)
  then show "se_idx (scan ! n) = se_y (scan ! n) * W + se_x (scan ! n)" "se_x (scan ! n) < W" "se_y (scan ! n) < H"
    by (metis elem_at_def ScanElement.select_convs(1), simp_all)
qed

lemma scan_before:
  assumes "scan_ok W H cw ch scan" "n < cw * ch" "m < cw * ch" "n \<noteq> m"
    "se_x (scan ! n) \<le> se_x (scan ! m)" "se_y (scan ! n) \<le> se_y (scan ! m)"
  shows "n < m"
  using assms by (simp add: scan_ok_def)

lemma geom_inj:
  assumes "geom_ok c N" "m < N" "n < N" "blockPos c m = blockPos c n"
  shows "m = n"
proof -
  obtain cw ch where s: "scan_ok (m_width c) (m_height c) cw ch (m_scan c)" "N = cw * ch" using assms(1) unfolding geom_ok_def by blast
  have "se_x (m_scan c ! m) = se_x (m_scan c ! n) \<and> se_y (m_scan c ! m) = se_y (m_scan c ! n)"
    using flat_inj geom_elem [OF s(1)] assms(2-4) s(2) unfolding blockPos_def by metis
  then show ?thesis
    using scan_before [OF s(1), of m n] scan_before [OF s(1), of n m] assms(2,3) s(2) by fastforce
qed

lemma ex2I: "P a b \<Longrightarrow> \<exists>x y. P x y"
  by blast

lemma template_offset:
  assumes p: "p \<in> set (templateOf c n)" and x: "se_x (m_scan c ! n) < m_width c"
  shows "\<exists>dx dy. p = (se_y (m_scan c ! n) + dy) * m_width c + (se_x (m_scan c ! n) + dx) \<and> 0 < dx + dy \<and>
    se_x (m_scan c ! n) + dx < m_width c"
proof -
  let ?x = "se_x (m_scan c ! n)" and ?y = "se_y (m_scan c ! n)" and ?W = "m_width c"
  have "?x < ?W - 1 \<and> p = ?x + ?y * ?W + 1 \<or> ?x < ?W - 2 \<and> p = ?x + ?y * ?W + 2 \<or>
      ?x < ?W - 1 \<and> p = ?x + ?y * ?W + ?W + 1 \<or> p = ?x + ?y * ?W + ?W \<or> p = ?x + ?y * ?W + 2 * ?W"
    using p unfolding templateOf_def template_def Let_def by (auto split: if_splits)
  then show ?thesis
  proof (elim disjE)
    assume "?x < ?W - 1 \<and> p = ?x + ?y * ?W + 1"
    then show ?thesis by (intro ex2I [of _ 1 0]) auto
  next
    assume "?x < ?W - 2 \<and> p = ?x + ?y * ?W + 2"
    then show ?thesis by (intro ex2I [of _ 2 0]) auto
  next
    assume "?x < ?W - 1 \<and> p = ?x + ?y * ?W + ?W + 1"
    then show ?thesis by (intro ex2I [of _ 1 1]) auto
  next
    assume "p = ?x + ?y * ?W + ?W"
    then show ?thesis using x by (intro ex2I [of _ 0 1]) simp
  next
    assume "p = ?x + ?y * ?W + 2 * ?W"
    then show ?thesis using x by (intro ex2I [of _ 0 2]) (simp add: add_mult_distrib)
  qed
qed

lemma template_after:
  assumes g: "geom_ok c N" and n: "n < N" and p: "p \<in> set (templateOf c n)" and m: "m < N" "p = blockPos c m"
  shows "n < m"
proof -
  obtain cw ch where s: "scan_ok (m_width c) (m_height c) cw ch (m_scan c)" "N = cw * ch" using g unfolding geom_ok_def by blast
  note en = geom_elem [OF s(1) n [unfolded s(2)]] and em = geom_elem [OF s(1) m(1) [unfolded s(2)]]
  obtain dx dy where d: "p = (se_y (m_scan c ! n) + dy) * m_width c + (se_x (m_scan c ! n) + dx)" "0 < dx + dy"
    "se_x (m_scan c ! n) + dx < m_width c" using template_offset [OF p en(2)] by metis
  have xy: "se_x (m_scan c ! m) = se_x (m_scan c ! n) + dx" "se_y (m_scan c ! m) = se_y (m_scan c ! n) + dy"
    using flat_inj [OF em(2) d(3)] em(1) d(1) m(2) by (simp_all add: blockPos_def)
  with d(2) have "n \<noteq> m" by auto
  with n m(1) show ?thesis unfolding s(2) by (rule scan_before [OF s(1)]) (simp_all add: xy)
qed

section \<open>Keeping in step\<close>

text \<open>\<open>view c0 N cf P rc\<close>: the reader's buffer \<open>rc\<close> holds \<open>P m\<close> at scan position \<open>m\<close>, and the writer's
  coefficients \<open>cf\<close> outside the coded region.\<close>

definition view :: "CoeffCodingContext \<Rightarrow> nat \<Rightarrow> (nat \<Rightarrow> int) \<Rightarrow> (nat \<Rightarrow> int) \<Rightarrow> (nat \<Rightarrow> int) \<Rightarrow> bool" where
  "view c0 N cf P rc \<longleftrightarrow> (\<forall>m < N. rc (blockPos c0 m) = P m) \<and> (\<forall>p. (\<forall>m < N. p \<noteq> blockPos c0 m) \<longrightarrow> rc p = cf p)"

lemma view_at: "view c0 N cf P rc \<Longrightarrow> m < N \<Longrightarrow> rc (blockPos c0 m) = P m"
  by (simp add: view_def)

lemma view_update:
  assumes "view c0 N cf P rc" "geom_ok c0 N" "k < N"
  shows "view c0 N cf (P(k := v)) (rc(blockPos c0 k := v))"
  using assms geom_inj [OF assms(2)] by (auto simp: view_def)

lemma view_cong: "view c0 N cf P rc \<Longrightarrow> (\<And>m. m < N \<Longrightarrow> P m = Q m) \<Longrightarrow> view c0 N cf Q rc"
  by (simp add: view_def)

lemma view_template:
  assumes "view c0 N cf P rc" "geom_ok c0 N" "k < N" "p \<in> set (templateOf c0 k)"
    and "\<And>m. k < m \<Longrightarrow> m < N \<Longrightarrow> h (P m) = h (cf (blockPos c0 m))"
  shows "h (rc p) = h (cf p)"
proof (cases "\<exists>m < N. p = blockPos c0 m")
  case True
  then obtain m where m: "m < N" "p = blockPos c0 m" by blast
  then have "k < m" using template_after [OF assms(2-4)] by blast
  then show ?thesis using m assms(1,5) by (simp add: view_def)
next
  case False
  then have "rc p = cf p" using assms(1) by (simp add: view_def)
  then show ?thesis by simp
qed

text \<open>\<open>sp\<close> lists the significant scan positions met so far.\<close>

definition sync :: "CoeffCodingContext \<Rightarrow> (nat \<Rightarrow> int) \<Rightarrow> nat list \<Rightarrow> WriteState \<Rightarrow> ReadState \<Rightarrow> bool" where
  "sync c0 cf sp w r \<longleftrightarrow>
    same_geom c0 (w_cctx w) \<and> same_geom c0 (r_cctx r) \<and> same_tmpl (w_cctx w) (r_cctx r) \<and>
    r_state r = w_state w \<and> w_numNonZero w = length sp \<and> r_sigBlkPos r = map (blockPos c0) sp \<and>
    r_firstNZPos r = w_firstNZPos w \<and> r_lastNZPos r = w_lastNZPos w \<and> r_remRegBins r = w_remRegBins w \<and>
    r_riceStats r = w_riceStats w \<and> r_updateHistory r = w_updateHistory w \<and>
    w_signPattern w = val_of (map (\<lambda>m. cf (blockPos c0 m) < 0) sp) \<and>
    (sp \<noteq> [] \<longrightarrow> w_firstNZPos w = int (last sp)) \<and> w_lastNZPos w = foldl (\<lambda>x m. max x (int m)) (- 1) sp \<and>
    m_sigCoeffGroupFlag (w_cctx w) = m_sigCoeffGroupFlag c0 \<and>
    m_sigCoeffGroupFlag (r_cctx r) = (m_sigCoeffGroupFlag c0)(m_subSetPos c0 := True)"

lemma ctxOffsetAbs_cong:
  assumes "same_geom c0 c" "same_geom c0 c'" "same_tmpl c c'"
  shows "ctxOffsetAbs c' = ctxOffsetAbs c" "greater1CtxIdAbs c' = greater1CtxIdAbs c"
    "greater2CtxIdAbs c' = greater2CtxIdAbs c" "parityCtxIdAbs c' = parityCtxIdAbs c"
  using assms(3) same_geom_members [OF assms(1)] same_geom_members [OF assms(2)]
  by (simp_all add: same_tmpl_def ctxOffsetAbs_def greater1CtxIdAbs_def greater2CtxIdAbs_def parityCtxIdAbs_def fun_eq_iff)

lemma val_of_snoc: "val_of (bs @ [b]) = 2 * val_of bs + of_bool b"
  by (simp add: val_of_append val_of_Cons val_of_Nil)

lemma codes_return': "s = s' \<Longrightarrow> v = v' \<Longrightarrow> codes pinv (\<lambda>e. Some (s', e)) s (\<lambda>d. Some (v', d)) v"
  by (simp add: codes_return)

lemma codes_if_left:
  "(c \<Longrightarrow> codes pinv E s D v) \<Longrightarrow> (\<not> c \<Longrightarrow> codes pinv E' s D v) \<Longrightarrow> codes pinv (\<lambda>e. if c then E e else E' e) s D v"
  by (cases c) simp_all

lemma codes_if_right:
  "(c \<Longrightarrow> codes pinv E s D v) \<Longrightarrow> (\<not> c \<Longrightarrow> codes pinv E s D' v) \<Longrightarrow> codes pinv E s (\<lambda>d. if c then D d else D' d) v"
  by (cases c) simp_all

lemma nextState_cong: "level mod 2 = level' mod 2 \<Longrightarrow> nextState T state level = nextState T state level'"
  by (simp add: nextState_def)

lemma capped_parity: "capped \<bar>a\<bar> mod 2 = a mod 2"
proof -
  have "\<bar>a\<bar> mod 2 = a mod 2" "(4 + a) mod 2 = a mod 2" by presburger+
  then show ?thesis by (simp add: capped_def min_def mod_simps)
qed

context prob_model
begin

lemma codes_encodeBin:
  "b = 0 \<or> b = 1 \<Longrightarrow> codes pm_inv E s (D b) v \<Longrightarrow>
    codes pm_inv (\<lambda>e. Option.bind (encodeBin pm b i e) E) s (\<lambda>d. Option.bind (decodeBin pm i d) (\<lambda>(v, d). D v d)) v"
  by (rule codes_bin [OF coded_bin])

lemma greater_trip:
  assumes s: "sync c0 cf sp w r" and v: "view c0 N cf P (r_coeff r)" and g: "geom_ok c0 N" "k < N"
    and P: "P k = 0" and l: "level = cf (blockPos c0 k)" "level \<noteq> 0" and first: "k = m_scanPosLast c0 \<Longrightarrow> sp = []"
  shows "\<exists>w' r'. codes pm_inv (write_greater pm k level w) w' (read_greater pm k r) r' \<and> sync c0 cf (sp @ [k]) w' r' \<and>
    view c0 N cf (P(k := capped \<bar>level\<bar>)) (r_coeff r') \<and> w_state w' = w_state w \<and>
    w_firstPos2ndPass w' = (if \<bar>level\<bar> > 3 then max (w_firstPos2ndPass w) (int k) else w_firstPos2ndPass w)"
proof -
  note sy = s [unfolded sync_def]
  have gw: "same_geom c0 (w_cctx w)" and gr: "same_geom c0 (r_cctx r)" and tm: "same_tmpl (w_cctx w) (r_cctx r)"
    using sy by simp_all
  note mw = same_geom_members [OF gw] and mr = same_geom_members [OF gr] and cx = ctxOffsetAbs_cong [OF gw gr tm]
  define a where "a = \<bar>level\<bar>"
  define w1 where "w1 = w\<lparr>w_numNonZero := w_numNonZero w + 1, w_firstNZPos := int k, w_lastNZPos := max (w_lastNZPos w) (int k),
      w_signPattern := (if level < 0 then (if k \<noteq> m_scanPosLast c0 then 2 * w_signPattern w else w_signPattern w) + 1
      else if k \<noteq> m_scanPosLast c0 then 2 * w_signPattern w else w_signPattern w)\<rparr>"
  define r1 where "r1 = r\<lparr>r_sigBlkPos := r_sigBlkPos r @ [blockPos c0 k], r_firstNZPos := int k,
      r_lastNZPos := max (r_lastNZPos r) (int k)\<rparr>"
  have pat: "(if level < 0 then (if k \<noteq> m_scanPosLast c0 then 2 * w_signPattern w else w_signPattern w) + 1
      else if k \<noteq> m_scanPosLast c0 then 2 * w_signPattern w else w_signPattern w) = 2 * w_signPattern w + of_bool (level < 0)"
    using first sy by (cases "k = m_scanPosLast c0") (auto simp: val_of_Nil)
  have r0: "r_coeff r (blockPos c0 k) = 0" using view_at [OF v g(2)] P by simp
  have s1: "sync c0 cf (sp @ [k]) (w1\<lparr>w_remRegBins := x, w_firstPos2ndPass := y\<rparr>) (r1\<lparr>r_remRegBins := x, r_coeff := z\<rparr>)" for x y z
    using sy l pat by (simp add: sync_def w1_def r1_def val_of_snoc)
  show ?thesis
  proof (cases "a > 1")
    case True
    let ?w = "w1\<lparr>w_remRegBins := w_remRegBins w - 3,
      w_firstPos2ndPass := (if a > 3 then max (w_firstPos2ndPass w) (int k) else w_firstPos2ndPass w)\<rparr>"
    let ?r = "r1\<lparr>r_remRegBins := r_remRegBins r - 3, r_coeff := (r_coeff r)(blockPos c0 k := capped a)\<rparr>"
    have cap: "capped a = 1 + a mod 2 + 1 + 2 * of_bool (a > 3)"
      using True by (cases "a > 3") (simp_all add: capped_def min_def; presburger)+
    have bit: "a mod 2 = 0 \<or> a mod 2 = 1" by presburger
    have "codes pm_inv (write_greater pm k level w) ?w (read_greater pm k r) ?r"
      unfolding write_greater_def read_greater_def Let_def mw mr cx a_def [symmetric]
      by (intro codes_encodeBin codes_return' codes_if_left codes_if_right)
        (use True bit r0 cap in \<open>simp_all add: w1_def r1_def\<close>)
    moreover have "sync c0 cf (sp @ [k]) ?w ?r" using s1 sy by simp
    ultimately show ?thesis using view_update [OF v g] True
      by (intro exI [of _ ?w] exI [of _ ?r]) (simp add: a_def w1_def)
  next
    case False
    let ?w = "w1\<lparr>w_remRegBins := w_remRegBins w - 1, w_firstPos2ndPass := w_firstPos2ndPass w\<rparr>"
    let ?r = "r1\<lparr>r_remRegBins := r_remRegBins r - 1, r_coeff := (r_coeff r)(blockPos c0 k := capped a)\<rparr>"
    have "a = 1" using False l by (simp add: a_def)
    then have cap: "capped a = 1" by (simp add: capped_def)
    have "codes pm_inv (write_greater pm k level w) ?w (read_greater pm k r) ?r"
      unfolding write_greater_def read_greater_def Let_def mw mr cx a_def [symmetric]
      by (intro codes_encodeBin codes_return' codes_if_left codes_if_right)
        (use False r0 cap in \<open>simp_all add: w1_def r1_def\<close>)
    moreover have "sync c0 cf (sp @ [k]) ?w ?r" using s1 sy by simp
    ultimately show ?thesis using view_update [OF v g] False
      by (intro exI [of _ ?w] exI [of _ ?r]) (simp add: a_def w1_def)
  qed
qed

lemma sig_trip:
  assumes s: "sync c0 cf sp w r" and v: "view c0 N cf P (r_coeff r)" and g: "geom_ok c0 N" "k < N"
    and before: "\<And>m. k < m \<Longrightarrow> m < N \<Longrightarrow> capped \<bar>P m\<bar> = capped \<bar>cf (blockPos c0 m)\<bar>"
    and infer: "sp = [] \<Longrightarrow> int k = inferSigPos \<Longrightarrow> cf (blockPos c0 k) \<noteq> 0"
  shows "\<exists>w' r'. codes pm_inv (write_sig pm cf inferSigPos k w) w' (read_sig pm inferSigPos k r) (cf (blockPos c0 k) \<noteq> 0, r') \<and>
    sync c0 cf sp w' r' \<and> r_coeff r' = r_coeff r \<and> w_firstPos2ndPass w' = w_firstPos2ndPass w"
proof -
  note sy = s [unfolded sync_def]
  have gw: "same_geom c0 (w_cctx w)" and gr: "same_geom c0 (r_cctx r)" and tm: "same_tmpl (w_cctx w) (r_cctx r)"
    and st: "r_state r = w_state w" and nn: "r_numNonZero r = w_numNonZero w" using sy by simp_all
  note mw = same_geom_members [OF gw] and mr = same_geom_members [OF gr]
  have eq: "capped \<bar>r_coeff r p\<bar> = capped \<bar>cf p\<bar>" if "p \<in> set (templateOf c0 k)" for p
    by (rule view_template [OF v g that, of "\<lambda>x. capped \<bar>x\<bar>"]) (rule before)
  have cong: "sigId (r_cctx r) k (r_coeff r) x = sigId (w_cctx w) k cf x" "sigSum (r_cctx r) k (r_coeff r) = sigSum (w_cctx w) k cf" for x
    by (rule template_cong [OF gr gw], erule eq)+
  define diag where "diag = int (se_x (m_scan c0 ! k) + se_y (m_scan c0 ! k))"
  define cw where "cw = (w_cctx w)\<lparr>m_tmplCpDiag := diag, m_tmplCpSum1 := sigSum (w_cctx w) k cf\<rparr>"
  define cr where "cr = (r_cctx r)\<lparr>m_tmplCpDiag := diag, m_tmplCpSum1 := sigSum (w_cctx w) k cf\<rparr>"
  define i where "i = sigId (w_cctx w) k cf (w_state w)"
  have ew: "sigCtxIdAbs k cf (w_state w) (w_cctx w) = (i, cw)" and er: "sigCtxIdAbs k (r_coeff r) (r_state r) (r_cctx r) = (i, cr)"
    by (simp_all add: sigCtxIdAbs_eq cong st i_def cw_def cr_def diag_def mw mr)
  have s1: "sync c0 cf sp (w\<lparr>w_cctx := cw, w_remRegBins := x\<rparr>) (r\<lparr>r_cctx := cr, r_remRegBins := x\<rparr>)" for x
    using sy same_geom_updates(1) [OF gw] same_geom_updates(1) [OF gr]
    by (simp add: sync_def cw_def cr_def same_tmpl_def)
  show ?thesis
  proof (cases "sp = [] \<and> int k = inferSigPos")
    case False
    let ?w = "w\<lparr>w_cctx := cw, w_remRegBins := w_remRegBins w - 1\<rparr>"
    let ?r = "r\<lparr>r_cctx := cr, r_remRegBins := r_remRegBins r - 1\<rparr>"
    have c: "w_numNonZero w \<noteq> 0 \<or> int k \<noteq> inferSigPos" using False sy by auto
    show ?thesis unfolding write_sig_def read_sig_def Let_def ew er prod.case nn mw(1) using c s1 sy
      by (intro exI [of _ ?w] exI [of _ ?r] conjI codes_if_left codes_if_right codes_encodeBin codes_return') auto
  next
    case True
    have l: "cf (blockPos c0 k) \<noteq> 0" and z: "w_numNonZero w = 0" using True infer sy by auto
    show ?thesis
    proof (cases "k = m_scanPosLast c0")
      case True
      then show ?thesis unfolding write_sig_def read_sig_def Let_def ew er prod.case nn mw(1) using l z \<open>sp = [] \<and> int k = inferSigPos\<close> s
        by (intro exI [of _ w] exI [of _ r] conjI codes_if_left codes_if_right codes_return') (auto simp: mw mr)
    next
      case False
      let ?w = "w\<lparr>w_cctx := cw\<rparr>" and ?r = "r\<lparr>r_cctx := cr\<rparr>"
      have "sync c0 cf sp ?w ?r" using s1 [of "w_remRegBins w"] sy by (simp add: sync_def)
      with False show ?thesis unfolding write_sig_def read_sig_def Let_def ew er prod.case nn mw(1) using l z \<open>sp = [] \<and> int k = inferSigPos\<close>
        by (intro exI [of _ ?w] exI [of _ ?r] conjI codes_if_left codes_if_right codes_return') (auto simp: mw mr)
    qed
  qed
qed

lemma level_trip:
  assumes s: "sync c0 cf sp w r" and v: "view c0 N cf P (r_coeff r)" and g: "geom_ok c0 N" "k < N"
    and P: "P k = 0" and first: "k = m_scanPosLast c0 \<Longrightarrow> sp = []"
    and before: "\<And>m. k < m \<Longrightarrow> m < N \<Longrightarrow> capped \<bar>P m\<bar> = capped \<bar>cf (blockPos c0 m)\<bar>"
    and infer: "sp = [] \<Longrightarrow> int k = inferSigPos \<Longrightarrow> cf (blockPos c0 k) \<noteq> 0"
  shows "\<exists>w' r'. codes pm_inv (write_level pm cf T inferSigPos k w) w' (read_level pm T inferSigPos k r) r' \<and>
    sync c0 cf (sp @ (if cf (blockPos c0 k) \<noteq> 0 then [k] else [])) w' r' \<and>
    view c0 N cf (P(k := capped \<bar>cf (blockPos c0 k)\<bar>)) (r_coeff r') \<and>
    w_firstPos2ndPass w' = (if \<bar>cf (blockPos c0 k)\<bar> > 3 then max (w_firstPos2ndPass w) (int k) else w_firstPos2ndPass w)"
proof -
  let ?l = "cf (blockPos c0 k)"
  have gw: "same_geom c0 (w_cctx w)" and gr: "same_geom c0 (r_cctx r)" using s by (simp_all add: sync_def)
  note mw = same_geom_members [OF gw] and mr = same_geom_members [OF gr]
  obtain w1 r1 where c1: "codes pm_inv (write_sig pm cf inferSigPos k w) w1 (read_sig pm inferSigPos k r) (?l \<noteq> 0, r1)"
    and s1: "sync c0 cf sp w1 r1" and rc: "r_coeff r1 = r_coeff r" and f1: "w_firstPos2ndPass w1 = w_firstPos2ndPass w"
    using sig_trip [OF s v g before infer] by metis
  have v1: "view c0 N cf P (r_coeff r1)" using v rc by simp
  have "\<exists>w2 r2. codes pm_inv (\<lambda>e. if ?l \<noteq> 0 then write_greater pm k ?l w1 e else Some (w1, e)) w2
      (\<lambda>d. if ?l \<noteq> 0 then read_greater pm k r1 d else Some (r1, d)) r2 \<and>
      sync c0 cf (sp @ (if ?l \<noteq> 0 then [k] else [])) w2 r2 \<and> view c0 N cf (P(k := capped \<bar>?l\<bar>)) (r_coeff r2) \<and>
      w_firstPos2ndPass w2 = (if \<bar>?l\<bar> > 3 then max (w_firstPos2ndPass w) (int k) else w_firstPos2ndPass w)"
  proof (cases "?l = 0")
    case True
    have "P(k := capped \<bar>?l\<bar>) = P" using True P by (auto simp: capped_def)
    then show ?thesis using True s1 v1 f1 codes_return by force
  next
    case False
    obtain w2 r2 where "codes pm_inv (write_greater pm k ?l w1) w2 (read_greater pm k r1) r2" "sync c0 cf (sp @ [k]) w2 r2"
      "view c0 N cf (P(k := capped \<bar>?l\<bar>)) (r_coeff r2)"
      "w_firstPos2ndPass w2 = (if \<bar>?l\<bar> > 3 then max (w_firstPos2ndPass w) (int k) else w_firstPos2ndPass w)"
      using greater_trip [OF s1 v1 g P refl False first] unfolding f1 by blast
    then show ?thesis by (simp only: False not_False_eq_True if_True) blast
  qed
  then obtain w2 r2 where c2: "codes pm_inv (\<lambda>e. if ?l \<noteq> 0 then write_greater pm k ?l w1 e else Some (w1, e)) w2
      (\<lambda>d. if ?l \<noteq> 0 then read_greater pm k r1 d else Some (r1, d)) r2"
    and s2: "sync c0 cf (sp @ (if ?l \<noteq> 0 then [k] else [])) w2 r2" and v2: "view c0 N cf (P(k := capped \<bar>?l\<bar>)) (r_coeff r2)"
    and f2: "w_firstPos2ndPass w2 = (if \<bar>?l\<bar> > 3 then max (w_firstPos2ndPass w) (int k) else w_firstPos2ndPass w)"
    by blast
  let ?w = "w2\<lparr>w_state := nextState T (w_state w2) ?l\<rparr>"
  let ?r = "r2\<lparr>r_state := nextState T (r_state r2) (r_coeff r2 (blockPos c0 k))\<rparr>"
  have "codes pm_inv (write_level pm cf T inferSigPos k w) ?w (read_level pm T inferSigPos k r) ?r"
    unfolding write_level_def read_level_def Let_def mw(1) mr(1)
    by (rule codes_bind [OF c1], unfold prod.case, rule codes_bind [OF c2 codes_return])
  moreover have "nextState T (r_state r2) (r_coeff r2 (blockPos c0 k)) = nextState T (w_state w2) ?l"
  proof -
    have "r_state r2 = w_state w2" "r_coeff r2 (blockPos c0 k) = capped \<bar>?l\<bar>"
      using s2 view_at [OF v2 g(2)] by (simp_all add: sync_def)
    then show ?thesis using nextState_cong [OF capped_parity] by simp
  qed
  then have "sync c0 cf (sp @ (if ?l \<noteq> 0 then [k] else [])) ?w ?r" using s2 by (simp add: sync_def)
  ultimately show ?thesis using v2 f2 by (intro exI [of _ ?w] exI [of _ ?r]) simp
qed

end

text \<open>After the first pass over the positions from \<open>lo + j\<close> up to \<open>hi\<close>.\<close>

definition sigs :: "CoeffCodingContext \<Rightarrow> (nat \<Rightarrow> int) \<Rightarrow> nat \<Rightarrow> nat \<Rightarrow> nat list" where
  "sigs c0 cf from hi = filter (\<lambda>m. cf (blockPos c0 m) \<noteq> 0) (rev [from..<hi])"

definition pass1 :: "CoeffCodingContext \<Rightarrow> (nat \<Rightarrow> int) \<Rightarrow> nat \<Rightarrow> nat \<Rightarrow> nat \<Rightarrow> int" where
  "pass1 c0 cf from hi m = (if hi \<le> m then cf (blockPos c0 m) else if from \<le> m then capped \<bar>cf (blockPos c0 m)\<bar> else 0)"

definition covers :: "CoeffCodingContext \<Rightarrow> (nat \<Rightarrow> int) \<Rightarrow> nat \<Rightarrow> nat \<Rightarrow> int \<Rightarrow> bool" where
  "covers c0 cf from hi f \<longleftrightarrow> f < int hi \<and> (\<forall>m. from \<le> m \<and> m < hi \<and> 4 \<le> \<bar>cf (blockPos c0 m)\<bar> \<longrightarrow> int m \<le> f)"

lemma covers_step:
  assumes "covers c0 cf (Suc k) hi f" "k < hi"
  shows "covers c0 cf k hi (if \<bar>cf (blockPos c0 k)\<bar> > 3 then max f (int k) else f)"
  unfolding covers_def
proof (intro conjI allI impI)
  show "(if \<bar>cf (blockPos c0 k)\<bar> > 3 then max f (int k) else f) < int hi" using assms by (simp add: covers_def)
  fix m assume m: "k \<le> m \<and> m < hi \<and> 4 \<le> \<bar>cf (blockPos c0 m)\<bar>"
  show "int m \<le> (if \<bar>cf (blockPos c0 k)\<bar> > 3 then max f (int k) else f)"
  proof (cases "m = k")
    case False
    then have "int m \<le> f" using m assms by (simp add: covers_def)
    then show ?thesis by (simp add: max.coboundedI1)
  qed (use m in simp)
qed

lemma sigs_step: "k < hi \<Longrightarrow> sigs c0 cf k hi = sigs c0 cf (Suc k) hi @ (if cf (blockPos c0 k) \<noteq> 0 then [k] else [])"
  by (simp add: sigs_def upt_conv_Cons)

lemma sigs_set: "set (sigs c0 cf from hi) = {m. from \<le> m \<and> m < hi \<and> cf (blockPos c0 m) \<noteq> 0}"
  by (auto simp: sigs_def)

lemma capped_idem: "capped (capped \<bar>a\<bar>) = capped \<bar>a\<bar>"
proof -
  have "(4 + a mod 2) mod 2 = a mod 2" "\<bar>a\<bar> mod 2 = a mod 2" "0 \<le> a mod 2" by presburger+
  then show ?thesis by (auto simp: capped_def min_def)
qed

lemma capped_nonneg: "0 \<le> capped \<bar>a\<bar>"
proof -
  have "0 \<le> \<bar>a\<bar> mod 2" by simp
  then show ?thesis unfolding capped_def by linarith
qed

context prob_model
begin

lemma levels_trip:
  assumes g: "geom_ok c0 N" "hi \<le> N" and n: "lo + n \<le> hi"
    and s: "sync c0 cf (sigs c0 cf (lo + n) hi) w r" and v: "view c0 N cf (pass1 c0 cf (lo + n) hi) (r_coeff r)"
    and last: "lo + n \<le> m_scanPosLast c0 \<or> lo + n = hi"
    and lastHi: "hi \<le> m_scanPosLast c0 + 1"
    and infer: "\<And>k. int k = inferSigPos \<Longrightarrow> lo \<le> k \<Longrightarrow> k < hi \<Longrightarrow> sigs c0 cf (Suc k) hi = [] \<Longrightarrow> cf (blockPos c0 k) \<noteq> 0"
    and f: "covers c0 cf (lo + n) hi (w_firstPos2ndPass w)"
  shows "\<exists>left w' r'. codes pm_inv (write_levels pm cf T inferSigPos lo n w) (left, w') (read_levels pm T inferSigPos lo n r) (left, r') \<and>
    left \<le> n \<and> sync c0 cf (sigs c0 cf (lo + left) hi) w' r' \<and> view c0 N cf (pass1 c0 cf (lo + left) hi) (r_coeff r') \<and>
    covers c0 cf (lo + left) hi (w_firstPos2ndPass w')"
  using n s v last f
proof (induction n arbitrary: w r)
  case 0
  have "codes pm_inv (write_levels pm cf T inferSigPos lo 0 w) (0, w) (read_levels pm T inferSigPos lo 0 r) (0, r)"
    by (rule codes_cong [OF codes_return]) simp_all
  then show ?case using 0 by fastforce
next
  case (Suc n)
  let ?k = "lo + n"
  have k: "?k < hi" "?k < N" using Suc.prems(1) g(2) by simp_all
  have rem: "r_remRegBins r = w_remRegBins w" using Suc.prems(2) by (simp add: sync_def)
  show ?case
  proof (cases "w_remRegBins w \<ge> 4")
    case False
    have "codes pm_inv (write_levels pm cf T inferSigPos lo (Suc n) w) (Suc n, w)
        (read_levels pm T inferSigPos lo (Suc n) r) (Suc n, r)"
      by (rule codes_cong [OF codes_return]) (use False in \<open>simp_all add: rem\<close>)
    then show ?thesis using Suc.prems by blast
  next
    case True
    have p: "pass1 c0 cf (lo + Suc n) hi ?k = 0" using k by (simp add: pass1_def)
    have first: "sigs c0 cf (lo + Suc n) hi = []" if "?k = m_scanPosLast c0"
      using Suc.prems(4) that by (auto simp: sigs_def)
    have before: "capped \<bar>pass1 c0 cf (lo + Suc n) hi m\<bar> = capped \<bar>cf (blockPos c0 m)\<bar>" if "?k < m" for m
      using that capped_idem capped_nonneg by (simp add: pass1_def)
    have inf: "cf (blockPos c0 ?k) \<noteq> 0" if "sigs c0 cf (lo + Suc n) hi = []" "int ?k = inferSigPos"
      using infer [OF that(2) _ k(1)] that(1) by simp
    obtain w1 r1 where c1: "codes pm_inv (write_level pm cf T inferSigPos ?k w) w1 (read_level pm T inferSigPos ?k r) r1"
      and s1: "sync c0 cf (sigs c0 cf (lo + Suc n) hi @ (if cf (blockPos c0 ?k) \<noteq> 0 then [?k] else [])) w1 r1"
      and v1: "view c0 N cf ((pass1 c0 cf (lo + Suc n) hi)(?k := capped \<bar>cf (blockPos c0 ?k)\<bar>)) (r_coeff r1)"
      and f1: "w_firstPos2ndPass w1 = (if \<bar>cf (blockPos c0 ?k)\<bar> > 3 then max (w_firstPos2ndPass w) (int ?k) else w_firstPos2ndPass w)"
      using level_trip [where P = "pass1 c0 cf (lo + Suc n) hi", OF Suc.prems(2,3) g(1) k(2) p first before inf] by blast
    have v2: "view c0 N cf (pass1 c0 cf (lo + n) hi) (r_coeff r1)"
      by (rule view_cong [OF v1]) (use k in \<open>auto simp: pass1_def\<close>)
    have s2: "sync c0 cf (sigs c0 cf (lo + n) hi) w1 r1" using s1 sigs_step [OF k(1)] by simp
    have f2: "covers c0 cf (lo + n) hi (w_firstPos2ndPass w1)"
      using covers_step [OF _ k(1)] Suc.prems(5) unfolding f1 by simp
    have l2: "lo + n \<le> m_scanPosLast c0 \<or> lo + n = hi" using Suc.prems(4) lastHi k by auto
    obtain left w' r' where IH: "codes pm_inv (write_levels pm cf T inferSigPos lo n w1) (left, w') (read_levels pm T inferSigPos lo n r1) (left, r')"
      "left \<le> n" "sync c0 cf (sigs c0 cf (lo + left) hi) w' r'" "view c0 N cf (pass1 c0 cf (lo + left) hi) (r_coeff r')"
      "covers c0 cf (lo + left) hi (w_firstPos2ndPass w')"
      using Suc.IH [OF _ s2 v2 l2 f2] Suc.prems(1) by auto
    have "codes pm_inv (write_levels pm cf T inferSigPos lo (Suc n) w) (left, w') (read_levels pm T inferSigPos lo (Suc n) r) (left, r')"
      by (rule codes_cong [OF codes_bind [where ?E2.0 = "write_levels pm cf T inferSigPos lo n" and
          ?D2.0 = "read_levels pm T inferSigPos lo n", OF c1 IH(1)]]) (use True in \<open>simp_all add: rem\<close>)
    then show ?thesis using IH by (meson le_SucI)
  qed
qed

end


end
