(* ===== verification/ResidualTrip.thy ===== *)
theory ResidualTrip
  imports ResidualSync
begin

text \<open>
  Coefficient coding is lossless, continued: the bypass-coded passes, the signs, the last position, a
  subblock and the loop over the subblocks, and the round trip of \<open>residual_coding\<close>.
\<close>

section \<open>The bypass passes\<close>

definition coeffs_ok :: "CoeffCodingContext \<Rightarrow> (nat \<Rightarrow> int) \<Rightarrow> bool" where
  "coeffs_ok c cf \<longleftrightarrow> 15 \<le> m_maxLog2TrDynamicRange c \<and> m_maxLog2TrDynamicRange c \<le> 20 \<and>
    (\<forall>p. - (2 ^ m_maxLog2TrDynamicRange c) \<le> cf p \<and> cf p \<le> 2 ^ m_maxLog2TrDynamicRange c - 1)"

lemma coeffs_abs: "coeffs_ok c cf \<Longrightarrow> \<bar>cf p\<bar> \<le> 2 ^ m_maxLog2TrDynamicRange c"
proof -
  assume "coeffs_ok c cf"
  then have "- (2 ^ m_maxLog2TrDynamicRange c) \<le> cf p" "cf p \<le> 2 ^ m_maxLog2TrDynamicRange c - 1" by (simp_all add: coeffs_ok_def)
  then show ?thesis by linarith
qed

lemma rem_ok:
  assumes m: "15 \<le> m" "m \<le> 20" and r: "r \<le> 11" and b: "0 \<le> b" "b \<le> 2 ^ m \<or> b \<le> 2 * 2 ^ r"
  shows "op_ok (RemAbsEP r 5 m b)"
proof -
  have p: "(2 :: int) ^ r \<le> 2 ^ 11" "(2 :: int) ^ m \<le> 2 ^ 20" "(2 :: int) ^ 7 \<le> 2 ^ (32 - 5 - m)" "(1 :: int) \<le> 2 ^ r" "(1 :: int) \<le> 2 ^ m"
    using m r by (intro power_increasing; simp)+ simp_all
  have "132 * 2 ^ r \<le> (2 ^ (32 - 5 - m) - 1 + int 5) * (2 :: int) ^ r" using p by (intro mult_right_mono) auto
  then have "b < (2 ^ (32 - 5 - m) - 1 + int 5) * 2 ^ r + 2 ^ m" using b(2) p by linarith
  moreover have "b < 2 ^ 32" "int 5 * 2 ^ r < 2 ^ 32" using b(2) p by auto
  ultimately show ?thesis using m r b(1) unfolding op_ok.simps by simp
qed

lemma coded_remainder:
  assumes "coeffs_ok c cf" "r \<le> 11" "0 \<le> b" "b \<le> 2 ^ m_maxLog2TrDynamicRange c \<or> b \<le> 2 * 2 ^ r"
  shows "coded pinv (encodeRemAbsEP b r COEF_REMAIN_BIN_REDUCTION (m_maxLog2TrDynamicRange c))
    (decodeRemAbsEP r COEF_REMAIN_BIN_REDUCTION (m_maxLog2TrDynamicRange c)) b"
  unfolding COEF_REMAIN_BIN_REDUCTION_def
  by (rule coded_remAbs, rule rem_ok) (use assms in \<open>simp_all add: coeffs_ok_def\<close>)

lemma sync_updateRice:
  assumes "sync c0 cf sp w r"
  shows "sync c0 cf sp (write_updateRice rem b w) (read_updateRice rem b r)" "r_coeff (read_updateRice rem b r) = r_coeff r"
  using assms same_geom_updates(2)
  by (auto simp: sync_def write_updateRice_def read_updateRice_def same_tmpl_def)

text \<open>The writer skips the levels above the first large one; so does the reader, finding them small.\<close>

lemma write_remainders_skip:
  assumes "k \<le> K" "\<And>m. base + k \<le> m \<Longrightarrow> m < base + K \<Longrightarrow> \<bar>cf (blockPos (w_cctx w) m)\<bar> < 4"
  shows "write_remainders cf bl base k w e = write_remainders cf bl base K w e"
  using assms
proof (induction K)
  case (Suc K)
  show ?case
  proof (cases "k = Suc K")
    case False
    then have "\<not> \<bar>cf (blockPos (w_cctx w) (base + K))\<bar> \<ge> 4" using Suc.prems by (simp add: not_le)
    moreover have "write_remainders cf bl base k w e = write_remainders cf bl base K w e" using Suc False by simp
    ultimately show ?thesis by (simp add: Let_def)
  qed simp
qed simp

definition pass2 :: "CoeffCodingContext \<Rightarrow> (nat \<Rightarrow> int) \<Rightarrow> nat \<Rightarrow> nat \<Rightarrow> nat \<Rightarrow> nat \<Rightarrow> int" where
  "pass2 c0 cf base from hi m = (if hi \<le> m then cf (blockPos c0 m) else if from \<le> m then \<bar>cf (blockPos c0 m)\<bar>
     else if base \<le> m then capped \<bar>cf (blockPos c0 m)\<bar> else 0)"

lemma capped_small: "capped \<bar>a\<bar> \<ge> 4 \<longleftrightarrow> \<bar>a\<bar> \<ge> 4" "\<not> \<bar>a\<bar> \<ge> 4 \<Longrightarrow> capped \<bar>a\<bar> = \<bar>a\<bar>"
  "\<bar>a\<bar> \<ge> 4 \<Longrightarrow> capped \<bar>a\<bar> + 2 * ((\<bar>a\<bar> - 4) div 2) = \<bar>a\<bar>"
proof -
  have "0 \<le> \<bar>a\<bar> mod 2" "\<bar>a\<bar> mod 2 \<le> 1" by auto
  then show "capped \<bar>a\<bar> \<ge> 4 \<longleftrightarrow> \<bar>a\<bar> \<ge> 4" "\<not> \<bar>a\<bar> \<ge> 4 \<Longrightarrow> capped \<bar>a\<bar> = \<bar>a\<bar>"
    unfolding capped_def by linarith+
  show "\<bar>a\<bar> \<ge> 4 \<Longrightarrow> capped \<bar>a\<bar> + 2 * ((\<bar>a\<bar> - 4) div 2) = \<bar>a\<bar>"
    unfolding capped_def by presburger
qed

lemma remainders_trip:
  assumes g: "geom_ok c0 N" "hi \<le> N" and ok: "coeffs_ok c0 cf" and k: "base + k \<le> hi"
    and s: "sync c0 cf sp w r" and v: "view c0 N cf (pass2 c0 cf base (base + k) hi) (r_coeff r)"
  shows "\<exists>w' r'. codes pinv (write_remainders cf bl base k w) w' (read_remainders bl base k r) r' \<and>
    sync c0 cf sp w' r' \<and> view c0 N cf (pass2 c0 cf base base hi) (r_coeff r')"
  using k s v
proof (induction k arbitrary: w r)
  case 0
  have "codes pinv (write_remainders cf bl base 0 w) w (read_remainders bl base 0 r) r"
    by (rule codes_cong [OF codes_return]) simp_all
  then show ?case using 0 by fastforce
next
  case (Suc k)
  let ?p = "base + k" and ?a = "\<bar>cf (blockPos c0 (base + k))\<bar>"
  have p: "?p < hi" "?p < N" using Suc.prems(1) g(2) by simp_all
  have gw: "same_geom c0 (w_cctx w)" and gr: "same_geom c0 (r_cctx r)" using Suc.prems(2) by (simp_all add: sync_def)
  note mw = same_geom_members [OF gw] and mr = same_geom_members [OF gr]
  have rc: "r_coeff r (blockPos c0 ?p) = capped ?a" using view_at [OF Suc.prems(3) p(2)] p by (simp add: pass2_def)
  show ?case
  proof (cases "?a \<ge> 4")
    case False
    have "view c0 N cf (pass2 c0 cf base ?p hi) (r_coeff r)"
      by (rule view_cong [OF Suc.prems(3)]) (use False p in \<open>auto simp: pass2_def capped_small(2) order_le_less Suc_le_eq\<close>)
    then obtain w' r' where IH: "codes pinv (write_remainders cf bl base k w) w' (read_remainders bl base k r) r'"
      "sync c0 cf sp w' r'" "view c0 N cf (pass2 c0 cf base base hi) (r_coeff r')"
      using Suc.IH [OF _ Suc.prems(2)] Suc.prems(1) by auto
    have "codes pinv (write_remainders cf bl base (Suc k) w) w' (read_remainders bl base (Suc k) r) r'"
      by (rule codes_cong [OF IH(1)]) (use False capped_small(1) in \<open>simp_all add: Let_def mw mr rc\<close>)
    then show ?thesis using IH by blast
  next
    case True
    define rice where "rice = deriveRiceRRC ?p cf bl (w_cctx w)"
    define rem where "rem = (?a - 4) div 2"
    have "\<bar>r_coeff r q\<bar> = \<bar>cf q\<bar>" if "q \<in> set (templateOf c0 ?p)" for q
      by (rule view_template [OF Suc.prems(3) g(1) p(2) that, of abs]) (simp add: pass2_def)
    then have rr: "deriveRiceRRC ?p (r_coeff r) bl (r_cctx r) = rice" unfolding rice_def by (intro templateSum_cong [OF gr gw])
    let ?w = "write_updateRice rem True w"
    let ?r = "read_updateRice rem True (r\<lparr>r_coeff := (r_coeff r)(blockPos c0 ?p := capped ?a + 2 * rem)\<rparr>)"
    have "sync c0 cf sp w (r\<lparr>r_coeff := z\<rparr>)" for z using Suc.prems(2) by (simp add: sync_def)
    note s1 = sync_updateRice [OF this [of "(r_coeff r)(blockPos c0 ?p := capped ?a + 2 * rem)"], of rem True]
    have "view c0 N cf (pass2 c0 cf base ?p hi) ((r_coeff r)(blockPos c0 ?p := ?a))"
      by (rule view_cong [OF view_update [OF Suc.prems(3) g(1) p(2)]]) (use p in \<open>auto simp: pass2_def order_le_less Suc_le_eq\<close>)
    then have "view c0 N cf (pass2 c0 cf base ?p hi) (r_coeff ?r)"
      using s1(2) capped_small(3) [OF True] by (simp add: rem_def)
    then obtain w' r' where IH: "codes pinv (write_remainders cf bl base k ?w) w' (read_remainders bl base k ?r) r'"
      "sync c0 cf sp w' r'" "view c0 N cf (pass2 c0 cf base base hi) (r_coeff r')"
      using Suc.IH [OF _ s1(1)] Suc.prems(1) by auto
    have "rem \<le> 2 ^ m_maxLog2TrDynamicRange c0" "0 \<le> rem" using coeffs_abs [OF ok, of "blockPos c0 ?p"] True by (auto simp: rem_def)
    then have "coded pinv (encodeRemAbsEP rem rice COEF_REMAIN_BIN_REDUCTION (m_maxLog2TrDynamicRange c0))
        (decodeRemAbsEP rice COEF_REMAIN_BIN_REDUCTION (m_maxLog2TrDynamicRange c0)) rem"
      using coded_remainder [OF ok] deriveRiceRRC_le unfolding rice_def by blast
    from codes_bin [where ?E2.0 = "write_remainders cf bl base k ?w" and ?D2.0 = "\<lambda>rem. read_remainders bl base k
        (read_updateRice rem True (r\<lparr>r_coeff := (r_coeff r)(blockPos c0 ?p := capped ?a + 2 * rem)\<rparr>))", OF this IH(1)]
    have "codes pinv (write_remainders cf bl base (Suc k) w) w' (read_remainders bl base (Suc k) r) r'"
      by (rule codes_cong) (use True capped_small(1) in \<open>simp_all add: Let_def mw mr rc rr flip: rice_def rem_def\<close>)
    then show ?thesis using IH by blast
  qed
qed


definition bypass_rem :: "int \<Rightarrow> int \<Rightarrow> int" where
  "bypass_rem pos0 a = (if a = 0 then pos0 else if a \<le> pos0 then a - 1 else a)"

lemma bypass_rem_inverse:
  "0 \<le> a \<Longrightarrow> 0 < pos0 \<Longrightarrow> (if bypass_rem pos0 a = pos0 then 0 else if bypass_rem pos0 a < pos0 then bypass_rem pos0 a + 1 else bypass_rem pos0 a) = a"
  by (auto simp: bypass_rem_def)

lemma bypass_pos0: "0 < g_goRicePosCoeff0 st rice" "g_goRicePosCoeff0 st rice \<le> 2 * 2 ^ rice"
  by (simp_all add: g_goRicePosCoeff0_def push_bit_eq_mult)

lemma coded_bypass_rem:
  assumes "coeffs_ok c cf" "r \<le> 11"
  shows "coded pinv (encodeRemAbsEP (bypass_rem (g_goRicePosCoeff0 st r) \<bar>cf p\<bar>) r COEF_REMAIN_BIN_REDUCTION (m_maxLog2TrDynamicRange c))
    (decodeRemAbsEP r COEF_REMAIN_BIN_REDUCTION (m_maxLog2TrDynamicRange c)) (bypass_rem (g_goRicePosCoeff0 st r) \<bar>cf p\<bar>)"
  using coeffs_abs [OF assms(1), of p] bypass_pos0 [of st r]
  by (intro coded_remainder [OF assms]) (auto simp: bypass_rem_def)

definition bypass_note :: "nat \<Rightarrow> int \<Rightarrow> WriteState \<Rightarrow> WriteState" where
  "bypass_note k v w = (if v \<noteq> 0 then
     w\<lparr>w_numNonZero := w_numNonZero w + 1, w_firstNZPos := int k, w_lastNZPos := max (w_lastNZPos w) (int k),
       w_signPattern := (if v < 0 then 2 * w_signPattern w + 1 else 2 * w_signPattern w)\<rparr> else w)"

definition bypass_seen :: "nat \<Rightarrow> nat \<Rightarrow> int \<Rightarrow> ReadState \<Rightarrow> ReadState" where
  "bypass_seen k blkPos a r = (if a \<noteq> 0 then
     r\<lparr>r_sigBlkPos := r_sigBlkPos r @ [blkPos], r_firstNZPos := int k, r_lastNZPos := max (r_lastNZPos r) (int k),
       r_coeff := (r_coeff r)(blkPos := a)\<rparr> else r)"

lemma sync_note:
  assumes "sync c0 cf sp w r"
  shows "sync c0 cf (sp @ (if cf (blockPos c0 k) \<noteq> 0 then [k] else [])) (bypass_note k (cf (blockPos c0 k)) w)
    (bypass_seen k (blockPos c0 k) \<bar>cf (blockPos c0 k)\<bar> r)"
  using assms by (simp add: sync_def bypass_note_def bypass_seen_def val_of_snoc)

lemma bypass_trip:
  assumes g: "geom_ok c0 N" "hi \<le> N" and ok: "coeffs_ok c0 cf" and n: "lo + n \<le> hi"
    and s: "sync c0 cf (sigs c0 cf (lo + n) hi) w r" and v: "view c0 N cf (pass2 c0 cf (lo + n) (lo + n) hi) (r_coeff r)"
  shows "\<exists>w' r'. codes pinv (write_bypass cf T lo n w) w' (read_bypass T lo n r) r' \<and>
    sync c0 cf (sigs c0 cf lo hi) w' r' \<and> view c0 N cf (pass2 c0 cf lo lo hi) (r_coeff r')"
  using n s v
proof (induction n arbitrary: w r)
  case 0
  have "codes pinv (write_bypass cf T lo 0 w) w (read_bypass T lo 0 r) r"
    by (rule codes_cong [OF codes_return]) simp_all
  then show ?case using 0 by fastforce
next
  case (Suc n)
  let ?k = "lo + n" and ?a = "\<bar>cf (blockPos c0 (lo + n))\<bar>"
  have k: "?k < hi" "?k < N" using Suc.prems(1) g(2) by simp_all
  have gw: "same_geom c0 (w_cctx w)" and gr: "same_geom c0 (r_cctx r)" and st: "r_state r = w_state w"
    using Suc.prems(2) by (simp_all add: sync_def)
  note mw = same_geom_members [OF gw] and mr = same_geom_members [OF gr]
  define rice where "rice = deriveRiceRRC ?k cf 0 (w_cctx w)"
  define rem where "rem = bypass_rem (g_goRicePosCoeff0 (w_state w) rice) ?a"
  have "\<bar>r_coeff r q\<bar> = \<bar>cf q\<bar>" if "q \<in> set (templateOf c0 ?k)" for q
    by (rule view_template [OF Suc.prems(3) g(1) k(2) that, of abs]) (simp add: pass2_def)
  then have rr: "deriveRiceRRC ?k (r_coeff r) 0 (r_cctx r) = rice" unfolding rice_def by (intro templateSum_cong [OF gr gw])
  define w1 where "w1 = write_updateRice rem False (w\<lparr>w_state := nextState T (w_state w) ?a\<rparr>)"
  define r1 where "r1 = read_updateRice rem False (r\<lparr>r_state := nextState T (r_state r) ?a\<rparr>)"
  have "sync c0 cf (sigs c0 cf (lo + Suc n) hi) (w\<lparr>w_state := nextState T (w_state w) ?a\<rparr>) (r\<lparr>r_state := nextState T (r_state r) ?a\<rparr>)"
    using Suc.prems(2) st by (simp add: sync_def)
  from sync_updateRice [OF this, of rem False]
  have s1: "sync c0 cf (sigs c0 cf (Suc ?k) hi) w1 r1" and rc: "r_coeff r1 = r_coeff r" by (simp_all add: w1_def r1_def)
  have mr1: "blockPos (r_cctx r1) = blockPos c0" using s1 same_geom_members(1) by (simp add: sync_def)
  let ?w = "bypass_note ?k (cf (blockPos c0 ?k)) w1" and ?r = "bypass_seen ?k (blockPos c0 ?k) ?a r1"
  have s2: "sync c0 cf (sigs c0 cf ?k hi) ?w ?r" using sync_note [OF s1] unfolding sigs_step [OF k(1)] .
  have "r_coeff ?r = (r_coeff r)(blockPos c0 ?k := ?a)"
  proof (cases "?a = 0")
    case True
    have "r_coeff r (blockPos c0 ?k) = 0" using view_at [OF Suc.prems(3) k(2)] k by (simp add: pass2_def)
    then show ?thesis using True rc by (simp add: bypass_seen_def fun_eq_iff)
  qed (simp add: bypass_seen_def rc)
  then have v2: "view c0 N cf (pass2 c0 cf ?k ?k hi) (r_coeff ?r)"
    using view_cong [OF view_update [OF Suc.prems(3) g(1) k(2), of ?a], of "pass2 c0 cf ?k ?k hi"] k
    by (simp add: pass2_def)
  obtain w' r' where IH: "codes pinv (write_bypass cf T lo n ?w) w' (read_bypass T lo n ?r) r'"
    "sync c0 cf (sigs c0 cf lo hi) w' r'" "view c0 N cf (pass2 c0 cf lo lo hi) (r_coeff r')"
    using Suc.IH [OF _ s2 v2] Suc.prems(1) by auto
  have "rice \<le> 11" unfolding rice_def by (rule deriveRiceRRC_le)
  note c = coded_bypass_rem [OF ok this, where st = "w_state w" and p = "blockPos c0 ?k" and pinv = pinv, folded rem_def]
  define D where "D = (\<lambda>rem. let tcoeff = (if rem = g_goRicePosCoeff0 (w_state w) rice then 0
        else if rem < g_goRicePosCoeff0 (w_state w) rice then rem + 1 else rem);
      r' = read_updateRice rem False (r\<lparr>r_state := nextState T (r_state r) tcoeff\<rparr>)
    in read_bypass T lo n (bypass_seen ?k (blockPos (r_cctx r') ?k) tcoeff r') :: 'a BinDecoder \<Rightarrow> _)"
  have tc: "(if rem = g_goRicePosCoeff0 (w_state w) rice then 0
      else if rem < g_goRicePosCoeff0 (w_state w) rice then rem + 1 else rem) = ?a"
    unfolding rem_def by (rule bypass_rem_inverse) (simp_all add: bypass_pos0)
  have D: "D rem = read_bypass T lo n ?r"
    unfolding D_def Let_def tc mr1 [unfolded r1_def] r1_def ..
  have "codes pinv (write_bypass cf T lo (Suc n) w) w' (read_bypass T lo (Suc n) r) r'"
  proof (rule codes_cong [OF codes_bin [where ?E2.0 = "write_bypass cf T lo n ?w" and ?D2.0 = D, OF c]])
    show "codes pinv (write_bypass cf T lo n ?w) w' (D rem) r'" using IH(1) unfolding D .
    show "write_bypass cf T lo (Suc n) w e = Option.bind (encodeRemAbsEP rem rice COEF_REMAIN_BIN_REDUCTION (m_maxLog2TrDynamicRange c0) e)
        (write_bypass cf T lo n ?w)" for e
      by (simp add: Let_def mw bypass_note_def w1_def rem_def bypass_rem_def flip: rice_def)
    show "read_bypass T lo (Suc n) r d = Option.bind (decodeRemAbsEP rice COEF_REMAIN_BIN_REDUCTION (m_maxLog2TrDynamicRange c0) d)
        (\<lambda>(v, d). D v d)" for d
      unfolding D_def bypass_seen_def read_bypass.simps Let_def rr st mr(6) ..
  qed simp_all
  then show ?case using IH by blast
qed

section \<open>The signs\<close>

text \<open>The register the sign bits are consumed from.\<close>

definition sign_register :: "bool list \<Rightarrow> int" where
  "sign_register bs = val_of bs * 2 ^ (32 - length bs)"

lemma sign_register_Cons:
  assumes "length bs < 32"
  shows "sign_register (b # bs) div 2 ^ 31 mod 2 = of_bool b" "u32 (2 * sign_register (b # bs)) = sign_register bs"
proof -
  let ?t = "val_of bs * 2 ^ (31 - length bs)"
  have e: "2 ^ length bs * 2 ^ (31 - length bs) = (2 :: int) ^ 31" "2 * 2 ^ (31 - length bs) = (2 :: int) ^ (32 - length bs)"
    using assms by (simp_all flip: power_add power_Suc add: Suc_diff_le)
  have t: "0 \<le> ?t" "?t < 2 ^ 31"
    using mult_strict_right_mono [OF val_of_less [of bs], of "2 ^ (31 - length bs)"] unfolding e by simp_all
  have r: "sign_register (b # bs) = of_bool b * 2 ^ 31 + ?t"
    using e(1) by (simp add: sign_register_def algebra_simps)
  show "sign_register (b # bs) div 2 ^ 31 mod 2 = of_bool b" unfolding r using t by (simp add: div_add1_eq)
  have "2 * sign_register (b # bs) = of_bool b * 2 ^ 32 + sign_register bs"
    unfolding r using e(2) by (simp add: sign_register_def algebra_simps)
  moreover have "sign_register bs = 2 * ?t" using e(2) by (simp add: sign_register_def algebra_simps)
  ultimately show "u32 (2 * sign_register (b # bs)) = sign_register bs" using t by (simp add: u32_def)
qed

lemma range_ok: "coeffs_ok c cf \<Longrightarrow> checkCoeffInRange c (cf p) = Some ()"
  by (simp add: checkCoeffInRange_def coeffs_ok_def not_less check_def)

lemma set_signs_Some:
  assumes "length ps \<le> 32" "distinct ps" "\<And>p. p \<in> set ps \<Longrightarrow> coeff p = \<bar>cf p\<bar>" "coeffs_ok c cf"
  shows "set_signs c ps (sign_register (map (\<lambda>p. cf p < 0) ps)) s coeff =
    Some (s + sum_list (map (\<lambda>p. \<bar>cf p\<bar>) ps), \<lambda>p. if p \<in> set ps then cf p else coeff p)"
  using assms
proof (induction ps arbitrary: s coeff)
  case (Cons q ps)
  note reg = sign_register_Cons [of "map (\<lambda>p. cf p < 0) ps" "cf q < 0"]
  have v: "(if sign_register (map (\<lambda>p. cf p < 0) (q # ps)) div 2 ^ 31 mod 2 \<noteq> 0 then - coeff q else coeff q) = cf q"
    using reg(1) Cons.prems(1,3) by simp
  have "set_signs c ps (sign_register (map (\<lambda>p. cf p < 0) ps)) (s + \<bar>cf q\<bar>) (coeff(q := cf q)) =
      Some (s + \<bar>cf q\<bar> + sum_list (map (\<lambda>p. \<bar>cf p\<bar>) ps), \<lambda>p. if p \<in> set ps then cf p else (coeff(q := cf q)) p)"
    using Cons.prems by (intro Cons.IH) auto
  moreover have "u32 (2 * sign_register (map (\<lambda>p. cf p < 0) (q # ps))) = sign_register (map (\<lambda>p. cf p < 0) ps)"
    using reg(2) Cons.prems(1) by simp
  ultimately show ?case
    using v range_ok [OF Cons.prems(4), of q] Cons.prems(3) [of q] unfolding set_signs.simps Let_def by (auto simp: fun_eq_iff)
qed (simp add: fun_eq_iff)

text \<open>What an encoder hiding signs has to ensure of a subblock: the sign it leaves out is the parity of the sum.\<close>

definition parity_ok :: "CoeffCodingContext \<Rightarrow> (nat \<Rightarrow> int) \<Rightarrow> nat list \<Rightarrow> bool" where
  "parity_ok c cf sp \<longleftrightarrow> sp = [] \<or> \<not> hideSign c (int (last sp)) (int (hd sp)) \<or>
    (odd (sum_list (map (\<lambda>m. \<bar>cf (blockPos c m)\<bar>) sp)) \<longleftrightarrow> cf (blockPos c (last sp)) < 0)"

lemma foldl_max_hd: "sorted_wrt (>) sp \<Longrightarrow> sp \<noteq> [] \<Longrightarrow> foldl (\<lambda>x m. max x (int m)) (- 1) sp = int (hd sp)"
proof (induction sp rule: rev_induct)
  case (snoc x sp)
  then show ?case by (cases "sp = []") (auto simp: sorted_wrt_append)
qed simp

lemma sigs_sorted: "sorted_wrt (>) (sigs c0 cf from hi)"
proof -
  have "sorted_wrt (>) (rev [from..<hi])" using sorted_wrt_upt [of "from" hi] by (simp add: sorted_wrt_rev)
  then show ?thesis unfolding sigs_def by (rule sorted_wrt_filter)
qed

lemma sigs_distinct: "distinct (sigs c0 cf from hi)"
  by (simp add: sigs_def)

lemma sigs_length: "length (sigs c0 cf from hi) \<le> hi - from"
  unfolding sigs_def by (metis length_filter_le length_rev length_upt)

lemma val_of_butlast: "val_of bs div 2 = val_of (butlast bs)"
  by (cases bs rule: rev_cases) (simp_all add: val_of_append)

lemma read_sign_bits:
  assumes "ns = length bs" "ns \<le> 32"
  shows "reads_bits (\<lambda>d. if ns > 0 then Option.bind (decodeBinsEP ns d) (\<lambda>(bins, d). Some (u32 (push_bit (32 - ns) bins), d)) else Some (0, d))
    (sign_register bs) bs"
proof (cases "ns = 0")
  case True
  then show ?thesis using assms reads_bits_Nil by (simp add: sign_register_def)
next
  case False
  have v: "0 \<le> val_of bs" "val_of bs < 2 ^ ns" using val_of_less assms by simp_all
  have "val_of bs * 2 ^ (32 - ns) < 2 ^ ns * 2 ^ (32 - ns)" using v(2) by (intro mult_strict_right_mono) simp_all
  also have "\<dots> = (2 :: int) ^ 32" using assms by (simp flip: power_add)
  finally have "u32 (push_bit (32 - ns) (val_of bs)) = sign_register bs"
    using v(1) assms by (simp add: u32_def push_bit_eq_mult sign_register_def)
  then have "reads_bits (\<lambda>d. Option.bind (decodeBinsEP ns d) (\<lambda>(bins, d). Some (u32 (push_bit (32 - ns) bins), d)))
      (sign_register bs) (bits_of ns (val_of bs) @ [])"
    by (intro reads_bits_append [OF decodeBinsEP_bits [OF assms(2) v]]) (simp add: reads_bits_Nil)
  then show ?thesis using False assms by simp
qed

lemma parity_sign: "odd (S + \<bar>a\<bar>) \<longleftrightarrow> a < 0 \<Longrightarrow> (if (S + \<bar>a\<bar>) mod 2 \<noteq> 0 then - \<bar>a\<bar> else \<bar>a\<bar>) = (a :: int)"
  by (cases "a < 0") (auto simp: even_iff_mod_2_eq_zero)

lemma signs_trip:
  assumes s: "sync c0 cf sp w r" and sp: "sp = sigs c0 cf lo hi" and ok: "coeffs_ok c0 cf" "parity_ok c0 cf sp"
    and g: "geom_ok c0 N" "hi \<le> N" "hi - lo \<le> 32" "lo \<le> hi" and v: "view c0 N cf (pass2 c0 cf lo lo hi) (r_coeff r)"
  shows "\<exists>z. coded pinv (write_signs w) (read_signs r) (r\<lparr>r_coeff := z\<rparr>) \<and>
    view c0 N cf (\<lambda>m. if lo \<le> m then cf (blockPos c0 m) else 0) z"
proof -
  note sy = s [unfolded sync_def]
  have gw: "same_geom c0 (w_cctx w)" and gr: "same_geom c0 (r_cctx r)" using sy by simp_all
  note mw = same_geom_members [OF gw] and mr = same_geom_members [OF gr]
  define ps where "ps = map (blockPos c0) sp"
  define h where "h = hideSign c0 (w_firstNZPos w) (w_lastNZPos w)"
  define ns where "ns = (if h then length ps - 1 else length ps)"
  define bs where "bs = map (\<lambda>p. cf p < 0) (take ns ps)"
  have lp: "length ps \<le> 32" using sigs_length [of c0 cf lo hi] g(3) by (simp add: ps_def sp)
  have spN: "m < N \<and> lo \<le> m \<and> cf (blockPos c0 m) \<noteq> 0 \<and> m < hi" if "m \<in> set sp" for m
    using that g(2) unfolding sp sigs_set by auto
  have inj: "inj_on (blockPos c0) (set sp)" using geom_inj [OF g(1)] spN by (auto intro!: inj_onI)
  then have dist: "distinct ps" unfolding ps_def by (simp add: distinct_map sp sigs_distinct)
  have rc: "r_coeff r p = \<bar>cf p\<bar>" if "p \<in> set ps" for p
  proof -
    obtain m where m: "m \<in> set sp" "p = blockPos c0 m" using \<open>p \<in> set ps\<close> by (auto simp: ps_def)
    then show ?thesis using spN [OF m(1)] view_at [OF v, of m] by (simp add: pass2_def)
  qed
  have ns: "ns = length bs" "ns \<le> 32" "ns \<le> length ps" using lp by (auto simp: bs_def ns_def)
  have pat: "(if h then w_signPattern w div 2 else w_signPattern w) = val_of bs"
  proof -
    have "bs = (if h then butlast (map (\<lambda>p. cf p < 0) ps) else map (\<lambda>p. cf p < 0) ps)"
      by (simp add: bs_def ns_def butlast_conv_take take_map)
    moreover have "w_signPattern w = val_of (map (\<lambda>p. cf p < 0) ps)" using sy by (simp add: ps_def comp_def)
    ultimately show ?thesis by (simp add: val_of_butlast)
  qed
  have "writes_bits (encodeBinsEP (val_of bs) ns) bs"
    using encodeBinsEP_bits [OF ns(2), of "val_of bs"] val_of_less [of bs] ns(1) by simp
  then have W: "writes_bits (write_signs w) bs"
  proof (rule writes_bits_cong)
    have "w_numNonZero w = length ps" using sy by (simp add: ps_def)
    then show "write_signs w e = encodeBinsEP (val_of bs) ns e" for e
      unfolding write_signs_def mw(7) h_def [symmetric] pat [symmetric] ns_def by simp
  qed simp
  define Z where "Z = (\<lambda>p. if p \<in> set ps then cf p else r_coeff r p)"
  let ?R = "\<lambda>v d. Option.bind (set_signs (r_cctx r) (take ns ps) v 0 (r_coeff r)) (\<lambda>(sumAbs, coeff).
      if length ps > ns then (let blkPos = ps ! ns; AbsCoeff = coeff blkPos;
             v = (if (sumAbs + AbsCoeff) mod 2 \<noteq> 0 then - AbsCoeff else AbsCoeff)
         in Option.bind (checkCoeffInRange (r_cctx r) v) (\<lambda>_. Some (r\<lparr>r_coeff := coeff(blkPos := v)\<rparr>, d)))
      else Some (r\<lparr>r_coeff := coeff\<rparr>, d))"
  have R: "?R (sign_register bs) d = Some (r\<lparr>r_coeff := Z\<rparr>, d)" for d :: "'p BinDecoder"
  proof -
    have ok': "coeffs_ok (r_cctx r) cf" using ok(1) by (simp add: coeffs_ok_def mr)
    have ss: "set_signs (r_cctx r) (take ns ps) (sign_register bs) 0 (r_coeff r) =
        Some (sum_list (map (\<lambda>p. \<bar>cf p\<bar>) (take ns ps)), \<lambda>p. if p \<in> set (take ns ps) then cf p else r_coeff r p)"
      unfolding bs_def
      by (subst set_signs_Some [where cf = cf]) (use lp dist rc ok' in \<open>auto dest: in_set_takeD\<close>)
    show ?thesis
    proof (cases "length ps > ns")
      case False
      then have "take ns ps = ps" by simp
      then show ?thesis unfolding ss using False by (simp add: Z_def)
    next
      case True
      then have h: "h" and ne: "ps \<noteq> []" and n: "ns = length ps - 1" by (auto simp: ns_def split: if_splits)
      have l: "ps ! ns = last ps" "take ns ps = butlast ps" using ne by (simp_all add: n last_conv_nth butlast_conv_take)
      have dl: "last ps \<notin> set (butlast ps)" "set ps = insert (last ps) (set (butlast ps))"
        using dist ne by (metis append_butlast_last_id distinct_append disjoint_insert(1) list.simps(15) inf_commute,
          metis append_butlast_last_id list.simps(15) set_append Un_insert_right sup_bot_right list.set(1))
      have spne: "sp \<noteq> []" using ne by (simp add: ps_def)
      have "hideSign c0 (int (last sp)) (int (hd sp))"
        using h sy spne foldl_max_hd [OF sigs_sorted, of c0 cf lo hi] by (simp add: h_def sp)
      then have "odd (sum_list (map (\<lambda>m. \<bar>cf (blockPos c0 m)\<bar>) sp)) \<longleftrightarrow> cf (blockPos c0 (last sp)) < 0"
        using ok(2) spne by (simp add: parity_ok_def)
      moreover have "sum_list (map (\<lambda>m. \<bar>cf (blockPos c0 m)\<bar>) sp) = sum_list (map (\<lambda>p. \<bar>cf p\<bar>) (butlast ps)) + \<bar>cf (last ps)\<bar>"
        using ne by (subst append_butlast_last_id [OF spne, symmetric]) (simp add: ps_def map_butlast last_map spne comp_def del: append_butlast_last_id)
      moreover have "blockPos c0 (last sp) = last ps" using spne by (simp add: ps_def last_map)
      ultimately have par: "odd (sum_list (map (\<lambda>p. \<bar>cf p\<bar>) (butlast ps)) + \<bar>cf (last ps)\<bar>) \<longleftrightarrow> cf (last ps) < 0" by simp
      have lc: "r_coeff r (last ps) = \<bar>cf (last ps)\<bar>" using rc ne by simp
      have v: "(if (sum_list (map (\<lambda>p. \<bar>cf p\<bar>) (butlast ps)) + \<bar>cf (last ps)\<bar>) mod 2 \<noteq> 0 then - \<bar>cf (last ps)\<bar> else \<bar>cf (last ps)\<bar>) = cf (last ps)"
        using par by (rule parity_sign)
      show ?thesis unfolding ss [unfolded l] l Let_def using True v dl lc range_ok [OF ok', of "last ps"]
        by (auto simp: Z_def fun_eq_iff)
    qed
  qed
  have "reads_bits (\<lambda>d. Option.bind (if ns > 0 then Option.bind (decodeBinsEP ns d) (\<lambda>(bins, d). Some (u32 (push_bit (32 - ns) bins), d))
      else Some (0, d)) (\<lambda>(v, d). ?R v d)) (r\<lparr>r_coeff := Z\<rparr>) (bs @ [])"
    by (rule reads_bits_append [OF read_sign_bits [OF ns(1,2)]]) (simp only: R reads_bits_Nil)
  then have "reads_bits (read_signs r :: 'p BinDecoder \<Rightarrow> _) (r\<lparr>r_coeff := Z\<rparr>) bs"
  proof (rule reads_bits_cong)
    have eq: "r_sigBlkPos r = ps" "r_firstNZPos r = w_firstNZPos w" "r_lastNZPos r = w_lastNZPos w" using sy by (simp_all add: ps_def)
    show "read_signs r d = Option.bind (if ns > 0 then Option.bind (decodeBinsEP ns d) (\<lambda>(bins, d). Some (u32 (push_bit (32 - ns) bins), d))
      else Some (0, d)) (\<lambda>(v, d). ?R v d)" for d :: "'p BinDecoder"
      unfolding read_signs_def Let_def eq mr(7) h_def [symmetric] ns_def [symmetric] ..
  qed simp_all
  with W have "coded pinv (write_signs w) (read_signs r) (r\<lparr>r_coeff := Z\<rparr>)" by (rule coded_bypass)
  moreover have "view c0 N cf (\<lambda>m. if lo \<le> m then cf (blockPos c0 m) else 0) Z"
    unfolding view_def
  proof (intro conjI allI impI)
    fix m assume m: "m < N"
    show "Z (blockPos c0 m) = (if lo \<le> m then cf (blockPos c0 m) else 0)"
    proof (cases "m \<in> set sp")
      case True
      then show ?thesis using spN [of m] by (simp add: Z_def ps_def)
    next
      case False
      then have "blockPos c0 m \<notin> set ps" using geom_inj [OF g(1) m] spN by (auto simp: ps_def)
      moreover have "cf (blockPos c0 m) = 0" if "lo \<le> m" "m < hi" using False that by (auto simp: sp sigs_set)
      ultimately show ?thesis using view_at [OF v m] g(4) by (auto simp: Z_def pass2_def not_le)
    qed
  next
    fix p assume p: "\<forall>m<N. p \<noteq> blockPos c0 m"
    then have "p \<notin> set ps" using spN by (auto simp: ps_def)
    then show "Z p = cf p" using v p by (simp add: Z_def view_def)
  qed
  ultimately show ?thesis by blast
qed

section \<open>A subblock\<close>

abbreviation sigFlags :: "CoeffCodingContext \<Rightarrow> nat \<Rightarrow> bool" where
  "sigFlags \<equiv> m_sigCoeffGroupFlag"

definition firstSig :: "CoeffCodingContext \<Rightarrow> nat" where
  "firstSig c = (if isLast c then m_scanPosLast c else m_maxSubPos c)"

definition inferSig :: "CoeffCodingContext \<Rightarrow> int" where
  "inferSig c = (if firstSig c \<noteq> m_scanPosLast c then (if isNotFirst c then int (m_minSubPos c) else - 1) else int (firstSig c))"

definition start_write :: "nat \<Rightarrow> int \<Rightarrow> CoeffCodingContext \<Rightarrow> WriteState" where
  "start_write state riceStats c = \<lparr>w_cctx = c, w_state = state, w_numNonZero = 0, w_firstNZPos = int (firstSig c), w_lastNZPos = - 1,
     w_signPattern = 0, w_remRegBins = regBinLimit c, w_firstPos2ndPass = int (m_minSubPos c) - 1,
     w_riceStats = riceStats, w_updateHistory = m_updateHist c\<rparr>"

definition start_read :: "nat \<Rightarrow> int \<Rightarrow> CoeffCodingContext \<Rightarrow> (nat \<Rightarrow> int) \<Rightarrow> ReadState" where
  "start_read state riceStats c coeff = \<lparr>r_cctx = c, r_coeff = coeff, r_state = state, r_sigBlkPos = [], r_firstNZPos = int (firstSig c),
     r_lastNZPos = - 1, r_remRegBins = regBinLimit c, r_riceStats = riceStats, r_updateHistory = m_updateHist c\<rparr>"

text \<open>The passes of the reader, once the subblock is known to be coded.\<close>

definition get_rest ::
  "nat \<Rightarrow> CoeffCodingContext \<Rightarrow> nat \<Rightarrow> ReadState \<Rightarrow> 'p BinDecoder \<Rightarrow> ((CoeffCodingContext \<times> nat \<times> int \<times> (nat \<Rightarrow> int)) \<times> 'p BinDecoder) option" where
  "get_rest T c left r d = (let r = r\<lparr>r_cctx := (r_cctx r)\<lparr>regBinLimit := r_remRegBins r\<rparr>\<rparr> in do {
     (r, d) \<leftarrow> read_remainders (m_cctxBaseLevel c) (m_minSubPos c + left) (firstSig c + 1 - (m_minSubPos c + left)) r d;
     (r, d) \<leftarrow> read_bypass T (m_minSubPos c) left r d;
     (r, d) \<leftarrow> read_signs r d;
     Some ((r_cctx r, r_state r, r_riceStats r, r_coeff r), d)
   })"

definition get_levels ::
  "'p BinProbModel \<Rightarrow> nat \<Rightarrow> CoeffCodingContext \<Rightarrow> ReadState \<Rightarrow> 'p BinDecoder \<Rightarrow>
    ((CoeffCodingContext \<times> nat \<times> int \<times> (nat \<Rightarrow> int)) \<times> 'p BinDecoder) option" where
  "get_levels pm T c r d = do {
     ((left, r), d) \<leftarrow> read_levels pm T (inferSig c) (m_minSubPos c) (firstSig c + 1 - m_minSubPos c) r d;
     get_rest T c left r d
   }"

definition put_rest ::
  "(nat \<Rightarrow> int) \<Rightarrow> nat \<Rightarrow> CoeffCodingContext \<Rightarrow> nat \<Rightarrow> WriteState \<Rightarrow> 'p BinEncoder \<Rightarrow> ((CoeffCodingContext \<times> nat \<times> int) \<times> 'p BinEncoder) option" where
  "put_rest cf T c left w e = (let w = w\<lparr>w_cctx := (w_cctx w)\<lparr>regBinLimit := w_remRegBins w\<rparr>\<rparr> in do {
     (w, e) \<leftarrow> write_remainders cf (m_cctxBaseLevel c) (m_minSubPos c + left)
                 (nat (w_firstPos2ndPass w + 1 - int (m_minSubPos c + left))) w e;
     (w, e) \<leftarrow> write_bypass cf T (m_minSubPos c) left w e;
     e \<leftarrow> write_signs w e;
     Some ((w_cctx w, w_state w, w_riceStats w), e)
   })"

definition put_levels ::
  "'p BinProbModel \<Rightarrow> (nat \<Rightarrow> int) \<Rightarrow> nat \<Rightarrow> CoeffCodingContext \<Rightarrow> WriteState \<Rightarrow> 'p BinEncoder \<Rightarrow>
    ((CoeffCodingContext \<times> nat \<times> int) \<times> 'p BinEncoder) option" where
  "put_levels pm cf T c w e = do {
     ((left, w), e) \<leftarrow> write_levels pm cf T (inferSig c) (m_minSubPos c) (firstSig c + 1 - m_minSubPos c) w e;
     put_rest cf T c left w e
   }"

lemma put_subblock_levels_eq: "put_subblock_levels pm cf T st rs c = put_levels pm cf T c (start_write st rs c)"
  by (simp add: put_subblock_levels_def put_levels_def put_rest_def start_write_def inferSig_def firstSig_def Let_def fun_eq_iff)

lemma subset_updates [simp]:
  "firstSig (c\<lparr>m_sigCoeffGroupFlag := F\<rparr>) = firstSig c" "inferSig (c\<lparr>m_sigCoeffGroupFlag := F\<rparr>) = inferSig c"
  by (simp_all add: firstSig_def inferSig_def isLast_def isNotFirst_def)

lemma get_subblock_eq:
  "get_subblock pm T st rs c coeff d = do {
     (sigGroup, d) \<leftarrow>
       (if isLast c \<or> m_minSubPos c = 0 then Some (True, d)
        else do { (bin, d) \<leftarrow> decodeBin pm (m_sigGroupCtxId c) d; Some (bin \<noteq> 0, d) });
     if sigGroup then get_levels pm T (setSigGroup c) (start_read st rs (setSigGroup c) coeff) d
     else Some ((c, st, rs, coeff), d) }"
proof -
  have m: "isLast (setSigGroup c) = isLast c" "isNotFirst (setSigGroup c) = isNotFirst c" "m_minSubPos (setSigGroup c) = m_minSubPos c"
    "m_maxSubPos (setSigGroup c) = m_maxSubPos c" "m_scanPosLast (setSigGroup c) = m_scanPosLast c"
    by (simp_all add: setSigGroup_def isLast_def isNotFirst_def)
  show ?thesis
    unfolding get_subblock_def get_levels_def get_rest_def start_read_def firstSig_def inferSig_def Let_def m
    by (rule arg_cong2 [of _ _ _ _ Option.bind]) (auto simp: fun_eq_iff)
qed

lemma sync_start:
  "sync c cf [] (start_write st rs c) (start_read st rs (setSigGroup c) coeff)"
proof -
  have "same_geom c (setSigGroup c)" using same_geom_updates(4) [OF same_geom_refl] .
  then show ?thesis
    by (simp add: sync_def start_write_def start_read_def same_tmpl_def setSigGroup_def val_of_Nil)
qed

lemma sync_end:
  assumes "sync c cf sp w r" shows "r_cctx r = (w_cctx w)\<lparr>m_sigCoeffGroupFlag := (sigFlags c)(m_subSetPos c := True)\<rparr>"
proof -
  note sy = assms [unfolded sync_def]
  define F where "F = (sigFlags c)(m_subSetPos c := True)"
  obtain x y u l F1 where w: "w_cctx w = c\<lparr>m_tmplCpSum1 := x, m_tmplCpDiag := y, m_updateHist := u, regBinLimit := l,
      m_sigCoeffGroupFlag := F1\<rparr>" using sy unfolding same_geom_def by metis
  obtain x' y' u' l' F2 where r: "r_cctx r = c\<lparr>m_tmplCpSum1 := x', m_tmplCpDiag := y', m_updateHist := u', regBinLimit := l',
      m_sigCoeffGroupFlag := F2\<rparr>" using sy unfolding same_geom_def by metis
  have "x' = x" "y' = y" "u' = u" "l' = l" "F2 = F" using sy unfolding same_tmpl_def w r F_def by simp_all
  then show ?thesis unfolding F_def [symmetric] by (simp add: w r)
qed

lemma rest_trip:
  assumes g: "geom_ok c N" "firstSig c + 1 \<le> N" and ok: "coeffs_ok c cf"
    and sp: "parity_ok c cf (sigs c cf (m_minSubPos c) (firstSig c + 1))" "firstSig c + 1 - m_minSubPos c \<le> 32"
    and left: "m_minSubPos c + left \<le> firstSig c + 1"
    and s: "sync c cf (sigs c cf (m_minSubPos c + left) (firstSig c + 1)) w r"
    and v: "view c N cf (pass1 c cf (m_minSubPos c + left) (firstSig c + 1)) (r_coeff r)"
    and f: "covers c cf (m_minSubPos c + left) (firstSig c + 1) (w_firstPos2ndPass w)"
  shows "\<exists>w' r' z. codes pinv (put_rest cf T c left w) (w_cctx w', w_state w', w_riceStats w')
      (get_rest T (setSigGroup c) left r) (r_cctx r', r_state r', r_riceStats r', z) \<and>
    sync c cf (sigs c cf (m_minSubPos c) (firstSig c + 1)) w' r' \<and>
    view c N cf (\<lambda>m. if m_minSubPos c \<le> m then cf (blockPos c m) else 0) z"
proof -
  let ?lo = "m_minSubPos c" and ?hi = "firstSig c + 1"
  let ?w = "w\<lparr>w_cctx := (w_cctx w)\<lparr>regBinLimit := w_remRegBins w\<rparr>\<rparr>" and ?r = "r\<lparr>r_cctx := (r_cctx r)\<lparr>regBinLimit := r_remRegBins r\<rparr>\<rparr>"
  have ss: "m_minSubPos (setSigGroup c) = ?lo" "firstSig (setSigGroup c) = firstSig c" "m_cctxBaseLevel (setSigGroup c) = m_cctxBaseLevel c"
    by (simp_all add: setSigGroup_def)
  have s1: "sync c cf (sigs c cf (?lo + left) ?hi) ?w ?r"
    using s same_geom_updates(3) by (simp add: sync_def same_tmpl_def)
  have v1: "view c N cf (pass2 c cf (?lo + left) ?hi ?hi) (r_coeff ?r)"
    using view_cong [OF v, of "pass2 c cf (?lo + left) ?hi ?hi"] by (simp add: pass1_def pass2_def)
  define K where "K = ?hi - (?lo + left)"
  have K: "?lo + left + K = ?hi" using left by (simp add: K_def)
  obtain w2 r2 where 2: "codes pinv (write_remainders cf (m_cctxBaseLevel c) (?lo + left) K ?w) w2
      (read_remainders (m_cctxBaseLevel c) (?lo + left) K ?r) r2" "sync c cf (sigs c cf (?lo + left) ?hi) w2 r2"
    "view c N cf (pass2 c cf (?lo + left) (?lo + left) ?hi) (r_coeff r2)"
    using remainders_trip [OF g ok, of "?lo + left" K] K s1 v1 by (metis le_refl)
  have same: "write_remainders cf (m_cctxBaseLevel c) (?lo + left) (nat (w_firstPos2ndPass w + 1 - int (?lo + left))) ?w e =
      write_remainders cf (m_cctxBaseLevel c) (?lo + left) K ?w e" for e :: "'p BinEncoder"
  proof (rule write_remainders_skip)
    show "nat (w_firstPos2ndPass w + 1 - int (?lo + left)) \<le> K" using f K unfolding covers_def by linarith
    have b: "blockPos (w_cctx ?w) = blockPos c" using s1 same_geom_members(1) unfolding sync_def by blast
    fix m assume m: "?lo + left + nat (w_firstPos2ndPass w + 1 - int (?lo + left)) \<le> m" "m < ?lo + left + K"
    have "\<not> 4 \<le> \<bar>cf (blockPos c m)\<bar>"
    proof
      assume "4 \<le> \<bar>cf (blockPos c m)\<bar>"
      then have "int m \<le> w_firstPos2ndPass w" using f m K unfolding covers_def by simp
      then show False using m(1) by linarith
    qed
    then show "\<bar>cf (blockPos (w_cctx ?w) m)\<bar> < 4" unfolding b by simp
  qed
  obtain w3 r3 where 3: "codes pinv (write_bypass cf T ?lo left w2) w3 (read_bypass T ?lo left r2) r3"
    "sync c cf (sigs c cf ?lo ?hi) w3 r3" "view c N cf (pass2 c cf ?lo ?lo ?hi) (r_coeff r3)"
    using bypass_trip [OF g ok left 2(2,3), of pinv T] by blast
  obtain z where 4: "coded pinv (write_signs w3) (read_signs r3) (r3\<lparr>r_coeff := z\<rparr>)"
    "view c N cf (\<lambda>m. if ?lo \<le> m then cf (blockPos c m) else 0) z"
    using signs_trip [OF 3(2) refl ok sp(1) g sp(2) _ 3(3)] left by auto
  have 5: "codes pinv (\<lambda>e. Option.bind (write_signs w3 e) (\<lambda>e. Some ((w_cctx w3, w_state w3, w_riceStats w3), e))) (w_cctx w3, w_state w3, w_riceStats w3)
      (\<lambda>d. Option.bind (read_signs r3 d) (\<lambda>(r, d). Some ((r_cctx r, r_state r, r_riceStats r, r_coeff r), d)))
      (r_cctx r3, r_state r3, r_riceStats r3, z)"
    by (rule codes_bin [OF 4(1)]) (intro codes_return'; simp)
  note c3 = codes_bind [where ?E2.0 = "\<lambda>w e. Option.bind (write_signs w e) (\<lambda>e. Some ((w_cctx w, w_state w, w_riceStats w), e))" and
      ?D2.0 = "\<lambda>r d. Option.bind (read_signs r d) (\<lambda>(r, d). Some ((r_cctx r, r_state r, r_riceStats r, r_coeff r), d))", OF 3(1) 5]
  note c2 = codes_bind [where ?E2.0 = "\<lambda>w e. Option.bind (write_bypass cf T ?lo left w e) (\<lambda>(w, e). Option.bind (write_signs w e) (\<lambda>e. Some ((w_cctx w, w_state w, w_riceStats w), e)))" and
      ?D2.0 = "\<lambda>r d. Option.bind (read_bypass T ?lo left r d) (\<lambda>(r, d). Option.bind (read_signs r d) (\<lambda>(r, d). Some ((r_cctx r, r_state r, r_riceStats r, r_coeff r), d)))", OF 2(1) c3]
  have "codes pinv (put_rest cf T c left w) (w_cctx w3, w_state w3, w_riceStats w3)
      (get_rest T (setSigGroup c) left r) (r_cctx r3, r_state r3, r_riceStats r3, z)"
    by (rule codes_cong [OF c2]) (simp_all add: put_rest_def get_rest_def ss Let_def K_def same [unfolded K_def, simplified])
  then show ?thesis using 3(2) 4(2) by blast
qed

context prob_model
begin

lemma subblock_levels_trip:
  assumes g: "geom_ok c N" and ok: "coeffs_ok c cf" and sp: "parity_ok c cf (sigs c cf (m_minSubPos c) (firstSig c + 1))"
    and lo: "m_minSubPos c \<le> firstSig c" "firstSig c < N" "firstSig c \<le> m_scanPosLast c" "firstSig c + 1 - m_minSubPos c \<le> 32"
    and last: "cf (blockPos c (m_scanPosLast c)) \<noteq> 0"
    and coded: "firstSig c \<noteq> m_scanPosLast c \<Longrightarrow> isNotFirst c \<Longrightarrow> sigs c cf (m_minSubPos c) (firstSig c + 1) \<noteq> []"
    and v: "view c N cf (\<lambda>m. if firstSig c + 1 \<le> m then cf (blockPos c m) else 0) rc"
  shows "\<exists>c' st' rs' z. codes pm_inv (put_levels pm cf T c (start_write st rs c)) (c', st', rs')
      (get_levels pm T (setSigGroup c) (start_read st rs (setSigGroup c) rc))
      (c'\<lparr>m_sigCoeffGroupFlag := (sigFlags c)(m_subSetPos c := True)\<rparr>, st', rs', z) \<and>
    same_geom c c' \<and> sigFlags c' = sigFlags c \<and>
    view c N cf (\<lambda>m. if m_minSubPos c \<le> m then cf (blockPos c m) else 0) z"
proof -
  let ?lo = "m_minSubPos c" and ?hi = "firstSig c + 1"
  let ?n = "?hi - ?lo" and ?W = "start_write st rs c" and ?R = "start_read st rs (setSigGroup c) rc"
  have n: "?lo + ?n = ?hi" "?hi \<le> N" using lo by simp_all
  have infer: "cf (blockPos c k) \<noteq> 0" if k: "int k = inferSig c" "?lo \<le> k" "k < ?hi" "sigs c cf (Suc k) ?hi = []" for k
  proof (cases "firstSig c = m_scanPosLast c")
    case True
    then show ?thesis using k(1) last by (simp add: inferSig_def)
  next
    case False
    then have c: "isNotFirst c" "k = ?lo" using k(1) by (auto simp: inferSig_def split: if_splits)
    then show ?thesis using coded [OF False] sigs_step [OF k(3), of c cf] k(4) by (auto split: if_splits)
  qed
  have "sync c cf (sigs c cf (?lo + ?n) ?hi) ?W ?R" using sync_start unfolding n(1) by (simp add: sigs_def)
  moreover have "view c N cf (pass1 c cf (?lo + ?n) ?hi) (r_coeff ?R)"
    unfolding n(1) by (rule view_cong [where P = "\<lambda>m. if firstSig c + 1 \<le> m then cf (blockPos c m) else 0"])
      (use v in \<open>simp_all add: pass1_def start_read_def\<close>)
  moreover have "covers c cf (?lo + ?n) ?hi (w_firstPos2ndPass ?W)" using lo by (simp add: covers_def start_write_def)
  ultimately obtain left w1 r1 where 1: "codes pm_inv (write_levels pm cf T (inferSig c) ?lo ?n ?W) (left, w1)
      (read_levels pm T (inferSig c) ?lo ?n ?R) (left, r1)" "left \<le> ?n" "sync c cf (sigs c cf (?lo + left) ?hi) w1 r1"
    "view c N cf (pass1 c cf (?lo + left) ?hi) (r_coeff r1)" "covers c cf (?lo + left) ?hi (w_firstPos2ndPass w1)"
    using levels_trip [OF g n(2), of ?lo ?n cf ?W ?R "inferSig c" T] infer n(1) lo(3) by auto
  have left: "?lo + left \<le> ?hi" using 1(2) n(1) by linarith
  obtain w3 r3 z where 3: "codes pm_inv (put_rest cf T c left w1) (w_cctx w3, w_state w3, w_riceStats w3)
      (get_rest T (setSigGroup c) left r1) (r_cctx r3, r_state r3, r_riceStats r3, z)" "sync c cf (sigs c cf ?lo ?hi) w3 r3"
    "view c N cf (\<lambda>m. if ?lo \<le> m then cf (blockPos c m) else 0) z"
    using rest_trip [OF g n(2) ok sp lo(4) left 1(3-5), of pm_inv T] by blast
  have "codes pm_inv (put_levels pm cf T c ?W) (w_cctx w3, w_state w3, w_riceStats w3)
      (get_levels pm T (setSigGroup c) ?R) (r_cctx r3, r_state r3, r_riceStats r3, z)"
    by (rule codes_cong [OF codes_bind [where ?E2.0 = "\<lambda>(left, w). put_rest cf T c left w" and
        ?D2.0 = "\<lambda>(left, r). get_rest T (setSigGroup c) left r", OF 1(1)]])
      (use 3(1) in \<open>simp_all add: put_levels_def get_levels_def setSigGroup_def case_prod_unfold\<close>)
  moreover have eq: "same_geom c (w_cctx w3)" "sigFlags (w_cctx w3) = sigFlags c" "r_state r3 = w_state w3" "r_riceStats r3 = w_riceStats w3"
    using 3(2) by (simp_all add: sync_def)
  ultimately show ?thesis using 3(3)
    by (intro exI [of _ "w_cctx w3"] exI [of _ "w_state w3"] exI [of _ "w_riceStats w3"] exI [of _ z]) (simp only: sync_end [OF 3(2)] eq simp_thms)
qed

lemma subblock_trip:
  assumes g: "geom_ok c N" and ok: "coeffs_ok c cf" and sp: "parity_ok c cf (sigs c cf (m_minSubPos c) (firstSig c + 1))"
    and lo: "m_minSubPos c \<le> firstSig c" "firstSig c < N" "firstSig c \<le> m_scanPosLast c" "firstSig c + 1 - m_minSubPos c \<le> 32"
    and last: "cf (blockPos c (m_scanPosLast c)) \<noteq> 0" and first: "m_minSubPos c = 0 \<longleftrightarrow> \<not> isNotFirst c"
    and sig: "isSigGroup c \<longleftrightarrow> sigs c cf (m_minSubPos c) (firstSig c + 1) \<noteq> []" and lastSig: "isLast c \<Longrightarrow> isSigGroup c"
    and F: "F(m_subSetPos c := True) = (sigFlags c)(m_subSetPos c := True)" "\<not> isSigGroup c \<Longrightarrow> F = sigFlags c"
    and v: "view c N cf (\<lambda>m. if firstSig c + 1 \<le> m then cf (blockPos c m) else 0) rc"
  shows "\<exists>c' st' rs' z F'. codes pm_inv (put_subblock pm cf T st rs c) (c', st', rs')
      (get_subblock pm T st rs (c\<lparr>m_sigCoeffGroupFlag := F\<rparr>) rc) (c'\<lparr>m_sigCoeffGroupFlag := F'\<rparr>, st', rs', z) \<and>
    same_geom c c' \<and> sigFlags c' = sigFlags c \<and> (isNotFirst c \<longrightarrow> F' = sigFlags c') \<and>
    view c N cf (\<lambda>m. if m_minSubPos c \<le> m then cf (blockPos c m) else 0) z"
proof -
  have m: "isLast (c\<lparr>m_sigCoeffGroupFlag := F\<rparr>) = isLast c" "m_minSubPos (c\<lparr>m_sigCoeffGroupFlag := F\<rparr>) = m_minSubPos c"
    "m_sigGroupCtxId (c\<lparr>m_sigCoeffGroupFlag := F\<rparr>) = m_sigGroupCtxId c" "setSigGroup (c\<lparr>m_sigCoeffGroupFlag := F\<rparr>) = setSigGroup c"
    using F(1) by (simp_all add: isLast_def setSigGroup_def)
  show ?thesis
  proof (cases "isSigGroup c \<or> isLast c \<or> \<not> isNotFirst c")
    case True
    have coded: "sigs c cf (m_minSubPos c) (firstSig c + 1) \<noteq> []" if "firstSig c \<noteq> m_scanPosLast c" "isNotFirst c"
    proof -
      have "\<not> isLast c" using that(1) by (auto simp: firstSig_def)
      then show ?thesis using True that(2) sig by blast
    qed
    obtain c' st' rs' z where L: "codes pm_inv (put_levels pm cf T c (start_write st rs c)) (c', st', rs')
        (get_levels pm T (setSigGroup c) (start_read st rs (setSigGroup c) rc))
        (c'\<lparr>m_sigCoeffGroupFlag := (sigFlags c)(m_subSetPos c := True)\<rparr>, st', rs', z)"
      "same_geom c c'" "sigFlags c' = sigFlags c" "view c N cf (\<lambda>m. if m_minSubPos c \<le> m then cf (blockPos c m) else 0) z"
      using subblock_levels_trip [OF g ok sp lo last coded v, of T st rs] by blast
    have F': "isNotFirst c \<Longrightarrow> (sigFlags c)(m_subSetPos c := True) = sigFlags c'"
      using True lastSig L(3) by (auto simp: isSigGroup_def fun_upd_idem)
    have "codes pm_inv (put_subblock pm cf T st rs c) (c', st', rs') (get_subblock pm T st rs (c\<lparr>m_sigCoeffGroupFlag := F\<rparr>) rc)
        (c'\<lparr>m_sigCoeffGroupFlag := (sigFlags c)(m_subSetPos c := True)\<rparr>, st', rs', z)"
    proof (cases "isLast c \<or> \<not> isNotFirst c")
      case True
      show ?thesis by (rule codes_cong [OF L(1)])
          (use True first in \<open>auto simp: put_subblock_def put_subblock_levels_eq get_subblock_eq m\<close>)
    next
      case False
      then have sg: "isSigGroup c" using True by blast
      note C = codes_encodeBin [where E = "put_levels pm cf T c (start_write st rs c)" and
          D = "\<lambda>bin d. if bin \<noteq> 0 then get_levels pm T (setSigGroup c) (start_read st rs (setSigGroup c) rc) d
            else Some ((c\<lparr>m_sigCoeffGroupFlag := F\<rparr>, st, rs, rc), d)" and b = 1 and i = "m_sigGroupCtxId c"]
      show ?thesis
      proof (rule codes_cong [OF C])
        show "codes pm_inv (put_levels pm cf T c (start_write st rs c)) (c', st', rs') (\<lambda>d. if (1::int) \<noteq> 0
            then get_levels pm T (setSigGroup c) (start_read st rs (setSigGroup c) rc) d else Some ((c\<lparr>m_sigCoeffGroupFlag := F\<rparr>, st, rs, rc), d))
            (c'\<lparr>m_sigCoeffGroupFlag := (sigFlags c)(m_subSetPos c := True)\<rparr>, st', rs', z)" using L(1) by simp
      qed (use False sg first in \<open>simp_all add: put_subblock_def put_subblock_levels_eq get_subblock_eq m bind_assoc case_prod_unfold cong: if_cong\<close>)
    qed
    then show ?thesis using L(2-4) F' by blast
  next
    case False
    have z: "sigs c cf (m_minSubPos c) (firstSig c + 1) = []" using False sig by blast
    have v': "view c N cf (\<lambda>m. if m_minSubPos c \<le> m then cf (blockPos c m) else 0) rc"
    proof (rule view_cong [OF v])
      fix m
      have "m \<notin> set (sigs c cf (m_minSubPos c) (firstSig c + 1))" unfolding z by simp
      then show "(if firstSig c + 1 \<le> m then cf (blockPos c m) else 0) = (if m_minSubPos c \<le> m then cf (blockPos c m) else 0)"
        using lo(1) unfolding sigs_set by auto
    qed
    note C = codes_encodeBin [where E = "\<lambda>e. Some ((c, st, rs), e)" and
        D = "\<lambda>bin d. if bin \<noteq> 0 then get_levels pm T (setSigGroup c) (start_read st rs (setSigGroup c) rc) d
          else Some ((c\<lparr>m_sigCoeffGroupFlag := F\<rparr>, st, rs, rc), d)" and b = 0 and i = "m_sigGroupCtxId c"]
    have "codes pm_inv (put_subblock pm cf T st rs c) (c, st, rs) (get_subblock pm T st rs (c\<lparr>m_sigCoeffGroupFlag := F\<rparr>) rc)
        (c\<lparr>m_sigCoeffGroupFlag := F\<rparr>, st, rs, rc)"
    proof (rule codes_cong [OF C])
      show "codes pm_inv (\<lambda>e. Some ((c, st, rs), e)) (c, st, rs) (\<lambda>d. if (0::int) \<noteq> 0
          then get_levels pm T (setSigGroup c) (start_read st rs (setSigGroup c) rc) d else Some ((c\<lparr>m_sigCoeffGroupFlag := F\<rparr>, st, rs, rc), d))
          (c\<lparr>m_sigCoeffGroupFlag := F\<rparr>, st, rs, rc)" by (simp add: codes_return)
    qed (use False first in \<open>simp_all add: put_subblock_def get_subblock_eq m bind_assoc case_prod_unfold cong: if_cong\<close>)
    then show ?thesis using v' F(2) False same_geom_refl by blast
  qed
qed

end

section \<open>The loop over the subblocks\<close>

text \<open>The members that stay as they are for the whole block.\<close>

definition same_block :: "CoeffCodingContext \<Rightarrow> CoeffCodingContext \<Rightarrow> bool" where
  "same_block c0 c \<longleftrightarrow> m_scan c = m_scan c0 \<and> m_scanCG c = m_scanCG c0 \<and> m_width c = m_width c0 \<and> m_height c = m_height c0 \<and>
    m_scanPosLast c = m_scanPosLast c0 \<and> m_log2CGSize c = m_log2CGSize c0 \<and> m_log2CGWidth c = m_log2CGWidth c0 \<and>
    m_log2CGHeight c = m_log2CGHeight c0 \<and> m_widthInGroups c = m_widthInGroups c0 \<and> m_heightInGroups c = m_heightInGroups c0 \<and>
    m_maxLog2TrDynamicRange c = m_maxLog2TrDynamicRange c0 \<and> m_signHiding c = m_signHiding c0"

lemma same_block_refl [simp]: "same_block c c"
  by (simp add: same_block_def)

lemma same_block_init: "same_block c0 c \<Longrightarrow> same_block c0 (initSubblock i b c)"
  by (simp add: same_block_def initSubblock_def Let_def)

lemma same_block_geom:
  assumes "same_block c0 c" "same_geom c c'" shows "same_block c0 c'"
proof -
  obtain x y u l F where "c' = c\<lparr>m_tmplCpSum1 := x, m_tmplCpDiag := y, m_updateHist := u, regBinLimit := l,
      m_sigCoeffGroupFlag := F\<rparr>" using assms(2) unfolding same_geom_def by metis
  then show ?thesis using assms(1) by (simp add: same_block_def)
qed

lemma same_block_facts:
  assumes "same_block c0 c"
  shows "blockPos c = blockPos c0" "view c = view c0" "sigs c = sigs c0" "parity_ok c = parity_ok c0" "coeffs_ok c = coeffs_ok c0"
    "geom_ok c = geom_ok c0" "m_scanPosLast c = m_scanPosLast c0" "m_log2CGSize c = m_log2CGSize c0"
    "m_widthInGroups c = m_widthInGroups c0" "m_scanCG c = m_scanCG c0"
  using assms
  by (simp_all add: same_block_def blockPos_def view_def sigs_def parity_ok_def coeffs_ok_def geom_ok_def hideSign_def fun_eq_iff)

lemma initSubblock_members:
  "m_subSetId (initSubblock i b c) = i" "m_subSetPos (initSubblock i b c) = se_idx (m_scanCG c ! i)"
  "m_minSubPos (initSubblock i b c) = i * 2 ^ m_log2CGSize c" "m_maxSubPos (initSubblock i b c) = i * 2 ^ m_log2CGSize c + 2 ^ m_log2CGSize c - 1"
  "m_subSetPosY (initSubblock i b c) = se_idx (m_scanCG c ! i) div m_widthInGroups c"
  "sigFlags (initSubblock i b c) = (if b then (sigFlags c)(se_idx (m_scanCG c ! i) := True) else sigFlags c)"
  by (simp_all add: initSubblock_def Let_def)

lemma init_flags:
  "c\<lparr>m_subSetId := i, m_subSetPos := p, m_subSetPosX := x, m_subSetPosY := y, m_minSubPos := a, m_maxSubPos := b,
     m_sigCoeffGroupFlag := f, m_sigGroupCtxId := u, m_sigGroupCtxIdTS := v\<rparr> =
   (c\<lparr>m_subSetId := i, m_subSetPos := p, m_subSetPosX := x, m_subSetPosY := y, m_minSubPos := a, m_maxSubPos := b,
     m_sigCoeffGroupFlag := f', m_sigGroupCtxId := u, m_sigGroupCtxIdTS := v\<rparr>)\<lparr>m_sigCoeffGroupFlag := f\<rparr>"
  by simp

lemma fun_upd_neighbour: "(x :: nat) \<le> p \<Longrightarrow> (x > 0 \<and> (f(p := True)) (p - 1)) = (x > 0 \<and> f (p - 1))"
  by (cases "p = 0") auto

lemma fun_upd_neighbour': "0 < w \<Longrightarrow> ((p :: nat) div w > 0 \<and> (f(p := True)) (p - w)) = (p div w > 0 \<and> f (p - w))"
  by (cases "p = 0") auto

lemma initSubblock_reader:
  assumes "0 < m_widthInGroups c"
  shows "initSubblock i False c = (initSubblock i b c)\<lparr>m_sigCoeffGroupFlag := sigFlags c\<rparr>"
proof (cases b)
  case True
  let ?p = "se_idx (m_scanCG c ! i)" and ?w = "m_widthInGroups c" and ?f = "sigFlags c"
  have eq: "(?p - ?p div ?w * ?w + 1 < ?w \<and> (?f(?p := True)) (?p + 1)) = (?p - ?p div ?w * ?w + 1 < ?w \<and> ?f (?p + 1))"
    "(?p div ?w + 1 < m_heightInGroups c \<and> (?f(?p := True)) (?p + ?w)) = (?p div ?w + 1 < m_heightInGroups c \<and> ?f (?p + ?w))"
    "(?p - ?p div ?w * ?w > 0 \<and> (?f(?p := True)) (?p - 1)) = (?p - ?p div ?w * ?w > 0 \<and> ?f (?p - 1))"
    "(?p div ?w > 0 \<and> (?f(?p := True)) (?p - ?w)) = (?p div ?w > 0 \<and> ?f (?p - ?w))"
    by (simp, use assms in simp, rule fun_upd_neighbour, simp, rule fun_upd_neighbour',  rule assms)
  have b: "b = True" using True by simp
  show ?thesis unfolding b initSubblock_def Let_def if_True if_False eq by (rule init_flags)
qed (simp add: initSubblock_def Let_def)

definition group_sigs :: "CoeffCodingContext \<Rightarrow> (nat \<Rightarrow> int) \<Rightarrow> nat \<Rightarrow> nat list" where
  "group_sigs c cf i = sigs c cf (i * 2 ^ m_log2CGSize c) (i * 2 ^ m_log2CGSize c + 2 ^ m_log2CGSize c)"

text \<open>A block the writer may be given: \<open>G\<close> groups, the coefficients in range and zero after the last
  position and in the groups left out, the hidden signs arranged.\<close>

definition block_ok :: "ResidualCfg \<Rightarrow> CoeffCodingContext \<Rightarrow> (nat \<Rightarrow> int) \<Rightarrow> nat \<Rightarrow> bool" where
  "block_ok t c cf G \<longleftrightarrow> geom_ok c (G * 2 ^ m_log2CGSize c) \<and> coeffs_ok c cf \<and> (2 :: nat) ^ m_log2CGSize c \<le> 32 \<and>
    0 < m_widthInGroups c \<and> se_idx (m_scanCG c ! 0) = 0 \<and>
    (\<forall>i < G. \<forall>j < i. se_idx (m_scanCG c ! i) \<noteq> se_idx (m_scanCG c ! j)) \<and>
    m_scanPosLast c < G * 2 ^ m_log2CGSize c \<and> cf (blockPos c (m_scanPosLast c)) \<noteq> 0 \<and>
    (\<forall>m. m_scanPosLast c < m \<and> m < G * 2 ^ m_log2CGSize c \<longrightarrow> cf (blockPos c m) = 0) \<and>
    (\<forall>i < G. parity_ok c cf (group_sigs c cf i)) \<and>
    (\<forall>i < G. skippedGroup t (initSubblock i False c) \<longrightarrow> group_sigs c cf i = [])"

lemma sigs_cut:
  assumes "hi \<le> hi'" "\<And>m. hi \<le> m \<Longrightarrow> m < hi' \<Longrightarrow> cf (blockPos c m) = 0" "lo \<le> hi"
  shows "sigs c cf lo hi' = sigs c cf lo hi"
proof -
  have "[lo..<hi'] = [lo..<hi] @ [hi..<hi']" using assms(1,3) upt_add_eq_append [of lo hi "hi' - hi"] by simp
  moreover have "filter (\<lambda>m. cf (blockPos c m) \<noteq> 0) (rev [hi..<hi']) = []" using assms(2) by (auto simp: filter_empty_conv)
  ultimately show ?thesis by (simp add: sigs_def)
qed

lemma skippedGroup_block:
  "same_block c0 c \<Longrightarrow> skippedGroup t (initSubblock i b c) = skippedGroup t (initSubblock i False c0)"
  by (simp add: skippedGroup_def initSubblock_def Let_def same_block_def)

lemma same_geom_flags:
  assumes "same_geom c c'" shows "same_geom c (c'\<lparr>m_sigCoeffGroupFlag := F\<rparr>)"
proof -
  obtain x y u l F' where "c' = c\<lparr>m_tmplCpSum1 := x, m_tmplCpDiag := y, m_updateHist := u, regBinLimit := l,
      m_sigCoeffGroupFlag := F'\<rparr>" using assms unfolding same_geom_def by metis
  then show ?thesis by (simp add: same_geom_def)
qed

lemma noteGroup_cong:
  assumes "same_geom c c'" "m_subSetPosX c = 0" "m_subSetPosY c = 0"
  shows "noteGroup c' cu = cu"
proof -
  obtain x y u l F where "c' = c\<lparr>m_tmplCpSum1 := x, m_tmplCpDiag := y, m_updateHist := u, regBinLimit := l,
      m_sigCoeffGroupFlag := F\<rparr>" using assms(1) unfolding same_geom_def by metis
  then show ?thesis using assms(2,3) by (simp add: noteGroup_def)
qed

lemma group_bounds:
  assumes "0 < (S :: nat)"
  shows "l div S = i \<Longrightarrow> i * S \<le> l \<and> l < i * S + S" "i < l div S \<Longrightarrow> i * S + S \<le> l"
proof -
  show "l div S = i \<Longrightarrow> i * S \<le> l \<and> l < i * S + S"
    using div_mult_mod_eq [of l S] mod_less_divisor [OF assms, of l] by auto
  assume "i < l div S"
  then have "Suc i * S \<le> l div S * S" by (intro mult_le_mono1) simp
  also have "\<dots> \<le> l" by simp
  finally show "i * S + S \<le> l" by simp
qed

context prob_model
begin

lemma subblocks_trip:
  assumes B: "block_ok t c0 cf G" and sigf: "\<And>i. i < G \<Longrightarrow> sigf i \<longleftrightarrow> group_sigs c0 cf i \<noteq> []"
  shows "n \<le> m_scanPosLast c0 div 2 ^ m_log2CGSize c0 + 1 \<Longrightarrow> same_block c0 c \<Longrightarrow>
    view c0 (G * 2 ^ m_log2CGSize c0) cf (\<lambda>m. if n * 2 ^ m_log2CGSize c0 \<le> m then cf (blockPos c0 m) else 0) rc \<Longrightarrow>
    (\<forall>j < n. \<not> sigFlags c (se_idx (m_scanCG c0 ! j))) \<Longrightarrow>
    \<exists>cu' rs'. codes pm_inv (put_subblocks pm t cf sigf n st rs cu c) (cu', rs') (get_subblocks pm t n st rs cu c rc) (cu', rs', cf)"
proof (induction n arbitrary: c rc st rs cu)
  case 0
  have "rc p = cf p" for p
    using 0(3) by (cases "\<exists>m < G * 2 ^ m_log2CGSize c0. p = blockPos c0 m") (auto simp: view_def)
  then have "codes pm_inv (put_subblocks pm t cf sigf 0 st rs cu c) (cu, rs) (get_subblocks pm t 0 st rs cu c rc) (cu, rs, cf)"
    by (intro codes_cong [OF codes_return]) (auto simp: fun_eq_iff)
  then show ?case by blast
next
  case (Suc i)
  let ?S = "2 ^ m_log2CGSize c0 :: nat" and ?last = "m_scanPosLast c0"
  let ?N = "G * ?S" and ?lo = "i * ?S"
  define c1 where "c1 = initSubblock i (sigf i) c"
  have S: "0 < ?S" "?S \<le> 32" using B by (simp_all add: block_ok_def)
  have i: "i \<le> ?last div ?S" using Suc.prems(1) by simp
  have iG: "i < G" using i B unfolding block_ok_def by (metis div_less_iff_less_mult le_less_trans S(1))
  have sb: "same_block c0 c1" unfolding c1_def using Suc.prems(2) by (rule same_block_init)
  note fb = same_block_facts [OF sb] and fc = same_block_facts [OF Suc.prems(2)]
  have m1: "m_minSubPos c1 = ?lo" "m_maxSubPos c1 = ?lo + ?S - 1" "m_subSetId c1 = i" "m_subSetPos c1 = se_idx (m_scanCG c0 ! i)"
    by (simp_all add: c1_def initSubblock_members fc)
  have il: "isLast c1 \<longleftrightarrow> ?last div ?S = i" by (simp add: isLast_def m1 fb)
  have nf: "isNotFirst c1 \<longleftrightarrow> i \<noteq> 0" by (simp add: isNotFirst_def m1)
  have fs: "?lo \<le> firstSig c1" "firstSig c1 < ?N" "firstSig c1 \<le> ?last" "firstSig c1 < ?lo + ?S"
  proof -
    have "Suc i * ?S \<le> G * ?S" using iG by (intro mult_le_mono1) simp
    then have u: "?lo + ?S \<le> ?N" by simp
    have "?lo \<le> firstSig c1 \<and> firstSig c1 \<le> ?last \<and> firstSig c1 < ?lo + ?S"
    proof (cases "isLast c1")
      case True
      then show ?thesis using group_bounds(1) [OF S(1), of ?last i] il by (simp add: firstSig_def fb)
    next
      case False
      then have "?lo + ?S \<le> ?last" using group_bounds(2) [OF S(1), of i ?last] i il by simp
      moreover have "firstSig c1 = ?lo + ?S - 1" using False by (simp add: firstSig_def m1)
      ultimately show ?thesis using S(1) by linarith
    qed
    then show "?lo \<le> firstSig c1" "firstSig c1 < ?N" "firstSig c1 \<le> ?last" "firstSig c1 < ?lo + ?S" using u by simp_all
  qed
  have above: "cf (blockPos c0 m) = 0" if m: "firstSig c1 + 1 \<le> m" "m < ?lo + ?S" for m
  proof -
    have "Suc i * ?S \<le> G * ?S" using iG by (intro mult_le_mono1) simp
    moreover have "?last < m" using m by (cases "isLast c1") (auto simp: firstSig_def fb m1)
    ultimately show ?thesis using B m(2) by (simp add: block_ok_def)
  qed
  have gs: "sigs c0 cf ?lo (firstSig c1 + 1) = group_sigs c0 cf i"
    unfolding group_sigs_def using above fs by (intro sigs_cut [symmetric]) simp_all
  have r1: "initSubblock i False c = c1\<lparr>m_sigCoeffGroupFlag := sigFlags c\<rparr>"
    unfolding c1_def by (rule initSubblock_reader) (use B fc in \<open>simp add: block_ok_def\<close>)
  have sk: "skippedGroup t (initSubblock i False c) = skippedGroup t c1" "skippedGroup t c1 \<Longrightarrow> group_sigs c0 cf i = []"
    using skippedGroup_block [OF Suc.prems(2)] B iG unfolding c1_def block_ok_def by simp_all
  have fl: "sigFlags c1 = (if sigf i then (sigFlags c)(m_subSetPos c1 := True) else sigFlags c)"
    by (simp add: c1_def initSubblock_members)
  have "\<forall>j < i. se_idx (m_scanCG c0 ! i) \<noteq> se_idx (m_scanCG c0 ! j)" using B iG unfolding block_ok_def by blast
  then have apart: "\<forall>j < i. se_idx (m_scanCG c0 ! j) \<noteq> se_idx (m_scanCG c0 ! i)" by metis
  have unset: "\<not> sigFlags c (m_subSetPos c1)" "\<forall>j<i. \<not> sigFlags c1 (se_idx (m_scanCG c0 ! j))"
    using Suc.prems(4) apart unfolding fl by (auto simp: m1)
  have sig: "isSigGroup c1 \<longleftrightarrow> group_sigs c0 cf i \<noteq> []" using unset(1) sigf [OF iG] unfolding isSigGroup_def fl by simp
  show ?case
  proof (cases "skippedGroup t c1")
    case True
    then have z: "group_sigs c0 cf i = []" using sk(2) by blast
    have c1: "initSubblock i False c = c1" using z sigf [OF iG] by (simp add: c1_def)
    have "view c0 ?N cf (\<lambda>m. if i * ?S \<le> m then cf (blockPos c0 m) else 0) rc"
    proof (rule view_cong [OF Suc.prems(3)])
      fix m
      have "m \<notin> set (sigs c0 cf ?lo (?lo + ?S))" using z by (simp add: group_sigs_def)
      then show "(if Suc i * ?S \<le> m then cf (blockPos c0 m) else 0) = (if i * ?S \<le> m then cf (blockPos c0 m) else 0)"
        unfolding sigs_set by auto
    qed
    from Suc.IH [OF _ sb this unset(2)] obtain cu' rs' where IH: "codes pm_inv (put_subblocks pm t cf sigf i st rs cu c1) (cu', rs')
        (get_subblocks pm t i st rs cu c1 rc) (cu', rs', cf)" using Suc.prems(1) by (metis Suc_leD)
    have "codes pm_inv (put_subblocks pm t cf sigf (Suc i) st rs cu c) (cu', rs') (get_subblocks pm t (Suc i) st rs cu c rc) (cu', rs', cf)"
      by (rule codes_cong [OF IH]) (use True in \<open>simp_all add: Let_def c1 flip: c1_def\<close>)
    then show ?thesis by blast
  next
    case False
    have v1: "view c1 ?N cf (\<lambda>m. if firstSig c1 + 1 \<le> m then cf (blockPos c1 m) else 0) rc"
      unfolding fb
    proof (rule view_cong [OF Suc.prems(3)])
      fix m assume "m < ?N"
      then show "(if Suc i * ?S \<le> m then cf (blockPos c0 m) else 0) = (if firstSig c1 + 1 \<le> m then cf (blockPos c0 m) else 0)"
        using fs above by auto
    qed
    have pre: "geom_ok c1 ?N" "coeffs_ok c1 cf" "parity_ok c1 cf (sigs c1 cf (m_minSubPos c1) (firstSig c1 + 1))"
      "m_minSubPos c1 \<le> firstSig c1" "firstSig c1 \<le> m_scanPosLast c1" "firstSig c1 + 1 - m_minSubPos c1 \<le> 32"
      "cf (blockPos c1 (m_scanPosLast c1)) \<noteq> 0" "m_minSubPos c1 = 0 \<longleftrightarrow> \<not> isNotFirst c1"
      "isSigGroup c1 \<longleftrightarrow> sigs c1 cf (m_minSubPos c1) (firstSig c1 + 1) \<noteq> []"
      unfolding fb m1(1) gs using B iG fs S sig nf by (auto simp: block_ok_def)
    have lastSig: "isSigGroup c1" if "isLast c1"
    proof -
      have "?last \<in> set (sigs c0 cf ?lo (firstSig c1 + 1))"
        using that fs B unfolding sigs_set by (simp add: firstSig_def fb block_ok_def)
      then show ?thesis unfolding gs sig by auto
    qed
    have F: "(sigFlags c)(m_subSetPos c1 := True) = (sigFlags c1)(m_subSetPos c1 := True)" "\<not> isSigGroup c1 \<Longrightarrow> sigFlags c = sigFlags c1"
      unfolding isSigGroup_def fl by (simp_all split: if_splits)
    obtain c2 st2 rs2 z F' where P: "codes pm_inv (put_subblock pm cf (stateTab t) st rs c1) (c2, st2, rs2)
        (get_subblock pm (stateTab t) st rs (c1\<lparr>m_sigCoeffGroupFlag := sigFlags c\<rparr>) rc) (c2\<lparr>m_sigCoeffGroupFlag := F'\<rparr>, st2, rs2, z)"
      and g2: "same_geom c1 c2" "sigFlags c2 = sigFlags c1" "isNotFirst c1 \<longrightarrow> F' = sigFlags c2"
      and v2: "view c1 ?N cf (\<lambda>m. if m_minSubPos c1 \<le> m then cf (blockPos c1 m) else 0) z"
      using subblock_trip [OF pre(1-4) fs(2) pre(5-9) lastSig F v1] by blast
    have sb2: "same_block c0 c2" using same_block_geom [OF sb g2(1)] .
    define c3 where "c3 = c2\<lparr>m_sigCoeffGroupFlag := F'\<rparr>"
    have c3: "i \<noteq> 0 \<Longrightarrow> c3 = c2" using g2(3) nf by (simp add: c3_def)
    have n3: "noteGroup c3 cu = noteGroup c2 cu"
    proof (cases "i = 0")
      case True
      have z: "m_subSetPosX c1 = 0" "m_subSetPosY c1 = 0" using B True by (simp_all add: c1_def initSubblock_def Let_def fc block_ok_def)
      have "same_geom c1 c3" unfolding c3_def by (rule same_geom_flags [OF g2(1)])
      then show ?thesis using noteGroup_cong [OF _ z] g2(1) by metis
    qed (simp add: c3)
    have v3: "view c0 ?N cf (\<lambda>m. if i * ?S \<le> m then cf (blockPos c0 m) else 0) z" using v2 unfolding fb m1 .
    have u3: "\<forall>j<i. \<not> sigFlags c2 (se_idx (m_scanCG c0 ! j))" using unset(2) g2(2) by simp
    obtain cu' rs' where IH: "codes pm_inv (put_subblocks pm t cf sigf i st2 rs2 (noteGroup c2 cu) c2) (cu', rs')
        (get_subblocks pm t i st2 rs2 (noteGroup c2 cu) c2 z) (cu', rs', cf)"
      using Suc.IH [OF _ sb2 v3 u3] Suc.prems(1) by (metis Suc_leD)
    have eq3: "get_subblocks pm t i st2 rs2 (noteGroup c3 cu) c3 z d = get_subblocks pm t i st2 rs2 (noteGroup c2 cu) c2 z d" for d
      by (cases "i = 0") (simp_all add: n3 c3)
    have "codes pm_inv (put_subblocks pm t cf sigf (Suc i) st rs cu c) (cu', rs') (get_subblocks pm t (Suc i) st rs cu c rc) (cu', rs', cf)"
    proof (rule codes_cong [OF codes_bind [where ?E2.0 = "\<lambda>(c, st, rs). put_subblocks pm t cf sigf i st rs (noteGroup c cu) c" and
          ?D2.0 = "\<lambda>(c, st, rs, z). get_subblocks pm t i st rs (noteGroup c cu) c z", OF P]])
      show "codes pm_inv ((\<lambda>(c, st, rs). put_subblocks pm t cf sigf i st rs (noteGroup c cu) c) (c2, st2, rs2)) (cu', rs')
          ((\<lambda>(c, st, rs, z). get_subblocks pm t i st rs (noteGroup c cu) c z) (c2\<lparr>m_sigCoeffGroupFlag := F'\<rparr>, st2, rs2, z)) (cu', rs', cf)"
        unfolding prod.case c3_def [symmetric] by (rule codes_cong [OF IH]) (simp_all add: eq3)
    qed (use False sk in \<open>simp_all add: Let_def r1 flip: c1_def\<close>)
    then show ?thesis by blast
  qed
qed

end

end
