(* ===== verification/ResidualBlock.thy ===== *)
theory ResidualBlock
  imports ResidualTrip
begin

text \<open>
  The coding of the last significant position, and the round trip of \<open>residual_coding\<close> over a whole
  transform block, through the arithmetic coder and the byte stream.
\<close>

section \<open>The last position\<close>

lemma position_tables:
  assumes "p < 32"
  shows "g_groupIdx ! p \<le> 9" "p \<le> 3 \<Longrightarrow> g_groupIdx ! p = p" "g_groupIdx ! p \<le> 3 \<longleftrightarrow> p \<le> 3"
    "g_minInGroup ! (g_groupIdx ! p) \<le> p" "p - g_minInGroup ! (g_groupIdx ! p) < 2 ^ ((g_groupIdx ! p - 2) div 2) \<or> p \<le> 3"
proof -
  have "list_all (\<lambda>p. g_groupIdx ! p \<le> 9 \<and> (p \<le> 3 \<longrightarrow> g_groupIdx ! p = p) \<and> (g_groupIdx ! p \<le> 3) = (p \<le> 3) \<and>
      g_minInGroup ! (g_groupIdx ! p) \<le> p \<and> (p - g_minInGroup ! (g_groupIdx ! p) < 2 ^ ((g_groupIdx ! p - 2) div 2) \<or> p \<le> 3)) [0..<32]"
    by code_simp
  then show "g_groupIdx ! p \<le> 9" "p \<le> 3 \<Longrightarrow> g_groupIdx ! p = p" "g_groupIdx ! p \<le> 3 \<longleftrightarrow> p \<le> 3"
    "g_minInGroup ! (g_groupIdx ! p) \<le> p" "p - g_minInGroup ! (g_groupIdx ! p) < 2 ^ ((g_groupIdx ! p - 2) div 2) \<or> p \<le> 3"
    using assms by (auto simp: list_all_iff)
qed

lemma groupIdx_mono:
  assumes "p \<le> q" "q < 32" shows "g_groupIdx ! p \<le> g_groupIdx ! q"
proof -
  have "sorted g_groupIdx" by (simp add: g_groupIdx_def)
  then show ?thesis using assms by (intro sorted_nth_mono) (simp_all add: g_groupIdx_def)
qed

lemma put_bits_EP_coded:
  "coded pinv (put_bits_EP n v) (get_bits_EP n temp) (temp + v mod 2 ^ n)"
proof (induction n arbitrary: temp)
  case 0
  show ?case by (rule coded_cong [OF coded_return]) simp_all
next
  case (Suc n)
  let ?b = "v div 2 ^ n mod 2"
  have b: "?b = 0 \<or> ?b = 1" by presburger
  have "v mod 2 ^ Suc n = ?b * 2 ^ n + v mod 2 ^ n"
    unfolding power_Suc2 by (simp add: zmod_zmult2_eq)
  then have "coded pinv (\<lambda>e. Option.bind (encodeBinEP ?b e) (put_bits_EP n v))
      (\<lambda>d. Option.bind (decodeBinEP d) (\<lambda>(bin, d). get_bits_EP n (temp + bin * 2 ^ n) d)) (temp + v mod 2 ^ Suc n)"
    using coded_bind [where ?D2.0 = "\<lambda>bin. get_bits_EP n (temp + bin * 2 ^ n)", OF coded_binEP [OF b] Suc.IH [of "temp + ?b * 2 ^ n"]]
    by (simp add: add.assoc)
  then show ?case by (rule coded_cong) simp_all
qed

lemma last_suffix_coded:
  assumes "p < 32"
  shows "coded pinv (put_last_suffix (g_groupIdx ! p) p) (get_last_suffix (g_groupIdx ! p)) p"
proof (cases "g_groupIdx ! p > 3")
  case True
  let ?g = "g_groupIdx ! p"
  have t: "g_minInGroup ! ?g \<le> p" "p - g_minInGroup ! ?g < 2 ^ ((?g - 2) div 2)" using position_tables [OF assms] True by auto
  then have "int (p - g_minInGroup ! ?g) < int (2 ^ ((?g - 2) div 2))" by (simp only: of_nat_less_iff)
  then have "int (p - g_minInGroup ! ?g) mod 2 ^ ((?g - 2) div 2) = int (p - g_minInGroup ! ?g)"
    by (intro mod_pos_pos_trivial) simp_all
  then have v: "g_minInGroup ! ?g + nat (0 + int (p - g_minInGroup ! ?g) mod 2 ^ ((?g - 2) div 2)) = p" using t(1) by simp
  have "coded pinv (put_bits_EP ((?g - 2) div 2) (int (p - g_minInGroup ! ?g)))
      (\<lambda>d. Option.bind (get_bits_EP ((?g - 2) div 2) 0 d) (\<lambda>(temp, d). Some (g_minInGroup ! ?g + nat temp, d))) p"
    by (rule coded_map [OF put_bits_EP_coded]) (rule v [symmetric])
  then show ?thesis by (rule coded_cong) (use True in \<open>simp_all add: put_last_suffix_def get_last_suffix_def\<close>)
next
  case False
  then have "g_groupIdx ! p = p" using position_tables [OF assms] by simp
  then show ?thesis using False
    by (intro coded_cong [OF coded_return]) (simp_all add: put_last_suffix_def get_last_suffix_def)
qed

context prob_model
begin

lemma last_prefix_step:
  "k + n \<le> M \<Longrightarrow> coded pm_inv (\<lambda>e. Option.bind (put_ones pm ctxId n k e) (\<lambda>e. if k + n < M then encodeBin pm 0 (ctxId (k + n)) e else Some e))
    (get_last_prefix pm ctxId k M) (k + n)"
proof (induction n arbitrary: k)
  case 0
  show ?case
  proof (cases "k < M")
    case True
    have "coded pm_inv (encodeBin pm 0 (ctxId k)) (\<lambda>d. Option.bind (decodeBin pm (ctxId k) d)
        (\<lambda>(bin, d). if bin = 0 then Some (k, d) else get_last_prefix pm ctxId (k + 1) M d)) k"
      by (rule coded_cong [OF coded_bind [where ?E2.0 = Some and ?D2.0 = "\<lambda>bin d. if bin = 0 then Some (k, d)
          else get_last_prefix pm ctxId (k + 1) M d", OF coded_bin [of 0 "ctxId k"]]]) (simp_all add: coded_return)
    then show ?thesis by (rule coded_cong) (use True in \<open>simp_all add: get_last_prefix.simps [of pm ctxId k]\<close>)
  next
    case False
    then show ?thesis by (intro coded_cong [OF coded_return]) (simp_all add: get_last_prefix.simps [of pm ctxId k])
  qed
next
  case (Suc n)
  let ?E = "\<lambda>e. Option.bind (put_ones pm ctxId n (Suc k) e) (\<lambda>e. if Suc k + n < M then encodeBin pm 0 (ctxId (Suc k + n)) e else Some e)"
  have IH: "coded pm_inv ?E (get_last_prefix pm ctxId (Suc k) M) (Suc k + n)" using Suc.IH [of "Suc k"] Suc.prems by simp
  have "coded pm_inv (\<lambda>e. Option.bind (encodeBin pm 1 (ctxId k) e) ?E) (\<lambda>d. Option.bind (decodeBin pm (ctxId k) d)
        (\<lambda>(bin, d). if bin = 0 then Some (k, d) else get_last_prefix pm ctxId (Suc k) M d)) (Suc k + n)"
    by (rule coded_bind [where ?D2.0 = "\<lambda>bin d. if bin = 0 then Some (k, d) else get_last_prefix pm ctxId (Suc k) M d",
          OF coded_bin [of 1 "ctxId k"]]) (use IH in simp_all)
  then show ?case
    by (rule coded_cong) (use Suc.prems in \<open>simp_all add: get_last_prefix.simps [of pm ctxId k] bind_assoc cong: if_cong\<close>)
qed

lemma last_prefix_coded:
  "g \<le> M \<Longrightarrow> coded pm_inv (put_last_prefix pm ctxId g M) (get_last_prefix pm ctxId 0 M) g"
  using last_prefix_step [of 0 g M ctxId, unfolded add_0] by (simp add: put_last_prefix_def [abs_def])

end

lemma find_scanPos_eq:
  assumes "s + k = l" "k \<le> n" "\<And>m. s \<le> m \<Longrightarrow> m < l \<Longrightarrow> blockPos c m \<noteq> blockPos c l"
  shows "find_scanPos c (blockPos c l) s n = l"
  using assms
proof (induction k arbitrary: s n)
  case 0
  then show ?case by (cases n) simp_all
next
  case (Suc k)
  then obtain n' where n: "n = Suc n'" by (cases n) auto
  have "blockPos c l \<noteq> blockPos c s" using Suc.prems(1) Suc.prems(3) [of s] by simp
  moreover have "find_scanPos c (blockPos c l) (Suc s) n' = l" using Suc.prems n by (intro Suc.IH) simp_all
  ultimately show ?case by (simp add: n)
qed

text \<open>The extent a block's coefficients may have.\<close>

definition in_region :: "ResidualCfg \<Rightarrow> nat \<Rightarrow> bool" where
  "in_region t p \<longleftrightarrow> p mod t_width t < zoTbWidth t \<and> p div t_width t < zoTbHeight t"

lemma zoTb_le: "zoTbWidth t \<le> 32" "zoTbHeight t \<le> 32"
  by (simp_all add: zoTbWidth_def zoTbHeight_def getNonzeroTuSize_def)

lemma maxLast_eq:
  "maxLastX t (cctx_of t b) = g_groupIdx ! (zoTbWidth t - 1)" "maxLastY t (cctx_of t b) = g_groupIdx ! (zoTbHeight t - 1)"
  by (simp_all add: maxLastX_def maxLastY_def zoTbWidth_def zoTbHeight_def cctx_of_def cctx_new_def Let_def split: prod.split)

lemma cctx_of_dims: "m_width (cctx_of t b) = t_width t" "m_height (cctx_of t b) = t_height t"
  "m_maxNumCoeff (cctx_of t b) = t_width t * t_height t"
  by (simp_all add: cctx_of_def cctx_new_def Let_def split: prod.split)

context prob_model
begin

lemma last_sig_coeff_coded:
  assumes r: "in_region t (blockPos (cctx_of t b) l)"
    and l: "l < m_maxNumCoeff (cctx_of t b)" "\<And>m. m < l \<Longrightarrow> blockPos (cctx_of t b) m \<noteq> blockPos (cctx_of t b) l"
  shows "coded pm_inv (put_last_sig_coeff pm t ((cctx_of t b)\<lparr>m_scanPosLast := l\<rparr>)) (get_last_sig_coeff pm t (cctx_of t b)) l"
proof -
  let ?c = "cctx_of t b" and ?p = "blockPos (cctx_of t b) l"
  let ?cl = "?c\<lparr>m_scanPosLast := l\<rparr>"
  define x where "x = (if t_reverseLast t then zoTbWidth t - 1 - ?p mod t_width t else ?p mod t_width t)"
  define y where "y = (if t_reverseLast t then zoTbHeight t - 1 - ?p div t_width t else ?p div t_width t)"
  have xy: "x \<le> zoTbWidth t - 1" "y \<le> zoTbHeight t - 1" "x < 32" "y < 32"
    using r zoTb_le [of t] by (auto simp: in_region_def x_def y_def)
  have undo: "(if t_reverseLast t then zoTbWidth t - 1 - x else x) = ?p mod t_width t"
    "(if t_reverseLast t then zoTbHeight t - 1 - y else y) = ?p div t_width t"
    using r by (auto simp: in_region_def x_def y_def)
  have cl: "lastXCtxId ?cl = lastXCtxId ?c" "lastYCtxId ?cl = lastYCtxId ?c" "blockPos ?cl = blockPos ?c" "m_width ?cl = t_width t"
    "maxLastX t ?cl = maxLastX t ?c" "maxLastY t ?cl = maxLastY t ?c" "m_scanPosLast ?cl = l"
    by (simp_all add: lastXCtxId_def lastYCtxId_def blockPos_def cctx_of_dims maxLastX_def maxLastY_def fun_eq_iff)
  have gx: "g_groupIdx ! x \<le> maxLastX t ?c" unfolding maxLast_eq using xy zoTb_le [of t] by (intro groupIdx_mono) auto
  have gy: "g_groupIdx ! y \<le> maxLastY t ?c" unfolding maxLast_eq using xy zoTb_le [of t] by (intro groupIdx_mono) auto
  have find: "find_scanPos ?c (?p mod t_width t + ?p div t_width t * t_width t) 0 (m_maxNumCoeff ?c - 1) = l"
    using find_scanPos_eq [of 0 l l "m_maxNumCoeff ?c - 1" ?c] l by (simp add: add.commute)
  let ?F = "\<lambda>X Y d. let PosLastX = (if t_reverseLast t then zoTbWidth t - 1 - X else X);
      PosLastY = (if t_reverseLast t then zoTbHeight t - 1 - Y else Y)
    in Some (find_scanPos ?c (PosLastX + PosLastY * m_width ?c) 0 (m_maxNumCoeff ?c - 1), d)"
  have F: "?F x y d = Some (l, d)" for d unfolding Let_def undo cctx_of_dims(1) find ..
  note c4 = coded_bind [where ?E2.0 = Some and ?D2.0 = "\<lambda>Y. ?F x Y", OF last_suffix_coded [OF xy(4)], unfolded F, OF coded_return]
  note c3 = coded_bind [where ?D2.0 = "\<lambda>X d. Option.bind (get_last_suffix (g_groupIdx ! y) d) (\<lambda>(Y, d). ?F X Y d)", OF last_suffix_coded [OF xy(3)] c4]
  note c2 = coded_bind [where ?D2.0 = "\<lambda>gY d. Option.bind (get_last_suffix (g_groupIdx ! x) d) (\<lambda>(X, d). Option.bind (get_last_suffix gY d) (\<lambda>(Y, d). ?F X Y d))",
      OF last_prefix_coded [OF gy] c3]
  note c1 = coded_bind [where ?D2.0 = "\<lambda>gX d. Option.bind (get_last_prefix pm (lastYCtxId ?c) 0 (maxLastY t ?c) d) (\<lambda>(gY, d).
      Option.bind (get_last_suffix gX d) (\<lambda>(X, d). Option.bind (get_last_suffix gY d) (\<lambda>(Y, d). ?F X Y d)))", OF last_prefix_coded [OF gx] c2]
  show ?thesis
  proof (rule coded_cong [OF c1])
    show "get_last_sig_coeff pm t ?c d = Option.bind (get_last_prefix pm (lastXCtxId ?c) 0 (maxLastX t ?c) d) (\<lambda>(gX, d).
        Option.bind (get_last_prefix pm (lastYCtxId ?c) 0 (maxLastY t ?c) d) (\<lambda>(gY, d).
        Option.bind (get_last_suffix gX d) (\<lambda>(X, d). Option.bind (get_last_suffix gY d) (\<lambda>(Y, d). ?F X Y d))))" for d
      unfolding get_last_sig_coeff_def ..
    have m: "?p - ?p div t_width t * t_width t = ?p mod t_width t" by (simp add: minus_div_mult_eq_mod)
    show "put_last_sig_coeff pm t ?cl e = Option.bind (put_last_prefix pm (lastXCtxId ?c) (g_groupIdx ! x) (maxLastX t ?c) e) (\<lambda>e.
        Option.bind (put_last_prefix pm (lastYCtxId ?c) (g_groupIdx ! y) (maxLastY t ?c) e) (\<lambda>e.
        Option.bind (put_last_suffix (g_groupIdx ! x) x e) (\<lambda>e. Option.bind (put_last_suffix (g_groupIdx ! y) y e) Some)))" for e
      unfolding put_last_sig_coeff_def Let_def cl m x_def [symmetric] y_def [symmetric] Option.bind_runit ..
  qed simp
qed

end

section \<open>The blocks that can be coded\<close>

definition hidden_signs_ok :: "ResidualCfg \<Rightarrow> (nat \<Rightarrow> int) \<Rightarrow> bool" where
  "hidden_signs_ok t cf \<longleftrightarrow> (let c = cctx_of t False in
    \<forall>i < m_widthInGroups c * m_heightInGroups c. parity_ok c cf (group_sigs c cf i))"

definition codable :: "ResidualCfg \<Rightarrow> (nat \<Rightarrow> int) \<Rightarrow> bool" where
  "codable t cf \<longleftrightarrow> tb_size (t_width t) \<and> tb_size (t_height t) \<and> 15 \<le> t_maxLog2 t \<and> t_maxLog2 t \<le> 20 \<and>
    (\<forall>p. - (2 ^ t_maxLog2 t) \<le> cf p \<and> cf p \<le> 2 ^ t_maxLog2 t - 1) \<and>
    (\<forall>p. cf p \<noteq> 0 \<longrightarrow> in_region t p) \<and> (\<exists>p. cf p \<noteq> 0) \<and> hidden_signs_ok t cf"

lemma diag_first:
  assumes G: "diagonal Wg Hg G" and pos: "0 < Wg" "0 < Hg"
  shows "G ! 0 = (0, 0)"
proof -
  obtain k where k: "k < Wg * Hg" "G ! k = (0, 0)"
    using diagonal_set [OF G] pos G by (metis SigmaI diagonal_def in_set_conv_nth lessThan_iff)
  then show ?thesis using diagonal_mono [OF G, of k 0] pos by (cases "k = 0") auto
qed

lemma scanCG_apart:
  assumes G: "diagonal Wg Hg (diag_order Wg Hg)" and i: "i < Wg * Hg" "j < Wg * Hg" "i \<noteq> j"
  shows "se_idx (scan_ungrouped DIAG Wg Hg ! i) \<noteq> se_idx (scan_ungrouped DIAG Wg Hg ! j)"
proof
  assume eq: "se_idx (scan_ungrouped DIAG Wg Hg ! i) = se_idx (scan_ungrouped DIAG Wg Hg ! j)"
  have "diag_order Wg Hg ! i = diag_order Wg Hg ! j"
    using flat_inj [of "fst (diag_order Wg Hg ! i)" Wg "fst (diag_order Wg Hg ! j)" "snd (diag_order Wg Hg ! i)" "snd (diag_order Wg Hg ! j)"]
      eq diagonal_nth [OF G i(1)] diagonal_nth [OF G i(2)]
    by (simp add: scan_ungrouped_nth [OF G] i elem_at_def prod_eq_iff)
  then show False using G i by (simp add: diagonal_def nth_eq_iff_index_eq)
qed

lemma group_region:
  assumes "log2CG (t_width t) (t_height t) = (lw, lh)" "lw + lh \<le> 4" and x: "x < t_width t"
    and skip: "skippedGroup t c" "m_log2CGWidth c = lw" "m_log2CGHeight c = lh" "m_subSetPosX c = x div 2 ^ lw" "m_subSetPosY c = y div 2 ^ lh"
  shows "\<not> in_region t (y * t_width t + x)"
proof -
  have "16 div 2 ^ k \<le> z div 2 ^ k \<longleftrightarrow> 16 \<le> z" if "k \<le> 4" for k z :: nat
  proof -
    have "2 ^ k dvd (16 :: nat)" using le_imp_power_dvd [OF that, of "2 :: nat"] by simp
    then show ?thesis by (simp add: less_eq_div_iff_mult_less_eq)
  qed
  then have "16 div 2 ^ lw \<le> x div 2 ^ lw \<longleftrightarrow> 16 \<le> x" "16 div 2 ^ lh \<le> y div 2 ^ lh \<longleftrightarrow> 16 \<le> y" using assms(2) by simp_all
  then show ?thesis using skip x by (auto simp: skippedGroup_def in_region_def zoTbWidth_def zoTbHeight_def)
qed

lemma cctx_of_members:
  assumes "log2CG (t_width t) (t_height t) = (lw, lh)"
  shows "m_log2CGSize (cctx_of t b) = lw + lh" "m_log2CGWidth (cctx_of t b) = lw" "m_log2CGHeight (cctx_of t b) = lh"
    "m_widthInGroups (cctx_of t b) = getNonzeroTuSize (t_width t) div 2 ^ lw"
    "m_heightInGroups (cctx_of t b) = getNonzeroTuSize (t_height t) div 2 ^ lh"
    "m_scan (cctx_of t b) = scan_grouped DIAG (t_width t) (t_height t)"
    "m_scanCG (cctx_of t b) = scan_ungrouped DIAG (getNonzeroTuSize (t_width t) div 2 ^ lw) (getNonzeroTuSize (t_height t) div 2 ^ lh)"
    "m_maxLog2TrDynamicRange (cctx_of t b) = t_maxLog2 t" "sigFlags (cctx_of t b) = (\<lambda>_. False)"
  using assms by (simp_all add: cctx_of_def cctx_new_def Let_def)

lemma scanPosLast_facts:
  "sigs (c\<lparr>m_scanPosLast := l\<rparr>) = sigs c" "blockPos (c\<lparr>m_scanPosLast := l\<rparr>) = blockPos c"
  "parity_ok (c\<lparr>m_scanPosLast := l\<rparr>) = parity_ok c" "group_sigs (c\<lparr>m_scanPosLast := l\<rparr>) = group_sigs c"
  "coeffs_ok (c\<lparr>m_scanPosLast := l\<rparr>) = coeffs_ok c" "geom_ok (c\<lparr>m_scanPosLast := l\<rparr>) = geom_ok c"
  "skippedGroup t (initSubblock i False (c\<lparr>m_scanPosLast := l\<rparr>)) = skippedGroup t (initSubblock i False c)"
  by (simp_all add: sigs_def blockPos_def parity_ok_def group_sigs_def hideSign_def coeffs_ok_def geom_ok_def fun_eq_iff
      skippedGroup_def initSubblock_def Let_def)

lemma skipped_zero:
  assumes tb: "tb_size (t_width t)" "tb_size (t_height t)" and cf: "\<And>p. cf p \<noteq> 0 \<Longrightarrow> in_region t p"
    and cg: "log2CG (t_width t) (t_height t) = (lw, lh)" "lw + lh \<le> 4"
    and P: "diagonal (2 ^ lw) (2 ^ lh) (diag_order (2 ^ lw) (2 ^ lh))" and G: "diagonal Wg Hg (diag_order Wg Hg)"
    and Wg: "Wg = getNonzeroTuSize (t_width t) div 2 ^ lw" "Wg * 2 ^ lw = getNonzeroTuSize (t_width t)"
    and Hg: "Hg = getNonzeroTuSize (t_height t) div 2 ^ lh" "Hg * 2 ^ lh = getNonzeroTuSize (t_height t)"
    and i: "i < Wg * Hg" "skippedGroup t (initSubblock i False (cctx_of t b))"
  shows "group_sigs (cctx_of t b) cf i = []"
proof -
  let ?c = "cctx_of t b" and ?S = "2 ^ (lw + lh) :: nat"
  note mem = cctx_of_members [OF cg(1)]
  have "cf (blockPos ?c m) = 0" if m: "i * ?S \<le> m" "m < i * ?S + ?S" for m
  proof -
    have "Suc i * ?S \<le> Wg * Hg * ?S" using i(1) by (intro mult_le_mono1) simp
    then have mN: "m < Wg * Hg * ?S" using m by simp
    have "m div ?S = i" using m by (intro div_nat_eqI) (simp_all add: mult.commute)
    note nth = scan_grouped_nth [OF cg(1) P G Wg Hg tb_size_pos [OF tb(1)] tb_size_pos [OF tb(2)] mN, unfolded this]
    have N: "Wg * Hg * ?S = getNonzeroTuSize (t_width t) * getNonzeroTuSize (t_height t)"
      unfolding Wg(2) [symmetric] Hg(2) [symmetric] power_add by simp
    note el = geom_elem [OF scan_grouped_ok_lemma [OF tb] mN [unfolded N]]
    let ?x = "se_x (scan_grouped DIAG (t_width t) (t_height t) ! m)" and ?y = "se_y (scan_grouped DIAG (t_width t) (t_height t) ! m)"
    define g where "g = diag_order Wg Hg ! i"
    have g: "fst g < Wg" using diagonal_nth [OF G i(1)] by (simp add: g_def)
    have "se_idx (m_scanCG ?c ! i) = snd g * Wg + fst g"
      unfolding mem(7) Wg(1) [symmetric] Hg(1) [symmetric] scan_ungrouped_nth [OF G i(1)] by (simp add: elem_at_def g_def)
    then have "m_subSetPosX (initSubblock i False ?c) = fst g" "m_subSetPosY (initSubblock i False ?c) = snd g"
      unfolding initSubblock_def Let_def mem(4) Wg(1) [symmetric] using g by simp_all
    then have "\<not> in_region t (?y * t_width t + ?x)"
      using group_region [OF cg el(2) i(2), of ?y] nth by (simp add: g_def initSubblock_def Let_def mem(2,3))
    then show ?thesis using cf el(1) by (auto simp: blockPos_def mem)
  qed
  then show ?thesis by (auto simp: group_sigs_def sigs_def filter_empty_conv mem)
qed

text \<open>The groups of the coded region, and what is known of the positions.\<close>

lemma codable_scan:
  assumes "codable t cf" and c: "c = cctx_of t False"
  obtains G where "G = m_widthInGroups c * m_heightInGroups c" "geom_ok c (G * 2 ^ m_log2CGSize c)"
    "m_log2CGSize c \<le> 4" "0 < m_widthInGroups c" "se_idx (m_scanCG c ! 0) = 0"
    "\<forall>i < G. \<forall>j < i. se_idx (m_scanCG c ! i) \<noteq> se_idx (m_scanCG c ! j)"
    "\<forall>p. in_region t p \<longrightarrow> (\<exists>n < G * 2 ^ m_log2CGSize c. p = blockPos c n)"
    "\<forall>n < m_maxNumCoeff c. in_region t (blockPos c n) \<longrightarrow> n < G * 2 ^ m_log2CGSize c"
    "G * 2 ^ m_log2CGSize c \<le> m_maxNumCoeff c"
    "\<forall>i < G. skippedGroup t (initSubblock i False c) \<longrightarrow> group_sigs c cf i = []"
proof -
  let ?W = "t_width t" and ?H = "t_height t"
  let ?cw = "getNonzeroTuSize ?W" and ?ch = "getNonzeroTuSize ?H"
  have tb: "tb_size ?W" "tb_size ?H" and cf: "\<And>p. cf p \<noteq> 0 \<Longrightarrow> in_region t p" using assms(1) by (simp_all add: codable_def)
  have pos: "0 < ?W" "0 < ?H" using tb tb_size_pos by blast+
  obtain lw lh Wg Hg where cg: "log2CG ?W ?H = (lw, lh)" "lw + lh \<le> 4"
    and P: "diagonal (2 ^ lw) (2 ^ lh) (diag_order (2 ^ lw) (2 ^ lh))" and G: "diagonal Wg Hg (diag_order Wg Hg)"
    and Wg: "Wg = ?cw div 2 ^ lw" "Wg * 2 ^ lw = ?cw" and Hg: "Hg = ?ch div 2 ^ lh" "Hg * 2 ^ lh = ?ch"
    using tb_groups [OF tb] by metis
  note mem = cctx_of_members [OF cg(1), of False, folded c]
  have N: "Wg * Hg * 2 ^ (lw + lh) = ?cw * ?ch" unfolding Wg(2) [symmetric] Hg(2) [symmetric] power_add by simp
  note ok = scan_grouped_ok_lemma [OF tb]
  have zo: "zoTbWidth t \<le> ?cw" "zoTbHeight t \<le> ?ch" by (simp_all add: zoTbWidth_def zoTbHeight_def getNonzeroTuSize_def)
  have WH: "0 < Wg" "0 < Hg" using Wg(2) Hg(2) pos by (auto intro!: gr0I simp: getNonzeroTuSize_def)
  have N': "Wg * Hg * 2 ^ m_log2CGSize c = ?cw * ?ch" unfolding mem N ..
  show thesis
  proof (rule that [of "Wg * Hg"])
    show "Wg * Hg = m_widthInGroups c * m_heightInGroups c" unfolding mem Wg(1) [symmetric] Hg(1) [symmetric] ..
    show "geom_ok c (Wg * Hg * 2 ^ m_log2CGSize c)" unfolding N' geom_ok_def using ok by (auto simp: c cctx_of_dims mem [unfolded c])
    show "m_log2CGSize c \<le> 4" using cg(2) by (simp add: mem)
    show "0 < m_widthInGroups c" using WH unfolding mem Wg(1) [symmetric] by simp
    show "se_idx (m_scanCG c ! 0) = 0"
      using WH unfolding mem Wg(1) [symmetric] Hg(1) [symmetric] by (simp add: scan_ungrouped_nth [OF G] diag_first [OF G WH] elem_at_def)
    show "\<forall>i < Wg * Hg. \<forall>j < i. se_idx (m_scanCG c ! i) \<noteq> se_idx (m_scanCG c ! j)"
      unfolding mem Wg(1) [symmetric] Hg(1) [symmetric] 
    proof (intro allI impI)
      fix i j assume "i < Wg * Hg" "j < i"
      then show "se_idx (scan_ungrouped DIAG Wg Hg ! i) \<noteq> se_idx (scan_ungrouped DIAG Wg Hg ! j)" by (intro scanCG_apart [OF G]) simp_all
    qed
    show "\<forall>p. in_region t p \<longrightarrow> (\<exists>n < Wg * Hg * 2 ^ m_log2CGSize c. p = blockPos c n)"
    proof (intro allI impI)
      fix p assume "in_region t p"
      then have "p mod ?W < ?cw" "p div ?W < ?ch" using zo by (auto simp: in_region_def)
      then obtain n where "n < ?cw * ?ch" "scan_grouped DIAG ?W ?H ! n = elem_at ?W (p mod ?W) (p div ?W)" using ok unfolding scan_ok_def by blast
      then show "\<exists>n < Wg * Hg * 2 ^ m_log2CGSize c. p = blockPos c n"
        unfolding N' by (intro exI [of _ n]) (simp add: blockPos_def mem elem_at_def)
    qed
    show "\<forall>n < m_maxNumCoeff c. in_region t (blockPos c n) \<longrightarrow> n < Wg * Hg * 2 ^ m_log2CGSize c"
    proof (intro allI impI, rule ccontr)
      fix n assume n: "n < m_maxNumCoeff c" "in_region t (blockPos c n)" "\<not> n < Wg * Hg * 2 ^ m_log2CGSize c"
      have nW: "n < ?W * ?H" using n(1) by (simp add: c cctx_of_dims)
      then have "scan_grouped DIAG ?W ?H ! n = elem_at ?W (?W - 1) (?H - 1)" using ok n(3) unfolding N' scan_ok_def by simp
      then have b: "blockPos c n = (?H - 1) * ?W + (?W - 1)" by (simp add: blockPos_def mem elem_at_def)
      have "blockPos c n mod ?W = ?W - 1" "blockPos c n div ?W = ?H - 1"
        unfolding b mod_mult_self3 using pos by (simp_all only: div_mult_self3 div_less mod_less diff_less zero_less_one neq0_conv add_0_right)
      then have "?W \<le> ?cw" "?H \<le> ?ch" using n(2) zo pos unfolding in_region_def by linarith+
      then have "?W * ?H \<le> ?cw * ?ch" by (rule mult_le_mono)
      then show False using nW n(3) unfolding N' by simp
    qed
    have "?cw * ?ch \<le> ?W * ?H" by (intro mult_le_mono) (simp_all add: getNonzeroTuSize_def)
    then show "Wg * Hg * 2 ^ m_log2CGSize c \<le> m_maxNumCoeff c" unfolding N' by (simp add: c cctx_of_dims)
    show "\<forall>i < Wg * Hg. skippedGroup t (initSubblock i False c) \<longrightarrow> group_sigs c cf i = []"
      unfolding c using skipped_zero [OF tb cf cg P G Wg Hg] by blast
  qed
qed

section \<open>The round trip\<close>

context prob_model
begin

lemma block_trip:
  assumes ok: "codable t cf" and c: "c = cctx_of t False"
    and l: "l < m_maxNumCoeff c" "cf (blockPos c l) \<noteq> 0" "\<And>m. l < m \<Longrightarrow> m < m_maxNumCoeff c \<Longrightarrow> cf (blockPos c m) = 0"
    and sigf: "\<And>g. g < m_widthInGroups c * m_heightInGroups c \<Longrightarrow> sigf g \<longleftrightarrow> group_sigs c cf g \<noteq> []"
  shows "\<exists>cu' rs'. codes pm_inv (\<lambda>e. Option.bind (put_last_sig_coeff pm t (c\<lparr>m_scanPosLast := l\<rparr>) e)
      (put_subblocks pm t cf sigf (l div 2 ^ m_log2CGSize c + 1) 0 rs (noteLastPos t l cu) (prepareSubblocks t rs (c\<lparr>m_scanPosLast := l\<rparr>))))
    (cu', rs') (get_residual_coding pm t False rs cu (\<lambda>_. 0)) (cu', rs', cf)"
proof -
  obtain G where G: "G = m_widthInGroups c * m_heightInGroups c" "geom_ok c (G * 2 ^ m_log2CGSize c)"
    "m_log2CGSize c \<le> 4" "0 < m_widthInGroups c" "se_idx (m_scanCG c ! 0) = 0"
    "\<forall>i < G. \<forall>j < i. se_idx (m_scanCG c ! i) \<noteq> se_idx (m_scanCG c ! j)"
    "\<forall>p. in_region t p \<longrightarrow> (\<exists>n < G * 2 ^ m_log2CGSize c. p = blockPos c n)"
    "\<forall>n < m_maxNumCoeff c. in_region t (blockPos c n) \<longrightarrow> n < G * 2 ^ m_log2CGSize c"
    "G * 2 ^ m_log2CGSize c \<le> m_maxNumCoeff c"
    "\<forall>i < G. skippedGroup t (initSubblock i False c) \<longrightarrow> group_sigs c cf i = []"
    using codable_scan [OF ok c] by metis
  let ?N = "G * 2 ^ m_log2CGSize c" and ?cl = "c\<lparr>m_scanPosLast := l\<rparr>"
  let ?c = "prepareSubblocks t rs ?cl"
  have cf: "\<And>p. cf p \<noteq> 0 \<Longrightarrow> in_region t p" using ok by (simp add: codable_def)
  have lN: "l < ?N" using G(8) l(1) cf [OF l(2)] by blast
  have S: "(2 :: nat) ^ m_log2CGSize c \<le> 2 ^ 4" using G(3) by (intro power_increasing) simp_all
  have co: "coeffs_ok c cf" using ok unfolding c by (auto simp: coeffs_ok_def codable_def cctx_of_def cctx_new_def Let_def split: prod.split)
  have B: "block_ok t ?cl cf G"
    unfolding block_ok_def scanPosLast_facts using G S lN l co ok
    by (simp add: codable_def hidden_signs_ok_def Let_def c)
  have sf: "\<And>i. i < G \<Longrightarrow> sigf i \<longleftrightarrow> group_sigs ?cl cf i \<noteq> []" using sigf G(1) by (simp add: scanPosLast_facts)
  have sb: "same_block ?cl ?c" by (simp add: prepareSubblocks_def Let_def same_block_def)
  have fl: "\<forall>j < l div 2 ^ m_log2CGSize c + 1. \<not> sigFlags ?c (se_idx (m_scanCG ?cl ! j))"
    by (auto simp: prepareSubblocks_def Let_def c cctx_of_def cctx_new_def split: prod.split)
  have v: "view ?cl ?N cf (\<lambda>m. if (l div 2 ^ m_log2CGSize c + 1) * 2 ^ m_log2CGSize c \<le> m then cf (blockPos ?cl m) else 0) (\<lambda>_. 0)"
    unfolding view_def scanPosLast_facts
  proof (intro conjI allI impI)
    fix m assume m: "m < ?N"
    have "l < m" if "(l div 2 ^ m_log2CGSize c + 1) * 2 ^ m_log2CGSize c \<le> m"
      using group_bounds(1) [of "2 ^ m_log2CGSize c" l "l div 2 ^ m_log2CGSize c"] that by simp
    then show "0 = (if (l div 2 ^ m_log2CGSize c + 1) * 2 ^ m_log2CGSize c \<le> m then cf (blockPos c m) else 0)"
      using l(3) [of m] m G(9) by simp
  next
    fix p assume "\<forall>m < ?N. p \<noteq> blockPos c m"
    then show "0 = cf p" using G(7) cf [of p] by metis
  qed
  have n: "l div 2 ^ m_log2CGSize c + 1 \<le> m_scanPosLast ?cl div 2 ^ m_log2CGSize ?cl + 1" by simp
  obtain cu' rs' where 2: "codes pm_inv (put_subblocks pm t cf sigf (l div 2 ^ m_log2CGSize c + 1) 0 rs (noteLastPos t l cu) ?c) (cu', rs')
      (get_subblocks pm t (l div 2 ^ m_log2CGSize c + 1) 0 rs (noteLastPos t l cu) ?c (\<lambda>_. 0)) (cu', rs', cf)"
    using subblocks_trip [OF B sf n sb _ fl, of "\<lambda>_. 0" 0 rs "noteLastPos t l cu"] v by auto
  have "blockPos c m \<noteq> blockPos c l" if "m < l" for m
    using geom_inj [OF G(2), of m l] that lN by auto
  then have 1: "coded pm_inv (put_last_sig_coeff pm t ?cl) (get_last_sig_coeff pm t c) l"
    unfolding c using cf [OF l(2)] l(1) by (intro last_sig_coeff_coded) (simp_all add: c)
  have "codes pm_inv (\<lambda>e. Option.bind (put_last_sig_coeff pm t ?cl e)
      (put_subblocks pm t cf sigf (l div 2 ^ m_log2CGSize c + 1) 0 rs (noteLastPos t l cu) ?c)) (cu', rs')
      (get_residual_coding pm t False rs cu (\<lambda>_. 0)) (cu', rs', cf)"
  proof (rule codes_cong [OF codes_bin [where ?D2.0 = "\<lambda>l. get_subblocks pm t (l div 2 ^ m_log2CGSize (c\<lparr>m_scanPosLast := l\<rparr>) + 1) 0 rs
        (noteLastPos t l cu) (prepareSubblocks t rs (c\<lparr>m_scanPosLast := l\<rparr>)) (\<lambda>_. 0)", OF 1]])
    have "m_log2CGSize (c\<lparr>m_scanPosLast := l\<rparr>) = m_log2CGSize c" by simp
    then show "codes pm_inv (put_subblocks pm t cf sigf (l div 2 ^ m_log2CGSize c + 1) 0 rs (noteLastPos t l cu) ?c) (cu', rs')
        (get_subblocks pm t (l div 2 ^ m_log2CGSize (c\<lparr>m_scanPosLast := l\<rparr>) + 1) 0 rs (noteLastPos t l cu) ?c (\<lambda>_. 0)) (cu', rs', cf)"
      using 2 by (simp only:)
    show "get_residual_coding pm t False rs cu (\<lambda>_. 0) d = Option.bind (get_last_sig_coeff pm t c d)
        (\<lambda>(l, d). get_subblocks pm t (l div 2 ^ m_log2CGSize (c\<lparr>m_scanPosLast := l\<rparr>) + 1) 0 rs
        (noteLastPos t l cu) (prepareSubblocks t rs (c\<lparr>m_scanPosLast := l\<rparr>)) (\<lambda>_. 0) d)" for d
      unfolding get_residual_coding_def c Let_def ..
  qed simp_all
  then show ?thesis by blast
qed

end

context prob_model
begin

lemma residual_trip:
  assumes ok: "codable t cf"
  shows "\<exists>cu' rs'. codes pm_inv (put_residual_coding pm t cf rs cu) (cu', rs') (get_residual_coding pm t False rs cu (\<lambda>_. 0)) (cu', rs', cf)"
proof -
  let ?c = "cctx_of t False"
  define sig where "sig = filter (\<lambda>m. cf (blockPos ?c m) \<noteq> 0) [0..<m_maxNumCoeff ?c]"
  define l where "l = last sig"
  define sigf where "sigf = (\<lambda>g. g \<in> set (map (\<lambda>m. m div 2 ^ m_log2CGSize ?c) sig))"
  obtain G where G: "G = m_widthInGroups ?c * m_heightInGroups ?c"
    "\<forall>p. in_region t p \<longrightarrow> (\<exists>n < G * 2 ^ m_log2CGSize ?c. p = blockPos ?c n)" "G * 2 ^ m_log2CGSize ?c \<le> m_maxNumCoeff ?c"
    using codable_scan [OF ok refl] by metis
  obtain p where "cf p \<noteq> 0" "in_region t p" using ok by (auto simp: codable_def)
  then obtain n where "n < m_maxNumCoeff ?c" "cf (blockPos ?c n) \<noteq> 0" using G(2,3) by (metis less_le_trans)
  then have ne: "sig \<noteq> []" by (auto simp: sig_def filter_empty_conv)
  have mem: "m \<in> set sig \<longleftrightarrow> m < m_maxNumCoeff ?c \<and> cf (blockPos ?c m) \<noteq> 0" for m by (auto simp: sig_def)
  have l: "l < m_maxNumCoeff ?c" "cf (blockPos ?c l) \<noteq> 0" using last_in_set [OF ne] mem by (simp_all add: l_def)
  have above: "cf (blockPos ?c m) = 0" if "l < m" "m < m_maxNumCoeff ?c" for m
  proof (rule ccontr)
    assume "cf (blockPos ?c m) \<noteq> 0"
    then have "m \<in> set sig" using that(2) mem by simp
    moreover have "sorted sig" unfolding sig_def by (rule sorted_filter [of id, simplified]) simp
    ultimately have "m \<le> last sig" by (cases sig rule: rev_cases) (auto simp: sorted_append)
    then show False using that(1) by (simp add: l_def)
  qed
  have sf: "sigf g \<longleftrightarrow> group_sigs ?c cf g \<noteq> []" if g: "g < m_widthInGroups ?c * m_heightInGroups ?c" for g
  proof -
    let ?S = "2 ^ m_log2CGSize ?c :: nat"
    have "Suc g * ?S \<le> G * ?S" using g G(1) by (intro mult_le_mono1) simp
    then have le: "g * ?S + ?S \<le> m_maxNumCoeff ?c" using G(3) by simp
    have eq: "m div ?S = g \<longleftrightarrow> g * ?S \<le> m \<and> m < g * ?S + ?S" for m
      using group_bounds(1) [of ?S m g] div_nat_eqI [of ?S g m] by (auto simp: mult.commute add.commute)
    have "sigf g \<longleftrightarrow> (\<exists>m. m div ?S = g \<and> m < m_maxNumCoeff ?c \<and> cf (blockPos ?c m) \<noteq> 0)"
      unfolding sigf_def using mem by auto
    also have "\<dots> \<longleftrightarrow> (\<exists>m. g * ?S \<le> m \<and> m < g * ?S + ?S \<and> cf (blockPos ?c m) \<noteq> 0)"
      unfolding eq using le by (meson less_le_trans)
    also have "\<dots> \<longleftrightarrow> set (group_sigs ?c cf g) \<noteq> {}" unfolding group_sigs_def sigs_set by auto
    finally show ?thesis by simp
  qed
  obtain cu' rs' where T: "codes pm_inv (\<lambda>e. Option.bind (put_last_sig_coeff pm t (?c\<lparr>m_scanPosLast := l\<rparr>) e)
      (put_subblocks pm t cf sigf (l div 2 ^ m_log2CGSize ?c + 1) 0 rs (noteLastPos t l cu) (prepareSubblocks t rs (?c\<lparr>m_scanPosLast := l\<rparr>))))
    (cu', rs') (get_residual_coding pm t False rs cu (\<lambda>_. 0)) (cu', rs', cf)"
    using block_trip [OF ok refl l above sf] by blast
  have "put_residual_coding pm t cf rs cu e = Option.bind (put_last_sig_coeff pm t (?c\<lparr>m_scanPosLast := l\<rparr>) e)
      (put_subblocks pm t cf sigf (l div 2 ^ m_log2CGSize ?c + 1) 0 rs (noteLastPos t l cu) (prepareSubblocks t rs (?c\<lparr>m_scanPosLast := l\<rparr>)))" for e
  proof -
    have "check (sig = []) = Some ()" using ne by simp
    then show ?thesis unfolding put_residual_coding_def Let_def sig_def [symmetric] l_def [symmetric] sigf_def [symmetric] by simp
  qed
  then have "codes pm_inv (put_residual_coding pm t cf rs cu) (cu', rs') (get_residual_coding pm t False rs cu (\<lambda>_. 0)) (cu', rs', cf)"
    by (intro codes_cong [OF T]) simp_all
  then show ?thesis by blast
qed

end

text \<open>
  C1: Coefficient coding is lossless. For every transform block size, with or without sign hiding,
  dependent quantisation, sub-block transform, extended Rice derivation and reversed last position, a block
  with a significant coefficient, all in range and inside the coded region, with the hidden signs arranged,
  is written without an error; a reader with the same contexts and Rice statistics, given a zeroed buffer
  and the bytes written among others, recovers every coefficient, derives the same block flags and Rice
  statistics as the writer, recognises the end and consumes exactly those bytes.
\<close>

theorem residual_roundtrip:
  assumes "codable t cf" "std_valid e"
  shows "\<exists>e' F cu' rs'. encode_substream (\<lambda>e. Option.bind (put_residual_coding Std t cf rs cu e) (\<lambda>(_, e). Some e)) e = Some e' \<and>
    ob_bits (e_bitstream e') = ob_bits (e_bitstream e) @ bits_of_bytes F \<and> list_all is_byte F \<and>
    (\<forall>e1 x e2. put_residual_coding Std t cf rs cu e1 = Some (x, e2) \<longrightarrow> x = (cu', rs')) \<and>
    (\<forall>d pre rest. list_all is_byte (pre @ rest) \<and>
       d_bitstream d = i_create\<lparr>i_fifo := pre @ F @ rest, i_fifoIdx := length pre\<rparr> \<and> d_ctx d = e_ctx e \<longrightarrow>
       (\<exists>d'. decode_substream (get_residual_coding Std t False rs cu (\<lambda>_. 0)) d = Some ((cu', rs', cf), True, d') \<and>
          i_fifoIdx (d_bitstream d') = length pre + length F))"
proof -
  obtain cu' rs' where "codes std_inv (put_residual_coding Std t cf rs cu) (cu', rs')
      (get_residual_coding Std t False rs cu (\<lambda>_. 0)) (cu', rs', cf)" using std.residual_trip [OF assms(1)] by blast
  then have c: "coded std_inv (\<lambda>e. Option.bind (put_residual_coding Std t cf rs cu e) (\<lambda>(s, e). Some e))
      (get_residual_coding Std t False rs cu (\<lambda>_. 0)) (cu', rs', cf)"
    and d: "\<forall>e1 x e2. put_residual_coding Std t cf rs cu e1 = Some (x, e2) \<longrightarrow> x = (cu', rs')" by (auto simp: codes_def)
  from std_substream [OF c assms(2)] d show ?thesis by blast
qed

definition sample_cfg :: ResidualCfg where
  "sample_cfg = \<lparr>t_width = 4, t_height = 4, t_compID = 0, t_mtsSkip = False, t_sbt = False, t_mtsEnabled = True, t_signHiding = True,
     t_depQuant = False, t_reverseLast = False, t_rrcRice = False, t_persistentRice = True, t_maxLog2 = 15, t_baseLevel = 4\<rparr>"

definition sample_coeffs :: "nat \<Rightarrow> int" where
  "sample_coeffs p = (if p = 0 then - 40 else if p = 1 then 7 else if p = 9 then - 1 else if p = 6 then 5 else 0)"

definition sample_cuctx :: CUCtx where
  "sample_cuctx = \<lparr>isDQPCoded = False, isChromaQpAdjCoded = False, qgStart = False, lfnstLastScanPos = False, cuctx_qp = 32,
     violatesLfnstConstrained = (False, False), violatesMtsCoeffConstraint = False, mtsLastScanPos = False\<rparr>"

lemma sample_scan: "map se_idx (scan_grouped DIAG 4 4) = [0, 4, 1, 8, 5, 2, 12, 9, 6, 3, 13, 10, 7, 14, 11, 15]"
proof -
  have d: "diag_order 4 4 = [(0,0),(0,1),(1,0),(0,2),(1,1),(2,0),(0,3),(1,2),(2,1),(3,0),(1,3),(2,2),(3,1),(2,3),(3,2),(3,3)]"
    "diag_order 1 1 = [(0,0)]" by code_simp+
  have "scan_grouped DIAG 4 4 = concat (map (\<lambda>(gx, gy). map (\<lambda>(x, y). elem_at 4 (x + gx * 2 ^ 2) (y + gy * 2 ^ 2)) (diag_order (2 ^ 2) (2 ^ 2))) (diag_order 1 1))
      @ replicate (4 * 4 - 1 * 1 * (2 ^ 2 * 2 ^ 2)) (elem_at 4 (4 - 1) (4 - 1))"
    by (rule scan_grouped_concat) (use diag_orders in \<open>simp_all add: log2CG_def floorLog2_tu g_log2TxSubblockSize_def getNonzeroTuSize_def\<close>)
  then show ?thesis by (simp add: d(1) d(2) [simplified] elem_at_def)
qed

lemma sample_codable: "codable sample_cfg sample_coeffs"
proof -
  have "log2CG (t_width sample_cfg) (t_height sample_cfg) = (2, 2)"
    by (simp add: sample_cfg_def log2CG_def floorLog2_tu g_log2TxSubblockSize_def)
  note mem = cctx_of_members [OF this, of False]
  have b: "blockPos (cctx_of sample_cfg False) m = [0, 4, 1, 8, 5, 2, 12, 9, 6, 3, 13, 10, 7, 14, 11, 15] ! m" if "m < 16" for m
  proof -
    have "length (scan_grouped DIAG 4 4) = 16" using arg_cong [OF sample_scan, of length] by simp
    then show ?thesis using that unfolding blockPos_def mem sample_scan [symmetric] by (simp add: sample_cfg_def)
  qed
  have "[0..<16] = [0, 1, 2, 3, 4, 5, 6, 7, 8, 9, 10, 11, 12, 13, 14, 15 :: nat]" by (simp add: upt_rec)
  then have "group_sigs (cctx_of sample_cfg False) sample_coeffs 0 = [8, 7, 2, 0]"
    unfolding group_sigs_def sigs_def mem by (simp add: b sample_coeffs_def)
  then have "parity_ok (cctx_of sample_cfg False) sample_coeffs (group_sigs (cctx_of sample_cfg False) sample_coeffs 0)"
    by (simp add: parity_ok_def b sample_coeffs_def)
  moreover have "m_widthInGroups (cctx_of sample_cfg False) * m_heightInGroups (cctx_of sample_cfg False) = 1"
    unfolding mem by (simp add: sample_cfg_def getNonzeroTuSize_def)
  ultimately have "hidden_signs_ok sample_cfg sample_coeffs" by (simp add: hidden_signs_ok_def Let_def)
  moreover have "\<forall>p. sample_coeffs p \<noteq> 0 \<longrightarrow> in_region sample_cfg p"
    by (simp add: sample_coeffs_def in_region_def sample_cfg_def zoTbWidth_def zoTbHeight_def sbtZeroOut_def getNonzeroTuSize_def)
  moreover have "\<exists>p. sample_coeffs p \<noteq> 0" by (rule exI [of _ 0]) (simp add: sample_coeffs_def)
  ultimately show ?thesis unfolding codable_def by (simp add: sample_cfg_def tb_size_def sample_coeffs_def)
qed

theorem residual_roundtrip_witness:
  "\<exists>e' F cu' d'. encode_substream (\<lambda>e. Option.bind (put_residual_coding Std sample_cfg sample_coeffs 0 sample_cuctx e) (\<lambda>(_, e). Some e))
      sample_encoder = Some e' \<and> ob_bits (e_bitstream e') = bits_of_bytes F \<and>
    decode_substream (get_residual_coding Std sample_cfg False 0 sample_cuctx (\<lambda>_. 0)) (sample_decoder [1] F []) = Some (cu', True, d') \<and>
    snd (snd cu') 0 = - 40 \<and> snd (snd cu') 6 = 5"
proof -
  have "std_valid sample_encoder"
    by (simp add: std_valid_def sample_encoder_def std_create_def std_inv_def DWS_def o_clear_def ob_inv_def is_byte_def)
  from residual_roundtrip [OF sample_codable this, of 0 sample_cuctx] obtain e' F cu' rs' where
    e': "encode_substream (\<lambda>e. Option.bind (put_residual_coding Std sample_cfg sample_coeffs 0 sample_cuctx e) (\<lambda>(_, e). Some e)) sample_encoder = Some e'"
      "ob_bits (e_bitstream e') = ob_bits (e_bitstream sample_encoder) @ bits_of_bytes F"
    and dec: "\<forall>d pre rest. list_all is_byte (pre @ rest) \<and>
       d_bitstream d = i_create\<lparr>i_fifo := pre @ F @ rest, i_fifoIdx := length pre\<rparr> \<and> d_ctx d = e_ctx sample_encoder \<longrightarrow>
       (\<exists>d'. decode_substream (get_residual_coding Std sample_cfg False 0 sample_cuctx (\<lambda>_. 0)) d = Some ((cu', rs', sample_coeffs), True, d') \<and>
          i_fifoIdx (d_bitstream d') = length pre + length F)" by blast
  have "ob_bits (e_bitstream sample_encoder) = []" by (simp add: sample_encoder_def ob_bits_def o_clear_def)
  with e' dec [rule_format, of "[1]" "[]" "sample_decoder [1] F []"] show ?thesis
    by (fastforce simp: sample_decoder_def sample_encoder_def is_byte_def sample_coeffs_def)
qed

end
