(* ===== verification/Area.thy ===== *)
theory Area
  imports Contexts
begin

text \<open>
  Blocks of samples: positions, sizes, component areas and unit areas of \<open>Common.h\<close>,
  \<open>Unit.h\<close> and \<open>Unit.cpp\<close>, with the chroma scaling of \<open>ChromaFormat.h\<close>.  Positions are
  \<open>int\<close> and sizes \<open>nat\<close>; the unsigned comparison of \<open>contains\<close> keeps its 32 bits.  The
  second part names the set of samples of a block and what it means that blocks tile one.
\<close>

section \<open>Channels, components and formats\<close>

datatype ChromaFormat = CF_400 | CF_420 | CF_422 | CF_444 | CF_UNDEFINED

datatype ChannelType = LUMA | CHROMA

datatype ComponentID = COMPONENT_Y | COMPONENT_Cb | COMPONENT_Cr | MAX_NUM_TBLOCKS

definition toChannelType :: "ComponentID \<Rightarrow> ChannelType" where
  "toChannelType c = (if c = COMPONENT_Y then LUMA else CHROMA)"

definition isChromaEnabled :: "ChromaFormat \<Rightarrow> bool" where
  "isChromaEnabled cf = (cf \<noteq> CF_400)"

definition getChannelTypeScaleX :: "ChannelType \<Rightarrow> ChromaFormat \<Rightarrow> nat" where
  "getChannelTypeScaleX ch cf = (if ch = LUMA \<or> cf = CF_444 then 0 else 1)"

definition getChannelTypeScaleY :: "ChannelType \<Rightarrow> ChromaFormat \<Rightarrow> nat" where
  "getChannelTypeScaleY ch cf = (if ch = LUMA \<or> cf \<noteq> CF_420 then 0 else 1)"

definition getNumberValidComponents :: "ChromaFormat \<Rightarrow> nat" where
  "getNumberValidComponents cf = (if \<not> isChromaEnabled cf then 1 else 3)"

section \<open>Areas\<close>

record CompArea =
  posx :: int
  posy :: int
  width :: nat
  height :: nat
  chromaFormat :: ChromaFormat
  compID :: ComponentID

text \<open>\<open>CompArea()\<close>: the block of no component.\<close>

definition no_block :: CompArea where
  "no_block = \<lparr>posx = 0, posy = 0, width = 0, height = 0, chromaFormat = CF_UNDEFINED,
    compID = MAX_NUM_TBLOCKS\<rparr>"

definition comp_pos :: "CompArea \<Rightarrow> int \<times> int" where
  "comp_pos a = (posx a, posy a)"

definition topRight :: "CompArea \<Rightarrow> int \<times> int" where
  "topRight a = (posx a + int (width a) - 1, posy a)"

definition bottomLeft :: "CompArea \<Rightarrow> int \<times> int" where
  "bottomLeft a = (posx a, posy a + int (height a) - 1)"

definition bottomRight :: "CompArea \<Rightarrow> int \<times> int" where
  "bottomRight a = (posx a + int (width a) - 1, posy a + int (height a) - 1)"

definition contains_pos :: "CompArea \<Rightarrow> int \<times> int \<Rightarrow> bool" where
  "contains_pos a p = (u32 (fst p - posx a) < int (width a) \<and> u32 (snd p - posy a) < int (height a))"

definition contains_area :: "CompArea \<Rightarrow> CompArea \<Rightarrow> bool" where
  "contains_area a b = (contains_pos a (comp_pos b) \<and> contains_pos a (bottomRight b))"

definition comp_valid :: "CompArea \<Rightarrow> bool" where
  "comp_valid a = (chromaFormat a \<noteq> CF_UNDEFINED \<and> compID a \<noteq> MAX_NUM_TBLOCKS \<and> width a \<noteq> 0 \<and> height a \<noteq> 0)"

text \<open>\<open>CompArea\<close> with \<open>isLuma\<close> set: an area given in luma samples, scaled to the component.\<close>

definition comp_of_luma :: "ComponentID \<Rightarrow> ChromaFormat \<Rightarrow> int \<Rightarrow> int \<Rightarrow> nat \<Rightarrow> nat \<Rightarrow> CompArea" where
  "comp_of_luma c cf px py w h =
    (let csx = getChannelTypeScaleX (toChannelType c) cf;
         csy = getChannelTypeScaleY (toChannelType c) cf
     in \<lparr>posx = px div 2 ^ csx, posy = py div 2 ^ csy, width = w div 2 ^ csx, height = h div 2 ^ csy,
         chromaFormat = cf, compID = c\<rparr>)"

section \<open>Unit areas\<close>

record UnitArea =
  unit_format :: ChromaFormat
  blocks :: "CompArea list"

definition unit_of_luma :: "ChromaFormat \<Rightarrow> int \<Rightarrow> int \<Rightarrow> nat \<Rightarrow> nat \<Rightarrow> UnitArea" where
  "unit_of_luma cf px py w h = \<lparr>unit_format = cf,
    blocks = map (\<lambda>c. comp_of_luma c cf px py w h)
      (take (getNumberValidComponents cf) [COMPONENT_Y, COMPONENT_Cb, COMPONENT_Cr])\<rparr>"

definition blkY :: "UnitArea \<Rightarrow> CompArea" where
  "blkY u = blocks u ! 0"

definition blkCb :: "UnitArea \<Rightarrow> CompArea" where
  "blkCb u = blocks u ! 1"

definition chan_block :: "UnitArea \<Rightarrow> ChannelType \<Rightarrow> CompArea" where
  "chan_block u ch = (if ch = LUMA then blkY u else blkCb u)"

definition lumaPos :: "UnitArea \<Rightarrow> int \<times> int" where
  "lumaPos u = comp_pos (blkY u)"

definition chromaPos :: "UnitArea \<Rightarrow> int \<times> int" where
  "chromaPos u = comp_pos (blkCb u)"

section \<open>Samples and tilings\<close>

definition samples :: "CompArea \<Rightarrow> (int \<times> int) set" where
  "samples a = {posx a ..< posx a + int (width a)} \<times> {posy a ..< posy a + int (height a)}"

primrec disjoint_blocks :: "CompArea list \<Rightarrow> bool" where
  "disjoint_blocks [] = True"
| "disjoint_blocks (b # bs) = ((\<forall>c\<in>set bs. samples b \<inter> samples c = {}) \<and> disjoint_blocks bs)"

definition tiles :: "CompArea list \<Rightarrow> CompArea \<Rightarrow> bool" where
  "tiles bs a = (disjoint_blocks bs \<and> (\<Union>b\<in>set bs. samples b) = samples a)"

text \<open>Cutting a block into rows or columns of given sizes, the reference for every split.\<close>

primrec row_parts :: "CompArea \<Rightarrow> nat list \<Rightarrow> CompArea list" where
  "row_parts a [] = []"
| "row_parts a (h # hs) = a\<lparr>height := h\<rparr> # row_parts (a\<lparr>posy := posy a + int h\<rparr>) hs"

primrec col_parts :: "CompArea \<Rightarrow> nat list \<Rightarrow> CompArea list" where
  "col_parts a [] = []"
| "col_parts a (w # ws) = a\<lparr>width := w\<rparr> # col_parts (a\<lparr>posx := posx a + int w\<rparr>) ws"

definition grid_parts :: "CompArea \<Rightarrow> nat list \<Rightarrow> nat list \<Rightarrow> CompArea list" where
  "grid_parts a ws hs = concat (map (\<lambda>r. col_parts r ws) (row_parts a hs))"

lemma samples_row_parts:
  "(\<Union>b\<in>set (row_parts a hs). samples b) = samples (a\<lparr>height := sum_list hs\<rparr>)"
proof (induction hs arbitrary: a)
  case (Cons h hs)
  have "(\<Union>b\<in>set (row_parts a (h # hs)). samples b)
      = samples (a\<lparr>height := h\<rparr>) \<union> samples (a\<lparr>posy := posy a + int h, height := sum_list hs\<rparr>)"
    using Cons.IH[of "a\<lparr>posy := posy a + int h\<rparr>"] by simp
  also have "\<dots> = samples (a\<lparr>height := sum_list (h # hs)\<rparr>)"
    by (auto simp: samples_def)
  finally show ?case .
qed (simp add: samples_def)

lemma samples_col_parts:
  "(\<Union>b\<in>set (col_parts a ws). samples b) = samples (a\<lparr>width := sum_list ws\<rparr>)"
proof (induction ws arbitrary: a)
  case (Cons w ws)
  have "(\<Union>b\<in>set (col_parts a (w # ws)). samples b)
      = samples (a\<lparr>width := w\<rparr>) \<union> samples (a\<lparr>posx := posx a + int w, width := sum_list ws\<rparr>)"
    using Cons.IH[of "a\<lparr>posx := posx a + int w\<rparr>"] by simp
  also have "\<dots> = samples (a\<lparr>width := sum_list (w # ws)\<rparr>)"
    by (auto simp: samples_def)
  finally show ?case .
qed (simp add: samples_def)

lemma disjoint_row_parts: "disjoint_blocks (row_parts a hs)"
proof (induction hs arbitrary: a)
  case (Cons h hs)
  have "samples (a\<lparr>height := h\<rparr>) \<inter> samples c = {}"
    if "c \<in> set (row_parts (a\<lparr>posy := posy a + int h\<rparr>) hs)" for c
  proof -
    have "samples c \<subseteq> samples (a\<lparr>posy := posy a + int h, height := sum_list hs\<rparr>)"
      using samples_row_parts[of "a\<lparr>posy := posy a + int h\<rparr>" hs] that by auto
    then show ?thesis by (auto simp: samples_def)
  qed
  then show ?case using Cons.IH by simp
qed simp

lemma disjoint_col_parts: "disjoint_blocks (col_parts a ws)"
proof (induction ws arbitrary: a)
  case (Cons w ws)
  have "samples (a\<lparr>width := w\<rparr>) \<inter> samples c = {}"
    if "c \<in> set (col_parts (a\<lparr>posx := posx a + int w\<rparr>) ws)" for c
  proof -
    have "samples c \<subseteq> samples (a\<lparr>posx := posx a + int w, width := sum_list ws\<rparr>)"
      using samples_col_parts[of "a\<lparr>posx := posx a + int w\<rparr>" ws] that by auto
    then show ?thesis by (auto simp: samples_def)
  qed
  then show ?case using Cons.IH by simp
qed simp

lemma tiles_row_parts: "sum_list hs = height a \<Longrightarrow> tiles (row_parts a hs) a"
  unfolding tiles_def samples_row_parts by (simp add: disjoint_row_parts)

lemma tiles_col_parts: "sum_list ws = width a \<Longrightarrow> tiles (col_parts a ws) a"
  unfolding tiles_def samples_col_parts by (simp add: disjoint_col_parts)

lemma disjoint_blocks_append:
  "disjoint_blocks (xs @ ys) =
    (disjoint_blocks xs \<and> disjoint_blocks ys \<and> (\<forall>b\<in>set xs. \<forall>c\<in>set ys. samples b \<inter> samples c = {}))"
  by (induction xs) auto

text \<open>Tiling the tiles of a block tiles the block.\<close>

lemma tiles_concat:
  assumes "tiles bs a" and parts: "\<And>b. b \<in> set bs \<Longrightarrow> tiles (f b) b"
  shows "tiles (concat (map f bs)) a"
proof -
  have un: "(\<Union>b\<in>set (f c). samples b) = samples c" if "c \<in> set bs" for c
    using parts[OF that] by (simp add: tiles_def)
  have "disjoint_blocks (concat (map f bs))"
    if "disjoint_blocks bs" "\<And>b. b \<in> set bs \<Longrightarrow> tiles (f b) b" for bs
    using that
  proof (induction bs)
    case (Cons b bs)
    have "samples x \<inter> samples y = {}" if "x \<in> set (f b)" "c \<in> set bs" "y \<in> set (f c)" for x y c
    proof -
      have "samples x \<subseteq> samples b" "samples y \<subseteq> samples c"
        using Cons.prems(2)[of b] Cons.prems(2)[of c] that by (auto simp: tiles_def)
      moreover have "samples b \<inter> samples c = {}"
        using Cons.prems(1) that(2) by simp
      ultimately show ?thesis by blast
    qed
    then show ?case
      using Cons by (auto simp: disjoint_blocks_append tiles_def)
  qed simp
  then show ?thesis
    using assms un by (simp add: tiles_def)
qed

lemma width_row_parts: "b \<in> set (row_parts a hs) \<Longrightarrow> width b = width a"
  by (induction hs arbitrary: a) auto

lemma tiles_grid_parts:
  "sum_list ws = width a \<Longrightarrow> sum_list hs = height a \<Longrightarrow> tiles (grid_parts a ws hs) a"
  unfolding grid_parts_def
  by (rule tiles_concat[OF tiles_row_parts]) (auto intro: tiles_col_parts simp: width_row_parts)

lemma finite_samples [simp]: "finite (samples a)"
  by (simp add: samples_def)

lemma card_samples: "card (samples a) = width a * height a"
  by (simp add: samples_def card_cartesian_product)

lemma disjoint_blocks_nth:
  "disjoint_blocks bs \<Longrightarrow> i < j \<Longrightarrow> j < length bs \<Longrightarrow> samples (bs ! i) \<inter> samples (bs ! j) = {}"
proof (induction bs arbitrary: i j)
  case (Cons b bs)
  obtain k where j: "j = Suc k" using Cons.prems(2) by (cases j) simp_all
  show ?case
    using Cons.prems Cons.IH[of "i - 1" k] by (cases i) (simp_all add: j)
qed simp

text \<open>A sample of a tiled block lies in exactly one tile.\<close>

lemma tiles_unique:
  assumes "tiles bs a" "p \<in> samples a"
  shows "\<exists>!i. i < length bs \<and> p \<in> samples (bs ! i)"
proof -
  have ex: "\<exists>i<length bs. p \<in> samples (bs ! i)"
    using assms by (force simp: tiles_def in_set_conv_nth)
  have "i = j" if "i < length bs" "j < length bs" "p \<in> samples (bs ! i)" "p \<in> samples (bs ! j)" for i j
    using that disjoint_blocks_nth[of bs i j] disjoint_blocks_nth[of bs j i] assms(1)
    by (cases i j rule: linorder_cases) (auto simp: tiles_def)
  with ex show ?thesis by blast
qed

end
