(* ===== verification/UnitPartition.thy ===== *)
theory UnitPartition
  imports Area "HOL-Library.Word"
begin

text \<open>
  The partitionings of a unit area (namespace \<open>PartitionerImpl\<close> of \<open>UnitPartitioner.cpp\<close> and
  \<open>CU::getISPSplitDim\<close> of \<open>UnitTools.cpp\<close>): the quad, binary and ternary splits of the coding
  tree, the intra sub-partitions, the tiling by the maximum transform size and the sub-block
  transform tilings.  A failed \<open>CHECK\<close> or \<open>THROW\<close> is \<open>None\<close>.  The second part shows that every
  one of them tiles the blocks it splits.
\<close>

section \<open>Split modes and the coding structure\<close>

datatype PartSplit =
    CTU_LEVEL | CU_QUAD_SPLIT | CU_HORZ_SPLIT | CU_VERT_SPLIT | CU_TRIH_SPLIT | CU_TRIV_SPLIT
  | TU_MAX_TR_SPLIT | TU_NO_ISP | TU_1D_HORZ_SPLIT | TU_1D_VERT_SPLIT
  | SBT_VER_HALF_POS0_SPLIT | SBT_VER_HALF_POS1_SPLIT | SBT_HOR_HALF_POS0_SPLIT | SBT_HOR_HALF_POS1_SPLIT
  | SBT_VER_QUAD_POS0_SPLIT | SBT_VER_QUAD_POS1_SPLIT | SBT_HOR_QUAD_POS0_SPLIT | SBT_HOR_QUAD_POS1_SPLIT
  | NUM_PART_SPLIT | CU_MT_SPLIT | CU_BT_SPLIT | CU_DONT_SPLIT

datatype SliceType = B_SLICE | P_SLICE | I_SLICE

datatype TreeType = TREE_D | TREE_L | TREE_C

datatype ModeType = MODE_TYPE_ALL | MODE_TYPE_INTER | MODE_TYPE_INTRA

datatype PredModeType = MODE_INTER | MODE_INTRA | MODE_IBC | MODE_PLT | NUMBER_OF_PREDICTION_MODES

definition MIN_TB_SIZEY :: nat where "MIN_TB_SIZEY = 4"

definition MAX_TB_SIZEY :: nat where "MAX_TB_SIZEY = 64"

definition MAX_CU_TILING_PARTITIONS :: nat where "MAX_CU_TILING_PARTITIONS = 64"

text \<open>
  The limits of a slice, each as the three values for intra luma, inter and intra chroma
  (\<open>PreCalcValues\<close>, and the overriding ones of the picture header).
\<close>

record SplitLimits =
  lim_minQT :: "nat \<times> nat \<times> nat"
  lim_maxMTT :: "nat \<times> nat \<times> nat"
  lim_maxBT :: "nat \<times> nat \<times> nat"
  lim_maxTT :: "nat \<times> nat \<times> nat"

text \<open>The fields of a coding unit the partitioner and the tree syntax set and read (\<open>uint8_t\<close> and \<open>uint64_t\<close>).\<close>

record CodingUnit =
  cu_area :: UnitArea
  cu_depth :: "8 word"
  cu_btDepth :: "8 word"
  cu_mtDepth :: "8 word"
  cu_qtDepth :: "8 word"
  cu_splitSeries :: "64 word"
  cu_modeTypeSeries :: "64 word"
  cu_sliceIdx :: nat
  cu_tileIdx :: nat
  cu_predMode :: PredModeType
  cu_chType :: ChannelType
  cu_treeType :: TreeType
  cu_modeType :: ModeType

text \<open>
  What the partitioner reads of the coding structure, the slice and the parameter sets; the
  coding units of the structure stand in coding order.
\<close>

record PartCfg =
  cs_noChroma2x2 :: bool
  cs_ISingleTree :: bool
  cs_sliceType :: SliceType
  cs_limits :: SplitLimits
  cs_override :: "SplitLimits option"
  cs_log2MinCB :: nat
  cs_maxTbSize :: nat
  cs_qpDeltaSubdiv :: "32 word"
  cs_chromaQpOffsetSubdiv :: "32 word"
  cs_picture :: UnitArea
  cs_format :: ChromaFormat
  cs_treeType :: TreeType
  cs_cus :: "CodingUnit list"
  cs_ctuSize :: nat
  cs_wavefronts :: bool
  cs_sliceIdx :: nat
  cs_tileIdx :: "int \<times> int \<Rightarrow> nat"

definition isDualITree :: "PartCfg \<Rightarrow> bool" where
  "isDualITree cs = (cs_sliceType cs = I_SLICE \<and> \<not> cs_ISingleTree cs)"

section \<open>Coding unit splits\<close>

definition quad_block :: "nat \<Rightarrow> CompArea \<Rightarrow> CompArea" where
  "quad_block i b =
    (let h = height b div 2; w = width b div 2 in
     b\<lparr>height := h, width := w,
       posy := (if 2 \<le> i then posy b + int h else posy b),
       posx := (if odd i then posx b + int w else posx b)\<rparr>)"

text \<open>The quad split of the (never set) \<open>noChroma2x2\<close> configuration.\<close>

definition quad_luma_parts :: "UnitArea \<Rightarrow> UnitArea list" where
  "quad_luma_parts u = map (\<lambda>i. \<lparr>unit_format = unit_format u, blocks = [quad_block i (blkY u)]\<rparr>) [0..<4]"

definition quad_chroma_block :: "bool \<Rightarrow> nat \<Rightarrow> CompArea \<Rightarrow> CompArea" where
  "quad_chroma_block halve i b =
    (let c = (if halve then b\<lparr>width := width b div 2, height := height b div 2\<rparr>
              else if 0 < i then no_block else b)
     in c\<lparr>posx := (if i mod 2 = 1 then posx c + int (width c) else posx c),
          posy := (if 1 < i then posy c + int (height c) else posy c)\<rparr>)"

definition quad_no2x2_part :: "UnitArea \<Rightarrow> nat \<Rightarrow> UnitArea" where
  "quad_no2x2_part u i =
    (let halve = 4 < width (blkCb u) in
     u\<lparr>blocks := [quad_block i (blkY u), quad_chroma_block halve i (blocks u ! 1), quad_chroma_block halve i (blocks u ! 2)]\<rparr>)"

definition horz_block :: "nat \<Rightarrow> CompArea \<Rightarrow> CompArea" where
  "horz_block i b =
    (let h = height b div 2 in b\<lparr>height := h, posy := (if i = 1 then posy b + int h else posy b)\<rparr>)"

definition vert_block :: "nat \<Rightarrow> CompArea \<Rightarrow> CompArea" where
  "vert_block i b =
    (let w = width b div 2 in b\<lparr>width := w, posx := (if i = 1 then posx b + int w else posx b)\<rparr>)"

definition trih_block :: "nat \<Rightarrow> CompArea \<Rightarrow> CompArea" where
  "trih_block i b =
    (let h = (if odd (i + 1) then height b div 2 div 2 else height b div 2) in
     b\<lparr>height := h,
       posy := (if i = 1 then posy b + int (h div 2) else if i = 2 then posy b + int (3 * h) else posy b)\<rparr>)"

definition triv_block :: "nat \<Rightarrow> CompArea \<Rightarrow> CompArea" where
  "triv_block i b =
    (let w = (if odd (i + 1) then width b div 2 div 2 else width b div 2) in
     b\<lparr>width := w,
       posx := (if i = 1 then posx b + int (w div 2) else if i = 2 then posx b + int (3 * w) else posx b)\<rparr>)"

definition split_units :: "(nat \<Rightarrow> CompArea \<Rightarrow> CompArea) \<Rightarrow> nat \<Rightarrow> UnitArea \<Rightarrow> UnitArea list" where
  "split_units f n u = map (\<lambda>i. u\<lparr>blocks := map (f i) (blocks u)\<rparr>) [0..<n]"

definition getCUSubPartitions :: "UnitArea \<Rightarrow> PartCfg \<Rightarrow> PartSplit \<Rightarrow> UnitArea list option" where
  "getCUSubPartitions u cs split =
    (case split of
       CU_QUAD_SPLIT \<Rightarrow>
         (if \<not> cs_noChroma2x2 cs then
            let sub = split_units quad_block 4 u in
            do { check (\<exists>s\<in>set sub. height (blkY s) < MIN_TB_SIZEY); Some sub }
          else
            let minCUSize = 2 ^ cs_log2MinCB cs in
            if minCUSize < width (blkY u) \<and> minCUSize < height (blkY u) then
              Some (if \<not> isChromaEnabled (unit_format u) then quad_luma_parts u
                    else map (quad_no2x2_part u) [0..<4])
            else Some [])
     | CU_HORZ_SPLIT \<Rightarrow>
         let sub = split_units horz_block 2 u in
         do { check (\<exists>s\<in>set sub. height (blkY s) < MIN_TB_SIZEY); Some sub }
     | CU_VERT_SPLIT \<Rightarrow>
         let sub = split_units vert_block 2 u in
         do { check (\<exists>s\<in>set sub. width (blkY s) < MIN_TB_SIZEY); Some sub }
     | CU_TRIH_SPLIT \<Rightarrow>
         let sub = split_units trih_block 3 u in
         do { check (\<exists>s\<in>set sub. height (blkY s) < MIN_TB_SIZEY); Some sub }
     | CU_TRIV_SPLIT \<Rightarrow>
         let sub = split_units triv_block 3 u in
         do { check (\<exists>s\<in>set sub. width (blkY s) < MIN_TB_SIZEY); Some sub }
     | _ \<Rightarrow> None)"

section \<open>Transform unit splits\<close>

definition getISPSplitDim :: "nat \<Rightarrow> nat \<Rightarrow> PartSplit \<Rightarrow> nat option" where
  "getISPSplitDim w h ispType =
    (let rows = (ispType = TU_1D_HORZ_SPLIT);
         splitDim = (if rows then h else w);
         nonSplit = (if rows then w else h);
         minSamples = 2 ^ nat (2 * floorLog2 MIN_TB_SIZEY);
         factor = (if nonSplit < minSamples then minSamples div 2 ^ nat (floorLog2 nonSplit) else 1);
         partitionSize = (if splitDim div 4 < factor then factor else splitDim div 4)
     in do {
       check (floorLog2 partitionSize + floorLog2 nonSplit < floorLog2 minSamples);
       Some partitionSize })"

definition isp_part :: "UnitArea \<Rightarrow> PartSplit \<Rightarrow> nat \<Rightarrow> nat \<Rightarrow> nat \<Rightarrow> UnitArea" where
  "isp_part u split dim noChroma i =
    (let b = blkY u;
         y = (if split = TU_1D_HORZ_SPLIT then b\<lparr>height := dim, posy := posy b + int i * int dim\<rparr>
              else b\<lparr>width := dim, posx := posx b + int i * int dim\<rparr>)
     in u\<lparr>blocks := (if i < noChroma then (blocks u)[0 := y, 1 := no_block, 2 := no_block]
                     else (blocks u)[0 := y])\<rparr>)"

definition getTUIntraSubPartitions :: "UnitArea \<Rightarrow> PartCfg \<Rightarrow> PartSplit \<Rightarrow> UnitArea list option" where
  "getTUIntraSubPartitions u cs split =
    do {
      dim \<leftarrow> getISPSplitDim (width (blkY u)) (height (blkY u)) split;
      check (split \<noteq> TU_1D_HORZ_SPLIT \<and> split \<noteq> TU_1D_VERT_SPLIT);
      let n = (if split = TU_1D_HORZ_SPLIT then height (blkY u) else width (blkY u)) div 2 ^ nat (floorLog2 dim);
      check (0 < n \<and> dim < 1);
      let dual = (isDualITree cs \<or> cs_treeType cs \<noteq> TREE_D);
      let noChroma = (if \<not> isChromaEnabled (cs_format cs) then 0 else if dual then n else n - 1);
      Some (map (isp_part u split dim noChroma) [0..<n])
    }"

definition g_zScanToX :: "nat list" where
  "g_zScanToX =
    [0, 1, 0, 1, 2, 3, 2, 3,
     0, 1, 0, 1, 2, 3, 2, 3,
     4, 5, 4, 5, 6, 7, 6, 7,
     4, 5, 4, 5, 6, 7, 6, 7,
     0, 1, 0, 1, 2, 3, 2, 3,
     0, 1, 0, 1, 2, 3, 2, 3,
     4, 5, 4, 5, 6, 7, 6, 7,
     4, 5, 4, 5, 6, 7, 6, 7]"

definition g_zScanToY :: "nat list" where
  "g_zScanToY =
    [0, 0, 1, 1, 0, 0, 1, 1,
     2, 2, 3, 3, 2, 2, 3, 3,
     0, 0, 1, 1, 0, 0, 1, 1,
     2, 2, 3, 3, 2, 2, 3, 3,
     4, 4, 5, 5, 4, 4, 5, 5,
     6, 6, 7, 7, 6, 6, 7, 7,
     4, 4, 5, 5, 4, 4, 5, 5,
     6, 6, 7, 7, 6, 6, 7, 7]"

definition g_rsScanToZ :: "nat list" where
  "g_rsScanToZ =
    [0, 1, 4, 5, 16, 17, 20, 21,
     2, 3, 6, 7, 18, 19, 22, 23,
     8, 9, 12, 13, 24, 25, 28, 29,
     10, 11, 14, 15, 26, 27, 30, 31,
     32, 33, 36, 37, 48, 49, 52, 53,
     34, 35, 38, 39, 50, 51, 54, 55,
     40, 41, 44, 45, 56, 57, 60, 61,
     42, 43, 46, 47, 58, 59, 62, 63]"

definition tile_block :: "nat \<Rightarrow> nat \<Rightarrow> nat \<Rightarrow> nat \<Rightarrow> CompArea \<Rightarrow> CompArea" where
  "tile_block numTilesH numTilesV x y b =
    (if \<not> comp_valid b then b
     else let w = width b div numTilesH; h = height b div numTilesV in
       b\<lparr>width := w, height := h, posx := posx b + int w * int x, posy := posy b + int h * int y\<rparr>)"

definition max_tiles :: "nat \<Rightarrow> nat \<Rightarrow> nat" where
  "max_tiles len maxTrSize = max 1 (len div maxTrSize)"

definition getMaxTuTiling :: "UnitArea \<Rightarrow> PartCfg \<Rightarrow> UnitArea list option" where
  "getMaxTuTiling u cs =
    (let maxTrSize = (if 64 < width (blkY u) \<or> 64 < height (blkY u) then 64 else cs_maxTbSize cs);
         numTilesH = max_tiles (width (blkY u)) maxTrSize;
         numTilesV = max_tiles (height (blkY u)) maxTrSize;
         numTiles = numTilesH * numTilesV
     in do {
       check (numTiles > MAX_CU_TILING_PARTITIONS);
       Some (map (\<lambda>i.
         let rsy = i div numTilesH; rsx = i mod numTilesH;
             z = g_rsScanToZ ! (rsy * 8 + rsx)
         in u\<lparr>blocks := map (tile_block numTilesH numTilesV (g_zScanToX ! z) (g_zScanToY ! z)) (blocks u)\<rparr>)
         [0..<numTiles]) })"

text \<open>The factors of \<open>getSbtTuTiling\<close>: width, height, x offset, y offset, in quarters.\<close>

definition sbt_factors :: "PartSplit \<Rightarrow> nat \<Rightarrow> nat \<times> nat \<times> nat \<times> nat" where
  "sbt_factors split i =
    (if split \<in> {SBT_VER_QUAD_POS0_SPLIT, SBT_VER_QUAD_POS1_SPLIT, SBT_HOR_QUAD_POS0_SPLIT, SBT_HOR_QUAD_POS1_SPLIT} then
       if split = SBT_HOR_QUAD_POS0_SPLIT \<or> split = SBT_HOR_QUAD_POS1_SPLIT then
         (4,
          if i = 0 \<and> split = SBT_HOR_QUAD_POS0_SPLIT \<or> i = 1 \<and> split = SBT_HOR_QUAD_POS1_SPLIT then 1 else 3,
          0,
          if i = 0 then 0 else if split = SBT_HOR_QUAD_POS0_SPLIT then 1 else 3)
       else
         (if i = 0 \<and> split = SBT_VER_QUAD_POS0_SPLIT \<or> i = 1 \<and> split = SBT_VER_QUAD_POS1_SPLIT then 1 else 3,
          4,
          if i = 0 then 0 else if split = SBT_VER_QUAD_POS0_SPLIT then 1 else 3,
          0)
     else if split = SBT_HOR_HALF_POS0_SPLIT \<or> split = SBT_HOR_HALF_POS1_SPLIT then
       (4, 2, 0, if i = 0 then 0 else 2)
     else (2, 4, if i = 0 then 0 else 2, 0))"

definition sbt_block :: "nat \<times> nat \<times> nat \<times> nat \<Rightarrow> CompArea \<Rightarrow> CompArea" where
  "sbt_block f b =
    (case f of (fw, fh, fx, fy) \<Rightarrow>
      if \<not> comp_valid b then b
      else b\<lparr>posx := posx b + int ((width b * fx) div 4), posy := posy b + int ((height b * fy) div 4),
             width := (width b * fw) div 4, height := (height b * fh) div 4\<rparr>)"

definition is_sbt_split :: "PartSplit \<Rightarrow> bool" where
  "is_sbt_split split = (split \<in> {SBT_VER_HALF_POS0_SPLIT, SBT_VER_HALF_POS1_SPLIT, SBT_HOR_HALF_POS0_SPLIT, SBT_HOR_HALF_POS1_SPLIT,
     SBT_VER_QUAD_POS0_SPLIT, SBT_VER_QUAD_POS1_SPLIT, SBT_HOR_QUAD_POS0_SPLIT, SBT_HOR_QUAD_POS1_SPLIT})"

definition getSbtTuTiling :: "UnitArea \<Rightarrow> PartSplit \<Rightarrow> UnitArea list option" where
  "getSbtTuTiling u split =
    do {
      check (\<not> is_sbt_split split);
      Some (split_units (\<lambda>i. sbt_block (sbt_factors split i)) 2 u)
    }"

section \<open>Every split tiles the blocks it splits\<close>

definition comp_tiles :: "UnitArea list \<Rightarrow> UnitArea \<Rightarrow> nat \<Rightarrow> bool" where
  "comp_tiles parts u k = tiles (map (\<lambda>p. blocks p ! k) parts) (blocks u ! k)"

lemmas upt_small = upt_rec[of _ "Suc _"] upt_rec[of _ "numeral _"]

lemma quad_blocks: "map (\<lambda>i. quad_block i b) [0..<4] = grid_parts b [width b div 2, width b div 2] [height b div 2, height b div 2]"
  by (simp add: quad_block_def grid_parts_def upt_small Let_def)

lemma horz_blocks: "map (\<lambda>i. horz_block i b) [0..<2] = row_parts b [height b div 2, height b div 2]"
  by (simp add: horz_block_def upt_small Let_def)

lemma vert_blocks: "map (\<lambda>i. vert_block i b) [0..<2] = col_parts b [width b div 2, width b div 2]"
  by (simp add: vert_block_def upt_small Let_def)

lemma trih_blocks:
  "4 dvd height b \<Longrightarrow>
   map (\<lambda>i. trih_block i b) [0..<3] = row_parts b [height b div 4, height b div 2, height b div 4]"
  by (auto simp: trih_block_def upt_small Let_def elim!: dvdE)

lemma triv_blocks:
  "4 dvd width b \<Longrightarrow>
   map (\<lambda>i. triv_block i b) [0..<3] = col_parts b [width b div 4, width b div 2, width b div 4]"
  by (auto simp: triv_block_def upt_small Let_def elim!: dvdE)

lemma comp_tiles_split_units:
  "k < length (blocks u) \<Longrightarrow>
   comp_tiles (split_units f n u) u k = tiles (map (\<lambda>i. f i (blocks u ! k)) [0..<n]) (blocks u ! k)"
  by (simp add: comp_tiles_def split_units_def comp_def cong: map_cong)

text \<open>The divisibility a split needs to be exact.\<close>

definition split_exact :: "PartSplit \<Rightarrow> CompArea \<Rightarrow> bool" where
  "split_exact split b =
    (case split of
       CU_QUAD_SPLIT \<Rightarrow> 2 dvd width b \<and> 2 dvd height b
     | CU_HORZ_SPLIT \<Rightarrow> 2 dvd height b
     | CU_VERT_SPLIT \<Rightarrow> 2 dvd width b
     | CU_TRIH_SPLIT \<Rightarrow> 4 dvd height b
     | CU_TRIV_SPLIT \<Rightarrow> 4 dvd width b
     | _ \<Rightarrow> False)"

lemma quarter_half: "4 dvd (n::nat) \<Longrightarrow> n div 4 + (n div 2 + n div 4) = n"
  by (auto elim!: dvdE)

lemma half_half: "2 dvd (n::nat) \<Longrightarrow> n div 2 + n div 2 = n"
  by auto

lemma cu_split_tiles_aux:
  assumes parts: "getCUSubPartitions u cs split = Some parts" and no2: "\<not> cs_noChroma2x2 cs"
    and k: "k < length (blocks u)" and ex: "split_exact split (blocks u ! k)"
  shows "comp_tiles parts u k"
proof -
  let ?b = "blocks u ! k"
  consider "split = CU_QUAD_SPLIT" "parts = split_units quad_block 4 u"
    | "split = CU_HORZ_SPLIT" "parts = split_units horz_block 2 u"
    | "split = CU_VERT_SPLIT" "parts = split_units vert_block 2 u"
    | "split = CU_TRIH_SPLIT" "parts = split_units trih_block 3 u"
    | "split = CU_TRIV_SPLIT" "parts = split_units triv_block 3 u"
    using parts no2 by (auto simp: getCUSubPartitions_def Let_def bind_eq_Some_conv split: PartSplit.splits)
  then show ?thesis
  proof cases
    case 1
    then show ?thesis
      using ex k by (simp add: comp_tiles_split_units quad_blocks split_exact_def half_half tiles_grid_parts)
  next
    case 2
    then show ?thesis
      using ex k by (simp add: comp_tiles_split_units horz_blocks split_exact_def half_half tiles_row_parts del: row_parts.simps)
  next
    case 3
    then show ?thesis
      using ex k by (simp add: comp_tiles_split_units vert_blocks split_exact_def half_half tiles_col_parts del: col_parts.simps)
  next
    case 4
    then show ?thesis
      using ex k by (simp add: comp_tiles_split_units trih_blocks split_exact_def quarter_half tiles_row_parts del: row_parts.simps)
  next
    case 5
    then show ?thesis
      using ex k by (simp add: comp_tiles_split_units triv_blocks split_exact_def quarter_half tiles_col_parts del: col_parts.simps)
  qed
qed

section \<open>Transform tilings\<close>

lemma zscan_identity:
  assumes "rsx < 8" "rsy < 8"
  shows "g_zScanToX ! (g_rsScanToZ ! (rsy * 8 + rsx)) = rsx"
    and "g_zScanToY ! (g_rsScanToZ ! (rsy * 8 + rsx)) = rsy"
proof -
  have "list_all (\<lambda>y. list_all (\<lambda>x. g_zScanToX ! (g_rsScanToZ ! (y * 8 + x)) = x \<and>
      g_zScanToY ! (g_rsScanToZ ! (y * 8 + x)) = y) [0..<8]) [0..<8]"
    by code_simp
  then show "g_zScanToX ! (g_rsScanToZ ! (rsy * 8 + rsx)) = rsx"
    and "g_zScanToY ! (g_rsScanToZ ! (rsy * 8 + rsx)) = rsy"
    using assms by (simp_all add: list_all_iff)
qed

lemma row_parts_replicate:
  "row_parts b (replicate n h) = map (\<lambda>i. b\<lparr>height := h, posy := posy b + int h * int i\<rparr>) [0..<n]"
proof (induction n arbitrary: b)
  case (Suc n)
  have "[0..<Suc n] = 0 # map Suc [0..<n]"
    by (simp add: upt_conv_Cons map_Suc_upt del: upt_Suc)
  then show ?case
    by (simp add: Suc comp_def algebra_simps del: upt_Suc)
qed simp

lemma col_parts_replicate:
  "col_parts b (replicate n w) = map (\<lambda>i. b\<lparr>width := w, posx := posx b + int w * int i\<rparr>) [0..<n]"
proof (induction n arbitrary: b)
  case (Suc n)
  have "[0..<Suc n] = 0 # map Suc [0..<n]"
    by (simp add: upt_conv_Cons map_Suc_upt del: upt_Suc)
  then show ?case
    by (simp add: Suc comp_def algebra_simps del: upt_Suc)
qed simp

lemma map_div_mod_grid:
  assumes "0 < (n::nat)"
  shows "map (\<lambda>i. f (i mod n) (i div n)) [0..<n * m] = concat (map (\<lambda>y. map (\<lambda>x. f x y) [0..<n]) [0..<m])"
proof (induction m)
  case (Suc m)
  have "[0..<n * Suc m] = [0..<n * m] @ map (\<lambda>x. x + n * m) [0..<n]"
    using upt_add_eq_append[of 0 "n * m" n] by (simp add: map_add_upt mult_Suc_right add.commute[of n])
  moreover have "map (\<lambda>x. f ((x + n * m) mod n) ((x + n * m) div n)) [0..<n] = map (\<lambda>x. f x m) [0..<n]"
    using assms by simp
  ultimately show ?case
    using Suc by (simp add: comp_def)
qed simp

lemma tile_blocks:
  assumes "comp_valid b" "0 < nH"
  shows "map (\<lambda>i. tile_block nH nV (i mod nH) (i div nH) b) [0..<nH * nV]
    = grid_parts b (replicate nH (width b div nH)) (replicate nV (height b div nV))"
  unfolding map_div_mod_grid[OF assms(2), of "\<lambda>x y. tile_block nH nV x y b"]
  using assms(1)
  by (cases b) (simp add: grid_parts_def row_parts_replicate col_parts_replicate comp_def tile_block_def Let_def)

lemma max_tu_tiling_aux:
  fixes u :: UnitArea and cs :: PartCfg
  defines "tr \<equiv> (if 64 < width (blkY u) \<or> 64 < height (blkY u) then 64 else cs_maxTbSize cs)"
  defines "nH \<equiv> max_tiles (width (blkY u)) tr" and "nV \<equiv> max_tiles (height (blkY u)) tr"
  assumes lim: "nH \<le> 8" "nV \<le> 8"
  shows "getMaxTuTiling u cs = Some (map (\<lambda>i.
      u\<lparr>blocks := map (tile_block nH nV (i mod nH) (i div nH)) (blocks u)\<rparr>) [0..<nH * nV])"
proof -
  have "0 < nH" by (simp add: nH_def max_tiles_def)
  have "nH * nV \<le> 8 * 8" using lim by (rule mult_le_mono)
  moreover have "i mod nH < 8" "i div nH < 8" if "i < nH * nV" for i
    using \<open>0 < nH\<close> lim that by (auto intro: less_le_trans[OF mod_less_divisor] simp: less_mult_imp_div_less[THEN less_le_trans] mult.commute)
  ultimately show ?thesis
    unfolding getMaxTuTiling_def Let_def tr_def[symmetric] nH_def[symmetric] nV_def[symmetric]
    by (simp add: MAX_CU_TILING_PARTITIONS_def zscan_identity)
qed

lemma comp_tiles_max_tu:
  assumes "k < length (blocks u)" "comp_valid (blocks u ! k)" "0 < nH" "nH dvd width (blocks u ! k)" "nV dvd height (blocks u ! k)"
  shows "comp_tiles (map (\<lambda>i. u\<lparr>blocks := map (tile_block nH nV (i mod nH) (i div nH)) (blocks u)\<rparr>) [0..<nH * nV]) u k"
  using assms by (simp add: comp_tiles_def comp_def tile_blocks tiles_grid_parts sum_list_replicate)

definition sbt_vertical :: "PartSplit \<Rightarrow> bool" where
  "sbt_vertical split = (split \<in> {SBT_VER_HALF_POS0_SPLIT, SBT_VER_HALF_POS1_SPLIT, SBT_VER_QUAD_POS0_SPLIT, SBT_VER_QUAD_POS1_SPLIT})"

lemma sbt_blocks:
  assumes "is_sbt_split split" "comp_valid b" "4 dvd (if sbt_vertical split then width b else height b)"
  shows "\<exists>ws hs. map (\<lambda>i. sbt_block (sbt_factors split i) b) [0..<2] = grid_parts b ws hs \<and>
    sum_list ws = width b \<and> sum_list hs = height b"
proof (cases "sbt_vertical split")
  case True
  then obtain w where w: "width b = 4 * w"
    using assms(3) by (auto elim!: dvdE)
  let ?W = "\<lambda>a c. map (\<lambda>i. sbt_block (sbt_factors split i) b) [0..<2] = grid_parts b [a * w, c * w] [height b]"
  have "?W 2 2 \<or> ?W 1 3 \<or> ?W 3 1"
    using assms(1,2) w True
    by (cases split) (simp_all add: is_sbt_split_def sbt_vertical_def sbt_factors_def sbt_block_def grid_parts_def upt_small)
  then show ?thesis
    using w by (elim disjE) (rule exI, rule exI, erule conjI, simp)+
next
  case False
  then obtain h where h: "height b = 4 * h"
    using assms(3) by (auto elim!: dvdE)
  let ?H = "\<lambda>a c. map (\<lambda>i. sbt_block (sbt_factors split i) b) [0..<2] = grid_parts b [width b] [a * h, c * h]"
  have "?H 2 2 \<or> ?H 1 3 \<or> ?H 3 1"
    using assms(1,2) h False
    by (cases split) (simp_all add: is_sbt_split_def sbt_vertical_def sbt_factors_def sbt_block_def grid_parts_def upt_small)
  then show ?thesis
    using h by (elim disjE) (rule exI, rule exI, erule conjI, simp)+
qed

lemma comp_tiles_sbt:
  assumes "is_sbt_split split" "k < length (blocks u)" "comp_valid (blocks u ! k)"
    "4 dvd (if sbt_vertical split then width (blocks u ! k) else height (blocks u ! k))"
  shows "comp_tiles (split_units (\<lambda>i. sbt_block (sbt_factors split i)) 2 u) u k"
  using sbt_blocks[OF assms(1,3,4)] assms(2) by (auto simp: comp_tiles_split_units intro!: tiles_grid_parts)

section \<open>Intra sub-partitions\<close>

definition isp_sizes :: "nat set" where
  "isp_sizes = {4, 8, 16, 32, 64}"

definition isp_count :: "nat \<Rightarrow> nat \<Rightarrow> nat" where
  "isp_count splitDim nonSplit = (if splitDim * nonSplit = 16 then 1 else if splitDim * nonSplit = 32 then 2 else 4)"

lemma isp_split_dim:
  assumes "w \<in> isp_sizes" "h \<in> isp_sizes"
  shows "getISPSplitDim w h TU_1D_HORZ_SPLIT = Some (h div isp_count h w)"
    and "getISPSplitDim w h TU_1D_VERT_SPLIT = Some (w div isp_count w h)"
proof -
  have "list_all (\<lambda>w. list_all (\<lambda>h. getISPSplitDim w h TU_1D_HORZ_SPLIT = Some (h div isp_count h w) \<and>
      getISPSplitDim w h TU_1D_VERT_SPLIT = Some (w div isp_count w h)) [4, 8, 16, 32, 64]) [4, 8, 16, 32, 64]"
    by code_simp
  then show "getISPSplitDim w h TU_1D_HORZ_SPLIT = Some (h div isp_count h w)"
    and "getISPSplitDim w h TU_1D_VERT_SPLIT = Some (w div isp_count w h)"
    using assms by (auto simp: isp_sizes_def)
qed

lemma isp_dim_pow:
  assumes "w \<in> isp_sizes" "h \<in> isp_sizes"
  shows "2 ^ nat (floorLog2 (h div isp_count h w)) = h div isp_count h w" "isp_count h w * (h div isp_count h w) = h"
    and "0 < isp_count h w" "0 < h div isp_count h w" "16 \<le> h div isp_count h w * w"
    "h div (h div isp_count h w) = isp_count h w"
proof -
  have "list_all (\<lambda>w. list_all (\<lambda>h. 2 ^ nat (floorLog2 (h div isp_count h w)) = h div isp_count h w \<and>
      isp_count h w * (h div isp_count h w) = h \<and> 0 < isp_count h w \<and> 0 < h div isp_count h w \<and>
      16 \<le> h div isp_count h w * w \<and> h div (h div isp_count h w) = isp_count h w) [4, 8, 16, 32, 64]) [4, 8, 16, 32, 64]"
    by code_simp
  then have "2 ^ nat (floorLog2 (h div isp_count h w)) = h div isp_count h w \<and>
      isp_count h w * (h div isp_count h w) = h \<and> 0 < isp_count h w \<and> 0 < h div isp_count h w \<and>
      16 \<le> h div isp_count h w * w \<and> h div (h div isp_count h w) = isp_count h w"
    using assms unfolding isp_sizes_def list_all_iff list.set by blast
  then show "2 ^ nat (floorLog2 (h div isp_count h w)) = h div isp_count h w" "isp_count h w * (h div isp_count h w) = h"
    and "0 < isp_count h w" "0 < h div isp_count h w" "16 \<le> h div isp_count h w * w"
    "h div (h div isp_count h w) = isp_count h w"
    by blast+
qed

definition isp_no_chroma :: "PartCfg \<Rightarrow> nat \<Rightarrow> nat" where
  "isp_no_chroma cs n =
    (if \<not> isChromaEnabled (cs_format cs) then 0 else if isDualITree cs \<or> cs_treeType cs \<noteq> TREE_D then n else n - 1)"

definition isp_dims :: "PartSplit \<Rightarrow> UnitArea \<Rightarrow> nat \<times> nat" where
  "isp_dims split u =
    (let w = width (blkY u); h = height (blkY u) in
     if split = TU_1D_HORZ_SPLIT then (isp_count h w, h div isp_count h w) else (isp_count w h, w div isp_count w h))"

lemma isp_parts:
  assumes "split \<in> {TU_1D_HORZ_SPLIT, TU_1D_VERT_SPLIT}"
    and "width (blkY u) \<in> isp_sizes" "height (blkY u) \<in> isp_sizes"
  shows "getTUIntraSubPartitions u cs split =
    Some (map (isp_part u split (snd (isp_dims split u)) (isp_no_chroma cs (fst (isp_dims split u)))) [0..<fst (isp_dims split u)])"
  using assms(1)
proof (elim insertE emptyE)
  assume s: "split = TU_1D_HORZ_SPLIT"
  show ?thesis
    using isp_dim_pow[OF assms(2,3)]
    by (simp add: s getTUIntraSubPartitions_def isp_split_dim[OF assms(2,3)] isp_dims_def Let_def isp_no_chroma_def)
next
  assume s: "split = TU_1D_VERT_SPLIT"
  show ?thesis
    using isp_dim_pow[OF assms(3,2)]
    by (simp add: s getTUIntraSubPartitions_def isp_split_dim[OF assms(2,3)] isp_dims_def Let_def isp_no_chroma_def)
qed

lemma isp_luma_tiles:
  assumes "split \<in> {TU_1D_HORZ_SPLIT, TU_1D_VERT_SPLIT}" "blocks u \<noteq> []"
    and "width (blkY u) \<in> isp_sizes" "height (blkY u) \<in> isp_sizes"
  shows "comp_tiles (map (isp_part u split (snd (isp_dims split u)) m) [0..<fst (isp_dims split u)]) u 0"
proof -
  let ?b = "blkY u" and ?n = "fst (isp_dims split u)" and ?d = "snd (isp_dims split u)"
  have luma: "blocks (isp_part u split ?d m i) ! 0 =
      (if split = TU_1D_HORZ_SPLIT then ?b\<lparr>height := ?d, posy := posy ?b + int ?d * int i\<rparr>
       else ?b\<lparr>width := ?d, posx := posx ?b + int ?d * int i\<rparr>)" for i
    using assms(2) by (simp add: isp_part_def Let_def)
  have "tiles (map (\<lambda>i. blocks (isp_part u split ?d m i) ! 0) [0..<?n]) ?b"
  proof (cases "split = TU_1D_HORZ_SPLIT")
    case True
    have "?n * ?d = height ?b"
      using isp_dim_pow[OF assms(3,4)] by (simp add: True isp_dims_def Let_def)
    then have "tiles (row_parts ?b (replicate ?n ?d)) ?b"
      by (intro tiles_row_parts) (simp add: sum_list_replicate)
    then show ?thesis
      unfolding luma row_parts_replicate by (simp add: True)
  next
    case False
    have "?n * ?d = width ?b"
      using isp_dim_pow[OF assms(4,3)] False by (simp add: isp_dims_def Let_def)
    then have "tiles (col_parts ?b (replicate ?n ?d)) ?b"
      by (intro tiles_col_parts) (simp add: sum_list_replicate)
    then show ?thesis
      unfolding luma col_parts_replicate using False by simp
  qed
  then show ?thesis
    by (simp add: comp_tiles_def comp_def blkY_def)
qed

section \<open>Properties\<close>

text \<open>A 4:2:0 slice with 64x64 tree units, ternary and binary splits down to 4x4.\<close>

definition sample_limits :: SplitLimits where
  "sample_limits = \<lparr>lim_minQT = (8, 8, 8), lim_maxMTT = (3, 3, 3), lim_maxBT = (64, 64, 64), lim_maxTT = (32, 32, 32)\<rparr>"

definition sample_part_cfg :: PartCfg where
  "sample_part_cfg = \<lparr>cs_noChroma2x2 = False, cs_ISingleTree = True, cs_sliceType = I_SLICE, cs_limits = sample_limits,
     cs_override = None, cs_log2MinCB = 2, cs_maxTbSize = 32, cs_qpDeltaSubdiv = 2, cs_chromaQpOffsetSubdiv = 0,
     cs_picture = unit_of_luma CF_420 0 0 128 96, cs_format = CF_420, cs_treeType = TREE_D, cs_cus = [],
     cs_ctuSize = 64, cs_wavefronts = False, cs_sliceIdx = 0, cs_tileIdx = (\<lambda>_. 0)\<rparr>"

lemma max_tiles_pow: "max_tiles (2 ^ a) (2 ^ t) = 2 ^ (a - t)"
proof (cases "t \<le> a")
  case True
  then have "(2::nat) ^ a div 2 ^ t = 2 ^ (a - t)" by (simp add: power_diff)
  then show ?thesis by (simp add: max_tiles_def)
next
  case False
  then have "(2::nat) ^ a < 2 ^ t" by simp
  then show ?thesis using False by (simp add: max_tiles_def)
qed

lemma unit_of_luma_comp:
  assumes "k < length (blocks (unit_of_luma cf x y w h))"
  obtains c where "blocks (unit_of_luma cf x y w h) ! k = comp_of_luma c cf x y w h" "c \<noteq> MAX_NUM_TBLOCKS"
proof -
  have "k < 3" using assms by (auto simp: unit_of_luma_def getNumberValidComponents_def split: if_splits)
  then consider "k = 0" | "k = 1" | "k = 2" by linarith
  then show thesis
    by cases (use assms that[of COMPONENT_Y] that[of COMPONENT_Cb] that[of COMPONENT_Cr] in
        \<open>auto simp: unit_of_luma_def getNumberValidComponents_def split: if_splits\<close>)
qed

lemma scale_le_1: "getChannelTypeScaleX ch cf \<le> 1" "getChannelTypeScaleY ch cf \<le> 1"
  by (simp_all add: getChannelTypeScaleX_def getChannelTypeScaleY_def)

lemma comp_of_luma_pow:
  assumes "1 \<le> a" "1 \<le> b" "cf \<noteq> CF_UNDEFINED" "c \<noteq> MAX_NUM_TBLOCKS"
  shows "width (comp_of_luma c cf x y (2 ^ a) (2 ^ b)) = 2 ^ (a - getChannelTypeScaleX (toChannelType c) cf)"
    and "height (comp_of_luma c cf x y (2 ^ a) (2 ^ b)) = 2 ^ (b - getChannelTypeScaleY (toChannelType c) cf)"
    and "comp_valid (comp_of_luma c cf x y (2 ^ a) (2 ^ b))"
proof -
  have p: "(2::nat) ^ n div 2 ^ m = 2 ^ (n - m)" if "m \<le> 1" "1 \<le> n" for n m
    using that by (simp add: power_diff)
  show "width (comp_of_luma c cf x y (2 ^ a) (2 ^ b)) = 2 ^ (a - getChannelTypeScaleX (toChannelType c) cf)"
    "height (comp_of_luma c cf x y (2 ^ a) (2 ^ b)) = 2 ^ (b - getChannelTypeScaleY (toChannelType c) cf)"
    using assms p[OF scale_le_1(1)] p[OF scale_le_1(2)] by (simp_all add: comp_of_luma_def Let_def)
  then show "comp_valid (comp_of_luma c cf x y (2 ^ a) (2 ^ b))"
    using assms by (simp add: comp_valid_def) (simp add: comp_of_luma_def Let_def)
qed

lemma blkY_luma: "blkY (unit_of_luma cf x y w h) = comp_of_luma COMPONENT_Y cf x y w h"
  by (simp add: blkY_def unit_of_luma_def getNumberValidComponents_def)

lemma luma_size:
  "width (blkY (unit_of_luma cf x y w h)) = w" "height (blkY (unit_of_luma cf x y w h)) = h"
  "posx (blkY (unit_of_luma cf x y w h)) = x" "posy (blkY (unit_of_luma cf x y w h)) = y"
  by (simp_all add: blkY_luma comp_of_luma_def toChannelType_def getChannelTypeScaleX_def getChannelTypeScaleY_def)

text \<open>
  C20: For every power-of-two block up to the largest tree unit, the tiling by the maximum transform
  size succeeds, its tiles partition the samples of every component, and no luma tile exceeds the
  transform size (64 for a block larger than 64).
\<close>

theorem max_tu_tiling:
  assumes "2 \<le> a" "a \<le> 7" "2 \<le> b" "b \<le> 7" "5 \<le> t" "t \<le> 6" "cs_maxTbSize cs = 2 ^ t" "cf \<noteq> CF_UNDEFINED"
    and u: "u = unit_of_luma cf x y (2 ^ a) (2 ^ b)"
  shows "\<exists>parts. getMaxTuTiling u cs = Some parts \<and> (\<forall>k<length (blocks u). comp_tiles parts u k) \<and>
    (\<forall>p\<in>set parts. width (blkY p) \<le> (if 6 < a \<or> 6 < b then 64 else 2 ^ t) \<and> height (blkY p) \<le> (if 6 < a \<or> 6 < b then 64 else 2 ^ t))"
proof -
  define s where "s = (if 6 < a \<or> 6 < b then 6 else t)"
  let ?nH = "2 ^ (a - s)" and ?nV = "2 ^ (b - s)"
  have big: "(64 < (2::nat) ^ n) = (6 < n)" for n
    using power_strict_increasing_iff[of "2::nat" 6 n] by simp
  have tr: "(if 64 < width (blkY u) \<or> 64 < height (blkY u) then 64 else cs_maxTbSize cs) = 2 ^ s"
    using assms(7) by (simp add: u luma_size big s_def)
  have s: "5 \<le> s" "s \<le> 6" "1 \<le> s" using assms by (auto simp: s_def)
  have n8: "?nH \<le> (8::nat)" "?nV \<le> (8::nat)"
    using power_increasing[of "a - s" 3 "2::nat"] power_increasing[of "b - s" 3 "2::nat"] assms s by simp_all
  have parts: "getMaxTuTiling u cs = Some (map (\<lambda>i.
      u\<lparr>blocks := map (tile_block ?nH ?nV (i mod ?nH) (i div ?nH)) (blocks u)\<rparr>) [0..<?nH * ?nV])"
    using max_tu_tiling_aux[of u cs] n8 unfolding tr by (simp add: u luma_size max_tiles_pow)
  have tiles: "comp_tiles (map (\<lambda>i. u\<lparr>blocks := map (tile_block ?nH ?nV (i mod ?nH) (i div ?nH)) (blocks u)\<rparr>) [0..<?nH * ?nV]) u k"
    if k: "k < length (blocks u)" for k
  proof -
    obtain c where c: "blocks u ! k = comp_of_luma c cf x y (2 ^ a) (2 ^ b)" "c \<noteq> MAX_NUM_TBLOCKS"
      using unit_of_luma_comp k unfolding u by metis
    note cp = comp_of_luma_pow[OF _ _ assms(8) c(2), of a b x y]
    have "?nH dvd (2::nat) ^ (a - getChannelTypeScaleX (toChannelType c) cf)"
      "?nV dvd (2::nat) ^ (b - getChannelTypeScaleY (toChannelType c) cf)"
      using scale_le_1[of "toChannelType c" cf] s by (intro le_imp_power_dvd; linarith)+
    then show ?thesis
      by (intro comp_tiles_max_tu[OF k]) (use cp assms c(1) in auto)
  qed
  have pw: "(2::nat) ^ n div 2 ^ (n - s) \<le> 2 ^ s" for n
    by (cases "s \<le> n") (simp_all flip: power_diff)
  have ne: "blocks u \<noteq> []" by (simp add: u unit_of_luma_def getNumberValidComponents_def)
  have size: "width (blkY p) \<le> 2 ^ s \<and> height (blkY p) \<le> 2 ^ s"
    if p: "p \<in> set (map (\<lambda>i. u\<lparr>blocks := map (tile_block ?nH ?nV (i mod ?nH) (i div ?nH)) (blocks u)\<rparr>) [0..<?nH * ?nV])" for p
  proof -
    have "comp_valid (blkY u)"
      using comp_of_luma_pow(3)[OF _ _ assms(8), of a b COMPONENT_Y x y] assms by (simp add: u blkY_luma)
    then have "width (blkY p) = width (blkY u) div ?nH \<and> height (blkY p) = height (blkY u) div ?nV"
      using p ne by (auto simp: blkY_def tile_block_def Let_def)
    then show ?thesis using pw by (simp add: u luma_size)
  qed
  show ?thesis
    using parts tiles size by (auto simp: s_def split: if_splits)
qed

theorem max_tu_tiling_witness:
  "\<exists>parts. getMaxTuTiling (unit_of_luma CF_420 0 0 128 32) sample_part_cfg = Some parts \<and>
    (\<forall>k<3. comp_tiles parts (unit_of_luma CF_420 0 0 128 32) k)"
  using max_tu_tiling[of 7 5 5 sample_part_cfg CF_420 "unit_of_luma CF_420 0 0 128 32" 0 0]
  by (auto simp: sample_part_cfg_def unit_of_luma_def getNumberValidComponents_def isChromaEnabled_def)

text \<open>
  C22: The sub-block transform splits of a power-of-two block of a coding unit succeed and give two
  blocks that partition the samples of every component, halves or quarters of the split side.
\<close>

theorem sbt_tiling:
  assumes "is_sbt_split split" "2 \<le> a" "2 \<le> b" "3 \<le> (if sbt_vertical split then a else b)" "cf \<noteq> CF_UNDEFINED"
    and u: "u = unit_of_luma cf x y (2 ^ a) (2 ^ b)"
  shows "\<exists>parts. getSbtTuTiling u split = Some parts \<and> length parts = 2 \<and> (\<forall>k<length (blocks u). comp_tiles parts u k)"
proof -
  have "comp_tiles (split_units (\<lambda>i. sbt_block (sbt_factors split i)) 2 u) u k" if k: "k < length (blocks u)" for k
  proof -
    obtain c where c: "blocks u ! k = comp_of_luma c cf x y (2 ^ a) (2 ^ b)" "c \<noteq> MAX_NUM_TBLOCKS"
      using unit_of_luma_comp k unfolding u by metis
    note cp = comp_of_luma_pow[OF _ _ assms(5) c(2), of a b x y]
    have "2 ^ 2 dvd (if sbt_vertical split then (2::nat) ^ (a - getChannelTypeScaleX (toChannelType c) cf)
      else 2 ^ (b - getChannelTypeScaleY (toChannelType c) cf))"
    proof (cases "sbt_vertical split")
      case True
      then have "2 \<le> a - getChannelTypeScaleX (toChannelType c) cf"
        using scale_le_1[of "toChannelType c" cf] assms(4) by simp
      then show ?thesis unfolding if_P[OF True] by (rule le_imp_power_dvd)
    next
      case False
      then have "2 \<le> b - getChannelTypeScaleY (toChannelType c) cf"
        using scale_le_1[of "toChannelType c" cf] assms(4) by simp
      then show ?thesis unfolding if_not_P[OF False] by (rule le_imp_power_dvd)
    qed
    then show ?thesis
      by (intro comp_tiles_sbt[OF assms(1) k]) (use cp assms c(1) in \<open>auto split: if_splits\<close>)
  qed
  then show ?thesis
    using assms(1) by (simp add: getSbtTuTiling_def split_units_def)
qed

theorem sbt_tiling_witness:
  "\<exists>parts. getSbtTuTiling (unit_of_luma CF_420 8 4 (2 ^ 4) (2 ^ 2)) SBT_VER_QUAD_POS1_SPLIT = Some parts \<and> length parts = 2 \<and>
     (\<forall>k<length (blocks (unit_of_luma CF_420 8 4 (2 ^ 4) (2 ^ 2))). comp_tiles parts (unit_of_luma CF_420 8 4 (2 ^ 4) (2 ^ 2)) k)"
  by (rule sbt_tiling[where a = 4 and b = 2 and cf = CF_420 and x = 8 and y = 4]) (simp_all add: is_sbt_split_def sbt_vertical_def)

text \<open>
  C21: The intra sub-partitions of a block of sides 4 to 64 exist, partition its luma samples and hold
  at least 16 luma samples each; in a single tree only the last one keeps the chroma blocks.
\<close>

theorem isp_tiling:
  assumes "split \<in> {TU_1D_HORZ_SPLIT, TU_1D_VERT_SPLIT}" "w \<in> isp_sizes" "h \<in> isp_sizes"
    and fmt: "isChromaEnabled (cs_format cs)" "\<not> isDualITree cs" "cs_treeType cs = TREE_D"
    and u: "u = unit_of_luma (cs_format cs) x y w h"
  shows "\<exists>parts. getTUIntraSubPartitions u cs split = Some parts \<and> parts \<noteq> [] \<and> comp_tiles parts u 0 \<and>
    (\<forall>p\<in>set parts. 16 \<le> width (blkY p) * height (blkY p)) \<and>
    (\<forall>i<length parts - 1. blocks (parts ! i) ! 1 = no_block \<and> blocks (parts ! i) ! 2 = no_block) \<and>
    tl (blocks (last parts)) = tl (blocks u)"
proof -
  let ?n = "fst (isp_dims split u)" and ?d = "snd (isp_dims split u)"
  let ?parts = "map (isp_part u split ?d (?n - 1)) [0..<?n]"
  have b: "blocks u = [blkY u, blocks u ! 1, blocks u ! 2]" "length (blocks u) = 3"
    using fmt(1) by (simp_all add: u unit_of_luma_def getNumberValidComponents_def blkY_def)
  have wh: "width (blkY u) = w" "height (blkY u) = h" by (simp_all add: u luma_size)
  have nc: "isp_no_chroma cs ?n = ?n - 1" using fmt by (simp add: isp_no_chroma_def)
  have eq: "getTUIntraSubPartitions u cs split = Some ?parts"
    using isp_parts[OF assms(1), of u cs] assms(2,3) by (simp add: wh nc)
  have tl: "comp_tiles ?parts u 0"
    by (rule isp_luma_tiles[OF assms(1)]) (use assms(2,3) b(2) in \<open>auto simp: wh\<close>)
  have n0: "0 < ?n"
    using isp_dim_pow(3)[OF assms(2,3)] isp_dim_pow(3)[OF assms(3,2)] by (simp add: isp_dims_def Let_def wh)
  have area: "16 \<le> width (blkY p) * height (blkY p)" if "p \<in> set ?parts" for p
    using that b isp_dim_pow(5)[OF assms(2,3)] isp_dim_pow(5)[OF assms(3,2)] assms(1)
    by (auto simp: isp_part_def Let_def blkY_def isp_dims_def wh[unfolded blkY_def] mult.commute)
  have nochroma: "blocks (?parts ! i) ! 1 = no_block \<and> blocks (?parts ! i) ! 2 = no_block" if "i < length ?parts - 1" for i
    using that b(2) by (simp add: isp_part_def Let_def)
  have "last ?parts = isp_part u split ?d (?n - 1) (?n - 1)"
    using n0 by (simp add: last_conv_nth)
  then have last: "tl (blocks (last ?parts)) = tl (blocks u)"
    using b(2) by (cases "blocks u") (simp_all add: isp_part_def Let_def)
  show ?thesis
    using eq tl n0 area nochroma last by (intro exI[of _ ?parts]) auto
qed

theorem isp_tiling_witness:
  "\<exists>parts. getTUIntraSubPartitions (unit_of_luma CF_420 0 0 16 8) sample_part_cfg TU_1D_VERT_SPLIT = Some parts \<and>
    parts \<noteq> [] \<and> comp_tiles parts (unit_of_luma CF_420 0 0 16 8) 0"
proof -
  have "TU_1D_VERT_SPLIT \<in> {TU_1D_HORZ_SPLIT, TU_1D_VERT_SPLIT}" "16 \<in> isp_sizes" "8 \<in> isp_sizes"
    by (simp_all add: isp_sizes_def)
  from isp_tiling[OF this, of sample_part_cfg "unit_of_luma CF_420 0 0 16 8" 0 0] show ?thesis
    by (auto simp: sample_part_cfg_def isChromaEnabled_def isDualITree_def)
qed

end
