(* ===== verification/Partitioner.thy ===== *)
theory Partitioner
  imports UnitPartition
begin

text \<open>
  The partitioner of the coding tree (\<open>UnitPartitioner.{h,cpp}\<close>): the stack of split levels with
  the depth counters, the rules that allow or force a split, and the operations that enter,
  advance and leave a level.  The stack is a list whose head is \<open>m_partStack.back()\<close>; the
  counters are \<open>unsigned\<close>, so \<open>32 word\<close>.  A failed \<open>CHECK\<close> or a \<open>THROW\<close> is \<open>None\<close>; the
  \<open>CHECKD\<close>s are off in the build.
\<close>

section \<open>State\<close>

record PartLevel =
  lv_split :: PartSplit
  lv_parts :: "UnitArea list"
  lv_idx :: nat
  lv_checkdIfImplicit :: bool
  lv_isImplicit :: bool
  lv_implicitSplit :: PartSplit
  lv_firstSubPartSplit :: PartSplit
  lv_canQtSplit :: bool
  lv_qgEnable :: bool
  lv_qgChromaEnable :: bool
  lv_modeType :: ModeType

definition partLevel :: "PartSplit \<Rightarrow> UnitArea list \<Rightarrow> PartLevel" where
  "partLevel split parts = \<lparr>lv_split = split, lv_parts = parts, lv_idx = 0, lv_checkdIfImplicit = False,
    lv_isImplicit = False, lv_implicitSplit = CU_DONT_SPLIT, lv_firstSubPartSplit = CU_DONT_SPLIT,
    lv_canQtSplit = True, lv_qgEnable = True, lv_qgChromaEnable = True, lv_modeType = MODE_TYPE_ALL\<rparr>"

record Partitioner =
  m_partStack :: "PartLevel list"
  currDepth :: "32 word"
  currQtDepth :: "32 word"
  currTrDepth :: "32 word"
  currBtDepth :: "32 word"
  currMtDepth :: "32 word"
  currSubdiv :: "32 word"
  currQgPos :: "int \<times> int"
  currQgChromaPos :: "int \<times> int"
  currImplicitBtDepth :: "32 word"
  chType :: ChannelType
  treeType :: TreeType
  modeType :: ModeType

definition currPartLevel :: "Partitioner \<Rightarrow> PartLevel" where
  "currPartLevel p = hd (m_partStack p)"

definition currPartIdx :: "Partitioner \<Rightarrow> nat" where
  "currPartIdx p = lv_idx (currPartLevel p)"

definition level_area :: "PartLevel \<Rightarrow> UnitArea" where
  "level_area l = lv_parts l ! lv_idx l"

definition currArea :: "Partitioner \<Rightarrow> UnitArea" where
  "currArea p = level_area (currPartLevel p)"

definition currQgEnable :: "Partitioner \<Rightarrow> bool" where
  "currQgEnable p = lv_qgEnable (currPartLevel p)"

definition currQgChromaEnable :: "Partitioner \<Rightarrow> bool" where
  "currQgChromaEnable p = lv_qgChromaEnable (currPartLevel p)"

definition upd_back :: "(PartLevel \<Rightarrow> PartLevel) \<Rightarrow> Partitioner \<Rightarrow> Partitioner" where
  "upd_back f p = p\<lparr>m_partStack := (case m_partStack p of [] \<Rightarrow> [] | l # ls \<Rightarrow> f l # ls)\<rparr>"

section \<open>Limits\<close>

definition getValIdx :: "PartCfg \<Rightarrow> ChannelType \<Rightarrow> nat" where
  "getValIdx cs ch = (if cs_sliceType cs = I_SLICE then (if cs_ISingleTree cs \<or> ch = LUMA then 0 else 2) else 1)"

definition lim_nth :: "nat \<times> nat \<times> nat \<Rightarrow> nat \<Rightarrow> nat" where
  "lim_nth t i = (case t of (a, b, c) \<Rightarrow> [a, b, c] ! i)"

text \<open>The accessors of the picture header's overriding limits, by slice and channel type.\<close>

definition ph_limit :: "nat \<times> nat \<times> nat \<Rightarrow> SliceType \<Rightarrow> ChannelType \<Rightarrow> nat" where
  "ph_limit t st ch = (if st = I_SLICE then (if ch = LUMA then lim_nth t 0 else lim_nth t 2) else lim_nth t 1)"

definition pick_limit :: "(SplitLimits \<Rightarrow> nat \<times> nat \<times> nat) \<Rightarrow> PartCfg \<Rightarrow> ChannelType \<Rightarrow> nat" where
  "pick_limit sel cs ch =
    (case cs_override cs of
       Some l \<Rightarrow> ph_limit (sel l) (cs_sliceType cs) (if cs_ISingleTree cs then LUMA else ch)
     | None \<Rightarrow> lim_nth (sel (cs_limits cs)) (getValIdx cs ch))"

definition getMaxBtDepth :: "PartCfg \<Rightarrow> ChannelType \<Rightarrow> nat" where
  "getMaxBtDepth = pick_limit lim_maxMTT"

definition getMaxBtSize :: "PartCfg \<Rightarrow> ChannelType \<Rightarrow> nat" where
  "getMaxBtSize = pick_limit lim_maxBT"

definition getMaxTtSize :: "PartCfg \<Rightarrow> ChannelType \<Rightarrow> nat" where
  "getMaxTtSize = pick_limit lim_maxTT"

definition getMinQtSize :: "PartCfg \<Rightarrow> ChannelType \<Rightarrow> nat" where
  "getMinQtSize = pick_limit lim_minQT"

text \<open>\<open>minBtSize\<close> and \<open>minTtSize\<close> hold the minimum coding block size at every index.\<close>

definition getMinBtSize :: "PartCfg \<Rightarrow> ChannelType \<Rightarrow> nat" where
  "getMinBtSize cs ch = 2 ^ cs_log2MinCB cs"

definition getMinTtSize :: "PartCfg \<Rightarrow> ChannelType \<Rightarrow> nat" where
  "getMinTtSize cs ch = 2 ^ cs_log2MinCB cs"

section \<open>Split rules\<close>

text \<open>The split forced at the picture boundary, and for large blocks of a dual tree.\<close>

definition implicit_rule :: "PartCfg \<Rightarrow> Partitioner \<Rightarrow> PartSplit" where
  "implicit_rule cs p =
    (let pic = blkY (cs_picture cs); area = blkY (currArea p);
         isBlInPic = contains_pos pic (bottomLeft area);
         isTrInPic = contains_pos pic (topRight area);
         maxBtSize = getMaxBtSize cs (chType p);
         isBtAllowed = (width area \<le> maxBtSize \<and> height area \<le> maxBtSize \<and>
           currMtDepth p < of_nat (getMaxBtDepth cs (chType p)) + currImplicitBtDepth p);
         minQtSize = getMinQtSize cs (chType p);
         isQtAllowed = (minQtSize < width area \<and> minQtSize < height area \<and> currBtDepth p = 0);
         split = (if \<not> isBlInPic \<and> \<not> isTrInPic \<and> isQtAllowed then CU_QUAD_SPLIT
           else if \<not> isBlInPic \<and> isBtAllowed \<and> width area \<le> MAX_TB_SIZEY then CU_HORZ_SPLIT
           else if \<not> isTrInPic \<and> isBtAllowed \<and> height area \<le> MAX_TB_SIZEY then CU_VERT_SPLIT
           else if \<not> isBlInPic \<or> \<not> isTrInPic then CU_QUAD_SPLIT
           else CU_DONT_SPLIT);
         split = (if isDualITree cs \<and> (64 < width area \<or> 64 < height area) then CU_QUAD_SPLIT else split)
     in if (\<not> isBlInPic \<or> \<not> isTrInPic) \<and> split = CU_DONT_SPLIT then CU_QUAD_SPLIT else split)"

definition getImplicitSplit :: "PartCfg \<Rightarrow> Partitioner \<Rightarrow> PartSplit \<times> Partitioner" where
  "getImplicitSplit cs p =
    (if lv_checkdIfImplicit (currPartLevel p) then (lv_implicitSplit (currPartLevel p), p)
     else let split = implicit_rule cs p in
       (split, upd_back (\<lambda>l. l\<lparr>lv_checkdIfImplicit := True, lv_isImplicit := (split \<noteq> CU_DONT_SPLIT),
          lv_implicitSplit := split\<rparr>) p))"

definition isSplitImplicit :: "PartSplit \<Rightarrow> PartCfg \<Rightarrow> Partitioner \<Rightarrow> bool \<times> Partitioner" where
  "isSplitImplicit split cs p = (case getImplicitSplit cs p of (s, p) \<Rightarrow> (split = s, p))"

record CanSplit =
  canNo :: bool
  canQt :: bool
  canBh :: bool
  canBv :: bool
  canTh :: bool
  canTv :: bool

text \<open>The quad-tree part of \<open>canSplit\<close>, before any early return.\<close>

definition can_qt_rule :: "PartCfg \<Rightarrow> Partitioner \<Rightarrow> bool" where
  "can_qt_rule cs p =
    (let lastSplit = lv_split (currPartLevel p); area = blkY (currArea p) in
     \<not> (lastSplit \<noteq> CTU_LEVEL \<and> lastSplit \<noteq> CU_QUAD_SPLIT) \<and>
     \<not> width area \<le> getMinQtSize cs (chType p) \<and>
     \<not> (chType p = CHROMA \<and> width (blkCb (currArea p)) \<le> 4))"

text \<open>The flags when a split is forced.\<close>

definition implicit_flags :: "PartSplit \<Rightarrow> bool \<Rightarrow> Partitioner \<Rightarrow> CanSplit" where
  "implicit_flags implicitSplit qt p =
    (let bh = (implicitSplit = CU_HORZ_SPLIT);
         bv = (implicitSplit = CU_VERT_SPLIT \<and> \<not> (chType p = CHROMA \<and> width (blkCb (currArea p)) = 4))
     in \<lparr>canNo = False, canQt = (qt \<or> \<not> bh \<and> \<not> bv), canBh = bh, canBv = bv, canTh = False, canTv = False\<rparr>)"

definition canBtt_rule :: "PartCfg \<Rightarrow> Partitioner \<Rightarrow> bool" where
  "canBtt_rule cs p =
    (let area = blkY (currArea p);
         minBtSize = getMinBtSize cs (chType p); maxBtSize = getMaxBtSize cs (chType p);
         minTtSize = getMinTtSize cs (chType p); maxTtSize = getMaxTtSize cs (chType p)
     in currMtDepth p < of_nat (getMaxBtDepth cs (chType p)) + currImplicitBtDepth p \<and>
        \<not> (width area \<le> minBtSize \<and> height area \<le> minBtSize \<and> width area \<le> minTtSize \<and> height area \<le> minTtSize) \<and>
        \<not> ((maxBtSize < width area \<or> maxBtSize < height area) \<and> (maxTtSize < width area \<or> maxTtSize < height area)))"

text \<open>The flags of the binary and ternary splits when no split is forced.\<close>

definition btt_flags :: "PartCfg \<Rightarrow> bool \<Rightarrow> Partitioner \<Rightarrow> CanSplit" where
  "btt_flags cs qt p =
    (let area = blkY (currArea p); areaC = blkCb (currArea p); chroma = (chType p = CHROMA);
         minBtSize = getMinBtSize cs (chType p); maxBtSize = getMaxBtSize cs (chType p);
         minTtSize = getMinTtSize cs (chType p); maxTtSize = getMaxTtSize cs (chType p);
         lastSplit = lv_split (currPartLevel p);
         parlSplit = (if lastSplit = CU_TRIH_SPLIT then CU_HORZ_SPLIT else CU_VERT_SPLIT);
         mid = ((lastSplit = CU_TRIH_SPLIT \<or> lastSplit = CU_TRIV_SPLIT) \<and> currPartIdx p = 1);
         tooBig = (maxBtSize < width area \<or> maxBtSize < height area);
         cArea = width areaC * height areaC;
         inter = (modeType p = MODE_TYPE_INTER)
     in \<lparr>canNo = True, canQt = qt,
          canBh = (\<not> (mid \<and> parlSplit = CU_HORZ_SPLIT) \<and> \<not> tooBig \<and> \<not> height area \<le> minBtSize \<and>
            \<not> (MAX_TB_SIZEY < width area \<and> height area \<le> MAX_TB_SIZEY) \<and> \<not> (chroma \<and> cArea \<le> 16) \<and>
            \<not> (inter \<and> width area * height area = 32)),
          canBv = (\<not> (mid \<and> parlSplit = CU_VERT_SPLIT) \<and> \<not> tooBig \<and> \<not> width area \<le> minBtSize \<and>
            \<not> (width area \<le> MAX_TB_SIZEY \<and> MAX_TB_SIZEY < height area) \<and>
            \<not> (chroma \<and> (cArea \<le> 16 \<or> width areaC = 4)) \<and> \<not> (inter \<and> width area * height area = 32)),
          canTh = (\<not> (height area \<le> 2 * minTtSize \<or> maxTtSize < height area \<or> maxTtSize < width area) \<and>
            \<not> (MAX_TB_SIZEY < width area \<or> MAX_TB_SIZEY < height area) \<and> \<not> (chroma \<and> cArea \<le> 16 * 2) \<and>
            \<not> (inter \<and> width area * height area = 64)),
          canTv = (\<not> (width area \<le> 2 * minTtSize \<or> maxTtSize < width area \<or> maxTtSize < height area) \<and>
            \<not> (MAX_TB_SIZEY < width area \<or> MAX_TB_SIZEY < height area) \<and>
            \<not> (chroma \<and> (cArea \<le> 16 * 2 \<or> width areaC = 8)) \<and> \<not> (inter \<and> width area * height area = 64))\<rparr>)"

definition canSplit_all :: "PartCfg \<Rightarrow> Partitioner \<Rightarrow> CanSplit \<times> Partitioner" where
  "canSplit_all cs p0 =
    (case (if lv_checkdIfImplicit (currPartLevel p0) then (lv_implicitSplit (currPartLevel p0), p0) else getImplicitSplit cs p0) of
       (implicitSplit, p) \<Rightarrow>
         let qt = can_qt_rule cs p in
         (if treeType p = TREE_C then
            \<lparr>canNo = True, canQt = False, canBh = False, canBv = False, canTh = False, canTv = False\<rparr>
          else if implicitSplit \<noteq> CU_DONT_SPLIT then implicit_flags implicitSplit qt p
          else if \<not> canBtt_rule cs p then
            \<lparr>canNo = True, canQt = qt, canBh = False, canBv = False, canTh = False, canTv = False\<rparr>
          else btt_flags cs qt p, p))"

definition canSplit :: "PartSplit \<Rightarrow> PartCfg \<Rightarrow> Partitioner \<Rightarrow> (bool \<times> Partitioner) option" where
  "canSplit split cs p0 =
    (case canSplit_all cs p0 of (f, p) \<Rightarrow>
       let area = blkY (currArea p) in
       if split = TU_MAX_TR_SPLIT then Some (cs_maxTbSize cs < width area \<or> cs_maxTbSize cs < height area, p)
       else if is_sbt_split split then Some (currTrDepth p = 0, p)
       else if split = CU_QUAD_SPLIT then Some (canQt f, p)
       else if split = CU_DONT_SPLIT then Some (canNo f, p)
       else if split = CU_HORZ_SPLIT then Some (canBh f, p)
       else if split = CU_VERT_SPLIT then Some (canBv f, p)
       else if split = CU_TRIH_SPLIT then Some (canTh f, p)
       else if split = CU_TRIV_SPLIT then Some (canTv f, p)
       else if split = CU_MT_SPLIT then Some (canBh f \<or> canTh f \<or> canBv f \<or> canTv f, p)
       else if split = CU_BT_SPLIT then Some (canBh f \<or> canBv f, p)
       else None)"

section \<open>Split series\<close>

fun split_code :: "PartSplit \<Rightarrow> nat" where
  "split_code CTU_LEVEL = 0"
| "split_code CU_QUAD_SPLIT = 1"
| "split_code CU_HORZ_SPLIT = 2"
| "split_code CU_VERT_SPLIT = 3"
| "split_code CU_TRIH_SPLIT = 4"
| "split_code CU_TRIV_SPLIT = 5"
| "split_code TU_MAX_TR_SPLIT = 6"
| "split_code TU_NO_ISP = 7"
| "split_code TU_1D_HORZ_SPLIT = 8"
| "split_code TU_1D_VERT_SPLIT = 9"
| "split_code SBT_VER_HALF_POS0_SPLIT = 10"
| "split_code SBT_VER_HALF_POS1_SPLIT = 11"
| "split_code SBT_HOR_HALF_POS0_SPLIT = 12"
| "split_code SBT_HOR_HALF_POS1_SPLIT = 13"
| "split_code SBT_VER_QUAD_POS0_SPLIT = 14"
| "split_code SBT_VER_QUAD_POS1_SPLIT = 15"
| "split_code SBT_HOR_QUAD_POS0_SPLIT = 16"
| "split_code SBT_HOR_QUAD_POS1_SPLIT = 17"
| "split_code NUM_PART_SPLIT = 18"
| "split_code CU_MT_SPLIT = 1000"
| "split_code CU_BT_SPLIT = 1001"
| "split_code CU_DONT_SPLIT = 2000"

fun mode_code :: "ModeType \<Rightarrow> nat" where
  "mode_code MODE_TYPE_ALL = 0"
| "mode_code MODE_TYPE_INTER = 1"
| "mode_code MODE_TYPE_INTRA = 2"

fun split_series :: "PartLevel list \<Rightarrow> nat \<Rightarrow> 64 word \<Rightarrow> 64 word" where
  "split_series [] depth acc = acc"
| "split_series (l # ls) depth acc =
     (if lv_split l = CTU_LEVEL then split_series ls depth acc
      else split_series ls (depth + 1) (acc + push_bit (depth * 5) (of_nat (split_code (lv_split l)))))"

text \<open>The mode is shifted as an \<open>int\<close> and widened when it is added.\<close>

fun mode_series :: "PartLevel list \<Rightarrow> nat \<Rightarrow> 64 word \<Rightarrow> 64 word" where
  "mode_series [] depth acc = acc"
| "mode_series (l # ls) depth acc =
     (if lv_split l = CTU_LEVEL then mode_series ls depth acc
      else mode_series ls (depth + 1) (acc + word_of_int (i32 (int (mode_code (lv_modeType l) * 2 ^ (depth * 3))))))"

definition getSplitSeries :: "Partitioner \<Rightarrow> 64 word" where
  "getSplitSeries p = split_series (rev (m_partStack p)) 0 0"

definition getModeTypeSeries :: "Partitioner \<Rightarrow> 64 word" where
  "getModeTypeSeries p = mode_series (rev (m_partStack p)) 0 0"

definition setCUData :: "Partitioner \<Rightarrow> CodingUnit \<Rightarrow> CodingUnit" where
  "setCUData p cu = cu\<lparr>cu_depth := ucast (currDepth p), cu_btDepth := ucast (currBtDepth p),
     cu_mtDepth := ucast (currMtDepth p), cu_qtDepth := ucast (currQtDepth p),
     cu_splitSeries := getSplitSeries p, cu_modeTypeSeries := getModeTypeSeries p\<rparr>"

definition getSplitAtDepth :: "CodingUnit \<Rightarrow> 32 word \<Rightarrow> PartSplit option" where
  "getSplitAtDepth cu depth =
    (if ucast (cu_depth cu) \<le> depth then Some CU_DONT_SPLIT
     else let t = drop_bit (unat (depth * 5)) (cu_splitSeries cu) AND 31 in
       if t = 1 then Some CU_QUAD_SPLIT
       else if t = 2 then Some CU_HORZ_SPLIT
       else if t = 3 then Some CU_VERT_SPLIT
       else if t = 4 then Some CU_TRIH_SPLIT
       else if t = 5 then Some CU_TRIV_SPLIT
       else None)"

text \<open>A value of the enumeration is returned for the codes that name one.\<close>

definition getModeTypeAtDepth :: "CodingUnit \<Rightarrow> 32 word \<Rightarrow> ModeType option" where
  "getModeTypeAtDepth cu depth =
    (let t = drop_bit (unat (depth * 3)) (cu_modeTypeSeries cu) AND 7 in
     do {
       check (ucast (cu_depth cu) < depth);
       (if t = 0 then Some MODE_TYPE_ALL else if t = 1 then Some MODE_TYPE_INTER
        else if t = 2 then Some MODE_TYPE_INTRA else None)
     })"

definition copyState :: "Partitioner \<Rightarrow> Partitioner \<Rightarrow> Partitioner" where
  "copyState p q = p\<lparr>m_partStack := m_partStack q, currBtDepth := currBtDepth q, currQtDepth := currQtDepth q,
     currDepth := currDepth q, currMtDepth := currMtDepth q, currTrDepth := currTrDepth q, currSubdiv := currSubdiv q,
     currQgPos := currQgPos q, currQgChromaPos := currQgChromaPos q,
     currImplicitBtDepth := currImplicitBtDepth q, chType := chType q\<rparr>"

definition isSepTree :: "PartCfg \<Rightarrow> Partitioner \<Rightarrow> bool" where
  "isSepTree cs p = (treeType p \<noteq> TREE_D \<or> isDualITree cs)"

definition isLocalSepTree :: "PartCfg \<Rightarrow> Partitioner \<Rightarrow> bool" where
  "isLocalSepTree cs p = (treeType p \<noteq> TREE_D \<and> \<not> isDualITree cs)"

definition isConsInter :: "Partitioner \<Rightarrow> bool" where
  "isConsInter p = (modeType p = MODE_TYPE_INTER)"

definition isConsIntra :: "Partitioner \<Rightarrow> bool" where
  "isConsIntra p = (modeType p = MODE_TYPE_INTRA)"

section \<open>Coding units of the structure\<close>

text \<open>The coding unit of a channel at a position: the last one added that covers it.\<close>

definition getCU :: "PartCfg \<Rightarrow> int \<times> int \<Rightarrow> ChannelType \<Rightarrow> CodingUnit option" where
  "getCU cs pos ch =
    List.find (\<lambda>cu. comp_valid (chan_block (cu_area cu) ch) \<and> contains_pos (chan_block (cu_area cu) ch) pos) (rev (cs_cus cs))"

definition getCURestricted :: "PartCfg \<Rightarrow> int \<times> int \<Rightarrow> int \<times> int \<Rightarrow> nat \<Rightarrow> nat \<Rightarrow> ChannelType \<Rightarrow> CodingUnit option" where
  "getCURestricted cs pos curPos curSliceIdx curTileIdx ch =
    (case getCU cs pos ch of
       None \<Rightarrow> None
     | Some cu \<Rightarrow>
         let ctuSizeBit = nat (floorLog2 (cs_ctuSize cs));
             xNbY = fst pos * 2 ^ getChannelTypeScaleX ch (cs_format cs);
             xCurr = fst curPos * 2 ^ getChannelTypeScaleX ch (cs_format cs);
             addCheck = \<not> (cs_wavefronts cs \<and> xCurr div 2 ^ ctuSizeBit + 1 \<le> xNbY div 2 ^ ctuSizeBit)
         in if cu_sliceIdx cu = curSliceIdx \<and> cu_tileIdx cu = curTileIdx \<and> addCheck then Some cu else None)"

section \<open>Entering, advancing and leaving a split\<close>

definition initCtu :: "UnitArea \<Rightarrow> ChannelType \<Rightarrow> Partitioner \<Rightarrow> Partitioner" where
  "initCtu ctuArea ch p = p\<lparr>currDepth := 0, currTrDepth := 0, currBtDepth := 0, currMtDepth := 0, currQtDepth := 0,
     currSubdiv := 0, currQgPos := lumaPos ctuArea,
     currQgChromaPos := (if isChromaEnabled (unit_format ctuArea) then chromaPos ctuArea else (0, 0)),
     currImplicitBtDepth := 0, chType := ch,
     m_partStack := [partLevel CTU_LEVEL [ctuArea]], treeType := TREE_D, modeType := MODE_TYPE_ALL\<rparr>"

definition is_btt :: "PartSplit \<Rightarrow> bool" where
  "is_btt split = (split \<in> {CU_HORZ_SPLIT, CU_VERT_SPLIT, CU_TRIH_SPLIT, CU_TRIV_SPLIT})"

definition is_tt :: "PartSplit \<Rightarrow> bool" where
  "is_tt split = (split \<in> {CU_TRIH_SPLIT, CU_TRIV_SPLIT})"

definition is_tu :: "PartSplit \<Rightarrow> bool" where
  "is_tu split = (split = TU_MAX_TR_SPLIT \<or> is_sbt_split split)"

definition new_level :: "PartSplit \<Rightarrow> PartCfg \<Rightarrow> Partitioner \<Rightarrow> PartLevel option" where
  "new_level split cs p =
    (if split = CU_QUAD_SPLIT \<or> is_btt split then
       map_option (\<lambda>parts. (partLevel split parts)\<lparr>lv_modeType := modeType p\<rparr>) (getCUSubPartitions (currArea p) cs split)
     else if split = TU_MAX_TR_SPLIT then map_option (partLevel split) (getMaxTuTiling (currArea p) cs)
     else if is_sbt_split split then map_option (partLevel split) (getSbtTuTiling (currArea p) split)
     else None)"

text \<open>The counters after the new level is on the stack.\<close>

definition enter_depths :: "PartSplit \<Rightarrow> bool \<Rightarrow> bool \<Rightarrow> Partitioner \<Rightarrow> Partitioner option" where
  "enter_depths split isImplicit canQtSplit p0 =
    (let p = p0\<lparr>currDepth := currDepth p0 + 1, currSubdiv := currSubdiv p0 + 1,
           currTrDepth := (if is_tu split then currTrDepth p0 + 1 else 0)\<rparr> in
     if is_btt split then
       let p = p\<lparr>currBtDepth := currBtDepth p + 1,
             currImplicitBtDepth := (if isImplicit then currImplicitBtDepth p + 1 else currImplicitBtDepth p),
             currMtDepth := currMtDepth p + 1\<rparr>;
           p = (if is_tt split then p\<lparr>currBtDepth := currBtDepth p + 1, currSubdiv := currSubdiv p + 1\<rparr> else p)
       in Some (upd_back (\<lambda>l. l\<lparr>lv_canQtSplit := canQtSplit\<rparr>) p)
     else if split = CU_QUAD_SPLIT then
       do {
         check (0 < currBtDepth p);
         check (0 < currMtDepth p);
         Some (p\<lparr>currMtDepth := 0, currBtDepth := 0, currQtDepth := currQtDepth p + 1, currSubdiv := currSubdiv p + 1\<rparr>)
       }
     else Some p)"

text \<open>The quantisation groups of the new level.\<close>

definition enter_qg :: "PartCfg \<Rightarrow> bool \<Rightarrow> bool \<Rightarrow> Partitioner \<Rightarrow> Partitioner" where
  "enter_qg cs qg qgChroma p0 =
    (let qgEnable = (qg \<and> currSubdiv p0 \<le> cs_qpDeltaSubdiv cs);
         qgChromaEnable = (qgChroma \<and> currSubdiv p0 \<le> cs_chromaQpOffsetSubdiv cs);
         p = upd_back (\<lambda>l. l\<lparr>lv_qgEnable := qgEnable, lv_qgChromaEnable := qgChromaEnable\<rparr>) p0;
         p = (if qgEnable then p\<lparr>currQgPos := lumaPos (currArea p)\<rparr> else p)
     in if qgChromaEnable then p\<lparr>currQgChromaPos := chromaPos (currArea p)\<rparr> else p)"

definition splitCurrArea :: "PartSplit \<Rightarrow> PartCfg \<Rightarrow> Partitioner \<Rightarrow> Partitioner option" where
  "splitCurrArea split cs p0 =
    (case isSplitImplicit split cs p0 of (isImplicit, p1) \<Rightarrow>
     do {
       (canQtSplit, p) \<leftarrow> canSplit CU_QUAD_SPLIT cs p1;
       let qgEnable = currQgEnable p;
       let qgChromaEnable = currQgChromaEnable p;
       level \<leftarrow> new_level split cs p;
       p \<leftarrow> enter_depths split isImplicit canQtSplit (p\<lparr>m_partStack := level # m_partStack p\<rparr>);
       Some (enter_qg cs qgEnable qgChromaEnable p)
     })"

text \<open>The counters of \<open>exitCurrSplit\<close>, for the level that was left.\<close>

definition leave_depths :: "PartSplit \<Rightarrow> nat \<Rightarrow> Partitioner \<Rightarrow> Partitioner option" where
  "leave_depths currSplit currIdx p =
    (if is_btt currSplit then
       do {
         check (\<not> lv_checkdIfImplicit (currPartLevel p));
         check (currBtDepth p = 0);
         check (currMtDepth p = 0);
         let p = p\<lparr>currMtDepth := currMtDepth p - 1,
               currImplicitBtDepth := (if lv_isImplicit (currPartLevel p) then currImplicitBtDepth p - 1 else currImplicitBtDepth p),
               currBtDepth := currBtDepth p - 1\<rparr>;
         (if is_tt currSplit \<and> currIdx \<noteq> 1 then
            do {
              check (currBtDepth p = 0);
              Some (p\<lparr>currBtDepth := currBtDepth p - 1, currSubdiv := currSubdiv p - 1\<rparr>)
            }
          else Some p)
       }
     else if is_tu currSplit then
       do { check (currTrDepth p = 0); Some (p\<lparr>currTrDepth := currTrDepth p - 1\<rparr>) }
     else
       do {
         check (0 < currTrDepth p);
         check (currQtDepth p = 0);
         Some (p\<lparr>currQtDepth := currQtDepth p - 1, currSubdiv := currSubdiv p - 1\<rparr>)
       })"

definition exitCurrSplit :: "Partitioner \<Rightarrow> Partitioner option" where
  "exitCurrSplit p0 =
    (let currSplit = lv_split (currPartLevel p0); currIdx = currPartIdx p0;
         p = p0\<lparr>m_partStack := tl (m_partStack p0)\<rparr>
     in do {
       check (currDepth p = 0);
       let p = p\<lparr>currDepth := currDepth p - 1, currSubdiv := currSubdiv p - 1\<rparr>;
       let p = (if currQgEnable p then p\<lparr>currQgPos := lumaPos (currArea p)\<rparr> else p);
       let p = (if isChromaEnabled (unit_format (currArea p)) \<and> currQgChromaEnable p
                then p\<lparr>currQgChromaPos := chromaPos (currArea p)\<rparr> else p);
       leave_depths currSplit currIdx p
     })"

definition adapt_tt_depth :: "nat \<Rightarrow> Partitioner \<Rightarrow> Partitioner" where
  "adapt_tt_depth currIdx p =
    (if is_tt (lv_split (currPartLevel p)) then
       (if currIdx = 1 then p\<lparr>currBtDepth := currBtDepth p - 1, currSubdiv := currSubdiv p - 1\<rparr>
        else p\<lparr>currBtDepth := currBtDepth p + 1, currSubdiv := currSubdiv p + 1\<rparr>)
     else p)"

definition place_qg :: "Partitioner \<Rightarrow> Partitioner" where
  "place_qg p0 =
    (let p = (if currQgEnable p0 then p0\<lparr>currQgPos := lumaPos (currArea p0)\<rparr> else p0)
     in if currQgChromaEnable p then p\<lparr>currQgChromaPos := chromaPos (currArea p)\<rparr> else p)"

definition nextPart :: "PartCfg \<Rightarrow> bool \<Rightarrow> Partitioner \<Rightarrow> (bool \<times> Partitioner) option" where
  "nextPart cs autoPop p0 =
    (let prevPos = comp_pos (chan_block (currArea p0) (chType p0));
         currIdx = currPartIdx p0 + 1
     in do {
       first \<leftarrow> (if currIdx = 1 then
           (case getCU cs prevPos (chType p0) of
              Some prevCU \<Rightarrow> getSplitAtDepth prevCU (currDepth p0) | None \<Rightarrow> Some CU_DONT_SPLIT)
         else Some (lv_firstSubPartSplit (currPartLevel p0)));
       let p = upd_back (\<lambda>l. l\<lparr>lv_idx := currIdx, lv_checkdIfImplicit := False, lv_isImplicit := False,
                 lv_firstSubPartSplit := first\<rparr>) p0;
       (if currIdx < length (lv_parts (currPartLevel p)) then
          Some (True, place_qg (adapt_tt_depth currIdx p))
        else if autoPop then map_option (\<lambda>p. (False, p)) (exitCurrSplit p)
        else Some (False, p))
     })"

definition hasNextPart :: "Partitioner \<Rightarrow> bool" where
  "hasNextPart p = (lv_idx (currPartLevel p) + 1 < length (lv_parts (currPartLevel p)))"

section \<open>The partitioner of intra sub-partitions\<close>

text \<open>The constructor leaves the members it does not set as they are in \<open>fresh\<close>.\<close>

definition isp_partitioner :: "Partitioner \<Rightarrow> Partitioner \<Rightarrow> Partitioner" where
  "isp_partitioner fresh p = fresh\<lparr>m_partStack := [partLevel TU_NO_ISP [currArea p]],
     currDepth := currDepth p, currQtDepth := currQtDepth p, currTrDepth := currTrDepth p,
     currBtDepth := currBtDepth p, currMtDepth := currMtDepth p, chType := chType p,
     treeType := treeType p, modeType := modeType p\<rparr>"

definition isp_splitCurrArea :: "PartSplit \<Rightarrow> PartCfg \<Rightarrow> Partitioner \<Rightarrow> Partitioner option" where
  "isp_splitCurrArea split cs p =
    do {
      level \<leftarrow>
        (if split = TU_1D_HORZ_SPLIT \<or> split = TU_1D_VERT_SPLIT then
           map_option (partLevel split) (getTUIntraSubPartitions (currArea p) cs split)
         else if split = TU_MAX_TR_SPLIT then map_option (partLevel split) (getMaxTuTiling (currArea p) cs)
         else None);
      Some (p\<lparr>m_partStack := level # m_partStack p, currDepth := currDepth p + 1, currTrDepth := currTrDepth p + 1\<rparr>)
    }"

definition isp_exitCurrSplit :: "Partitioner \<Rightarrow> Partitioner option" where
  "isp_exitCurrSplit p0 =
    (let currSplit = lv_split (currPartLevel p0); p = p0\<lparr>m_partStack := tl (m_partStack p0)\<rparr> in
     do {
       check (currDepth p = 0);
       let p = p\<lparr>currDepth := currDepth p - 1, currTrDepth := currTrDepth p - 1\<rparr>;
       check (\<not> (currSplit = TU_1D_HORZ_SPLIT \<or> currSplit = TU_1D_VERT_SPLIT \<or> currSplit = TU_MAX_TR_SPLIT));
       Some p
     })"

definition isp_nextPart :: "bool \<Rightarrow> Partitioner \<Rightarrow> (bool \<times> Partitioner) option" where
  "isp_nextPart autoPop p0 =
    (let currIdx = currPartIdx p0 + 1;
         p = upd_back (\<lambda>l. l\<lparr>lv_idx := currIdx, lv_checkdIfImplicit := False, lv_isImplicit := False\<rparr>) p0
     in if currIdx < length (lv_parts (currPartLevel p)) then Some (True, p)
        else if autoPop then map_option (\<lambda>p. (False, p)) (isp_exitCurrSplit p)
        else Some (False, p))"

definition isp_canSplit :: "PartSplit \<Rightarrow> Partitioner \<Rightarrow> bool option" where
  "isp_canSplit split p =
    (let area = blkY (currArea p); whole = blkY (hd (lv_parts (last (m_partStack p)))) in
     if split = TU_1D_HORZ_SPLIT then Some (height area = height whole)
     else if split = TU_1D_VERT_SPLIT then Some (width area = width whole)
     else if split = TU_MAX_TR_SPLIT then Some False
     else None)"

section \<open>Depth range from the neighbours\<close>

definition spsMinQTSize :: "PartCfg \<Rightarrow> ChannelType \<Rightarrow> nat" where
  "spsMinQTSize cs ch = ph_limit (lim_minQT (cs_limits cs)) (cs_sliceType cs) ch"

definition widen_depths :: "nat \<Rightarrow> CodingUnit option \<Rightarrow> nat \<times> nat \<Rightarrow> nat \<times> nat" where
  "widen_depths stdMaxDepth cu d =
    (case cu of
       Some cu \<Rightarrow> (min (fst d) (unat (cu_qtDepth cu)), max (snd d) (unat (cu_qtDepth cu)))
     | None \<Rightarrow> (0, stdMaxDepth))"

definition setMaxMinDepth :: "PartCfg \<Rightarrow> Partitioner \<Rightarrow> nat \<times> nat" where
  "setMaxMinDepth cs p =
    (let stdMaxDepth = nat (u32 (floorLog2 (cs_ctuSize cs) - floorLog2 (spsMinQTSize cs (chType p))));
         blk = chan_block (currArea p) (chType p);
         pos = comp_pos blk;
         cu = (\<lambda>dx dy. getCURestricted cs (fst pos + dx, snd pos + dy) pos (cs_sliceIdx cs)
                (cs_tileIdx cs (lumaPos (currArea p))) (chType p));
         d = widen_depths stdMaxDepth (cu (int (width blk)) (- 1))
              (widen_depths stdMaxDepth (cu 0 (- 1))
                (widen_depths stdMaxDepth (cu (- 1) (int (height blk)))
                  (widen_depths stdMaxDepth (cu (- 1) 0) (stdMaxDepth, 0))))
     in (if 1 \<le> fst d then fst d - 1 else 0, min stdMaxDepth (snd d + 1)))"

lemma widen_depths_range:
  assumes "fst d \<le> snd d \<or> d = (m, 0)" "fst d \<le> m"
  shows "fst (widen_depths m cu d) \<le> snd (widen_depths m cu d)" "fst (widen_depths m cu d) \<le> m"
  using assms by (auto simp: widen_depths_def split: option.splits)

lemma depth_range_aux:
  "fst (setMaxMinDepth cs p) \<le> snd (setMaxMinDepth cs p)"
  "snd (setMaxMinDepth cs p) \<le> nat (u32 (floorLog2 (cs_ctuSize cs) - floorLog2 (spsMinQTSize cs (chType p))))"
  unfolding setMaxMinDepth_def Let_def
  using widen_depths_range by (simp_all add: le_diff_conv le_Suc_eq min_def)

section \<open>Reachable states\<close>

text \<open>The steps of a client: forced-split queries, allowed splits within the capacity of the
  static vector (transform splits on top only), advancing, leaving, and setting the mode. The
  coding units of the structure may change between steps.\<close>

inductive reach :: "PartCfg \<Rightarrow> Partitioner \<Rightarrow> bool" for cs where
  reach_init: "reach cs (initCtu a ch p)"
| reach_query: "reach cs p \<Longrightarrow> currPartIdx p < length (lv_parts (currPartLevel p)) \<Longrightarrow>
    reach cs (snd (getImplicitSplit cs p))"
| reach_split: "reach cs p \<Longrightarrow> currPartIdx p < length (lv_parts (currPartLevel p)) \<Longrightarrow>
    length (m_partStack p) < 15 \<Longrightarrow> is_tu split \<or> \<not> is_tu (lv_split (currPartLevel p)) \<Longrightarrow>
    canSplit split cs p = Some (True, p') \<Longrightarrow> splitCurrArea split cs p' = Some q \<Longrightarrow> reach cs q"
| reach_next: "reach cs p \<Longrightarrow> currPartIdx p < length (lv_parts (currPartLevel p)) \<Longrightarrow>
    nextPart (cs\<lparr>cs_cus := cus\<rparr>) False p = Some (b, q) \<Longrightarrow> reach cs q"
| reach_exit: "reach cs p \<Longrightarrow> 1 < length (m_partStack p) \<Longrightarrow> exitCurrSplit p = Some q \<Longrightarrow> reach cs q"
| reach_mode: "reach cs p \<Longrightarrow> reach cs (p\<lparr>chType := ch, treeType := tt, modeType := mt\<rparr>)"

text \<open>What a level contributes to the counters.\<close>

definition bt_weight :: "PartLevel \<Rightarrow> nat" where
  "bt_weight l = (if is_tt (lv_split l) then (if lv_idx l = 1 then 1 else 2) else if is_btt (lv_split l) then 1 else 0)"

definition subdiv_weight :: "PartLevel \<Rightarrow> nat" where
  "subdiv_weight l = (if lv_split l = CTU_LEVEL then 0 else if lv_split l = CU_QUAD_SPLIT then 2
     else if is_tu (lv_split l) then 1 else bt_weight l)"

fun implicit_count :: "PartLevel list \<Rightarrow> nat" where
  "implicit_count (l # m # ls) = of_bool (is_btt (lv_split l) \<and> lv_isImplicit m) + implicit_count (m # ls)"
| "implicit_count _ = 0"

definition qt_count :: "PartLevel list \<Rightarrow> nat" where
  "qt_count ls = length (filter (\<lambda>l. lv_split l = CU_QUAD_SPLIT) ls)"

definition mt_count :: "PartLevel list \<Rightarrow> nat" where
  "mt_count ls = length (filter (\<lambda>l. is_btt (lv_split l)) ls)"

definition tu_count :: "PartLevel list \<Rightarrow> nat" where
  "tu_count ls = length (takeWhile (\<lambda>l. is_tu (lv_split l)) ls)"

definition counters_ok :: "Partitioner \<Rightarrow> bool" where
  "counters_ok p = (let ls = m_partStack p in
     currDepth p = of_nat (length ls - 1) \<and> currQtDepth p = of_nat (qt_count ls) \<and>
     currMtDepth p = of_nat (mt_count ls) \<and> currTrDepth p = of_nat (tu_count ls) \<and>
     currBtDepth p = of_nat (sum_list (map bt_weight ls)) \<and>
     currSubdiv p = of_nat (sum_list (map subdiv_weight ls)) \<and>
     currImplicitBtDepth p = of_nat (implicit_count ls))"

text \<open>The shape of the stack: the tree level at the bottom, transform levels on top, multi-type
  levels above all quad levels, and every entered level asked for its forced split.\<close>

fun stack_ok :: "PartLevel list \<Rightarrow> bool" where
  "stack_ok [] = False"
| "stack_ok [l] = (lv_split l = CTU_LEVEL)"
| "stack_ok (l # m # ls) = (stack_ok (m # ls) \<and> lv_checkdIfImplicit m \<and>
     (is_tu (lv_split l) \<or> \<not> is_tu (lv_split m) \<and>
        (is_btt (lv_split l) \<or> lv_split l = CU_QUAD_SPLIT \<and> (lv_split m = CTU_LEVEL \<or> lv_split m = CU_QUAD_SPLIT))))"

definition flags_ok :: "PartLevel \<Rightarrow> bool" where
  "flags_ok l = ((is_tt (lv_split l) \<longrightarrow> length (lv_parts l) = 3) \<and>
     (if lv_checkdIfImplicit l then lv_isImplicit l = (lv_implicitSplit l \<noteq> CU_DONT_SPLIT) else \<not> lv_isImplicit l))"

text \<open>The quantisation group: the area of the innermost level that may start one.\<close>

fun qg_ok :: "PartLevel list \<Rightarrow> bool" where
  "qg_ok (l # m # ls) = ((lv_qgEnable l \<longrightarrow> lv_qgEnable m) \<and> (lv_qgChromaEnable l \<longrightarrow> lv_qgChromaEnable m) \<and> qg_ok (m # ls))"
| "qg_ok [l] = (lv_qgEnable l \<and> lv_qgChromaEnable l)"
| "qg_ok [] = True"

definition qg_anchor :: "Partitioner \<Rightarrow> bool" where
  "qg_anchor p = (currPartIdx p < length (lv_parts (currPartLevel p)) \<or> \<not> currQgEnable p \<longrightarrow>
     currQgPos p = lumaPos (level_area (hd (dropWhile (\<lambda>l. \<not> lv_qgEnable l) (m_partStack p)))))"

definition state_ok :: "Partitioner \<Rightarrow> bool" where
  "state_ok p = (counters_ok p \<and> stack_ok (m_partStack p) \<and> (\<forall>l\<in>set (m_partStack p). flags_ok l) \<and>
     length (m_partStack p) \<le> 15 \<and> qg_ok (m_partStack p) \<and> qg_anchor p)"

lemma head_only:
  assumes "lv_split l' = lv_split l"
  shows "implicit_count (l' # ls) = implicit_count (l # ls)" "stack_ok (l' # ls) = stack_ok (l # ls)"
    "qt_count (l' # ls) = qt_count (l # ls)" "mt_count (l' # ls) = mt_count (l # ls)" "tu_count (l' # ls) = tu_count (l # ls)"
  using assms by (cases ls; simp add: qt_count_def mt_count_def tu_count_def)+

lemma head_qg_ok:
  "lv_qgEnable l' = lv_qgEnable l \<Longrightarrow> lv_qgChromaEnable l' = lv_qgChromaEnable l \<Longrightarrow> qg_ok (l' # ls) = qg_ok (l # ls)"
  by (cases ls) simp_all

lemma state_ok_stack:
  assumes "state_ok p"
  obtains l ls where "m_partStack p = l # ls"
  using assms by (cases "m_partStack p") (auto simp: state_ok_def)

lemma state_ok_init: "state_ok (initCtu a ch p)"
  by (simp add: state_ok_def counters_ok_def initCtu_def partLevel_def qt_count_def mt_count_def tu_count_def
      bt_weight_def subdiv_weight_def is_tt_def is_btt_def is_tu_def is_sbt_split_def flags_ok_def qg_anchor_def level_area_def Let_def)

lemma state_ok_query:
  assumes ok: "state_ok p"
  shows "state_ok (snd (getImplicitSplit cs p))"
proof -
  obtain l ls where st: "m_partStack p = l # ls" using state_ok_stack[OF ok] .
  show ?thesis
  proof (cases "lv_checkdIfImplicit l")
    case True
    then show ?thesis using ok by (simp add: getImplicitSplit_def currPartLevel_def st)
  next
    case False
    let ?l = "l\<lparr>lv_checkdIfImplicit := True, lv_isImplicit := (implicit_rule cs p \<noteq> CU_DONT_SPLIT), lv_implicitSplit := implicit_rule cs p\<rparr>"
    have q: "snd (getImplicitSplit cs p) = p\<lparr>m_partStack := ?l # ls\<rparr>"
      using False by (simp add: getImplicitSplit_def currPartLevel_def st upd_back_def Let_def)
    have hd: "lv_split ?l = lv_split l" "lv_qgEnable ?l = lv_qgEnable l" "lv_qgChromaEnable ?l = lv_qgChromaEnable l"
      by simp_all
    have w: "bt_weight ?l = bt_weight l" "subdiv_weight ?l = subdiv_weight l"
      by (simp_all add: bt_weight_def subdiv_weight_def)
    have "level_area (hd (dropWhile (\<lambda>l. \<not> lv_qgEnable l) (?l # ls))) = level_area (hd (dropWhile (\<lambda>l. \<not> lv_qgEnable l) (l # ls)))"
      by (simp add: level_area_def)
    then show ?thesis
      using ok unfolding q state_ok_def counters_ok_def qg_anchor_def
      by (simp add: st Let_def head_only[OF hd(1)] head_qg_ok[OF hd(2,3)] w flags_ok_def currPartIdx_def currPartLevel_def currQgEnable_def)
  qed
qed

lemma implicit_cached:
  "lv_checkdIfImplicit (currPartLevel p) \<Longrightarrow> getImplicitSplit cs p = (lv_implicitSplit (currPartLevel p), p)"
  by (simp add: getImplicitSplit_def)

lemma canSplit_all_state: "snd (canSplit_all cs p) = snd (getImplicitSplit cs p)"
  by (simp add: canSplit_all_def getImplicitSplit_def Let_def split: prod.split)

lemma canSplit_state: "canSplit split cs p = Some (b, p') \<Longrightarrow> p' = snd (getImplicitSplit cs p)"
  using canSplit_all_state[of cs p]
  by (auto simp: canSplit_def Let_def split: prod.splits if_splits)

lemma checked_after_query:
  "m_partStack p \<noteq> [] \<Longrightarrow> lv_checkdIfImplicit (currPartLevel (snd (getImplicitSplit cs p)))"
  by (cases "m_partStack p") (simp_all add: getImplicitSplit_def Let_def upd_back_def currPartLevel_def)

text \<open>A binary or ternary split is allowed under a forced split only if it is that split.\<close>

lemma canSplit_btt_implicit:
  assumes "canSplit split cs p = Some (True, p')" "is_btt split" "m_partStack p \<noteq> []"
  shows "lv_implicitSplit (currPartLevel p') \<noteq> CU_DONT_SPLIT \<longrightarrow> lv_implicitSplit (currPartLevel p') = split"
proof -
  obtain s q where g: "getImplicitSplit cs p = (s, q)" by (cases "getImplicitSplit cs p") simp
  have p': "p' = q" using canSplit_state[OF assms(1)] g by simp
  have "lv_implicitSplit (currPartLevel q) = s"
    using g assms(3) by (cases "m_partStack p")
      (auto simp: getImplicitSplit_def Let_def upd_back_def currPartLevel_def split: if_splits)
  moreover have "s \<noteq> CU_DONT_SPLIT \<longrightarrow> s = split"
    using assms(1,2) g
    by (cases split) (auto simp: canSplit_def canSplit_all_def Let_def is_btt_def is_sbt_split_def implicit_flags_def
        getImplicitSplit_def split: if_splits prod.splits)
  ultimately show ?thesis using p' by simp
qed

lemma new_level_fields:
  assumes "new_level split cs p = Some l"
  shows "lv_split l = split" "lv_idx l = 0" "\<not> lv_checkdIfImplicit l" "\<not> lv_isImplicit l"
    "is_btt split \<or> is_tu split \<or> split = CU_QUAD_SPLIT" "is_tt split \<Longrightarrow> length (lv_parts l) = 3"
proof -
  show "lv_split l = split" "lv_idx l = 0" "\<not> lv_checkdIfImplicit l" "\<not> lv_isImplicit l"
    "is_btt split \<or> is_tu split \<or> split = CU_QUAD_SPLIT"
    using assms by (auto simp: new_level_def partLevel_def is_tu_def split: if_splits)
  show "length (lv_parts l) = 3" if "is_tt split"
    using assms that
    by (auto simp: new_level_def partLevel_def is_tt_def is_btt_def getCUSubPartitions_def split_units_def bind_eq_Some_conv Let_def split: if_splits)
qed

lemma same_canQt: "\<exists>b. l = l\<lparr>lv_canQtSplit := b\<rparr>"
  by (rule exI[of _ "lv_canQtSplit l"]) simp

lemma enter_depths_stack:
  assumes "enter_depths split e b p = Some q" "m_partStack p = l # ls"
  shows "\<exists>b'. m_partStack q = l\<lparr>lv_canQtSplit := b'\<rparr> # ls"
  using assms same_canQt[of l]
  by (auto simp: enter_depths_def Let_def upd_back_def bind_eq_Some_conv split: if_splits)

lemma enter_depths_same:
  assumes "enter_depths split e b p = Some q"
  shows "currQgPos q = currQgPos p" "currQgChromaPos q = currQgChromaPos p" "chType q = chType p"
    "treeType q = treeType p" "modeType q = modeType p"
  using assms by (auto simp: enter_depths_def Let_def upd_back_def bind_eq_Some_conv split: if_splits)

lemma splitCurrArea_shape:
  assumes c: "lv_checkdIfImplicit (currPartLevel p)" and q: "splitCurrArea split cs p = Some q" and st: "m_partStack p = l # ls"
  obtains new e b where "new_level split cs p = Some new"
    "enter_depths split (split = lv_implicitSplit l) e (p\<lparr>m_partStack := new # l # ls\<rparr>) = Some b"
    "q = enter_qg cs (lv_qgEnable l) (lv_qgChromaEnable l) b"
proof -
  obtain e where e: "canSplit CU_QUAD_SPLIT cs p = Some (e, p)"
    using c by (simp add: canSplit_def canSplit_all_def is_sbt_split_def Let_def)
  show thesis
    using q st that unfolding splitCurrArea_def isSplitImplicit_def implicit_cached[OF c]
    by (auto simp: e bind_eq_Some_conv currPartLevel_def currQgEnable_def currQgChromaEnable_def)
qed

lemma enter_qg_fields [simp]:
  "currDepth (enter_qg cs g h b) = currDepth b" "currQtDepth (enter_qg cs g h b) = currQtDepth b"
  "currTrDepth (enter_qg cs g h b) = currTrDepth b" "currBtDepth (enter_qg cs g h b) = currBtDepth b"
  "currMtDepth (enter_qg cs g h b) = currMtDepth b" "currSubdiv (enter_qg cs g h b) = currSubdiv b"
  "currImplicitBtDepth (enter_qg cs g h b) = currImplicitBtDepth b"
  "chType (enter_qg cs g h b) = chType b" "treeType (enter_qg cs g h b) = treeType b" "modeType (enter_qg cs g h b) = modeType b"
  by (simp_all add: enter_qg_def Let_def upd_back_def)

lemma enter_qg_stack:
  "m_partStack b = l # ls \<Longrightarrow> m_partStack (enter_qg cs g h b) =
     l\<lparr>lv_qgEnable := g \<and> currSubdiv b \<le> cs_qpDeltaSubdiv cs, lv_qgChromaEnable := h \<and> currSubdiv b \<le> cs_chromaQpOffsetSubdiv cs\<rparr> # ls"
  by (simp add: enter_qg_def Let_def upd_back_def)

lemma enter_qg_pos:
  "m_partStack b = l # ls \<Longrightarrow> currQgPos (enter_qg cs g h b) =
     (if g \<and> currSubdiv b \<le> cs_qpDeltaSubdiv cs then lumaPos (level_area l) else currQgPos b)"
  by (simp add: enter_qg_def Let_def upd_back_def currArea_def currPartLevel_def level_area_def)

lemmas kind_defs = is_btt_def is_tt_def is_tu_def is_sbt_split_def

lemma stack_ok_kind:
  "stack_ok (l # ls) \<Longrightarrow> lv_split l = CTU_LEVEL \<or> lv_split l = CU_QUAD_SPLIT \<or> is_btt (lv_split l) \<or> is_tu (lv_split l)"
  by (cases ls) auto

lemma of_nat_zero_small: "(of_nat n :: 32 word) = 0 \<Longrightarrow> n \<le> 15 \<Longrightarrow> n = 0"
  by (auto simp: word_of_nat_eq_0_iff dest: dvd_imp_le)

lemma mt_count_le: "mt_count ls \<le> length ls"
  by (simp add: mt_count_def)

lemma not_gt0_word: "\<not> (0 < (w::32 word)) \<longleftrightarrow> w = 0"
  by (simp add: word_gt_0)

lemma enter_values:
  assumes "enter_depths split imp c p = Some b"
  shows "currDepth b = currDepth p + 1"
    "currQtDepth b = (if split = CU_QUAD_SPLIT then currQtDepth p + 1 else currQtDepth p)"
    "currTrDepth b = (if is_tu split then currTrDepth p + 1 else 0)"
    "currBtDepth b = (if is_tt split then currBtDepth p + 2 else if is_btt split then currBtDepth p + 1 else currBtDepth p)"
    "currMtDepth b = (if is_btt split then currMtDepth p + 1 else currMtDepth p)"
    "currSubdiv b = (if split = CU_QUAD_SPLIT \<or> is_tt split then currSubdiv p + 2 else currSubdiv p + 1)"
    "currImplicitBtDepth b = (if is_btt split \<and> imp then currImplicitBtDepth p + 1 else currImplicitBtDepth p)"
proof -
  have tt: "is_tt split \<Longrightarrow> is_btt split" "is_btt CU_QUAD_SPLIT = False" "is_tt CU_QUAD_SPLIT = False"
    by (auto simp: kind_defs)
  show "currDepth b = currDepth p + 1"
    "currQtDepth b = (if split = CU_QUAD_SPLIT then currQtDepth p + 1 else currQtDepth p)"
    "currTrDepth b = (if is_tu split then currTrDepth p + 1 else 0)"
    "currBtDepth b = (if is_tt split then currBtDepth p + 2 else if is_btt split then currBtDepth p + 1 else currBtDepth p)"
    "currMtDepth b = (if is_btt split then currMtDepth p + 1 else currMtDepth p)"
    "currSubdiv b = (if split = CU_QUAD_SPLIT \<or> is_tt split then currSubdiv p + 2 else currSubdiv p + 1)"
    "currImplicitBtDepth b = (if is_btt split \<and> imp then currImplicitBtDepth p + 1 else currImplicitBtDepth p)"
    using assms tt
    by (auto simp: enter_depths_def Let_def upd_back_def bind_eq_Some_conv not_gt0_word split: if_splits)
qed

lemma enter_counters:
  assumes e: "enter_depths split imp c (p\<lparr>m_partStack := new # l # ls\<rparr>) = Some b"
    and ok: "counters_ok p" "m_partStack p = l # ls"
    and kind: "is_btt split \<or> is_tu split \<or> split = CU_QUAD_SPLIT"
    and imp: "is_btt split \<longrightarrow> imp = lv_isImplicit l"
    and bst: "m_partStack b = new' # l # ls" "lv_split new' = split" "lv_idx new' = 0"
  shows "counters_ok b"
proof -
  note v = enter_values[OF e, simplified]
  note c = ok(1)[unfolded counters_ok_def ok(2) Let_def, simplified]
  consider "is_tt split" "is_btt split" "\<not> is_tu split" "split \<noteq> CU_QUAD_SPLIT" "split \<noteq> CTU_LEVEL"
    | "is_btt split" "\<not> is_tt split" "\<not> is_tu split" "split \<noteq> CU_QUAD_SPLIT" "split \<noteq> CTU_LEVEL"
    | "is_tu split" "\<not> is_btt split" "\<not> is_tt split" "split \<noteq> CU_QUAD_SPLIT" "split \<noteq> CTU_LEVEL"
    | "split = CU_QUAD_SPLIT" "\<not> is_btt split" "\<not> is_tt split" "\<not> is_tu split" "split \<noteq> CTU_LEVEL"
    using kind by (auto simp: kind_defs)
  then show ?thesis
    unfolding counters_ok_def bst(1) Let_def v
    by cases (use c imp in \<open>simp_all add: bst qt_count_def mt_count_def tu_count_def bt_weight_def subdiv_weight_def\<close>)
qed

lemma query_stack:
  assumes "m_partStack p = l # ls"
  obtains l' where "m_partStack (snd (getImplicitSplit cs p)) = l' # ls" "lv_split l' = lv_split l" "lv_idx l' = lv_idx l"
    "lv_parts l' = lv_parts l"
  using assms that
  by (cases "lv_checkdIfImplicit l") (simp_all add: getImplicitSplit_def Let_def upd_back_def currPartLevel_def)

lemma enter_quad_checks:
  "enter_depths CU_QUAD_SPLIT imp c p = Some b \<Longrightarrow> currMtDepth p = 0"
  by (simp add: enter_depths_def Let_def kind_defs bind_eq_Some_conv not_gt0_word split: if_splits)

lemma state_ok_split_core:
  assumes ok': "state_ok p'" and st: "m_partStack p' = l # ls0" and chk: "lv_checkdIfImplicit l"
    and idx: "lv_idx l < length (lv_parts l)" and cap: "length (l # ls0) < 15" and tu: "is_tu split \<or> \<not> is_tu (lv_split l)"
    and bti: "is_btt split \<Longrightarrow> lv_implicitSplit l \<noteq> CU_DONT_SPLIT \<Longrightarrow> lv_implicitSplit l = split"
    and q: "splitCurrArea split cs p' = Some q"
  shows "state_ok q"
proof -
  have c: "lv_checkdIfImplicit (currPartLevel p')" using chk by (simp add: currPartLevel_def st)
  obtain new e b where new: "new_level split cs p' = Some new"
    and b: "enter_depths split (split = lv_implicitSplit l) e (p'\<lparr>m_partStack := new # l # ls0\<rparr>) = Some b"
    and q': "q = enter_qg cs (lv_qgEnable l) (lv_qgChromaEnable l) b"
    by (rule splitCurrArea_shape[OF c q st])
  note nf = new_level_fields[OF new]
  have lok: "lv_checkdIfImplicit l" "flags_ok l"
    using c ok' by (simp_all add: currPartLevel_def st state_ok_def)
  have imp: "is_btt split \<longrightarrow> (split = lv_implicitSplit l) = lv_isImplicit l"
  proof
    assume bt: "is_btt split"
    then have "split \<noteq> CU_DONT_SPLIT" by (auto simp: kind_defs)
    moreover have "lv_implicitSplit l \<noteq> CU_DONT_SPLIT \<longrightarrow> lv_implicitSplit l = split"
      using bti[OF bt] by simp
    ultimately show "(split = lv_implicitSplit l) = lv_isImplicit l"
      using lok by (auto simp: flags_ok_def)
  qed
  obtain d where bst: "m_partStack b = new\<lparr>lv_canQtSplit := d\<rparr> # l # ls0"
    using enter_depths_stack[OF b] by auto
  have cb: "counters_ok b"
    using enter_counters[OF b _ st nf(5) imp bst] ok' nf(1,2) by (simp add: state_ok_def)
  define g where "g = (lv_qgEnable l \<and> currSubdiv b \<le> cs_qpDeltaSubdiv cs)"
  define h where "h = (lv_qgChromaEnable l \<and> currSubdiv b \<le> cs_chromaQpOffsetSubdiv cs)"
  let ?n = "new\<lparr>lv_canQtSplit := d, lv_qgEnable := g, lv_qgChromaEnable := h\<rparr>"
  have qst: "m_partStack q = ?n # l # ls0"
    using enter_qg_stack[OF bst] by (simp add: q' g_def h_def)
  have n: "lv_split ?n = split" "bt_weight ?n = bt_weight (new\<lparr>lv_canQtSplit := d\<rparr>)"
    "subdiv_weight ?n = subdiv_weight (new\<lparr>lv_canQtSplit := d\<rparr>)"
    by (simp_all add: nf(1) bt_weight_def subdiv_weight_def)
  have same_n: "lv_split ?n = lv_split (new\<lparr>lv_canQtSplit := d\<rparr>)" by simp
  have vals: "currDepth q = currDepth b" "currQtDepth q = currQtDepth b" "currTrDepth q = currTrDepth b"
    "currBtDepth q = currBtDepth b" "currMtDepth q = currMtDepth b" "currSubdiv q = currSubdiv b"
    "currImplicitBtDepth q = currImplicitBtDepth b"
    by (simp_all add: q')
  have "counters_ok q"
    using cb unfolding counters_ok_def qst bst vals Let_def list.map sum_list.Cons n(2,3)
      head_only[of ?n "new\<lparr>lv_canQtSplit := d\<rparr>" "l # ls0", OF same_n] by simp
  moreover have "stack_ok (m_partStack q)"
  proof -
    have sl: "stack_ok (l # ls0)" using ok' by (simp add: state_ok_def st)
    have nt: "is_tu split \<or> \<not> is_tu (lv_split l)"
      by (rule tu)
    have "split = CU_QUAD_SPLIT \<Longrightarrow> lv_split l = CTU_LEVEL \<or> lv_split l = CU_QUAD_SPLIT"
    proof -
      assume s: "split = CU_QUAD_SPLIT"
      have "currMtDepth p' = 0" using enter_quad_checks b unfolding s by fastforce
      moreover have "currMtDepth p' = of_nat (mt_count (l # ls0))" "mt_count (l # ls0) \<le> 15"
        using ok' mt_count_le[of "l # ls0"] by (simp_all add: state_ok_def counters_ok_def st Let_def)
      ultimately have "mt_count (l # ls0) = 0" using of_nat_zero_small by metis
      then have "\<not> is_btt (lv_split l)" by (simp add: mt_count_def split: if_splits)
      moreover have "\<not> is_tu (lv_split l)" using nt s by (simp add: kind_defs)
      ultimately show ?thesis using stack_ok_kind[OF sl] by blast
    qed
    then show ?thesis
      using sl lok nt nf(5) by (auto simp: qst n)
  qed
  moreover have "\<forall>x\<in>set (m_partStack q). flags_ok x"
    using ok' nf(1,3,4,6) unfolding qst by (auto simp: state_ok_def st flags_ok_def)
  moreover have "length (m_partStack q) \<le> 15"
    using cap qst by simp
  moreover have "qg_ok (m_partStack q)"
    using ok' by (simp add: qst state_ok_def st g_def h_def)
  moreover have "qg_anchor q"
  proof -
    have pos: "currQgPos q = (if g then lumaPos (level_area ?n) else currQgPos p')"
      using enter_qg_pos[OF bst] enter_depths_same(1)[OF b] by (simp add: q' g_def level_area_def)
    have "currPartIdx p' < length (lv_parts (currPartLevel p'))"
      using idx by (simp add: currPartIdx_def currPartLevel_def st)
    then have "currQgPos p' = lumaPos (level_area (hd (dropWhile (\<lambda>l. \<not> lv_qgEnable l) (l # ls0))))"
      using ok' by (simp add: state_ok_def qg_anchor_def st)
    then show ?thesis
      unfolding qg_anchor_def pos by (simp add: qst)
  qed
  ultimately show ?thesis by (simp add: state_ok_def)
qed

lemma state_ok_split:
  assumes ok: "state_ok p" and idx: "currPartIdx p < length (lv_parts (currPartLevel p))"
    and cap: "length (m_partStack p) < 15" and tu: "is_tu split \<or> \<not> is_tu (lv_split (currPartLevel p))"
    and can: "canSplit split cs p = Some (True, p')" and q: "splitCurrArea split cs p' = Some q"
  shows "state_ok q"
proof -
  obtain l0 ls0 where st0: "m_partStack p = l0 # ls0" using state_ok_stack[OF ok] .
  have p': "p' = snd (getImplicitSplit cs p)" by (rule canSplit_state[OF can])
  have ok': "state_ok p'" unfolding p' by (rule state_ok_query[OF ok])
  have c: "lv_checkdIfImplicit (currPartLevel p')" unfolding p' by (rule checked_after_query) (simp add: st0)
  obtain l where st: "m_partStack p' = l # ls0" and same: "lv_split l = lv_split l0" "lv_idx l = lv_idx l0" "lv_parts l = lv_parts l0"
    unfolding p' by (rule query_stack[OF st0, of cs])
  show ?thesis
  proof (rule state_ok_split_core[OF ok' st _ _ _ _ _ q])
    show "lv_checkdIfImplicit l" using c by (simp add: currPartLevel_def st)
    show "lv_idx l < length (lv_parts l)" using idx same by (simp add: currPartIdx_def currPartLevel_def st0)
    show "length (l # ls0) < 15" using cap st0 by simp
    show "is_tu split \<or> \<not> is_tu (lv_split l)" using tu same(1) by (simp add: currPartLevel_def st0)
    show "lv_implicitSplit l = split" if "is_btt split" "lv_implicitSplit l \<noteq> CU_DONT_SPLIT"
      using canSplit_btt_implicit[OF can that(1)] that(2) by (simp add: st0 st currPartLevel_def)
  qed
qed

lemma state_ok_mode: "state_ok p \<Longrightarrow> state_ok (p\<lparr>chType := ch, treeType := tt, modeType := mt\<rparr>)"
  by (simp add: state_ok_def counters_ok_def qg_anchor_def currPartIdx_def currPartLevel_def currQgEnable_def)

lemma place_qg_fields [simp]:
  "m_partStack (place_qg p) = m_partStack p" "currDepth (place_qg p) = currDepth p" "currQtDepth (place_qg p) = currQtDepth p"
  "currTrDepth (place_qg p) = currTrDepth p" "currBtDepth (place_qg p) = currBtDepth p" "currMtDepth (place_qg p) = currMtDepth p"
  "currSubdiv (place_qg p) = currSubdiv p" "currImplicitBtDepth (place_qg p) = currImplicitBtDepth p"
  "currQgPos (place_qg p) = (if currQgEnable p then lumaPos (currArea p) else currQgPos p)"
  "chType (place_qg p) = chType p" "treeType (place_qg p) = treeType p" "modeType (place_qg p) = modeType p"
  by (simp_all add: place_qg_def Let_def)

lemma adapt_tt_fields:
  "m_partStack (adapt_tt_depth i p) = m_partStack p" "currDepth (adapt_tt_depth i p) = currDepth p"
  "currQtDepth (adapt_tt_depth i p) = currQtDepth p" "currTrDepth (adapt_tt_depth i p) = currTrDepth p"
  "currMtDepth (adapt_tt_depth i p) = currMtDepth p" "currImplicitBtDepth (adapt_tt_depth i p) = currImplicitBtDepth p"
  "currQgPos (adapt_tt_depth i p) = currQgPos p" "currQgEnable (adapt_tt_depth i p) = currQgEnable p"
  "currArea (adapt_tt_depth i p) = currArea p"
  "currBtDepth (adapt_tt_depth i p) =
    (if is_tt (lv_split (currPartLevel p)) then (if i = 1 then currBtDepth p - 1 else currBtDepth p + 1) else currBtDepth p)"
  "currSubdiv (adapt_tt_depth i p) =
    (if is_tt (lv_split (currPartLevel p)) then (if i = 1 then currSubdiv p - 1 else currSubdiv p + 1) else currSubdiv p)"
  by (simp_all add: adapt_tt_depth_def currQgEnable_def currArea_def currPartLevel_def)

lemma nextPart_shape:
  assumes "nextPart cs False p = Some (b, q)" "m_partStack p = l # ls"
  obtains f where
    "m_partStack q = l\<lparr>lv_idx := lv_idx l + 1, lv_checkdIfImplicit := False, lv_isImplicit := False, lv_firstSubPartSplit := f\<rparr> # ls"
    "b = (lv_idx l + 1 < length (lv_parts l))"
    "currDepth q = currDepth p" "currQtDepth q = currQtDepth p" "currTrDepth q = currTrDepth p" "currMtDepth q = currMtDepth p"
    "currImplicitBtDepth q = currImplicitBtDepth p"
    "currBtDepth q = (if b \<and> is_tt (lv_split l) then (if lv_idx l = 0 then currBtDepth p - 1 else currBtDepth p + 1) else currBtDepth p)"
    "currSubdiv q = (if b \<and> is_tt (lv_split l) then (if lv_idx l = 0 then currSubdiv p - 1 else currSubdiv p + 1) else currSubdiv p)"
    "currQgPos q = (if b \<and> lv_qgEnable l then lumaPos (level_area (hd (m_partStack q))) else currQgPos p)"
proof -
  obtain f where q: "(let p = p\<lparr>m_partStack := l\<lparr>lv_idx := lv_idx l + 1, lv_checkdIfImplicit := False, lv_isImplicit := False, lv_firstSubPartSplit := f\<rparr> # ls\<rparr>
       in if lv_idx l + 1 < length (lv_parts l) then Some (True, place_qg (adapt_tt_depth (lv_idx l + 1) p)) else Some (False, p)) = Some (b, q)"
    using assms unfolding nextPart_def
    by (auto simp: Let_def bind_eq_Some_conv upd_back_def currPartLevel_def currPartIdx_def cong: if_cong)
  show thesis
  proof (cases "lv_idx l + 1 < length (lv_parts l)")
    case True
    then have e: "b = True"
      "q = place_qg (adapt_tt_depth (lv_idx l + 1) (p\<lparr>m_partStack := l\<lparr>lv_idx := lv_idx l + 1, lv_checkdIfImplicit := False,
         lv_isImplicit := False, lv_firstSubPartSplit := f\<rparr> # ls\<rparr>))"
      using q by (auto simp: Let_def)
    show ?thesis
      by (rule that[of f]) (use True in \<open>simp_all add: e adapt_tt_fields currPartLevel_def currQgEnable_def currArea_def\<close>)
  next
    case False
    then have e: "b = False"
      "q = p\<lparr>m_partStack := l\<lparr>lv_idx := lv_idx l + 1, lv_checkdIfImplicit := False,
         lv_isImplicit := False, lv_firstSubPartSplit := f\<rparr> # ls\<rparr>"
      using q by (auto simp: Let_def)
    show ?thesis
      by (rule that[of f]) (use False in \<open>simp_all add: e\<close>)
  qed
qed

lemma state_ok_next:
  assumes ok: "state_ok p" and idx: "currPartIdx p < length (lv_parts (currPartLevel p))"
    and n: "nextPart cs False p = Some (b, q)"
  shows "state_ok q"
proof -
  obtain l ls where st: "m_partStack p = l # ls" using state_ok_stack[OF ok] .
  obtain f where qst: "m_partStack q = l\<lparr>lv_idx := lv_idx l + 1, lv_checkdIfImplicit := False, lv_isImplicit := False, lv_firstSubPartSplit := f\<rparr> # ls"
    and b: "b = (lv_idx l + 1 < length (lv_parts l))"
    and v: "currDepth q = currDepth p" "currQtDepth q = currQtDepth p" "currTrDepth q = currTrDepth p" "currMtDepth q = currMtDepth p"
    "currImplicitBtDepth q = currImplicitBtDepth p"
    "currBtDepth q = (if b \<and> is_tt (lv_split l) then (if lv_idx l = 0 then currBtDepth p - 1 else currBtDepth p + 1) else currBtDepth p)"
    "currSubdiv q = (if b \<and> is_tt (lv_split l) then (if lv_idx l = 0 then currSubdiv p - 1 else currSubdiv p + 1) else currSubdiv p)"
    and pos: "currQgPos q = (if b \<and> lv_qgEnable l then lumaPos (level_area (hd (m_partStack q))) else currQgPos p)"
    by (rule nextPart_shape[OF n st])
  let ?l = "l\<lparr>lv_idx := lv_idx l + 1, lv_checkdIfImplicit := False, lv_isImplicit := False, lv_firstSubPartSplit := f\<rparr>"
  have same: "lv_split ?l = lv_split l" "lv_qgEnable ?l = lv_qgEnable l" "lv_qgChromaEnable ?l = lv_qgChromaEnable l" by simp_all
  have il: "lv_idx l < length (lv_parts l)" using idx by (simp add: currPartIdx_def currPartLevel_def st)
  have tt3: "is_tt (lv_split l) \<Longrightarrow> length (lv_parts l) = 3"
    using ok by (simp add: state_ok_def st flags_ok_def)
  have tt_kind: "is_tt (lv_split l) \<Longrightarrow> is_btt (lv_split l) \<and> \<not> is_tu (lv_split l) \<and> lv_split l \<noteq> CTU_LEVEL \<and> lv_split l \<noteq> CU_QUAD_SPLIT"
    by (auto simp: kind_defs)
  have bt: "(of_nat (bt_weight ?l) :: 32 word) = of_nat (bt_weight l) + (if b \<and> is_tt (lv_split l) then (if lv_idx l = 0 then - 1 else 1) else 0)"
  proof (cases "is_tt (lv_split l)")
    case True
    then have "lv_idx l \<in> {0, 1, 2}" using il tt3 by auto
    then show ?thesis using True tt3 b by (auto simp: bt_weight_def)
  qed (simp add: bt_weight_def)
  have sub: "(of_nat (subdiv_weight ?l) :: 32 word) = of_nat (subdiv_weight l) + (if b \<and> is_tt (lv_split l) then (if lv_idx l = 0 then - 1 else 1) else 0)"
  proof (cases "is_tt (lv_split l)")
    case True
    then show ?thesis using bt tt_kind by (simp add: subdiv_weight_def)
  next
    case False
    then show ?thesis by (simp add: subdiv_weight_def bt_weight_def)
  qed
  have "counters_ok q"
    using ok unfolding state_ok_def counters_ok_def qst st v Let_def list.map sum_list.Cons head_only[OF same(1)] of_nat_add bt sub
    by (auto simp: algebra_simps)
  moreover have "qg_anchor q"
    using ok il by (auto simp: qg_anchor_def pos qst state_ok_def st b currPartIdx_def currPartLevel_def currQgEnable_def)
  ultimately show ?thesis
    using ok unfolding state_ok_def qst st head_only[OF same(1)] head_qg_ok[OF same(2,3)]
    by (auto simp: flags_ok_def)
qed

lemma bt_weight_le: "sum_list (map bt_weight ls) \<le> 2 * length ls"
  by (induction ls) (auto simp: bt_weight_def)

lemma of_nat_Suc_pos: "n < 2 ^ 31 \<Longrightarrow> \<not> (of_nat (Suc n) :: 32 word) = 0"
proof (rule notI)
  assume "n < 2 ^ 31" "(of_nat (Suc n) :: 32 word) = 0"
  then have "2 ^ 32 dvd Suc n"
    unfolding word_of_nat_eq_0_iff by simp
  then show False using \<open>n < 2 ^ 31\<close> by (auto dest: dvd_imp_le)
qed

lemma leave_values:
  assumes k: "kind = lv_split l" and m: "m_partStack p = m # ls"
    and ok: "stack_ok (l # m # ls)" "length ls \<le> 13"
    and c: "currQtDepth p = of_nat (qt_count (l # m # ls))" "currMtDepth p = of_nat (mt_count (l # m # ls))"
      "currTrDepth p = of_nat (tu_count (l # m # ls))" "currBtDepth p = of_nat (sum_list (map bt_weight (l # m # ls)))"
  shows "leave_depths kind (lv_idx l) p = Some (p\<lparr>
      currQtDepth := of_nat (qt_count (m # ls)), currMtDepth := of_nat (mt_count (m # ls)),
      currTrDepth := of_nat (tu_count (m # ls)), currBtDepth := of_nat (sum_list (map bt_weight (m # ls))),
      currSubdiv := currSubdiv p - of_nat (subdiv_weight l - 1),
      currImplicitBtDepth := currImplicitBtDepth p - of_bool (is_btt (lv_split l) \<and> lv_isImplicit m)\<rparr>)"
proof -
  have bl: "sum_list (map bt_weight (m # ls)) \<le> 28"
    using bt_weight_le[of "m # ls"] ok(2) by simp
  have ml: "mt_count (m # ls) \<le> 14" and ql: "qt_count (m # ls) \<le> 14" and tl: "tu_count (m # ls) \<le> 14"
    unfolding mt_count_def qt_count_def tu_count_def
    by (rule le_trans[OF length_filter_le], use ok(2) in simp, rule le_trans[OF length_filter_le], use ok(2) in simp,
        rule le_trans[OF length_takeWhile_le], use ok(2) in simp)
  consider "is_tt (lv_split l)" "is_btt (lv_split l)" "\<not> is_tu (lv_split l)" "lv_split l \<noteq> CU_QUAD_SPLIT" "lv_split l \<noteq> CTU_LEVEL" "\<not> is_tu (lv_split m)"
    | "is_btt (lv_split l)" "\<not> is_tt (lv_split l)" "\<not> is_tu (lv_split l)" "lv_split l \<noteq> CU_QUAD_SPLIT" "lv_split l \<noteq> CTU_LEVEL" "\<not> is_tu (lv_split m)"
    | "is_tu (lv_split l)" "\<not> is_btt (lv_split l)" "\<not> is_tt (lv_split l)" "lv_split l \<noteq> CU_QUAD_SPLIT" "lv_split l \<noteq> CTU_LEVEL"
    | "lv_split l = CU_QUAD_SPLIT" "\<not> is_btt (lv_split l)" "\<not> is_tt (lv_split l)" "\<not> is_tu (lv_split l)" "\<not> is_tu (lv_split m)"
    using ok(1) by (auto simp: kind_defs)
  then show ?thesis
  proof cases
    case 1
    then show ?thesis
      using ok(1) bl ml of_nat_Suc_pos[of "sum_list (map bt_weight (m # ls))"] of_nat_Suc_pos[of "mt_count (m # ls)"]
        of_nat_Suc_pos[of "sum_list (map bt_weight (m # ls)) + 1"]
      by (simp add: leave_depths_def k currPartLevel_def m c Let_def qt_count_def mt_count_def tu_count_def bt_weight_def
          subdiv_weight_def algebra_simps cong: if_cong)
  next
    case 2
    then show ?thesis
      using ok(1) bl ml of_nat_Suc_pos[of "sum_list (map bt_weight (m # ls))"] of_nat_Suc_pos[of "mt_count (m # ls)"]
      by (simp add: leave_depths_def k currPartLevel_def m c Let_def qt_count_def mt_count_def tu_count_def bt_weight_def
          subdiv_weight_def algebra_simps cong: if_cong)
  next
    case 3
    then show ?thesis
      using tl of_nat_Suc_pos[of "tu_count (m # ls)"]
      by (simp add: leave_depths_def k m c Let_def qt_count_def mt_count_def tu_count_def bt_weight_def subdiv_weight_def)
  next
    case 4
    then show ?thesis
      using ql of_nat_Suc_pos[of "qt_count (m # ls)"]
      by (simp add: leave_depths_def k m c Let_def qt_count_def mt_count_def tu_count_def bt_weight_def subdiv_weight_def kind_defs)
  qed
qed

lemma leave_depths_same:
  assumes "leave_depths k i p = Some q"
  shows "m_partStack q = m_partStack p" "currDepth q = currDepth p" "currQgPos q = currQgPos p"
    "chType q = chType p" "treeType q = treeType p" "modeType q = modeType p"
  using assms by (auto simp: leave_depths_def Let_def bind_eq_Some_conv split: if_splits)

text \<open>The state \<open>exitCurrSplit\<close> gives to the counters: the level left and the positions restored.\<close>

definition pop_level :: "Partitioner \<Rightarrow> Partitioner" where
  "pop_level p0 =
    (let p = p0\<lparr>m_partStack := tl (m_partStack p0), currDepth := currDepth p0 - 1, currSubdiv := currSubdiv p0 - 1\<rparr>;
         p = (if currQgEnable p then p\<lparr>currQgPos := lumaPos (currArea p)\<rparr> else p)
     in if isChromaEnabled (unit_format (currArea p)) \<and> currQgChromaEnable p
        then p\<lparr>currQgChromaPos := chromaPos (currArea p)\<rparr> else p)"

lemma exitCurrSplit_pop:
  "currDepth p \<noteq> 0 \<Longrightarrow> exitCurrSplit p = leave_depths (lv_split (currPartLevel p)) (currPartIdx p) (pop_level p)"
  by (simp add: exitCurrSplit_def pop_level_def Let_def)

lemma pop_level_fields [simp]:
  "m_partStack (pop_level p) = tl (m_partStack p)" "currDepth (pop_level p) = currDepth p - 1"
  "currSubdiv (pop_level p) = currSubdiv p - 1" "currQtDepth (pop_level p) = currQtDepth p"
  "currTrDepth (pop_level p) = currTrDepth p" "currBtDepth (pop_level p) = currBtDepth p"
  "currMtDepth (pop_level p) = currMtDepth p" "currImplicitBtDepth (pop_level p) = currImplicitBtDepth p"
  "chType (pop_level p) = chType p" "treeType (pop_level p) = treeType p" "modeType (pop_level p) = modeType p"
  by (simp_all add: pop_level_def Let_def)

lemma pop_level_qg:
  "m_partStack p = l # m # ls \<Longrightarrow> currQgPos (pop_level p) = (if lv_qgEnable m then lumaPos (level_area m) else currQgPos p)"
  by (simp add: pop_level_def Let_def currQgEnable_def currArea_def currPartLevel_def)

lemma subdiv_weight_pos:
  "lv_split l = CU_QUAD_SPLIT \<or> is_btt (lv_split l) \<or> is_tu (lv_split l) \<Longrightarrow> 0 < subdiv_weight l"
  by (auto simp: subdiv_weight_def bt_weight_def kind_defs)

lemma exit_state:
  assumes ok: "state_ok p" and len: "1 < length (m_partStack p)"
  obtains q where "exitCurrSplit p = Some q" "state_ok q" "m_partStack q = tl (m_partStack p)"
    "chType q = chType p" "treeType q = treeType p" "modeType q = modeType p"
proof -
  obtain l m ls where st: "m_partStack p = l # m # ls"
    using len by (cases "m_partStack p"; cases "tl (m_partStack p)") auto
  have so: "stack_ok (l # m # ls)" and ll: "length ls \<le> 13" and c: "counters_ok p"
    using ok by (simp_all add: state_ok_def st)
  note cs = c[unfolded counters_ok_def st Let_def]
  have dep: "currDepth p \<noteq> 0"
    using cs ll of_nat_Suc_pos[of "length ls"] by simp
  have k: "lv_split l = CU_QUAD_SPLIT \<or> is_btt (lv_split l) \<or> is_tu (lv_split l)"
    using so by auto
  have lv: "leave_depths (lv_split l) (lv_idx l) (pop_level p) = Some ((pop_level p)\<lparr>
      currQtDepth := of_nat (qt_count (m # ls)), currMtDepth := of_nat (mt_count (m # ls)),
      currTrDepth := of_nat (tu_count (m # ls)), currBtDepth := of_nat (sum_list (map bt_weight (m # ls))),
      currSubdiv := currSubdiv (pop_level p) - of_nat (subdiv_weight l - 1),
      currImplicitBtDepth := currImplicitBtDepth (pop_level p) - of_bool (is_btt (lv_split l) \<and> lv_isImplicit m)\<rparr>)"
    by (rule leave_values[OF refl _ so ll]) (use cs in \<open>simp_all add: st\<close>)
  define q where "q = (pop_level p)\<lparr>
      currQtDepth := of_nat (qt_count (m # ls)), currMtDepth := of_nat (mt_count (m # ls)),
      currTrDepth := of_nat (tu_count (m # ls)), currBtDepth := of_nat (sum_list (map bt_weight (m # ls))),
      currSubdiv := currSubdiv (pop_level p) - of_nat (subdiv_weight l - 1),
      currImplicitBtDepth := currImplicitBtDepth (pop_level p) - of_bool (is_btt (lv_split l) \<and> lv_isImplicit m)\<rparr>"
  have e: "exitCurrSplit p = Some q"
    using lv by (simp add: exitCurrSplit_pop[OF dep] currPartLevel_def currPartIdx_def st q_def)
  have sub: "currSubdiv q = of_nat (sum_list (map subdiv_weight (m # ls)))"
    using cs subdiv_weight_pos[OF k] by (cases "subdiv_weight l") (simp_all add: q_def algebra_simps)
  have qst: "m_partStack q = m # ls" by (simp add: q_def st)
  have "counters_ok q"
    unfolding counters_ok_def qst Let_def sub using cs by (simp add: q_def)
  moreover have "qg_anchor q"
    using ok pop_level_qg[OF st]
    by (auto simp: qg_anchor_def qst q_def state_ok_def st currPartIdx_def currPartLevel_def currQgEnable_def)
  ultimately have "state_ok q"
    using ok so by (simp add: state_ok_def qst st)
  then show thesis
    using that[OF e] by (simp add: q_def)
qed

lemma reach_state_ok: "reach cs p \<Longrightarrow> state_ok p"
proof (induction rule: reach.induct)
  case (reach_init a ch p)
  show ?case by (rule state_ok_init)
next
  case (reach_query p)
  show ?case by (rule state_ok_query) fact
next
  case (reach_split p split p' q)
  show ?case by (rule state_ok_split) fact+
next
  case (reach_next p cus b q)
  show ?case by (rule state_ok_next) fact+
next
  case (reach_exit p q)
  obtain q' where "exitCurrSplit p = Some q'" "state_ok q'"
    by (rule exit_state[OF reach_exit.IH reach_exit.hyps(2)])
  then show ?case using reach_exit.hyps(3) by simp
next
  case (reach_mode p ch tt mt)
  show ?case by (rule state_ok_mode) fact
qed

lemma walk_split_state:
  assumes "lv_checkdIfImplicit (currPartLevel p)" "splitCurrArea split cs p = Some q" "m_partStack p = l # ls"
  shows "chType q = chType p" "treeType q = treeType p" "modeType q = modeType p" "\<exists>n. m_partStack q = n # l # ls \<and> lv_idx n = 0"
proof -
  obtain new e b where new: "new_level split cs p = Some new"
    and b: "enter_depths split (split = lv_implicitSplit l) e (p\<lparr>m_partStack := new # l # ls\<rparr>) = Some b"
    and q: "q = enter_qg cs (lv_qgEnable l) (lv_qgChromaEnable l) b"
    by (rule splitCurrArea_shape[OF assms])
  obtain d where d: "m_partStack b = new\<lparr>lv_canQtSplit := d\<rparr> # l # ls"
    using enter_depths_stack[OF b] by auto
  show "chType q = chType p" "treeType q = treeType p" "modeType q = modeType p"
    using enter_depths_same[OF b] by (simp_all add: q)
  show "\<exists>n. m_partStack q = n # l # ls \<and> lv_idx n = 0"
    using enter_qg_stack[OF d] new_level_fields(2)[OF new] by (simp add: q)
qed

section \<open>Walking the parts of a split\<close>

fun walk_parts :: "PartCfg \<Rightarrow> nat \<Rightarrow> Partitioner \<Rightarrow> Partitioner option" where
  "walk_parts cs 0 p = Some p"
| "walk_parts cs (Suc n) p = do { (b, q) \<leftarrow> nextPart cs False p; walk_parts cs n q }"

lemma nextPart_same:
  assumes "nextPart cs False p = Some (b, q)"
  shows "chType q = chType p" "treeType q = treeType p" "modeType q = modeType p"
  using assms by (auto simp: nextPart_def Let_def bind_eq_Some_conv upd_back_def adapt_tt_depth_def split: if_splits)

lemma walk_parts_state:
  assumes "walk_parts cs n p = Some r" "state_ok p" "m_partStack p = l # ls" "lv_idx l + n \<le> length (lv_parts l)"
  shows "state_ok r \<and> chType r = chType p \<and> treeType r = treeType p \<and> modeType r = modeType p \<and>
    (\<exists>l'. m_partStack r = l' # ls)"
  using assms
proof (induction n arbitrary: p l)
  case (Suc n)
  obtain b q where n: "nextPart cs False p = Some (b, q)" and w: "walk_parts cs n q = Some r"
    using Suc.prems(1) by (auto simp: bind_eq_Some_conv)
  have q: "state_ok q"
    by (rule state_ok_next[OF Suc.prems(2) _ n]) (use Suc.prems(3,4) in \<open>simp add: currPartIdx_def currPartLevel_def\<close>)
  obtain l' where l': "m_partStack q = l' # ls" "lv_idx l' = lv_idx l + 1" "lv_parts l' = lv_parts l"
    by (rule nextPart_shape[OF n Suc.prems(3)]) (rule that, assumption, simp_all)
  show ?case
    using Suc.IH[OF w q l'(1)] l' Suc.prems(4) nextPart_same[OF n] by simp
qed simp

lemma same_stack_same_state:
  assumes "state_ok p" "state_ok q" "m_partStack q = m_partStack p"
    and "chType q = chType p" "treeType q = treeType p" "modeType q = modeType p"
    and "currPartIdx p < length (lv_parts (currPartLevel p))"
  shows "q = p\<lparr>currQgChromaPos := currQgChromaPos q\<rparr>"
proof -
  have "currQgPos q = currQgPos p"
    using assms by (simp add: state_ok_def qg_anchor_def currPartIdx_def currPartLevel_def)
  then show ?thesis
    using assms by (cases p; cases q) (simp add: state_ok_def counters_ok_def Let_def)
qed

lemma split_exit_aux:
  assumes r: "reach cs p" and idx: "currPartIdx p < length (lv_parts (currPartLevel p))"
    and cap: "length (m_partStack p) < 15" and tu: "is_tu split \<or> \<not> is_tu (lv_split (currPartLevel p))"
    and can: "canSplit split cs p = Some (True, p')" and q: "splitCurrArea split cs p' = Some q"
    and w: "walk_parts (cs\<lparr>cs_cus := cus\<rparr>) n q = Some r'" and n: "n \<le> length (lv_parts (currPartLevel q))"
  shows "\<exists>s. exitCurrSplit r' = Some s \<and> s = p'\<lparr>currQgChromaPos := currQgChromaPos s\<rparr>"
proof -
  have ok: "state_ok p" by (rule reach_state_ok[OF r])
  obtain l0 ls where st0: "m_partStack p = l0 # ls" using state_ok_stack[OF ok] .
  have p': "p' = snd (getImplicitSplit cs p)" by (rule canSplit_state[OF can])
  have ok': "state_ok p'" unfolding p' by (rule state_ok_query[OF ok])
  have c: "lv_checkdIfImplicit (currPartLevel p')" unfolding p' by (rule checked_after_query) (simp add: st0)
  obtain l where l: "m_partStack p' = l # ls" "lv_idx l = lv_idx l0" "lv_parts l = lv_parts l0"
    unfolding p' by (rule query_stack[OF st0, of cs])
  have okq: "state_ok q" by (rule state_ok_split[OF ok idx cap tu can q])
  note sq = walk_split_state[OF c q l(1)]
  obtain nl where nl: "m_partStack q = nl # l # ls" "lv_idx nl = 0" using sq(4) by blast
  obtain l' where r': "state_ok r'" "chType r' = chType q" "treeType r' = treeType q" "modeType r' = modeType q"
    "m_partStack r' = l' # l # ls"
    using walk_parts_state[OF w okq nl(1)] n nl by (auto simp: currPartLevel_def)
  obtain s where s: "exitCurrSplit r' = Some s" "state_ok s" "m_partStack s = l # ls"
    "chType s = chType r'" "treeType s = treeType r'" "modeType s = modeType r'"
    using exit_state[OF r'(1)] r'(5) by (metis One_nat_def Suc_less_eq length_Cons list.sel(3) zero_less_Suc)
  have "s = p'\<lparr>currQgChromaPos := currQgChromaPos s\<rparr>"
    by (rule same_stack_same_state[OF ok' s(2)])
       (use s r' sq l idx st0 in \<open>simp_all add: currPartIdx_def currPartLevel_def\<close>)
  then show ?thesis using s(1) by blast
qed

section \<open>Properties\<close>

definition blank_partitioner :: Partitioner where
  "blank_partitioner = \<lparr>m_partStack = [], currDepth = 0, currQtDepth = 0, currTrDepth = 0, currBtDepth = 0, currMtDepth = 0,
     currSubdiv = 0, currQgPos = (0, 0), currQgChromaPos = (0, 0), currImplicitBtDepth = 0, chType = LUMA,
     treeType = TREE_D, modeType = MODE_TYPE_ALL\<rparr>"

definition sample_ctu :: Partitioner where
  "sample_ctu = initCtu (unit_of_luma CF_420 0 0 64 64) LUMA blank_partitioner"

definition sample_split :: "PartSplit \<Rightarrow> Partitioner \<Rightarrow> Partitioner option" where
  "sample_split split p =
    do {
      (b, q) \<leftarrow> canSplit split sample_part_cfg p;
      check (\<not> b);
      splitCurrArea split sample_part_cfg q
    }"

definition sample_query :: Partitioner where
  "sample_query = snd (the (canSplit CU_QUAD_SPLIT sample_part_cfg sample_ctu))"

definition sample_quad :: Partitioner where
  "sample_quad = the (splitCurrArea CU_QUAD_SPLIT sample_part_cfg sample_query)"

lemma sample_steps:
  "canSplit CU_QUAD_SPLIT sample_part_cfg sample_ctu = Some (True, sample_query)"
  "splitCurrArea CU_QUAD_SPLIT sample_part_cfg sample_query = Some sample_quad"
  "walk_parts sample_part_cfg 3 sample_quad \<noteq> None"
  "lumaPos (currArea (the (walk_parts sample_part_cfg 3 sample_quad))) = (32, 32)"
  "length (lv_parts (currPartLevel sample_quad)) = 4"
  "currPartIdx sample_ctu = 0" "length (lv_parts (currPartLevel sample_ctu)) = 1" "length (m_partStack sample_ctu) = 1"
  "is_tu (lv_split (currPartLevel sample_ctu)) = False"
  by code_simp+

lemma sample_cus: "sample_part_cfg\<lparr>cs_cus := []\<rparr> = sample_part_cfg"
  by (simp add: sample_part_cfg_def)

lemma sample_ctu_reach: "reach sample_part_cfg sample_ctu"
  unfolding sample_ctu_def by (rule reach_init)

lemma sample_quad_reach: "reach sample_part_cfg sample_quad"
  by (rule reach_split[OF sample_ctu_reach _ _ _ sample_steps(1,2)]) (simp_all add: sample_steps)

text \<open>
  C11: In every state a client of the partitioner can reach, the depth counters are the ones the
  stack of splits determines (the ternary level counting for its current part), the stack has the
  tree level at its bottom, quad levels below multi-type levels below transform levels, and the
  quantisation group position is that of the innermost level that may start a group.
\<close>

theorem partitioner_invariant:
  assumes "reach cs p"
  shows "counters_ok p \<and> stack_ok (m_partStack p) \<and> qg_ok (m_partStack p) \<and> qg_anchor p"
  using reach_state_ok[OF assms] by (simp add: state_ok_def)

theorem partitioner_invariant_witness: "counters_ok sample_quad \<and> currSubdiv sample_quad = 2"
proof -
  have "currSubdiv sample_quad = 2" by code_simp
  then show ?thesis using partitioner_invariant[OF sample_quad_reach] by simp
qed



end
