(* ===== verification/SplitSeries.thy ===== *)
theory SplitSeries
  imports Partitioner
begin

text \<open>
  The split and mode series of a coding unit: \<open>setCUData\<close> packs the decisions of the stack, five
  bits a split and three bits a mode, and \<open>getSplitAtDepth\<close> and \<open>getModeTypeAtDepth\<close> read them
  back at every depth.
\<close>

primrec digits_val :: "nat \<Rightarrow> nat list \<Rightarrow> nat" where
  "digits_val b [] = 0"
| "digits_val b (c # cs) = c + b * digits_val b cs"

lemma digits_val_less: "\<forall>c\<in>set cs. c < b \<Longrightarrow> digits_val b cs < b ^ length cs"
proof (induction cs)
  case (Cons c cs)
  then have "digits_val b cs + 1 \<le> b ^ length cs" "c < b" by auto
  then have "c + b * digits_val b cs < b * (digits_val b cs + 1)" by simp
  also have "\<dots> \<le> b * b ^ length cs"
    by (rule mult_le_mono2) fact
  finally show ?case by simp
qed simp

lemma digits_val_nth:
  "\<forall>c\<in>set cs. c < b \<Longrightarrow> d < length cs \<Longrightarrow> digits_val b cs div b ^ d mod b = cs ! d"
proof (induction cs arbitrary: d)
  case (Cons c cs)
  then show ?case
    by (cases d) (simp_all add: div_mult2_eq)
qed simp

definition cu_levels :: "PartLevel list \<Rightarrow> PartLevel list" where
  "cu_levels ls = filter (\<lambda>l. lv_split l \<noteq> CTU_LEVEL) ls"

lemma push_of_nat: "push_bit k (of_nat c :: 64 word) = of_nat (c * 2 ^ k)"
  by (simp add: push_bit_eq_mult mult.commute)

lemma split_series_val:
  "split_series ls depth acc = acc + of_nat (2 ^ (depth * 5) * digits_val 32 (map (split_code \<circ> lv_split) (cu_levels ls)))"
proof (induction ls arbitrary: depth acc)
  case (Cons l ls)
  show ?case
  proof (cases "lv_split l = CTU_LEVEL")
    case True
    then show ?thesis using Cons by (simp add: cu_levels_def)
  next
    case False
    then show ?thesis
      using Cons by (simp add: cu_levels_def push_of_nat power_add algebra_simps)
  qed
qed (simp add: cu_levels_def)

lemma mode_series_val:
  "depth + length (cu_levels ls) \<le> 10 \<Longrightarrow>
   mode_series ls depth acc = acc + of_nat (2 ^ (depth * 3) * digits_val 8 (map (mode_code \<circ> lv_modeType) (cu_levels ls)))"
proof (induction ls arbitrary: depth acc)
  case (Cons l ls)
  show ?case
  proof (cases "lv_split l = CTU_LEVEL")
    case True
    then show ?thesis using Cons by (simp add: cu_levels_def)
  next
    case False
    then have d: "depth \<le> 9" and rec: "Suc depth + length (cu_levels ls) \<le> 10"
      using Cons.prems by (simp_all add: cu_levels_def)
    have "mode_code (lv_modeType l) \<le> 2" by (cases "lv_modeType l") simp_all
    moreover have "(2::nat) ^ (depth * 3) \<le> 2 ^ 27" by (rule power_increasing) (use d in simp_all)
    ultimately have "mode_code (lv_modeType l) * 2 ^ (depth * 3) \<le> 2 * 2 ^ 27"
      by (rule mult_le_mono)
    then have "int (mode_code (lv_modeType l) * 2 ^ (depth * 3)) \<le> int 268435456"
      unfolding of_nat_le_iff by simp
    then have "i32 (int (mode_code (lv_modeType l) * 2 ^ (depth * 3))) = int (mode_code (lv_modeType l) * 2 ^ (depth * 3))"
      by (intro i32_id) (simp_all del: of_nat_mult of_nat_power)
    then show ?thesis
      using Cons.IH[OF rec] False by (simp add: cu_levels_def power_add algebra_simps)
  qed
qed (simp add: cu_levels_def)

lemma word_digit:
  assumes cs: "\<forall>c\<in>set cs. c < 2 ^ k" and d: "d < length cs" and len: "k * length cs \<le> 60"
  shows "drop_bit (d * k) (of_nat (digits_val (2 ^ k) cs) :: 64 word) AND (2 ^ k - 1) = of_nat (cs ! d)"
proof -
  let ?v = "digits_val (2 ^ k) cs"
  have "?v < (2 ^ k) ^ length cs" by (rule digits_val_less[OF cs])
  also have "\<dots> \<le> 2 ^ 60"
    unfolding power_mult[symmetric] by (rule power_increasing) (use len in simp_all)
  finally have v: "?v < 2 ^ 60" .
  have "drop_bit (d * k) (of_nat ?v :: 64 word) AND (2 ^ k - 1) = of_nat (?v div 2 ^ (d * k) mod 2 ^ k)"
  proof (rule word_unat_eq_iff[THEN iffD2])
    have k: "k \<le> 60" using len d by (cases "length cs") auto
    have "unat (of_nat ?v :: 64 word) = ?v" using v by (simp add: unat_of_nat)
    moreover have "?v div 2 ^ (d * k) mod 2 ^ k \<le> ?v"
      by (rule le_trans[OF mod_less_eq_dividend div_le_dividend])
    then have "?v div 2 ^ (d * k) mod 2 ^ k < 2 ^ 64"
      using v by simp
    ultimately show "unat (drop_bit (d * k) (of_nat ?v :: 64 word) AND (2 ^ k - 1)) = unat (of_nat (?v div 2 ^ (d * k) mod 2 ^ k) :: 64 word)"
      unfolding mask_eq_exp_minus_1[symmetric] take_bit_eq_mask[symmetric]
      by (simp add: unsigned_take_bit_eq unsigned_drop_bit_eq unat_of_nat) (simp add: take_bit_eq_mod drop_bit_eq_div)
  qed
  also have "?v div 2 ^ (d * k) = ?v div (2 ^ k) ^ d"
    by (simp add: power_mult[symmetric] mult.commute)
  finally show ?thesis
    using digits_val_nth[OF cs d] by simp
qed

section \<open>Reading the decisions back\<close>

lemma cu_levels_stack:
  assumes "stack_ok ls"
  shows "cu_levels (rev ls) = tl (rev ls)" "length (tl (rev ls)) = length ls - 1"
proof -
  have "ls \<noteq> [] \<and> lv_split (last ls) = CTU_LEVEL \<and> (\<forall>l\<in>set (butlast ls). lv_split l \<noteq> CTU_LEVEL)"
    using assms by (induction ls rule: stack_ok.induct) (auto simp: kind_defs)
  then obtain bs l where "ls = bs @ [l]" "lv_split l = CTU_LEVEL" "\<forall>l\<in>set bs. lv_split l \<noteq> CTU_LEVEL"
    by (metis append_butlast_last_id)
  then show "cu_levels (rev ls) = tl (rev ls)" "length (tl (rev ls)) = length ls - 1"
    by (simp_all add: cu_levels_def filter_id_conv)
qed

definition cu_split :: "PartSplit \<Rightarrow> bool" where
  "cu_split s = (s = CU_QUAD_SPLIT \<or> is_btt s)"

lemma get_split_code:
  "cu_split s \<Longrightarrow> (let t = (of_nat (split_code s) :: 64 word) in
       if t = 1 then Some CU_QUAD_SPLIT else if t = 2 then Some CU_HORZ_SPLIT else if t = 3 then Some CU_VERT_SPLIT
       else if t = 4 then Some CU_TRIH_SPLIT else if t = 5 then Some CU_TRIV_SPLIT else None) = Some s"
  by (auto simp: cu_split_def is_btt_def)

lemma get_mode_code:
  "(let t = (of_nat (mode_code s) :: 64 word) in
     if t = 0 then Some MODE_TYPE_ALL else if t = 1 then Some MODE_TYPE_INTER else if t = 2 then Some MODE_TYPE_INTRA else None) = Some s"
  by (cases s) simp_all

lemma series_shift:
  "n \<le> 10 \<Longrightarrow> d < n \<Longrightarrow> m \<le> 5 \<Longrightarrow> unat (of_nat d * of_nat m :: 32 word) = d * m"
proof -
  assume "n \<le> 10" "d < n" "m \<le> 5"
  then have "d * m \<le> 10 * 5" by (intro mult_le_mono) simp_all
  then have "unat (of_nat (d * m) :: 32 word) = d * m" by (simp only: unat_of_nat) simp
  then show ?thesis by simp
qed

lemma split_code_read:
  assumes ls: "\<forall>l\<in>set ls. cu_split (lv_split l)" and d: "d < length ls" "length ls \<le> 10"
  shows "drop_bit (d * 5) (of_nat (digits_val 32 (map (split_code \<circ> lv_split) ls)) :: 64 word) AND 31 = of_nat (split_code (lv_split (ls ! d)))"
proof -
  have c: "\<forall>c\<in>set (map (split_code \<circ> lv_split) ls). c < 2 ^ 5"
    using ls by (auto simp: cu_split_def is_btt_def)
  show ?thesis
    using word_digit[OF c, of d] d by simp
qed

lemma mode_code_read:
  assumes d: "d < length ls" "length ls \<le> 10"
  shows "drop_bit (d * 3) (of_nat (digits_val 8 (map (mode_code \<circ> lv_modeType) ls)) :: 64 word) AND 7 = of_nat (mode_code (lv_modeType (ls ! d)))"
proof -
  have "mode_code m < 2 ^ 3" for m by (cases m) simp_all
  then have c: "\<forall>c\<in>set (map (mode_code \<circ> lv_modeType) ls). c < 2 ^ 3"
    by simp
  show ?thesis
    using word_digit[OF c, of d] d by simp
qed

lemma word_depth_less:
  "d < n \<Longrightarrow> n \<le> 10 \<Longrightarrow> \<not> (of_nat n :: 32 word) \<le> of_nat d \<and> \<not> (of_nat n :: 32 word) < of_nat d"
  by (simp add: word_le_nat_alt word_less_nat_alt unat_of_nat)

lemma split_series_read:
  assumes "state_ok p" and cus: "\<forall>l\<in>set (butlast (m_partStack p)). cu_split (lv_split l)"
    and len: "length (m_partStack p) \<le> 11"
  shows "(\<forall>d<length (m_partStack p) - 1.
      getSplitAtDepth (setCUData p cu) (of_nat d) = Some (lv_split (rev (m_partStack p) ! Suc d)) \<and>
      getModeTypeAtDepth (setCUData p cu) (of_nat d) = Some (lv_modeType (rev (m_partStack p) ! Suc d))) \<and>
    getSplitAtDepth (setCUData p cu) (currDepth p) = Some CU_DONT_SPLIT"
proof -
  let ?ls = "tl (rev (m_partStack p))" and ?n = "length (m_partStack p) - 1"
  note ok = assms(1)
  note lv = cu_levels_stack[of "m_partStack p"]
  have so: "stack_ok (m_partStack p)" and dep: "currDepth p = of_nat ?n"
    using ok by (simp_all add: state_ok_def counters_ok_def Let_def)
  have sp: "\<forall>l\<in>set ?ls. cu_split (lv_split l)"
    using cus by (cases "m_partStack p" rule: rev_cases) simp_all
  have ln: "length ?ls = ?n" "?n \<le> 10" using lv(2)[OF so] len by simp_all
  have ss: "getSplitSeries p = of_nat (digits_val 32 (map (split_code \<circ> lv_split) ?ls))"
    by (simp add: getSplitSeries_def split_series_val lv(1)[OF so])
  have ms: "getModeTypeSeries p = of_nat (digits_val 8 (map (mode_code \<circ> lv_modeType) ?ls))"
    using ln by (simp add: getModeTypeSeries_def mode_series_val lv(1)[OF so])
  have dep8: "(ucast (ucast (currDepth p) :: 8 word) :: 32 word) = of_nat ?n"
  proof -
    have "unat (of_nat ?n :: 32 word) = ?n" using ln(2) by (simp add: unat_of_nat)
    then show ?thesis
      unfolding dep word_unat_eq_iff using ln(2) by (simp add: unsigned_ucast_eq unsigned_take_bit_eq take_bit_eq_mod unat_mod unat_of_nat)
  qed
  have nth: "rev (m_partStack p) ! Suc d = ?ls ! d" if "d < ?n" for d
    using that so by (simp add: nth_tl)
  have lt: "\<not> (of_nat ?n :: 32 word) \<le> of_nat d" "\<not> (of_nat ?n :: 32 word) < of_nat d" if "d < ?n" for d
    using word_depth_less[OF that ln(2)] by simp_all
  have inner: "\<forall>d<?n. getSplitAtDepth (setCUData p cu) (of_nat d) = Some (lv_split (rev (m_partStack p) ! Suc d)) \<and>
      getModeTypeAtDepth (setCUData p cu) (of_nat d) = Some (lv_modeType (rev (m_partStack p) ! Suc d))"
  proof (intro allI impI conjI)
    fix d assume d: "d < ?n"
    have sd: "cu_split (lv_split (?ls ! d))" using sp d ln by simp
    have sh: "unat (of_nat d * 5 :: 32 word) = d * 5" "unat (of_nat d * 3 :: 32 word) = d * 3"
      using series_shift[OF ln(2) d, of 5] series_shift[OF ln(2) d, of 3] by simp_all
    show "getSplitAtDepth (setCUData p cu) (of_nat d) = Some (lv_split (rev (m_partStack p) ! Suc d))"
      using get_split_code[OF sd] split_code_read[OF sp] d ln lt[OF d]
      by (simp add: getSplitAtDepth_def setCUData_def dep8 ss sh nth Let_def)
    show "getModeTypeAtDepth (setCUData p cu) (of_nat d) = Some (lv_modeType (rev (m_partStack p) ! Suc d))"
      using get_mode_code[of "lv_modeType (?ls ! d)"] mode_code_read[of d ?ls] d ln lt[OF d]
      by (simp add: getModeTypeAtDepth_def setCUData_def dep8 ms sh nth Let_def)
  qed
  moreover have "getSplitAtDepth (setCUData p cu) (currDepth p) = Some CU_DONT_SPLIT"
    using dep8 dep by (simp add: getSplitAtDepth_def setCUData_def)
  ultimately show ?thesis by blast
qed

text \<open>Every depth of a unit reads back.\<close>

lemma split_series_total:
  assumes ok: "state_ok p" and cus: "\<forall>l\<in>set (butlast (m_partStack p)). cu_split (lv_split l)" and len: "length (m_partStack p) \<le> 11"
  shows "getSplitAtDepth (setCUData p cu) d \<noteq> None"
proof (cases "(ucast (cu_depth (setCUData p cu)) :: 32 word) \<le> d")
  case False
  let ?n = "length (m_partStack p) - 1"
  have dep: "currDepth p = of_nat ?n" using ok by (simp add: state_ok_def counters_ok_def Let_def)
  have n10: "?n \<le> 10" using len by simp
  then have un: "unat (currDepth p) = ?n" unfolding dep by (simp add: unat_of_nat)
  have "unat (ucast (cu_depth (setCUData p cu)) :: 32 word) = ?n"
    using un n10 by (simp add: setCUData_def unsigned_ucast_eq unsigned_take_bit_eq take_bit_eq_mod unat_mod)
  then have "unat d < ?n" using False by (simp add: word_le_nat_alt)
  then show ?thesis
    using split_series_read[OF ok cus len, of cu] by (auto dest!: conjunct1 spec[of _ "unat d"])
qed (simp add: getSplitAtDepth_def)

text \<open>
  C12: The decisions a coding unit stores are the ones of the partition stack: reading the split and
  the mode series of \<open>setCUData\<close> at a depth gives the split of the level entered at that depth and
  its mode, and no split at the depth of the unit.
\<close>

theorem split_series_roundtrip:
  assumes "reach cs p" and cus: "\<forall>l\<in>set (butlast (m_partStack p)). cu_split (lv_split l)"
    and len: "length (m_partStack p) \<le> 11"
  shows "(\<forall>d<length (m_partStack p) - 1.
      getSplitAtDepth (setCUData p cu) (of_nat d) = Some (lv_split (rev (m_partStack p) ! Suc d)) \<and>
      getModeTypeAtDepth (setCUData p cu) (of_nat d) = Some (lv_modeType (rev (m_partStack p) ! Suc d))) \<and>
    getSplitAtDepth (setCUData p cu) (currDepth p) = Some CU_DONT_SPLIT"
  by (rule split_series_read[OF reach_state_ok[OF assms(1)] assms(2,3)])

text \<open>A unit two levels down, after a quad split and a ternary split.\<close>

definition sample_tt_query :: Partitioner where
  "sample_tt_query = snd (the (canSplit CU_TRIV_SPLIT sample_part_cfg sample_quad))"

definition sample_tt :: Partitioner where
  "sample_tt = the (splitCurrArea CU_TRIV_SPLIT sample_part_cfg sample_tt_query)"

definition sample_unit :: CodingUnit where
  "sample_unit = \<lparr>cu_area = currArea sample_tt, cu_depth = 0, cu_btDepth = 0, cu_mtDepth = 0, cu_qtDepth = 0, cu_splitSeries = 0,
     cu_modeTypeSeries = 0, cu_sliceIdx = 0, cu_tileIdx = 0, cu_predMode = MODE_INTRA, cu_chType = LUMA, cu_treeType = TREE_D,
     cu_modeType = MODE_TYPE_ALL\<rparr>"

lemma sample_tt_steps:
  "canSplit CU_TRIV_SPLIT sample_part_cfg sample_quad = Some (True, sample_tt_query)"
  "splitCurrArea CU_TRIV_SPLIT sample_part_cfg sample_tt_query = Some sample_tt"
  "currPartIdx sample_quad < length (lv_parts (currPartLevel sample_quad))" "length (m_partStack sample_quad) < 15"
  "is_tu CU_TRIV_SPLIT \<or> \<not> is_tu (lv_split (currPartLevel sample_quad))"
  "map lv_split (m_partStack sample_tt) = [CU_TRIV_SPLIT, CU_QUAD_SPLIT, CTU_LEVEL]"
  by code_simp+

lemma sample_tt_reach: "reach sample_part_cfg sample_tt"
  by (rule reach_split[OF sample_quad_reach sample_tt_steps(3-5) sample_tt_steps(1,2)])

theorem split_series_roundtrip_witness:
  "getSplitAtDepth (setCUData sample_tt sample_unit) 0 = Some CU_QUAD_SPLIT \<and>
   getSplitAtDepth (setCUData sample_tt sample_unit) 1 = Some CU_TRIV_SPLIT \<and>
   getSplitAtDepth (setCUData sample_tt sample_unit) (currDepth sample_tt) = Some CU_DONT_SPLIT"
proof -
  obtain a b c where st: "m_partStack sample_tt = [a, b, c]" "lv_split a = CU_TRIV_SPLIT" "lv_split b = CU_QUAD_SPLIT"
    using sample_tt_steps(6) by (auto simp: map_eq_Cons_conv)
  then have "\<forall>l\<in>set (butlast (m_partStack sample_tt)). cu_split (lv_split l)"
    by (simp add: cu_split_def is_btt_def)
  from split_series_roundtrip[OF sample_tt_reach this, of sample_unit]
  have *: "(\<forall>d<2. getSplitAtDepth (setCUData sample_tt sample_unit) (of_nat d) = Some (lv_split ([c, b, a] ! Suc d))) \<and>
    getSplitAtDepth (setCUData sample_tt sample_unit) (currDepth sample_tt) = Some CU_DONT_SPLIT"
    by (simp add: st)
  then show ?thesis
    using st spec[OF conjunct1[OF *], of 0] spec[OF conjunct1[OF *], of 1] by simp
qed

end
