(* ===== verification/TreeGeometry.thy ===== *)
theory TreeGeometry
  imports SplitSeries
begin

text \<open>
  What the split rules guarantee of the areas: along every walk of the coding tree the areas stay
  powers of two, aligned and no smaller than the minimum coding block, every split the rules allow
  can be performed (no \<open>CHECK\<close> of \<open>getCUSubPartitions\<close> or \<open>splitCurrArea\<close> fails) and its parts tile
  the area in every component, also at the picture boundary, where splits are forced.  A walk is
  bounded, since every split makes the area smaller.
\<close>

section \<open>Luma geometry of unit areas\<close>

lemma half_scale:
  assumes "s \<le> 1" "4 dvd (n::nat)"
  shows "n div 2 ^ s div 2 = n div 2 div 2 ^ s" "(x + int (n div 2)) div 2 ^ s = x div 2 ^ s + int (n div 2 div 2 ^ s)"
proof -
  obtain k where k: "n = 4 * k" using assms(2) by (auto elim!: dvdE)
  have s: "s = 0 \<or> s = 1" using assms(1) by auto
  show "n div 2 ^ s div 2 = n div 2 div 2 ^ s" using s k by auto
  show "(x + int (n div 2)) div 2 ^ s = x div 2 ^ s + int (n div 2 div 2 ^ s)"
    using s k by auto
qed

lemma quarter_scale:
  assumes "s \<le> 1" "8 dvd (n::nat)"
  shows "n div 2 ^ s div 2 div 2 = n div 4 div 2 ^ s"
    "(x + int (n div 4)) div 2 ^ s = x div 2 ^ s + int (n div 4 div 2 ^ s)"
    "(x + int (3 * (n div 4))) div 2 ^ s = x div 2 ^ s + int (3 * (n div 4 div 2 ^ s))"
proof -
  obtain k where k: "n = 8 * k" using assms(2) by (auto elim!: dvdE)
  have s: "s = 0 \<or> s = 1" using assms(1) by auto
  show "n div 2 ^ s div 2 div 2 = n div 4 div 2 ^ s" using s k by auto
  show "(x + int (n div 4)) div 2 ^ s = x div 2 ^ s + int (n div 4 div 2 ^ s)" using s k by auto
  show "(x + int (3 * (n div 4))) div 2 ^ s = x div 2 ^ s + int (3 * (n div 4 div 2 ^ s))" using s k by auto
qed

lemma quad_luma:
  assumes "4 dvd w" "4 dvd h"
  shows "quad_block i (comp_of_luma c cf x y w h) =
    comp_of_luma c cf (if odd i then x + int (w div 2) else x) (if 2 \<le> i then y + int (h div 2) else y) (w div 2) (h div 2)"
  using half_scale(1)[OF scale_le_1(1)[of "toChannelType c" cf] assms(1)] half_scale(2)[OF scale_le_1(1)[of "toChannelType c" cf] assms(1), where x = x]
    half_scale(1)[OF scale_le_1(2)[of "toChannelType c" cf] assms(2)] half_scale(2)[OF scale_le_1(2)[of "toChannelType c" cf] assms(2), where x = y]
  by (simp add: quad_block_def comp_of_luma_def Let_def)

lemma horz_luma:
  assumes "4 dvd h"
  shows "horz_block i (comp_of_luma c cf x y w h) = comp_of_luma c cf x (if i = 1 then y + int (h div 2) else y) w (h div 2)"
  using half_scale(1)[OF scale_le_1(2)[of "toChannelType c" cf] assms] half_scale(2)[OF scale_le_1(2)[of "toChannelType c" cf] assms, where x = y]
  by (simp add: horz_block_def comp_of_luma_def Let_def)

lemma vert_luma:
  assumes "4 dvd w"
  shows "vert_block i (comp_of_luma c cf x y w h) = comp_of_luma c cf (if i = 1 then x + int (w div 2) else x) y (w div 2) h"
  using half_scale(1)[OF scale_le_1(1)[of "toChannelType c" cf] assms] half_scale(2)[OF scale_le_1(1)[of "toChannelType c" cf] assms, where x = x]
  by (simp add: vert_block_def comp_of_luma_def Let_def)

text \<open>The parts of a ternary split, by index: a quarter, the middle half, a quarter.\<close>

definition tt_len :: "nat \<Rightarrow> nat \<Rightarrow> nat" where
  "tt_len n i = (if i = 1 then n div 2 else n div 4)"

definition tt_off :: "nat \<Rightarrow> nat \<Rightarrow> nat" where
  "tt_off n i = (if i = 0 then 0 else if i = 1 then n div 4 else 3 * (n div 4))"

lemma trih_luma:
  assumes "8 dvd h" "i < 3"
  shows "trih_block i (comp_of_luma c cf x y w h) = comp_of_luma c cf x (y + int (tt_off h i)) w (tt_len h i)"
proof -
  have i: "i = 0 \<or> i = 1 \<or> i = 2" using assms(2) by auto
  have d: "4 dvd h" using assms(1) by (auto elim!: dvdE)
  have q: "h div 2 div 2 ^ s div 2 = h div 4 div 2 ^ s" if "s \<le> 1" for s
    using half_scale(1)[OF that d] quarter_scale(1)[OF that assms(1)] by simp
  show ?thesis
    using half_scale(1)[OF scale_le_1(2)[of "toChannelType c" cf] d] half_scale(2)[OF scale_le_1(2)[of "toChannelType c" cf] d, where x = y] quarter_scale(1)[OF scale_le_1(2)[of "toChannelType c" cf] assms(1)] quarter_scale(2)[OF scale_le_1(2)[of "toChannelType c" cf] assms(1), where x = y] quarter_scale(3)[OF scale_le_1(2)[of "toChannelType c" cf] assms(1), where x = y]
      q[OF scale_le_1(2), of "toChannelType c" cf] i
    by (elim disjE) (simp_all add: trih_block_def comp_of_luma_def Let_def tt_len_def tt_off_def)
qed

lemma triv_luma:
  assumes "8 dvd w" "i < 3"
  shows "triv_block i (comp_of_luma c cf x y w h) = comp_of_luma c cf (x + int (tt_off w i)) y (tt_len w i) h"
proof -
  have i: "i = 0 \<or> i = 1 \<or> i = 2" using assms(2) by auto
  have d: "4 dvd w" using assms(1) by (auto elim!: dvdE)
  have q: "w div 2 div 2 ^ s div 2 = w div 4 div 2 ^ s" if "s \<le> 1" for s
    using half_scale(1)[OF that d] quarter_scale(1)[OF that assms(1)] by simp
  show ?thesis
    using half_scale(1)[OF scale_le_1(1)[of "toChannelType c" cf] d] half_scale(2)[OF scale_le_1(1)[of "toChannelType c" cf] d, where x = x] quarter_scale(1)[OF scale_le_1(1)[of "toChannelType c" cf] assms(1)] quarter_scale(2)[OF scale_le_1(1)[of "toChannelType c" cf] assms(1), where x = x] quarter_scale(3)[OF scale_le_1(1)[of "toChannelType c" cf] assms(1), where x = x]
      q[OF scale_le_1(1), of "toChannelType c" cf] i
    by (elim disjE) (simp_all add: triv_block_def comp_of_luma_def Let_def tt_len_def tt_off_def)
qed

text \<open>The luma rectangle of the \<open>i\<close>-th part of a split.\<close>

definition part_rect :: "PartSplit \<Rightarrow> nat \<Rightarrow> int \<times> int \<times> nat \<times> nat \<Rightarrow> int \<times> int \<times> nat \<times> nat" where
  "part_rect split i r = (case r of (x, y, w, h) \<Rightarrow>
    (case split of
       CU_QUAD_SPLIT \<Rightarrow> (if odd i then x + int (w div 2) else x, if 2 \<le> i then y + int (h div 2) else y, w div 2, h div 2)
     | CU_HORZ_SPLIT \<Rightarrow> (x, if i = 1 then y + int (h div 2) else y, w, h div 2)
     | CU_VERT_SPLIT \<Rightarrow> (if i = 1 then x + int (w div 2) else x, y, w div 2, h)
     | CU_TRIH_SPLIT \<Rightarrow> (x, y + int (tt_off h i), w, tt_len h i)
     | CU_TRIV_SPLIT \<Rightarrow> (x + int (tt_off w i), y, tt_len w i, h)
     | _ \<Rightarrow> r))"

definition part_count :: "PartSplit \<Rightarrow> nat" where
  "part_count split = (if split = CU_QUAD_SPLIT then 4 else if is_tt split then 3 else 2)"

definition luma_unit :: "ChromaFormat \<Rightarrow> int \<times> int \<times> nat \<times> nat \<Rightarrow> UnitArea" where
  "luma_unit cf r = (case r of (x, y, w, h) \<Rightarrow> unit_of_luma cf x y w h)"

text \<open>The luma sides a split needs: the parts keep at least four samples.\<close>

definition split_fits :: "PartSplit \<Rightarrow> nat \<Rightarrow> nat \<Rightarrow> bool" where
  "split_fits split w h =
    (case split of
       CU_QUAD_SPLIT \<Rightarrow> 8 dvd w \<and> 8 dvd h \<and> 0 < w \<and> 0 < h
     | CU_HORZ_SPLIT \<Rightarrow> 8 dvd h \<and> 0 < h
     | CU_VERT_SPLIT \<Rightarrow> 8 dvd w \<and> 0 < w
     | CU_TRIH_SPLIT \<Rightarrow> 16 dvd h \<and> 0 < h
     | CU_TRIV_SPLIT \<Rightarrow> 16 dvd w \<and> 0 < w
     | _ \<Rightarrow> False)"

lemma split_units_luma:
  assumes "\<And>i c. i < n \<Longrightarrow> f i (comp_of_luma c cf x y w h) = comp_of_luma c cf (X i) (Y i) (W i) (H i)"
  shows "split_units f n (unit_of_luma cf x y w h) = map (\<lambda>i. unit_of_luma cf (X i) (Y i) (W i) (H i)) [0..<n]"
  unfolding split_units_def by (rule map_cong[OF refl]) (use assms in \<open>simp add: unit_of_luma_def\<close>)

lemma dvd_halve: "8 dvd (n::nat) \<Longrightarrow> 4 dvd n" "16 dvd (n::nat) \<Longrightarrow> 8 dvd n"
  by (auto elim!: dvdE)

lemma parts_luma:
  assumes fit: "split_fits split w h" and no2: "\<not> cs_noChroma2x2 cs"
  shows "getCUSubPartitions (luma_unit cf (x, y, w, h)) cs split =
    Some (map (\<lambda>i. luma_unit cf (part_rect split i (x, y, w, h))) [0..<part_count split])"
proof -
  consider (q) "split = CU_QUAD_SPLIT" | (h) "split = CU_HORZ_SPLIT" | (v) "split = CU_VERT_SPLIT"
    | (th) "split = CU_TRIH_SPLIT" | (tv) "split = CU_TRIV_SPLIT"
    using fit by (cases split) (simp_all add: split_fits_def)
  then show ?thesis
  proof cases
    case q
    have d: "4 dvd w" "4 dvd h" "8 \<le> h" using fit by (auto simp: q split_fits_def dest: dvd_halve dvd_imp_le)
    have "split_units quad_block 4 (unit_of_luma cf x y w h) = map (\<lambda>i. luma_unit cf (part_rect split i (x, y, w, h))) [0..<4]"
      by (subst split_units_luma[where X = "\<lambda>i. if odd i then x + int (w div 2) else x" and Y = "\<lambda>i. if 2 \<le> i then y + int (h div 2) else y"
          and W = "\<lambda>i. w div 2" and H = "\<lambda>i. h div 2"]) (simp_all add: quad_luma[OF d(1,2)] q part_rect_def luma_unit_def)
    moreover have "\<not> h div 2 < 4" using d(3) by simp
    ultimately show ?thesis
      using no2 by (simp add: getCUSubPartitions_def q part_count_def Let_def luma_unit_def part_rect_def luma_size MIN_TB_SIZEY_def)
  next
    case h
    have d: "4 dvd h" "8 \<le> h" using fit by (auto simp: h split_fits_def dest: dvd_halve dvd_imp_le)
    have "split_units horz_block 2 (unit_of_luma cf x y w h) = map (\<lambda>i. luma_unit cf (part_rect split i (x, y, w, h))) [0..<2]"
      by (subst split_units_luma[where X = "\<lambda>i. x" and Y = "\<lambda>i. if i = 1 then y + int (h div 2) else y"
          and W = "\<lambda>i. w" and H = "\<lambda>i. h div 2"]) (simp_all add: horz_luma[OF d(1)] h part_rect_def luma_unit_def)
    moreover have "\<not> h div 2 < 4" using d(2) by simp_all
    ultimately show ?thesis
      by (simp add: getCUSubPartitions_def h part_count_def is_tt_def Let_def luma_unit_def part_rect_def luma_size MIN_TB_SIZEY_def)
  next
    case v
    have d: "4 dvd w" "8 \<le> w" using fit by (auto simp: v split_fits_def dest: dvd_halve dvd_imp_le)
    have "split_units vert_block 2 (unit_of_luma cf x y w h) = map (\<lambda>i. luma_unit cf (part_rect split i (x, y, w, h))) [0..<2]"
      by (subst split_units_luma[where X = "\<lambda>i. if i = 1 then x + int (w div 2) else x" and Y = "\<lambda>i. y"
          and W = "\<lambda>i. w div 2" and H = "\<lambda>i. h"]) (simp_all add: vert_luma[OF d(1)] v part_rect_def luma_unit_def)
    moreover have "\<not> w div 2 < 4" using d(2) by simp_all
    ultimately show ?thesis
      by (simp add: getCUSubPartitions_def v part_count_def is_tt_def Let_def luma_unit_def part_rect_def luma_size MIN_TB_SIZEY_def)
  next
    case th
    have d: "8 dvd h" "16 \<le> h" using fit by (auto simp: th split_fits_def dest: dvd_halve dvd_imp_le)
    have "split_units trih_block 3 (unit_of_luma cf x y w h) = map (\<lambda>i. luma_unit cf (part_rect split i (x, y, w, h))) [0..<3]"
      by (subst split_units_luma[where X = "\<lambda>i. x" and Y = "\<lambda>i. y + int (tt_off h i)" and W = "\<lambda>i. w" and H = "\<lambda>i. tt_len h i"])
        (simp_all add: trih_luma[OF d(1)] th part_rect_def luma_unit_def)
    moreover have "\<not> h div 2 < 4" "\<not> h div 4 < 4" using d(2) by simp_all
    ultimately show ?thesis
      by (simp add: getCUSubPartitions_def th part_count_def is_tt_def Let_def luma_unit_def part_rect_def luma_size MIN_TB_SIZEY_def tt_len_def)
  next
    case tv
    have d: "8 dvd w" "16 \<le> w" using fit by (auto simp: tv split_fits_def dest: dvd_halve dvd_imp_le)
    have "split_units triv_block 3 (unit_of_luma cf x y w h) = map (\<lambda>i. luma_unit cf (part_rect split i (x, y, w, h))) [0..<3]"
      by (subst split_units_luma[where X = "\<lambda>i. x + int (tt_off w i)" and Y = "\<lambda>i. y" and W = "\<lambda>i. tt_len w i" and H = "\<lambda>i. h"])
        (simp_all add: triv_luma[OF d(1)] tv part_rect_def luma_unit_def)
    moreover have "\<not> w div 2 < 4" "\<not> w div 4 < 4" using d(2) by simp_all
    ultimately show ?thesis
      by (simp add: getCUSubPartitions_def tv part_count_def is_tt_def Let_def luma_unit_def part_rect_def luma_size MIN_TB_SIZEY_def tt_len_def)
  qed
qed

lemma scale_dvd:
  assumes "s \<le> 1"
  shows "8 dvd (n::nat) \<Longrightarrow> even (n div 2 ^ s)" "16 dvd (n::nat) \<Longrightarrow> 4 dvd n div 2 ^ s"
proof -
  have "s = 0 \<or> s = 1" using assms by auto
  then show "8 dvd n \<Longrightarrow> even (n div 2 ^ s)" "16 dvd n \<Longrightarrow> 4 dvd n div 2 ^ s"
    by (auto elim!: dvdE)
qed

lemma parts_tile:
  fixes cs :: PartCfg
  assumes fit: "split_fits split w h" and no2: "\<not> cs_noChroma2x2 cs"
    and k: "k < length (blocks (luma_unit cf (x, y, w, h)))"
  shows "comp_tiles (map (\<lambda>i. luma_unit cf (part_rect split i (x, y, w, h))) [0..<part_count split]) (luma_unit cf (x, y, w, h)) k"
proof (rule cu_split_tiles_aux[OF parts_luma[OF fit no2] no2 k])
  obtain c where c: "blocks (unit_of_luma cf x y w h) ! k = comp_of_luma c cf x y w h"
    using unit_of_luma_comp k unfolding luma_unit_def by (metis case_prod_conv)
  let ?b = "blocks (luma_unit cf (x, y, w, h)) ! k"
  have wh: "width ?b = w div 2 ^ getChannelTypeScaleX (toChannelType c) cf" "height ?b = h div 2 ^ getChannelTypeScaleY (toChannelType c) cf"
    by (simp_all add: luma_unit_def c comp_of_luma_def Let_def)
  show "split_exact split ?b"
    using fit unfolding split_exact_def split_fits_def wh
    by (cases split) (simp_all add: scale_dvd[OF scale_le_1(1)] scale_dvd[OF scale_le_1(2)])
qed

section \<open>Nodes of the coding tree\<close>

definition node :: "PartCfg \<Rightarrow> UnitArea \<Rightarrow> int \<Rightarrow> int \<Rightarrow> nat \<Rightarrow> nat \<Rightarrow> bool" where
  "node cs u x y a b = (u = unit_of_luma (cs_format cs) x y (2 ^ a) (2 ^ b) \<and>
     cs_log2MinCB cs \<le> a \<and> a \<le> 7 \<and> cs_log2MinCB cs \<le> b \<and> b \<le> 7 \<and> 0 \<le> x \<and> 0 \<le> y \<and>
     x + 2 ^ a \<le> 2 ^ 31 \<and> y + 2 ^ b \<le> 2 ^ 31 \<and> 2 ^ cs_log2MinCB cs dvd x \<and> 2 ^ cs_log2MinCB cs dvd y)"

text \<open>The exponents a split needs so that its parts are no smaller than the minimum block.\<close>

definition exp_fits :: "nat \<Rightarrow> PartSplit \<Rightarrow> nat \<Rightarrow> nat \<Rightarrow> bool" where
  "exp_fits lm split a b =
    (case split of
       CU_QUAD_SPLIT \<Rightarrow> lm < a \<and> lm < b
     | CU_HORZ_SPLIT \<Rightarrow> lm < b
     | CU_VERT_SPLIT \<Rightarrow> lm < a
     | CU_TRIH_SPLIT \<Rightarrow> lm + 1 < b
     | CU_TRIV_SPLIT \<Rightarrow> lm + 1 < a
     | _ \<Rightarrow> False)"

definition child_exps :: "PartSplit \<Rightarrow> nat \<Rightarrow> nat \<Rightarrow> nat \<Rightarrow> nat \<times> nat" where
  "child_exps split i a b =
    (case split of
       CU_QUAD_SPLIT \<Rightarrow> (a - 1, b - 1)
     | CU_HORZ_SPLIT \<Rightarrow> (a, b - 1)
     | CU_VERT_SPLIT \<Rightarrow> (a - 1, b)
     | CU_TRIH_SPLIT \<Rightarrow> (a, if i = 1 then b - 1 else b - 2)
     | CU_TRIV_SPLIT \<Rightarrow> (if i = 1 then a - 1 else a - 2, b)
     | _ \<Rightarrow> (a, b))"

definition child_pos :: "PartSplit \<Rightarrow> nat \<Rightarrow> int \<Rightarrow> int \<Rightarrow> nat \<Rightarrow> nat \<Rightarrow> int \<times> int" where
  "child_pos split i x y a b =
    (case split of
       CU_QUAD_SPLIT \<Rightarrow> (if odd i then x + 2 ^ (a - 1) else x, if 2 \<le> i then y + 2 ^ (b - 1) else y)
     | CU_HORZ_SPLIT \<Rightarrow> (x, if i = 1 then y + 2 ^ (b - 1) else y)
     | CU_VERT_SPLIT \<Rightarrow> (if i = 1 then x + 2 ^ (a - 1) else x, y)
     | CU_TRIH_SPLIT \<Rightarrow> (x, if i = 0 then y else if i = 1 then y + 2 ^ (b - 2) else y + 3 * 2 ^ (b - 2))
     | CU_TRIV_SPLIT \<Rightarrow> (if i = 0 then x else if i = 1 then x + 2 ^ (a - 2) else x + 3 * 2 ^ (a - 2), y)
     | _ \<Rightarrow> (x, y))"

lemma pow_halve: "1 \<le> a \<Longrightarrow> (2::nat) ^ a div 2 = 2 ^ (a - 1)" "2 \<le> a \<Longrightarrow> (2::nat) ^ a div 4 = 2 ^ (a - 2)"
proof -
  show "1 \<le> a \<Longrightarrow> (2::nat) ^ a div 2 = 2 ^ (a - 1)" by (cases a) simp_all
  show "2 \<le> a \<Longrightarrow> (2::nat) ^ a div 4 = 2 ^ (a - 2)"
    using power_diff[of "2::nat" 2 a] by simp
qed

lemma child_rect:
  assumes "exp_fits lm split a b" "1 \<le> lm"
  shows "part_rect split i (x, y, 2 ^ a, 2 ^ b) =
    (fst (child_pos split i x y a b), snd (child_pos split i x y a b),
     2 ^ fst (child_exps split i a b), 2 ^ snd (child_exps split i a b))"
  using assms
  by (cases split) (auto simp: exp_fits_def part_rect_def child_pos_def child_exps_def tt_off_def tt_len_def pow_halve)

lemma exp_fits_split_fits:
  assumes "exp_fits lm split a b" "2 \<le> lm"
  shows "split_fits split (2 ^ a) (2 ^ b)"
proof -
  have p8: "8 dvd (2::nat) ^ n" if "lm < n" for n
    using le_imp_power_dvd[of 3 n "2::nat"] that assms(2) by simp
  have p16: "16 dvd (2::nat) ^ n" if "lm + 1 < n" for n
    using le_imp_power_dvd[of 4 n "2::nat"] that assms(2) by simp
  show ?thesis
    using assms(1) p8 p16 by (cases split) (simp_all add: exp_fits_def split_fits_def)
qed

lemma child_exps_less:
  assumes "exp_fits lm split a b"
  shows "fst (child_exps split i a b) + snd (child_exps split i a b) < a + b \<and>
    fst (child_exps split i a b) \<le> a \<and> snd (child_exps split i a b) \<le> b \<and>
    (lm \<le> a \<longrightarrow> lm \<le> fst (child_exps split i a b)) \<and> (lm \<le> b \<longrightarrow> lm \<le> snd (child_exps split i a b))"
  using assms by (cases split) (auto simp: exp_fits_def child_exps_def)

lemma pow_join:
  "1 \<le> n \<Longrightarrow> 2 * (2::int) ^ (n - 1) = 2 ^ n" "2 \<le> n \<Longrightarrow> 4 * (2::int) ^ (n - 2) = 2 ^ n"
proof -
  show "1 \<le> n \<Longrightarrow> 2 * (2::int) ^ (n - 1) = 2 ^ n" by (cases n) simp_all
  assume "2 \<le> n"
  then obtain k where "n = k + 2" by (metis le_add_diff_inverse2)
  then show "4 * (2::int) ^ (n - 2) = 2 ^ n" by simp
qed

text \<open>A child lies within its parent.\<close>

lemma halves_within:
  assumes "1 \<le> n"
  shows "(2::int) ^ (n - 1) + 2 ^ (n - 1) = 2 ^ n" "(2::int) ^ (n - 1) \<le> 2 ^ n"
  using pow_join(1)[OF assms] by simp_all

lemma quarters_within:
  assumes "2 \<le> n"
  shows "(2::int) ^ (n - 2) + 2 ^ (n - 1) \<le> 2 ^ n" "3 * (2::int) ^ (n - 2) + 2 ^ (n - 2) = 2 ^ n" "(2::int) ^ (n - 2) \<le> 2 ^ n"
proof -
  have "2 * (2::int) ^ (n - 2) = 2 ^ (n - 1)"
    using pow_join(1)[of "n - 1"] assms by (simp add: numeral_2_eq_2)
  then show "(2::int) ^ (n - 2) + 2 ^ (n - 1) \<le> 2 ^ n" "3 * (2::int) ^ (n - 2) + 2 ^ (n - 2) = 2 ^ n" "(2::int) ^ (n - 2) \<le> 2 ^ n"
    using pow_join(2)[OF assms] zero_less_power[of "2::int" "n - 2"] by linarith+
qed

lemma child_within:
  assumes f: "exp_fits lm split a b" and i: "i < part_count split" and lm: "1 \<le> lm"
  shows "x \<le> fst (child_pos split i x y a b) \<and> fst (child_pos split i x y a b) + 2 ^ fst (child_exps split i a b) \<le> x + 2 ^ a \<and>
    y \<le> snd (child_pos split i x y a b) \<and> snd (child_pos split i x y a b) + 2 ^ snd (child_exps split i a b) \<le> y + 2 ^ b"
proof -
  consider "split = CU_QUAD_SPLIT" "1 \<le> a" "1 \<le> b" | "split = CU_HORZ_SPLIT" "1 \<le> b" | "split = CU_VERT_SPLIT" "1 \<le> a"
    | "split = CU_TRIH_SPLIT" "2 \<le> b" "i < 3" | "split = CU_TRIV_SPLIT" "2 \<le> a" "i < 3"
    using f i lm by (cases split) (auto simp: exp_fits_def part_count_def is_tt_def)
  then show ?thesis
  proof cases
    case 1
    then show ?thesis using halves_within[OF 1(2)] halves_within[OF 1(3)] by (auto simp: child_pos_def child_exps_def)
  next
    case 2
    then show ?thesis using halves_within[OF 2(2)] by (auto simp: child_pos_def child_exps_def)
  next
    case 3
    then show ?thesis using halves_within[OF 3(2)] by (auto simp: child_pos_def child_exps_def)
  next
    case 4
    then have "i = 0 \<or> i = 1 \<or> i = 2" by auto
    then show ?thesis using quarters_within[OF 4(2)] 4(1) by (elim disjE) (auto simp: child_pos_def child_exps_def)
  next
    case 5
    then have "i = 0 \<or> i = 1 \<or> i = 2" by auto
    then show ?thesis using quarters_within[OF 5(2)] 5(1) by (elim disjE) (auto simp: child_pos_def child_exps_def)
  qed
qed

lemma child_aligned_min:
  assumes f: "exp_fits lm split a b" and i: "i < part_count split" and d: "2 ^ lm dvd x" "2 ^ lm dvd y"
  shows "2 ^ lm dvd fst (child_pos split i x y a b)" "2 ^ lm dvd snd (child_pos split i x y a b)"
proof -
  have p: "(2::int) ^ lm dvd 2 ^ (n - 1)" if "lm < n" for n
    using that by (intro le_imp_power_dvd) simp
  have q: "(2::int) ^ lm dvd 2 ^ (n - 2)" if "lm + 1 < n" for n
    using that by (intro le_imp_power_dvd) simp
  show "2 ^ lm dvd fst (child_pos split i x y a b)" "2 ^ lm dvd snd (child_pos split i x y a b)"
    using f d p[of a] p[of b] q[of a] q[of b]
    by (cases split; auto simp: exp_fits_def child_pos_def intro!: dvd_add dvd_mult)+
qed

lemma child_node:
  assumes n: "node cs u x y a b" and f: "exp_fits (cs_log2MinCB cs) split a b" and i: "i < part_count split" and lm: "2 \<le> cs_log2MinCB cs"
  shows "node cs (luma_unit (cs_format cs) (part_rect split i (x, y, 2 ^ a, 2 ^ b)))
    (fst (child_pos split i x y a b)) (snd (child_pos split i x y a b)) (fst (child_exps split i a b)) (snd (child_exps split i a b))"
proof -
  have lm1: "1 \<le> cs_log2MinCB cs" using lm by simp
  note w = child_within[OF f i lm1, where x = x and y = y]
  show ?thesis
    using n w child_exps_less[OF f, of i] child_aligned_min[OF f i, where x = x and y = y]
    unfolding node_def child_rect[OF f lm1] luma_unit_def by auto
qed

lemma child_aligned_own:
  assumes f: "exp_fits lm split a b" and s: "split \<in> {CU_QUAD_SPLIT, CU_HORZ_SPLIT, CU_VERT_SPLIT}"
    and d: "2 ^ a dvd x" "2 ^ b dvd y"
  shows "2 ^ fst (child_exps split i a b) dvd fst (child_pos split i x y a b)"
    "2 ^ snd (child_exps split i a b) dvd snd (child_pos split i x y a b)"
proof -
  have p: "(2::int) ^ (n - 1) dvd z" if "2 ^ n dvd z" for n and z :: int
    using that le_imp_power_dvd[of "n - 1" n "2::int"] by (auto intro: dvd_trans)
  show "2 ^ fst (child_exps split i a b) dvd fst (child_pos split i x y a b)"
    "2 ^ snd (child_exps split i a b) dvd snd (child_pos split i x y a b)"
    using s d p[OF d(1)] p[OF d(2)]
    by (auto simp: child_pos_def child_exps_def)
qed

section \<open>Conforming configurations\<close>

definition picW :: "PartCfg \<Rightarrow> nat" where "picW cs = width (blkY (cs_picture cs))"

definition picH :: "PartCfg \<Rightarrow> nat" where "picH cs = height (blkY (cs_picture cs))"

text \<open>What the semantics of the parameter sets guarantee: the minimum coding block is 4 to 64 wide, no
  larger than the minimum quad-tree size, which is no larger than the maximum binary-tree size;
  the picture is a multiple of 8 and of the minimum block in both directions.\<close>

definition cfg_ok :: "PartCfg \<Rightarrow> ChannelType \<Rightarrow> bool" where
  "cfg_ok cs ch = (\<not> cs_noChroma2x2 cs \<and> 2 \<le> cs_log2MinCB cs \<and> cs_log2MinCB cs \<le> 6 \<and>
     2 ^ cs_log2MinCB cs \<le> getMinQtSize cs ch \<and> getMinQtSize cs ch \<le> getMaxBtSize cs ch \<and>
     getMaxBtDepth cs ch < 65536 \<and> cs_format cs \<noteq> CF_UNDEFINED \<and> (ch = CHROMA \<longrightarrow> isChromaEnabled (cs_format cs)) \<and>
     cs_picture cs = unit_of_luma (cs_format cs) 0 0 (picW cs) (picH cs) \<and>
     0 < picW cs \<and> 0 < picH cs \<and> picW cs \<le> 2 ^ 30 \<and> picH cs \<le> 2 ^ 30 \<and>
     8 dvd picW cs \<and> 8 dvd picH cs \<and> 2 ^ cs_log2MinCB cs dvd picW cs \<and> 2 ^ cs_log2MinCB cs dvd picH cs)"

definition in_pic :: "PartCfg \<Rightarrow> UnitArea \<Rightarrow> bool" where
  "in_pic cs u = contains_pos (blkY (cs_picture cs)) (lumaPos u)"

definition sticks :: "PartCfg \<Rightarrow> int \<Rightarrow> int \<Rightarrow> nat \<Rightarrow> nat \<Rightarrow> bool" where
  "sticks cs x y a b = (int (picW cs) < x + 2 ^ a \<or> int (picH cs) < y + 2 ^ b)"

lemma contains_pic:
  assumes "cfg_ok cs ch" "0 \<le> px" "px < 2 ^ 31" "0 \<le> py" "py < 2 ^ 31"
  shows "contains_pos (blkY (cs_picture cs)) (px, py) = (px < int (picW cs) \<and> py < int (picH cs))"
proof -
  have pic: "cs_picture cs = unit_of_luma (cs_format cs) 0 0 (picW cs) (picH cs)" using assms(1) by (simp add: cfg_ok_def)
  have "u32 px = px" "u32 py = py" using assms by (simp_all add: u32_def)
  then show ?thesis unfolding contains_pos_def by (subst (1 2 3 4) pic) (simp add: luma_size)
qed

lemma node_blkY:
  assumes "node cs u x y a b"
  shows "posx (blkY u) = x" "posy (blkY u) = y" "width (blkY u) = 2 ^ a" "height (blkY u) = 2 ^ b" "lumaPos u = (x, y)"
  using assms by (simp_all add: node_def luma_size lumaPos_def comp_pos_def)

lemma node_pic:
  assumes c: "cfg_ok cs ch" and n: "node cs u x y a b"
  shows "in_pic cs u = (x < int (picW cs) \<and> y < int (picH cs))"
    and "contains_pos (blkY (cs_picture cs)) (bottomLeft (blkY u)) = (x < int (picW cs) \<and> y + 2 ^ b \<le> int (picH cs))"
    and "contains_pos (blkY (cs_picture cs)) (topRight (blkY u)) = (x + 2 ^ a \<le> int (picW cs) \<and> y < int (picH cs))"
proof -
  have r: "0 \<le> x" "0 \<le> y" "x + 2 ^ a \<le> 2 ^ 31" "y + 2 ^ b \<le> 2 ^ 31" "(1::int) \<le> 2 ^ a" "(1::int) \<le> 2 ^ b"
    using n by (simp_all add: node_def)
  then have q: "x < 2 ^ 31" "y < 2 ^ 31" "0 < x + 2 ^ a" "0 < y + 2 ^ b"
    by linarith+
  show "in_pic cs u = (x < int (picW cs) \<and> y < int (picH cs))"
    unfolding in_pic_def node_blkY[OF n] by (rule contains_pic[OF c]) (use r in linarith)+
  show "contains_pos (blkY (cs_picture cs)) (bottomLeft (blkY u)) = (x < int (picW cs) \<and> y + 2 ^ b \<le> int (picH cs))"
    unfolding bottomLeft_def node_blkY[OF n]
    by (subst contains_pic[OF c]) (use r q in auto)
  show "contains_pos (blkY (cs_picture cs)) (topRight (blkY u)) = (x + 2 ^ a \<le> int (picW cs) \<and> y < int (picH cs))"
    unfolding topRight_def node_blkY[OF n]
    by (subst contains_pic[OF c]) (use r q in auto)
qed

text \<open>An aligned area that sticks out of the picture is larger than 8 and than the minimum block.\<close>

lemma sticks_large:
  assumes "z < int p" "int p < z + 2 ^ n" "2 ^ n dvd z" "8 dvd p" "2 ^ lm dvd p"
  shows "3 < n" "lm < n"
proof -
  have gen: "m < n" if "2 ^ m dvd p" for m
  proof (rule ccontr)
    assume "\<not> m < n"
    then have "(2::int) ^ n dvd 2 ^ m" by (intro le_imp_power_dvd) simp
    moreover have "(2::int) ^ m dvd int p" using that by (metis of_nat_dvd_iff of_nat_numeral of_nat_power)
    ultimately have "2 ^ n dvd int p - z" using assms(3) by (meson dvd_diff dvd_trans)
    then have "2 ^ n \<le> int p - z" using assms(1) by (intro zdvd_imp_le) simp_all
    then show False using assms(2) by simp
  qed
  show "3 < n" using gen[of 3] assms(4) by simp
  show "lm < n" using gen[OF assms(5)] .
qed

section \<open>Forced splits as a function of the stack\<close>

text \<open>The counters \<open>implicit_rule\<close> reads are determined by the stack, so its result is.\<close>

definition stack_state :: "ChannelType \<Rightarrow> PartLevel list \<Rightarrow> Partitioner" where
  "stack_state ch ls = blank_partitioner\<lparr>m_partStack := ls, chType := ch, currMtDepth := of_nat (mt_count ls),
     currBtDepth := of_nat (sum_list (map bt_weight ls)), currImplicitBtDepth := of_nat (implicit_count ls)\<rparr>"

definition implicit_of :: "PartCfg \<Rightarrow> ChannelType \<Rightarrow> PartLevel list \<Rightarrow> PartSplit" where
  "implicit_of cs ch ls = implicit_rule cs (stack_state ch ls)"

lemma implicit_rule_of:
  "counters_ok p \<Longrightarrow> implicit_rule cs p = implicit_of cs (chType p) (m_partStack p)"
  by (simp add: implicit_of_def stack_state_def implicit_rule_def counters_ok_def Let_def currArea_def currPartLevel_def)

text \<open>The facts every part of the top level satisfies.\<close>

definition part_inv :: "PartCfg \<Rightarrow> ChannelType \<Rightarrow> PartLevel list \<Rightarrow> UnitArea \<Rightarrow> bool" where
  "part_inv cs ch ls u = (\<exists>x y a b. node cs u x y a b \<and> a + b + length ls \<le> 15 \<and>
     (mt_count ls = 0 \<longrightarrow> a = b) \<and> (isDualITree cs \<and> mt_count ls \<noteq> 0 \<longrightarrow> a \<le> 6 \<and> b \<le> 6) \<and>
     (in_pic cs u \<and> sticks cs x y a b \<longrightarrow>
        2 ^ a dvd x \<and> 2 ^ b dvd y \<and> mt_count ls = implicit_count ls \<and>
        (mt_count ls \<noteq> 0 \<longrightarrow> a \<le> 6 \<and> b \<le> 6 \<and> 2 ^ a \<le> getMaxBtSize cs ch \<and> 2 ^ b \<le> getMaxBtSize cs ch \<and> getMaxBtDepth cs ch \<noteq> 0) \<and> 3 \<le> a \<and> 3 \<le> b))"

fun geo :: "PartCfg \<Rightarrow> ChannelType \<Rightarrow> PartLevel list \<Rightarrow> bool" where
  "geo cs ch [] = True"
| "geo cs ch (l # ls) = (geo cs ch ls \<and> (\<forall>u\<in>set (lv_parts l). part_inv cs ch (l # ls) u) \<and>
     (lv_idx l < length (lv_parts l) \<and> lv_checkdIfImplicit l \<longrightarrow> lv_implicitSplit l = implicit_of cs ch (l # ls)) \<and>
     \<not> is_tu (lv_split l))"

definition walk_ok :: "PartCfg \<Rightarrow> ChannelType \<Rightarrow> Partitioner \<Rightarrow> bool" where
  "walk_ok cs ch p = (state_ok p \<and> geo cs ch (m_partStack p) \<and> (chType p = ch \<or> treeType p = TREE_C))"

lemma bt_weight_sum:
  "mt_count ls = 0 \<Longrightarrow> sum_list (map bt_weight ls) = 0" "mt_count ls \<noteq> 0 \<Longrightarrow> 1 \<le> sum_list (map bt_weight ls)"
proof -
  have tt: "is_tt t \<Longrightarrow> is_btt t" for t by (auto simp: kind_defs)
  show "mt_count ls = 0 \<Longrightarrow> sum_list (map bt_weight ls) = 0"
    by (auto simp: mt_count_def filter_empty_conv bt_weight_def dest: tt)
  assume "mt_count ls \<noteq> 0"
  then obtain l where l: "l \<in> set ls" "is_btt (lv_split l)"
    by (auto simp: mt_count_def filter_empty_conv)
  then have "1 \<le> bt_weight l" by (simp add: bt_weight_def)
  also have "\<dots> \<le> sum_list (map bt_weight ls)"
    using l(1) by (simp add: member_le_sum_list)
  finally show "1 \<le> sum_list (map bt_weight ls)" .
qed

lemma bt_word_zero:
  assumes "length ls \<le> 15"
  shows "(of_nat (sum_list (map bt_weight ls)) :: 32 word) = 0 \<longleftrightarrow> mt_count ls = 0"
proof (cases "mt_count ls = 0")
  case False
  then obtain n where n: "sum_list (map bt_weight ls) = Suc n"
    using bt_weight_sum(2)[OF False] by (metis One_nat_def Suc_le_D)
  then have "n < 2 ^ 31" using bt_weight_le[of ls] assms by simp
  then show ?thesis using False of_nat_Suc_pos[of n] unfolding n by blast
next
  case True
  then show ?thesis unfolding bt_weight_sum(1)[OF True] by simp
qed

lemma mt_word_less:
  assumes "m \<le> 15" "d < 65536"
  shows "(of_nat m :: 32 word) < of_nat d + of_nat m \<longleftrightarrow> d \<noteq> 0"
proof -
  have "(of_nat d + of_nat m :: 32 word) = of_nat (d + m)" by simp
  moreover have "(of_nat m :: 32 word) < of_nat (d + m) \<longleftrightarrow> m < d + m"
    unfolding word_less_nat_alt unat_of_nat using assms by simp
  ultimately show ?thesis by simp
qed

lemma pow_le_64: "(2::nat) ^ a \<le> 64 \<longleftrightarrow> a \<le> 6" "(64::nat) < 2 ^ a \<longleftrightarrow> 6 < a"
  using power_increasing_iff[of "2::nat" a 6] power_strict_increasing_iff[of "2::nat" 6 a] by simp_all

lemma implicit_node:
  assumes c: "cfg_ok cs ch" and n: "node cs (level_area l) x y a b" and p: "in_pic cs (level_area l)" and len: "length (l # ls) \<le> 15"
  shows "implicit_of cs ch (l # ls) =
    (let bl = (y + 2 ^ b \<le> int (picH cs)); tr = (x + 2 ^ a \<le> int (picW cs));
         bt = (2 ^ a \<le> getMaxBtSize cs ch \<and> 2 ^ b \<le> getMaxBtSize cs ch \<and>
           (of_nat (mt_count (l # ls)) :: 32 word) < of_nat (getMaxBtDepth cs ch) + of_nat (implicit_count (l # ls)));
         qt = (getMinQtSize cs ch < 2 ^ a \<and> getMinQtSize cs ch < 2 ^ b \<and> mt_count (l # ls) = 0);
         s = (if \<not> bl \<and> \<not> tr \<and> qt then CU_QUAD_SPLIT else if \<not> bl \<and> bt \<and> a \<le> 6 then CU_HORZ_SPLIT
           else if \<not> tr \<and> bt \<and> b \<le> 6 then CU_VERT_SPLIT else if \<not> bl \<or> \<not> tr then CU_QUAD_SPLIT else CU_DONT_SPLIT)
     in if isDualITree cs \<and> (6 < a \<or> 6 < b) then CU_QUAD_SPLIT else s)"
proof -
  have ar: "currArea (stack_state ch (l # ls)) = level_area l"
    by (simp add: currArea_def currPartLevel_def stack_state_def)
  have fl: "chType (stack_state ch (l # ls)) = ch" "currMtDepth (stack_state ch (l # ls)) = of_nat (mt_count (l # ls))"
    "currImplicitBtDepth (stack_state ch (l # ls)) = of_nat (implicit_count (l # ls))"
    "(currBtDepth (stack_state ch (l # ls)) = 0) = (mt_count (l # ls) = 0)"
    using bt_word_zero[OF len] by (simp_all add: stack_state_def)
  have xy: "x < int (picW cs)" "y < int (picH cs)" using p node_pic(1)[OF c n] by simp_all
  show ?thesis
    unfolding implicit_of_def implicit_rule_def ar fl node_pic(2,3)[OF c n] node_blkY[OF n] Let_def MAX_TB_SIZEY_def pow_le_64
    using xy by auto
qed

lemma implicit_inside:
  assumes "cfg_ok cs ch" "node cs (level_area l) x y a b" "in_pic cs (level_area l)" "length (l # ls) \<le> 15"
    and "\<not> sticks cs x y a b"
  shows "implicit_of cs ch (l # ls) = (if isDualITree cs \<and> (6 < a \<or> 6 < b) then CU_QUAD_SPLIT else CU_DONT_SPLIT)"
  using assms(5) unfolding implicit_node[OF assms(1-4)] sticks_def Let_def by auto

lemma implicit_mt_cases:
  assumes c: "cfg_ok cs ch" and n: "node cs (level_area l) x y a b" and p: "in_pic cs (level_area l)" and len: "length (l # ls) \<le> 15"
    and st: "sticks cs x y a b" and inv: "mt_count (l # ls) = implicit_count (l # ls)"
  shows "mt_count (l # ls) = 0 \<Longrightarrow> a = b \<Longrightarrow>
      implicit_of cs ch (l # ls) = CU_QUAD_SPLIT \<or>
      (implicit_of cs ch (l # ls) = CU_HORZ_SPLIT \<and> int (picH cs) < y + 2 ^ b \<or>
       implicit_of cs ch (l # ls) = CU_VERT_SPLIT \<and> int (picW cs) < x + 2 ^ a) \<and>
      a \<le> 6 \<and> 2 ^ a \<le> getMaxBtSize cs ch \<and> getMaxBtDepth cs ch \<noteq> 0"
    and "mt_count (l # ls) \<noteq> 0 \<Longrightarrow> a \<le> 6 \<Longrightarrow> b \<le> 6 \<Longrightarrow> 2 ^ a \<le> getMaxBtSize cs ch \<Longrightarrow> 2 ^ b \<le> getMaxBtSize cs ch \<Longrightarrow>
      getMaxBtDepth cs ch \<noteq> 0 \<Longrightarrow>
      implicit_of cs ch (l # ls) = (if int (picH cs) < y + 2 ^ b then CU_HORZ_SPLIT else CU_VERT_SPLIT)"
proof -
  have m: "implicit_count (l # ls) \<le> 15" using mt_count_le[of "l # ls"] len inv by simp
  have w: "((of_nat (mt_count (l # ls)) :: 32 word) < of_nat (getMaxBtDepth cs ch) + of_nat (implicit_count (l # ls))) = (getMaxBtDepth cs ch \<noteq> 0)"
    unfolding inv by (rule mt_word_less[OF m]) (use c in \<open>simp add: cfg_ok_def\<close>)
  show "mt_count (l # ls) = 0 \<Longrightarrow> a = b \<Longrightarrow>
      implicit_of cs ch (l # ls) = CU_QUAD_SPLIT \<or>
      (implicit_of cs ch (l # ls) = CU_HORZ_SPLIT \<and> int (picH cs) < y + 2 ^ b \<or>
       implicit_of cs ch (l # ls) = CU_VERT_SPLIT \<and> int (picW cs) < x + 2 ^ a) \<and>
      a \<le> 6 \<and> 2 ^ a \<le> getMaxBtSize cs ch \<and> getMaxBtDepth cs ch \<noteq> 0"
    using st unfolding implicit_node[OF c n p len] w sticks_def by (auto simp: Let_def)
  show "mt_count (l # ls) \<noteq> 0 \<Longrightarrow> a \<le> 6 \<Longrightarrow> b \<le> 6 \<Longrightarrow> 2 ^ a \<le> getMaxBtSize cs ch \<Longrightarrow> 2 ^ b \<le> getMaxBtSize cs ch \<Longrightarrow>
      getMaxBtDepth cs ch \<noteq> 0 \<Longrightarrow>
      implicit_of cs ch (l # ls) = (if int (picH cs) < y + 2 ^ b then CU_HORZ_SPLIT else CU_VERT_SPLIT)"
    using st unfolding implicit_node[OF c n p len] w sticks_def by (auto simp: Let_def)
qed

section \<open>Allowed splits can be performed\<close>

lemma no_mt_below_quad:
  "stack_ok (l # ls) \<Longrightarrow> lv_split l = CTU_LEVEL \<or> lv_split l = CU_QUAD_SPLIT \<Longrightarrow> mt_count (l # ls) = 0"
proof (induction "l # ls" arbitrary: l ls rule: stack_ok.induct)
  case (3 l m ls)
  then have "mt_count (m # ls) = 0" by (auto simp: kind_defs)
  then show ?case using 3 by (auto simp: mt_count_def kind_defs)
qed (auto simp: mt_count_def kind_defs)

lemma node_chroma_width:
  assumes c: "cfg_ok cs CHROMA" and n: "node cs u x y a b" and a: "3 < a"
  shows "width (blkCb u) \<noteq> 4"
proof -
  have "isChromaEnabled (cs_format cs)" using c by (simp add: cfg_ok_def)
  then have "blkCb u = comp_of_luma COMPONENT_Cb (cs_format cs) x y (2 ^ a) (2 ^ b)"
    using n by (simp add: node_def blkCb_def unit_of_luma_def getNumberValidComponents_def)
  then have w: "width (blkCb u) = 2 ^ a div 2 ^ getChannelTypeScaleX CHROMA (cs_format cs)"
    by (simp add: comp_of_luma_def Let_def toChannelType_def)
  have "getChannelTypeScaleX CHROMA (cs_format cs) = 0 \<or> getChannelTypeScaleX CHROMA (cs_format cs) = 1"
    using scale_le_1(1)[of CHROMA "cs_format cs"] by auto
  moreover have "(2::nat) ^ 4 \<le> 2 ^ a" using a by (intro power_increasing) simp_all
  ultimately show ?thesis using w by auto
qed

lemma canSplit_checked:
  assumes c: "lv_checkdIfImplicit l" "m_partStack p = l # ls" and cu: "cu_split split"
    and can: "canSplit split cs p = Some (True, p)"
  shows "treeType p \<noteq> TREE_C"
    and "lv_implicitSplit l \<noteq> CU_DONT_SPLIT \<Longrightarrow>
      split = CU_QUAD_SPLIT \<and> (can_qt_rule cs p \<or> \<not> canBh (implicit_flags (lv_implicitSplit l) (can_qt_rule cs p) p) \<and>
          \<not> canBv (implicit_flags (lv_implicitSplit l) (can_qt_rule cs p) p)) \<or>
      split = CU_HORZ_SPLIT \<and> lv_implicitSplit l = CU_HORZ_SPLIT \<or> split = CU_VERT_SPLIT \<and> lv_implicitSplit l = CU_VERT_SPLIT"
    and "lv_implicitSplit l = CU_DONT_SPLIT \<Longrightarrow>
      split = CU_QUAD_SPLIT \<and> can_qt_rule cs p \<or>
      split = CU_HORZ_SPLIT \<and> canBh (btt_flags cs (can_qt_rule cs p) p) \<or>
      split = CU_VERT_SPLIT \<and> canBv (btt_flags cs (can_qt_rule cs p) p) \<or>
      split = CU_TRIH_SPLIT \<and> canTh (btt_flags cs (can_qt_rule cs p) p) \<or>
      split = CU_TRIV_SPLIT \<and> canTv (btt_flags cs (can_qt_rule cs p) p)"
proof -
  have k: "split = CU_QUAD_SPLIT \<or> split = CU_HORZ_SPLIT \<or> split = CU_VERT_SPLIT \<or> split = CU_TRIH_SPLIT \<or> split = CU_TRIV_SPLIT"
    using cu by (auto simp: cu_split_def is_btt_def)
  have l: "currPartLevel p = l" using c(2) by (simp add: currPartLevel_def)
  have all: "canSplit_all cs p = (if treeType p = TREE_C then
            \<lparr>canNo = True, canQt = False, canBh = False, canBv = False, canTh = False, canTv = False\<rparr>
          else if lv_implicitSplit l \<noteq> CU_DONT_SPLIT then implicit_flags (lv_implicitSplit l) (can_qt_rule cs p) p
          else if \<not> canBtt_rule cs p then
            \<lparr>canNo = True, canQt = can_qt_rule cs p, canBh = False, canBv = False, canTh = False, canTv = False\<rparr>
          else btt_flags cs (can_qt_rule cs p) p, p)"
    using c(1) by (simp add: canSplit_all_def l Let_def)
  have f: "(split = CU_QUAD_SPLIT \<longrightarrow> canQt (fst (canSplit_all cs p))) \<and> (split = CU_HORZ_SPLIT \<longrightarrow> canBh (fst (canSplit_all cs p))) \<and>
    (split = CU_VERT_SPLIT \<longrightarrow> canBv (fst (canSplit_all cs p))) \<and> (split = CU_TRIH_SPLIT \<longrightarrow> canTh (fst (canSplit_all cs p))) \<and>
    (split = CU_TRIV_SPLIT \<longrightarrow> canTv (fst (canSplit_all cs p)))"
    using can by (auto simp: canSplit_def is_sbt_split_def Let_def split: prod.splits)
  have g: "canQt (btt_flags cs q p) = q" "canTh (implicit_flags s q p) = False" "canTv (implicit_flags s q p) = False"
    "canBh (implicit_flags s q p) = (s = CU_HORZ_SPLIT)" "canBv (implicit_flags s q p) = (s = CU_VERT_SPLIT \<and> \<not> (chType p = CHROMA \<and> width (blkCb (currArea p)) = 4))"
    "canQt (implicit_flags s q p) = (q \<or> \<not> canBh (implicit_flags s q p) \<and> \<not> canBv (implicit_flags s q p))" for s q
    by (simp_all add: btt_flags_def implicit_flags_def Let_def)
  show "treeType p \<noteq> TREE_C" using f k by (auto simp: all)
  then show "lv_implicitSplit l \<noteq> CU_DONT_SPLIT \<Longrightarrow>
      split = CU_QUAD_SPLIT \<and> (can_qt_rule cs p \<or> \<not> canBh (implicit_flags (lv_implicitSplit l) (can_qt_rule cs p) p) \<and>
          \<not> canBv (implicit_flags (lv_implicitSplit l) (can_qt_rule cs p) p)) \<or>
      split = CU_HORZ_SPLIT \<and> lv_implicitSplit l = CU_HORZ_SPLIT \<or> split = CU_VERT_SPLIT \<and> lv_implicitSplit l = CU_VERT_SPLIT"
    using f k g unfolding all by auto
  show "lv_implicitSplit l = CU_DONT_SPLIT \<Longrightarrow>
      split = CU_QUAD_SPLIT \<and> can_qt_rule cs p \<or>
      split = CU_HORZ_SPLIT \<and> canBh (btt_flags cs (can_qt_rule cs p) p) \<or>
      split = CU_VERT_SPLIT \<and> canBv (btt_flags cs (can_qt_rule cs p) p) \<or>
      split = CU_TRIH_SPLIT \<and> canTh (btt_flags cs (can_qt_rule cs p) p) \<or>
      split = CU_TRIV_SPLIT \<and> canTv (btt_flags cs (can_qt_rule cs p) p)"
    using f k g(1) \<open>treeType p \<noteq> TREE_C\<close> unfolding all by (auto split: if_splits)
qed

text \<open>What an allowed split of a node means for the exponents and the counters.\<close>

definition split_facts :: "PartCfg \<Rightarrow> ChannelType \<Rightarrow> PartLevel list \<Rightarrow> PartSplit \<Rightarrow> int \<Rightarrow> int \<Rightarrow> nat \<Rightarrow> nat \<Rightarrow> bool" where
  "split_facts cs ch ls split x y a b = (exp_fits (cs_log2MinCB cs) split a b \<and>
     (split = CU_QUAD_SPLIT \<longrightarrow> mt_count ls = 0 \<and> a = b) \<and>
     (isDualITree cs \<and> is_btt split \<longrightarrow> a \<le> 6 \<and> b \<le> 6) \<and>
     (sticks cs x y a b \<longrightarrow> split \<in> {CU_QUAD_SPLIT, CU_HORZ_SPLIT, CU_VERT_SPLIT} \<and>
        (is_btt split \<longrightarrow> split = implicit_of cs ch ls \<and> a \<le> 6 \<and> b \<le> 6 \<and> 2 ^ a \<le> getMaxBtSize cs ch \<and> 2 ^ b \<le> getMaxBtSize cs ch \<and>
           getMaxBtDepth cs ch \<noteq> 0) \<and>
        (split = CU_QUAD_SPLIT \<longrightarrow> 3 < a) \<and> (split = CU_HORZ_SPLIT \<longrightarrow> 3 < b) \<and> (split = CU_VERT_SPLIT \<longrightarrow> 3 < a)))"

lemma pow_less_exp: "(2::nat) ^ m < 2 ^ a \<longleftrightarrow> m < a" "(2::nat) * 2 ^ m < 2 ^ a \<longleftrightarrow> m + 1 < a"
  using power_strict_increasing_iff[of "2::nat" "m + 1" a] by simp_all

lemma allowed_facts:
  assumes c: "cfg_ok cs ch" and w: "walk_ok cs ch p" and st: "m_partStack p = l # ls" and chk: "lv_checkdIfImplicit l"
    and idx: "lv_idx l < length (lv_parts l)" and pic: "in_pic cs (level_area l)"
    and cu: "cu_split split" and can: "canSplit split cs p = Some (True, p)"
    and n: "node cs (level_area l) x y a b" and sq: "mt_count (l # ls) = 0 \<longrightarrow> a = b"
    and dual: "isDualITree cs \<and> mt_count (l # ls) \<noteq> 0 \<longrightarrow> a \<le> 6 \<and> b \<le> 6"
    and stk: "sticks cs x y a b \<longrightarrow> 2 ^ a dvd x \<and> 2 ^ b dvd y \<and> mt_count (l # ls) = implicit_count (l # ls) \<and>
        (mt_count (l # ls) \<noteq> 0 \<longrightarrow> a \<le> 6 \<and> b \<le> 6 \<and> 2 ^ a \<le> getMaxBtSize cs ch \<and> 2 ^ b \<le> getMaxBtSize cs ch \<and> getMaxBtDepth cs ch \<noteq> 0)"
  shows "split_facts cs ch (l # ls) split x y a b"
proof -
  note cs = canSplit_checked[OF chk st cu can]
  have ch: "chType p = ch" using w cs(1) by (simp add: walk_ok_def)
  have len: "length (l # ls) \<le> 15" and so: "stack_ok (l # ls)"
    using w by (simp_all add: walk_ok_def state_ok_def st)
  have imp: "lv_implicitSplit l = implicit_of cs ch (l # ls)"
    using w idx chk by (simp add: walk_ok_def st)
  have area: "currArea p = level_area l" by (simp add: currArea_def currPartLevel_def st)
  have lm: "2 ^ cs_log2MinCB cs \<le> getMinQtSize cs ch" "cs_log2MinCB cs \<le> 6" using c by (simp_all add: cfg_ok_def)
  have qt: "mt_count (l # ls) = 0 \<and> a = b \<and> cs_log2MinCB cs < a" if "can_qt_rule cs p"
  proof -
    have "lv_split l = CTU_LEVEL \<or> lv_split l = CU_QUAD_SPLIT" "getMinQtSize cs ch < 2 ^ a"
      using that by (auto simp: can_qt_rule_def Let_def currPartLevel_def st area node_blkY[OF n] ch)
    moreover have "cs_log2MinCB cs < a"
      using le_less_trans[OF lm(1) calculation(2)] by (simp only: pow_less_exp(1))
    ultimately show ?thesis
      using no_mt_below_quad[OF so] sq by blast
  qed
  show ?thesis
  proof (cases "sticks cs x y a b")
    case False
    note ins = implicit_inside[OF c n pic len False]
    show ?thesis
    proof (cases "isDualITree cs \<and> (6 < a \<or> 6 < b)")
      case True
      then have m0: "mt_count (l # ls) = 0" and ab: "a = b" using dual sq by auto
      have iq: "lv_implicitSplit l = CU_QUAD_SPLIT" using ins True imp by simp
      then have "split = CU_QUAD_SPLIT" using cs(2) by (auto simp: implicit_flags_def Let_def)
      then show ?thesis using m0 ab True lm(2) False by (auto simp: split_facts_def exp_fits_def is_btt_def)
    next
      case nd: False
      have "lv_implicitSplit l = CU_DONT_SPLIT" unfolding imp ins using nd by (rule if_not_P)
      from cs(3)[OF this] show ?thesis
        using qt nd False
        by (elim disjE) (auto simp: split_facts_def exp_fits_def is_btt_def btt_flags_def Let_def area node_blkY[OF n] ch
            getMinBtSize_def getMinTtSize_def pow_less_exp not_le)
    qed
  next
    case True
    note s = stk[rule_format, OF True]
    have xy: "x < int (picW cs)" "y < int (picH cs)" using pic node_pic(1)[OF c n] by simp_all
    have pd: "8 dvd picW cs" "8 dvd picH cs" "2 ^ cs_log2MinCB cs dvd picW cs" "2 ^ cs_log2MinCB cs dvd picH cs"
      using c by (simp_all add: cfg_ok_def)
    have lx: "int (picW cs) < x + 2 ^ a \<Longrightarrow> 3 < a \<and> cs_log2MinCB cs < a"
      using sticks_large[OF xy(1) _ conjunct1[OF s] pd(1,3)] by blast
    have ly: "int (picH cs) < y + 2 ^ b \<Longrightarrow> 3 < b \<and> cs_log2MinCB cs < b"
      using sticks_large[OF xy(2) _ _ pd(2,4)] s by blast
    note mc = implicit_mt_cases[OF c n pic len True]
    have mtimp: "mt_count (l # ls) = implicit_count (l # ls)" using s by simp
    have dont: "lv_implicitSplit l \<noteq> CU_DONT_SPLIT"
      using mc(1)[OF mtimp] mc(2)[OF mtimp] s sq unfolding imp by (cases "mt_count (l # ls) = 0") auto
    have bnd: "is_btt split \<Longrightarrow> split = implicit_of cs ch (l # ls) \<Longrightarrow>
        a \<le> 6 \<and> b \<le> 6 \<and> 2 ^ a \<le> getMaxBtSize cs ch \<and> 2 ^ b \<le> getMaxBtSize cs ch \<and> getMaxBtDepth cs ch \<noteq> 0"
      using mc(1)[OF mtimp] s sq by (cases "mt_count (l # ls) = 0") (auto simp: is_btt_def)
    have hz: "implicit_of cs ch (l # ls) = CU_HORZ_SPLIT \<Longrightarrow> int (picH cs) < y + 2 ^ b"
      using mc[OF mtimp] s sq by (cases "mt_count (l # ls) = 0") (auto split: if_splits)
    have vt: "implicit_of cs ch (l # ls) = CU_VERT_SPLIT \<Longrightarrow> int (picW cs) < x + 2 ^ a"
      using mc[OF mtimp] s sq True by (cases "mt_count (l # ls) = 0") (auto simp: sticks_def split: if_splits)
    have fb: "implicit_of cs ch (l # ls) = CU_QUAD_SPLIT"
      if "\<not> canBh (implicit_flags (lv_implicitSplit l) q p)" "\<not> canBv (implicit_flags (lv_implicitSplit l) q p)" for q
    proof -
      have "implicit_of cs ch (l # ls) \<noteq> CU_HORZ_SPLIT"
        using that(1) imp by (auto simp: implicit_flags_def Let_def)
      moreover have "implicit_of cs ch (l # ls) \<noteq> CU_VERT_SPLIT"
      proof
        assume v: "implicit_of cs ch (l # ls) = CU_VERT_SPLIT"
        then have "ch = CHROMA \<and> width (blkCb (level_area l)) = 4"
          using that(2) imp by (auto simp: implicit_flags_def Let_def ch area)
        then show False using node_chroma_width[of cs] c n lx[OF vt[OF v]] by blast
      qed
      ultimately show ?thesis
        using mc[OF mtimp] s sq by (cases "mt_count (l # ls) = 0") (auto split: if_splits)
    qed
    have q0: "implicit_of cs ch (l # ls) = CU_QUAD_SPLIT \<Longrightarrow> mt_count (l # ls) = 0 \<and> a = b \<and> cs_log2MinCB cs < a"
    proof -
      assume q: "implicit_of cs ch (l # ls) = CU_QUAD_SPLIT"
      have m0: "mt_count (l # ls) = 0" proof (rule ccontr)
        assume m: "mt_count (l # ls) \<noteq> 0"
        show False using mc(2)[OF mtimp m] s q m by (simp split: if_splits)
      qed
      then show ?thesis using sq lx ly True by (auto simp: sticks_def)
    qed
    have big: "a = b \<Longrightarrow> 3 < b" using lx ly True by (auto simp: sticks_def)
    from cs(2)[OF dont] show ?thesis
    proof (elim disjE conjE)
      assume "split = CU_QUAD_SPLIT" "can_qt_rule cs p"
      then show ?thesis using qt big by (simp add: split_facts_def exp_fits_def is_btt_def)
    next
      assume q: "split = CU_QUAD_SPLIT" "\<not> canBh (implicit_flags (lv_implicitSplit l) (can_qt_rule cs p) p)"
        "\<not> canBv (implicit_flags (lv_implicitSplit l) (can_qt_rule cs p) p)"
      show ?thesis using q(1) q0[OF fb[OF q(2,3)]] big by (simp add: split_facts_def exp_fits_def is_btt_def)
    next
      assume h: "split = CU_HORZ_SPLIT" "lv_implicitSplit l = CU_HORZ_SPLIT"
      then show ?thesis using bnd ly[OF hz] imp by (auto simp: split_facts_def exp_fits_def is_btt_def)
    next
      assume v: "split = CU_VERT_SPLIT" "lv_implicitSplit l = CU_VERT_SPLIT"
      then show ?thesis using bnd lx[OF vt] imp by (auto simp: split_facts_def exp_fits_def is_btt_def)
    qed
  qed
qed

end
