(* ===== verification/TreeWalk.thy ===== *)
theory TreeWalk
  imports TreeGeometry
begin

text \<open>
  The walks of the coding tree that the split rules allow, from a tree unit in the picture: the
  areas stay nodes of the tree, every allowed split can be performed, and the walk is bounded.
\<close>

section \<open>Walks of the coding tree\<close>

text \<open>The steps of a coder of the tree: coding-unit splits of areas in the picture that the rules
  allow, with the tree and mode type the parts get, advancing, leaving, and the channel changes of the local dual tree, where the chroma area
  is not split again.  The forced split of an area is asked for in the channel the tree is coded
  in, unless it is known already.\<close>

inductive tree_walk :: "PartCfg \<Rightarrow> ChannelType \<Rightarrow> Partitioner \<Rightarrow> bool" for cs ch where
  walk_init: "0 \<le> x \<Longrightarrow> 0 \<le> y \<Longrightarrow> 2 ^ n dvd x \<Longrightarrow> 2 ^ n dvd y \<Longrightarrow> x < int (picW cs) \<Longrightarrow> y < int (picH cs) \<Longrightarrow>
    cs_log2MinCB cs \<le> n \<Longrightarrow> n \<le> 7 \<Longrightarrow> tree_walk cs ch (initCtu (unit_of_luma (cs_format cs) x y (2 ^ n) (2 ^ n)) ch p)"
| walk_query: "tree_walk cs ch p \<Longrightarrow> currPartIdx p < length (lv_parts (currPartLevel p)) \<Longrightarrow>
    chType p = ch \<or> lv_checkdIfImplicit (currPartLevel p) \<Longrightarrow> tree_walk cs ch (snd (getImplicitSplit cs p))"
| walk_split: "tree_walk cs ch p \<Longrightarrow> currPartIdx p < length (lv_parts (currPartLevel p)) \<Longrightarrow> in_pic cs (currArea p) \<Longrightarrow>
    lv_checkdIfImplicit (currPartLevel p) \<Longrightarrow> cu_split split \<Longrightarrow> canSplit split cs p = Some (True, p) \<Longrightarrow>
    splitCurrArea split cs (p\<lparr>treeType := tt, modeType := mt\<rparr>) = Some q \<Longrightarrow> tree_walk cs ch q"
| walk_next: "tree_walk cs ch p \<Longrightarrow> currPartIdx p < length (lv_parts (currPartLevel p)) \<Longrightarrow>
    nextPart (cs\<lparr>cs_cus := cus\<rparr>) False p = Some (b, q) \<Longrightarrow> tree_walk cs ch q"
| walk_exit: "tree_walk cs ch p \<Longrightarrow> 1 < length (m_partStack p) \<Longrightarrow> exitCurrSplit p = Some q \<Longrightarrow> tree_walk cs ch q"
| walk_mode: "tree_walk cs ch p \<Longrightarrow> c = ch \<or> tt = TREE_C \<Longrightarrow> tree_walk cs ch (p\<lparr>chType := c, treeType := tt, modeType := mt\<rparr>)"

lemma part_inv_head:
  assumes "lv_split l' = lv_split l"
  shows "part_inv cs ch (l' # ls) u = part_inv cs ch (l # ls) u"
  by (simp add: part_inv_def head_only(1,4)[OF assms])

text \<open>The invariant of a part, introduced and used clause by clause.\<close>

definition stick_facts :: "PartCfg \<Rightarrow> ChannelType \<Rightarrow> PartLevel list \<Rightarrow> int \<Rightarrow> int \<Rightarrow> nat \<Rightarrow> nat \<Rightarrow> bool" where
  "stick_facts cs ch ls x y a b = (2 ^ a dvd x \<and> 2 ^ b dvd y \<and> mt_count ls = implicit_count ls \<and>
     (mt_count ls \<noteq> 0 \<longrightarrow> a \<le> 6 \<and> b \<le> 6 \<and> 2 ^ a \<le> getMaxBtSize cs ch \<and> 2 ^ b \<le> getMaxBtSize cs ch \<and> getMaxBtDepth cs ch \<noteq> 0) \<and> 3 \<le> a \<and> 3 \<le> b)"

lemma part_invI:
  assumes "node cs u x y a b" "a + b + length ls \<le> 15" "mt_count ls = 0 \<longrightarrow> a = b"
    "isDualITree cs \<and> mt_count ls \<noteq> 0 \<longrightarrow> a \<le> 6 \<and> b \<le> 6" "sticks cs x y a b \<longrightarrow> stick_facts cs ch ls x y a b"
  shows "part_inv cs ch ls u"
  unfolding part_inv_def stick_facts_def[symmetric]
  by (rule exI[of _ x], rule exI[of _ y], rule exI[of _ a], rule exI[of _ b])
     (intro conjI assms(1-4), blast intro: assms(5)[rule_format])

lemma part_invE:
  assumes "part_inv cs ch ls u" "in_pic cs u"
  obtains x y a b where "node cs u x y a b" "a + b + length ls \<le> 15" "mt_count ls = 0 \<longrightarrow> a = b"
    "isDualITree cs \<and> mt_count ls \<noteq> 0 \<longrightarrow> a \<le> 6 \<and> b \<le> 6" "sticks cs x y a b \<longrightarrow> stick_facts cs ch ls x y a b"
  using assms unfolding part_inv_def stick_facts_def[symmetric] by (elim exE conjE) (rule that, simp_all only: simp_thms)

lemma ctu_part_inv:
  assumes c: "cfg_ok cs ch" and "0 \<le> x" "0 \<le> y" "2 ^ n dvd x" "2 ^ n dvd y" "x < int (picW cs)" "y < int (picH cs)"
    "cs_log2MinCB cs \<le> n" "n \<le> 7"
  shows "part_inv cs ch [partLevel CTU_LEVEL [unit_of_luma (cs_format cs) x y (2 ^ n) (2 ^ n)]] (unit_of_luma (cs_format cs) x y (2 ^ n) (2 ^ n))"
proof -
  have p: "(2::int) ^ cs_log2MinCB cs dvd 2 ^ n" using assms(8) by (rule le_imp_power_dvd)
  have s: "(2::int) ^ n \<le> 2 ^ 7" using assms(9) by (intro power_increasing) simp_all
  have w: "int (picW cs) \<le> 2 ^ 30" "int (picH cs) \<le> 2 ^ 30" using c by (simp_all add: cfg_ok_def)
  have "x + 2 ^ n \<le> 2 ^ 31" "y + 2 ^ n \<le> 2 ^ 31" using s w assms(6,7) by simp_all
  then have "node cs (unit_of_luma (cs_format cs) x y (2 ^ n) (2 ^ n)) x y n n"
    using assms p unfolding node_def by (auto intro: dvd_trans)
  moreover have "mt_count [partLevel CTU_LEVEL [unit_of_luma (cs_format cs) x y (2 ^ n) (2 ^ n)]] = 0"
    by (simp add: mt_count_def partLevel_def kind_defs)
  moreover have "3 < n" if "sticks cs x y n n"
    using that c assms(4-7) sticks_large(1)[of x "picW cs" n "cs_log2MinCB cs"] sticks_large(1)[of y "picH cs" n "cs_log2MinCB cs"]
    by (auto simp: sticks_def cfg_ok_def)
  ultimately show ?thesis
    by (intro part_invI[where x = x and y = y and a = n and b = n])
       (use assms(4,5,9) in \<open>auto simp: stick_facts_def\<close>)
qed

text \<open>The parts of an allowed split keep the invariant.\<close>

lemma child_part_inv:
  assumes c: "cfg_ok cs ch" and pic: "in_pic cs u" and n: "node cs u x y a b"
    and bud: "a + b + length (l # ls) \<le> 15"
    and stk: "sticks cs x y a b \<longrightarrow> 2 ^ a dvd x \<and> 2 ^ b dvd y \<and> mt_count (l # ls) = implicit_count (l # ls) \<and> 3 \<le> a \<and> 3 \<le> b"
    and f: "split_facts cs ch (l # ls) split x y a b" and imp: "is_btt split \<and> split = implicit_of cs ch (l # ls) \<longrightarrow> lv_isImplicit l"
    and i: "i < part_count split" and ns: "lv_split nl = split" and cu: "cu_split split"
  shows "part_inv cs ch (nl # l # ls) (luma_unit (cs_format cs) (part_rect split i (x, y, 2 ^ a, 2 ^ b)))"
proof -
  have e: "exp_fits (cs_log2MinCB cs) split a b" using f by (simp add: split_facts_def)
  have lm: "2 \<le> cs_log2MinCB cs" "1 \<le> cs_log2MinCB cs" using c by (simp_all add: cfg_ok_def)
  define a' where "a' = fst (child_exps split i a b)"
  define b' where "b' = snd (child_exps split i a b)"
  define x' where "x' = fst (child_pos split i x y a b)"
  define y' where "y' = snd (child_pos split i x y a b)"
  have nd: "node cs (luma_unit (cs_format cs) (part_rect split i (x, y, 2 ^ a, 2 ^ b))) x' y' a' b'"
    unfolding x'_def y'_def a'_def b'_def by (rule child_node[OF n e i lm(1)])
  have le: "a' + b' < a + b" "a' \<le> a" "b' \<le> b"
    using child_exps_less[OF e, of i] by (simp_all add: a'_def b'_def)
  have within: "x' + 2 ^ a' \<le> x + 2 ^ a" "y' + 2 ^ b' \<le> y + 2 ^ b"
    using child_within[OF e i lm(2), where x = x and y = y] by (simp_all add: a'_def b'_def x'_def y'_def)
  have kind: "is_btt split \<or> split = CU_QUAD_SPLIT" using cu by (auto simp: cu_split_def)
  have mt: "mt_count (nl # l # ls) = of_bool (is_btt split) + mt_count (l # ls)"
    by (simp add: mt_count_def ns)
  have ic: "implicit_count (nl # l # ls) = of_bool (is_btt split \<and> lv_isImplicit l) + implicit_count (l # ls)"
    by (simp add: ns)
  have nb: "\<not> is_btt CU_QUAD_SPLIT" by (simp add: is_btt_def)
  have quad: "split = CU_QUAD_SPLIT \<Longrightarrow> mt_count (nl # l # ls) = 0 \<and> a = b"
    using f mt nb by (simp add: split_facts_def)
  have sq: "mt_count (nl # l # ls) = 0 \<longrightarrow> a' = b'"
    using kind mt quad by (auto simp: a'_def b'_def child_exps_def)
  have dual: "isDualITree cs \<and> mt_count (nl # l # ls) \<noteq> 0 \<longrightarrow> a' \<le> 6 \<and> b' \<le> 6"
    using kind quad f le by (auto simp: split_facts_def)
  have st: "2 ^ a' dvd x' \<and> 2 ^ b' dvd y' \<and> mt_count (nl # l # ls) = implicit_count (nl # l # ls) \<and>
        (mt_count (nl # l # ls) \<noteq> 0 \<longrightarrow> a' \<le> 6 \<and> b' \<le> 6 \<and> 2 ^ a' \<le> getMaxBtSize cs ch \<and> 2 ^ b' \<le> getMaxBtSize cs ch \<and> getMaxBtDepth cs ch \<noteq> 0) \<and> 3 \<le> a' \<and> 3 \<le> b'"
    if "sticks cs x' y' a' b'"
  proof -
    have ps: "sticks cs x y a b" using that within by (auto simp: sticks_def)
    note k = stk[rule_format, OF ps]
    have sp: "split \<in> {CU_QUAD_SPLIT, CU_HORZ_SPLIT, CU_VERT_SPLIT}"
      and bt: "is_btt split \<Longrightarrow> split = implicit_of cs ch (l # ls) \<and> a \<le> 6 \<and> b \<le> 6 \<and> 2 ^ a \<le> getMaxBtSize cs ch \<and> 2 ^ b \<le> getMaxBtSize cs ch \<and> getMaxBtDepth cs ch \<noteq> 0"
      using f ps by (simp_all add: split_facts_def)
    have al: "2 ^ a' dvd x'" "2 ^ b' dvd y'"
      unfolding a'_def b'_def x'_def y'_def using child_aligned_own[OF e sp] k by simp_all
    have cnt: "mt_count (nl # l # ls) = implicit_count (nl # l # ls)"
      unfolding mt ic using k bt imp by auto
    have pw: "2 ^ a \<le> m \<Longrightarrow> 2 ^ a' \<le> m" "2 ^ b \<le> m \<Longrightarrow> 2 ^ b' \<le> m" for m :: nat
      using le_trans[OF power_increasing[OF le(2), of "2::nat"]] le_trans[OF power_increasing[OF le(3), of "2::nat"]] by simp_all
    have "mt_count (nl # l # ls) \<noteq> 0 \<longrightarrow> a' \<le> 6 \<and> b' \<le> 6 \<and> 2 ^ a' \<le> getMaxBtSize cs ch \<and> 2 ^ b' \<le> getMaxBtSize cs ch \<and> getMaxBtDepth cs ch \<noteq> 0"
    proof
      assume "mt_count (nl # l # ls) \<noteq> 0"
      then have "is_btt split" using kind quad by auto
      from bt[OF this] show "a' \<le> 6 \<and> b' \<le> 6 \<and> 2 ^ a' \<le> getMaxBtSize cs ch \<and> 2 ^ b' \<le> getMaxBtSize cs ch \<and> getMaxBtDepth cs ch \<noteq> 0"
        using le(2,3) pw by simp
    qed
    moreover have "3 \<le> a' \<and> 3 \<le> b'"
      using f ps k sp quad by (auto simp: split_facts_def a'_def b'_def child_exps_def)
    ultimately show ?thesis using al cnt by simp
  qed
  have bud': "a' + b' + length (nl # l # ls) \<le> 15" using le(1) bud by simp
  show ?thesis
    by (rule part_invI[OF nd bud' sq dual]) (unfold stick_facts_def, rule impI, rule st)
qed

lemma split_some:
  assumes st: "m_partStack p = l # ls" and chk: "lv_checkdIfImplicit l" and cu: "cu_split split"
    and parts: "getCUSubPartitions (level_area l) cs split = Some parts"
    and quad: "split = CU_QUAD_SPLIT \<longrightarrow> currBtDepth p = 0 \<and> currMtDepth p = 0"
  obtains q nl where "splitCurrArea split cs p = Some q" "m_partStack q = nl # l # ls" "lv_split nl = split" "lv_parts nl = parts"
    "lv_idx nl = 0" "\<not> lv_checkdIfImplicit nl" "chType q = chType p" "treeType q = treeType p" "modeType q = modeType p"
proof -
  have kind: "is_btt split \<or> split = CU_QUAD_SPLIT" using cu by (auto simp: cu_split_def)
  define new where "new = (partLevel split parts)\<lparr>lv_modeType := modeType p\<rparr>"
  have nw: "new_level split cs p = Some new"
    using kind parts by (auto simp: new_level_def new_def currArea_def currPartLevel_def st)
  have cl: "currPartLevel p = l" by (simp add: currPartLevel_def st)
  have c: "lv_checkdIfImplicit (currPartLevel p)" using chk by (simp add: cl)
  obtain e where e: "canSplit CU_QUAD_SPLIT cs p = Some (e, p)"
    using c by (simp add: canSplit_def canSplit_all_def is_sbt_split_def Let_def)
  have "\<exists>b. enter_depths split (split = lv_implicitSplit l) e (p\<lparr>m_partStack := new # l # ls\<rparr>) = Some b"
    using kind quad by (auto simp: enter_depths_def Let_def not_gt0_word is_btt_def)
  then obtain b where b: "enter_depths split (split = lv_implicitSplit l) e (p\<lparr>m_partStack := new # l # ls\<rparr>) = Some b" by blast
  have q: "splitCurrArea split cs p = Some (enter_qg cs (lv_qgEnable l) (lv_qgChromaEnable l) b)"
    using b unfolding splitCurrArea_def isSplitImplicit_def implicit_cached[OF c]
    by (simp add: e nw cl st currQgEnable_def currQgChromaEnable_def)
  obtain d where d: "m_partStack b = new\<lparr>lv_canQtSplit := d\<rparr> # l # ls"
    using enter_depths_stack[OF b] by auto
  show thesis
    by (rule that[OF q enter_qg_stack[OF d]])
       (use enter_depths_same[OF b] in \<open>simp_all add: new_def partLevel_def\<close>)
qed

text \<open>What a step needs of the current area.\<close>

lemma walk_area:
  assumes w: "walk_ok cs ch p" and st: "m_partStack p = l # ls" and idx: "lv_idx l < length (lv_parts l)"
  shows "part_inv cs ch (l # ls) (level_area l)"
  using w idx by (auto simp: walk_ok_def st level_area_def)

lemma cfg_no2: "cfg_ok cs ch \<Longrightarrow> \<not> cs_noChroma2x2 cs" "cfg_ok cs ch \<Longrightarrow> 2 \<le> cs_log2MinCB cs"
  by (simp_all add: cfg_ok_def)

lemma luma_unit_node: "node cs u x y a b \<Longrightarrow> u = luma_unit (cs_format cs) (x, y, 2 ^ a, 2 ^ b)"
  by (simp add: node_def luma_unit_def)

definition split_parts :: "PartCfg \<Rightarrow> PartSplit \<Rightarrow> int \<Rightarrow> int \<Rightarrow> nat \<Rightarrow> nat \<Rightarrow> UnitArea list" where
  "split_parts cs split x y a b =
    map (\<lambda>i. luma_unit (cs_format cs) (part_rect split i (x, y, 2 ^ a, 2 ^ b))) [0..<part_count split]"

lemma walk_split_step:
  assumes c: "cfg_ok cs ch" and w: "walk_ok cs ch p" and st: "m_partStack p = l # ls"
    and idx: "lv_idx l < length (lv_parts l)" and pic: "in_pic cs (level_area l)" and chk: "lv_checkdIfImplicit l"
    and cu: "cu_split split" and can: "canSplit split cs p = Some (True, p)" and n: "part_inv cs ch (l # ls) (level_area l)"
  obtains q nl x y a b where "node cs (level_area l) x y a b" "split_facts cs ch (l # ls) split x y a b"
    "splitCurrArea split cs (p\<lparr>treeType := tt, modeType := mt\<rparr>) = Some q" "m_partStack q = nl # l # ls" "lv_split nl = split" "lv_idx nl = 0"
    "lv_parts nl = split_parts cs split x y a b" "chType q = chType p" "treeType q = tt" "modeType q = mt"
    "walk_ok cs ch q"
proof -
  obtain x y a b where nd: "node cs (level_area l) x y a b" and bud: "a + b + length (l # ls) \<le> 15"
    and sq: "mt_count (l # ls) = 0 \<longrightarrow> a = b" and dual: "isDualITree cs \<and> mt_count (l # ls) \<noteq> 0 \<longrightarrow> a \<le> 6 \<and> b \<le> 6"
    and sf: "sticks cs x y a b \<longrightarrow> stick_facts cs ch (l # ls) x y a b"
    by (rule part_invE[OF n pic])
  have stk: "sticks cs x y a b \<longrightarrow> 2 ^ a dvd x \<and> 2 ^ b dvd y \<and> mt_count (l # ls) = implicit_count (l # ls) \<and>
        (mt_count (l # ls) \<noteq> 0 \<longrightarrow> a \<le> 6 \<and> b \<le> 6 \<and> 2 ^ a \<le> getMaxBtSize cs ch \<and> 2 ^ b \<le> getMaxBtSize cs ch \<and> getMaxBtDepth cs ch \<noteq> 0)"
    using sf unfolding stick_facts_def by blast
  have f: "split_facts cs ch (l # ls) split x y a b"
    by (rule allowed_facts[OF c w st chk idx pic cu can nd sq dual stk])
  have e: "exp_fits (cs_log2MinCB cs) split a b" using f by (simp add: split_facts_def)
  have parts: "getCUSubPartitions (level_area l) cs split = Some (split_parts cs split x y a b)"
    unfolding split_parts_def luma_unit_node[OF nd]
    by (rule parts_luma[OF exp_fits_split_fits[OF e cfg_no2(2)[OF c]] cfg_no2(1)[OF c]])
  have so: "state_ok p" and g: "geo cs ch (l # ls)" and cht: "chType p = ch"
    using w canSplit_checked(1)[OF chk st cu can] by (simp_all add: walk_ok_def st)
  let ?p = "p\<lparr>treeType := tt, modeType := mt\<rparr>"
  have "?p = p\<lparr>chType := chType p, treeType := tt, modeType := mt\<rparr>" by (cases p) simp
  then have so': "state_ok ?p" using state_ok_mode[OF so] by metis
  have st': "m_partStack ?p = l # ls" using st by simp
  have len: "length (l # ls) \<le> 15" using so by (simp add: state_ok_def st)
  have cnt: "currBtDepth p = of_nat (sum_list (map bt_weight (l # ls)))" "currMtDepth p = of_nat (mt_count (l # ls))"
    using so by (simp_all add: state_ok_def counters_ok_def st Let_def)
  have quad: "split = CU_QUAD_SPLIT \<longrightarrow> currBtDepth ?p = 0 \<and> currMtDepth ?p = 0"
  proof
    assume "split = CU_QUAD_SPLIT"
    then have m: "mt_count (l # ls) = 0" using f by (simp add: split_facts_def)
    then show "currBtDepth ?p = 0 \<and> currMtDepth ?p = 0"
      using cnt bt_word_zero[OF len] by simp
  qed
  obtain q nl where q: "splitCurrArea split cs ?p = Some q" "m_partStack q = nl # l # ls" "lv_split nl = split"
    "lv_parts nl = split_parts cs split x y a b" "lv_idx nl = 0" "\<not> lv_checkdIfImplicit nl" "chType q = chType ?p" "treeType q = treeType ?p"
    "modeType q = modeType ?p"
    by (rule split_some[OF st' chk cu parts quad])
  have nt: "\<not> is_tu split" using cu by (auto simp: cu_split_def kind_defs)
  have flag: "flags_ok l" using so by (simp add: state_ok_def st)
  have imp: "is_btt split \<and> split = implicit_of cs ch (l # ls) \<longrightarrow> lv_isImplicit l"
    using g flag chk idx by (auto simp: flags_ok_def is_btt_def)
  have stk': "sticks cs x y a b \<longrightarrow> 2 ^ a dvd x \<and> 2 ^ b dvd y \<and> mt_count (l # ls) = implicit_count (l # ls) \<and> 3 \<le> a \<and> 3 \<le> b"
    using sf by (simp add: stick_facts_def)
  have "\<forall>u\<in>set (lv_parts nl). part_inv cs ch (nl # l # ls) u"
    unfolding q(4) split_parts_def using child_part_inv[OF c pic nd bud stk' f imp _ q(3) cu] by auto
  then have "geo cs ch (m_partStack q)"
    using g q(6) nt by (simp add: q(2) q(3))
  moreover have "state_ok q"
  proof (rule state_ok_split_core[OF so' st' chk idx _ _ _ q(1)])
    have "2 \<le> a" "2 \<le> b" using nd cfg_no2(2)[OF c] by (auto simp: node_def)
    then show "length (l # ls) < 15" using bud by simp
    show "is_tu split \<or> \<not> is_tu (lv_split l)" using g by simp
    show "lv_implicitSplit l = split" if "is_btt split" "lv_implicitSplit l \<noteq> CU_DONT_SPLIT"
      using canSplit_btt_implicit[OF can that(1)] that(2) by (simp add: st currPartLevel_def)
  qed
  ultimately have "walk_ok cs ch q" using cht q(7) by (simp add: walk_ok_def)
  then show thesis
    by (intro that[OF nd f q(1,2,3,5,4)]) (use q(7-9) in simp_all)
qed

text \<open>The other steps keep the invariant.\<close>

lemma implicit_of_head:
  assumes "lv_split l' = lv_split l" "lv_idx l' = lv_idx l" "lv_parts l' = lv_parts l"
  shows "implicit_of cs ch (l' # ls) = implicit_of cs ch (l # ls)"
proof -
  have "level_area l' = level_area l" "bt_weight l' = bt_weight l"
    using assms by (simp_all add: level_area_def bt_weight_def)
  then show ?thesis
    by (simp add: implicit_of_def implicit_rule_def stack_state_def Let_def currArea_def currPartLevel_def head_only(1,4)[OF assms(1)])
qed

lemma walk_ok_query:
  assumes w: "walk_ok cs ch p" and k: "chType p = ch \<or> lv_checkdIfImplicit (currPartLevel p)"
  shows "walk_ok cs ch (snd (getImplicitSplit cs p))"
proof (cases "lv_checkdIfImplicit (currPartLevel p)")
  case True
  then show ?thesis using w by (simp add: implicit_cached)
next
  case False
  have so: "state_ok p" using w by (simp add: walk_ok_def)
  obtain l ls where st: "m_partStack p = l # ls" using state_ok_stack[OF so] .
  let ?l = "l\<lparr>lv_checkdIfImplicit := True, lv_isImplicit := (implicit_rule cs p \<noteq> CU_DONT_SPLIT), lv_implicitSplit := implicit_rule cs p\<rparr>"
  have q: "snd (getImplicitSplit cs p) = p\<lparr>m_partStack := ?l # ls\<rparr>"
    using False by (simp add: getImplicitSplit_def currPartLevel_def st upd_back_def Let_def)
  have "implicit_rule cs p = implicit_of cs ch (?l # ls)"
    using implicit_rule_of[of p cs] so k False implicit_of_head[of ?l l cs ch ls]
    by (simp add: state_ok_def st)
  then have "geo cs ch (?l # ls)"
    using w part_inv_head[of ?l l cs ch ls] by (simp add: walk_ok_def st)
  moreover have "state_ok (p\<lparr>m_partStack := ?l # ls\<rparr>)" using state_ok_query[OF so, of cs] unfolding q .
  ultimately show ?thesis using w unfolding q walk_ok_def by simp
qed

lemma walk_ok_next:
  assumes w: "walk_ok cs ch p" and idx: "currPartIdx p < length (lv_parts (currPartLevel p))"
    and n: "nextPart cs' False p = Some (b, q)"
  shows "walk_ok cs ch q"
proof -
  have so: "state_ok p" using w by (simp add: walk_ok_def)
  obtain l ls where st: "m_partStack p = l # ls" using state_ok_stack[OF so] .
  obtain f where q: "m_partStack q = l\<lparr>lv_idx := lv_idx l + 1, lv_checkdIfImplicit := False, lv_isImplicit := False, lv_firstSubPartSplit := f\<rparr> # ls"
    by (rule nextPart_shape[OF n st])
  have "geo cs ch (m_partStack q)"
    using w part_inv_head[of "l\<lparr>lv_idx := lv_idx l + 1, lv_checkdIfImplicit := False, lv_isImplicit := False, lv_firstSubPartSplit := f\<rparr>" l cs ch ls]
    by (simp add: walk_ok_def st q)
  then show ?thesis
    using w state_ok_next[OF so idx n] nextPart_same[OF n] by (simp add: walk_ok_def)
qed

lemma walk_ok_exit:
  assumes w: "walk_ok cs ch p" and len: "1 < length (m_partStack p)" and e: "exitCurrSplit p = Some q"
  shows "walk_ok cs ch q"
proof -
  have so: "state_ok p" using w by (simp add: walk_ok_def)
  obtain q' where "exitCurrSplit p = Some q'" "state_ok q'" "m_partStack q' = tl (m_partStack p)" "chType q' = chType p" "treeType q' = treeType p"
    by (rule exit_state[OF so len])
  moreover have "geo cs ch (tl (m_partStack p))"
    using w by (cases "m_partStack p") (simp_all add: walk_ok_def)
  ultimately show ?thesis using w e by (simp add: walk_ok_def)
qed

lemma walk_ok_mode: "walk_ok cs ch p \<Longrightarrow> c = ch \<or> tt = TREE_C \<Longrightarrow> walk_ok cs ch (p\<lparr>chType := c, treeType := tt, modeType := mt\<rparr>)"
  using state_ok_mode by (simp add: walk_ok_def)

lemma walk_ok_init:
  assumes "cfg_ok cs ch" "0 \<le> x" "0 \<le> y" "2 ^ n dvd x" "2 ^ n dvd y" "x < int (picW cs)" "y < int (picH cs)"
    "cs_log2MinCB cs \<le> n" "n \<le> 7"
  shows "walk_ok cs ch (initCtu (unit_of_luma (cs_format cs) x y (2 ^ n) (2 ^ n)) ch p)"
  using state_ok_init[of "unit_of_luma (cs_format cs) x y (2 ^ n) (2 ^ n)" ch p] ctu_part_inv[OF assms]
  by (simp add: walk_ok_def initCtu_def partLevel_def kind_defs)

lemma tree_walk_ok:
  assumes "cfg_ok cs ch"
  shows "tree_walk cs ch p \<Longrightarrow> walk_ok cs ch p"
proof (induction rule: tree_walk.induct)
  case (walk_init x y n p)
  show ?case by (rule walk_ok_init[OF assms]) fact+
next
  case (walk_query p)
  show ?case by (rule walk_ok_query) fact+
next
  case (walk_split p split mt tt q)
  obtain l ls where st: "m_partStack p = l # ls" using walk_split.IH state_ok_stack unfolding walk_ok_def by blast
  have k: "lv_idx l < length (lv_parts l)" "in_pic cs (level_area l)" "lv_checkdIfImplicit l"
    using walk_split.hyps by (simp_all add: st currPartIdx_def currPartLevel_def currArea_def)
  obtain q' where "splitCurrArea split cs (p\<lparr>treeType := tt, modeType := mt\<rparr>) = Some q'" "walk_ok cs ch q'"
    using walk_split_step[OF assms walk_split.IH st k walk_split.hyps(5,6) walk_area[OF walk_split.IH st k(1)]] by blast
  then show ?case using walk_split.hyps(7) by simp
next
  case (walk_next p cus b q)
  show ?case by (rule walk_ok_next) fact+
next
  case (walk_exit p q)
  show ?case by (rule walk_ok_exit) fact+
next
  case (walk_mode p c tt mt)
  show ?case by (rule walk_ok_mode) fact+
qed

lemma canSplit_all_query:
  assumes "m_partStack p \<noteq> []"
  shows "canSplit_all cs (snd (getImplicitSplit cs p)) = canSplit_all cs p"
proof -
  obtain s q where g: "getImplicitSplit cs p = (s, q)" by (cases "getImplicitSplit cs p") simp
  have c: "lv_checkdIfImplicit (currPartLevel q)" using checked_after_query[OF assms, of cs] g by simp
  have i: "lv_implicitSplit (currPartLevel q) = s"
    using g assms by (cases "m_partStack p") (auto simp: getImplicitSplit_def Let_def upd_back_def currPartLevel_def split: if_splits)
  have "(if lv_checkdIfImplicit (currPartLevel p) then (lv_implicitSplit (currPartLevel p), p) else getImplicitSplit cs p) = (s, q)"
    using g by (auto simp: getImplicitSplit_def split: if_splits)
  then show ?thesis by (simp add: canSplit_all_def g c i)
qed

lemma canSplit_query:
  assumes "canSplit split cs p = Some (b, p')" "m_partStack p \<noteq> []"
  shows "canSplit split cs p' = Some (b, p')"
  using assms(1) canSplit_all_query[OF assms(2), of cs] unfolding canSplit_state[OF assms(1)]
  by (simp add: canSplit_def)

lemma tree_walk_depth:
  assumes c: "cfg_ok cs ch" and w: "walk_ok cs ch p" and st: "m_partStack p = l # ls" and ne: "lv_parts l \<noteq> []"
  shows "length (m_partStack p) \<le> 11"
proof -
  obtain u where "u \<in> set (lv_parts l)" using ne by (cases "lv_parts l") auto
  then have "part_inv cs ch (l # ls) u" using w by (simp add: walk_ok_def st)
  then obtain x y a b where "node cs u x y a b" "a + b + length (l # ls) \<le> 15"
    unfolding part_inv_def by blast
  then show ?thesis using cfg_no2(2)[OF c] by (simp add: st node_def)
qed

lemma allowed_split_aux:
  assumes c: "cfg_ok cs ch" and w: "tree_walk cs ch p" and idx: "currPartIdx p < length (lv_parts (currPartLevel p))"
    and pic: "in_pic cs (currArea p)" and k: "chType p = ch \<or> lv_checkdIfImplicit (currPartLevel p)"
    and cu: "cu_split split" and can: "canSplit split cs p = Some (True, p')"
  obtains l ls x y a b q nl where "m_partStack p' = l # ls" "level_area l = currArea p" "node cs (currArea p) x y a b"
    "split_facts cs ch (l # ls) split x y a b" "tree_walk cs ch p'"
    "splitCurrArea split cs (p'\<lparr>treeType := tt, modeType := mt\<rparr>) = Some q" "m_partStack q = nl # l # ls" "lv_split nl = split" "lv_idx nl = 0"
    "lv_parts nl = split_parts cs split x y a b" "tree_walk cs ch q" "chType q = chType p'" "treeType q = tt" "modeType q = mt"
proof -
  have so: "state_ok p" using tree_walk_ok[OF c w] by (simp add: walk_ok_def)
  obtain l0 ls where st0: "m_partStack p = l0 # ls" using state_ok_stack[OF so] .
  have p': "p' = snd (getImplicitSplit cs p)" by (rule canSplit_state[OF can])
  have w': "tree_walk cs ch p'" unfolding p' by (rule walk_query[OF w idx k])
  obtain l where st: "m_partStack p' = l # ls" "lv_split l = lv_split l0" "lv_idx l = lv_idx l0" "lv_parts l = lv_parts l0"
    unfolding p' by (rule query_stack[OF st0])
  have ar: "level_area l = currArea p" by (simp add: level_area_def currArea_def currPartLevel_def st0 st)
  have i: "lv_idx l < length (lv_parts l)" using idx by (simp add: currPartIdx_def currPartLevel_def st0 st)
  have chk: "lv_checkdIfImplicit l"
    using checked_after_query[of p cs] st0 st(1) unfolding p' by (simp add: currPartLevel_def)
  have can': "canSplit split cs p' = Some (True, p')" by (rule canSplit_query[OF can]) (simp add: st0)
  note ok = tree_walk_ok[OF c w']
  obtain q nl x y a b where q: "node cs (level_area l) x y a b" "split_facts cs ch (l # ls) split x y a b"
    "splitCurrArea split cs (p'\<lparr>treeType := tt, modeType := mt\<rparr>) = Some q" "m_partStack q = nl # l # ls" "lv_split nl = split" "lv_idx nl = 0"
    "lv_parts nl = split_parts cs split x y a b" "chType q = chType p'" "treeType q = tt" "modeType q = mt"
    by (rule walk_split_step[OF c ok st(1) i pic[folded ar] chk cu can' walk_area[OF ok st(1) i]])
  have "tree_walk cs ch q"
    by (rule walk_split[OF w' _ _ _ cu can' q(3)])
       (use i chk pic ar in \<open>simp_all add: currPartIdx_def currPartLevel_def currArea_def st(1)\<close>)
  then show thesis by (rule that[OF st(1) ar q(1)[unfolded ar] q(2) w' q(3-7)]) (rule q)+
qed

section \<open>Properties\<close>

lemma sample_cfg_parts:
  "picW sample_part_cfg = 128" "picH sample_part_cfg = 96" "cs_log2MinCB sample_part_cfg = 2" "getMinQtSize sample_part_cfg LUMA = 8"
  "getMaxBtSize sample_part_cfg LUMA = 64" "getMaxBtDepth sample_part_cfg LUMA = 3" "cs_noChroma2x2 sample_part_cfg = False"
  "cs_format sample_part_cfg = CF_420" "cs_picture sample_part_cfg = unit_of_luma CF_420 0 0 128 96"
  by code_simp+

lemma sample_cfg_ok: "cfg_ok sample_part_cfg LUMA"
  unfolding cfg_ok_def sample_cfg_parts by simp

lemma sample_walk: "tree_walk sample_part_cfg LUMA sample_ctu"
proof -
  have e: "sample_ctu = initCtu (unit_of_luma (cs_format sample_part_cfg) 0 0 (2 ^ 6) (2 ^ 6)) LUMA blank_partitioner"
    by (simp add: sample_ctu_def sample_part_cfg_def)
  have "0 < int (picW sample_part_cfg)" "0 < int (picH sample_part_cfg)" "cs_log2MinCB sample_part_cfg \<le> 6"
    by code_simp+
  then show ?thesis unfolding e by (intro walk_init) simp_all
qed

text \<open>
  C8: Every split of a coding tree area inside the picture that the split rules allow can be
  performed, whatever tree and mode type its parts get: no check of the partitioner fails, the area gets the parts the split has, every part
  keeps the minimum coding block size in both directions and the parts tile the area in every
  colour component.  At the picture boundary, where splits are forced, this holds as well.
\<close>

theorem allowed_split_safe:
  assumes "cfg_ok cs ch" "tree_walk cs ch p" "currPartIdx p < length (lv_parts (currPartLevel p))"
    and "in_pic cs (currArea p)" "chType p = ch \<or> lv_checkdIfImplicit (currPartLevel p)"
    and "cu_split split" "canSplit split cs p = Some (True, p')"
  shows "\<exists>q parts. splitCurrArea split cs (p'\<lparr>treeType := tt, modeType := mt\<rparr>) = Some q \<and> lv_parts (currPartLevel q) = parts \<and> length parts = part_count split \<and>
    (\<forall>u\<in>set parts. 2 ^ cs_log2MinCB cs \<le> width (blkY u) \<and> 2 ^ cs_log2MinCB cs \<le> height (blkY u)) \<and>
    (\<forall>k<length (blocks (currArea p)). comp_tiles parts (currArea p) k)"
proof -
  obtain l ls x y a b q nl where s: "m_partStack p' = l # ls" "level_area l = currArea p" "node cs (currArea p) x y a b"
    "split_facts cs ch (l # ls) split x y a b" "tree_walk cs ch p'"
    "splitCurrArea split cs (p'\<lparr>treeType := tt, modeType := mt\<rparr>) = Some q" "m_partStack q = nl # l # ls" "lv_split nl = split" "lv_idx nl = 0"
    "lv_parts nl = split_parts cs split x y a b" "tree_walk cs ch q"
    by (rule allowed_split_aux[OF assms])
  have e: "exp_fits (cs_log2MinCB cs) split a b" using s(4) by (simp add: split_facts_def)
  have "2 ^ cs_log2MinCB cs \<le> width (blkY u) \<and> 2 ^ cs_log2MinCB cs \<le> height (blkY u)" if m: "u \<in> set (lv_parts nl)" for u
  proof -
    obtain i where i: "i < part_count split" "u = luma_unit (cs_format cs) (part_rect split i (x, y, 2 ^ a, 2 ^ b))"
      using m by (auto simp: s(10) split_parts_def)
    note nd = child_node[OF s(3) e i(1) cfg_no2(2)[OF assms(1)], folded i(2)]
    then show ?thesis unfolding node_blkY(3,4)[OF nd] by (simp add: node_def power_increasing)
  qed
  moreover have "comp_tiles (lv_parts nl) (currArea p) k" if "k < length (blocks (currArea p))" for k
    using parts_tile[OF exp_fits_split_fits[OF e cfg_no2(2)[OF assms(1)]] cfg_no2(1)[OF assms(1)], of k "cs_format cs" x y] that
    unfolding s(10) split_parts_def luma_unit_node[OF s(3), symmetric] by blast
  ultimately show ?thesis
    using s(6,7,10) by (simp add: currPartLevel_def split_parts_def)
qed

theorem allowed_split_safe_witness:
  "\<exists>q. splitCurrArea CU_QUAD_SPLIT sample_part_cfg (sample_query\<lparr>treeType := TREE_L, modeType := MODE_TYPE_INTRA\<rparr>) = Some q \<and> length (lv_parts (currPartLevel q)) = 4 \<and>
    (\<forall>k<length (blocks (currArea sample_ctu)). comp_tiles (lv_parts (currPartLevel q)) (currArea sample_ctu) k)"
proof -
  have k: "in_pic sample_part_cfg (currArea sample_ctu)" "chType sample_ctu = LUMA" "part_count CU_QUAD_SPLIT = 4"
    by code_simp+
  show ?thesis
    using allowed_split_safe[OF sample_cfg_ok sample_walk _ k(1) _ _ sample_steps(1), where tt = TREE_L and mt = MODE_TYPE_INTRA] k(2,3)
    by (auto simp: sample_steps cu_split_def)
qed

text \<open>
  C17: A walk of the coding tree is never more than ten splits deep, so the stack of the partitioner
  stays below its static capacity without any check of the depth: each split makes the area at least
  a factor of two smaller, down to the minimum coding block.
\<close>

theorem coding_tree_depth:
  assumes "cfg_ok cs ch" "tree_walk cs ch p" "currPartIdx p < length (lv_parts (currPartLevel p))"
  shows "\<exists>a b. width (blkY (currArea p)) = 2 ^ a \<and> height (blkY (currArea p)) = 2 ^ b \<and>
    cs_log2MinCB cs \<le> a \<and> cs_log2MinCB cs \<le> b \<and> length (m_partStack p) + a + b \<le> 15"
proof -
  have w: "walk_ok cs ch p" by (rule tree_walk_ok[OF assms(1,2)])
  obtain l ls where st: "m_partStack p = l # ls" using w state_ok_stack unfolding walk_ok_def by blast
  have i: "lv_idx l < length (lv_parts l)" using assms(3) by (simp add: currPartIdx_def currPartLevel_def st)
  obtain x y a b where "node cs (level_area l) x y a b" "a + b + length (l # ls) \<le> 15"
    using walk_area[OF w st i] unfolding part_inv_def by blast
  then show ?thesis
    using node_blkY(3,4) by (intro exI[of _ a] exI[of _ b]) (auto simp: node_def currArea_def currPartLevel_def st)
qed

theorem coding_tree_depth_witness:
  "\<exists>a b. width (blkY (currArea sample_ctu)) = 2 ^ a \<and> height (blkY (currArea sample_ctu)) = 2 ^ b \<and> 1 + a + b \<le> 15"
  using coding_tree_depth[OF sample_cfg_ok sample_walk] by (auto simp: sample_steps)

end
