(* ===== verification/SplitSyntax.thy ===== *)
theory SplitSyntax
  imports TreeWalk Cabac Contexts
begin

text \<open>
  The syntax of the coding tree: \<open>split_cu_mode\<close> and \<open>mode_constraint\<close> of \<open>EncoderLib/CABACWriter.cpp\<close>
  and \<open>DecoderLib/CABACReader.cpp\<close>, their contexts (\<open>DeriveCtx::CtxSplit\<close> and \<open>CtxModeConsFlag\<close> of
  \<open>ContextModelling.cpp\<close>) and \<open>CodingStructure::signalModeCons\<close>.  The operations are parametrised by
  the coding of a bin with a context, \<open>encodeBin\<close> and \<open>decodeBin\<close> of the arithmetic coder.
\<close>

section \<open>Contexts of the split flags\<close>

text \<open>The unit left of or above the current area, if it is in the same slice and tile.\<close>

definition neighbour :: "PartCfg \<Rightarrow> Partitioner \<Rightarrow> int \<times> int \<Rightarrow> CodingUnit option" where
  "neighbour cs p off =
    (let pos = comp_pos (chan_block (currArea p) (chType p)) in
     getCURestricted cs (fst pos + fst off, snd pos + snd off) pos (cs_sliceIdx cs) (cs_tileIdx cs (lumaPos (currArea p))) (chType p))"

definition isIntra_cu :: "CodingUnit \<Rightarrow> bool" where
  "isIntra_cu cu = (cu_predMode cu = MODE_INTRA)"

definition CtxModeConsFlag :: "PartCfg \<Rightarrow> Partitioner \<Rightarrow> nat" where
  "CtxModeConsFlag cs p =
    (let cuLeft = neighbour cs p (- 1, 0); cuAbove = neighbour cs p (0, - 1) in
     if (\<exists>cu. cuAbove = Some cu \<and> isIntra_cu cu) \<or> (\<exists>cu. cuLeft = Some cu \<and> isIntra_cu cu) then 1 else 0)"

record SplitCtx =
  ctxSpl :: nat
  ctxQt :: nat
  ctxHv :: nat
  ctxHorBt :: nat
  ctxVerBt :: nat

text \<open>How many splits are allowed, a quad split counting twice.\<close>

definition num_splits :: "CanSplit \<Rightarrow> nat" where
  "num_splits f =
    (let numSplit = (if canQt f then 2 else 0) + (if canBh f then 1 else 0) + (if canBv f then 1 else 0) +
           (if canTh f then 1 else 0) + (if canTv f then 1 else 0)
     in if 0 < numSplit then numSplit - 1 else numSplit)"

definition ctx_hv :: "CanSplit \<Rightarrow> CompArea \<Rightarrow> CompArea option \<Rightarrow> CompArea option \<Rightarrow> nat" where
  "ctx_hv f area leftBlk aboveBlk =
    (let numHor = (if canBh f then 1 else 0) + (if canTh f then 1 else (0::nat));
         numVer = (if canBv f then 1 else 0) + (if canTv f then 1 else (0::nat))
     in if numVer = numHor then
          (let wAbove = (case aboveBlk of Some b \<Rightarrow> width b | None \<Rightarrow> 1);
               hLeft = (case leftBlk of Some b \<Rightarrow> height b | None \<Rightarrow> 1);
               depAbove = width area div wAbove;
               depLeft = height area div hLeft
           in if depAbove = depLeft \<or> leftBlk = None \<or> aboveBlk = None then 0
              else if depAbove < depLeft then 1 else 2)
        else if numVer < numHor then 3 else 4)"

definition CtxSplit :: "PartCfg \<Rightarrow> Partitioner \<Rightarrow> CanSplit \<Rightarrow> SplitCtx" where
  "CtxSplit cs p f =
    (let cuLeft = neighbour cs p (- 1, 0);
         cuAbove = neighbour cs p (0, - 1);
         area = chan_block (currArea p) (chType p);
         leftBlk = map_option (\<lambda>cu. chan_block (cu_area cu) (chType p)) cuLeft;
         aboveBlk = map_option (\<lambda>cu. chan_block (cu_area cu) (chType p)) cuAbove;
         deeper = (\<lambda>c. case c of Some cu \<Rightarrow> if currQtDepth p < ucast (cu_qtDepth cu) then 1 else 0 | None \<Rightarrow> (0::nat))
     in \<lparr>ctxSpl = (case leftBlk of Some b \<Rightarrow> if height b < height area then 1 else 0 | None \<Rightarrow> 0) +
           (case aboveBlk of Some b \<Rightarrow> if width b < width area then 1 else 0 | None \<Rightarrow> 0) + 3 * (num_splits f div 2),
         ctxQt = deeper cuLeft + deeper cuAbove + (if currQtDepth p < 2 then 0 else 3),
         ctxHv = ctx_hv f area leftBlk aboveBlk,
         ctxHorBt = (if currMtDepth p \<le> 1 then 1 else 0),
         ctxVerBt = (if currMtDepth p \<le> 1 then 3 else 2)\<rparr>)"

section \<open>The split mode\<close>

definition can_btt :: "CanSplit \<Rightarrow> bool" where
  "can_btt f = (canBh f \<or> canBv f \<or> canTh f \<or> canTv f)"

definition is_ver :: "PartSplit \<Rightarrow> bool" where
  "is_ver split = (split = CU_VERT_SPLIT \<or> split = CU_TRIV_SPLIT)"

text \<open>The flags of a decision, written one by one as far as the split rules leave a choice.\<close>

definition put_flag :: "(int \<Rightarrow> nat \<Rightarrow> 'e \<Rightarrow> 'e option) \<Rightarrow> bool \<Rightarrow> bool \<Rightarrow> nat \<Rightarrow> 'e \<Rightarrow> 'e option" where
  "put_flag putBin present b ctx e = (if present then putBin (of_bool b) ctx e else Some e)"

definition get_flag :: "(nat \<Rightarrow> 'd \<Rightarrow> (int \<times> 'd) option) \<Rightarrow> bool \<Rightarrow> bool \<Rightarrow> nat \<Rightarrow> 'd \<Rightarrow> (bool \<times> 'd) option" where
  "get_flag getBin present b ctx d = (if present then do { (v, d) \<leftarrow> getBin ctx d; Some (v \<noteq> 0, d) } else Some (b, d))"

definition put_btt :: "(int \<Rightarrow> nat \<Rightarrow> 'e \<Rightarrow> 'e option) \<Rightarrow> SplitCtx \<Rightarrow> CanSplit \<Rightarrow> PartSplit \<Rightarrow> 'e \<Rightarrow> 'e option" where
  "put_btt putBin c f split e =
    (let isVer = is_ver split in
     do {
       e \<leftarrow> put_flag putBin ((canBv f \<or> canTv f) \<and> (canBh f \<or> canTh f)) isVer (ctx_at SplitHvFlag (ctxHv c)) e;
       let can14 = (if isVer then canTv f else canTh f);
       let can12 = (if isVer then canBv f else canBh f);
       let is12 = (if isVer then split = CU_VERT_SPLIT else split = CU_HORZ_SPLIT);
       put_flag putBin (can12 \<and> can14) is12 (ctx_at Split12Flag (if isVer then ctxVerBt c else ctxHorBt c)) e
     })"

definition put_split_mode :: "(int \<Rightarrow> nat \<Rightarrow> 'e \<Rightarrow> 'e option) \<Rightarrow> SplitCtx \<Rightarrow> CanSplit \<Rightarrow> PartSplit \<Rightarrow> 'e \<Rightarrow> 'e option" where
  "put_split_mode putBin c f split e =
    do {
      e \<leftarrow> put_flag putBin (canNo f \<and> (can_btt f \<or> canQt f)) (split \<noteq> CU_DONT_SPLIT) (ctx_at SplitFlag (ctxSpl c)) e;
      if split = CU_DONT_SPLIT then Some e
      else do {
        e \<leftarrow> put_flag putBin (canQt f \<and> can_btt f) (split = CU_QUAD_SPLIT) (ctx_at SplitQtFlag (ctxQt c)) e;
        if split = CU_QUAD_SPLIT then Some e else put_btt putBin c f split e
      }
    }"

definition put_split_cu_mode ::
    "(int \<Rightarrow> nat \<Rightarrow> 'e \<Rightarrow> 'e option) \<Rightarrow> PartSplit \<Rightarrow> PartCfg \<Rightarrow> Partitioner \<Rightarrow> 'e \<Rightarrow> (Partitioner \<times> 'e) option" where
  "put_split_cu_mode putBin split cs p0 e =
    (case canSplit_all cs p0 of (f, p) \<Rightarrow>
       map_option (\<lambda>e. (p, e)) (put_split_mode putBin (CtxSplit cs p f) f split e))"

definition get_btt :: "(nat \<Rightarrow> 'd \<Rightarrow> (int \<times> 'd) option) \<Rightarrow> SplitCtx \<Rightarrow> CanSplit \<Rightarrow> 'd \<Rightarrow> (PartSplit \<times> 'd) option" where
  "get_btt getBin c f d =
    do {
      (isVer, d) \<leftarrow> get_flag getBin ((canBv f \<or> canTv f) \<and> (canBh f \<or> canTh f)) (canBv f \<or> canTv f) (ctx_at SplitHvFlag (ctxHv c)) d;
      let can14 = (if isVer then canTv f else canTh f);
      let can12 = (if isVer then canBv f else canBh f);
      (is12, d) \<leftarrow> get_flag getBin (can12 \<and> can14) can12 (ctx_at Split12Flag (if isVer then ctxVerBt c else ctxHorBt c)) d;
      Some (if isVer \<and> is12 then CU_VERT_SPLIT else if isVer \<and> \<not> is12 then CU_TRIV_SPLIT
            else if \<not> isVer \<and> is12 then CU_HORZ_SPLIT else CU_TRIH_SPLIT, d)
    }"

definition get_split_mode :: "(nat \<Rightarrow> 'd \<Rightarrow> (int \<times> 'd) option) \<Rightarrow> SplitCtx \<Rightarrow> CanSplit \<Rightarrow> 'd \<Rightarrow> (PartSplit \<times> 'd) option" where
  "get_split_mode getBin c f d =
    do {
      (isSplit, d) \<leftarrow> get_flag getBin (canNo f \<and> (can_btt f \<or> canQt f)) (can_btt f \<or> canQt f) (ctx_at SplitFlag (ctxSpl c)) d;
      if \<not> isSplit then Some (CU_DONT_SPLIT, d)
      else do {
        (isQt, d) \<leftarrow> get_flag getBin (canQt f \<and> can_btt f) (canQt f) (ctx_at SplitQtFlag (ctxQt c)) d;
        if isQt then Some (CU_QUAD_SPLIT, d) else get_btt getBin c f d
      }
    }"

definition get_split_cu_mode ::
    "(nat \<Rightarrow> 'd \<Rightarrow> (int \<times> 'd) option) \<Rightarrow> PartCfg \<Rightarrow> Partitioner \<Rightarrow> 'd \<Rightarrow> (PartSplit \<times> Partitioner \<times> 'd) option" where
  "get_split_cu_mode getBin cs p0 d =
    (case canSplit_all cs p0 of (f, p) \<Rightarrow>
       map_option (\<lambda>(split, d). (split, p, d)) (get_split_mode getBin (CtxSplit cs p f) f d))"

section \<open>The mode constraint\<close>

datatype ModeSignal = LDT_MODE_TYPE_INHERIT | LDT_MODE_TYPE_INFER | LDT_MODE_TYPE_SIGNAL

definition min_luma_area :: "PartSplit \<Rightarrow> nat \<Rightarrow> nat" where
  "min_luma_area split a =
    (if split = CU_QUAD_SPLIT \<or> split = CU_TRIH_SPLIT \<or> split = CU_TRIV_SPLIT then a div 4
     else if split = CU_VERT_SPLIT \<or> split = CU_HORZ_SPLIT then a div 2 else a)"

definition signalModeCons :: "PartCfg \<Rightarrow> PartSplit \<Rightarrow> Partitioner \<Rightarrow> ModeType \<Rightarrow> ModeSignal" where
  "signalModeCons cs split p modeTypeParent =
    (let u = currArea p; cf = unit_format u in
     if isDualITree cs \<or> modeTypeParent \<noteq> MODE_TYPE_ALL \<or> cf = CF_444 \<or> \<not> isChromaEnabled cf then LDT_MODE_TYPE_INHERIT
     else
       let minLumaArea = min_luma_area split (width (blkY u) * height (blkY u));
           minChromaBlock = minLumaArea div 2 ^ (getChannelTypeScaleX CHROMA cf + getChannelTypeScaleY CHROMA cf);
           is2xNChroma = (width (blkCb u) = 4 \<and> split = CU_VERT_SPLIT \<or> width (blkCb u) = 8 \<and> split = CU_TRIV_SPLIT)
       in if 16 \<le> minChromaBlock \<and> \<not> is2xNChroma then LDT_MODE_TYPE_INHERIT
          else if minLumaArea < 32 \<or> cs_sliceType cs = I_SLICE then LDT_MODE_TYPE_INFER
          else LDT_MODE_TYPE_SIGNAL)"

text \<open>The writer checks the mode it is given against what can be signalled or is inferred.\<close>

definition put_mode_constraint ::
    "(int \<Rightarrow> nat \<Rightarrow> 'e \<Rightarrow> 'e option) \<Rightarrow> PartSplit \<Rightarrow> PartCfg \<Rightarrow> Partitioner \<Rightarrow> ModeType \<Rightarrow> 'e \<Rightarrow> 'e option" where
  "put_mode_constraint putBin split cs p mt e =
    do {
      check (split = CU_DONT_SPLIT);
      (case signalModeCons cs split p (modeType p) of
         LDT_MODE_TYPE_SIGNAL \<Rightarrow>
           do {
             check (mt = MODE_TYPE_ALL);
             check (chType p \<noteq> LUMA);
             putBin (of_bool (mt = MODE_TYPE_INTRA)) (ctx_at ModeConsFlag (CtxModeConsFlag cs p)) e
           }
       | LDT_MODE_TYPE_INFER \<Rightarrow> do { check (mt \<noteq> MODE_TYPE_INTRA); Some e }
       | LDT_MODE_TYPE_INHERIT \<Rightarrow> do { check (mt \<noteq> modeType p); Some e })
    }"

definition get_mode_constraint ::
    "(nat \<Rightarrow> 'd \<Rightarrow> (int \<times> 'd) option) \<Rightarrow> PartCfg \<Rightarrow> Partitioner \<Rightarrow> PartSplit \<Rightarrow> 'd \<Rightarrow> (ModeType \<times> 'd) option" where
  "get_mode_constraint getBin cs p split d =
    (case signalModeCons cs split p (modeType p) of
       LDT_MODE_TYPE_SIGNAL \<Rightarrow>
         do {
           check (chType p \<noteq> LUMA);
           (flag, d) \<leftarrow> getBin (ctx_at ModeConsFlag (CtxModeConsFlag cs p)) d;
           Some (if flag \<noteq> 0 then MODE_TYPE_INTRA else MODE_TYPE_INTER, d)
         }
     | LDT_MODE_TYPE_INFER \<Rightarrow> Some (MODE_TYPE_INTRA, d)
     | LDT_MODE_TYPE_INHERIT \<Rightarrow> Some (modeType p, d))"

section \<open>Reading back the decisions\<close>

text \<open>The splits the flags allow.\<close>

definition allowed :: "CanSplit \<Rightarrow> PartSplit \<Rightarrow> bool" where
  "allowed f split = (if split = CU_DONT_SPLIT then canNo f else if split = CU_QUAD_SPLIT then canQt f
     else if split = CU_HORZ_SPLIT then canBh f else if split = CU_VERT_SPLIT then canBv f
     else if split = CU_TRIH_SPLIT then canTh f else split = CU_TRIV_SPLIT \<and> canTv f)"

lemma allowed_canSplit:
  "split = CU_DONT_SPLIT \<or> cu_split split \<Longrightarrow>
   canSplit split cs p = Some (allowed (fst (canSplit_all cs p)) split, snd (canSplit_all cs p))"
  by (cases split) (auto simp: canSplit_def allowed_def cu_split_def is_btt_def is_sbt_split_def Let_def split: prod.splits)

lemma allowed_cases: "allowed f split \<Longrightarrow> split = CU_DONT_SPLIT \<or> cu_split split"
  by (auto simp: allowed_def cu_split_def is_btt_def split: if_splits)

context prob_model
begin

lemma coded_flag:
  assumes "present \<or> b = b'"
  shows "coded pm_inv (put_flag (encodeBin pm) present b ctx) (get_flag (decodeBin pm) present b' ctx) b"
proof (cases present)
  case True
  have "coded pm_inv (encodeBin pm (of_bool b) ctx) (\<lambda>d. Option.bind (decodeBin pm ctx d) (\<lambda>(v, d). Some (v \<noteq> 0, d))) b"
    by (rule coded_map[OF coded_bin]) auto
  then show ?thesis
    by (rule coded_cong) (simp_all add: True put_flag_def get_flag_def)
next
  case False
  then show ?thesis
    by (intro coded_cong[OF coded_return[of pm_inv b']]) (use assms in \<open>simp_all add: put_flag_def get_flag_def\<close>)
qed

lemma coded_btt:
  assumes "allowed f split" "split \<noteq> CU_DONT_SPLIT" "split \<noteq> CU_QUAD_SPLIT"
  shows "coded pm_inv (put_btt (encodeBin pm) c f split) (get_btt (decodeBin pm) c f) split"
proof -
  let ?ver = "is_ver split"
  let ?can14 = "if ?ver then canTv f else canTh f" and ?can12 = "if ?ver then canBv f else canBh f"
    and ?is12 = "if ?ver then split = CU_VERT_SPLIT else split = CU_HORZ_SPLIT"
  have k: "split = CU_HORZ_SPLIT \<or> split = CU_VERT_SPLIT \<or> split = CU_TRIH_SPLIT \<or> split = CU_TRIV_SPLIT"
    using allowed_cases[OF assms(1)] assms(2,3) by (auto simp: cu_split_def is_btt_def)
  let ?ctx = "ctx_at Split12Flag (if ?ver then ctxVerBt c else ctxHorBt c)"
  have a: "?can12 \<and> ?can14 \<or> ?is12 = ?can12" using assms k by (auto simp: allowed_def is_ver_def)
  have b: "(canBv f \<or> canTv f) \<and> (canBh f \<or> canTh f) \<or> ?ver = (canBv f \<or> canTv f)"
    using assms k by (auto simp: allowed_def is_ver_def)
  have 2: "coded pm_inv (put_flag (encodeBin pm) (?can12 \<and> ?can14) ?is12 ?ctx)
      (\<lambda>d. Option.bind (get_flag (decodeBin pm) (?can12 \<and> ?can14) ?can12 ?ctx d) (\<lambda>(is12, d).
        Some (if ?ver \<and> is12 then CU_VERT_SPLIT else if ?ver \<and> \<not> is12 then CU_TRIV_SPLIT
          else if \<not> ?ver \<and> is12 then CU_HORZ_SPLIT else CU_TRIH_SPLIT, d))) split"
    by (rule coded_map[OF coded_flag[OF a]]) (use k in \<open>auto simp: is_ver_def\<close>)
  show ?thesis
    using coded_bind[OF coded_flag[OF b], where ?D2.0 = "\<lambda>isVer d. Option.bind
        (get_flag (decodeBin pm) ((if isVer then canBv f else canBh f) \<and> (if isVer then canTv f else canTh f)) (if isVer then canBv f else canBh f)
           (ctx_at Split12Flag (if isVer then ctxVerBt c else ctxHorBt c)) d) (\<lambda>(is12, d).
        Some (if isVer \<and> is12 then CU_VERT_SPLIT else if isVer \<and> \<not> is12 then CU_TRIV_SPLIT
          else if \<not> isVer \<and> is12 then CU_HORZ_SPLIT else CU_TRIH_SPLIT, d))", OF 2]
    unfolding put_btt_def get_btt_def Let_def .
qed

lemma coded_split_mode:
  assumes "allowed f split"
  shows "coded pm_inv (put_split_mode (encodeBin pm) c f split) (get_split_mode (decodeBin pm) c f) split"
proof -
  let ?D = "\<lambda>isQt d. if isQt then Some (CU_QUAD_SPLIT, d) else get_btt (decodeBin pm) c f d"
  let ?E = "\<lambda>e. if split = CU_QUAD_SPLIT then Some e else put_btt (encodeBin pm) c f split e"
  have k: "split = CU_DONT_SPLIT \<or> cu_split split" by (rule allowed_cases[OF assms])
  have a: "canNo f \<and> (can_btt f \<or> canQt f) \<or> (split \<noteq> CU_DONT_SPLIT) = (can_btt f \<or> canQt f)"
    using assms k by (auto simp: allowed_def can_btt_def cu_split_def is_btt_def split: if_splits)
  have q: "coded pm_inv (\<lambda>e. Option.bind (put_flag (encodeBin pm) (canQt f \<and> can_btt f) (split = CU_QUAD_SPLIT) (ctx_at SplitQtFlag (ctxQt c)) e) ?E)
      (\<lambda>d. Option.bind (get_flag (decodeBin pm) (canQt f \<and> can_btt f) (canQt f) (ctx_at SplitQtFlag (ctxQt c)) d) (\<lambda>(isQt, d). ?D isQt d)) split"
    if n: "split \<noteq> CU_DONT_SPLIT"
  proof (rule coded_bind)
    have "canQt f \<and> can_btt f \<or> (split = CU_QUAD_SPLIT) = canQt f"
      using assms k n by (auto simp: allowed_def can_btt_def cu_split_def is_btt_def split: if_splits)
    then show "coded pm_inv (put_flag (encodeBin pm) (canQt f \<and> can_btt f) (split = CU_QUAD_SPLIT) (ctx_at SplitQtFlag (ctxQt c)))
        (get_flag (decodeBin pm) (canQt f \<and> can_btt f) (canQt f) (ctx_at SplitQtFlag (ctxQt c))) (split = CU_QUAD_SPLIT)"
      by (rule coded_flag)
    show "coded pm_inv ?E (?D (split = CU_QUAD_SPLIT)) split"
      using coded_btt[OF assms n] coded_return[of pm_inv CU_QUAD_SPLIT] by (cases "split = CU_QUAD_SPLIT") simp_all
  qed
  let ?D1 = "\<lambda>isSplit d. if \<not> isSplit then Some (CU_DONT_SPLIT, d) else
      Option.bind (get_flag (decodeBin pm) (canQt f \<and> can_btt f) (canQt f) (ctx_at SplitQtFlag (ctxQt c)) d) (\<lambda>(isQt, d). ?D isQt d)"
  let ?E1 = "\<lambda>e. if split = CU_DONT_SPLIT then Some e else
      Option.bind (put_flag (encodeBin pm) (canQt f \<and> can_btt f) (split = CU_QUAD_SPLIT) (ctx_at SplitQtFlag (ctxQt c)) e) ?E"
  have "coded pm_inv ?E1 (?D1 (split \<noteq> CU_DONT_SPLIT)) split"
    using q coded_return[of pm_inv CU_DONT_SPLIT] by (cases "split = CU_DONT_SPLIT") simp_all
  from coded_bind[OF coded_flag[OF a, where ctx = "ctx_at SplitFlag (ctxSpl c)"], where ?D2.0 = ?D1, OF this]
  show ?thesis unfolding put_split_mode_def get_split_mode_def .
qed

end

section \<open>Total sources of bins\<close>

text \<open>With a source of bins that never fails, the split mode read is an allowed one.\<close>

definition total_bins :: "(nat \<Rightarrow> 'd \<Rightarrow> (int \<times> 'd) option) \<Rightarrow> bool" where
  "total_bins getBin = (\<forall>i d. getBin i d \<noteq> None)"

lemma get_flag_total:
  assumes "total_bins getBin"
  obtains v d' where "get_flag getBin present b ctx d = Some (v, d')" "present \<or> v = b"
proof (cases present)
  case True
  obtain v d' where "getBin ctx d = Some (v, d')" using assms unfolding total_bins_def by (metis option.exhaust surj_pair)
  then show ?thesis using that True by (simp add: get_flag_def)
next
  case False
  then show ?thesis using that by (simp add: get_flag_def)
qed

lemma get_btt_total:
  assumes t: "total_bins getBin" and f: "can_btt f"
  obtains split d' where "get_btt getBin c f d = Some (split, d')" "allowed f split" "is_btt split"
proof -
  obtain isVer d1 where 1: "get_flag getBin ((canBv f \<or> canTv f) \<and> (canBh f \<or> canTh f)) (canBv f \<or> canTv f) (ctx_at SplitHvFlag (ctxHv c)) d = Some (isVer, d1)"
    "(canBv f \<or> canTv f) \<and> (canBh f \<or> canTh f) \<or> isVer = (canBv f \<or> canTv f)"
    by (rule get_flag_total[OF t])
  let ?can14 = "if isVer then canTv f else canTh f" and ?can12 = "if isVer then canBv f else canBh f"
  obtain is12 d2 where 2: "get_flag getBin (?can12 \<and> ?can14) ?can12 (ctx_at Split12Flag (if isVer then ctxVerBt c else ctxHorBt c)) d1 = Some (is12, d2)"
    "?can12 \<and> ?can14 \<or> is12 = ?can12"
    by (rule get_flag_total[OF t])
  let ?s = "if isVer \<and> is12 then CU_VERT_SPLIT else if isVer \<and> \<not> is12 then CU_TRIV_SPLIT
            else if \<not> isVer \<and> is12 then CU_HORZ_SPLIT else CU_TRIH_SPLIT"
  have "get_btt getBin c f d = Some (?s, d2)" using 1(1) 2(1) by (simp add: get_btt_def Let_def)
  moreover have "allowed f ?s" using 1(2) 2(2) f by (auto simp: allowed_def can_btt_def)
  moreover have "is_btt ?s" by (auto simp: is_btt_def)
  ultimately show thesis using that by blast
qed

lemma get_split_mode_total:
  assumes t: "total_bins getBin" and f: "canNo f \<or> canQt f \<or> can_btt f"
  obtains split d' where "get_split_mode getBin c f d = Some (split, d')" "allowed f split"
proof -
  obtain isSplit d1 where 1: "get_flag getBin (canNo f \<and> (can_btt f \<or> canQt f)) (can_btt f \<or> canQt f) (ctx_at SplitFlag (ctxSpl c)) d = Some (isSplit, d1)"
    "canNo f \<and> (can_btt f \<or> canQt f) \<or> isSplit = (can_btt f \<or> canQt f)"
    by (rule get_flag_total[OF t])
  show thesis
  proof (cases isSplit)
    case False
    then show ?thesis using 1 f by (intro that[of CU_DONT_SPLIT d1]) (auto simp: get_split_mode_def allowed_def)
  next
    case True
    obtain isQt d2 where 2: "get_flag getBin (canQt f \<and> can_btt f) (canQt f) (ctx_at SplitQtFlag (ctxQt c)) d1 = Some (isQt, d2)"
      "canQt f \<and> can_btt f \<or> isQt = canQt f"
      by (rule get_flag_total[OF t])
    show ?thesis
    proof (cases isQt)
      case qt: True
      then show ?thesis using 1(1) 2 True by (intro that[of CU_QUAD_SPLIT d2]) (auto simp: get_split_mode_def allowed_def)
    next
      case nq: False
      then have "can_btt f" using 1(2) 2(2) True by auto
      then obtain split d3 where "get_btt getBin c f d2 = Some (split, d3)" "allowed f split"
        using get_btt_total[OF t] by metis
      then show ?thesis using 1(1) 2(1) True nq by (intro that[of split d3]) (auto simp: get_split_mode_def)
    qed
  qed
qed

text \<open>Some decision is always allowed.\<close>

lemma some_split_allowed: "let f = fst (canSplit_all cs p) in canNo f \<or> canQt f \<or> can_btt f"
  by (auto simp: canSplit_all_def btt_flags_def implicit_flags_def can_btt_def Let_def split: prod.splits)

section \<open>Sequences of decisions\<close>

text \<open>The decisions \<open>coding_tree\<close> codes at an area: the split and, for a split, the mode of its parts.\<close>

type_synonym Decision = "Partitioner \<times> PartSplit \<times> ModeType"

definition put_decision :: "(int \<Rightarrow> nat \<Rightarrow> 'e \<Rightarrow> 'e option) \<Rightarrow> PartCfg \<Rightarrow> Decision \<Rightarrow> 'e \<Rightarrow> 'e option" where
  "put_decision putBin cs dec e =
    (case dec of (p, split, mt) \<Rightarrow>
       do {
         (p, e) \<leftarrow> put_split_cu_mode putBin split cs p e;
         (if split = CU_DONT_SPLIT then Some e else put_mode_constraint putBin split cs p mt e)
       })"

definition get_decision ::
    "(nat \<Rightarrow> 'd \<Rightarrow> (int \<times> 'd) option) \<Rightarrow> PartCfg \<Rightarrow> Partitioner \<Rightarrow> 'd \<Rightarrow> ((PartSplit \<times> ModeType) \<times> 'd) option" where
  "get_decision getBin cs p d =
    do {
      (split, p, d) \<leftarrow> get_split_cu_mode getBin cs p d;
      (if split = CU_DONT_SPLIT then Some ((split, modeType p), d)
       else do { (mt, d) \<leftarrow> get_mode_constraint getBin cs p split d; Some ((split, mt), d) })
    }"

fun put_decisions :: "(int \<Rightarrow> nat \<Rightarrow> 'e \<Rightarrow> 'e option) \<Rightarrow> PartCfg \<Rightarrow> Decision list \<Rightarrow> 'e \<Rightarrow> 'e option" where
  "put_decisions putBin cs [] e = Some e"
| "put_decisions putBin cs (x # xs) e = do { e \<leftarrow> put_decision putBin cs x e; put_decisions putBin cs xs e }"

fun get_decisions ::
    "(nat \<Rightarrow> 'd \<Rightarrow> (int \<times> 'd) option) \<Rightarrow> PartCfg \<Rightarrow> Partitioner list \<Rightarrow> 'd \<Rightarrow> ((PartSplit \<times> ModeType) list \<times> 'd) option" where
  "get_decisions getBin cs [] d = Some ([], d)"
| "get_decisions getBin cs (p # ps) d =
    do { (v, d) \<leftarrow> get_decision getBin cs p d; (vs, d) \<leftarrow> get_decisions getBin cs ps d; Some (v # vs, d) }"

text \<open>A decision the writer may be given: an allowed split and a mode that is inherited, inferred or signalled.\<close>

definition mode_ok :: "PartCfg \<Rightarrow> PartSplit \<Rightarrow> Partitioner \<Rightarrow> ModeType \<Rightarrow> bool" where
  "mode_ok cs split p mt =
    (if split = CU_DONT_SPLIT then mt = modeType p
     else case signalModeCons cs split p (modeType p) of
       LDT_MODE_TYPE_SIGNAL \<Rightarrow> mt \<noteq> MODE_TYPE_ALL \<and> chType p = LUMA
     | LDT_MODE_TYPE_INFER \<Rightarrow> mt = MODE_TYPE_INTRA
     | LDT_MODE_TYPE_INHERIT \<Rightarrow> mt = modeType p)"

definition decision_ok :: "PartCfg \<Rightarrow> Decision \<Rightarrow> bool" where
  "decision_ok cs dec = (case dec of (p, split, mt) \<Rightarrow>
     (case canSplit_all cs p of (f, q) \<Rightarrow> allowed f split \<and> mode_ok cs split q mt))"

context prob_model
begin

lemma coded_mode_constraint:
  assumes "mode_ok cs split p mt" "split \<noteq> CU_DONT_SPLIT"
  shows "coded pm_inv (put_mode_constraint (encodeBin pm) split cs p mt) (get_mode_constraint (decodeBin pm) cs p split) mt"
proof (cases "signalModeCons cs split p (modeType p)")
  case LDT_MODE_TYPE_SIGNAL
  then have m: "mt = MODE_TYPE_INTRA \<or> mt = MODE_TYPE_INTER" and l: "chType p = LUMA"
    using assms by (auto simp: mode_ok_def intro: ModeType.exhaust[of mt])
  have "coded pm_inv (encodeBin pm (of_bool (mt = MODE_TYPE_INTRA)) (ctx_at ModeConsFlag (CtxModeConsFlag cs p)))
      (\<lambda>d. Option.bind (decodeBin pm (ctx_at ModeConsFlag (CtxModeConsFlag cs p)) d)
        (\<lambda>(flag, d). Some (if flag \<noteq> 0 then MODE_TYPE_INTRA else MODE_TYPE_INTER, d))) mt"
    by (rule coded_map[OF coded_bin]) (use m in auto)
  then show ?thesis
    by (rule coded_cong) (use m l assms(2) in \<open>auto simp: put_mode_constraint_def get_mode_constraint_def LDT_MODE_TYPE_SIGNAL\<close>)
qed (rule coded_cong[OF coded_return[of pm_inv mt]];
     use assms in \<open>simp add: put_mode_constraint_def get_mode_constraint_def mode_ok_def\<close>)+

lemma coded_decision:
  assumes "decision_ok cs (p, split, mt)"
  shows "coded pm_inv (put_decision (encodeBin pm) cs (p, split, mt)) (get_decision (decodeBin pm) cs p) (split, mt)"
proof -
  obtain f q where fq: "canSplit_all cs p = (f, q)" by (cases "canSplit_all cs p")
  have a: "allowed f split" and m: "mode_ok cs split q mt" using assms by (simp_all add: decision_ok_def fq)
  let ?E = "\<lambda>e. if split = CU_DONT_SPLIT then Some e else put_mode_constraint (encodeBin pm) split cs q mt e"
  let ?D = "\<lambda>s d. if s = CU_DONT_SPLIT then Some ((s, modeType q), d)
       else Option.bind (get_mode_constraint (decodeBin pm) cs q s d) (\<lambda>(mt, d). Some ((s, mt), d))"
  have 2: "coded pm_inv ?E (?D split) (split, mt)"
  proof (cases "split = CU_DONT_SPLIT")
    case True
    then show ?thesis using m coded_return[of pm_inv "(split, mt)"] by (simp add: mode_ok_def)
  next
    case False
    then show ?thesis using coded_map[OF coded_mode_constraint[OF m False], of "(split, mt)" "Pair split"] by simp
  qed
  show ?thesis
    by (rule coded_cong[OF coded_bind[OF coded_split_mode[OF a, of "CtxSplit cs q f"], where ?D2.0 = ?D, OF 2]])
       (simp_all add: put_decision_def get_decision_def put_split_cu_mode_def get_split_cu_mode_def fq map_conv_bind_option
          case_prod_unfold cong: if_cong)
qed

lemma coded_decisions:
  "list_all (decision_ok cs) xs \<Longrightarrow>
   coded pm_inv (put_decisions (encodeBin pm) cs xs) (get_decisions (decodeBin pm) cs (map fst xs)) (map snd xs)"
proof (induction xs)
  case Nil
  show ?case by (rule coded_cong[OF coded_return]) simp_all
next
  case (Cons x xs)
  obtain p split mt where x: "x = (p, split, mt)" by (cases x)
  have 1: "coded pm_inv (put_decision (encodeBin pm) cs x) (get_decision (decodeBin pm) cs p) (split, mt)"
    unfolding x by (rule coded_decision) (use Cons.prems x in simp)
  have 2: "coded pm_inv (put_decisions (encodeBin pm) cs xs) (get_decisions (decodeBin pm) cs (map fst xs)) (map snd xs)"
    using Cons by simp
  show ?case
    by (rule coded_cong[OF coded_bind[OF 1, where ?D2.0 = "\<lambda>v d. Option.bind (get_decisions (decodeBin pm) cs (map fst xs) d) (\<lambda>(vs, d). Some (v # vs, d))",
            OF coded_map[OF 2, of "(split, mt) # map snd xs" "\<lambda>vs. (split, mt) # vs"]]])
       (simp_all add: x)
qed

end

section \<open>Properties\<close>

text \<open>
  C3: The syntax of the coding tree is lossless.  Any sequence of split decisions the split rules
  allow, each with a mode that is inherited, inferred or signalled as \<open>signalModeCons\<close> says, is
  written without an error; a reader that derives the same contexts, given the bytes written among
  others, recovers every split and mode, recognises the end and consumes exactly those bytes.
\<close>

theorem split_decisions_roundtrip:
  assumes "list_all (decision_ok cs) xs" "std_valid e"
  shows "\<exists>e' F. encode_substream (put_decisions (encodeBin Std) cs xs) e = Some e' \<and>
    ob_bits (e_bitstream e') = ob_bits (e_bitstream e) @ bits_of_bytes F \<and> list_all is_byte F \<and>
    (\<forall>d pre rest. list_all is_byte (pre @ rest) \<and>
       d_bitstream d = i_create\<lparr>i_fifo := pre @ F @ rest, i_fifoIdx := length pre\<rparr> \<and> d_ctx d = e_ctx e \<longrightarrow>
       (\<exists>d'. decode_substream (get_decisions (decodeBin Std) cs (map fst xs)) d = Some (map snd xs, True, d') \<and>
          i_fifoIdx (d_bitstream d') = length pre + length F))"
  using std_substream[OF std.coded_decisions[OF assms(1)] assms(2)] by blast

definition sample_decisions :: "Decision list" where
  "sample_decisions = [(sample_ctu, CU_QUAD_SPLIT, MODE_TYPE_ALL), (sample_quad, CU_TRIV_SPLIT, MODE_TYPE_ALL),
     (sample_tt, CU_DONT_SPLIT, MODE_TYPE_ALL)]"

lemma decision_okI:
  assumes "canSplit split cs p = Some (True, q)" "split = CU_DONT_SPLIT \<or> cu_split split" "mode_ok cs split q mt"
  shows "decision_ok cs (p, split, mt)"
  using assms(1,3) unfolding allowed_canSplit[OF assms(2)] by (auto simp: decision_ok_def split: prod.splits)

definition sample_leaf_query :: Partitioner where
  "sample_leaf_query = snd (the (canSplit CU_DONT_SPLIT sample_part_cfg sample_tt))"

lemma sample_modes:
  "canSplit CU_DONT_SPLIT sample_part_cfg sample_tt = Some (True, sample_leaf_query)" "modeType sample_leaf_query = MODE_TYPE_ALL"
  "modeType sample_query = MODE_TYPE_ALL" "modeType sample_tt_query = MODE_TYPE_ALL" "isDualITree sample_part_cfg = False"
  "unit_format (currArea sample_query) = CF_420" "unit_format (currArea sample_tt_query) = CF_420"
  "width (blkY (currArea sample_query)) = 64" "height (blkY (currArea sample_query)) = 64"
  "width (blkY (currArea sample_tt_query)) = 32" "height (blkY (currArea sample_tt_query)) = 32" "width (blkCb (currArea sample_tt_query)) = 16"
  by code_simp+

lemma sample_decisions_ok:
  "decision_ok sample_part_cfg (sample_ctu, CU_QUAD_SPLIT, MODE_TYPE_ALL)"
  "decision_ok sample_part_cfg (sample_quad, CU_TRIV_SPLIT, MODE_TYPE_ALL)"
  "decision_ok sample_part_cfg (sample_tt, CU_DONT_SPLIT, MODE_TYPE_ALL)"
proof -
  note s = mode_ok_def signalModeCons_def Let_def sample_modes min_luma_area_def getChannelTypeScaleX_def getChannelTypeScaleY_def isChromaEnabled_def
  show "decision_ok sample_part_cfg (sample_ctu, CU_QUAD_SPLIT, MODE_TYPE_ALL)"
    by (rule decision_okI[OF sample_steps(1)]) (simp_all add: s cu_split_def)
  show "decision_ok sample_part_cfg (sample_quad, CU_TRIV_SPLIT, MODE_TYPE_ALL)"
    by (rule decision_okI[OF sample_tt_steps(1)]) (simp_all add: s cu_split_def is_btt_def)
  show "decision_ok sample_part_cfg (sample_tt, CU_DONT_SPLIT, MODE_TYPE_ALL)"
    by (rule decision_okI[OF sample_modes(1)]) (simp_all add: mode_ok_def sample_modes)
qed

theorem split_decisions_roundtrip_witness:
  "\<exists>e' F d'. encode_substream (put_decisions (encodeBin Std) sample_part_cfg sample_decisions) sample_encoder = Some e' \<and>
    decode_substream (get_decisions (decodeBin Std) sample_part_cfg [sample_ctu, sample_quad, sample_tt]) (sample_decoder [] F []) =
      Some ([(CU_QUAD_SPLIT, MODE_TYPE_ALL), (CU_TRIV_SPLIT, MODE_TYPE_ALL), (CU_DONT_SPLIT, MODE_TYPE_ALL)], True, d')"
proof -
  have "list_all (decision_ok sample_part_cfg) sample_decisions" by (simp add: sample_decisions_def sample_decisions_ok)
  moreover have "std_valid sample_encoder"
    by (simp add: std_valid_def sample_encoder_def std_create_def std_inv_def DWS_def o_clear_def ob_inv_def is_byte_def)
  ultimately obtain e' F where e': "encode_substream (put_decisions (encodeBin Std) sample_part_cfg sample_decisions) sample_encoder = Some e'"
    and dec: "\<forall>d pre rest. list_all is_byte (pre @ rest) \<and>
       d_bitstream d = i_create\<lparr>i_fifo := pre @ F @ rest, i_fifoIdx := length pre\<rparr> \<and> d_ctx d = e_ctx sample_encoder \<longrightarrow>
       (\<exists>d'. decode_substream (get_decisions (decodeBin Std) sample_part_cfg (map fst sample_decisions)) d = Some (map snd sample_decisions, True, d') \<and>
          i_fifoIdx (d_bitstream d') = length pre + length F)"
    using split_decisions_roundtrip[of sample_part_cfg sample_decisions sample_encoder] by blast
  from dec[rule_format, of "[]" "[]" "sample_decoder [] F []"] e' show ?thesis
    by (auto simp: sample_decoder_def sample_encoder_def sample_decisions_def)
qed

end
