(* ===== verification/Spec2Isabelle.thy ===== *)
theory Spec2Isabelle
  imports AnnexB BitEstimator Sparsity ResidualBlock SplitSyntax
begin

text \<open>
  A model of the core of the VVC reference software (VTM 24.0): the path of a coded picture from
  the partitioning of a tree unit and the transform of its blocks through the entropy coder to the
  byte stream, and back.  Every file name below is under \<open>source/Lib/\<close>.

  \<^bold>\<open>How the program's parts fit together.\<close>  A coding tree unit is split by the partitioner
  (\<open>CommonLib/UnitPartitioner\<close>) into coding units and transform units.  The residual of a transform
  unit is transformed (\<open>CommonLib/TrQuant\<close>, \<open>TrQuant_EMT\<close>, matrices in \<open>RomTr\<close>), quantised, and its
  levels are written by \<open>CABACWriter::residual_coding\<close> in the order of the scans of \<open>Rom.cpp\<close>, under
  the contexts of \<open>ContextModelling.h\<close>, through the arithmetic encoder (\<open>EncoderLib/BinEncoder\<close>) with
  the adaptive models of \<open>CommonLib/Contexts\<close>.  The payload goes through a bit container
  (\<open>CommonLib/BitStream\<close>), gets emulation prevention and a header (\<open>EncoderLib/NALwrite\<close>) and start
  codes (\<open>EncoderLib/AnnexBwrite.h\<close>).  The decoder undoes each step (\<open>DecoderLib/AnnexBread\<close>,
  \<open>NALread\<close>, \<open>BinDecoder\<close>, \<open>CABACReader\<close>).

  \<^bold>\<open>Theories and the code they model.\<close>
  \<^item> \<open>Prelude\<close>: integer conversions of C++ on \<open>int\<close>, bit strings, failing checks (\<open>CHECK\<close> and \<open>THROW\<close>
    are \<open>None\<close>), and the collections of hints.
  \<^item> \<open>OutputStream\<close>, \<open>InputStream\<close>: \<open>OutputBitstream\<close> and \<open>InputBitstream\<close> as records of their fields,
    one definition per member function; their lemmas read both as bit strings.
  \<^item> \<open>Vlc\<close>: the elements of \<open>VLCWriter\<close> and \<open>VLCReader\<close>, trailing bits, access unit delimiter,
    filler data.
  \<^item> \<open>NalUnit\<close>, \<open>AnnexB\<close>: NAL unit header, emulation prevention in both directions, the byte stream
    reader with its look-ahead buffer and the access unit writer.
  \<^item> \<open>ProbModel\<close>: \<open>BinProbModel_Std\<close> and the locale \<open>prob_model\<close>, the laws the two coders need of a
    model; the interpretation \<open>std\<close> discharges them.
  \<^item> \<open>BinEncoder\<close>, \<open>BinDecoder\<close>, \<open>Cabac\<close>: \<open>TBinEncoder\<close>, \<open>TBinDecoder\<close> and their agreement; \<open>coded E D v\<close>
    says that the operations \<open>E\<close> and \<open>D\<close> are inverse with value \<open>v\<close> on every code, so that
    syntax is proved compositionally.
  \<^item> \<open>Contexts\<close>, \<open>BitEstimator\<close>: the initialisation tables, context sets, the store of models and the
    fractional bit counts.
  \<^item> \<open>ScanOrder\<close>, \<open>CoeffCtx\<close>, \<open>Residual\<close>: \<open>ScanGenerator\<close> and the scans of \<open>initROM\<close>,
    \<open>CoeffCodingContext\<close>, and \<open>residual_coding\<close> of writer and reader in the passes of the code;
    \<open>ResidualSync\<close>, \<open>ResidualTrip\<close>, \<open>ResidualBlock\<close> relate the two pass by pass.
  \<^item> \<open>RomTr\<close>, \<open>Transform\<close>, \<open>FastDct2\<close>, \<open>FastMts\<close>: the transform matrices, the matrix routines and every
    fast routine, each equal to the matrix product; \<open>TrQuant\<close>: \<open>xT\<close>, \<open>xIT\<close>, transform skip and the
    counters of \<open>CDSATMStats.h\<close>; \<open>Sparsity\<close>: the counters as sums over a log of events.
  \<^item> \<open>Area\<close>, \<open>UnitPartition\<close>, \<open>Partitioner\<close>, \<open>SplitSeries\<close>: areas of samples, the partitionings of a unit
    area, the partitioner as a state machine over the stack of levels, and the packed decisions
    of a coding unit.  \<open>TreeGeometry\<close>, \<open>TreeWalk\<close>: the luma geometry of the splits and the walks of
    the coding tree (\<open>tree_walk\<close>, the calls \<open>coding_tree\<close> makes); \<open>SplitSyntax\<close>: \<open>split_cu_mode\<close>,
    \<open>mode_constraint\<close>, \<open>CtxSplit\<close> and \<open>signalModeCons\<close>; \<open>CuCtx\<close>: the state shared within a unit.

  \<^bold>\<open>State.\<close>  A class is a record of its members and every member function returns the updated
  record.  The two coders keep \<open>uint32_t\<close> registers as \<open>int\<close> with the wrap-around written out
  (\<open>u32\<close>); counters and series of the partitioner are \<open>32 word\<close> and \<open>64 word\<close>.  Sample buffers are
  lists, coefficient blocks functions of the raster position.

  \<^bold>\<open>What the properties show.\<close>  Round trips: what the writer side produces the reader side gives
  back, consuming exactly the bits written (NAL units, exponential Golomb codes, arithmetic codes,
  transform blocks, the split decisions of a coding unit and of the coding tree syntax).  Equivalences: the fast transforms are matrix products, the
  counts of emulation bytes and of estimated bins are the exact ones.  Invariants: registers of the
  encoder, store of models, stack and counters of the partitioner.  Safety and errors: the output
  has no forbidden byte sequence, malformed input is rejected, and every split the rules allow for
  an area in the picture can be performed with no failing check, its parts tiling the area (for
  configurations \<open>cfg_ok\<close>, the constraints of the parameter sets).  Liveness: extraction of NAL units
  reaches the end of every stream.

  \<^bold>\<open>Bounds and fuel.\<close>  Loops over data are structural.  \<open>byteStreamNALUnit\<close> and the bin loops of the
  decoder recurse on what is left of the input.  Transform sizes are the ones of the tables (2 to
  64), blocks of the residual coder 4 to 64 wide, tree units up to 128, partition stacks up to the
  capacity 15 of the static vector; a walk of the coding tree needs 11 levels of it.

  \<^bold>\<open>Not modelled.\<close>  Quantisation and rate-distortion search (double arithmetic), prediction and loop
  filters (sample arithmetic over shared buffers with SIMD variants), parameter sets and SEI
  messages (long straight-line syntax), the applications and file I/O; of the modelled files the
  vector kernels installed by \<open>initTrQuantX86\<close>, the CSV output of the sparsity counters, the
  transform-skip residual syntax, and the recursion of \<open>coding_tree\<close> with \<open>coding_unit\<close> at its leaves.  The lookup of coding units by position is a list in coding order.
\<close>

end
